(* ===== verification/Dotmd_Prelude.thy ===== *)
theory Dotmd_Prelude
  imports Complex_Main "HOL-Library.AList" "HOL-Library.Multiset" "HOL-Library.Char_ord"
    "HOL-Library.List_Lexorder" "HOL-Library.Product_Lexorder"
begin

text \<open>
  The vocabulary every component shares.  A Python dict is an association list
  whose keys are distinct, in insertion order: \<open>d[k] = v\<close> is \<open>dict_set\<close> (it
  overwrites in place and appends a new key at the end), \<open>d.pop(k, None)\<close> is
  \<open>dict_pop\<close>, \<open>d.get(k)\<close> is \<open>dict_get\<close>.  A raise is the left side of a sum,
  sequenced by \<open>try_bind\<close>.  Slices and the descending stable sort follow
  Python's \<open>list\<close> semantics.  The collection \<open>dict_simps\<close> holds the laws of the
  dict operations.
\<close>

named_theorems dict_simps \<open>laws of the dict operations\<close>

section \<open>Dicts\<close>

type_synonym ('k, 'v) dict = "('k \<times> 'v) list"

abbreviation dict_get :: "('k, 'v) dict \<Rightarrow> 'k \<Rightarrow> 'v option" where
  "dict_get d k \<equiv> map_of d k"

abbreviation dict_set :: "'k \<Rightarrow> 'v \<Rightarrow> ('k, 'v) dict \<Rightarrow> ('k, 'v) dict" where
  "dict_set \<equiv> AList.update"

abbreviation dict_pop :: "'k \<Rightarrow> ('k, 'v) dict \<Rightarrow> ('k, 'v) dict" where
  "dict_pop \<equiv> AList.delete"

abbreviation dict_keys :: "('k, 'v) dict \<Rightarrow> 'k list" where
  "dict_keys d \<equiv> map fst d"

abbreviation dict_ok :: "('k, 'v) dict \<Rightarrow> bool" where
  "dict_ok d \<equiv> distinct (map fst d)"

definition dict_get_default :: "('k, 'v) dict \<Rightarrow> 'k \<Rightarrow> 'v \<Rightarrow> 'v" where
  "dict_get_default d k v = (case dict_get d k of None \<Rightarrow> v | Some x \<Rightarrow> x)"

lemma dict_get_set [dict_simps, simp]:
  "dict_get (dict_set k v d) = (dict_get d)(k \<mapsto> v)"
  by (rule AList.update_conv')

lemma dict_get_pop [dict_simps, simp]:
  "dict_get (dict_pop k d) = (dict_get d)(k := None)"
  by (rule AList.delete_conv')

lemma dict_ok_set [intro, dict_simps]: "dict_ok d \<Longrightarrow> dict_ok (dict_set k v d)"
  by (rule AList.distinct_update)

lemma dict_ok_pop [intro, dict_simps]: "dict_ok d \<Longrightarrow> dict_ok (dict_pop k d)"
  by (rule AList.distinct_delete)

lemma dict_ok_filter [intro, dict_simps]: "dict_ok d \<Longrightarrow> dict_ok (filter P d)"
  by (induction d) auto

lemma set_dict_keys_set [dict_simps, simp]:
  "set (dict_keys (dict_set k v d)) = insert k (set (dict_keys d))"
  by (simp add: AList.dom_update)

lemma image_fst_dict_set [dict_simps, simp]: "fst ` set (dict_set k v d) = insert k (fst ` set d)"
  by (simp add: AList.dom_update)

lemma dict_get_None_iff [dict_simps]: "dict_get d k = None \<longleftrightarrow> k \<notin> set (dict_keys d)"
  by (auto simp: map_of_eq_None_iff)

lemma dict_get_filter [dict_simps]:
  "dict_ok d \<Longrightarrow> dict_get (filter (\<lambda>(k, v). P k v) d) k =
     (case dict_get d k of None \<Rightarrow> None | Some v \<Rightarrow> if P k v then Some v else None)"
  by (induction d) (auto simp: dict_get_None_iff image_iff split: option.splits)

lemma length_dict_set:
  "length (dict_set k v d) = (if k \<in> set (dict_keys d) then length d else Suc (length d))"
  by (induction d) auto

lemma dict_pop_filter: "dict_pop k d = filter (\<lambda>p. k \<noteq> fst p) d"
  by (simp add: AList.delete_eq case_prod_unfold)

lemma length_dict_pop:
  "dict_ok d \<Longrightarrow> k \<in> set (dict_keys d) \<Longrightarrow> Suc (length (dict_pop k d)) = length d"
proof (induction d)
  case Nil
  then show ?case by simp
next
  case (Cons p d)
  show ?case
  proof (cases "fst p = k")
    case True
    with Cons.prems have "filter (\<lambda>p. k \<noteq> fst p) d = d"
      by (intro filter_True) (force simp: image_iff)
    with True show ?thesis by (simp add: dict_pop_filter)
  next
    case False
    with Cons show ?thesis by (auto simp: dict_pop_filter)
  qed
qed

lemma set_dict_set_subset: "set (dict_set k v d) \<subseteq> insert (k, v) (set d)"
  by (induction d) auto

section \<open>Errors as values\<close>

fun try_bind :: "'e + 'a \<Rightarrow> ('a \<Rightarrow> 'e + 'b) \<Rightarrow> 'e + 'b" where
  "try_bind (Inl e) f = Inl e"
| "try_bind (Inr x) f = f x"

lemma try_bind_Inr_iff: "try_bind m f = Inr y \<longleftrightarrow> (\<exists>x. m = Inr x \<and> f x = Inr y)"
  by (cases m) auto

lemma try_bind_Inl_iff:
  "try_bind m f = Inl e \<longleftrightarrow> m = Inl e \<or> (\<exists>x. m = Inr x \<and> f x = Inl e)"
  by (cases m) auto

section \<open>Lists\<close>

text \<open>\<open>xs[:n]\<close>, where a negative \<open>n\<close> counts from the end.\<close>

definition py_take :: "int \<Rightarrow> 'a list \<Rightarrow> 'a list" where
  "py_take n xs = (if 0 \<le> n then take (nat n) xs else take (length xs - nat (- n)) xs)"

text \<open>\<open>sorted(xs, key=f, reverse=True)\<close>: descending, and stable (equal keys keep their order).\<close>

definition sorted_desc :: "('a \<Rightarrow> 'b :: linordered_ab_group_add) \<Rightarrow> 'a list \<Rightarrow> 'a list" where
  "sorted_desc f xs = sort_key (\<lambda>x. - f x) xs"

lemma set_sorted_desc [simp]: "set (sorted_desc f xs) = set xs"
  by (simp add: sorted_desc_def)

lemma length_sorted_desc [simp]: "length (sorted_desc f xs) = length xs"
  by (simp add: sorted_desc_def)

lemma mset_sorted_desc [simp]: "mset (sorted_desc f xs) = mset xs"
  by (simp add: sorted_desc_def)

lemma sorted_desc_sorted: "sorted_wrt (\<lambda>x y. f y \<le> f x) (sorted_desc f xs)"
proof -
  have "sorted (map (\<lambda>x. - f x) (sorted_desc f xs))"
    by (simp add: sorted_desc_def)
  then show ?thesis by (simp add: sorted_map)
qed

lemma sorted_desc_stable:
  "filter (\<lambda>x. f x = v) (sorted_desc f xs) = filter (\<lambda>x. f x = v) xs"
  using sort_key_stable [of "\<lambda>x. - f x" "- v" xs] by (simp add: sorted_desc_def)

lemma distinct_sorted_desc_map [simp]:
  "distinct (map g (sorted_desc f xs)) = distinct (map g xs)"
  by (metis mset_map mset_sorted_desc mset_eq_imp_distinct_iff)

text \<open>First element with a property: \<open>fetchone()\<close> of a query, \<open>next(..., None)\<close>.\<close>

lemma find_Some_iff_set: "find P xs = Some x \<Longrightarrow> x \<in> set xs \<and> P x"
  by (induction xs) (auto split: if_splits)

lemma find_None_iff_set: "find P xs = None \<longleftrightarrow> (\<forall>x \<in> set xs. \<not> P x)"
  by (induction xs) auto

lemma find_append: "find P (xs @ ys) = (case find P xs of None \<Rightarrow> find P ys | Some x \<Rightarrow> Some x)"
  by (induction xs) auto

text \<open>\<open>str.removeprefix\<close>.\<close>

definition removeprefix :: "string \<Rightarrow> string \<Rightarrow> string" where
  "removeprefix p s = (if take (length p) s = p then drop (length p) s else s)"

lemma removeprefix_append [simp]: "removeprefix p (p @ s) = s"
  by (simp add: removeprefix_def)

end
