(* ===== verification/Py_Strings.thy ===== *)
theory Py_Strings
  imports Dotmd_Prelude
begin

text \<open>
  The methods of Python's \<open>str\<close> and the two regular expressions (\<open>\w+\<close> and
  \<open>[.?!]\<close>) the text components use.  A \<open>str\<close> is a \<open>char list\<close>: code points
  up to 255, on which the character classes below are Python's own (\<open>str.isspace\<close>,
  the \<open>\w\<close> of \<open>re\<close>, \<open>str.lower\<close>).
\<close>

section \<open>Characters\<close>

definition py_isspace :: "char \<Rightarrow> bool" where
  "py_isspace c = (let n = of_char c :: nat in
     (9 \<le> n \<and> n \<le> 13) \<or> (28 \<le> n \<and> n \<le> 32) \<or> n = 133 \<or> n = 160)"

definition py_isupper :: "char \<Rightarrow> bool" where
  "py_isupper c = (let n = of_char c :: nat in
     (65 \<le> n \<and> n \<le> 90) \<or> (192 \<le> n \<and> n \<le> 222 \<and> n \<noteq> 215))"

definition py_isword :: "char \<Rightarrow> bool" where
  "py_isword c = (let n = of_char c :: nat in
     (48 \<le> n \<and> n \<le> 57) \<or> (65 \<le> n \<and> n \<le> 90) \<or> n = 95 \<or> (97 \<le> n \<and> n \<le> 122)
     \<or> n = 170 \<or> n = 178 \<or> n = 179 \<or> n = 181 \<or> n = 185 \<or> n = 186
     \<or> (188 \<le> n \<and> n \<le> 190) \<or> (192 \<le> n \<and> n \<noteq> 215 \<and> n \<noteq> 247))"

definition lower_char :: "char \<Rightarrow> char" where
  "lower_char c = (if py_isupper c then char_of (of_char c + 32 :: nat) else c)"

definition py_lower :: "string \<Rightarrow> string" where
  "py_lower s = map lower_char s"

lemma length_py_lower [simp]: "length (py_lower s) = length s"
  by (simp add: py_lower_def)

section \<open>Slices and searches\<close>

definition slice :: "nat \<Rightarrow> nat \<Rightarrow> 'a list \<Rightarrow> 'a list" where
  "slice i j s = drop i (take j s)"

lemma length_slice: "length (slice i j s) = min j (length s) - i"
  by (simp add: slice_def min.commute)

text \<open>\<open>s.find(sub, start)\<close> and \<open>s.rfind(sub)\<close>, with None for -1.\<close>

definition occurs_at :: "string \<Rightarrow> string \<Rightarrow> nat \<Rightarrow> bool" where
  "occurs_at sub s i = (take (length sub) (drop i s) = sub)"

definition str_find :: "string \<Rightarrow> string \<Rightarrow> nat \<Rightarrow> nat option" where
  "str_find s sub start = find (occurs_at sub s) [start..<Suc (length s)]"

definition str_rfind :: "string \<Rightarrow> string \<Rightarrow> nat option" where
  "str_rfind s sub = find (occurs_at sub s) (rev [0..<Suc (length s)])"

definition str_contains :: "string \<Rightarrow> string \<Rightarrow> bool" where
  "str_contains sub s = (\<exists>i \<in> set [0..<Suc (length s)]. occurs_at sub s i)"

definition py_startswith :: "string \<Rightarrow> string \<Rightarrow> bool" where
  "py_startswith s p = (take (length p) s = p)"

lemma str_find_Some:
  assumes "str_find s sub start = Some i"
  shows "start \<le> i \<and> i \<le> length s \<and> occurs_at sub s i
    \<and> (\<forall>j. start \<le> j \<and> j < i \<longrightarrow> \<not> occurs_at sub s j)"
proof -
  from assms obtain n where n: "n < length [start..<Suc (length s)]"
    "occurs_at sub s ([start..<Suc (length s)] ! n)" "i = [start..<Suc (length s)] ! n"
    "\<forall>k < n. \<not> occurs_at sub s ([start..<Suc (length s)] ! k)"
    by (auto simp: str_find_def find_Some_iff simp del: upt_Suc)
  then have i: "i = start + n" by (simp del: upt_Suc)
  show ?thesis
  proof (intro conjI allI impI)
    fix j
    assume j: "start \<le> j \<and> j < i"
    with i n(1) have "[start..<Suc (length s)] ! (j - start) = j" and "j - start < n"
      by (auto simp del: upt_Suc)
    with n(4) show "\<not> occurs_at sub s j" by metis
  qed (use n i in \<open>auto simp del: upt_Suc\<close>)
qed

lemma str_rfind_Some: "str_rfind s sub = Some i \<Longrightarrow> i \<le> length s \<and> occurs_at sub s i"
  by (auto simp: str_rfind_def dest!: find_Some_iff_set simp del: upt_Suc)

lemma occurs_at_bound: "occurs_at sub s i \<Longrightarrow> sub \<noteq> [] \<Longrightarrow> i + length sub \<le> length s"
proof -
  assume o: "occurs_at sub s i" and "sub \<noteq> []"
  from o have "length (take (length sub) (drop i s)) = length sub" by (simp add: occurs_at_def)
  then have "length sub \<le> length s - i" by (simp add: min_def split: if_splits)
  moreover have "length sub > 0" using \<open>sub \<noteq> []\<close> by simp
  ultimately show ?thesis by linarith
qed

section \<open>Runs of characters\<close>

text \<open>
  \<open>re.finditer(r"\w+", s)\<close> and \<open>s.split()\<close>: the maximal runs of a character class,
  each with the index it starts at.
\<close>

lemma length_dropWhile_Suc [termination_simp]: "length (dropWhile P xs) < Suc (length xs)"
  by (simp add: le_imp_less_Suc length_dropWhile_le)

fun runs :: "(char \<Rightarrow> bool) \<Rightarrow> nat \<Rightarrow> string \<Rightarrow> (nat \<times> string) list" where
  "runs P i [] = []"
| "runs P i (c # cs) =
     (if P c then (i, c # takeWhile P cs) # runs P (Suc i + length (takeWhile P cs)) (dropWhile P cs)
      else runs P (Suc i) cs)"

definition findall_words :: "string \<Rightarrow> string list" where
  "findall_words s = map snd (runs py_isword 0 s)"

definition py_split :: "string \<Rightarrow> string list" where
  "py_split s = map snd (runs (\<lambda>c. \<not> py_isspace c) 0 s)"

lemma take_length_takeWhile: "take (length (takeWhile P xs)) xs = takeWhile P xs"
  by (metis append_eq_conv_conj takeWhile_dropWhile_id)

lemma drop_length_takeWhile: "drop (length (takeWhile P xs)) xs = dropWhile P xs"
  by (metis append_eq_conv_conj takeWhile_dropWhile_id)

lemma runs_member:
  "(j, w) \<in> set (runs P i s) \<Longrightarrow>
     i \<le> j \<and> j + length w \<le> i + length s \<and> w \<noteq> [] \<and> (\<forall>c \<in> set w. P c)
     \<and> take (length w) (drop (j - i) s) = w"
proof (induction P i s rule: runs.induct)
  case (1 P i)
  then show ?case by simp
next
  case (2 P i c cs)
  show ?case
  proof (cases "P c")
    case False
    with 2 have "Suc i \<le> j \<and> j + length w \<le> Suc i + length cs \<and> w \<noteq> [] \<and> (\<forall>c \<in> set w. P c)
       \<and> take (length w) (drop (j - Suc i) cs) = w" by simp
    moreover from this have "j - i = Suc (j - Suc i)" by arith
    then have "drop (j - i) (c # cs) = drop (j - Suc i) cs" by (metis drop_Suc_Cons)
    ultimately show ?thesis by simp
  next
    case True
    let ?t = "takeWhile P cs"
    have len: "length ?t + length (dropWhile P cs) = length cs"
      by (metis length_append takeWhile_dropWhile_id)
    show ?thesis
    proof (cases "(j, w) = (i, c # ?t)")
      case here: True
      with True len show ?thesis by (auto simp: take_length_takeWhile dest: set_takeWhileD)
    next
      case False
      with 2 True have IH: "Suc i + length ?t \<le> j
          \<and> j + length w \<le> Suc i + length ?t + length (dropWhile P cs) \<and> w \<noteq> [] \<and> (\<forall>c \<in> set w. P c)
          \<and> take (length w) (drop (j - (Suc i + length ?t)) (dropWhile P cs)) = w" by auto
      have "drop (length ?t) cs = dropWhile P cs" by (rule drop_length_takeWhile)
      then have "drop (j - (Suc i + length ?t)) (dropWhile P cs)
          = drop (j - (Suc i + length ?t) + length ?t) cs" by (metis drop_drop)
      moreover from IH have "j - i = Suc (j - (Suc i + length ?t) + length ?t)" by arith
      ultimately have "drop (j - i) (c # cs) = drop (j - (Suc i + length ?t)) (dropWhile P cs)"
        by (metis drop_Suc_Cons)
      with IH len show ?thesis by auto
    qed
  qed
qed

lemma runs_sorted: "sorted (map fst (runs P i s)) \<and> (\<forall>j \<in> set (map fst (runs P i s)). i \<le> j)"
proof (induction P i s rule: runs.induct)
  case (1 P i)
  then show ?case by simp
next
  case (2 P i c cs)
  show ?case
  proof (cases "P c")
    case True
    with 2 show ?thesis by (auto simp: less_eq_Suc_le intro: order_trans le_SucI)
  next
    case False
    with 2 have "sorted (map fst (runs P (Suc i) cs)) \<and> (\<forall>j \<in> set (map fst (runs P (Suc i) cs)). Suc i \<le> j)"
      by simp
    with False show ?thesis by auto
  qed
qed

section \<open>Stripping and joining\<close>

definition py_strip :: "string \<Rightarrow> string" where
  "py_strip s = rev (dropWhile py_isspace (rev (dropWhile py_isspace s)))"

lemma length_py_strip: "length (py_strip s) \<le> length s"
proof -
  have "length (py_strip s) \<le> length (dropWhile py_isspace s)"
    unfolding py_strip_def by (metis length_dropWhile_le length_rev)
  also have "\<dots> \<le> length s" by (rule length_dropWhile_le)
  finally show ?thesis .
qed

fun py_join :: "string \<Rightarrow> string list \<Rightarrow> string" where
  "py_join sep [] = ''''"
| "py_join sep [s] = s"
| "py_join sep (s # t # ss) = s @ sep @ py_join sep (t # ss)"

section \<open>Splitting, stripping and numbers\<close>

text \<open>\<open>s.split(c)\<close> for a one-character separator, and \<open>s.rstrip(c)\<close>.\<close>

fun split_on :: "char \<Rightarrow> string \<Rightarrow> string list" where
  "split_on c [] = [[]]"
| "split_on c (x # xs) =
     (if x = c then [] # split_on c xs
      else case split_on c xs of [] \<Rightarrow> [[x]] | w # ws \<Rightarrow> (x # w) # ws)"

definition rstrip_char :: "char \<Rightarrow> string \<Rightarrow> string" where
  "rstrip_char c s = rev (dropWhile (\<lambda>x. x = c) (rev s))"

definition py_isdigit :: "char \<Rightarrow> bool" where
  "py_isdigit c = (let n = of_char c :: nat in 48 \<le> n \<and> n \<le> 57)"

definition py_isalnum :: "char \<Rightarrow> bool" where
  "py_isalnum c = (py_isword c \<and> c \<noteq> CHR ''_'')"

definition py_isalpha :: "char \<Rightarrow> bool" where
  "py_isalpha c = (let n = of_char c :: nat in
     py_isalnum c \<and> \<not> (48 \<le> n \<and> n \<le> 57) \<and> n \<noteq> 178 \<and> n \<noteq> 179 \<and> n \<noteq> 185
     \<and> \<not> (188 \<le> n \<and> n \<le> 190))"

text \<open>
  \<open>str.upper\<close>: the sharp s becomes two letters; the micro sign and y with diaeresis,
  whose upper case lies above 255, stay.
\<close>

definition upper_char :: "char \<Rightarrow> string" where
  "upper_char c = (let n = of_char c :: nat in
     if (97 \<le> n \<and> n \<le> 122) \<or> (224 \<le> n \<and> n \<le> 254 \<and> n \<noteq> 247) then [char_of (n - 32)]
     else if n = 223 then ''SS'' else [c])"

definition py_upper :: "string \<Rightarrow> string" where
  "py_upper s = concat (map upper_char s)"

text \<open>\<open>int(s)\<close>: surrounding whitespace, a sign, digits with single underscores between them.\<close>

fun digits_value :: "int \<Rightarrow> bool \<Rightarrow> string \<Rightarrow> int option" where
  "digits_value acc after_digit [] = (if after_digit then Some acc else None)"
| "digits_value acc after_digit (c # cs) =
     (if py_isdigit c then digits_value (10 * acc + int (of_char c - 48)) True cs
      else if c = CHR ''_'' \<and> after_digit then digits_value acc False cs
      else None)"

definition py_int :: "string \<Rightarrow> int option" where
  "py_int s =
     (case py_strip s of
        [] \<Rightarrow> None
      | c # cs \<Rightarrow>
          if c = CHR ''-'' then map_option uminus (digits_value 0 False cs)
          else if c = CHR ''+'' then digits_value 0 False cs
          else digits_value 0 False (c # cs))"

lemma py_int_examples:
  "py_int '' -1_000 '' = Some (-1000)" "py_int ''1__0'' = None" "py_int ''600'' = Some 600"
  by code_simp+

section \<open>Words of a text\<close>

lemma runs_shift: "map snd (runs P i s) = map snd (runs P j s)"
proof (induction P i s arbitrary: j rule: runs.induct)
  case (2 P i c cs)
  show ?case
  proof (cases "P c")
    case True
    from "2.IH"(1) [OF True, of "Suc j + length (takeWhile P cs)"] True show ?thesis by simp
  next
    case False
    from "2.IH"(2) [OF False, of "Suc j"] False show ?thesis by simp
  qed
qed simp

lemma takeWhile_sep: "\<not> P c \<Longrightarrow> takeWhile P (a @ c # b) = takeWhile P a"
  by (induction a) auto

lemma dropWhile_sep: "\<not> P c \<Longrightarrow> dropWhile P (a @ c # b) = dropWhile P a @ c # b"
  by (induction a) auto

lemma py_split_Nil [simp]: "py_split [] = []"
  by (simp add: py_split_def)

lemma py_split_space [simp]: "py_isspace c \<Longrightarrow> py_split (c # s) = py_split s"
  using runs_shift [of "\<lambda>c. \<not> py_isspace c" 1 s 0] by (simp add: py_split_def)

lemma py_split_word [simp]: "\<not> py_isspace c \<Longrightarrow> py_split (c # s) =
    (c # takeWhile (\<lambda>c. \<not> py_isspace c) s) # py_split (dropWhile (\<lambda>c. \<not> py_isspace c) s)"
  using runs_shift [of "\<lambda>c. \<not> py_isspace c" _ "dropWhile (\<lambda>c. \<not> py_isspace c) s" 0]
  by (simp add: py_split_def)

lemma py_split_sep: "py_isspace c \<Longrightarrow> py_split (a @ c # b) = py_split a @ py_split b"
proof (induction a rule: length_induct)
  case (1 a)
  show ?case
  proof (cases a)
    case Nil
    with 1 show ?thesis by simp
  next
    case (Cons x xs)
    have "length (dropWhile (\<lambda>c. \<not> py_isspace c) xs) < length a"
      using length_dropWhile_le [of "\<lambda>c. \<not> py_isspace c" xs] Cons by simp
    with 1 Cons show ?thesis
      by (cases "py_isspace x") (simp_all add: takeWhile_sep dropWhile_sep)
  qed
qed

lemma py_split_spaces: "\<forall>c \<in> set a. py_isspace c \<Longrightarrow> py_split (a @ s) = py_split s"
  by (induction a) auto

lemma py_split_trailing: "\<forall>c \<in> set b. py_isspace c \<Longrightarrow> py_split (a @ b) = py_split a"
proof (induction b rule: rev_induct)
  case (snoc c b)
  with py_split_sep [of c "a @ b" "[]"] show ?case by simp
qed simp

lemma py_split_dropWhile [simp]: "py_split (dropWhile py_isspace s) = py_split s"
  by (induction s) auto

lemma py_split_strip [simp]: "py_split (py_strip s) = py_split s"
proof -
  have "dropWhile py_isspace s = py_strip s @ rev (takeWhile py_isspace (rev (dropWhile py_isspace s)))"
    unfolding py_strip_def by (metis rev_append rev_rev_ident takeWhile_dropWhile_id)
  moreover have "\<forall>c \<in> set (rev (takeWhile py_isspace (rev (dropWhile py_isspace s)))). py_isspace c"
    by (auto dest: set_takeWhileD)
  ultimately show ?thesis by (metis py_split_dropWhile py_split_trailing)
qed

lemma py_split_join: "py_split (py_join '' '' ss) = concat (map py_split ss)"
  using py_split_sep [of "CHR '' ''"]
  by (induction "'' ''" ss rule: py_join.induct) (auto simp: py_isspace_def)

lemma py_split_words:
  assumes "w \<in> set (py_split s)"
  shows "py_split w = [w]"
proof -
  obtain j where "(j, w) \<in> set (runs (\<lambda>c. \<not> py_isspace c) 0 s)"
    using assms by (auto simp: py_split_def)
  then have "w \<noteq> []" "\<forall>c \<in> set w. \<not> py_isspace c" by (auto dest: runs_member)
  then obtain c v where w: "w = c # v" "\<not> py_isspace c" "\<forall>c \<in> set v. \<not> py_isspace c"
    by (cases w) auto
  have "py_split w = (c # takeWhile (\<lambda>c. \<not> py_isspace c) v) # py_split (dropWhile (\<lambda>c. \<not> py_isspace c) v)"
    using w by simp
  also have "dropWhile (\<lambda>c. \<not> py_isspace c) v = []" using w(3) by simp
  also have "takeWhile (\<lambda>c. \<not> py_isspace c) v = v" using w(3) by (simp add: takeWhile_eq_all_conv)
  finally show ?thesis using w by simp
qed

end
