(* ===== verification/Core_Models.thy ===== *)
theory Core_Models
  imports Dotmd_Prelude
begin

text \<open>
  The domain models of \<open>core/models.py\<close>: the enumerations as datatypes, the
  pydantic models as records, their validators as predicates with the error a
  failed validation raises.  A datetime is a \<open>timestamp\<close> (microseconds, UTC), a
  \<open>Path\<close> the string it prints as, and \<open>Path.resolve\<close> (the file system's answer)
  a parameter.  JSON values are the datatype \<open>json\<close>; a JSON text column of the
  database is modelled by the value it encodes.
\<close>

type_synonym timestamp = int

datatype json = JNull | JBool bool | JInt int | JStr string | JList "json list"
  | JObj "(string \<times> json) list"

datatype py_error = ValueError string | RuntimeError string | OperationalError string
  | KeyError string | ZeroDivisionError string | OverflowError string | FileNotFoundError string
  | UnicodeDecodeError string | TypeError string | IndexError string | StructError string | HTTPError string
  | AssertionError string | AttributeError string

section \<open>Enumerations\<close>

datatype search_mode = SEMANTIC | KEYWORD | GRAPH | HYBRID

datatype doc_kind = DOCUMENT | MEETING_TRANSCRIPT | VOICENOTE

fun doc_kind_value :: "doc_kind \<Rightarrow> string" where
  "doc_kind_value DOCUMENT = ''document''"
| "doc_kind_value MEETING_TRANSCRIPT = ''meeting_transcript''"
| "doc_kind_value VOICENOTE = ''voicenote''"

datatype source_capability = LOCAL_SYNC | FEDERATED_SEARCH | READ_UNIT_WINDOW
  | MATERIALIZATION | BROWSE_TREE | ACL | INCREMENTAL_CURSOR

fun capability_value :: "source_capability \<Rightarrow> string" where
  "capability_value LOCAL_SYNC = ''local_sync''"
| "capability_value FEDERATED_SEARCH = ''federated_search''"
| "capability_value READ_UNIT_WINDOW = ''read_unit_window''"
| "capability_value MATERIALIZATION = ''materialization''"
| "capability_value BROWSE_TREE = ''browse_tree''"
| "capability_value ACL = ''acl''"
| "capability_value INCREMENTAL_CURSOR = ''incremental_cursor''"

definition LEGACY_CAPABILITY_ALIASES :: "(string, string) dict" where
  "LEGACY_CAPABILITY_ALIASES =
     [(''unit-window'', capability_value READ_UNIT_WINDOW),
      (''incremental-export'', capability_value INCREMENTAL_CURSOR)]"

definition normalized_capabilities :: "string list \<Rightarrow> string list" where
  "normalized_capabilities caps =
     map (\<lambda>c. dict_get_default LEGACY_CAPABILITY_ALIASES c c) caps"

definition SOURCE_SCHEMA_FIELD_TYPES :: "string list" where
  "SOURCE_SCHEMA_FIELD_TYPES =
     [''str'', ''int'', ''bool'', ''path'', ''list[str]'', ''dict[str, Any]'']"

definition validate_field_type :: "string \<Rightarrow> py_error + string" where
  "validate_field_type value =
     (if value \<notin> set SOURCE_SCHEMA_FIELD_TYPES
      then Inl (ValueError ''field_type must be one of SOURCE_SCHEMA_FIELD_TYPES'')
      else Inr value)"

section \<open>References\<close>

definition make_ref :: "string \<Rightarrow> string \<Rightarrow> string" where
  "make_ref ns doc = ns @ '':'' @ doc"

text \<open>\<open>value.partition(":")\<close>: the part before, whether the separator was found, the rest.\<close>

definition partition_colon :: "string \<Rightarrow> string \<times> bool \<times> string" where
  "partition_colon v =
     (case dropWhile (\<lambda>c. c \<noteq> CHR '':'') v of
        [] \<Rightarrow> (v, False, '''')
      | _ # rest \<Rightarrow> (takeWhile (\<lambda>c. c \<noteq> CHR '':'') v, True, rest))"

definition validate_ref :: "string \<Rightarrow> py_error + string" where
  "validate_ref v =
     (case partition_colon v of (ns, sep, doc) \<Rightarrow>
        if \<not> sep \<or> ns = '''' \<or> doc = ''''
        then Inl (ValueError ''ref must be formatted as <namespace>:<document_ref>'')
        else Inr v)"

lemma partition_colon_make_ref:
  assumes "CHR '':'' \<notin> set ns"
  shows "partition_colon (make_ref ns doc) = (ns, True, doc)"
proof -
  have all: "\<And>c. c \<in> set ns \<Longrightarrow> c \<noteq> CHR '':''" using assms by auto
  then have "dropWhile (\<lambda>c. c \<noteq> CHR '':'') (make_ref ns doc) = CHR '':'' # doc"
    and "takeWhile (\<lambda>c. c \<noteq> CHR '':'') (make_ref ns doc) = ns"
    by (auto simp: make_ref_def dropWhile_append2 takeWhile_append2)
  then show ?thesis by (simp add: partition_colon_def)
qed

lemma make_ref_inj:
  assumes "make_ref ns doc = make_ref ns' doc'" and "CHR '':'' \<notin> set ns" and "CHR '':'' \<notin> set ns'"
  shows "ns = ns' \<and> doc = doc'"
  using assms partition_colon_make_ref by (metis prod.inject)

section \<open>Documents and bindings\<close>

record source_document =
  sd_namespace :: string
  sd_document_ref :: string
  sd_ref :: string
  sd_title :: string
  sd_source_uri :: string
  sd_media_type :: string
  sd_parser_name :: string
  sd_document_type :: string
  sd_updated_at :: timestamp
  sd_content_fingerprint :: string
  sd_metadata_fingerprint :: string
  sd_metadata_json :: json
  sd_file_path :: "string option"

definition validate_source_document ::
  "(string \<Rightarrow> string) \<Rightarrow> source_document \<Rightarrow> py_error + source_document" where
  "validate_source_document resolve d =
     (if sd_ref d \<noteq> make_ref (sd_namespace d) (sd_document_ref d)
      then Inl (ValueError ''ref must be <namespace>:<document_ref>'')
      else case sd_file_path d of
        None \<Rightarrow> Inr d
      | Some p \<Rightarrow>
          if sd_namespace d = ''filesystem'' \<and> sd_document_ref d \<notin> {p, resolve p}
          then Inl (ValueError ''filesystem document_ref must match file_path or resolved file_path'')
          else Inr d)"

record resource_binding =
  rb_namespace :: string
  rb_resource_ref :: string
  rb_document_ref :: string
  rb_ref :: string
  rb_active :: bool
  rb_bound_at :: timestamp
  rb_unbound_at :: "timestamp option"
  rb_content_fingerprint :: string
  rb_metadata_fingerprint :: string
  rb_source_unit_refs :: "string list"
  rb_metadata_json :: "(string, json) dict"

definition validate_resource_binding :: "resource_binding \<Rightarrow> py_error + resource_binding" where
  "validate_resource_binding b =
     (if rb_ref b \<noteq> make_ref (rb_namespace b) (rb_document_ref b)
      then Inl (ValueError ''ref must be <namespace>:<document_ref>'')
      else if rb_namespace b = ''filesystem'' \<and> rb_resource_ref b \<noteq> rb_document_ref b
      then Inl (ValueError ''filesystem resource_ref must match document_ref'')
      else Inr b)"

record source_unit =
  su_namespace :: string
  su_document_ref :: string
  su_unit_ref :: string
  su_unit_type :: string
  su_text :: string
  su_order_key :: string
  su_fingerprint :: string
  su_updated_at :: timestamp
  su_metadata_json :: json
  su_chunking_hints :: json

record chunk_provenance =
  cp_namespace :: string
  cp_document_ref :: string
  cp_ref :: string
  cp_source_unit_refs :: "string list"
  cp_chunk_strategy :: string
  cp_parser_name :: "string option"

record chunk =
  ch_chunk_id :: string
  ch_file_paths :: "string list"
  ch_heading_hierarchy :: "string list"
  ch_level :: int
  ch_text :: string
  ch_chunk_index :: nat
  ch_kind :: string
  ch_provenance :: "chunk_provenance option"

definition chunk_heading :: "chunk \<Rightarrow> string" where
  "chunk_heading c = (if ch_heading_hierarchy c \<noteq> [] then last (ch_heading_hierarchy c) else '''')"

record entity =
  en_name :: string
  en_type :: string
  en_source :: string
  en_chunk_ids :: "string list"

record relation =
  rl_source_id :: string
  rl_target_id :: string
  rl_relation_type :: string
  rl_weight :: rat
  rl_properties :: "(string, string) dict"

record extraction_result =
  ex_entities :: "entity list"
  ex_relations :: "relation list"

record expanded_query =
  eq_original :: string
  eq_expanded_terms :: "string list"
  eq_expanded_text :: string

record search_candidate =
  sc_ref :: string
  sc_namespace :: string
  sc_descriptor_key :: string
  sc_source_kind :: string
  sc_retrieval_kind :: string
  sc_title :: "string option"
  sc_snippet :: string
  sc_fused_score :: rat
  sc_can_read :: bool
  sc_can_materialize :: bool
  sc_chunk_id :: "string option"
  sc_heading_path :: "string option"
  sc_provenance :: "chunk_provenance option"
  sc_matched_engines :: "string list"
  sc_engine_scores :: "(string, rat) dict option"
  sc_source_native_score :: "rat option"
  sc_source_native_rank :: "nat option"
  sc_provider_metadata :: "(string, json) dict option"

datatype engine_status = StatusOk | StatusSkipped | StatusError

record source_status =
  ss_name :: string
  ss_status :: engine_status
  ss_reason :: "string option"
  ss_candidate_count :: nat
  ss_elapsed_ms :: "rat option"

record index_stats =
  is_total_files :: int
  is_total_chunks :: int
  is_total_entities :: int
  is_total_edges :: int
  is_last_indexed :: "timestamp option"
  is_new_files :: int
  is_modified_files :: int
  is_deleted_files :: int
  is_unchanged_files :: int
  is_data_dir :: "string option"

section \<open>Validators\<close>

lemma validate_resource_binding_ok:
  "validate_resource_binding b = Inr b' \<Longrightarrow>
     b' = b \<and> rb_ref b = make_ref (rb_namespace b) (rb_document_ref b)
     \<and> (rb_namespace b = ''filesystem'' \<longrightarrow> rb_resource_ref b = rb_document_ref b)"
  by (auto simp: validate_resource_binding_def split: if_splits)

lemma validate_source_document_ok:
  "validate_source_document resolve d = Inr d' \<Longrightarrow>
     d' = d \<and> sd_ref d = make_ref (sd_namespace d) (sd_document_ref d)"
  by (auto simp: validate_source_document_def split: if_splits option.splits)

end
