(* ===== verification/Snippet.thy ===== *)
theory Snippet
  imports Py_Strings Core_Models
begin

text \<open>
  Snippet extraction (\<open>search/fusion.py\<close>): choose the window with the most query
  terms, widen it to sentence boundaries, fall back to a bounded window.  Lengths
  are natural numbers; \<open>len * 0.8\<close> is compared exactly.
\<close>

section \<open>Truncation\<close>

definition truncate :: "string \<Rightarrow> nat \<Rightarrow> string" where
  "truncate body len =
     (let truncated = take len body in
      case str_rfind truncated '' '' of
        None \<Rightarrow> truncated @ ''...''
      | Some last_space \<Rightarrow>
          if 4 * len < 5 * last_space then take last_space truncated @ ''...''
          else truncated @ ''...'')"

definition bounded_window_snippet :: "string \<Rightarrow> nat \<Rightarrow> nat \<Rightarrow> string" where
  "bounded_window_snippet body best_start len =
     (let snippet_text = slice best_start (best_start + len) body;
          prefix = (if 0 < best_start then ''...'' else '''');
          suffix = (if best_start + len < length body then ''...'' else '''');
          snippet_text' =
            (if suffix = '''' then snippet_text
             else case str_rfind snippet_text '' '' of
                None \<Rightarrow> snippet_text
              | Some last_space \<Rightarrow>
                  if 4 * length snippet_text < 5 * last_space then take last_space snippet_text
                  else snippet_text)
      in prefix @ snippet_text' @ suffix)"

section \<open>Boundaries\<close>

definition sentence_end :: "char \<Rightarrow> bool" where
  "sentence_end c \<longleftrightarrow> c = CHR ''.'' \<or> c = CHR ''?'' \<or> c = CHR ''!''"

definition paragraph_break :: string where
  "paragraph_break = [CHR 0x0A, CHR 0x0A]"

definition skip_boundary_space :: "string \<Rightarrow> nat \<Rightarrow> nat" where
  "skip_boundary_space body i = i + length (takeWhile py_isspace (drop i body))"

definition left_candidates :: "string \<Rightarrow> nat \<Rightarrow> nat list" where
  "left_candidates body start =
     0 # (case str_rfind (take (start + 1) body) paragraph_break of
            None \<Rightarrow> []
          | Some p \<Rightarrow> [skip_boundary_space body (p + 2)])
       @ map (\<lambda>i. skip_boundary_space body (i + 1))
           (filter (\<lambda>i. sentence_end (body ! i)) [0..<min start (length body)])"

definition find_left_boundary :: "string \<Rightarrow> nat \<Rightarrow> nat" where
  "find_left_boundary body start =
     (if start = 0 then 0
      else Max (set (filter (\<lambda>c. c \<le> start) (left_candidates body start))))"

definition right_candidates :: "string \<Rightarrow> nat \<Rightarrow> nat list" where
  "right_candidates body stop =
     length body
     # (case str_find body paragraph_break stop of None \<Rightarrow> [] | Some p \<Rightarrow> [p])
     @ (case find (\<lambda>i. sentence_end (body ! i)) [stop..<length body] of
          None \<Rightarrow> [] | Some i \<Rightarrow> [i + 1])"

definition find_right_boundary :: "string \<Rightarrow> nat \<Rightarrow> nat" where
  "find_right_boundary body stop =
     (if length body \<le> stop then length body else Min (set (right_candidates body stop)))"

section \<open>Choosing the window\<close>

definition find_query_focus_start :: "string \<Rightarrow> nat \<Rightarrow> nat \<Rightarrow> string list \<Rightarrow> nat" where
  "find_query_focus_start body best_start len query_tokens =
     (let window_end = min (length body) (best_start + len) in
      case find (\<lambda>(i, w). py_lower w \<in> set query_tokens)
             (runs py_isword 0 (slice best_start window_end body)) of
        None \<Rightarrow> best_start
      | Some (i, w) \<Rightarrow> best_start + i)"

definition expand_snippet_to_boundaries :: "string \<Rightarrow> nat \<Rightarrow> nat \<Rightarrow> nat \<Rightarrow> string" where
  "expand_snippet_to_boundaries body best_start focus_start len =
     (let hard_cap = len * 2;
          window_end = min (length body) (best_start + len);
          left = find_left_boundary body focus_start;
          right = find_right_boundary body window_end;
          core = py_strip (slice left right body)
      in if hard_cap < length core then bounded_window_snippet body best_start len
         else (if 0 < left then ''...'' else '''') @ core
           @ (if right < length body then ''...'' else ''''))"

fun word_starts :: "string \<Rightarrow> nat \<Rightarrow> string list \<Rightarrow> py_error + nat list" where
  "word_starts body pos [] = Inr []"
| "word_starts body pos (w # ws) =
     (case str_find body w pos of
        None \<Rightarrow> Inl (ValueError ''substring not found'')
      | Some idx \<Rightarrow>
          try_bind (word_starts body (idx + length w) ws) (\<lambda>rest. Inr (idx # rest)))"

definition window_score :: "string \<Rightarrow> nat \<Rightarrow> nat \<Rightarrow> string list \<Rightarrow> nat" where
  "window_score body start stop query_tokens =
     length (filter (\<lambda>t. str_contains t (py_lower (slice start stop body))) query_tokens)"

fun best_window ::
  "string \<Rightarrow> nat \<Rightarrow> string list \<Rightarrow> int \<Rightarrow> nat \<Rightarrow> nat list \<Rightarrow> nat" where
  "best_window body len query_tokens best_score best_start [] = best_start"
| "best_window body len query_tokens best_score best_start (s # starts) =
     (let (start, stop) = (if length body < s + len then (length body - len, length body)
                           else (s, s + len));
          score = int (window_score body start stop query_tokens);
          (best_score', best_start') =
            (if best_score < score then (score, start) else (best_score, best_start))
      in if length body \<le> stop then best_start'
         else best_window body len query_tokens best_score' best_start' starts)"

definition extract_best_snippet :: "string \<Rightarrow> string \<Rightarrow> nat \<Rightarrow> py_error + string" where
  "extract_best_snippet body query len =
     (if length body \<le> len then Inr body
      else
        let query_tokens = remdups (findall_words (py_lower query)) in
        if query_tokens = [] then Inr (truncate body len)
        else try_bind (word_starts body 0 (py_split body)) (\<lambda>starts.
          let best_start = best_window body len query_tokens (-1) 0 starts;
              focus_start = find_query_focus_start body best_start len query_tokens
          in Inr (expand_snippet_to_boundaries body best_start focus_start len)))"

section \<open>Word starts never fail\<close>

lemma str_find_le:
  assumes "occurs_at sub s j" and "start \<le> j" and "j \<le> length s"
  shows "\<exists>i. str_find s sub start = Some i \<and> i \<le> j"
proof (cases "str_find s sub start")
  case None
  then have "\<forall>i \<in> set [start..<Suc (length s)]. \<not> occurs_at sub s i"
    by (simp add: str_find_def find_None_iff_set del: upt_Suc)
  with assms show ?thesis by (auto simp del: upt_Suc)
next
  case (Some i)
  with str_find_Some [OF this] assms have "i \<le> j" by (meson linorder_not_le)
  with Some show ?thesis by blast
qed

lemma word_starts_runs:
  assumes "s = drop i body" and "i \<le> length body" and "pos \<le> i"
  shows "\<exists>starts. word_starts body pos (map snd (runs P i s)) = Inr starts"
  using assms
proof (induction P i s arbitrary: pos rule: runs.induct)
  case (1 P i)
  then show ?case by simp
next
  case (2 P i c cs)
  have cs: "cs = drop (Suc i) body"
    using "2.prems"(1) by (metis drop_Suc list.sel(3) tl_drop)
  have i: "Suc i \<le> length body" using "2.prems" by (metis drop_eq_Nil2 list.simps(3) not_less_eq_eq)
  show ?case
  proof (cases "P c")
    case False
    with "2.IH"(2) [OF False cs i, of pos] "2.prems"(3) show ?thesis by simp
  next
    case True
    let ?w = "c # takeWhile P cs"
    have "take (length ?w) (drop i body) = ?w"
      unfolding "2.prems"(1) [symmetric] by (simp add: take_length_takeWhile)
    then have "occurs_at ?w body i" by (simp add: occurs_at_def)
    with str_find_le obtain k where k: "str_find body ?w pos = Some k" "k \<le> i"
      using "2.prems" by blast
    have tail: "dropWhile P cs = drop (Suc i + length (takeWhile P cs)) body"
      
      unfolding cs by (metis add.commute drop_drop drop_length_takeWhile)
    have "length (takeWhile P cs) \<le> length cs" by (rule length_takeWhile_le)
    with cs i have "Suc i + length (takeWhile P cs) \<le> length body" by simp
    with "2.IH"(1) [OF True tail, of "k + length ?w"] k
    show ?thesis using True by auto
  qed
qed

lemma word_starts_split: "\<exists>starts. word_starts body 0 (py_split body) = Inr starts"
  unfolding py_split_def by (rule word_starts_runs) auto

lemma word_starts_sorted:
  "word_starts body pos ws = Inr starts \<Longrightarrow>
     sorted starts \<and> (\<forall>i \<in> set starts. pos \<le> i \<and> i \<le> length body)"
proof (induction ws arbitrary: pos starts)
  case Nil
  then show ?case by simp
next
  case (Cons w ws)
  from Cons.prems obtain idx rest where idx: "str_find body w pos = Some idx"
    and rest: "word_starts body (idx + length w) ws = Inr rest" and "starts = idx # rest"
    by (auto simp: try_bind_Inr_iff split: option.splits)
  with str_find_Some [OF idx] Cons.IH [OF rest] show ?case by fastforce
qed

section \<open>Boundaries only widen the window\<close>

lemma find_left_boundary_le: "find_left_boundary body start \<le> start"
proof (cases "start = 0")
  case False
  have "0 \<in> set (filter (\<lambda>c. c \<le> start) (left_candidates body start))"
    by (simp add: left_candidates_def)
  then have "Max (set (filter (\<lambda>c. c \<le> start) (left_candidates body start)))
      \<in> set (filter (\<lambda>c. c \<le> start) (left_candidates body start))"
    by (intro Max_in) auto
  with False show ?thesis by (auto simp: find_left_boundary_def)
qed (simp add: find_left_boundary_def)

lemma find_right_boundary_bounds:
  assumes "stop \<le> length body"
  shows "stop \<le> find_right_boundary body stop \<and> find_right_boundary body stop \<le> length body"
proof (cases "length body \<le> stop")
  case False
  let ?C = "set (right_candidates body stop)"
  have in_C: "length body \<in> ?C" by (simp add: right_candidates_def)
  have "stop \<le> c" if "c \<in> ?C" for c
    using that False
    by (auto simp: right_candidates_def dest!: str_find_Some [OF sym] find_Some_iff_set [OF sym]
        split: option.splits)
  moreover have "Min ?C \<in> ?C" using in_C by (intro Min_in) auto
  moreover have "Min ?C \<le> length body" using in_C by (intro Min_le) auto
  ultimately show ?thesis using False by (simp add: find_right_boundary_def)
qed (use assms in \<open>simp add: find_right_boundary_def\<close>)

section \<open>Length\<close>

lemma truncate_length: "length (truncate body len) \<le> len + 3"
  by (auto simp: truncate_def Let_def split: option.splits)

lemma bounded_window_length: "length (bounded_window_snippet body start len) \<le> len + 6"
  by (auto simp: bounded_window_snippet_def Let_def length_slice split: option.splits)

lemma expand_length: "length (expand_snippet_to_boundaries body b f len) \<le> 2 * len + 6"
proof -
  have "length (bounded_window_snippet body b len) \<le> 2 * len + 6"
    using bounded_window_length [of body b len] by linarith
  then show ?thesis by (simp add: expand_snippet_to_boundaries_def Let_def)
qed

lemma snippet_total: "\<exists>snippet. extract_best_snippet body query len = Inr snippet"
  using word_starts_split [of body] by (auto simp: extract_best_snippet_def Let_def)

text \<open>Snippet extraction never raises, and a snippet is never longer than twice the
  requested length plus its two ellipses; a body that fits is returned as it is.\<close>

theorem extract_best_snippet_bounded:
  "\<exists>snippet. extract_best_snippet body query len = Inr snippet
     \<and> length snippet \<le> 2 * len + 6
     \<and> (length body \<le> len \<longrightarrow> snippet = body)"
proof -
  obtain starts where "word_starts body 0 (py_split body) = Inr starts"
    using word_starts_split by blast
  moreover have "length (truncate body len) \<le> 2 * len + 6"
    using truncate_length [of body len] by linarith
  ultimately show ?thesis
    by (simp add: extract_best_snippet_def Let_def expand_length)
qed

theorem extract_best_snippet_bounded_witness:
  "extract_best_snippet ''a b'' ''b'' 5 = Inr ''a b''"
  using extract_best_snippet_bounded [of "''a b''" "''b''" 5] by auto

section \<open>The best window is the best\<close>

definition clamp :: "string \<Rightarrow> nat \<Rightarrow> nat \<Rightarrow> nat" where
  "clamp body len s = min s (length body - len)"

lemma best_window_step:
  assumes "len < length body"
  shows "best_window body len q bs b (s # starts) =
    (let c = clamp body len s; score = int (window_score body c (c + len) q);
         bs' = max bs score; b' = (if bs < score then c else b)
     in if length body \<le> s + len then b' else best_window body len q bs' b' starts)"
proof (cases "length body < s + len")
  case True
  with assms have c: "clamp body len s = length body - len" "length body - len + len = length body"
    by (auto simp: clamp_def)
  from True show ?thesis by (simp add: c Let_def)
next
  case False
  then have c: "clamp body len s = s" by (simp add: clamp_def)
  from False show ?thesis unfolding c by (simp add: Let_def max_def)
qed

lemma best_window_max:
  assumes "len < length body" and "sorted starts"
    and "bs = -1 \<or> int (window_score body b (b + len) q) = bs"
  shows "bs \<le> int (window_score body (best_window body len q bs b starts)
              (best_window body len q bs b starts + len) q)
    \<and> (\<forall>s \<in> set starts. window_score body (clamp body len s) (clamp body len s + len) q
        \<le> window_score body (best_window body len q bs b starts)
              (best_window body len q bs b starts + len) q)"
  using assms(2,3)
proof (induction starts arbitrary: bs b)
  case Nil
  then show ?case by auto
next
  case (Cons s starts)
  define c where "c = clamp body len s"
  define score where "score = int (window_score body c (c + len) q)"
  define b' where "b' = (if bs < score then c else b)"
  have score: "int (window_score body b' (b' + len) q) = max bs score"
    using Cons.prems(2) by (auto simp: b'_def score_def)
  have step: "best_window body len q bs b (s # starts) =
      (if length body \<le> s + len then b' else best_window body len q (max bs score) b' starts)"
    by (simp add: best_window_step [OF assms(1)] c_def score_def b'_def Let_def
        del: best_window.simps)
  show ?case
  proof (cases "length body \<le> s + len")
    case True
    have "clamp body len s' = c" if "s' \<in> set starts" for s'
      using that True Cons.prems(1) by (auto simp: clamp_def c_def)
    with True step score show ?thesis by (auto simp: c_def [symmetric] score_def)
  next
    case False
    have "bs \<le> max bs score" and "score \<le> max bs score" by auto
    with Cons.IH [of "max bs score" b'] Cons.prems(1) score False step show ?thesis
      by (auto simp: c_def [symmetric] score_def)
  qed
qed

text \<open>The window the snippet is built around scores at least as many query tokens as
  every window that starts at a word of the body (the last ones moved left so that
  they end with the body).\<close>

theorem best_window_optimal:
  assumes "len < length body" and "word_starts body 0 (py_split body) = Inr starts"
    and "best = best_window body len query_tokens (-1) 0 starts" and "s \<in> set starts"
  shows "window_score body (clamp body len s) (clamp body len s + len) query_tokens
       \<le> window_score body best (best + len) query_tokens"
  using best_window_max [OF assms(1) conjunct1 [OF word_starts_sorted [OF assms(2)]],
      of "-1" 0 query_tokens] assms(3,4) by blast

theorem best_window_optimal_witness:
  "window_score ''aa bb cc'' (clamp ''aa bb cc'' 2 3) (clamp ''aa bb cc'' 2 3 + 2) [''bb'']
   \<le> window_score ''aa bb cc'' 3 (3 + 2) [''bb'']"
  by (rule best_window_optimal [where starts = "[0, 3, 6]"]) code_simp+

end
