(* ===== verification/Fusion.thy ===== *)
theory Fusion
  imports Snippet "HOL-Library.Sublist"
begin

text \<open>
  \<open>search/fusion.py\<close>: reciprocal rank fusion, the mapping of chunk hits to public
  references, and the hydration of fused scores into candidates.  Scores are
  rationals; the parameter \<open>rnd\<close> is the rounding of a float operation.  The locale
  \<open>chunk_reader\<close> is what \<open>build_candidates\<close> relies on of the metadata store.
\<close>

type_synonym hits = "(string \<times> rat) list"

section \<open>Reciprocal rank fusion\<close>

definition public_ref_for_provenance :: "chunk_provenance \<Rightarrow> string" where
  "public_ref_for_provenance p =
     (if cp_namespace p = ''telegram'' \<and> length (cp_source_unit_refs p) = 1
      then ''telegram:'' @ hd (cp_source_unit_refs p)
      else cp_ref p)"

fun fuse_hits :: "(rat \<Rightarrow> rat) \<Rightarrow> int \<Rightarrow> rat \<Rightarrow> int \<Rightarrow> hits \<Rightarrow> (string, rat) dict \<Rightarrow>
    py_error + (string, rat) dict" where
  "fuse_hits rnd k w rank [] rrf_scores = Inr rrf_scores"
| "fuse_hits rnd k w rank ((chunk_id, score) # hs) rrf_scores =
     (if k + rank = 0 then Inl (ZeroDivisionError ''division by zero'')
      else fuse_hits rnd k w (rank + 1) hs
        (dict_set chunk_id
          (rnd (dict_get_default rrf_scores chunk_id 0 + rnd (w / of_int (k + rank)))) rrf_scores))"

fun fuse_engines :: "(rat \<Rightarrow> rat) \<Rightarrow> int \<Rightarrow> (string, rat) dict \<Rightarrow> (string, hits) dict \<Rightarrow>
    (string, rat) dict \<Rightarrow> py_error + (string, rat) dict" where
  "fuse_engines rnd k weights [] rrf_scores = Inr rrf_scores"
| "fuse_engines rnd k weights ((engine, results) # rest) rrf_scores =
     try_bind (fuse_hits rnd k (dict_get_default weights engine 1) 1 results rrf_scores)
       (fuse_engines rnd k weights rest)"

definition fuse_results :: "(rat \<Rightarrow> rat) \<Rightarrow> (string, hits) dict \<Rightarrow> int \<Rightarrow>
    (string, rat) dict option \<Rightarrow> py_error + hits" where
  "fuse_results rnd ranked_lists k engine_weights =
     try_bind (fuse_engines rnd k (case engine_weights of None \<Rightarrow> [] | Some w \<Rightarrow> w) ranked_lists [])
       (\<lambda>rrf_scores. Inr (sorted_desc snd rrf_scores))"

section \<open>From chunk hits to public references\<close>

fun hydrate_hits :: "(string, chunk_provenance) dict \<Rightarrow> string list \<Rightarrow> hits \<Rightarrow> hits" where
  "hydrate_hits provenance_map seen_refs [] = []"
| "hydrate_hits provenance_map seen_refs ((chunk_id, score) # hs) =
     (case dict_get provenance_map chunk_id of
        None \<Rightarrow> hydrate_hits provenance_map seen_refs hs
      | Some p \<Rightarrow>
          let ref = public_ref_for_provenance p
          in if ref \<in> set seen_refs then hydrate_hits provenance_map seen_refs hs
             else (ref, score) # hydrate_hits provenance_map (ref # seen_refs) hs)"

definition hydrate_local_engine_results ::
  "(string, hits) dict \<Rightarrow> (string, chunk_provenance) dict \<Rightarrow> (string, hits) dict" where
  "hydrate_local_engine_results per_engine_chunk provenance_map =
     fold (\<lambda>(engine, chunk_results) result.
        let ref_results = hydrate_hits provenance_map [] chunk_results
        in if ref_results \<noteq> [] then dict_set engine ref_results result else result)
       per_engine_chunk []"

section \<open>Building candidates\<close>

definition add_engine_score :: "string \<Rightarrow> string \<times> rat \<Rightarrow> (string, (string, rat) dict) dict \<Rightarrow>
    (string, (string, rat) dict) dict" where
  "add_engine_score engine hit d =
     dict_set (fst hit) (dict_set engine (snd hit) (dict_get_default d (fst hit) [])) d"

definition engine_scores_by_ref ::
  "(string, hits) dict \<Rightarrow> (string, (string, rat) dict) dict" where
  "engine_scores_by_ref per_engine =
     fold (\<lambda>(engine, ref_results) d. fold (add_engine_score engine) ref_results d) per_engine []"

definition lookup_candidate_chunk :: "(string list \<Rightarrow> py_error + chunk list) \<Rightarrow>
    (string, string \<times> string) dict \<Rightarrow> (string, chunk_provenance) dict \<Rightarrow> string \<Rightarrow>
    py_error + (string \<times> chunk) option" where
  "lookup_candidate_chunk get_chunks ref_to_chunk active_provenance_map chunk_id =
     (case dict_get ref_to_chunk chunk_id of
        Some (lookup_id, _) \<Rightarrow>
          try_bind (get_chunks [lookup_id]) (\<lambda>chunks.
            Inr (case chunks of [] \<Rightarrow> None | c # _ \<Rightarrow> Some (lookup_id, c)))
      | None \<Rightarrow>
          if chunk_id \<in> set (dict_keys active_provenance_map)
          then try_bind (get_chunks [chunk_id]) (\<lambda>chunks.
            Inr (case chunks of [] \<Rightarrow> None | c # _ \<Rightarrow> Some (chunk_id, c)))
          else Inr None)"

definition make_candidate :: "(string, rat) dict option \<Rightarrow> string \<Rightarrow> chunk \<Rightarrow> string \<Rightarrow>
    chunk_provenance \<Rightarrow> rat \<Rightarrow> py_error + search_candidate" where
  "make_candidate engine_scores lookup_id c snippet p fused_score =
     try_bind (validate_ref (cp_ref p)) (\<lambda>_. Inr
     \<lparr>sc_ref = cp_ref p, sc_namespace = cp_namespace p, sc_descriptor_key = ''filesystem-mnt'',
      sc_source_kind = ''markdown'', sc_retrieval_kind = ''semantic'', sc_title = None,
      sc_snippet = snippet, sc_fused_score = fused_score, sc_can_read = True,
      sc_can_materialize = False, sc_chunk_id = Some lookup_id,
      sc_heading_path = Some (if ch_heading_hierarchy c \<noteq> []
        then py_join '' > '' (ch_heading_hierarchy c) else ''''),
      sc_provenance = Some p,
      sc_matched_engines = sort (dict_keys (case engine_scores of None \<Rightarrow> [] | Some d \<Rightarrow> d)),
      sc_engine_scores = engine_scores, sc_source_native_score = None,
      sc_source_native_rank = None, sc_provider_metadata = None\<rparr>)"

fun build_candidates_from :: "(string list \<Rightarrow> py_error + chunk list) \<Rightarrow> string \<Rightarrow>
    (string, string \<times> string) dict \<Rightarrow> (string, chunk_provenance) dict \<Rightarrow> nat \<Rightarrow>
    (string, (string, rat) dict) dict \<Rightarrow> hits \<Rightarrow> py_error + search_candidate list" where
  "build_candidates_from get_chunks query r2c prov snippet_length scores [] = Inr []"
| "build_candidates_from get_chunks query r2c prov snippet_length scores
       ((chunk_id, fused_score) # rest) =
     try_bind (lookup_candidate_chunk get_chunks r2c prov chunk_id) (\<lambda>found. case found of
        None \<Rightarrow> build_candidates_from get_chunks query r2c prov snippet_length scores rest
      | Some (lookup_id, c) \<Rightarrow>
          try_bind (extract_best_snippet (ch_text c) query snippet_length) (\<lambda>snippet.
          case (if lookup_id \<noteq> '''' then dict_get prov lookup_id else None) of
            None \<Rightarrow> Inl (ValueError (''missing source provenance for chunk_id='' @ lookup_id))
          | Some p \<Rightarrow>
              try_bind (make_candidate (dict_get scores chunk_id) lookup_id c snippet p fused_score)
                (\<lambda>cand.
              try_bind (build_candidates_from get_chunks query r2c prov snippet_length scores rest)
                (\<lambda>cands. Inr (cand # cands)))))"

definition build_candidates :: "(string list \<Rightarrow> py_error + chunk list) \<Rightarrow> hits \<Rightarrow>
    (string, hits) dict \<Rightarrow> string \<Rightarrow> (string, string \<times> string) dict option \<Rightarrow>
    (string, chunk_provenance) dict option \<Rightarrow> int \<Rightarrow> nat \<Rightarrow>
    py_error + search_candidate list" where
  "build_candidates get_chunks fused per_engine query ref_to_chunk active_provenance_map
       top_k snippet_length =
     build_candidates_from get_chunks query
       (case ref_to_chunk of None \<Rightarrow> [] | Some d \<Rightarrow> d)
       (case active_provenance_map of None \<Rightarrow> [] | Some d \<Rightarrow> d)
       snippet_length (engine_scores_by_ref per_engine) (py_take top_k fused)"

section \<open>The fused score\<close>

definition hit_contributions :: "(rat \<Rightarrow> rat) \<Rightarrow> int \<Rightarrow> rat \<Rightarrow> int \<Rightarrow> hits \<Rightarrow> string \<Rightarrow> rat list" where
  "hit_contributions rnd k w rank hs cid =
     map (\<lambda>(i, h). rnd (w / of_int (k + rank + int i)))
       (filter (\<lambda>(i, h). fst h = cid) (List.enumerate 0 hs))"

definition contributions :: "(rat \<Rightarrow> rat) \<Rightarrow> int \<Rightarrow> (string, rat) dict \<Rightarrow> (string, hits) dict \<Rightarrow>
    string \<Rightarrow> rat list" where
  "contributions rnd k weights ranked cid =
     concat (map (\<lambda>(e, hs). hit_contributions rnd k (dict_get_default weights e 1) 1 hs cid) ranked)"

abbreviation running_sum :: "(rat \<Rightarrow> rat) \<Rightarrow> rat list \<Rightarrow> rat \<Rightarrow> rat" where
  "running_sum rnd \<equiv> fold (\<lambda>x acc. rnd (acc + x))"

lemma enumerate_Suc_shift: "List.enumerate (Suc n) xs = map (\<lambda>(i, x). (Suc i, x)) (List.enumerate n xs)"
  by (induction xs arbitrary: n) auto

lemma hit_contributions_Cons:
  "hit_contributions rnd k w rank (h # hs) cid =
     (if fst h = cid then [rnd (w / of_int (k + rank))] else [])
       @ hit_contributions rnd k w (rank + 1) hs cid"
  by (simp add: hit_contributions_def enumerate_Suc_shift filter_map case_prod_unfold
      comp_def algebra_simps)

lemma hit_contributions_Nil [simp]: "hit_contributions rnd k w rank [] cid = []"
  by (simp add: hit_contributions_def)

lemma fuse_hits_Inr:
  assumes "0 < k + rank"
  shows "\<exists>d'. fuse_hits rnd k w rank hs d = Inr d'
    \<and> (dict_ok d \<longrightarrow> dict_ok d') \<and> set (dict_keys d') = set (dict_keys d) \<union> fst ` set hs
    \<and> (\<forall>cid. dict_get_default d' cid 0
          = running_sum rnd (hit_contributions rnd k w rank hs cid) (dict_get_default d cid 0))"
  using assms
proof (induction hs arbitrary: rank d)
  case Nil
  then show ?case by (simp add: hit_contributions_def)
next
  case (Cons h hs)
  obtain c x where h: "h = (c, x)" by (cases h)
  let ?d = "dict_set c (rnd (dict_get_default d c 0 + rnd (w / of_int (k + rank)))) d"
  have "0 < k + (rank + 1)" using Cons.prems by simp
  from Cons.IH [OF this, of ?d] Cons.prems show ?case
    by (auto simp: h hit_contributions_Cons dict_get_default_def dict_simps)
qed

lemma fuse_engines_Inr:
  assumes "0 \<le> k"
  shows "\<exists>d'. fuse_engines rnd k weights ranked d = Inr d'
    \<and> (dict_ok d \<longrightarrow> dict_ok d')
    \<and> set (dict_keys d') = set (dict_keys d) \<union> (\<Union>(e, hs) \<in> set ranked. fst ` set hs)
    \<and> (\<forall>cid. dict_get_default d' cid 0
          = running_sum rnd (contributions rnd k weights ranked cid) (dict_get_default d cid 0))"
proof (induction ranked arbitrary: d)
  case Nil
  then show ?case by (simp add: contributions_def)
next
  case (Cons p ranked)
  obtain e hs where p: "p = (e, hs)" by (cases p)
  have "0 < k + 1" using assms by simp
  from fuse_hits_Inr [OF this, of rnd "dict_get_default weights e 1" hs d]
  obtain d1 where d1: "fuse_hits rnd k (dict_get_default weights e 1) 1 hs d = Inr d1"
    and ok: "dict_ok d \<longrightarrow> dict_ok d1" and keys: "set (dict_keys d1) = set (dict_keys d) \<union> fst ` set hs"
    and sums: "\<forall>cid. dict_get_default d1 cid 0 = running_sum rnd
        (hit_contributions rnd k (dict_get_default weights e 1) 1 hs cid) (dict_get_default d cid 0)"
    by blast
  from Cons.IH [of d1] d1 ok keys sums show ?case
    by (auto simp: p contributions_def)
qed

lemma fuse_results_exact:
  assumes "0 \<le> k"
  shows "\<exists>fused. fuse_results rnd ranked k weights = Inr fused
     \<and> distinct (map fst fused)
     \<and> fst ` set fused = (\<Union>(e, hs) \<in> set ranked. fst ` set hs)
     \<and> sorted_wrt (\<lambda>x y. snd y \<le> snd x) fused
     \<and> (\<forall>(cid, score) \<in> set fused. score =
          running_sum rnd (contributions rnd k (case weights of None \<Rightarrow> [] | Some w \<Rightarrow> w) ranked cid) 0)"
proof -
  let ?w = "case weights of None \<Rightarrow> [] | Some w \<Rightarrow> w"
  obtain d where d: "fuse_engines rnd k ?w ranked [] = Inr d" and ok: "dict_ok d"
    and keys: "fst ` set d = (\<Union>(e, hs) \<in> set ranked. fst ` set hs)"
    and sums: "\<forall>cid. dict_get_default d cid 0 = running_sum rnd (contributions rnd k ?w ranked cid) 0"
    using fuse_engines_Inr [OF assms, of rnd ?w ranked "[]"]
    by (auto simp: dict_get_default_def)
  have "score = running_sum rnd (contributions rnd k ?w ranked cid) 0" if "(cid, score) \<in> set d" for cid score
    using sums that ok by (metis dict_get_default_def map_of_is_SomeI option.case(2))
  then show ?thesis using d ok keys
    by (auto simp: fuse_results_def sorted_desc_sorted)
qed

text \<open>C31: Reciprocal rank fusion returns every reference of the input lists exactly once, in
  descending score order, and a reference's score is the rounded running sum, over the
  engines in order, of weight / (k + 1-based rank).\<close>

theorem fuse_results_rrf:
  assumes "0 \<le> k"
  shows "\<exists>fused. fuse_results rnd ranked k weights = Inr fused
     \<and> distinct (map fst fused)
     \<and> fst ` set fused = (\<Union>(e, hs) \<in> set ranked. fst ` set hs)
     \<and> sorted_wrt (\<lambda>x y. snd y \<le> snd x) fused
     \<and> (\<forall>(cid, score) \<in> set fused. score =
          running_sum rnd (contributions rnd k (case weights of None \<Rightarrow> [] | Some w \<Rightarrow> w) ranked cid) 0)"
  using assms by (rule fuse_results_exact)

theorem fuse_results_rrf_witness:
  "\<exists>fused. fuse_results id [(''semantic'', [(''x'', 1/2), (''y'', 1/3)]), (''keyword'', [(''y'', 7)])]
      60 None = Inr fused \<and> distinct (map fst fused)"
  using fuse_results_rrf [of 60 id
      "[(''semantic'', [(''x'', 1/2), (''y'', 1/3)]), (''keyword'', [(''y'', 7)])]" None] by auto

section \<open>Dominance\<close>

text \<open>\<open>a\<close> outranks \<open>b\<close> in a list: wherever \<open>b\<close> occurs, \<open>a\<close> occurs before it.\<close>

fun outranks :: "string \<Rightarrow> string \<Rightarrow> hits \<Rightarrow> bool" where
  "outranks a b [] = True"
| "outranks a b (h # hs) = (fst h = a \<or> (fst h \<noteq> b \<and> outranks a b hs))"

lemma hit_contributions_absent: "cid \<notin> fst ` set hs \<Longrightarrow> hit_contributions rnd k w rank hs cid = []"
  by (induction hs arbitrary: rank) (auto simp: hit_contributions_Cons)

lemma hit_contributions_le:
  assumes "mono rnd" and "0 \<le> w" and "0 < k + r"
  shows "r \<le> rank \<Longrightarrow> x \<in> set (hit_contributions rnd k w rank hs cid) \<Longrightarrow>
    x \<le> rnd (w / of_int (k + r))"
proof (induction hs arbitrary: rank)
  case Nil
  then show ?case by (simp add: hit_contributions_def)
next
  case (Cons h hs)
  have "w / of_int (k + rank) \<le> w / of_int (k + r)"
    using assms(2,3) Cons.prems(1) by (intro divide_left_mono) (auto intro: mult_pos_pos)
  with assms(1) have "rnd (w / of_int (k + rank)) \<le> rnd (w / of_int (k + r))"
    by (rule monoD)
  with Cons.IH [of "rank + 1"] Cons.prems show ?case
    by (auto simp: hit_contributions_Cons split: if_splits)
qed

lemma hit_contributions_nonneg:
  assumes "mono rnd" and "rnd 0 = 0" and "0 \<le> w" and "0 < k + rank"
  shows "x \<in> set (hit_contributions rnd k w rank hs cid) \<Longrightarrow> 0 \<le> x"
  using assms(4)
proof (induction hs arbitrary: rank)
  case Nil
  then show ?case by (simp add: hit_contributions_def)
next
  case (Cons h hs)
  have "rnd 0 \<le> rnd (w / of_int (k + rank))"
    using assms(1,3) Cons.prems(2) by (intro monoD [OF assms(1)] divide_nonneg_pos) auto
  with assms(2) Cons show ?case by (auto simp: hit_contributions_Cons split: if_splits)
qed

lemma hit_contributions_single:
  "distinct (map fst hs) \<Longrightarrow> length (hit_contributions rnd k w rank hs cid) \<le> 1"
  by (induction hs arbitrary: rank)
    (auto simp: hit_contributions_Cons hit_contributions_absent)

lemma outranks_contributions:
  assumes "mono rnd" and "0 \<le> w"
  shows "0 < k + rank \<Longrightarrow> distinct (map fst hs) \<Longrightarrow> a \<noteq> b \<Longrightarrow> outranks a b hs \<Longrightarrow>
    hit_contributions rnd k w rank hs b = [] \<or>
    (\<exists>x y. hit_contributions rnd k w rank hs a = [x] \<and> hit_contributions rnd k w rank hs b = [y] \<and> y \<le> x)"
proof (induction hs arbitrary: rank)
  case Nil
  then show ?case by (simp add: hit_contributions_def)
next
  case (Cons h hs)
  show ?case
  proof (cases "fst h = a")
    case True
    let ?b = "hit_contributions rnd k w (rank + 1) hs b"
    have a: "hit_contributions rnd k w rank (h # hs) a = [rnd (w / of_int (k + rank))]"
      using True Cons.prems(2) by (auto simp: hit_contributions_Cons hit_contributions_absent)
    have b: "hit_contributions rnd k w rank (h # hs) b = ?b"
      using True Cons.prems(3) by (auto simp: hit_contributions_Cons)
    show ?thesis
    proof (cases ?b)
      case Nil
      with b show ?thesis by simp
    next
      case (Cons y ys)
      have "length ?b \<le> 1" using Cons.prems(2) by (intro hit_contributions_single) simp
      with Cons have "?b = [y]" by simp
      moreover have "y \<le> rnd (w / of_int (k + rank))"
        by (rule hit_contributions_le [OF assms, of k rank "rank + 1" y hs b])
          (use Cons.prems(1) \<open>?b = [y]\<close> in auto)
      ultimately show ?thesis using a b by simp
    qed
  next
    case False
    with Cons show ?thesis by (simp add: hit_contributions_Cons)
  qed
qed

lemma running_sum_dominates:
  assumes rnd: "mono rnd" "\<And>x. rnd (rnd x) = rnd x" "rnd 0 = 0"
    and k: "0 \<le> k" and w: "\<And>e. 0 \<le> dict_get_default weights e 1" and ab: "a \<noteq> b"
  shows "\<forall>(e, hs) \<in> set ranked. distinct (map fst hs) \<and> outranks a b hs \<Longrightarrow>
    accb \<le> acca \<Longrightarrow> rnd acca = acca \<Longrightarrow>
    running_sum rnd (contributions rnd k weights ranked b) accb
      \<le> running_sum rnd (contributions rnd k weights ranked a) acca"
proof (induction ranked arbitrary: acca accb)
  case Nil
  then show ?case by (simp add: contributions_def)
next
  case (Cons p ranked)
  obtain e hs where p: "p = (e, hs)" by (cases p)
  let ?h = "hit_contributions rnd k (dict_get_default weights e 1) 1 hs"
  have k1: "0 < k + 1" using k by simp
  have hs: "distinct (map fst hs)" "outranks a b hs" using Cons.prems(1) by (auto simp: p)
  have split: "contributions rnd k weights (p # ranked) c = ?h c @ contributions rnd k weights ranked c" for c
    by (simp add: contributions_def p)
  have "running_sum rnd (?h b) accb \<le> running_sum rnd (?h a) acca
      \<and> rnd (running_sum rnd (?h a) acca) = running_sum rnd (?h a) acca"
    using outranks_contributions [OF rnd(1) w k1 hs(1) ab hs(2), of e]
  proof
    assume none: "?h b = []"
    show ?thesis
    proof (cases "?h a")
      case Nil
      with none Cons.prems show ?thesis by simp
    next
      case (Cons x xs)
      have "length (?h a) \<le> 1" using hs(1) by (rule hit_contributions_single)
      with Cons have a: "?h a = [x]" by simp
      then have "0 \<le> x" using hit_contributions_nonneg [OF rnd(1,3) w k1, of x e hs a] by simp
      then have "rnd acca \<le> rnd (acca + x)" by (intro monoD [OF rnd(1)]) simp
      with none a Cons.prems show ?thesis by (simp add: rnd(2))
    qed
  next
    assume "\<exists>x y. ?h a = [x] \<and> ?h b = [y] \<and> y \<le> x"
    then obtain x y where "?h a = [x]" "?h b = [y]" "y \<le> x" by blast
    moreover from this Cons.prems(2) have "rnd (accb + y) \<le> rnd (acca + x)"
      by (intro monoD [OF rnd(1)]) simp
    ultimately show ?thesis by (simp add: rnd(2))
  qed
  with Cons.IH [of "running_sum rnd (?h b) accb" "running_sum rnd (?h a) acca"] Cons.prems(1)
  show ?case by (simp add: split)
qed

text \<open>Fusion respects unanimous preference under any monotone rounding: if in every
  engine's list \<open>a\<close> stands before \<open>b\<close> wherever \<open>b\<close> occurs, \<open>a\<close> does not score less.\<close>

theorem fuse_results_dominance:
  assumes "mono rnd" and "\<And>x. rnd (rnd x) = rnd x" and "rnd 0 = 0" and "0 \<le> k"
    and "\<And>e. 0 \<le> dict_get_default ws e 1"
    and "a \<noteq> b" and "\<forall>(e, hs) \<in> set ranked. distinct (map fst hs) \<and> outranks a b hs"
    and "fuse_results rnd ranked k (Some ws) = Inr fused"
    and "(a, sa) \<in> set fused" and "(b, sb) \<in> set fused"
  shows "sb \<le> sa"
proof -
  let ?sum = "\<lambda>c. running_sum rnd (contributions rnd k ws ranked c) 0"
  obtain d where d: "fuse_engines rnd k ws ranked [] = Inr d" and ok: "dict_ok d"
    and sums: "\<forall>cid. dict_get_default d cid 0 = ?sum cid"
    using fuse_engines_Inr [OF assms(4), of rnd ws ranked "[]"] by (auto simp: dict_get_default_def)
  have "set fused = set d" using assms(8) d by (auto simp: fuse_results_def)
  with assms(9,10) sums ok have "sa = ?sum a" and "sb = ?sum b"
    by (metis dict_get_default_def map_of_is_SomeI option.case(2))+
  moreover have "?sum b \<le> ?sum a"
    by (rule running_sum_dominates) (use assms in auto)
  ultimately show ?thesis by simp
qed

theorem fuse_results_dominance_witness:
  "fuse_results id [(''semantic'', [(''x'', 9), (''y'', 8)]), (''keyword'', [(''x'', 2)])] 60 (Some [])
     = Inr [(''x'', 2/61), (''y'', 1/62)] \<and> (1/62 :: rat) \<le> 2/61"
proof
  show f: "fuse_results id [(''semantic'', [(''x'', 9), (''y'', 8)]), (''keyword'', [(''x'', 2)])] 60
      (Some []) = Inr [(''x'', 2/61), (''y'', 1/62)]"
    by (simp add: fuse_results_def sorted_desc_def dict_get_default_def)
  show "(1/62 :: rat) \<le> 2/61"
    by (rule fuse_results_dominance [OF _ _ _ _ _ _ _ f, where a = "''x''" and b = "''y''"])
      (auto simp: mono_def dict_get_default_def)
qed

end
