(* ===== verification/Sql_Tables.thy ===== *)
theory Sql_Tables
  imports Dotmd_Prelude
begin

text \<open>
  A SQL table is the list of its rows in rowid order; a row is a record and \<open>key\<close>
  reads its primary key.  The five statements the program issues are
  \<open>INSERT OR IGNORE\<close>, \<open>INSERT OR REPLACE\<close>, \<open>INSERT ... ON CONFLICT DO UPDATE\<close>,
  \<open>UPDATE ... WHERE\<close> and \<open>DELETE ... WHERE\<close>; \<open>fetch_key\<close> is
  \<open>SELECT ... WHERE <primary key> = ?\<close> with \<open>fetchone()\<close>.  The locale \<open>keyed_store\<close>
  is the contract the stores offer to their clients over such a table, extended
  by \<open>first_wins\<close> (a stored row is never overwritten) and \<open>last_wins\<close> (an upsert).
\<close>

named_theorems sql_simps \<open>lookup laws of the SQL statements\<close>

definition pk_ok :: "('r \<Rightarrow> 'k) \<Rightarrow> 'r list \<Rightarrow> bool" where
  "pk_ok key t = distinct (map key t)"

definition fetch_key :: "('r \<Rightarrow> 'k) \<Rightarrow> 'r list \<Rightarrow> 'k \<Rightarrow> 'r option" where
  "fetch_key key t k = find (\<lambda>r. key r = k) t"

definition insert_or_ignore :: "('r \<Rightarrow> 'k) \<Rightarrow> 'r \<Rightarrow> 'r list \<Rightarrow> 'r list" where
  "insert_or_ignore key r t = (if key r \<in> set (map key t) then t else t @ [r])"

definition insert_or_replace :: "('r \<Rightarrow> 'k) \<Rightarrow> 'r \<Rightarrow> 'r list \<Rightarrow> 'r list" where
  "insert_or_replace key r t = filter (\<lambda>x. key x \<noteq> key r) t @ [r]"

definition update_where :: "('r \<Rightarrow> bool) \<Rightarrow> ('r \<Rightarrow> 'r) \<Rightarrow> 'r list \<Rightarrow> 'r list" where
  "update_where P f t = map (\<lambda>x. if P x then f x else x) t"

definition upsert :: "('r \<Rightarrow> 'k) \<Rightarrow> ('r \<Rightarrow> 'r \<Rightarrow> 'r) \<Rightarrow> 'r \<Rightarrow> 'r list \<Rightarrow> 'r list" where
  "upsert key upd r t =
     (if key r \<in> set (map key t) then update_where (\<lambda>x. key x = key r) (\<lambda>x. upd x r) t
      else t @ [r])"

definition delete_where :: "('r \<Rightarrow> bool) \<Rightarrow> 'r list \<Rightarrow> 'r list" where
  "delete_where P t = filter (\<lambda>x. \<not> P x) t"

lemma set_delete_where [simp, sql_simps]: "set (delete_where P t) = {r \<in> set t. \<not> P r}"
  by (auto simp: delete_where_def)

lemma set_insert_or_ignore [sql_simps]:
  "set (insert_or_ignore key r t) =
     (if key r \<in> key ` set t then set t else insert r (set t))"
  by (auto simp: insert_or_ignore_def)

lemma set_insert_or_replace [sql_simps]:
  "set (insert_or_replace key r t) = insert r {x \<in> set t. key x \<noteq> key r}"
  by (auto simp: insert_or_replace_def)

section \<open>Primary keys are kept unique\<close>

lemma pk_ok_Nil [simp]: "pk_ok key []"
  by (simp add: pk_ok_def)

lemma pk_ok_insert_or_ignore [intro]: "pk_ok key t \<Longrightarrow> pk_ok key (insert_or_ignore key r t)"
  by (auto simp: pk_ok_def insert_or_ignore_def)

lemma distinct_map_filter_key: "distinct (map f xs) \<Longrightarrow> distinct (map f (filter P xs))"
  by (induction xs) auto

lemma pk_ok_insert_or_replace [intro]: "pk_ok key t \<Longrightarrow> pk_ok key (insert_or_replace key r t)"
  by (auto simp: pk_ok_def insert_or_replace_def intro: distinct_map_filter_key)

lemma map_key_update_where:
  "(\<And>x. x \<in> set t \<Longrightarrow> P x \<Longrightarrow> key (f x) = key x) \<Longrightarrow> map key (update_where P f t) = map key t"
  by (auto simp: update_where_def)

lemma pk_ok_update_where [intro]:
  assumes "pk_ok key t" and "\<And>x. x \<in> set t \<Longrightarrow> P x \<Longrightarrow> key (f x) = key x"
  shows "pk_ok key (update_where P f t)"
  using assms by (simp add: pk_ok_def map_key_update_where)

lemma pk_ok_upsert [intro]:
  assumes "pk_ok key t" and "\<And>x. key x = key r \<Longrightarrow> key (upd x r) = key r"
  shows "pk_ok key (upsert key upd r t)"
proof (cases "key r \<in> set (map key t)")
  case True
  have "pk_ok key (update_where (\<lambda>x. key x = key r) (\<lambda>x. upd x r) t)"
    using assms by (intro pk_ok_update_where) auto
  with True show ?thesis unfolding upsert_def by simp
next
  case False
  with assms(1) show ?thesis by (simp add: upsert_def pk_ok_def)
qed

lemma pk_ok_delete_where [intro]: "pk_ok key t \<Longrightarrow> pk_ok key (delete_where P t)"
  by (auto simp: pk_ok_def delete_where_def intro: distinct_map_filter_key)

section \<open>Lookups after each statement\<close>

lemma fetch_key_key: "fetch_key key t k = Some r \<Longrightarrow> key r = k"
  by (auto simp: fetch_key_def dest: find_Some_iff_set)

lemma fetch_key_in: "fetch_key key t k = Some r \<Longrightarrow> r \<in> set t"
  by (auto simp: fetch_key_def dest: find_Some_iff_set)

lemma fetch_key_None_iff: "fetch_key key t k = None \<longleftrightarrow> k \<notin> key ` set t"
  by (auto simp: fetch_key_def find_None_iff_set)

lemma fetch_key_Nil [simp]: "fetch_key key [] k = None"
  by (simp add: fetch_key_def)

lemma fetch_key_Cons [simp]:
  "fetch_key key (r # t) k = (if key r = k then Some r else fetch_key key t k)"
  by (simp add: fetch_key_def)

lemma fetch_key_append:
  "fetch_key key (t @ u) k =
     (case fetch_key key t k of None \<Rightarrow> fetch_key key u k | Some r \<Rightarrow> Some r)"
  by (induction t) auto

lemma fetch_key_member:
  assumes "pk_ok key t" and "r \<in> set t"
  shows "fetch_key key t (key r) = Some r"
proof -
  obtain r' where r': "fetch_key key t (key r) = Some r'"
    using assms(2) by (metis fetch_key_None_iff imageI option.exhaust)
  then have "r' \<in> set t" and "key r' = key r"
    by (auto dest: fetch_key_in fetch_key_key)
  with assms have "r' = r"
    by (auto simp: pk_ok_def distinct_map dest: inj_onD)
  with r' show ?thesis by simp
qed

lemma fetch_key_Some_iff:
  "pk_ok key t \<Longrightarrow> fetch_key key t k = Some r \<longleftrightarrow> r \<in> set t \<and> key r = k"
  by (auto dest: fetch_key_in fetch_key_key fetch_key_member)

lemma fetch_insert_or_ignore [sql_simps]:
  "fetch_key key (insert_or_ignore key r t) k =
     (if k = key r \<and> fetch_key key t k = None then Some r else fetch_key key t k)"
proof (cases "key r \<in> key ` set t")
  case True
  then have "fetch_key key t (key r) \<noteq> None" by (simp add: fetch_key_None_iff)
  with True show ?thesis by (auto simp: insert_or_ignore_def)
next
  case False
  then have "fetch_key key t (key r) = None" by (simp add: fetch_key_None_iff)
  with False show ?thesis
    by (auto simp: insert_or_ignore_def fetch_key_append split: option.splits)
qed

lemma fetch_filter_neq:
  "fetch_key key (filter (\<lambda>x. key x \<noteq> j) t) k = (if k = j then None else fetch_key key t k)"
  by (induction t) auto

lemma fetch_insert_or_replace [sql_simps]:
  "fetch_key key (insert_or_replace key r t) k = (if k = key r then Some r else fetch_key key t k)"
  by (auto simp: insert_or_replace_def fetch_key_append fetch_filter_neq split: option.splits)

lemma fetch_update_where:
  assumes "\<And>x. x \<in> set t \<Longrightarrow> P x \<Longrightarrow> key (f x) = key x"
  shows "fetch_key key (update_where P f t) k =
     map_option (\<lambda>x. if P x then f x else x) (fetch_key key t k)"
  using assms by (induction t) (auto simp: update_where_def)

lemma fetch_upsert [sql_simps]:
  assumes "\<And>x. key x = key r \<Longrightarrow> key (upd x r) = key r"
  shows "fetch_key key (upsert key upd r t) k =
     (if k = key r then (case fetch_key key t k of None \<Rightarrow> Some r | Some x \<Rightarrow> Some (upd x r))
      else fetch_key key t k)"
proof (cases "key r \<in> set (map key t)")
  case True
  then obtain x where x: "fetch_key key t (key r) = Some x"
    by (metis fetch_key_None_iff image_set option.exhaust)
  have "fetch_key key (update_where (\<lambda>x. key x = key r) (\<lambda>x. upd x r) t) k =
      map_option (\<lambda>x. if key x = key r then upd x r else x) (fetch_key key t k)"
    using assms by (intro fetch_update_where) simp
  also have "\<dots> = (if k = key r then Some (upd x r) else fetch_key key t k)"
    using x by (cases "fetch_key key t k") (auto dest: fetch_key_key)
  finally show ?thesis using True x unfolding upsert_def by simp
next
  case False
  then have "fetch_key key t (key r) = None" by (simp add: fetch_key_None_iff)
  moreover have "fetch_key key [r] k = (if k = key r then Some r else None)"
    by (simp add: fetch_key_def)
  ultimately show ?thesis using False
    by (auto simp: upsert_def fetch_key_append split: option.splits)
qed

lemma fetch_delete_key [sql_simps]:
  "fetch_key key (delete_where (\<lambda>r. key r = j) t) k = (if k = j then None else fetch_key key t k)"
  by (simp add: delete_where_def fetch_filter_neq)

lemma fetch_delete_where:
  assumes "pk_ok key t"
  shows "fetch_key key (delete_where P t) k =
     (case fetch_key key t k of None \<Rightarrow> None | Some r \<Rightarrow> if P r then None else Some r)"
  using assms
proof (induction t)
  case Nil
  then show ?case by (simp add: delete_where_def)
next
  case (Cons a t)
  then have tail: "fetch_key key t (key a) = None" and "pk_ok key t"
    by (auto simp: pk_ok_def fetch_key_None_iff)
  with Cons.IH show ?case
    by (cases "key a = k") (auto simp: delete_where_def)
qed

section \<open>The contract of a keyed store\<close>

locale keyed_store =
  fixes key :: "'r \<Rightarrow> 'k"
    and invar :: "'s \<Rightarrow> bool"
    and lookup :: "'s \<Rightarrow> 'k \<Rightarrow> 'r option"
    and put :: "'r \<Rightarrow> 's \<Rightarrow> 's"
  assumes lookup_key: "invar s \<Longrightarrow> lookup s k = Some r \<Longrightarrow> key r = k"
    and put_invar: "invar s \<Longrightarrow> invar (put r s)"
    and put_other: "invar s \<Longrightarrow> k \<noteq> key r \<Longrightarrow> lookup (put r s) k = lookup s k"
    and put_present: "invar s \<Longrightarrow> lookup (put r s) (key r) \<noteq> None"
begin

lemma fold_put_invar: "invar s \<Longrightarrow> invar (fold put rs s)"
  by (induction rs arbitrary: s) (auto intro: put_invar)

lemma fold_put_other: "invar s \<Longrightarrow> k \<notin> key ` set rs \<Longrightarrow> lookup (fold put rs s) k = lookup s k"
  by (induction rs arbitrary: s) (auto simp: put_other put_invar)

lemma put_keeps_present: "invar s \<Longrightarrow> lookup s k \<noteq> None \<Longrightarrow> lookup (put r s) k \<noteq> None"
  by (cases "k = key r") (auto simp: put_other put_present dest: put_present)

lemma fold_put_present: "invar s \<Longrightarrow> k \<in> key ` set rs \<or> lookup s k \<noteq> None \<Longrightarrow>
    lookup (fold put rs s) k \<noteq> None"
proof (induction rs arbitrary: s)
  case Nil
  then show ?case by simp
next
  case (Cons r rs)
  have "k \<in> key ` set rs \<or> lookup (put r s) k \<noteq> None"
    using Cons.prems put_present put_keeps_present by fastforce
  with Cons.IH [of "put r s"] Cons.prems put_invar show ?case by simp
qed

end

locale first_wins = keyed_store +
  assumes put_keep: "invar s \<Longrightarrow> lookup s (key r) = Some r' \<Longrightarrow> lookup (put r s) (key r) = Some r'"
    and put_new: "invar s \<Longrightarrow> lookup s (key r) = None \<Longrightarrow> lookup (put r s) (key r) = Some r"
begin

lemma immutable: "invar s \<Longrightarrow> lookup s k = Some r' \<Longrightarrow> lookup (put r s) k = Some r'"
  by (cases "k = key r") (auto simp: put_other put_keep)

lemma fold_immutable: "invar s \<Longrightarrow> lookup s k = Some r' \<Longrightarrow> lookup (fold put rs s) k = Some r'"
  by (induction rs arbitrary: s) (auto simp: immutable put_invar)

lemma put_twice: "invar s \<Longrightarrow> lookup (put r (put r s)) k = lookup (put r s) k"
  by (metis immutable put_invar put_other put_present option.exhaust)

lemma fold_first: "invar s \<Longrightarrow> k \<in> key ` set rs \<Longrightarrow> lookup s k = None \<Longrightarrow>
    lookup (fold put rs s) k = find (\<lambda>r. key r = k) rs"
proof (induction rs arbitrary: s)
  case Nil
  then show ?case by simp
next
  case (Cons r rs)
  show ?case
  proof (cases "key r = k")
    case True
    with Cons.prems put_new put_invar show ?thesis by (auto simp: fold_immutable)
  next
    case False
    with Cons show ?thesis by (auto simp: put_other put_invar)
  qed
qed

end

locale last_wins = keyed_store +
  assumes put_self: "invar s \<Longrightarrow> lookup (put r s) (key r) = Some r"
begin

lemma put_override: "invar s \<Longrightarrow> lookup (put r s) = (lookup s)(key r \<mapsto> r)"
  by (auto simp: put_self put_other)

lemma fold_last: "invar s \<Longrightarrow> k \<in> key ` set rs \<Longrightarrow>
    lookup (fold put rs s) k = find (\<lambda>r. key r = k) (rev rs)"
proof (induction rs rule: rev_induct)
  case Nil
  then show ?case by simp
next
  case (snoc r rs)
  then have "invar (fold put rs s)" by (simp add: fold_put_invar)
  with snoc show ?case
    by (cases "key r = k") (auto simp: put_self put_other)
qed

end

text \<open>Each insertion statement meets one of the two contracts.\<close>

interpretation ignore_table: first_wins key "pk_ok key" "fetch_key key" "insert_or_ignore key"
  for key :: "'r \<Rightarrow> 'k"
  by unfold_locales (auto simp: sql_simps dest: fetch_key_key)

interpretation replace_table: last_wins key "pk_ok key" "fetch_key key" "insert_or_replace key"
  for key :: "'r \<Rightarrow> 'k"
  by unfold_locales (auto simp: sql_simps dest: fetch_key_key)

end
