(* ===== verification/Metadata_Sources.thy ===== *)
theory Metadata_Sources
  imports Sql_Tables Core_Models
begin

text \<open>
  The source-state half of \<open>storage/metadata.py\<close> (\<open>SQLiteMetadataStore\<close>): the
  database as one record of tables, and the operations on \<open>source_documents\<close>,
  \<open>resource_bindings\<close>, \<open>source_checkpoints\<close>, \<open>source_unit_fingerprints\<close> and
  \<open>stats\<close>.  Tables whose name carries a strategy are kept in dicts under their
  full name, so a missing table is a missing key.  \<open>datetime.now\<close> is the argument
  \<open>now\<close>.  The invariant \<open>store_ok\<close> says every primary key is unique.
\<close>

section \<open>The database\<close>

record chunk_row =
  cr_chunk_id :: string
  cr_heading_hierarchy :: "string list"
  cr_level :: int
  cr_text :: string

record m2m_row =
  mm_chunk_id :: string
  mm_file_path :: string
  mm_chunk_index :: nat

record prov_row =
  pr_chunk_id :: string
  pr_namespace :: string
  pr_document_ref :: string
  pr_source_unit_refs :: "string list"
  pr_chunk_strategy :: string
  pr_parser_name :: "string option"

record checkpoint_row =
  ck_namespace :: string
  ck_checkpoint_cursor :: "string option"
  ck_last_success_at :: "timestamp option"
  ck_last_error :: "string option"
  ck_metadata_json :: "(string, json) dict"

record unit_fingerprint_row =
  uf_namespace :: string
  uf_document_ref :: string
  uf_unit_ref :: string
  uf_fingerprint :: string
  uf_updated_at :: timestamp
  uf_indexed_at :: timestamp
  uf_metadata_json :: json

record store =
  st_table :: string
  st_fts_table :: string
  st_chunks :: "(string, chunk_row list) dict"
  st_m2m :: "(string, m2m_row list) dict"
  st_prov :: "(string, prov_row list) dict"
  st_fts :: "(string, string list) dict"
  st_documents :: "source_document list"
  st_bindings :: "resource_binding list"
  st_checkpoints :: "checkpoint_row list"
  st_unit_fps :: "unit_fingerprint_row list"
  st_stats :: "index_stats option"

definition doc_key :: "source_document \<Rightarrow> string \<times> string" where
  "doc_key d = (sd_namespace d, sd_document_ref d)"

definition binding_key :: "resource_binding \<Rightarrow> string \<times> string" where
  "binding_key b = (rb_namespace b, rb_resource_ref b)"

definition unit_fp_key :: "unit_fingerprint_row \<Rightarrow> string \<times> string \<times> string" where
  "unit_fp_key u = (uf_namespace u, uf_document_ref u, uf_unit_ref u)"

definition m2m_key :: "m2m_row \<Rightarrow> string \<times> string \<times> nat" where
  "m2m_key m = (mm_chunk_id m, mm_file_path m, mm_chunk_index m)"

definition prov_key :: "prov_row \<Rightarrow> string \<times> string \<times> string" where
  "prov_key p = (pr_chunk_id p, pr_namespace p, pr_document_ref p)"

lemmas store_keys = doc_key_def binding_key_def unit_fp_key_def m2m_key_def prov_key_def

definition store_ok :: "store \<Rightarrow> bool" where
  "store_ok s \<longleftrightarrow>
     pk_ok doc_key (st_documents s) \<and> pk_ok binding_key (st_bindings s)
     \<and> pk_ok ck_namespace (st_checkpoints s) \<and> pk_ok unit_fp_key (st_unit_fps s)
     \<and> dict_ok (st_chunks s) \<and> dict_ok (st_m2m s) \<and> dict_ok (st_prov s) \<and> dict_ok (st_fts s)
     \<and> (\<forall>(n, t) \<in> set (st_chunks s). pk_ok cr_chunk_id t)
     \<and> (\<forall>(n, t) \<in> set (st_m2m s). pk_ok m2m_key t)
     \<and> (\<forall>(n, t) \<in> set (st_prov s). pk_ok prov_key t)"

section \<open>Source documents\<close>

definition upsert_source_document :: "source_document \<Rightarrow> store \<Rightarrow> store" where
  "upsert_source_document d s =
     s\<lparr>st_documents := upsert doc_key (\<lambda>_ excluded. excluded) d (st_documents s)\<rparr>"

definition get_source_document ::
  "(string \<Rightarrow> string) \<Rightarrow> store \<Rightarrow> string \<Rightarrow> string \<Rightarrow> py_error + source_document option" where
  "get_source_document resolve s ns doc =
     (case fetch_key doc_key (st_documents s) (ns, doc) of
        None \<Rightarrow> Inr None
      | Some row \<Rightarrow> try_bind (validate_source_document resolve row) (\<lambda>d. Inr (Some d)))"

definition delete_source_document :: "string \<Rightarrow> string \<Rightarrow> store \<Rightarrow> store" where
  "delete_source_document ns doc s =
     s\<lparr>st_documents := delete_where (\<lambda>d. doc_key d = (ns, doc)) (st_documents s)\<rparr>"

definition delete_source_document_for_file ::
  "(string \<Rightarrow> string) \<Rightarrow> string \<Rightarrow> store \<Rightarrow> store" where
  "delete_source_document_for_file resolve file_path s =
     delete_source_document ''filesystem'' (resolve file_path) s"

section \<open>Resource bindings\<close>

definition upsert_resource_binding :: "resource_binding \<Rightarrow> store \<Rightarrow> store" where
  "upsert_resource_binding b s =
     s\<lparr>st_bindings := upsert binding_key (\<lambda>_ excluded. excluded) b (st_bindings s)\<rparr>"

definition get_resource_binding ::
  "store \<Rightarrow> string \<Rightarrow> string \<Rightarrow> py_error + resource_binding option" where
  "get_resource_binding s ns ref =
     (case fetch_key binding_key (st_bindings s) (ns, ref) of
        None \<Rightarrow> Inr None
      | Some row \<Rightarrow> try_bind (validate_resource_binding row) (\<lambda>b. Inr (Some b)))"

text \<open>\<open>ORDER BY bound_at DESC, resource_ref LIMIT 1\<close>.\<close>

definition get_inactive_resource_binding_by_fingerprints ::
  "store \<Rightarrow> string \<Rightarrow> string \<Rightarrow> string \<Rightarrow> py_error + resource_binding option" where
  "get_inactive_resource_binding_by_fingerprints s ns cfp mfp =
     (case sort_key (\<lambda>b. (- rb_bound_at b, rb_resource_ref b))
        (filter (\<lambda>b. rb_namespace b = ns \<and> rb_content_fingerprint b = cfp
            \<and> rb_metadata_fingerprint b = mfp \<and> \<not> rb_active b) (st_bindings s)) of
        [] \<Rightarrow> Inr None
      | row # _ \<Rightarrow> try_bind (validate_resource_binding row) (\<lambda>b. Inr (Some b)))"

definition is_resource_binding_active :: "store \<Rightarrow> string \<Rightarrow> string \<Rightarrow> bool" where
  "is_resource_binding_active s ns ref =
     (case fetch_key binding_key (st_bindings s) (ns, ref) of
        Some row \<Rightarrow> rb_active row | None \<Rightarrow> False)"

definition set_resource_binding_active ::
  "timestamp \<Rightarrow> string \<Rightarrow> string \<Rightarrow> bool \<Rightarrow> timestamp option \<Rightarrow> store \<Rightarrow> store" where
  "set_resource_binding_active now ns ref active unbound_at s =
     (let effective_unbound_at =
            (if active then None
             else Some (case unbound_at of Some t \<Rightarrow> t | None \<Rightarrow> now))
      in s\<lparr>st_bindings := update_where (\<lambda>b. binding_key b = (ns, ref))
            (\<lambda>b. b\<lparr>rb_active := active, rb_unbound_at := effective_unbound_at\<rparr>)
            (st_bindings s)\<rparr>)"

definition count_resource_bindings :: "store \<Rightarrow> nat \<times> nat \<times> nat" where
  "count_resource_bindings s =
     (length (filter rb_active (st_bindings s)),
      length (filter (\<lambda>b. \<not> rb_active b) (st_bindings s)),
      length (st_bindings s))"

definition binding_of_document :: "source_document \<Rightarrow> resource_binding" where
  "binding_of_document d =
     \<lparr>rb_namespace = sd_namespace d, rb_resource_ref = sd_document_ref d,
      rb_document_ref = sd_document_ref d, rb_ref = sd_ref d, rb_active = True,
      rb_bound_at = sd_updated_at d, rb_unbound_at = None,
      rb_content_fingerprint = sd_content_fingerprint d,
      rb_metadata_fingerprint = sd_metadata_fingerprint d,
      rb_source_unit_refs = [], rb_metadata_json = []\<rparr>"

text \<open>
  \<open>INSERT ... SELECT ... FROM source_documents ON CONFLICT DO NOTHING\<close>; the
  count is the number of rows the statement added (\<open>total_changes\<close>).  The column
  \<open>updated_at\<close> is NOT NULL, so \<open>COALESCE(updated_at, ?)\<close> is \<open>updated_at\<close>.
\<close>

definition backfill_resource_bindings_from_source_documents :: "store \<Rightarrow> nat \<times> store" where
  "backfill_resource_bindings_from_source_documents s =
     (let t = fold (insert_or_ignore binding_key) (map binding_of_document (st_documents s))
                (st_bindings s)
      in (length t - length (st_bindings s), s\<lparr>st_bindings := t\<rparr>))"

section \<open>Checkpoints\<close>

definition commit_source_checkpoint ::
  "timestamp \<Rightarrow> string \<Rightarrow> string option \<Rightarrow> (string, json) dict option \<Rightarrow> store \<Rightarrow> store" where
  "commit_source_checkpoint now ns cursor metadata s =
     s\<lparr>st_checkpoints := upsert ck_namespace
        (\<lambda>old excluded. old\<lparr>ck_checkpoint_cursor := ck_checkpoint_cursor excluded,
            ck_last_success_at := ck_last_success_at excluded, ck_last_error := None,
            ck_metadata_json := ck_metadata_json excluded\<rparr>)
        \<lparr>ck_namespace = ns, ck_checkpoint_cursor = cursor, ck_last_success_at = Some now,
         ck_last_error = None,
         ck_metadata_json = (case metadata of None \<Rightarrow> [] | Some m \<Rightarrow> m)\<rparr>
        (st_checkpoints s)\<rparr>"

definition get_source_checkpoint :: "store \<Rightarrow> string \<Rightarrow> checkpoint_row option" where
  "get_source_checkpoint s ns = fetch_key ck_namespace (st_checkpoints s) ns"

definition record_source_checkpoint_error :: "string \<Rightarrow> string \<Rightarrow> store \<Rightarrow> store" where
  "record_source_checkpoint_error ns err s =
     s\<lparr>st_checkpoints := upsert ck_namespace
        (\<lambda>old excluded. old\<lparr>ck_last_error := ck_last_error excluded\<rparr>)
        \<lparr>ck_namespace = ns, ck_checkpoint_cursor = None, ck_last_success_at = None,
         ck_last_error = Some err, ck_metadata_json = []\<rparr>
        (st_checkpoints s)\<rparr>"

section \<open>Source-unit fingerprints\<close>

definition upsert_source_unit_fingerprint ::
  "timestamp \<Rightarrow> source_unit \<Rightarrow> timestamp option \<Rightarrow> store \<Rightarrow> bool \<times> store" where
  "upsert_source_unit_fingerprint now u indexed_at s =
     (if (case fetch_key unit_fp_key (st_unit_fps s)
               (su_namespace u, su_document_ref u, su_unit_ref u) of
            Some existing \<Rightarrow> uf_fingerprint existing = su_fingerprint u
          | None \<Rightarrow> False)
      then (False, s)
      else (True, s\<lparr>st_unit_fps := upsert unit_fp_key (\<lambda>_ excluded. excluded)
            \<lparr>uf_namespace = su_namespace u, uf_document_ref = su_document_ref u,
             uf_unit_ref = su_unit_ref u, uf_fingerprint = su_fingerprint u,
             uf_updated_at = su_updated_at u,
             uf_indexed_at = (case indexed_at of Some t \<Rightarrow> t | None \<Rightarrow> now),
             uf_metadata_json = su_metadata_json u\<rparr> (st_unit_fps s)\<rparr>))"

definition get_source_unit_fingerprint ::
  "store \<Rightarrow> string \<Rightarrow> string \<Rightarrow> string \<Rightarrow> unit_fingerprint_row option" where
  "get_source_unit_fingerprint s ns doc u = fetch_key unit_fp_key (st_unit_fps s) (ns, doc, u)"

section \<open>Statistics\<close>

definition save_stats :: "index_stats \<Rightarrow> store \<Rightarrow> store" where
  "save_stats stats s = s\<lparr>st_stats := Some stats\<rparr>"

definition get_stats :: "store \<Rightarrow> index_stats option" where
  "get_stats s = st_stats s"

section \<open>The tables under the operations\<close>

lemma fetch_upsert_excluded [sql_simps]:
  "fetch_key key (upsert key (\<lambda>_ e. e) r t) k = (if k = key r then Some r else fetch_key key t k)"
  by (simp add: fetch_upsert split: option.splits)

lemma store_ok_upsert_source_document [intro]:
  "store_ok s \<Longrightarrow> store_ok (upsert_source_document d s)"
  by (simp add: store_ok_def upsert_source_document_def pk_ok_upsert)

lemma store_ok_delete_source_document [intro]:
  "store_ok s \<Longrightarrow> store_ok (delete_source_document ns doc s)"
  by (simp add: store_ok_def delete_source_document_def pk_ok_delete_where)

lemma store_ok_upsert_resource_binding [intro]:
  "store_ok s \<Longrightarrow> store_ok (upsert_resource_binding b s)"
  by (simp add: store_ok_def upsert_resource_binding_def pk_ok_upsert)

lemma store_ok_set_resource_binding_active [intro]:
  "store_ok s \<Longrightarrow> store_ok (set_resource_binding_active now ns ref a u s)"
  by (simp add: store_ok_def set_resource_binding_active_def Let_def pk_ok_update_where
      binding_key_def)

lemma pk_ok_fold_ignore: "pk_ok key t \<Longrightarrow> pk_ok key (fold (insert_or_ignore key) rs t)"
  by (rule ignore_table.fold_put_invar)

lemma store_ok_backfill_bindings [intro]:
  "store_ok s \<Longrightarrow> store_ok (snd (backfill_resource_bindings_from_source_documents s))"
  by (simp add: store_ok_def backfill_resource_bindings_from_source_documents_def Let_def
      pk_ok_fold_ignore)

lemma store_ok_commit_source_checkpoint [intro]:
  "store_ok s \<Longrightarrow> store_ok (commit_source_checkpoint now ns c m s)"
  by (simp add: store_ok_def commit_source_checkpoint_def pk_ok_upsert)

lemma store_ok_record_source_checkpoint_error [intro]:
  "store_ok s \<Longrightarrow> store_ok (record_source_checkpoint_error ns err s)"
  by (simp add: store_ok_def record_source_checkpoint_error_def pk_ok_upsert)

lemma store_ok_upsert_source_unit_fingerprint [intro]:
  "store_ok s \<Longrightarrow> store_ok (snd (upsert_source_unit_fingerprint now u i s))"
  by (simp add: store_ok_def upsert_source_unit_fingerprint_def pk_ok_upsert)

lemma store_ok_save_stats [intro]: "store_ok s \<Longrightarrow> store_ok (save_stats st s)"
  by (simp add: store_ok_def save_stats_def)

lemma fetch_upsert_source_document [sql_simps]:
  "fetch_key doc_key (st_documents (upsert_source_document d s)) k =
     (if k = doc_key d then Some d else fetch_key doc_key (st_documents s) k)"
  by (simp add: upsert_source_document_def sql_simps)

lemma fetch_upsert_resource_binding [sql_simps]:
  "fetch_key binding_key (st_bindings (upsert_resource_binding b s)) k =
     (if k = binding_key b then Some b else fetch_key binding_key (st_bindings s) k)"
  by (simp add: upsert_resource_binding_def sql_simps)

text \<open>The two upserted tables are last-wins stores over the whole database.\<close>

interpretation documents: last_wins doc_key store_ok
    "\<lambda>s. fetch_key doc_key (st_documents s)" upsert_source_document
  by unfold_locales
    (auto simp: sql_simps dest: fetch_key_key)

interpretation bindings: last_wins binding_key store_ok
    "\<lambda>s. fetch_key binding_key (st_bindings s)" upsert_resource_binding
  by unfold_locales
    (auto simp: sql_simps dest: fetch_key_key)

end
