(* ===== verification/Metadata_Chunks.thy ===== *)
theory Metadata_Chunks
  imports Metadata_Sources
begin

text \<open>
  The chunk half of \<open>storage/metadata.py\<close>: the content table \<open>chunks_<strategy>\<close>,
  the holder table \<open>chunk_file_paths_<strategy>\<close> (which files hold a chunk, at
  which index) and the provenance table \<open>chunk_source_provenance_<strategy>\<close>.
  A statement on a table that does not exist raises \<open>OperationalError\<close>; where the
  code suppresses it, the statement is skipped.  An operation that raises leaves no
  new store: the transaction belongs to the caller, who rolls it back.  A query
  without \<open>ORDER BY\<close> returns its rows in table order.
\<close>

section \<open>Tables by name\<close>

definition table_of :: "(string, 'r list) dict \<Rightarrow> string \<Rightarrow> py_error + 'r list" where
  "table_of db name =
     (case dict_get db name of
        None \<Rightarrow> Inl (OperationalError (''no such table: '' @ name))
      | Some t \<Rightarrow> Inr t)"

definition ensure_table :: "string \<Rightarrow> (string, 'r list) dict \<Rightarrow> (string, 'r list) dict" where
  "ensure_table name db = (case dict_get db name of None \<Rightarrow> dict_set name [] db | Some _ \<Rightarrow> db)"

definition chunk_table :: "string \<Rightarrow> string" where
  "chunk_table strategy = ''chunks_'' @ strategy"

definition m2m_table :: "string \<Rightarrow> string" where
  "m2m_table strategy = ''chunk_file_paths_'' @ strategy"

definition prov_table :: "string \<Rightarrow> string" where
  "prov_table strategy = ''chunk_source_provenance_'' @ strategy"

definition ensure_m2m_table :: "string \<Rightarrow> store \<Rightarrow> store" where
  "ensure_m2m_table strategy s = s\<lparr>st_m2m := ensure_table (m2m_table strategy) (st_m2m s)\<rparr>"

definition ensure_chunk_source_provenance_table :: "string \<Rightarrow> store \<Rightarrow> store" where
  "ensure_chunk_source_provenance_table strategy s =
     s\<lparr>st_prov := ensure_table (prov_table strategy) (st_prov s)\<rparr>"

definition empty_database :: store where
  "empty_database =
     \<lparr>st_table = '''', st_fts_table = '''', st_chunks = [], st_m2m = [], st_prov = [],
      st_fts = [], st_documents = [], st_bindings = [], st_checkpoints = [],
      st_unit_fps = [], st_stats = None\<rparr>"

definition open_store :: "string \<Rightarrow> string \<Rightarrow> store \<Rightarrow> store" where
  "open_store table_name fts_table_name s =
     snd (backfill_resource_bindings_from_source_documents
       (s\<lparr>st_table := table_name, st_fts_table := fts_table_name,
          st_chunks := ensure_table table_name (st_chunks s)\<rparr>))"

section \<open>Chunk content\<close>

definition insert_chunk ::
  "string \<Rightarrow> string \<Rightarrow> string list \<Rightarrow> int \<Rightarrow> string \<Rightarrow> store \<Rightarrow> py_error + store" where
  "insert_chunk strategy chunk_id headings level body s =
     try_bind (table_of (st_chunks s) (chunk_table strategy)) (\<lambda>t.
       Inr (s\<lparr>st_chunks := dict_set (chunk_table strategy)
         (insert_or_ignore cr_chunk_id
            \<lparr>cr_chunk_id = chunk_id, cr_heading_hierarchy = headings,
             cr_level = level, cr_text = body\<rparr> t) (st_chunks s)\<rparr>))"

definition get_stored_payload ::
  "store \<Rightarrow> string \<Rightarrow> string \<Rightarrow> py_error + (string \<times> string list \<times> int) option" where
  "get_stored_payload s strategy chunk_id =
     try_bind (table_of (st_chunks s) (chunk_table strategy)) (\<lambda>t.
       Inr (map_option (\<lambda>r. (cr_text r, cr_heading_hierarchy r, cr_level r))
         (fetch_key cr_chunk_id t chunk_id)))"

definition row_to_chunk :: "chunk_row \<Rightarrow> chunk" where
  "row_to_chunk r =
     \<lparr>ch_chunk_id = cr_chunk_id r, ch_file_paths = [],
      ch_heading_hierarchy = cr_heading_hierarchy r, ch_level = cr_level r,
      ch_text = cr_text r, ch_chunk_index = 0, ch_kind = doc_kind_value DOCUMENT,
      ch_provenance = None\<rparr>"

definition get_chunk :: "store \<Rightarrow> string \<Rightarrow> py_error + chunk option" where
  "get_chunk s chunk_id =
     try_bind (table_of (st_chunks s) (st_table s)) (\<lambda>t.
       Inr (map_option row_to_chunk (fetch_key cr_chunk_id t chunk_id)))"

definition get_chunks :: "store \<Rightarrow> string list \<Rightarrow> py_error + chunk list" where
  "get_chunks s chunk_ids =
     (if chunk_ids = [] then Inr []
      else try_bind (table_of (st_chunks s) (st_table s)) (\<lambda>t.
        Inr (map row_to_chunk (filter (\<lambda>r. cr_chunk_id r \<in> set chunk_ids) t))))"

definition get_all_chunks :: "store \<Rightarrow> py_error + chunk list" where
  "get_all_chunks s =
     try_bind (table_of (st_chunks s) (st_table s)) (\<lambda>t. Inr (map row_to_chunk t))"

definition delete_orphan_chunks :: "string \<Rightarrow> string list \<Rightarrow> store \<Rightarrow> py_error + store" where
  "delete_orphan_chunks strategy chunk_ids s =
     (if chunk_ids = [] then Inr s
      else try_bind (table_of (st_chunks s) (chunk_table strategy)) (\<lambda>t.
        Inr (s\<lparr>st_chunks := dict_set (chunk_table strategy)
          (delete_where (\<lambda>r. cr_chunk_id r \<in> set chunk_ids) t) (st_chunks s)\<rparr>)))"

section \<open>Holders\<close>

definition add_file_path ::
  "string \<Rightarrow> string \<Rightarrow> string \<Rightarrow> nat \<Rightarrow> store \<Rightarrow> py_error + store" where
  "add_file_path strategy chunk_id file_path chunk_index s =
     try_bind (table_of (st_m2m s) (m2m_table strategy)) (\<lambda>t.
       Inr (s\<lparr>st_m2m := dict_set (m2m_table strategy)
         (insert_or_ignore m2m_key
            \<lparr>mm_chunk_id = chunk_id, mm_file_path = file_path, mm_chunk_index = chunk_index\<rparr> t)
         (st_m2m s)\<rparr>))"

definition get_file_paths_by_chunk_id :: "store \<Rightarrow> string \<Rightarrow> string \<Rightarrow> py_error + string list" where
  "get_file_paths_by_chunk_id s strategy chunk_id =
     try_bind (table_of (st_m2m s) (m2m_table strategy)) (\<lambda>t.
       Inr (sort (remdups (map mm_file_path (filter (\<lambda>m. mm_chunk_id m = chunk_id) t)))))"

definition get_file_paths_for_chunk_ids ::
  "store \<Rightarrow> string \<Rightarrow> string list \<Rightarrow> py_error + (string, string list) dict" where
  "get_file_paths_for_chunk_ids s strategy chunk_ids =
     (if chunk_ids = [] then Inr []
      else try_bind (table_of (st_m2m s) (m2m_table strategy)) (\<lambda>t.
        Inr (fold (\<lambda>m d. dict_set (mm_chunk_id m)
               (dict_get_default d (mm_chunk_id m) [] @ [mm_file_path m]) d)
          (sort_key (\<lambda>m. (mm_chunk_id m, mm_file_path m))
             (filter (\<lambda>m. mm_chunk_id m \<in> set chunk_ids) t)) [])))"

definition get_chunk_ids_by_file :: "store \<Rightarrow> string \<Rightarrow> string \<Rightarrow> py_error + string list" where
  "get_chunk_ids_by_file s strategy file_path =
     try_bind (table_of (st_m2m s) (m2m_table strategy)) (\<lambda>t.
       Inr (remdups (map mm_chunk_id (filter (\<lambda>m. mm_file_path m = file_path) t))))"

definition get_chunk_refs_by_file ::
  "store \<Rightarrow> string \<Rightarrow> string \<Rightarrow> py_error + (string \<times> nat) list" where
  "get_chunk_refs_by_file s strategy file_path =
     try_bind (table_of (st_m2m s) (m2m_table strategy)) (\<lambda>t.
       Inr (map (\<lambda>m. (mm_chunk_id m, mm_chunk_index m))
         (sort_key mm_chunk_index (filter (\<lambda>m. mm_file_path m = file_path) t))))"

definition get_chunk_count_for_file :: "store \<Rightarrow> string \<Rightarrow> string \<Rightarrow> py_error + nat" where
  "get_chunk_count_for_file s strategy file_path =
     try_bind (table_of (st_m2m s) (m2m_table strategy)) (\<lambda>t.
       Inr (length (filter (\<lambda>m. mm_file_path m = file_path) t)))"

definition get_chunks_for_file_range ::
  "store \<Rightarrow> string \<Rightarrow> string \<Rightarrow> nat \<Rightarrow> nat \<Rightarrow> py_error + (nat \<times> string list \<times> string) list" where
  "get_chunks_for_file_range s strategy file_path start stop =
     try_bind (table_of (st_m2m s) (m2m_table strategy)) (\<lambda>ms.
     try_bind (table_of (st_chunks s) (chunk_table strategy)) (\<lambda>cs.
       Inr (sort_key fst (concat (map (\<lambda>m.
              map (\<lambda>c. (mm_chunk_index m, cr_heading_hierarchy c, cr_text c))
                (filter (\<lambda>c. cr_chunk_id c = mm_chunk_id m) cs))
            (filter (\<lambda>m. mm_file_path m = file_path \<and> start \<le> mm_chunk_index m
                \<and> mm_chunk_index m < stop) ms))))))"

definition delete_m2m_for_file ::
  "string \<Rightarrow> string \<Rightarrow> store \<Rightarrow> py_error + string list \<times> store" where
  "delete_m2m_for_file strategy file_path s =
     try_bind (table_of (st_m2m s) (m2m_table strategy)) (\<lambda>t.
       let affected = remdups (map mm_chunk_id (filter (\<lambda>m. mm_file_path m = file_path) t))
       in if affected = [] then Inr ([], s)
          else
            let t' = delete_where (\<lambda>m. mm_file_path m = file_path) t;
                still_held = map mm_chunk_id (filter (\<lambda>m. mm_chunk_id m \<in> set affected) t')
            in Inr (filter (\<lambda>cid. cid \<notin> set still_held) affected,
                    s\<lparr>st_m2m := dict_set (m2m_table strategy) t' (st_m2m s)\<rparr>))"

section \<open>Whole-store chunk operations\<close>

definition store_strategy :: "store \<Rightarrow> string" where
  "store_strategy s = removeprefix ''chunks_'' (st_table s)"

fun add_file_paths :: "string \<Rightarrow> chunk \<Rightarrow> string list \<Rightarrow> store \<Rightarrow> py_error + store" where
  "add_file_paths strategy c [] s = Inr s"
| "add_file_paths strategy c (fp # fps) s =
     try_bind (add_file_path strategy (ch_chunk_id c) fp (ch_chunk_index c) s)
       (add_file_paths strategy c fps)"

fun save_chunks_from :: "string \<Rightarrow> chunk list \<Rightarrow> store \<Rightarrow> py_error + store" where
  "save_chunks_from strategy [] s = Inr s"
| "save_chunks_from strategy (c # cs) s =
     try_bind (insert_chunk strategy (ch_chunk_id c) (ch_heading_hierarchy c) (ch_level c)
                 (ch_text c) s) (\<lambda>s.
     try_bind (add_file_paths strategy c (ch_file_paths c) (ensure_m2m_table strategy s))
       (save_chunks_from strategy cs))"

definition save_chunks :: "chunk list \<Rightarrow> store \<Rightarrow> py_error + store" where
  "save_chunks cs s = save_chunks_from (store_strategy s) cs s"

text \<open>One transaction: an error restores the store it started from.\<close>

definition delete_chunks_by_file :: "string \<Rightarrow> store \<Rightarrow> (py_error + nat) \<times> store" where
  "delete_chunks_by_file file_path s =
     (case try_bind (delete_m2m_for_file (store_strategy s) file_path s) (\<lambda>(orphans, s').
             try_bind (delete_orphan_chunks (store_strategy s) orphans s') (\<lambda>s''.
               Inr (length orphans, s''))) of
        Inl e \<Rightarrow> (Inl e, s)
      | Inr (n, s') \<Rightarrow> (Inr n, s'))"

definition delete_all :: "store \<Rightarrow> py_error + store" where
  "delete_all s =
     try_bind (table_of (st_chunks s) (st_table s)) (\<lambda>_.
       Inr (s\<lparr>st_chunks := dict_set (st_table s) [] (st_chunks s), st_stats := None,
              st_documents := [], st_bindings := [], st_checkpoints := [], st_unit_fps := [],
              st_m2m := map (\<lambda>(n, _). (n, [])) (st_m2m s),
              st_prov := map (\<lambda>(n, _). (n, [])) (st_prov s),
              st_fts := (case dict_get (st_fts s) (st_fts_table s) of
                 None \<Rightarrow> st_fts s | Some _ \<Rightarrow> dict_set (st_fts_table s) [] (st_fts s))\<rparr>))"

end
