(* ===== verification/Metadata_Provenance.thy ===== *)
theory Metadata_Provenance
  imports Metadata_Chunks
begin

text \<open>
  The provenance table of \<open>storage/metadata.py\<close>: which source document each chunk
  comes from, the batch reads search relies on (canonical and active provenance),
  the counts over the joins with bindings and documents, the filesystem backfill
  and the deletions.  A SQL join is a nested loop over the two tables; a
  \<open>LEFT JOIN ... WHERE right IS NULL\<close> keeps the rows without a partner.
\<close>

section \<open>Writing provenance\<close>

definition add_chunk_provenance ::
  "string \<Rightarrow> chunk_provenance \<Rightarrow> string \<Rightarrow> store \<Rightarrow> py_error + store" where
  "add_chunk_provenance strategy p chunk_id s =
     (if cp_namespace p = ''filesystem'' \<and> cp_source_unit_refs p \<noteq> []
      then Inl (ValueError ''filesystem source_unit_refs must be empty in Phase 25'')
      else if cp_chunk_strategy p \<noteq> strategy
      then Inl (ValueError ''chunk provenance strategy must match storage strategy'')
      else try_bind (table_of (st_prov s) (prov_table strategy)) (\<lambda>t.
        Inr (s\<lparr>st_prov := dict_set (prov_table strategy)
          (insert_or_replace prov_key
             \<lparr>pr_chunk_id = chunk_id, pr_namespace = cp_namespace p,
              pr_document_ref = cp_document_ref p,
              pr_source_unit_refs = cp_source_unit_refs p,
              pr_chunk_strategy = cp_chunk_strategy p,
              pr_parser_name = cp_parser_name p\<rparr> t) (st_prov s)\<rparr>)))"

section \<open>Reading provenance\<close>

definition provenance_of_row :: "prov_row \<Rightarrow> chunk_provenance" where
  "provenance_of_row r =
     \<lparr>cp_namespace = pr_namespace r, cp_document_ref = pr_document_ref r,
      cp_ref = make_ref (pr_namespace r) (pr_document_ref r),
      cp_source_unit_refs = pr_source_unit_refs r,
      cp_chunk_strategy = pr_chunk_strategy r, cp_parser_name = pr_parser_name r\<rparr>"

definition first_row_per_chunk :: "prov_row list \<Rightarrow> (string, chunk_provenance) dict" where
  "first_row_per_chunk rows =
     fold (\<lambda>r d. if pr_chunk_id r \<in> set (dict_keys d) then d
                 else dict_set (pr_chunk_id r) (provenance_of_row r) d) rows []"

definition prov_rows :: "string \<Rightarrow> store \<Rightarrow> prov_row list" where
  "prov_rows strategy s =
     (case dict_get (st_prov s) (prov_table strategy) of None \<Rightarrow> [] | Some t \<Rightarrow> t)"

definition get_chunk_provenance_for_chunk_ids ::
  "string \<Rightarrow> string list \<Rightarrow> store \<Rightarrow> (string, chunk_provenance) dict \<times> store" where
  "get_chunk_provenance_for_chunk_ids strategy chunk_ids s =
     (if chunk_ids = [] then ([], s)
      else let s' = ensure_chunk_source_provenance_table strategy s
        in (first_row_per_chunk (sort_key prov_key
              (filter (\<lambda>r. pr_chunk_id r \<in> set chunk_ids) (prov_rows strategy s'))), s'))"

definition join_bindings :: "(resource_binding \<Rightarrow> bool) \<Rightarrow> prov_row list \<Rightarrow>
    resource_binding list \<Rightarrow> prov_row list" where
  "join_bindings P ps bs =
     concat (map (\<lambda>p. map (\<lambda>_. p) (filter (\<lambda>b. rb_namespace b = pr_namespace p
         \<and> rb_document_ref b = pr_document_ref p \<and> P b) bs)) ps)"

definition get_active_chunk_provenance_for_chunk_ids ::
  "string \<Rightarrow> string list \<Rightarrow> store \<Rightarrow> (string, chunk_provenance) dict \<times> store" where
  "get_active_chunk_provenance_for_chunk_ids strategy chunk_ids s =
     (if chunk_ids = [] then ([], s)
      else let s' = ensure_chunk_source_provenance_table strategy s
        in (first_row_per_chunk (sort_key prov_key
              (filter (\<lambda>r. pr_chunk_id r \<in> set chunk_ids)
                (join_bindings rb_active (prov_rows strategy s') (st_bindings s')))), s'))"

definition get_chunks_by_source_unit_ref ::
  "string \<Rightarrow> string \<Rightarrow> string \<Rightarrow> string \<Rightarrow> store \<Rightarrow> py_error + chunk list \<times> store" where
  "get_chunks_by_source_unit_ref ns doc unit strategy s =
     (let s' = ensure_chunk_source_provenance_table strategy s in
      try_bind (table_of (st_chunks s') (chunk_table strategy)) (\<lambda>cs.
       Inr (map (\<lambda>(i, c, p).
            \<lparr>ch_chunk_id = cr_chunk_id c, ch_file_paths = [],
             ch_heading_hierarchy = cr_heading_hierarchy c, ch_level = cr_level c,
             ch_text = cr_text c, ch_chunk_index = i, ch_kind = doc_kind_value DOCUMENT,
             ch_provenance = Some \<lparr>cp_namespace = ns, cp_document_ref = doc,
               cp_ref = make_ref ns doc, cp_source_unit_refs = pr_source_unit_refs p,
               cp_chunk_strategy = strategy, cp_parser_name = pr_parser_name p\<rparr>\<rparr>)
         (List.enumerate 0 (filter (\<lambda>(c, p). unit \<in> set (pr_source_unit_refs p))
           (sort_key (\<lambda>(c, p). cr_chunk_id c)
             (concat (map (\<lambda>p. map (\<lambda>c. (c, p))
                 (filter (\<lambda>c. cr_chunk_id c = pr_chunk_id p) cs))
               (filter (\<lambda>p. pr_namespace p = ns \<and> pr_document_ref p = doc)
                 (prov_rows strategy s'))))))), s')))"

section \<open>Counts\<close>

definition get_inactive_chunk_count_for_document ::
  "string \<Rightarrow> string \<Rightarrow> string \<Rightarrow> store \<Rightarrow> nat \<times> store" where
  "get_inactive_chunk_count_for_document strategy ns doc s =
     (let s' = ensure_chunk_source_provenance_table strategy s in
      (length (remdups (map pr_chunk_id
         (filter (\<lambda>p. pr_namespace p = ns \<and> pr_document_ref p = doc)
           (join_bindings (\<lambda>b. \<not> rb_active b) (prov_rows strategy s') (st_bindings s'))))), s'))"

definition count_retained_inactive_chunks :: "string \<Rightarrow> store \<Rightarrow> nat \<times> store" where
  "count_retained_inactive_chunks strategy s =
     (let s' = ensure_chunk_source_provenance_table strategy s in
      (length (remdups (map pr_chunk_id
         (join_bindings (\<lambda>b. \<not> rb_active b) (prov_rows strategy s') (st_bindings s')))), s'))"

definition count_missing_source_provenance :: "string \<Rightarrow> store \<Rightarrow> py_error + nat \<times> store" where
  "count_missing_source_provenance strategy s =
     (let s' = ensure_chunk_source_provenance_table strategy s in
      try_bind (table_of (st_chunks s') (chunk_table strategy)) (\<lambda>cs.
       Inr (length (filter (\<lambda>c. cr_chunk_id c \<notin> set (map pr_chunk_id (prov_rows strategy s'))) cs),
            s')))"

definition missing_document_rows :: "string \<Rightarrow> string \<Rightarrow> store \<Rightarrow> prov_row list" where
  "missing_document_rows strategy ns s =
     filter (\<lambda>p. pr_namespace p = ns
         \<and> (pr_namespace p, pr_document_ref p) \<notin> set (map doc_key (st_documents s)))
       (prov_rows strategy s)"

definition count_missing_source_documents_from_provenance ::
  "string \<Rightarrow> string \<Rightarrow> store \<Rightarrow> nat \<times> store" where
  "count_missing_source_documents_from_provenance strategy ns s =
     (let s' = ensure_chunk_source_provenance_table strategy s in
      (length (remdups (map (\<lambda>p. (pr_namespace p, pr_document_ref p))
         (missing_document_rows strategy ns s'))), s'))"

definition get_missing_source_document_refs_from_provenance ::
  "string \<Rightarrow> string \<Rightarrow> store \<Rightarrow> string list \<times> store" where
  "get_missing_source_document_refs_from_provenance strategy ns s =
     (let s' = ensure_chunk_source_provenance_table strategy s in
      (sort (remdups (map pr_document_ref (missing_document_rows strategy ns s'))), s'))"

section \<open>Backfill from holder paths\<close>

text \<open>
  One row per chunk that has a holder and no provenance: the least holder path and
  the parser of the filesystem document at that path (SQLite takes a bare column
  from the row of the \<open>MIN\<close>).
\<close>

definition missing_provenance_rows ::
  "string \<Rightarrow> store \<Rightarrow> chunk_row list \<Rightarrow> m2m_row list \<Rightarrow> (string \<times> string \<times> string option) list" where
  "missing_provenance_rows strategy s cs ms =
     map (\<lambda>c. let path = Min (set (map mm_file_path (filter (\<lambda>m. mm_chunk_id m = cr_chunk_id c) ms)))
              in (cr_chunk_id c, path,
                  map_option sd_parser_name
                    (fetch_key doc_key (st_documents s) (''filesystem'', path))))
       (filter (\<lambda>c. cr_chunk_id c \<in> set (map mm_chunk_id ms)
            \<and> cr_chunk_id c \<notin> set (map pr_chunk_id (prov_rows strategy s))) cs)"

definition backfill_missing_source_provenance_from_file_paths ::
  "string \<Rightarrow> bool \<Rightarrow> store \<Rightarrow> py_error + nat \<times> store" where
  "backfill_missing_source_provenance_from_file_paths strategy dry_run s =
     (let s' = ensure_chunk_source_provenance_table strategy s in
      try_bind (table_of (st_chunks s') (chunk_table strategy)) (\<lambda>cs.
      try_bind (table_of (st_m2m s') (m2m_table strategy)) (\<lambda>ms.
        let rows = missing_provenance_rows strategy s' cs ms in
        if dry_run \<or> rows = [] then Inr (length rows, s')
        else
          let t = prov_rows strategy s';
              t' = fold (insert_or_ignore prov_key)
                     (map (\<lambda>(cid, path, parser).
                        \<lparr>pr_chunk_id = cid, pr_namespace = ''filesystem'', pr_document_ref = path,
                         pr_source_unit_refs = [], pr_chunk_strategy = strategy,
                         pr_parser_name = parser\<rparr>) rows) t
          in Inr (length t' - length t,
                  s'\<lparr>st_prov := dict_set (prov_table strategy) t' (st_prov s')\<rparr>))))"

section \<open>Deleting\<close>

definition delete_chunk_provenance :: "string \<Rightarrow> string list \<Rightarrow> store \<Rightarrow> store" where
  "delete_chunk_provenance strategy chunk_ids s =
     (if chunk_ids = [] then s
      else case dict_get (st_prov s) (prov_table strategy) of
        None \<Rightarrow> s
      | Some t \<Rightarrow> s\<lparr>st_prov := dict_set (prov_table strategy)
          (delete_where (\<lambda>p. pr_chunk_id p \<in> set chunk_ids) t) (st_prov s)\<rparr>)"

definition delete_chunk_provenance_for_document ::
  "string \<Rightarrow> string \<Rightarrow> string \<Rightarrow> store \<Rightarrow> store" where
  "delete_chunk_provenance_for_document strategy ns doc s =
     (case dict_get (st_prov s) (prov_table strategy) of
        None \<Rightarrow> s
      | Some t \<Rightarrow> s\<lparr>st_prov := dict_set (prov_table strategy)
          (delete_where (\<lambda>p. pr_namespace p = ns \<and> pr_document_ref p = doc) t) (st_prov s)\<rparr>)"

definition delete_fts_rows :: "string option \<Rightarrow> string list \<Rightarrow> store \<Rightarrow> store" where
  "delete_fts_rows fts_table_name chunk_ids s =
     (case fts_table_name of
        None \<Rightarrow> s
      | Some n \<Rightarrow> if n = '''' then s else
          (case dict_get (st_fts s) n of
             None \<Rightarrow> s
           | Some t \<Rightarrow> s\<lparr>st_fts := dict_set n (filter (\<lambda>c. c \<notin> set chunk_ids) t) (st_fts s)\<rparr>))"

definition unit_chunk_ids :: "string \<Rightarrow> string \<Rightarrow> string \<Rightarrow> prov_row list \<Rightarrow> string list" where
  "unit_chunk_ids ns doc unit ps =
     map pr_chunk_id (filter (\<lambda>p. pr_namespace p = ns \<and> pr_document_ref p = doc
        \<and> unit \<in> set (pr_source_unit_refs p)) ps)"

definition delete_chunks_for_source_unit ::
  "string \<Rightarrow> string \<Rightarrow> string \<Rightarrow> string \<Rightarrow> string option \<Rightarrow> store \<Rightarrow> py_error + string list \<times> store" where
  "delete_chunks_for_source_unit ns doc unit strategy fts_table_name s =
     try_bind (table_of (st_prov s) (prov_table strategy)) (\<lambda>ps.
       let chunk_ids = unit_chunk_ids ns doc unit ps
       in if chunk_ids = [] then Inr ([], s)
          else
            try_bind (table_of (st_m2m s) (m2m_table strategy)) (\<lambda>ms.
            try_bind (table_of (st_chunks s) (chunk_table strategy)) (\<lambda>cs.
              let s1 = s\<lparr>st_prov := dict_set (prov_table strategy)
                    (delete_where (\<lambda>p. pr_chunk_id p \<in> set chunk_ids) ps) (st_prov s),
                  st_m2m := dict_set (m2m_table strategy)
                    (delete_where (\<lambda>m. mm_chunk_id m \<in> set chunk_ids) ms) (st_m2m s)\<rparr>
              in Inr (chunk_ids, (delete_fts_rows fts_table_name chunk_ids s1)
                   \<lparr>st_chunks := dict_set (chunk_table strategy)
                     (delete_where (\<lambda>c. cr_chunk_id c \<in> set chunk_ids) cs) (st_chunks s)\<rparr>))))"

end
