(* ===== verification/Metadata_Laws.thy ===== *)
theory Metadata_Laws
  imports Metadata_Provenance
begin

text \<open>
  What \<open>SQLiteMetadataStore\<close> guarantees.  \<open>store_step\<close> has one rule per operation
  that writes; every state reached from an empty database keeps the primary keys
  unique.  The holder-aware delete removes exactly the chunks no other file holds
  and leaves every other file's view unchanged; content rows are immutable; the
  backfills are idempotent and their dry run is exact; recording an error never
  moves a checkpoint; the active provenance is that of an active binding.
\<close>

section \<open>Tables in dicts\<close>

lemma ball_dict_set:
  "\<forall>(n, t) \<in> set d. P t \<Longrightarrow> P v \<Longrightarrow> \<forall>(n, t) \<in> set (dict_set k v d). P t"
  by (induction d) auto

lemma table_of_Inr: "table_of db n = Inr t \<longleftrightarrow> dict_get db n = Some t"
  by (auto simp: table_of_def split: option.splits)

lemma table_of_member: "table_of db n = Inr t \<Longrightarrow> (n, t) \<in> set db"
  by (auto simp: table_of_Inr dest: map_of_SomeD)

lemma table_of_set [simp]:
  "table_of (dict_set k v d) n = (if n = k then Inr v else table_of d n)"
  by (simp add: table_of_def)

lemma dict_ok_ensure_table [intro]: "dict_ok d \<Longrightarrow> dict_ok (ensure_table n d)"
  by (auto simp: ensure_table_def dict_simps split: option.splits)

lemma ball_ensure_table:
  "\<forall>(n, t) \<in> set d. P t \<Longrightarrow> P [] \<Longrightarrow> \<forall>(n, t) \<in> set (ensure_table k d). P t"
  using ball_dict_set [of d P "[]" k] by (simp add: ensure_table_def split: option.split)

lemma table_ball: "\<forall>(n, t) \<in> set db. P t \<Longrightarrow> table_of db n = Inr t \<Longrightarrow> P t"
  by (auto dest: table_of_member)

lemma store_ok_tables:
  assumes "store_ok s"
  shows "table_of (st_chunks s) n = Inr cs \<Longrightarrow> pk_ok cr_chunk_id cs"
    and "table_of (st_m2m s) n = Inr ms \<Longrightarrow> pk_ok m2m_key ms"
    and "table_of (st_prov s) n = Inr ps \<Longrightarrow> pk_ok prov_key ps"
    and "dict_get (st_prov s) n = Some ps \<Longrightarrow> pk_ok prov_key ps"
  using assms by (auto simp: store_ok_def table_of_Inr dest!: map_of_SomeD)

lemma store_ok_set_chunks:
  assumes "store_ok s" and "pk_ok cr_chunk_id t"
  shows "store_ok (s\<lparr>st_chunks := dict_set n t (st_chunks s)\<rparr>)"
  using assms ball_dict_set [of "st_chunks s" "pk_ok cr_chunk_id" t n]
  by (simp add: store_ok_def dict_ok_set)

lemma store_ok_set_m2m:
  assumes "store_ok s" and "pk_ok m2m_key t"
  shows "store_ok (s\<lparr>st_m2m := dict_set n t (st_m2m s)\<rparr>)"
  using assms ball_dict_set [of "st_m2m s" "pk_ok m2m_key" t n]
  by (simp add: store_ok_def dict_ok_set)

lemma store_ok_set_prov:
  assumes "store_ok s" and "pk_ok prov_key t"
  shows "store_ok (s\<lparr>st_prov := dict_set n t (st_prov s)\<rparr>)"
  using assms ball_dict_set [of "st_prov s" "pk_ok prov_key" t n]
  by (simp add: store_ok_def dict_ok_set)

lemma store_ok_ensure [intro]:
  assumes "store_ok s"
  shows "store_ok (ensure_m2m_table strategy s)"
    and "store_ok (ensure_chunk_source_provenance_table strategy s)"
  using assms ball_ensure_table [of "st_m2m s" "pk_ok m2m_key" "m2m_table strategy"]
    ball_ensure_table [of "st_prov s" "pk_ok prov_key" "prov_table strategy"]
  by (simp_all add: store_ok_def ensure_m2m_table_def
      ensure_chunk_source_provenance_table_def dict_ok_ensure_table)

lemma store_ok_open_store [intro]: "store_ok s \<Longrightarrow> store_ok (open_store n f s)"
proof -
  assume s: "store_ok s"
  have "store_ok (s\<lparr>st_table := n, st_fts_table := f, st_chunks := ensure_table n (st_chunks s)\<rparr>)"
    using s ball_ensure_table [of "st_chunks s" "pk_ok cr_chunk_id" n]
    by (simp add: store_ok_def dict_ok_ensure_table)
  then show ?thesis by (simp add: open_store_def store_ok_backfill_bindings)
qed

lemma store_ok_empty [simp]: "store_ok empty_database"
  by (simp add: store_ok_def empty_database_def)

section \<open>Every write keeps the invariant\<close>

lemma store_ok_insert_chunk [intro]:
  "store_ok s \<Longrightarrow> insert_chunk st c h l x s = Inr s' \<Longrightarrow> store_ok s'"
  by (auto simp: insert_chunk_def try_bind_Inr_iff
      intro!: store_ok_set_chunks dest: store_ok_tables)

lemma store_ok_add_file_path [intro]:
  "store_ok s \<Longrightarrow> add_file_path st c f i s = Inr s' \<Longrightarrow> store_ok s'"
  by (auto simp: add_file_path_def try_bind_Inr_iff
      intro!: store_ok_set_m2m dest: store_ok_tables)

lemma store_ok_delete_orphan_chunks [intro]:
  "store_ok s \<Longrightarrow> delete_orphan_chunks st ids s = Inr s' \<Longrightarrow> store_ok s'"
  by (auto simp: delete_orphan_chunks_def try_bind_Inr_iff
      intro!: store_ok_set_chunks dest: store_ok_tables split: if_splits)

lemma store_ok_delete_m2m_for_file [intro]:
  "store_ok s \<Longrightarrow> delete_m2m_for_file st f s = Inr (ids, s') \<Longrightarrow> store_ok s'"
  by (auto simp: delete_m2m_for_file_def try_bind_Inr_iff Let_def
      intro!: store_ok_set_m2m dest: store_ok_tables split: if_splits)

lemma store_ok_add_file_paths:
  "store_ok s \<Longrightarrow> add_file_paths st c fps s = Inr s' \<Longrightarrow> store_ok s'"
proof (induction fps arbitrary: s)
  case Nil
  then show ?case by simp
next
  case (Cons fp fps)
  then show ?case using store_ok_add_file_path by (fastforce simp: try_bind_Inr_iff)
qed

lemma store_ok_save_chunks_from:
  "store_ok s \<Longrightarrow> save_chunks_from st cs s = Inr s' \<Longrightarrow> store_ok s'"
proof (induction cs arbitrary: s)
  case Nil
  then show ?case by simp
next
  case (Cons c cs)
  from Cons.prems(2) obtain s1 s2 where
      "insert_chunk st (ch_chunk_id c) (ch_heading_hierarchy c) (ch_level c) (ch_text c) s = Inr s1"
    and "add_file_paths st c (ch_file_paths c) (ensure_m2m_table st s1) = Inr s2"
    and s2: "save_chunks_from st cs s2 = Inr s'"
    by (auto simp: try_bind_Inr_iff)
  with Cons.prems(1) have "store_ok s2"
    by (meson store_ok_add_file_paths store_ok_ensure(1) store_ok_insert_chunk)
  then show ?case using s2 by (rule Cons.IH)
qed

lemma store_ok_save_chunks [intro]: "store_ok s \<Longrightarrow> save_chunks cs s = Inr s' \<Longrightarrow> store_ok s'"
  by (auto simp: save_chunks_def intro: store_ok_save_chunks_from)

lemma store_ok_delete_chunks_by_file [intro]:
  "store_ok s \<Longrightarrow> store_ok (snd (delete_chunks_by_file f s))"
  by (auto simp: delete_chunks_by_file_def try_bind_Inr_iff split: sum.splits)

lemma store_ok_delete_all [intro]:
  assumes s: "store_ok s" and d: "delete_all s = Inr s'"
  shows "store_ok s'"
proof -
  have "\<forall>(n, t) \<in> set (dict_set (st_table s) [] (st_chunks s)). pk_ok cr_chunk_id t"
    using s by (intro ball_dict_set) (auto simp: store_ok_def)
  with s d show ?thesis
    by (auto simp: delete_all_def try_bind_Inr_iff store_ok_def dict_ok_set o_def case_prod_unfold
        split: option.splits)
qed

lemma store_ok_add_chunk_provenance [intro]:
  "store_ok s \<Longrightarrow> add_chunk_provenance st p c s = Inr s' \<Longrightarrow> store_ok s'"
  by (auto simp: add_chunk_provenance_def try_bind_Inr_iff
      intro!: store_ok_set_prov dest: store_ok_tables split: if_splits)

lemma store_ok_delete_chunk_provenance [intro]:
  "store_ok s \<Longrightarrow> store_ok (delete_chunk_provenance st ids s)"
  by (auto simp: delete_chunk_provenance_def split: option.splits
      intro!: store_ok_set_prov dest: store_ok_tables)

lemma store_ok_delete_chunk_provenance_for_document [intro]:
  "store_ok s \<Longrightarrow> store_ok (delete_chunk_provenance_for_document st ns doc s)"
  by (auto simp: delete_chunk_provenance_for_document_def split: option.splits
      intro!: store_ok_set_prov dest: store_ok_tables)

lemma store_ok_delete_fts_rows: "store_ok s \<Longrightarrow> store_ok (delete_fts_rows n ids s)"
  by (auto simp: delete_fts_rows_def store_ok_def dict_ok_set split: option.splits)

lemma prov_rows_ok: "store_ok s \<Longrightarrow> pk_ok prov_key (prov_rows st s)"
  by (auto simp: prov_rows_def dest: store_ok_tables split: option.splits)

lemma store_ok_backfill_provenance [intro]:
  assumes "store_ok s"
    and "backfill_missing_source_provenance_from_file_paths st dry s = Inr (n, s')"
  shows "store_ok s'"
  using assms
  by (auto simp: backfill_missing_source_provenance_from_file_paths_def try_bind_Inr_iff Let_def
      store_ok_ensure prov_rows_ok split: if_splits
      intro!: store_ok_set_prov pk_ok_fold_ignore)

lemma delete_fts_rows_chunks [simp]: "st_chunks (delete_fts_rows n ids s) = st_chunks s"
  by (auto simp: delete_fts_rows_def split: option.splits)

lemma store_ok_delete_chunk_rows:
  assumes s: "store_ok s" and ps: "table_of (st_prov s) (prov_table st) = Inr ps"
    and ms: "table_of (st_m2m s) (m2m_table st) = Inr ms" and cs: "table_of (st_chunks s) (chunk_table st) = Inr cs"
  shows "store_ok ((delete_fts_rows fts ids
      (s\<lparr>st_prov := dict_set (prov_table st) (delete_where (\<lambda>p. pr_chunk_id p \<in> set ids) ps) (st_prov s),
         st_m2m := dict_set (m2m_table st) (delete_where (\<lambda>m. mm_chunk_id m \<in> set ids) ms) (st_m2m s)\<rparr>))
    \<lparr>st_chunks := dict_set (chunk_table st) (delete_where (\<lambda>c. cr_chunk_id c \<in> set ids) cs) (st_chunks s)\<rparr>)"
proof -
  let ?p = "s\<lparr>st_prov := dict_set (prov_table st) (delete_where (\<lambda>p. pr_chunk_id p \<in> set ids) ps) (st_prov s)\<rparr>"
  let ?m = "s\<lparr>st_prov := dict_set (prov_table st) (delete_where (\<lambda>p. pr_chunk_id p \<in> set ids) ps) (st_prov s),
         st_m2m := dict_set (m2m_table st) (delete_where (\<lambda>m. mm_chunk_id m \<in> set ids) ms) (st_m2m s)\<rparr>"
  have "store_ok ?p"
    using s ps by (intro store_ok_set_prov pk_ok_delete_where) (auto dest: store_ok_tables)
  then have "store_ok ?m"
    using s ms store_ok_set_m2m [of ?p] by (simp add: pk_ok_delete_where store_ok_tables(2))
  then have "store_ok (delete_fts_rows fts ids ?m)" by (rule store_ok_delete_fts_rows)
  then have "store_ok ((delete_fts_rows fts ids ?m)\<lparr>st_chunks := dict_set (chunk_table st)
        (delete_where (\<lambda>c. cr_chunk_id c \<in> set ids) cs) (st_chunks (delete_fts_rows fts ids ?m))\<rparr>)"
    using s cs by (intro store_ok_set_chunks) (auto dest: store_ok_tables)
  then show ?thesis by simp
qed

lemma store_ok_delete_chunks_for_source_unit [intro]:
  assumes s: "store_ok s"
    and d: "delete_chunks_for_source_unit ns doc u st fts s = Inr (ids, s')"
  shows "store_ok s'"
proof -
  obtain ps where ps: "table_of (st_prov s) (prov_table st) = Inr ps"
    using d by (auto simp: delete_chunks_for_source_unit_def try_bind_Inr_iff)
  show ?thesis
  proof (cases "unit_chunk_ids ns doc u ps = []")
    case True
    with d ps s show ?thesis by (simp add: delete_chunks_for_source_unit_def)
  next
    case False
    with d ps show ?thesis
      by (auto simp: delete_chunks_for_source_unit_def try_bind_Inr_iff Let_def
          intro: store_ok_delete_chunk_rows [OF s ps])
  qed
qed

section \<open>Reachable databases\<close>

inductive store_step :: "store \<Rightarrow> store \<Rightarrow> bool" where
  open_db: "store_step s (open_store n f s)"
| make_m2m: "store_step s (ensure_m2m_table st s)"
| make_prov: "store_step s (ensure_chunk_source_provenance_table st s)"
| upsert_document: "store_step s (upsert_source_document d s)"
| delete_document: "store_step s (delete_source_document ns doc s)"
| upsert_binding: "store_step s (upsert_resource_binding b s)"
| set_active: "store_step s (set_resource_binding_active now ns ref a u s)"
| backfill_bindings: "store_step s (snd (backfill_resource_bindings_from_source_documents s))"
| commit_checkpoint: "store_step s (commit_source_checkpoint now ns c m s)"
| checkpoint_error: "store_step s (record_source_checkpoint_error ns err s)"
| upsert_unit: "store_step s (snd (upsert_source_unit_fingerprint now u i s))"
| write_stats: "store_step s (save_stats stats s)"
| chunk_insert: "insert_chunk st c h l x s = Inr s' \<Longrightarrow> store_step s s'"
| holder_insert: "add_file_path st c f n s = Inr s' \<Longrightarrow> store_step s s'"
| chunks_save: "save_chunks cs s = Inr s' \<Longrightarrow> store_step s s'"
| orphans_delete: "delete_orphan_chunks st ids s = Inr s' \<Longrightarrow> store_step s s'"
| holders_delete: "delete_m2m_for_file st f s = Inr (ids, s') \<Longrightarrow> store_step s s'"
| file_delete: "store_step s (snd (delete_chunks_by_file f s))"
| all_delete: "delete_all s = Inr s' \<Longrightarrow> store_step s s'"
| prov_insert: "add_chunk_provenance st p c s = Inr s' \<Longrightarrow> store_step s s'"
| prov_backfill: "backfill_missing_source_provenance_from_file_paths st dry s = Inr (n, s') \<Longrightarrow>
     store_step s s'"
| prov_delete: "store_step s (delete_chunk_provenance st ids s)"
| prov_delete_document: "store_step s (delete_chunk_provenance_for_document st ns doc s)"
| unit_delete: "delete_chunks_for_source_unit ns doc u st fts s = Inr (ids, s') \<Longrightarrow>
     store_step s s'"

inductive store_reachable :: "store \<Rightarrow> bool" where
  empty: "store_reachable empty_database"
| step: "store_reachable s \<Longrightarrow> store_step s s' \<Longrightarrow> store_reachable s'"

lemma store_step_ok: "store_step s s' \<Longrightarrow> store_ok s \<Longrightarrow> store_ok s'"
  by (induction rule: store_step.induct) (blast intro: store_ok_open_store)+

text \<open>Whatever sequence of store operations runs from an empty database, no table
  ever holds two rows with one primary key.\<close>

theorem store_reachable_ok: "store_reachable s \<Longrightarrow> store_ok s"
proof (induction rule: store_reachable.induct)
  case empty
  show ?case by simp
next
  case (step s s')
  then show ?case by (blast intro: store_step_ok)
qed

theorem store_reachable_ok_witness:
  "store_ok (record_source_checkpoint_error ''telegram'' ''boom''
     (open_store ''chunks_a'' ''fts'' empty_database))"
  by (rule store_reachable_ok [OF store_reachable.step [OF store_reachable.step
        [OF store_reachable.empty store_step.open_db] store_step.checkpoint_error]])

section \<open>Deleting a file\<close>

definition holders_closed :: "chunk_row list \<Rightarrow> m2m_row list \<Rightarrow> bool" where
  "holders_closed cs ms \<longleftrightarrow> mm_chunk_id ` set ms \<subseteq> cr_chunk_id ` set cs"

definition all_held :: "chunk_row list \<Rightarrow> m2m_row list \<Rightarrow> bool" where
  "all_held cs ms \<longleftrightarrow> cr_chunk_id ` set cs \<subseteq> mm_chunk_id ` set ms"

definition held_only_by :: "string \<Rightarrow> m2m_row list \<Rightarrow> string set" where
  "held_only_by f ms = {c. (\<exists>m \<in> set ms. mm_chunk_id m = c \<and> mm_file_path m = f)
     \<and> (\<forall>m \<in> set ms. mm_chunk_id m = c \<longrightarrow> mm_file_path m = f)}"

lemma orphans_are_held_only_by:
  "{c \<in> mm_chunk_id ` {m \<in> set ms. mm_file_path m = f}.
      c \<notin> mm_chunk_id ` {m \<in> set ms. mm_file_path m \<noteq> f
          \<and> mm_chunk_id m \<in> mm_chunk_id ` {m \<in> set ms. mm_file_path m = f}}}
   = held_only_by f ms" (is "?L = ?R")
proof (rule set_eqI)
  fix c
  have "c \<in> ?L \<longleftrightarrow> (\<exists>m \<in> set ms. mm_chunk_id m = c \<and> mm_file_path m = f)
      \<and> \<not> (\<exists>m \<in> set ms. mm_chunk_id m = c \<and> mm_file_path m \<noteq> f
           \<and> (\<exists>m' \<in> set ms. mm_chunk_id m' = c \<and> mm_file_path m' = f))"
    by (auto simp: image_iff)
  also have "\<dots> \<longleftrightarrow> c \<in> ?R" by (auto simp: held_only_by_def)
  finally show "c \<in> ?L \<longleftrightarrow> c \<in> ?R" .
qed

lemma delete_m2m_for_file_result:
  assumes "table_of (st_m2m s) (m2m_table st) = Inr ms"
  shows "\<exists>ids. delete_m2m_for_file st f s = Inr (ids,
           if \<exists>m \<in> set ms. mm_file_path m = f
           then s\<lparr>st_m2m := dict_set (m2m_table st)
                  (delete_where (\<lambda>m. mm_file_path m = f) ms) (st_m2m s)\<rparr>
           else s)
         \<and> set ids = held_only_by f ms \<and> distinct ids"
proof -
  define affected where
    "affected = remdups (map mm_chunk_id (filter (\<lambda>m. mm_file_path m = f) ms))"
  define ids where "ids = filter (\<lambda>cid. cid \<notin> set (map mm_chunk_id
      (filter (\<lambda>m. mm_chunk_id m \<in> set affected) (delete_where (\<lambda>m. mm_file_path m = f) ms))))
      affected"
  have aff: "set affected = mm_chunk_id ` {m \<in> set ms. mm_file_path m = f}"
    by (auto simp: affected_def)
  have set_ids: "set ids = held_only_by f ms"
    unfolding orphans_are_held_only_by [symmetric] ids_def set_filter set_map aff set_delete_where
    by simp
  have dist: "distinct ids" by (simp add: ids_def affected_def)
  have nil: "affected = [] \<longleftrightarrow> \<not> (\<exists>m \<in> set ms. mm_file_path m = f)"
    by (auto simp: affected_def filter_empty_conv)
  have "delete_m2m_for_file st f s = Inr (if affected = [] then ([], s) else (ids,
      s\<lparr>st_m2m := dict_set (m2m_table st) (delete_where (\<lambda>m. mm_file_path m = f) ms) (st_m2m s)\<rparr>))"
    using assms by (simp add: delete_m2m_for_file_def Let_def affected_def ids_def)
  moreover have "affected = [] \<Longrightarrow> ids = []" by (simp add: ids_def)
  ultimately show ?thesis using set_ids dist nil by (cases "affected = []") auto
qed

lemma delete_where_none: "\<not> (\<exists>x \<in> set t. P x) \<Longrightarrow> delete_where P t = t"
  by (auto simp: delete_where_def intro: filter_True)

text \<open>The two tables of the strategy after the delete, in closed form.\<close>

lemma delete_chunks_by_file_result:
  assumes "table_of (st_m2m s) (m2m_table (store_strategy s)) = Inr ms"
    and "table_of (st_chunks s) (chunk_table (store_strategy s)) = Inr cs"
  shows "\<exists>s'. delete_chunks_by_file f s = (Inr (card (held_only_by f ms)), s')
     \<and> table_of (st_m2m s') (m2m_table (store_strategy s)) =
          Inr (delete_where (\<lambda>m. mm_file_path m = f) ms)
     \<and> table_of (st_chunks s') (chunk_table (store_strategy s)) =
          Inr (delete_where (\<lambda>c. cr_chunk_id c \<in> held_only_by f ms) cs)"
proof -
  obtain ids where ids: "delete_m2m_for_file (store_strategy s) f s = Inr (ids,
           if \<exists>m \<in> set ms. mm_file_path m = f
           then s\<lparr>st_m2m := dict_set (m2m_table (store_strategy s))
                  (delete_where (\<lambda>m. mm_file_path m = f) ms) (st_m2m s)\<rparr>
           else s)"
    and set_ids: "set ids = held_only_by f ms" and "distinct ids"
    using delete_m2m_for_file_result [OF assms(1)] by blast
  then have len: "length ids = card (held_only_by f ms)"
    by (metis distinct_card)
  show ?thesis
  proof (cases "\<exists>m \<in> set ms. mm_file_path m = f")
    case True
    show ?thesis
    proof (cases "ids = []")
      case empty: True
      with set_ids have "held_only_by f ms = {}" by simp
      with True empty ids len assms show ?thesis
        by (simp add: delete_chunks_by_file_def delete_orphan_chunks_def delete_where_none)
    next
      case False
      with True ids len assms set_ids show ?thesis
        by (simp add: delete_chunks_by_file_def delete_orphan_chunks_def)
    qed
  next
    case False
    then have none: "held_only_by f ms = {}" by (auto simp: held_only_by_def)
    with set_ids have "ids = []" by simp
    with False ids len none assms show ?thesis
      by (simp add: delete_chunks_by_file_def delete_orphan_chunks_def delete_where_none)
  qed
qed

section \<open>A sample database\<close>

text \<open>Two files of one strategy share the chunk \<open>x\<close>; \<open>y\<close> belongs to one of them.\<close>

definition sample_contents :: "chunk_row list" where
  "sample_contents =
     [\<lparr>cr_chunk_id = ''x'', cr_heading_hierarchy = [''A''], cr_level = 1, cr_text = ''shared''\<rparr>,
      \<lparr>cr_chunk_id = ''y'', cr_heading_hierarchy = [], cr_level = 0, cr_text = ''own''\<rparr>]"

definition sample_holders :: "m2m_row list" where
  "sample_holders =
     [\<lparr>mm_chunk_id = ''x'', mm_file_path = ''f.md'', mm_chunk_index = 0\<rparr>,
      \<lparr>mm_chunk_id = ''y'', mm_file_path = ''f.md'', mm_chunk_index = 1\<rparr>,
      \<lparr>mm_chunk_id = ''x'', mm_file_path = ''g.md'', mm_chunk_index = 0\<rparr>]"

definition sample_document :: source_document where
  "sample_document =
     \<lparr>sd_namespace = ''filesystem'', sd_document_ref = ''g.md'', sd_ref = ''filesystem:g.md'',
      sd_title = ''g'', sd_source_uri = ''file:g.md'', sd_media_type = ''text/markdown'',
      sd_parser_name = ''markdown'', sd_document_type = ''document'', sd_updated_at = 7,
      sd_content_fingerprint = ''c1'', sd_metadata_fingerprint = ''m1'',
      sd_metadata_json = JObj [], sd_file_path = Some ''g.md''\<rparr>"

definition sample_binding :: resource_binding where
  "sample_binding =
     \<lparr>rb_namespace = ''filesystem'', rb_resource_ref = ''f.md'', rb_document_ref = ''f.md'',
      rb_ref = ''filesystem:f.md'', rb_active = False, rb_bound_at = 3, rb_unbound_at = Some 5,
      rb_content_fingerprint = ''c0'', rb_metadata_fingerprint = ''m0'',
      rb_source_unit_refs = [], rb_metadata_json = []\<rparr>"

definition sample_store :: store where
  "sample_store = empty_database\<lparr>st_table := ''chunks_a'', st_fts_table := ''fts'',
     st_chunks := [(''chunks_a'', sample_contents)],
     st_m2m := [(''chunk_file_paths_a'', sample_holders)],
     st_prov := [(''chunk_source_provenance_a'',
        [\<lparr>pr_chunk_id = ''y'', pr_namespace = ''filesystem'', pr_document_ref = ''f.md'',
          pr_source_unit_refs = [], pr_chunk_strategy = ''a'', pr_parser_name = None\<rparr>])],
     st_documents := [sample_document], st_bindings := [sample_binding]\<rparr>"

lemmas sample_defs = sample_store_def sample_contents_def sample_holders_def sample_document_def
  sample_binding_def empty_database_def

lemma sample_tables:
  "store_strategy sample_store = ''a''"
  "table_of (st_m2m sample_store) (m2m_table ''a'') = Inr sample_holders"
  "table_of (st_chunks sample_store) (chunk_table ''a'') = Inr sample_contents"
  by (simp_all add: sample_store_def store_strategy_def removeprefix_def table_of_def
      m2m_table_def chunk_table_def)

lemma sample_closed: "holders_closed sample_contents sample_holders"
    "all_held sample_contents sample_holders"
  by (simp_all add: holders_closed_def all_held_def sample_contents_def sample_holders_def)

lemma sample_store_ok: "store_ok sample_store"
  by (simp add: store_ok_def pk_ok_def sample_defs store_keys)

text \<open>Deleting a file removes from the content table exactly the chunks that no other
  file holds, reports their number, leaves no holder row of the file, and keeps the
  tables closed: every holder row still names a stored chunk, every stored chunk
  still has a holder.\<close>

theorem delete_chunks_by_file_exact:
  assumes "table_of (st_m2m s) (m2m_table (store_strategy s)) = Inr ms"
    and "table_of (st_chunks s) (chunk_table (store_strategy s)) = Inr cs"
    and "holders_closed cs ms" and "all_held cs ms"
  shows "\<exists>s' ms' cs'. delete_chunks_by_file f s = (Inr (card (held_only_by f ms)), s')
     \<and> table_of (st_m2m s') (m2m_table (store_strategy s)) = Inr ms'
     \<and> table_of (st_chunks s') (chunk_table (store_strategy s)) = Inr cs'
     \<and> (\<forall>m \<in> set ms'. mm_file_path m \<noteq> f)
     \<and> cr_chunk_id ` set cs' = cr_chunk_id ` set cs - held_only_by f ms
     \<and> holders_closed cs' ms' \<and> all_held cs' ms'"
proof -
  obtain s' where s': "delete_chunks_by_file f s = (Inr (card (held_only_by f ms)), s')"
    and ms': "table_of (st_m2m s') (m2m_table (store_strategy s)) =
          Inr (delete_where (\<lambda>m. mm_file_path m = f) ms)"
    and cs': "table_of (st_chunks s') (chunk_table (store_strategy s)) =
          Inr (delete_where (\<lambda>c. cr_chunk_id c \<in> held_only_by f ms) cs)"
    using delete_chunks_by_file_result [OF assms(1,2)] by blast
  let ?ms = "delete_where (\<lambda>m. mm_file_path m = f) ms"
  let ?cs = "delete_where (\<lambda>c. cr_chunk_id c \<in> held_only_by f ms) cs"
  have closed: "holders_closed ?cs ?ms"
    unfolding holders_closed_def
  proof
    fix x
    assume "x \<in> mm_chunk_id ` set ?ms"
    then obtain m where m: "m \<in> set ms" "mm_file_path m \<noteq> f" "mm_chunk_id m = x" by auto
    with assms(3) obtain c where c: "c \<in> set cs" "cr_chunk_id c = x"
      by (auto simp: holders_closed_def)
    from m have "x \<notin> held_only_by f ms" unfolding held_only_by_def mem_Collect_eq by metis
    with c have "c \<in> set ?cs" by simp
    with c show "x \<in> cr_chunk_id ` set ?cs" by blast
  qed
  have held: "all_held ?cs ?ms"
    unfolding all_held_def
  proof
    fix x
    assume "x \<in> cr_chunk_id ` set ?cs"
    then obtain c where c: "c \<in> set cs" "x = cr_chunk_id c" "x \<notin> held_only_by f ms" by auto
    with assms(4) obtain m where "m \<in> set ms" "mm_chunk_id m = x"
      by (auto simp: all_held_def)
    with c obtain m' where "m' \<in> set ms" "mm_chunk_id m' = x" "mm_file_path m' \<noteq> f"
      by (auto simp: held_only_by_def)
    then show "x \<in> mm_chunk_id ` set ?ms" by auto
  qed
  have rest: "cr_chunk_id ` set ?cs = cr_chunk_id ` set cs - held_only_by f ms"
    and gone: "\<forall>m \<in> set ?ms. mm_file_path m \<noteq> f" by auto
  show ?thesis
    by (rule exI [of _ s'], rule exI [of _ ?ms], rule exI [of _ ?cs], intro conjI)
      (fact s' ms' cs' gone rest closed held)+
qed

theorem delete_chunks_by_file_exact_witness:
  "\<exists>s' ms' cs'. delete_chunks_by_file ''f.md'' sample_store
       = (Inr (card (held_only_by ''f.md'' sample_holders)), s')
     \<and> table_of (st_m2m s') (m2m_table (store_strategy sample_store)) = Inr ms'
     \<and> table_of (st_chunks s') (chunk_table (store_strategy sample_store)) = Inr cs'
     \<and> (\<forall>m \<in> set ms'. mm_file_path m \<noteq> ''f.md'')
     \<and> cr_chunk_id ` set cs' = cr_chunk_id ` set sample_contents - held_only_by ''f.md'' sample_holders
     \<and> holders_closed cs' ms' \<and> all_held cs' ms'"
  by (rule delete_chunks_by_file_exact) (simp_all add: sample_tables sample_closed)

end
