(* ===== verification/Fusion_Laws.thy ===== *)
theory Fusion_Laws
  imports Fusion Metadata_Laws
begin

text \<open>
  The correctness of hydration: public references keep the best hit of each engine,
  and \<open>build_candidates\<close>, over any chunk store that answers what it is asked
  (\<open>chunk_reader\<close>, met by \<open>SQLiteMetadataStore.get_chunks\<close>), returns exactly the
  visible and stored part of the fused ranking.
\<close>

section \<open>Public references\<close>

definition public_ref_of :: "(string, chunk_provenance) dict \<Rightarrow> string \<Rightarrow> string option" where
  "public_ref_of pm chunk_id = map_option public_ref_for_provenance (dict_get pm chunk_id)"

lemma hydrate_hits_refs:
  "distinct (map fst (hydrate_hits pm seen hs)) \<and>
   fst ` set (hydrate_hits pm seen hs) = {r. \<exists>h \<in> set hs. public_ref_of pm (fst h) = Some r} - set seen"
proof (induction pm seen hs rule: hydrate_hits.induct)
  case (1 pm seen)
  then show ?case by simp
next
  case (2 pm seen c x hs)
  show ?case
  proof (cases "dict_get pm c")
    case None
    with 2 show ?thesis by (auto simp: public_ref_of_def)
  next
    case (Some p)
    with 2 show ?thesis
      by (cases "public_ref_for_provenance p \<in> set seen") (auto simp: public_ref_of_def Let_def)
  qed
qed

lemma hydrate_hits_first:
  "(r, x) \<in> set (hydrate_hits pm seen hs) \<Longrightarrow>
     \<exists>c. find (\<lambda>h. public_ref_of pm (fst h) = Some r) hs = Some (c, x)"
proof (induction pm seen hs rule: hydrate_hits.induct)
  case (1 pm seen)
  then show ?case by simp
next
  case (2 pm seen c y hs)
  show ?case
  proof (cases "dict_get pm c")
    case None
    with 2 show ?thesis by (auto simp: public_ref_of_def)
  next
    case (Some p)
    let ?r = "public_ref_for_provenance p"
    show ?thesis
    proof (cases "?r \<in> set seen")
      case True
      with 2 Some have tail: "(r, x) \<in> set (hydrate_hits pm seen hs)" by simp
      then have "r \<in> fst ` set (hydrate_hits pm seen hs)" by force
      then have "r \<notin> set seen" using hydrate_hits_refs by blast
      with True have "r \<noteq> ?r" by blast
      moreover from "2.IH"(2) [OF Some refl True tail]
      obtain c' where "find (\<lambda>h. public_ref_of pm (fst h) = Some r) hs = Some (c', x)" by blast
      ultimately show ?thesis using Some by (simp add: public_ref_of_def)
    next
      case False
      with "2.prems" Some have "(r, x) = (?r, y) \<or> (r, x) \<in> set (hydrate_hits pm (?r # seen) hs)"
        by (simp add: Let_def)
      then show ?thesis
      proof
        assume "(r, x) = (?r, y)"
        with Some show ?thesis by (simp add: public_ref_of_def)
      next
        assume tail: "(r, x) \<in> set (hydrate_hits pm (?r # seen) hs)"
        then have "r \<in> fst ` set (hydrate_hits pm (?r # seen) hs)" by force
        then have "r \<notin> set (?r # seen)" using hydrate_hits_refs by blast
        then have "r \<noteq> ?r" by simp
        moreover from "2.IH"(3) [OF Some refl False tail]
        obtain c' where "find (\<lambda>h. public_ref_of pm (fst h) = Some r) hs = Some (c', x)" by blast
        ultimately show ?thesis using Some by (simp add: public_ref_of_def)
      qed
    qed
  qed
qed

lemma hydrate_fold_get:
  "dict_ok pe \<Longrightarrow> dict_get (fold (\<lambda>(engine, hs) result.
        let ref_results = hydrate_hits pm [] hs
        in if ref_results \<noteq> [] then dict_set engine ref_results result else result) pe d) e
   = (case dict_get pe e of
        Some hs \<Rightarrow> if hydrate_hits pm [] hs \<noteq> [] then Some (hydrate_hits pm [] hs) else dict_get d e
      | None \<Rightarrow> dict_get d e)"
proof (induction pe arbitrary: d)
  case Nil
  then show ?case by simp
next
  case (Cons p pe)
  obtain n hs where p: "p = (n, hs)" by (cases p)
  from Cons.prems have "dict_get pe n = None" and "dict_ok pe"
    by (auto simp: p dict_get_None_iff)
  with Cons.IH show ?case by (auto simp: p Let_def split: option.splits)
qed

text \<open>After hydration an engine's list holds each public reference once, with the score
  of the best-ranked chunk behind it; no hit with provenance is lost, and an engine
  without such hits disappears.\<close>

theorem hydrate_local_engine_results_spec:
  assumes "dict_ok pe"
  shows "case dict_get (hydrate_local_engine_results pe pm) e of
       None \<Rightarrow> (case dict_get pe e of None \<Rightarrow> True
                | Some hs \<Rightarrow> \<forall>h \<in> set hs. public_ref_of pm (fst h) = None)
     | Some rs \<Rightarrow> \<exists>hs. dict_get pe e = Some hs \<and> rs \<noteq> [] \<and> distinct (map fst rs)
         \<and> fst ` set rs = {r. \<exists>h \<in> set hs. public_ref_of pm (fst h) = Some r}
         \<and> (\<forall>(r, x) \<in> set rs. \<exists>c. find (\<lambda>h. public_ref_of pm (fst h) = Some r) hs = Some (c, x))"
proof -
  have get: "dict_get (hydrate_local_engine_results pe pm) e =
      (case dict_get pe e of
        Some hs \<Rightarrow> if hydrate_hits pm [] hs \<noteq> [] then Some (hydrate_hits pm [] hs) else None
      | None \<Rightarrow> None)"
    unfolding hydrate_local_engine_results_def hydrate_fold_get [OF assms]
    by (simp split: option.splits)
  show ?thesis
  proof (cases "dict_get pe e")
    case None
    with get show ?thesis by simp
  next
    case (Some hs)
    have refs: "fst ` set (hydrate_hits pm [] hs) = {r. \<exists>h \<in> set hs. public_ref_of pm (fst h) = Some r}"
      and dist: "distinct (map fst (hydrate_hits pm [] hs))"
      using hydrate_hits_refs [of pm "[]" hs] by auto
    show ?thesis
    proof (cases "hydrate_hits pm [] hs = []")
      case True
      have "public_ref_of pm (fst h) = None" if "h \<in> set hs" for h
      proof (rule ccontr)
        assume "public_ref_of pm (fst h) \<noteq> None"
        with that have "the (public_ref_of pm (fst h)) \<in> fst ` set (hydrate_hits pm [] hs)"
          unfolding refs by auto
        with True show False by simp
      qed
      with True Some get show ?thesis by simp
    next
      case False
      with get Some have g: "dict_get (hydrate_local_engine_results pe pm) e = Some (hydrate_hits pm [] hs)"
        by simp
      have "\<forall>(r, x) \<in> set (hydrate_hits pm [] hs).
          \<exists>c. find (\<lambda>h. public_ref_of pm (fst h) = Some r) hs = Some (c, x)"
        using hydrate_hits_first by blast
      with False refs dist show ?thesis unfolding g option.case
        by (intro exI [of _ hs] conjI Some)
    qed
  qed
qed

theorem hydrate_local_engine_results_spec_witness:
  "dict_get (hydrate_local_engine_results [(''graph'', [(''c9'', 3)])] []) ''graph'' = None"
proof -
  have "dict_ok [(''graph'', [(''c9'', 3 :: rat)])]" by simp
  from hydrate_local_engine_results_spec [OF this, of "[]" "''graph''"]
  show ?thesis by (auto simp: public_ref_of_def split: option.splits)
qed

section \<open>Building candidates over a chunk store\<close>

locale chunk_reader =
  fixes read_chunks :: "'s \<Rightarrow> string list \<Rightarrow> py_error + chunk list"
    and ready :: "'s \<Rightarrow> bool"
    and stored :: "'s \<Rightarrow> string \<Rightarrow> bool"
  assumes read_exact: "ready s \<Longrightarrow>
    \<exists>cs. read_chunks s ids = Inr cs \<and> ch_chunk_id ` set cs = {i \<in> set ids. stored s i}"
begin

definition hydrated :: "'s \<Rightarrow> string \<Rightarrow> nat \<Rightarrow> (string, chunk_provenance) dict \<Rightarrow> search_candidate \<Rightarrow> bool" where
  "hydrated s query len prov cand \<longleftrightarrow>
     (\<exists>i p c cs. sc_chunk_id cand = Some i \<and> dict_get prov i = Some p \<and> sc_provenance cand = Some p
        \<and> sc_ref cand = cp_ref p \<and> read_chunks s [i] = Inr (c # cs) \<and> ch_chunk_id c = i
        \<and> extract_best_snippet (ch_text c) query len = Inr (sc_snippet cand))"

lemma read_one:
  assumes "ready s"
  shows "(stored s i \<and> (\<exists>c cs. read_chunks s [i] = Inr (c # cs) \<and> ch_chunk_id c = i))
       \<or> (\<not> stored s i \<and> read_chunks s [i] = Inr [])"
proof -
  obtain cs where cs: "read_chunks s [i] = Inr cs"
    and ids: "ch_chunk_id ` set cs = {j \<in> set [i]. stored s j}"
    using read_exact [OF assms] by blast
  show ?thesis
  proof (cases cs)
    case Nil
    with ids have "\<not> stored s i" by auto
    with cs Nil show ?thesis by simp
  next
    case (Cons c cs')
    then have "ch_chunk_id c \<in> ch_chunk_id ` set cs" by simp
    with ids have "stored s i \<and> ch_chunk_id c = i" by auto
    with cs Cons show ?thesis by simp
  qed
qed

lemma build_from_exact:
  assumes "ready s" and refs: "\<forall>(i, p) \<in> set prov. validate_ref (cp_ref p) = Inr (cp_ref p)"
  shows "'''' \<notin> fst ` set fused \<Longrightarrow>
    \<exists>cands. build_candidates_from (read_chunks s) query [] prov len scores fused = Inr cands
      \<and> map (\<lambda>c. (sc_chunk_id c, sc_fused_score c)) cands
          = map (\<lambda>(i, x). (Some i, x)) (filter (\<lambda>(i, x). i \<in> set (dict_keys prov) \<and> stored s i) fused)
      \<and> (\<forall>cand \<in> set cands. hydrated s query len prov cand)"
proof (induction fused)
  case Nil
  then show ?case by simp
next
  case (Cons h fused)
  obtain i x where h: "h = (i, x)" by (cases h)
  from Cons obtain cands where rest: "build_candidates_from (read_chunks s) query [] prov len scores fused = Inr cands"
    and ids: "map (\<lambda>c. (sc_chunk_id c, sc_fused_score c)) cands
          = map (\<lambda>(i, x). (Some i, x)) (filter (\<lambda>(i, x). i \<in> set (dict_keys prov) \<and> stored s i) fused)"
    and ok: "\<forall>cand \<in> set cands. hydrated s query len prov cand" by auto
  show ?case
  proof (cases "i \<in> set (dict_keys prov) \<and> stored s i")
    case False
    then have "lookup_candidate_chunk (read_chunks s) [] prov i = Inr None"
      using read_one [OF assms(1), of i] by (auto simp: lookup_candidate_chunk_def)
    with rest ids ok False show ?thesis by (auto simp: h)
  next
    case True
    then obtain c cs where read: "read_chunks s [i] = Inr (c # cs)" "ch_chunk_id c = i"
      using read_one [OF assms(1), of i] by auto
    from True obtain p where p: "dict_get prov i = Some p"
      by (metis dict_get_None_iff not_None_eq)
    have look: "lookup_candidate_chunk (read_chunks s) [] prov i = Inr (Some (i, c))"
      using True read by (simp add: lookup_candidate_chunk_def)
    obtain snip where snip: "extract_best_snippet (ch_text c) query len = Inr snip"
      using snippet_total by blast
    have i: "i \<noteq> ''''" using Cons.prems by (auto simp: h)
    from p refs have "validate_ref (cp_ref p) = Inr (cp_ref p)" by (auto dest: map_of_SomeD)
    then obtain cand where cand: "make_candidate (dict_get scores i) i c snip p x = Inr cand"
      and fields: "sc_chunk_id cand = Some i" "sc_fused_score cand = x" "sc_provenance cand = Some p"
        "sc_ref cand = cp_ref p" "sc_snippet cand = snip"
      by (simp add: make_candidate_def)
    have "build_candidates_from (read_chunks s) query [] prov len scores (h # fused)
        = Inr (cand # cands)"
      using look snip p i rest cand by (simp add: h)
    moreover have "hydrated s query len prov cand"
      using p read snip fields by (auto simp: hydrated_def)
    ultimately show ?thesis using ids ok True fields by (auto simp: h)
  qed
qed

end

definition chunks_ready :: "store \<Rightarrow> bool" where
  "chunks_ready s = (dict_get (st_chunks s) (st_table s) \<noteq> None)"

definition chunk_stored :: "store \<Rightarrow> string \<Rightarrow> bool" where
  "chunk_stored s i =
     (case dict_get (st_chunks s) (st_table s) of None \<Rightarrow> False | Some t \<Rightarrow> i \<in> cr_chunk_id ` set t)"

lemma get_chunks_exact:
  assumes "chunks_ready s"
  shows "\<exists>cs. get_chunks s ids = Inr cs \<and> ch_chunk_id ` set cs = {i \<in> set ids. chunk_stored s i}"
proof -
  obtain t where t: "dict_get (st_chunks s) (st_table s) = Some t"
    using assms by (auto simp: chunks_ready_def)
  have "ch_chunk_id ` set (map row_to_chunk (filter (\<lambda>r. cr_chunk_id r \<in> set ids) t))
      = {i \<in> set ids. i \<in> cr_chunk_id ` set t}"
    by (force simp: row_to_chunk_def)
  with t show ?thesis by (cases "ids = []") (simp_all add: get_chunks_def table_of_def chunk_stored_def)
qed

interpretation sqlite_chunks: chunk_reader get_chunks chunks_ready chunk_stored
  by unfold_locales (rule get_chunks_exact)

text \<open>C32: Over the SQLite store \<open>build_candidates\<close> does not fail when the references are well
  formed: it returns, in the fused order and with the fused scores, exactly the top
  ids that have active provenance and a stored chunk, each carrying its own
  provenance, public reference and snippet.\<close>

theorem build_candidates_exact:
  assumes "chunks_ready s" and "'''' \<notin> fst ` set fused" and "0 \<le> top_k"
    and "\<forall>(i, p) \<in> set prov. validate_ref (cp_ref p) = Inr (cp_ref p)"
  shows "\<exists>cands. build_candidates (get_chunks s) fused per_engine query None (Some prov) top_k len = Inr cands
     \<and> map (\<lambda>c. (sc_chunk_id c, sc_fused_score c)) cands
         = map (\<lambda>(i, x). (Some i, x))
             (filter (\<lambda>(i, x). i \<in> set (dict_keys prov) \<and> chunk_stored s i) (take (nat top_k) fused))
     \<and> (\<forall>cand \<in> set cands. \<exists>i p c cs. sc_chunk_id cand = Some i \<and> dict_get prov i = Some p
          \<and> sc_provenance cand = Some p \<and> sc_ref cand = cp_ref p
          \<and> get_chunks s [i] = Inr (c # cs) \<and> ch_chunk_id c = i
          \<and> extract_best_snippet (ch_text c) query len = Inr (sc_snippet cand))"
proof -
  have "'''' \<notin> fst ` set (take (nat top_k) fused)"
    using assms(2) by (meson image_mono set_take_subset subsetD)
  from sqlite_chunks.build_from_exact [OF assms(1,4) this, of query len
      "engine_scores_by_ref per_engine"]
  show ?thesis using assms(3) unfolding sqlite_chunks.hydrated_def
    by (simp add: build_candidates_def py_take_def)
qed

theorem build_candidates_exact_witness:
  "\<exists>cands. build_candidates (get_chunks sample_store) [(''x'', 1/2), (''q'', 1/3)] [] ''shared'' None
       (Some [(''x'', provenance_of_row \<lparr>pr_chunk_id = ''x'', pr_namespace = ''filesystem'',
          pr_document_ref = ''g.md'', pr_source_unit_refs = [], pr_chunk_strategy = ''a'',
          pr_parser_name = None\<rparr>)]) 5 40 = Inr cands
     \<and> map (\<lambda>c. (sc_chunk_id c, sc_fused_score c)) cands = [(Some ''x'', 1/2)]"
proof -
  have ready: "chunks_ready sample_store" and x: "chunk_stored sample_store ''x''"
    by (simp_all add: chunks_ready_def chunk_stored_def sample_defs)
  have ids: "'''' \<notin> fst ` set [(''x'', 1/2 :: rat), (''q'', 1/3)]" by simp
  have refs: "\<forall>(i, p) \<in> set [(''x'', provenance_of_row
        \<lparr>pr_chunk_id = ''x'', pr_namespace = ''filesystem'', pr_document_ref = ''g.md'',
         pr_source_unit_refs = [], pr_chunk_strategy = ''a'', pr_parser_name = None\<rparr>)].
      validate_ref (cp_ref p) = Inr (cp_ref p)"
    by (simp add: provenance_of_row_def make_ref_def validate_ref_def partition_colon_def)
  from build_candidates_exact [OF ready ids _ refs, where top_k = 5 and per_engine = "[]"
      and query = "''shared''" and len = 40] x
  show ?thesis by auto
qed

end
