(* ===== verification/Search_Pool.thy ===== *)
theory Search_Pool
  imports Fusion_Laws Metadata_Provenance
begin

text \<open>
  The candidate pool of \<open>DotMDService\<close> (\<open>api/service.py\<close>): primary retrieval and
  fusion with graph enrichment, the active-binding filter, the over-fetching loop
  around it, and the blending of reranker scores.  The engines are fields of the
  record \<open>engines\<close>: functions of the query and the pool size (the indexes do not
  change during one search).  The locale \<open>provenance_reader\<close> is what the filter
  relies on of the metadata store.
\<close>

section \<open>Collecting the pool\<close>

record engines =
  en_semantic :: "string \<Rightarrow> int \<Rightarrow> py_error + hits"
  en_keyword :: "string \<Rightarrow> int \<Rightarrow> py_error + hits"
  en_graph_direct :: "string \<Rightarrow> int \<Rightarrow> py_error + hits"
  en_graph :: "string \<Rightarrow> int \<Rightarrow> string list \<Rightarrow> py_error + hits"

record candidate_pool =
  po_search_query :: string
  po_original_query :: string
  po_fused :: hits
  po_engine_results :: "(string, hits) dict"
  po_semantic_hits :: hits
  po_keyword_hits :: hits
  po_graph_direct_hits :: hits
  po_pool_size :: int

text \<open>A graph hit not yet fused is appended with the given score.\<close>

fun append_graph_hits :: "rat \<Rightarrow> hits \<Rightarrow> hits \<Rightarrow> hits" where
  "append_graph_hits score fused [] = fused"
| "append_graph_hits score fused ((cid, gscore) # hs) =
     (if cid \<in> set (map fst fused) then append_graph_hits score fused hs
      else append_graph_hits score (fused @ [(cid, score)]) hs)"

definition primary_results :: "hits \<Rightarrow> hits \<Rightarrow> hits \<Rightarrow> (string, hits) dict" where
  "primary_results semantic keyword graph_direct =
     (if semantic \<noteq> [] then [(''semantic'', semantic)] else [])
     @ (if keyword \<noteq> [] then [(''keyword'', keyword)] else [])
     @ (if graph_direct \<noteq> [] then [(''graph_direct'', graph_direct)] else [])"

definition enrich_with_graph :: "(rat \<Rightarrow> rat) \<Rightarrow> hits \<Rightarrow> (string, hits) dict \<Rightarrow> hits \<Rightarrow>
    hits \<times> (string, hits) dict" where
  "enrich_with_graph rnd fused engine_results graph_hits =
     (if graph_hits = [] then (fused, engine_results)
      else (append_graph_hits (rnd ((if fused \<noteq> [] then snd (last fused) else 0) * (1/2))) fused graph_hits,
            dict_set ''graph'' graph_hits engine_results))"

text \<open>The stages after retrieval: fusion of the primary engines, then enrichment.\<close>

definition fuse_and_enrich :: "(rat \<Rightarrow> rat) \<Rightarrow> int \<Rightarrow> engines \<Rightarrow> string \<Rightarrow> string \<Rightarrow>
    search_mode \<Rightarrow> int \<Rightarrow> hits \<Rightarrow> hits \<Rightarrow> hits \<Rightarrow> py_error + candidate_pool" where
  "fuse_and_enrich rnd fusion_k en search_query original_query mode pool_size
       semantic_hits keyword_hits graph_direct_hits =
     (let pool = \<lambda>fused engine_results.
           \<lparr>po_search_query = search_query, po_original_query = original_query, po_fused = fused,
            po_engine_results = engine_results, po_semantic_hits = semantic_hits,
            po_keyword_hits = keyword_hits, po_graph_direct_hits = graph_direct_hits,
            po_pool_size = pool_size\<rparr>
     in if semantic_hits = [] \<and> keyword_hits = [] \<and> graph_direct_hits = []
        then Inr (pool [] [])
        else
          let engine_results = primary_results semantic_hits keyword_hits graph_direct_hits in
          try_bind (fuse_results rnd engine_results fusion_k None) (\<lambda>fused.
          if mode \<in> {GRAPH, HYBRID} \<and> fused \<noteq> []
          then
            let seed_ids = map fst (py_take pool_size fused);
                graph_hits = (case en_graph en search_query pool_size seed_ids of
                                Inl _ \<Rightarrow> [] | Inr hs \<Rightarrow> hs);
                (fused', engine_results') = enrich_with_graph rnd fused engine_results graph_hits
            in Inr (pool fused' engine_results')
          else Inr (pool fused engine_results)))"

definition collect_candidate_pool :: "(rat \<Rightarrow> rat) \<Rightarrow> int \<Rightarrow> engines \<Rightarrow> string \<Rightarrow> string \<Rightarrow>
    search_mode \<Rightarrow> int \<Rightarrow> py_error + candidate_pool" where
  "collect_candidate_pool rnd fusion_k en search_query original_query mode pool_size =
     try_bind (if mode \<in> {SEMANTIC, HYBRID, GRAPH} then en_semantic en search_query pool_size
               else Inr []) (\<lambda>semantic_hits.
     try_bind (if mode \<in> {KEYWORD, HYBRID, GRAPH} then en_keyword en search_query pool_size
               else Inr []) (\<lambda>keyword_hits.
     try_bind (if mode \<in> {GRAPH, HYBRID} then en_graph_direct en original_query pool_size
               else Inr []) (\<lambda>graph_direct_hits.
     fuse_and_enrich rnd fusion_k en search_query original_query mode pool_size
       semantic_hits keyword_hits graph_direct_hits)))"

section \<open>The active filter\<close>

fun filter_active :: "(string, chunk_provenance) dict \<Rightarrow> (string, chunk_provenance) dict \<Rightarrow> hits \<Rightarrow>
    py_error + hits \<times> nat" where
  "filter_active active all_prov [] = Inr ([], 0)"
| "filter_active active all_prov ((chunk_id, score) # rest) =
     (if chunk_id \<in> set (dict_keys active)
      then try_bind (filter_active active all_prov rest) (\<lambda>(filtered, inactive).
        Inr ((chunk_id, score) # filtered, inactive))
      else if chunk_id \<in> set (dict_keys all_prov)
      then try_bind (filter_active active all_prov rest) (\<lambda>(filtered, inactive).
        Inr (filtered, inactive + 1))
      else Inl (ValueError (''missing source provenance for chunk_id='' @ chunk_id)))"

type_synonym 's provenance_read = "string \<Rightarrow> string list \<Rightarrow> 's \<Rightarrow> (string, chunk_provenance) dict \<times> 's"

definition filter_active_fused_candidates :: "'s provenance_read \<Rightarrow> 's provenance_read \<Rightarrow> string \<Rightarrow>
    hits \<Rightarrow> 's \<Rightarrow> py_error + (hits \<times> (string, chunk_provenance) dict \<times> nat) \<times> 's" where
  "filter_active_fused_candidates read_all read_active strategy fused s =
     (let chunk_ids = map fst fused;
          (all_prov, s1) = read_all strategy chunk_ids s;
          (active, s2) = read_active strategy chunk_ids s1
      in try_bind (filter_active active all_prov fused) (\<lambda>(filtered, inactive).
           Inr ((filtered, active, inactive), s2)))"

section \<open>The over-fetching loop\<close>

definition ACTIVE_FILTER_OVERFETCH_FACTOR :: int where
  "ACTIVE_FILTER_OVERFETCH_FACTOR = 5"

definition active_filter_pool_size :: "int \<Rightarrow> int \<Rightarrow> int" where
  "active_filter_pool_size top_k pool_size =
     max pool_size (max (top_k * ACTIVE_FILTER_OVERFETCH_FACTOR) (top_k + 50))"

type_synonym 's active_filter =
  "hits \<Rightarrow> 's \<Rightarrow> py_error + (hits \<times> (string, chunk_provenance) dict \<times> nat) \<times> 's"

partial_function (option) collect_active_loop :: "(int \<Rightarrow> py_error + candidate_pool) \<Rightarrow>
    's active_filter \<Rightarrow> int \<Rightarrow> int \<Rightarrow> int \<Rightarrow> 's \<Rightarrow>
    (py_error + (candidate_pool \<times> hits \<times> (string, chunk_provenance) dict \<times> nat) \<times> 's) option" where
  "collect_active_loop collect filt top_k previous_count active_pool_size s =
     (case collect active_pool_size of
        Inl e \<Rightarrow> Some (Inl e)
      | Inr pool \<Rightarrow>
          if po_fused pool = [] then Some (Inr ((pool, [], [], 0), s))
          else (case filt (po_fused pool) s of
            Inl e \<Rightarrow> Some (Inl e)
          | Inr ((filtered, active, inactive), s') \<Rightarrow>
              if top_k \<le> int (length filtered)
                \<or> int (length (po_fused pool)) < active_pool_size
                \<or> int (length (po_fused pool)) \<le> previous_count
              then Some (Inr ((pool, filtered, active, inactive), s'))
              else collect_active_loop collect filt top_k (int (length (po_fused pool)))
                     (active_pool_size * 2) s'))"

definition collect_active_candidate_pool where
  "collect_active_candidate_pool collect filt top_k pool_size s =
     collect_active_loop collect filt top_k (-1) (active_filter_pool_size top_k pool_size) s"

section \<open>Blending reranker scores\<close>

definition score_range :: "(rat \<Rightarrow> rat) \<Rightarrow> rat \<Rightarrow> rat \<Rightarrow> rat" where
  "score_range rnd lo hi = (if lo < hi then rnd (hi - lo) else 1)"

definition blend_score :: "(rat \<Rightarrow> rat) \<Rightarrow> rat \<Rightarrow> rat \<Rightarrow> rat \<Rightarrow> rat \<Rightarrow> rat \<Rightarrow> rat \<Rightarrow> rat" where
  "blend_score rnd re_min re_range fused_min fused_range re_score raw_fused =
     (let norm_re = rnd (rnd (re_score - re_min) / re_range);
          norm_fused = rnd (rnd (raw_fused - fused_min) / fused_range)
      in rnd (rnd (rnd (2/5) * norm_fused) + rnd (rnd (3/5) * norm_re)))"

definition blended_hits :: "(rat \<Rightarrow> rat) \<Rightarrow> hits \<Rightarrow> hits \<Rightarrow> hits" where
  "blended_hits rnd fused reranked =
     (let fused_scores = dict_get (rev fused);
          re_scores = map snd reranked;
          re_min = Min (set re_scores);
          re_range = score_range rnd re_min (Max (set re_scores));
          fused_vals = map (\<lambda>(cid, _). the (fused_scores cid))
            (filter (\<lambda>(cid, _). fused_scores cid \<noteq> None) reranked);
          fused_min = (if fused_vals \<noteq> [] then Min (set fused_vals) else 0);
          fused_max = (if fused_vals \<noteq> [] then Max (set fused_vals) else 1);
          fused_range = score_range rnd fused_min fused_max
      in map (\<lambda>(cid, re_score).
           (cid, blend_score rnd re_min re_range fused_min fused_range re_score
              (case fused_scores cid of None \<Rightarrow> fused_min | Some x \<Rightarrow> x))) reranked)"

definition blend_reranked :: "(rat \<Rightarrow> rat) \<Rightarrow> hits \<Rightarrow> hits \<Rightarrow> hits" where
  "blend_reranked rnd fused reranked =
     (if reranked = [] then fused
      else
        let blended = blended_hits rnd fused reranked
        in sorted_desc snd (blended @ filter (\<lambda>(cid, _). cid \<notin> set (map fst blended)) fused))"

end
