(* ===== verification/Metadata_Contracts.thy ===== *)
theory Metadata_Contracts
  imports Metadata_Laws
begin

text \<open>
  The contracts \<open>SQLiteMetadataStore\<close> offers to the pipeline, to search and to the
  source runtimes: what a file still reads after another one is deleted, immutable
  content, exact dry runs, idempotent backfills, checkpoint cursors, and provenance
  of active bindings only.  \<open>cursor_store\<close> and \<open>provenance_reader\<close> are the
  interfaces the clients of the store prove their lemmas over.
\<close>

section \<open>Other files are not affected\<close>

lemma filter_delete_where_disjoint:
  "(\<And>x. x \<in> set t \<Longrightarrow> Q x \<Longrightarrow> \<not> P x) \<Longrightarrow> filter Q (delete_where P t) = filter Q t"
  by (induction t) (auto simp: delete_where_def)

text \<open>Deleting one file leaves what every other file reads unchanged: the same chunks
  in the same order with the same headings and text, for every index range.\<close>

theorem delete_chunks_by_file_frame:
  assumes "table_of (st_m2m s) (m2m_table (store_strategy s)) = Inr ms"
    and "table_of (st_chunks s) (chunk_table (store_strategy s)) = Inr cs"
    and other: "f' \<noteq> f"
  shows "get_chunks_for_file_range (snd (delete_chunks_by_file f s)) (store_strategy s) f' a b
       = get_chunks_for_file_range s (store_strategy s) f' a b"
proof -
  obtain s' where s': "delete_chunks_by_file f s = (Inr (card (held_only_by f ms)), s')"
    and ms': "table_of (st_m2m s') (m2m_table (store_strategy s)) =
          Inr (delete_where (\<lambda>m. mm_file_path m = f) ms)"
    and cs': "table_of (st_chunks s') (chunk_table (store_strategy s)) =
          Inr (delete_where (\<lambda>c. cr_chunk_id c \<in> held_only_by f ms) cs)"
    using delete_chunks_by_file_result [OF assms(1,2)] by blast
  let ?sel = "\<lambda>m. mm_file_path m = f' \<and> a \<le> mm_chunk_index m \<and> mm_chunk_index m < b"
  have rows: "filter ?sel (delete_where (\<lambda>m. mm_file_path m = f) ms) = filter ?sel ms"
    using other by (intro filter_delete_where_disjoint) auto
  have kept: "filter (\<lambda>c. cr_chunk_id c = mm_chunk_id m)
        (delete_where (\<lambda>c. cr_chunk_id c \<in> held_only_by f ms) cs)
      = filter (\<lambda>c. cr_chunk_id c = mm_chunk_id m) cs" if "m \<in> set (filter ?sel ms)" for m
  proof (rule filter_delete_where_disjoint)
    fix c
    assume "cr_chunk_id c = mm_chunk_id m"
    moreover have "mm_chunk_id m \<notin> held_only_by f ms"
    proof -
      from that have "m \<in> set ms" and "mm_file_path m \<noteq> f" using other by auto
      then show ?thesis unfolding held_only_by_def mem_Collect_eq by metis
    qed
    ultimately show "\<not> cr_chunk_id c \<in> held_only_by f ms" by simp
  qed
  have "concat (map (\<lambda>m. map (\<lambda>c. (mm_chunk_index m, cr_heading_hierarchy c, cr_text c))
        (filter (\<lambda>c. cr_chunk_id c = mm_chunk_id m)
          (delete_where (\<lambda>c. cr_chunk_id c \<in> held_only_by f ms) cs))) (filter ?sel ms))
    = concat (map (\<lambda>m. map (\<lambda>c. (mm_chunk_index m, cr_heading_hierarchy c, cr_text c))
        (filter (\<lambda>c. cr_chunk_id c = mm_chunk_id m) cs)) (filter ?sel ms))"
    using kept by (intro arg_cong [where f = concat] map_cong) auto
  then show ?thesis
    using assms(1,2) by (simp add: s' ms' cs' get_chunks_for_file_range_def rows)
qed

theorem delete_chunks_by_file_frame_witness:
  "get_chunks_for_file_range (snd (delete_chunks_by_file ''f.md'' sample_store))
      (store_strategy sample_store) ''g.md'' 0 5
   = get_chunks_for_file_range sample_store (store_strategy sample_store) ''g.md'' 0 5"
  by (rule delete_chunks_by_file_frame) (simp_all add: sample_tables)

section \<open>Content is immutable\<close>

text \<open>A chunk's content is immutable: once a payload is stored under an id, inserting
  any chunk (the same id with other content included) leaves it as it was, and a
  chunk inserted under a new id reads back exactly.\<close>

theorem insert_chunk_immutable:
  assumes "store_ok s" and ins: "insert_chunk st c h l x s = Inr s'"
  shows "(get_stored_payload s st c' = Inr (Some p) \<longrightarrow> get_stored_payload s' st c' = Inr (Some p))
     \<and> (get_stored_payload s st c = Inr None \<longrightarrow> get_stored_payload s' st c = Inr (Some (x, h, l)))"
proof -
  obtain t where t: "table_of (st_chunks s) (chunk_table st) = Inr t"
    using ins by (auto simp: insert_chunk_def try_bind_Inr_iff)
  define r where "r = \<lparr>cr_chunk_id = c, cr_heading_hierarchy = h, cr_level = l, cr_text = x\<rparr>"
  have t': "table_of (st_chunks s') (chunk_table st) = Inr (insert_or_ignore cr_chunk_id r t)"
    using ins t by (auto simp: insert_chunk_def r_def)
  have pk: "pk_ok cr_chunk_id t" using assms(1) t by (rule store_ok_tables)
  have "fetch_key cr_chunk_id t c' = Some r0 \<Longrightarrow>
      fetch_key cr_chunk_id (insert_or_ignore cr_chunk_id r t) c' = Some r0" for r0
    by (rule ignore_table.immutable [OF pk])
  moreover have "fetch_key cr_chunk_id t c = None \<Longrightarrow>
      fetch_key cr_chunk_id (insert_or_ignore cr_chunk_id r t) c = Some r"
    using ignore_table.put_new [OF pk, of r] by (simp add: r_def)
  ultimately show ?thesis using t t' by (auto simp: get_stored_payload_def r_def)
qed

theorem insert_chunk_immutable_witness:
  "\<exists>s'. insert_chunk ''a'' ''z'' [] 0 ''new'' sample_store = Inr s'
     \<and> get_stored_payload s' ''a'' ''z'' = Inr (Some (''new'', [], 0))
     \<and> get_stored_payload s' ''a'' ''x'' = Inr (Some (''shared'', [''A''], 1))"
proof -
  obtain s' where s': "insert_chunk ''a'' ''z'' [] 0 ''new'' sample_store = Inr s'"
    by (simp add: insert_chunk_def sample_tables)
  have "get_stored_payload sample_store ''a'' ''z'' = Inr None"
    and "get_stored_payload sample_store ''a'' ''x'' = Inr (Some (''shared'', [''A''], 1))"
    by (simp_all add: get_stored_payload_def sample_tables sample_contents_def)
  with insert_chunk_immutable [OF sample_store_ok s'] s' show ?thesis by blast
qed

section \<open>Checkpoint cursors\<close>

text \<open>The boundary \<open>SourceCursorStoreProtocol\<close>: what a source runtime relies on.\<close>

locale cursor_store =
  fixes get :: "'s \<Rightarrow> string \<Rightarrow> checkpoint_row option"
    and commit :: "timestamp \<Rightarrow> string \<Rightarrow> string option \<Rightarrow> (string, json) dict option \<Rightarrow> 's \<Rightarrow> 's"
    and record_err :: "string \<Rightarrow> string \<Rightarrow> 's \<Rightarrow> 's"
  assumes get_commit: "\<exists>row. get (commit now ns c m s) ns = Some row \<and> ck_checkpoint_cursor row = c
      \<and> ck_last_success_at row = Some now \<and> ck_last_error row = None"
    and get_commit_other: "ns' \<noteq> ns \<Longrightarrow> get (commit now ns c m s) ns' = get s ns'"
    and get_error_other: "ns' \<noteq> ns \<Longrightarrow> get (record_err ns e s) ns' = get s ns'"
    and get_error: "get s ns = Some row \<Longrightarrow>
      get (record_err ns e s) ns = Some (row\<lparr>ck_last_error := Some e\<rparr>)"
begin

definition cursor :: "'s \<Rightarrow> string \<Rightarrow> string option" where
  "cursor s ns = (case get s ns of None \<Rightarrow> None | Some row \<Rightarrow> ck_checkpoint_cursor row)"

lemma errors_keep_row:
  "get s ns = Some row \<Longrightarrow> \<exists>e. get (fold (\<lambda>(n, e). record_err n e) errs s) ns =
      Some (row\<lparr>ck_last_error := e\<rparr>)"
proof (induction errs arbitrary: s row)
  case Nil
  then show ?case by (intro exI [of _ "ck_last_error row"]) simp
next
  case (Cons p errs)
  obtain n e where p: "p = (n, e)" by (cases p)
  show ?case
  proof (cases "n = ns")
    case True
    with Cons.prems get_error have "get (record_err n e s) ns = Some (row\<lparr>ck_last_error := Some e\<rparr>)"
      by simp
    from Cons.IH [OF this] show ?thesis by (simp add: p)
  next
    case False
    with Cons.prems get_error_other have "get (record_err n e s) ns = Some row" by simp
    from Cons.IH [OF this] show ?thesis by (simp add: p)
  qed
qed

lemma cursor_after_errors:
  "\<exists>row. get (fold (\<lambda>(n, e). record_err n e) errs (commit now ns c m s)) ns = Some row
     \<and> ck_checkpoint_cursor row = c \<and> ck_last_success_at row = Some now"
proof -
  obtain row where row: "get (commit now ns c m s) ns = Some row" "ck_checkpoint_cursor row = c"
      "ck_last_success_at row = Some now"
    using get_commit by blast
  with errors_keep_row [OF row(1)] show ?thesis by fastforce
qed

end

interpretation sqlite_cursors: cursor_store get_source_checkpoint commit_source_checkpoint
    record_source_checkpoint_error
  by unfold_locales
    (auto simp: get_source_checkpoint_def commit_source_checkpoint_def
      record_source_checkpoint_error_def fetch_upsert split: option.splits dest: fetch_key_key)

text \<open>However many errors are recorded after a commit, for this source or others, the
  committed cursor and its success time stay what they were.\<close>

theorem checkpoint_cursor_survives_errors:
  "\<exists>row. get_source_checkpoint
      (fold (\<lambda>(n, e). record_source_checkpoint_error n e) errs
        (commit_source_checkpoint now ns c m s)) ns = Some row
     \<and> ck_checkpoint_cursor row = c \<and> ck_last_success_at row = Some now"
  by (rule sqlite_cursors.cursor_after_errors)

section \<open>Binding backfill\<close>

lemma length_fold_ignore:
  "length t \<le> length (fold (insert_or_ignore key) rs t)"
proof (induction rs arbitrary: t)
  case Nil
  then show ?case by simp
next
  case (Cons r rs)
  have "length t \<le> length (insert_or_ignore key r t)" by (simp add: insert_or_ignore_def)
  also have "\<dots> \<le> length (fold (insert_or_ignore key) rs (insert_or_ignore key r t))"
    by (rule Cons.IH)
  finally show ?case by simp
qed

lemma fold_ignore_present:
  "key ` set rs \<subseteq> key ` set t \<Longrightarrow> fold (insert_or_ignore key) rs t = t"
  by (induction rs) (auto simp: insert_or_ignore_def)

lemma fold_ignore_covers: "key ` set rs \<subseteq> key ` set (fold (insert_or_ignore key) rs t)"
proof -
  have "\<And>k. k \<in> key ` set rs \<or> k \<in> key ` set t \<Longrightarrow>
      k \<in> key ` set (fold (insert_or_ignore key) rs t)"
  proof (induction rs arbitrary: t)
    case Nil
    then show ?case by simp
  next
    case (Cons r rs)
    have "k \<in> key ` set rs \<or> k \<in> key ` set (insert_or_ignore key r t)"
      using Cons.prems by (auto simp: insert_or_ignore_def)
    then show ?case using Cons.IH by simp
  qed
  then show ?thesis by blast
qed

lemma binding_key_of_document [simp]: "binding_key (binding_of_document d) = doc_key d"
  by (simp add: binding_key_def binding_of_document_def doc_key_def)

text \<open>The binding backfill never changes an existing binding (an inactive one stays
  inactive), gives every source document a binding, and is idempotent: a second run
  inserts nothing and leaves the store as it is.\<close>

theorem backfill_bindings_spec:
  assumes ok: "store_ok s" and run: "backfill_resource_bindings_from_source_documents s = (n, s')"
  shows "(\<forall>k b. fetch_key binding_key (st_bindings s) k = Some b \<longrightarrow>
            fetch_key binding_key (st_bindings s') k = Some b)
     \<and> (\<forall>d \<in> set (st_documents s). fetch_key binding_key (st_bindings s') (doc_key d) \<noteq> None)
     \<and> backfill_resource_bindings_from_source_documents s' = (0, s')"
proof -
  let ?rs = "map binding_of_document (st_documents s)"
  have s': "s' = s\<lparr>st_bindings := fold (insert_or_ignore binding_key) ?rs (st_bindings s)\<rparr>"
    using run by (auto simp: backfill_resource_bindings_from_source_documents_def Let_def)
  have pk: "pk_ok binding_key (st_bindings s)" using ok by (simp add: store_ok_def)
  have covers: "doc_key ` set (st_documents s) \<subseteq> binding_key ` set (st_bindings s')"
    using fold_ignore_covers [of binding_key ?rs "st_bindings s"] by (simp add: s' image_image)
  have "fold (insert_or_ignore binding_key) ?rs (st_bindings s') = st_bindings s'"
    using covers by (intro fold_ignore_present) (simp add: image_image)
  then have twice: "backfill_resource_bindings_from_source_documents s' = (0, s')"
    by (simp add: backfill_resource_bindings_from_source_documents_def Let_def s')
  have "\<forall>d \<in> set (st_documents s). fetch_key binding_key (st_bindings s') (doc_key d) \<noteq> None"
    using covers by (auto simp: fetch_key_None_iff)
  then show ?thesis
    using twice ignore_table.fold_immutable [OF pk] by (simp add: s')
qed

theorem backfill_bindings_spec_witness:
  "\<exists>s'. backfill_resource_bindings_from_source_documents sample_store = (1, s')
     \<and> backfill_resource_bindings_from_source_documents s' = (0, s')"
proof -
  obtain s' where s': "backfill_resource_bindings_from_source_documents sample_store = (1, s')"
    by (simp add: backfill_resource_bindings_from_source_documents_def Let_def sample_defs
        insert_or_ignore_def binding_key_def binding_of_document_def)
  with backfill_bindings_spec [OF sample_store_ok s'] show ?thesis by blast
qed

section \<open>Binding state\<close>

text \<open>Switching a binding changes its activity and unbind time and nothing else: an
  active binding has no unbind time, a deactivated one always has, its retained
  identity and fingerprints stay, and no other binding changes.\<close>

theorem set_resource_binding_active_spec:
  assumes "fetch_key binding_key (st_bindings s) (ns, ref) = Some b"
    and "s' = set_resource_binding_active now ns ref act unbound s"
  shows "\<exists>b'. fetch_key binding_key (st_bindings s') (ns, ref) = Some b'
     \<and> rb_active b' = act \<and> (rb_unbound_at b' = None \<longleftrightarrow> act)
     \<and> b'\<lparr>rb_active := rb_active b, rb_unbound_at := rb_unbound_at b\<rparr> = b
     \<and> is_resource_binding_active s' ns ref = act
     \<and> (\<forall>k. k \<noteq> (ns, ref) \<longrightarrow>
           fetch_key binding_key (st_bindings s') k = fetch_key binding_key (st_bindings s) k)"
proof -
  define u where "u = (if act then None else Some (case unbound of Some t \<Rightarrow> t | None \<Rightarrow> now))"
  let ?f = "\<lambda>b. b\<lparr>rb_active := act, rb_unbound_at := u\<rparr>"
  have upd: "fetch_key binding_key (st_bindings s') k =
      map_option (\<lambda>b. if binding_key b = (ns, ref) then ?f b else b)
        (fetch_key binding_key (st_bindings s) k)" for k
    unfolding assms(2) set_resource_binding_active_def Let_def u_def [symmetric]
    by (simp add: fetch_update_where binding_key_def)
  have key: "binding_key b = (ns, ref)" using assms(1) by (rule fetch_key_key)
  with upd assms(1) have here: "fetch_key binding_key (st_bindings s') (ns, ref) = Some (?f b)"
    by simp
  have other: "fetch_key binding_key (st_bindings s') k = fetch_key binding_key (st_bindings s) k"
    if "k \<noteq> (ns, ref)" for k
    using upd [of k] that by (cases "fetch_key binding_key (st_bindings s) k")
      (auto dest: fetch_key_key)
  from here other show ?thesis
    by (intro exI [of _ "?f b"]) (simp add: u_def is_resource_binding_active_def)
qed

theorem set_resource_binding_active_spec_witness:
  "is_resource_binding_active
     (set_resource_binding_active 9 ''filesystem'' ''f.md'' True None sample_store)
     ''filesystem'' ''f.md''"
proof -
  have "fetch_key binding_key (st_bindings sample_store) (''filesystem'', ''f.md'')
      = Some sample_binding"
    by (simp add: sample_defs binding_key_def)
  from set_resource_binding_active_spec [OF this refl, where act = True and now = 9 and unbound = None]
  show ?thesis by blast
qed

lemma sort_key_hd_least:
  assumes "sort_key f xs = y # ys"
  shows "y \<in> set xs \<and> (\<forall>x \<in> set xs. f y \<le> f x)"
proof -
  have "set (y # ys) = set xs" by (metis assms set_sort)
  moreover have "sorted (map f (y # ys))" by (metis assms sorted_sort_key)
  ultimately show ?thesis by auto
qed

text \<open>The retained binding found by fingerprints is inactive, carries both
  fingerprints, and is the most recently bound of those; nothing is found only if no
  inactive binding carries them.\<close>

theorem inactive_binding_lookup_spec:
  assumes "get_inactive_resource_binding_by_fingerprints s ns cfp mfp = Inr res"
  shows "case res of
       None \<Rightarrow> \<not> (\<exists>b \<in> set (st_bindings s). rb_namespace b = ns \<and> rb_content_fingerprint b = cfp
                  \<and> rb_metadata_fingerprint b = mfp \<and> \<not> rb_active b)
     | Some b \<Rightarrow> b \<in> set (st_bindings s) \<and> rb_namespace b = ns \<and> \<not> rb_active b
         \<and> rb_content_fingerprint b = cfp \<and> rb_metadata_fingerprint b = mfp
         \<and> (\<forall>b' \<in> set (st_bindings s). rb_namespace b' = ns \<and> rb_content_fingerprint b' = cfp
              \<and> rb_metadata_fingerprint b' = mfp \<and> \<not> rb_active b' \<longrightarrow> rb_bound_at b' \<le> rb_bound_at b)"
proof -
  let ?P = "\<lambda>b. rb_namespace b = ns \<and> rb_content_fingerprint b = cfp
            \<and> rb_metadata_fingerprint b = mfp \<and> \<not> rb_active b"
  let ?k = "\<lambda>b. (- rb_bound_at b, rb_resource_ref b)"
  show ?thesis
  proof (cases "sort_key ?k (filter ?P (st_bindings s))")
    case Nil
    have "filter ?P (st_bindings s) = []"
      using arg_cong [OF Nil, of set] unfolding set_sort by simp
    then have "\<not> (\<exists>b \<in> set (st_bindings s). ?P b)"
      by (simp add: filter_empty_conv)
    with assms Nil show ?thesis
      by (simp add: get_inactive_resource_binding_by_fingerprints_def)
  next
    case (Cons y ys)
    obtain y' where v: "validate_resource_binding y = Inr y'" and "res = Some y'"
      using assms unfolding get_inactive_resource_binding_by_fingerprints_def Cons list.case
        try_bind_Inr_iff by auto
    from v have "y' = y" by (simp add: validate_resource_binding_ok)
    with \<open>res = Some y'\<close> have res: "res = Some y" by simp
    have y: "y \<in> set (st_bindings s) \<and> ?P y"
      and least: "\<forall>x \<in> set (filter ?P (st_bindings s)). ?k y \<le> ?k x"
      using sort_key_hd_least [OF Cons] by simp_all
    have "rb_bound_at b' \<le> rb_bound_at y" if "b' \<in> set (st_bindings s)" "?P b'" for b'
    proof -
      from that have "b' \<in> set (filter ?P (st_bindings s))" by simp
      with least have "?k y \<le> ?k b'" by blast
      then show ?thesis by (auto simp: less_eq_prod_def)
    qed
    with y show ?thesis unfolding res option.case by blast
  qed
qed

theorem inactive_binding_lookup_spec_witness:
  "\<exists>b. get_inactive_resource_binding_by_fingerprints sample_store ''filesystem'' ''c0'' ''m0''
       = Inr (Some b) \<and> b \<in> set (st_bindings sample_store) \<and> \<not> rb_active b"
proof -
  have found: "get_inactive_resource_binding_by_fingerprints sample_store ''filesystem'' ''c0'' ''m0''
      = Inr (Some sample_binding)"
    by (simp add: get_inactive_resource_binding_by_fingerprints_def sample_defs
        validate_resource_binding_def make_ref_def)
  from inactive_binding_lookup_spec [OF this] found show ?thesis by simp
qed

end
