(* ===== verification/Search_Laws.thy ===== *)
theory Search_Laws
  imports Search_Pool Metadata_Contracts
begin

text \<open>
  What search promises: enrichment only appends, a candidate is visible exactly when
  its document has an active binding, the over-fetching loop ends, and blending
  reranker scores reorders and loses nothing.
\<close>

section \<open>Provenance reads\<close>

lemma first_row_fold:
  "dict_get (fold (\<lambda>r d. if pr_chunk_id r \<in> set (dict_keys d) then d
                 else dict_set (pr_chunk_id r) (provenance_of_row r) d) rows d) i
   = (case dict_get d i of Some p \<Rightarrow> Some p
      | None \<Rightarrow> map_option provenance_of_row (find (\<lambda>r. pr_chunk_id r = i) rows))"
proof (induction rows arbitrary: d)
  case Nil
  then show ?case by (simp split: option.splits)
next
  case (Cons r rows)
  show ?case
  proof (cases "dict_get d (pr_chunk_id r)")
    case None
    then have "pr_chunk_id r \<notin> fst ` set d" by (simp add: map_of_eq_None_iff)
    with None Cons.IH show ?thesis by (auto split: option.splits)
  next
    case (Some p)
    then have "pr_chunk_id r \<in> fst ` set d" by (metis map_of_eq_None_iff option.distinct(1))
    with Some Cons.IH show ?thesis by (auto split: option.splits)
  qed
qed

lemma first_row_get:
  "dict_get (first_row_per_chunk rows) i
     = map_option provenance_of_row (find (\<lambda>r. pr_chunk_id r = i) rows)"
  unfolding first_row_per_chunk_def first_row_fold by simp

lemma first_row_keys: "i \<in> set (dict_keys (first_row_per_chunk rows)) \<longleftrightarrow> i \<in> pr_chunk_id ` set rows"
proof -
  have "dict_get (first_row_per_chunk rows) i = None \<longleftrightarrow> i \<notin> pr_chunk_id ` set rows"
    by (auto simp: first_row_get find_None_iff_set)
  then show ?thesis by (simp add: map_of_eq_None_iff)
qed

lemma find_sort_key_least:
  assumes "find P (sort_key k xs) = Some x"
  shows "x \<in> set xs \<and> P x \<and> (\<forall>y \<in> set xs. P y \<longrightarrow> k x \<le> k y)"
proof -
  let ?s = "sort_key k xs"
  obtain i where i: "i < length ?s" "P (?s ! i)" "x = ?s ! i" "\<forall>j < i. \<not> P (?s ! j)"
    using assms by (auto simp: find_Some_iff)
  have sorted: "sorted (map k ?s)" by simp
  have "k x \<le> k y" if "y \<in> set xs" "P y" for y
  proof -
    from that(1) obtain j where j: "j < length ?s" "?s ! j = y"
      by (metis in_set_conv_nth set_sort)
    with i(4) that(2) have "i \<le> j" by (meson linorder_not_le)
    then have "map k ?s ! i \<le> map k ?s ! j"
      using sorted j(1) by (intro sorted_nth_mono) auto
    with i(1,3) j show ?thesis by simp
  qed
  moreover have "x \<in> set xs" using i(1,3) by (metis nth_mem set_sort)
  ultimately show ?thesis using i(2,3) by simp
qed

definition active_row :: "store \<Rightarrow> prov_row \<Rightarrow> bool" where
  "active_row s r \<longleftrightarrow> (\<exists>b \<in> set (st_bindings s). rb_namespace b = pr_namespace r
      \<and> rb_document_ref b = pr_document_ref r \<and> rb_active b)"

lemma join_active_rows:
  "set (join_bindings rb_active ps (st_bindings s)) = {r \<in> set ps. active_row s r}"
  by (auto simp: join_bindings_def active_row_def)

lemma prov_rows_ensure [simp]:
  "prov_rows st (ensure_chunk_source_provenance_table st' s) = prov_rows st s"
  by (auto simp: prov_rows_def ensure_chunk_source_provenance_table_def ensure_table_def
      split: option.splits)

lemma ensure_prov_bindings [simp]:
  "st_bindings (ensure_chunk_source_provenance_table st s) = st_bindings s"
  by (simp add: ensure_chunk_source_provenance_table_def)

lemma active_row_ensure [simp]:
  "active_row (ensure_chunk_source_provenance_table st s) = active_row s"
  by (simp add: active_row_def fun_eq_iff)

text \<open>The active provenance of a chunk comes from a provenance row whose document has an
  active binding, and is the least such row by (chunk, namespace, document); a chunk
  without such a row has none.\<close>

theorem active_provenance_spec:
  assumes "i \<in> set ids"
  shows "case dict_get (fst (get_active_chunk_provenance_for_chunk_ids strategy ids s)) i of
      None \<Rightarrow> \<forall>r \<in> set (prov_rows strategy s). pr_chunk_id r = i \<longrightarrow> \<not> active_row s r
    | Some p \<Rightarrow> \<exists>r \<in> set (prov_rows strategy s). pr_chunk_id r = i \<and> active_row s r
        \<and> p = provenance_of_row r
        \<and> (\<forall>r' \<in> set (prov_rows strategy s). pr_chunk_id r' = i \<and> active_row s r' \<longrightarrow>
             prov_key r \<le> prov_key r')"
proof -
  let ?rows = "filter (\<lambda>r. pr_chunk_id r \<in> set ids)
      (join_bindings rb_active (prov_rows strategy s) (st_bindings s))"
  have rows: "set ?rows = {r \<in> set (prov_rows strategy s). pr_chunk_id r \<in> set ids \<and> active_row s r}"
    by (auto simp: join_active_rows)
  have "ids \<noteq> []" using assms by auto
  then have get: "dict_get (fst (get_active_chunk_provenance_for_chunk_ids strategy ids s)) i =
      map_option provenance_of_row (find (\<lambda>r. pr_chunk_id r = i) (sort_key prov_key ?rows))"
    by (simp add: get_active_chunk_provenance_for_chunk_ids_def Let_def first_row_get)
  show ?thesis
  proof (cases "find (\<lambda>r. pr_chunk_id r = i) (sort_key prov_key ?rows)")
    case None
    then have "\<forall>r \<in> set ?rows. pr_chunk_id r \<noteq> i" by (simp add: find_None_iff_set)
    then show ?thesis using assms unfolding get None rows by auto
  next
    case (Some r)
    from find_sort_key_least [OF Some] show ?thesis
      using assms unfolding get Some rows by auto
  qed
qed

theorem active_provenance_spec_witness:
  "case dict_get (fst (get_active_chunk_provenance_for_chunk_ids ''a'' [''y''] sample_store)) ''y'' of
      None \<Rightarrow> \<forall>r \<in> set (prov_rows ''a'' sample_store). pr_chunk_id r = ''y'' \<longrightarrow> \<not> active_row sample_store r
    | Some p \<Rightarrow> \<exists>r \<in> set (prov_rows ''a'' sample_store). pr_chunk_id r = ''y'' \<and> active_row sample_store r
        \<and> p = provenance_of_row r
        \<and> (\<forall>r' \<in> set (prov_rows ''a'' sample_store). pr_chunk_id r' = ''y'' \<and> active_row sample_store r'
             \<longrightarrow> prov_key r \<le> prov_key r')"
  by (rule active_provenance_spec) simp

section \<open>The contract of a provenance reader\<close>

locale provenance_reader =
  fixes read_all :: "'s provenance_read"
    and read_active :: "'s provenance_read"
    and known :: "'s \<Rightarrow> string \<Rightarrow> string \<Rightarrow> bool"
    and visible :: "'s \<Rightarrow> string \<Rightarrow> string \<Rightarrow> bool"
  assumes all_keys: "i \<in> set (dict_keys (fst (read_all st ids s))) \<longleftrightarrow> i \<in> set ids \<and> known s st i"
    and active_keys: "i \<in> set (dict_keys (fst (read_active st ids s))) \<longleftrightarrow> i \<in> set ids \<and> visible s st i"
    and visible_known: "visible s st i \<Longrightarrow> known s st i"
    and all_frame: "visible (snd (read_all st ids s)) = visible s"
begin

lemma filter_active_dicts:
  assumes "\<forall>i \<in> set ids. i \<in> set (dict_keys act) \<longleftrightarrow> visible s st i"
    and "\<forall>i \<in> set ids. i \<in> set (dict_keys all_p) \<longleftrightarrow> known s st i"
  shows "fst ` set fused \<subseteq> set ids \<Longrightarrow> filter_active act all_p fused =
     (case find (\<lambda>(i, x). \<not> known s st i) fused of
        Some (i, x) \<Rightarrow> Inl (ValueError (''missing source provenance for chunk_id='' @ i))
      | None \<Rightarrow> Inr (filter (\<lambda>(i, x). visible s st i) fused,
                    length (filter (\<lambda>(i, x). \<not> visible s st i) fused)))"
proof (induction fused)
  case Nil
  then show ?case by simp
next
  case (Cons h fused)
  obtain i x where h: "h = (i, x)" by (cases h)
  from Cons.prems have i: "i \<in> set ids" by (simp add: h)
  with assms have act: "i \<in> set (dict_keys act) \<longleftrightarrow> visible s st i"
    and all_p: "i \<in> set (dict_keys all_p) \<longleftrightarrow> known s st i" by auto
  from Cons have IH: "filter_active act all_p fused =
     (case find (\<lambda>(i, x). \<not> known s st i) fused of
        Some (i, x) \<Rightarrow> Inl (ValueError (''missing source provenance for chunk_id='' @ i))
      | None \<Rightarrow> Inr (filter (\<lambda>(i, x). visible s st i) fused,
                    length (filter (\<lambda>(i, x). \<not> visible s st i) fused)))" by simp
  show ?case
  proof (cases "visible s st i")
    case True
    with visible_known have "known s st i" .
    with True IH act show ?thesis by (auto simp: h split: option.splits)
  next
    case False
    with IH act all_p show ?thesis by (auto simp: h split: option.splits)
  qed
qed

lemma filter_active_fused:
  "filter_active_fused_candidates read_all read_active st fused s =
     (case find (\<lambda>(i, x). \<not> known s st i) fused of
        Some (i, x) \<Rightarrow> Inl (ValueError (''missing source provenance for chunk_id='' @ i))
      | None \<Rightarrow>
          Inr ((filter (\<lambda>(i, x). visible s st i) fused,
                fst (read_active st (map fst fused) (snd (read_all st (map fst fused) s))),
                length (filter (\<lambda>(i, x). \<not> visible s st i) fused)),
               snd (read_active st (map fst fused) (snd (read_all st (map fst fused) s)))))"
proof -
  let ?ids = "map fst fused"
  obtain all_p s1 where a: "read_all st ?ids s = (all_p, s1)" by fastforce
  obtain act s2 where b: "read_active st ?ids s1 = (act, s2)" by fastforce
  have "\<forall>i \<in> set ?ids. i \<in> set (dict_keys act) \<longleftrightarrow> visible s st i"
    using active_keys [of _ st ?ids s1] all_frame [of st ?ids s] a b by auto
  moreover have "\<forall>i \<in> set ?ids. i \<in> set (dict_keys all_p) \<longleftrightarrow> known s st i"
    using all_keys [of _ st ?ids s] a by auto
  ultimately have "filter_active act all_p fused =
     (case find (\<lambda>(i, x). \<not> known s st i) fused of
        Some (i, x) \<Rightarrow> Inl (ValueError (''missing source provenance for chunk_id='' @ i))
      | None \<Rightarrow> Inr (filter (\<lambda>(i, x). visible s st i) fused,
                    length (filter (\<lambda>(i, x). \<not> visible s st i) fused)))"
    by (intro filter_active_dicts [where ids = ?ids]) auto
  then show ?thesis
    by (auto simp: filter_active_fused_candidates_def Let_def a b split: option.splits)
qed

end

definition chunk_known :: "store \<Rightarrow> string \<Rightarrow> string \<Rightarrow> bool" where
  "chunk_known s st i \<longleftrightarrow> (\<exists>r \<in> set (prov_rows st s). pr_chunk_id r = i)"

definition chunk_visible :: "store \<Rightarrow> string \<Rightarrow> string \<Rightarrow> bool" where
  "chunk_visible s st i \<longleftrightarrow> (\<exists>r \<in> set (prov_rows st s). pr_chunk_id r = i \<and> active_row s r)"

lemma all_provenance_keys:
  "i \<in> set (dict_keys (fst (get_chunk_provenance_for_chunk_ids st ids s)))
     \<longleftrightarrow> i \<in> set ids \<and> chunk_known s st i"
proof (cases "ids = []")
  case False
  then show ?thesis
    unfolding get_chunk_provenance_for_chunk_ids_def Let_def if_not_P [OF False] fst_conv first_row_keys
    by (auto simp: chunk_known_def)
qed (simp add: get_chunk_provenance_for_chunk_ids_def)

lemma active_provenance_keys:
  "i \<in> set (dict_keys (fst (get_active_chunk_provenance_for_chunk_ids st ids s)))
     \<longleftrightarrow> i \<in> set ids \<and> chunk_visible s st i"
proof (cases "ids = []")
  case False
  then show ?thesis
    unfolding get_active_chunk_provenance_for_chunk_ids_def Let_def if_not_P [OF False] fst_conv
      first_row_keys
    by (auto simp: chunk_visible_def join_active_rows)
qed (simp add: get_active_chunk_provenance_for_chunk_ids_def)

interpretation sqlite_provenance: provenance_reader get_chunk_provenance_for_chunk_ids
    get_active_chunk_provenance_for_chunk_ids chunk_known chunk_visible
proof unfold_locales
  show "chunk_visible (snd (get_chunk_provenance_for_chunk_ids st ids s)) = chunk_visible s" for st ids s
    by (auto simp: get_chunk_provenance_for_chunk_ids_def Let_def chunk_visible_def fun_eq_iff)
qed (fact all_provenance_keys active_provenance_keys
    | auto simp: chunk_visible_def chunk_known_def)+

text \<open>Over SQLite the active filter shows a fused hit exactly when some provenance row of its chunk
  belongs to a document with an active binding.\<close>

lemma sqlite_filter_active:
  "case filter_active_fused_candidates get_chunk_provenance_for_chunk_ids
          get_active_chunk_provenance_for_chunk_ids st fused s of
     Inl e \<Rightarrow> \<exists>(i, x) \<in> set fused. \<not> chunk_known s st i
   | Inr ((filtered, active, inactive), s') \<Rightarrow>
       (\<forall>(i, x) \<in> set fused. chunk_known s st i)
       \<and> filtered = filter (\<lambda>(i, x). chunk_visible s st i) fused
       \<and> length filtered + inactive = length fused"
proof (cases "find (\<lambda>(i, x). \<not> chunk_known s st i) fused")
  case None
  then have "\<forall>(i, x) \<in> set fused. chunk_known s st i" by (auto simp: find_None_iff_set)
  moreover have "length (filter (\<lambda>(i, x). chunk_visible s st i) fused)
      + length (filter (\<lambda>(i, x). \<not> chunk_visible s st i) fused) = length fused"
    using sum_length_filter_compl [of "\<lambda>(i, x). chunk_visible s st i" fused]
    by (simp add: case_prod_unfold)
  ultimately show ?thesis
    unfolding sqlite_provenance.filter_active_fused None by simp
next
  case (Some h)
  then have "\<exists>(i, x) \<in> set fused. \<not> chunk_known s st i" by (auto dest!: find_Some_iff_set)
  then show ?thesis unfolding sqlite_provenance.filter_active_fused Some
    by (cases h) simp
qed

section \<open>Graph enrichment\<close>

lemma append_graph_hits_spec:
  "\<exists>extra. append_graph_hits score fused hs = fused @ extra \<and> (\<forall>h \<in> set extra. snd h = score)
     \<and> fst ` set (fused @ extra) = fst ` set fused \<union> fst ` set hs
     \<and> (distinct (map fst fused) \<longrightarrow> distinct (map fst (fused @ extra)))"
proof (induction score fused hs rule: append_graph_hits.induct)
  case (1 score fused)
  then show ?case by simp
next
  case (2 score fused cid g hs)
  show ?case
  proof (cases "cid \<in> set (map fst fused)")
    case True
    from "2.IH"(1) [OF True] obtain extra where
      "append_graph_hits score fused hs = fused @ extra" "\<forall>h \<in> set extra. snd h = score"
      "fst ` set (fused @ extra) = fst ` set fused \<union> fst ` set hs"
      "distinct (map fst fused) \<longrightarrow> distinct (map fst (fused @ extra))" by blast
    with True show ?thesis by (intro exI [of _ extra]) auto
  next
    case False
    from "2.IH"(2) [OF False] obtain extra where extra:
      "append_graph_hits score (fused @ [(cid, score)]) hs = (fused @ [(cid, score)]) @ extra"
      "\<forall>h \<in> set extra. snd h = score"
      "fst ` set ((fused @ [(cid, score)]) @ extra) = fst ` set (fused @ [(cid, score)]) \<union> fst ` set hs"
      "distinct (map fst (fused @ [(cid, score)])) \<longrightarrow>
         distinct (map fst ((fused @ [(cid, score)]) @ extra))" by blast
    with False show ?thesis by (intro exI [of _ "(cid, score) # extra"]) auto
  qed
qed

lemma running_sum_fixed:
  "(\<And>x. rnd (rnd x) = rnd x) \<Longrightarrow> rnd acc = acc \<Longrightarrow> rnd (running_sum rnd xs acc) = running_sum rnd xs acc"
  by (induction xs arbitrary: acc) auto

lemma running_sum_nonneg:
  assumes "mono rnd" and "rnd 0 = 0"
  shows "0 \<le> acc \<Longrightarrow> \<forall>x \<in> set xs. 0 \<le> x \<Longrightarrow> 0 \<le> running_sum rnd xs acc"
proof (induction xs arbitrary: acc)
  case Nil
  then show ?case by simp
next
  case (Cons x xs)
  then have "rnd 0 \<le> rnd (acc + x)" by (intro monoD [OF assms(1)]) simp
  with Cons assms(2) show ?case by simp
qed

lemma unweighted_scores:
  assumes "mono rnd" and "\<And>x. rnd (rnd x) = rnd x" and "rnd 0 = 0" and "0 \<le> k"
    and "fuse_results rnd ranked k None = Inr fused" and "(i, x) \<in> set fused"
  shows "0 \<le> x \<and> rnd x = x"
proof -
  have x: "x = running_sum rnd (contributions rnd k [] ranked i) 0"
    using fuse_results_exact [OF assms(4), of rnd ranked None] assms(5,6) by auto
  have "\<forall>y \<in> set (contributions rnd k [] ranked i). 0 \<le> y"
    using hit_contributions_nonneg [OF assms(1,3), where w = 1 and k = k and rank = 1] assms(4)
    by (auto simp: contributions_def dict_get_default_def)
  then show ?thesis using running_sum_nonneg [OF assms(1,3)] running_sum_fixed [OF assms(2)] assms(3)
    by (simp add: x)
qed

lemma enrich_spec:
  assumes "enrich_with_graph rnd fused er graph_hits = (fused', er')"
    and sorted: "sorted_wrt (\<lambda>x y. snd y \<le> snd x) fused" and dist: "distinct (map fst fused)"
    and mono: "mono rnd" and nonneg: "\<forall>(i, x) \<in> set fused. 0 \<le> x \<and> rnd x = x" and ne: "fused \<noteq> []"
    and g: "''graph'' \<notin> set (dict_keys er)"
  shows "(\<exists>extra. fused' = fused @ extra) \<and> distinct (map fst fused')
    \<and> sorted_wrt (\<lambda>x y. snd y \<le> snd x) fused'
    \<and> (fst ` set fused = (\<Union>(e, hs) \<in> set er. fst ` set hs) \<longrightarrow>
        fst ` set fused' = (\<Union>(e, hs) \<in> set er'. fst ` set hs))"
proof (cases "graph_hits = []")
  case True
  with assms show ?thesis by (auto simp: enrich_with_graph_def)
next
  case False
  define floor where "floor = rnd (snd (last fused) * (1/2))"
  from False assms(1) ne have f': "fused' = append_graph_hits floor fused graph_hits"
    and er': "er' = dict_set ''graph'' graph_hits er"
    by (auto simp: enrich_with_graph_def floor_def)
  obtain extra where extra: "fused' = fused @ extra" "\<forall>h \<in> set extra. snd h = floor"
    "fst ` set fused' = fst ` set fused \<union> fst ` set graph_hits" "distinct (map fst fused')"
    using append_graph_hits_spec [of floor fused graph_hits] dist unfolding f' by auto
  have last: "0 \<le> snd (last fused)" "rnd (snd (last fused)) = snd (last fused)"
    using bspec [OF nonneg last_in_set [OF ne]] by (simp_all add: case_prod_unfold)
  then have "floor \<le> rnd (snd (last fused))"
    unfolding floor_def by (intro monoD [OF mono]) simp
  then have "floor \<le> snd (last fused)" by (simp add: last)
  moreover have "snd (last fused) \<le> snd h" if "h \<in> set fused" for h
    using that sorted ne by (induction fused) auto
  ultimately have "\<forall>h \<in> set fused. floor \<le> snd h" by (meson order_trans)
  moreover have "sorted_wrt (\<lambda>x y. snd y \<le> snd x) extra"
    using extra(2) by (induction extra) auto
  ultimately have "sorted_wrt (\<lambda>x y. snd y \<le> snd x) fused'"
    using sorted extra(1,2) by (auto simp: sorted_wrt_append)
  moreover have "set er' = set er \<union> {(''graph'', graph_hits)}"
    unfolding er' using g by (induction er) auto
  ultimately show ?thesis using extra by auto
qed

lemma fuse_and_enrich_cases:
  assumes "fuse_and_enrich rnd k en q oq mode n sem kw gd = Inr pool"
    and "fuse_results rnd (primary_results sem kw gd) k None = Inr fused"
  shows "((sem = [] \<and> kw = [] \<and> gd = [] \<and> po_fused pool = [] \<and> po_engine_results pool = [])
      \<or> (po_fused pool = fused \<and> po_engine_results pool = primary_results sem kw gd)
      \<or> (fused \<noteq> [] \<and> (\<exists>gh. enrich_with_graph rnd fused (primary_results sem kw gd) gh
            = (po_fused pool, po_engine_results pool))))
    \<and> po_semantic_hits pool = sem \<and> po_keyword_hits pool = kw \<and> po_graph_direct_hits pool = gd"
proof (cases "sem = [] \<and> kw = [] \<and> gd = []")
  case True
  then have "fuse_and_enrich rnd k en q oq mode n sem kw gd = Inr
      \<lparr>po_search_query = q, po_original_query = oq, po_fused = [], po_engine_results = [],
       po_semantic_hits = [], po_keyword_hits = [], po_graph_direct_hits = [], po_pool_size = n\<rparr>"
    by (simp add: fuse_and_enrich_def)
  with assms(1) True show ?thesis by auto
next
  case False
  define gh where "gh = (case en_graph en q n (map fst (py_take n fused)) of Inl _ \<Rightarrow> [] | Inr hs \<Rightarrow> hs)"
  obtain f' er' where e: "enrich_with_graph rnd fused (primary_results sem kw gd) gh = (f', er')"
    by fastforce
  have "fuse_and_enrich rnd k en q oq mode n sem kw gd = Inr
      \<lparr>po_search_query = q, po_original_query = oq,
       po_fused = (if mode \<in> {GRAPH, HYBRID} \<and> fused \<noteq> [] then f' else fused),
       po_engine_results = (if mode \<in> {GRAPH, HYBRID} \<and> fused \<noteq> [] then er'
          else primary_results sem kw gd),
       po_semantic_hits = sem, po_keyword_hits = kw, po_graph_direct_hits = gd, po_pool_size = n\<rparr>"
    unfolding fuse_and_enrich_def Let_def if_not_P [OF False] assms(2) try_bind.simps
      gh_def [symmetric] e by simp
  with assms(1) have pool: "po_fused pool = (if mode \<in> {GRAPH, HYBRID} \<and> fused \<noteq> [] then f' else fused)"
    "po_engine_results pool = (if mode \<in> {GRAPH, HYBRID} \<and> fused \<noteq> [] then er'
          else primary_results sem kw gd)"
    "po_semantic_hits pool = sem" "po_keyword_hits pool = kw" "po_graph_direct_hits pool = gd"
    by auto
  show ?thesis using e by (cases "mode \<in> {GRAPH, HYBRID} \<and> fused \<noteq> []") (auto simp: pool)
qed

text \<open>C9: The pool's ranking lists every chunk some engine found, once, in descending score
  order; graph enrichment only appends below the fusion of the primary engines, under
  any monotone rounding.\<close>

theorem collect_candidate_pool_spec:
  assumes "mono rnd" and "\<And>x. rnd (rnd x) = rnd x" and "rnd 0 = 0" and "0 \<le> k"
    and "collect_candidate_pool rnd k en q oq mode n = Inr pool"
  shows "distinct (map fst (po_fused pool)) \<and> sorted_wrt (\<lambda>x y. snd y \<le> snd x) (po_fused pool)
     \<and> fst ` set (po_fused pool) = (\<Union>(e, hs) \<in> set (po_engine_results pool). fst ` set hs)
     \<and> (\<exists>primary extra. po_fused pool = primary @ extra
          \<and> fuse_results rnd (primary_results (po_semantic_hits pool) (po_keyword_hits pool)
              (po_graph_direct_hits pool)) k None = Inr primary)"
proof -
  obtain sem kw gd where run: "fuse_and_enrich rnd k en q oq mode n sem kw gd = Inr pool"
    using assms(5) unfolding collect_candidate_pool_def try_bind_Inr_iff by blast
  let ?er = "primary_results sem kw gd"
  obtain fused where fused: "fuse_results rnd ?er k None = Inr fused"
    and dist: "distinct (map fst fused)" and ids: "fst ` set fused = (\<Union>(e, hs) \<in> set ?er. fst ` set hs)"
    and sorted: "sorted_wrt (\<lambda>x y. snd y \<le> snd x) fused"
    using fuse_results_exact [OF assms(4), of rnd ?er None] by blast
  have nonneg: "\<forall>(i, x) \<in> set fused. 0 \<le> x \<and> rnd x = x"
    using unweighted_scores [OF assms(1-4) fused] by blast
  have g: "''graph'' \<notin> set (dict_keys ?er)" by (auto simp: primary_results_def)
  have "(sem = [] \<and> kw = [] \<and> gd = [] \<and> po_fused pool = [] \<and> po_engine_results pool = [])
      \<or> (po_fused pool = fused \<and> po_engine_results pool = ?er)
      \<or> (fused \<noteq> [] \<and> (\<exists>gh. enrich_with_graph rnd fused ?er gh = (po_fused pool, po_engine_results pool)))"
    and hits: "po_semantic_hits pool = sem" "po_keyword_hits pool = kw" "po_graph_direct_hits pool = gd"
    using fuse_and_enrich_cases [OF run fused] by blast+
  then show ?thesis
  proof (elim disjE conjE exE)
    assume "sem = []" "kw = []" "gd = []" "po_fused pool = []" "po_engine_results pool = []"
    moreover from this fused have "fused = []"
      using ids by (simp add: primary_results_def)
    ultimately show ?thesis using fused by (simp add: hits)
  next
    assume "po_fused pool = fused" "po_engine_results pool = ?er"
    with dist ids sorted fused show ?thesis by (simp add: hits)
  next
    fix gh
    assume ne: "fused \<noteq> []" and e: "enrich_with_graph rnd fused ?er gh = (po_fused pool, po_engine_results pool)"
    from enrich_spec [OF e sorted dist assms(1) nonneg ne g] ids fused
    show ?thesis by (simp add: hits)
  qed
qed

theorem collect_candidate_pool_spec_witness:
  "\<exists>pool. collect_candidate_pool id 60
      \<lparr>en_semantic = \<lambda>q n. Inr [(''x'', 9), (''y'', 8)], en_keyword = \<lambda>q n. Inr [(''y'', 1)],
       en_graph_direct = \<lambda>q n. Inr [], en_graph = \<lambda>q n seeds. Inr [(''z'', 5)]\<rparr>
      ''query'' ''query'' HYBRID 10 = Inr pool
    \<and> distinct (map fst (po_fused pool)) \<and> sorted_wrt (\<lambda>x y. snd y \<le> snd x) (po_fused pool)"
proof -
  let ?en = "\<lparr>en_semantic = \<lambda>q n. Inr [(''x'', 9), (''y'', 8)], en_keyword = \<lambda>q n. Inr [(''y'', 1)],
       en_graph_direct = \<lambda>q n. Inr [], en_graph = \<lambda>q n seeds. Inr [(''z'', 5)]\<rparr> :: engines"
  obtain fused where "fuse_results id (primary_results [(''x'', 9), (''y'', 8)] [(''y'', 1)] []) 60 None
      = Inr fused"
    using fuse_results_exact [of 60 id] by fastforce
  then obtain pool where pool: "collect_candidate_pool id 60 ?en ''query'' ''query'' HYBRID 10 = Inr pool"
    by (cases "fused = []")
      (simp_all add: collect_candidate_pool_def fuse_and_enrich_def Let_def case_prod_unfold)
  have "mono (id :: rat \<Rightarrow> rat)" by (simp add: mono_def)
  from collect_candidate_pool_spec [OF this _ _ _ pool] pool show ?thesis by simp
qed

section \<open>The over-fetching loop\<close>

lemma collect_active_loop_returns:
  assumes bounded: "\<And>sz pool. collect sz = Inr pool \<Longrightarrow> length (po_fused pool) \<le> N"
  shows "nat (int N - prev) \<le> n \<Longrightarrow> 0 < sz \<Longrightarrow> sz0 \<le> sz \<Longrightarrow>
    (prev = -1 \<or> (\<exists>pool'. collect (sz div 2) = Inr pool' \<and> prev = int (length (po_fused pool')))) \<Longrightarrow>
    \<exists>r. collect_active_loop collect filt top_k prev sz s = Some r
     \<and> (case r of Inl e \<Rightarrow> True
        | Inr ((pool, filtered, active, inactive), s') \<Rightarrow>
            \<exists>sz \<ge> sz0. collect sz = Inr pool \<and> (top_k \<le> int (length filtered)
              \<or> int (length (po_fused pool)) < sz
              \<or> (\<exists>pool'. collect (sz div 2) = Inr pool'
                    \<and> length (po_fused pool) \<le> length (po_fused pool'))))"
proof (induction n arbitrary: prev sz s)
  case 0
  then have "int N \<le> prev" by simp
  show ?case
  proof (cases "collect sz")
    case (Inl e)
    then show ?thesis by (simp add: collect_active_loop.simps)
  next
    case (Inr pool)
    from bounded [OF Inr] \<open>int N \<le> prev\<close> have le: "int (length (po_fused pool)) \<le> prev" by simp
    with "0.prems"(4) obtain pool' where "collect (sz div 2) = Inr pool'"
      "length (po_fused pool) \<le> length (po_fused pool')" by auto
    with Inr le "0.prems"(2,3) show ?thesis
      by (auto simp: collect_active_loop.simps [of collect filt top_k prev sz] split: sum.splits)
  qed
next
  case (Suc n)
  show ?case
  proof (cases "collect sz")
    case (Inl e)
    then show ?thesis by (simp add: collect_active_loop.simps)
  next
    case (Inr pool)
    let ?len = "int (length (po_fused pool))"
    show ?thesis
    proof (cases "po_fused pool = []")
      case True
      with Inr Suc.prems(2,3) show ?thesis by (auto simp: collect_active_loop.simps)
    next
      case ne: False
      show ?thesis
      proof (cases "filt (po_fused pool) s")
        case (Inl e)
        with Inr ne show ?thesis by (simp add: collect_active_loop.simps)
      next
        case filt: (Inr r)
        obtain filtered active inactive s' where r: "r = ((filtered, active, inactive), s')"
          by (cases r; cases "fst r"; cases "snd (fst r)") auto
        show ?thesis
        proof (cases "top_k \<le> int (length filtered) \<or> ?len < sz \<or> ?len \<le> prev")
          case True
          have "prev = -1 \<or> (\<exists>pool'. collect (sz div 2) = Inr pool' \<and> prev = int (length (po_fused pool')))"
            by (rule Suc.prems(4))
          with True have stop: "top_k \<le> int (length filtered) \<or> ?len < sz
              \<or> (\<exists>pool'. collect (sz div 2) = Inr pool'
                    \<and> length (po_fused pool) \<le> length (po_fused pool'))"
            by auto
          have "collect_active_loop collect filt top_k prev sz s
              = Some (Inr ((pool, filtered, active, inactive), s'))"
            using True Inr ne filt r by (simp add: collect_active_loop.simps)
          with stop Inr Suc.prems(3) show ?thesis by auto
        next
          case False
          have step: "collect_active_loop collect filt top_k prev sz s
              = collect_active_loop collect filt top_k ?len (sz * 2) s'"
            using False Inr ne filt r by (subst collect_active_loop.simps) simp
          have "nat (int N - ?len) \<le> n" using Suc.prems(1) False bounded [OF Inr] by linarith
          from Suc.IH [OF this, of "sz * 2" s'] Inr Suc.prems(2,3) show ?thesis
            unfolding step by simp
        qed
      qed
    qed
  qed
qed

text \<open>C22: If the engines together have finitely many hits, the over-fetching loop returns;
  and when it returns fewer active hits than asked, the engines were exhausted: they
  gave less than the requested pool, or doubling the request gave nothing more.\<close>

theorem collect_active_candidate_pool_returns:
  assumes "\<And>sz pool. collect sz = Inr pool \<Longrightarrow> length (po_fused pool) \<le> N" and "0 \<le> top_k"
  shows "\<exists>r. collect_active_candidate_pool collect filt top_k pool_size s = Some r
     \<and> (case r of Inl e \<Rightarrow> True
        | Inr ((pool, filtered, active, inactive), s') \<Rightarrow>
            \<exists>sz \<ge> active_filter_pool_size top_k pool_size. collect sz = Inr pool
              \<and> (top_k \<le> int (length filtered)
                 \<or> int (length (po_fused pool)) < sz
                 \<or> (\<exists>pool'. collect (sz div 2) = Inr pool'
                       \<and> length (po_fused pool) \<le> length (po_fused pool'))))"
proof -
  have "0 < active_filter_pool_size top_k pool_size"
    using assms(2) by (simp add: active_filter_pool_size_def ACTIVE_FILTER_OVERFETCH_FACTOR_def)
  from collect_active_loop_returns [where N = N and n = "N + 1", OF assms(1) _ this order_refl, where prev = "-1"]
  show ?thesis unfolding collect_active_candidate_pool_def by (simp add: nat_add_distrib)
qed

theorem collect_active_candidate_pool_returns_witness:
  "\<exists>r. collect_active_candidate_pool
      (\<lambda>n. Inr \<lparr>po_search_query = [], po_original_query = [], po_fused = [(''x'', 1/2)],
         po_engine_results = [], po_semantic_hits = [], po_keyword_hits = [],
         po_graph_direct_hits = [], po_pool_size = n\<rparr>)
      (\<lambda>fused s. Inr (([], [], length fused), s)) 1 10 () = Some r"
  using collect_active_candidate_pool_returns [where N = 1 and top_k = 1 and pool_size = 10 and s = "()"
      and collect = "\<lambda>n. Inr \<lparr>po_search_query = [], po_original_query = [], po_fused = [(''x'', 1/2)],
         po_engine_results = [], po_semantic_hits = [], po_keyword_hits = [],
         po_graph_direct_hits = [], po_pool_size = n\<rparr>"
      and filt = "\<lambda>fused s. Inr (([], [], length fused), s)"] by auto

section \<open>Blending\<close>

lemma mset_blend:
  assumes "distinct (map fst fused)" and "distinct (map fst reranked)"
    and "fst ` set reranked \<subseteq> fst ` set fused" and ids: "map fst blended = map fst reranked"
  shows "mset (map fst (blended @ filter (\<lambda>(cid, x). cid \<notin> set (map fst blended)) fused))
       = mset (map fst fused)"
proof -
  let ?rest = "filter (\<lambda>(cid, x). cid \<notin> set (map fst blended)) fused"
  have "distinct (map fst ?rest)" using assms(1) by (rule distinct_map_filter_key)
  moreover have "distinct (map fst blended)" using assms(2) by (simp only: ids)
  moreover have "set (map fst blended) \<inter> set (map fst ?rest) = {}" by force
  ultimately have "distinct (map fst (blended @ ?rest))"
    unfolding map_append distinct_append by blast
  moreover have "set (map fst (blended @ ?rest)) = set (map fst fused)"
    using assms(3) unfolding map_append set_append ids by force
  ultimately show ?thesis
    using assms(1) by (metis set_eq_iff_mset_eq_distinct)
qed

lemma weighted_sum_mono:
  fixes rnd :: "rat \<Rightarrow> rat"
  assumes "mono rnd" and "0 \<le> c" and "0 \<le> d" and "a \<le> a'" and "b \<le> b'"
  shows "rnd (rnd (c * a) + rnd (d * b)) \<le> rnd (rnd (c * a') + rnd (d * b'))"
  using assms(2-5) by (intro monoD [OF assms(1)] add_mono mult_left_mono)

lemma blend_score_mono:
  assumes "mono rnd" and "rnd 0 = 0" and "0 < re_range" and "0 < fused_range"
    and "re_y \<le> re_x" and "fused_y \<le> fused_x"
  shows "blend_score rnd m re_range f fused_range re_y fused_y
       \<le> blend_score rnd m re_range f fused_range re_x fused_x"
proof -
  note step = monoD [OF assms(1)]
  have c: "0 \<le> rnd (2/5)" "0 \<le> rnd (3/5)" using step [of 0 "2/5"] step [of 0 "3/5"] assms(2) by auto
  have "rnd (rnd (re_y - m) / re_range) \<le> rnd (rnd (re_x - m) / re_range)"
    using assms(3,5) by (intro step divide_right_mono) auto
  moreover have "rnd (rnd (fused_y - f) / fused_range) \<le> rnd (rnd (fused_x - f) / fused_range)"
    using assms(4,6) by (intro step divide_right_mono) auto
  ultimately show ?thesis unfolding blend_score_def Let_def
    by (rule weighted_sum_mono [OF assms(1) c, rotated])
qed

text \<open>Blending reranker scores loses and invents nothing: the result is a reordering of the
  fused hits in descending blended score, and without reranker hits the fused ranking
  stands.\<close>

theorem blend_reranked_reorders:
  assumes "distinct (map fst fused)" and "distinct (map fst reranked)"
    and "fst ` set reranked \<subseteq> fst ` set fused"
  shows "mset (map fst (blend_reranked rnd fused reranked)) = mset (map fst fused)
     \<and> (reranked = [] \<longrightarrow> blend_reranked rnd fused reranked = fused)
     \<and> (reranked \<noteq> [] \<longrightarrow> sorted_wrt (\<lambda>x y. snd y \<le> snd x) (blend_reranked rnd fused reranked))"
proof (cases "reranked = []")
  case True
  then show ?thesis by (simp add: blend_reranked_def)
next
  case False
  then have b: "blend_reranked rnd fused reranked = sorted_desc snd (blended_hits rnd fused reranked
      @ filter (\<lambda>(cid, _). cid \<notin> set (map fst (blended_hits rnd fused reranked))) fused)"
    by (simp add: blend_reranked_def Let_def)
  have ids: "map fst (blended_hits rnd fused reranked) = map fst reranked"
    by (simp add: blended_hits_def Let_def case_prod_unfold)
  have "mset (map fst (blend_reranked rnd fused reranked)) = mset (map fst fused)"
    unfolding b mset_map mset_sorted_desc
    unfolding mset_map [symmetric] by (rule mset_blend [OF assms ids])
  then show ?thesis using False by (simp add: b sorted_desc_sorted)
qed

theorem blend_reranked_reorders_witness:
  "mset (map fst (blend_reranked id [(''a'', 1/2), (''b'', 1/3), (''c'', 1/4)] [(''b'', 7), (''a'', 2)]))
     = {#''a'', ''b'', ''c''#}"
  using blend_reranked_reorders [of "[(''a'', 1/2), (''b'', 1/3), (''c'', 1/4)]"
      "[(''b'', 7), (''a'', 2)]" id] by auto

end
