(* ===== verification/Chunking.thy ===== *)
theory Chunking
  imports Core_Models Py_Strings
begin

text \<open>
  The markdown chunker (\<open>ingestion/chunker.py\<close>) with what it calls: the token estimate and
  the sentence splitter (\<open>utils/text.py\<close>), the content handlers
  (\<open>ingestion/content_handlers.py\<close>) and the frontmatter parser (\<open>ingestion/reader.py\<close>).
  The regular expressions are written out as recursive matchers, with \<open>re\<close>'s greedy
  choices.  blake3 and the YAML parser are packages: the parameters \<open>blake3\<close> and \<open>yaml\<close>.
\<close>

section \<open>Text utilities\<close>

definition utf8_length :: "string \<Rightarrow> nat" where
  "utf8_length s = sum_list (map (\<lambda>c. if (of_char c :: nat) < 128 then 1 else 2) s)"

definition estimate_tokens :: "string \<Rightarrow> nat" where
  "estimate_tokens txt = max 1 (utf8_length txt div 4)"

definition is_stop :: "char \<Rightarrow> bool" where
  "is_stop c \<longleftrightarrow> c \<in> {CHR ''.'', CHR ''!'', CHR ''?''}"

definition is_A_Z :: "char \<Rightarrow> bool" where
  "is_A_Z c = (let n = of_char c :: nat in 65 \<le> n \<and> n \<le> 90)"

definition starts_with :: "(char \<Rightarrow> bool) \<Rightarrow> string \<Rightarrow> bool" where
  "starts_with P s = (case s of [] \<Rightarrow> False | c # _ \<Rightarrow> P c)"

text \<open>
  \<open>re.split\<close> at whitespace between a stop and a capital letter.  Giving back characters of
  the run does not help the lookahead, and a later start does not satisfy the lookbehind.
\<close>

fun sentence_pieces :: "bool \<Rightarrow> string \<Rightarrow> string \<Rightarrow> string list" where
  "sentence_pieces after_stop acc [] = [rev acc]"
| "sentence_pieces after_stop acc (c # cs) =
     (if after_stop \<and> py_isspace c \<and> starts_with is_A_Z (dropWhile py_isspace cs)
      then rev acc # sentence_pieces False [] (dropWhile py_isspace cs)
      else sentence_pieces (is_stop c) (c # acc) cs)"

definition stripped_pieces :: "string list \<Rightarrow> string list" where
  "stripped_pieces segments = map py_strip (filter (\<lambda>s. py_strip s \<noteq> []) segments)"

definition split_sentences :: "string \<Rightarrow> string list" where
  "split_sentences txt = stripped_pieces (sentence_pieces False [] txt)"

section \<open>Content handlers\<close>

definition LF :: char where
  "LF = CHR 0x0A"

text \<open>The lookahead \<open>\[\d{2}:\d{2}:\d{2}\]\s*\*\*\<close>.\<close>

definition is_speaker_turn :: "string \<Rightarrow> bool" where
  "is_speaker_turn s =
     (10 \<le> length s \<and> s ! 0 = CHR ''['' \<and> s ! 9 = CHR '']'' \<and> s ! 3 = CHR '':'' \<and> s ! 6 = CHR '':''
      \<and> py_isdigit (s ! 1) \<and> py_isdigit (s ! 2) \<and> py_isdigit (s ! 4) \<and> py_isdigit (s ! 5)
      \<and> py_isdigit (s ! 7) \<and> py_isdigit (s ! 8)
      \<and> take 2 (dropWhile py_isspace (drop 10 s)) = ''**'')"

fun speaker_pieces :: "string \<Rightarrow> string \<Rightarrow> string list" where
  "speaker_pieces acc [] = [rev acc]"
| "speaker_pieces acc (c # cs) =
     (if c = LF \<and> is_speaker_turn cs then rev acc # speaker_pieces [] cs
      else speaker_pieces (c # acc) cs)"

definition split_by_speaker_turns :: "string \<Rightarrow> string list" where
  "split_by_speaker_turns txt = stripped_pieces (speaker_pieces [] txt)"

text \<open>\<open>str.split\<close> at two line feeds; the number of separators is one less.\<close>

fun paragraph_pieces :: "string \<Rightarrow> string \<Rightarrow> string list" where
  "paragraph_pieces acc [] = [rev acc]"
| "paragraph_pieces acc [c] = [rev (c # acc)]"
| "paragraph_pieces acc (c # d # cs) =
     (if c = LF \<and> d = LF then rev acc # paragraph_pieces [] cs
      else paragraph_pieces (c # acc) (d # cs))"

definition split_default :: "string \<Rightarrow> string list" where
  "split_default txt = (if py_strip txt \<noteq> [] then [txt] else [])"

definition split_by_paragraphs :: "string \<Rightarrow> string list" where
  "split_by_paragraphs txt =
     (let segments = paragraph_pieces [] txt
      in if 3 \<le> length segments - 1 then stripped_pieces segments
         else if py_strip txt \<noteq> [] then [txt] else [])"

definition get_handler :: "string \<Rightarrow> string \<Rightarrow> string list" where
  "get_handler kind =
     (if kind = doc_kind_value MEETING_TRANSCRIPT then split_by_speaker_turns
      else if kind = doc_kind_value VOICENOTE then split_by_paragraphs
      else split_default)"

section \<open>Splitting with overlap\<close>

definition fit_segments :: "nat \<Rightarrow> string list \<Rightarrow> string list" where
  "fit_segments max_tokens segments =
     concat (map (\<lambda>seg. if estimate_tokens seg \<le> max_tokens then [seg]
       else let sub = split_sentences seg in if sub \<noteq> [] then sub else [seg]) segments)"

text \<open>The loop over \<open>reversed(current_sentences)\<close>; the argument list is already reversed.\<close>

fun overlap_tail :: "nat \<Rightarrow> string list \<Rightarrow> string list \<Rightarrow> nat \<Rightarrow> string list \<times> nat" where
  "overlap_tail overlap_tokens [] overlap_sents overlap_tok = (overlap_sents, overlap_tok)"
| "overlap_tail overlap_tokens (s # ss) overlap_sents overlap_tok =
     (if overlap_tokens < overlap_tok + estimate_tokens s \<and> overlap_sents \<noteq> []
      then (overlap_sents, overlap_tok)
      else overlap_tail overlap_tokens ss (s # overlap_sents) (overlap_tok + estimate_tokens s))"

fun group_sentences :: "nat \<Rightarrow> nat \<Rightarrow> string list \<Rightarrow> string list list \<Rightarrow> string list \<Rightarrow> nat \<Rightarrow>
    string list list" where
  "group_sentences max_tokens overlap_tokens [] pieces current current_tokens =
     (if current \<noteq> [] then pieces @ [current] else pieces)"
| "group_sentences max_tokens overlap_tokens (s # ss) pieces current current_tokens =
     (if current \<noteq> [] \<and> max_tokens < current_tokens + estimate_tokens s
      then let (tail, tok) = overlap_tail overlap_tokens (rev current) [] 0
           in group_sentences max_tokens overlap_tokens ss (pieces @ [current])
                (tail @ [s]) (tok + estimate_tokens s)
      else group_sentences max_tokens overlap_tokens ss pieces
             (current @ [s]) (current_tokens + estimate_tokens s))"

definition split_with_overlap :: "string \<Rightarrow> nat \<Rightarrow> nat \<Rightarrow> (string \<Rightarrow> string list) \<Rightarrow> string list" where
  "split_with_overlap txt max_tokens overlap_tokens pre_split =
     (let segments = pre_split txt
      in if segments = [] then (if py_strip txt \<noteq> [] then [txt] else [])
         else map (py_join '' '')
                (group_sentences max_tokens overlap_tokens (fit_segments max_tokens segments) [] [] 0))"

section \<open>Sections\<close>

text \<open>
  \<open>^(#{1,6})\s+(.+)$\<close> at the start of a line: level, heading text and length of the match.
  The whitespace may contain line feeds; at the end of the text the run gives characters
  back until one of them can be the heading.
\<close>

definition heading_text :: "nat \<Rightarrow> string \<Rightarrow> string" where
  "heading_text i s = takeWhile (\<lambda>c. c \<noteq> LF) (drop i s)"

definition heading_at :: "string \<Rightarrow> (nat \<times> string \<times> nat) option" where
  "heading_at s =
     (let hashes = length (takeWhile (\<lambda>c. c = CHR ''#'') s);
          spaces = length (takeWhile py_isspace (drop hashes s));
          stop = hashes + spaces;
          start = (if stop < length s then Some stop
                   else find (\<lambda>j. s ! j \<noteq> LF) (rev [Suc hashes ..< stop]))
      in if 1 \<le> hashes \<and> hashes \<le> 6 \<and> 1 \<le> spaces
         then map_option (\<lambda>i. (hashes, heading_text i s, i + length (heading_text i s))) start
         else None)"

record heading_match =
  hm_start :: nat
  hm_level :: nat
  hm_heading :: string
  hm_end :: nat

lemma heading_at_pos:
  assumes "heading_at s = Some (l, h, n)"
  shows "0 < n \<and> n \<le> length s"
proof -
  let ?hs = "length (takeWhile (\<lambda>c. c = CHR ''#'') s)"
  let ?stop = "?hs + length (takeWhile py_isspace (drop ?hs s))"
  have le: "length (takeWhile P xs) \<le> length xs" for P and xs :: string
    by (rule length_takeWhile_le)
  have stop: "?stop \<le> length s"
    using le [of py_isspace "drop ?hs s"] le [of "\<lambda>c. c = CHR ''#''" s] by simp
  obtain i where i: "(if ?stop < length s then Some ?stop
      else find (\<lambda>j. s ! j \<noteq> LF) (rev [Suc ?hs ..< ?stop])) = Some i"
    and "1 \<le> ?hs" "n = i + length (heading_text i s)"
    using assms by (auto simp: heading_at_def Let_def split: if_splits)
  then have "0 < i \<and> i \<le> length s"
    using stop by (auto split: if_splits dest!: find_Some_iff_set)
  moreover from this have "length (heading_text i s) \<le> length s - i"
    using le [of "\<lambda>c. c \<noteq> LF" "drop i s"] by (simp add: heading_text_def)
  ultimately show ?thesis using \<open>n = i + length (heading_text i s)\<close> by linarith
qed

text \<open>\<open>finditer\<close>: \<open>bol\<close> tells whether position \<open>i\<close> is at the beginning of a line.\<close>

function heading_matches :: "nat \<Rightarrow> bool \<Rightarrow> string \<Rightarrow> heading_match list" where
  "heading_matches i bol [] = []"
| "heading_matches i bol (c # cs) =
     (case (if bol then heading_at (c # cs) else None) of
        Some (level, h, n) \<Rightarrow>
          \<lparr>hm_start = i, hm_level = level, hm_heading = h, hm_end = i + n\<rparr>
            # heading_matches (i + n) False (drop n (c # cs))
      | None \<Rightarrow> heading_matches (Suc i) (c = LF) cs)"
  by pat_completeness auto
termination
  by (relation "measure (\<lambda>(i, bol, s). length s)")
    (auto split: if_splits dest!: heading_at_pos)

record md_section =
  se_level :: nat
  se_heading :: string
  se_body :: string
  se_offset :: nat

fun sections_from :: "string \<Rightarrow> nat \<Rightarrow> nat \<Rightarrow> string \<Rightarrow> heading_match list \<Rightarrow> md_section list" where
  "sections_from content last_end last_level last_heading [] =
     [if last_end = 0 then \<lparr>se_level = 0, se_heading = [], se_body = drop last_end content, se_offset = 0\<rparr>
      else \<lparr>se_level = last_level, se_heading = last_heading, se_body = drop last_end content,
            se_offset = last_end\<rparr>]"
| "sections_from content last_end last_level last_heading (m # ms) =
     (let body = slice last_end (hm_start m) content;
          rest = sections_from content (hm_end m) (hm_level m) (py_strip (hm_heading m)) ms
      in if last_end = 0 \<and> py_strip body \<noteq> []
         then \<lparr>se_level = 0, se_heading = [], se_body = body, se_offset = 0\<rparr> # rest
         else if 0 < last_end
         then \<lparr>se_level = last_level, se_heading = last_heading, se_body = body, se_offset = last_end\<rparr> # rest
         else rest)"

definition parse_sections :: "string \<Rightarrow> md_section list" where
  "parse_sections content = sections_from content 0 0 [] (heading_matches 0 True content)"

section \<open>Chunks of a file\<close>

datatype yaml_result = YamlError | YamlOther | YamlDict "(string, json) dict"

definition parse_frontmatter :: "(string \<Rightarrow> yaml_result) \<Rightarrow> string \<Rightarrow> (string, json) dict \<times> string" where
  "parse_frontmatter yaml content =
     (if \<not> py_startswith content ''---'' then ([], content)
      else case str_find content ''---'' 3 of
        None \<Rightarrow> ([], content)
      | Some end_pos \<Rightarrow>
          (case yaml (slice 3 end_pos content) of
             YamlDict frontmatter \<Rightarrow>
               (frontmatter, dropWhile (\<lambda>c. c = LF) (drop (end_pos + 3) content))
           | _ \<Rightarrow> ([], content)))"

fun decimal :: "nat \<Rightarrow> string" where
  "decimal n = (if n < 10 then [char_of (48 + n)] else decimal (n div 10) @ [char_of (48 + n mod 10)])"

definition make_chunk_id :: "(string \<Rightarrow> string) \<Rightarrow> string \<Rightarrow> nat \<Rightarrow> string \<Rightarrow> string" where
  "make_chunk_id blake3 body_checksum chunk_index chunk_strategy =
     blake3 (body_checksum @ '':'' @ decimal chunk_index @ '':'' @ chunk_strategy)"

text \<open>\<open>hierarchy\<close> is the list of length 7 whose index is the heading level.\<close>

definition enter_section :: "md_section \<Rightarrow> string list \<Rightarrow> string list" where
  "enter_section s hierarchy =
     (if 0 < se_level s
      then take (se_level s) hierarchy @ [se_heading s] @ replicate (6 - se_level s) []
      else hierarchy)"

definition current_hierarchy :: "md_section \<Rightarrow> string list \<Rightarrow> string list" where
  "current_hierarchy s hierarchy =
     (if 0 < se_level s then filter (\<lambda>h. h \<noteq> []) (slice 1 (se_level s + 1) hierarchy) else [])"

definition section_text :: "md_section \<Rightarrow> string list \<Rightarrow> string" where
  "section_text s path =
     (let body_stripped = py_strip (se_body s);
          parts = (if path \<noteq> [] then [py_join '' > '' path] else [])
                @ (if body_stripped \<noteq> [] then [body_stripped] else [])
      in py_join [LF, LF] parts)"

record chunk_params =
  cp_file_path :: string
  cp_max_tokens :: nat
  cp_overlap_tokens :: nat
  cp_kind :: string
  cp_strategy :: string
  cp_given_provenance :: "chunk_provenance option"

definition new_chunk :: "(string \<Rightarrow> string) \<Rightarrow> chunk_params \<Rightarrow> string \<Rightarrow> nat \<Rightarrow> string list \<Rightarrow>
    string \<Rightarrow> nat \<Rightarrow> chunk" where
  "new_chunk blake3 p body_checksum level path txt chunk_index =
     \<lparr>ch_chunk_id = make_chunk_id blake3 body_checksum chunk_index (cp_strategy p),
      ch_file_paths = [cp_file_path p], ch_heading_hierarchy = path, ch_level = int level,
      ch_text = txt, ch_chunk_index = chunk_index, ch_kind = cp_kind p,
      ch_provenance = cp_given_provenance p\<rparr>"

definition section_texts :: "chunk_params \<Rightarrow> string \<Rightarrow> string list" where
  "section_texts p txt =
     (if estimate_tokens txt \<le> cp_max_tokens p then [txt]
      else split_with_overlap txt (cp_max_tokens p) (cp_overlap_tokens p) (get_handler (cp_kind p)))"

fun chunk_sections :: "(string \<Rightarrow> string) \<Rightarrow> chunk_params \<Rightarrow> string \<Rightarrow> md_section list \<Rightarrow>
    string list \<Rightarrow> nat \<Rightarrow> chunk list" where
  "chunk_sections blake3 p body_checksum [] hierarchy chunk_index = []"
| "chunk_sections blake3 p body_checksum (s # ss) hierarchy chunk_index =
     (let hierarchy = enter_section s hierarchy;
          path = current_hierarchy s hierarchy;
          txt = section_text s path
      in if py_strip (se_body s) = [] \<and> se_heading s = [] \<or> txt = []
         then chunk_sections blake3 p body_checksum ss hierarchy chunk_index
         else
           let texts = section_texts p txt
           in map2 (new_chunk blake3 p body_checksum (se_level s) path) texts
                [chunk_index ..< chunk_index + length texts]
              @ chunk_sections blake3 p body_checksum ss hierarchy (chunk_index + length texts))"

definition chunk_file :: "(string \<Rightarrow> string) \<Rightarrow> (string \<Rightarrow> yaml_result) \<Rightarrow> chunk_params \<Rightarrow>
    string \<Rightarrow> chunk list" where
  "chunk_file blake3 yaml p content =
     (let body = snd (parse_frontmatter yaml content);
          body_checksum = blake3 (cp_kind p @ [LF] @ body)
      in chunk_sections blake3 p body_checksum (parse_sections body) (replicate 7 []) 0)"

end
