(* ===== verification/Reader.thy ===== *)
theory Reader
  imports Chunking
begin

text \<open>
  Reading and discovering files (\<open>ingestion/reader.py\<close>) and turning them into source
  documents (\<open>ingestion/source.py\<close>).  The disk is a function from paths to files; a file's
  content is None when its bytes are not UTF-8.  A directory is a tree of its entries, in
  the order \<open>os.walk\<close> lists them.  A YAML value is a \<open>json\<close> value; \<open>str()\<close> of it is \<open>py_str\<close>.
  \<open>Path.resolve\<close>, YAML and blake3 are parameters.
\<close>

section \<open>Python values\<close>

definition decimal_int :: "int \<Rightarrow> string" where
  "decimal_int i = (if i < 0 then CHR ''-'' # decimal (nat (- i)) else decimal (nat i))"

definition hex_digit :: "nat \<Rightarrow> char" where
  "hex_digit n = (if n < 10 then char_of (48 + n) else char_of (87 + n))"

definition repr_char :: "char \<Rightarrow> char \<Rightarrow> string" where
  "repr_char quote c =
     (let n = of_char c :: nat in
      if c = quote \<or> n = 92 then [CHR 0x5C, c]
      else if n = 9 then [CHR 0x5C, CHR ''t''] else if n = 10 then [CHR 0x5C, CHR ''n'']
      else if n = 13 then [CHR 0x5C, CHR ''r'']
      else if n < 32 \<or> (127 \<le> n \<and> n \<le> 160) \<or> n = 173
      then [CHR 0x5C, CHR ''x'', hex_digit (n div 16), hex_digit (n mod 16)]
      else [c])"

definition repr_str :: "string \<Rightarrow> string" where
  "repr_str s =
     (let quote = (if CHR 0x27 \<in> set s \<and> CHR 0x22 \<notin> set s then CHR 0x22 else CHR 0x27)
      in quote # concat (map (repr_char quote) s) @ [quote])"

fun py_repr :: "json \<Rightarrow> string" where
  "py_repr JNull = ''None''"
| "py_repr (JBool b) = (if b then ''True'' else ''False'')"
| "py_repr (JInt i) = decimal_int i"
| "py_repr (JStr s) = repr_str s"
| "py_repr (JList xs) = ''['' @ py_join '', '' (map py_repr xs) @ '']''"
| "py_repr (JObj ps) = ''{'' @ py_join '', '' (map (\<lambda>(k, v). repr_str k @ '': '' @ py_repr v) ps) @ ''}''"

definition py_str :: "json \<Rightarrow> string" where
  "py_str v = (case v of JStr s \<Rightarrow> s | _ \<Rightarrow> py_repr v)"

text \<open>\<open>str(exc)\<close>: a \<open>KeyError\<close> shows the representation of its key.  The message of a
  pydantic error is abbreviated to its first validator's.\<close>

definition error_text :: "py_error \<Rightarrow> string" where
  "error_text e =
     (case e of
        ValueError m \<Rightarrow> m | RuntimeError m \<Rightarrow> m | OperationalError m \<Rightarrow> m | KeyError m \<Rightarrow> repr_str m
      | ZeroDivisionError m \<Rightarrow> m | OverflowError m \<Rightarrow> m | FileNotFoundError m \<Rightarrow> m
      | UnicodeDecodeError m \<Rightarrow> m | TypeError m \<Rightarrow> m | IndexError m \<Rightarrow> m | StructError m \<Rightarrow> m
      | HTTPError m \<Rightarrow> m | AssertionError m \<Rightarrow> m | AttributeError m \<Rightarrow> m)"

fun truthy :: "json \<Rightarrow> bool" where
  "truthy JNull = False"
| "truthy (JBool b) = b"
| "truthy (JInt i) = (i \<noteq> 0)"
| "truthy (JStr s) = (s \<noteq> [])"
| "truthy (JList xs) = (xs \<noteq> [])"
| "truthy (JObj ps) = (ps \<noteq> [])"

text \<open>Iterating a value: a string yields its characters, a dict its keys.\<close>

fun py_iter :: "json \<Rightarrow> py_error + json list" where
  "py_iter (JList xs) = Inr xs"
| "py_iter (JStr s) = Inr (map (\<lambda>c. JStr [c]) s)"
| "py_iter (JObj ps) = Inr (map (\<lambda>(k, v). JStr k) ps)"
| "py_iter _ = Inl (TypeError ''object is not iterable'')"

section \<open>Paths\<close>

definition path_parts :: "string \<Rightarrow> string list" where
  "path_parts p = (if py_startswith p ''/'' then [''/''] else []) @ filter (\<lambda>s. s \<noteq> []) (split_on (CHR ''/'') p)"

definition join_path :: "string \<Rightarrow> string \<Rightarrow> string" where
  "join_path dir name = (if dir \<noteq> [] \<and> last dir = CHR ''/'' then dir @ name else dir @ ''/'' @ name)"

definition path_name :: "string \<Rightarrow> string" where
  "path_name p = (if path_parts p = [] then '''' else last (path_parts p))"

definition path_suffix :: "string \<Rightarrow> string" where
  "path_suffix p =
     (let name = path_name p in
      case str_rfind name ''.'' of
        Some i \<Rightarrow> if 0 < i \<and> i + 1 < length name then drop i name else ''''
      | None \<Rightarrow> '''')"

definition path_stem :: "string \<Rightarrow> string" where
  "path_stem p = (let name = path_name p in take (length name - length (path_suffix p)) name)"

definition py_endswith :: "string \<Rightarrow> string \<Rightarrow> bool" where
  "py_endswith s suffix = (length suffix \<le> length s \<and> drop (length s - length suffix) s = suffix)"

section \<open>Files\<close>

record disk_file =
  df_mtime :: rat
  df_size :: int
  df_content :: "string option"

type_synonym disk = "string \<Rightarrow> disk_file option"

definition read_file :: "disk \<Rightarrow> string \<Rightarrow> py_error + string" where
  "read_file d path =
     (case d path of
        None \<Rightarrow> Inl (FileNotFoundError path)
      | Some f \<Rightarrow> (case df_content f of None \<Rightarrow> Inl (UnicodeDecodeError path) | Some c \<Rightarrow> Inr c))"

definition is_os_error :: "py_error \<Rightarrow> bool" where
  "is_os_error e = (case e of FileNotFoundError _ \<Rightarrow> True | _ \<Rightarrow> False)"

definition kind_of :: "(string, json) dict \<Rightarrow> json" where
  "kind_of frontmatter = dict_get_default frontmatter ''kind'' (JStr (doc_kind_value DOCUMENT))"

definition chunk_checksum :: "(string \<Rightarrow> string) \<Rightarrow> (string \<Rightarrow> yaml_result) \<Rightarrow> disk \<Rightarrow> string \<Rightarrow>
    py_error + string" where
  "chunk_checksum blake3 yaml d path =
     try_bind (read_file d path) (\<lambda>content.
       let (frontmatter, body) = parse_frontmatter yaml content
       in Inr (blake3 (py_str (kind_of frontmatter) @ [LF] @ body)))"

definition meta_checksum :: "(string \<Rightarrow> string) \<Rightarrow> (string \<Rightarrow> yaml_result) \<Rightarrow> disk \<Rightarrow> string \<Rightarrow>
    py_error + string" where
  "meta_checksum blake3 yaml d path =
     try_bind (read_file d path) (\<lambda>content.
       let (frontmatter, _) = parse_frontmatter yaml content;
           t = dict_get_default frontmatter ''title'' (JStr '''');
           title = py_str (if truthy t then t else JStr '''');
           tags = dict_get_default frontmatter ''tags'' (JList [])
       in if \<not> truthy tags then Inr (blake3 (title @ [LF]))
          else try_bind (py_iter tags) (\<lambda>ts.
            Inr (blake3 (title @ [LF] @ py_join '','' (sort (map py_str ts))))))"

text \<open>\<open>^#\s+(.+)\<close>: the first line that is a top-level heading.\<close>

definition title_at :: "string \<Rightarrow> string option" where
  "title_at s =
     (case s of
        [] \<Rightarrow> None
      | c # cs \<Rightarrow>
          if c \<noteq> CHR ''#'' then None
          else (let spaces = length (takeWhile py_isspace cs);
                    start = (if spaces < length cs then Some spaces
                             else find (\<lambda>j. cs ! j \<noteq> LF) (rev [1 ..< spaces]))
                in if spaces = 0 then None else map_option (\<lambda>i. heading_text i cs) start))"

fun search_title :: "bool \<Rightarrow> string \<Rightarrow> string option" where
  "search_title bol [] = None"
| "search_title bol (c # cs) =
     (case (if bol then title_at (c # cs) else None) of
        Some t \<Rightarrow> Some t
      | None \<Rightarrow> search_title (c = LF) cs)"

definition extract_title :: "string \<Rightarrow> string \<Rightarrow> (string, json) dict \<Rightarrow> string" where
  "extract_title content path frontmatter =
     (case dict_get frontmatter ''title'' of
        Some t \<Rightarrow> if truthy t then py_strip (py_str t)
                  else (case search_title True content of Some h \<Rightarrow> py_strip h | None \<Rightarrow> path_stem path)
      | None \<Rightarrow> (case search_title True content of Some h \<Rightarrow> py_strip h | None \<Rightarrow> path_stem path))"

record file_info =
  fi_path :: string
  fi_title :: string
  fi_last_modified :: timestamp
  fi_size_bytes :: int
  fi_kind :: string
  fi_frontmatter :: "(string, json) dict"

text \<open>\<open>datetime.fromtimestamp\<close>: microseconds, rounded half to even.\<close>

definition from_timestamp :: "rat \<Rightarrow> timestamp" where
  "from_timestamp m =
     (let x = m * 1000000; n = floor x; rest = x - of_int n
      in if rest < 1 / 2 then n else if 1 / 2 < rest then n + 1 else if even n then n else n + 1)"

text \<open>\<open>FileInfo(...)\<close>: the field \<open>kind\<close> must be a string.\<close>

definition make_file_info :: "string \<Rightarrow> string \<Rightarrow> disk_file \<Rightarrow> json \<Rightarrow> (string, json) dict \<Rightarrow>
    py_error + file_info" where
  "make_file_info path title f kind frontmatter =
     (case kind of
        JStr k \<Rightarrow> Inr \<lparr>fi_path = path, fi_title = title, fi_last_modified = from_timestamp (df_mtime f),
          fi_size_bytes = df_size f, fi_kind = k, fi_frontmatter = frontmatter\<rparr>
      | _ \<Rightarrow> Inl (ValueError ''kind: Input should be a valid string''))"

definition file_info_from_path :: "(string \<Rightarrow> yaml_result) \<Rightarrow> disk \<Rightarrow> string \<Rightarrow> py_error + file_info option" where
  "file_info_from_path yaml d md_path =
     (case d md_path of
        None \<Rightarrow> Inr None
      | Some f \<Rightarrow>
          if path_suffix md_path \<noteq> ''.md'' then Inr None
          else if df_size f = 0 then Inr None
          else case read_file d md_path of
            Inl e \<Rightarrow> if is_os_error e then Inr None else Inl e
          | Inr content \<Rightarrow>
              (let (frontmatter, _) = parse_frontmatter yaml content
               in try_bind (make_file_info md_path (extract_title content md_path frontmatter) f
                      (kind_of frontmatter) frontmatter) (\<lambda>fi. Inr (Some fi))))"

section \<open>Discovery\<close>

definition bare_pattern :: "string \<Rightarrow> string" where
  "bare_pattern pattern = dropWhile (\<lambda>c. c = CHR ''/'') (dropWhile (\<lambda>c. c = CHR ''*'') pattern)"

definition extract_exclude_names :: "string list \<Rightarrow> string list" where
  "extract_exclude_names exclude =
     remdups (filter (\<lambda>bare. bare \<noteq> [] \<and> CHR ''*'' \<notin> set bare \<and> CHR ''?'' \<notin> set bare) (map bare_pattern exclude))"

definition is_excluded :: "string \<Rightarrow> string list \<Rightarrow> bool" where
  "is_excluded path exclude_names = (\<exists>part \<in> set (path_parts path). part \<in> set exclude_names)"

datatype entry = FileEntry | DirEntry "(string \<times> entry) list"

text \<open>\<open>os.walk\<close>, top down, with the excluded directories pruned: the markdown files of a
  directory come before those of its subdirectories.\<close>

fun walk :: "string list \<Rightarrow> string \<Rightarrow> (string \<times> entry) list \<Rightarrow> string list" where
  "walk exclude_names dirpath entries =
     map (\<lambda>(name, _). join_path dirpath name)
       (filter (\<lambda>(name, e). (case e of FileEntry \<Rightarrow> True | DirEntry _ \<Rightarrow> False) \<and> py_endswith name ''.md'') entries)
     @ concat (map (\<lambda>(name, e). case e of
          FileEntry \<Rightarrow> []
        | DirEntry sub \<Rightarrow> if name \<in> set exclude_names then [] else walk exclude_names (join_path dirpath name) sub)
         entries)"

fun add_files :: "(string \<Rightarrow> string) \<Rightarrow> (string \<Rightarrow> yaml_result) \<Rightarrow> disk \<Rightarrow> string list \<Rightarrow> string list \<Rightarrow>
    string list \<Rightarrow> file_info list \<Rightarrow> py_error + string list \<times> file_info list" where
  "add_files resolve yaml d exclude_names [] seen results = Inr (seen, results)"
| "add_files resolve yaml d exclude_names (md_path # rest) seen results =
     (if resolve md_path \<in> set seen \<or> is_excluded md_path exclude_names
      then add_files resolve yaml d exclude_names rest seen results
      else try_bind (file_info_from_path yaml d md_path) (\<lambda>info. case info of
          None \<Rightarrow> add_files resolve yaml d exclude_names rest seen results
        | Some fi \<Rightarrow> add_files resolve yaml d exclude_names rest (resolve md_path # seen) (results @ [fi])))"

text \<open>\<open>tree\<close> lists a directory, None if the path is not one.  Path specs with wildcards are
  left out.\<close>

fun collect_directories :: "(string \<Rightarrow> string) \<Rightarrow> (string \<Rightarrow> yaml_result) \<Rightarrow> disk \<Rightarrow>
    (string \<Rightarrow> (string \<times> entry) list option) \<Rightarrow> string list \<Rightarrow> string list \<Rightarrow> string list \<Rightarrow>
    file_info list \<Rightarrow> py_error + string list \<times> file_info list" where
  "collect_directories resolve yaml d tree exclude_names [] seen results = Inr (seen, results)"
| "collect_directories resolve yaml d tree exclude_names (dir # dirs) seen results =
     (case tree dir of
        None \<Rightarrow> collect_directories resolve yaml d tree exclude_names dirs seen results
      | Some entries \<Rightarrow>
          try_bind (add_files resolve yaml d exclude_names (walk exclude_names dir entries) seen results)
            (\<lambda>(seen, results). collect_directories resolve yaml d tree exclude_names dirs seen results))"

definition discover_files_multi :: "(string \<Rightarrow> string) \<Rightarrow> (string \<Rightarrow> yaml_result) \<Rightarrow> disk \<Rightarrow>
    (string \<Rightarrow> (string \<times> entry) list option) \<Rightarrow> string list \<Rightarrow> string list \<Rightarrow> py_error + file_info list" where
  "discover_files_multi resolve yaml d tree paths exclude =
     try_bind (collect_directories resolve yaml d tree (extract_exclude_names exclude) paths [] [])
       (\<lambda>(_, results). Inr (sort_key (\<lambda>fi. path_parts (fi_path fi)) results))"

section \<open>Source documents\<close>

definition document_for_file_info :: "(string \<Rightarrow> string) \<Rightarrow> (string \<Rightarrow> string) \<Rightarrow> (string \<Rightarrow> yaml_result) \<Rightarrow>
    disk \<Rightarrow> file_info \<Rightarrow> py_error + source_document" where
  "document_for_file_info resolve blake3 yaml d fi =
     try_bind (chunk_checksum blake3 yaml d (fi_path fi)) (\<lambda>content_fingerprint.
     try_bind (meta_checksum blake3 yaml d (fi_path fi)) (\<lambda>metadata_fingerprint.
       let document_ref = resolve (fi_path fi)
       in validate_source_document resolve
            \<lparr>sd_namespace = ''filesystem'', sd_document_ref = document_ref,
             sd_ref = make_ref ''filesystem'' document_ref, sd_title = fi_title fi,
             sd_source_uri = document_ref, sd_media_type = ''text/markdown'', sd_parser_name = ''markdown'',
             sd_document_type = fi_kind fi, sd_updated_at = fi_last_modified fi,
             sd_content_fingerprint = content_fingerprint, sd_metadata_fingerprint = metadata_fingerprint,
             sd_metadata_json = JObj (fi_frontmatter fi), sd_file_path = Some (fi_path fi)\<rparr>))"

section \<open>Examples\<close>

lemma py_str_examples:
  "py_str (JList [JStr ''a'', JInt (-12), JBool True, JNull]) = ''['' @ repr_str ''a'' @ '', -12, True, None]''"
  "path_stem ''/a/b.c.md'' = ''b.c''" "path_suffix ''/a/.md'' = ''''" "path_parts ''/a//b/'' = [''/'', ''a'', ''b'']"
  by code_simp+

end
