(* ===== verification/Surreal_Schema.thy ===== *)
theory Surreal_Schema
  imports Py_Strings Core_Models
begin

text \<open>
  The schema catalogue of the SurrealDB target (\<open>storage/surreal_schema.py\<close>): the tables with their
  fields and indexes, the statements that define them, the self-check of the plan, the version
  comparison and the decision whether a database can be used as it is.  Notes are left out.
\<close>

section \<open>Definitions\<close>

record schema_field =
  sf_name :: string
  sf_type :: string
  sf_required :: bool
  sf_flexible_json :: bool

record schema_index =
  si_name :: string
  si_columns :: "string list"
  si_unique :: bool

datatype schema_mode = Schemafull | Schemaless | Relation

fun mode_value :: "schema_mode \<Rightarrow> string" where
  "mode_value Schemafull = ''SCHEMAFULL''"
| "mode_value Schemaless = ''SCHEMALESS''"
| "mode_value Relation = ''RELATION''"

record schema_table =
  tb_name :: string
  tb_mode :: schema_mode
  tb_fields :: "schema_field list"
  tb_indexes :: "schema_index list"
  tb_optional :: bool
  tb_derived_from :: "string list"
  tb_incoming :: "string list"
  tb_outgoing :: "string list"

definition field :: "string \<Rightarrow> string \<Rightarrow> schema_field" where
  "field name field_type = \<lparr>sf_name = name, sf_type = field_type, sf_required = True, sf_flexible_json = False\<rparr>"

definition optional_field :: "string \<Rightarrow> string \<Rightarrow> schema_field" where
  "optional_field name field_type = (field name field_type)\<lparr>sf_required := False\<rparr>"

definition json_field :: "string \<Rightarrow> schema_field" where
  "json_field name = (optional_field name ''object'')\<lparr>sf_flexible_json := True\<rparr>"

definition index :: "string \<Rightarrow> string list \<Rightarrow> schema_index" where
  "index name columns = \<lparr>si_name = name, si_columns = columns, si_unique = False\<rparr>"

definition unique_index :: "string \<Rightarrow> string list \<Rightarrow> schema_index" where
  "unique_index name columns = (index name columns)\<lparr>si_unique := True\<rparr>"

definition table :: "string \<Rightarrow> schema_field list \<Rightarrow> schema_index list \<Rightarrow> schema_table" where
  "table name fs ixs = \<lparr>tb_name = name, tb_mode = Schemafull, tb_fields = fs, tb_indexes = ixs,
     tb_optional = False, tb_derived_from = [], tb_incoming = [], tb_outgoing = []\<rparr>"

section \<open>The tables\<close>

definition documents_table :: schema_table where
  "documents_table =
     table ''documents''
      [field ''schema_version'' ''string'', field ''namespace'' ''string'',
       field ''document_ref'' ''string'', field ''ref'' ''string'', optional_field ''title'' ''string'',
       optional_field ''media_type'' ''string'', json_field ''metadata'']
      [unique_index ''documents_ref_idx'' [''ref''],
       unique_index ''documents_namespace_ref_idx'' [''namespace'', ''document_ref'']]"

definition source_units_table :: schema_table where
  "source_units_table =
     table ''source_units''
      [field ''schema_version'' ''string'', field ''namespace'' ''string'',
       field ''document_ref'' ''string'', field ''unit_ref'' ''string'',
       optional_field ''fingerprint'' ''string'', json_field ''metadata'']
      [unique_index ''source_units_identity_idx'' [''namespace'', ''document_ref'', ''unit_ref'']]"

definition chunks_table :: schema_table where
  "chunks_table =
     table ''chunks''
      [field ''schema_version'' ''string'', field ''original_chunk_id'' ''string'',
       field ''chunk_id'' ''string'', field ''chunk_strategy'' ''string'',
       optional_field ''heading_hierarchy'' ''array'', optional_field ''level'' ''int'',
       field ''document_ref'' ''string'', field ''ref'' ''string'', optional_field ''title'' ''string'',
       optional_field ''tags_text'' ''string'', field ''text'' ''string'',
       optional_field ''file_paths'' ''array'', optional_field ''file_bindings'' ''array'',
       optional_field ''source_unit_refs'' ''array'', json_field ''metadata'']
      [unique_index ''chunks_chunk_id_idx'' [''chunk_id''], index ''chunks_ref_idx'' [''ref'']]"

definition provenance_table :: schema_table where
  "provenance_table =
     table ''provenance''
      [field ''schema_version'' ''string'', field ''chunk_id'' ''string'',
       optional_field ''provenance_id'' ''string'', field ''namespace'' ''string'',
       field ''document_ref'' ''string'', optional_field ''chunk_strategy'' ''string'',
       optional_field ''source_unit_refs'' ''array'', optional_field ''parser_name'' ''string'',
       json_field ''metadata'']
      [index ''provenance_chunk_idx'' [''chunk_id'']]"

definition chunk_file_bindings_table :: schema_table where
  "chunk_file_bindings_table =
     table ''chunk_file_bindings''
      [field ''schema_version'' ''string'', optional_field ''binding_id'' ''string'',
       field ''chunk_id'' ''string'', field ''file_path'' ''string'', field ''chunk_index'' ''int'',
       json_field ''metadata'']
      [unique_index ''chunk_file_bindings_chunk_file_idx'' [''chunk_id'', ''file_path'']]"

definition bindings_table :: schema_table where
  "bindings_table =
     table ''bindings''
      [field ''schema_version'' ''string'', field ''namespace'' ''string'',
       field ''document_ref'' ''string'', field ''ref'' ''string'',
       optional_field ''resource_ref'' ''string'', field ''active'' ''bool'',
       field ''bound_at'' ''datetime'', optional_field ''unbound_at'' ''datetime'',
       optional_field ''content_fingerprint'' ''string'',
       optional_field ''metadata_fingerprint'' ''string'', optional_field ''source_unit_refs'' ''array'',
       json_field ''metadata'']
      [unique_index ''bindings_ref_idx'' [''ref''],
       index ''bindings_namespace_document_idx'' [''namespace'', ''document_ref'']]"

definition fingerprints_table :: schema_table where
  "fingerprints_table =
     table ''fingerprints''
      [field ''schema_version'' ''string'', optional_field ''fingerprint_id'' ''string'',
       field ''fingerprint_kind'' ''string'', optional_field ''namespace'' ''string'',
       optional_field ''document_ref'' ''string'', optional_field ''content_fingerprint'' ''string'',
       optional_field ''metadata_fingerprint'' ''string'', json_field ''metadata'']
      [index ''fingerprints_kind_doc_idx'' [''fingerprint_kind'', ''document_ref'']]"

definition embeddings_table :: schema_table where
  "embeddings_table =
     table ''embeddings''
      [field ''schema_version'' ''string'', field ''chunk_id'' ''string'',
       field ''chunk_strategy'' ''string'', field ''embedding_model'' ''string'',
       field ''text_hash'' ''string'', field ''vector_rowid'' ''int'',
       optional_field ''vector'' ''array<float>'', json_field ''metadata'']
      [unique_index ''embeddings_strategy_chunk_model_idx'' [''chunk_strategy'', ''chunk_id'', ''embedding_model''],
       index ''embeddings_strategy_model_idx'' [''chunk_strategy'', ''embedding_model''],
       index ''embeddings_text_hash_idx'' [''text_hash'']]"

definition vector_components_table :: schema_table where
  "vector_components_table =
     (table ''vector_components''
      [field ''schema_version'' ''string'', field ''chunk_id'' ''string'',
       field ''chunk_strategy'' ''string'', field ''embedding_model'' ''string'',
       field ''component'' ''string'', field ''embedding'' ''array<float>'', json_field ''metadata'']
      [unique_index ''vector_components_strategy_model_chunk_component_idx'' [''chunk_strategy'', ''embedding_model'', ''chunk_id'', ''component'']])\<lparr>tb_optional := True, tb_derived_from := [''embeddings'']\<rparr>"

definition files_table :: schema_table where
  "files_table =
     table ''files''
      [field ''schema_version'' ''string'', field ''original_id'' ''string'',
       optional_field ''file_path'' ''string'', field ''path'' ''string'',
       optional_field ''title'' ''string'', json_field ''metadata'']
      [unique_index ''files_path_idx'' [''path'']]"

definition sections_table :: schema_table where
  "sections_table =
     table ''sections''
      [field ''schema_version'' ''string'', field ''original_id'' ''string'',
       optional_field ''chunk_id'' ''string'', optional_field ''document_ref'' ''string'',
       optional_field ''file_path'' ''string'', optional_field ''heading'' ''string'',
       optional_field ''level'' ''int'', optional_field ''text_preview'' ''string'', json_field ''metadata'']
      [unique_index ''sections_original_id_idx'' [''original_id'']]"

definition entities_table :: schema_table where
  "entities_table =
     table ''entities''
      [field ''schema_version'' ''string'', field ''original_id'' ''string'',
       optional_field ''original_entity_name'' ''string'', field ''name'' ''string'',
       optional_field ''entity_type'' ''string'', optional_field ''source'' ''string'',
       json_field ''metadata'']
      [index ''entities_name_idx'' [''name'']]"

definition tags_table :: schema_table where
  "tags_table =
     table ''tags''
      [field ''schema_version'' ''string'', field ''original_id'' ''string'', field ''name'' ''string'',
       json_field ''metadata'']
      [index ''tags_name_idx'' [''name'']]"

definition relations_table :: schema_table where
  "relations_table =
     (table ''relations''
      [field ''schema_version'' ''string'', optional_field ''relation_id'' ''string'',
       field ''rel_type'' ''string'', optional_field ''relation_type'' ''string'',
       field ''weight'' ''number'', field ''source_id'' ''string'', field ''target_id'' ''string'',
       field ''source_table'' ''string'', field ''target_table'' ''string'', json_field ''properties'',
       json_field ''metadata'']
      [index ''relations_rel_type_idx'' [''rel_type''], index ''relations_target_id_idx'' [''target_id''],
       index ''relations_source_target_idx'' [''source_id'', ''target_id''],
       index ''relations_graph_direct_idx'' [''target_id'', ''rel_type'', ''source_table'']])\<lparr>tb_mode := Relation, tb_incoming := [''files'', ''sections'', ''entities'', ''tags''], tb_outgoing := [''files'', ''sections'', ''entities'', ''tags'']\<rparr>"

definition feedback_table :: schema_table where
  "feedback_table =
     table ''feedback''
      [field ''schema_version'' ''string'', field ''original_feedback_id'' ''string'',
       field ''status'' ''string'', field ''submitted_at'' ''datetime'',
       optional_field ''message'' ''string'', optional_field ''severity'' ''string'',
       optional_field ''context'' ''string'', optional_field ''model'' ''string'', json_field ''metadata'']
      [index ''feedback_status_idx'' [''status'']]"

definition cursors_table :: schema_table where
  "cursors_table =
     table ''cursors''
      [field ''schema_version'' ''string'', optional_field ''cursor_id'' ''string'',
       field ''namespace'' ''string'', field ''ref'' ''string'', field ''document_ref'' ''string'',
       optional_field ''active'' ''bool'', optional_field ''bound_at'' ''datetime'',
       optional_field ''unbound_at'' ''datetime'', json_field ''metadata'']
      [unique_index ''cursors_ref_idx'' [''ref'']]"

definition checkpoints_table :: schema_table where
  "checkpoints_table =
     table ''checkpoints''
      [field ''schema_version'' ''string'', field ''namespace'' ''string'',
       optional_field ''checkpoint_cursor'' ''string'', optional_field ''last_success_at'' ''datetime'',
       optional_field ''last_error'' ''string'', json_field ''metadata'']
      [unique_index ''checkpoints_namespace_idx'' [''namespace'']]"

definition stats_table :: schema_table where
  "stats_table =
     (table ''stats''
      [field ''schema_version'' ''string'', field ''name'' ''string'', field ''value'' ''number'',
       json_field ''metadata'']
      [unique_index ''stats_name_idx'' [''name'']])\<lparr>tb_optional := True\<rparr>"

definition schema_meta_table :: schema_table where
  "schema_meta_table =
     table ''schema_meta''
      [field ''schema_version'' ''string'', field ''catalog_name'' ''string'',
       optional_field ''required_categories'' ''array'', json_field ''metadata'']
      [unique_index ''schema_meta_catalog_idx'' [''catalog_name'']]"

definition schema_tables :: "schema_table list" where
  "schema_tables =
     [documents_table, source_units_table, chunks_table, provenance_table,
      chunk_file_bindings_table, bindings_table, fingerprints_table, embeddings_table,
      vector_components_table, files_table, sections_table, entities_table, tags_table,
      relations_table, feedback_table, cursors_table, checkpoints_table, stats_table,
      schema_meta_table]"

section \<open>Statements\<close>

definition field_statement :: "string \<Rightarrow> schema_field \<Rightarrow> string" where
  "field_statement table_name f =
     (let declared_type = (if sf_required f then sf_type f else ''option<'' @ sf_type f @ ''>'')
      in ''DEFINE FIELD '' @ sf_name f @ '' ON TABLE '' @ table_name @ '' TYPE '' @ declared_type @ '';'')"

definition field_statements :: "string \<Rightarrow> schema_mode \<Rightarrow> schema_field \<Rightarrow> string list" where
  "field_statements table_name mode f =
     field_statement table_name f #
     (if sf_flexible_json f \<and> mode = Schemafull
      then [''DEFINE FIELD '' @ sf_name f @ ''.* ON TABLE '' @ table_name
            @ '' TYPE option<object | string | number | bool | array> FLEXIBLE;'']
      else [])"

definition index_statement :: "string \<Rightarrow> schema_index \<Rightarrow> string" where
  "index_statement table_name i =
     ''DEFINE INDEX '' @ si_name i @ '' ON TABLE '' @ table_name @ '' COLUMNS ''
     @ py_join '', '' (si_columns i) @ (if si_unique i then '' UNIQUE'' else '''') @ '';''"

definition table_statement :: "schema_table \<Rightarrow> string" where
  "table_statement t =
     (if tb_mode t = Relation then ''DEFINE TABLE relations TYPE RELATION;''
      else ''DEFINE TABLE '' @ tb_name t @ '' '' @ mode_value (tb_mode t) @ '';'')"

definition statements_of :: "schema_table \<Rightarrow> string list" where
  "statements_of t =
     table_statement t # concat (map (field_statements (tb_name t) (tb_mode t)) (tb_fields t))
     @ map (index_statement (tb_name t)) (tb_indexes t)"

definition schema_statements :: "schema_table list \<Rightarrow> string list" where
  "schema_statements tables = concat (map statements_of tables)"

section \<open>The check of the plan\<close>

definition REQUIRED_MIGRATION_CATEGORIES :: "string list" where
  "REQUIRED_MIGRATION_CATEGORIES =
     [''documents'', ''source_units'', ''chunks'', ''provenance'', ''chunk_file_bindings'',
      ''bindings'', ''fingerprints'', ''embeddings'', ''vector_components'', ''files'',
      ''sections'', ''entities'', ''tags'', ''relations'', ''feedback'', ''cursors'',
      ''checkpoints'']"

definition REQUIRED_FIELDS :: "(string, string list) dict" where
  "REQUIRED_FIELDS =
     [(''documents'', [''schema_version'', ''namespace'', ''document_ref'', ''ref'',
         ''metadata'']),
      (''source_units'', [''schema_version'', ''namespace'', ''document_ref'', ''unit_ref'',
         ''metadata'']),
      (''chunks'', [''schema_version'', ''original_chunk_id'', ''chunk_strategy'',
         ''document_ref'', ''ref'', ''title'', ''tags_text'', ''text'', ''metadata'']),
      (''provenance'', [''schema_version'', ''chunk_id'', ''namespace'', ''document_ref'',
         ''source_unit_refs'', ''metadata'']),
      (''chunk_file_bindings'', [''schema_version'', ''chunk_id'', ''file_path'',
         ''chunk_index'', ''metadata'']),
      (''bindings'', [''schema_version'', ''namespace'', ''document_ref'', ''ref'', ''active'',
         ''bound_at'', ''unbound_at'', ''content_fingerprint'', ''metadata_fingerprint'',
         ''source_unit_refs'', ''metadata'']),
      (''fingerprints'', [''schema_version'', ''fingerprint_kind'', ''namespace'',
         ''document_ref'', ''metadata'']),
      (''embeddings'', [''schema_version'', ''chunk_id'', ''embedding_model'', ''text_hash'',
         ''vector_rowid'', ''vector'', ''metadata'']),
      (''vector_components'', [''schema_version'', ''chunk_id'', ''component'', ''embedding'',
         ''metadata'']),
      (''files'', [''schema_version'', ''original_id'', ''path'', ''metadata'']),
      (''sections'', [''schema_version'', ''original_id'', ''document_ref'', ''metadata'']),
      (''entities'', [''schema_version'', ''original_id'', ''name'', ''metadata'']),
      (''tags'', [''schema_version'', ''original_id'', ''name'', ''metadata'']),
      (''relations'', [''schema_version'', ''rel_type'', ''weight'', ''source_id'',
         ''target_id'', ''source_table'', ''target_table'', ''properties'', ''metadata'']),
      (''feedback'', [''schema_version'', ''original_feedback_id'', ''status'', ''submitted_at'',
         ''metadata'']),
      (''cursors'', [''schema_version'', ''namespace'', ''ref'', ''document_ref'', ''metadata'']),
      (''checkpoints'', [''schema_version'', ''namespace'', ''checkpoint_cursor'', ''metadata''])]"

text \<open>\<open>{table.name: table for table in plan.tables}\<close>: the last of a name.\<close>

definition find_table :: "schema_table list \<Rightarrow> string \<Rightarrow> schema_table option" where
  "find_table tables name = find (\<lambda>t. tb_name t = name) (rev tables)"

fun check_required_fields :: "schema_table list \<Rightarrow> (string, string list) dict \<Rightarrow> py_error + unit" where
  "check_required_fields tables [] = Inr ()"
| "check_required_fields tables ((name, required) # rest) =
     (case find_table tables name of
        None \<Rightarrow> check_required_fields tables rest
      | Some t \<Rightarrow>
          (let missing = filter (\<lambda>f. f \<notin> set (map sf_name (tb_fields t))) required
           in if missing \<noteq> [] then Inl (ValueError (''table '' @ name @ '' missing required fields: '' @ py_join '', '' missing))
              else check_required_fields tables rest))"

definition validate_schema_plan :: "schema_table list \<Rightarrow> py_error + unit" where
  "validate_schema_plan tables =
     (let missing = filter (\<lambda>n. find_table tables n = None) REQUIRED_MIGRATION_CATEGORIES
      in if missing \<noteq> [] then Inl (ValueError (''missing required schema categories: '' @ py_join '', '' missing))
         else check_required_fields tables REQUIRED_FIELDS)"

section \<open>Versions\<close>

definition SURREAL_SCHEMA_VERSION :: string where
  "SURREAL_SCHEMA_VERSION = ''42.1.0''"

definition KNOWN_COMPATIBLE_PREVIOUS_VERSIONS :: "string list" where
  "KNOWN_COMPATIBLE_PREVIOUS_VERSIONS = [''41.0.0'', ''41.1.0'']"

text \<open>\<open>char.isdigit()\<close> also holds of the superscript digits, which \<open>int\<close> does not accept.\<close>

definition str_isdigit :: "char \<Rightarrow> bool" where
  "str_isdigit c = (let n = of_char c :: nat in py_isdigit c \<or> n = 178 \<or> n = 179 \<or> n = 185)"

definition digits_int :: "string \<Rightarrow> py_error + int" where
  "digits_int s = (case py_int s of None \<Rightarrow> Inl (ValueError ''invalid literal for int() with base 10'') | Some i \<Rightarrow> Inr i)"

fun version_parts :: "string \<Rightarrow> string \<Rightarrow> py_error + int list" where
  "version_parts current [] = (if current = [] then Inr [] else try_bind (digits_int current) (\<lambda>i. Inr [i]))"
| "version_parts current (c # cs) =
     (if str_isdigit c then version_parts (current @ [c]) cs
      else if current = [] then version_parts [] cs
      else try_bind (digits_int current) (\<lambda>i. try_bind (version_parts [] cs) (\<lambda>is. Inr (i # is))))"

definition version_key :: "string \<Rightarrow> py_error + int list" where
  "version_key version = version_parts [] version"

section \<open>The apply decision\<close>

datatype apply_decision = PendingApply | AlreadyCurrent | ReplaceRequired

record apply_status =
  as_decision :: apply_decision
  as_reason :: string
  as_existing_version :: "string option"

definition inspect_existing_schema :: "string option \<Rightarrow> (string, string) dict \<Rightarrow> py_error + apply_status" where
  "inspect_existing_schema existing_version table_modes =
     (let status = (\<lambda>d reason v. Inr \<lparr>as_decision = d, as_reason = reason, as_existing_version = v\<rparr>);
          incompatible = status ReplaceRequired
            ''existing target schema is incompatible and must be recreated or replaced'' existing_version
      in if (existing_version = None \<or> existing_version = Some []) \<and> table_modes = []
         then status PendingApply [] None
         else if list_ex (\<lambda>(n, mode). py_upper mode = ''SCHEMALESS'') table_modes
         then status ReplaceRequired ''existing target includes SCHEMALESS tables from the Phase 38 prototype'' existing_version
         else if existing_version = Some SURREAL_SCHEMA_VERSION
         then status AlreadyCurrent [] (Some SURREAL_SCHEMA_VERSION)
         else case existing_version of
             None \<Rightarrow> incompatible
           | Some v \<Rightarrow>
               if v \<in> set KNOWN_COMPATIBLE_PREVIOUS_VERSIONS
               then status PendingApply (''upgrade-needed from '' @ v) (Some v)
               else try_bind (version_key v) (\<lambda>existing. try_bind (version_key SURREAL_SCHEMA_VERSION) (\<lambda>current.
                 if existing > current
                 then status ReplaceRequired (''existing target uses newer schema version '' @ v) (Some v)
                 else incompatible)))"

end
