(* ===== verification/Delta_Manifest.thy ===== *)
theory Delta_Manifest
  imports Reader Surreal_Schema "HOL-Library.Word"
begin

text \<open>
  The delta manifest of the incremental SurrealDB sync (the first half of
  \<open>ingestion/surreal_delta_sync.py\<close>): its records with their validators, its construction from
  transformed rows, and the phases a manifest is applied in.  A row is a dict from column names to
  cells: JSON values, float vectors, floats, timestamps and record ids.  The text of a cell
  outside JSON and the blake2b digest are parameters.
\<close>

section \<open>Rows\<close>

datatype cell = Json json | Floats "rat list" | Float rat | Time timestamp | RecordId string string

type_synonym delta_row = "(string, cell) dict"

record delta_env =
  dn_repr :: "cell \<Rightarrow> string"
  dn_digest :: "string \<Rightarrow> 64 word"

definition cell_str :: "delta_env \<Rightarrow> cell \<Rightarrow> string" where
  "cell_str dn c = (case c of Json j \<Rightarrow> py_str j | _ \<Rightarrow> dn_repr dn c)"

fun cell_truthy :: "cell \<Rightarrow> bool" where
  "cell_truthy (Json j) = truthy j"
| "cell_truthy (Floats v) = (v \<noteq> [])"
| "cell_truthy (Float x) = (x \<noteq> 0)"
| "cell_truthy (Time t) = True"
| "cell_truthy (RecordId t r) = True"

abbreviation none_cell :: cell where
  "none_cell \<equiv> Json JNull"

abbreviation str_cell :: "string \<Rightarrow> cell" where
  "str_cell s \<equiv> Json (JStr s)"

abbreviation empty_dict_cell :: cell where
  "empty_dict_cell \<equiv> Json (JObj [])"

abbreviation empty_list_cell :: cell where
  "empty_list_cell \<equiv> Json (JList [])"

text \<open>\<open>row.get(key)\<close>, \<open>row[key]\<close>, \<open>a or b\<close> and \<open>row.setdefault(key, value)\<close>.\<close>

definition row_get :: "delta_row \<Rightarrow> string \<Rightarrow> cell" where
  "row_get row key = dict_get_default row key none_cell"

definition row_item :: "delta_row \<Rightarrow> string \<Rightarrow> py_error + cell" where
  "row_item row key = (case dict_get row key of None \<Rightarrow> Inl (KeyError key) | Some v \<Rightarrow> Inr v)"

definition cell_or :: "cell \<Rightarrow> cell \<Rightarrow> cell" where
  "cell_or a b = (if cell_truthy a then a else b)"

definition setdefault :: "string \<Rightarrow> cell \<Rightarrow> delta_row \<Rightarrow> delta_row" where
  "setdefault key v row = (if dict_get row key = None then dict_set key v row else row)"

fun try_list :: "('a \<Rightarrow> py_error + 'b) \<Rightarrow> 'a list \<Rightarrow> py_error + 'b list" where
  "try_list f [] = Inr []"
| "try_list f (x # xs) = try_bind (f x) (\<lambda>y. try_bind (try_list f xs) (\<lambda>ys. Inr (y # ys)))"

definition stable_composite_ref :: "string list \<Rightarrow> string" where
  "stable_composite_ref parts = py_join [CHR 0x1F] parts"

text \<open>The digest read as an integer, without its sign bit; zero becomes one.\<close>

definition stable_vector_rowid :: "delta_env \<Rightarrow> string list \<Rightarrow> int" where
  "stable_vector_rowid dn parts =
     (let v = uint (and (dn_digest dn (stable_composite_ref parts)) (push_bit 63 1 - 1))
      in if v = 0 then 1 else v)"

section \<open>The records and their validators\<close>

datatype delta_scope = ChangedRows | WholeTable | WholeSource | WholeDatabase

record delta_selection =
  dl_scope :: delta_scope
  dl_source_name :: "string option"
  dl_table_name :: "string option"
  dl_database_name :: "string option"
  dl_changed_at :: "timestamp option"
  dl_cursor :: "string option"

abbreviation option_truthy :: "string option \<Rightarrow> bool" where
  "option_truthy x \<equiv> x \<noteq> None \<and> x \<noteq> Some []"

definition validate_selection :: "delta_selection \<Rightarrow> py_error + delta_selection" where
  "validate_selection s =
     (if dl_scope s \<noteq> ChangedRows
      then Inl (ValueError ''delta manifest must be derived from changed rows only'')
      else if \<not> (option_truthy (dl_source_name s) \<or> option_truthy (dl_table_name s)
                 \<or> option_truthy (dl_database_name s))
      then Inl (ValueError ''delta manifest must identify the changed source'')
      else Inr s)"

datatype change_type = Upsert | Tombstone

record delta_tombstone =
  dt_ref :: string
  dt_table :: string
  dt_deleted_at :: "timestamp option"
  dt_reason :: "string option"
  dt_previous_row :: delta_row

record delta_change =
  dc_ref :: string
  dc_table :: string
  dc_change_type :: change_type
  dc_row :: delta_row
  dc_tombstone :: "delta_tombstone option"

definition validate_change :: "delta_change \<Rightarrow> py_error + delta_change" where
  "validate_change c =
     (case dc_change_type c of
        Tombstone \<Rightarrow>
          (case dc_tombstone c of
             None \<Rightarrow> Inl (ValueError ''tombstone changes must include a tombstone payload'')
           | Some t \<Rightarrow>
               if dt_ref t \<noteq> dc_ref c then Inl (ValueError ''tombstone ref must match the change ref'')
               else if dt_table t \<noteq> dc_table c
               then Inl (ValueError ''tombstone table must match the change table'')
               else Inr c)
      | Upsert \<Rightarrow>
          (if dc_row c = [] then Inl (ValueError ''changed rows must include row payload'')
           else if dc_tombstone c \<noteq> None
           then Inl (ValueError ''upsert changes must not include tombstone payloads'')
           else Inr c))"

definition upsert_change :: "string \<Rightarrow> string \<Rightarrow> delta_row \<Rightarrow> py_error + delta_change" where
  "upsert_change ref tbl row =
     validate_change \<lparr>dc_ref = ref, dc_table = tbl, dc_change_type = Upsert, dc_row = row, dc_tombstone = None\<rparr>"

definition tombstone_change :: "string \<Rightarrow> string \<Rightarrow> delta_row \<Rightarrow> py_error + delta_change" where
  "tombstone_change ref tbl previous_row =
     validate_change \<lparr>dc_ref = ref, dc_table = tbl, dc_change_type = Tombstone, dc_row = [],
       dc_tombstone = Some \<lparr>dt_ref = ref, dt_table = tbl, dt_deleted_at = None, dt_reason = None,
                             dt_previous_row = previous_row\<rparr>\<rparr>"

record delta_section =
  dx_deferred :: bool
  dx_deferred_reason :: "string option"
  dx_rows :: "delta_change list"

definition empty_section :: delta_section where
  "empty_section = \<lparr>dx_deferred = False, dx_deferred_reason = None, dx_rows = []\<rparr>"

definition rows_section :: "delta_change list \<Rightarrow> delta_section" where
  "rows_section rows = \<lparr>dx_deferred = False, dx_deferred_reason = None, dx_rows = rows\<rparr>"

definition validate_section :: "delta_section \<Rightarrow> py_error + delta_section" where
  "validate_section s =
     (if dx_deferred s then
        (if dx_rows s \<noteq> [] then Inl (ValueError ''deferred sections must not include rows'')
         else if \<not> option_truthy (dx_deferred_reason s)
         then Inl (ValueError ''deferred sections must include a reason'')
         else Inr s)
      else if dx_deferred_reason s \<noteq> None
      then Inl (ValueError ''non-deferred sections must not include deferred_reason'')
      else Inr s)"

definition deferred_section :: "string \<Rightarrow> py_error + delta_section" where
  "deferred_section reason = validate_section \<lparr>dx_deferred = True, dx_deferred_reason = Some reason, dx_rows = []\<rparr>"

record checkpoint_candidate =
  kc_cursor :: string
  kc_watermark :: "string option"
  kc_source_time :: "timestamp option"
  kc_advanced :: bool

definition validate_candidate :: "checkpoint_candidate \<Rightarrow> py_error + checkpoint_candidate" where
  "validate_candidate k =
     (if kc_advanced k then Inl (ValueError ''delta manifest must not advance the checkpoint'') else Inr k)"

definition DELTA_MANIFEST_SCHEMA_VERSION :: string where
  "DELTA_MANIFEST_SCHEMA_VERSION = ''phase46_delta_manifest_v1''"

record delta_manifest =
  dm_schema_version :: string
  dm_source_selection :: delta_selection
  dm_checkpoint_candidate :: checkpoint_candidate
  dm_documents :: delta_section
  dm_source_units :: delta_section
  dm_chunks :: delta_section
  dm_chunk_file_bindings :: delta_section
  dm_provenance :: delta_section
  dm_resource_bindings :: delta_section
  dm_fingerprints :: delta_section
  dm_embeddings :: delta_section
  dm_vector_components :: delta_section
  dm_graph :: delta_section
  dm_feedback :: delta_section
  dm_created_at :: "timestamp option"

text \<open>The eleven sections, in the order the validator and the phases list them.\<close>

definition manifest_sections :: "delta_manifest \<Rightarrow> (string \<times> string \<times> delta_section) list" where
  "manifest_sections m =
     [(''documents'', ''write_documents'', dm_documents m),
      (''source_units'', ''write_source_units'', dm_source_units m),
      (''chunks'', ''write_chunks'', dm_chunks m),
      (''chunk_file_bindings'', ''write_chunk_file_bindings'', dm_chunk_file_bindings m),
      (''provenance'', ''write_provenance'', dm_provenance m),
      (''resource_bindings'', ''write_resource_bindings'', dm_resource_bindings m),
      (''fingerprints'', ''write_fingerprints'', dm_fingerprints m),
      (''embeddings'', ''write_embeddings'', dm_embeddings m),
      (''vector_components'', ''write_vector_components'', dm_vector_components m),
      (''graph'', ''write_graph'', dm_graph m),
      (''feedback'', ''write_feedback'', dm_feedback m)]"

definition validate_manifest :: "delta_manifest \<Rightarrow> py_error + delta_manifest" where
  "validate_manifest m =
     (if dm_schema_version m \<noteq> DELTA_MANIFEST_SCHEMA_VERSION
      then Inl (ValueError (''schema_version must be '' @ repr_str DELTA_MANIFEST_SCHEMA_VERSION))
      else if kc_advanced (dm_checkpoint_candidate m)
      then Inl (ValueError ''delta manifest must not advance the checkpoint'')
      else case find (\<lambda>(name, w, section). dx_deferred section) (take 9 (manifest_sections m)) of
          Some (name, w, section) \<Rightarrow>
            Inl (ValueError (name @ '' section cannot be deferred in phase 46 task 1''))
        | None \<Rightarrow>
            if list_all (\<lambda>(name, w, section). dx_rows section = []) (manifest_sections m)
            then Inl (ValueError ''delta manifest must include at least one changed row or tombstone'')
            else Inr m)"
section \<open>Building a manifest\<close>

text \<open>A section that is not given (\<open>documents or SurrealDeltaSection()\<close>) is an empty one.\<close>

definition build_manifest :: "delta_selection \<Rightarrow> checkpoint_candidate \<Rightarrow> delta_manifest \<Rightarrow> py_error + delta_manifest" where
  "build_manifest selection candidate sections =
     validate_manifest (sections\<lparr>dm_schema_version := DELTA_MANIFEST_SCHEMA_VERSION,
       dm_source_selection := selection, dm_checkpoint_candidate := candidate\<rparr>)"

definition no_sections :: delta_manifest where
  "no_sections =
     \<lparr>dm_schema_version = DELTA_MANIFEST_SCHEMA_VERSION,
      dm_source_selection = \<lparr>dl_scope = ChangedRows, dl_source_name = None, dl_table_name = None,
        dl_database_name = None, dl_changed_at = None, dl_cursor = None\<rparr>,
      dm_checkpoint_candidate = \<lparr>kc_cursor = [], kc_watermark = None, kc_source_time = None, kc_advanced = False\<rparr>,
      dm_documents = empty_section, dm_source_units = empty_section, dm_chunks = empty_section,
      dm_chunk_file_bindings = empty_section, dm_provenance = empty_section,
      dm_resource_bindings = empty_section, dm_fingerprints = empty_section,
      dm_embeddings = empty_section, dm_vector_components = empty_section,
      dm_graph = empty_section, dm_feedback = empty_section, dm_created_at = None\<rparr>"

text \<open>\<open>sorted(rows, key=lambda row: (row.table, row.ref))\<close>, stable.\<close>

definition sorted_changes :: "delta_change list \<Rightarrow> delta_change list" where
  "sorted_changes rows = sort_key (\<lambda>c. (dc_table c, dc_ref c)) rows"

definition row_document_ref :: "delta_env \<Rightarrow> delta_row \<Rightarrow> string option" where
  "row_document_ref dn row =
     (let document_ref = row_get row ''document_ref''
      in if document_ref = none_cell then None else Some (cell_str dn document_ref))"

definition selected_rows_by_document_ref :: "delta_env \<Rightarrow> delta_row list \<Rightarrow> string list \<Rightarrow> delta_row list" where
  "selected_rows_by_document_ref dn rows refs =
     filter (\<lambda>row. case row_document_ref dn row of None \<Rightarrow> False | Some ref \<Rightarrow> ref \<in> set refs) rows"

definition selected_rows_by_chunk_id :: "delta_env \<Rightarrow> delta_row list \<Rightarrow> string list \<Rightarrow> delta_row list" where
  "selected_rows_by_chunk_id dn rows chunk_ids =
     filter (\<lambda>row. let chunk_id = cell_or (cell_or (row_get row ''chunk_id'') (row_get row ''entity_id''))
                                    (row_get row ''original_chunk_id'')
                   in chunk_id \<noteq> none_cell \<and> cell_str dn chunk_id \<in> set chunk_ids) rows"

text \<open>\<open>{ref: dict(row) for row in rows if (ref := ...) is not None}\<close>: the last row of a reference.\<close>

fun documents_by_ref :: "delta_env \<Rightarrow> delta_row list \<Rightarrow> (string, delta_row) dict \<Rightarrow> (string, delta_row) dict" where
  "documents_by_ref dn [] acc = acc"
| "documents_by_ref dn (row # rows) acc =
     documents_by_ref dn rows
       (case row_document_ref dn row of None \<Rightarrow> acc | Some ref \<Rightarrow> dict_set ref row acc)"

text \<open>\<open>row.get(key) or <fallback>\<close>, where the fallback reads other columns and may raise.\<close>

definition ref_or :: "delta_env \<Rightarrow> cell \<Rightarrow> (py_error + string) \<Rightarrow> py_error + string" where
  "ref_or dn c fallback = (if cell_truthy c then Inr (cell_str dn c) else fallback)"

definition composite_of :: "delta_env \<Rightarrow> delta_row \<Rightarrow> string list \<Rightarrow> py_error + string" where
  "composite_of dn row keys =
     try_bind (try_list (row_item row) keys) (\<lambda>cs. Inr (stable_composite_ref (map (cell_str dn) cs)))"

definition namespaced_ref :: "delta_env \<Rightarrow> delta_row \<Rightarrow> py_error + string" where
  "namespaced_ref dn row =
     try_bind (row_item row ''namespace'') (\<lambda>n. try_bind (row_item row ''document_ref'') (\<lambda>d.
       Inr (cell_str dn n @ '':'' @ cell_str dn d)))"

definition document_change :: "delta_env \<Rightarrow> delta_row \<Rightarrow> py_error + delta_change" where
  "document_change dn row =
     try_bind (ref_or dn (row_get row ''ref'') (namespaced_ref dn row)) (\<lambda>ref.
       upsert_change ref ''source_documents'' row)"

definition document_tombstone :: "delta_env \<Rightarrow> delta_row \<Rightarrow> py_error + delta_change" where
  "document_tombstone dn row =
     try_bind (ref_or dn (row_get row ''ref'')
         (try_bind (row_item row ''document_ref'') (\<lambda>d. Inr (cell_str dn d)))) (\<lambda>ref.
       tombstone_change ref ''source_documents'' row)"

definition source_unit_change :: "delta_env \<Rightarrow> delta_row \<Rightarrow> py_error + delta_change" where
  "source_unit_change dn row =
     try_bind (ref_or dn (row_get row ''ref'') (composite_of dn row [''namespace'', ''document_ref'', ''unit_ref''])) (\<lambda>ref.
       upsert_change ref ''source_units'' row)"

definition chunk_change :: "delta_env \<Rightarrow> delta_row \<Rightarrow> py_error + delta_change" where
  "chunk_change dn row =
     upsert_change (cell_str dn (cell_or (cell_or (row_get row ''ref'') (row_get row ''chunk_id''))
         (row_get row ''original_chunk_id''))) ''chunks'' row"

definition chunk_file_binding_change :: "delta_env \<Rightarrow> delta_row \<Rightarrow> py_error + delta_change" where
  "chunk_file_binding_change dn row =
     try_bind (ref_or dn (row_get row ''binding_id'') (composite_of dn row [''chunk_id'', ''file_path'', ''chunk_index''])) (\<lambda>ref.
       upsert_change ref ''chunk_file_bindings'' row)"

definition provenance_change :: "delta_env \<Rightarrow> delta_row \<Rightarrow> py_error + delta_change" where
  "provenance_change dn row =
     try_bind (ref_or dn (row_get row ''provenance_id'') (composite_of dn row [''chunk_id'', ''namespace'', ''document_ref''])) (\<lambda>ref.
       upsert_change ref ''provenance'' row)"

definition resource_binding_change :: "delta_env \<Rightarrow> delta_row \<Rightarrow> py_error + delta_change" where
  "resource_binding_change dn row =
     try_bind (ref_or dn (row_get row ''ref'') (namespaced_ref dn row)) (\<lambda>ref.
       upsert_change ref ''bindings'' row)"

definition fingerprint_change :: "delta_env \<Rightarrow> delta_row \<Rightarrow> py_error + delta_change" where
  "fingerprint_change dn row =
     upsert_change (cell_str dn (cell_or (row_get row ''fingerprint_id'') (row_get row ''ref''))) ''fingerprints'' row"

definition embedding_change :: "delta_env \<Rightarrow> delta_row \<Rightarrow> py_error + delta_change" where
  "embedding_change dn row =
     try_bind (row_item row ''chunk_id'') (\<lambda>chunk_id.
       upsert_change (stable_composite_ref
           [cell_str dn (dict_get_default row ''chunk_strategy'' (str_cell [])),
            cell_str dn (dict_get_default row ''embedding_model'' (str_cell [])), cell_str dn chunk_id])
         ''embeddings'' row)"

definition vector_component_change :: "delta_env \<Rightarrow> delta_row \<Rightarrow> py_error + delta_change" where
  "vector_component_change dn row =
     try_bind (row_item row ''component'') (\<lambda>component.
       upsert_change (stable_composite_ref
           [cell_str dn (dict_get_default row ''chunk_strategy'' (str_cell [])),
            cell_str dn (dict_get_default row ''embedding_model'' (str_cell [])),
            cell_str dn (cell_or (row_get row ''chunk_id'') (row_get row ''entity_id'')), cell_str dn component])
         ''vector_components'' row)"

text \<open>The transformed tables, keyed by name; \<open>rows.get(name, ())\<close>.\<close>

type_synonym delta_tables = "(string, delta_row list) dict"

definition table_rows :: "delta_tables \<Rightarrow> string \<Rightarrow> delta_row list" where
  "table_rows tables name = dict_get_default tables name []"

definition live_changed_refs :: "string list \<Rightarrow> string list \<Rightarrow> string list" where
  "live_changed_refs changed tombstoned = filter (\<lambda>r. r \<noteq> [] \<and> r \<notin> set tombstoned) changed"

definition tombstoned_refs :: "string list \<Rightarrow> string list" where
  "tombstoned_refs tombstoned = sort (remdups (filter (\<lambda>r. r \<noteq> []) tombstoned))"

definition tombstoned_documents :: "delta_env \<Rightarrow> delta_row list \<Rightarrow> string list \<Rightarrow> delta_row list" where
  "tombstoned_documents dn rows tombstoned =
     map (\<lambda>ref. dict_get_default (documents_by_ref dn rows []) ref [(''document_ref'', str_cell ref)])
       (tombstoned_refs tombstoned)"

definition sorted_section :: "(py_error + delta_change list) \<Rightarrow> py_error + delta_section" where
  "sorted_section rows = try_bind rows (\<lambda>cs. Inr (rows_section (sorted_changes cs)))"

definition selected_chunk_ids :: "delta_env \<Rightarrow> delta_row list \<Rightarrow> string list" where
  "selected_chunk_ids dn rows =
     map (\<lambda>row. cell_str dn (row_get row ''chunk_id''))
       (filter (\<lambda>row. row_get row ''chunk_id'' \<noteq> none_cell) rows)"

definition build_manifest_from_rows ::
    "delta_env \<Rightarrow> delta_selection \<Rightarrow> checkpoint_candidate \<Rightarrow> delta_tables \<Rightarrow> string list \<Rightarrow> string list \<Rightarrow>
     string \<Rightarrow> string \<Rightarrow> delta_row list \<Rightarrow> delta_row list \<Rightarrow> py_error + delta_manifest" where
  "build_manifest_from_rows dn selection candidate tables changed tombstoned
     graph_reason feedback_reason embedding_rows component_rows =
     (let live = live_changed_refs changed tombstoned;
          documents = table_rows tables ''documents'';
          chunk_rows = selected_rows_by_document_ref dn (table_rows tables ''chunks'') live;
          chunk_ids = selected_chunk_ids dn chunk_rows;
          by_document = (\<lambda>name. selected_rows_by_document_ref dn (table_rows tables name) live);
          by_chunk = (\<lambda>rows. selected_rows_by_chunk_id dn rows chunk_ids)
      in try_bind (sorted_section
           (try_bind (try_list (document_change dn) (by_document ''documents'')) (\<lambda>changes.
            try_bind (try_list (document_tombstone dn) (tombstoned_documents dn documents tombstoned)) (\<lambda>tombs.
              Inr (changes @ tombs))))) (\<lambda>docs.
         try_bind (sorted_section (try_list (source_unit_change dn) (by_document ''source_units''))) (\<lambda>units.
         try_bind (sorted_section (try_list (chunk_change dn) chunk_rows)) (\<lambda>chunks.
         try_bind (sorted_section (try_list (chunk_file_binding_change dn)
           (by_chunk (table_rows tables ''chunk_file_bindings'')))) (\<lambda>files.
         try_bind (sorted_section (try_list (provenance_change dn) (by_document ''provenance''))) (\<lambda>prov.
         try_bind (sorted_section (try_list (resource_binding_change dn) (by_document ''bindings''))) (\<lambda>binds.
         try_bind (sorted_section (try_list (fingerprint_change dn) (by_document ''fingerprints''))) (\<lambda>fps.
         try_bind (sorted_section (try_list (embedding_change dn)
           (by_chunk (if embedding_rows \<noteq> [] then embedding_rows else table_rows tables ''embeddings'')))) (\<lambda>embs.
         try_bind (sorted_section (try_list (vector_component_change dn)
           (by_chunk (if component_rows \<noteq> [] then component_rows else table_rows tables ''vector_components'')))) (\<lambda>comps.
         try_bind (deferred_section graph_reason) (\<lambda>graph.
         try_bind (deferred_section feedback_reason) (\<lambda>feedback.
           build_manifest selection candidate (no_sections\<lparr>dm_documents := docs, dm_source_units := units,
             dm_chunks := chunks, dm_chunk_file_bindings := files, dm_provenance := prov,
             dm_resource_bindings := binds, dm_fingerprints := fps, dm_embeddings := embs,
             dm_vector_components := comps, dm_graph := graph, dm_feedback := feedback\<rparr>)))))))))))))"

section \<open>The phases of a manifest\<close>

record sync_phase =
  sp_name :: string
  sp_writer_method :: string
  sp_rows :: "delta_change list"

abbreviation is_tombstone :: "delta_change \<Rightarrow> bool" where
  "is_tombstone c \<equiv> dc_change_type c = Tombstone"

definition manifest_tombstones :: "delta_manifest \<Rightarrow> delta_change list" where
  "manifest_tombstones m =
     sort_key (\<lambda>c. (dc_table c, dc_ref c))
       (concat (map (\<lambda>(name, w, section). filter is_tombstone (dx_rows section)) (manifest_sections m)))"

definition section_phase :: "string \<times> string \<times> delta_section \<Rightarrow> sync_phase" where
  "section_phase x =
     (case x of (name, writer_method, section) \<Rightarrow>
        \<lparr>sp_name = name, sp_writer_method = writer_method,
         sp_rows = (if dx_deferred section then []
                    else filter (\<lambda>c. dc_change_type c = Upsert) (sorted_changes (dx_rows section)))\<rparr>)"

definition manifest_units :: "delta_manifest \<Rightarrow> sync_phase list" where
  "manifest_units m =
     \<lparr>sp_name = ''tombstones'', sp_writer_method = ''delete_tombstones'', sp_rows = manifest_tombstones m\<rparr>
     # map section_phase (manifest_sections m)
     @ [\<lparr>sp_name = ''checkpoint_candidate'', sp_writer_method = ''write_checkpoint_candidate'', sp_rows = []\<rparr>]"

definition phase_units :: "sync_phase \<Rightarrow> nat" where
  "phase_units p = (if sp_name p = ''checkpoint_candidate'' then 1 else length (sp_rows p))"

section \<open>The writer protocol\<close>

text \<open>
  A writer over a state: the methods that take a batch of changes by name, and the one that takes
  the checkpoint candidate.  A call that raises still leaves the state it reached.
\<close>

record 'w sync_writer =
  sw_method :: "string \<Rightarrow> (delta_change list \<Rightarrow> 'w \<Rightarrow> 'w \<times> (py_error + int)) option"
  sw_checkpoint :: "checkpoint_candidate \<Rightarrow> 'w \<Rightarrow> 'w \<times> (py_error + int)"

end
