(* ===== verification/Delta_Writer.thy ===== *)
theory Delta_Writer
  imports Delta_Manifest
begin

text \<open>
  The store writer of the incremental sync (\<open>SurrealDeltaStoreWriter\<close> in
  \<open>ingestion/surreal_delta_sync.py\<close>) over a connection to a SurrealDB database.  The database maps a
  record id, kept as the table and the raw identifier it encodes, to the row stored last; a table
  is scanned in the order of its first insertions.  A remote call can fail before or after its
  effect; the connection holds the faults of the calls to come.  \<open>INSERT RELATION\<close> is a parameter.
\<close>

section \<open>The connection\<close>

type_synonym database = "(string \<times> string, delta_row) dict"

datatype fault = NoFault | Lost py_error | Late py_error

record connection =
  cn_db :: database
  cn_faults :: "fault list"

type_synonym 'a remote = "connection \<Rightarrow> connection \<times> (py_error + 'a)"

definition remote_call :: "(database \<Rightarrow> database \<times> (py_error + 'a)) \<Rightarrow> 'a remote" where
  "remote_call f c =
     (let fault = (case cn_faults c of [] \<Rightarrow> NoFault | x # _ \<Rightarrow> x);
          c1 = c\<lparr>cn_faults := tl (cn_faults c)\<rparr>;
          (db, result) = f (cn_db c)
      in case fault of
           NoFault \<Rightarrow> (c1\<lparr>cn_db := db\<rparr>, result)
         | Lost e \<Rightarrow> (c1, Inl e)
         | Late e \<Rightarrow> (c1\<lparr>cn_db := db\<rparr>, Inl e))"

definition remote_return :: "'a \<Rightarrow> 'a remote" where
  "remote_return x c = (c, Inr x)"

definition remote_bind :: "'a remote \<Rightarrow> ('a \<Rightarrow> 'b remote) \<Rightarrow> 'b remote" where
  "remote_bind m f c =
     (case m c of (c1, Inl e) \<Rightarrow> (c1, Inl e) | (c1, Inr x) \<Rightarrow> f x c1)"

definition remote_select :: "string \<times> string \<Rightarrow> delta_row option remote" where
  "remote_select rid = remote_call (\<lambda>db. (db, Inr (dict_get db rid)))"

definition remote_upsert :: "string \<times> string \<Rightarrow> delta_row \<Rightarrow> unit remote" where
  "remote_upsert rid row = remote_call (\<lambda>db. (dict_set rid row db, Inr ()))"

definition remote_delete :: "string \<times> string \<Rightarrow> unit remote" where
  "remote_delete rid = remote_call (\<lambda>db. (dict_pop rid db, Inr ()))"

definition scan_table :: "string \<Rightarrow> database \<Rightarrow> ((string \<times> string) \<times> delta_row) list" where
  "scan_table tbl db = filter (\<lambda>(rid, row). fst rid = tbl) db"

definition remote_scan :: "string \<Rightarrow> ((string \<times> string) \<times> delta_row) list remote" where
  "remote_scan tbl = remote_call (\<lambda>db. (db, Inr (scan_table tbl db)))"

type_synonym insert_relations = "(string \<times> delta_row) list \<Rightarrow> database \<Rightarrow> database \<times> (py_error + unit)"

section \<open>Equality of rows\<close>

text \<open>
  Python's \<open>==\<close> on the values of a row: a bool equals the int of its value, a float the int it
  is, dicts are equal whatever their order.  \<open>cell_norm\<close> maps equal cells to one form.
\<close>

fun json_norm :: "json \<Rightarrow> json" where
  "json_norm (JBool b) = JInt (if b then 1 else 0)"
| "json_norm (JList xs) = JList (map json_norm xs)"
| "json_norm (JObj ps) = JObj (sort_key fst (AList.clearjunk (map (\<lambda>(k, v). (k, json_norm v)) ps)))"
| "json_norm j = j"

definition is_integral :: "rat \<Rightarrow> bool" where
  "is_integral x = (of_int (floor x) = x)"

fun cell_norm :: "cell \<Rightarrow> cell" where
  "cell_norm (Json j) = Json (json_norm j)"
| "cell_norm (Float x) = (if is_integral x then Json (JInt (floor x)) else Float x)"
| "cell_norm (Floats xs) =
     (if list_all is_integral xs then Json (JList (map (\<lambda>x. JInt (floor x)) xs)) else Floats xs)"
| "cell_norm c = c"

definition row_eq :: "delta_row \<Rightarrow> delta_row \<Rightarrow> bool" where
  "row_eq l r =
     list_all (\<lambda>k. map_option cell_norm (dict_get l k) = map_option cell_norm (dict_get r k))
       (dict_keys l @ dict_keys r)"

definition same_row :: "delta_row option \<Rightarrow> delta_row \<Rightarrow> bool" where
  "same_row left right =
     (case left of None \<Rightarrow> False | Some l \<Rightarrow> row_eq (dict_pop ''id'' l) (dict_pop ''id'' right))"

section \<open>Tables and identifiers\<close>

definition TABLE_ALIASES :: "(string, string) dict" where
  "TABLE_ALIASES =
     [(''source_documents'', ''documents''), (''source_unit_fingerprints'', ''source_units''),
      (''chunk_provenance'', ''provenance''), (''resource_bindings'', ''bindings'')]"

definition normalize_table_name :: "string \<Rightarrow> string" where
  "normalize_table_name tbl = dict_get_default TABLE_ALIASES tbl tbl"

definition record_id :: "string \<Rightarrow> string \<Rightarrow> py_error + (string \<times> string)" where
  "record_id tbl raw =
     (let t = normalize_table_name tbl
      in if t = [] then Inl (ValueError ''table_name must not be empty'') else Inr (t, raw))"

text \<open>The first of the columns that is not None, else the reference of the change.\<close>

definition first_column :: "delta_env \<Rightarrow> string list \<Rightarrow> delta_change \<Rightarrow> string" where
  "first_column dn keys c =
     (case find (\<lambda>k. row_get (dc_row c) k \<noteq> none_cell) keys of
        Some k \<Rightarrow> cell_str dn (row_get (dc_row c) k)
      | None \<Rightarrow> dc_ref c)"

text \<open>The composite reference of the cells when none of them is None.\<close>

definition composite_cells :: "delta_env \<Rightarrow> cell list \<Rightarrow> string option" where
  "composite_cells dn cs =
     (if list_all (\<lambda>c. c \<noteq> none_cell) cs then Some (stable_composite_ref (map (cell_str dn) cs)) else None)"

definition composite_or_ref :: "delta_env \<Rightarrow> cell list \<Rightarrow> delta_change \<Rightarrow> string" where
  "composite_or_ref dn cs c = (case composite_cells dn cs of Some s \<Rightarrow> s | None \<Rightarrow> dc_ref c)"

definition columns :: "delta_change \<Rightarrow> string list \<Rightarrow> cell list" where
  "columns c keys = map (row_get (dc_row c)) keys"

definition document_raw_identifier :: "delta_env \<Rightarrow> delta_change \<Rightarrow> string" where
  "document_raw_identifier dn c =
     (let ref = row_get (dc_row c) ''ref'' in if cell_truthy ref then cell_str dn ref else dc_ref c)"

definition source_unit_raw_identifier :: "delta_env \<Rightarrow> delta_change \<Rightarrow> string" where
  "source_unit_raw_identifier dn c =
     (if row_get (dc_row c) ''ref'' \<noteq> none_cell then cell_str dn (row_get (dc_row c) ''ref'')
      else composite_or_ref dn (columns c [''namespace'', ''document_ref'', ''unit_ref'']) c)"

definition chunk_raw_identifier :: "delta_env \<Rightarrow> delta_change \<Rightarrow> string" where
  "chunk_raw_identifier dn c = first_column dn [''chunk_id'', ''original_chunk_id''] c"

definition chunk_file_binding_raw_identifier :: "delta_env \<Rightarrow> delta_change \<Rightarrow> string" where
  "chunk_file_binding_raw_identifier dn c =
     (if row_get (dc_row c) ''binding_id'' \<noteq> none_cell then cell_str dn (row_get (dc_row c) ''binding_id'')
      else composite_or_ref dn (columns c [''chunk_id'', ''file_path'', ''chunk_index'']) c)"

definition provenance_raw_identifier :: "delta_env \<Rightarrow> delta_change \<Rightarrow> string" where
  "provenance_raw_identifier dn c =
     (if row_get (dc_row c) ''provenance_id'' \<noteq> none_cell then cell_str dn (row_get (dc_row c) ''provenance_id'')
      else composite_or_ref dn (columns c [''chunk_id'', ''namespace'', ''document_ref'']) c)"

definition binding_raw_identifier :: "delta_env \<Rightarrow> delta_change \<Rightarrow> string" where
  "binding_raw_identifier dn c = composite_or_ref dn (columns c [''namespace'', ''resource_ref'']) c"

definition fingerprint_raw_identifier :: "delta_env \<Rightarrow> delta_change \<Rightarrow> string" where
  "fingerprint_raw_identifier dn c = first_column dn [''fingerprint_id''] c"

definition embedding_raw_identifier :: "delta_env \<Rightarrow> delta_change \<Rightarrow> string" where
  "embedding_raw_identifier dn c =
     composite_or_ref dn (columns c [''chunk_strategy'', ''embedding_model'', ''chunk_id'']) c"

definition vector_component_raw_identifier :: "delta_env \<Rightarrow> delta_change \<Rightarrow> string" where
  "vector_component_raw_identifier dn c =
     (let row = dc_row c;
          owner = cell_or (row_get row ''chunk_id'') (row_get row ''entity_id'')
      in composite_or_ref dn [row_get row ''chunk_strategy'', row_get row ''embedding_model'', owner,
           row_get row ''component''] c)"

definition feedback_raw_identifier :: "delta_env \<Rightarrow> delta_change \<Rightarrow> string" where
  "feedback_raw_identifier dn c = first_column dn [''original_feedback_id''] c"

definition graph_file_raw_identifier :: "delta_env \<Rightarrow> delta_change \<Rightarrow> string" where
  "graph_file_raw_identifier dn c = first_column dn [''original_id'', ''path''] c"

definition graph_section_raw_identifier :: "delta_env \<Rightarrow> delta_change \<Rightarrow> string" where
  "graph_section_raw_identifier dn c = first_column dn [''original_id'', ''chunk_id''] c"

definition graph_entity_raw_identifier :: "delta_env \<Rightarrow> delta_change \<Rightarrow> string" where
  "graph_entity_raw_identifier dn c = first_column dn [''original_id'', ''name''] c"

definition graph_tag_raw_identifier :: "delta_env \<Rightarrow> delta_change \<Rightarrow> string" where
  "graph_tag_raw_identifier dn c = first_column dn [''original_id'', ''name''] c"

definition graph_relation_raw_identifier :: "delta_env \<Rightarrow> delta_change \<Rightarrow> string" where
  "graph_relation_raw_identifier dn c =
     (let row = dc_row c;
          rel_type = cell_or (row_get row ''rel_type'') (row_get row ''relation_type'')
      in if row_get row ''relation_id'' \<noteq> none_cell then cell_str dn (row_get row ''relation_id'')
         else composite_or_ref dn [row_get row ''source_id'', row_get row ''target_id'', rel_type] c)"

text \<open>The identifier of a tombstone is computed from the previous row, except for documents.\<close>

definition raw_identifier_selectors :: "(string, delta_env \<Rightarrow> delta_change \<Rightarrow> string) dict" where
  "raw_identifier_selectors =
     [(''files'', graph_file_raw_identifier), (''sections'', graph_section_raw_identifier),
      (''entities'', graph_entity_raw_identifier), (''tags'', graph_tag_raw_identifier),
      (''relations'', graph_relation_raw_identifier), (''source_units'', source_unit_raw_identifier),
      (''chunks'', chunk_raw_identifier), (''chunk_file_bindings'', chunk_file_binding_raw_identifier),
      (''provenance'', provenance_raw_identifier), (''bindings'', binding_raw_identifier),
      (''fingerprints'', fingerprint_raw_identifier), (''embeddings'', embedding_raw_identifier),
      (''vector_components'', vector_component_raw_identifier), (''feedback'', feedback_raw_identifier)]"

definition tombstone_raw_identifier :: "delta_env \<Rightarrow> delta_tombstone \<Rightarrow> delta_change \<Rightarrow> string" where
  "tombstone_raw_identifier dn t c =
     (let tbl = normalize_table_name (dt_table t);
          ref = (if dt_ref t \<noteq> [] then dt_ref t else dc_ref c)
      in if tbl = ''documents'' \<or> dt_previous_row t = [] then ref
         else case dict_get raw_identifier_selectors tbl of
             None \<Rightarrow> ref
           | Some selector \<Rightarrow>
               selector dn \<lparr>dc_ref = dt_ref t, dc_table = tbl, dc_change_type = Upsert,
                            dc_row = dt_previous_row t, dc_tombstone = None\<rparr>)"

section \<open>Preparing a payload\<close>

definition missing_text :: "cell \<Rightarrow> bool" where
  "missing_text c = (c = none_cell \<or> c = str_cell [])"

definition graph_endpoint :: "delta_env \<Rightarrow> cell \<Rightarrow> cell \<Rightarrow> py_error + cell option" where
  "graph_endpoint dn tbl raw =
     (if missing_text tbl \<or> missing_text raw then Inr None
      else try_bind (record_id (cell_str dn tbl) (cell_str dn raw)) (\<lambda>(t, r). Inr (Some (RecordId t r))))"

text \<open>\<open>setdefault\<close> of both record ids of a relation, where they can be derived.\<close>

definition set_endpoints :: "delta_env \<Rightarrow> delta_row \<Rightarrow> py_error + delta_row" where
  "set_endpoints dn p =
     try_bind (graph_endpoint dn (row_get p ''source_table'') (row_get p ''source_id'')) (\<lambda>source.
     try_bind (graph_endpoint dn (row_get p ''target_table'') (row_get p ''target_id'')) (\<lambda>target.
       let p = (case source of None \<Rightarrow> p | Some r \<Rightarrow> setdefault ''in'' r p)
       in Inr (case target of None \<Rightarrow> p | Some r \<Rightarrow> setdefault ''out'' r p)))"

definition set_relation_type :: "delta_row \<Rightarrow> delta_row" where
  "set_relation_type p =
     (let rel_type = cell_or (row_get p ''rel_type'') (row_get p ''relation_type'')
      in if rel_type = none_cell then p
         else setdefault ''relation_type'' rel_type (setdefault ''rel_type'' rel_type p))"

definition METADATA_TABLES :: "string list" where
  "METADATA_TABLES =
     [''documents'', ''source_units'', ''provenance'', ''chunk_file_bindings'', ''bindings'',
      ''fingerprints'', ''embeddings'', ''vector_components'', ''feedback'', ''chunks'']"

definition set_vector_rowid :: "delta_env \<Rightarrow> string list \<Rightarrow> delta_row \<Rightarrow> delta_row" where
  "set_vector_rowid dn fallback p =
     dict_set ''vector_rowid'' (Json (JInt (stable_vector_rowid dn
       (case composite_cells dn [row_get p ''chunk_strategy'', row_get p ''embedding_model'', row_get p ''chunk_id'']
        of Some _ \<Rightarrow> map (cell_str dn)
                     [row_get p ''chunk_strategy'', row_get p ''embedding_model'', row_get p ''chunk_id'']
         | None \<Rightarrow> fallback)))) p"

text \<open>The defaults of every table but \<open>vector_components\<close> and \<open>relations\<close>, which can fail.\<close>

definition set_defaults :: "delta_env \<Rightarrow> string \<Rightarrow> string \<Rightarrow> delta_row \<Rightarrow> delta_row" where
  "set_defaults dn tbl raw p =
     (let p = setdefault ''schema_version'' (str_cell SURREAL_SCHEMA_VERSION) p;
          p = (if tbl \<in> set METADATA_TABLES then setdefault ''metadata'' empty_dict_cell p else p)
      in if tbl = ''chunks'' then
           setdefault ''source_unit_refs'' empty_list_cell
             (setdefault ''file_bindings'' empty_list_cell (setdefault ''file_paths'' empty_list_cell p))
         else if tbl = ''bindings'' then setdefault ''resource_ref'' (row_get p ''document_ref'') p
         else if tbl = ''provenance'' then setdefault ''source_unit_refs'' empty_list_cell p
         else if tbl = ''embeddings'' then
           (let p = setdefault ''vector'' empty_list_cell p
            in if missing_text (row_get p ''vector_rowid'') then set_vector_rowid dn [tbl, raw] p else p)
         else if tbl = ''vector_components'' then
           (let p = setdefault ''embedding'' empty_list_cell p
            in setdefault ''chunk_id'' (row_get p ''entity_id'') p)
         else if tbl = ''feedback'' then
           setdefault ''submitted_at'' none_cell (setdefault ''original_feedback_id'' (str_cell raw) p)
         else if tbl = ''files'' then
           (let p = setdefault ''original_id'' (str_cell raw) p;
                p = setdefault ''path'' (cell_or (cell_or (row_get p ''path'') (row_get p ''file_path'')) (str_cell raw)) p
            in setdefault ''file_path'' (cell_or (row_get p ''file_path'') (row_get p ''path'')) p)
         else if tbl = ''sections'' then
           (let p = setdefault ''original_id'' (str_cell raw) p
            in setdefault ''chunk_id'' (cell_or (row_get p ''chunk_id'') (str_cell raw)) p)
         else if tbl = ''entities'' then
           (let p = setdefault ''original_id'' (str_cell raw) p;
                p = setdefault ''name'' (cell_or (row_get p ''name'') (str_cell raw)) p
            in setdefault ''original_entity_name''
                 (cell_or (row_get p ''original_entity_name'') (row_get p ''name'')) p)
         else if tbl = ''tags'' then
           (let p = setdefault ''original_id'' (str_cell raw) p
            in setdefault ''name'' (cell_or (row_get p ''name'') (str_cell raw)) p)
         else if tbl = ''relations'' then
           setdefault ''properties'' empty_dict_cell (setdefault ''weight'' (Float 1)
             (set_relation_type (setdefault ''relation_id'' (str_cell raw) p)))
         else p)"

definition allowed_fields :: "string \<Rightarrow> string list option" where
  "allowed_fields tbl =
     (case find_table schema_tables tbl of
        None \<Rightarrow> None
      | Some t \<Rightarrow> Some (map sf_name (tb_fields t)
          @ (if tbl = ''checkpoints'' then [''last_success_at'', ''last_error'']
             else if tbl = ''relations'' then [''in'', ''out''] else [])))"

definition keep_allowed :: "string \<Rightarrow> delta_row \<Rightarrow> delta_row" where
  "keep_allowed tbl p =
     (case allowed_fields tbl of None \<Rightarrow> p | Some fs \<Rightarrow> filter (\<lambda>(k, v). k \<in> set fs) p)"

text \<open>\<open>_embedding_row_for_chunk\<close>: the first embedding row of the chunk.\<close>

definition embedding_row_for_chunk :: "delta_env \<Rightarrow> string \<Rightarrow> delta_row option remote" where
  "embedding_row_for_chunk dn chunk_id =
     remote_bind (remote_scan ''embeddings'') (\<lambda>rows.
       remote_return (find (\<lambda>row. cell_str dn (row_get row ''chunk_id'') = chunk_id) (map snd rows)))"

definition set_embedding_owner :: "delta_env \<Rightarrow> delta_row \<Rightarrow> delta_row remote" where
  "set_embedding_owner dn p =
     (let chunk_id = row_get p ''chunk_id''
      in if chunk_id \<noteq> none_cell
           \<and> (row_get p ''chunk_strategy'' = none_cell \<or> row_get p ''embedding_model'' = none_cell)
         then remote_bind (embedding_row_for_chunk dn (cell_str dn chunk_id)) (\<lambda>found.
           remote_return (case found of
               None \<Rightarrow> p
             | Some e \<Rightarrow> setdefault ''embedding_model'' (row_get e ''embedding_model'')
                 (setdefault ''chunk_strategy'' (row_get e ''chunk_strategy'') p)))
         else remote_return p)"

definition remote_lift :: "(py_error + 'a) \<Rightarrow> 'a remote" where
  "remote_lift r c = (c, r)"

definition prepare_payload :: "delta_env \<Rightarrow> string \<Rightarrow> string \<Rightarrow> delta_row \<Rightarrow> delta_row remote" where
  "prepare_payload dn table_name raw payload =
     (let tbl = normalize_table_name table_name;
          p = set_defaults dn tbl raw payload
      in remote_bind
           (if tbl = ''vector_components'' then set_embedding_owner dn p
            else if tbl = ''relations'' then remote_lift (set_endpoints dn p)
            else remote_return p)
           (\<lambda>p. remote_return (keep_allowed tbl p)))"

section \<open>Point writes\<close>

definition existing_row :: "string \<times> string \<Rightarrow> delta_row option remote" where
  "existing_row rid = remote_select rid"

definition upsert_point :: "delta_env \<Rightarrow> string \<Rightarrow> string \<Rightarrow> delta_row \<Rightarrow> int remote" where
  "upsert_point dn table_name raw payload =
     remote_bind (remote_lift (record_id (normalize_table_name table_name) raw)) (\<lambda>rid.
     remote_bind (existing_row rid) (\<lambda>existing.
     remote_bind (prepare_payload dn table_name raw payload) (\<lambda>prepared.
       if same_row existing prepared then remote_return 0
       else remote_bind (remote_upsert rid prepared) (\<lambda>_. remote_return 1))))"

text \<open>The loop every \<open>write_*\<close> method runs: the sum of what its rows applied.\<close>

fun write_each :: "(delta_change \<Rightarrow> int remote) \<Rightarrow> delta_change list \<Rightarrow> int remote" where
  "write_each f [] = remote_return 0"
| "write_each f (c # cs) =
     remote_bind (f c) (\<lambda>n. remote_bind (write_each f cs) (\<lambda>m. remote_return (n + m)))"

definition delete_tombstone :: "delta_env \<Rightarrow> delta_change \<Rightarrow> int remote" where
  "delete_tombstone dn c =
     (let tbl = normalize_table_name (case dc_tombstone c of Some t \<Rightarrow> dt_table t | None \<Rightarrow> dc_table c);
          ref = (case dc_tombstone c of Some t \<Rightarrow> tombstone_raw_identifier dn t c | None \<Rightarrow> dc_ref c)
      in remote_bind (remote_lift (record_id tbl ref)) (\<lambda>rid.
         remote_bind (existing_row rid) (\<lambda>existing.
           if existing = None then remote_return 0
           else remote_bind (remote_delete rid) (\<lambda>_. remote_return 1))))"

text \<open>\<open>raw_identifier.split(":", 1)\<close> of a text with a colon.\<close>

definition split_namespace :: "string \<Rightarrow> (string \<times> string) option" where
  "split_namespace s =
     (if CHR '':'' \<in> set s then Some (takeWhile (\<lambda>c. c \<noteq> CHR '':'') s, tl (dropWhile (\<lambda>c. c \<noteq> CHR '':'') s))
      else None)"

definition document_payload :: "delta_env \<Rightarrow> delta_change \<Rightarrow> delta_row" where
  "document_payload dn c =
     (let raw = document_raw_identifier dn c;
          row = setdefault ''ref'' (str_cell raw) (dc_row c);
          row = (case split_namespace raw of
                   None \<Rightarrow> row
                 | Some (ns, ref) \<Rightarrow> setdefault ''document_ref'' (str_cell ref) (setdefault ''namespace'' (str_cell ns) row))
      in setdefault ''metadata'' empty_dict_cell row)"

definition source_unit_payload :: "delta_env \<Rightarrow> delta_change \<Rightarrow> delta_row" where
  "source_unit_payload dn c =
     setdefault ''metadata'' empty_dict_cell
       (setdefault ''ref'' (str_cell (source_unit_raw_identifier dn c)) (dc_row c))"

definition chunk_payload :: "delta_env \<Rightarrow> delta_change \<Rightarrow> delta_row" where
  "chunk_payload dn c =
     (let raw = str_cell (chunk_raw_identifier dn c);
          row = dc_row c;
          row = setdefault ''chunk_id'' (cell_or (row_get row ''chunk_id'') raw) row;
          row = setdefault ''original_chunk_id'' (cell_or (row_get row ''original_chunk_id'') (row_get row ''chunk_id'')) row
      in setdefault ''metadata'' empty_dict_cell (setdefault ''ref'' raw row))"

definition chunk_file_binding_payload :: "delta_env \<Rightarrow> delta_change \<Rightarrow> delta_row" where
  "chunk_file_binding_payload dn c =
     setdefault ''metadata'' empty_dict_cell
       (setdefault ''binding_id'' (str_cell (chunk_file_binding_raw_identifier dn c)) (dc_row c))"

definition provenance_payload :: "delta_env \<Rightarrow> delta_change \<Rightarrow> delta_row" where
  "provenance_payload dn c =
     setdefault ''metadata'' empty_dict_cell (setdefault ''source_unit_refs'' empty_list_cell
       (setdefault ''provenance_id'' (str_cell (provenance_raw_identifier dn c)) (dc_row c)))"

definition binding_payload :: "delta_env \<Rightarrow> delta_change \<Rightarrow> delta_row" where
  "binding_payload dn c =
     (let row = setdefault ''ref'' (str_cell (binding_raw_identifier dn c)) (dc_row c);
          row = setdefault ''resource_ref'' (cell_or (row_get row ''resource_ref'') (row_get row ''document_ref'')) row
      in setdefault ''metadata'' empty_dict_cell row)"

definition fingerprint_payload :: "delta_env \<Rightarrow> delta_change \<Rightarrow> delta_row" where
  "fingerprint_payload dn c =
     setdefault ''metadata'' empty_dict_cell
       (setdefault ''fingerprint_id'' (str_cell (fingerprint_raw_identifier dn c)) (dc_row c))"

definition embedding_payload :: "delta_env \<Rightarrow> delta_change \<Rightarrow> delta_row" where
  "embedding_payload dn c =
     (let row = setdefault ''metadata'' empty_dict_cell (dc_row c)
      in if missing_text (row_get row ''vector_rowid'')
         then set_vector_rowid dn [''embeddings'', embedding_raw_identifier dn c] row else row)"

definition vector_component_payload :: "delta_env \<Rightarrow> delta_change \<Rightarrow> delta_row" where
  "vector_component_payload dn c = setdefault ''metadata'' empty_dict_cell (dc_row c)"

definition feedback_payload :: "delta_env \<Rightarrow> delta_change \<Rightarrow> delta_row" where
  "feedback_payload dn c =
     setdefault ''metadata'' empty_dict_cell
       (setdefault ''original_feedback_id'' (str_cell (feedback_raw_identifier dn c)) (dc_row c))"

section \<open>The graph\<close>

definition FRONTMATTER_RELATION_TYPES :: "string list" where
  "FRONTMATTER_RELATION_TYPES = [''HAS_TAG'', ''HAS_PARTICIPANT'']"

definition text_or_empty :: "delta_env \<Rightarrow> cell \<Rightarrow> string" where
  "text_or_empty dn c = (if cell_truthy c then cell_str dn c else [])"

definition relation_type_text :: "delta_env \<Rightarrow> delta_row \<Rightarrow> string" where
  "relation_type_text dn row =
     text_or_empty dn (cell_or (row_get row ''rel_type'') (row_get row ''relation_type''))"

text \<open>The source of a change of the batch, with the relation the batch wants it to keep.\<close>

definition frontmatter_source :: "delta_env \<Rightarrow> delta_change \<Rightarrow> (string \<times> string option) option" where
  "frontmatter_source dn c =
     (let tbl = normalize_table_name (dc_table c); row = dc_row c;
          source_id = text_or_empty dn (row_get row ''source_id'')
      in if tbl = ''files'' then
           (if graph_file_raw_identifier dn c \<noteq> [] then Some (graph_file_raw_identifier dn c, None) else None)
         else if tbl = ''relations'' \<and> relation_type_text dn row \<in> set FRONTMATTER_RELATION_TYPES
           \<and> text_or_empty dn (row_get row ''source_table'') = ''files''
           \<and> source_id \<noteq> [] \<and> text_or_empty dn (row_get row ''target_id'') \<noteq> []
         then Some (source_id, Some (graph_relation_raw_identifier dn c))
         else None)"

definition stored_relation_identifier :: "delta_env \<Rightarrow> string \<times> string \<Rightarrow> delta_row \<Rightarrow> string" where
  "stored_relation_identifier dn rid row =
     graph_relation_raw_identifier dn
       \<lparr>dc_ref = cell_str dn (cell_or (row_get row ''relation_id'') (RecordId (fst rid) (snd rid))),
        dc_table = ''relations'', dc_change_type = Upsert, dc_row = row, dc_tombstone = None\<rparr>"

definition stale_relation :: "delta_env \<Rightarrow> (string \<times> string option) list \<Rightarrow> (string \<times> string) \<times> delta_row \<Rightarrow> bool" where
  "stale_relation dn sources x =
     (case x of (rid, row) \<Rightarrow>
        (let source_id = text_or_empty dn (row_get row ''source_id'')
         in relation_type_text dn row \<in> set FRONTMATTER_RELATION_TYPES
            \<and> source_id \<in> set (map fst sources)
            \<and> (source_id, Some (stored_relation_identifier dn rid row)) \<notin> set sources))"

fun delete_each :: "((string \<times> string) \<times> delta_row) list \<Rightarrow> int remote" where
  "delete_each [] = remote_return 0"
| "delete_each (x # xs) =
     remote_bind (remote_delete (fst x)) (\<lambda>_. remote_bind (delete_each xs) (\<lambda>n. remote_return (1 + n)))"

definition delete_stale_frontmatter_relations :: "delta_env \<Rightarrow> delta_change list \<Rightarrow> int remote" where
  "delete_stale_frontmatter_relations dn rows =
     (let sources = List.map_filter (frontmatter_source dn) rows
      in if sources = [] then remote_return 0
         else remote_bind (remote_scan ''relations'') (\<lambda>stored.
           delete_each (filter (stale_relation dn sources) stored)))"

text \<open>The node rows get the defaults of \<open>prepare_payload\<close> before it is called.\<close>

definition graph_node_payload :: "delta_env \<Rightarrow> string \<Rightarrow> string \<Rightarrow> delta_row \<Rightarrow> delta_row" where
  "graph_node_payload dn tbl raw row =
     (let row = setdefault ''original_id'' (str_cell raw) row
      in if tbl = ''files'' then
           (let row = setdefault ''path'' (cell_or (cell_or (row_get row ''path'') (row_get row ''file_path'')) (str_cell raw)) row
            in setdefault ''file_path'' (cell_or (row_get row ''file_path'') (row_get row ''path'')) row)
         else if tbl = ''sections'' then setdefault ''chunk_id'' (cell_or (row_get row ''chunk_id'') (str_cell raw)) row
         else if tbl = ''entities'' then
           (let row = setdefault ''name'' (cell_or (row_get row ''name'') (str_cell raw)) row
            in setdefault ''original_entity_name''
                 (cell_or (row_get row ''original_entity_name'') (row_get row ''name'')) row)
         else setdefault ''name'' (cell_or (row_get row ''name'') (str_cell raw)) row)"

definition graph_node_selectors :: "(string, delta_env \<Rightarrow> delta_change \<Rightarrow> string) dict" where
  "graph_node_selectors =
     [(''files'', graph_file_raw_identifier), (''sections'', graph_section_raw_identifier),
      (''entities'', graph_entity_raw_identifier), (''tags'', graph_tag_raw_identifier)]"

definition relation_payload :: "delta_env \<Rightarrow> string \<Rightarrow> delta_row \<Rightarrow> py_error + delta_row" where
  "relation_payload dn raw row =
     try_bind (set_endpoints dn (setdefault ''properties'' empty_dict_cell (setdefault ''weight'' (Float 1)
         (set_relation_type (setdefault ''relation_id'' (str_cell raw) row))))) (\<lambda>row.
       Inr (setdefault ''metadata'' empty_dict_cell row))"

text \<open>One change of the graph: a node is upserted, a relation is kept for the insertion at the end.\<close>

definition write_graph_change :: "delta_env \<Rightarrow> delta_change \<Rightarrow> (int \<times> (string \<times> delta_row) list) remote" where
  "write_graph_change dn c =
     (let tbl = normalize_table_name (dc_table c) in
      case dict_get graph_node_selectors tbl of
        Some selector \<Rightarrow>
          remote_bind (upsert_point dn tbl (selector dn c) (graph_node_payload dn tbl (selector dn c) (dc_row c)))
            (\<lambda>n. remote_return (n, []))
      | None \<Rightarrow>
          (if tbl = ''relations'' then
             (let raw = graph_relation_raw_identifier dn c in
              remote_bind (remote_lift (relation_payload dn raw (dc_row c))) (\<lambda>row.
              remote_bind (prepare_payload dn tbl raw row) (\<lambda>prepared.
              remote_bind (remote_lift (record_id tbl raw)) (\<lambda>rid.
              remote_bind (existing_row rid) (\<lambda>existing.
                if same_row existing prepared then remote_return (0, [])
                else remote_return (1, [(raw, prepared)]))))))
           else remote_lift (Inl (ValueError (''unsupported graph table: '' @ dc_table c)))))"

fun write_graph_changes :: "delta_env \<Rightarrow> delta_change list \<Rightarrow> (int \<times> (string \<times> delta_row) list) remote" where
  "write_graph_changes dn [] = remote_return (0, [])"
| "write_graph_changes dn (c # cs) =
     remote_bind (write_graph_change dn c) (\<lambda>(n, ps).
     remote_bind (write_graph_changes dn cs) (\<lambda>(m, qs). remote_return (n + m, ps @ qs)))"

definition write_graph :: "delta_env \<Rightarrow> insert_relations \<Rightarrow> delta_change list \<Rightarrow> int remote" where
  "write_graph dn ins rows =
     remote_bind (delete_stale_frontmatter_relations dn rows) (\<lambda>n.
     remote_bind (write_graph_changes dn rows) (\<lambda>(m, payloads).
       if payloads = [] then remote_return (n + m)
       else remote_bind (remote_call (ins payloads)) (\<lambda>_. remote_return (n + m))))"

section \<open>The writer\<close>

definition CHECKPOINT_NAMESPACE :: string where
  "CHECKPOINT_NAMESPACE = ''phase46_delta''"

definition checkpoint_payload :: "checkpoint_candidate \<Rightarrow> delta_row" where
  "checkpoint_payload k =
     [(''namespace'', str_cell CHECKPOINT_NAMESPACE), (''checkpoint_cursor'', str_cell (kc_cursor k)),
      (''last_success_at'', case kc_source_time k of None \<Rightarrow> none_cell | Some t \<Rightarrow> Time t),
      (''last_error'', none_cell),
      (''metadata'', Json (JObj
         [(''watermark'', case kc_watermark k of None \<Rightarrow> JNull | Some w \<Rightarrow> JStr w),
          (''advanced'', JBool (kc_advanced k))]))]"

definition write_checkpoint_candidate :: "delta_env \<Rightarrow> checkpoint_candidate \<Rightarrow> int remote" where
  "write_checkpoint_candidate dn k =
     upsert_point dn ''checkpoints'' CHECKPOINT_NAMESPACE (checkpoint_payload k)"

text \<open>The table, identifier and payload of each point-upserting method.\<close>

definition point_methods :: "(string, string \<times> (delta_env \<Rightarrow> delta_change \<Rightarrow> string)
    \<times> (delta_env \<Rightarrow> delta_change \<Rightarrow> delta_row)) dict" where
  "point_methods =
     [(''write_documents'', ''documents'', document_raw_identifier, document_payload),
      (''write_source_units'', ''source_units'', source_unit_raw_identifier, source_unit_payload),
      (''write_chunks'', ''chunks'', chunk_raw_identifier, chunk_payload),
      (''write_chunk_file_bindings'', ''chunk_file_bindings'', chunk_file_binding_raw_identifier, chunk_file_binding_payload),
      (''write_provenance'', ''provenance'', provenance_raw_identifier, provenance_payload),
      (''write_resource_bindings'', ''bindings'', binding_raw_identifier, binding_payload),
      (''write_fingerprints'', ''fingerprints'', fingerprint_raw_identifier, fingerprint_payload),
      (''write_embeddings'', ''embeddings'', embedding_raw_identifier, embedding_payload),
      (''write_vector_components'', ''vector_components'', vector_component_raw_identifier, vector_component_payload),
      (''write_feedback'', ''feedback'', feedback_raw_identifier, feedback_payload)]"

definition write_point :: "delta_env \<Rightarrow> string \<times> (delta_env \<Rightarrow> delta_change \<Rightarrow> string)
    \<times> (delta_env \<Rightarrow> delta_change \<Rightarrow> delta_row) \<Rightarrow> delta_change \<Rightarrow> int remote" where
  "write_point dn m c =
     (case m of (tbl, raw_identifier, payload) \<Rightarrow> upsert_point dn tbl (raw_identifier dn c) (payload dn c))"

definition store_writer_method :: "delta_env \<Rightarrow> insert_relations \<Rightarrow> string \<Rightarrow>
    (delta_change list \<Rightarrow> int remote) option" where
  "store_writer_method dn ins name =
     (case dict_get point_methods name of
        Some m \<Rightarrow> Some (write_each (write_point dn m))
      | None \<Rightarrow>
          if name = ''delete_tombstones'' then Some (write_each (delete_tombstone dn))
          else if name = ''write_graph'' then Some (write_graph dn ins)
          else None)"

definition store_writer :: "delta_env \<Rightarrow> insert_relations \<Rightarrow> connection sync_writer" where
  "store_writer dn ins =
     \<lparr>sw_method = store_writer_method dn ins, sw_checkpoint = write_checkpoint_candidate dn\<rparr>"

end
