(* ===== verification/Caches.thy ===== *)
theory Caches
  imports Sql_Tables Core_Models "HOL-Library.Word"
begin

text \<open>
  The content-addressed caches (\<open>storage/cache.py\<close>).  The embedding cache holds one BLOB
  of packed binary32 floats per \<open>(text_hash, model_name)\<close>; \<open>struct\<close> is modelled down to
  the bytes (little endian), with the rounding of a float to binary32 and the reading of
  a binary32 as the parameters \<open>enc\<close> and \<open>dec\<close>.  The extraction cache holds the JSON of a
  chunk's entities and relations per key; the key function is blake3 (a package), the
  parameter \<open>blake3\<close>.  A JSON text column is the value it encodes, or None when it does
  not parse.
\<close>

unbundle bit_operations_syntax

type_synonym byte = "8 word"

section \<open>Tables with a sentinel\<close>

record 'r cache_tables =
  ct_rows :: "'r list"
  ct_meta :: "(string \<times> string) list"

definition sentinel_differs :: "string \<Rightarrow> string \<Rightarrow> 'r cache_tables \<Rightarrow> bool" where
  "sentinel_differs k v c =
     (case fetch_key fst (ct_meta c) k of None \<Rightarrow> False | Some row \<Rightarrow> snd row \<noteq> v)"

definition write_sentinel :: "string \<Rightarrow> string \<Rightarrow> 'r cache_tables \<Rightarrow> 'r cache_tables" where
  "write_sentinel k v c = c\<lparr>ct_meta := insert_or_replace fst (k, v) (ct_meta c)\<rparr>"

definition wipe :: "string \<Rightarrow> string \<Rightarrow> 'r cache_tables \<Rightarrow> 'r cache_tables" where
  "wipe k v c = write_sentinel k v (c\<lparr>ct_rows := [], ct_meta := []\<rparr>)"

text \<open>\<open>for i in range(0, len(xs), n): xs[i : i + n]\<close> for a positive \<open>n\<close>.\<close>

function batches :: "nat \<Rightarrow> 'a list \<Rightarrow> 'a list list" where
  "batches n xs = (if n = 0 \<or> xs = [] then [] else take n xs # batches n (drop n xs))"
  by pat_completeness auto
termination by (relation "measure (\<lambda>(n, xs). length xs)") auto

declare batches.simps [simp del]

lemma concat_batches: "0 < n \<Longrightarrow> concat (batches n xs) = xs"
  by (induction n xs rule: batches.induct) (subst batches.simps, simp)

lemma batches_bounded: "b \<in> set (batches n xs) \<Longrightarrow> length b \<le> n"
proof (induction n xs rule: batches.induct)
  case (1 n xs)
  then show ?case by (subst (asm) (2) batches.simps) (auto split: if_splits)
qed

section \<open>The embedding cache\<close>

record embedding_row =
  er_text_hash :: string
  er_model_name :: string
  er_embedding :: "byte list"
  er_created_at :: timestamp

definition embedding_key :: "embedding_row \<Rightarrow> string \<times> string" where
  "embedding_key r = (er_text_hash r, er_model_name r)"

type_synonym embedding_cache = "embedding_row cache_tables"

definition CACHE_BATCH :: nat where
  "CACHE_BATCH = 500"

definition embedding_should_invalidate :: "string \<Rightarrow> embedding_cache \<Rightarrow> bool" where
  "embedding_should_invalidate model_name c = sentinel_differs ''model_name'' model_name c"

definition embedding_clear :: "string \<Rightarrow> embedding_cache \<Rightarrow> embedding_cache" where
  "embedding_clear model_name c = wipe ''model_name'' model_name c"

definition update_model_sentinel :: "string \<Rightarrow> embedding_cache \<Rightarrow> embedding_cache" where
  "update_model_sentinel model_name c = write_sentinel ''model_name'' model_name c"

definition open_embedding_cache :: "string \<Rightarrow> embedding_cache \<Rightarrow> embedding_cache" where
  "open_embedding_cache model_name c =
     (if embedding_should_invalidate model_name c then embedding_clear model_name c
      else update_model_sentinel model_name c)"

subsection \<open>\<open>struct.pack\<close> and \<open>struct.unpack\<close> of floats\<close>

definition word_bytes :: "32 word \<Rightarrow> byte list" where
  "word_bytes w = [ucast w, ucast (drop_bit 8 w), ucast (drop_bit 16 w), ucast (drop_bit 24 w)]"

definition bytes_word :: "byte \<Rightarrow> byte \<Rightarrow> byte \<Rightarrow> byte \<Rightarrow> 32 word" where
  "bytes_word a b c d =
     ucast a OR push_bit 8 (ucast b) OR push_bit 16 (ucast c) OR push_bit 24 (ucast d)"

fun pack_floats :: "(rat \<Rightarrow> 32 word option) \<Rightarrow> rat list \<Rightarrow> py_error + byte list" where
  "pack_floats enc [] = Inr []"
| "pack_floats enc (x # xs) =
     (case enc x of
        None \<Rightarrow> Inl (OverflowError ''float too large to pack with f format'')
      | Some w \<Rightarrow> try_bind (pack_floats enc xs) (\<lambda>bs. Inr (word_bytes w @ bs)))"

fun unpack_words :: "byte list \<Rightarrow> 32 word list option" where
  "unpack_words (a # b # c # d # rest) = map_option ((#) (bytes_word a b c d)) (unpack_words rest)"
| "unpack_words [] = Some []"
| "unpack_words _ = None"

definition unpack_floats :: "(32 word \<Rightarrow> rat) \<Rightarrow> byte list \<Rightarrow> rat list option" where
  "unpack_floats dec blob = map_option (map dec) (unpack_words blob)"

subsection \<open>Lookup and store\<close>

fun add_rows :: "(32 word \<Rightarrow> rat) \<Rightarrow> embedding_row list \<Rightarrow> (string, rat list) dict \<Rightarrow>
    (string, rat list) dict option" where
  "add_rows dec [] result = Some result"
| "add_rows dec (r # rs) result =
     (case unpack_floats dec (er_embedding r) of
        None \<Rightarrow> None
      | Some v \<Rightarrow> add_rows dec rs (dict_set (er_text_hash r) v result))"

fun lookup_batches :: "(32 word \<Rightarrow> rat) \<Rightarrow> string \<Rightarrow> embedding_row list \<Rightarrow> string list list \<Rightarrow>
    (string, rat list) dict \<Rightarrow> (string, rat list) dict option" where
  "lookup_batches dec model_name rows [] result = Some result"
| "lookup_batches dec model_name rows (batch # bs) result =
     (case add_rows dec (filter (\<lambda>r. er_model_name r = model_name \<and> er_text_hash r \<in> set batch) rows)
             result of
        None \<Rightarrow> None
      | Some result' \<Rightarrow> lookup_batches dec model_name rows bs result')"

definition embedding_lookup :: "(32 word \<Rightarrow> rat) \<Rightarrow> string \<Rightarrow> string list \<Rightarrow> embedding_cache \<Rightarrow>
    (string, rat list) dict" where
  "embedding_lookup dec model_name text_hashes c =
     (case lookup_batches dec model_name (ct_rows c) (batches CACHE_BATCH text_hashes) [] of
        None \<Rightarrow> [] | Some result \<Rightarrow> result)"

definition embedding_store :: "(rat \<Rightarrow> 32 word option) \<Rightarrow> string \<Rightarrow> timestamp \<Rightarrow> string \<Rightarrow>
    rat list \<Rightarrow> embedding_cache \<Rightarrow> py_error + embedding_cache" where
  "embedding_store enc model_name now text_hash embedding c =
     try_bind (pack_floats enc embedding)
       (\<lambda>blob. Inr (c\<lparr>ct_rows := insert_or_ignore embedding_key
          \<lparr>er_text_hash = text_hash, er_model_name = model_name, er_embedding = blob,
           er_created_at = now\<rparr> (ct_rows c)\<rparr>))"

section \<open>Packing is lossless on binary32\<close>

lemma bytes_word_word_bytes:
  "bytes_word (ucast w) (ucast (drop_bit 8 w)) (ucast (drop_bit 16 w)) (ucast (drop_bit 24 w)) = w"
proof (rule bit_word_eqI)
  fix n :: nat
  assume "n < LENGTH(32)"
  then consider "n < 8" | "8 \<le> n" "n < 16" | "16 \<le> n" "n < 24" | "24 \<le> n" "n < 32"
    by fastforce
  then show "bit (bytes_word (ucast w) (ucast (drop_bit 8 w)) (ucast (drop_bit 16 w))
      (ucast (drop_bit 24 w))) n = bit w n"
    by cases (auto simp: bytes_word_def bit_simps)
qed

lemma unpack_words_append:
  "unpack_words (word_bytes w @ bs) = map_option ((#) w) (unpack_words bs)"
  by (simp add: word_bytes_def bytes_word_word_bytes)

lemma unpack_pack:
  "pack_floats enc xs = Inr bs \<Longrightarrow> unpack_words bs = Some (map (the \<circ> enc) xs)"
  by (induction xs arbitrary: bs)
    (auto simp: try_bind_Inr_iff unpack_words_append split: option.splits)

lemma pack_floats_total: "(\<exists>bs. pack_floats enc xs = Inr bs) \<longleftrightarrow> (\<forall>x \<in> set xs. enc x \<noteq> None)"
  by (induction xs) (auto simp: try_bind_Inr_iff split: option.splits)

lemma length_pack_floats: "pack_floats enc xs = Inr bs \<Longrightarrow> length bs = 4 * length xs"
  by (induction xs arbitrary: bs) (auto simp: try_bind_Inr_iff word_bytes_def split: option.splits)

section \<open>What a lookup returns\<close>

definition blobs_ok :: "embedding_cache \<Rightarrow> bool" where
  "blobs_ok c \<longleftrightarrow> (\<forall>r \<in> set (ct_rows c). unpack_words (er_embedding r) \<noteq> None)"

definition embedding_ok :: "embedding_cache \<Rightarrow> bool" where
  "embedding_ok c \<longleftrightarrow> pk_ok embedding_key (ct_rows c) \<and> blobs_ok c"

abbreviation vector_of :: "(32 word \<Rightarrow> rat) \<Rightarrow> embedding_row \<Rightarrow> rat list" where
  "vector_of dec r \<equiv> map dec (the (unpack_words (er_embedding r)))"

lemma add_rows_spec:
  assumes "\<forall>r \<in> set rs. unpack_words (er_embedding r) \<noteq> None" and "distinct (map er_text_hash rs)"
  shows "\<exists>d. add_rows dec rs result = Some d \<and> dict_get d =
     dict_get result ++ (\<lambda>h. map_option (vector_of dec) (fetch_key er_text_hash rs h))"
  using assms
proof (induction rs arbitrary: result)
  case Nil
  then show ?case by (simp add: map_add_def)
next
  case (Cons r rs)
  then obtain ws where ws: "unpack_words (er_embedding r) = Some ws" by auto
  have "\<exists>d. add_rows dec rs (dict_set (er_text_hash r) (map dec ws) result) = Some d \<and> dict_get d =
      dict_get (dict_set (er_text_hash r) (map dec ws) result) ++
        (\<lambda>h. map_option (vector_of dec) (fetch_key er_text_hash rs h))"
    using Cons.prems by (intro Cons.IH) simp_all
  then obtain d where d: "add_rows dec rs (dict_set (er_text_hash r) (map dec ws) result) = Some d"
    "dict_get d = dict_get (dict_set (er_text_hash r) (map dec ws) result) ++
       (\<lambda>h. map_option (vector_of dec) (fetch_key er_text_hash rs h))"
    by blast
  have "fetch_key er_text_hash rs (er_text_hash r) = None"
    using Cons.prems(2) by (simp add: fetch_key_None_iff)
  with d ws show ?case by (auto simp: unpack_floats_def map_add_def)
qed

lemma embedding_key_iff: "embedding_key r = (h, m) \<longleftrightarrow> er_text_hash r = h \<and> er_model_name r = m"
  by (simp add: embedding_key_def)

lemma fetch_model:
  "fetch_key er_text_hash (filter (\<lambda>r. er_model_name r = m \<and> er_text_hash r \<in> B) rows) h =
     (if h \<in> B then fetch_key embedding_key rows (h, m) else None)"
  by (induction rows) (auto simp: embedding_key_iff)

lemma distinct_model_hashes:
  "pk_ok embedding_key rows \<Longrightarrow>
     distinct (map er_text_hash (filter (\<lambda>r. er_model_name r = m \<and> er_text_hash r \<in> B) rows))"
  unfolding pk_ok_def by (induction rows) (auto simp: embedding_key_def)

lemma lookup_batches_spec:
  assumes "pk_ok embedding_key rows" and "\<forall>r \<in> set rows. unpack_words (er_embedding r) \<noteq> None"
  shows "\<exists>d. lookup_batches dec m rows bs result = Some d \<and> dict_get d = dict_get result ++
     (\<lambda>h. if h \<in> set (concat bs)
          then map_option (vector_of dec) (fetch_key embedding_key rows (h, m)) else None)"
proof (induction bs arbitrary: result)
  case Nil
  then show ?case by (simp add: map_add_def)
next
  case (Cons b bs)
  let ?rs = "filter (\<lambda>r. er_model_name r = m \<and> er_text_hash r \<in> set b) rows"
  let ?v = "\<lambda>h. map_option (vector_of dec) (fetch_key embedding_key rows (h, m))"
  from add_rows_spec [of ?rs dec result] assms distinct_model_hashes
  obtain d where d: "add_rows dec ?rs result = Some d"
    "dict_get d = dict_get result ++ (\<lambda>h. if h \<in> set b then ?v h else None)"
    by (auto simp: fetch_model if_distrib cong: if_cong)
  from Cons.IH [of d] obtain d' where d': "lookup_batches dec m rows bs d = Some d'"
    "dict_get d' = dict_get d ++ (\<lambda>h. if h \<in> set (concat bs) then ?v h else None)"
    by blast
  have "dict_get d' = dict_get result ++ (\<lambda>h. if h \<in> set (concat (b # bs)) then ?v h else None)"
    unfolding d'(2) d(2) by (rule ext) (simp add: map_add_def split: option.splits)
  with d(1) d'(1) show ?case by simp
qed

lemma embedding_lookup_get:
  assumes "embedding_ok c"
  shows "dict_get (embedding_lookup dec m hs c) h =
     (if h \<in> set hs then map_option (vector_of dec) (fetch_key embedding_key (ct_rows c) (h, m))
      else None)"
proof -
  from assms lookup_batches_spec [of "ct_rows c" dec m "batches CACHE_BATCH hs" "[]"]
  obtain d where "lookup_batches dec m (ct_rows c) (batches CACHE_BATCH hs) [] = Some d"
    "dict_get d = Map.empty ++ (\<lambda>h. if h \<in> set (concat (batches CACHE_BATCH hs))
       then map_option (vector_of dec) (fetch_key embedding_key (ct_rows c) (h, m)) else None)"
    by (auto simp: embedding_ok_def blobs_ok_def)
  then show ?thesis
    by (simp add: embedding_lookup_def concat_batches CACHE_BATCH_def)
qed

lemma embedding_store_row:
  assumes "embedding_store enc m now h v c = Inr c'"
  obtains blob where "pack_floats enc v = Inr blob"
    and "c' = c\<lparr>ct_rows := insert_or_ignore embedding_key
      \<lparr>er_text_hash = h, er_model_name = m, er_embedding = blob, er_created_at = now\<rparr> (ct_rows c)\<rparr>"
  using assms by (auto simp: embedding_store_def try_bind_Inr_iff)

lemma embedding_store_ok:
  assumes "embedding_ok c" and "embedding_store enc m now h v c = Inr c'"
  shows "embedding_ok c'"
proof -
  obtain blob where blob: "pack_floats enc v = Inr blob"
    and c': "c' = c\<lparr>ct_rows := insert_or_ignore embedding_key
      \<lparr>er_text_hash = h, er_model_name = m, er_embedding = blob, er_created_at = now\<rparr> (ct_rows c)\<rparr>"
    using assms(2) by (rule embedding_store_row)
  have "pk_ok embedding_key (ct_rows c')"
    using assms(1) by (simp add: c' embedding_ok_def pk_ok_insert_or_ignore)
  moreover have "blobs_ok c'"
    using assms(1) unpack_pack [OF blob]
    by (auto simp: c' blobs_ok_def embedding_ok_def insert_or_ignore_def)
  ultimately show ?thesis by (simp add: embedding_ok_def)
qed

text \<open>
  Storing an embedding keeps the cache well formed, and afterwards a lookup under any
  model differs from the lookup before in one place only: under the storing model the
  stored hash, if it was not cached yet, yields the binary32 rounding of the vector.  A
  vector cached under one model is never returned under another and never overwritten,
  however the hashes are split into batches.
\<close>

theorem embedding_store_lookup:
  assumes "embedding_ok c" and "embedding_store enc m now h v c = Inr c'"
  shows "embedding_ok c' \<and> dict_get (embedding_lookup dec m' hs c') k =
    (if k = h \<and> m' = m \<and> k \<in> set hs \<and> dict_get (embedding_lookup dec m hs c) h = None
     then Some (map (dec \<circ> the \<circ> enc) v) else dict_get (embedding_lookup dec m' hs c) k)"
proof -
  obtain blob where blob: "pack_floats enc v = Inr blob"
    and c': "c' = c\<lparr>ct_rows := insert_or_ignore embedding_key
      \<lparr>er_text_hash = h, er_model_name = m, er_embedding = blob, er_created_at = now\<rparr> (ct_rows c)\<rparr>"
    using assms(2) by (rule embedding_store_row)
  have ok': "embedding_ok c'" using assms by (rule embedding_store_ok)
  have "fetch_key embedding_key (ct_rows c') (k, m') =
      (if (k, m') = (h, m) \<and> fetch_key embedding_key (ct_rows c) (h, m) = None
       then Some \<lparr>er_text_hash = h, er_model_name = m, er_embedding = blob, er_created_at = now\<rparr>
       else fetch_key embedding_key (ct_rows c) (k, m'))"
    unfolding c' by (auto simp: fetch_insert_or_ignore embedding_key_def)
  then show ?thesis
    using unpack_pack [OF blob] ok'
    by (auto simp: embedding_lookup_get [OF ok'] embedding_lookup_get [OF assms(1)] o_assoc)
qed

text \<open>
  Opening the cache with a model never leaves vectors of a changed model behind: the
  rows survive exactly when no other model is on record, the model is on record
  afterwards (so opening again invalidates nothing), and the result is well formed.
\<close>

theorem open_embedding_cache_spec:
  assumes "embedding_ok c" and "c' = open_embedding_cache m c"
  shows "embedding_ok c' \<and> \<not> embedding_should_invalidate m c'
    \<and> ct_rows c' = (if fetch_key fst (ct_meta c) ''model_name'' \<in> {None, Some (''model_name'', m)}
        then ct_rows c else [])
    \<and> (\<forall>m2. embedding_should_invalidate m2 c' \<longleftrightarrow> m2 \<noteq> m)
    \<and> open_embedding_cache m c' = c'"
proof -
  have idem: "insert_or_replace fst (k, v) (insert_or_replace fst (k, v) t) = insert_or_replace fst (k, v) t"
    for k v :: string and t
    by (simp add: insert_or_replace_def)
  have "fetch_key fst (ct_meta c) ''model_name'' = Some row \<Longrightarrow> fst row = ''model_name''" for row
    by (rule fetch_key_key)
  then show ?thesis
    using assms
    by (cases "fetch_key fst (ct_meta c) ''model_name''")
      (auto simp: open_embedding_cache_def embedding_should_invalidate_def sentinel_differs_def
        embedding_clear_def update_model_sentinel_def wipe_def write_sentinel_def
        embedding_ok_def blobs_ok_def sql_simps idem)
qed

definition demo_cache :: embedding_cache where
  "demo_cache = \<lparr>ct_rows = [\<lparr>er_text_hash = ''h1'', er_model_name = ''old'', er_embedding = [0, 0, 0, 1],
     er_created_at = 0\<rparr>], ct_meta = [(''model_name'', ''old'')]\<rparr>"

definition demo_enc :: "rat \<Rightarrow> 32 word option" where
  "demo_enc x = (if x = 1 then Some 0x3F800000 else if x = 0 then Some 0 else None)"

definition demo_dec :: "32 word \<Rightarrow> rat" where
  "demo_dec w = (if w = 0x3F800000 then 1 else 0)"

lemma demo_cache_ok: "embedding_ok demo_cache"
  by (simp add: embedding_ok_def blobs_ok_def demo_cache_def pk_ok_def)

theorem embedding_store_lookup_witness:
  "\<exists>c'. embedding_store demo_enc ''new'' 1 ''h1'' [1, 0] demo_cache = Inr c'
     \<and> dict_get (embedding_lookup demo_dec ''new'' [''h1''] c') ''h1'' = Some [1, 0]"
proof -
  have "pack_floats demo_enc [1, 0] = Inr (word_bytes 0x3F800000 @ word_bytes 0)"
    by (simp add: demo_enc_def)
  then obtain c' where c': "embedding_store demo_enc ''new'' 1 ''h1'' [1, 0] demo_cache = Inr c'"
    by (simp add: embedding_store_def)
  have "dict_get (embedding_lookup demo_dec ''new'' [''h1''] demo_cache) ''h1'' = None"
    unfolding embedding_lookup_get [OF demo_cache_ok]
    by (simp add: demo_cache_def embedding_key_def)
  then show ?thesis
    using embedding_store_lookup [OF demo_cache_ok c', of demo_dec "''new''" "[''h1'']" "''h1''"] c'
    by (simp add: demo_enc_def demo_dec_def)
qed

theorem open_embedding_cache_spec_witness:
  "ct_rows (open_embedding_cache ''new'' demo_cache) = []
     \<and> open_embedding_cache ''new'' (open_embedding_cache ''new'' demo_cache) =
         open_embedding_cache ''new'' demo_cache"
  using open_embedding_cache_spec [OF demo_cache_ok refl, of "''new''"]
  by (simp add: demo_cache_def)

end
