(* ===== verification/Embedding.thy ===== *)
theory Embedding
  imports Caches
begin

text \<open>
  Embeddings: the encoder with its remote service and batch-size probe
  (\<open>search/semantic.py\<close>), the component store (\<open>storage/vec_components.py\<close>) and the
  three-layer lookup of chunk vectors (\<open>ingestion/pipeline.py\<close>).  The embedding service and
  the local model are parameters; \<open>post\<close> is the answer of \<open>POST /embed\<close> to a batch.  The
  binary32 rounding is as in \<open>Caches\<close>.
\<close>

section \<open>The encoder\<close>

datatype http_result = Embeddings "rat list list" | HttpStatus nat | HttpFailure string

record encoder =
  ec_embedding_url :: "string option"
  ec_tei_batch_size :: int
  ec_tei_bs_probed :: bool
  ec_use_prefix :: bool
  ec_query_instruction :: string

definition format_query :: "encoder \<Rightarrow> string \<Rightarrow> string" where
  "format_query e query =
     (if ec_query_instruction e \<noteq> [] then ec_query_instruction e @ [CHR 0x0A] @ ''Query: '' @ query
      else if ec_use_prefix e then ''query: '' @ query else query)"

definition format_passages :: "encoder \<Rightarrow> string list \<Rightarrow> string list" where
  "format_passages e texts = (if ec_use_prefix e then map (\<lambda>t. ''passage: '' @ t) texts else texts)"

definition raise_for_status :: "http_result \<Rightarrow> py_error + rat list list" where
  "raise_for_status r =
     (case r of
        Embeddings vs \<Rightarrow> Inr vs
      | HttpStatus n \<Rightarrow> Inl (HTTPError ''HTTPStatusError'')
      | HttpFailure e \<Rightarrow> Inl (HTTPError e))"

definition probe_once :: "(string list \<Rightarrow> http_result) \<Rightarrow> string \<Rightarrow> int \<Rightarrow> py_error + bool" where
  "probe_once post sample_text batch_size =
     (case post (replicate (nat batch_size) sample_text) of
        Embeddings _ \<Rightarrow> Inr True
      | HttpStatus n \<Rightarrow> if n = 413 then Inr False else Inl (HTTPError ''HTTPStatusError'')
      | HttpFailure e \<Rightarrow> Inl (HTTPError e))"

function probe_tei_batch_size :: "(string list \<Rightarrow> http_result) \<Rightarrow> string \<Rightarrow> int \<Rightarrow> py_error + int" where
  "probe_tei_batch_size post sample_text batch_size =
     (if batch_size \<le> 1 then Inr 1
      else try_bind (probe_once post sample_text batch_size) (\<lambda>fits.
        if fits then Inr batch_size else probe_tei_batch_size post sample_text (batch_size div 2)))"
  by pat_completeness auto
termination by (relation "measure (\<lambda>(post, s, n). nat n)") auto

declare probe_tei_batch_size.simps [simp del]

fun encode_batches :: "(string list \<Rightarrow> http_result) \<Rightarrow> string list list \<Rightarrow> py_error + rat list list" where
  "encode_batches post [] = Inr []"
| "encode_batches post (batch # bs) =
     try_bind (raise_for_status (post batch)) (\<lambda>vs.
     try_bind (encode_batches post bs) (\<lambda>rest. Inr (vs @ rest)))"

definition encode_remote_batches :: "(string list \<Rightarrow> http_result) \<Rightarrow> string list \<Rightarrow> int \<Rightarrow> py_error + rat list list" where
  "encode_remote_batches post inputs batch_size = encode_batches post (batches (nat batch_size) inputs)"

definition encode_remote :: "(string list \<Rightarrow> http_result) \<Rightarrow> string list \<Rightarrow> encoder \<Rightarrow>
    (py_error + rat list list) \<times> encoder" where
  "encode_remote post inputs e =
     (if ec_tei_bs_probed e then (encode_remote_batches post inputs (ec_tei_batch_size e), e)
      else case inputs of
        [] \<Rightarrow> (Inl (IndexError ''list index out of range''), e)
      | sample # _ \<Rightarrow>
          (case probe_tei_batch_size post sample (ec_tei_batch_size e) of
             Inl err \<Rightarrow> (Inl err, e)
           | Inr n \<Rightarrow> (encode_remote_batches post inputs n, e\<lparr>ec_tei_batch_size := n, ec_tei_bs_probed := True\<rparr>)))"

definition encode_batch :: "(string list \<Rightarrow> http_result) \<Rightarrow> (string list \<Rightarrow> rat list list) \<Rightarrow> string list \<Rightarrow>
    encoder \<Rightarrow> (py_error + rat list list) \<times> encoder" where
  "encode_batch post local_model texts e =
     (if texts = [] then (Inr [], e)
      else let prepared = format_passages e texts
           in if ec_embedding_url e \<noteq> None then encode_remote post prepared e
              else (Inr (local_model prepared), e))"

section \<open>The component store\<close>

record component_row =
  cw_entity_id :: string
  cw_component :: string
  cw_embedding :: "byte list"

definition component_key :: "component_row \<Rightarrow> string \<times> string" where
  "component_key r = (cw_entity_id r, cw_component r)"

definition component_store :: "(rat \<Rightarrow> 32 word option) \<Rightarrow> string \<Rightarrow> string \<Rightarrow> rat list \<Rightarrow>
    component_row list \<Rightarrow> py_error + component_row list" where
  "component_store enc entity_id component embedding t =
     try_bind (pack_floats enc embedding) (\<lambda>blob.
       Inr (insert_or_replace component_key
         \<lparr>cw_entity_id = entity_id, cw_component = component, cw_embedding = blob\<rparr> t))"

definition unpack_blob :: "(32 word \<Rightarrow> rat) \<Rightarrow> byte list \<Rightarrow> py_error + rat list" where
  "unpack_blob dec blob =
     (case unpack_floats dec blob of
        None \<Rightarrow> Inl (StructError ''unpack requires a buffer of another size'') | Some v \<Rightarrow> Inr v)"

definition component_get :: "(32 word \<Rightarrow> rat) \<Rightarrow> string \<Rightarrow> string \<Rightarrow> component_row list \<Rightarrow>
    py_error + rat list option" where
  "component_get dec entity_id component t =
     (case fetch_key component_key t (entity_id, component) of
        None \<Rightarrow> Inr None
      | Some r \<Rightarrow> try_bind (unpack_blob dec (cw_embedding r)) (\<lambda>v. Inr (Some v)))"

fun add_components :: "(32 word \<Rightarrow> rat) \<Rightarrow> component_row list \<Rightarrow> (string, rat list) dict \<Rightarrow>
    py_error + (string, rat list) dict" where
  "add_components dec [] result = Inr result"
| "add_components dec (r # rs) result =
     try_bind (unpack_blob dec (cw_embedding r)) (\<lambda>v.
       add_components dec rs (dict_set (cw_entity_id r) v result))"

fun get_component_batches :: "(32 word \<Rightarrow> rat) \<Rightarrow> string \<Rightarrow> component_row list \<Rightarrow> string list list \<Rightarrow>
    (string, rat list) dict \<Rightarrow> py_error + (string, rat list) dict" where
  "get_component_batches dec component t [] result = Inr result"
| "get_component_batches dec component t (batch # bs) result =
     try_bind (add_components dec (filter (\<lambda>r. cw_component r = component \<and> cw_entity_id r \<in> set batch) t) result)
       (get_component_batches dec component t bs)"

definition component_get_batch :: "(32 word \<Rightarrow> rat) \<Rightarrow> string list \<Rightarrow> string \<Rightarrow> component_row list \<Rightarrow>
    py_error + (string, rat list) dict" where
  "component_get_batch dec entity_ids component t =
     get_component_batches dec component t (batches CACHE_BATCH entity_ids) []"

fun delete_component_batches :: "string list list \<Rightarrow> nat \<Rightarrow> component_row list \<Rightarrow> nat \<times> component_row list" where
  "delete_component_batches [] total_deleted t = (total_deleted, t)"
| "delete_component_batches (batch # bs) total_deleted t =
     (let t' = delete_where (\<lambda>r. cw_entity_id r \<in> set batch) t
      in delete_component_batches bs (total_deleted + (length t - length t')) t')"

definition component_delete :: "string list \<Rightarrow> component_row list \<Rightarrow> nat \<times> component_row list" where
  "component_delete entity_ids t = delete_component_batches (batches CACHE_BATCH entity_ids) 0 t"

definition component_delete_all :: "component_row list \<Rightarrow> component_row list" where
  "component_delete_all t = []"

section \<open>Vectors of chunks\<close>

record embedding_env =
  em_post :: "string list \<Rightarrow> http_result"
  em_local :: "string list \<Rightarrow> rat list list"
  em_blake3 :: "string \<Rightarrow> string"
  em_enc :: "rat \<Rightarrow> 32 word option"
  em_dec :: "32 word \<Rightarrow> rat"
  em_model :: string

record embedding_state =
  es_encoder :: encoder
  es_cache :: embedding_cache
  es_components :: "component_row list"

definition chunk_text_hash :: "embedding_env \<Rightarrow> chunk \<Rightarrow> string" where
  "chunk_text_hash env c = em_blake3 env (ch_text c)"

definition text_hashes_of :: "embedding_env \<Rightarrow> chunk list \<Rightarrow> (string, string) dict" where
  "text_hashes_of env chunks = fold (\<lambda>c d. dict_set (ch_chunk_id c) (chunk_text_hash env c) d) chunks []"

text \<open>The hit of a chunk in the component store or the global cache; the hash is looked up in
  the dict, where a later chunk with the same id has replaced an earlier one.\<close>

definition cached_vector :: "(string, rat list) dict \<Rightarrow> (string, rat list) dict \<Rightarrow> (string, string) dict \<Rightarrow>
    chunk \<Rightarrow> rat list option" where
  "cached_vector component_hits global_hits text_hashes c =
     (case dict_get component_hits (ch_chunk_id c) of
        Some v \<Rightarrow> Some v
      | None \<Rightarrow> (case dict_get text_hashes (ch_chunk_id c) of
          None \<Rightarrow> None | Some th \<Rightarrow> dict_get global_hits th))"

fun fill_vectors :: "rat list option list \<Rightarrow> rat list list \<Rightarrow> rat list list" where
  "fill_vectors [] new = []"
| "fill_vectors (Some v # os) new = v # fill_vectors os new"
| "fill_vectors (None # os) new = (case new of [] \<Rightarrow> [] # fill_vectors os [] | v # vs \<Rightarrow> v # fill_vectors os vs)"

fun store_vectors :: "embedding_env \<Rightarrow> timestamp \<Rightarrow> (string \<times> rat list) list \<Rightarrow> embedding_cache \<Rightarrow>
    (py_error + unit) \<times> embedding_cache" where
  "store_vectors env now [] c = (Inr (), c)"
| "store_vectors env now ((th, v) # rest) c =
     (case embedding_store (em_enc env) (em_model env) now th v c of
        Inl e \<Rightarrow> (Inl e, c)
      | Inr c' \<Rightarrow> store_vectors env now rest c')"

definition embed_chunks :: "embedding_env \<Rightarrow> timestamp \<Rightarrow> chunk list \<Rightarrow> embedding_state \<Rightarrow>
    (py_error + rat list list \<times> (string, string) dict) \<times> embedding_state" where
  "embed_chunks env now chunks st =
     (if chunks = [] then (Inr ([], []), st)
      else
        let text_hashes = text_hashes_of env chunks in
        case component_get_batch (em_dec env) (map ch_chunk_id chunks) ''text'' (es_components st) of
          Inl e \<Rightarrow> (Inl e, st)
        | Inr component_hits \<Rightarrow>
            let missing = filter (\<lambda>c. dict_get component_hits (ch_chunk_id c) = None) chunks;
                missing_hashes = remdups (map (\<lambda>c. the (dict_get text_hashes (ch_chunk_id c))) missing);
                global_hits = (if missing_hashes = [] then []
                  else embedding_lookup (em_dec env) (em_model env) missing_hashes (es_cache st));
                hits = map (cached_vector component_hits global_hits text_hashes) chunks;
                to_encode = filter (\<lambda>c. cached_vector component_hits global_hits text_hashes c = None) chunks
            in if to_encode = [] then (Inr (fill_vectors hits [], text_hashes), st)
               else case encode_batch (em_post env) (em_local env) (map ch_text to_encode) (es_encoder st) of
                 (Inl e, enc') \<Rightarrow> (Inl e, st\<lparr>es_encoder := enc'\<rparr>)
               | (Inr new, enc') \<Rightarrow>
                   (let st' = st\<lparr>es_encoder := enc'\<rparr>
                    in if length new < length to_encode
                       then (Inl (IndexError ''list index out of range''), st')
                       else case store_vectors env now
                              (zip (map (\<lambda>c. the (dict_get text_hashes (ch_chunk_id c))) to_encode) new)
                              (es_cache st') of
                         (Inl e, c') \<Rightarrow> (Inl e, st'\<lparr>es_cache := c'\<rparr>)
                       | (Inr _, c') \<Rightarrow> (Inr (fill_vectors hits new, text_hashes), st'\<lparr>es_cache := c'\<rparr>)))"

definition complete_chunk_text_hashes :: "embedding_env \<Rightarrow> chunk list \<Rightarrow> (string, string) dict \<Rightarrow> (string, string) dict" where
  "complete_chunk_text_hashes env chunks text_hashes =
     fold (\<lambda>c d. dict_set (ch_chunk_id c)
       (case dict_get text_hashes (ch_chunk_id c) of
          Some h \<Rightarrow> if h \<noteq> [] then h else chunk_text_hash env c
        | None \<Rightarrow> chunk_text_hash env c) d) chunks []"

end
