(* ===== verification/Surreal_Stores.thy ===== *)
theory Surreal_Stores
  imports Delta_Writer Embedding
begin

text \<open>
  The SurrealDB stores (\<open>storage/surreal.py\<close>): chunks and statistics, vectors, the graph, feedback,
  over the connection of the delta writer.  \<open>INSERT INTO\<close>, the ISO form of a timestamp, what pydantic
  reads as a datetime and the square root are parameters; an identifier is kept as it is before
  encoding.
\<close>

section \<open>Environment and conversions\<close>

record surreal_env =
  sn_delta :: delta_env
  sn_insert_rows :: "((string \<times> string) \<times> delta_row) list \<Rightarrow> database \<Rightarrow> database \<times> (py_error + unit)"
  sn_insert_relations :: insert_relations
  sn_isoformat :: "timestamp \<Rightarrow> string"
  sn_datetime :: "cell \<Rightarrow> timestamp option"
  sn_sqrt :: "rat \<Rightarrow> rat"

text \<open>\<open>int(x)\<close>, \<open>float(x)\<close> and iteration on the value of a column.\<close>

definition cell_int :: "cell \<Rightarrow> py_error + int" where
  "cell_int c =
     (case c of
        Json (JInt i) \<Rightarrow> Inr i
      | Json (JBool b) \<Rightarrow> Inr (if b then 1 else 0)
      | Json (JStr s) \<Rightarrow> (case py_int s of Some i \<Rightarrow> Inr i | None \<Rightarrow> Inl (ValueError ''invalid literal for int() with base 10''))
      | Float x \<Rightarrow> Inr (if 0 \<le> x then floor x else ceiling x)
      | _ \<Rightarrow> Inl (TypeError ''int() argument must be a string, a bytes-like object or a real number''))"

definition cell_float :: "cell \<Rightarrow> py_error + rat" where
  "cell_float c =
     (case c of
        Json (JInt i) \<Rightarrow> Inr (of_int i)
      | Json (JBool b) \<Rightarrow> Inr (if b then 1 else 0)
      | Float x \<Rightarrow> Inr x
      | _ \<Rightarrow> Inl (TypeError ''float() argument must be a string or a real number''))"

definition cell_items :: "cell \<Rightarrow> py_error + cell list" where
  "cell_items c =
     (case c of
        Json j \<Rightarrow> try_bind (py_iter j) (\<lambda>js. Inr (map Json js))
      | Floats v \<Rightarrow> Inr (map Float v)
      | _ \<Rightarrow> Inl (TypeError ''object is not iterable''))"

definition cell_strings :: "delta_env \<Rightarrow> cell \<Rightarrow> py_error + string list" where
  "cell_strings dn c = try_bind (cell_items c) (\<lambda>cs. Inr (map (cell_str dn) cs))"

definition cell_text :: "cell \<Rightarrow> string option" where
  "cell_text c = (case c of Json (JStr s) \<Rightarrow> Some s | _ \<Rightarrow> None)"

text \<open>A list whose items the receiving constructor takes only as texts.\<close>

definition cell_texts :: "py_error \<Rightarrow> cell \<Rightarrow> py_error + string list" where
  "cell_texts e c =
     try_bind (cell_items c) (try_list (\<lambda>x. case cell_text x of Some s \<Rightarrow> Inr s | None \<Rightarrow> Inl e))"

definition cell_vector :: "cell \<Rightarrow> py_error + rat list" where
  "cell_vector c = try_bind (cell_items c) (try_list cell_float)"

definition row_default :: "delta_row \<Rightarrow> string \<Rightarrow> cell \<Rightarrow> cell" where
  "row_default row key d = dict_get_default row key d"

fun remote_each :: "('a \<Rightarrow> 'b remote) \<Rightarrow> 'a list \<Rightarrow> 'b list remote" where
  "remote_each f [] = remote_return []"
| "remote_each f (x # xs) =
     remote_bind (f x) (\<lambda>y. remote_bind (remote_each f xs) (\<lambda>ys. remote_return (y # ys)))"

section \<open>The connection\<close>

definition INSERT_BATCH :: nat where
  "INSERT_BATCH = 1000"

text \<open>\<open>insert_rows\<close>: one statement per thousand rows, none for no rows.\<close>

definition insert_rows :: "surreal_env \<Rightarrow> ((string \<times> string) \<times> delta_row) list \<Rightarrow> unit remote" where
  "insert_rows sn rows =
     remote_bind (remote_each (\<lambda>batch. remote_call (sn_insert_rows sn batch)) (batches INSERT_BATCH rows))
       (\<lambda>_. remote_return ())"

definition count_table :: "string \<Rightarrow> int remote" where
  "count_table tbl = remote_call (\<lambda>db. (db, Inr (int (length (scan_table tbl db)))))"

definition delete_all_from_table :: "string \<Rightarrow> int remote" where
  "delete_all_from_table tbl = remote_bind (remote_scan tbl) delete_each"

definition clear_schema_owned_tables :: "int remote" where
  "clear_schema_owned_tables =
     remote_bind (remote_each (\<lambda>t. delete_all_from_table (tb_name t)) schema_tables) (\<lambda>ns. remote_return (sum_list ns))"

text \<open>\<open>_extract_table_mode\<close> on the answer of \<open>INFO FOR DB\<close>, whose table definitions are texts,
  dicts or lists of them.\<close>

definition mode_of_text :: "string \<Rightarrow> string option" where
  "mode_of_text s =
     (let u = py_upper s
      in if str_contains u ''RELATION'' then Some ''RELATION''
         else if str_contains u ''SCHEMAFULL'' then Some ''SCHEMAFULL''
         else if str_contains u ''SCHEMALESS'' then Some ''SCHEMALESS'' else None)"

text \<open>The loop over the keys \<open>schemafull\<close> and \<open>kind\<close>.\<close>

fun mode_of_keys :: "json option list \<Rightarrow> string option" where
  "mode_of_keys [] = None"
| "mode_of_keys (v # vs) =
     (case v of
        Some (JBool b) \<Rightarrow> Some (if b then ''SCHEMAFULL'' else ''SCHEMALESS'')
      | Some (JStr s) \<Rightarrow>
          (let u = py_upper s
           in if str_contains u ''RELATION'' then Some ''RELATION''
              else if u = ''SCHEMAFULL'' \<or> u = ''SCHEMALESS'' then Some u else mode_of_keys vs)
      | _ \<Rightarrow> mode_of_keys vs)"

lemma dict_get_size:
  "dict_get ps k = Some (v :: json) \<Longrightarrow> size v < Suc (size_list (size_prod (\<lambda>_. 0) size) ps)"
  by (induction ps) (auto split: if_splits)

function extract_table_mode :: "json \<Rightarrow> string option" and first_mode :: "json list \<Rightarrow> string option" where
  "extract_table_mode info =
     (case info of
        JObj ps \<Rightarrow>
          (case dict_get ps ''result'' of
             Some (JList (first # rest)) \<Rightarrow> extract_table_mode first
           | Some (JObj qs) \<Rightarrow> extract_table_mode (JObj qs)
           | _ \<Rightarrow>
             (case mode_of_keys [dict_get ps ''schemafull'', dict_get ps ''kind''] of
                Some m \<Rightarrow> Some m
              | None \<Rightarrow> (case dict_get ps ''tables'' of
                  Some (JObj qs) \<Rightarrow> extract_table_mode (JObj qs) | _ \<Rightarrow> None)))
      | JList items \<Rightarrow> first_mode items
      | JStr s \<Rightarrow> mode_of_text s
      | _ \<Rightarrow> None)"
| "first_mode [] = None"
| "first_mode (item # items) =
     (case extract_table_mode item of Some m \<Rightarrow> Some m | None \<Rightarrow> first_mode items)"
  by pat_completeness auto
termination
  by (relation "measure (case_sum size (size_list size))")
    (auto dest!: dict_get_size)

record schema_inspection =
  in_schema_version :: "string option"
  in_table_modes :: "(string, string) dict"

text \<open>The tables of \<open>INFO FOR DB\<close>, whose answer is the argument, and the stored version; an answer
  of another shape leaves the modes empty.\<close>

definition info_tables :: "json \<Rightarrow> (string, json) dict" where
  "info_tables info =
     (case info of
        JObj ps \<Rightarrow>
          (case dict_get ps ''result'' of
             Some (JList (JObj qs # _)) \<Rightarrow>
               (case dict_get qs ''result'' of
                  Some (JObj rs) \<Rightarrow> (case dict_get rs ''tables'' of Some (JObj ts) \<Rightarrow> ts | _ \<Rightarrow> [])
                | _ \<Rightarrow> [])
           | _ \<Rightarrow> [])
      | _ \<Rightarrow> [])"

definition inspect_schema :: "json \<Rightarrow> schema_inspection remote" where
  "inspect_schema info =
     remote_bind (remote_scan ''schema_meta'') (\<lambda>rows.
     remote_bind (case rows of (_, row) # _ \<Rightarrow> remote_return row
         | [] \<Rightarrow> remote_bind (remote_select (''schema_meta'', ''dotmd_schema'')) (\<lambda>r. remote_return (case r of Some row \<Rightarrow> row | None \<Rightarrow> []))) (\<lambda>meta.
       remote_return
         \<lparr>in_schema_version = cell_text (row_get meta ''schema_version''),
          in_table_modes = List.map_filter (\<lambda>(n, j). map_option (\<lambda>m. (n, m)) (extract_table_mode j)) (info_tables info)\<rparr>))"

section \<open>Chunks and statistics\<close>

definition saved_chunk_row :: "chunk \<Rightarrow> delta_row" where
  "saved_chunk_row c =
     (let strs = (\<lambda>xs. Json (JList (map JStr xs)))
      in [(''original_chunk_id'', str_cell (ch_chunk_id c)), (''chunk_id'', str_cell (ch_chunk_id c)),
          (''heading_hierarchy'', strs (ch_heading_hierarchy c)), (''level'', Json (JInt (ch_level c))),
          (''text'', str_cell (ch_text c)), (''chunk_index'', Json (JInt (int (ch_chunk_index c)))),
          (''file_paths'', strs (ch_file_paths c)),
          (''ref'', (case ch_provenance c of Some p \<Rightarrow> str_cell (cp_ref p) | None \<Rightarrow> none_cell)),
          (''document_ref'', (case ch_provenance c of Some p \<Rightarrow> str_cell (cp_document_ref p) | None \<Rightarrow> none_cell)),
          (''source_unit_refs'', strs (case ch_provenance c of Some p \<Rightarrow> cp_source_unit_refs p | None \<Rightarrow> []))])"

definition surreal_save_chunks :: "chunk list \<Rightarrow> unit remote" where
  "surreal_save_chunks chunks =
     remote_bind (remote_each (\<lambda>c. remote_upsert (''chunks'', ch_chunk_id c) (saved_chunk_row c)) chunks)
       (\<lambda>_. remote_return ())"

definition stored_provenance :: "delta_row \<Rightarrow> py_error + chunk_provenance option" where
  "stored_provenance stored =
     (case (cell_text (row_get stored ''ref''), cell_text (row_get stored ''document_ref'')) of
        (Some ref, Some document_ref) \<Rightarrow>
          try_bind (cell_texts (ValueError ''source_unit_refs: Input should be a valid string'')
              (row_default stored ''source_unit_refs'' empty_list_cell)) (\<lambda>refs.
            let refs = (if refs = [] \<and> py_startswith ref ''telegram:'' then [document_ref] else refs)
            in Inr (Some \<lparr>cp_namespace = fst (partition_colon ref), cp_document_ref = document_ref, cp_ref = ref,
                 cp_source_unit_refs = refs, cp_chunk_strategy = ''contextual_512_50'', cp_parser_name = Some ''markdown''\<rparr>))
      | _ \<Rightarrow> Inr None)"

text \<open>An index is not negative.\<close>

definition chunk_of_row :: "delta_env \<Rightarrow> delta_row \<Rightarrow> py_error + chunk" where
  "chunk_of_row dn stored =
     try_bind (stored_provenance stored) (\<lambda>provenance.
     try_bind (row_item stored ''chunk_id'') (\<lambda>chunk_id.
     try_bind (cell_texts (TypeError ''argument should be a str or an os.PathLike object'')
         (row_default stored ''file_paths'' empty_list_cell)) (\<lambda>file_paths.
     try_bind (cell_strings dn (row_default stored ''heading_hierarchy'' empty_list_cell)) (\<lambda>headings.
     try_bind (cell_int (row_default stored ''level'' (Json (JInt 0)))) (\<lambda>level.
     try_bind (cell_int (row_default stored ''chunk_index'' (Json (JInt 0)))) (\<lambda>chunk_index.
       Inr \<lparr>ch_chunk_id = cell_str dn chunk_id, ch_file_paths = file_paths, ch_heading_hierarchy = headings,
            ch_level = level, ch_text = cell_str dn (row_default stored ''text'' (str_cell '''')),
            ch_chunk_index = nat chunk_index, ch_kind = doc_kind_value DOCUMENT, ch_provenance = provenance\<rparr>))))))"

definition surreal_get_chunk :: "delta_env \<Rightarrow> string \<Rightarrow> chunk option remote" where
  "surreal_get_chunk dn chunk_id =
     remote_bind (remote_select (''chunks'', chunk_id)) (\<lambda>stored.
       case stored of
         None \<Rightarrow> remote_return None
       | Some row \<Rightarrow> if row = [] then remote_return None
           else remote_lift (try_bind (chunk_of_row dn row) (\<lambda>c. Inr (Some c))))"

definition surreal_get_chunks :: "delta_env \<Rightarrow> string list \<Rightarrow> chunk list remote" where
  "surreal_get_chunks dn chunk_ids =
     remote_bind (remote_each (surreal_get_chunk dn) chunk_ids) (\<lambda>cs. remote_return (List.map_filter id cs))"

text \<open>The strategy is ignored, and so are the bindings: the active provenance is all provenance.\<close>

definition surreal_chunk_provenance :: "delta_env \<Rightarrow> string \<Rightarrow> string list \<Rightarrow> (string, chunk_provenance) dict remote" where
  "surreal_chunk_provenance dn strategy chunk_ids =
     remote_bind (surreal_get_chunks dn chunk_ids) (\<lambda>cs.
       remote_return (fold (\<lambda>c d. case ch_provenance c of Some p \<Rightarrow> dict_set (ch_chunk_id c) p d | None \<Rightarrow> d) cs []))"

definition surreal_active_chunk_provenance :: "delta_env \<Rightarrow> string \<Rightarrow> string list \<Rightarrow> (string, chunk_provenance) dict remote" where
  "surreal_active_chunk_provenance dn strategy chunk_ids = surreal_chunk_provenance dn strategy chunk_ids"

definition surreal_get_all_chunks :: "delta_env \<Rightarrow> chunk list remote" where
  "surreal_get_all_chunks dn =
     remote_bind (remote_scan ''chunks'') (\<lambda>rows.
       surreal_get_chunks dn (List.map_filter (\<lambda>(_, row). cell_text (row_get row ''original_chunk_id'')) rows))"

definition surreal_save_stats :: "surreal_env \<Rightarrow> index_stats \<Rightarrow> unit remote" where
  "surreal_save_stats sn stats =
     remote_upsert (''stats'', ''latest'')
       [(''total_files'', Json (JInt (is_total_files stats))), (''total_chunks'', Json (JInt (is_total_chunks stats))),
        (''total_entities'', Json (JInt (is_total_entities stats))), (''total_edges'', Json (JInt (is_total_edges stats))),
        (''last_indexed'', (case is_last_indexed stats of Some t \<Rightarrow> str_cell (sn_isoformat sn t) | None \<Rightarrow> none_cell))]"

definition count_of_stats :: "int \<Rightarrow> int \<Rightarrow> int \<Rightarrow> int \<Rightarrow> timestamp option \<Rightarrow> index_stats" where
  "count_of_stats files chunks entities edges last_indexed =
     \<lparr>is_total_files = files, is_total_chunks = chunks, is_total_entities = entities, is_total_edges = edges,
      is_last_indexed = last_indexed, is_new_files = 0, is_modified_files = 0, is_deleted_files = 0,
      is_unchanged_files = 0, is_data_dir = None\<rparr>"

definition count_runtime_stats :: "index_stats remote" where
  "count_runtime_stats =
     remote_bind (count_table ''files'') (\<lambda>files. remote_bind (count_table ''chunks'') (\<lambda>chunks.
     remote_bind (count_table ''entities'') (\<lambda>entities. remote_bind (count_table ''relations'') (\<lambda>edges.
       remote_return (count_of_stats files chunks entities edges None)))))"

text \<open>A stored timestamp is a datetime of the driver or what pydantic reads as one.\<close>

definition stored_last_indexed :: "surreal_env \<Rightarrow> cell \<Rightarrow> py_error + timestamp option" where
  "stored_last_indexed sn c =
     (case c of
        Json JNull \<Rightarrow> Inr None
      | Time t \<Rightarrow> Inr (Some t)
      | _ \<Rightarrow> (case sn_datetime sn c of Some t \<Rightarrow> Inr (Some t)
          | None \<Rightarrow> Inl (ValueError ''last_indexed: Input should be a valid datetime'')))"

definition stats_from_record :: "surreal_env \<Rightarrow> delta_row \<Rightarrow> index_stats remote" where
  "stats_from_record sn stored =
     (let total = (\<lambda>k. remote_lift (cell_int (row_default stored k (Json (JInt 0)))))
      in remote_bind (total ''total_files'') (\<lambda>files. remote_bind (total ''total_chunks'') (\<lambda>chunks.
         remote_bind (total ''total_entities'') (\<lambda>entities. remote_bind (total ''total_edges'') (\<lambda>edges.
         remote_bind (if 0 \<in> {files, chunks, entities, edges} then
             remote_bind count_runtime_stats (\<lambda>counted. remote_return
               (if files = 0 then is_total_files counted else files, if chunks = 0 then is_total_chunks counted else chunks,
                if entities = 0 then is_total_entities counted else entities, if edges = 0 then is_total_edges counted else edges))
           else remote_return (files, chunks, entities, edges)) (\<lambda>(files, chunks, entities, edges).
         remote_bind (remote_lift (stored_last_indexed sn (row_get stored ''last_indexed''))) (\<lambda>last_indexed.
           remote_return (count_of_stats files chunks entities edges last_indexed))))))))"

definition surreal_get_stats :: "surreal_env \<Rightarrow> index_stats remote" where
  "surreal_get_stats sn =
     remote_bind (remote_select (''stats'', ''latest'')) (\<lambda>stored.
       case stored of
         None \<Rightarrow> count_runtime_stats
       | Some row \<Rightarrow> if row = [] then count_runtime_stats else stats_from_record sn row)"

definition surreal_chunk_ids_by_file :: "delta_env \<Rightarrow> string \<Rightarrow> string list remote" where
  "surreal_chunk_ids_by_file dn file_path =
     remote_bind (remote_scan ''chunk_file_bindings'') (\<lambda>rows.
       let rows = filter (\<lambda>row. row_get row ''file_path'' = str_cell file_path) (map snd rows)
       in remote_lift (try_bind (try_list (\<lambda>row. try_bind (cell_int (row_default row ''chunk_index'' (Json (JInt 0)))) (\<lambda>i. Inr (i, row))) rows)
            (\<lambda>keyed. try_list (\<lambda>(i, row). try_bind (row_item row ''chunk_id'') (\<lambda>v. Inr (cell_str dn v))) (sort_key fst keyed))))"

definition surreal_delete_chunks_by_file :: "delta_env \<Rightarrow> string \<Rightarrow> int remote" where
  "surreal_delete_chunks_by_file dn file_path =
     remote_bind (surreal_chunk_ids_by_file dn file_path) (\<lambda>ids.
     remote_bind (remote_each (\<lambda>i. remote_delete (''chunks'', i)) ids) (\<lambda>_. remote_return (int (length ids))))"

definition surreal_delete_all_metadata :: "unit remote" where
  "surreal_delete_all_metadata =
     remote_bind (remote_each delete_all_from_table
       [''chunks'', ''chunk_file_bindings'', ''documents'', ''source_units'', ''provenance'', ''bindings'',
        ''fingerprints'', ''cursors'', ''checkpoints'', ''stats'']) (\<lambda>_. remote_return ())"

section \<open>Replacing rows\<close>

text \<open>Every row gets its identifier first, then the rows are inserted.\<close>

definition replace_rows :: "surreal_env \<Rightarrow> string \<Rightarrow> (delta_row \<Rightarrow> py_error + string \<times> delta_row) \<Rightarrow> delta_row list \<Rightarrow> int remote" where
  "replace_rows sn tbl payload rows =
     remote_bind (remote_lift (try_list (\<lambda>row. try_bind (payload row) (\<lambda>(raw, p). Inr ((tbl, raw), p))) rows)) (\<lambda>payloads.
     remote_bind (insert_rows sn payloads) (\<lambda>_. remote_return (int (length rows))))"

definition with_key :: "delta_env \<Rightarrow> string \<Rightarrow> delta_row \<Rightarrow> py_error + string \<times> delta_row" where
  "with_key dn key row = try_bind (row_item row key) (\<lambda>v. Inr (cell_str dn v, row))"

definition with_composite :: "delta_env \<Rightarrow> string list \<Rightarrow> delta_row \<Rightarrow> py_error + string \<times> delta_row" where
  "with_composite dn keys row =
     try_bind (try_list (row_item row) keys) (\<lambda>vs. Inr (stable_composite_ref (map (cell_str dn) vs), row))"

definition replace_documents :: "surreal_env \<Rightarrow> delta_row list \<Rightarrow> int remote" where
  "replace_documents sn = replace_rows sn ''documents'' (with_key (sn_delta sn) ''ref'')"

definition replace_source_units :: "surreal_env \<Rightarrow> delta_row list \<Rightarrow> int remote" where
  "replace_source_units sn =
     replace_rows sn ''source_units'' (with_composite (sn_delta sn) [''namespace'', ''document_ref'', ''unit_ref''])"

definition replace_provenance_rows :: "surreal_env \<Rightarrow> delta_row list \<Rightarrow> int remote" where
  "replace_provenance_rows sn = replace_rows sn ''provenance'' (with_key (sn_delta sn) ''provenance_id'')"

definition replace_binding_rows :: "surreal_env \<Rightarrow> delta_row list \<Rightarrow> int remote" where
  "replace_binding_rows sn = replace_rows sn ''bindings'' (with_composite (sn_delta sn) [''namespace'', ''resource_ref''])"

definition replace_fingerprint_rows :: "surreal_env \<Rightarrow> delta_row list \<Rightarrow> int remote" where
  "replace_fingerprint_rows sn = replace_rows sn ''fingerprints'' (with_key (sn_delta sn) ''fingerprint_id'')"

text \<open>\<open>dict(binding)\<close> of an entry of \<open>file_bindings\<close>.\<close>

definition row_of_cell :: "cell \<Rightarrow> py_error + delta_row" where
  "row_of_cell c =
     (case c of Json (JObj ps) \<Rightarrow> Inr (map (\<lambda>(k, v). (k, Json v)) ps)
      | _ \<Rightarrow> Inl (TypeError ''cannot convert dictionary update sequence element #0 to a sequence''))"

definition chunk_payloads :: "delta_env \<Rightarrow> delta_row \<Rightarrow>
    py_error + ((string \<times> string) \<times> delta_row) \<times> ((string \<times> string) \<times> delta_row) list" where
  "chunk_payloads dn row =
     try_bind (cell_items (row_default row ''file_bindings'' empty_list_cell)) (\<lambda>bindings.
       let payload = dict_pop ''file_bindings'' row
       in try_bind (row_item payload ''chunk_id'') (\<lambda>chunk_id.
          try_bind (try_list (\<lambda>b. try_bind (row_of_cell b) (\<lambda>r.
              try_bind (with_composite dn [''chunk_id'', ''file_path'', ''chunk_index''] r) (\<lambda>(raw, r).
                Inr ((''chunk_file_bindings'', raw), r)))) bindings) (\<lambda>bs.
            Inr (((''chunks'', cell_str dn chunk_id), payload), bs))))"

definition replace_chunk_rows :: "surreal_env \<Rightarrow> delta_row list \<Rightarrow> int remote" where
  "replace_chunk_rows sn rows =
     remote_bind (remote_lift (try_list (chunk_payloads (sn_delta sn)) rows)) (\<lambda>payloads.
     remote_bind (insert_rows sn (map fst payloads)) (\<lambda>_.
     remote_bind (insert_rows sn (concat (map snd payloads))) (\<lambda>_. remote_return (int (length rows)))))"

definition upsert_rows :: "string \<Rightarrow> (delta_row \<Rightarrow> py_error + string) \<Rightarrow> delta_row list \<Rightarrow> int remote" where
  "upsert_rows tbl raw rows =
     remote_bind (remote_each (\<lambda>row. remote_bind (remote_lift (raw row)) (\<lambda>i. remote_upsert (tbl, i) row)) rows)
       (\<lambda>_. remote_return (int (length rows)))"

definition key_text :: "delta_env \<Rightarrow> string \<Rightarrow> delta_row \<Rightarrow> py_error + string" where
  "key_text dn key row = try_bind (row_item row key) (\<lambda>v. Inr (cell_str dn v))"

definition replace_checkpoint_rows :: "delta_env \<Rightarrow> delta_row list \<Rightarrow> int remote" where
  "replace_checkpoint_rows dn = upsert_rows ''checkpoints'' (key_text dn ''namespace'')"

definition replace_cursor_rows :: "delta_env \<Rightarrow> delta_row list \<Rightarrow> int remote" where
  "replace_cursor_rows dn = upsert_rows ''cursors'' (key_text dn ''ref'')"

definition replace_feedback_rows :: "delta_env \<Rightarrow> delta_row list \<Rightarrow> int remote" where
  "replace_feedback_rows dn = upsert_rows ''feedback'' (key_text dn ''original_feedback_id'')"

section \<open>Vectors\<close>

definition cosine_similarity :: "(rat \<Rightarrow> rat) \<Rightarrow> rat list \<Rightarrow> rat list \<Rightarrow> rat" where
  "cosine_similarity square_root left right =
     (if left = [] \<or> right = [] \<or> length left \<noteq> length right then 0
      else let left_norm = square_root (sum_list (map (\<lambda>x. x * x) left));
               right_norm = square_root (sum_list (map (\<lambda>x. x * x) right))
           in if left_norm = 0 \<or> right_norm = 0 then 0
              else sum_list (map2 (*) left right) / (left_norm * right_norm))"

definition embedding_row_of :: "chunk \<Rightarrow> rat list \<Rightarrow> (string, string) dict option \<Rightarrow> delta_row" where
  "embedding_row_of c v text_hashes =
     [(''chunk_id'', str_cell (ch_chunk_id c)), (''original_chunk_id'', str_cell (ch_chunk_id c)),
      (''text_hash'', (case text_hashes of
          Some (x # xs) \<Rightarrow> (case dict_get (x # xs) (ch_chunk_id c) of Some h \<Rightarrow> str_cell h | None \<Rightarrow> none_cell)
        | _ \<Rightarrow> none_cell)),
      (''vector_rowid'', none_cell), (''vector'', Floats v)]"

definition surreal_add_chunks :: "chunk list \<Rightarrow> rat list list \<Rightarrow> bool \<Rightarrow> (string, string) dict option \<Rightarrow> unit remote" where
  "surreal_add_chunks chunks embeddings overwrite text_hashes =
     remote_bind (if overwrite then delete_all_from_table ''embeddings'' else remote_return 0) (\<lambda>_.
     remote_bind (remote_each (\<lambda>(c, v). remote_upsert (''embeddings'', ch_chunk_id c) (embedding_row_of c v text_hashes))
       (zip chunks embeddings)) (\<lambda>_. remote_return ()))"

fun scored_rows :: "surreal_env \<Rightarrow> rat list \<Rightarrow> delta_row list \<Rightarrow> py_error + (string \<times> rat) list" where
  "scored_rows sn query [] = Inr []"
| "scored_rows sn query (row # rows) =
     try_bind (row_item row ''vector'') (\<lambda>v. try_bind (cell_vector v) (\<lambda>vector.
       if vector = [] then scored_rows sn query rows
       else let score = cosine_similarity (sn_sqrt sn) query vector
            in try_bind (row_item row ''chunk_id'') (\<lambda>i.
               try_bind (scored_rows sn query rows) (\<lambda>rest. Inr ((cell_str (sn_delta sn) i, score) # rest)))))"

definition surreal_vector_search :: "surreal_env \<Rightarrow> rat list \<Rightarrow> int \<Rightarrow> (string \<times> rat) list remote" where
  "surreal_vector_search sn query top_k =
     remote_bind (remote_scan ''embeddings'') (\<lambda>rows.
     remote_bind (remote_lift (scored_rows sn query (map snd rows))) (\<lambda>scored.
       remote_return (py_take top_k (sorted_desc snd scored))))"

definition surreal_delete_all_vectors :: "unit remote" where
  "surreal_delete_all_vectors =
     remote_bind (remote_each delete_all_from_table [''embeddings'', ''vector_components'']) (\<lambda>_. remote_return ())"

definition surreal_vector_count :: "int remote" where
  "surreal_vector_count = remote_bind (remote_scan ''embeddings'') (\<lambda>rows. remote_return (int (length rows)))"

fun vectors_by_hash :: "string list \<Rightarrow> delta_row list \<Rightarrow> (string, rat list) dict \<Rightarrow> py_error + (string, rat list) dict" where
  "vectors_by_hash text_hashes [] result = Inr result"
| "vectors_by_hash text_hashes (row # rows) result =
     (case cell_text (row_get row ''text_hash'') of
        None \<Rightarrow> vectors_by_hash text_hashes rows result
      | Some h \<Rightarrow>
          if h \<notin> set text_hashes then vectors_by_hash text_hashes rows result
          else try_bind (row_item row ''vector'') (\<lambda>v. try_bind (cell_vector v) (\<lambda>vector.
            vectors_by_hash text_hashes rows (dict_set h vector result))))"

definition surreal_lookup_by_text_hash :: "string list \<Rightarrow> (string, rat list) dict remote" where
  "surreal_lookup_by_text_hash text_hashes =
     (if text_hashes = [] then remote_return []
      else remote_bind (remote_scan ''embeddings'') (\<lambda>rows. remote_lift (vectors_by_hash text_hashes (map snd rows) [])))"

definition replace_embedding_rows :: "surreal_env \<Rightarrow> delta_row list \<Rightarrow> int remote" where
  "replace_embedding_rows sn =
     replace_rows sn ''embeddings'' (\<lambda>row. try_bind (row_item row ''chunk_id'') (\<lambda>i.
       Inr (stable_composite_ref (map (cell_str (sn_delta sn))
         [row_default row ''chunk_strategy'' (str_cell ''''), row_default row ''embedding_model'' (str_cell ''''), i]), row)))"

definition replace_vector_component_rows :: "delta_env \<Rightarrow> delta_row list \<Rightarrow> int remote" where
  "replace_vector_component_rows dn =
     upsert_rows ''vector_components'' (\<lambda>row. try_bind (row_item row ''component'') (\<lambda>component.
       Inr (stable_composite_ref (map (cell_str dn)
         [row_default row ''chunk_strategy'' (str_cell ''''), row_default row ''embedding_model'' (str_cell ''''),
          cell_or (row_get row ''chunk_id'') (row_get row ''entity_id''), component]))))"

section \<open>The graph\<close>

definition add_file_node :: "string \<Rightarrow> string \<Rightarrow> unit remote" where
  "add_file_node file_path title =
     remote_upsert (''files'', file_path) [(''file_path'', str_cell file_path), (''title'', str_cell title)]"

definition add_section_node :: "string \<Rightarrow> string \<Rightarrow> int \<Rightarrow> string \<Rightarrow> string \<Rightarrow> unit remote" where
  "add_section_node chunk_id heading level file_path text_preview =
     remote_upsert (''sections'', chunk_id)
       [(''chunk_id'', str_cell chunk_id), (''heading'', str_cell heading), (''level'', Json (JInt level)),
        (''file_path'', str_cell file_path), (''text_preview'', str_cell text_preview)]"

definition add_entity_node :: "string \<Rightarrow> string \<Rightarrow> string \<Rightarrow> unit remote" where
  "add_entity_node name entity_type source =
     remote_upsert (''entities'', name)
       [(''name'', str_cell name), (''original_entity_name'', str_cell name), (''entity_type'', str_cell entity_type),
        (''source'', str_cell source)]"

definition add_tag_node :: "string \<Rightarrow> unit remote" where
  "add_tag_node name = remote_upsert (''tags'', name) [(''name'', str_cell name)]"

definition edge_id :: "string \<Rightarrow> string \<Rightarrow> string \<Rightarrow> string" where
  "edge_id source_id relation_type target_id = source_id @ ''->'' @ relation_type @ ''->'' @ target_id"

definition edge_row :: "string \<Rightarrow> string \<Rightarrow> string \<Rightarrow> rat \<Rightarrow> delta_row" where
  "edge_row source_id target_id relation_type weight =
     [(''relation_id'', str_cell (edge_id source_id relation_type target_id)), (''source_id'', str_cell source_id),
      (''target_id'', str_cell target_id), (''relation_type'', str_cell relation_type), (''weight'', Float weight),
      (''properties'', empty_dict_cell)]"

definition add_edge :: "string \<Rightarrow> string \<Rightarrow> string \<Rightarrow> rat \<Rightarrow> unit remote" where
  "add_edge source_id target_id relation_type weight =
     remote_upsert (''relations'', edge_id source_id relation_type target_id)
       (edge_row source_id target_id relation_type weight)"

text \<open>The batch variants convert the columns of each row before its call.\<close>

definition text_of :: "delta_env \<Rightarrow> delta_row \<Rightarrow> string \<Rightarrow> string remote" where
  "text_of dn row key = remote_lift (key_text dn key row)"

definition batch_add_section_nodes :: "delta_env \<Rightarrow> delta_row list \<Rightarrow> unit remote" where
  "batch_add_section_nodes dn rows =
     remote_bind (remote_each (\<lambda>row.
       remote_bind (text_of dn row ''chunk_id'') (\<lambda>i. remote_bind (text_of dn row ''heading'') (\<lambda>h.
       remote_bind (remote_lift (try_bind (row_item row ''level'') cell_int)) (\<lambda>l.
       remote_bind (text_of dn row ''file_path'') (\<lambda>f. remote_bind (text_of dn row ''text_preview'') (\<lambda>t.
         add_section_node i h l f t)))))) rows) (\<lambda>_. remote_return ())"

definition batch_add_entity_nodes :: "delta_env \<Rightarrow> delta_row list \<Rightarrow> unit remote" where
  "batch_add_entity_nodes dn rows =
     remote_bind (remote_each (\<lambda>row.
       remote_bind (text_of dn row ''name'') (\<lambda>n. remote_bind (text_of dn row ''entity_type'') (\<lambda>t.
       remote_bind (text_of dn row ''source'') (\<lambda>s. add_entity_node n t s)))) rows) (\<lambda>_. remote_return ())"

definition batch_add_tag_nodes :: "string list \<Rightarrow> unit remote" where
  "batch_add_tag_nodes tags = remote_bind (remote_each add_tag_node tags) (\<lambda>_. remote_return ())"

definition batch_add_file_nodes :: "delta_env \<Rightarrow> delta_row list \<Rightarrow> unit remote" where
  "batch_add_file_nodes dn rows =
     remote_bind (remote_each (\<lambda>row.
       remote_bind (text_of dn row ''file_path'') (\<lambda>f. remote_bind (text_of dn row ''title'') (\<lambda>t. add_file_node f t))) rows)
       (\<lambda>_. remote_return ())"

definition batch_add_edges :: "delta_env \<Rightarrow> delta_row list \<Rightarrow> unit remote" where
  "batch_add_edges dn rows =
     remote_bind (remote_each (\<lambda>row.
       remote_bind (text_of dn row ''source_id'') (\<lambda>s. remote_bind (text_of dn row ''target_id'') (\<lambda>t.
       remote_bind (text_of dn row ''relation_type'') (\<lambda>k.
       remote_bind (remote_lift (cell_float (row_default row ''weight'' (Float 1)))) (\<lambda>w. add_edge s t k w))))) rows)
       (\<lambda>_. remote_return ())"

definition RELATED_TYPES :: "string list" where
  "RELATED_TYPES = [''MENTIONS'', ''HAS_TAG'']"

text \<open>A column that is a text of the list; \<open>==\<close> with a text holds of that text only.\<close>

definition text_in :: "cell \<Rightarrow> string list \<Rightarrow> bool" where
  "text_in c xs = (case cell_text c of Some s \<Rightarrow> s \<in> set xs | None \<Rightarrow> False)"

fun related_rows :: "delta_env \<Rightarrow> string \<Rightarrow> string list \<Rightarrow> delta_row list \<Rightarrow> py_error + (string \<times> string \<times> rat) list" where
  "related_rows dn chunk_id targets [] = Inr []"
| "related_rows dn chunk_id targets (row # rows) =
     (if row_get row ''source_id'' = str_cell chunk_id \<or> \<not> text_in (row_get row ''target_id'') targets
         \<or> cell_str dn (row_default row ''relation_type'' (str_cell '''')) \<notin> set RELATED_TYPES
      then related_rows dn chunk_id targets rows
      else try_bind (row_item row ''source_id'') (\<lambda>s.
           try_bind (cell_float (row_default row ''weight'' (Float 1))) (\<lambda>w.
           try_bind (related_rows dn chunk_id targets rows) (\<lambda>rest.
             Inr ((cell_str dn s, cell_str dn (row_default row ''relation_type'' (str_cell '''')), w) # rest)))))"

definition get_related_sections :: "delta_env \<Rightarrow> string \<Rightarrow> (string \<times> string \<times> rat) list remote" where
  "get_related_sections dn chunk_id =
     remote_bind (remote_scan ''relations'') (\<lambda>rows.
       let source_targets = map (\<lambda>row. cell_str dn (row_get row ''target_id''))
             (filter (\<lambda>row. row_get row ''source_id'' = str_cell chunk_id \<and> text_in (row_get row ''relation_type'') RELATED_TYPES)
               (map snd rows))
       in remote_bind (remote_scan ''relations'') (\<lambda>rows. remote_lift (related_rows dn chunk_id source_targets (map snd rows))))"

definition graph_delete_all :: "unit remote" where
  "graph_delete_all =
     remote_bind (remote_each delete_all_from_table [''files'', ''sections'', ''entities'', ''tags'', ''relations''])
       (\<lambda>_. remote_return ())"

definition delete_chunks_from_graph :: "string list \<Rightarrow> unit remote" where
  "delete_chunks_from_graph chunk_ids =
     (if chunk_ids = [] then remote_return ()
      else remote_bind (remote_scan ''relations'') (\<lambda>rows.
           remote_bind (delete_each (filter (\<lambda>(_, row). text_in (row_get row ''source_id'') chunk_ids
             \<or> text_in (row_get row ''target_id'') chunk_ids) rows)) (\<lambda>_.
           remote_bind (remote_each (\<lambda>i. remote_delete (''sections'', i)) chunk_ids) (\<lambda>_. remote_return ()))))"

definition delete_file_node :: "string \<Rightarrow> unit remote" where
  "delete_file_node file_path = remote_delete (''files'', file_path)"

definition sections_of_file :: "delta_env \<Rightarrow> string \<Rightarrow> string list remote" where
  "sections_of_file dn file_path =
     remote_bind (remote_scan ''sections'') (\<lambda>rows.
       remote_lift (try_list (key_text dn ''chunk_id'')
         (filter (\<lambda>row. row_get row ''file_path'' = str_cell file_path) (map snd rows))))"

definition delete_file_subgraph :: "delta_env \<Rightarrow> string \<Rightarrow> unit remote" where
  "delete_file_subgraph dn file_path =
     remote_bind (sections_of_file dn file_path) (\<lambda>ids.
     remote_bind (delete_chunks_from_graph ids) (\<lambda>_. delete_file_node file_path))"

definition delete_frontmatter_edges :: "delta_env \<Rightarrow> string \<Rightarrow> unit remote" where
  "delete_frontmatter_edges dn file_path =
     remote_bind (sections_of_file dn file_path) (\<lambda>ids.
     remote_bind (remote_scan ''relations'') (\<lambda>rows.
     remote_bind (delete_each (filter (\<lambda>(_, row). text_in (row_get row ''source_id'') ids
       \<and> row_get row ''relation_type'' = str_cell ''HAS_TAG'') rows)) (\<lambda>_. remote_return ())))"

definition get_all_entity_names :: "delta_env \<Rightarrow> string list remote" where
  "get_all_entity_names dn =
     remote_bind (remote_scan ''entities'') (\<lambda>rows.
       remote_return (sort (filter (\<lambda>n. n \<noteq> []) (map (\<lambda>(_, row). cell_str dn (row_get row ''name'')) rows))))"

definition get_chunks_by_entity :: "delta_env \<Rightarrow> string \<Rightarrow> string list remote" where
  "get_chunks_by_entity dn entity_name =
     remote_bind (remote_scan ''relations'') (\<lambda>rows.
     remote_bind (remote_lift (try_list (key_text dn ''source_id'')
       (filter (\<lambda>row. row_get row ''target_id'' = str_cell entity_name \<and> row_get row ''relation_type'' = str_cell ''MENTIONS'')
         (map snd rows)))) (\<lambda>ids. remote_return (sort ids)))"

definition get_entities_by_file :: "delta_env \<Rightarrow> string \<Rightarrow> string list remote" where
  "get_entities_by_file dn file_path =
     remote_bind (sections_of_file dn file_path) (\<lambda>ids.
     remote_bind (remote_scan ''relations'') (\<lambda>rows.
     remote_bind (remote_lift (try_list (key_text dn ''target_id'')
       (filter (\<lambda>row. text_in (row_get row ''source_id'') ids \<and> row_get row ''relation_type'' = str_cell ''MENTIONS'')
         (map snd rows)))) (\<lambda>names. remote_return (sort (remdups names)))))"

definition node_count :: "int remote" where
  "node_count =
     remote_bind (remote_each remote_scan [''files'', ''sections'', ''entities'', ''tags''])
       (\<lambda>tables. remote_return (sum_list (map (\<lambda>rows. int (length rows)) tables)))"

definition edge_count :: "int remote" where
  "edge_count = remote_bind (remote_scan ''relations'') (\<lambda>rows. remote_return (int (length rows)))"

definition isolated :: "string list \<Rightarrow> string \<Rightarrow> delta_row \<Rightarrow> bool" where
  "isolated relation_ids key_name row =
     (case cell_text (row_get row key_name) of Some key \<Rightarrow> key \<notin> set relation_ids | None \<Rightarrow> False)"

definition NODE_KEYS :: "(string \<times> string) list" where
  "NODE_KEYS = [(''files'', ''file_path''), (''sections'', ''chunk_id''), (''entities'', ''name''), (''tags'', ''name'')]"

definition delete_isolated_nodes :: "delta_env \<Rightarrow> int remote" where
  "delete_isolated_nodes dn =
     remote_bind (remote_scan ''relations'') (\<lambda>rows.
       let relation_ids = concat (map (\<lambda>(_, row). [cell_str dn (row_get row ''source_id''), cell_str dn (row_get row ''target_id'')]) rows)
       in remote_bind (remote_each (\<lambda>(tbl, key_name).
            remote_bind (remote_scan tbl) (\<lambda>nodes. delete_each (filter (\<lambda>(_, row). isolated relation_ids key_name row) nodes)))
            NODE_KEYS) (\<lambda>ns. remote_return (sum_list ns)))"

text \<open>The whole graph; a node keeps its record id, a relation is source, target, type and weight.\<close>

record graph_node =
  gn_id :: "string \<times> string"
  gn_label :: string
  gn_properties :: delta_row

definition NODE_LABELS :: "(string \<times> string) list" where
  "NODE_LABELS = [(''files'', ''File''), (''sections'', ''Section''), (''entities'', ''Entity''), (''tags'', ''Tag'')]"

definition graph_edge_of :: "delta_env \<Rightarrow> delta_row \<Rightarrow> py_error + string \<times> string \<times> string \<times> rat" where
  "graph_edge_of dn row =
     try_bind (cell_float (row_default row ''weight'' (Float 1))) (\<lambda>w.
       Inr (cell_str dn (row_get row ''source_id''), cell_str dn (row_get row ''target_id''),
            cell_str dn (row_get row ''relation_type''), w))"

definition get_graph_data :: "delta_env \<Rightarrow> (graph_node list \<times> (string \<times> string \<times> string \<times> rat) list) remote" where
  "get_graph_data dn =
     remote_bind (remote_each (\<lambda>(tbl, label). remote_bind (remote_scan tbl) (\<lambda>rows.
       remote_return (map (\<lambda>(rid, row). \<lparr>gn_id = rid, gn_label = label, gn_properties = row\<rparr>) rows))) NODE_LABELS) (\<lambda>nodes.
     remote_bind (remote_scan ''relations'') (\<lambda>rows.
     remote_bind (remote_lift (try_list (graph_edge_of dn) (map snd rows))) (\<lambda>edges.
       remote_return (concat nodes, edges))))"

section \<open>Replacing the graph\<close>

definition graph_defaults :: "delta_row \<Rightarrow> delta_row" where
  "graph_defaults row =
     setdefault ''metadata'' empty_dict_cell (setdefault ''schema_version'' (str_cell ''41.1.0'') row)"

definition entity_payload_of :: "delta_env \<Rightarrow> delta_row \<Rightarrow> py_error + string \<times> delta_row" where
  "entity_payload_of dn row =
     (let p = graph_defaults (dict_pop ''id'' row);
          p = setdefault ''original_entity_name'' (str_cell (cell_str dn (row_default p ''name'' (str_cell '''')))) p
      in try_bind (row_item p ''name'') (\<lambda>name. Inr (cell_str dn name, p)))"

definition replace_entity_rows :: "surreal_env \<Rightarrow> delta_row list \<Rightarrow> int remote" where
  "replace_entity_rows sn = replace_rows sn ''entities'' (entity_payload_of (sn_delta sn))"

definition record_cell :: "cell \<Rightarrow> delta_env \<Rightarrow> cell \<Rightarrow> py_error + cell" where
  "record_cell tbl dn raw =
     (if cell_str dn tbl = [] then Inl (ValueError ''table_name must not be empty'')
      else Inr (RecordId (cell_str dn tbl) (cell_str dn raw)))"

definition relation_payload_of :: "delta_env \<Rightarrow> delta_row \<Rightarrow> py_error + string \<times> delta_row" where
  "relation_payload_of dn row =
     (let p = graph_defaults row;
          p = setdefault ''rel_type'' (row_get p ''relation_type'') p;
          p = setdefault ''relation_type'' (row_get p ''rel_type'') p
      in try_bind (row_item p ''relation_id'') (\<lambda>relation_id.
         let p = dict_pop ''relation_id'' p;
             source_table = row_default p ''source_table'' (str_cell ''sections'');
             target_table = row_default p ''target_table'' (str_cell ''entities'')
         in try_bind (row_item p ''source_id'') (\<lambda>s. try_bind (record_cell source_table dn s) (\<lambda>rs.
            let p = setdefault ''in'' rs p
            in try_bind (row_item p ''target_id'') (\<lambda>t. try_bind (record_cell target_table dn t) (\<lambda>rt.
               Inr (cell_str dn relation_id, setdefault ''out'' rt p)))))))"

definition replace_relation_rows :: "surreal_env \<Rightarrow> delta_row list \<Rightarrow> int remote" where
  "replace_relation_rows sn rows =
     remote_bind (remote_lift (try_list (relation_payload_of (sn_delta sn)) rows)) (\<lambda>payloads.
     remote_bind (if payloads = [] then remote_return () else remote_call (sn_insert_relations sn payloads)) (\<lambda>_.
       remote_return (int (length rows))))"

definition file_payload_of :: "delta_env \<Rightarrow> delta_row \<Rightarrow> py_error + string \<times> delta_row" where
  "file_payload_of dn row =
     (let p = graph_defaults (dict_pop ''id'' row);
          original_id = cell_str dn (cell_or (row_get p ''original_id'') (row_get p ''path''))
      in Inr (original_id, setdefault ''original_id'' (str_cell original_id) p))"

definition section_payload_of :: "delta_env \<Rightarrow> delta_row \<Rightarrow> py_error + string \<times> delta_row" where
  "section_payload_of dn row =
     (let p = graph_defaults (dict_pop ''id'' row);
          original_id = cell_str dn (cell_or (row_get p ''original_id'') (row_get p ''chunk_id''));
          p = setdefault ''original_id'' (str_cell original_id) p;
          document_ref = cell_str dn (cell_or (cell_or (row_get p ''document_ref'') (row_get p ''file_path'')) (str_cell original_id))
      in Inr (original_id, dict_set ''document_ref'' (str_cell document_ref) p))"

definition tag_payload_of :: "delta_env \<Rightarrow> delta_row \<Rightarrow> py_error + string \<times> delta_row" where
  "tag_payload_of dn row =
     (let p = graph_defaults (dict_pop ''id'' row);
          name = cell_str dn (row_get p ''name'')
      in Inr (name, setdefault ''original_id'' (str_cell name) p))"

definition replace_file_rows :: "surreal_env \<Rightarrow> delta_row list \<Rightarrow> int remote" where
  "replace_file_rows sn = replace_rows sn ''files'' (file_payload_of (sn_delta sn))"

definition replace_section_rows :: "surreal_env \<Rightarrow> delta_row list \<Rightarrow> int remote" where
  "replace_section_rows sn = replace_rows sn ''sections'' (section_payload_of (sn_delta sn))"

definition replace_tag_rows :: "surreal_env \<Rightarrow> delta_row list \<Rightarrow> int remote" where
  "replace_tag_rows sn = replace_rows sn ''tags'' (tag_payload_of (sn_delta sn))"

text \<open>The rows to insert and the names they cover, by node table.\<close>

record graph_rows =
  gr_sections :: "delta_row list"
  gr_section_ids :: "string list"
  gr_tags :: "delta_row list"
  gr_tag_names :: "string list"
  gr_entities :: "delta_row list"
  gr_entity_names :: "string list"

definition initial_graph_rows :: "delta_env \<Rightarrow> delta_row list \<Rightarrow> delta_row list \<Rightarrow> delta_row list \<Rightarrow> graph_rows" where
  "initial_graph_rows dn entities sections tags =
     \<lparr>gr_sections = sections,
      gr_section_ids = map (\<lambda>row. cell_str dn (cell_or (row_get row ''original_id'') (row_get row ''chunk_id''))) sections,
      gr_tags = tags, gr_tag_names = map (\<lambda>row. cell_str dn (row_get row ''name'')) tags,
      gr_entities = entities, gr_entity_names = map (\<lambda>row. cell_str dn (row_get row ''name'')) entities\<rparr>"

text \<open>The node rows a relation needs and does not have yet.\<close>

definition cover_relation :: "delta_env \<Rightarrow> delta_row \<Rightarrow> graph_rows \<Rightarrow> py_error + graph_rows" where
  "cover_relation dn relation g =
     try_bind (row_item relation ''source_id'') (\<lambda>s.
       let source_id = cell_str dn s;
           g = (if source_id \<in> set (gr_section_ids g) then g
                else g\<lparr>gr_sections := gr_sections g @ [[(''original_id'', str_cell source_id),
                         (''document_ref'', str_cell source_id), (''metadata'', empty_dict_cell)]],
                       gr_section_ids := source_id # gr_section_ids g\<rparr>);
           relation_type = cell_str dn (cell_or (row_get relation ''relation_type'') (row_get relation ''rel_type''))
       in try_bind (row_item relation ''target_id'') (\<lambda>t.
          let target_id = cell_str dn t
          in Inr (if relation_type = ''HAS_TAG'' then
                    (if target_id \<in> set (gr_tag_names g) then g
                     else g\<lparr>gr_tags := gr_tags g @ [[(''original_id'', str_cell target_id), (''name'', str_cell target_id),
                              (''metadata'', empty_dict_cell)]],
                            gr_tag_names := target_id # gr_tag_names g\<rparr>)
                  else if target_id \<in> set (gr_entity_names g) then g
                  else g\<lparr>gr_entities := gr_entities g @ [[(''original_id'', str_cell target_id),
                           (''original_entity_name'', str_cell target_id), (''name'', str_cell target_id),
                           (''entity_type'', str_cell ''Entity''), (''source'', str_cell source_id),
                           (''metadata'', empty_dict_cell)]],
                         gr_entity_names := target_id # gr_entity_names g\<rparr>)))"

fun cover_relations :: "delta_env \<Rightarrow> delta_row list \<Rightarrow> graph_rows \<Rightarrow> py_error + graph_rows" where
  "cover_relations dn [] g = Inr g"
| "cover_relations dn (r # rs) g = try_bind (cover_relation dn r g) (cover_relations dn rs)"

definition replace_graph_rows :: "surreal_env \<Rightarrow> delta_row list \<Rightarrow> delta_row list \<Rightarrow> delta_row list \<Rightarrow> delta_row list \<Rightarrow>
    delta_row list \<Rightarrow> int remote" where
  "replace_graph_rows sn entities relations files sections tags =
     remote_bind graph_delete_all (\<lambda>_.
     remote_bind (remote_lift (cover_relations (sn_delta sn) relations
       (initial_graph_rows (sn_delta sn) entities sections tags))) (\<lambda>g.
     remote_bind (if files = [] then remote_return 0 else replace_file_rows sn files) (\<lambda>n1.
     remote_bind (if gr_sections g = [] then remote_return 0 else replace_section_rows sn (gr_sections g)) (\<lambda>n2.
     remote_bind (if gr_tags g = [] then remote_return 0 else replace_tag_rows sn (gr_tags g)) (\<lambda>n3.
     remote_bind (replace_entity_rows sn (gr_entities g)) (\<lambda>n4.
     remote_bind (replace_relation_rows sn relations) (\<lambda>n5. remote_return (n1 + n2 + n3 + n4 + n5))))))))"

end
