(* ===== verification/Delta_Sync.thy ===== *)
theory Delta_Sync
  imports Delta_Manifest
begin

text \<open>
  The runner of the incremental sync (\<open>run_surreal_delta_sync\<close> in
  \<open>ingestion/surreal_delta_sync.py\<close>): it applies the phases of a manifest in order, in batches,
  against a writer, and keeps a state by which a run after a failure skips the phases it has
  completed.  The clock is read once per run; the texts of the durations and the progress callback
  are left out.  The locale \<open>delta_writer\<close> is the contract of a writer, and shows what any number of
  failed runs followed by a successful one leave in the store.
\<close>

section \<open>Progress and state\<close>

record sync_progress =
  sg_status :: string
  sg_total_units :: int
  sg_applied_units :: int
  sg_completed_units :: int
  sg_current_phase :: "string option"
  sg_current_phase_units :: int
  sg_percent_complete :: rat
  sg_elapsed_seconds :: rat
  sg_eta_seconds :: "rat option"
  sg_completed_phases :: "string list"
  sg_checkpoint_applied :: bool

record sync_state =
  ss_started_at_seconds :: "rat option"
  ss_completed_phases :: "string list"
  ss_completed_units :: int
  ss_last_progress :: "sync_progress option"
  ss_checkpoint_applied :: bool
  ss_last_error :: "string option"

definition new_sync_state :: sync_state where
  "new_sync_state = \<lparr>ss_started_at_seconds = None, ss_completed_phases = [], ss_completed_units = 0,
     ss_last_progress = None, ss_checkpoint_applied = False, ss_last_error = None\<rparr>"

record sync_result =
  sr_progress :: sync_progress
  sr_applied_counts :: "(string, int) dict"
  sr_skipped_phases :: "string list"

definition build_progress :: "string \<Rightarrow> rat \<Rightarrow> rat \<Rightarrow> int \<Rightarrow> int \<Rightarrow> string option \<Rightarrow> int \<Rightarrow> string list \<Rightarrow> bool \<Rightarrow>
    sync_progress" where
  "build_progress status started now tot completed current_phase current_units phases checkpoint =
     (let elapsed = max (now - started) 0;
          applied = min completed tot;
          percent = (if tot \<le> 0 then 100 else min (of_int applied / of_int tot * 100) 100);
          eta = (if applied < tot \<and> 120 \<le> elapsed \<and> 0 < applied
                 then Some (of_int (tot - applied) / (of_int applied / elapsed)) else None)
      in \<lparr>sg_status = status, sg_total_units = tot, sg_applied_units = applied,
          sg_completed_units = completed, sg_current_phase = current_phase,
          sg_current_phase_units = current_units, sg_percent_complete = percent,
          sg_elapsed_seconds = elapsed, sg_eta_seconds = eta, sg_completed_phases = phases,
          sg_checkpoint_applied = checkpoint\<rparr>)"

definition emit_progress :: "rat \<Rightarrow> int \<Rightarrow> string \<Rightarrow> string option \<Rightarrow> int \<Rightarrow> int \<Rightarrow> sync_state \<Rightarrow> sync_state" where
  "emit_progress now tot status current_phase current_units applied st =
     (let started = (case ss_started_at_seconds st of None \<Rightarrow> now | Some t \<Rightarrow> t)
      in st\<lparr>ss_started_at_seconds := Some started,
            ss_last_progress := Some (build_progress status started now tot applied current_phase
              current_units (ss_completed_phases st) (ss_checkpoint_applied st))\<rparr>)"

section \<open>The run\<close>

function chunk_rows :: "nat \<Rightarrow> 'a list \<Rightarrow> 'a list list" where
  "chunk_rows n rows = (if n = 0 \<or> rows = [] then [] else take n rows # chunk_rows n (drop n rows))"
  by auto
termination by (relation "measure (\<lambda>(n, rows). length rows)") auto

declare chunk_rows.simps [simp del]

fun run_batches :: "rat \<Rightarrow> int \<Rightarrow> string \<Rightarrow> int \<Rightarrow> (delta_change list \<Rightarrow> 'w \<Rightarrow> 'w \<times> (py_error + int)) \<Rightarrow>
    delta_change list list \<Rightarrow> int \<Rightarrow> sync_state \<times> 'w \<Rightarrow> (sync_state \<times> 'w) \<times> (py_error + int)" where
  "run_batches now tot name units writer [] applied (st, w) = ((st, w), Inr applied)"
| "run_batches now tot name units writer (batch # rest) applied (st, w) =
     (case writer batch w of
        (w', Inl e) \<Rightarrow> ((st, w'), Inl e)
      | (w', Inr n) \<Rightarrow>
          run_batches now tot name units writer rest (applied + n)
            (emit_progress now tot ''running'' (Some name) units
               (ss_completed_units st + min (applied + n) units) st, w'))"

text \<open>The writes of a phase: the checkpoint candidate, or the rows in batches.\<close>

definition write_phase :: "rat \<Rightarrow> int \<Rightarrow> nat \<Rightarrow> 'w sync_writer \<Rightarrow> checkpoint_candidate \<Rightarrow> sync_phase \<Rightarrow>
    sync_state \<times> 'w \<Rightarrow> (sync_state \<times> 'w) \<times> (py_error + int)" where
  "write_phase now tot batch_size sw candidate p x =
     (if sp_name p = ''checkpoint_candidate'' then
        (case sw_checkpoint sw candidate (snd x) of (w', r) \<Rightarrow> ((fst x, w'), r))
      else case sw_method sw (sp_writer_method p) of
          None \<Rightarrow> (x, Inl (AttributeError (''writer does not implement '' @ sp_writer_method p)))
        | Some writer \<Rightarrow>
            run_batches now tot (sp_name p) (int (phase_units p)) writer (chunk_rows batch_size (sp_rows p)) 0 x)"

definition complete_phase :: "rat \<Rightarrow> int \<Rightarrow> sync_phase \<Rightarrow> sync_state \<Rightarrow> sync_state" where
  "complete_phase now tot p st =
     (let st = st\<lparr>ss_checkpoint_applied := (if sp_name p = ''checkpoint_candidate'' then True else ss_checkpoint_applied st),
                  ss_completed_phases := ss_completed_phases st @ [sp_name p],
                  ss_completed_units := ss_completed_units st + int (phase_units p)\<rparr>
      in emit_progress now tot ''applied'' (Some (sp_name p)) (int (phase_units p)) (ss_completed_units st) st)"

fun run_phases :: "rat \<Rightarrow> int \<Rightarrow> nat \<Rightarrow> 'w sync_writer \<Rightarrow> checkpoint_candidate \<Rightarrow> string list \<Rightarrow> sync_phase list \<Rightarrow>
    (string, int) dict \<Rightarrow> string list \<Rightarrow> sync_state \<times> 'w \<Rightarrow>
    (sync_state \<times> 'w) \<times> (py_error + (string, int) dict \<times> string list)" where
  "run_phases now tot batch_size sw candidate completed [] counts skipped x = (x, Inr (counts, skipped))"
| "run_phases now tot batch_size sw candidate completed (p # ps) counts skipped (st, w) =
     (let units = int (phase_units p);
          st = emit_progress now tot ''running'' (Some (sp_name p)) units (ss_completed_units st) st
      in if sp_name p \<in> set completed \<or> units = 0 then
           run_phases now tot batch_size sw candidate completed ps counts (skipped @ [sp_name p])
             (emit_progress now tot ''skipped'' (Some (sp_name p)) units (ss_completed_units st) st, w)
         else case write_phase now tot batch_size sw candidate p (st, w) of
             (x, Inl e) \<Rightarrow> (x, Inl e)
           | ((st, w), Inr n) \<Rightarrow>
               run_phases now tot batch_size sw candidate completed ps (dict_set (sp_name p) n counts) skipped
                 (complete_phase now tot p st, w))"

definition total_units :: "delta_manifest \<Rightarrow> int" where
  "total_units m = int (sum_list (map phase_units (manifest_units m)))"

definition record_failure :: "rat \<Rightarrow> int \<Rightarrow> py_error \<Rightarrow> sync_state \<Rightarrow> sync_state" where
  "record_failure now tot e st =
     (let st = st\<lparr>ss_last_error := Some (error_text e)\<rparr>
      in case ss_last_progress st of
           None \<Rightarrow> emit_progress now tot ''failed'' None 0 (ss_completed_units st) st
         | Some p \<Rightarrow> emit_progress now tot ''failed'' (sg_current_phase p) (sg_current_phase_units p) (sg_applied_units p) st)"

definition run_surreal_delta_sync :: "rat \<Rightarrow> int \<Rightarrow> 'w sync_writer \<Rightarrow> delta_manifest \<Rightarrow> sync_state \<times> 'w \<Rightarrow>
    (sync_state \<times> 'w) \<times> (py_error + sync_result)" where
  "run_surreal_delta_sync now batch_size sw m x =
     (if batch_size \<le> 0 then (x, Inl (ValueError ''batch_size must be positive''))
      else let tot = total_units m;
               st = emit_progress now tot ''running'' None 0 (ss_completed_units (fst x)) (fst x)
           in case run_phases now tot (nat batch_size) sw (dm_checkpoint_candidate m) (ss_completed_phases (fst x))
                     (manifest_units m) [] [] (st, snd x) of
                ((st, w), Inl e) \<Rightarrow> ((record_failure now tot e st, w), Inl e)
              | ((st, w), Inr (counts, skipped)) \<Rightarrow>
                  (let started = (case ss_started_at_seconds st of None \<Rightarrow> now | Some t \<Rightarrow> t);
                       progress = build_progress ''applied'' started now tot (ss_completed_units st)
                         (Some ''checkpoint_candidate'') 1 (ss_completed_phases st) (ss_checkpoint_applied st)
                   in ((st\<lparr>ss_last_progress := Some progress\<rparr>, w),
                       Inr \<lparr>sr_progress = progress, sr_applied_counts = counts, sr_skipped_phases = skipped\<rparr>)))"

section \<open>What a manifest does to a store\<close>

definition phase_effect :: "(string \<Rightarrow> delta_change \<Rightarrow> 'v \<Rightarrow> 'v) \<Rightarrow> (checkpoint_candidate \<Rightarrow> 'v \<Rightarrow> 'v) \<Rightarrow>
    checkpoint_candidate \<Rightarrow> sync_phase \<Rightarrow> 'v \<Rightarrow> 'v" where
  "phase_effect step mark k p v =
     (if sp_name p = ''checkpoint_candidate'' then mark k v
      else fold (step (sp_writer_method p)) (sp_rows p) v)"

definition manifest_effect :: "(string \<Rightarrow> delta_change \<Rightarrow> 'v \<Rightarrow> 'v) \<Rightarrow> (checkpoint_candidate \<Rightarrow> 'v \<Rightarrow> 'v) \<Rightarrow>
    delta_manifest \<Rightarrow> 'v \<Rightarrow> 'v" where
  "manifest_effect step mark m v = fold (phase_effect step mark (dm_checkpoint_candidate m)) (manifest_units m) v"

text \<open>The states after any number of failed runs of one manifest, each at its own time and batch size.\<close>

inductive sync_attempts :: "'w sync_writer \<Rightarrow> delta_manifest \<Rightarrow> 'w \<Rightarrow> sync_state \<times> 'w \<Rightarrow> bool"
  for sw m w0 where
  fresh: "sync_attempts sw m w0 (new_sync_state, w0)"
| failed: "sync_attempts sw m w0 x \<Longrightarrow> run_surreal_delta_sync now batch_size sw m x = (x', Inl e)
    \<Longrightarrow> sync_attempts sw m w0 x'"

section \<open>Lemmas on phases and batches\<close>

abbreviation phase_names :: "sync_phase list \<Rightarrow> string list" where
  "phase_names ps \<equiv> map sp_name (filter (\<lambda>p. phase_units p \<noteq> 0) ps)"

lemma concat_chunk_rows [simp]: "0 < n \<Longrightarrow> concat (chunk_rows n rows) = rows"
  by (induction n rows rule: chunk_rows.induct) (subst chunk_rows.simps, simp)

lemma manifest_unit_names:
  "map sp_name (manifest_units m) =
     [''tombstones'', ''documents'', ''source_units'', ''chunks'', ''chunk_file_bindings'', ''provenance'',
      ''resource_bindings'', ''fingerprints'', ''embeddings'', ''vector_components'', ''graph'', ''feedback'',
      ''checkpoint_candidate'']"
  by (simp add: manifest_units_def manifest_sections_def section_phase_def)

lemma distinct_unit_names: "distinct (map sp_name (manifest_units m))"
  by (simp add: manifest_unit_names)

lemma completed_emit [simp]:
  "ss_completed_phases (emit_progress now tot status cp cu a st) = ss_completed_phases st"
  "ss_checkpoint_applied (emit_progress now tot status cp cu a st) = ss_checkpoint_applied st"
  "ss_completed_units (emit_progress now tot status cp cu a st) = ss_completed_units st"
  by (simp_all add: emit_progress_def Let_def)

lemma completed_complete [simp]:
  "ss_completed_phases (complete_phase now tot p st) = ss_completed_phases st @ [sp_name p]"
  "ss_checkpoint_applied (complete_phase now tot p st) =
     (sp_name p = ''checkpoint_candidate'' \<or> ss_checkpoint_applied st)"
  "ss_completed_units (complete_phase now tot p st) = ss_completed_units st + int (phase_units p)"
  by (simp_all add: complete_phase_def Let_def)

lemma completed_failure [simp]:
  "ss_completed_phases (record_failure now tot e st) = ss_completed_phases st"
  "ss_checkpoint_applied (record_failure now tot e st) = ss_checkpoint_applied st"
  by (simp_all add: record_failure_def Let_def split: option.split)

lemma run_batches_state:
  "run_batches now tot name units f bs a (st, w) = ((st', w'), r) \<Longrightarrow>
     ss_completed_phases st' = ss_completed_phases st \<and> ss_checkpoint_applied st' = ss_checkpoint_applied st
     \<and> ss_completed_units st' = ss_completed_units st"
  by (induction bs arbitrary: a st w) (auto split: prod.splits sum.splits dest!: meta_spec)

lemma write_phase_state:
  "write_phase now tot bsz sw k p (st, w) = ((st', w'), r) \<Longrightarrow>
     ss_completed_phases st' = ss_completed_phases st \<and> ss_checkpoint_applied st' = ss_checkpoint_applied st
     \<and> ss_completed_units st' = ss_completed_units st"
  using run_batches_state
  by (fastforce simp: write_phase_def split: if_splits prod.splits option.splits)

text \<open>Phases that were completed before, or have no units, leave the store alone.\<close>

lemma run_phases_skips:
  assumes "list_all (\<lambda>p. sp_name p \<in> set C \<or> phase_units p = 0) ds"
  shows "\<exists>st'. run_phases now tot bsz sw k C (ds @ rs) counts skipped (st, w) =
      run_phases now tot bsz sw k C rs counts (skipped @ map sp_name ds) (st', w)
    \<and> ss_completed_phases st' = ss_completed_phases st \<and> ss_checkpoint_applied st' = ss_checkpoint_applied st
    \<and> ss_completed_units st' = ss_completed_units st"
  using assms
proof (induction ds arbitrary: skipped st)
  case (Cons p ds)
  obtain st1 where st1: "run_phases now tot bsz sw k C ((p # ds) @ rs) counts skipped (st, w)
      = run_phases now tot bsz sw k C (ds @ rs) counts (skipped @ [sp_name p]) (st1, w)"
    "ss_completed_phases st1 = ss_completed_phases st" "ss_checkpoint_applied st1 = ss_checkpoint_applied st"
    "ss_completed_units st1 = ss_completed_units st"
    using Cons.prems by (auto simp: Let_def)
  with Cons.IH [of "skipped @ [sp_name p]" st1] Cons.prems show ?case by auto
qed auto

section \<open>The contract of a writer\<close>

text \<open>
  A writer over states with a visible store: a covered method applies \<open>step\<close> for its rows in order,
  or for some first rows when it fails; the checkpoint is marked or not; doing a batch or a mark
  twice is doing it once.
\<close>

locale delta_writer =
  fixes sw :: "'w sync_writer"
    and view :: "'w \<Rightarrow> 'v"
    and valid :: "'v \<Rightarrow> bool"
    and covered :: "string \<Rightarrow> bool"
    and step :: "string \<Rightarrow> delta_change \<Rightarrow> 'v \<Rightarrow> 'v"
    and mark :: "checkpoint_candidate \<Rightarrow> 'v \<Rightarrow> 'v"
  assumes method_some: "covered meth \<Longrightarrow> \<exists>f. sw_method sw meth = Some f"
    and method_ok: "covered meth \<Longrightarrow> sw_method sw meth = Some f \<Longrightarrow> f rows w = (w', Inr n) \<Longrightarrow>
      view w' = fold (step meth) rows (view w)"
    and method_error: "covered meth \<Longrightarrow> sw_method sw meth = Some f \<Longrightarrow> f rows w = (w', Inl e) \<Longrightarrow>
      \<exists>j. view w' = fold (step meth) (take j rows) (view w)"
    and mark_ok: "sw_checkpoint sw k w = (w', Inr n) \<Longrightarrow> view w' = mark k (view w)"
    and mark_error: "sw_checkpoint sw k w = (w', Inl e) \<Longrightarrow> view w' = view w \<or> view w' = mark k (view w)"
    and valid_step: "covered meth \<Longrightarrow> valid v \<Longrightarrow> valid (step meth c v)"
    and valid_mark: "valid v \<Longrightarrow> valid (mark k v)"
    and replay: "covered meth \<Longrightarrow> valid v \<Longrightarrow>
      fold (step meth) rows (fold (step meth) rows v) = fold (step meth) rows v"
    and mark_twice: "valid v \<Longrightarrow> mark k (mark k v) = mark k v"
begin

lemma valid_fold: "covered meth \<Longrightarrow> valid v \<Longrightarrow> valid (fold (step meth) rows v)"
  by (induction rows arbitrary: v) (auto intro: valid_step)

lemma replay_prefix:
  assumes "covered meth" "valid v"
  shows "fold (step meth) rows (fold (step meth) (take j rows) v) = fold (step meth) rows v"
proof -
  have "fold (step meth) rows (fold (step meth) (take j rows) v) =
      fold (step meth) (drop j rows) (fold (step meth) (take j rows) (fold (step meth) (take j rows) v))"
    by (metis append_take_drop_id fold_append comp_apply)
  also have "\<dots> = fold (step meth) (drop j rows) (fold (step meth) (take j rows) v)"
    by (simp add: replay [OF assms])
  also have "\<dots> = fold (step meth) rows v" by (metis append_take_drop_id fold_append comp_apply)
  finally show ?thesis .
qed

lemma run_batches_ok:
  assumes "covered meth" "sw_method sw meth = Some f"
  shows "run_batches now tot name units f bs a (st, w) = ((st', w'), Inr n) \<Longrightarrow>
    view w' = fold (step meth) (concat bs) (view w)"
  using method_ok [OF assms]
  by (induction bs arbitrary: a st w) (auto split: prod.splits sum.splits)

lemma run_batches_error:
  assumes "covered meth" "sw_method sw meth = Some f"
  shows "run_batches now tot name units f bs a (st, w) = ((st', w'), Inl e) \<Longrightarrow>
    \<exists>j. view w' = fold (step meth) (take j (concat bs)) (view w)"
proof (induction bs arbitrary: a st w)
  case (Cons b bs)
  show ?case
  proof (cases "f b w")
    case (Pair w1 r)
    show ?thesis
    proof (cases r)
      case (Inl e1)
      with Pair Cons.prems have "w' = w1" by simp
      moreover obtain j where "view w1 = fold (step meth) (take j b) (view w)"
        using method_error [OF assms] Pair Inl by blast
      moreover have "take j b = take (min j (length b)) (concat (b # bs))" by (simp add: min_def)
      ultimately show ?thesis by metis
    next
      case (Inr n1)
      with Pair Cons obtain j where "view w' = fold (step meth) (take j (concat bs)) (view w1)" by fastforce
      moreover have "view w1 = fold (step meth) b (view w)" using method_ok [OF assms] Pair Inr by blast
      ultimately have "view w' = fold (step meth) (take (length b + j) (concat (b # bs))) (view w)" by simp
      then show ?thesis by blast
    qed
  qed
qed simp

end

section \<open>Interrupted phases\<close>

text \<open>What an interrupted phase can have left: the effect of some of its rows, or of the mark.\<close>

definition phase_partial :: "(string \<Rightarrow> delta_change \<Rightarrow> 'v \<Rightarrow> 'v) \<Rightarrow> (checkpoint_candidate \<Rightarrow> 'v \<Rightarrow> 'v) \<Rightarrow>
    checkpoint_candidate \<Rightarrow> sync_phase \<Rightarrow> 'v \<Rightarrow> 'v \<Rightarrow> bool" where
  "phase_partial step mark k p V v \<longleftrightarrow>
     (if sp_name p = ''checkpoint_candidate'' then v = V \<or> v = mark k V
      else \<exists>qs. set qs \<subseteq> set (sp_rows p) \<and> v = fold (step (sp_writer_method p)) qs V)"

text \<open>The store before the phases \<open>rs\<close>, of which the first non-empty one may have been interrupted.\<close>

definition pending :: "(string \<Rightarrow> delta_change \<Rightarrow> 'v \<Rightarrow> 'v) \<Rightarrow> (checkpoint_candidate \<Rightarrow> 'v \<Rightarrow> 'v) \<Rightarrow>
    checkpoint_candidate \<Rightarrow> sync_phase list \<Rightarrow> 'v \<Rightarrow> 'v \<Rightarrow> bool" where
  "pending step mark k rs V v \<longleftrightarrow>
     (case filter (\<lambda>p. phase_units p \<noteq> 0) rs of
        [] \<Rightarrow> v = V
      | p # _ \<Rightarrow> phase_partial step mark k p V v \<and> phase_effect step mark k p v = phase_effect step mark k p V)"

lemma pending_refl: "pending step mark k rs V V"
  by (auto simp: pending_def phase_partial_def split: list.split intro: exI [of _ "[]"])

lemma phase_effect_empty: "phase_units p = 0 \<Longrightarrow> phase_effect step mark k p v = v"
  by (auto simp: phase_effect_def phase_units_def split: if_splits)

lemma pending_Cons_empty: "phase_units p = 0 \<Longrightarrow> pending step mark k (p # rs) V v = pending step mark k rs V v"
  by (simp add: pending_def)

lemma pending_Cons_units:
  "phase_units p \<noteq> 0 \<Longrightarrow> pending step mark k (p # rs) V v \<longleftrightarrow>
     phase_partial step mark k p V v \<and> phase_effect step mark k p v = phase_effect step mark k p V"
  by (simp add: pending_def)

context delta_writer
begin

abbreviation writable :: "sync_phase \<Rightarrow> bool" where
  "writable p \<equiv> phase_units p = 0 \<or> sp_name p = ''checkpoint_candidate'' \<or> covered (sp_writer_method p)"

lemma valid_effect: "writable p \<Longrightarrow> valid v \<Longrightarrow> valid (phase_effect step mark k p v)"
  using valid_fold valid_mark phase_effect_empty [of p step mark k v]
  by (cases "phase_units p = 0") (auto simp: phase_effect_def)

lemma valid_effects:
  "list_all writable ds \<Longrightarrow> valid v \<Longrightarrow> valid (fold (phase_effect step mark k) ds v)"
  by (induction ds arbitrary: v) (auto intro: valid_effect)

lemma valid_partial:
  assumes "phase_partial step mark k p V v" "writable p" "phase_units p \<noteq> 0" "valid V"
  shows "valid v"
  using assms by (auto simp: phase_partial_def split: if_splits intro: valid_mark valid_fold)

lemma write_phase_ok:
  assumes "write_phase now tot bsz sw k p (st, w) = ((st', w'), Inr n)" "writable p" "phase_units p \<noteq> 0"
    "0 < bsz"
  shows "view w' = phase_effect step mark k p (view w)"
proof (cases "sp_name p = ''checkpoint_candidate''")
  case True
  with assms(1) show ?thesis
    by (auto simp: write_phase_def phase_effect_def split: prod.splits dest: mark_ok)
next
  case False
  with assms obtain f where c: "covered (sp_writer_method p)" and f: "sw_method sw (sp_writer_method p) = Some f"
    using method_some by blast
  have "view w' = fold (step (sp_writer_method p)) (concat (chunk_rows bsz (sp_rows p))) (view w)"
    by (rule run_batches_ok [OF c f]) (use assms(1) False f in \<open>simp add: write_phase_def\<close>)
  then show ?thesis using False assms(4) by (simp add: phase_effect_def)
qed

lemma write_phase_error:
  assumes "write_phase now tot bsz sw k p (st, w) = ((st', w'), Inl e)" "writable p" "phase_units p \<noteq> 0"
    "0 < bsz" "phase_partial step mark k p V (view w)" "valid V"
  shows "phase_partial step mark k p V (view w')"
    and "phase_effect step mark k p (view w') = phase_effect step mark k p (view w)"
proof -
  have V: "valid (view w)" by (rule valid_partial [OF assms(5,2,3,6)])
  consider (mark) "sp_name p = ''checkpoint_candidate''" | (rows) "sp_name p \<noteq> ''checkpoint_candidate''" by blast
  then have "phase_partial step mark k p V (view w')
      \<and> phase_effect step mark k p (view w') = phase_effect step mark k p (view w)"
  proof cases
    case mark
    with assms(1) have "view w' = view w \<or> view w' = mark k (view w)"
      by (auto simp: write_phase_def split: prod.splits dest: mark_error)
    with mark assms(5) show ?thesis
      by (auto simp: phase_partial_def phase_effect_def mark_twice assms(6) V valid_mark)
  next
    case rows
    with assms obtain f where c: "covered (sp_writer_method p)" and f: "sw_method sw (sp_writer_method p) = Some f"
      using method_some by blast
    have "\<exists>j. view w' = fold (step (sp_writer_method p)) (take j (concat (chunk_rows bsz (sp_rows p)))) (view w)"
      by (rule run_batches_error [OF c f]) (use assms(1) rows f in \<open>simp add: write_phase_def\<close>)
    then obtain j where j: "view w' = fold (step (sp_writer_method p)) (take j (sp_rows p)) (view w)"
      using assms(4) by auto
    from rows assms(5) obtain qs where qs: "set qs \<subseteq> set (sp_rows p)"
      "view w = fold (step (sp_writer_method p)) qs V" by (auto simp: phase_partial_def)
    have "view w' = fold (step (sp_writer_method p)) (qs @ take j (sp_rows p)) V" by (simp add: j qs(2))
    moreover have "set (qs @ take j (sp_rows p)) \<subseteq> set (sp_rows p)" using qs(1) set_take_subset by fastforce
    ultimately have "phase_partial step mark k p V (view w')"
      using rows unfolding phase_partial_def by metis
    then show ?thesis using rows by (simp add: phase_effect_def j replay_prefix [OF c V])
  qed
  then show "phase_partial step mark k p V (view w')"
    and "phase_effect step mark k p (view w') = phase_effect step mark k p (view w)" by blast+
qed

end

text \<open>
  The outcome of running the phases \<open>rs\<close> from the store \<open>V\<close>: the phases \<open>ds\<close> are done, and none is
  left when the run succeeds, else a non-empty one that may have been interrupted.
\<close>

definition run_outcome :: "(string \<Rightarrow> delta_change \<Rightarrow> 'v \<Rightarrow> 'v) \<Rightarrow> (checkpoint_candidate \<Rightarrow> 'v \<Rightarrow> 'v) \<Rightarrow>
    checkpoint_candidate \<Rightarrow> sync_phase list \<Rightarrow> 'v \<Rightarrow> string list \<Rightarrow> bool \<Rightarrow> sync_state \<Rightarrow> 'v \<Rightarrow> bool \<Rightarrow> bool" where
  "run_outcome step mark k rs V completed marked st' v' ok \<longleftrightarrow>
     (\<exists>ds us. rs = ds @ us \<and> (if ok then us = [] else phase_names us \<noteq> [])
       \<and> ss_completed_phases st' = completed @ phase_names ds
       \<and> (ss_checkpoint_applied st' \<longleftrightarrow> marked \<or> ''checkpoint_candidate'' \<in> set (phase_names ds))
       \<and> pending step mark k us (fold (phase_effect step mark k) ds V) v')"

lemma run_outcome_stop:
  assumes "if ok then rs = [] else phase_names rs \<noteq> []" "pending step mark k rs V v'"
  shows "run_outcome step mark k rs V (ss_completed_phases st') (ss_checkpoint_applied st') st' v' ok"
  unfolding run_outcome_def
  by (rule exI [of _ "[]"], rule exI [of _ rs]) (use assms in simp)

lemma run_outcome_Cons_empty:
  assumes "phase_units p = 0" "run_outcome step mark k ps V cs ck st' v' ok"
  shows "run_outcome step mark k (p # ps) V cs ck st' v' ok"
proof -
  from assms(2) obtain ds us where d: "ps = ds @ us \<and> (if ok then us = [] else phase_names us \<noteq> [])
       \<and> ss_completed_phases st' = cs @ phase_names ds
       \<and> (ss_checkpoint_applied st' \<longleftrightarrow> ck \<or> ''checkpoint_candidate'' \<in> set (phase_names ds))
       \<and> pending step mark k us (fold (phase_effect step mark k) ds V) v'"
    by (auto simp: run_outcome_def)
  show ?thesis
    unfolding run_outcome_def
    by (rule exI [of _ "p # ds"], rule exI [of _ us]) (use d assms(1) in \<open>auto simp: phase_effect_empty\<close>)
qed

lemma run_outcome_Cons_units:
  assumes "phase_units p \<noteq> 0"
    "run_outcome step mark k ps (phase_effect step mark k p V) (cs @ [sp_name p])
       (sp_name p = ''checkpoint_candidate'' \<or> ck) st' v' ok"
  shows "run_outcome step mark k (p # ps) V cs ck st' v' ok"
proof -
  from assms(2) obtain ds us where d: "ps = ds @ us \<and> (if ok then us = [] else phase_names us \<noteq> [])
       \<and> ss_completed_phases st' = (cs @ [sp_name p]) @ phase_names ds
       \<and> (ss_checkpoint_applied st' \<longleftrightarrow> (sp_name p = ''checkpoint_candidate'' \<or> ck)
            \<or> ''checkpoint_candidate'' \<in> set (phase_names ds))
       \<and> pending step mark k us (fold (phase_effect step mark k) ds (phase_effect step mark k p V)) v'"
    unfolding run_outcome_def by blast
  show ?thesis
    unfolding run_outcome_def
    by (rule exI [of _ "p # ds"], rule exI [of _ us]) (use d assms(1) in auto)
qed

context delta_writer
begin

lemma run_phases_outcome:
  assumes "0 < bsz" "list_all writable rs" "set (phase_names rs) \<inter> set C = {}" "valid V"
    "pending step mark k rs V (view w)"
    "run_phases now tot bsz sw k C rs counts skipped (st, w) = ((st', w'), r)"
  shows "run_outcome step mark k rs V (ss_completed_phases st) (ss_checkpoint_applied st) st' (view w') (\<not> isl r)"
  using assms(2-6)
proof (induction rs arbitrary: V st w counts skipped)
  case Nil
  then show ?case using run_outcome_stop [of True "[]"] by auto
next
  case (Cons p ps)
  let ?e = "\<lambda>status st. emit_progress now tot status (Some (sp_name p)) (int (phase_units p)) (ss_completed_units st) st"
  let ?st = "?e ''running'' st"
  show ?case
  proof (cases "phase_units p = 0")
    case True
    have "run_outcome step mark k ps V (ss_completed_phases (?e ''skipped'' ?st))
        (ss_checkpoint_applied (?e ''skipped'' ?st)) st' (view w') (\<not> isl r)"
      by (rule Cons.IH [where counts = counts and skipped = "skipped @ [sp_name p]" and w = w])
        (use Cons.prems True in \<open>simp_all add: Let_def pending_Cons_empty\<close>)
    with True show ?thesis by (simp add: run_outcome_Cons_empty)
  next
    case False
    with Cons.prems(2) have notC: "sp_name p \<notin> set C" by auto
    obtain st1 w1 r1 where wp: "write_phase now tot bsz sw k p (?st, w) = ((st1, w1), r1)"
      by (metis prod.collapse)
    have part: "phase_partial step mark k p V (view w)"
      and eff: "phase_effect step mark k p (view w) = phase_effect step mark k p V"
      using Cons.prems(4) False by (simp_all add: pending_Cons_units)
    have writable: "writable p" using Cons.prems(1) by simp
    have st1: "ss_completed_phases st1 = ss_completed_phases st" "ss_checkpoint_applied st1 = ss_checkpoint_applied st"
      using write_phase_state [OF wp] by simp_all
    show ?thesis
    proof (cases r1)
      case (Inl e)
      with wp have fail: "write_phase now tot bsz sw k p (?st, w) = ((st1, w1), Inl e)" by simp
      then have "r = Inl e" "st' = st1" "w' = w1" using Cons.prems(5) False notC by (simp_all add: Let_def)
      moreover have "pending step mark k (p # ps) V (view w1)"
        using write_phase_error [OF fail writable False assms(1) part Cons.prems(3)] eff False
        by (simp add: pending_Cons_units)
      ultimately show ?thesis using run_outcome_stop [of False "p # ps" step mark k V "view w1" st1] False st1 by simp
    next
      case (Inr n)
      with wp have ok: "write_phase now tot bsz sw k p (?st, w) = ((st1, w1), Inr n)" by simp
      have "view w1 = phase_effect step mark k p V"
        using write_phase_ok [OF ok writable False assms(1)] eff by simp
      then have "run_outcome step mark k ps (phase_effect step mark k p V)
          (ss_completed_phases (complete_phase now tot p st1)) (ss_checkpoint_applied (complete_phase now tot p st1))
          st' (view w') (\<not> isl r)"
        by (intro Cons.IH [where counts = "dict_set (sp_name p) n counts" and skipped = skipped and w = w1])
          (use Cons.prems False notC ok valid_effect [OF writable Cons.prems(3)] in \<open>auto simp: Let_def pending_refl\<close>)
      with False show ?thesis by (intro run_outcome_Cons_units) (simp_all add: st1)
    qed
  qed
qed

end

lemma run_outcome_append:
  assumes "run_outcome step mark k us (fold (phase_effect step mark k) ds V) (cs @ phase_names ds)
      (ck \<or> ''checkpoint_candidate'' \<in> set (phase_names ds)) st' v' ok"
  shows "run_outcome step mark k (ds @ us) V cs ck st' v' ok"
proof -
  from assms obtain ds' us' where d: "us = ds' @ us' \<and> (if ok then us' = [] else phase_names us' \<noteq> [])
       \<and> ss_completed_phases st' = (cs @ phase_names ds) @ phase_names ds'
       \<and> (ss_checkpoint_applied st' \<longleftrightarrow> (ck \<or> ''checkpoint_candidate'' \<in> set (phase_names ds))
            \<or> ''checkpoint_candidate'' \<in> set (phase_names ds'))
       \<and> pending step mark k us' (fold (phase_effect step mark k) ds' (fold (phase_effect step mark k) ds V)) v'"
    unfolding run_outcome_def by blast
  show ?thesis
    unfolding run_outcome_def
    by (rule exI [of _ "ds @ ds'"], rule exI [of _ us']) (use d in auto)
qed

lemma checkpoint_is_last:
  assumes "manifest_units m = ds @ us" "''checkpoint_candidate'' \<in> set (map sp_name ds)"
  shows "us = []"
proof (rule ccontr)
  assume "us \<noteq> []"
  then have "last (map sp_name us) = last (map sp_name (manifest_units m))" by (simp add: assms(1) last_append)
  also have "\<dots> = ''checkpoint_candidate''" unfolding manifest_unit_names by simp
  finally have "last (map sp_name us) = ''checkpoint_candidate''" .
  then have "''checkpoint_candidate'' \<in> set (map sp_name us)" using \<open>us \<noteq> []\<close> by (metis last_in_set map_is_Nil_conv)
  with assms distinct_unit_names [of m] show False by auto
qed

lemma checkpoint_has_units: "''checkpoint_candidate'' \<in> set (phase_names (manifest_units m))"
  by (auto simp: manifest_units_def phase_units_def)

context delta_writer
begin

lemma run_resumes:
  assumes "list_all writable (manifest_units m)" "valid V"
    "run_outcome step mark (dm_checkpoint_candidate m) (manifest_units m) V [] False st (view w) False"
    "run_surreal_delta_sync now batch_size sw m (st, w) = ((st', w'), r)"
  shows "run_outcome step mark (dm_checkpoint_candidate m) (manifest_units m) V [] False st' (view w') (\<not> isl r)"
proof (cases "batch_size \<le> 0")
  case True
  with assms(3,4) show ?thesis by (auto simp: run_surreal_delta_sync_def)
next
  case False
  let ?k = "dm_checkpoint_candidate m" and ?tot = "total_units m" and ?C = "ss_completed_phases st"
  from assms(3) obtain ds us where d: "manifest_units m = ds @ us" "?C = phase_names ds"
    "ss_checkpoint_applied st \<longleftrightarrow> ''checkpoint_candidate'' \<in> set (phase_names ds)"
    "pending step mark ?k us (fold (phase_effect step mark ?k) ds V) (view w)"
    unfolding run_outcome_def by auto
  let ?st = "emit_progress now ?tot ''running'' None 0 (ss_completed_units st) st"
  have "list_all (\<lambda>p. sp_name p \<in> set ?C \<or> phase_units p = 0) ds" by (auto simp: d(2) list_all_iff)
  from run_phases_skips [OF this, of now ?tot "nat batch_size" sw ?k us "[]" "[]" ?st w]
  obtain st1 where st1: "run_phases now ?tot (nat batch_size) sw ?k ?C (ds @ us) [] [] (?st, w) =
      run_phases now ?tot (nat batch_size) sw ?k ?C us [] (map sp_name ds) (st1, w)"
    "ss_completed_phases st1 = ?C" "ss_checkpoint_applied st1 = ss_checkpoint_applied st" by auto
  obtain st2 w2 q where run: "run_phases now ?tot (nat batch_size) sw ?k ?C us [] (map sp_name ds) (st1, w)
      = ((st2, w2), q)" by (metis prod.collapse)
  have "set (phase_names us) \<inter> set ?C = {}" using distinct_unit_names [of m] d(1,2) by auto
  moreover have "list_all writable ds" "list_all writable us" using assms(1) d(1) by simp_all
  ultimately have "run_outcome step mark ?k us (fold (phase_effect step mark ?k) ds V) ?C
      (ss_checkpoint_applied st) st2 (view w2) (\<not> isl q)"
    using run_phases_outcome [OF _ _ _ _ d(4) run] valid_effects [OF _ assms(2)] False st1(2,3) by simp
  then have "run_outcome step mark ?k (manifest_units m) V [] False st2 (view w2) (\<not> isl q)"
    using d by (auto intro: run_outcome_append)
  moreover have "w' = w2 \<and> isl r = isl q \<and> ss_completed_phases st' = ss_completed_phases st2
      \<and> ss_checkpoint_applied st' = ss_checkpoint_applied st2"
    using assms(4) False run st1(1) by (auto simp: run_surreal_delta_sync_def Let_def d(1) split: sum.splits)
  ultimately show ?thesis unfolding run_outcome_def by simp
qed

lemma attempts_outcome:
  assumes "list_all writable (manifest_units m)" "valid (view w0)" "sync_attempts sw m w0 x"
  shows "run_outcome step mark (dm_checkpoint_candidate m) (manifest_units m) (view w0) [] False
    (fst x) (view (snd x)) False"
  using assms(3)
proof (induction rule: sync_attempts.induct)
  case fresh
  have "phase_names (manifest_units m) \<noteq> []" using checkpoint_has_units [of m] by (metis empty_iff empty_set)
  then show ?case
    using run_outcome_stop [of False "manifest_units m" step mark "dm_checkpoint_candidate m" "view w0" "view w0"
        new_sync_state]
    by (simp add: pending_refl new_sync_state_def)
next
  case (failed x now batch_size x' e)
  then show ?case
    using run_resumes [OF assms(1,2), of "fst x" "snd x" now batch_size "fst x'" "snd x'" "Inl e"] by simp
qed

text \<open>However many runs have failed, the run that succeeds leaves the effect of the manifest.\<close>

lemma resumed_run:
  assumes "list_all writable (manifest_units m)" "valid (view w0)" "sync_attempts sw m w0 x"
    "run_surreal_delta_sync now batch_size sw m x = ((st, w), Inr res)"
  shows "view w = manifest_effect step mark m (view w0)" "ss_checkpoint_applied st"
    "ss_completed_phases st = phase_names (manifest_units m)"
proof -
  have "run_outcome step mark (dm_checkpoint_candidate m) (manifest_units m) (view w0) [] False st (view w) True"
    using run_resumes [OF assms(1,2) attempts_outcome [OF assms(1-3)], of now batch_size st w "Inr res"] assms(4)
    by simp
  then have "ss_completed_phases st = phase_names (manifest_units m)"
    "ss_checkpoint_applied st \<longleftrightarrow> ''checkpoint_candidate'' \<in> set (phase_names (manifest_units m))"
    "pending step mark (dm_checkpoint_candidate m) []
       (fold (phase_effect step mark (dm_checkpoint_candidate m)) (manifest_units m) (view w0)) (view w)"
    unfolding run_outcome_def by auto
  then show "view w = manifest_effect step mark m (view w0)" "ss_checkpoint_applied st"
    "ss_completed_phases st = phase_names (manifest_units m)"
    using checkpoint_has_units [of m] by (simp_all add: pending_def manifest_effect_def)
qed

text \<open>
  A predicate the changes of a manifest keep holds after failed runs, unless they had done every
  other phase and set the mark.
\<close>

lemma attempts_mark:
  assumes "list_all writable (manifest_units m)" "valid (view w0)" "sync_attempts sw m w0 (st, w)" "Q (view w0)"
    "\<And>p c v. p \<in> set (manifest_units m) \<Longrightarrow> sp_name p \<noteq> ''checkpoint_candidate'' \<Longrightarrow> c \<in> set (sp_rows p) \<Longrightarrow>
      Q v \<Longrightarrow> Q (step (sp_writer_method p) c v)"
  shows "Q (view w) \<or> view w = manifest_effect step mark m (view w0)
    \<and> phase_names (manifest_units m) = ss_completed_phases st @ [''checkpoint_candidate'']"
proof -
  let ?k = "dm_checkpoint_candidate m"
  from attempts_outcome [OF assms(1-3)] obtain ds us where d: "manifest_units m = ds @ us" "phase_names us \<noteq> []"
    "ss_completed_phases st = phase_names ds"
    "pending step mark ?k us (fold (phase_effect step mark ?k) ds (view w0)) (view w)"
    unfolding run_outcome_def by auto
  let ?V = "fold (phase_effect step mark ?k) ds (view w0)"
  have rows: "Q (fold (step (sp_writer_method p)) qs v)"
    if "p \<in> set (manifest_units m)" "sp_name p \<noteq> ''checkpoint_candidate''" "set qs \<subseteq> set (sp_rows p)" "Q v" for p qs v
    using that(3,4)
  proof (induction qs arbitrary: v)
    case (Cons c qs)
    then have "Q (step (sp_writer_method p) c v)" using assms(5) [OF that(1,2)] by simp
    with Cons show ?case by simp
  qed simp
  have ds: "''checkpoint_candidate'' \<notin> set (map sp_name ds)" using checkpoint_is_last [OF d(1)] d(2) by auto
  have "Q (fold (phase_effect step mark ?k) ps v)"
    if "set ps \<subseteq> set (manifest_units m)" "''checkpoint_candidate'' \<notin> set (map sp_name ps)" "Q v" for ps v
    using that
  proof (induction ps arbitrary: v)
    case (Cons p ps)
    then have "Q (phase_effect step mark ?k p v)" by (auto simp: phase_effect_def intro: rows)
    with Cons show ?case by simp
  qed simp
  then have V: "Q ?V" using d(1) ds assms(4) by simp
  from d(2) obtain p ps where p: "filter (\<lambda>p. phase_units p \<noteq> 0) us = p # ps"
    by (cases "filter (\<lambda>p. phase_units p \<noteq> 0) us") simp_all
  have part: "phase_partial step mark ?k p ?V (view w)" using d(4) p by (simp add: pending_def)
  have "p \<in> set (filter (\<lambda>p. phase_units p \<noteq> 0) us)" using p by simp
  then have mem: "p \<in> set (manifest_units m)" "phase_units p \<noteq> 0" using d(1) by simp_all
  show ?thesis
  proof (cases "sp_name p = ''checkpoint_candidate''")
    case False
    with part rows [OF mem(1) False _ V] show ?thesis by (auto simp: phase_partial_def)
  next
    case True
    then have two: "view w = ?V \<or> view w = mark ?k ?V" using part by (simp add: phase_partial_def)
    obtain es fs where us: "us = es @ p # fs" "filter (\<lambda>p. phase_units p \<noteq> 0) es = []"
      using p by (metis (no_types, lifting) filter_eq_ConsD filter_empty_conv)
    have "fs = []" using checkpoint_is_last [of m "ds @ es @ [p]" fs] d(1) us(1) True by simp
    have "fold (phase_effect step mark ?k) es ?V = ?V"
      using us(2) by (induction es) (auto simp: phase_effect_empty split: if_splits)
    then have "manifest_effect step mark m (view w0) = mark ?k ?V"
      using True \<open>fs = []\<close> by (simp add: manifest_effect_def d(1) us(1)) (simp add: phase_effect_def)
    moreover have "phase_names (manifest_units m) = ss_completed_phases st @ [''checkpoint_candidate'']"
      using True us mem(2) \<open>fs = []\<close> by (simp add: d(1,3))
    ultimately show ?thesis using two V by auto
  qed
qed

end

section \<open>A state that has completed the phases\<close>

text \<open>Any writer: a run whose phases the state has all completed writes nothing, and succeeds.\<close>

lemma run_completed:
  assumes "0 < batch_size" "set (phase_names (manifest_units m)) \<subseteq> set (ss_completed_phases st)"
  shows "\<exists>st' res. run_surreal_delta_sync now batch_size sw m (st, w) = ((st', w), Inr res)
    \<and> sr_applied_counts res = [] \<and> ss_completed_phases st' = ss_completed_phases st"
proof -
  let ?C = "ss_completed_phases st" and ?tot = "total_units m" and ?k = "dm_checkpoint_candidate m"
  let ?st = "emit_progress now ?tot ''running'' None 0 (ss_completed_units st) st"
  have "list_all (\<lambda>p. sp_name p \<in> set ?C \<or> phase_units p = 0) (manifest_units m)"
    using assms(2) by (auto simp: list_all_iff)
  from run_phases_skips [OF this, of now ?tot "nat batch_size" sw ?k "[]" "[]" "[]" ?st w]
  obtain st1 where "run_phases now ?tot (nat batch_size) sw ?k ?C (manifest_units m) [] [] (?st, w)
      = ((st1, w), Inr ([], map sp_name (manifest_units m)))" "ss_completed_phases st1 = ?C" by auto
  then show ?thesis using assms(1) by (simp add: run_surreal_delta_sync_def Let_def)
qed

end
