(* ===== verification/Delta_Laws.thy ===== *)
theory Delta_Laws
  imports Delta_Writer Delta_Sync
begin

text \<open>
  The store writer of \<open>Delta_Writer\<close> meets the contract of \<open>Delta_Sync\<close>: what its remote operations
  do to the database, what a repeated batch does, the interpretation, and the properties of the
  sync as a whole.
\<close>

section \<open>Remote operations\<close>

text \<open>A read returns \<open>g\<close> of the database; a write applies \<open>F\<close> when it succeeds, and may when it fails.\<close>

definition reads :: "'a remote \<Rightarrow> (database \<Rightarrow> 'a) \<Rightarrow> bool" where
  "reads m g \<longleftrightarrow> (\<forall>c c' r. m c = (c', r) \<longrightarrow> cn_db c' = cn_db c \<and> (\<forall>x. r = Inr x \<longrightarrow> x = g (cn_db c)))"

definition writes :: "'a remote \<Rightarrow> (database \<Rightarrow> database) \<Rightarrow> bool" where
  "writes m F \<longleftrightarrow> (\<forall>c c' r. m c = (c', r) \<longrightarrow>
     (if isl r then cn_db c' = cn_db c \<or> cn_db c' = F (cn_db c) else cn_db c' = F (cn_db c)))"

named_theorems remote_laws \<open>what the remote operations read and write\<close>

lemma reads_return [remote_laws]: "reads (remote_return x) (\<lambda>_. x)"
  by (simp add: reads_def remote_return_def)

lemma reads_select [remote_laws]: "reads (remote_select rid) (\<lambda>db. dict_get db rid)"
  by (auto simp: reads_def remote_select_def remote_call_def Let_def split: fault.splits)

lemma reads_scan [remote_laws]: "reads (remote_scan tbl) (scan_table tbl)"
  by (auto simp: reads_def remote_scan_def remote_call_def Let_def split: fault.splits)

lemma reads_existing [remote_laws]: "reads (existing_row rid) (\<lambda>db. dict_get db rid)"
  by (simp add: existing_row_def reads_select)

lemma reads_bind:
  assumes m: "reads m g" and f: "\<And>x. reads (f x) (h x)"
  shows "reads (remote_bind m f) (\<lambda>db. h (g db) db)"
  unfolding reads_def
proof (intro allI impI)
  fix c c' r
  assume run: "remote_bind m f c = (c', r)"
  obtain c1 r1 where m1: "m c = (c1, r1)" by (cases "m c")
  show "cn_db c' = cn_db c \<and> (\<forall>x. r = Inr x \<longrightarrow> x = h (g (cn_db c)) (cn_db c))"
  proof (cases r1)
    case (Inl e)
    with run m1 m show ?thesis by (auto simp: remote_bind_def reads_def)
  next
    case (Inr x)
    with m m1 have "cn_db c1 = cn_db c" "x = g (cn_db c)" by (auto simp: reads_def)
    moreover have "f x c1 = (c', r)" using run m1 Inr by (simp add: remote_bind_def)
    ultimately show ?thesis using f [of x] unfolding reads_def by metis
  qed
qed

lemma writes_bind:
  assumes m: "reads m g" and f: "\<And>x. writes (f x) (F x)"
  shows "writes (remote_bind m f) (\<lambda>db. F (g db) db)"
  unfolding writes_def
proof (intro allI impI)
  fix c c' r
  assume run: "remote_bind m f c = (c', r)"
  obtain c1 r1 where m1: "m c = (c1, r1)" by (cases "m c")
  show "if isl r then cn_db c' = cn_db c \<or> cn_db c' = F (g (cn_db c)) (cn_db c)
    else cn_db c' = F (g (cn_db c)) (cn_db c)"
  proof (cases r1)
    case (Inl e)
    with run m1 m show ?thesis by (auto simp: remote_bind_def reads_def)
  next
    case (Inr x)
    with m m1 have "cn_db c1 = cn_db c" "x = g (cn_db c)" by (auto simp: reads_def)
    moreover have "f x c1 = (c', r)" using run m1 Inr by (simp add: remote_bind_def)
    ultimately show ?thesis using f [of x] unfolding writes_def by metis
  qed
qed

lemma writes_raise: "writes (remote_bind (remote_lift (Inl e)) f) F"
  by (auto simp: writes_def remote_bind_def remote_lift_def)

lemma bind_lift_Inr [simp]: "remote_bind (remote_lift (Inr x)) f = f x"
  by (simp add: remote_bind_def remote_lift_def fun_eq_iff)

lemma writes_return: "writes (remote_return x) (\<lambda>db. db)"
  by (simp add: writes_def remote_return_def)

lemma writes_then_return:
  assumes "writes m F"
  shows "writes (remote_bind m (\<lambda>x. remote_return (g x))) F"
  unfolding writes_def
proof (intro allI impI)
  fix c c' r
  assume run: "remote_bind m (\<lambda>x. remote_return (g x)) c = (c', r)"
  obtain c1 r1 where m1: "m c = (c1, r1)" by (cases "m c")
  with run have "c' = c1 \<and> isl r = isl r1"
    by (cases r1) (auto simp: remote_bind_def remote_return_def)
  then show "if isl r then cn_db c' = cn_db c \<or> cn_db c' = F (cn_db c) else cn_db c' = F (cn_db c)"
    using assms m1 unfolding writes_def by metis
qed

lemma writes_upsert: "writes (remote_upsert rid row) (dict_set rid row)"
  by (auto simp: writes_def remote_upsert_def remote_call_def Let_def split: fault.splits)

lemma writes_delete: "writes (remote_delete rid) (dict_pop rid)"
  by (auto simp: writes_def remote_delete_def remote_call_def Let_def split: fault.splits)

section \<open>Point upserts\<close>

text \<open>The row a payload is stored as, and its upsert.\<close>

definition owned_defaults :: "delta_env \<Rightarrow> string \<Rightarrow> string \<Rightarrow> delta_row \<Rightarrow> database \<Rightarrow> delta_row" where
  "owned_defaults dn tbl raw payload db =
     (let p = set_defaults dn tbl raw payload; chunk_id = row_get p ''chunk_id''
      in if tbl = ''vector_components'' \<and> chunk_id \<noteq> none_cell
           \<and> (row_get p ''chunk_strategy'' = none_cell \<or> row_get p ''embedding_model'' = none_cell)
         then (case find (\<lambda>row. cell_str dn (row_get row ''chunk_id'') = cell_str dn chunk_id)
                 (map snd (scan_table ''embeddings'' db)) of
               None \<Rightarrow> p
             | Some e \<Rightarrow> setdefault ''embedding_model'' (row_get e ''embedding_model'')
                 (setdefault ''chunk_strategy'' (row_get e ''chunk_strategy'') p))
         else p)"

definition stored_row :: "delta_env \<Rightarrow> string \<Rightarrow> string \<Rightarrow> delta_row \<Rightarrow> database \<Rightarrow> delta_row" where
  "stored_row dn tbl raw payload db = keep_allowed tbl (owned_defaults dn tbl raw payload db)"

definition put_row :: "string \<times> string \<Rightarrow> delta_row \<Rightarrow> database \<Rightarrow> database" where
  "put_row rid row db = (if same_row (dict_get db rid) row then db else dict_set rid row db)"

lemma reads_owner:
  "reads (set_embedding_owner dn (set_defaults dn ''vector_components'' raw payload))
     (owned_defaults dn ''vector_components'' raw payload)"
proof -
  let ?p = "set_defaults dn ''vector_components'' raw payload"
  let ?c = "row_get ?p ''chunk_id''"
  have look: "reads (remote_bind (embedding_row_for_chunk dn (cell_str dn ?c)) (\<lambda>found. remote_return (g found)))
      (\<lambda>db. g (find (\<lambda>row. cell_str dn (row_get row ''chunk_id'') = cell_str dn ?c)
         (map snd (scan_table ''embeddings'' db))))" for g :: "delta_row option \<Rightarrow> delta_row"
    unfolding embedding_row_for_chunk_def by (intro reads_bind remote_laws)
  show ?thesis
  proof (cases "?c \<noteq> none_cell \<and> (row_get ?p ''chunk_strategy'' = none_cell \<or> row_get ?p ''embedding_model'' = none_cell)")
    case True
    then show ?thesis
      using look by (simp add: set_embedding_owner_def owned_defaults_def Let_def reads_def)
  next
    case False
    then show ?thesis
      using reads_return [of ?p] by (auto simp: set_embedding_owner_def owned_defaults_def Let_def reads_def)
  qed
qed

lemma reads_prepare:
  assumes "normalize_table_name tbl = tbl" "tbl \<noteq> ''relations''"
  shows "reads (prepare_payload dn tbl raw payload) (stored_row dn tbl raw payload)"
proof -
  let ?p = "set_defaults dn tbl raw payload"
  have "reads (if tbl = ''vector_components'' then set_embedding_owner dn ?p else remote_return ?p)
      (owned_defaults dn tbl raw payload)"
    using reads_owner [of dn raw payload] reads_return [of ?p]
    by (auto simp: owned_defaults_def [abs_def] Let_def)
  from reads_bind [OF this reads_return, of "keep_allowed tbl"] assms show ?thesis
    by (cases "tbl = ''vector_components''") (simp_all add: prepare_payload_def Let_def stored_row_def [abs_def])
qed

lemma writes_upsert_point:
  assumes "normalize_table_name tbl = tbl" "tbl \<noteq> ''relations''" "tbl \<noteq> []"
  shows "writes (upsert_point dn tbl raw payload) (\<lambda>db. put_row (tbl, raw) (stored_row dn tbl raw payload db) db)"
proof -
  let ?F = "\<lambda>existing prepared db. if same_row existing prepared then db else dict_set (tbl, raw) prepared db"
  let ?store = "\<lambda>existing prepared. if same_row existing prepared then remote_return (0 :: int)
      else remote_bind (remote_upsert (tbl, raw) prepared) (\<lambda>_. remote_return 1)"
  have body: "writes (?store existing prepared) (?F existing prepared)" for existing prepared
    using writes_return [of "0 :: int"] writes_then_return [OF writes_upsert, where g = "\<lambda>_. 1 :: int"] by simp
  have inner: "writes (remote_bind (prepare_payload dn tbl raw payload) (?store existing))
      (\<lambda>db. ?F existing (stored_row dn tbl raw payload db) db)" for existing
    by (rule writes_bind [OF reads_prepare [OF assms(1,2)], where F = "?F existing"]) (rule body)
  have outer: "writes (remote_bind (existing_row (tbl, raw))
        (\<lambda>existing. remote_bind (prepare_payload dn tbl raw payload) (?store existing)))
      (\<lambda>db. ?F (dict_get db (tbl, raw)) (stored_row dn tbl raw payload db) db)"
    by (rule writes_bind [OF reads_existing, where F = "\<lambda>existing db. ?F existing (stored_row dn tbl raw payload db) db"])
      (rule inner)
  from outer show ?thesis using assms by (simp add: upsert_point_def record_id_def Let_def put_row_def [abs_def])
qed

section \<open>Batches\<close>

lemma write_each_ok:
  assumes "\<And>c. writes (f c) (F c)"
  shows "write_each f rows c = (c', Inr n) \<Longrightarrow> cn_db c' = fold F rows (cn_db c)"
proof (induction rows arbitrary: c n)
  case (Cons x xs)
  obtain c1 r1 where one: "f x c = (c1, r1)" by (cases "f x c")
  with Cons.prems obtain n1 where n1: "r1 = Inr n1" by (cases r1) (auto simp: remote_bind_def)
  obtain c2 r2 where rest: "write_each f xs c1 = (c2, r2)" by (cases "write_each f xs c1")
  with Cons.prems one n1 have "r2 = Inr (n - n1) \<and> c' = c2"
    by (cases r2) (auto simp: remote_bind_def remote_return_def)
  with Cons.IH rest have "cn_db c' = fold F xs (cn_db c1)" by blast
  moreover have "cn_db c1 = F x (cn_db c)" using assms [of x] one n1 by (auto simp: writes_def)
  ultimately show ?case by simp
qed (simp add: remote_return_def)

lemma write_each_error:
  assumes "\<And>c. writes (f c) (F c)"
  shows "write_each f rows c = (c', Inl e) \<Longrightarrow> \<exists>j. cn_db c' = fold F (take j rows) (cn_db c)"
proof (induction rows arbitrary: c)
  case (Cons x xs)
  obtain c1 r1 where one: "f x c = (c1, r1)" by (cases "f x c")
  show ?case
  proof (cases r1)
    case (Inl e1)
    with Cons.prems one have "c' = c1" by (simp add: remote_bind_def)
    moreover have "cn_db c1 = cn_db c \<or> cn_db c1 = F x (cn_db c)"
      using assms [of x] one Inl by (auto simp: writes_def)
    ultimately have "cn_db c' = fold F (take 0 (x # xs)) (cn_db c) \<or> cn_db c' = fold F (take 1 (x # xs)) (cn_db c)"
      by simp
    then show ?thesis by blast
  next
    case (Inr n1)
    obtain c2 r2 where rest: "write_each f xs c1 = (c2, r2)" by (cases "write_each f xs c1")
    with Cons.prems one Inr have "r2 = Inl e \<and> c' = c2"
      by (cases r2) (auto simp: remote_bind_def remote_return_def)
    with Cons.IH rest obtain j where "cn_db c' = fold F (take j xs) (cn_db c1)" by blast
    moreover have "cn_db c1 = F x (cn_db c)" using assms [of x] one Inr by (auto simp: writes_def)
    ultimately have "cn_db c' = fold F (take (Suc j) (x # xs)) (cn_db c)" by simp
    then show ?thesis by blast
  qed
qed (simp add: remote_return_def)

section \<open>Repeated upserts\<close>

text \<open>What \<open>same_row\<close> compares: the values of the columns but \<open>id\<close>, up to \<open>==\<close>.\<close>

definition row_view :: "delta_row \<Rightarrow> string \<Rightarrow> cell option" where
  "row_view row = (\<lambda>k. map_option cell_norm (dict_get (dict_pop ''id'' row) k))"

lemma row_eq_iff: "row_eq l r \<longleftrightarrow> (\<lambda>k. map_option cell_norm (dict_get l k)) = (\<lambda>k. map_option cell_norm (dict_get r k))"
proof
  assume eq: "row_eq l r"
  show "(\<lambda>k. map_option cell_norm (dict_get l k)) = (\<lambda>k. map_option cell_norm (dict_get r k))"
  proof
    fix k
    show "map_option cell_norm (dict_get l k) = map_option cell_norm (dict_get r k)"
    proof (cases "k \<in> set (dict_keys l @ dict_keys r)")
      case True
      with eq show ?thesis unfolding row_eq_def list_all_iff by blast
    next
      case False
      then have "dict_get l k = None" "dict_get r k = None" by (simp_all add: dict_get_None_iff)
      then show ?thesis by simp
    qed
  qed
qed (auto simp: row_eq_def list_all_iff fun_eq_iff)

lemma same_row_iff: "same_row old row \<longleftrightarrow> (\<exists>l. old = Some l \<and> row_view l = row_view row)"
  by (simp only: same_row_def row_eq_iff row_view_def split: option.split) auto

text \<open>The upserts of one record id.\<close>

definition put_one :: "delta_row \<Rightarrow> delta_row option \<Rightarrow> delta_row option" where
  "put_one row old = (if same_row old row then old else Some row)"

lemma put_one_view: "\<exists>y. put_one row old = Some y \<and> row_view y = row_view row"
  by (auto simp: put_one_def same_row_iff)

lemma put_ones_view: "rows \<noteq> [] \<Longrightarrow> \<exists>y. fold put_one rows old = Some y \<and> row_view y = row_view (last rows)"
  by (cases rows rule: rev_cases) (auto simp: put_one_view)

lemma put_ones_cases:
  "rows \<noteq> [] \<Longrightarrow> (\<exists>y. \<forall>old. fold put_one rows old = Some y)
     \<or> (\<forall>r \<in> set rows. row_view r = row_view (last rows))"
proof (induction rows rule: rev_induct)
  case (snoc r rows)
  show ?case
  proof (cases "rows = []")
    case False
    with snoc.IH consider y where "\<forall>old. fold put_one rows old = Some y"
      | "\<forall>x \<in> set rows. row_view x = row_view (last rows)" by blast
    then show ?thesis
    proof cases
      case 1
      then have "\<forall>old. fold put_one (rows @ [r]) old = put_one r (Some y)" by simp
      then show ?thesis using put_one_view [of r "Some y"] by metis
    next
      case 2
      show ?thesis
      proof (cases "row_view r = row_view (last rows)")
        case True
        with 2 show ?thesis by auto
      next
        case differs: False
        have "fold put_one (rows @ [r]) old = Some r" for old
          using put_ones_view [OF False, of old] differs by (auto simp: put_one_def same_row_iff)
        then show ?thesis by blast
      qed
    qed
  qed auto
qed simp

lemma put_ones_same: "\<forall>r \<in> set rows. row_view r = row_view y \<Longrightarrow> fold put_one rows (Some y) = Some y"
  by (induction rows) (auto simp: put_one_def same_row_iff)

lemma put_ones_replay: "fold put_one rows (fold put_one rows old) = fold put_one rows old"
proof (cases "rows = []")
  case False
  from put_ones_view [OF False] obtain y where y: "fold put_one rows old = Some y" "row_view y = row_view (last rows)"
    by blast
  from put_ones_cases [OF False] show ?thesis
  proof
    assume "\<forall>r \<in> set rows. row_view r = row_view (last rows)"
    then show ?thesis using put_ones_same y by metis
  qed metis
qed simp

text \<open>A list of upserts, by record id, on the whole database.\<close>

lemma get_put_row: "dict_get (put_row rid row db) rid' = (if rid' = rid then put_one row (dict_get db rid) else dict_get db rid')"
  by (simp add: put_row_def put_one_def)

lemma get_put_rows:
  "dict_get (fold (\<lambda>p. put_row (fst p) (snd p)) ps db) rid =
     fold put_one (map snd (filter (\<lambda>p. fst p = rid) ps)) (dict_get db rid)"
  by (induction ps arbitrary: db) (auto simp: get_put_row)

lemma dict_keys_after_set: "dict_keys (dict_set k v d) = (if k \<in> set (dict_keys d) then dict_keys d else dict_keys d @ [k])"
  by (induction d) auto

lemma keys_put_row: "dict_keys (put_row rid row db) = (if rid \<in> set (dict_keys db) then dict_keys db else dict_keys db @ [rid])"
proof (cases "same_row (dict_get db rid) row")
  case True
  then have "dict_get db rid \<noteq> None" by (auto simp: same_row_iff)
  then have "rid \<in> set (dict_keys db)" using dict_get_None_iff by metis
  with True show ?thesis by (simp add: put_row_def)
qed (simp add: put_row_def dict_keys_after_set)

lemma dict_ok_put_row: "dict_ok db \<Longrightarrow> dict_ok (put_row rid row db)"
  by (auto simp: put_row_def intro: dict_ok_set)

lemma dict_ok_put_rows: "dict_ok db \<Longrightarrow> dict_ok (fold (\<lambda>p. put_row (fst p) (snd p)) ps db)"
  by (induction ps arbitrary: db) (simp_all add: dict_ok_put_row)

lemma keys_put_rows_known:
  "set (map fst ps) \<subseteq> set (dict_keys db) \<Longrightarrow>
     dict_keys (fold (\<lambda>p. put_row (fst p) (snd p)) ps db) = dict_keys db"
proof (induction ps arbitrary: db)
  case (Cons p ps)
  then have same: "dict_keys (put_row (fst p) (snd p) db) = dict_keys db" by (simp add: keys_put_row del: set_map)
  then have "set (map fst ps) \<subseteq> set (dict_keys (put_row (fst p) (snd p) db))" using Cons.prems by simp
  from Cons.IH [OF this] same show ?case by simp
qed simp

lemma keys_put_rows_mono: "set (dict_keys db) \<subseteq> set (dict_keys (fold (\<lambda>p. put_row (fst p) (snd p)) ps db))"
proof (induction ps arbitrary: db)
  case (Cons p ps)
  have "set (dict_keys db) \<subseteq> set (dict_keys (put_row (fst p) (snd p) db))" unfolding keys_put_row by auto
  also note Cons.IH
  finally show ?case by simp
qed simp

lemma keys_put_rows: "set (map fst ps) \<subseteq> set (dict_keys (fold (\<lambda>p. put_row (fst p) (snd p)) ps db))"
proof (induction ps arbitrary: db)
  case (Cons p ps)
  have "fst p \<in> set (dict_keys (put_row (fst p) (snd p) db))" unfolding keys_put_row by simp
  then have "fst p \<in> set (dict_keys (fold (\<lambda>p. put_row (fst p) (snd p)) (p # ps) db))"
    using keys_put_rows_mono [of "put_row (fst p) (snd p) db" ps] by (simp only: fold_simps) blast
  with Cons.IH [of "put_row (fst p) (snd p) db"] show ?case by simp
qed simp

lemma dict_eqI:
  assumes "dict_ok d" "dict_keys d = dict_keys e" "\<And>k. dict_get d k = dict_get e k"
  shows "d = e"
  using assms
proof (induction d arbitrary: e)
  case (Cons p d)
  then obtain q e' where e: "e = q # e'" "fst q = fst p" "dict_keys d = dict_keys e'" by (cases e) auto
  have "snd p = snd q" using Cons.prems(3) [of "fst p"] e by simp
  moreover have "dict_get d k = dict_get e' k" for k
  proof (cases "k = fst p")
    case True
    then show ?thesis using Cons.prems(1) e(3) by (metis dict_get_None_iff distinct.simps(2) list.simps(9))
  next
    case False
    then show ?thesis using Cons.prems(3) [of k] e by (metis map_of_Cons_code(2) prod.collapse)
  qed
  ultimately show ?case using Cons.IH [of e'] Cons.prems(1) e by (simp add: prod_eq_iff)
qed simp

lemma put_rows_replay:
  assumes "dict_ok db"
  shows "fold (\<lambda>p. put_row (fst p) (snd p)) ps (fold (\<lambda>p. put_row (fst p) (snd p)) ps db)
    = fold (\<lambda>p. put_row (fst p) (snd p)) ps db"
  by (rule dict_eqI) (simp_all only: dict_ok_put_rows assms keys_put_rows_known keys_put_rows get_put_rows put_ones_replay)

section \<open>The writer meets its contract\<close>

definition tombstone_target :: "delta_env \<Rightarrow> delta_change \<Rightarrow> py_error + (string \<times> string)" where
  "tombstone_target dn c =
     record_id (normalize_table_name (case dc_tombstone c of Some t \<Rightarrow> dt_table t | None \<Rightarrow> dc_table c))
       (case dc_tombstone c of Some t \<Rightarrow> tombstone_raw_identifier dn t c | None \<Rightarrow> dc_ref c)"

text \<open>What one change does to the database, by the method that writes it, and what the candidate does.\<close>

definition store_step :: "delta_env \<Rightarrow> string \<Rightarrow> delta_change \<Rightarrow> database \<Rightarrow> database" where
  "store_step dn meth c db =
     (case dict_get point_methods meth of
        Some (tbl, raw, payload) \<Rightarrow>
          put_row (tbl, raw dn c) (stored_row dn tbl (raw dn c) (payload dn c) db) db
      | None \<Rightarrow> (case tombstone_target dn c of Inr rid \<Rightarrow> dict_pop rid db | Inl e \<Rightarrow> db))"

definition checkpoint_id :: "string \<times> string" where
  "checkpoint_id = (''checkpoints'', CHECKPOINT_NAMESPACE)"

definition store_mark :: "delta_env \<Rightarrow> checkpoint_candidate \<Rightarrow> database \<Rightarrow> database" where
  "store_mark dn k db =
     put_row checkpoint_id (stored_row dn ''checkpoints'' CHECKPOINT_NAMESPACE (checkpoint_payload k) db) db"

definition store_covered :: "string \<Rightarrow> bool" where
  "store_covered meth \<longleftrightarrow> meth \<in> set (dict_keys point_methods) \<or> meth = ''delete_tombstones''"

lemma point_method_table:
  "dict_get point_methods meth = Some (tbl, raw, payload) \<Longrightarrow>
     normalize_table_name tbl = tbl \<and> tbl \<noteq> ''relations'' \<and> tbl \<noteq> [] \<and> tbl \<noteq> ''checkpoints''"
  by (auto simp: point_methods_def normalize_table_name_def TABLE_ALIASES_def dict_get_default_def
      split: if_splits)

lemma no_point_method_tombstones: "dict_get point_methods ''delete_tombstones'' = None"
  by (simp add: point_methods_def)

lemma writes_write_point:
  "dict_get point_methods meth = Some m \<Longrightarrow> writes (write_point dn m c) (store_step dn meth c)"
  using writes_upsert_point point_method_table
  by (cases m) (simp add: write_point_def store_step_def [abs_def])

lemma dict_pop_absent: "dict_get db rid = None \<Longrightarrow> dict_pop rid db = db"
  by (auto simp: dict_pop_filter dict_get_None_iff intro!: filter_True)

lemma writes_delete_tombstone: "writes (delete_tombstone dn c) (store_step dn ''delete_tombstones'' c)"
proof (cases "tombstone_target dn c")
  case (Inl e)
  then show ?thesis
    using writes_raise by (simp add: delete_tombstone_def tombstone_target_def Let_def)
next
  case (Inr rid)
  let ?F = "\<lambda>existing db. if existing = None then db else dict_pop rid db"
  have body: "writes (if existing = None then remote_return (0 :: int)
      else remote_bind (remote_delete rid) (\<lambda>_. remote_return 1)) (?F existing)" for existing :: "delta_row option"
    using writes_return [of "0 :: int"] writes_then_return [OF writes_delete, where g = "\<lambda>_. 1 :: int"]
    by (cases existing) simp_all
  have outer: "writes (remote_bind (existing_row rid) (\<lambda>existing. if existing = None then remote_return (0 :: int)
      else remote_bind (remote_delete rid) (\<lambda>_. remote_return 1))) (\<lambda>db. ?F (dict_get db rid) db)"
    by (rule writes_bind [OF reads_existing, where F = ?F]) (rule body)
  have "(\<lambda>db. ?F (dict_get db rid) db) = store_step dn ''delete_tombstones'' c"
    by (auto simp: fun_eq_iff store_step_def no_point_method_tombstones Inr dict_pop_absent)
  with outer Inr show ?thesis by (simp add: delete_tombstone_def tombstone_target_def Let_def)
qed

lemma store_covered_method:
  assumes "store_covered meth"
  shows "\<exists>f. store_writer_method dn ins meth = Some (write_each f) \<and> (\<forall>c. writes (f c) (store_step dn meth c))"
proof (cases "dict_get point_methods meth")
  case (Some m)
  then have "\<forall>c. writes (write_point dn m c) (store_step dn meth c)" using writes_write_point by blast
  with Some show ?thesis by (auto simp: store_writer_method_def)
next
  case None
  with assms have "meth = ''delete_tombstones''" by (auto simp: store_covered_def dict_get_None_iff)
  with None show ?thesis using writes_delete_tombstone by (auto simp: store_writer_method_def)
qed

lemma scan_put_row: "fst rid \<noteq> tbl \<Longrightarrow> scan_table tbl (put_row rid row db) = scan_table tbl db"
proof -
  assume "fst rid \<noteq> tbl"
  then have "scan_table tbl (dict_set rid row db) = scan_table tbl db"
    by (induction db) (auto simp: scan_table_def)
  then show ?thesis by (simp add: put_row_def)
qed

lemma stored_row_cong:
  "tbl = ''vector_components'' \<longrightarrow> scan_table ''embeddings'' db = scan_table ''embeddings'' db' \<Longrightarrow>
     stored_row dn tbl raw payload db = stored_row dn tbl raw payload db'"
  by (auto simp: stored_row_def owned_defaults_def Let_def)

lemma point_steps:
  assumes "dict_get point_methods meth = Some (tbl, raw, payload)"
    "tbl = ''vector_components'' \<longrightarrow> scan_table ''embeddings'' db = scan_table ''embeddings'' db0"
  shows "fold (store_step dn meth) rows db =
    fold (\<lambda>p. put_row (fst p) (snd p))
      (map (\<lambda>c. ((tbl, raw dn c), stored_row dn tbl (raw dn c) (payload dn c) db0)) rows) db"
  using assms(2)
proof (induction rows arbitrary: db)
  case (Cons c rows)
  have "stored_row dn tbl (raw dn c) (payload dn c) db = stored_row dn tbl (raw dn c) (payload dn c) db0"
    using Cons.prems by (rule stored_row_cong)
  then have "store_step dn meth c db = put_row (tbl, raw dn c) (stored_row dn tbl (raw dn c) (payload dn c) db0) db"
    by (simp add: store_step_def assms(1))
  with Cons.IH [of "store_step dn meth c db"] Cons.prems show ?case
    by (auto simp: scan_put_row)
qed simp

lemma tombstone_steps:
  "fold (store_step dn ''delete_tombstones'') rows db =
     filter (\<lambda>p. Inr (fst p) \<notin> tombstone_target dn ` set rows) db"
proof (induction rows arbitrary: db)
  case (Cons c rows)
  have "store_step dn ''delete_tombstones'' c db = filter (\<lambda>p. Inr (fst p) \<noteq> tombstone_target dn c) db"
    by (cases "tombstone_target dn c")
      (auto simp: store_step_def no_point_method_tombstones dict_pop_filter intro: filter_cong)
  then show ?case by (simp add: Cons.IH conj_commute)
qed simp

lemma dict_ok_store_step: "dict_ok db \<Longrightarrow> dict_ok (store_step dn meth c db)"
  by (auto simp: store_step_def dict_ok_put_row dict_ok_pop split: option.split sum.split)

lemma store_replay:
  assumes "store_covered meth" "dict_ok db"
  shows "fold (store_step dn meth) rows (fold (store_step dn meth) rows db) = fold (store_step dn meth) rows db"
proof (cases "dict_get point_methods meth")
  case None
  with assms(1) have "meth = ''delete_tombstones''" by (auto simp: store_covered_def dict_get_None_iff)
  then show ?thesis by (simp add: tombstone_steps)
next
  case (Some m)
  obtain tbl raw payload where m: "m = (tbl, raw, payload)" by (metis prod.collapse)
  let ?ps = "map (\<lambda>c. ((tbl, raw dn c), stored_row dn tbl (raw dn c) (payload dn c) db)) rows"
  let ?put = "fold (\<lambda>p. put_row (fst p) (snd p)) ?ps"
  have first: "fold (store_step dn meth) rows db = ?put db"
    by (rule point_steps) (use Some m in simp_all)
  have keep: "scan_table ''embeddings'' (fold (\<lambda>p. put_row (fst p) (snd p)) ps d) = scan_table ''embeddings'' d"
    if "\<forall>p \<in> set ps. fst (fst p) \<noteq> ''embeddings''" for ps :: "((string \<times> string) \<times> delta_row) list" and d
    using that by (induction ps arbitrary: d) (simp_all add: scan_put_row)
  have "tbl = ''vector_components'' \<longrightarrow> scan_table ''embeddings'' (?put db) = scan_table ''embeddings'' db"
    using keep [of ?ps db] by auto
  then have "fold (store_step dn meth) rows (?put db) = ?put (?put db)"
    by (intro point_steps) (use Some m in simp_all)
  with first put_rows_replay [OF assms(2), of ?ps] show ?thesis by simp
qed

interpretation store: delta_writer "store_writer dn ins" cn_db dict_ok store_covered "store_step dn" "store_mark dn"
  for dn :: delta_env and ins :: insert_relations
proof unfold_locales
  show "\<exists>f. sw_method (store_writer dn ins) meth = Some f" if "store_covered meth" for meth
    using store_covered_method [OF that, of dn ins] by (auto simp: store_writer_def)
  have each: "\<exists>g. f = write_each g \<and> (\<forall>c. writes (g c) (store_step dn meth c))"
    if "store_covered meth" "sw_method (store_writer dn ins) meth = Some f" for meth f
    using store_covered_method [OF that(1), of dn ins] that(2) by (auto simp: store_writer_def)
  show "cn_db w' = fold (store_step dn meth) rows (cn_db w)"
    if "store_covered meth" "sw_method (store_writer dn ins) meth = Some f" "f rows w = (w', Inr n)"
    for meth f rows w w' n
    using each [OF that(1,2)] that(3) write_each_ok by metis
  show "\<exists>j. cn_db w' = fold (store_step dn meth) (take j rows) (cn_db w)"
    if "store_covered meth" "sw_method (store_writer dn ins) meth = Some f" "f rows w = (w', Inl e)"
    for meth f rows w w' e
    using each [OF that(1,2)] that(3) write_each_error by metis
  have mark: "writes (write_checkpoint_candidate dn k) (store_mark dn k)" for k
    using writes_upsert_point [of "''checkpoints''" dn CHECKPOINT_NAMESPACE "checkpoint_payload k"]
    by (simp add: write_checkpoint_candidate_def store_mark_def [abs_def] checkpoint_id_def
        normalize_table_name_def TABLE_ALIASES_def dict_get_default_def)
  show "cn_db w' = store_mark dn k (cn_db w)" if "sw_checkpoint (store_writer dn ins) k w = (w', Inr n)" for k w w' n
    using mark [of k] that by (auto simp: writes_def store_writer_def)
  show "cn_db w' = cn_db w \<or> cn_db w' = store_mark dn k (cn_db w)"
    if "sw_checkpoint (store_writer dn ins) k w = (w', Inl e)" for k w w' e
    using mark [of k] that by (auto simp: writes_def store_writer_def)
  show "dict_ok (store_step dn meth c v)" if "dict_ok v" for meth c v
    using that by (rule dict_ok_store_step)
  show "dict_ok (store_mark dn k v)" if "dict_ok v" for k v
    using that by (simp add: store_mark_def dict_ok_put_row)
  show "fold (store_step dn meth) rows (fold (store_step dn meth) rows v) = fold (store_step dn meth) rows v"
    if "store_covered meth" "dict_ok v" for meth rows v
    using that by (rule store_replay)
  show "store_mark dn k (store_mark dn k v) = store_mark dn k v" if "dict_ok v" for k v
  proof -
    let ?row = "stored_row dn ''checkpoints'' CHECKPOINT_NAMESPACE (checkpoint_payload k)"
    have "?row (store_mark dn k v) = ?row v" by (rule stored_row_cong) simp
    with put_rows_replay [OF that, of "[(checkpoint_id, ?row v)]"] show ?thesis by (simp add: store_mark_def)
  qed
qed

end
