(* ===== verification/Active_Filter_Laws.thy ===== *)
theory Active_Filter_Laws
  imports Search_Laws Surreal_Stores Delta_Laws
begin

text \<open>
  The active filter of the service over the two metadata stores it can be given.  The SQLite store
  joins the provenance with the bindings; the SurrealDB store, which the running service uses,
  answers the question for active provenance with all provenance, so nothing is hidden there.
\<close>

section \<open>The filter over SurrealDB\<close>

text \<open>\<open>_filter_active_fused_candidates\<close> when \<open>_active_metadata_store()\<close> is the SurrealDB store.\<close>

definition surreal_filter_active :: "delta_env \<Rightarrow> string \<Rightarrow> hits \<Rightarrow>
    (hits \<times> (string, chunk_provenance) dict \<times> nat) remote" where
  "surreal_filter_active dn strategy fused =
     remote_bind (surreal_chunk_provenance dn strategy (map fst fused)) (\<lambda>all_prov.
     remote_bind (surreal_active_chunk_provenance dn strategy (map fst fused)) (\<lambda>active.
       remote_lift (try_bind (filter_active active all_prov fused) (\<lambda>(filtered, inactive).
         Inr (filtered, active, inactive)))))"

text \<open>The chunk a record reads as.\<close>

definition stored_chunk :: "delta_env \<Rightarrow> string \<Rightarrow> database \<Rightarrow> chunk option" where
  "stored_chunk dn i db =
     (case dict_get db (''chunks'', i) of
        None \<Rightarrow> None
      | Some row \<Rightarrow> if row = [] then None else (case chunk_of_row dn row of Inr c \<Rightarrow> Some c | Inl e \<Rightarrow> None))"

definition chunk_provenances :: "chunk list \<Rightarrow> (string, chunk_provenance) dict" where
  "chunk_provenances cs = fold (\<lambda>c d. case ch_provenance c of Some p \<Rightarrow> dict_set (ch_chunk_id c) p d | None \<Rightarrow> d) cs []"

lemma reads_lift: "(\<And>x. r = Inr x \<Longrightarrow> x = v) \<Longrightarrow> reads (remote_lift r) (\<lambda>_. v)"
  by (auto simp: reads_def remote_lift_def)

lemma reads_each: "(\<And>x. reads (f x) (g x)) \<Longrightarrow> reads (remote_each f xs) (\<lambda>db. map (\<lambda>x. g x db) xs)"
proof (induction xs)
  case (Cons x xs)
  have tail: "reads (remote_bind (remote_each f xs) (\<lambda>ys. remote_return (y # ys))) (\<lambda>db. y # map (\<lambda>x. g x db) xs)" for y
    using reads_bind [OF Cons.IH [OF Cons.prems] reads_return, of "\<lambda>ys. y # ys"] .
  show ?case using reads_bind [OF Cons.prems tail] by simp
qed (simp add: reads_return)

lemma reads_get_chunk: "reads (surreal_get_chunk dn i) (stored_chunk dn i)"
proof -
  let ?k = "\<lambda>stored. case stored of None \<Rightarrow> remote_return None | Some row \<Rightarrow> if row = [] then remote_return None
    else remote_lift (try_bind (chunk_of_row dn row) (\<lambda>c. Inr (Some c)))"
  let ?v = "\<lambda>stored. case stored of None \<Rightarrow> None | Some row \<Rightarrow> if row = [] then None
    else (case chunk_of_row dn row of Inr c \<Rightarrow> Some c | Inl e \<Rightarrow> None)"
  have "reads (?k stored) (\<lambda>_. ?v stored)" for stored
    by (cases stored) (auto intro!: reads_return reads_lift split: sum.split)
  from reads_bind [OF reads_select this] show ?thesis
    by (simp add: surreal_get_chunk_def stored_chunk_def [abs_def])
qed

lemma map_filter_stored: "List.map_filter id (map f xs) = List.map_filter f xs"
  by (induction xs) (auto simp: List.map_filter_simps split: option.split)

lemma reads_get_chunks:
  "reads (surreal_get_chunks dn ids) (\<lambda>db. List.map_filter (\<lambda>i. stored_chunk dn i db) ids)"
proof -
  have "reads (surreal_get_chunks dn ids) (\<lambda>db. List.map_filter id (map (\<lambda>i. stored_chunk dn i db) ids))"
    unfolding surreal_get_chunks_def
    by (rule reads_bind [where h = "\<lambda>cs _. List.map_filter id cs"], rule reads_each, rule reads_get_chunk, rule reads_return)
  then show ?thesis by (simp only: map_filter_stored)
qed

lemma reads_provenance:
  "reads (surreal_chunk_provenance dn st ids)
     (\<lambda>db. chunk_provenances (List.map_filter (\<lambda>i. stored_chunk dn i db) ids))"
  unfolding surreal_chunk_provenance_def chunk_provenances_def [symmetric]
  by (rule reads_bind [where h = "\<lambda>cs _. chunk_provenances cs"], rule reads_get_chunks, rule reads_return)

lemma filter_active_all:
  "filter_active d d fused =
     (case find (\<lambda>(i, x). i \<notin> set (dict_keys d)) fused of
        None \<Rightarrow> Inr (fused, 0)
      | Some (i, x) \<Rightarrow> Inl (ValueError (''missing source provenance for chunk_id='' @ i)))"
proof (induction fused)
  case (Cons h fused)
  obtain i x where h: "h = (i, x)" by (cases h)
  show ?case
  proof (cases "i \<in> set (dict_keys d)")
    case True
    with Cons.IH h show ?thesis
      by (cases "find (\<lambda>(i, x). i \<notin> set (dict_keys d)) fused") (auto simp del: set_map)
  qed (simp add: h)
qed simp

lemma surreal_filter_result:
  assumes "surreal_filter_active dn st fused c = (c', r)"
  shows "cn_db c' = cn_db c"
    and "r = Inr (filtered, active, inactive) \<Longrightarrow> filtered = fused \<and> inactive = 0
      \<and> list_all (\<lambda>(i, x). i \<in> set (dict_keys active)) fused"
proof -
  let ?ids = "map fst fused"
  let ?d = "\<lambda>db. chunk_provenances (List.map_filter (\<lambda>i. stored_chunk dn i db) ?ids)"
  let ?v = "\<lambda>d. case find (\<lambda>(i, x). i \<notin> set (dict_keys d)) fused of None \<Rightarrow> (fused, d, 0) | Some h \<Rightarrow> ([], [], 0 :: nat)"
  note R = reads_provenance [of dn st ?ids, unfolded reads_def, rule_format]
  obtain c1 r1 where one: "surreal_chunk_provenance dn st ?ids c = (c1, r1)" by fastforce
  obtain c2 r2 where two: "surreal_chunk_provenance dn st ?ids c1 = (c2, r2)" by fastforce
  have db: "cn_db c1 = cn_db c" "cn_db c2 = cn_db c" using R [OF one] R [OF two] by simp_all
  have run: "(c', r) = (case r1 of Inl e \<Rightarrow> (c1, Inl e) | Inr all_prov \<Rightarrow> (case r2 of Inl e \<Rightarrow> (c2, Inl e)
      | Inr active \<Rightarrow> (c2, try_bind (filter_active active all_prov fused) (\<lambda>(filtered, inactive).
         Inr (filtered, active, inactive)))))"
    using assms one two
    by (auto simp: surreal_filter_active_def surreal_active_chunk_provenance_def remote_bind_def remote_lift_def
        split: sum.splits)
  then show "cn_db c' = cn_db c" using db by (auto split: sum.splits)
  assume ok: "r = Inr (filtered, active, inactive)"
  then obtain d1 d2 where d: "r1 = Inr d1" "r2 = Inr d2" using run by (auto split: sum.splits)
  then have same: "d1 = ?d (cn_db c)" "d2 = ?d (cn_db c)" using R [OF one] R [OF two] db by auto
  have out: "try_bind (filter_active d2 d2 fused) (\<lambda>(filtered, inactive). Inr (filtered, d2, inactive))
      = Inr (filtered, active, inactive)"
    using run ok d same by simp
  then have none: "find (\<lambda>(i, x). i \<notin> set (dict_keys d2)) fused = None"
    unfolding filter_active_all by (cases "find (\<lambda>(i, x). i \<notin> set (dict_keys d2)) fused") auto
  then have "list_all (\<lambda>(i, x). i \<in> set (dict_keys d2)) fused" by (auto simp: find_None_iff_set list_all_iff)
  moreover from out have "filtered = fused" "inactive = 0" "active = d2"
    unfolding filter_active_all none by simp_all
  ultimately show "filtered = fused \<and> inactive = 0 \<and> list_all (\<lambda>(i, x). i \<in> set (dict_keys active)) fused"
    by simp
qed

text \<open>A chunk whose record reads as a chunk of that id with a provenance.\<close>

definition chunk_attributed :: "delta_env \<Rightarrow> database \<Rightarrow> string \<Rightarrow> bool" where
  "chunk_attributed dn db i =
     (case stored_chunk dn i db of None \<Rightarrow> False | Some c \<Rightarrow> ch_chunk_id c = i \<and> ch_provenance c \<noteq> None)"

lemma chunk_provenances_keys:
  "set (dict_keys (chunk_provenances cs)) = {ch_chunk_id c |c. c \<in> set cs \<and> ch_provenance c \<noteq> None}"
proof (induction cs rule: rev_induct)
  case (snoc c cs)
  then show ?case by (cases "ch_provenance c") (auto simp: chunk_provenances_def)
qed (simp add: chunk_provenances_def)

lemma calm_call: "cn_faults c = [] \<Longrightarrow> fst (f (cn_db c)) = cn_db c \<Longrightarrow> remote_call f c = (c, snd (f (cn_db c)))"
  by (cases "f (cn_db c)") (simp add: remote_call_def Let_def)

lemma calm_get_chunk:
  assumes "cn_faults c = []" "stored_chunk dn i (cn_db c) = Some ch"
  shows "surreal_get_chunk dn i c = (c, Inr (Some ch))"
proof -
  obtain row where row: "dict_get (cn_db c) (''chunks'', i) = Some row" "row \<noteq> []" "chunk_of_row dn row = Inr ch"
    using assms(2) by (auto simp: stored_chunk_def split: option.splits if_splits sum.splits)
  then show ?thesis
    using calm_call [OF assms(1), of "\<lambda>db. (db, Inr (dict_get db (''chunks'', i)))"]
    by (simp add: surreal_get_chunk_def remote_bind_def remote_select_def remote_lift_def)
qed

lemma calm_chunks:
  assumes "cn_faults c = []"
  shows "list_all (chunk_attributed dn (cn_db c)) ids \<Longrightarrow>
    remote_each (surreal_get_chunk dn) ids c = (c, Inr (map (\<lambda>i. stored_chunk dn i (cn_db c)) ids))"
proof (induction ids)
  case (Cons i ids)
  then obtain ch where "stored_chunk dn i (cn_db c) = Some ch" by (auto simp: chunk_attributed_def split: option.splits)
  with Cons calm_get_chunk [OF assms this] show ?case by (simp add: remote_bind_def remote_return_def)
qed (simp add: remote_return_def)

lemma calm_filter:
  assumes "cn_faults c = []" "list_all (\<lambda>(i, x). chunk_attributed dn (cn_db c) i) fused"
  shows "\<exists>active. surreal_filter_active dn st fused c = (c, Inr (fused, active, 0))"
proof -
  let ?ids = "map fst fused"
  have att: "list_all (chunk_attributed dn (cn_db c)) ?ids" using assms(2) by (auto simp: list_all_iff)
  let ?cs = "List.map_filter id (map (\<lambda>i. stored_chunk dn i (cn_db c)) ?ids)"
  let ?d = "chunk_provenances ?cs"
  have read: "surreal_chunk_provenance dn st ?ids c = (c, Inr ?d)"
    using calm_chunks [OF assms(1) att]
    by (simp add: surreal_chunk_provenance_def surreal_get_chunks_def remote_bind_def remote_return_def
        chunk_provenances_def)
  have "i \<in> set (dict_keys ?d)" if "(i, x) \<in> set fused" for i x
  proof -
    have "i \<in> set ?ids" using that by force
    moreover from att this obtain ch where ch: "stored_chunk dn i (cn_db c) = Some ch" "ch_chunk_id ch = i"
      "ch_provenance ch \<noteq> None"
      by (auto simp: list_all_iff chunk_attributed_def split: option.splits)
    ultimately have "ch \<in> set ?cs" unfolding map_filter_stored by (force simp: List.map_filter_def)
    with ch show ?thesis unfolding chunk_provenances_keys by blast
  qed
  then have "find (\<lambda>(i, x). i \<notin> set (dict_keys ?d)) fused = None"
    unfolding find_None_iff by blast
  then have "filter_active ?d ?d fused = Inr (fused, 0)" unfolding filter_active_all by simp
  with read show ?thesis
    by (simp add: surreal_filter_active_def surreal_active_chunk_provenance_def remote_bind_def remote_lift_def)
qed

section \<open>What the filter shows\<close>

text \<open>
  C20: The active filter keeps the fused order, counts what it hides, and raises when a hit has no
  provenance.  Over the SQLite store it shows a hit exactly when some provenance row of its chunk
  belongs to a document with an active binding, and raises exactly when a hit has no provenance at
  all.  Over the SurrealDB store, which the running service uses, bindings are ignored: whenever the filter
  returns, it shows every hit and hides none, and it does return when no call fails and every hit's
  record reads as an attributed chunk; the database is only read.
\<close>

theorem filter_active_spec:
  "(case filter_active_fused_candidates get_chunk_provenance_for_chunk_ids
          get_active_chunk_provenance_for_chunk_ids st fused s of
     Inl e \<Rightarrow> \<exists>(i, x) \<in> set fused. \<not> chunk_known s st i
   | Inr ((filtered, active, inactive), s') \<Rightarrow>
       (\<forall>(i, x) \<in> set fused. chunk_known s st i)
       \<and> filtered = filter (\<lambda>(i, x). chunk_visible s st i) fused
       \<and> length filtered + inactive = length fused)
   \<and> (case surreal_filter_active dn st fused c of
        (c', Inl e) \<Rightarrow> cn_db c' = cn_db c
      | (c', Inr (filtered, active, inactive)) \<Rightarrow> cn_db c' = cn_db c \<and> filtered = fused \<and> inactive = 0
          \<and> list_all (\<lambda>(i, x). i \<in> set (dict_keys active)) fused)
   \<and> (cn_faults c = [] \<and> list_all (\<lambda>(i, x). chunk_attributed dn (cn_db c) i) fused \<longrightarrow>
        (\<exists>active. surreal_filter_active dn st fused c = (c, Inr (fused, active, 0))))"
proof (intro conjI sqlite_filter_active)
  obtain c' r where run: "surreal_filter_active dn st fused c = (c', r)" by fastforce
  show "case surreal_filter_active dn st fused c of
        (c', Inl e) \<Rightarrow> cn_db c' = cn_db c
      | (c', Inr (filtered, active, inactive)) \<Rightarrow> cn_db c' = cn_db c \<and> filtered = fused \<and> inactive = 0
          \<and> list_all (\<lambda>(i, x). i \<in> set (dict_keys active)) fused"
  proof (cases r)
    case (Inl e)
    with surreal_filter_result(1) [OF run] run show ?thesis by simp
  next
    case (Inr y)
    obtain filtered active inactive where y: "y = (filtered, active, inactive)" by (cases y)
    from surreal_filter_result(1) [OF run] surreal_filter_result(2) [OF run, of filtered active inactive] Inr y run
    show ?thesis by simp
  qed
qed (blast intro: calm_filter)

text \<open>A hit whose chunk record carries a provenance.\<close>

definition demo_hit :: hits where
  "demo_hit = [(''y'', 1/2)]"

definition demo_chunk_connection :: connection where
  "demo_chunk_connection = \<lparr>cn_db = [((''chunks'', ''y''), [(''chunk_id'', str_cell ''y''), (''text'', str_cell ''t''),
     (''ref'', str_cell ''filesystem:/a.md''), (''document_ref'', str_cell ''/a.md'')])], cn_faults = []\<rparr>"

definition demo_chunk_env :: delta_env where
  "demo_chunk_env = \<lparr>dn_repr = (\<lambda>c. ''?''), dn_digest = (\<lambda>s. 7)\<rparr>"

theorem filter_active_spec_witness:
  "(\<exists>active. surreal_filter_active demo_chunk_env ''a'' demo_hit demo_chunk_connection
      = (demo_chunk_connection, Inr (demo_hit, active, 0)))
   \<and> (case filter_active_fused_candidates get_chunk_provenance_for_chunk_ids
          get_active_chunk_provenance_for_chunk_ids ''a'' demo_hit sample_store of
        Inl e \<Rightarrow> \<exists>(i, x) \<in> set demo_hit. \<not> chunk_known sample_store ''a'' i
      | Inr ((filtered, active, inactive), s') \<Rightarrow>
          (\<forall>(i, x) \<in> set demo_hit. chunk_known sample_store ''a'' i)
          \<and> filtered = filter (\<lambda>(i, x). chunk_visible sample_store ''a'' i) demo_hit
          \<and> length filtered + inactive = length demo_hit)"
proof -
  have "cn_faults demo_chunk_connection = []" by (simp add: demo_chunk_connection_def)
  moreover have "list_all (\<lambda>(i, x). chunk_attributed demo_chunk_env (cn_db demo_chunk_connection) i) demo_hit"
    by code_simp
  ultimately show ?thesis
    using filter_active_spec [where st = "''a''" and fused = demo_hit and s = sample_store and dn = demo_chunk_env
      and c = demo_chunk_connection] by blast
qed

end
