(* ===== verification/File_Tracker.thy ===== *)
theory File_Tracker
  imports Sql_Tables Core_Models
begin

text \<open>
  Change detection (\<open>ingestion/file_tracker.py\<close>): the fingerprint table and the
  classification of discovered files.  The file system is the argument \<open>fs\<close>: what
  \<open>stat\<close> and the checksum function return for a path, None if \<open>stat\<close> raises.
\<close>

record fingerprint_row =
  fp_file_path :: string
  fp_mtime :: rat
  fp_size_bytes :: int
  fp_checksum :: string
  fp_indexed_at :: timestamp

record file_state =
  fs_mtime :: rat
  fs_size :: int
  fs_checksum :: string

type_synonym filesystem = "string \<Rightarrow> file_state option"

record file_diff =
  fd_new :: "string list"
  fd_modified :: "string list"
  fd_deleted :: "string list"
  fd_unchanged :: "string list"

datatype file_error = FileNotFound string

definition empty_diff :: file_diff where
  "empty_diff = \<lparr>fd_new = [], fd_modified = [], fd_deleted = [], fd_unchanged = []\<rparr>"

definition save_fingerprint :: "timestamp \<Rightarrow> string \<Rightarrow> rat \<Rightarrow> int \<Rightarrow> string \<Rightarrow>
    fingerprint_row list \<Rightarrow> fingerprint_row list" where
  "save_fingerprint now file_path mtime sz checksum t =
     insert_or_replace fp_file_path
       \<lparr>fp_file_path = file_path, fp_mtime = mtime, fp_size_bytes = sz, fp_checksum = checksum,
        fp_indexed_at = now\<rparr> t"

definition remove_fingerprint :: "string \<Rightarrow> fingerprint_row list \<Rightarrow> fingerprint_row list" where
  "remove_fingerprint file_path t = delete_where (\<lambda>r. fp_file_path r = file_path) t"

definition clear :: "fingerprint_row list \<Rightarrow> fingerprint_row list" where
  "clear t = []"

definition touch_fingerprint :: "string \<Rightarrow> file_state \<Rightarrow> fingerprint_row list \<Rightarrow> fingerprint_row list" where
  "touch_fingerprint path st t =
     update_where (\<lambda>r. fp_file_path r = path)
       (\<lambda>r. r\<lparr>fp_mtime := fs_mtime st, fp_size_bytes := fs_size st\<rparr>) t"

text \<open>The loop over the discovered files; \<open>stored\<close> is the table as it was read before.\<close>

fun diff_files :: "filesystem \<Rightarrow> fingerprint_row list \<Rightarrow> string list \<Rightarrow> file_diff \<Rightarrow>
    fingerprint_row list \<Rightarrow> (file_error + file_diff) \<times> fingerprint_row list" where
  "diff_files fs stored [] result t = (Inr result, t)"
| "diff_files fs stored (path # rest) result t =
     (case fetch_key fp_file_path stored path of
        None \<Rightarrow> diff_files fs stored rest (result\<lparr>fd_new := fd_new result @ [path]\<rparr>) t
      | Some row \<Rightarrow>
          (case fs path of
             None \<Rightarrow> (Inl (FileNotFound path), t)
           | Some st \<Rightarrow>
               if fs_mtime st = fp_mtime row \<and> fs_size st = fp_size_bytes row
               then diff_files fs stored rest (result\<lparr>fd_unchanged := fd_unchanged result @ [path]\<rparr>) t
               else if fs_checksum st = fp_checksum row
               then diff_files fs stored rest (result\<lparr>fd_unchanged := fd_unchanged result @ [path]\<rparr>)
                      (touch_fingerprint path st t)
               else diff_files fs stored rest (result\<lparr>fd_modified := fd_modified result @ [path]\<rparr>) t))"

definition diff :: "filesystem \<Rightarrow> string list \<Rightarrow> fingerprint_row list \<Rightarrow>
    (file_error + file_diff) \<times> fingerprint_row list" where
  "diff fs discovered t =
     (case diff_files fs t discovered empty_diff t of
        (Inl e, t') \<Rightarrow> (Inl e, t')
      | (Inr result, t') \<Rightarrow>
          (Inr (result\<lparr>fd_deleted := filter (\<lambda>p. p \<notin> set discovered) (map fp_file_path t)\<rparr>), t'))"

section \<open>The classification\<close>

datatype file_class = New | Modified | Unchanged

definition class_of :: "filesystem \<Rightarrow> fingerprint_row list \<Rightarrow> string \<Rightarrow> file_class" where
  "class_of fs stored path =
     (case fetch_key fp_file_path stored path of
        None \<Rightarrow> New
      | Some row \<Rightarrow> (case fs path of
          None \<Rightarrow> Modified
        | Some st \<Rightarrow> if (fs_mtime st = fp_mtime row \<and> fs_size st = fp_size_bytes row)
              \<or> fs_checksum st = fp_checksum row then Unchanged else Modified))"

definition refresh :: "filesystem \<Rightarrow> string list \<Rightarrow> fingerprint_row \<Rightarrow> fingerprint_row" where
  "refresh fs paths row =
     (case fs (fp_file_path row) of
        None \<Rightarrow> row
      | Some st \<Rightarrow>
          if fp_file_path row \<in> set paths \<and> fs_checksum st = fp_checksum row
          then row\<lparr>fp_mtime := fs_mtime st, fp_size_bytes := fs_size st\<rparr> else row)"

text \<open>A file whose timestamp and size are those of its row has the checksum of its row.\<close>

definition stat_sound :: "filesystem \<Rightarrow> fingerprint_row list \<Rightarrow> bool" where
  "stat_sound fs t \<longleftrightarrow> (\<forall>r \<in> set t. \<forall>st. fs (fp_file_path r) = Some st \<longrightarrow>
     fs_mtime st = fp_mtime r \<and> fs_size st = fp_size_bytes r \<longrightarrow> fs_checksum st = fp_checksum r)"

lemma diff_files_result:
  assumes "\<forall>p \<in> set paths. p \<in> fp_file_path ` set stored \<longrightarrow> fs p \<noteq> None"
  shows "fst (diff_files fs stored paths result t) = Inr (result\<lparr>
      fd_new := fd_new result @ filter (\<lambda>p. class_of fs stored p = New) paths,
      fd_modified := fd_modified result @ filter (\<lambda>p. class_of fs stored p = Modified) paths,
      fd_unchanged := fd_unchanged result @ filter (\<lambda>p. class_of fs stored p = Unchanged) paths\<rparr>)"
  using assms
proof (induction paths arbitrary: result t)
  case Nil
  then show ?case by simp
next
  case (Cons p paths)
  show ?case
  proof (cases "fetch_key fp_file_path stored p")
    case None
    with Cons show ?thesis by (simp add: class_of_def)
  next
    case (Some row)
    then have "p \<in> fp_file_path ` set stored" by (metis fetch_key_None_iff option.distinct(1))
    with Cons.prems obtain st where "fs p = Some st" by auto
    with Cons Some show ?thesis by (auto simp: class_of_def)
  qed
qed

lemma touch_as_map:
  "touch_fingerprint p st t = map (\<lambda>r. if fp_file_path r = p
     then r\<lparr>fp_mtime := fs_mtime st, fp_size_bytes := fs_size st\<rparr> else r) t"
  by (simp add: touch_fingerprint_def update_where_def)

lemma fetch_touch:
  "fetch_key fp_file_path (touch_fingerprint p st t) q = map_option (\<lambda>r. if fp_file_path r = p
     then r\<lparr>fp_mtime := fs_mtime st, fp_size_bytes := fs_size st\<rparr> else r) (fetch_key fp_file_path t q)"
  unfolding touch_fingerprint_def by (rule fetch_update_where) simp

lemma refresh_path [simp]: "fp_file_path (refresh fs ps r) = fp_file_path r"
  by (auto simp: refresh_def split: option.splits)

lemma diff_files_table:
  assumes "\<forall>p \<in> set paths. p \<in> fp_file_path ` set stored \<longrightarrow> fs p \<noteq> None" and "pk_ok fp_file_path stored"
    and "t = map (refresh fs seen) stored"
  shows "snd (diff_files fs stored paths result t) = map (refresh fs (seen @ paths)) stored"
  using assms
proof (induction paths arbitrary: seen result t)
  case Nil
  then show ?case by simp
next
  case (Cons p paths)
  have step: "snd (diff_files fs stored paths result' t') = map (refresh fs (seen @ p # paths)) stored"
    if "t' = map (refresh fs (seen @ [p])) stored" for result' t'
    using Cons.IH [of t' "seen @ [p]" result'] Cons.prems that by simp
  show ?case
  proof (cases "fetch_key fp_file_path stored p")
    case None
    then have "p \<notin> fp_file_path ` set stored" by (simp add: fetch_key_None_iff)
    then have "map (refresh fs (seen @ [p])) stored = t"
      using Cons.prems(3) by (auto simp: refresh_def split: option.splits)
    with None step show ?thesis by simp
  next
    case (Some row)
    then have row: "row \<in> set stored" "fp_file_path row = p"
      by (auto dest: fetch_key_in fetch_key_key)
    with Cons.prems(1) obtain st where st: "fs p = Some st" by auto
    have uniq: "r = row" if "r \<in> set stored" "fp_file_path r = p" for r
      using that row Cons.prems(2) by (auto simp: pk_ok_def distinct_map dest: inj_onD)
    have same: "map (refresh fs (seen @ [p])) stored = t"
      if "fs_checksum st \<noteq> fp_checksum row \<or> fs_mtime st = fp_mtime row \<and> fs_size st = fp_size_bytes row"
      unfolding Cons.prems(3) using that st by (auto simp: refresh_def split: option.splits dest: uniq)
    have touched: "map (refresh fs (seen @ [p])) stored = touch_fingerprint p st t"
      if "fs_checksum st = fp_checksum row"
      unfolding Cons.prems(3) touch_as_map using that st
      by (auto simp: refresh_def split: option.splits dest: uniq)
    from Some st show ?thesis using same touched step by auto
  qed
qed

section \<open>What a diff reports\<close>

definition tracked_exist :: "filesystem \<Rightarrow> string list \<Rightarrow> fingerprint_row list \<Rightarrow> bool" where
  "tracked_exist fs discovered t \<longleftrightarrow>
     (\<forall>p \<in> set discovered. p \<in> fp_file_path ` set t \<longrightarrow> fs p \<noteq> None)"

definition report :: "filesystem \<Rightarrow> string list \<Rightarrow> fingerprint_row list \<Rightarrow> file_diff" where
  "report fs discovered t =
     \<lparr>fd_new = filter (\<lambda>p. class_of fs t p = New) discovered,
      fd_modified = filter (\<lambda>p. class_of fs t p = Modified) discovered,
      fd_deleted = filter (\<lambda>p. p \<notin> set discovered) (map fp_file_path t),
      fd_unchanged = filter (\<lambda>p. class_of fs t p = Unchanged) discovered\<rparr>"

lemma diff_report:
  assumes "tracked_exist fs discovered t"
  shows "fst (diff fs discovered t) = Inr (report fs discovered t)"
  using diff_files_result [of discovered t fs empty_diff t] assms
  by (cases "diff_files fs t discovered empty_diff t")
    (auto simp: diff_def empty_diff_def report_def tracked_exist_def)

lemma diff_table:
  assumes "tracked_exist fs discovered t" and "pk_ok fp_file_path t"
  shows "snd (diff fs discovered t) = map (refresh fs discovered) t"
proof -
  have "map (refresh fs []) t = t"
    by (rule map_idI) (auto simp: refresh_def split: option.splits)
  then have "snd (diff_files fs t discovered empty_diff t) = map (refresh fs discovered) t"
    using diff_files_table [of discovered t fs t "[]"] assms
    by (simp add: tracked_exist_def)
  then show ?thesis by (auto simp: diff_def split: prod.splits sum.splits)
qed

lemma map_path_refresh [simp]: "map fp_file_path (map (refresh fs ps) t) = map fp_file_path t"
  by simp

lemma fetch_refresh:
  "fetch_key fp_file_path (map (refresh fs ps) t) p =
     map_option (refresh fs ps) (fetch_key fp_file_path t p)"
  by (induction t) auto

lemma class_of_refresh [simp]: "class_of fs (map (refresh fs ps) t) p = class_of fs t p"
proof (cases "fetch_key fp_file_path t p")
  case None
  then show ?thesis by (simp add: class_of_def fetch_refresh)
next
  case (Some row)
  then have "fp_file_path row = p" by (rule fetch_key_key)
  then have "refresh fs ps row = (case fs p of None \<Rightarrow> row | Some st \<Rightarrow>
      if p \<in> set ps \<and> fs_checksum st = fp_checksum row
      then row\<lparr>fp_mtime := fs_mtime st, fp_size_bytes := fs_size st\<rparr> else row)"
    by (cases "fs p") (simp_all add: refresh_def)
  note R = this
  show ?thesis
  proof (cases "fs p")
    case None
    with R Some show ?thesis by (simp only: class_of_def fetch_refresh option.map option.case)
  next
    case [simp]: (Some st)
    show ?thesis
    proof (cases "p \<in> set ps \<and> fs_checksum st = fp_checksum row")
      case True
      then have "refresh fs ps row = row\<lparr>fp_mtime := fs_mtime st, fp_size_bytes := fs_size st\<rparr>"
        using R by simp
      with True \<open>fetch_key fp_file_path t p = Some row\<close> show ?thesis
        by (simp add: class_of_def fetch_refresh)
    next
      case False
      then have "refresh fs ps row = row" using R by (simp only: Some option.case if_False)
      with \<open>fetch_key fp_file_path t p = Some row\<close> show ?thesis
        by (simp add: class_of_def fetch_refresh)
    qed
  qed
qed

lemma report_refresh [simp]: "report fs ds (map (refresh fs ps) t) = report fs ds t"
  by (simp add: report_def o_def)

lemma refresh_refresh [simp]: "refresh fs ps (refresh fs ps r) = refresh fs ps r"
  by (auto simp: refresh_def split: option.splits)

text \<open>
  The two-stage detection is an optimisation only.  When timestamps and sizes are
  sound (a file with the recorded timestamp and size has the recorded checksum) and the
  tracked files still exist, a diff reports exactly what comparing every checksum would
  report, in the order of discovery: new files have no row, modified files have another
  checksum than their row, unchanged ones the same, and deleted are the rows not
  discovered.
\<close>

theorem diff_is_content_comparison:
  assumes "pk_ok fp_file_path t" and "tracked_exist fs discovered t" and "stat_sound fs t"
  shows "\<exists>d. fst (diff fs discovered t) = Inr d
    \<and> fd_new d = filter (\<lambda>p. p \<notin> fp_file_path ` set t) discovered
    \<and> fd_modified d = filter (\<lambda>p. \<exists>r \<in> set t. fp_file_path r = p
         \<and> map_option fs_checksum (fs p) \<noteq> Some (fp_checksum r)) discovered
    \<and> fd_unchanged d = filter (\<lambda>p. \<exists>r \<in> set t. fp_file_path r = p
         \<and> map_option fs_checksum (fs p) = Some (fp_checksum r)) discovered
    \<and> fd_deleted d = filter (\<lambda>p. p \<notin> set discovered) (map fp_file_path t)"
proof -
  have new: "class_of fs t p = New \<longleftrightarrow> p \<notin> fp_file_path ` set t" for p
    using fetch_key_None_iff [of fp_file_path t p]
    by (auto simp: class_of_def split: option.splits)
  have row: "class_of fs t (fp_file_path r) =
      (if map_option fs_checksum (fs (fp_file_path r)) = Some (fp_checksum r) then Unchanged else Modified)"
    if "r \<in> set t" for r
    using fetch_key_member [OF assms(1) that] assms(3) that
    by (auto simp: class_of_def stat_sound_def split: option.splits)
  have uniq: "r = r'" if "r \<in> set t" "r' \<in> set t" "fp_file_path r = fp_file_path r'" for r r'
    using that assms(1) by (auto simp: pk_ok_def distinct_map dest: inj_onD)
  have ex: "(\<exists>r \<in> set t. fp_file_path r = p \<and> Q r) \<longleftrightarrow> Q row"
    if "row \<in> set t" "fp_file_path row = p" for p row and Q :: "fingerprint_row \<Rightarrow> bool"
    using that uniq by metis
  have "(class_of fs t p = Modified \<longleftrightarrow> (\<exists>r \<in> set t. fp_file_path r = p
      \<and> map_option fs_checksum (fs p) \<noteq> Some (fp_checksum r)))
    \<and> (class_of fs t p = Unchanged \<longleftrightarrow> (\<exists>r \<in> set t. fp_file_path r = p
      \<and> map_option fs_checksum (fs p) = Some (fp_checksum r)))" for p
  proof (cases "p \<in> fp_file_path ` set t")
    case True
    then obtain r where r: "r \<in> set t" "fp_file_path r = p" by auto
    show ?thesis unfolding ex [OF r] using row [OF r(1)] r(2) by simp
  next
    case False
    moreover have "class_of fs t p = New" using new False by blast
    ultimately show ?thesis by auto
  qed
  with new show ?thesis
    using diff_report [OF assms(2)] by (simp add: report_def)
qed

text \<open>
  The silent update of a touched file changes nothing that is reported: a second diff
  over the same files gives the same report, leaves the table as the first one left it,
  and the paths and checksums on record are those from before.
\<close>

theorem diff_idempotent:
  assumes "pk_ok fp_file_path t" and "tracked_exist fs discovered t"
    and "t' = snd (diff fs discovered t)"
  shows "diff fs discovered t' = (fst (diff fs discovered t), t')
    \<and> map (\<lambda>r. (fp_file_path r, fp_checksum r, fp_indexed_at r)) t' =
        map (\<lambda>r. (fp_file_path r, fp_checksum r, fp_indexed_at r)) t"
proof -
  have t': "t' = map (refresh fs discovered) t"
    using assms diff_table by simp
  have pk: "pk_ok fp_file_path t'" and te: "tracked_exist fs discovered t'"
    using assms(1,2) by (auto simp: t' pk_ok_def tracked_exist_def o_def image_image)
  have "snd (diff fs discovered t') = t'"
    using diff_table [OF te pk] by (simp add: t' o_def)
  moreover have "fst (diff fs discovered t') = fst (diff fs discovered t)"
    using diff_report [OF te] diff_report [OF assms(2)] by (simp add: t')
  moreover have "map (\<lambda>r. (fp_file_path r, fp_checksum r, fp_indexed_at r)) t' =
      map (\<lambda>r. (fp_file_path r, fp_checksum r, fp_indexed_at r)) t"
    by (auto simp: t' refresh_def split: option.splits)
  ultimately show ?thesis by (metis prod.collapse)
qed

text \<open>A pass over the report: fingerprints of new and modified files are saved, deleted ones removed.\<close>

definition save_current :: "filesystem \<Rightarrow> timestamp \<Rightarrow> string \<Rightarrow> fingerprint_row list \<Rightarrow>
    fingerprint_row list" where
  "save_current fs now p t = (case fs p of None \<Rightarrow> t
     | Some st \<Rightarrow> save_fingerprint now p (fs_mtime st) (fs_size st) (fs_checksum st) t)"

definition apply_report :: "filesystem \<Rightarrow> timestamp \<Rightarrow> file_diff \<Rightarrow> fingerprint_row list \<Rightarrow>
    fingerprint_row list" where
  "apply_report fs now d t =
     fold remove_fingerprint (fd_deleted d)
       (fold (save_current fs now) (fd_new d @ fd_modified d) t)"

definition current_row :: "filesystem \<Rightarrow> timestamp \<Rightarrow> string \<Rightarrow> fingerprint_row option" where
  "current_row fs now p = map_option (\<lambda>st. \<lparr>fp_file_path = p, fp_mtime = fs_mtime st,
     fp_size_bytes = fs_size st, fp_checksum = fs_checksum st, fp_indexed_at = now\<rparr>) (fs p)"

lemma fetch_fold_remove:
  "fetch_key fp_file_path (fold remove_fingerprint ps t) k =
     (if k \<in> set ps then None else fetch_key fp_file_path t k)"
  by (induction ps arbitrary: t) (auto simp: remove_fingerprint_def sql_simps)

lemma fetch_fold_save:
  "fetch_key fp_file_path (fold (save_current fs now) ps t) k =
     (if k \<in> set ps \<and> fs k \<noteq> None then current_row fs now k else fetch_key fp_file_path t k)"
proof (induction ps arbitrary: t)
  case Nil
  then show ?case by simp
next
  case (Cons p ps)
  have "fetch_key fp_file_path (save_current fs now p t) k =
      (if k = p \<and> fs k \<noteq> None then current_row fs now k else fetch_key fp_file_path t k)"
    by (cases "fs p") (auto simp: save_current_def save_fingerprint_def current_row_def sql_simps)
  with Cons.IH [of "save_current fs now p t"] show ?case by auto
qed

lemma class_of_cong:
  "fetch_key fp_file_path t p = fetch_key fp_file_path u p \<Longrightarrow> class_of fs t p = class_of fs u p"
  by (simp add: class_of_def)

lemma class_of_current:
  "fs p \<noteq> None \<Longrightarrow> fetch_key fp_file_path t p = current_row fs now p \<Longrightarrow> class_of fs t p = Unchanged"
  by (auto simp: class_of_def current_row_def)

text \<open>
  Indexing converges.  When every discovered file exists and the pass that follows a
  diff saves the current fingerprint of each new and modified file and removes each
  deleted one, the next diff over the same files reports all of them unchanged and
  nothing new, modified or deleted.
\<close>

theorem diff_settles:
  assumes "pk_ok fp_file_path t" and "\<forall>p \<in> set discovered. fs p \<noteq> None"
    and "diff fs discovered t = (Inr d, t1)" and "t2 = apply_report fs now d t1"
  shows "fst (diff fs discovered t2) =
    Inr \<lparr>fd_new = [], fd_modified = [], fd_deleted = [], fd_unchanged = discovered\<rparr>"
proof -
  have te: "tracked_exist fs discovered u" for u
    using assms(2) by (simp add: tracked_exist_def)
  have d: "d = report fs discovered t" and t1: "t1 = map (refresh fs discovered) t"
    using diff_report [OF te [of t]] diff_table [OF te assms(1)] assms(3) by simp_all
  have fetch: "fetch_key fp_file_path t2 p = (if p \<in> set (fd_deleted d) then None
      else if p \<in> set (fd_new d @ fd_modified d) \<and> fs p \<noteq> None then current_row fs now p
      else fetch_key fp_file_path t1 p)" for p
    unfolding assms(4) apply_report_def fetch_fold_remove fetch_fold_save by simp
  have "class_of fs t2 p = Unchanged" if p: "p \<in> set discovered" for p
  proof (cases "class_of fs t p = Unchanged")
    case True
    then have "fetch_key fp_file_path t2 p = fetch_key fp_file_path t1 p"
      using p by (auto simp: fetch d report_def)
    then have "class_of fs t2 p = class_of fs t1 p" by (rule class_of_cong)
    with True show ?thesis by (simp add: t1)
  next
    case False
    then have "class_of fs t p = New \<or> class_of fs t p = Modified"
      by (cases "class_of fs t p") auto
    then have "fetch_key fp_file_path t2 p = current_row fs now p"
      using p assms(2) by (auto simp: fetch d report_def)
    with assms(2) p show ?thesis by (auto intro: class_of_current)
  qed
  moreover have "p \<in> set discovered" if "p \<in> fp_file_path ` set t2" for p
  proof (rule ccontr)
    assume p: "p \<notin> set discovered"
    from that have "fetch_key fp_file_path t2 p \<noteq> None" by (simp add: fetch_key_None_iff)
    with p have "p \<notin> set (fd_deleted d)" "fetch_key fp_file_path t1 p \<noteq> None"
      by (auto simp: fetch d report_def split: if_splits)
    moreover from this have "p \<in> fp_file_path ` set t"
      by (auto simp: t1 fetch_refresh fetch_key_None_iff)
    ultimately show False using p by (auto simp: d report_def)
  qed
  ultimately have "report fs discovered t2 =
      \<lparr>fd_new = [], fd_modified = [], fd_deleted = [], fd_unchanged = discovered\<rparr>"
    by (auto simp: report_def filter_empty_conv intro: filter_True)
  then show ?thesis using diff_report [OF te] by simp
qed

section \<open>Concrete instances\<close>

definition demo_fs :: filesystem where
  "demo_fs = (\<lambda>p.
     if p = ''touched.md'' then Some \<lparr>fs_mtime = 9, fs_size = 4, fs_checksum = ''aa''\<rparr>
     else if p = ''edited.md'' then Some \<lparr>fs_mtime = 9, fs_size = 5, fs_checksum = ''bb''\<rparr>
     else if p = ''fresh.md'' then Some \<lparr>fs_mtime = 9, fs_size = 1, fs_checksum = ''cc''\<rparr>
     else None)"

definition demo_table :: "fingerprint_row list" where
  "demo_table = save_fingerprint 1 ''touched.md'' 1 4 ''aa''
     (save_fingerprint 1 ''edited.md'' 1 4 ''ab'' (save_fingerprint 1 ''gone.md'' 1 7 ''dd'' []))"

definition demo_found :: "string list" where
  "demo_found = [''edited.md'', ''fresh.md'', ''touched.md'']"

lemmas demo_defs = demo_fs_def demo_table_def demo_found_def save_fingerprint_def
  insert_or_replace_def

lemma demo_ok: "pk_ok fp_file_path demo_table" "tracked_exist demo_fs demo_found demo_table"
    "stat_sound demo_fs demo_table" "\<forall>p \<in> set demo_found. demo_fs p \<noteq> None"
  by (simp_all add: demo_defs pk_ok_def tracked_exist_def stat_sound_def)

theorem diff_is_content_comparison_witness:
  "\<exists>d. fst (diff demo_fs demo_found demo_table) = Inr d \<and> fd_new d = [''fresh.md'']
     \<and> fd_modified d = [''edited.md''] \<and> fd_unchanged d = [''touched.md'']
     \<and> fd_deleted d = [''gone.md'']"
  using diff_is_content_comparison [OF demo_ok(1-3)] by (simp add: demo_defs)

theorem diff_idempotent_witness:
  "fst (diff demo_fs demo_found (snd (diff demo_fs demo_found demo_table)))
     = fst (diff demo_fs demo_found demo_table)"
  using diff_idempotent [OF demo_ok(1,2) refl] by simp

theorem diff_settles_witness:
  "\<exists>d t1. diff demo_fs demo_found demo_table = (Inr d, t1)
     \<and> fst (diff demo_fs demo_found (apply_report demo_fs 2 d t1)) =
        Inr \<lparr>fd_new = [], fd_modified = [], fd_deleted = [], fd_unchanged = demo_found\<rparr>"
proof -
  obtain d t1 where "diff demo_fs demo_found demo_table = (Inr d, t1)"
    using diff_report [OF demo_ok(2)] by (metis prod.collapse)
  with diff_settles [OF demo_ok(1,4) this refl] show ?thesis by blast
qed

end
