(* ===== verification/Filesystem_Pipeline.thy ===== *)
theory Filesystem_Pipeline
  imports Metadata_Provenance File_Tracker
begin

text \<open>
  The life of a file in \<open>ingestion/pipeline.py\<close> with the SQLite backend: hard purge,
  deactivation of a missing file, reactivation of retained content, and the sweep over
  missing files.  \<open>transaction\<close> is the \<open>BEGIN ... COMMIT\<close> block with its rollback.  The
  pipeline's keyword, vector and graph stores are no-op objects in this mode and leave no
  state.  \<open>Path.resolve\<close> and the disk are the environment; the disk is read through the two
  checksum functions, \<open>Path.exists\<close> is whether \<open>stat\<close> returns.
\<close>

section \<open>State\<close>

record environment =
  ev_resolve :: "string \<Rightarrow> string"
  ev_strategy :: string
  ev_chunk_files :: filesystem
  ev_meta_files :: filesystem

record rebind_diagnostic =
  rd_rebound :: nat
  rd_reused_chunks :: nat
  rd_reused_embeddings :: nat
  rd_retained_hidden :: nat

definition no_rebind :: rebind_diagnostic where
  "no_rebind = \<lparr>rd_rebound = 0, rd_reused_chunks = 0, rd_reused_embeddings = 0, rd_retained_hidden = 0\<rparr>"

record pipeline =
  pp_store :: store
  pp_chunk_fps :: "fingerprint_row list"
  pp_meta_fps :: "fingerprint_row list"
  pp_last_rebind :: "rebind_diagnostic option"

definition transaction :: "(store \<Rightarrow> py_error + 'a \<times> store) \<Rightarrow> store \<Rightarrow> (py_error + 'a) \<times> store" where
  "transaction body s = (case body s of Inl e \<Rightarrow> (Inl e, s) | Inr (x, s') \<Rightarrow> (Inr x, s'))"

definition meta_entity_id :: "environment \<Rightarrow> string \<Rightarrow> string" where
  "meta_entity_id env path = ev_resolve env path"

text \<open>A file that cannot be read by \<open>stat\<close> is skipped with a warning.\<close>

definition save_file_fingerprint :: "timestamp \<Rightarrow> filesystem \<Rightarrow> string \<Rightarrow> fingerprint_row list \<Rightarrow>
    fingerprint_row list" where
  "save_file_fingerprint now fs path t =
     (case fs path of
        None \<Rightarrow> t
      | Some st \<Rightarrow> save_fingerprint now path (fs_mtime st) (fs_size st) (fs_checksum st) t)"

definition save_chunk_fingerprint :: "environment \<Rightarrow> timestamp \<Rightarrow> string \<Rightarrow> pipeline \<Rightarrow> pipeline" where
  "save_chunk_fingerprint env now path p =
     p\<lparr>pp_chunk_fps := save_file_fingerprint now (ev_chunk_files env) path (pp_chunk_fps p)\<rparr>"

definition save_meta_fingerprint :: "environment \<Rightarrow> timestamp \<Rightarrow> string \<Rightarrow> pipeline \<Rightarrow> pipeline" where
  "save_meta_fingerprint env now path p =
     p\<lparr>pp_meta_fps := save_file_fingerprint now (ev_meta_files env) path (pp_meta_fps p)\<rparr>"

section \<open>Hard purge\<close>

definition present_strategies :: "store \<Rightarrow> string list" where
  "present_strategies s =
     map (removeprefix ''chunk_file_paths_'')
       (filter (\<lambda>n. take 17 n = ''chunk_file_paths_'') (dict_keys (st_m2m s)))"

definition cleanup_strategy :: "string \<Rightarrow> string \<Rightarrow> string \<Rightarrow> store \<Rightarrow> py_error + string list \<times> store" where
  "cleanup_strategy document_ref file_path strategy s =
     (let s1 = delete_chunk_provenance_for_document strategy ''filesystem'' document_ref s
      in try_bind (delete_m2m_for_file strategy file_path s1) (\<lambda>(orphans, s2).
           if orphans = [] then Inr ([], s2)
           else try_bind (delete_orphan_chunks strategy orphans
                  (delete_chunk_provenance strategy orphans s2)) (\<lambda>s3. Inr (orphans, s3))))"

fun cleanup_strategies :: "string \<Rightarrow> string \<Rightarrow> string list \<Rightarrow> (string, string list) dict \<Rightarrow> store \<Rightarrow>
    py_error + (string, string list) dict \<times> store" where
  "cleanup_strategies document_ref file_path [] all_orphans s = Inr (all_orphans, s)"
| "cleanup_strategies document_ref file_path (strategy # rest) all_orphans s =
     try_bind (cleanup_strategy document_ref file_path strategy s) (\<lambda>(orphans, s').
       cleanup_strategies document_ref file_path rest
         (if orphans = [] then all_orphans else dict_set strategy orphans all_orphans) s')"

definition holder_aware_chunk_cleanup :: "environment \<Rightarrow> string \<Rightarrow> store \<Rightarrow>
    py_error + (string, string list) dict \<times> store" where
  "holder_aware_chunk_cleanup env file_path s =
     (let s1 = delete_source_document_for_file (ev_resolve env) file_path s
      in cleanup_strategies (meta_entity_id env file_path) file_path (present_strategies s1) [] s1)"

definition purge_file :: "environment \<Rightarrow> string \<Rightarrow> pipeline \<Rightarrow> (py_error + unit) \<times> pipeline" where
  "purge_file env file_path p =
     (case transaction (holder_aware_chunk_cleanup env file_path) (pp_store p) of
        (Inl e, s) \<Rightarrow> (Inl e, p\<lparr>pp_store := s\<rparr>)
      | (Inr _, s) \<Rightarrow> (Inr (), p\<lparr>pp_store := s,
          pp_chunk_fps := remove_fingerprint file_path (pp_chunk_fps p),
          pp_meta_fps := remove_fingerprint file_path (pp_meta_fps p)\<rparr>))"

section \<open>Deactivation\<close>

text \<open>\<open>ResourceBinding(...)\<close> validates its fields.\<close>

definition make_binding :: "resource_binding \<Rightarrow> py_error + resource_binding" where
  "make_binding b = validate_resource_binding b"

definition deactivated_binding :: "timestamp \<Rightarrow> string \<Rightarrow> string \<Rightarrow> source_document option \<Rightarrow>
    resource_binding option \<Rightarrow> resource_binding" where
  "deactivated_binding now reason document_ref source_document existing =
     (let (bound_at, content_fingerprint, metadata_fingerprint, ref) =
            (case source_document of
               Some d \<Rightarrow> (sd_updated_at d, sd_content_fingerprint d, sd_metadata_fingerprint d, sd_ref d)
             | None \<Rightarrow> (case existing of
                 Some b \<Rightarrow> (rb_bound_at b, rb_content_fingerprint b, rb_metadata_fingerprint b, rb_ref b)
               | None \<Rightarrow> (now, '''', '''', make_ref ''filesystem'' document_ref)));
          metadata_json = (case existing of Some b \<Rightarrow> rb_metadata_json b | None \<Rightarrow> [])
      in \<lparr>rb_namespace = ''filesystem'', rb_resource_ref = document_ref, rb_document_ref = document_ref,
          rb_ref = ref, rb_active = False, rb_bound_at = bound_at, rb_unbound_at = Some now,
          rb_content_fingerprint = content_fingerprint, rb_metadata_fingerprint = metadata_fingerprint,
          rb_source_unit_refs = (case existing of Some b \<Rightarrow> rb_source_unit_refs b | None \<Rightarrow> []),
          rb_metadata_json = dict_set ''deactivation_reason'' (JStr reason) metadata_json\<rparr>)"

definition deactivate_filesystem_binding :: "environment \<Rightarrow> timestamp \<Rightarrow> string \<Rightarrow> string \<Rightarrow> store \<Rightarrow>
    py_error + store" where
  "deactivate_filesystem_binding env now reason file_path s =
     (let document_ref = meta_entity_id env file_path
      in try_bind (get_source_document (ev_resolve env) s ''filesystem'' document_ref) (\<lambda>source_document.
         try_bind (get_resource_binding s ''filesystem'' document_ref) (\<lambda>existing.
         try_bind (make_binding (deactivated_binding now reason document_ref source_document existing))
           (\<lambda>b. Inr (upsert_resource_binding b s)))))"

text \<open>A strategy is listed because its holder table exists, so reading it does not raise.\<close>

definition stored_paths :: "store \<Rightarrow> string list" where
  "stored_paths s =
     remdups (concat (map (\<lambda>strategy. case dict_get (st_m2m s) (m2m_table strategy) of
         None \<Rightarrow> [] | Some t \<Rightarrow> map mm_file_path t) (present_strategies s)))"

fun deactivate_paths :: "environment \<Rightarrow> timestamp \<Rightarrow> string list \<Rightarrow> nat \<Rightarrow> store \<Rightarrow> nat \<times> store" where
  "deactivate_paths env now [] files_removed s = (files_removed, s)"
| "deactivate_paths env now (file_path # rest) files_removed s =
     (case deactivate_filesystem_binding env now ''file_missing'' file_path s of
        Inl e \<Rightarrow> deactivate_paths env now rest files_removed s
      | Inr s' \<Rightarrow> deactivate_paths env now rest (files_removed + 1) s')"

definition purge_orphaned_files :: "environment \<Rightarrow> timestamp \<Rightarrow> string list option \<Rightarrow> pipeline \<Rightarrow>
    (nat \<times> nat \<times> nat) \<times> pipeline" where
  "purge_orphaned_files env now discovered_paths p =
     (let orphan_paths = (case discovered_paths of
            Some ds \<Rightarrow> filter (\<lambda>f. f \<notin> set ds) (stored_paths (pp_store p))
          | None \<Rightarrow> filter (\<lambda>f. ev_chunk_files env f = None) (stored_paths (pp_store p)))
      in if orphan_paths = [] then ((0, 0, 0), p)
         else let (files_removed, s) = deactivate_paths env now (sort orphan_paths) 0 (pp_store p)
              in ((files_removed, 0, 0), p\<lparr>pp_store := s\<rparr>))"

section \<open>Rebinding retained content\<close>

definition active_binding :: "source_document \<Rightarrow> string list \<Rightarrow> (string, json) dict \<Rightarrow> resource_binding" where
  "active_binding d unit_refs metadata_json =
     \<lparr>rb_namespace = sd_namespace d, rb_resource_ref = sd_document_ref d,
      rb_document_ref = sd_document_ref d, rb_ref = sd_ref d, rb_active = True,
      rb_bound_at = sd_updated_at d, rb_unbound_at = None,
      rb_content_fingerprint = sd_content_fingerprint d,
      rb_metadata_fingerprint = sd_metadata_fingerprint d,
      rb_source_unit_refs = unit_refs, rb_metadata_json = metadata_json\<rparr>"

definition upsert_active_filesystem_binding :: "source_document \<Rightarrow> store \<Rightarrow> py_error + store" where
  "upsert_active_filesystem_binding d s =
     try_bind (make_binding (active_binding d [] [])) (\<lambda>b. Inr (upsert_resource_binding b s))"

definition filesystem_chunk_provenance :: "environment \<Rightarrow> source_document \<Rightarrow> chunk_provenance" where
  "filesystem_chunk_provenance env d =
     \<lparr>cp_namespace = ''filesystem'', cp_document_ref = sd_document_ref d,
      cp_ref = make_ref ''filesystem'' (sd_document_ref d), cp_source_unit_refs = [],
      cp_chunk_strategy = ev_strategy env, cp_parser_name = Some ''markdown''\<rparr>"

text \<open>The binding to reactivate: the one at the document's own reference, else the latest
  inactive one with its fingerprints.\<close>

definition retained_binding :: "source_document \<Rightarrow> store \<Rightarrow> py_error + resource_binding option" where
  "retained_binding d s =
     try_bind (get_resource_binding s (sd_namespace d) (sd_document_ref d)) (\<lambda>binding.
     try_bind (case binding of Some b \<Rightarrow> Inr (Some b)
         | None \<Rightarrow> get_inactive_resource_binding_by_fingerprints s (sd_namespace d)
             (sd_content_fingerprint d) (sd_metadata_fingerprint d)) (\<lambda>binding.
       Inr (case binding of
          None \<Rightarrow> None
        | Some b \<Rightarrow> if rb_active b \<or> rb_content_fingerprint b \<noteq> sd_content_fingerprint d
              \<or> rb_metadata_fingerprint b \<noteq> sd_metadata_fingerprint d then None else Some b)))"

fun attach_chunks :: "string \<Rightarrow> chunk_provenance \<Rightarrow> string \<Rightarrow> (string \<times> nat) list \<Rightarrow> store \<Rightarrow> py_error + store" where
  "attach_chunks strategy provenance file_path [] s = Inr s"
| "attach_chunks strategy provenance file_path ((chunk_id, chunk_index) # refs) s =
     try_bind (add_file_path strategy chunk_id file_path chunk_index s) (\<lambda>s.
     try_bind (add_chunk_provenance strategy provenance chunk_id s) (\<lambda>s.
       attach_chunks strategy provenance file_path refs s))"

definition last_rebind_json :: "timestamp \<Rightarrow> nat \<Rightarrow> json" where
  "last_rebind_json now reused_chunks =
     JObj [(''rebound_at'', JInt now), (''reused_chunks'', JInt (int reused_chunks)),
           (''reused_embeddings'', JInt 0)]"

definition rebind_transaction :: "environment \<Rightarrow> timestamp \<Rightarrow> source_document \<Rightarrow> resource_binding \<Rightarrow>
    (string \<times> nat) list \<Rightarrow> store \<Rightarrow> (py_error + unit) \<times> store" where
  "rebind_transaction env now d b chunk_refs =
     transaction (\<lambda>s.
       try_bind (attach_chunks (ev_strategy env) (filesystem_chunk_provenance env d)
           (case sd_file_path d of Some f \<Rightarrow> f | None \<Rightarrow> sd_document_ref d) chunk_refs
           (upsert_source_document d s)) (\<lambda>s.
       try_bind (make_binding (active_binding d (rb_source_unit_refs b)
           (dict_set ''last_rebind'' (last_rebind_json now (length chunk_refs)) (rb_metadata_json b)))) (\<lambda>b'.
         Inr ((), upsert_resource_binding b' s))))"

text \<open>\<open>source_document_to_file_info\<close>, of which only the path is used afterwards.\<close>

definition source_document_to_file_info :: "environment \<Rightarrow> source_document \<Rightarrow> py_error + string" where
  "source_document_to_file_info env d =
     (if sd_namespace d \<noteq> ''filesystem''
      then Inl (ValueError ''only filesystem source documents can convert to FileInfo'')
      else case sd_file_path d of
        None \<Rightarrow> Inl (ValueError ''filesystem source document requires file_path'')
      | Some f \<Rightarrow>
          if ev_chunk_files env f = None
          then Inl (FileNotFoundError (''Source file does not exist: '' @ f))
          else if sd_document_ref d \<noteq> ev_resolve env f \<and> sd_document_ref d \<noteq> f
          then Inl (ValueError ''filesystem document_ref must match resolved file_path'')
          else Inr f)"

definition rebind_retained_filesystem_document :: "environment \<Rightarrow> timestamp \<Rightarrow> source_document \<Rightarrow> pipeline \<Rightarrow>
    (py_error + rebind_diagnostic) \<times> pipeline" where
  "rebind_retained_filesystem_document env now d p =
     (if sd_namespace d \<noteq> ''filesystem'' then (Inr no_rebind, p)
      else case retained_binding d (pp_store p) of
        Inl e \<Rightarrow> (Inl e, p)
      | Inr None \<Rightarrow> (Inr no_rebind, p)
      | Inr (Some b) \<Rightarrow>
          (case get_chunk_refs_by_file (pp_store p) (ev_strategy env) (rb_resource_ref b) of
             Inl e \<Rightarrow> (Inl e, p)
           | Inr [] \<Rightarrow> (Inr no_rebind, p)
           | Inr chunk_refs \<Rightarrow>
               (let diagnostic = \<lparr>rd_rebound = 1, rd_reused_chunks = length chunk_refs,
                      rd_reused_embeddings = 0, rd_retained_hidden = length chunk_refs\<rparr>
                in case rebind_transaction env now d b chunk_refs (pp_store p) of
                  (Inl e, s) \<Rightarrow> (Inl e, p\<lparr>pp_store := s\<rparr>)
                | (Inr _, s) \<Rightarrow>
                    (case source_document_to_file_info env d of
                       Inl e \<Rightarrow> (Inl e, p\<lparr>pp_store := s\<rparr>)
                     | Inr f \<Rightarrow> (Inr diagnostic,
                         (save_meta_fingerprint env now f (save_chunk_fingerprint env now f
                           (p\<lparr>pp_store := s\<rparr>)))\<lparr>pp_last_rebind := Some diagnostic\<rparr>)))))"

definition add_diagnostics :: "rebind_diagnostic \<Rightarrow> rebind_diagnostic \<Rightarrow> rebind_diagnostic" where
  "add_diagnostics a b =
     \<lparr>rd_rebound = rd_rebound a + rd_rebound b, rd_reused_chunks = rd_reused_chunks a + rd_reused_chunks b,
      rd_reused_embeddings = rd_reused_embeddings a + rd_reused_embeddings b,
      rd_retained_hidden = rd_retained_hidden a + rd_retained_hidden b\<rparr>"

fun rebind_retained_filesystem_documents :: "environment \<Rightarrow> timestamp \<Rightarrow> source_document list \<Rightarrow>
    rebind_diagnostic \<Rightarrow> pipeline \<Rightarrow> (py_error + rebind_diagnostic) \<times> pipeline" where
  "rebind_retained_filesystem_documents env now [] so_far p = (Inr so_far, p\<lparr>pp_last_rebind := Some so_far\<rparr>)"
| "rebind_retained_filesystem_documents env now (d # ds) so_far p =
     (case rebind_retained_filesystem_document env now d p of
        (Inl e, p') \<Rightarrow> (Inl e, p')
      | (Inr diagnostic, p') \<Rightarrow>
          rebind_retained_filesystem_documents env now ds (add_diagnostics so_far diagnostic) p')"

end
