(* ===== verification/Rebind_Counts.thy ===== *)
theory Rebind_Counts
  imports Filesystem_Pipeline Reader
begin

text \<open>
  The count of \<open>storage/metadata.py\<close> over what rebinding records: \<open>last_rebind\<close> of a binding's
  metadata holds the number of chunks a rebind reused, and
  \<open>count_reused_chunks_from_bindings\<close> adds them up over all bindings.  \<open>int\<close> of a falsy value is 0,
  of a text the number it denotes, of a list or an object a \<open>TypeError\<close>.
\<close>

definition reused_number :: "json \<Rightarrow> py_error + int" where
  "reused_number v =
     (if \<not> truthy v then Inr 0
      else case v of
        JInt i \<Rightarrow> Inr i
      | JBool b \<Rightarrow> Inr 1
      | JStr t \<Rightarrow> (case py_int t of Some i \<Rightarrow> Inr i
          | None \<Rightarrow> Inl (ValueError ''invalid literal for int() with base 10''))
      | _ \<Rightarrow> Inl (TypeError ''int() argument must be a string, a bytes-like object or a real number''))"

definition binding_reused_chunks :: "resource_binding \<Rightarrow> py_error + int" where
  "binding_reused_chunks b =
     (case dict_get (rb_metadata_json b) ''last_rebind'' of
        Some (JObj last_rebind) \<Rightarrow>
          reused_number (case dict_get last_rebind ''reused_chunks'' of None \<Rightarrow> JInt 0 | Some v \<Rightarrow> v)
      | _ \<Rightarrow> Inr 0)"

primrec add_reused_chunks :: "resource_binding list \<Rightarrow> int \<Rightarrow> py_error + int" where
  "add_reused_chunks [] reused = Inr reused"
| "add_reused_chunks (b # bs) reused =
     try_bind (binding_reused_chunks b) (\<lambda>n. add_reused_chunks bs (reused + n))"

definition count_reused_chunks_from_bindings :: "store \<Rightarrow> py_error + int" where
  "count_reused_chunks_from_bindings s = add_reused_chunks (st_bindings s) 0"

lemma add_reused_chunks_sum:
  assumes "\<And>b. b \<in> set bs \<Longrightarrow> binding_reused_chunks b = Inr (n b)"
  shows "add_reused_chunks bs reused = Inr (reused + sum_list (map n bs))"
  using assms by (induction bs arbitrary: reused) (simp_all add: add.assoc)

lemma rebound_binding_counts:
  assumes "dict_get (rb_metadata_json b) ''last_rebind'' = Some (last_rebind_json now n)"
  shows "binding_reused_chunks b = Inr (int n)"
  using assms by (simp add: binding_reused_chunks_def last_rebind_json_def reused_number_def)

end
