(* ===== verification/OAuth.thy ===== *)
theory OAuth
  imports Py_Strings
begin

text \<open>
  The OAuth authorization server of \<open>auth.py\<close>: dynamic registration, pairing of
  pending clients with one-time codes, authorization codes, access and refresh
  tokens, over a JSON state file.  A provider is its memory and the file; every
  operation reloads the file first and flushes after a change.  Times are rational
  seconds, one clock reading \<open>now\<close> per operation; the random codes of \<open>secrets\<close> are
  arguments; the environment variables are the record \<open>oauth_env\<close>.  Operations run
  one at a time (the provider's lock); the file is lost or damaged only by
  \<open>Missing\<close> and \<open>Corrupt\<close>.
\<close>

section \<open>State\<close>

datatype oauth_error = PairingCodeError string | RegistrationError string | AuthorizeError string
  | OAuthValueError string

record oauth_client =
  oc_client_id :: string
  oc_redirect_uris :: "string list"
  oc_client_secret :: "string option"
  oc_client_secret_expires_at :: "int option"
  oc_token_endpoint_auth_method :: string

record pending_client =
  pe_client :: oauth_client
  pe_created_at :: rat
  pe_expires_at :: rat
  pe_failed_attempts :: nat
  pe_last_attempt_at :: rat

record pairing_code =
  pc_created_at :: rat
  pc_expires_at :: rat

record auth_code =
  ac_code :: string
  ac_scopes :: "string list"
  ac_expires_at :: rat
  ac_client_id :: string
  ac_code_challenge :: string
  ac_redirect_uri :: string
  ac_redirect_uri_provided_explicitly :: bool
  ac_resource :: "string option"

record access_token =
  at_token :: string
  at_client_id :: string
  at_scopes :: "string list"
  at_expires_at :: "int option"
  at_resource :: "string option"

record refresh_token =
  rt_token :: string
  rt_client_id :: string
  rt_scopes :: "string list"

record oauth_token =
  ot_access_token :: string
  ot_token_type :: string
  ot_expires_in :: int
  ot_refresh_token :: string
  ot_scope :: string

record oauth_state =
  os_clients :: "(string, oauth_client) dict"
  os_pending_clients :: "(string, pending_client) dict"
  os_pairing_codes :: "(string, pairing_code) dict"
  os_auth_codes :: "(string, auth_code) dict"
  os_access_tokens :: "(string, access_token) dict"
  os_refresh_tokens :: "(string, refresh_token) dict"

definition new_state :: oauth_state where
  "new_state = \<lparr>os_clients = [], os_pending_clients = [], os_pairing_codes = [],
     os_auth_codes = [], os_access_tokens = [], os_refresh_tokens = []\<rparr>"

datatype state_file = Missing | Corrupt | Stored oauth_state

record provider =
  pv_file :: state_file
  pv_state :: oauth_state

record oauth_env =
  oe_allowed_redirect_uri_prefixes :: string
  oe_pending_client_ttl_seconds :: "string option"
  oe_base_url :: string

definition ACCESS_TOKEN_LIFETIME_SECONDS :: int where
  "ACCESS_TOKEN_LIFETIME_SECONDS = 86400 * 30"

definition AUTH_CODE_LIFETIME_SECONDS :: int where
  "AUTH_CODE_LIFETIME_SECONDS = 300"

definition DEFAULT_PAIRING_CODE_TTL_SECONDS :: int where
  "DEFAULT_PAIRING_CODE_TTL_SECONDS = 600"

definition DEFAULT_PENDING_CLIENT_TTL_SECONDS :: int where
  "DEFAULT_PENDING_CLIENT_TTL_SECONDS = 1800"

definition PAIRING_MAX_FAILED_ATTEMPTS :: nat where
  "PAIRING_MAX_FAILED_ATTEMPTS = 5"

definition PAIRING_MIN_ATTEMPT_INTERVAL_SECONDS :: rat where
  "PAIRING_MIN_ATTEMPT_INTERVAL_SECONDS = 1"

definition PAIRING_CODE_ALPHABET :: string where
  "PAIRING_CODE_ALPHABET = ''23456789ABCDEFGHJKLMNPQRSTUVWXYZ''"

section \<open>Helpers\<close>

definition normalize_uri :: "string \<Rightarrow> string" where
  "normalize_uri uri = rstrip_char (CHR ''/'') uri"

definition allowed_redirect_uri_prefixes :: "oauth_env \<Rightarrow> string list" where
  "allowed_redirect_uri_prefixes env =
     filter (\<lambda>u. u \<noteq> '''') (map py_strip (split_on (CHR '','') (oe_allowed_redirect_uri_prefixes env)))"

definition redirect_uri_allowed :: "oauth_env \<Rightarrow> string \<Rightarrow> bool" where
  "redirect_uri_allowed env uri =
     (let allowed = allowed_redirect_uri_prefixes env
      in if allowed = [] then True
         else list_ex (py_startswith (normalize_uri uri)) allowed)"

definition uses_redirect_uri_prefix :: "oauth_client \<Rightarrow> string \<Rightarrow> bool" where
  "uses_redirect_uri_prefix c prefix =
     list_ex (\<lambda>uri. py_startswith (normalize_uri uri) prefix) (oc_redirect_uris c)"

definition pending_client_ttl_seconds :: "oauth_env \<Rightarrow> int" where
  "pending_client_ttl_seconds env =
     (case oe_pending_client_ttl_seconds env of
        None \<Rightarrow> DEFAULT_PENDING_CLIENT_TTL_SECONDS
      | Some raw \<Rightarrow> (case py_int raw of
          None \<Rightarrow> DEFAULT_PENDING_CLIENT_TTL_SECONDS
        | Some value \<Rightarrow> if 0 < value then value else DEFAULT_PENDING_CLIENT_TTL_SECONDS))"

definition require_client_id :: "oauth_client \<Rightarrow> oauth_error + string" where
  "require_client_id c =
     (if oc_client_id c = '''' then Inl (OAuthValueError ''OAuth client_id is required'')
      else Inr (oc_client_id c))"

definition normalize_pairing_code :: "string \<Rightarrow> string" where
  "normalize_pairing_code code = filter py_isalnum (py_upper code)"

fun groups_of_4 :: "string \<Rightarrow> string list" where
  "groups_of_4 s = (if s = [] then [] else take 4 s # groups_of_4 (drop 4 s))"

declare groups_of_4.simps [simp del]

definition format_pairing_code :: "string \<Rightarrow> string" where
  "format_pairing_code code = py_join ''-'' (groups_of_4 (normalize_pairing_code code))"

definition pending_client_record :: "oauth_env \<Rightarrow> rat \<Rightarrow> oauth_client \<Rightarrow> pending_client" where
  "pending_client_record env now c =
     \<lparr>pe_client = c, pe_created_at = now,
      pe_expires_at = now + of_int (pending_client_ttl_seconds env),
      pe_failed_attempts = 0, pe_last_attempt_at = 0\<rparr>"

section \<open>Loading and flushing\<close>

definition load_from_disk :: "provider \<Rightarrow> provider" where
  "load_from_disk p =
     (case pv_file p of Stored st \<Rightarrow> p\<lparr>pv_state := st\<rparr> | Missing \<Rightarrow> p | Corrupt \<Rightarrow> p)"

definition init_provider :: "state_file \<Rightarrow> provider" where
  "init_provider f = load_from_disk \<lparr>pv_file = f, pv_state = new_state\<rparr>"

definition flush :: "provider \<Rightarrow> provider" where
  "flush p = p\<lparr>pv_file := Stored (pv_state p)\<rparr>"

definition on_state :: "(oauth_state \<Rightarrow> oauth_state) \<Rightarrow> provider \<Rightarrow> provider" where
  "on_state f p = p\<lparr>pv_state := f (pv_state p)\<rparr>"

section \<open>Clients and pairing\<close>

definition purge_expired_pairing_codes :: "rat \<Rightarrow> oauth_state \<Rightarrow> oauth_state" where
  "purge_expired_pairing_codes now st =
     st\<lparr>os_pairing_codes := filter (\<lambda>(c, d). \<not> pc_expires_at d < now) (os_pairing_codes st)\<rparr>"

definition expired_pending :: "rat \<Rightarrow> oauth_state \<Rightarrow> string list" where
  "expired_pending now st =
     map fst (filter (\<lambda>(c, d). pe_expires_at d < now) (os_pending_clients st))"

definition purge_expired_pending_clients :: "rat \<Rightarrow> oauth_state \<Rightarrow> oauth_state" where
  "purge_expired_pending_clients now st =
     st\<lparr>os_pending_clients := filter (\<lambda>(c, d). \<not> pe_expires_at d < now) (os_pending_clients st)\<rparr>"

definition get_client :: "string \<Rightarrow> provider \<Rightarrow> oauth_client option \<times> provider" where
  "get_client client_id p =
     (let p = load_from_disk p in (dict_get (os_clients (pv_state p)) client_id, p))"

definition get_pending_client :: "rat \<Rightarrow> string \<Rightarrow> provider \<Rightarrow> oauth_client option \<times> provider" where
  "get_pending_client now client_id p =
     (let p = load_from_disk p;
          purged = length (expired_pending now (pv_state p));
          p = on_state (purge_expired_pending_clients now) p;
          data = dict_get (os_pending_clients (pv_state p)) client_id
      in (map_option pe_client data, if 0 < purged then flush p else p))"

definition create_pairing_code :: "rat \<Rightarrow> string \<Rightarrow> int \<Rightarrow> provider \<Rightarrow>
    (oauth_error + string \<times> rat) \<times> provider" where
  "create_pairing_code now raw_code ttl_seconds p =
     (if ttl_seconds \<le> 0 then (Inl (OAuthValueError ''OAuth pairing code TTL must be positive''), p)
      else
        let code = normalize_pairing_code raw_code;
            expires_at = now + of_int ttl_seconds;
            p = load_from_disk p;
            p = on_state (purge_expired_pairing_codes now) p;
            p = on_state (\<lambda>st. st\<lparr>os_pairing_codes := dict_set code
                  \<lparr>pc_created_at = now, pc_expires_at = expires_at\<rparr> (os_pairing_codes st)\<rparr>) p
        in (Inr (format_pairing_code code, expires_at), flush p))"

definition consume_pairing_code :: "rat \<Rightarrow> string \<Rightarrow> oauth_state \<Rightarrow>
    (oauth_error + unit) \<times> oauth_state" where
  "consume_pairing_code now code st =
     (let st = purge_expired_pairing_codes now st;
          normalized = normalize_pairing_code code
      in if normalized = '''' then (Inl (PairingCodeError ''OAuth pairing code is required''), st)
         else
           let data = dict_get (os_pairing_codes st) normalized;
               st = st\<lparr>os_pairing_codes := dict_pop normalized (os_pairing_codes st)\<rparr>
           in case data of
                None \<Rightarrow> (Inl (PairingCodeError ''OAuth pairing code is invalid or expired''), st)
              | Some d \<Rightarrow>
                  if pc_expires_at d < now
                  then (Inl (PairingCodeError ''OAuth pairing code is invalid or expired''), st)
                  else (Inr (), st))"

definition attempt_too_soon :: "rat \<Rightarrow> pending_client \<Rightarrow> bool" where
  "attempt_too_soon now pending =
     (now - pe_last_attempt_at pending < PAIRING_MIN_ATTEMPT_INTERVAL_SECONDS)"

definition record_failed_pairing_attempt :: "rat \<Rightarrow> pending_client \<Rightarrow> string \<Rightarrow> oauth_state \<Rightarrow>
    bool \<times> oauth_state" where
  "record_failed_pairing_attempt now pending client_id st =
     (let failed_attempts = pe_failed_attempts pending + 1;
          pending' = pending\<lparr>pe_failed_attempts := failed_attempts, pe_last_attempt_at := now\<rparr>;
          st' = st\<lparr>os_pending_clients := dict_set client_id pending' (os_pending_clients st)\<rparr>
      in if PAIRING_MAX_FAILED_ATTEMPTS \<le> failed_attempts
         then (True, st'\<lparr>os_pending_clients := dict_pop client_id (os_pending_clients st')\<rparr>)
         else (False, st'))"

definition register_client :: "oauth_env \<Rightarrow> rat \<Rightarrow> oauth_client \<Rightarrow> provider \<Rightarrow>
    (oauth_error + unit) \<times> provider" where
  "register_client env now c p =
     (if oc_client_id c = ''''
      then (Inl (OAuthValueError ''OAuth client registration requires client_id''), p)
      else
        let redirect_uris = remdups (map normalize_uri (oc_redirect_uris c))
        in if redirect_uris = [] \<or> \<not> list_all (redirect_uri_allowed env) redirect_uris
           then (Inl (RegistrationError ''invalid_redirect_uri''), p)
           else
             let c = (if uses_redirect_uri_prefix c ''https://chatgpt.com/connector/oauth/''
                      then c\<lparr>oc_token_endpoint_auth_method := ''none'', oc_client_secret := None,
                             oc_client_secret_expires_at := None\<rparr> else c);
                 p = load_from_disk p;
                 p = on_state (purge_expired_pending_clients now) p;
                 p = on_state (\<lambda>st. st\<lparr>os_pending_clients := dict_set (oc_client_id c)
                       (pending_client_record env now c) (os_pending_clients st)\<rparr>) p
             in (Inr (), flush p))"

text \<open>The flag tells an activation from the early return for a client already active.\<close>

definition activate_pending_client :: "rat \<Rightarrow> oauth_client \<Rightarrow> string \<Rightarrow> provider \<Rightarrow>
    (oauth_error + bool) \<times> provider" where
  "activate_pending_client now c code p =
     (case require_client_id c of
        Inl e \<Rightarrow> (Inl e, p)
      | Inr client_id \<Rightarrow>
          let p = load_from_disk p in
          case dict_get (os_pending_clients (pv_state p)) client_id of
            None \<Rightarrow>
              if client_id \<in> set (dict_keys (os_clients (pv_state p))) then (Inr False, p)
              else (Inl (PairingCodeError ''OAuth client is not pending pairing''), p)
          | Some _ \<Rightarrow>
              let p = on_state (purge_expired_pending_clients now) p in
              case dict_get (os_pending_clients (pv_state p)) client_id of
                None \<Rightarrow> (Inl (PairingCodeError ''OAuth client pairing request expired''), p)
              | Some pending \<Rightarrow>
                  if attempt_too_soon now pending
                  then (Inl (PairingCodeError
                     ''Too many pairing attempts. Wait a moment and try again.''), p)
                  else (case consume_pairing_code now code (pv_state p) of
                    (Inl e, st) \<Rightarrow>
                      (case record_failed_pairing_attempt now pending client_id st of
                        (blocked, st') \<Rightarrow>
                          (Inl (if blocked then PairingCodeError
                             ''Too many invalid pairing attempts. Start pairing again.'' else e),
                           flush (p\<lparr>pv_state := st'\<rparr>)))
                  | (Inr _, st) \<Rightarrow>
                      (Inr True, flush (p\<lparr>pv_state := st\<lparr>
                         os_clients := dict_set client_id (pe_client pending) (os_clients st),
                         os_pending_clients := dict_pop client_id (os_pending_clients st)\<rparr>\<rparr>))))"

section \<open>Authorization codes\<close>

record authorize_params =
  ap_redirect_uri :: string
  ap_redirect_uri_provided_explicitly :: bool
  ap_scopes :: "string list option"
  ap_code_challenge :: string
  ap_resource :: "string option"
  ap_state :: "string option"

definition make_auth_code :: "rat \<Rightarrow> string \<Rightarrow> string \<Rightarrow> authorize_params \<Rightarrow> auth_code" where
  "make_auth_code now code client_id params =
     \<lparr>ac_code = code,
      ac_scopes = (case ap_scopes params of None \<Rightarrow> [''dotmd'']
                   | Some s \<Rightarrow> if s = [] then [''dotmd''] else s),
      ac_expires_at = now + of_int AUTH_CODE_LIFETIME_SECONDS,
      ac_client_id = client_id, ac_code_challenge = ap_code_challenge params,
      ac_redirect_uri = ap_redirect_uri params,
      ac_redirect_uri_provided_explicitly = ap_redirect_uri_provided_explicitly params,
      ac_resource = ap_resource params\<rparr>"

text \<open>
  \<open>construct_redirect_uri\<close> belongs to the \<open>mcp\<close> library: the argument \<open>construct_uri\<close>,
  of the redirect URI, the code, the state and the issuer.
\<close>

definition authorize :: "oauth_env \<Rightarrow>
    (string \<Rightarrow> string \<Rightarrow> string option \<Rightarrow> string option \<Rightarrow> string) \<Rightarrow> rat \<Rightarrow> string \<Rightarrow>
    oauth_client \<Rightarrow> authorize_params \<Rightarrow> provider \<Rightarrow> (oauth_error + string) \<times> provider" where
  "authorize env construct_uri now code c params p =
     (case require_client_id c of
        Inl e \<Rightarrow> (Inl e, p)
      | Inr client_id \<Rightarrow>
          let client_redirects = map normalize_uri (oc_redirect_uris c);
              redirect_uri = normalize_uri (ap_redirect_uri params)
          in if redirect_uri \<notin> set client_redirects \<or> \<not> redirect_uri_allowed env redirect_uri
             then (Inl (AuthorizeError ''unauthorized_client''), p)
             else
               let p = load_from_disk p;
                   p = on_state (\<lambda>st. st\<lparr>os_auth_codes := dict_set code
                         (make_auth_code now code client_id params) (os_auth_codes st)\<rparr>) p;
                   issuer = rstrip_char (CHR ''/'') (oe_base_url env)
               in (Inr (construct_uri (ap_redirect_uri params) code (ap_state params)
                          (if issuer \<noteq> '''' then Some issuer else None)), flush p))"

definition load_authorization_code ::
  "oauth_client \<Rightarrow> string \<Rightarrow> provider \<Rightarrow> auth_code option \<times> provider" where
  "load_authorization_code c code p =
     (let p = load_from_disk p in (dict_get (os_auth_codes (pv_state p)) code, p))"

section \<open>Tokens\<close>

definition add_tokens :: "access_token \<Rightarrow> refresh_token \<Rightarrow> oauth_state \<Rightarrow> oauth_state" where
  "add_tokens a r st =
     st\<lparr>os_access_tokens := dict_set (at_token a) a (os_access_tokens st),
        os_refresh_tokens := dict_set (rt_token r) r (os_refresh_tokens st)\<rparr>"

definition bearer :: "string \<Rightarrow> string \<Rightarrow> string list \<Rightarrow> oauth_token" where
  "bearer access refresh scopes =
     \<lparr>ot_access_token = access, ot_token_type = ''Bearer'',
      ot_expires_in = ACCESS_TOKEN_LIFETIME_SECONDS, ot_refresh_token = refresh,
      ot_scope = py_join '' '' scopes\<rparr>"

definition exchange_authorization_code :: "rat \<Rightarrow> string \<Rightarrow> string \<Rightarrow> oauth_client \<Rightarrow> auth_code \<Rightarrow>
    provider \<Rightarrow> (oauth_error + oauth_token) \<times> provider" where
  "exchange_authorization_code now access refresh c ac p =
     (case require_client_id c of
        Inl e \<Rightarrow> (Inl e, p)
      | Inr client_id \<Rightarrow>
          let exp = \<lfloor>now\<rfloor> + ACCESS_TOKEN_LIFETIME_SECONDS;
              a = \<lparr>at_token = access, at_client_id = client_id, at_scopes = ac_scopes ac,
                   at_expires_at = Some exp, at_resource = ac_resource ac\<rparr>;
              r = \<lparr>rt_token = refresh, rt_client_id = client_id, rt_scopes = ac_scopes ac\<rparr>;
              p = load_from_disk p;
              p = on_state (\<lambda>st. st\<lparr>os_auth_codes := dict_pop (ac_code ac) (os_auth_codes st)\<rparr>) p;
              p = on_state (add_tokens a r) p
          in (Inr (bearer access refresh (ac_scopes ac)), flush p))"

definition load_refresh_token ::
  "oauth_client \<Rightarrow> string \<Rightarrow> provider \<Rightarrow> refresh_token option \<times> provider" where
  "load_refresh_token c token p =
     (let p = load_from_disk p in (dict_get (os_refresh_tokens (pv_state p)) token, p))"

definition exchange_refresh_token :: "rat \<Rightarrow> string \<Rightarrow> string \<Rightarrow> oauth_client \<Rightarrow> refresh_token \<Rightarrow>
    string list \<Rightarrow> provider \<Rightarrow> (oauth_error + oauth_token) \<times> provider" where
  "exchange_refresh_token now new_access new_refresh c rt scopes p =
     (case require_client_id c of
        Inl e \<Rightarrow> (Inl e, p)
      | Inr client_id \<Rightarrow>
          let exp = \<lfloor>now\<rfloor> + ACCESS_TOKEN_LIFETIME_SECONDS;
              issued_scopes = (if scopes \<noteq> [] then scopes else rt_scopes rt);
              a = \<lparr>at_token = new_access, at_client_id = client_id, at_scopes = issued_scopes,
                   at_expires_at = Some exp, at_resource = None\<rparr>;
              r = \<lparr>rt_token = new_refresh, rt_client_id = client_id, rt_scopes = issued_scopes\<rparr>;
              p = load_from_disk p;
              p = on_state (\<lambda>st. st\<lparr>os_refresh_tokens := dict_pop (rt_token rt) (os_refresh_tokens st)\<rparr>) p;
              p = on_state (add_tokens a r) p
          in (Inr (bearer new_access new_refresh issued_scopes), flush p))"

definition load_access_token :: "rat \<Rightarrow> string \<Rightarrow> provider \<Rightarrow> access_token option \<times> provider" where
  "load_access_token now token p =
     (let p = load_from_disk p in
      (case dict_get (os_access_tokens (pv_state p)) token of
         None \<Rightarrow> None
       | Some a \<Rightarrow> (case at_expires_at a of
           None \<Rightarrow> Some a
         | Some e \<Rightarrow> if e \<noteq> 0 \<and> of_int e < now then None else Some a), p))"

definition revoke_token :: "string \<Rightarrow> provider \<Rightarrow> provider" where
  "revoke_token token p =
     (let p = load_from_disk p;
          p = on_state (\<lambda>st. st\<lparr>os_access_tokens := dict_pop token (os_access_tokens st)\<rparr>) p;
          p = on_state (\<lambda>st. st\<lparr>os_refresh_tokens := dict_pop token (os_refresh_tokens st)\<rparr>) p
      in flush p)"

end
