(* ===== verification/OAuth_Laws.thy ===== *)
theory OAuth_Laws
  imports OAuth
begin

text \<open>
  The provider as a state machine: every operation, restarts, and the loss or damage
  of the state file are its steps, each with the event it shows.  The invariants say
  pairing codes cannot be guessed at length and admit one client each; further
  lemmas follow single codes and tokens through their life.
\<close>

section \<open>Steps\<close>

datatype oauth_event = Created | Activated | Silent

definition created_event :: "'e + 'a \<Rightarrow> oauth_event" where
  "created_event r = (case r of Inl _ \<Rightarrow> Silent | Inr _ \<Rightarrow> Created)"

definition activated_event :: "'e + bool \<Rightarrow> oauth_event" where
  "activated_event r = (case r of Inl _ \<Rightarrow> Silent | Inr b \<Rightarrow> if b then Activated else Silent)"

inductive oauth_step :: "provider \<Rightarrow> oauth_event \<Rightarrow> provider \<Rightarrow> bool" where
  file_lost: "f \<in> {Missing, Corrupt} \<Longrightarrow> oauth_step p Silent (p\<lparr>pv_file := f\<rparr>)"
| restart: "oauth_step p Silent (init_provider (pv_file p))"
| read_client: "get_client cid p = (r, p') \<Longrightarrow> oauth_step p Silent p'"
| read_pending: "get_pending_client now cid p = (r, p') \<Longrightarrow> oauth_step p Silent p'"
| create_code: "create_pairing_code now raw ttl p = (r, p') \<Longrightarrow> oauth_step p (created_event r) p'"
| register: "register_client env now c p = (r, p') \<Longrightarrow> oauth_step p Silent p'"
| activate: "activate_pending_client now c code p = (a, p') \<Longrightarrow> oauth_step p (activated_event a) p'"
| authorization: "authorize env f now code c params p = (r, p') \<Longrightarrow> oauth_step p Silent p'"
| read_code: "load_authorization_code c code p = (x, p') \<Longrightarrow> oauth_step p Silent p'"
| exchange_code: "exchange_authorization_code now acc ref c ac p = (t, p') \<Longrightarrow> oauth_step p Silent p'"
| read_refresh: "load_refresh_token c token p = (y, p') \<Longrightarrow> oauth_step p Silent p'"
| exchange_refresh: "exchange_refresh_token now acc ref c rt scopes p = (t, p') \<Longrightarrow> oauth_step p Silent p'"
| read_access: "load_access_token now token p = (z, p') \<Longrightarrow> oauth_step p Silent p'"
| revoke: "oauth_step p Silent (revoke_token token p)"

inductive_cases oauth_stepE: "oauth_step p e p'"

inductive oauth_run :: "oauth_event list \<Rightarrow> provider \<Rightarrow> bool" where
  start: "oauth_run [] (init_provider Missing)"
| step: "oauth_run evs p \<Longrightarrow> oauth_step p e p' \<Longrightarrow> oauth_run (evs @ [e]) p'"

section \<open>Invariants of memory and file\<close>

definition provider_all :: "(oauth_state \<Rightarrow> bool) \<Rightarrow> provider \<Rightarrow> bool" where
  "provider_all P p \<longleftrightarrow> P (pv_state p) \<and> (\<forall>st. pv_file p = Stored st \<longrightarrow> P st)"

lemma provider_all_load: "provider_all P p \<Longrightarrow> provider_all P (load_from_disk p)"
  by (auto simp: provider_all_def load_from_disk_def split: state_file.splits)

lemma provider_all_state: "provider_all P p \<Longrightarrow> P (pv_state p)"
  by (simp add: provider_all_def)

lemma provider_all_flush: "P (pv_state p) \<Longrightarrow> provider_all P (flush p)"
  by (simp add: provider_all_def flush_def)

lemma provider_all_on_state:
  "provider_all P p \<Longrightarrow> P (f (pv_state p)) \<Longrightarrow> provider_all P (on_state f p)"
  by (simp add: provider_all_def on_state_def)

lemma pv_state_on_state [simp]: "pv_state (on_state f p) = f (pv_state p)"
  by (simp add: on_state_def)

lemma pv_state_flush [simp]: "pv_state (flush p) = pv_state p"
  by (simp add: flush_def)

lemma pv_file_flush [simp]: "pv_file (flush p) = Stored (pv_state p)"
  by (simp add: flush_def)

lemma load_flush [simp]: "load_from_disk (flush p) = flush p"
  by (simp add: load_from_disk_def flush_def)

text \<open>At most \<open>n\<close> pairing codes are open, and no pending client has used up its attempts.\<close>

definition pairing_ok :: "nat \<Rightarrow> oauth_state \<Rightarrow> bool" where
  "pairing_ok n st \<longleftrightarrow> length (os_pairing_codes st) \<le> n
     \<and> (\<forall>(c, d) \<in> set (os_pending_clients st). pe_failed_attempts d < PAIRING_MAX_FAILED_ATTEMPTS)"

lemma length_dict_pop_less: "k \<in> set (dict_keys d) \<Longrightarrow> length (dict_pop k d) < length d"
  by (auto simp: dict_pop_filter intro!: length_filter_less)

lemma ball_dict_set_pending:
  "\<forall>(c, d) \<in> set ps. P d \<Longrightarrow> P v \<Longrightarrow> \<forall>(c, d) \<in> set (dict_set k v ps). P d"
  using set_dict_set_subset [of k v ps] by auto

lemma pairing_ok_purge [intro]:
  "pairing_ok n st \<Longrightarrow> pairing_ok n (purge_expired_pairing_codes now st)"
  "pairing_ok n st \<Longrightarrow> pairing_ok n (purge_expired_pending_clients now st)"
  by (auto simp: pairing_ok_def purge_expired_pairing_codes_def purge_expired_pending_clients_def
      intro: order_trans [OF length_filter_le])

lemma pairing_ok_tokens [simp]:
  "pairing_ok n (add_tokens a r st) = pairing_ok n st"
  "pairing_ok n (st\<lparr>os_auth_codes := x\<rparr>) = pairing_ok n st"
  "pairing_ok n (st\<lparr>os_access_tokens := y\<rparr>) = pairing_ok n st"
  "pairing_ok n (st\<lparr>os_refresh_tokens := z\<rparr>) = pairing_ok n st"
  "pairing_ok n (st\<lparr>os_clients := cl\<rparr>) = pairing_ok n st"
  by (simp_all add: pairing_ok_def add_tokens_def)

lemma pairing_ok_add_pending:
  "pairing_ok n st \<Longrightarrow> pe_failed_attempts d < PAIRING_MAX_FAILED_ATTEMPTS \<Longrightarrow>
     pairing_ok n (st\<lparr>os_pending_clients := dict_set c d (os_pending_clients st)\<rparr>)"
  by (auto simp: pairing_ok_def intro!: ball_dict_set_pending
      dest!: subsetD [OF set_dict_set_subset])

lemma pairing_ok_pop_pending:
  "pairing_ok n st \<Longrightarrow> pairing_ok n (st\<lparr>os_pending_clients := dict_pop c (os_pending_clients st)\<rparr>)"
  by (auto simp: pairing_ok_def dict_pop_filter)

lemma pairing_ok_create:
  "pairing_ok n st \<Longrightarrow> pairing_ok (Suc n) (st\<lparr>os_pairing_codes := dict_set k v (os_pairing_codes st)\<rparr>)"
  by (auto simp: pairing_ok_def length_dict_set)

lemma consume_pairing_ok:
  assumes "pairing_ok n st" and "consume_pairing_code now code st = (r, st')"
  shows "pairing_ok n st' \<and> (r = Inr () \<longrightarrow> 0 < n \<and> pairing_ok (n - 1) st')"
proof -
  let ?st = "purge_expired_pairing_codes now st"
  let ?k = "normalize_pairing_code code"
  let ?st' = "?st\<lparr>os_pairing_codes := dict_pop ?k (os_pairing_codes ?st)\<rparr>"
  have ok: "pairing_ok n ?st" using assms(1) by blast
  have le: "length (dict_pop ?k (os_pairing_codes ?st)) \<le> length (os_pairing_codes ?st)"
    by (simp add: dict_pop_filter)
  with ok have popped: "pairing_ok n ?st'" by (auto simp: pairing_ok_def)
  show ?thesis
  proof (cases "?k = '''' \<or> dict_get (os_pairing_codes ?st) ?k = None")
    case True
    with assms(2) ok popped show ?thesis
      by (auto simp: consume_pairing_code_def Let_def split: if_splits option.splits)
  next
    case False
    then have "?k \<in> set (dict_keys (os_pairing_codes ?st))" by (metis dict_get_None_iff)
    then have "length (dict_pop ?k (os_pairing_codes ?st)) < length (os_pairing_codes ?st)"
      by (rule length_dict_pop_less)
    with ok have "0 < n \<and> pairing_ok (n - 1) ?st'" by (auto simp: pairing_ok_def)
    moreover have "st' = ?st'" using assms(2) False
      by (auto simp: consume_pairing_code_def Let_def split: if_splits option.splits)
    ultimately show ?thesis using popped by simp
  qed
qed

lemma record_failed_ok:
  assumes "pairing_ok n st" and "record_failed_pairing_attempt now pending cid st = (b, st')"
  shows "pairing_ok n st'"
proof -
  let ?p = "pending\<lparr>pe_failed_attempts := pe_failed_attempts pending + 1, pe_last_attempt_at := now\<rparr>"
  let ?st = "st\<lparr>os_pending_clients := dict_set cid ?p (os_pending_clients st)\<rparr>"
  show ?thesis
  proof (cases "PAIRING_MAX_FAILED_ATTEMPTS \<le> pe_failed_attempts pending + 1")
    case True
    have "set (dict_pop cid (dict_set cid ?p (os_pending_clients st))) \<subseteq> set (os_pending_clients st)"
      using set_dict_set_subset [of cid ?p "os_pending_clients st"] by (auto simp: dict_pop_filter)
    with assms(1) have "pairing_ok n (?st\<lparr>os_pending_clients :=
        dict_pop cid (dict_set cid ?p (os_pending_clients st))\<rparr>)"
      unfolding pairing_ok_def by auto
    with True assms(2) show ?thesis by (auto simp: record_failed_pairing_attempt_def Let_def)
  next
    case False
    then have "pairing_ok n ?st" using assms(1) by (intro pairing_ok_add_pending) auto
    with False assms(2) show ?thesis by (auto simp: record_failed_pairing_attempt_def Let_def)
  qed
qed

definition after_event :: "oauth_event \<Rightarrow> nat \<Rightarrow> nat" where
  "after_event e n = (case e of Created \<Rightarrow> n + 1 | Activated \<Rightarrow> n - 1 | Silent \<Rightarrow> n)"

lemma activate_ok:
  assumes ok: "provider_all (pairing_ok n) p"
    and run: "activate_pending_client now c code p = (r, p')"
  shows "provider_all (pairing_ok (after_event (activated_event r) n)) p'
     \<and> (activated_event r = Activated \<longrightarrow> 0 < n)"
proof -
  note events = after_event_def activated_event_def
  define q where "q = load_from_disk p"
  have q: "provider_all (pairing_ok n) q" unfolding q_def using ok by (rule provider_all_load)
  show ?thesis
  proof (cases "require_client_id c")
    case (Inl e)
    with run ok show ?thesis by (auto simp: activate_pending_client_def events)
  next
    case (Inr cid)
    show ?thesis
    proof (cases "dict_get (os_pending_clients (pv_state q)) cid")
      case None
      with run Inr q show ?thesis
        by (auto simp: activate_pending_client_def events q_def [symmetric] Let_def split: if_splits)
    next
      case (Some x)
      define q2 where "q2 = on_state (purge_expired_pending_clients now) q"
      have q2: "provider_all (pairing_ok n) q2" unfolding q2_def
        using q by (intro provider_all_on_state) (auto dest: provider_all_state)
      show ?thesis
      proof (cases "dict_get (os_pending_clients (pv_state q2)) cid")
        case None
        with run Inr Some q2 show ?thesis
          by (auto simp: activate_pending_client_def events q_def [symmetric] q2_def [symmetric] Let_def)
      next
        case pending: (Some pending)
        show ?thesis
        proof (cases "attempt_too_soon now pending")
          case True
          with run Inr Some pending q2 show ?thesis
            by (auto simp: activate_pending_client_def events q_def [symmetric] q2_def [symmetric] Let_def)
        next
          case False
          obtain cr st where cons: "consume_pairing_code now code (pv_state q2) = (cr, st)" by fastforce
          note st = consume_pairing_ok [OF provider_all_state [OF q2] cons]
          show ?thesis
          proof (cases cr)
            case (Inl e)
            obtain b st' where rec: "record_failed_pairing_attempt now pending cid st = (b, st')"
              by fastforce
            from record_failed_ok [OF conjunct1 [OF st] rec] have "pairing_ok n st'" .
            with run Inr Some pending False cons Inl rec show ?thesis
              by (auto simp: activate_pending_client_def events q_def [symmetric] q2_def [symmetric]
                  Let_def intro!: provider_all_flush)
          next
            case ok: (Inr u)
            with st have "0 < n" "pairing_ok (n - 1) st" by auto
            from pairing_ok_pop_pending [OF this(2), of cid]
            have "pairing_ok (n - 1) (st\<lparr>os_clients := dict_set cid (pe_client pending) (os_clients st),
                os_pending_clients := dict_pop cid (os_pending_clients st)\<rparr>)"
              by (simp add: pairing_ok_def)
            with run Inr Some pending False cons ok \<open>0 < n\<close> show ?thesis
              by (auto simp: activate_pending_client_def events q_def [symmetric] q2_def [symmetric]
                  Let_def intro!: provider_all_flush)
          qed
        qed
      qed
    qed
  qed
qed

lemma create_ok:
  assumes "provider_all (pairing_ok n) p" and "create_pairing_code now raw ttl p = (r, p')"
  shows "provider_all (pairing_ok (after_event (created_event r) n)) p'"
proof (cases "ttl \<le> 0")
  case True
  with assms show ?thesis by (auto simp: create_pairing_code_def created_event_def after_event_def)
next
  case False
  have "pairing_ok n (pv_state (load_from_disk p))"
    using assms(1) by (blast intro: provider_all_state provider_all_load)
  then have "pairing_ok n (purge_expired_pairing_codes now (pv_state (load_from_disk p)))" by blast
  from pairing_ok_create [OF this] False assms(2) show ?thesis
    by (auto simp: create_pairing_code_def created_event_def after_event_def Let_def
        intro!: provider_all_flush)
qed

lemma register_ok:
  assumes ok: "provider_all (pairing_ok n) p" and run: "register_client env now c p = (r, p')"
  shows "provider_all (pairing_ok n) p'"
proof -
  have "pairing_ok n (pv_state (load_from_disk p))"
    using ok by (blast intro: provider_all_state provider_all_load)
  then have "pairing_ok n (purge_expired_pending_clients now (pv_state (load_from_disk p)))" by blast
  then have "pairing_ok n ((purge_expired_pending_clients now (pv_state (load_from_disk p)))
      \<lparr>os_pending_clients := dict_set k (pending_client_record env now c')
         (os_pending_clients (purge_expired_pending_clients now (pv_state (load_from_disk p))))\<rparr>)"
    for k c'
    by (rule pairing_ok_add_pending) (simp add: pending_client_record_def PAIRING_MAX_FAILED_ATTEMPTS_def)
  then show ?thesis using ok run
    by (auto simp: register_client_def Let_def intro!: provider_all_flush split: if_splits)
qed

lemma oauth_step_ok:
  assumes "oauth_step p e p'" and ok: "provider_all (pairing_ok n) p"
  shows "provider_all (pairing_ok (after_event e n)) p' \<and> (e = Activated \<longrightarrow> 0 < n)"
  using assms(1)
proof cases
  case file_lost
  with ok show ?thesis by (auto simp: provider_all_def after_event_def)
next
  case restart
  have "pairing_ok n new_state" by (simp add: pairing_ok_def new_state_def)
  with ok restart show ?thesis
    by (auto simp: provider_all_def init_provider_def load_from_disk_def after_event_def
        split: state_file.splits)
next
  case (read_pending now cid r)
  have "provider_all (pairing_ok n) (load_from_disk p)" using ok by (rule provider_all_load)
  then have "provider_all (pairing_ok n) (on_state (purge_expired_pending_clients now) (load_from_disk p))"
    by (intro provider_all_on_state) (auto dest: provider_all_state)
  with read_pending show ?thesis
    by (auto simp: get_pending_client_def Let_def after_event_def
        intro!: provider_all_flush dest: provider_all_state split: if_splits)
next
  case create_code
  with create_ok ok show ?thesis by (auto simp: created_event_def split: sum.splits)
next
  case register
  with register_ok ok show ?thesis by (auto simp: after_event_def)
next
  case activate
  with activate_ok ok show ?thesis by auto
next
  case authorization
  from ok have "pairing_ok n (pv_state (load_from_disk p))"
    by (blast intro: provider_all_state provider_all_load)
  with ok authorization show ?thesis
    by (auto simp: authorize_def Let_def after_event_def intro!: provider_all_flush
        split: sum.splits if_splits)
next
  case exchange_code
  from ok have "pairing_ok n (pv_state (load_from_disk p))"
    by (blast intro: provider_all_state provider_all_load)
  with ok exchange_code show ?thesis
    by (auto simp: exchange_authorization_code_def Let_def after_event_def intro!: provider_all_flush
        split: sum.splits)
next
  case exchange_refresh
  from ok have "pairing_ok n (pv_state (load_from_disk p))"
    by (blast intro: provider_all_state provider_all_load)
  with ok exchange_refresh show ?thesis
    by (auto simp: exchange_refresh_token_def Let_def after_event_def intro!: provider_all_flush
        split: sum.splits)
next
  case revoke
  from ok have "pairing_ok n (pv_state (load_from_disk p))"
    by (blast intro: provider_all_state provider_all_load)
  with revoke show ?thesis
    by (auto simp: revoke_token_def Let_def after_event_def intro!: provider_all_flush)
qed (use ok in \<open>auto simp: get_client_def load_authorization_code_def load_refresh_token_def
      load_access_token_def Let_def after_event_def intro!: provider_all_load\<close>)

lemma oauth_run_ok:
  "oauth_run evs p \<Longrightarrow> count_list evs Activated \<le> count_list evs Created
     \<and> provider_all (pairing_ok (count_list evs Created - count_list evs Activated)) p"
proof (induction rule: oauth_run.induct)
  case start
  show ?case
    by (simp add: provider_all_def init_provider_def load_from_disk_def pairing_ok_def new_state_def)
next
  case (step evs p e p')
  let ?n = "count_list evs Created - count_list evs Activated"
  have "provider_all (pairing_ok (after_event e ?n)) p' \<and> (e = Activated \<longrightarrow> 0 < ?n)"
    using step.hyps(2) step.IH by (intro oauth_step_ok) auto
  with step.IH show ?case
    by (cases e) (auto simp: after_event_def Suc_diff_le)
qed

text \<open>C29: A pairing code admits at most one client: in every run of the provider, across
  restarts and losses of the state file, no more clients are activated than pairing
  codes were created.\<close>

theorem activations_need_codes:
  "oauth_run evs p \<Longrightarrow> count_list evs Activated \<le> count_list evs Created"
  by (rule conjunct1 [OF oauth_run_ok])

text \<open>C38: Guessing is bounded: no pending client, in memory or in the file, ever has as many
  as five failed pairing attempts on record; the fifth failure removes it.\<close>

theorem pairing_attempts_bounded:
  assumes "oauth_run evs p" and "pv_file p = Stored st \<or> pv_state p = st"
    and "(cid, pending) \<in> set (os_pending_clients st)"
  shows "pe_failed_attempts pending < 5"
  using oauth_run_ok [OF assms(1)] assms(2,3)
  by (auto simp: provider_all_def pairing_ok_def PAIRING_MAX_FAILED_ATTEMPTS_def)

section \<open>A sample pairing\<close>

definition sample_client :: oauth_client where
  "sample_client = \<lparr>oc_client_id = ''c1'', oc_redirect_uris = [''https://app.example/cb/''],
     oc_client_secret = Some ''s'', oc_client_secret_expires_at = None,
     oc_token_endpoint_auth_method = ''client_secret_post''\<rparr>"

definition sample_env :: oauth_env where
  "sample_env = \<lparr>oe_allowed_redirect_uri_prefixes = ''https://app.example, '',
     oe_pending_client_ttl_seconds = None, oe_base_url = ''https://dotmd.example/''\<rparr>"

definition sample_created :: provider where
  "sample_created = snd (create_pairing_code 10 ''ABCD2345'' 600 (init_provider Missing))"

definition sample_registered :: provider where
  "sample_registered = snd (register_client sample_env 11 sample_client sample_created)"

definition sample_failed :: provider where
  "sample_failed = snd (activate_pending_client 12 sample_client ''wrong'' sample_registered)"

definition sample_activated :: provider where
  "sample_activated = snd (activate_pending_client 20 sample_client ''abcd-2345'' sample_failed)"

lemma sample_results:
  "fst (create_pairing_code 10 ''ABCD2345'' 600 (init_provider Missing)) = Inr (''ABCD-2345'', 610)"
  "fst (activate_pending_client 12 sample_client ''wrong'' sample_registered)
     = Inl (PairingCodeError ''OAuth pairing code is invalid or expired'')"
  "fst (activate_pending_client 20 sample_client ''abcd-2345'' sample_failed) = Inr True"
  by code_simp+

lemma sample_steps:
  "create_pairing_code 10 ''ABCD2345'' 600 (init_provider Missing)
     = (Inr (''ABCD-2345'', 610), sample_created)"
  "activate_pending_client 12 sample_client ''wrong'' sample_registered
     = (Inl (PairingCodeError ''OAuth pairing code is invalid or expired''), sample_failed)"
  "activate_pending_client 20 sample_client ''abcd-2345'' sample_failed = (Inr True, sample_activated)"
  using sample_results by (simp_all add: sample_created_def sample_activated_def prod_eq_iff)
    (simp add: sample_failed_def)

lemma sample_run_failed: "oauth_run [Created, Silent, Silent] sample_failed"
proof -
  obtain r where reg: "register_client sample_env 11 sample_client sample_created = (r, sample_registered)"
    by (simp add: sample_registered_def prod_eq_iff)
  from oauth_run.step [OF oauth_run.step [OF oauth_run.step [OF oauth_run.start
      oauth_step.create_code [OF sample_steps(1)]] oauth_step.register [OF reg]]
      oauth_step.activate [OF sample_steps(2)]]
  show ?thesis by (simp add: created_event_def activated_event_def)
qed

lemma sample_run: "oauth_run [Created, Silent, Silent, Activated] sample_activated"
  using oauth_run.step [OF sample_run_failed oauth_step.activate [OF sample_steps(3)]]
  by (simp add: activated_event_def)

theorem activations_need_codes_witness:
  "count_list [Created, Silent, Silent, Activated] Activated
     \<le> count_list [Created, Silent, Silent, Activated] Created"
  by (rule activations_need_codes [OF sample_run])

theorem pairing_attempts_bounded_witness:
  "\<exists>pending. (''c1'', pending) \<in> set (os_pending_clients (pv_state sample_failed))
     \<and> pe_failed_attempts pending = 1 \<and> pe_failed_attempts pending < 5"
proof -
  have "map (\<lambda>(c, d). (c, pe_failed_attempts d)) (os_pending_clients (pv_state sample_failed))
      = [(''c1'', 1)]"
    by code_simp
  then obtain pending where "(''c1'', pending) \<in> set (os_pending_clients (pv_state sample_failed))"
    and "pe_failed_attempts pending = 1" by (auto simp: map_eq_Cons_conv)
  with pairing_attempts_bounded [OF sample_run_failed, of "pv_state sample_failed" "''c1''" pending]
  show ?thesis by auto
qed

section \<open>The displayed code is the stored code\<close>

lemma upper_upper: "concat (map upper_char (upper_char c)) = upper_char c"
proof -
  define n where "n = (of_char c :: nat)"
  have c: "c = char_of n" and n: "n < 256" by (simp_all add: n_def)
  have of_n: "of_char (char_of m :: char) = m" if "m < 256" for m :: nat
    using that by simp
  show ?thesis
    unfolding c using n by (auto simp: upper_char_def Let_def of_n)
qed

lemma py_upper_append [simp]: "py_upper (s @ t) = py_upper s @ py_upper t"
  by (simp add: py_upper_def)

lemma py_upper_idem: "py_upper (py_upper s) = py_upper s"
  by (induction s) (simp_all add: py_upper_def upper_upper)

lemma concat_groups_of_4: "concat (groups_of_4 s) = s"
proof (induction s rule: groups_of_4.induct)
  case (1 s)
  then show ?case by (cases "s = []") (simp_all add: groups_of_4.simps)
qed

lemma filter_py_join: "\<not> P c \<Longrightarrow> filter P (py_join [c] ss) = concat (map (filter P) ss)"
  by (induction "[c]" ss rule: py_join.induct) auto

lemma py_upper_join: "upper_char c = [c] \<Longrightarrow> py_upper (py_join [c] ss) = py_join [c] (map py_upper ss)"
  by (induction "[c]" ss rule: py_join.induct) (auto simp: py_upper_def)

lemma filter_upper_concat: "concat (map (filter P \<circ> py_upper) ss) = filter P (py_upper (concat ss))"
  by (induction ss) (auto simp: py_upper_def)

lemma upper_of_upper_member:
  assumes "c \<in> set (py_upper s)"
  shows "upper_char c = [c]"
proof -
  from assms obtain x where x: "x \<in> set s" "c \<in> set (upper_char x)"
    by (auto simp: py_upper_def)
  have len: "length (upper_char x) = 1 \<or> upper_char x = ''SS''"
    by (auto simp: upper_char_def Let_def)
  then show ?thesis
  proof
    assume "length (upper_char x) = 1"
    then obtain y where y: "upper_char x = [y]" by (auto simp: length_Suc_conv)
    with x upper_upper [of x] show ?thesis by simp
  next
    assume "upper_char x = ''SS''"
    with x have "c = CHR ''S''" by simp
    then show ?thesis by (simp add: upper_char_def)
  qed
qed

lemma py_upper_fixed: "\<forall>c \<in> set s. upper_char c = [c] \<Longrightarrow> py_upper s = s"
  by (induction s) (auto simp: py_upper_def)

lemma normalize_format: "normalize_pairing_code (format_pairing_code code) = normalize_pairing_code code"
proof -
  let ?n = "normalize_pairing_code code"
  have "upper_char (CHR ''-'') = ''-''" and dash: "\<not> py_isalnum (CHR ''-'')"
    by (simp_all add: upper_char_def py_isalnum_def py_isword_def)
  then have "py_upper (format_pairing_code code) = py_join ''-'' (map py_upper (groups_of_4 ?n))"
    unfolding format_pairing_code_def by (intro py_upper_join)
  then have "normalize_pairing_code (format_pairing_code code)
      = filter py_isalnum (py_upper (concat (groups_of_4 ?n)))"
    using dash by (simp add: normalize_pairing_code_def [of "format_pairing_code code"]
        filter_py_join filter_upper_concat)
  also have "\<dots> = filter py_isalnum (py_upper ?n)" by (simp add: concat_groups_of_4)
  also have "py_upper ?n = ?n"
    by (rule py_upper_fixed) (auto simp: normalize_pairing_code_def dest: upper_of_upper_member)
  also have "filter py_isalnum ?n = ?n" by (simp add: normalize_pairing_code_def)
  finally show ?thesis .
qed

lemma normalize_nonempty_id:
  "normalize_pairing_code (normalize_pairing_code code) = normalize_pairing_code code"
proof -
  have "py_upper (normalize_pairing_code code) = normalize_pairing_code code"
    by (rule py_upper_fixed) (auto simp: normalize_pairing_code_def dest: upper_of_upper_member)
  then show ?thesis by (simp add: normalize_pairing_code_def [of "normalize_pairing_code code"])
    (simp add: normalize_pairing_code_def)
qed

text \<open>C39: The pairing code shown to the user activates a pending client: typed back as it was
  displayed, before it expires and not within a second of a failed attempt, it makes
  the client active and no longer pending.  The activation is made on the state right after the
  code was created.\<close>

theorem displayed_code_activates:
  assumes created: "create_pairing_code now raw ttl p = (Inr (shown, expiry), p1)"
    and raw: "normalize_pairing_code raw \<noteq> ''''"
    and cid: "oc_client_id c \<noteq> ''''"
    and pending: "dict_get (os_pending_clients (pv_state p1)) (oc_client_id c) = Some pe"
    and alive: "\<not> pe_expires_at pe < t" "t \<le> expiry" "\<not> attempt_too_soon t pe"
    and unique: "dict_ok (os_pending_clients (pv_state p1))" "dict_ok (os_pairing_codes (pv_state p1))"
  shows "\<exists>p2. activate_pending_client t c shown p1 = (Inr True, p2)
     \<and> fst (get_client (oc_client_id c) p2) = Some (pe_client pe)
     \<and> fst (get_pending_client t (oc_client_id c) p2) = None"
proof -
  let ?k = "normalize_pairing_code raw"
  have loaded: "load_from_disk p1 = p1" and shown: "shown = format_pairing_code ?k"
    and code: "dict_get (os_pairing_codes (pv_state p1)) ?k
        = Some \<lparr>pc_created_at = now, pc_expires_at = expiry\<rparr>"
    using created by (auto simp: create_pairing_code_def Let_def split: if_splits)
  have norm: "normalize_pairing_code shown = ?k"
    by (simp add: shown normalize_format normalize_nonempty_id)
  define st where "st = purge_expired_pending_clients t (pv_state p1)"
  have pend: "dict_get (os_pending_clients st) (oc_client_id c) = Some pe"
    using pending alive(1) unique(1)
    by (simp add: st_def purge_expired_pending_clients_def dict_get_filter)
  define st' where "st' = purge_expired_pairing_codes t st"
  have "dict_get (os_pairing_codes st') ?k = Some \<lparr>pc_created_at = now, pc_expires_at = expiry\<rparr>"
    using code alive(2) unique(2)
    by (simp add: st'_def st_def purge_expired_pairing_codes_def purge_expired_pending_clients_def
        dict_get_filter)
  then have cons: "consume_pairing_code t shown st
      = (Inr (), st'\<lparr>os_pairing_codes := dict_pop ?k (os_pairing_codes st')\<rparr>)"
    using raw alive(2) by (simp add: consume_pairing_code_def Let_def norm st'_def [symmetric])
  define p2 where "p2 = flush ((on_state (purge_expired_pending_clients t) p1)\<lparr>pv_state :=
      st'\<lparr>os_pairing_codes := dict_pop ?k (os_pairing_codes st'),
        os_clients := dict_set (oc_client_id c) (pe_client pe) (os_clients st'),
        os_pending_clients := dict_pop (oc_client_id c) (os_pending_clients st')\<rparr>\<rparr>)"
  have act: "activate_pending_client t c shown p1 = (Inr True, p2)"
    using cid pend pending cons alive(3)
    by (simp add: activate_pending_client_def require_client_id_def loaded Let_def
        st_def [symmetric] p2_def)
  have now_active: "fst (get_client (oc_client_id c) p2) = Some (pe_client pe)"
    by (simp add: get_client_def p2_def)
  have "fst (get_pending_client t (oc_client_id c) p2) = None"
    unfolding get_pending_client_def Let_def p2_def load_flush
    by (auto simp: purge_expired_pending_clients_def map_of_eq_None_iff dict_pop_filter)
  with act now_active show ?thesis by blast
qed

definition sample_waiting :: provider where
  "sample_waiting = snd (create_pairing_code 10 ''ABCD2345'' 600
     (snd (register_client sample_env 5 sample_client (init_provider Missing))))"

lemma sample_waiting_facts:
  "fst (create_pairing_code 10 ''ABCD2345'' 600
     (snd (register_client sample_env 5 sample_client (init_provider Missing)))) = Inr (''ABCD-2345'', 610)"
  "dict_get (os_pending_clients (pv_state sample_waiting)) ''c1''
     = Some (pending_client_record sample_env 5 sample_client)"
  "map fst (os_pending_clients (pv_state sample_waiting)) = [''c1'']"
  "map fst (os_pairing_codes (pv_state sample_waiting)) = [''ABCD2345'']"
  "normalize_pairing_code ''ABCD2345'' = ''ABCD2345''"
  "pe_expires_at (pending_client_record sample_env 5 sample_client) = 1805"
  "attempt_too_soon 12 (pending_client_record sample_env 5 sample_client) = False"
  by code_simp+

theorem displayed_code_activates_witness:
  "\<exists>p2. activate_pending_client 12 sample_client ''ABCD-2345'' sample_waiting = (Inr True, p2)
     \<and> fst (get_client ''c1'' p2) = Some sample_client
     \<and> fst (get_pending_client 12 ''c1'' p2) = None"
proof -
  have created: "create_pairing_code 10 ''ABCD2345'' 600
      (snd (register_client sample_env 5 sample_client (init_provider Missing)))
      = (Inr (''ABCD-2345'', 610), sample_waiting)"
    using sample_waiting_facts(1) by (simp add: sample_waiting_def prod_eq_iff)
  have cid: "oc_client_id sample_client = ''c1''" by (simp add: sample_client_def)
  from displayed_code_activates [OF created, of sample_client
      "pending_client_record sample_env 5 sample_client" 12] sample_waiting_facts cid
  show ?thesis by (simp add: pending_client_record_def)
qed

section \<open>The life of codes and tokens\<close>

text \<open>Exchanging an authorization code consumes it and issues a token pair: afterwards the
  code does not load, the access token loads with the code's scopes until its thirty
  days are over and not after, and the refresh token loads with the same scopes.\<close>

theorem exchange_authorization_code_spec:
  assumes "exchange_authorization_code now access refresh c ac p = (Inr t, p')"
    and "0 \<le> now"
  shows "fst (load_authorization_code c' (ac_code ac) p') = None
     \<and> ot_access_token t = access \<and> ot_refresh_token t = refresh
     \<and> (case fst (load_access_token later access p') of
          None \<Rightarrow> of_int (\<lfloor>now\<rfloor> + ACCESS_TOKEN_LIFETIME_SECONDS) < later
        | Some a \<Rightarrow> later \<le> of_int (\<lfloor>now\<rfloor> + ACCESS_TOKEN_LIFETIME_SECONDS)
            \<and> at_client_id a = oc_client_id c \<and> at_scopes a = ac_scopes ac)
     \<and> (\<exists>r. fst (load_refresh_token c' refresh p') = Some r \<and> rt_scopes r = ac_scopes ac
            \<and> rt_client_id r = oc_client_id c)"
proof -
  have cid: "require_client_id c = Inr (oc_client_id c)"
    and t: "t = bearer access refresh (ac_scopes ac)"
    using assms(1) by (auto simp: exchange_authorization_code_def require_client_id_def Let_def
        split: if_splits)
  have "0 \<le> \<lfloor>now\<rfloor>" using assms(2) by simp
  then have nz: "\<lfloor>now\<rfloor> + ACCESS_TOKEN_LIFETIME_SECONDS \<noteq> 0"
    unfolding ACCESS_TOKEN_LIFETIME_SECONDS_def by linarith
  show ?thesis
    using assms(1) nz
    by (auto simp: exchange_authorization_code_def cid Let_def t bearer_def add_tokens_def
        load_authorization_code_def load_access_token_def load_refresh_token_def)
qed

theorem exchange_authorization_code_spec_witness:
  "\<exists>t p'. exchange_authorization_code 20 ''acc'' ''ref'' sample_client
       (make_auth_code 19 ''code'' ''c1'' \<lparr>ap_redirect_uri = ''https://app.example/cb'',
          ap_redirect_uri_provided_explicitly = True, ap_scopes = None, ap_code_challenge = ''ch'',
          ap_resource = None, ap_state = None\<rparr>) sample_activated = (Inr t, p')
     \<and> ot_access_token t = ''acc'' \<and> fst (load_authorization_code sample_client ''code'' p') = None"
proof -
  let ?ac = "make_auth_code 19 ''code'' ''c1'' \<lparr>ap_redirect_uri = ''https://app.example/cb'',
          ap_redirect_uri_provided_explicitly = True, ap_scopes = None, ap_code_challenge = ''ch'',
          ap_resource = None, ap_state = None\<rparr>"
  obtain t p' where x: "exchange_authorization_code 20 ''acc'' ''ref'' sample_client ?ac sample_activated
      = (Inr t, p')"
    by (simp add: exchange_authorization_code_def require_client_id_def sample_client_def Let_def)
  moreover have "ac_code ?ac = ''code''" by (simp add: make_auth_code_def)
  ultimately show ?thesis using exchange_authorization_code_spec [OF x, of sample_client 0] by auto
qed

text \<open>Refreshing rotates the pair: the old refresh token no longer loads, the new one loads
  with the issued scopes, and refresh tokens of others stay as they were.\<close>

theorem exchange_refresh_token_rotates:
  assumes "exchange_refresh_token now new_access new_refresh c rt scopes p = (Inr t, p')"
    and "new_refresh \<noteq> rt_token rt"
  shows "fst (load_refresh_token c' (rt_token rt) p') = None
     \<and> (\<exists>r. fst (load_refresh_token c' new_refresh p') = Some r
            \<and> rt_scopes r = (if scopes \<noteq> [] then scopes else rt_scopes rt))
     \<and> (\<forall>other. other \<noteq> rt_token rt \<and> other \<noteq> new_refresh \<longrightarrow>
          fst (load_refresh_token c' other p') = fst (load_refresh_token c' other p))
     \<and> (\<forall>other. other \<noteq> new_access \<longrightarrow>
          fst (load_access_token later other p') = fst (load_access_token later other p))"
proof -
  have cid: "require_client_id c = Inr (oc_client_id c)"
    using assms(1) by (auto simp: exchange_refresh_token_def require_client_id_def Let_def
        split: if_splits)
  show ?thesis
    using assms
    by (auto simp: exchange_refresh_token_def cid Let_def add_tokens_def load_refresh_token_def
        load_access_token_def)
qed

theorem exchange_refresh_token_rotates_witness:
  "\<exists>t p'. exchange_refresh_token 20 ''acc2'' ''ref2'' sample_client
       \<lparr>rt_token = ''ref1'', rt_client_id = ''c1'', rt_scopes = [''dotmd'']\<rparr> [] sample_activated = (Inr t, p')
     \<and> fst (load_refresh_token sample_client ''ref1'' p') = None
     \<and> fst (load_refresh_token sample_client ''ref2'' p') \<noteq> None"
proof -
  let ?rt = "\<lparr>rt_token = ''ref1'', rt_client_id = ''c1'', rt_scopes = [''dotmd'']\<rparr>"
  obtain t p' where x: "exchange_refresh_token 20 ''acc2'' ''ref2'' sample_client ?rt [] sample_activated
      = (Inr t, p')"
    by (simp add: exchange_refresh_token_def require_client_id_def sample_client_def Let_def)
  with exchange_refresh_token_rotates [OF x] show ?thesis by fastforce
qed

text \<open>The exchange does not look whether the code is still stored: two requests that both
  loaded a code before either exchanged it receive two working token pairs.\<close>

theorem auth_code_replay:
  assumes "oc_client_id c \<noteq> ''''" and "a1 \<noteq> a2"
    and "exchange_authorization_code now a1 r1 c ac p = (Inr t1, p1)"
  shows "\<exists>t2 p2. exchange_authorization_code now a2 r2 c ac p1 = (Inr t2, p2)
     \<and> dict_get (os_access_tokens (pv_state p2)) a1 \<noteq> None
     \<and> dict_get (os_access_tokens (pv_state p2)) a2 \<noteq> None"
  using assms by (auto simp: exchange_authorization_code_def require_client_id_def Let_def add_tokens_def)

theorem auth_code_replay_witness:
  "\<exists>t1 p1 t2 p2. exchange_authorization_code 20 ''a1'' ''r1'' sample_client
       (make_auth_code 19 ''code'' ''c1'' \<lparr>ap_redirect_uri = ''https://app.example/cb'',
          ap_redirect_uri_provided_explicitly = True, ap_scopes = None, ap_code_challenge = ''ch'',
          ap_resource = None, ap_state = None\<rparr>) sample_activated = (Inr t1, p1)
     \<and> exchange_authorization_code 20 ''a2'' ''r2'' sample_client
       (make_auth_code 19 ''code'' ''c1'' \<lparr>ap_redirect_uri = ''https://app.example/cb'',
          ap_redirect_uri_provided_explicitly = True, ap_scopes = None, ap_code_challenge = ''ch'',
          ap_resource = None, ap_state = None\<rparr>) p1 = (Inr t2, p2)
     \<and> dict_get (os_access_tokens (pv_state p2)) ''a1'' \<noteq> None
     \<and> dict_get (os_access_tokens (pv_state p2)) ''a2'' \<noteq> None"
proof -
  let ?ac = "make_auth_code 19 ''code'' ''c1'' \<lparr>ap_redirect_uri = ''https://app.example/cb'',
          ap_redirect_uri_provided_explicitly = True, ap_scopes = None, ap_code_challenge = ''ch'',
          ap_resource = None, ap_state = None\<rparr>"
  obtain t p' where x: "exchange_authorization_code 20 ''a1'' ''r1'' sample_client ?ac sample_activated
      = (Inr t, p')"
    by (simp add: exchange_authorization_code_def require_client_id_def sample_client_def Let_def)
  have "oc_client_id sample_client \<noteq> ''''" by (simp add: sample_client_def)
  from auth_code_replay [OF this _ x, of "''a2''" "''r2''"] x show ?thesis by blast
qed

text \<open>A damaged state file does not reset a running provider: it keeps its memory.\<close>

lemma corrupt_file_keeps_memory: "load_from_disk (p\<lparr>pv_file := Corrupt\<rparr>) = p\<lparr>pv_file := Corrupt\<rparr>"
  by (simp add: load_from_disk_def)

end
