(* ===== verification/Query_Expansion.thy ===== *)
theory Query_Expansion
  imports Py_Strings Core_Models "HOL-Library.Sublist"
begin

text \<open>
  Query expansion (\<open>search/query.py\<close>): acronyms of the query are looked up exactly
  and then within an edit distance, and their expansions are inserted after the
  token; the validity test of \<open>extraction/acronyms.py\<close>.  The row-wise Levenshtein
  computation is proved to be the least cost of an alignment.
\<close>

section \<open>Edit distance\<close>

text \<open>One row of the table: \<open>prev\<close> is the previous row from column \<open>j\<close> on, \<open>cur\<close> the last cell.\<close>

fun lev_cells :: "char \<Rightarrow> string \<Rightarrow> nat list \<Rightarrow> nat \<Rightarrow> nat list" where
  "lev_cells c1 (c2 # s2) (p0 # p1 # ps) cur =
     (let v = min (min (p1 + 1) (cur + 1)) (p0 + (if c1 \<noteq> c2 then 1 else 0))
      in v # lev_cells c1 s2 (p1 # ps) v)"
| "lev_cells c1 s2 ps cur = []"

fun lev_rows :: "nat \<Rightarrow> string \<Rightarrow> string \<Rightarrow> nat list \<Rightarrow> nat list" where
  "lev_rows i [] s2 previous_row = previous_row"
| "lev_rows i (c1 # s1) s2 previous_row =
     lev_rows (i + 1) s1 s2 ((i + 1) # lev_cells c1 s2 previous_row (i + 1))"

definition edit_distance_ordered :: "string \<Rightarrow> string \<Rightarrow> nat" where
  "edit_distance_ordered s1 s2 =
     (if length s2 = 0 then length s1
      else last (lev_rows 0 s1 s2 [0..<length s2 + 1]))"

definition edit_distance :: "string \<Rightarrow> string \<Rightarrow> nat" where
  "edit_distance s1 s2 =
     (if length s1 < length s2 then edit_distance_ordered s2 s1 else edit_distance_ordered s1 s2)"

section \<open>Expansion\<close>

type_synonym acronyms = "(string, string list) dict"

definition clean_token :: "string \<Rightarrow> string" where
  "clean_token token = filter (\<lambda>c. CHR ''A'' \<le> c \<and> c \<le> CHR ''Z'') (py_upper token)"

fun closest_acronym :: "nat \<Rightarrow> string \<Rightarrow> string list \<Rightarrow> string option \<Rightarrow> nat \<Rightarrow> string option" where
  "closest_acronym threshold token [] best_match best_distance = best_match"
| "closest_acronym threshold token (known # rest) best_match best_distance =
     (let distance = edit_distance token known
      in if distance \<le> threshold \<and> distance < best_distance
         then closest_acronym threshold token rest (Some known) distance
         else closest_acronym threshold token rest best_match best_distance)"

definition token_expansions :: "acronyms \<Rightarrow> nat \<Rightarrow> string \<Rightarrow> string list" where
  "token_expansions acronyms fuzzy_threshold token =
     (let clean = clean_token token
      in if length clean < 2 then []
         else case dict_get acronyms clean of
            Some expansions \<Rightarrow> expansions
          | None \<Rightarrow>
              if 0 < fuzzy_threshold
              then (case closest_acronym fuzzy_threshold clean (dict_keys acronyms) None
                           (fuzzy_threshold + 1) of
                      None \<Rightarrow> []
                    | Some best \<Rightarrow> if best = '''' then [] else dict_get_default acronyms best [])
              else [])"

definition expand_acronyms :: "acronyms \<Rightarrow> nat \<Rightarrow> string \<Rightarrow> string \<times> string list" where
  "expand_acronyms acronyms fuzzy_threshold query =
     (let tokens = py_split query
      in (py_join '' '' (concat (map (\<lambda>t. t # token_expansions acronyms fuzzy_threshold t) tokens)),
          concat (map (token_expansions acronyms fuzzy_threshold) tokens)))"

definition expand :: "acronyms \<Rightarrow> nat \<Rightarrow> string \<Rightarrow> expanded_query" where
  "expand acronyms fuzzy_threshold query =
     (let (query, acronym_terms) =
            (if acronyms \<noteq> [] then expand_acronyms acronyms fuzzy_threshold query else (query, []))
      in \<lparr>eq_original = query, eq_expanded_terms = acronym_terms,
          eq_expanded_text = (if acronym_terms \<noteq> [] then py_join '' '' (query # acronym_terms)
                              else query)\<rparr>)"

section \<open>Acronym validity\<close>

definition first_letters :: "string \<Rightarrow> string" where
  "first_letters expansion =
     concat (map (\<lambda>w. upper_char (hd w)) (filter (\<lambda>w. w \<noteq> [] \<and> py_isalpha (hd w)) (py_split expansion)))"

text \<open>\<open>first_letters.index(letter, idx) + 1\<close> for each letter in turn.\<close>

fun letters_in_order :: "string \<Rightarrow> string \<Rightarrow> nat \<Rightarrow> bool" where
  "letters_in_order [] letters idx = True"
| "letters_in_order (l # ls) letters idx =
     (case str_find letters [l] idx of
        None \<Rightarrow> False
      | Some i \<Rightarrow> letters_in_order ls letters (i + 1))"

definition is_valid_acronym :: "string \<Rightarrow> string \<Rightarrow> bool" where
  "is_valid_acronym acronym expansion =
     (let letters = first_letters expansion; acronym_upper = py_upper acronym
      in acronym_upper = letters \<or> letters_in_order acronym_upper letters 0)"

section \<open>The distance is the least alignment cost\<close>

text \<open>
  \<open>align xs ys n\<close>: reading both strings from the left, \<open>xs\<close> becomes \<open>ys\<close> with \<open>n\<close>
  insertions, deletions and substitutions.
\<close>

inductive align :: "'a list \<Rightarrow> 'a list \<Rightarrow> nat \<Rightarrow> bool" where
  nil: "align [] [] 0"
| keep: "align xs ys n \<Longrightarrow> align (xs @ [x]) (ys @ [x]) n"
| subst: "align xs ys n \<Longrightarrow> x \<noteq> y \<Longrightarrow> align (xs @ [x]) (ys @ [y]) (n + 1)"
| insert: "align xs ys n \<Longrightarrow> align xs (ys @ [y]) (n + 1)"
| delete: "align xs ys n \<Longrightarrow> align (xs @ [x]) ys (n + 1)"

fun lev :: "'a list \<Rightarrow> 'a list \<Rightarrow> nat" where
  "lev [] ys = length ys"
| "lev xs [] = length xs"
| "lev (x # xs) (y # ys) =
     min (min (lev xs (y # ys) + 1) (lev (x # xs) ys + 1)) (lev xs ys + (if x \<noteq> y then 1 else 0))"

lemma lev_Nil2 [simp]: "lev xs [] = length xs"
  by (cases xs) auto

lemma lev_sym: "lev xs ys = lev ys xs"
  by (induction xs ys rule: lev.induct) (auto simp: min.commute min.left_commute)

lemma align_lev: "align (rev xs) (rev ys) (lev xs ys)"
proof (induction xs ys rule: lev.induct)
  case (1 ys)
  show ?case
  proof (induction ys)
    case Nil
    show ?case by (simp add: align.nil)
  next
    case (Cons y ys)
    then show ?case using align.insert by fastforce
  qed
next
  case (2 x xs)
  have "align (rev zs) [] (length zs)" for zs :: "'a list"
  proof (induction zs)
    case Nil
    show ?case by (simp add: align.nil)
  next
    case (Cons z zs)
    then show ?case using align.delete by fastforce
  qed
  from this [of "x # xs"] show ?case by simp
next
  case (3 x xs y ys)
  let ?a = "lev xs (y # ys) + 1" and ?b = "lev (x # xs) ys + 1"
  let ?c = "lev xs ys + (if x \<noteq> y then 1 else 0)"
  have a: "align (rev (x # xs)) (rev (y # ys)) ?a" using align.delete [OF "3.IH"(1), of x] by simp
  have b: "align (rev (x # xs)) (rev (y # ys)) ?b" using align.insert [OF "3.IH"(2), of y] by simp
  have c: "align (rev (x # xs)) (rev (y # ys)) ?c"
    using align.keep [OF "3.IH"(3), of x] align.subst [OF "3.IH"(3), of x y] by auto
  have "lev (x # xs) (y # ys) \<in> {?a, ?b, ?c}" by (auto simp: min_def)
  with a b c show ?case by auto
qed

lemma lev_step: "lev (x # xs) ys \<le> lev xs ys + 1" "lev xs (y # ys) \<le> lev xs ys + 1"
  by (cases ys; auto simp: min_def) (cases xs; auto simp: min_def)

lemma lev_le_align: "align xs ys n \<Longrightarrow> lev (rev xs) (rev ys) \<le> n"
proof (induction rule: align.induct)
  case (insert xs ys n y)
  with lev_step(2) [of "rev xs" y "rev ys"] show ?case by simp
next
  case (delete xs ys n x)
  with lev_step(1) [of x "rev xs" "rev ys"] show ?case by simp
qed auto

text \<open>The rows hold the distances of the prefixes.\<close>

lemma lev_cells_prefix:
  assumes "\<forall>j < length ps. ps ! j = lev r1 (rev (take (k + j) s2))"
    and "cur = lev (c1 # r1) (rev (take k s2))" and "length ps = Suc (length s2 - k)" and "k \<le> length s2"
  shows "(\<forall>j < length s2 - k. lev_cells c1 (drop k s2) ps cur ! j
        = lev (c1 # r1) (rev (take (k + j + 1) s2)))
    \<and> length (lev_cells c1 (drop k s2) ps cur) = length s2 - k"
  using assms
proof (induction "length s2 - k" arbitrary: k ps cur)
  case 0
  then show ?case by simp
next
  case (Suc n)
  have klt: "k < length s2" using Suc.hyps(2) by simp
  obtain p0 p1 qs where pq: "ps = p0 # p1 # qs"
    using Suc.prems(3) klt by (cases ps; cases "tl ps") auto
  define v where "v = min (min (p1 + 1) (cur + 1)) (p0 + (if c1 \<noteq> s2 ! k then 1 else 0))"
  have drop: "drop k s2 = s2 ! k # drop (Suc k) s2" using klt by (simp add: Cons_nth_drop_Suc)
  have take: "take (Suc k) s2 = take k s2 @ [s2 ! k]" using klt by (simp add: take_Suc_conv_app_nth)
  have p0: "p0 = lev r1 (rev (take k s2))" using Suc.prems(1) [rule_format, of 0] pq by simp
  have p1: "p1 = lev r1 (rev (take (Suc k) s2))" using Suc.prems(1) [rule_format, of 1] pq by simp
  have v: "v = lev (c1 # r1) (rev (take (Suc k) s2))"
    unfolding v_def p0 p1 Suc.prems(2) take by simp
  have ps': "\<forall>j < length (p1 # qs). (p1 # qs) ! j = lev r1 (rev (take (Suc k + j) s2))"
    using Suc.prems(1) [rule_format, of "Suc j" for j] pq by simp
  have len': "length (p1 # qs) = Suc (length s2 - Suc k)" using Suc.prems(3) pq klt by simp
  have n: "n = length s2 - Suc k" using Suc.hyps(2) by simp
  note IH = Suc.hyps(1) [OF n ps' v len' Suc_leI [OF klt]]
  have cells: "lev_cells c1 (drop k s2) ps cur = v # lev_cells c1 (drop (Suc k) s2) (p1 # qs) v"
    unfolding drop pq by (simp add: v_def Let_def)
  show ?case
  proof (intro conjI allI impI)
    fix j assume j: "j < length s2 - k"
    show "lev_cells c1 (drop k s2) ps cur ! j = lev (c1 # r1) (rev (take (k + j + 1) s2))"
    proof (cases j)
      case 0
      then show ?thesis unfolding cells by (simp add: v)
    next
      case (Suc i)
      with j IH show ?thesis unfolding cells by simp
    qed
  next
    show "length (lev_cells c1 (drop k s2) ps cur) = length s2 - k"
      unfolding cells using IH klt by simp
  qed
qed

lemma lev_rows_prefix:
  assumes "\<forall>j < length row. row ! j = lev r1 (rev (take j s2))" and "length row = Suc (length s2)"
    and "length r1 = i"
  shows "last (lev_rows i s1 s2 row) = lev (rev s1 @ r1) (rev s2)"
  using assms
proof (induction s1 arbitrary: i row r1)
  case Nil
  then show ?case
    using Nil.prems(1) [rule_format, of "length s2"]
    by (metis append_self_conv2 last_conv_nth length_0_conv lessI lev_rows.simps(1) nat.simps(3)
        diff_Suc_1 order_refl rev.simps(1) take_all)
next
  case (Cons c1 s1)
  let ?row = "(i + 1) # lev_cells c1 s2 row (i + 1)"
  have c: "(\<forall>j < length s2. lev_cells c1 s2 row (i + 1) ! j = lev (c1 # r1) (rev (take (Suc j) s2)))
      \<and> length (lev_cells c1 s2 row (i + 1)) = length s2"
    using lev_cells_prefix [of row r1 0 s2 "i + 1" c1] Cons.prems by simp
  have "\<forall>j < length ?row. ?row ! j = lev (c1 # r1) (rev (take j s2))"
  proof (intro allI impI)
    fix j assume "j < length ?row"
    with c Cons.prems(3) show "?row ! j = lev (c1 # r1) (rev (take j s2))"
      by (cases j) auto
  qed
  from Cons.IH [OF this] c Cons.prems(3) show ?case by simp
qed

lemma edit_distance_ordered_lev: "edit_distance_ordered s1 s2 = lev (rev s1) (rev s2)"
proof (cases "s2 = []")
  case True
  then show ?thesis by (simp add: edit_distance_ordered_def)
next
  case False
  let ?row = "[0..<length s2 + 1]"
  have "\<forall>j < length ?row. ?row ! j = lev [] (rev (take j s2))"
    by (auto simp del: upt_Suc)
  from lev_rows_prefix [OF this, of 0 s1] False show ?thesis
    by (simp add: edit_distance_ordered_def del: upt_Suc)
qed

lemma edit_distance_lev: "edit_distance s1 s2 = lev (rev s1) (rev s2)"
  by (simp add: edit_distance_def edit_distance_ordered_lev lev_sym)

lemma lev_zero: "lev xs ys = 0 \<Longrightarrow> xs = ys"
  by (induction xs ys rule: lev.induct) (auto simp: min_def split: if_splits)

lemma lev_self [simp]: "lev xs xs = 0"
  by (induction xs) auto

text \<open>The row-wise edit distance is the least number of insertions, deletions and
  substitutions that turn one string into the other; it is symmetric, and zero exactly
  for equal strings.\<close>

theorem edit_distance_least:
  "align s1 s2 (edit_distance s1 s2)
   \<and> (\<forall>n. align s1 s2 n \<longrightarrow> edit_distance s1 s2 \<le> n)
   \<and> edit_distance s1 s2 = edit_distance s2 s1
   \<and> (edit_distance s1 s2 = 0 \<longleftrightarrow> s1 = s2)"
proof -
  have a: "align s1 s2 (edit_distance s1 s2)"
    using align_lev [of "rev s1" "rev s2"] by (simp add: edit_distance_lev)
  show ?thesis
    using a lev_le_align [of s1 s2] lev_zero [of "rev s1" "rev s2"] lev_sym [of "rev s1" "rev s2"]
    by (auto simp: edit_distance_lev)
qed

theorem edit_distance_least_witness:
  "align ''SIEM'' ''SEIM'' 2 \<and> edit_distance ''SIEM'' ''SEIM'' = 2"
proof -
  have d: "edit_distance ''SIEM'' ''SEIM'' = 2" by code_simp
  with edit_distance_least [of "''SIEM''" "''SEIM''"] show ?thesis by simp
qed

section \<open>Fuzzy matching\<close>

lemma closest_acronym_spec:
  assumes "closest_acronym threshold token ks best d = res"
    and "best = None \<longrightarrow> d = threshold + 1"
    and "\<forall>b. best = Some b \<longrightarrow> d = edit_distance token b \<and> d \<le> threshold"
  shows "case res of
      None \<Rightarrow> best = None \<and> (\<forall>k \<in> set ks. threshold < edit_distance token k)
    | Some k \<Rightarrow> (k \<in> set ks \<or> best = Some k) \<and> edit_distance token k \<le> threshold
        \<and> edit_distance token k \<le> d
        \<and> (\<forall>k' \<in> set ks. edit_distance token k \<le> edit_distance token k')"
  using assms
proof (induction ks arbitrary: best d)
  case Nil
  then show ?case by (cases best) auto
next
  case (Cons k ks)
  let ?d = "edit_distance token k"
  show ?case
  proof (cases "?d \<le> threshold \<and> ?d < d")
    case True
    have "case res of
      None \<Rightarrow> Some k = None \<and> (\<forall>k \<in> set ks. threshold < edit_distance token k)
    | Some x \<Rightarrow> (x \<in> set ks \<or> Some k = Some x) \<and> edit_distance token x \<le> threshold
        \<and> edit_distance token x \<le> ?d
        \<and> (\<forall>k' \<in> set ks. edit_distance token x \<le> edit_distance token k')"
      by (rule Cons.IH) (use Cons.prems(1) True in auto)
    with True show ?thesis by (cases res) auto
  next
    case False
    have IH: "case res of
      None \<Rightarrow> best = None \<and> (\<forall>k \<in> set ks. threshold < edit_distance token k)
    | Some k \<Rightarrow> (k \<in> set ks \<or> best = Some k) \<and> edit_distance token k \<le> threshold
        \<and> edit_distance token k \<le> d
        \<and> (\<forall>k' \<in> set ks. edit_distance token k \<le> edit_distance token k')"
      by (rule Cons.IH) (use Cons.prems False in auto)
    show ?thesis
    proof (cases res)
      case None
      with IH Cons.prems(2) False show ?thesis by auto
    next
      case (Some x)
      with IH False show ?thesis by auto
    qed
  qed
qed

text \<open>An expansion is only ever inserted for a token of two or more letters whose letters
  are a known acronym, or else lie within the threshold of one, at the least distance
  among all known acronyms; a token without such a match gets none.\<close>

theorem token_expansions_spec:
  assumes "'''' \<notin> set (dict_keys acronyms)"
  shows "(token_expansions acronyms threshold token = []
           \<and> (length (clean_token token) < 2 \<or>
              (dict_get acronyms (clean_token token) = None \<and>
               (\<forall>k \<in> set (dict_keys acronyms). threshold < edit_distance (clean_token token) k))))
      \<or> (\<exists>k. 2 \<le> length (clean_token token)
           \<and> dict_get acronyms k = Some (token_expansions acronyms threshold token)
           \<and> edit_distance (clean_token token) k \<le> threshold
           \<and> (\<forall>k' \<in> set (dict_keys acronyms).
                edit_distance (clean_token token) k \<le> edit_distance (clean_token token) k'))"
proof -
  let ?c = "clean_token token"
  have self: "edit_distance ?c ?c = 0" by (simp add: edit_distance_lev)
  show ?thesis
  proof (cases "length ?c < 2 \<or> dict_get acronyms ?c \<noteq> None")
    case True
    then show ?thesis using self by (auto simp: token_expansions_def Let_def)
  next
    case False
    define res where "res = closest_acronym threshold ?c (dict_keys acronyms) None (Suc threshold)"
    have spec: "case res of
      None \<Rightarrow> \<forall>k \<in> set (dict_keys acronyms). threshold < edit_distance ?c k
    | Some k \<Rightarrow> k \<in> set (dict_keys acronyms) \<and> edit_distance ?c k \<le> threshold
        \<and> (\<forall>k' \<in> set (dict_keys acronyms). edit_distance ?c k \<le> edit_distance ?c k')"
      using closest_acronym_spec [OF res_def [symmetric]] by (cases res) auto
    show ?thesis
    proof (cases res)
      case None
      with spec False show ?thesis by (auto simp: token_expansions_def Let_def res_def [symmetric])
    next
      case (Some k)
      with spec have k: "k \<in> set (dict_keys acronyms)" "edit_distance ?c k \<le> threshold" by auto
      from k(1) obtain es where es: "dict_get acronyms k = Some es"
        by (metis dict_get_None_iff not_None_eq)
      have "threshold \<noteq> 0"
      proof
        assume "threshold = 0"
        with k(2) have "?c = k" using lev_zero [of "rev ?c" "rev k"] by (simp add: edit_distance_lev)
        with es False show False by simp
      qed
      moreover have "k \<noteq> ''''" using k(1) assms by metis
      ultimately have "token_expansions acronyms threshold token = es" using Some False es
        by (auto simp: token_expansions_def Let_def res_def [symmetric] dict_get_default_def)
      with spec Some False es show ?thesis by auto
    qed
  qed
qed

theorem token_expansions_spec_witness:
  "token_expansions [(''SIEM'', [''Security Events''])] 1 ''siemm,'' = [''Security Events'']
   \<and> edit_distance (clean_token ''siemm,'') ''SIEM'' \<le> 1"
proof -
  have t: "token_expansions [(''SIEM'', [''Security Events''])] 1 ''siemm,'' = [''Security Events'']"
    by code_simp
  from token_expansions_spec [of "[(''SIEM'', [''Security Events''])]" 1 "''siemm,''"] t
  show ?thesis by (auto split: if_splits)
qed

section \<open>Acronym letters\<close>

lemma occurs_at_single: "occurs_at [l] s i \<longleftrightarrow> i < length s \<and> s ! i = l"
  by (cases "i < length s") (auto simp: occurs_at_def take_Suc hd_drop_conv_nth)

lemma str_find_single_None: "str_find s [l] i = None \<Longrightarrow> l \<notin> set (drop i s)"
proof
  assume none: "str_find s [l] i = None" and "l \<in> set (drop i s)"
  then obtain j where j: "j < length (drop i s)" "drop i s ! j = l" by (auto simp: in_set_conv_nth)
  then have "occurs_at [l] s (i + j)" by (auto simp: occurs_at_single)
  moreover have "i + j \<in> set [i..<Suc (length s)]" using j(1) by auto
  ultimately show False using none by (auto simp: str_find_def find_None_iff_set simp del: upt_Suc)
qed

lemma str_find_single_Some:
  assumes "str_find s [l] i = Some j"
  shows "\<exists>pre. drop i s = pre @ l # drop (Suc j) s \<and> l \<notin> set pre"
proof -
  from str_find_Some [OF assms] have j: "i \<le> j" "j < length s" "s ! j = l"
    and first: "\<forall>k. i \<le> k \<and> k < j \<longrightarrow> \<not> occurs_at [l] s k" by (auto simp: occurs_at_single)
  have "drop i s = take (j - i) (drop i s) @ drop (j - i) (drop i s)"
    by (rule append_take_drop_id [symmetric])
  also have "drop (j - i) (drop i s) = l # drop (Suc j) s"
    using j Cons_nth_drop_Suc [of j s] by simp
  finally have split: "drop i s = take (j - i) (drop i s) @ l # drop (Suc j) s" .
  have "l \<notin> set (take (j - i) (drop i s))"
  proof
    assume "l \<in> set (take (j - i) (drop i s))"
    then obtain m where m: "m < j - i" "m < length (drop i s)" "s ! (i + m) = l"
      by (auto simp: in_set_conv_nth)
    then have "occurs_at [l] s (i + m)" by (simp add: occurs_at_single)
    with first m(1) show False by auto
  qed
  with split show ?thesis by blast
qed

lemma letters_in_order_subseq: "letters_in_order ls s i \<longleftrightarrow> subseq ls (drop i s)"
proof (induction ls arbitrary: i)
  case Nil
  then show ?case by simp
next
  case (Cons l ls)
  show ?case
  proof (cases "str_find s [l] i")
    case None
    then have "l \<notin> set (drop i s)" by (rule str_find_single_None)
    then have "\<not> subseq (l # ls) (drop i s)"
      using subseq_singleton_left [of l] subseq_order.order_trans [of "[l]" "l # ls"] by fastforce
    with None show ?thesis by simp
  next
    case (Some j)
    then obtain pre where pre: "drop i s = pre @ l # drop (Suc j) s" "l \<notin> set pre"
      using str_find_single_Some by blast
    have "subseq (l # ls) (pre @ l # drop (Suc j) s) \<longleftrightarrow> subseq ls (drop (Suc j) s)"
      using pre(2) by (induction pre) auto
    with Some Cons.IH pre(1) show ?thesis by simp
  qed
qed

text \<open>An acronym is accepted exactly when its letters, in upper case, are a subsequence of
  the first letters of the expansion's words.\<close>

theorem is_valid_acronym_subseq:
  "is_valid_acronym acronym expansion \<longleftrightarrow> subseq (py_upper acronym) (first_letters expansion)"
  by (auto simp: is_valid_acronym_def Let_def letters_in_order_subseq)

end
