(* ===== verification/Federated.thy ===== *)
theory Federated
  imports Query_Expansion
begin

text \<open>
  Federated search (\<open>search/federated.py\<close> and the merge in \<open>api/service.py\<close>).  A
  provider call is a value: what it returns or raises, and how long it takes; a call
  longer than the timeout is cut off there (its late result is ignored).  The local
  search is a parameter of \<open>search_async\<close>.  An exception outside the handled classes
  escapes, as it does from \<open>asyncio.gather\<close>.
\<close>

section \<open>Calls and outcomes\<close>

datatype py_exception = HTTPError string | OSError string | TimeoutException string
  | RuntimeException string | SqliteError string | ValueException string | OtherException string

fun exc_text :: "py_exception \<Rightarrow> string" where
  "exc_text (HTTPError m) = m"
| "exc_text (OSError m) = m"
| "exc_text (TimeoutException m) = m"
| "exc_text (RuntimeException m) = m"
| "exc_text (SqliteError m) = m"
| "exc_text (ValueException m) = m"
| "exc_text (OtherException m) = m"

definition unhandled :: "py_exception \<Rightarrow> bool" where
  "unhandled e = (case e of OtherException _ \<Rightarrow> True | _ \<Rightarrow> False)"

record 'a call =
  ca_result :: "py_exception + 'a"
  ca_seconds :: rat

type_synonym ranked = "(string \<times> rat) list"

record local_engine_outcome =
  lo_name :: string
  lo_status :: engine_status
  lo_ranked_chunks :: ranked
  lo_reason :: "string option"
  lo_elapsed_ms :: rat

record federated_engine_outcome =
  fo_name :: string
  fo_status :: engine_status
  fo_candidates :: "search_candidate list"
  fo_reason :: "string option"
  fo_elapsed_ms :: rat

datatype engine_outcome = LocalOutcome local_engine_outcome
  | FederatedOutcome federated_engine_outcome

definition run_local_engine :: "string \<Rightarrow> ranked call \<Rightarrow> py_exception + local_engine_outcome" where
  "run_local_engine name fn =
     (case ca_result fn of
        Inr ranked \<Rightarrow> Inr \<lparr>lo_name = name, lo_status = StatusOk, lo_ranked_chunks = ranked,
          lo_reason = None, lo_elapsed_ms = ca_seconds fn * 1000\<rparr>
      | Inl e \<Rightarrow> if unhandled e then Inl e
          else Inr \<lparr>lo_name = name, lo_status = StatusError, lo_ranked_chunks = [],
            lo_reason = Some (exc_text e), lo_elapsed_ms = ca_seconds fn * 1000\<rparr>)"

definition federated_outcome :: "string \<Rightarrow> engine_status \<Rightarrow> search_candidate list \<Rightarrow> string option \<Rightarrow>
    rat \<Rightarrow> federated_engine_outcome" where
  "federated_outcome name status cands reason seconds =
     \<lparr>fo_name = name, fo_status = status, fo_candidates = cands, fo_reason = reason,
      fo_elapsed_ms = seconds * 1000\<rparr>"

definition run_federated_engine :: "string \<Rightarrow> search_candidate list call \<Rightarrow> rat \<Rightarrow>
    py_exception + federated_engine_outcome" where
  "run_federated_engine name fn timeout =
     (if timeout < ca_seconds fn
      then Inr (federated_outcome name StatusSkipped [] (Some ''timeout'') timeout)
      else case ca_result fn of
        Inr cands \<Rightarrow> Inr (federated_outcome name StatusOk cands None (ca_seconds fn))
      | Inl (TimeoutException _) \<Rightarrow>
          Inr (federated_outcome name StatusSkipped [] (Some ''timeout'') (ca_seconds fn))
      | Inl e \<Rightarrow> if unhandled e then Inl e
          else Inr (federated_outcome name StatusError [] (Some (exc_text e)) (ca_seconds fn)))"

fun fanout_federated :: "(string, search_candidate list call) dict \<Rightarrow> rat \<Rightarrow>
    py_exception + federated_engine_outcome list" where
  "fanout_federated [] timeout = Inr []"
| "fanout_federated ((name, fn) # rest) timeout =
     try_bind (run_federated_engine name fn timeout) (\<lambda>outcome.
     try_bind (fanout_federated rest timeout) (\<lambda>outcomes. Inr (outcome # outcomes)))"

definition source_status_of :: "engine_outcome \<Rightarrow> source_status" where
  "source_status_of outcome =
     (case outcome of
        LocalOutcome l \<Rightarrow> \<lparr>ss_name = lo_name l, ss_status = lo_status l, ss_reason = lo_reason l,
          ss_candidate_count = length (lo_ranked_chunks l), ss_elapsed_ms = Some (lo_elapsed_ms l)\<rparr>
      | FederatedOutcome f \<Rightarrow> \<lparr>ss_name = fo_name f, ss_status = fo_status f, ss_reason = fo_reason f,
          ss_candidate_count = length (fo_candidates f), ss_elapsed_ms = Some (fo_elapsed_ms f)\<rparr>)"

definition outcomes_to_source_status :: "engine_outcome list \<Rightarrow> source_status list" where
  "outcomes_to_source_status outcomes = map source_status_of outcomes"

section \<open>Local engines in sequence\<close>

definition run_local_search_sequence :: "ranked call \<Rightarrow> ranked call \<Rightarrow> ranked call \<Rightarrow>
    py_exception + local_engine_outcome list" where
  "run_local_search_sequence semantic keyword graph_direct =
     try_bind (run_local_engine ''semantic'' semantic) (\<lambda>a.
     try_bind (run_local_engine ''keyword'' keyword) (\<lambda>b.
     try_bind (run_local_engine ''graph_direct'' graph_direct) (\<lambda>c. Inr [a, b, c])))"

section \<open>Low-signal candidates\<close>

text \<open>The entries of \<open>LOW_SIGNAL_TEXTS\<close> in Latin script.\<close>

definition LOW_SIGNAL_TEXTS :: "string list" where
  "LOW_SIGNAL_TEXTS = [''ok'', ''yes'', ''yep'', ''no'', ''+1'', ''thanks'', ''thx'']"

text \<open>The Unicode categories Sm, Sc, Sk and So below code point 256.\<close>

definition symbol_char :: "char \<Rightarrow> bool" where
  "symbol_char c = ((of_char c :: nat) \<in> set [36, 43, 60, 61, 62, 94, 96, 124, 126, 162, 163, 164,
     165, 166, 168, 169, 172, 174, 175, 176, 177, 180, 184, 215, 247])"

definition py_casefold :: "string \<Rightarrow> string" where
  "py_casefold s = concat (map (\<lambda>c. if (of_char c :: nat) = 223 then ''ss'' else [lower_char c]) s)"

definition is_low_signal_telegram_text :: "string \<Rightarrow> bool" where
  "is_low_signal_telegram_text body =
     (let stripped = py_strip body
      in if stripped = '''' then True
         else if py_casefold stripped \<in> set LOW_SIGNAL_TEXTS then True
         else if \<not> list_ex py_isalnum stripped then True
         else \<not> list_ex py_isalnum stripped \<or> list_ex symbol_char stripped)"

definition is_low_signal_federated_candidate :: "search_candidate \<Rightarrow> bool" where
  "is_low_signal_federated_candidate c =
     (if sc_namespace c = ''telegram'' \<or> py_startswith (sc_retrieval_kind c) ''tg:''
      then is_low_signal_telegram_text (sc_snippet c) else False)"

section \<open>Merging\<close>

definition merge_with_federated_quota :: "search_candidate list \<Rightarrow> search_candidate list \<Rightarrow>
    int \<Rightarrow> int \<Rightarrow> search_candidate list" where
  "merge_with_federated_quota local_candidates fed_candidates top_k fed_quota =
     (let filtered_fed = filter (\<lambda>c. \<not> is_low_signal_federated_candidate c) fed_candidates;
          fed_slots = min fed_quota (int (length filtered_fed));
          local_slots = top_k - fed_slots;
          top_local = py_take local_slots (sorted_desc sc_fused_score local_candidates);
          top_fed = py_take fed_slots filtered_fed
      in top_local @ top_fed)"

section \<open>The search\<close>

record source_bundle =
  bu_namespace :: string
  bu_supports_federated_search :: bool
  bu_search_native :: "string \<Rightarrow> int \<Rightarrow> search_candidate list call"

definition federated_engine_name :: "string \<Rightarrow> string" where
  "federated_engine_name namespace = (if namespace = ''telegram'' then ''tg:fts'' else namespace @ '':fts'')"

definition engine_calls :: "source_bundle list \<Rightarrow> string \<Rightarrow> int \<Rightarrow>
    (string, search_candidate list call) dict" where
  "engine_calls bundles query top_k =
     fold (\<lambda>b d. dict_set (federated_engine_name (bu_namespace b)) (bu_search_native b query top_k) d)
       (filter bu_supports_federated_search bundles) []"

record search_settings =
  se_rerank_pool_size :: int
  se_federated_timeout_seconds :: rat
  se_federated_result_quota :: int

definition init_error_status :: "string \<times> string \<Rightarrow> source_status" where
  "init_error_status p =
     \<lparr>ss_name = fst p, ss_status = StatusError, ss_reason = Some (snd p), ss_candidate_count = 0,
      ss_elapsed_ms = Some 0\<rparr>"

text \<open>
  \<open>local search_query original_query top_k pool_size\<close> is the local search on its
  worker thread; \<open>pool_size_for\<close> is \<open>_active_filter_pool_size\<close>.
\<close>

definition search_async ::
  "(string \<Rightarrow> string \<Rightarrow> int \<Rightarrow> int \<Rightarrow> py_exception + search_candidate list) \<Rightarrow> (int \<Rightarrow> int \<Rightarrow> int) \<Rightarrow>
   (string \<times> string) list \<Rightarrow> source_bundle list \<Rightarrow> acronyms \<Rightarrow> nat \<Rightarrow> search_settings \<Rightarrow>
   string \<Rightarrow> int \<Rightarrow> bool \<Rightarrow> bool \<Rightarrow> bool \<Rightarrow>
   py_exception + search_candidate list \<times> source_status list" where
  "search_async local_search pool_size_for init_errors bundles acronyms fuzzy settings
      query top_k rerank expand_query include_federated =
     (let persistent_status = map init_error_status init_errors;
          pool_size = (if rerank then se_rerank_pool_size settings else top_k);
          active_pool_size = pool_size_for top_k pool_size;
          expanded_query =
            (if expand_query
             then (let x = eq_expanded_text (expand acronyms fuzzy query) in if x = '''' then query else x)
             else query);
          calls = engine_calls bundles expanded_query top_k
      in try_bind (local_search expanded_query query top_k active_pool_size) (\<lambda>local_candidates.
         if include_federated \<and> calls \<noteq> []
         then try_bind (fanout_federated calls (se_federated_timeout_seconds settings)) (\<lambda>fed_outcomes.
           let fed_candidates = concat (map fo_candidates fed_outcomes)
           in Inr (merge_with_federated_quota local_candidates fed_candidates top_k
                     (se_federated_result_quota settings),
                   persistent_status @ outcomes_to_source_status (map FederatedOutcome fed_outcomes)))
         else Inr (py_take top_k (sorted_desc sc_fused_score local_candidates), persistent_status)))"

section \<open>Correctness of the merge\<close>

lemma length_py_take: "0 \<le> n \<Longrightarrow> length (py_take n xs) = min (nat n) (length xs)"
  by (simp add: py_take_def)

lemma take_min_length: "take (min n (length xs)) xs = take n xs"
  by (simp add: min_def)

lemma sorted_wrt_take: "sorted_wrt R xs \<Longrightarrow> sorted_wrt R (take n xs)"
  by (metis append_take_drop_id sorted_wrt_append)

text \<open>With a quota that fits, the merge returns at most the requested number of results:
  the best local ones in descending order, then the first meaningful federated ones in
  the provider's order; federated results never take more than their quota, and slots
  they do not use go to local results.\<close>

theorem merge_with_federated_quota_spec:
  assumes "0 \<le> quota" and "quota \<le> top_k" and "fed' = filter (\<lambda>c. \<not> is_low_signal_federated_candidate c) fed"
  shows "\<exists>top_local. merge_with_federated_quota loc fed top_k quota
           = top_local @ take (nat quota) fed'
     \<and> length (merge_with_federated_quota loc fed top_k quota) \<le> nat top_k
     \<and> length top_local = min (nat top_k - min (nat quota) (length fed')) (length loc)
     \<and> sorted_wrt (\<lambda>x y. sc_fused_score y \<le> sc_fused_score x) top_local
     \<and> (\<forall>x \<in> set top_local. \<forall>y \<in># mset loc - mset top_local. sc_fused_score y \<le> sc_fused_score x)"
proof -
  define n where "n = min (nat quota) (length fed')"
  have fs: "min quota (int (length fed')) = int n" using assms(1) by (auto simp: n_def min_def nat_le_iff)
  have nk: "n \<le> nat top_k" using assms by (simp add: n_def min_def) linarith
  let ?s = "sorted_desc sc_fused_score loc"
  let ?top = "take (nat top_k - n) ?s"
  have slots: "nat (top_k - int n) = nat top_k - n" and nonneg: "0 \<le> top_k - int n"
    using nk assms by auto
  have merge: "merge_with_federated_quota loc fed top_k quota = ?top @ take (nat quota) fed'"
  proof -
    have "py_take (top_k - int n) ?s = ?top" using nonneg by (simp add: py_take_def slots)
    moreover have "py_take (int n) fed' = take (nat quota) fed'"
      by (simp add: py_take_def n_def take_min_length)
    ultimately show ?thesis
      unfolding merge_with_federated_quota_def Let_def assms(3) [symmetric] fs by simp
  qed
  have "mset loc = mset ?top + mset (drop (nat top_k - n) ?s)"
    by (metis append_take_drop_id mset_append mset_sorted_desc)
  then have rest: "mset loc - mset ?top = mset (drop (nat top_k - n) ?s)" by simp
  have "sorted_wrt (\<lambda>x y. sc_fused_score y \<le> sc_fused_score x) (?top @ drop (nat top_k - n) ?s)"
    unfolding append_take_drop_id by (rule sorted_desc_sorted)
  then have "\<forall>x \<in> set ?top. \<forall>y \<in> set (drop (nat top_k - n) ?s). sc_fused_score y \<le> sc_fused_score x"
    unfolding sorted_wrt_append by blast
  moreover have "sorted_wrt (\<lambda>x y. sc_fused_score y \<le> sc_fused_score x) ?top"
    by (rule sorted_wrt_take [OF sorted_desc_sorted])
  moreover have "length ?top = min (nat top_k - min (nat quota) (length fed')) (length loc)"
    by (simp add: n_def min.commute)
  moreover have "length (?top @ take (nat quota) fed') \<le> nat top_k"
  proof -
    have "length (take (nat quota) fed') = n" by (simp add: n_def min.commute)
    moreover have "length ?top \<le> nat top_k - n" by simp
    ultimately show ?thesis using nk unfolding length_append by linarith
  qed
  ultimately show ?thesis unfolding merge by (intro exI [of _ ?top]) (auto simp: rest)
qed

definition sample_candidate :: "string \<Rightarrow> string \<Rightarrow> rat \<Rightarrow> search_candidate" where
  "sample_candidate ns snippet score =
     \<lparr>sc_ref = ns @ '':1'', sc_namespace = ns, sc_descriptor_key = ns, sc_source_kind = ''message'',
      sc_retrieval_kind = ''tg:fts'', sc_title = None, sc_snippet = snippet, sc_fused_score = score,
      sc_can_read = True, sc_can_materialize = False, sc_chunk_id = None, sc_heading_path = None,
      sc_provenance = None, sc_matched_engines = [], sc_engine_scores = None,
      sc_source_native_score = None, sc_source_native_rank = None, sc_provider_metadata = None\<rparr>"

lemma sample_meaningful:
  "filter (\<lambda>c. \<not> is_low_signal_federated_candidate c)
     [sample_candidate ''telegram'' ''ok'' 0, sample_candidate ''telegram'' ''meeting at noon'' 0]
   = [sample_candidate ''telegram'' ''meeting at noon'' 0]"
  by code_simp

theorem merge_with_federated_quota_spec_witness:
  "length (merge_with_federated_quota [sample_candidate ''a'' ''x'' 1, sample_candidate ''b'' ''y'' 2]
     [sample_candidate ''telegram'' ''ok'' 0, sample_candidate ''telegram'' ''meeting at noon'' 0] 2 1) \<le> 2"
  using merge_with_federated_quota_spec [OF _ _ sample_meaningful [symmetric], of 1 2
      "[sample_candidate ''a'' ''x'' 1, sample_candidate ''b'' ''y'' 2]"] by auto

lemma merge_length:
  assumes "0 \<le> quota" and "quota \<le> top_k"
  shows "int (length (merge_with_federated_quota loc fed top_k quota)) \<le> top_k"
proof -
  let ?fed = "filter (\<lambda>c. \<not> is_low_signal_federated_candidate c) fed"
  define n where "n = min quota (int (length ?fed))"
  have n: "0 \<le> n" "n \<le> top_k" using assms by (auto simp: n_def)
  have "length (merge_with_federated_quota loc fed top_k quota)
      = min (nat (top_k - n)) (length loc) + min (nat n) (length ?fed)"
    using n unfolding merge_with_federated_quota_def Let_def n_def [symmetric]
    by (simp add: length_py_take)
  also have "\<dots> \<le> nat (top_k - n) + nat n" by (intro add_mono) simp_all
  finally show ?thesis using n by linarith
qed

text \<open>With a quota above the requested number of results, and enough meaningful federated
  candidates, the merge returns more results than requested (the local slot count goes
  negative and the slice drops from the end instead).\<close>

theorem merge_quota_overflow:
  assumes "0 \<le> top_k" and "top_k < quota"
    and "quota \<le> int (length (filter (\<lambda>c. \<not> is_low_signal_federated_candidate c) fed))"
  shows "top_k < int (length (merge_with_federated_quota loc fed top_k quota))"
  using assms by (simp add: merge_with_federated_quota_def Let_def py_take_def)

theorem merge_quota_overflow_witness:
  "(0 :: int) < int (length (merge_with_federated_quota [] [sample_candidate ''telegram'' ''ok'' 0,
     sample_candidate ''telegram'' ''meeting at noon'' 0] 0 1))"
  by (rule merge_quota_overflow, simp, simp, unfold sample_meaningful, simp)

section \<open>Soft failures\<close>

definition crashes :: "rat \<Rightarrow> 'a call \<Rightarrow> bool" where
  "crashes timeout fn \<longleftrightarrow> ca_seconds fn \<le> timeout \<and> (\<exists>m. ca_result fn = Inl (OtherException m))"

definition answers :: "rat \<Rightarrow> 'a call \<Rightarrow> 'a option" where
  "answers timeout fn =
     (if ca_seconds fn \<le> timeout then (case ca_result fn of Inr x \<Rightarrow> Some x | Inl _ \<Rightarrow> None) else None)"

lemma run_federated_engine_cases:
  "case run_federated_engine name fn timeout of
     Inl e \<Rightarrow> crashes timeout fn
   | Inr fo \<Rightarrow> \<not> crashes timeout fn \<and> fo_name fo = name
       \<and> (fo_status fo = StatusOk \<longleftrightarrow> answers timeout fn \<noteq> None)
       \<and> fo_candidates fo = (case answers timeout fn of None \<Rightarrow> [] | Some cs \<Rightarrow> cs)
       \<and> (fo_reason fo = None \<longleftrightarrow> answers timeout fn \<noteq> None)"
  by (auto simp: run_federated_engine_def crashes_def answers_def federated_outcome_def unhandled_def
      split: sum.splits py_exception.splits)

lemma fanout_no_crash:
  "\<forall>(name, fn) \<in> set calls. \<not> crashes timeout fn \<Longrightarrow> \<exists>outcomes. fanout_federated calls timeout = Inr outcomes"
proof (induction calls)
  case (Cons p rest)
  obtain name fn where "p = (name, fn)" by (cases p)
  with Cons run_federated_engine_cases [where name = name and fn = fn and timeout = timeout] show ?case
    by (auto split: sum.splits)
qed simp

lemma fanout_names: "fanout_federated calls timeout = Inr outcomes \<Longrightarrow> map fo_name outcomes = map fst calls"
proof (induction calls arbitrary: outcomes)
  case (Cons p rest)
  obtain name fn where p: "p = (name, fn)" by (cases p)
  with Cons.prems obtain fo os where "run_federated_engine name fn timeout = Inr fo"
    and "fanout_federated rest timeout = Inr os" and "outcomes = fo # os"
    by (auto simp: try_bind_Inr_iff)
  with Cons.IH run_federated_engine_cases [where name = name and fn = fn and timeout = timeout] p show ?case by auto
qed simp

text \<open>The fan-out does not fail fast: unless a provider raises an exception outside the
  handled classes before its timeout, every provider gets exactly one outcome, in order;
  it is ok with the provider's candidates if the provider answered in time, and
  otherwise empty with a reason.  An unhandled exception makes the whole fan-out raise.\<close>

theorem fanout_federated_spec:
  "case fanout_federated calls timeout of
     Inl e \<Rightarrow> \<exists>(name, fn) \<in> set calls. crashes timeout fn
   | Inr outcomes \<Rightarrow> (\<forall>(name, fn) \<in> set calls. \<not> crashes timeout fn)
       \<and> map fo_name outcomes = map fst calls
       \<and> map fo_candidates outcomes
           = map (\<lambda>(name, fn). case answers timeout fn of None \<Rightarrow> [] | Some cs \<Rightarrow> cs) calls
       \<and> map (\<lambda>o'. fo_reason o' = None) outcomes = map (\<lambda>(name, fn). answers timeout fn \<noteq> None) calls"
proof (induction calls)
  case Nil
  then show ?case by simp
next
  case (Cons p rest)
  obtain name fn where p: "p = (name, fn)" by (cases p)
  note one = run_federated_engine_cases [where name = name and fn = fn and timeout = timeout]
  show ?case
  proof (cases "run_federated_engine name fn timeout")
    case (Inl e)
    with one p show ?thesis by simp
  next
    case (Inr fo)
    with Cons one p show ?thesis by (cases "fanout_federated rest timeout") auto
  qed
qed

theorem fanout_federated_spec_witness:
  "fanout_federated [(''tg:fts'', \<lparr>ca_result = Inl (OtherException ''KeyError''), ca_seconds = 1\<rparr>)] 3
     = Inl (OtherException ''KeyError'')
   \<and> (\<exists>(name, fn) \<in> set [(''tg:fts'', \<lparr>ca_result = Inl (OtherException ''KeyError''), ca_seconds = 1\<rparr>
        :: search_candidate list call)]. crashes 3 fn)"
proof -
  have f: "fanout_federated [(''tg:fts'', \<lparr>ca_result = Inl (OtherException ''KeyError''), ca_seconds = 1\<rparr>)] 3
     = Inl (OtherException ''KeyError'')"
    by (simp add: run_federated_engine_def unhandled_def)
  with fanout_federated_spec [of "[(''tg:fts'', \<lparr>ca_result = Inl (OtherException ''KeyError''),
      ca_seconds = 1\<rparr>)]" 3] show ?thesis by simp
qed

text \<open>A federated search survives its providers: if the local search succeeds and no
  provider crashes with an unhandled exception, it returns at most the requested number
  of candidates, and one status per failed source start and per provider, in order,
  counting the provider's candidates.\<close>

theorem search_async_survives:
  assumes "\<And>q n m. local_search q query n m = Inr loc"
    and "\<forall>b \<in> set bundles. \<forall>q n. \<not> crashes (se_federated_timeout_seconds settings) (bu_search_native b q n)"
    and "0 \<le> se_federated_result_quota settings" and "se_federated_result_quota settings \<le> top_k"
  shows "\<exists>cands statuses. search_async local_search pool_size_for errs bundles acr fuzzy settings
            query top_k rerank expand_query True = Inr (cands, statuses)
     \<and> int (length cands) \<le> top_k
     \<and> (\<exists>fed. statuses = map init_error_status errs @ fed
          \<and> set (map ss_name fed)
              = federated_engine_name ` bu_namespace ` {b \<in> set bundles. bu_supports_federated_search b}
          \<and> distinct (map ss_name fed))"
proof -
  let ?q = "if expand_query then (let x = eq_expanded_text (expand acr fuzzy query)
      in if x = '''' then query else x) else query"
  let ?t = "se_federated_timeout_seconds settings"
  let ?bs = "filter bu_supports_federated_search bundles"
  define calls where "calls = engine_calls bundles ?q top_k"
  have gen: "set (fold (\<lambda>b d. dict_set (federated_engine_name (bu_namespace b)) (bu_search_native b ?q top_k) d) bs d)
        \<subseteq> set d \<union> (\<lambda>b. (federated_engine_name (bu_namespace b), bu_search_native b ?q top_k)) ` set bs
      \<and> fst ` set (fold (\<lambda>b d. dict_set (federated_engine_name (bu_namespace b)) (bu_search_native b ?q top_k) d) bs d)
        = fst ` set d \<union> federated_engine_name ` bu_namespace ` set bs
      \<and> (dict_ok d \<longrightarrow> dict_ok (fold (\<lambda>b d. dict_set (federated_engine_name (bu_namespace b))
            (bu_search_native b ?q top_k) d) bs d))" for bs d
  proof (induction bs arbitrary: d)
    case Nil
    then show ?case by simp
  next
    case (Cons b bs)
    let ?d = "dict_set (federated_engine_name (bu_namespace b)) (bu_search_native b ?q top_k) d"
    have d: "set ?d \<subseteq> insert (federated_engine_name (bu_namespace b), bu_search_native b ?q top_k) (set d)"
      by (rule set_dict_set_subset)
    note IH = Cons.IH [of ?d]
    show ?case
    proof (intro conjI)
      show "set (fold (\<lambda>b d. dict_set (federated_engine_name (bu_namespace b)) (bu_search_native b ?q top_k) d) (b # bs) d)
        \<subseteq> set d \<union> (\<lambda>b. (federated_engine_name (bu_namespace b), bu_search_native b ?q top_k)) ` set (b # bs)"
        using conjunct1 [OF IH] d unfolding fold_simps list.set image_insert by blast
    qed (use IH in \<open>auto simp: dict_ok_set\<close>)
  qed
  have calls: "set calls \<subseteq> (\<lambda>b. (federated_engine_name (bu_namespace b), bu_search_native b ?q top_k)) ` set ?bs"
    and names: "fst ` set calls = federated_engine_name ` bu_namespace ` set ?bs"
    and dist: "distinct (map fst calls)"
    using gen [of ?bs "[]"] by (simp_all add: calls_def engine_calls_def)
  have "\<forall>(name, fn) \<in> set calls. \<not> crashes ?t fn" using calls assms(2) by auto
  then obtain outcomes where out: "fanout_federated calls ?t = Inr outcomes"
    using fanout_no_crash by blast
  have onames: "map fo_name outcomes = map fst calls" using fanout_names [OF out] .
  have local_ok: "local_search ?q query top_k m = Inr loc" for m by (rule assms(1))
  show ?thesis
  proof (cases "calls = []")
    case True
    with local_ok names assms(3,4) show ?thesis
      by (auto simp: search_async_def Let_def calls_def [symmetric] length_py_take)
  next
    case False
    define cands where "cands = merge_with_federated_quota loc (concat (map fo_candidates outcomes)) top_k
        (se_federated_result_quota settings)"
    have "int (length cands) \<le> top_k"
      unfolding cands_def using assms(3,4) by (rule merge_length)
    moreover have "search_async local_search pool_size_for errs bundles acr fuzzy settings
            query top_k rerank expand_query True
        = Inr (cands, map init_error_status errs @ outcomes_to_source_status (map FederatedOutcome outcomes))"
      using False local_ok out by (simp add: search_async_def Let_def calls_def [symmetric] cands_def)
    moreover have m: "map ss_name (outcomes_to_source_status (map FederatedOutcome outcomes)) = map fst calls"
      using onames by (simp add: outcomes_to_source_status_def source_status_of_def comp_def)
    moreover have "set (map ss_name (outcomes_to_source_status (map FederatedOutcome outcomes)))
        = federated_engine_name ` bu_namespace ` {b \<in> set bundles. bu_supports_federated_search b}"
      unfolding m using names by simp
    ultimately show ?thesis using dist by metis
  qed
qed

theorem search_async_survives_witness:
  "\<exists>cands statuses. search_async (\<lambda>q query n m. Inr [sample_candidate ''a'' ''x'' 1]) (\<lambda>k n. n) []
      [\<lparr>bu_namespace = ''telegram'', bu_supports_federated_search = True,
        bu_search_native = \<lambda>q n. \<lparr>ca_result = Inl (HTTPError ''down''), ca_seconds = 1\<rparr>\<rparr>]
      [] 1 \<lparr>se_rerank_pool_size = 5, se_federated_timeout_seconds = 3, se_federated_result_quota = 1\<rparr>
      ''hello'' 2 True True True = Inr (cands, statuses) \<and> int (length cands) \<le> 2"
  using search_async_survives [where local_search = "\<lambda>q query n m. Inr [sample_candidate ''a'' ''x'' 1]"
      and loc = "[sample_candidate ''a'' ''x'' 1]" and pool_size_for = "\<lambda>k n. n" and errs = "[]"
      and bundles = "[\<lparr>bu_namespace = ''telegram'', bu_supports_federated_search = True,
        bu_search_native = \<lambda>q n. \<lparr>ca_result = Inl (HTTPError ''down''), ca_seconds = 1\<rparr>\<rparr>]"
      and acr = "[]" and fuzzy = 1 and query = "''hello''" and top_k = 2 and rerank = True
      and expand_query = True
      and settings = "\<lparr>se_rerank_pool_size = 5, se_federated_timeout_seconds = 3, se_federated_result_quota = 1\<rparr>"]
  by (auto simp: crashes_def)

section \<open>References and durations\<close>

text \<open>\<open>body.rpartition(sep)\<close>: the parts around the last occurrence.\<close>

definition str_rpartition :: "string \<Rightarrow> string \<Rightarrow> (string \<times> string) option" where
  "str_rpartition sep body =
     (case str_rfind body sep of
        None \<Rightarrow> None
      | Some i \<Rightarrow> Some (take i body, drop (i + length sep) body))"

definition parse_telegram_message_ref :: "string \<Rightarrow> py_exception + string \<times> string" where
  "parse_telegram_message_ref ref =
     (let unknown = Inl (ValueException (''Unknown source ref: '' @ ref)) in
      if \<not> py_startswith ref ''telegram:'' then unknown
      else case str_rpartition '':message:'' (removeprefix ''telegram:'' ref) of
        None \<Rightarrow> unknown
      | Some (document_ref, message_id) \<Rightarrow>
          if \<not> py_startswith document_ref ''dialog:'' then unknown
          else if py_int (removeprefix ''dialog:'' document_ref) = None \<or> py_int message_id = None
          then unknown
          else Inr (document_ref, document_ref @ '':message:'' @ message_id))"

definition is_telegram_message_ref :: "string \<Rightarrow> bool" where
  "is_telegram_message_ref ref = (py_startswith ref ''telegram:dialog:'' \<and> str_contains '':message:'' ref)"

text \<open>Python's \<open>round\<close>: to the nearest integer, halves to the even one.\<close>

definition py_round :: "rat \<Rightarrow> int" where
  "py_round x =
     (let f = \<lfloor>x\<rfloor>; d = x - of_int f
      in if d < 1/2 then f else if 1/2 < d then f + 1 else if even f then f else f + 1)"

fun decimal_digits :: "nat \<Rightarrow> string" where
  "decimal_digits n = (if n < 10 then [char_of (48 + n)] else decimal_digits (n div 10) @ [char_of (48 + n mod 10)])"

declare decimal_digits.simps [simp del]

definition show_int :: "int \<Rightarrow> string" where
  "show_int i = (if i < 0 then CHR ''-'' # decimal_digits (nat (- i)) else decimal_digits (nat i))"

definition pad2 :: "int \<Rightarrow> string" where
  "pad2 i = (if 0 \<le> i \<and> i < 10 then CHR ''0'' # show_int i else show_int i)"

definition format_elapsed_ms :: "rat \<Rightarrow> string" where
  "format_elapsed_ms elapsed_ms =
     (if elapsed_ms < 1000 then show_int (py_round elapsed_ms) @ ''ms''
      else
        let total_seconds = max 1 (py_round (elapsed_ms / 1000));
            seconds = total_seconds mod 60;
            total_minutes = total_seconds div 60;
            minutes = total_minutes mod 60;
            hours = total_minutes div 60
        in if hours \<noteq> 0 then show_int hours @ ''h'' @ pad2 minutes @ ''m'' @ pad2 seconds @ ''s''
           else if minutes \<noteq> 0 then show_int minutes @ ''m'' @ pad2 seconds @ ''s''
           else show_int seconds @ ''s'')"

lemma occurs_at_split: "occurs_at sub s i \<Longrightarrow> s = take i s @ sub @ drop (i + length sub) s"
  by (metis add.commute append_take_drop_id drop_drop occurs_at_def)

lemma rpartition_split: "str_rpartition sep s = Some (a, b) \<Longrightarrow> s = a @ sep @ b"
  by (auto simp: str_rpartition_def dest!: str_rfind_Some occurs_at_split split: option.splits)

lemma startswith_removeprefix: "py_startswith s p \<Longrightarrow> s = p @ removeprefix p s"
  by (metis append_take_drop_id py_startswith_def removeprefix_def)

lemma occurs_contains: "str_contains sub (a @ sub @ b)"
proof -
  have "occurs_at sub (a @ sub @ b) (length a)" by (simp add: occurs_at_def)
  then show ?thesis unfolding str_contains_def
    by (rule bexI [of _ "length a"]) (simp del: upt_Suc)
qed

text \<open>A parsed Telegram reference splits into a dialog and a unit whose numbers are
  integers, and public reference, dialog and unit are the same text: printing the unit
  behind the namespace gives the reference back.\<close>

theorem parse_telegram_message_ref_sound:
  assumes "parse_telegram_message_ref ref = Inr (document_ref, unit_ref)"
  shows "ref = ''telegram:'' @ unit_ref
     \<and> (\<exists>d m. document_ref = ''dialog:'' @ d \<and> unit_ref = document_ref @ '':message:'' @ m
          \<and> py_int d \<noteq> None \<and> py_int m \<noteq> None)
     \<and> is_telegram_message_ref ref"
proof -
  from assms obtain m where pre: "py_startswith ref ''telegram:''"
    and part: "str_rpartition '':message:'' (removeprefix ''telegram:'' ref) = Some (document_ref, m)"
    and dialog: "py_startswith document_ref ''dialog:''"
    and ints: "py_int (removeprefix ''dialog:'' document_ref) \<noteq> None" "py_int m \<noteq> None"
    and unit: "unit_ref = document_ref @ '':message:'' @ m"
    unfolding parse_telegram_message_ref_def Let_def by (auto split: if_splits option.splits)
  have ref: "ref = ''telegram:'' @ unit_ref"
    using startswith_removeprefix [OF pre] rpartition_split [OF part] unit by simp
  obtain d where d: "document_ref = ''dialog:'' @ d" "py_int d \<noteq> None"
    using startswith_removeprefix [OF dialog] ints(1) by metis
  have "py_startswith ref ''telegram:dialog:''"
    by (simp add: py_startswith_def ref unit d)
  moreover have "str_contains '':message:'' ref"
    using occurs_contains [of "'':message:''" "''telegram:'' @ document_ref" m] by (simp add: ref unit)
  ultimately show ?thesis using ref d ints unit by (auto simp: is_telegram_message_ref_def)
qed

theorem parse_telegram_message_ref_sound_witness:
  "parse_telegram_message_ref ''telegram:dialog:-100:message:7'' = Inr (''dialog:-100'', ''dialog:-100:message:7'')
   \<and> is_telegram_message_ref ''telegram:dialog:-100:message:7''"
proof -
  have p: "parse_telegram_message_ref ''telegram:dialog:-100:message:7''
      = Inr (''dialog:-100'', ''dialog:-100:message:7'')"
    by code_simp
  with parse_telegram_message_ref_sound [OF p] show ?thesis by blast
qed

end
