(* ===== verification/Extraction_Cache.thy ===== *)
theory Extraction_Cache
  imports Caches Py_Strings
begin

text \<open>
  The extraction cache of \<open>storage/cache.py\<close>: one row per chunk text and model signature,
  with the entities and the CO_OCCURS relations found in the text as JSON.  A JSON column
  is the value it encodes, None when it does not parse.
\<close>

type_synonym entity_payload = "string \<times> string \<times> string"
type_synonym cached_extraction = "entity_payload list \<times> relation list"

record extraction_row =
  xr_cache_key :: string
  xr_entities :: "entity_payload list option"
  xr_co_occurs :: "relation list option"
  xr_created_at :: timestamp

type_synonym extraction_cache = "extraction_row cache_tables"

section \<open>Signature and key\<close>

definition entity_types_hash :: "(string \<Rightarrow> string) \<Rightarrow> string list \<Rightarrow> string" where
  "entity_types_hash blake3 entity_types = blake3 (py_join '','' (sort entity_types))"

text \<open>\<open>threshold\<close> is the text \<open>str(threshold)\<close>.\<close>

definition model_sig_of :: "(string \<Rightarrow> string) \<Rightarrow> string \<Rightarrow> string list \<Rightarrow> string \<Rightarrow> string" where
  "model_sig_of blake3 model_name entity_types threshold =
     blake3 (model_name @ entity_types_hash blake3 entity_types @ threshold)"

definition make_key :: "(string \<Rightarrow> string) \<Rightarrow> string \<Rightarrow> string \<Rightarrow> string" where
  "make_key blake3 model_sig chunk_text = blake3 (blake3 chunk_text @ model_sig)"

definition extraction_should_invalidate :: "string \<Rightarrow> extraction_cache \<Rightarrow> bool" where
  "extraction_should_invalidate model_sig c = sentinel_differs ''model_sig'' model_sig c"

definition extraction_clear :: "string \<Rightarrow> extraction_cache \<Rightarrow> extraction_cache" where
  "extraction_clear model_sig c = wipe ''model_sig'' model_sig c"

definition update_model_sig :: "string \<Rightarrow> extraction_cache \<Rightarrow> extraction_cache" where
  "update_model_sig model_sig c = write_sentinel ''model_sig'' model_sig c"

definition open_extraction_cache :: "string \<Rightarrow> extraction_cache \<Rightarrow> extraction_cache" where
  "open_extraction_cache model_sig c =
     (if extraction_should_invalidate model_sig c then extraction_clear model_sig c
      else update_model_sig model_sig c)"

section \<open>Lookup, store, prune\<close>

definition key_to_chunk :: "(string \<Rightarrow> string) \<Rightarrow> chunk list \<Rightarrow> (string, chunk) dict" where
  "key_to_chunk key chunks = fold (\<lambda>c d. dict_set (key (ch_text c)) c d) chunks []"

fun add_found :: "extraction_row list \<Rightarrow> (string, cached_extraction) dict \<Rightarrow>
    (string, cached_extraction) dict option" where
  "add_found [] found = Some found"
| "add_found (r # rs) found =
     (case (xr_entities r, xr_co_occurs r) of
        (Some ents, Some co) \<Rightarrow> add_found rs (dict_set (xr_cache_key r) (ents, co) found)
      | _ \<Rightarrow> None)"

fun find_keys :: "extraction_row list \<Rightarrow> string list list \<Rightarrow> (string, cached_extraction) dict \<Rightarrow>
    (string, cached_extraction) dict option" where
  "find_keys rows [] found = Some found"
| "find_keys rows (batch # bs) found =
     (case add_found (filter (\<lambda>r. xr_cache_key r \<in> set batch) rows) found of
        None \<Rightarrow> None | Some found' \<Rightarrow> find_keys rows bs found')"

fun collect_hits :: "(string, cached_extraction) dict \<Rightarrow> (string, chunk) dict \<Rightarrow>
    (string, cached_extraction) dict \<times> chunk list \<Rightarrow>
    (string, cached_extraction) dict \<times> chunk list" where
  "collect_hits found [] acc = acc"
| "collect_hits found ((key, c) # rest) (hits, misses) =
     collect_hits found rest
       (case dict_get found key of
          Some v \<Rightarrow> (dict_set (ch_chunk_id c) v hits, misses)
        | None \<Rightarrow> (hits, misses @ [c]))"

definition lookup_batch :: "(string \<Rightarrow> string) \<Rightarrow> chunk list \<Rightarrow> extraction_cache \<Rightarrow>
    (string, cached_extraction) dict \<times> chunk list" where
  "lookup_batch key chunks c =
     (if chunks = [] then ([], [])
      else
        let by_key = key_to_chunk key chunks
        in case find_keys (ct_rows c) (batches CACHE_BATCH (dict_keys by_key)) [] of
             None \<Rightarrow> ([], chunks)
           | Some found \<Rightarrow> collect_hits found by_key ([], []))"

definition store_one :: "(string \<Rightarrow> string) \<Rightarrow> timestamp \<Rightarrow> (string, cached_extraction) dict \<Rightarrow>
    chunk \<Rightarrow> extraction_cache \<Rightarrow> extraction_cache" where
  "store_one key now results ch c =
     (case dict_get results (ch_chunk_id ch) of
        None \<Rightarrow> c
      | Some (ents, co) \<Rightarrow> c\<lparr>ct_rows := insert_or_ignore xr_cache_key
          \<lparr>xr_cache_key = key (ch_text ch), xr_entities = Some ents, xr_co_occurs = Some co,
           xr_created_at = now\<rparr> (ct_rows c)\<rparr>)"

definition store_batch :: "(string \<Rightarrow> string) \<Rightarrow> timestamp \<Rightarrow> chunk list \<Rightarrow>
    (string, cached_extraction) dict \<Rightarrow> extraction_cache \<Rightarrow> extraction_cache" where
  "store_batch key now chunks results c = fold (store_one key now results) chunks c"

definition prune_orphans :: "(string \<Rightarrow> string) \<Rightarrow> string list \<Rightarrow> extraction_cache \<Rightarrow>
    nat \<times> extraction_cache" where
  "prune_orphans key live_chunk_texts c =
     (if live_chunk_texts = [] then (0, c)
      else
        let live_keys = key ` set live_chunk_texts;
            orphan_list = filter (\<lambda>k. k \<notin> live_keys) (remdups (map xr_cache_key (ct_rows c)))
        in if orphan_list = [] then (0, c)
           else (length orphan_list,
                 c\<lparr>ct_rows := fold (\<lambda>batch. delete_where (\<lambda>r. xr_cache_key r \<in> set batch))
                     (batches CACHE_BATCH orphan_list) (ct_rows c)\<rparr>))"

section \<open>What the batched query finds\<close>

definition extraction_ok :: "extraction_cache \<Rightarrow> bool" where
  "extraction_ok c \<longleftrightarrow> pk_ok xr_cache_key (ct_rows c)
     \<and> (\<forall>r \<in> set (ct_rows c). xr_entities r \<noteq> None \<and> xr_co_occurs r \<noteq> None)"

definition payload :: "extraction_row \<Rightarrow> cached_extraction" where
  "payload r = (the (xr_entities r), the (xr_co_occurs r))"

definition cached :: "extraction_cache \<Rightarrow> string \<Rightarrow> cached_extraction option" where
  "cached c k = map_option payload (fetch_key xr_cache_key (ct_rows c) k)"

lemma add_found_spec:
  assumes "\<forall>r \<in> set rs. xr_entities r \<noteq> None \<and> xr_co_occurs r \<noteq> None" and "pk_ok xr_cache_key rs"
  shows "\<exists>d. add_found rs found = Some d \<and> dict_get d =
     dict_get found ++ (\<lambda>k. map_option payload (fetch_key xr_cache_key rs k))"
  using assms
proof (induction rs arbitrary: found)
  case Nil
  then show ?case by (simp add: map_add_def)
next
  case (Cons r rs)
  then obtain es cs where r: "xr_entities r = Some es" "xr_co_occurs r = Some cs" by auto
  have "\<exists>d. add_found rs (dict_set (xr_cache_key r) (es, cs) found) = Some d \<and> dict_get d =
      dict_get (dict_set (xr_cache_key r) (es, cs) found) ++
        (\<lambda>k. map_option payload (fetch_key xr_cache_key rs k))"
    using Cons.prems by (intro Cons.IH) (simp_all add: pk_ok_def)
  then obtain d where d: "add_found rs (dict_set (xr_cache_key r) (es, cs) found) = Some d"
    "dict_get d = dict_get (dict_set (xr_cache_key r) (es, cs) found) ++
       (\<lambda>k. map_option payload (fetch_key xr_cache_key rs k))"
    by blast
  have "fetch_key xr_cache_key rs (xr_cache_key r) = None"
    using Cons.prems(2) by (simp add: fetch_key_None_iff pk_ok_def)
  moreover have "payload r = (es, cs)" using r by (simp add: payload_def)
  ultimately show ?case using d r by (auto simp: map_add_def)
qed

lemma fetch_filter_in:
  "fetch_key key (filter (\<lambda>r. key r \<in> B) rows) k = (if k \<in> B then fetch_key key rows k else None)"
  by (induction rows) auto

lemma find_keys_spec:
  assumes "pk_ok xr_cache_key rows"
    and "\<forall>r \<in> set rows. xr_entities r \<noteq> None \<and> xr_co_occurs r \<noteq> None"
  shows "\<exists>d. find_keys rows bs found = Some d \<and> dict_get d = dict_get found ++
     (\<lambda>k. if k \<in> set (concat bs) then map_option payload (fetch_key xr_cache_key rows k) else None)"
proof (induction bs arbitrary: found)
  case Nil
  then show ?case by (simp add: map_add_def)
next
  case (Cons b bs)
  let ?rs = "filter (\<lambda>r. xr_cache_key r \<in> set b) rows"
  let ?v = "\<lambda>k. map_option payload (fetch_key xr_cache_key rows k)"
  have "pk_ok xr_cache_key ?rs"
    using assms(1) by (simp add: pk_ok_def distinct_map_filter_key)
  with add_found_spec [of ?rs found] assms(2)
  obtain d where d: "add_found ?rs found = Some d"
    "dict_get d = dict_get found ++ (\<lambda>k. if k \<in> set b then ?v k else None)"
    by (auto simp: fetch_filter_in if_distrib cong: if_cong)
  from Cons.IH [of d] obtain d' where d': "find_keys rows bs d = Some d'"
    "dict_get d' = dict_get d ++ (\<lambda>k. if k \<in> set (concat bs) then ?v k else None)"
    by blast
  have "dict_get d' = dict_get found ++ (\<lambda>k. if k \<in> set (concat (b # bs)) then ?v k else None)"
    unfolding d'(2) d(2) by (rule ext) (simp add: map_add_def split: option.splits)
  with d(1) d'(1) show ?case by simp
qed

lemma find_keys_cached:
  assumes "extraction_ok c"
  shows "\<exists>d. find_keys (ct_rows c) (batches CACHE_BATCH ks) [] = Some d
    \<and> (\<forall>k. dict_get d k = (if k \<in> set ks then cached c k else None))"
  using assms find_keys_spec [of "ct_rows c" "batches CACHE_BATCH ks" "[]"]
  by (auto simp: extraction_ok_def cached_def concat_batches CACHE_BATCH_def)

section \<open>Hits and misses of a batch\<close>

lemma key_to_chunk_snoc:
  "key_to_chunk key (cs @ [c]) = dict_set (key (ch_text c)) c (key_to_chunk key cs)"
  by (simp add: key_to_chunk_def)

lemma key_to_chunk_ok: "dict_ok (key_to_chunk key cs)"
  by (induction cs rule: rev_induct) (auto simp: key_to_chunk_snoc key_to_chunk_def [of _ "[]"] dict_ok_set)

lemma key_to_chunk_get:
  "dict_get (key_to_chunk key cs) k = find (\<lambda>c. key (ch_text c) = k) (rev cs)"
  by (induction cs rule: rev_induct) (auto simp: key_to_chunk_snoc key_to_chunk_def [of _ "[]"])

lemma key_to_chunk_member:
  "(k, c) \<in> set (key_to_chunk key cs) \<longleftrightarrow> find (\<lambda>c. key (ch_text c) = k) (rev cs) = Some c"
  using map_of_eq_Some_iff [OF key_to_chunk_ok [of key cs]] by (simp add: key_to_chunk_get)

lemma key_to_chunk_distinct:
  "distinct (map (\<lambda>c. key (ch_text c)) cs) \<Longrightarrow>
     key_to_chunk key cs = map (\<lambda>c. (key (ch_text c), c)) cs"
proof (induction cs rule: rev_induct)
  case Nil
  then show ?case by (simp add: key_to_chunk_def)
next
  case (snoc c cs)
  then have "key (ch_text c) \<notin> fst ` set (key_to_chunk key cs)" by auto
  moreover have "k \<notin> fst ` set d \<Longrightarrow> dict_set k v d = d @ [(k, v)]" for k :: string and v :: chunk and d
    by (induction d) auto
  ultimately show ?case using snoc by (simp add: key_to_chunk_snoc)
qed

definition hit_list :: "(string \<Rightarrow> cached_extraction option) \<Rightarrow> (string \<times> chunk) list \<Rightarrow>
    (string \<times> cached_extraction) list" where
  "hit_list get ds = map (\<lambda>(k, c). (ch_chunk_id c, the (get k))) (filter (\<lambda>(k, c). get k \<noteq> None) ds)"

lemma set_snd_filter: "x \<in> set (map snd (filter (\<lambda>(k, c). P k) ds)) \<longleftrightarrow> (\<exists>k. (k, x) \<in> set ds \<and> P k)"
  by (induction ds) auto

lemma collect_hits_closed:
  assumes "distinct (map (ch_chunk_id \<circ> snd) ds)"
    and "ch_chunk_id ` snd ` set ds \<inter> fst ` set hits = {}"
  shows "collect_hits found ds (hits, misses) =
    (hits @ hit_list (dict_get found) ds,
     misses @ map snd (filter (\<lambda>(k, c). dict_get found k = None) ds))"
  using assms
proof (induction ds arbitrary: hits misses)
  case Nil
  then show ?case by (simp add: hit_list_def)
next
  case (Cons d ds)
  obtain k c where d: "d = (k, c)" by (cases d)
  have new: "i \<notin> fst ` set hits \<Longrightarrow> dict_set i v hits = hits @ [(i, v)]" for i v
    by (induction hits) auto
  show ?case
  proof (cases "dict_get found k")
    case None
    with Cons d show ?thesis by (simp add: hit_list_def)
  next
    case (Some v)
    have "ch_chunk_id ` snd ` set ds \<inter> fst ` set (hits @ [(ch_chunk_id c, v)]) = {}"
      using Cons.prems d by (auto simp: image_image)
    with Cons.IH [of "hits @ [(ch_chunk_id c, v)]" misses] Cons.prems Some d
    show ?thesis by (simp add: hit_list_def new)
  qed
qed

lemma distinct_key_to_chunk_ids:
  assumes "distinct (map ch_chunk_id cs)"
  shows "distinct (map (ch_chunk_id \<circ> snd) (key_to_chunk key cs))"
proof -
  have mem: "c \<in> set cs \<and> k = key (ch_text c)" if "(k, c) \<in> set (key_to_chunk key cs)" for k c
    using that find_Some_iff_set [of _ "rev cs" c] by (auto simp: key_to_chunk_member)
  have "inj_on (ch_chunk_id \<circ> snd) (set (key_to_chunk key cs))"
  proof (rule inj_onI, clarsimp)
    fix k c k' c'
    assume "(k, c) \<in> set (key_to_chunk key cs)" "(k', c') \<in> set (key_to_chunk key cs)"
      "ch_chunk_id c = ch_chunk_id c'"
    with mem assms show "k = k' \<and> c = c'"
      by (metis distinct_map inj_onD)
  qed
  moreover have "distinct (key_to_chunk key cs)"
    using key_to_chunk_ok [of key cs] by (simp add: distinct_map)
  ultimately show ?thesis by (simp add: distinct_map)
qed

lemma lookup_batch_closed:
  assumes "extraction_ok c" and "distinct (map ch_chunk_id chunks)"
  shows "lookup_batch key chunks c =
    (hit_list (cached c) (key_to_chunk key chunks),
     map snd (filter (\<lambda>(k, ch). cached c k = None) (key_to_chunk key chunks)))"
proof (cases "chunks = []")
  case True
  then show ?thesis by (simp add: lookup_batch_def key_to_chunk_def hit_list_def)
next
  case False
  let ?ds = "key_to_chunk key chunks"
  obtain found where found: "find_keys (ct_rows c) (batches CACHE_BATCH (dict_keys ?ds)) [] = Some found"
    "\<And>k. dict_get found k = (if k \<in> set (dict_keys ?ds) then cached c k else None)"
    using find_keys_cached [OF assms(1)] by blast
  have same: "dict_get found k = cached c k" if "(k, x) \<in> set ?ds" for k x
    using that by (force simp: found(2))
  have "hit_list (dict_get found) ?ds = hit_list (cached c) ?ds"
    unfolding hit_list_def by (rule map_cong, rule filter_cong) (auto simp: same)
  moreover have "filter (\<lambda>(k, ch). dict_get found k = None) ?ds = filter (\<lambda>(k, ch). cached c k = None) ?ds"
    by (rule filter_cong) (auto simp: same)
  ultimately show ?thesis
    using False collect_hits_closed [OF distinct_key_to_chunk_ids [OF assms(2)], of key "[]" found "[]"]
    by (simp add: lookup_batch_def found(1) Let_def)
qed

text \<open>
  A batch lookup of chunks with distinct ids answers, for each chunk, by the last
  chunk of the batch with the same key: that one is a hit with the cached payload or a
  miss, while every earlier chunk with the same key is in neither list.
\<close>

theorem lookup_batch_spec:
  assumes "extraction_ok c" and "distinct (map ch_chunk_id chunks)"
    and "lookup_batch key chunks c = (hits, misses)" and "ch \<in> set chunks"
    and "is_last \<longleftrightarrow> find (\<lambda>x. key (ch_text x) = key (ch_text ch)) (rev chunks) = Some ch"
  shows "dict_get hits (ch_chunk_id ch) = (if is_last then cached c (key (ch_text ch)) else None)
    \<and> (ch \<in> set misses \<longleftrightarrow> is_last \<and> cached c (key (ch_text ch)) = None)"
proof -
  let ?ds = "key_to_chunk key chunks"
  have hits: "hits = hit_list (cached c) ?ds"
    and misses: "misses = map snd (filter (\<lambda>(k, ch). cached c k = None) ?ds)"
    using lookup_batch_closed [OF assms(1,2), of key] assms(3) by auto
  have mem: "x \<in> set chunks \<and> k = key (ch_text x)" if "(k, x) \<in> set ?ds" for k x
    using that find_Some_iff_set [of _ "rev chunks" x] by (auto simp: key_to_chunk_member)
  have inj: "x = ch" if "(k, x) \<in> set ?ds" "ch_chunk_id x = ch_chunk_id ch" for k x
    using mem [OF that(1)] that(2) assms(2,4) by (metis distinct_map inj_onD)
  have in_ds: "(k, ch) \<in> set ?ds \<longleftrightarrow> k = key (ch_text ch) \<and> is_last" for k
    using mem by (auto simp: assms(5) key_to_chunk_member)
  have "dict_ok hits"
    using distinct_key_to_chunk_ids [OF assms(2), of key]
    by (auto simp: hits hit_list_def o_def case_prod_unfold intro: distinct_map_filter_key)
  then have "dict_get hits (ch_chunk_id ch) = Some v \<longleftrightarrow> (ch_chunk_id ch, v) \<in> set hits" for v
    by (rule map_of_eq_Some_iff)
  moreover have "(ch_chunk_id ch, v) \<in> set hits \<longleftrightarrow> is_last \<and> cached c (key (ch_text ch)) = Some v" for v
  proof
    assume "(ch_chunk_id ch, v) \<in> set hits"
    then obtain k x where kx: "(k, x) \<in> set ?ds" "ch_chunk_id x = ch_chunk_id ch" "cached c k = Some v"
      by (auto simp: hits hit_list_def)
    moreover from kx(1,2) have "x = ch" by (rule inj)
    ultimately show "is_last \<and> cached c (key (ch_text ch)) = Some v" using in_ds by simp
  next
    assume "is_last \<and> cached c (key (ch_text ch)) = Some v"
    with in_ds [of "key (ch_text ch)"]
    have "(key (ch_text ch), ch) \<in> set (filter (\<lambda>(k, c'). cached c k \<noteq> None) ?ds)"
      "v = the (cached c (key (ch_text ch)))" by simp_all
    then show "(ch_chunk_id ch, v) \<in> set hits"
      unfolding hits hit_list_def set_map by (metis (mono_tags, lifting) case_prod_conv image_eqI)
  qed
  ultimately have "dict_get hits (ch_chunk_id ch) = Some v \<longleftrightarrow>
      is_last \<and> cached c (key (ch_text ch)) = Some v" for v
    by blast
  then have "dict_get hits (ch_chunk_id ch) = (if is_last then cached c (key (ch_text ch)) else None)"
    by (metis option.exhaust)
  moreover have "ch \<in> set misses \<longleftrightarrow> (\<exists>k. (k, ch) \<in> set ?ds \<and> cached c k = None)"
    unfolding misses by (rule set_snd_filter)
  then have "ch \<in> set misses \<longleftrightarrow> is_last \<and> cached c (key (ch_text ch)) = None"
    using in_ds by simp
  ultimately show ?thesis by simp
qed

section \<open>Storing a batch\<close>

fun row_of :: "(string \<Rightarrow> string) \<Rightarrow> timestamp \<Rightarrow> (string, cached_extraction) dict \<Rightarrow> chunk \<Rightarrow>
    extraction_row list" where
  "row_of key now results ch =
     (case dict_get results (ch_chunk_id ch) of
        None \<Rightarrow> []
      | Some (ents, co) \<Rightarrow>
          [\<lparr>xr_cache_key = key (ch_text ch), xr_entities = Some ents, xr_co_occurs = Some co,
            xr_created_at = now\<rparr>])"

lemma store_batch_rows:
  "store_batch key now chunks results c =
     c\<lparr>ct_rows := fold (insert_or_ignore xr_cache_key) (concat (map (row_of key now results) chunks))
        (ct_rows c)\<rparr>"
  unfolding store_batch_def
  by (induction chunks arbitrary: c) (auto simp: store_one_def split: option.splits)

lemma row_of_complete: "r \<in> set (row_of key now results ch) \<Longrightarrow> xr_entities r \<noteq> None \<and> xr_co_occurs r \<noteq> None"
  by (auto split: option.splits)

lemma fold_ignore_subset: "set (fold (insert_or_ignore key) rs t) \<subseteq> set t \<union> set rs"
proof (induction rs arbitrary: t)
  case Nil
  then show ?case by simp
next
  case (Cons r rs)
  have "set (insert_or_ignore key r t) \<subseteq> insert r (set t)" by (auto simp: insert_or_ignore_def)
  with Cons.IH [of "insert_or_ignore key r t"] show ?case by auto
qed

lemma store_batch_ok: "extraction_ok c \<Longrightarrow> extraction_ok (store_batch key now chunks results c)"
  unfolding extraction_ok_def store_batch_rows
  using ignore_table.fold_put_invar fold_ignore_subset row_of_complete by fastforce

lemma store_batch_cached:
  assumes "extraction_ok c"
  shows "cached (store_batch key now chunks results c) k =
    (case cached c k of Some v \<Rightarrow> Some v
     | None \<Rightarrow> map_option payload (find (\<lambda>r. xr_cache_key r = k) (concat (map (row_of key now results) chunks))))"
proof (cases "fetch_key xr_cache_key (ct_rows c) k")
  case (Some r)
  then show ?thesis
    using assms by (simp add: cached_def store_batch_rows extraction_ok_def ignore_table.fold_immutable)
next
  case None
  let ?rs = "concat (map (row_of key now results) chunks)"
  have pk: "pk_ok xr_cache_key (ct_rows c)" using assms by (simp add: extraction_ok_def)
  show ?thesis
  proof (cases "k \<in> xr_cache_key ` set ?rs")
    case True
    then show ?thesis
      using ignore_table.fold_first [OF pk True None] None by (simp add: cached_def store_batch_rows)
  next
    case False
    then have "find (\<lambda>r. xr_cache_key r = k) ?rs = None" by (auto simp: find_None_iff_set)
    with False show ?thesis
      using ignore_table.fold_put_other [OF pk False] None by (simp add: cached_def store_batch_rows)
  qed
qed

lemma find_row_of:
  assumes "distinct (map (\<lambda>ch. key (ch_text ch)) chunks)" and "ch \<in> set chunks"
  shows "find (\<lambda>r. xr_cache_key r = key (ch_text ch)) (concat (map (row_of key now results) chunks)) =
    find (\<lambda>r. True) (row_of key now results ch)"
  using assms
proof (induction chunks)
  case Nil
  then show ?case by simp
next
  case (Cons x chunks)
  have none: "find (\<lambda>r. xr_cache_key r = k) (concat (map (row_of key now results) cs)) = None"
    if "k \<notin> (\<lambda>ch. key (ch_text ch)) ` set cs" for k cs
    using that by (auto simp: find_None_iff_set split: option.splits)
  show ?case
  proof (cases "ch = x")
    case True
    have "find (\<lambda>r. xr_cache_key r = key (ch_text x)) (row_of key now results x) =
        find (\<lambda>r. True) (row_of key now results x)"
      by (auto split: option.splits)
    with True Cons.prems none [of "key (ch_text x)" chunks] show ?thesis
      by (simp add: find_append del: row_of.simps split: option.splits)
  next
    case False
    with Cons.prems have "key (ch_text x) \<noteq> key (ch_text ch)" by auto
    then have "find (\<lambda>r. xr_cache_key r = key (ch_text ch)) (row_of key now results x) = None"
      by (auto split: option.splits)
    with Cons False show ?thesis by (simp add: find_append del: row_of.simps)
  qed
qed

text \<open>
  Storing a batch of chunks with pairwise different keys keeps the cache well formed,
  leaves every cached extraction as it is, and makes exactly the results given for the
  chunks of the batch available under their keys.
\<close>

theorem store_batch_spec:
  assumes "extraction_ok c" and "distinct (map (\<lambda>ch. key (ch_text ch)) chunks)"
    and "c' = store_batch key now chunks results c"
  shows "extraction_ok c'
    \<and> (\<forall>ch \<in> set chunks. cached c' (key (ch_text ch)) =
        (case cached c (key (ch_text ch)) of Some v \<Rightarrow> Some v
         | None \<Rightarrow> dict_get results (ch_chunk_id ch)))
    \<and> (\<forall>k. k \<notin> (\<lambda>ch. key (ch_text ch)) ` set chunks \<longrightarrow> cached c' k = cached c k)"
proof (intro conjI ballI allI impI)
  show "extraction_ok c'" using assms by (simp add: store_batch_ok)
  show "cached c' (key (ch_text ch)) = (case cached c (key (ch_text ch)) of Some v \<Rightarrow> Some v
      | None \<Rightarrow> dict_get results (ch_chunk_id ch))" if "ch \<in> set chunks" for ch
    unfolding assms(3) store_batch_cached [OF assms(1)] find_row_of [OF assms(2) that]
    by (auto simp: payload_def split: option.splits)
  show "cached c' k = cached c k" if "k \<notin> (\<lambda>ch. key (ch_text ch)) ` set chunks" for k
  proof -
    have "find (\<lambda>r. xr_cache_key r = k) (concat (map (row_of key now results) chunks)) = None"
      using that by (auto simp: find_None_iff_set split: option.splits)
    then show ?thesis
      unfolding assms(3) store_batch_cached [OF assms(1)] by (simp split: option.splits)
  qed
qed

section \<open>Pruning\<close>

lemma fold_delete_batches:
  "fold (\<lambda>b. delete_where (\<lambda>r. f r \<in> set b)) bs t = filter (\<lambda>r. f r \<notin> set (concat bs)) t"
  by (induction bs arbitrary: t) (auto simp: delete_where_def intro: filter_cong)

text \<open>
  Pruning deletes exactly the rows whose key belongs to no live text, in whatever
  number of batches, and returns how many it deleted; with no live text it deletes
  nothing.  What is cached for a live text is not changed.
\<close>

theorem prune_orphans_spec:
  assumes "extraction_ok c" and "prune_orphans key live c = (n, c')"
  shows "ct_rows c' = (if live = [] then ct_rows c
      else filter (\<lambda>r. xr_cache_key r \<in> key ` set live) (ct_rows c))
    \<and> n + length (ct_rows c') = length (ct_rows c)
    \<and> extraction_ok c'
    \<and> (\<forall>t \<in> set live. cached c' (key t) = cached c (key t))"
proof (cases "live = []")
  case True
  with assms show ?thesis by (simp add: prune_orphans_def)
next
  case False
  let ?keys = "map xr_cache_key (ct_rows c)"
  let ?orphans = "filter (\<lambda>k. k \<notin> key ` set live) ?keys"
  let ?kept = "filter (\<lambda>r. xr_cache_key r \<in> key ` set live) (ct_rows c)"
  have dist: "remdups ?keys = ?keys"
    using assms(1) by (simp add: extraction_ok_def pk_ok_def distinct_remdups_id)
  have rows: "ct_rows c' = ?kept"
  proof (cases "?orphans = []")
    case True
    then have "filter (\<lambda>r. xr_cache_key r \<in> key ` set live) (ct_rows c) = ct_rows c"
      by (intro filter_True) (auto simp: filter_empty_conv)
    with True False assms(2) show ?thesis by (simp add: prune_orphans_def dist Let_def)
  next
    case False
    have "ct_rows c' = filter (\<lambda>r. xr_cache_key r \<notin> set ?orphans) (ct_rows c)"
      using False \<open>live \<noteq> []\<close> assms(2)
      by (auto simp: prune_orphans_def dist Let_def fold_delete_batches concat_batches CACHE_BATCH_def)
    also have "\<dots> = ?kept" by (rule filter_cong) auto
    finally show ?thesis .
  qed
  have "n = length ?orphans"
    using False assms(2) by (auto simp: prune_orphans_def dist Let_def filter_empty_conv split: if_splits)
  then have "n = length (filter (\<lambda>r. xr_cache_key r \<notin> key ` set live) (ct_rows c))"
    by (simp add: filter_map o_def)
  then have "n + length (ct_rows c') = length (ct_rows c)"
    using rows sum_length_filter_compl [of "\<lambda>r. xr_cache_key r \<in> key ` set live" "ct_rows c"] by simp
  moreover have "extraction_ok c'"
    using assms(1) by (auto simp: extraction_ok_def rows pk_ok_def distinct_map_filter_key)
  moreover have "cached c' (key t) = cached c (key t)" if "t \<in> set live" for t
    using that by (simp add: cached_def rows fetch_filter_in)
  ultimately show ?thesis using rows False by simp
qed

section \<open>Concrete caches\<close>

definition demo_chunk :: "string \<Rightarrow> string \<Rightarrow> chunk" where
  "demo_chunk i t = \<lparr>ch_chunk_id = i, ch_file_paths = [], ch_heading_hierarchy = [], ch_level = 0,
     ch_text = t, ch_chunk_index = 0, ch_kind = ''document'', ch_provenance = None\<rparr>"

definition demo_key :: "string \<Rightarrow> string" where
  "demo_key = make_key (\<lambda>x. x) ''sig''"

definition fresh_cache :: extraction_cache where
  "fresh_cache = \<lparr>ct_rows = [], ct_meta = []\<rparr>"

lemma fresh_cache_ok: "extraction_ok fresh_cache" "cached fresh_cache k = None"
  by (simp_all add: extraction_ok_def cached_def fresh_cache_def)

theorem lookup_batch_spec_witness:
  "\<exists>hits misses. lookup_batch demo_key [demo_chunk ''c1'' ''Ann''] fresh_cache = (hits, misses)
     \<and> demo_chunk ''c1'' ''Ann'' \<in> set misses"
proof -
  obtain hits misses where lb: "lookup_batch demo_key [demo_chunk ''c1'' ''Ann''] fresh_cache = (hits, misses)"
    by fastforce
  from lookup_batch_spec [OF fresh_cache_ok(1) _ lb, of "demo_chunk ''c1'' ''Ann''" True] fresh_cache_ok(2) lb
  show ?thesis by simp
qed

theorem store_batch_spec_witness:
  "cached (store_batch demo_key 0 [demo_chunk ''c1'' ''Ann''] [(''c1'', ([], []))] fresh_cache)
     (demo_key ''Ann'') = Some ([], [])"
  using store_batch_spec [OF fresh_cache_ok(1) _ refl, of demo_key "[demo_chunk ''c1'' ''Ann'']" 0
      "[(''c1'', ([], []))]"] fresh_cache_ok(2)
  by (simp add: demo_chunk_def)

definition stale_cache :: extraction_cache where
  "stale_cache = \<lparr>ct_rows = [\<lparr>xr_cache_key = demo_key ''Ann'', xr_entities = Some [], xr_co_occurs = Some [],
      xr_created_at = 0\<rparr>, \<lparr>xr_cache_key = demo_key ''Bob'', xr_entities = Some [], xr_co_occurs = Some [],
      xr_created_at = 0\<rparr>], ct_meta = []\<rparr>"

theorem prune_orphans_spec_witness:
  "\<exists>c'. prune_orphans demo_key [''Bob''] stale_cache = (1, c') \<and> length (ct_rows c') = 1"
proof -
  obtain n c' where p: "prune_orphans demo_key [''Bob''] stale_cache = (n, c')" by fastforce
  have "extraction_ok stale_cache"
    by (simp add: extraction_ok_def stale_cache_def pk_ok_def demo_key_def make_key_def)
  from prune_orphans_spec [OF this p] p show ?thesis
    by (auto simp: stale_cache_def demo_key_def make_key_def)
qed

end
