(* ===== verification/Ner_Extraction.thy ===== *)
theory Ner_Extraction
  imports Extraction_Cache
begin

text \<open>
  The named-entity extractor (\<open>extraction/ner.py\<close>): splitting of long texts into
  segments, the entities and relations of one chunk, the aggregation over a batch, and
  the cached run.  The GLiNER model (a package) is the parameter \<open>inference\<close>, from the
  list of segment texts to the predictions per segment, each a text and a label.

  The entities a run returns are the values of its dict of seen entities: the code appends
  to both together, and mutates the entity objects they share.
\<close>

type_synonym prediction = "string \<times> string"
type_synonym entity_key = "string \<times> string"
type_synonym inference = "string list \<Rightarrow> prediction list list"

section \<open>Segments\<close>

definition GLINER_SEGMENT_WORDS :: nat where
  "GLINER_SEGMENT_WORDS = 320"

text \<open>
  \<open>re.split\<close> at whitespace after a full stop, exclamation or question mark, or at line
  feeds; \<open>after_stop\<close> is the lookbehind and \<open>acc\<close> the current piece, reversed.
\<close>

fun split_boundary :: "bool \<Rightarrow> string \<Rightarrow> string \<Rightarrow> string list" where
  "split_boundary after_stop acc [] = [rev acc]"
| "split_boundary after_stop acc (c # cs) =
     (if after_stop \<and> py_isspace c then rev acc # split_boundary False [] (dropWhile py_isspace cs)
      else if c = CHR 0x0A then rev acc # split_boundary False [] (dropWhile (\<lambda>x. x = CHR 0x0A) cs)
      else split_boundary (c \<in> {CHR ''.'', CHR ''!'', CHR ''?''}) (c # acc) cs)"

record segmenter =
  sg_segments :: "string list"
  sg_current_parts :: "string list"
  sg_current_words :: nat

definition flush_current :: "segmenter \<Rightarrow> segmenter" where
  "flush_current st =
     (if sg_current_parts st \<noteq> []
      then \<lparr>sg_segments = sg_segments st @ [py_join '' '' (sg_current_parts st)],
            sg_current_parts = [], sg_current_words = 0\<rparr>
      else st)"

definition add_sentence :: "string \<Rightarrow> segmenter \<Rightarrow> segmenter" where
  "add_sentence raw st =
     (let sentence = py_strip raw in
      if sentence = [] then st
      else
        let sentence_words = py_split sentence in
        if GLINER_SEGMENT_WORDS < length sentence_words
        then let st = flush_current st in
             st\<lparr>sg_segments := sg_segments st @
                 map (py_join '' '') (batches GLINER_SEGMENT_WORDS sentence_words)\<rparr>
        else
          let st = (if sg_current_words st \<noteq> 0
                      \<and> GLINER_SEGMENT_WORDS < sg_current_words st + length sentence_words
                    then flush_current st else st)
          in st\<lparr>sg_current_parts := sg_current_parts st @ [sentence],
                sg_current_words := sg_current_words st + length sentence_words\<rparr>)"

definition split_for_gliner :: "string \<Rightarrow> string list" where
  "split_for_gliner txt =
     (if length (py_split txt) \<le> GLINER_SEGMENT_WORDS then [txt]
      else
        let st = fold add_sentence (split_boundary False [] txt)
                   \<lparr>sg_segments = [], sg_current_parts = [], sg_current_words = 0\<rparr>;
            segments = sg_segments (flush_current st)
        in if segments = [] then [txt] else segments)"

definition segments_for_chunks :: "chunk list \<Rightarrow> string list \<times> string list" where
  "segments_for_chunks chunks =
     (concat (map (\<lambda>c. split_for_gliner (ch_text c)) chunks),
      concat (map (\<lambda>c. replicate (length (split_for_gliner (ch_text c))) (ch_chunk_id c)) chunks))"

definition predictions_by_chunk :: "string list \<Rightarrow> prediction list list \<Rightarrow>
    (string, prediction list) dict" where
  "predictions_by_chunk ids preds =
     fold (\<lambda>(i, ps) d. dict_set i (dict_get_default d i [] @ ps) d) (zip ids preds) []"

section \<open>One chunk\<close>

definition entity_key :: "string \<Rightarrow> string \<Rightarrow> entity_key" where
  "entity_key name etype = (py_lower name, py_lower etype)"

record chunk_scan =
  cs_seen :: "(entity_key, entity) dict"
  cs_spans :: "(string, nat) dict"
  cs_keys :: "entity_key list"

definition scan_prediction :: "string \<Rightarrow> prediction \<Rightarrow> chunk_scan \<Rightarrow> chunk_scan" where
  "scan_prediction chunk_id pred st =
     (let name = py_strip (fst pred); etype = snd pred; key = entity_key name etype in
      if name = [] then st
      else \<lparr>cs_seen = (if key \<in> set (dict_keys (cs_seen st)) then cs_seen st
              else dict_set key \<lparr>en_name = name, en_type = etype, en_source = ''ner'',
                en_chunk_ids = [chunk_id]\<rparr> (cs_seen st)),
            cs_spans = dict_set name (dict_get_default (cs_spans st) name 0 + 1) (cs_spans st),
            cs_keys = cs_keys st @ [key]\<rparr>)"

definition fromkeys :: "'a list \<Rightarrow> 'a list" where
  "fromkeys xs = fold (\<lambda>x acc. if x \<in> set acc then acc else acc @ [x]) xs []"

fun combinations2 :: "'a list \<Rightarrow> ('a \<times> 'a) list" where
  "combinations2 [] = []"
| "combinations2 (x # xs) = map (Pair x) xs @ combinations2 xs"

definition co_occurs :: "string \<Rightarrow> string \<Rightarrow> relation" where
  "co_occurs a b = \<lparr>rl_source_id = a, rl_target_id = b, rl_relation_type = ''CO_OCCURS'',
     rl_weight = 1, rl_properties = []\<rparr>"

definition mentions :: "string \<Rightarrow> string \<Rightarrow> nat \<Rightarrow> relation" where
  "mentions chunk_id name freq = \<lparr>rl_source_id = chunk_id, rl_target_id = name,
     rl_relation_type = ''MENTIONS'', rl_weight = of_nat freq, rl_properties = []\<rparr>"

definition extract_one :: "string \<Rightarrow> prediction list \<Rightarrow> entity list \<times> relation list" where
  "extract_one chunk_id predictions =
     (if predictions = [] then ([], [])
      else
        let st = fold (scan_prediction chunk_id) predictions \<lparr>cs_seen = [], cs_spans = [], cs_keys = []\<rparr>;
            unique_keys = fromkeys (cs_keys st);
            name_at = (\<lambda>k. en_name (the (dict_get (cs_seen st) k)))
        in (map snd (cs_seen st),
            map (\<lambda>(a, b). co_occurs (name_at a) (name_at b)) (combinations2 unique_keys)
            @ map (\<lambda>k. mentions chunk_id (name_at k) (dict_get_default (cs_spans st) (name_at k) 0))
                unique_keys))"

definition extract_per_chunk :: "inference \<Rightarrow> chunk list \<Rightarrow>
    (string, entity list \<times> relation list) dict" where
  "extract_per_chunk inference chunks =
     (if chunks = [] then []
      else
        let (texts, ids) = segments_for_chunks chunks;
            by_chunk = predictions_by_chunk ids (inference texts)
        in fold (\<lambda>c d. dict_set (ch_chunk_id c)
             (extract_one (ch_chunk_id c) (dict_get_default by_chunk (ch_chunk_id c) [])) d) chunks [])"

section \<open>Aggregation over a batch\<close>

definition merge_entity :: "string \<Rightarrow> entity \<Rightarrow> (entity_key, entity) dict \<Rightarrow>
    (entity_key, entity) dict" where
  "merge_entity chunk_id e seen =
     (let key = entity_key (en_name e) (en_type e) in
      case dict_get seen key of
        None \<Rightarrow> dict_set key e seen
      | Some existing \<Rightarrow>
          if chunk_id \<in> set (en_chunk_ids existing) then seen
          else dict_set key (existing\<lparr>en_chunk_ids := en_chunk_ids existing @ [chunk_id]\<rparr>) seen)"

type_synonym aggregate = "(entity_key, entity) dict \<times> relation list"

definition merge_chunk :: "(string, entity list \<times> relation list) dict \<Rightarrow> chunk \<Rightarrow> aggregate \<Rightarrow>
    aggregate" where
  "merge_chunk per_chunk c acc =
     (let (chunk_entities, chunk_relations) = dict_get_default per_chunk (ch_chunk_id c) ([], [])
      in (fold (merge_entity (ch_chunk_id c)) chunk_entities (fst acc), snd acc @ chunk_relations))"

definition result_of :: "aggregate \<Rightarrow> extraction_result" where
  "result_of acc = \<lparr>ex_entities = map snd (fst acc), ex_relations = snd acc\<rparr>"

definition ner_extract :: "inference \<Rightarrow> chunk list \<Rightarrow> extraction_result" where
  "ner_extract inference chunks =
     (if chunks = [] then \<lparr>ex_entities = [], ex_relations = []\<rparr>
      else result_of (fold (merge_chunk (extract_per_chunk inference chunks)) chunks ([], [])))"

section \<open>The cached run\<close>

definition restore_hit :: "string \<times> cached_extraction \<Rightarrow> aggregate \<Rightarrow> aggregate" where
  "restore_hit hit acc =
     (let (chunk_id, ents_data, co_occurs_data) = hit;
          seen = fold (\<lambda>(name, etype, source). merge_entity chunk_id
             \<lparr>en_name = name, en_type = etype, en_source = source, en_chunk_ids = [chunk_id]\<rparr>)
             ents_data (fst acc);
          span_counter = fold (\<lambda>(name, etype, source) d. dict_set name (dict_get_default d name 0 + 1) d)
             ents_data []
      in (seen, snd acc @ co_occurs_data @ map (\<lambda>(name, freq). mentions chunk_id name freq) span_counter))"

definition cache_payload :: "entity list \<times> relation list \<Rightarrow> cached_extraction" where
  "cache_payload er =
     (map (\<lambda>e. (en_name e, en_type e, en_source e)) (fst er),
      filter (\<lambda>r. rl_relation_type r = ''CO_OCCURS'') (snd er))"

definition new_results :: "(string, entity list \<times> relation list) dict \<Rightarrow> chunk list \<Rightarrow>
    (string, cached_extraction) dict" where
  "new_results per_chunk misses =
     fold (\<lambda>c d. dict_set (ch_chunk_id c)
       (cache_payload (dict_get_default per_chunk (ch_chunk_id c) ([], []))) d) misses []"

definition extract_with_cache :: "inference \<Rightarrow> (string \<Rightarrow> string) \<Rightarrow> timestamp \<Rightarrow> chunk list \<Rightarrow>
    extraction_cache option \<Rightarrow> extraction_result \<times> extraction_cache option" where
  "extract_with_cache inference key now chunks cache =
     (case cache of
        None \<Rightarrow> (ner_extract inference chunks, None)
      | Some c \<Rightarrow>
          if chunks = [] then (ner_extract inference chunks, Some c)
          else
            let (hits, misses) = lookup_batch key chunks c;
                acc = fold restore_hit hits ([], [])
            in if misses = [] then (result_of acc, Some c)
               else
                 let per_chunk = extract_per_chunk inference misses
                 in (result_of (fold (merge_chunk per_chunk) misses acc),
                     Some (store_batch key now misses (new_results per_chunk misses) c)))"

section \<open>Words are neither lost nor split\<close>

lemma split_boundary_words:
  "concat (map py_split (split_boundary st acc cs)) = py_split (rev acc @ cs)"
proof (induction st acc cs rule: split_boundary.induct)
  case (1 st acc)
  then show ?case by simp
next
  case (2 st acc c cs)
  have lf: "py_isspace CHR 0x0A" by (simp add: py_isspace_def)
  have drop: "py_split (dropWhile (\<lambda>x. x = CHR 0x0A) cs) = py_split cs"
    by (induction cs) (auto simp: lf)
  from 2 show ?case by (auto simp: py_split_sep lf drop)
qed

definition seg_inv :: "string list \<Rightarrow> segmenter \<Rightarrow> bool" where
  "seg_inv ws st \<longleftrightarrow> concat (map py_split (sg_segments st @ sg_current_parts st)) = ws
     \<and> sg_current_words st = length (concat (map py_split (sg_current_parts st)))
     \<and> sg_current_words st \<le> GLINER_SEGMENT_WORDS
     \<and> (\<forall>s \<in> set (sg_segments st). length (py_split s) \<le> GLINER_SEGMENT_WORDS)"

lemma seg_inv_flush:
  "seg_inv ws st \<Longrightarrow> seg_inv ws (flush_current st) \<and> sg_current_parts (flush_current st) = []"
  by (auto simp: seg_inv_def flush_current_def py_split_join)

lemma concat_map_words: "set ws \<subseteq> set (py_split s) \<Longrightarrow> concat (map py_split ws) = ws"
  by (induction ws) (auto simp: py_split_words)

lemma split_batch:
  assumes "b \<in> set (batches n (py_split s))" and "0 < n"
  shows "py_split (py_join '' '' b) = b"
proof -
  have "set b \<subseteq> set (concat (batches n (py_split s)))" using assms(1) by auto
  then have "set b \<subseteq> set (py_split s)" unfolding concat_batches [OF assms(2)] .
  then show ?thesis by (simp add: py_split_join concat_map_words)
qed

lemma seg_inv_add:
  assumes "seg_inv ws st"
  shows "seg_inv (ws @ py_split raw) (add_sentence raw st)"
proof -
  let ?s = "py_strip raw" and ?w = "py_split raw"
  consider "?s = []" | "?s \<noteq> []" "GLINER_SEGMENT_WORDS < length ?w"
    | "?s \<noteq> []" "length ?w \<le> GLINER_SEGMENT_WORDS" by linarith
  then show ?thesis
  proof cases
    case 1
    then have "py_split raw = []" by (metis py_split_Nil py_split_strip)
    with assms 1 show ?thesis by (simp add: add_sentence_def)
  next
    case 2
    let ?bs = "batches GLINER_SEGMENT_WORDS ?w"
    have "map (py_split \<circ> py_join '' '') ?bs = ?bs"
      by (rule map_idI) (simp add: split_batch GLINER_SEGMENT_WORDS_def)
    then have "concat (map (py_split \<circ> py_join '' '') ?bs) = ?w"
      by (simp add: concat_batches GLINER_SEGMENT_WORDS_def)
    moreover have "\<forall>b \<in> set ?bs. length (py_split (py_join '' '' b)) \<le> GLINER_SEGMENT_WORDS"
      using batches_bounded split_batch by (metis GLINER_SEGMENT_WORDS_def zero_less_numeral)
    ultimately show ?thesis
      using 2 seg_inv_flush [OF assms] by (auto simp: add_sentence_def seg_inv_def Let_def)
  next
    case 3
    show ?thesis
    proof (cases "sg_current_words st \<noteq> 0 \<and> GLINER_SEGMENT_WORDS < sg_current_words st + length ?w")
      case True
      with 3 seg_inv_flush [OF assms] show ?thesis
        by (auto simp: add_sentence_def seg_inv_def Let_def)
    next
      case False
      then have "sg_current_words st + length ?w \<le> GLINER_SEGMENT_WORDS"
        using 3(2) by (cases "sg_current_words st = 0") simp_all
      with False 3 assms show ?thesis
        by (simp add: add_sentence_def seg_inv_def Let_def)
    qed
  qed
qed

lemma seg_inv_fold:
  "seg_inv ws st \<Longrightarrow> seg_inv (ws @ concat (map py_split ss)) (fold add_sentence ss st)"
proof (induction ss arbitrary: ws st)
  case (Cons s ss)
  from Cons.IH [OF seg_inv_add [OF Cons.prems]] show ?case by simp
qed simp

text \<open>
  No text is lost to the length limit of the model: the segments of a text contain its
  words, all of them and in order, and no segment has more than 320 words.
\<close>

theorem split_for_gliner_spec:
  "concat (map py_split (split_for_gliner txt)) = py_split txt
   \<and> list_all (\<lambda>s. length (py_split s) \<le> GLINER_SEGMENT_WORDS) (split_for_gliner txt)"
proof (cases "length (py_split txt) \<le> GLINER_SEGMENT_WORDS")
  case True
  then show ?thesis by (simp add: split_for_gliner_def)
next
  case False
  define st where "st = flush_current (fold add_sentence (split_boundary False [] txt)
    \<lparr>sg_segments = [], sg_current_parts = [], sg_current_words = 0\<rparr>)"
  have "seg_inv [] \<lparr>sg_segments = [], sg_current_parts = [], sg_current_words = 0\<rparr>"
    by (simp add: seg_inv_def)
  from seg_inv_flush [OF seg_inv_fold [OF this, of "split_boundary False [] txt"]]
  have inv: "seg_inv (py_split txt) st" "sg_current_parts st = []"
    by (simp_all add: st_def split_boundary_words)
  with False have "sg_segments st \<noteq> []" by (auto simp: seg_inv_def)
  with False inv show ?thesis
    by (simp add: split_for_gliner_def Let_def seg_inv_def list_all_iff flip: st_def)
qed

end
