(* ===== verification/Ner_Laws.thy ===== *)
theory Ner_Laws
  imports Ner_Extraction
begin

text \<open>
  What the cached run of the entity extractor returns: on a cold cache exactly the
  uncached result, on a warm cache the same entities and co-occurrences but mention
  weights that count distinct entities instead of occurrences, and, for a chunk whose text
  comes again later in the batch, nothing at all.
\<close>

named_theorems ner_simps \<open>unfolding one step of the extractor\<close>

section \<open>The entities and relations of one chunk\<close>

lemma fromkeys_snoc [ner_simps]:
  "fromkeys (xs @ [x]) = (if x \<in> set (fromkeys xs) then fromkeys xs else fromkeys xs @ [x])"
  by (simp add: fromkeys_def)

lemma fromkeys_Nil [simp]: "fromkeys [] = []"
  by (simp add: fromkeys_def)

lemma set_fromkeys [simp]: "set (fromkeys xs) = set xs"
  by (induction xs rule: rev_induct) (auto simp: ner_simps)

lemma distinct_fromkeys [simp]: "distinct (fromkeys xs)"
  by (induction xs rule: rev_induct) (auto simp: fromkeys_snoc)

lemma combinations2_map: "combinations2 (map f xs) = map (\<lambda>(a, b). (f a, f b)) (combinations2 xs)"
  by (induction xs) auto

lemma dict_set_new: "k \<notin> set (dict_keys d) \<Longrightarrow> dict_set k v d = d @ [(k, v)]"
  by (induction d) auto

abbreviation entity_id :: "entity \<Rightarrow> entity_key" where
  "entity_id e \<equiv> entity_key (en_name e) (en_type e)"

definition scan_ok :: "string \<Rightarrow> chunk_scan \<Rightarrow> bool" where
  "scan_ok cid st \<longleftrightarrow> dict_keys (cs_seen st) = fromkeys (cs_keys st)
     \<and> (\<forall>(k, e) \<in> set (cs_seen st). k = entity_id e \<and> en_source e = ''ner'' \<and> en_chunk_ids e = [cid])
     \<and> (\<forall>n. length (filter (\<lambda>e. en_name e = n) (map snd (cs_seen st)))
            \<le> dict_get_default (cs_spans st) n 0)"

lemma scan_ok_step:
  assumes "scan_ok cid st"
  shows "scan_ok cid (scan_prediction cid p st)"
proof (cases "py_strip (fst p) = []")
  case True
  with assms show ?thesis by (simp add: scan_prediction_def)
next
  case False
  let ?n = "py_strip (fst p)"
  let ?k = "entity_key ?n (snd p)"
  let ?spans = "dict_set ?n (dict_get_default (cs_spans st) ?n 0 + 1) (cs_spans st)"
  have spans: "dict_get_default ?spans n 0 =
      (if n = ?n then dict_get_default (cs_spans st) n 0 + 1 else dict_get_default (cs_spans st) n 0)" for n
    by (simp add: dict_get_default_def)
  have keys: "set (dict_keys (cs_seen st)) = set (cs_keys st)"
    using assms unfolding scan_ok_def by (metis set_fromkeys)
  show ?thesis
  proof (cases "?k \<in> set (dict_keys (cs_seen st))")
    case True
    with False keys assms spans show ?thesis
      by (auto simp: scan_prediction_def scan_ok_def Let_def fromkeys_snoc le_SucI)
  next
    case new: False
    with False keys assms spans show ?thesis
      unfolding scan_ok_def
      by (auto simp: scan_prediction_def Let_def fromkeys_snoc dict_set_new)
  qed
qed

lemma scan_ok_fold: "scan_ok cid st \<Longrightarrow> scan_ok cid (fold (scan_prediction cid) ps st)"
  by (induction ps arbitrary: st) (auto intro: scan_ok_step)

lemma extract_one_closed:
  obtains freq where "snd (extract_one cid ps) =
      map (\<lambda>(a, b). co_occurs (en_name a) (en_name b)) (combinations2 (fst (extract_one cid ps)))
      @ map (\<lambda>e. mentions cid (en_name e) (freq (en_name e))) (fst (extract_one cid ps))"
    and "\<forall>e \<in> set (fst (extract_one cid ps)). en_source e = ''ner'' \<and> en_chunk_ids e = [cid]"
    and "\<forall>n. length (filter (\<lambda>e. en_name e = n) (fst (extract_one cid ps))) \<le> freq n"
proof (cases "ps = []")
  case True
  then show ?thesis by (intro that) (simp_all add: extract_one_def)
next
  case False
  define st where "st = fold (scan_prediction cid) ps \<lparr>cs_seen = [], cs_spans = [], cs_keys = []\<rparr>"
  have "scan_ok cid \<lparr>cs_seen = [], cs_spans = [], cs_keys = []\<rparr>" by (simp add: scan_ok_def)
  then have ok: "scan_ok cid st" unfolding st_def by (rule scan_ok_fold)
  then have keys: "fromkeys (cs_keys st) = map fst (cs_seen st)" by (simp add: scan_ok_def)
  then have "dict_ok (cs_seen st)" by (metis distinct_fromkeys)
  then have name: "en_name (the (dict_get (cs_seen st) (fst p))) = en_name (snd p)"
    if "p \<in> set (cs_seen st)" for p
    using that by (metis map_of_is_SomeI option.sel prod.collapse)
  have ents: "fst (extract_one cid ps) = map snd (cs_seen st)"
    using False by (simp add: extract_one_def Let_def flip: st_def)
  have sub: "set (combinations2 xs) \<subseteq> set xs \<times> set xs" for xs :: "(entity_key \<times> entity) list"
    by (induction xs) auto
  show ?thesis
  proof (rule that [of "\<lambda>n. dict_get_default (cs_spans st) n 0"])
    show "snd (extract_one cid ps) =
      map (\<lambda>(a, b). co_occurs (en_name a) (en_name b)) (combinations2 (fst (extract_one cid ps)))
      @ map (\<lambda>e. mentions cid (en_name e) (dict_get_default (cs_spans st) (en_name e) 0))
          (fst (extract_one cid ps))"
      using False name unfolding ents
      by (auto simp: extract_one_def Let_def keys combinations2_map simp flip: st_def
          dest!: subsetD [OF sub])
    show "\<forall>e \<in> set (fst (extract_one cid ps)). en_source e = ''ner'' \<and> en_chunk_ids e = [cid]"
      using ok unfolding ents by (auto simp: scan_ok_def)
    show "\<forall>n. length (filter (\<lambda>e. en_name e = n) (fst (extract_one cid ps)))
        \<le> dict_get_default (cs_spans st) n 0"
      using ok unfolding ents by (simp add: scan_ok_def)
  qed
qed

section \<open>Runs over a batch\<close>

abbreviation chunk_result :: "(string, entity list \<times> relation list) dict \<Rightarrow> chunk \<Rightarrow>
    entity list \<times> relation list" where
  "chunk_result pc ch \<equiv> dict_get_default pc (ch_chunk_id ch) ([], [])"

abbreviation merge_all :: "string \<Rightarrow> entity list \<Rightarrow> (entity_key, entity) dict \<Rightarrow>
    (entity_key, entity) dict" where
  "merge_all cid es \<equiv> fold (merge_entity cid) es"

lemma fold_merge_chunk:
  "fold (merge_chunk pc) chunks (seen, rels) =
     (fold (\<lambda>ch. merge_all (ch_chunk_id ch) (fst (chunk_result pc ch))) chunks seen,
      rels @ concat (map (\<lambda>ch. snd (chunk_result pc ch)) chunks))"
  by (induction chunks arbitrary: seen rels) (auto simp: merge_chunk_def case_prod_unfold Let_def)

definition name_counts :: "entity_payload list \<Rightarrow> (string, nat) dict" where
  "name_counts ents = fold (\<lambda>(name, etype, source) d. dict_set name (dict_get_default d name 0 + 1) d) ents []"

definition restored :: "string \<Rightarrow> cached_extraction \<Rightarrow> relation list" where
  "restored cid v = snd v @ map (\<lambda>(name, freq). mentions cid name freq) (name_counts (fst v))"

lemma fold_restore_hit:
  "fold restore_hit hits (seen, rels) =
     (fold (\<lambda>(cid, v). fold (\<lambda>(name, etype, source). merge_entity cid
        \<lparr>en_name = name, en_type = etype, en_source = source, en_chunk_ids = [cid]\<rparr>) (fst v)) hits seen,
      rels @ concat (map (\<lambda>(cid, v). restored cid v) hits))"
  by (induction hits arbitrary: seen rels)
    (auto simp: restore_hit_def restored_def name_counts_def case_prod_unfold Let_def)

definition chunk_predictions :: "inference \<Rightarrow> chunk list \<Rightarrow> chunk \<Rightarrow> prediction list" where
  "chunk_predictions inference chunks ch =
     (let (texts, ids) = segments_for_chunks chunks
      in dict_get_default (predictions_by_chunk ids (inference texts)) (ch_chunk_id ch) [])"

abbreviation extracted :: "inference \<Rightarrow> chunk list \<Rightarrow> chunk \<Rightarrow> entity list \<times> relation list" where
  "extracted inference chunks ch \<equiv>
     extract_one (ch_chunk_id ch) (chunk_predictions inference chunks ch)"

lemma extract_per_chunk_one:
  assumes "ch \<in> set chunks"
  shows "chunk_result (extract_per_chunk inference chunks) ch = extracted inference chunks ch"
proof -
  obtain texts ids where seg: "segments_for_chunks chunks = (texts, ids)" by fastforce
  define f where "f = (\<lambda>i. extract_one i
    (dict_get_default (predictions_by_chunk ids (inference texts)) i []))"
  have get: "dict_get (fold (\<lambda>c d. dict_set (ch_chunk_id c) (f (ch_chunk_id c)) d) cs d0) i =
      (if i \<in> ch_chunk_id ` set cs then Some (f i) else dict_get d0 i)" for cs d0 i
    by (induction cs arbitrary: d0) auto
  have "extract_per_chunk inference chunks =
      fold (\<lambda>c d. dict_set (ch_chunk_id c) (f (ch_chunk_id c)) d) chunks []"
    using assms seg by (auto simp: extract_per_chunk_def f_def)
  with assms have "chunk_result (extract_per_chunk inference chunks) ch = f (ch_chunk_id ch)"
    by (simp add: dict_get_default_def get)
  then show ?thesis by (simp add: f_def chunk_predictions_def seg)
qed

lemma ner_extract_closed:
  "ner_extract inference chunks =
     \<lparr>ex_entities = map snd (fold (\<lambda>ch. merge_all (ch_chunk_id ch) (fst (extracted inference chunks ch))) chunks []),
      ex_relations = concat (map (\<lambda>ch. snd (extracted inference chunks ch)) chunks)\<rparr>"
proof -
  let ?pc = "extract_per_chunk inference chunks"
  have "fold (\<lambda>ch. merge_all (ch_chunk_id ch) (fst (chunk_result ?pc ch))) chunks [] =
      fold (\<lambda>ch. merge_all (ch_chunk_id ch) (fst (extracted inference chunks ch))) chunks []"
    by (rule fold_cong) (simp_all add: extract_per_chunk_one)
  moreover have "concat (map (\<lambda>ch. snd (chunk_result ?pc ch)) chunks) =
      concat (map (\<lambda>ch. snd (extracted inference chunks ch)) chunks)"
    by (rule arg_cong [of _ _ concat], rule map_cong) (simp_all add: extract_per_chunk_one)
  ultimately show ?thesis
    by (cases "chunks = []") (simp_all add: ner_extract_def fold_merge_chunk result_of_def)
qed

lemma new_results_get:
  "dict_get (new_results pc misses) i =
     (if i \<in> ch_chunk_id ` set misses then Some (cache_payload (dict_get_default pc i ([], []))) else None)"
proof -
  have "dict_get (fold (\<lambda>c d. dict_set (ch_chunk_id c) (cache_payload (chunk_result pc c)) d) cs d0) i =
      (if i \<in> ch_chunk_id ` set cs then Some (cache_payload (dict_get_default pc i ([], [])))
       else dict_get d0 i)" for cs d0
    by (induction cs arbitrary: d0) auto
  then show ?thesis by (simp add: new_results_def)
qed

lemma name_counts_get: "dict_get_default (name_counts ents) n 0 = length (filter (\<lambda>e. fst e = n) ents)"
  by (induction ents rule: rev_induct) (auto simp: name_counts_def dict_get_default_def split: option.splits)

lemma name_counts_snoc:
  "name_counts (ents @ [e]) = dict_set (fst e) (dict_get_default (name_counts ents) (fst e) 0 + 1) (name_counts ents)"
  by (simp add: name_counts_def case_prod_unfold)

lemma name_counts_ok: "dict_ok (name_counts ents)"
  by (induction ents rule: rev_induct) (auto simp: name_counts_snoc dict_ok_set, simp add: name_counts_def)

lemma name_counts_keys: "set (dict_keys (name_counts ents)) = fst ` set ents"
  by (induction ents rule: rev_induct) (auto simp: name_counts_snoc, simp add: name_counts_def)

lemma name_counts_member:
  assumes "(n, f) \<in> set (name_counts ents)"
  shows "f = length (filter (\<lambda>e. fst e = n) ents)"
proof -
  have "dict_get (name_counts ents) n = Some f"
    using assms name_counts_ok by (simp add: map_of_eq_Some_iff)
  then show ?thesis using name_counts_get [of ents n] by (simp add: dict_get_default_def)
qed

section \<open>The restored relations of one chunk\<close>

abbreviation is_mention :: "relation \<Rightarrow> bool" where
  "is_mention r \<equiv> rl_relation_type r = ''MENTIONS''"

abbreviation is_co_occurrence :: "relation \<Rightarrow> bool" where
  "is_co_occurrence r \<equiv> rl_relation_type r = ''CO_OCCURS''"

lemma relation_types [simp]: "is_mention (mentions c n f)" "\<not> is_co_occurrence (mentions c n f)"
  "is_co_occurrence (co_occurs a b)" "\<not> is_mention (co_occurs a b)"
  "rl_source_id (mentions c n f) = c" "rl_target_id (mentions c n f) = n"
  "rl_weight (mentions c n f) = of_nat f"
  by (simp_all add: mentions_def co_occurs_def)

lemma filter_relations:
  "filter is_co_occurrence (map (\<lambda>(a, b). co_occurs (f a) (f b)) ps) = map (\<lambda>(a, b). co_occurs (f a) (f b)) ps"
  "filter is_mention (map (\<lambda>(a, b). co_occurs (f a) (f b)) ps) = []"
  "filter is_mention (map (\<lambda>e. mentions c (g e) (h e)) es) = map (\<lambda>e. mentions c (g e) (h e)) es"
  "filter is_co_occurrence (map (\<lambda>e. mentions c (g e) (h e)) es) = []"
  "filter is_mention (map (\<lambda>(n, m). mentions c n m) d) = map (\<lambda>(n, m). mentions c n m) d"
  "filter is_co_occurrence (map (\<lambda>(n, m). mentions c n m) d) = []"
  by (simp_all add: filter_map o_def case_prod_unfold)

lemma restored_vs_extracted:
  assumes "v = cache_payload (extract_one cid ps)"
  shows "filter is_co_occurrence (restored cid v) = filter is_co_occurrence (snd (extract_one cid ps))"
    and "rl_target_id ` set (filter is_mention (restored cid v)) =
         rl_target_id ` set (filter is_mention (snd (extract_one cid ps)))"
    and "\<forall>r \<in> set (filter is_mention (restored cid v) @ filter is_mention (snd (extract_one cid ps))).
         rl_source_id r = cid"
    and "\<forall>r \<in> set (filter is_mention (restored cid v)).
         \<forall>r' \<in> set (filter is_mention (snd (extract_one cid ps))).
           rl_target_id r = rl_target_id r' \<longrightarrow> rl_weight r \<le> rl_weight r'"
proof -
  let ?es = "fst (extract_one cid ps)"
  obtain freq where rels: "snd (extract_one cid ps) =
      map (\<lambda>(a, b). co_occurs (en_name a) (en_name b)) (combinations2 ?es)
      @ map (\<lambda>e. mentions cid (en_name e) (freq (en_name e))) ?es"
    and freq: "\<forall>n. length (filter (\<lambda>e. en_name e = n) ?es) \<le> freq n"
    by (rule extract_one_closed)
  let ?co = "map (\<lambda>(a, b). co_occurs (en_name a) (en_name b)) (combinations2 ?es)"
  have co: "filter is_co_occurrence (snd (extract_one cid ps)) = ?co"
    "filter is_mention (snd (extract_one cid ps)) = map (\<lambda>e. mentions cid (en_name e) (freq (en_name e))) ?es"
    by (simp_all add: rels filter_relations)
  have v: "fst v = map (\<lambda>e. (en_name e, en_type e, en_source e)) ?es" "snd v = ?co"
    using co by (simp_all add: assms cache_payload_def)
  have re: "filter is_co_occurrence (restored cid v) = ?co"
    "filter is_mention (restored cid v) = map (\<lambda>(n, f). mentions cid n f) (name_counts (fst v))"
    by (simp_all add: restored_def v(2) filter_relations)
  show "filter is_co_occurrence (restored cid v) = filter is_co_occurrence (snd (extract_one cid ps))"
    by (simp add: co re)
  show "rl_target_id ` set (filter is_mention (restored cid v)) =
      rl_target_id ` set (filter is_mention (snd (extract_one cid ps)))"
    using name_counts_keys [of "fst v"] by (simp add: co re v(1) image_image case_prod_unfold)
  show "\<forall>r \<in> set (filter is_mention (restored cid v) @ filter is_mention (snd (extract_one cid ps))).
      rl_source_id r = cid"
    by (auto simp: co re)
  show "\<forall>r \<in> set (filter is_mention (restored cid v)).
      \<forall>r' \<in> set (filter is_mention (snd (extract_one cid ps))).
        rl_target_id r = rl_target_id r' \<longrightarrow> rl_weight r \<le> rl_weight r'"
    using freq by (auto simp: co re v(1) filter_map o_def dest!: name_counts_member)
qed

section \<open>Cold and warm runs\<close>

definition batch_ok :: "(string \<Rightarrow> string) \<Rightarrow> chunk list \<Rightarrow> bool" where
  "batch_ok key chunks \<longleftrightarrow> distinct (map ch_chunk_id chunks)
     \<and> distinct (map (\<lambda>ch. key (ch_text ch)) chunks)"

lemma lookup_batch_distinct:
  assumes "extraction_ok c" and "batch_ok key chunks"
  shows "lookup_batch key chunks c =
    (map (\<lambda>ch. (ch_chunk_id ch, the (cached c (key (ch_text ch)))))
       (filter (\<lambda>ch. cached c (key (ch_text ch)) \<noteq> None) chunks),
     filter (\<lambda>ch. cached c (key (ch_text ch)) = None) chunks)"
  using assms lookup_batch_closed [of c chunks key] key_to_chunk_distinct [of key chunks]
  by (simp add: batch_ok_def hit_list_def filter_map o_def)

lemma cold_run:
  assumes "extraction_ok c" and "batch_ok key chunks" and "chunks \<noteq> []"
    and "\<forall>ch \<in> set chunks. cached c (key (ch_text ch)) = None"
  shows "extract_with_cache inference key now chunks (Some c) =
    (ner_extract inference chunks,
     Some (store_batch key now chunks (new_results (extract_per_chunk inference chunks) chunks) c))"
proof -
  have "filter (\<lambda>ch. cached c (key (ch_text ch)) \<noteq> None) chunks = []"
    "filter (\<lambda>ch. cached c (key (ch_text ch)) = None) chunks = chunks"
    using assms(4) by (auto simp: filter_empty_conv intro: filter_True)
  then have "lookup_batch key chunks c = ([], chunks)"
    using lookup_batch_distinct [OF assms(1,2)] by simp
  with assms(3) show ?thesis by (simp add: extract_with_cache_def ner_extract_def Let_def)
qed

lemma fold_merge_payload:
  assumes "\<forall>e \<in> set es. en_source e = ''ner'' \<and> en_chunk_ids e = [cid]"
  shows "fold (\<lambda>(name, etype, source). merge_entity cid
      \<lparr>en_name = name, en_type = etype, en_source = source, en_chunk_ids = [cid]\<rparr>)
      (map (\<lambda>e. (en_name e, en_type e, en_source e)) es) seen = merge_all cid es seen"
  using assms
proof (induction es arbitrary: seen)
  case (Cons e es)
  then obtain n t where "e = \<lparr>en_name = n, en_type = t, en_source = ''ner'', en_chunk_ids = [cid]\<rparr>"
    by (cases e) auto
  with Cons show ?case by simp
qed simp

lemma all_hits:
  assumes "extraction_ok c" and "batch_ok key chunks" and "chunks \<noteq> []"
    and "\<forall>ch \<in> set chunks. cached c (key (ch_text ch)) = Some (cache_payload (extract_one (ch_chunk_id ch) (ps ch)))"
  shows "extract_with_cache inference key now chunks (Some c) =
    (\<lparr>ex_entities = map snd (fold (\<lambda>ch. merge_all (ch_chunk_id ch)
         (fst (extract_one (ch_chunk_id ch) (ps ch)))) chunks []),
      ex_relations = concat (map (\<lambda>ch. restored (ch_chunk_id ch)
         (cache_payload (extract_one (ch_chunk_id ch) (ps ch)))) chunks)\<rparr>, Some c)"
proof -
  let ?er = "\<lambda>ch. extract_one (ch_chunk_id ch) (ps ch)"
  have "lookup_batch key chunks c = (map (\<lambda>ch. (ch_chunk_id ch, cache_payload (?er ch))) chunks, [])"
    using assms(4) by (simp add: lookup_batch_distinct [OF assms(1,2)] filter_empty_conv)
  moreover have "fold (\<lambda>(cid, v). fold (\<lambda>(name, etype, source). merge_entity cid
        \<lparr>en_name = name, en_type = etype, en_source = source, en_chunk_ids = [cid]\<rparr>) (fst v))
      (map (\<lambda>ch. (ch_chunk_id ch, cache_payload (?er ch))) cs) seen =
      fold (\<lambda>ch. merge_all (ch_chunk_id ch) (fst (?er ch))) cs seen" for cs seen
  proof (induction cs arbitrary: seen)
    case (Cons ch cs)
    have "\<forall>e \<in> set (fst (?er ch)). en_source e = ''ner'' \<and> en_chunk_ids e = [ch_chunk_id ch]"
      by (rule extract_one_closed)
    from fold_merge_payload [OF this] Cons show ?case by (simp add: cache_payload_def)
  qed simp
  ultimately show ?thesis
    using assms(3)
    by (simp add: extract_with_cache_def fold_restore_hit result_of_def o_def case_prod_unfold Let_def)
qed

lemma stored_results_hit:
  assumes "extraction_ok c" and "batch_ok key chunks" and "ch \<in> set chunks"
    and "cached c (key (ch_text ch)) = None"
  shows "cached (store_batch key now chunks (new_results (extract_per_chunk inference chunks) chunks) c)
      (key (ch_text ch)) = Some (cache_payload (extracted inference chunks ch))"
proof -
  have "find (\<lambda>r. True) (row_of key now (new_results (extract_per_chunk inference chunks) chunks) ch) =
      Some \<lparr>xr_cache_key = key (ch_text ch),
        xr_entities = Some (fst (cache_payload (extracted inference chunks ch))),
        xr_co_occurs = Some (snd (cache_payload (extracted inference chunks ch))), xr_created_at = now\<rparr>"
    using assms(3) extract_per_chunk_one [OF assms(3)] by (simp add: new_results_get cache_payload_def)
  with assms find_row_of [of key chunks ch now] show ?thesis
    by (simp add: store_batch_cached [OF assms(1)] batch_ok_def payload_def del: row_of.simps)
qed

lemma set_filter_concat: "set (filter P (concat (map f xs))) = (\<Union>x \<in> set xs. set (filter P (f x)))"
  by (auto simp: filter_concat)

lemma mentions_compared:
  fixes ps :: "chunk \<Rightarrow> prediction list"
  assumes "distinct (map ch_chunk_id chunks)"
  defines "A \<equiv> \<lambda>ch. restored (ch_chunk_id ch) (cache_payload (extract_one (ch_chunk_id ch) (ps ch)))"
    and "B \<equiv> \<lambda>ch. snd (extract_one (ch_chunk_id ch) (ps ch))"
  shows "filter is_co_occurrence (concat (map A chunks)) = filter is_co_occurrence (concat (map B chunks))"
    and "(\<lambda>r. (rl_source_id r, rl_target_id r)) ` set (filter is_mention (concat (map A chunks))) =
      (\<lambda>r. (rl_source_id r, rl_target_id r)) ` set (filter is_mention (concat (map B chunks)))"
    and "\<forall>r \<in> set (filter is_mention (concat (map A chunks))). \<forall>r' \<in> set (filter is_mention (concat (map B chunks))).
      (rl_source_id r, rl_target_id r) = (rl_source_id r', rl_target_id r') \<longrightarrow> rl_weight r \<le> rl_weight r'"
proof -
  have vs: "filter is_co_occurrence (A ch) = filter is_co_occurrence (B ch)"
    "rl_target_id ` set (filter is_mention (A ch)) = rl_target_id ` set (filter is_mention (B ch))"
    "\<forall>r \<in> set (filter is_mention (A ch) @ filter is_mention (B ch)). rl_source_id r = ch_chunk_id ch"
    "\<forall>r \<in> set (filter is_mention (A ch)). \<forall>r' \<in> set (filter is_mention (B ch)).
       rl_target_id r = rl_target_id r' \<longrightarrow> rl_weight r \<le> rl_weight r'" for ch
    unfolding A_def B_def by (rule restored_vs_extracted [OF refl])+
  show "filter is_co_occurrence (concat (map A chunks)) = filter is_co_occurrence (concat (map B chunks))"
    by (simp add: filter_concat o_def vs(1))
  have "(\<lambda>r. (rl_source_id r, rl_target_id r)) ` set (filter is_mention (A ch)) =
      Pair (ch_chunk_id ch) ` rl_target_id ` set (filter is_mention (A ch))"
    "(\<lambda>r. (rl_source_id r, rl_target_id r)) ` set (filter is_mention (B ch)) =
      Pair (ch_chunk_id ch) ` rl_target_id ` set (filter is_mention (B ch))" for ch
    unfolding image_image using vs(3) [of ch] by (auto intro!: image_cong)
  then show "(\<lambda>r. (rl_source_id r, rl_target_id r)) ` set (filter is_mention (concat (map A chunks))) =
      (\<lambda>r. (rl_source_id r, rl_target_id r)) ` set (filter is_mention (concat (map B chunks)))"
    unfolding set_filter_concat image_UN by (simp only: vs(2))
  show "\<forall>r \<in> set (filter is_mention (concat (map A chunks))). \<forall>r' \<in> set (filter is_mention (concat (map B chunks))).
      (rl_source_id r, rl_target_id r) = (rl_source_id r', rl_target_id r') \<longrightarrow> rl_weight r \<le> rl_weight r'"
    unfolding set_filter_concat
  proof (intro ballI impI, elim UN_E)
    fix r r' x y
    assume *: "(rl_source_id r, rl_target_id r) = (rl_source_id r', rl_target_id r')"
      "x \<in> set chunks" "r \<in> set (filter is_mention (A x))" "y \<in> set chunks" "r' \<in> set (filter is_mention (B y))"
    then have "ch_chunk_id x = ch_chunk_id y" using vs(3) by (metis UnCI prod.inject set_append)
    with * assms(1) have "x = y" by (metis distinct_map inj_onD)
    with * vs(4) [of x] show "rl_weight r \<le> rl_weight r'" by blast
  qed
qed

text \<open>
  For a batch of chunks with distinct ids and texts, none of them cached, the cached
  run returns exactly what the uncached extraction returns.  A second run over the batch
  does not consult the model (any other model gives the same) and leaves the cache as it
  is; it returns the same entities, the same co-occurrences in the same order and mentions
  of the same entities by the same chunks, with a weight that is at most the one of the
  first run.
\<close>

theorem warm_run_agrees:
  assumes "extraction_ok c" and "batch_ok key chunks" and "chunks \<noteq> []"
    and "\<forall>ch \<in> set chunks. cached c (key (ch_text ch)) = None"
    and "extract_with_cache inference key now chunks (Some c) = (r1, c1)"
    and "extract_with_cache inference' key now' chunks c1 = (r2, c2)"
  shows "r1 = ner_extract inference chunks \<and> c2 = c1 \<and> ex_entities r2 = ex_entities r1
    \<and> filter is_co_occurrence (ex_relations r2) = filter is_co_occurrence (ex_relations r1)
    \<and> (\<lambda>r. (rl_source_id r, rl_target_id r)) ` set (filter is_mention (ex_relations r2)) =
        (\<lambda>r. (rl_source_id r, rl_target_id r)) ` set (filter is_mention (ex_relations r1))
    \<and> (\<forall>r \<in> set (filter is_mention (ex_relations r2)). \<forall>r' \<in> set (filter is_mention (ex_relations r1)).
        (rl_source_id r, rl_target_id r) = (rl_source_id r', rl_target_id r') \<longrightarrow> rl_weight r \<le> rl_weight r')"
proof -
  let ?c1 = "store_batch key now chunks (new_results (extract_per_chunk inference chunks) chunks) c"
  have r1: "r1 = ner_extract inference chunks" and c1: "c1 = Some ?c1"
    using cold_run [OF assms(1-4), of inference now] assms(5) by simp_all
  have "\<forall>ch \<in> set chunks. cached ?c1 (key (ch_text ch)) = Some (cache_payload (extracted inference chunks ch))"
    using stored_results_hit [OF assms(1,2)] assms(4) by blast
  from all_hits [OF store_batch_ok [OF assms(1)] assms(2,3) this, of inference' now', folded c1, unfolded assms(6)]
  have "c2 = c1" and "r2 = \<lparr>ex_entities = ex_entities r1, ex_relations =
      concat (map (\<lambda>ch. restored (ch_chunk_id ch) (cache_payload (extracted inference chunks ch))) chunks)\<rparr>"
    by (simp_all add: r1 ner_extract_closed)
  moreover have "distinct (map ch_chunk_id chunks)" using assms(2) by (simp add: batch_ok_def)
  ultimately show ?thesis
    using mentions_compared [of chunks "chunk_predictions inference chunks"]
    by (simp add: r1 ner_extract_closed)
qed

section \<open>Chunks with the same text\<close>

definition avoids :: "string \<Rightarrow> (entity_key, entity) dict \<Rightarrow> bool" where
  "avoids i seen \<longleftrightarrow> (\<forall>e \<in> snd ` set seen. i \<notin> set (en_chunk_ids e))"

lemma avoids_merge:
  assumes "avoids i seen" and "i \<noteq> cid" and "en_chunk_ids e = [cid]"
  shows "avoids i (merge_entity cid e seen)"
proof (cases "dict_get seen (entity_id e)")
  case None
  with assms show ?thesis
    using set_dict_set_subset [of "entity_id e" e seen]
    by (fastforce simp: avoids_def merge_entity_def Let_def)
next
  case (Some x)
  then have "x \<in> snd ` set seen" by (force dest: map_of_SomeD)
  with assms(1) have "i \<notin> set (en_chunk_ids x)" by (auto simp: avoids_def)
  with Some assms show ?thesis
    using set_dict_set_subset [of "entity_id e" "x\<lparr>en_chunk_ids := en_chunk_ids x @ [cid]\<rparr>" seen]
    by (fastforce simp: avoids_def merge_entity_def Let_def)
qed

lemma avoids_merge_all:
  "avoids i seen \<Longrightarrow> i \<noteq> cid \<Longrightarrow> \<forall>e \<in> set es. en_chunk_ids e = [cid] \<Longrightarrow> avoids i (merge_all cid es seen)"
  by (induction es arbitrary: seen) (auto intro: avoids_merge)

lemma avoids_restore:
  assumes "avoids i seen" and "i \<notin> fst ` set hits"
  shows "avoids i (fst (fold restore_hit hits (seen, rels)))"
  using assms
proof (induction hits arbitrary: seen rels)
  case (Cons h hits)
  obtain cid v where h: "h = (cid, v)" by (cases h)
  have step: "avoids i (fold (\<lambda>(name, etype, source). merge_entity cid
      \<lparr>en_name = name, en_type = etype, en_source = source, en_chunk_ids = [cid]\<rparr>) es s)"
    if "avoids i s" for es s
    using that
  proof (induction es arbitrary: s)
    case (Cons e es)
    have "i \<noteq> cid" using \<open>i \<notin> fst ` set (h # hits)\<close> h by auto
    with Cons.prems have "avoids i (merge_entity cid
        \<lparr>en_name = fst e, en_type = fst (snd e), en_source = snd (snd e), en_chunk_ids = [cid]\<rparr> s)"
      by (intro avoids_merge) simp_all
    from Cons.IH [OF this] show ?case by (simp add: case_prod_unfold)
  qed simp
  obtain es co where v: "v = (es, co)" by (cases v)
  have "avoids i (fst (restore_hit h (seen, rels)))"
    using step [OF Cons.prems(1), of es] by (simp add: restore_hit_def h v Let_def)
  with Cons h show ?case by (cases "restore_hit h (seen, rels)") simp
qed simp

definition mentions_by :: "string set \<Rightarrow> relation list \<Rightarrow> bool" where
  "mentions_by S rels \<longleftrightarrow> (\<forall>r \<in> set rels. is_mention r \<longrightarrow> rl_source_id r \<in> S)"

lemma mentions_by_append: "mentions_by S (xs @ ys) \<longleftrightarrow> mentions_by S xs \<and> mentions_by S ys"
  by (auto simp: mentions_by_def)

lemma mentions_by_concat: "mentions_by S (concat (map f xs)) \<longleftrightarrow> (\<forall>x \<in> set xs. mentions_by S (f x))"
  by (auto simp: mentions_by_def)

lemma mentions_by_mono: "mentions_by S xs \<Longrightarrow> S \<subseteq> T \<Longrightarrow> mentions_by T xs"
  by (auto simp: mentions_by_def)

lemma mentions_by_restored:
  "\<forall>r \<in> set (snd v). is_co_occurrence r \<Longrightarrow> mentions_by {cid} (restored cid v)"
  by (auto simp: mentions_by_def restored_def)

lemma mentions_by_extracted: "mentions_by {cid} (snd (extract_one cid ps))"
proof -
  obtain freq where "snd (extract_one cid ps) =
      map (\<lambda>(a, b). co_occurs (en_name a) (en_name b)) (combinations2 (fst (extract_one cid ps)))
      @ map (\<lambda>e. mentions cid (en_name e) (freq (en_name e))) (fst (extract_one cid ps))"
    by (rule extract_one_closed)
  then show ?thesis by (auto simp: mentions_by_def)
qed

definition co_occurrences_only :: "extraction_cache \<Rightarrow> bool" where
  "co_occurrences_only c \<longleftrightarrow>
     (\<forall>r \<in> set (ct_rows c). \<forall>x \<in> set (the (xr_co_occurs r)). is_co_occurrence x)"

lemma lookup_batch_sources:
  assumes "extraction_ok c" and "distinct (map ch_chunk_id chunks)"
    and "lookup_batch key chunks c = (hits, misses)"
  shows "set misses \<subseteq> set chunks"
    and "co_occurrences_only c \<Longrightarrow> (i, v) \<in> set hits \<Longrightarrow> \<forall>x \<in> set (snd v). is_co_occurrence x"
    and "dict_ok hits"
proof -
  let ?ds = "key_to_chunk key chunks"
  have hits: "hits = hit_list (cached c) ?ds"
    and misses: "misses = map snd (filter (\<lambda>(k, ch). cached c k = None) ?ds)"
    using lookup_batch_closed [OF assms(1,2), of key] assms(3) by auto
  show "set misses \<subseteq> set chunks"
    using find_Some_iff_set [of _ "rev chunks"] by (fastforce simp: misses key_to_chunk_member)
  show "\<forall>x \<in> set (snd v). is_co_occurrence x" if co: "co_occurrences_only c" and "(i, v) \<in> set hits"
  proof -
    from that(2) obtain k where "cached c k = Some v" by (auto simp: hits hit_list_def)
    then obtain r where "r \<in> set (ct_rows c)" "v = payload r"
      by (auto simp: cached_def dest: fetch_key_in)
    with co show ?thesis by (auto simp: co_occurrences_only_def payload_def)
  qed
  show "dict_ok hits"
    using distinct_key_to_chunk_ids [OF assms(2), of key]
    by (auto simp: hits hit_list_def o_def case_prod_unfold intro: distinct_map_filter_key)
qed

text \<open>
  A chunk whose text comes again later in the batch is dropped by the cached run: it
  is mentioned by no relation and listed by no entity of the result, whatever the model
  finds in its text and whether or not the text was cached.
\<close>

theorem repeated_text_dropped:
  assumes "extraction_ok c" and "co_occurrences_only c" and "distinct (map ch_chunk_id chunks)"
    and "ch \<in> set chunks"
    and "find (\<lambda>x. key (ch_text x) = key (ch_text ch)) (rev chunks) \<noteq> Some ch"
    and "extract_with_cache inference key now chunks (Some c) = (r, c')"
  shows "(\<forall>e \<in> set (ex_entities r). ch_chunk_id ch \<notin> set (en_chunk_ids e))
    \<and> (\<forall>x \<in> set (ex_relations r). is_mention x \<longrightarrow> rl_source_id x \<noteq> ch_chunk_id ch)"
proof -
  let ?i = "ch_chunk_id ch"
  obtain hits misses where lb: "lookup_batch key chunks c = (hits, misses)" by fastforce
  note src = lookup_batch_sources [OF assms(1,3) lb]
  from lookup_batch_spec [OF assms(1,3) lb assms(4)] assms(5)
  have "dict_get hits ?i = None" "ch \<notin> set misses" by auto
  then have hit: "?i \<notin> fst ` set hits" and miss: "?i \<notin> ch_chunk_id ` set misses"
    using src(1) assms(3,4) by (auto simp: dict_get_None_iff distinct_map dest: inj_onD)
  define acc where "acc = fold restore_hit hits ([], [])"
  define out where "out = fold (merge_chunk (extract_per_chunk inference misses)) misses acc"
  have r: "r = result_of out"
    using assms(4,6) lb by (auto simp: extract_with_cache_def acc_def out_def Let_def split: if_splits)
  have acc: "avoids ?i (fst acc)"
    unfolding acc_def using hit by (intro avoids_restore) (simp_all add: avoids_def)
  have "fst out = fold (\<lambda>c. merge_all (ch_chunk_id c) (fst (extracted inference misses c))) misses (fst acc)"
  proof -
    have "fst out = fold (\<lambda>c. merge_all (ch_chunk_id c)
        (fst (chunk_result (extract_per_chunk inference misses) c))) misses (fst acc)"
      unfolding out_def by (cases acc) (simp add: fold_merge_chunk)
    also have "\<dots> = fold (\<lambda>c. merge_all (ch_chunk_id c) (fst (extracted inference misses c))) misses (fst acc)"
      by (rule fold_cong) (simp_all add: extract_per_chunk_one)
    finally show ?thesis .
  qed
  moreover have "avoids ?i (fold (\<lambda>c. merge_all (ch_chunk_id c) (fst (extracted inference misses c))) cs s)"
    if "avoids ?i s" "?i \<notin> ch_chunk_id ` set cs" for cs s
    using that
  proof (induction cs arbitrary: s)
    case (Cons x cs)
    have "\<forall>e \<in> set (fst (extracted inference misses x)). en_source e = ''ner'' \<and> en_chunk_ids e = [ch_chunk_id x]"
      by (rule extract_one_closed)
    with Cons show ?case by (auto intro: avoids_merge_all)
  qed simp
  ultimately have "avoids ?i (fst out)" using acc miss by simp
  moreover have "mentions_by (- {?i}) (snd out)"
  proof -
    have "snd out = concat (map (\<lambda>(cid, v). restored cid v) hits)
        @ concat (map (\<lambda>c. snd (chunk_result (extract_per_chunk inference misses) c)) misses)"
      unfolding out_def acc_def fold_restore_hit fold_merge_chunk by simp
    moreover have "mentions_by (- {?i}) (restored cid v)" if "(cid, v) \<in> set hits" for cid v
      using mentions_by_restored [OF src(2) [OF assms(2) that]]
      by (rule mentions_by_mono) (use that hit in force)
    moreover have "mentions_by (- {?i}) (snd (chunk_result (extract_per_chunk inference misses) x))"
      if "x \<in> set misses" for x
      unfolding extract_per_chunk_one [OF that] using mentions_by_extracted
      by (rule mentions_by_mono) (use that miss in auto)
    ultimately show ?thesis by (auto simp: mentions_by_append mentions_by_concat)
  qed
  ultimately show ?thesis by (auto simp: r result_of_def avoids_def mentions_by_def)
qed

section \<open>Concrete runs\<close>

definition demo_inference :: inference where
  "demo_inference texts = map (\<lambda>t. [(''Ann'', ''person''), ('' Ann '', ''person'')]) texts"

lemma fresh_cache_co: "co_occurrences_only fresh_cache"
  by (simp add: co_occurrences_only_def fresh_cache_def)

lemma demo_cold:
  "map rl_weight (ex_relations (ner_extract demo_inference [demo_chunk ''c1'' ''Ann met Ann''])) = [2]"
  by code_simp

lemma demo_warm:
  "map rl_weight (ex_relations (fst (extract_with_cache demo_inference demo_key 1 [demo_chunk ''c1'' ''Ann met Ann'']
     (snd (extract_with_cache demo_inference demo_key 0 [demo_chunk ''c1'' ''Ann met Ann''] (Some fresh_cache)))))) = [1]"
  by code_simp

theorem warm_run_agrees_witness:
  "\<exists>r1 c1 r2. extract_with_cache demo_inference demo_key 0 [demo_chunk ''c1'' ''Ann met Ann''] (Some fresh_cache) = (r1, c1)
     \<and> extract_with_cache demo_inference demo_key 1 [demo_chunk ''c1'' ''Ann met Ann''] c1 = (r2, c1)
     \<and> ex_entities r2 = ex_entities r1
     \<and> map rl_weight (ex_relations r1) = [2] \<and> map rl_weight (ex_relations r2) = [1]"
proof -
  let ?chs = "[demo_chunk ''c1'' ''Ann met Ann'']"
  obtain r1 c1 where run1: "extract_with_cache demo_inference demo_key 0 ?chs (Some fresh_cache) = (r1, c1)"
    by fastforce
  obtain r2 c2 where run2: "extract_with_cache demo_inference demo_key 1 ?chs c1 = (r2, c2)"
    by fastforce
  have "batch_ok demo_key ?chs" by (simp add: batch_ok_def)
  from warm_run_agrees [OF fresh_cache_ok(1) this _ _ run1 run2] fresh_cache_ok(2)
  have "r1 = ner_extract demo_inference ?chs" "c2 = c1" "ex_entities r2 = ex_entities r1" by auto
  with run1 run2 demo_cold demo_warm show ?thesis by simp
qed

theorem repeated_text_dropped_witness:
  "filter (\<lambda>x. is_mention x \<and> rl_source_id x = ''c1'') (ex_relations (fst (extract_with_cache
     demo_inference demo_key 0 [demo_chunk ''c1'' ''Ann'', demo_chunk ''c2'' ''Ann''] (Some fresh_cache)))) = []"
proof -
  let ?chs = "[demo_chunk ''c1'' ''Ann'', demo_chunk ''c2'' ''Ann'']"
  obtain r c' where run: "extract_with_cache demo_inference demo_key 0 ?chs (Some fresh_cache) = (r, c')"
    by fastforce
  have "distinct (map ch_chunk_id ?chs)"
    "find (\<lambda>x. demo_key (ch_text x) = demo_key (ch_text (demo_chunk ''c1'' ''Ann''))) (rev ?chs)
       \<noteq> Some (demo_chunk ''c1'' ''Ann'')"
    by (simp_all add: demo_chunk_def)
  from repeated_text_dropped [OF fresh_cache_ok(1) fresh_cache_co this(1) _ this(2) run]
  have "filter (\<lambda>x. is_mention x \<and> rl_source_id x = ''c1'') (ex_relations r) = []"
    by (auto simp: demo_chunk_def filter_empty_conv)
  then show ?thesis using run by simp
qed

end
