(* ===== verification/Chunking_Laws.thy ===== *)
theory Chunking_Laws
  imports Chunking
begin

text \<open>
  Correctness of the chunker: the sections reconstruct the text, splitting keeps every
  word in order and repeats only the overlap, a chunk carries the path of the headings
  around it, and chunk ids are positions in disguise.
\<close>

section \<open>Splitters keep the words\<close>

lemma LF_space: "py_isspace LF"
  by (simp add: LF_def py_isspace_def)

lemma words_stripped: "concat (map py_split (stripped_pieces ss)) = concat (map py_split ss)"
proof (induction ss)
  case (Cons s ss)
  have "py_strip s = [] \<Longrightarrow> py_split s = []" by (metis py_split_Nil py_split_strip)
  with Cons show ?case by (auto simp: stripped_pieces_def)
qed (simp add: stripped_pieces_def)

lemma sentence_pieces_words:
  "concat (map py_split (sentence_pieces st acc cs)) = py_split (rev acc @ cs)"
  by (induction st acc cs rule: sentence_pieces.induct) (auto simp: py_split_sep)

lemma split_sentences_words: "concat (map py_split (split_sentences s)) = py_split s"
  by (simp add: split_sentences_def words_stripped sentence_pieces_words)

lemma speaker_pieces_words:
  "concat (map py_split (speaker_pieces acc cs)) = py_split (rev acc @ cs)"
  by (induction acc cs rule: speaker_pieces.induct) (auto simp: py_split_sep LF_space)

lemma paragraph_pieces_words:
  "concat (map py_split (paragraph_pieces acc cs)) = py_split (rev acc @ cs)"
  by (induction acc cs rule: paragraph_pieces.induct) (auto simp: py_split_sep LF_space)

lemma py_strip_Nil_words: "py_strip s = [] \<Longrightarrow> py_split s = []"
  by (metis py_split_Nil py_split_strip)

lemma py_split_Nil_strip: "py_split s = [] \<Longrightarrow> py_strip s = []"
proof -
  assume "py_split s = []"
  then have "dropWhile py_isspace s = []"
    by (induction s) (auto split: if_splits, metis list.distinct(1) py_split_word)
  then show ?thesis by (simp only: py_strip_def) simp
qed

lemma get_handler_words: "concat (map py_split (get_handler kind s)) = py_split s"
  by (auto simp: get_handler_def split_by_speaker_turns_def split_by_paragraphs_def split_default_def
      words_stripped speaker_pieces_words paragraph_pieces_words Let_def py_strip_Nil_words)

lemma fit_segments_words: "concat (map py_split (fit_segments mt segs)) = concat (map py_split segs)"
proof (induction segs)
  case (Cons s segs)
  then show ?case
    using split_sentences_words [of s] by (auto simp: fit_segments_def Let_def)
qed (simp add: fit_segments_def)

section \<open>Grouping with overlap\<close>

abbreviation tokens :: "string list \<Rightarrow> nat" where
  "tokens ss \<equiv> sum_list (map estimate_tokens ss)"

text \<open>
  A group is an overlap with new sentences.  The overlap of a group is a tail of the
  sentences of the one before (of \<open>prev\<close> for the first group).
\<close>

fun chained :: "string list \<Rightarrow> (string list \<times> string list) list \<Rightarrow> bool" where
  "chained prev [] \<longleftrightarrow> True"
| "chained prev ((ov, new) # gs) \<longleftrightarrow> (\<exists>xs. prev = xs @ ov) \<and> chained (ov @ new) gs"

definition group_fits :: "nat \<Rightarrow> string list \<times> string list \<Rightarrow> bool" where
  "group_fits mt g \<longleftrightarrow> snd g \<noteq> [] \<and> (length (snd g) = 1 \<or> tokens (fst g @ snd g) \<le> mt)"

definition overlap_fits :: "nat \<Rightarrow> string list \<times> string list \<Rightarrow> bool" where
  "overlap_fits ot g \<longleftrightarrow> length (fst g) \<le> 1 \<or> tokens (fst g) \<le> ot"

lemma overlap_tail_spec:
  assumes "overlap_tail ot (rev xs) ov tok = (tail, tok')" and "tok = tokens ov"
    and "length ov \<le> 1 \<or> tokens ov \<le> ot"
  shows "(\<exists>ys. xs @ ov = ys @ tail) \<and> tok' = tokens tail
    \<and> (length tail \<le> 1 \<or> tokens tail \<le> ot)"
  using assms
proof (induction xs arbitrary: ov tok rule: rev_induct)
  case Nil
  then show ?case by auto
next
  case (snoc x xs)
  show ?case
  proof (cases "ot < tok + estimate_tokens x \<and> ov \<noteq> []")
    case True
    with snoc.prems show ?thesis by auto
  next
    case False
    have "overlap_tail ot (rev xs) (x # ov) (tok + estimate_tokens x) = (tail, tok')"
      using False snoc.prems(1) by auto
    moreover have "tok + estimate_tokens x = tokens (x # ov)" using snoc.prems(2) by simp
    moreover have "length (x # ov) \<le> 1 \<or> tokens (x # ov) \<le> ot"
      using False snoc.prems(2) by auto
    ultimately show ?thesis using snoc.IH [of "x # ov"] by simp
  qed
qed

lemma chained_append:
  "chained prev (gs @ hs) \<longleftrightarrow> chained prev gs
     \<and> chained (if gs = [] then prev else fst (last gs) @ snd (last gs)) hs"
  by (induction prev gs rule: chained.induct) auto

lemma group_sentences_spec:
  assumes "chained [] (gs @ (if current = [] then [] else [(ov, new)]))" and "current = ov @ new"
    and "current \<noteq> [] \<Longrightarrow> group_fits mt (ov, new) \<and> overlap_fits ot (ov, new)"
    and "current = [] \<Longrightarrow> gs = []"
    and "tok = tokens current"
    and "list_all (\<lambda>g. group_fits mt g \<and> overlap_fits ot g) gs"
  shows "\<exists>gs'. group_sentences mt ot ss (map (\<lambda>(ov, new). ov @ new) gs) current tok
      = map (\<lambda>(ov, new). ov @ new) gs'
    \<and> concat (map snd gs') = concat (map snd gs) @ new @ ss
    \<and> chained [] gs' \<and> list_all (\<lambda>g. group_fits mt g \<and> overlap_fits ot g) gs'"
  using assms
proof (induction ss arbitrary: gs current ov new tok)
  case Nil
  then show ?case
    by (intro exI [of _ "gs @ (if current = [] then [] else [(ov, new)])"]) auto
next
  case (Cons s ss)
  show ?case
  proof (cases "current \<noteq> [] \<and> mt < tok + estimate_tokens s")
    case True
    obtain tail tok' where tl: "overlap_tail ot (rev current) [] 0 = (tail, tok')" by fastforce
    from overlap_tail_spec [OF tl] have tail: "\<exists>ys. current = ys @ tail" "tok' = tokens tail"
      "length tail \<le> 1 \<or> tokens tail \<le> ot" by auto
    have "\<exists>gs'. group_sentences mt ot ss (map (\<lambda>(ov, new). ov @ new) (gs @ [(ov, new)])) (tail @ [s])
        (tok' + estimate_tokens s) = map (\<lambda>(ov, new). ov @ new) gs'
      \<and> concat (map snd gs') = concat (map snd (gs @ [(ov, new)])) @ [s] @ ss
      \<and> chained [] gs' \<and> list_all (\<lambda>g. group_fits mt g \<and> overlap_fits ot g) gs'"
      using Cons.prems True tail
      by (intro Cons.IH [where ov = tail]) (auto simp: chained_append group_fits_def overlap_fits_def)
    with True tl Cons.prems(2) show ?thesis by simp
  next
    case False
    have "\<exists>gs'. group_sentences mt ot ss (map (\<lambda>(ov, new). ov @ new) gs) (current @ [s])
        (tok + estimate_tokens s) = map (\<lambda>(ov, new). ov @ new) gs'
      \<and> concat (map snd gs') = concat (map snd gs) @ (new @ [s]) @ ss
      \<and> chained [] gs' \<and> list_all (\<lambda>g. group_fits mt g \<and> overlap_fits ot g) gs'"
      using Cons.prems False
      by (intro Cons.IH [where ov = ov]; cases "current = []")
        (auto simp: chained_append group_fits_def overlap_fits_def split: if_splits)
    moreover have "group_sentences mt ot (s # ss) ps current tok =
        group_sentences mt ot ss ps (current @ [s]) (tok + estimate_tokens s)" for ps
      using False by auto
    ultimately show ?thesis by simp
  qed
qed

text \<open>
  C35: Splitting a text for any document kind cuts it into groups of sentences, joined by
  spaces.  The new sentences of the groups hold every word of the text once and in order;
  what a group repeats is a tail of the group before, which is a single sentence of whatever
  size (the code always keeps one) or, when it has several, within the overlap budget; and a
  group with more than one new sentence stays within the token budget (counted per sentence,
  the repeated ones included).
\<close>

theorem split_with_overlap_spec:
  "\<exists>groups. split_with_overlap txt max_tokens overlap_tokens (get_handler kind) =
      map (\<lambda>(overlap, new). py_join '' '' (overlap @ new)) groups
    \<and> concat (map (\<lambda>(overlap, new). concat (map py_split new)) groups) = py_split txt
    \<and> chained [] groups
    \<and> list_all (\<lambda>g. group_fits max_tokens g \<and> overlap_fits overlap_tokens g) groups"
proof (cases "get_handler kind txt = []")
  case True
  then have "py_split txt = []" using get_handler_words [of kind "txt"] by simp
  moreover from this have "py_strip txt = []" by (rule py_split_Nil_strip)
  ultimately show ?thesis
    using True by (intro exI [of _ "[]"]) (simp add: split_with_overlap_def)
next
  case False
  let ?ss = "fit_segments max_tokens (get_handler kind txt)"
  obtain gs where gs: "group_sentences max_tokens overlap_tokens ?ss [] [] 0 = map (\<lambda>(ov, new). ov @ new) gs"
    "concat (map snd gs) = ?ss" "chained [] gs"
    "list_all (\<lambda>g. group_fits max_tokens g \<and> overlap_fits overlap_tokens g) gs"
    using group_sentences_spec [of "[]" "[]" "[]" "[]" max_tokens overlap_tokens 0 ?ss] by auto
  have "concat (map (\<lambda>(overlap, new). concat (map py_split new)) gs) = concat (map py_split (concat (map snd gs)))"
    by (induction gs) auto
  also have "\<dots> = py_split txt" by (simp add: gs(2) fit_segments_words get_handler_words)
  finally show ?thesis
    using False gs by (intro exI [of _ gs]) (simp add: split_with_overlap_def o_def case_prod_unfold)
qed

section \<open>Sections reconstruct the text\<close>

definition heading_source :: "nat \<Rightarrow> string \<Rightarrow> string \<Rightarrow> bool" where
  "heading_source level h src \<longleftrightarrow> 1 \<le> level \<and> level \<le> 6 \<and> h \<noteq> [] \<and> LF \<notin> set h
     \<and> (\<exists>ws. ws \<noteq> [] \<and> (\<forall>c \<in> set ws. py_isspace c) \<and> src = replicate level (CHR ''#'') @ ws @ h)"

lemma heading_at_source:
  assumes "heading_at s = Some (l, h, n)"
  shows "heading_source l h (take n s)"
proof -
  let ?hs = "length (takeWhile (\<lambda>c. c = CHR ''#'') s)"
  let ?ws = "takeWhile py_isspace (drop ?hs s)"
  let ?stop = "?hs + length ?ws"
  obtain i where i: "(if ?stop < length s then Some ?stop
      else find (\<lambda>j. s ! j \<noteq> LF) (rev [Suc ?hs ..< ?stop])) = Some i"
    and l: "l = ?hs" "1 \<le> l" "l \<le> 6" "1 \<le> length ?ws" and h: "h = heading_text i s"
    and n: "n = i + length h"
    using assms by (auto simp: heading_at_def Let_def split: if_splits)
  have hashes: "take ?hs s = replicate ?hs (CHR ''#'')"
    unfolding take_length_takeWhile
    by (rule replicate_length_same [symmetric]) (auto dest: set_takeWhileD)
  have ws: "take (length ?ws) (drop ?hs s) = ?ws" by (rule take_length_takeWhile)
  have "?stop \<le> length s"
    using length_takeWhile_le [of py_isspace "drop ?hs s"] length_takeWhile_le [of "\<lambda>c. c = CHR ''#''" s]
    by simp
  then have pos: "?hs < i" "i \<le> ?stop" "i < length s" "s ! i \<noteq> LF"
  proof -
    have "s ! ?stop \<noteq> LF" if "?stop < length s"
    proof -
      have "\<not> py_isspace (drop ?hs s ! length ?ws)"
        using that by (intro nth_length_takeWhile) simp
      then show ?thesis using that LF_space by (auto simp: nth_drop add.commute)
    qed
    with i l(2,4) \<open>?stop \<le> length s\<close>
    show "?hs < i" "i \<le> ?stop" "i < length s" "s ! i \<noteq> LF"
      by (auto split: if_splits dest!: find_Some_iff_set)
  qed
  let ?v = "take (i - ?hs) ?ws"
  have "take i s = take ?hs s @ take (i - ?hs) (drop ?hs s)"
    using pos(1) by (metis add_diff_inverse_nat less_imp_not_less take_add)
  also have "take (i - ?hs) (drop ?hs s) = ?v"
    using pos(2) by (metis (no_types, lifting) ws diff_le_mono add_diff_cancel_left' min.absorb1 take_take)
  finally have "take i s = replicate l (CHR ''#'') @ ?v" using hashes l(1) by simp
  moreover have "take n s = take i s @ h"
    unfolding n h heading_text_def by (simp add: take_add take_length_takeWhile)
  moreover have "h \<noteq> []"
    using pos(3,4) by (simp add: h heading_text_def takeWhile_eq_Nil_iff hd_drop_conv_nth)
  moreover have "LF \<notin> set h" by (auto simp: h heading_text_def dest: set_takeWhileD)
  moreover have "?v \<noteq> []" "\<forall>c \<in> set ?v. py_isspace c"
    using pos(1) l(4) by (auto dest!: in_set_takeD dest: set_takeWhileD)
  ultimately show ?thesis
    using l unfolding heading_source_def by (metis append.assoc)
qed

fun spans_ok :: "string \<Rightarrow> nat \<Rightarrow> heading_match list \<Rightarrow> bool" where
  "spans_ok s lo [] \<longleftrightarrow> lo \<le> length s"
| "spans_ok s lo (m # ms) \<longleftrightarrow> lo \<le> hm_start m \<and> hm_start m < hm_end m
     \<and> heading_source (hm_level m) (hm_heading m) (slice (hm_start m) (hm_end m) s)
     \<and> spans_ok s (hm_end m) ms"

lemma spans_ok_mono: "spans_ok s lo ms \<Longrightarrow> lo' \<le> lo \<Longrightarrow> spans_ok s lo' ms"
  by (cases ms) auto

lemma heading_matches_ok: "spans_ok (pre @ s) (length pre) (heading_matches (length pre) bol s)"
proof (induction "length pre" bol s arbitrary: pre rule: heading_matches.induct)
  case (1 bol)
  then show ?case by simp
next
  case (2 bol c cs)
  show ?case
  proof (cases "if bol then heading_at (c # cs) else None")
    case None
    from "2.hyps"(1) [OF None, of "pre @ [c]"] have "spans_ok (pre @ c # cs) (Suc (length pre))
        (heading_matches (Suc (length pre)) (c = LF) cs)" by simp
    with None show ?thesis by (auto intro: spans_ok_mono)
  next
    case (Some r)
    obtain l h n where r: "r = (l, h, n)" by (cases r)
    with Some have at: "heading_at (c # cs) = Some (l, h, n)" by (auto split: if_splits)
    note pos = heading_at_pos [OF at]
    have "pre @ c # cs = (pre @ take n (c # cs)) @ drop n (c # cs)" by simp
    moreover have "length (pre @ take n (c # cs)) = length pre + n" using pos by simp
    ultimately have "spans_ok (pre @ c # cs) (length pre + n) (heading_matches (length pre + n) False (drop n (c # cs)))"
      using "2.hyps"(2) [OF Some [unfolded r] refl refl, of "pre @ take n (c # cs)"] by metis
    moreover have "slice (length pre) (length pre + n) (pre @ c # cs) = take n (c # cs)"
      by (simp add: slice_def)
    ultimately show ?thesis
      using Some r at pos heading_at_source [OF at] by simp
  qed
qed

fun bodies_from :: "string \<Rightarrow> nat \<Rightarrow> heading_match list \<Rightarrow> string list" where
  "bodies_from content e [] = []"
| "bodies_from content e (m # ms) =
     (case ms of [] \<Rightarrow> drop (hm_end m) content | m' # _ \<Rightarrow> slice (hm_end m) (hm_start m') content)
       # bodies_from content (hm_end m) ms"

abbreviation section_of :: "heading_match \<Rightarrow> string \<Rightarrow> md_section" where
  "section_of m b \<equiv> \<lparr>se_level = hm_level m, se_heading = py_strip (hm_heading m), se_body = b,
     se_offset = hm_end m\<rparr>"

lemma length_bodies_from [simp]: "length (bodies_from content e ms) = length ms"
  by (induction ms arbitrary: e) auto

lemma sections_from_bodies:
  "spans_ok content e (m # ms) \<Longrightarrow>
     sections_from content (hm_end m) (hm_level m) (py_strip (hm_heading m)) ms =
       map2 section_of (m # ms) (bodies_from content e (m # ms))"
proof (induction ms arbitrary: e m)
  case Nil
  then show ?case by simp
next
  case (Cons m' ms)
  from Cons.prems have "0 < hm_end m" "spans_ok content (hm_end m) (m' # ms)" by auto
  with Cons.IH [of "hm_end m" m'] show ?case by (simp add: Let_def)
qed

lemma slice_append_drop: "i \<le> j \<Longrightarrow> slice i j s @ drop j s = drop i s"
  using drop_append [of i "take j s" "drop j s"] by (cases "j \<le> length s") (auto simp: slice_def)

lemma bodies_concat:
  "spans_ok content e (m # ms) \<Longrightarrow>
     drop (hm_start m) content =
       concat (map2 (\<lambda>m b. slice (hm_start m) (hm_end m) content @ b) (m # ms) (bodies_from content e (m # ms)))"
proof (induction ms arbitrary: e m)
  case Nil
  then show ?case by (simp add: slice_append_drop)
next
  case (Cons m' ms)
  then have "hm_start m \<le> hm_end m" "hm_end m \<le> hm_start m'" "spans_ok content (hm_end m) (m' # ms)" by auto
  moreover from this have "drop (hm_start m) content = slice (hm_start m) (hm_end m) content
      @ slice (hm_end m) (hm_start m') content @ drop (hm_start m') content"
    by (simp add: slice_append_drop)
  ultimately show ?case using Cons.IH [of "hm_end m" m'] by simp
qed

lemma sections_bodies_ex:
  "\<exists>pre bodies. length bodies = length (heading_matches 0 True content)
    \<and> content = pre @ concat (map2 (\<lambda>m b. slice (hm_start m) (hm_end m) content @ b)
        (heading_matches 0 True content) bodies)
    \<and> parse_sections content =
        (if heading_matches 0 True content \<noteq> [] \<and> py_strip pre = [] then []
         else [\<lparr>se_level = 0, se_heading = [], se_body = pre, se_offset = 0\<rparr>])
        @ map2 section_of (heading_matches 0 True content) bodies
    \<and> list_all (\<lambda>m. heading_source (hm_level m) (hm_heading m) (slice (hm_start m) (hm_end m) content))
        (heading_matches 0 True content)"
proof (cases "heading_matches 0 True content")
  case Nil
  then show ?thesis by (intro exI [of _ content] exI [of _ "[]"]) (simp add: parse_sections_def)
next
  case (Cons m ms)
  have ok: "spans_ok content 0 (m # ms)"
    using heading_matches_ok [of "[]" content True] Cons by simp
  have src: "spans_ok content lo xs \<Longrightarrow> list_all (\<lambda>m. heading_source (hm_level m) (hm_heading m)
      (slice (hm_start m) (hm_end m) content)) xs" for lo xs
    by (induction xs arbitrary: lo) auto
  have "content = take (hm_start m) content @ drop (hm_start m) content" by simp
  with bodies_concat [OF ok] have "content = take (hm_start m) content @
      concat (map2 (\<lambda>m b. slice (hm_start m) (hm_end m) content @ b) (m # ms) (bodies_from content 0 (m # ms)))"
    by metis
  then show ?thesis
    using Cons src [OF ok] sections_from_bodies [OF ok]
    by (intro exI [of _ "take (hm_start m) content"] exI [of _ "bodies_from content 0 (m # ms)"])
      (simp add: parse_sections_def Let_def slice_def)
qed

text \<open>
  C36: The sections of a document lose nothing but whitespace: the text is what precedes
  the first heading, followed by each heading's line and the body of its section.  The
  sections are exactly these, in order, the text before the first heading being one of its
  own only if it is not blank (or there is no heading at all); and every heading line has
  one to six hashes, whitespace and a non-empty heading.
\<close>

theorem parse_sections_reconstructs:
  "\<exists>pre bodies. length bodies = length (heading_matches 0 True content)
    \<and> content = pre @ concat (map2 (\<lambda>m b. slice (hm_start m) (hm_end m) content @ b)
        (heading_matches 0 True content) bodies)
    \<and> parse_sections content =
        (if heading_matches 0 True content \<noteq> [] \<and> py_strip pre = [] then []
         else [\<lparr>se_level = 0, se_heading = [], se_body = pre, se_offset = 0\<rparr>])
        @ map2 section_of (heading_matches 0 True content) bodies
    \<and> list_all (\<lambda>m. heading_source (hm_level m) (hm_heading m) (slice (hm_start m) (hm_end m) content))
        (heading_matches 0 True content)"
  by (rule sections_bodies_ex)

section \<open>The outline\<close>

text \<open>
  The heading at level \<open>l\<close> above a position, from the sections before it in reverse: the last
  heading of that level, if no heading of a higher rank came after it.
\<close>

fun outline_entry :: "md_section list \<Rightarrow> nat \<Rightarrow> string" where
  "outline_entry [] l = []"
| "outline_entry (s # rest) l =
     (if se_level s = l then se_heading s
      else if 0 < se_level s \<and> se_level s < l then [] else outline_entry rest l)"

definition outline_path :: "md_section list \<Rightarrow> md_section \<Rightarrow> string list" where
  "outline_path before s =
     filter (\<lambda>h. h \<noteq> []) (map (outline_entry (s # rev before)) [1 ..< se_level s + 1])"

definition levels_ok :: "md_section list \<Rightarrow> bool" where
  "levels_ok ss = list_all (\<lambda>s. se_level s \<le> 6) ss"

lemma hierarchy_outline:
  assumes "levels_ok before"
  shows "length (fold enter_section before (replicate 7 [])) = 7
    \<and> (\<forall>l. 1 \<le> l \<and> l \<le> 6 \<longrightarrow>
        fold enter_section before (replicate 7 []) ! l = outline_entry (rev before) l)"
  using assms
proof (induction before rule: rev_induct)
  case Nil
  then show ?case by (auto simp: nth_replicate)
next
  case (snoc s before)
  let ?h = "fold enter_section before (replicate 7 [])"
  have "levels_ok before" "se_level s \<le> 6" using snoc.prems by (auto simp: levels_ok_def)
  with snoc.IH have IH: "length ?h = 7" "\<And>l. 1 \<le> l \<and> l \<le> 6 \<Longrightarrow> ?h ! l = outline_entry (rev before) l"
    by auto
  have "enter_section s ?h ! l = outline_entry (s # rev before) l" if l: "1 \<le> l \<and> l \<le> 6" for l
    using l IH \<open>se_level s \<le> 6\<close>
    by (auto simp: enter_section_def nth_append nth_Cons' not_less nth_replicate)
  moreover have "length (enter_section s ?h) = 7"
    using IH(1) \<open>se_level s \<le> 6\<close> by (simp add: enter_section_def)
  ultimately show ?case by simp
qed

lemma current_hierarchy_outline:
  assumes "levels_ok (before @ [s])"
  shows "current_hierarchy s (fold enter_section (before @ [s]) (replicate 7 [])) = outline_path before s"
proof (cases "0 < se_level s")
  case False
  then show ?thesis by (simp add: current_hierarchy_def outline_path_def)
next
  case True
  let ?h = "fold enter_section (before @ [s]) (replicate 7 [])"
  have len: "length ?h = 7" and nth: "\<And>l. 1 \<le> l \<and> l \<le> 6 \<Longrightarrow> ?h ! l = outline_entry (s # rev before) l"
    using hierarchy_outline [OF assms] by auto
  have "se_level s \<le> 6" using assms by (simp add: levels_ok_def)
  then have "slice 1 (se_level s + 1) ?h = map (outline_entry (s # rev before)) [1 ..< se_level s + 1]"
    using len nth by (intro list_eq_iff_nth_eq [THEN iffD2]) (auto simp: slice_def simp del: upt_Suc)
  with True show ?thesis by (simp add: current_hierarchy_def outline_path_def)
qed

lemma parse_sections_levels: "levels_ok (parse_sections content)"
proof -
  obtain pre bodies where "parse_sections content =
        (if heading_matches 0 True content \<noteq> [] \<and> py_strip pre = [] then []
         else [\<lparr>se_level = 0, se_heading = [], se_body = pre, se_offset = 0\<rparr>])
        @ map2 section_of (heading_matches 0 True content) bodies"
    using sections_bodies_ex by blast
  moreover have "list_all (\<lambda>m. hm_level m \<le> 6) (heading_matches 0 True content)"
  proof -
    have "spans_ok content lo ms \<Longrightarrow> list_all (\<lambda>m. hm_level m \<le> 6) ms" for lo ms
      by (induction ms arbitrary: lo) (auto simp: heading_source_def)
    then show ?thesis using heading_matches_ok [of "[]" content True] by auto
  qed
  then have "levels_ok (map2 section_of (heading_matches 0 True content) bodies)"
    by (force simp: levels_ok_def list_all_iff dest: set_zip_leftD)
  ultimately show ?thesis by (simp add: levels_ok_def)
qed

fun outline_items :: "chunk_params \<Rightarrow> md_section list \<Rightarrow> md_section list \<Rightarrow>
    (nat \<times> string list \<times> string) list" where
  "outline_items p before [] = []"
| "outline_items p before (s # ss) =
     (let path = outline_path before s; txt = section_text s path
      in (if py_strip (se_body s) = [] \<and> se_heading s = [] \<or> txt = [] then []
          else map (\<lambda>t. (se_level s, path, t)) (section_texts p txt))
         @ outline_items p (before @ [s]) ss)"

lemma map2_append_upt:
  "map2 f (xs @ ys) [i ..< i + length (xs @ ys)] =
     map2 f xs [i ..< i + length xs] @ map2 f ys [i + length xs ..< i + length xs + length ys]"
  using upt_add_eq_append [of i "i + length xs" "length ys"] by (simp add: zip_append add.assoc)

lemma chunk_sections_outline:
  assumes "levels_ok (before @ ss)"
  shows "chunk_sections b p cs ss (fold enter_section before (replicate 7 [])) i =
    map2 (\<lambda>(level, path, t) j. new_chunk b p cs level path t j) (outline_items p before ss)
      [i ..< i + length (outline_items p before ss)]"
  using assms
proof (induction ss arbitrary: before i)
  case Nil
  then show ?case by simp
next
  case (Cons s ss)
  let ?h = "fold enter_section (before @ [s]) (replicate 7 [])"
  have lev: "levels_ok (before @ [s])" "levels_ok ((before @ [s]) @ ss)"
    using Cons.prems by (auto simp: levels_ok_def)
  have h: "enter_section s (fold enter_section before (replicate 7 [])) = ?h" by simp
  note path = current_hierarchy_outline [OF lev(1)]
  let ?path = "outline_path before s"
  let ?texts = "section_texts p (section_text s ?path)"
  show ?case
  proof (cases "py_strip (se_body s) = [] \<and> se_heading s = [] \<or> section_text s ?path = []")
    case True
    then show ?thesis
      using Cons.IH [OF lev(2), of i] by (simp only: chunk_sections.simps Let_def h path outline_items.simps
          if_True append_Nil)
  next
    case False
    have "map2 (new_chunk b p cs (se_level s) ?path) ?texts [i ..< i + length ?texts] =
        map2 (\<lambda>(level, path, t) j. new_chunk b p cs level path t j)
          (map (\<lambda>t. (se_level s, ?path, t)) ?texts) [i ..< i + length ?texts]"
      by (simp add: zip_map1 o_def case_prod_unfold)
    with False show ?thesis
      using Cons.IH [OF lev(2), of "i + length ?texts"]
      by (simp only: chunk_sections.simps Let_def h path outline_items.simps if_False map2_append_upt
          length_map)
  qed
qed

definition chunk_items :: "(string \<Rightarrow> yaml_result) \<Rightarrow> chunk_params \<Rightarrow> string \<Rightarrow>
    (nat \<times> string list \<times> string) list" where
  "chunk_items yaml p content =
     outline_items p [] (parse_sections (snd (parse_frontmatter yaml content)))"

lemma chunk_file_items:
  "chunk_file b yaml p content =
     map2 (\<lambda>(level, path, t) j. new_chunk b p
         (b (cp_kind p @ [LF] @ snd (parse_frontmatter yaml content))) level path t j)
       (chunk_items yaml p content) [0 ..< length (chunk_items yaml p content)]"
  using chunk_sections_outline [of "[]" "parse_sections (snd (parse_frontmatter yaml content))" b p
      "b (cp_kind p @ [LF] @ snd (parse_frontmatter yaml content))" 0] parse_sections_levels
  by (simp add: chunk_file_def chunk_items_def Let_def)

text \<open>
  C30: The chunks of a file are, in order, the texts of its sections: each carries the level
  and the outline path of its section, where the path holds at every level down to the
  section's own the last heading of that level not closed by a heading of higher rank.
  Chunk indices count from zero without gaps and ids are derived from them.
\<close>

theorem chunk_file_outline:
  "map (\<lambda>c. (nat (ch_level c), ch_heading_hierarchy c, ch_text c)) (chunk_file b yaml p content) =
     chunk_items yaml p content
   \<and> map ch_chunk_index (chunk_file b yaml p content) = [0 ..< length (chunk_items yaml p content)]
   \<and> map ch_chunk_id (chunk_file b yaml p content) =
       map (\<lambda>i. make_chunk_id b (b (cp_kind p @ [LF] @ snd (parse_frontmatter yaml content))) i (cp_strategy p))
         [0 ..< length (chunk_items yaml p content)]"
proof -
  have proj: "map g (map2 (\<lambda>(level, path, t) j. new_chunk b p cs level path t j) xs [0 ..< length xs]) =
      map2 (\<lambda>(level, path, t) j. g (new_chunk b p cs level path t j)) xs [0 ..< length xs]"
    for g :: "chunk \<Rightarrow> 'a" and cs xs
    by (simp add: case_prod_unfold)
  have left: "map2 (\<lambda>(level, path, t) j. (level, path, t)) xs [0 ..< length xs] = xs" for xs :: "(nat \<times> string list \<times> string) list"
    by (simp add: case_prod_unfold)
  have right: "map2 (\<lambda>(level, path, t) j. g j) xs [0 ..< length xs] = map g [0 ..< length xs]"
    for g :: "nat \<Rightarrow> 'b" and xs :: "(nat \<times> string list \<times> string) list"
    by (rule nth_equalityI) (auto simp: case_prod_unfold)
  show ?thesis
    unfolding chunk_file_items by (intro conjI; subst proj) (simp_all add: new_chunk_def left right)
qed

lemma char_of_digit: "a < 10 \<Longrightarrow> b < 10 \<Longrightarrow> (char_of (48 + a) :: char) = char_of (48 + b) \<Longrightarrow> a = (b :: nat)"
proof -
  assume "a < 10" "b < 10" "(char_of (48 + a) :: char) = char_of (48 + b)"
  then have "(of_char (char_of (48 + a) :: char) :: nat) = of_char (char_of (48 + b) :: char)" by simp
  with \<open>a < 10\<close> \<open>b < 10\<close> show ?thesis by (simp add: of_char_of)
qed

declare decimal.simps [simp del]

lemma decimal_inj: "decimal m = decimal n \<Longrightarrow> m = n"
proof (induction m arbitrary: n rule: less_induct)
  case (less m)
  have nonempty: "decimal k \<noteq> []" for k by (subst decimal.simps) simp
  consider "m < 10" "n < 10" | "m < 10" "\<not> n < 10" | "\<not> m < 10" "n < 10" | "\<not> m < 10" "\<not> n < 10"
    by blast
  then show ?case
  proof cases
    case 1
    with less.prems show ?thesis
      by (simp add: decimal.simps [of m] decimal.simps [of n] char_of_digit)
  next
    case 2
    with less.prems nonempty show ?thesis
      by (auto simp: decimal.simps [of m] decimal.simps [of n] Cons_eq_append_conv)
  next
    case 3
    with less.prems nonempty show ?thesis
      by (auto simp: decimal.simps [of m] decimal.simps [of n] append_eq_Cons_conv)
  next
    case 4
    with less.prems have "decimal (m div 10) = decimal (n div 10)"
      "(char_of (48 + m mod 10) :: char) = char_of (48 + n mod 10)"
      by (simp_all add: decimal.simps [of m] decimal.simps [of n])
    moreover have "m div 10 < m" using 4 by simp
    ultimately have "m div 10 = n div 10" "m mod 10 = n mod 10"
      using less.IH char_of_digit [of "m mod 10" "n mod 10"] by simp_all
    then show ?thesis by (metis div_mult_mod_eq)
  qed
qed

text \<open>
  Chunk ids address content: if the hash does not collide on the payloads of the file,
  its chunks have distinct ids; and neither the ids nor the texts depend on where the file
  is or on the provenance attached to it.
\<close>

theorem chunk_ids_content_addressed:
  assumes "inj_on b ((\<lambda>i. b (cp_kind p @ [LF] @ snd (parse_frontmatter yaml content)) @ '':'' @ decimal i
      @ '':'' @ cp_strategy p) ` {0 ..< length (chunk_items yaml p content)})"
  shows "distinct (map ch_chunk_id (chunk_file b yaml p content))
    \<and> map (\<lambda>c. (ch_chunk_id c, ch_text c))
        (chunk_file b yaml (p\<lparr>cp_file_path := f, cp_given_provenance := v\<rparr>) content) =
      map (\<lambda>c. (ch_chunk_id c, ch_text c)) (chunk_file b yaml p content)"
proof -
  have texts: "section_texts (p\<lparr>cp_file_path := f, cp_given_provenance := v\<rparr>) = section_texts p"
    by (simp add: section_texts_def fun_eq_iff)
  have "outline_items (p\<lparr>cp_file_path := f, cp_given_provenance := v\<rparr>) before ss =
      outline_items p before ss" for before ss
    by (induction ss arbitrary: before) (simp_all add: texts Let_def)
  then have "map (\<lambda>c. (ch_chunk_id c, ch_text c))
        (chunk_file b yaml (p\<lparr>cp_file_path := f, cp_given_provenance := v\<rparr>) content) =
      map (\<lambda>c. (ch_chunk_id c, ch_text c)) (chunk_file b yaml p content)"
    unfolding chunk_file_items chunk_items_def by (simp add: new_chunk_def case_prod_unfold)
  moreover have "distinct (map ch_chunk_id (chunk_file b yaml p content))"
    using assms unfolding conjunct2 [OF conjunct2 [OF chunk_file_outline]]
    by (auto simp: distinct_map inj_on_def make_chunk_id_def dest: decimal_inj)
  ultimately show ?thesis by simp
qed

section \<open>A concrete document\<close>

definition demo_params :: chunk_params where
  "demo_params = \<lparr>cp_file_path = ''/notes/a.md'', cp_max_tokens = 512, cp_overlap_tokens = 50,
     cp_kind = ''document'', cp_strategy = ''heading_512_50'', cp_given_provenance = None\<rparr>"

definition demo_document :: string where
  "demo_document = ''# Title'' @ [LF] @ ''one'' @ [LF] @ ''### Deep'' @ [LF] @ ''two'' @ [LF] @ ''## Sub'' @ [LF] @ ''three''"

lemma demo_hierarchies:
  "map ch_heading_hierarchy (chunk_file (\<lambda>x. x) (\<lambda>_. YamlOther) demo_params demo_document) =
     [[''Title''], [''Title'', ''Deep''], [''Title'', ''Sub'']]"
  by code_simp

theorem chunk_ids_content_addressed_witness:
  "distinct (map ch_chunk_id (chunk_file (\<lambda>x. x) (\<lambda>_. YamlOther) demo_params demo_document))
   \<and> map ch_heading_hierarchy (chunk_file (\<lambda>x. x) (\<lambda>_. YamlOther) demo_params demo_document) =
       [[''Title''], [''Title'', ''Deep''], [''Title'', ''Sub'']]"
  using chunk_ids_content_addressed [of "\<lambda>x. x" demo_params "\<lambda>_. YamlOther" demo_document] demo_hierarchies
  by simp

end
