(* ===== verification/Filesystem_Laws.thy ===== *)
theory Filesystem_Laws
  imports Filesystem_Pipeline Search_Laws
begin

text \<open>
  What the pipeline's file operations do to the database: the purge in closed form over the
  tables of every strategy, its atomicity, deactivation as hiding without loss, and the
  round trip of deactivation and rebind.
\<close>

section \<open>Tables of a strategy\<close>

definition holder_rows :: "string \<Rightarrow> store \<Rightarrow> m2m_row list" where
  "holder_rows strategy s = (case dict_get (st_m2m s) (m2m_table strategy) of None \<Rightarrow> [] | Some t \<Rightarrow> t)"

definition content_rows :: "string \<Rightarrow> store \<Rightarrow> chunk_row list" where
  "content_rows strategy s = (case dict_get (st_chunks s) (chunk_table strategy) of None \<Rightarrow> [] | Some t \<Rightarrow> t)"

definition has_holders :: "string \<Rightarrow> store \<Rightarrow> bool" where
  "has_holders strategy s \<longleftrightarrow> dict_get (st_m2m s) (m2m_table strategy) \<noteq> None"

definition has_content :: "string \<Rightarrow> store \<Rightarrow> bool" where
  "has_content strategy s \<longleftrightarrow> dict_get (st_chunks s) (chunk_table strategy) \<noteq> None"

lemma table_names_inj [simp]:
  "m2m_table a = m2m_table b \<longleftrightarrow> a = b" "chunk_table a = chunk_table b \<longleftrightarrow> a = b"
  "prov_table a = prov_table b \<longleftrightarrow> a = b"
  by (simp_all add: m2m_table_def chunk_table_def prov_table_def)

lemma m2m_name: "take 17 n = ''chunk_file_paths_'' \<Longrightarrow> m2m_table (removeprefix ''chunk_file_paths_'' n) = n"
  by (metis append_take_drop_id m2m_table_def removeprefix_append)

lemma present_strategies_iff: "st \<in> set (present_strategies s) \<longleftrightarrow> has_holders st s"
proof -
  have "st \<in> set (present_strategies s) \<longleftrightarrow> m2m_table st \<in> set (dict_keys (st_m2m s))"
  proof
    assume "st \<in> set (present_strategies s)"
    then obtain n where "n \<in> set (dict_keys (st_m2m s))" "take 17 n = ''chunk_file_paths_''"
      "st = removeprefix ''chunk_file_paths_'' n"
      by (auto simp: present_strategies_def)
    with m2m_name [of n] show "m2m_table st \<in> set (dict_keys (st_m2m s))" by simp
  next
    assume "m2m_table st \<in> set (dict_keys (st_m2m s))"
    moreover have "take 17 (m2m_table st) = ''chunk_file_paths_''" by (simp add: m2m_table_def)
    ultimately have "removeprefix ''chunk_file_paths_'' (m2m_table st) \<in> set (present_strategies s)"
      unfolding present_strategies_def set_map [of "removeprefix _"] set_filter by blast
    then show "st \<in> set (present_strategies s)"
      unfolding m2m_table_def by (simp only: removeprefix_append)
  qed
  then show ?thesis by (simp add: has_holders_def dict_get_None_iff)
qed

lemma distinct_present_strategies: "store_ok s \<Longrightarrow> distinct (present_strategies s)"
proof -
  assume "store_ok s"
  then have "dict_ok (st_m2m s)" by (simp add: store_ok_def)
  then have "distinct (filter (\<lambda>n. take 17 n = ''chunk_file_paths_'') (dict_keys (st_m2m s)))"
    by (rule distinct_filter)
  moreover have "inj_on (removeprefix ''chunk_file_paths_'') {n. take 17 n = ''chunk_file_paths_''}"
    by (rule inj_on_inverseI [of _ m2m_table]) (simp add: m2m_name)
  ultimately show ?thesis
    unfolding present_strategies_def by (subst distinct_map) (auto intro: inj_on_subset)
qed

section \<open>The cleanup of one strategy\<close>

lemma holder_rows_set [simp]:
  "holder_rows st (s'\<lparr>st_m2m := dict_set (m2m_table st') t (st_m2m s)\<rparr>) = (if st = st' then t else holder_rows st s)"
  by (simp add: holder_rows_def)

lemma content_rows_set [simp]:
  "content_rows st (s'\<lparr>st_chunks := dict_set (chunk_table st') t (st_chunks s)\<rparr>) =
     (if st = st' then t else content_rows st s)"
  by (simp add: content_rows_def)

lemma delete_provenance_rows:
  "prov_rows st (delete_chunk_provenance st' ids s) =
     (if st = st' then delete_where (\<lambda>r. pr_chunk_id r \<in> set ids) (prov_rows st s) else prov_rows st s)"
  "prov_rows st (delete_chunk_provenance_for_document st' ns doc s) =
     (if st = st' then delete_where (\<lambda>r. pr_namespace r = ns \<and> pr_document_ref r = doc) (prov_rows st s)
      else prov_rows st s)"
  by (auto simp: prov_rows_def delete_chunk_provenance_def delete_chunk_provenance_for_document_def
      delete_where_def split: option.splits)

text \<open>The part of the database a purge of a file never writes.\<close>

definition same_rest :: "store \<Rightarrow> store \<Rightarrow> bool" where
  "same_rest s s' \<longleftrightarrow>
     s'\<lparr>st_m2m := [], st_chunks := [], st_prov := []\<rparr> = s\<lparr>st_m2m := [], st_chunks := [], st_prov := []\<rparr>
     \<and> dict_keys (st_m2m s') = dict_keys (st_m2m s) \<and> dict_keys (st_chunks s') = dict_keys (st_chunks s)
     \<and> dict_keys (st_prov s') = dict_keys (st_prov s)"

lemma same_rest_refl [simp]: "same_rest s s"
  by (simp add: same_rest_def)

lemma same_rest_trans: "same_rest s s' \<Longrightarrow> same_rest s' s'' \<Longrightarrow> same_rest s s''"
  by (simp add: same_rest_def)

lemma keys_dict_set: "dict_get d k = Some u \<Longrightarrow> dict_keys (dict_set k v d) = dict_keys d"
  by (induction d) (auto split: if_splits)

lemma same_rest_tables:
  assumes "same_rest s s'"
  shows "has_holders st s' = has_holders st s" "has_content st s' = has_content st s"
    "present_strategies s' = present_strategies s"
proof -
  have "dict_get (st_m2m s') k = None \<longleftrightarrow> dict_get (st_m2m s) k = None"
    "dict_get (st_chunks s') k = None \<longleftrightarrow> dict_get (st_chunks s) k = None" for k
    using assms unfolding same_rest_def dict_get_None_iff by metis+
  then show "has_holders st s' = has_holders st s" "has_content st s' = has_content st s"
    by (simp_all add: has_holders_def has_content_def)
  show "present_strategies s' = present_strategies s"
    using assms by (simp add: present_strategies_def same_rest_def)
qed

lemma same_rest_delete_provenance:
  "same_rest s (delete_chunk_provenance st ids s)"
  "same_rest s (delete_chunk_provenance_for_document st ns doc s)"
  by (auto simp: same_rest_def delete_chunk_provenance_def delete_chunk_provenance_for_document_def
      keys_dict_set split: option.splits)

lemma delete_provenance_fields [simp]:
  "st_m2m (delete_chunk_provenance st ids s) = st_m2m s"
  "st_chunks (delete_chunk_provenance st ids s) = st_chunks s"
  "st_m2m (delete_chunk_provenance_for_document st ns doc s) = st_m2m s"
  "st_chunks (delete_chunk_provenance_for_document st ns doc s) = st_chunks s"
  by (auto simp: delete_chunk_provenance_def delete_chunk_provenance_for_document_def split: option.splits)

lemma rows_of_fields:
  "st_m2m s' = st_m2m s \<Longrightarrow> holder_rows st s' = holder_rows st s"
  "st_chunks s' = st_chunks s \<Longrightarrow> content_rows st s' = content_rows st s"
  "st_prov s' = st_prov s \<Longrightarrow> prov_rows st s' = prov_rows st s"
  by (simp_all add: holder_rows_def content_rows_def prov_rows_def)

lemma rows_of_updates [simp]:
  "holder_rows st (delete_chunk_provenance st' ids s) = holder_rows st s"
  "content_rows st (delete_chunk_provenance st' ids s) = content_rows st s"
  "holder_rows st (delete_chunk_provenance_for_document st' ns doc s) = holder_rows st s"
  "content_rows st (delete_chunk_provenance_for_document st' ns doc s) = content_rows st s"
  "holder_rows st (s\<lparr>st_chunks := cs\<rparr>) = holder_rows st s"
  "prov_rows st (s\<lparr>st_chunks := cs\<rparr>) = prov_rows st s"
  "content_rows st (s\<lparr>st_m2m := ms\<rparr>) = content_rows st s"
  "prov_rows st (s\<lparr>st_m2m := ms\<rparr>) = prov_rows st s"
  by (simp_all add: holder_rows_def content_rows_def prov_rows_def)

definition purged :: "string \<Rightarrow> string \<Rightarrow> string \<Rightarrow> store \<Rightarrow> store \<Rightarrow> bool" where
  "purged doc f st s s' \<longleftrightarrow>
     holder_rows st s' = delete_where (\<lambda>m. mm_file_path m = f) (holder_rows st s)
     \<and> content_rows st s' =
         delete_where (\<lambda>c. cr_chunk_id c \<in> held_only_by f (holder_rows st s)) (content_rows st s)
     \<and> prov_rows st s' =
         delete_where (\<lambda>r. pr_namespace r = ''filesystem'' \<and> pr_document_ref r = doc
           \<or> pr_chunk_id r \<in> held_only_by f (holder_rows st s)) (prov_rows st s)"

definition untouched :: "string \<Rightarrow> store \<Rightarrow> store \<Rightarrow> bool" where
  "untouched st s s' \<longleftrightarrow> holder_rows st s' = holder_rows st s \<and> content_rows st s' = content_rows st s
     \<and> prov_rows st s' = prov_rows st s"

lemma delete_where_twice: "delete_where P (delete_where Q t) = delete_where (\<lambda>x. Q x \<or> P x) t"
  by (simp add: delete_where_def)

lemma delete_where_empty [simp]: "delete_where (\<lambda>x. False) t = t"
  by (simp add: delete_where_def)

lemma cleanup_strategy_result:
  assumes "has_holders st s" and "has_content st s \<or> held_only_by f (holder_rows st s) = {}"
  shows "\<exists>orphans s'. cleanup_strategy doc f st s = Inr (orphans, s') \<and> same_rest s s'
    \<and> purged doc f st s s' \<and> (\<forall>st'. st' \<noteq> st \<longrightarrow> untouched st' s s')"
proof -
  let ?s1 = "delete_chunk_provenance_for_document st ''filesystem'' doc s"
  let ?only = "held_only_by f (holder_rows st s)"
  have ms: "table_of (st_m2m ?s1) (m2m_table st) = Inr (holder_rows st s)"
    using assms(1) by (auto simp: has_holders_def table_of_def holder_rows_def)
  obtain ids where ids: "delete_m2m_for_file st f ?s1 = Inr (ids,
           if \<exists>m \<in> set (holder_rows st s). mm_file_path m = f
           then ?s1\<lparr>st_m2m := dict_set (m2m_table st)
                  (delete_where (\<lambda>m. mm_file_path m = f) (holder_rows st s)) (st_m2m ?s1)\<rparr>
           else ?s1)"
    and only: "set ids = ?only"
    using delete_m2m_for_file_result [OF ms, of f] by blast
  define s2 where "s2 = (if \<exists>m \<in> set (holder_rows st s). mm_file_path m = f
           then ?s1\<lparr>st_m2m := dict_set (m2m_table st)
                  (delete_where (\<lambda>m. mm_file_path m = f) (holder_rows st s)) (st_m2m ?s1)\<rparr>
           else ?s1)"
  have "st_chunks s2 = st_chunks s" and "st_prov s2 = st_prov ?s1" by (simp_all add: s2_def)
  have "has_holders st s" by fact
  then have rest2: "same_rest s s2"
    using same_rest_delete_provenance(2) [of s st "''filesystem''" doc]
    by (auto simp: s2_def same_rest_def has_holders_def keys_dict_set)
  have h2: "holder_rows st' s2 = (if st' = st then delete_where (\<lambda>m. mm_file_path m = f) (holder_rows st s)
      else holder_rows st' s)" for st'
    using delete_where_none [of "holder_rows st s" "\<lambda>m. mm_file_path m = f"]
    by (auto simp: s2_def)
  have c2: "content_rows st' s2 = content_rows st' s" for st'
    using \<open>st_chunks s2 = st_chunks s\<close> by (rule rows_of_fields(2))
  have p2: "prov_rows st' s2 = prov_rows st' ?s1" for st'
    using \<open>st_prov s2 = st_prov ?s1\<close> by (rule rows_of_fields(3))
  show ?thesis
  proof (cases "ids = []")
    case True
    then have none: "?only = {}" using only by simp
    have "cleanup_strategy doc f st s = Inr ([], s2)"
      using True ids by (simp add: cleanup_strategy_def s2_def)
    with rest2 show ?thesis
      by (auto simp: purged_def untouched_def none h2 c2 p2 delete_provenance_rows)
  next
    case False
    then have "has_content st s" using assms(2) only by (metis set_empty)
    let ?s3 = "delete_chunk_provenance st ids s2"
    let ?t = "delete_where (\<lambda>r. cr_chunk_id r \<in> set ids) (content_rows st s)"
    let ?s4 = "?s3\<lparr>st_chunks := dict_set (chunk_table st) ?t (st_chunks ?s3)\<rparr>"
    have "table_of (st_chunks ?s3) (chunk_table st) = Inr (content_rows st s)"
      using \<open>has_content st s\<close> \<open>st_chunks s2 = st_chunks s\<close>
      by (auto simp: has_content_def table_of_def content_rows_def)
    then have run: "cleanup_strategy doc f st s = Inr (ids, ?s4)"
      using False ids by (simp add: cleanup_strategy_def s2_def delete_orphan_chunks_def)
    have rest4: "same_rest s ?s4"
      using rest2 same_rest_delete_provenance(1) [of s2 st ids] \<open>has_content st s\<close> \<open>st_chunks s2 = st_chunks s\<close>
      by (auto simp: same_rest_def has_content_def keys_dict_set)
    have "holder_rows st' ?s4 = holder_rows st' s2" and "prov_rows st' ?s4 = prov_rows st' ?s3"
      and "content_rows st' ?s4 = (if st' = st then ?t else content_rows st' s)" for st'
      using c2 by simp_all
    with run rest4 show ?thesis
      by (auto simp: purged_def untouched_def h2 c2 p2 delete_provenance_rows delete_where_twice only)
  qed
qed

section \<open>The purge of a file\<close>

definition can_clean :: "string \<Rightarrow> store \<Rightarrow> string \<Rightarrow> bool" where
  "can_clean f s st \<longleftrightarrow> has_content st s \<or> held_only_by f (holder_rows st s) = {}"

lemma purged_untouched:
  "untouched st s s' \<Longrightarrow> purged doc f st s' s'' \<Longrightarrow> purged doc f st s s''"
  "purged doc f st s s' \<Longrightarrow> untouched st s' s'' \<Longrightarrow> purged doc f st s s''"
  "untouched st s s' \<Longrightarrow> untouched st s' s'' \<Longrightarrow> untouched st s s''"
  by (simp_all add: purged_def untouched_def)

lemma cleanup_strategies_result:
  assumes "distinct sts" and "list_all (\<lambda>st. has_holders st s \<and> can_clean f s st) sts"
  shows "\<exists>orphans s'. cleanup_strategies doc f sts acc s = Inr (orphans, s') \<and> same_rest s s'
    \<and> (\<forall>st. (st \<in> set sts \<longrightarrow> purged doc f st s s') \<and> (st \<notin> set sts \<longrightarrow> untouched st s s'))"
  using assms
proof (induction sts arbitrary: acc s)
  case Nil
  then show ?case by (simp add: untouched_def)
next
  case (Cons st sts)
  obtain orphans s1 where one: "cleanup_strategy doc f st s = Inr (orphans, s1)" "same_rest s s1"
      "purged doc f st s s1" "\<forall>st'. st' \<noteq> st \<longrightarrow> untouched st' s s1"
    using cleanup_strategy_result [of st s f doc] Cons.prems(2) by (auto simp: can_clean_def)
  have "st \<notin> set sts" using Cons.prems(1) by simp
  moreover have "list_all (\<lambda>st. has_holders st s1 \<and> can_clean f s1 st) sts"
    unfolding list_all_iff
  proof
    fix st' assume st': "st' \<in> set sts"
    with \<open>st \<notin> set sts\<close> one(4) have "untouched st' s s1" by metis
    with st' Cons.prems(2) show "has_holders st' s1 \<and> can_clean f s1 st'"
      by (auto simp: list_all_iff can_clean_def untouched_def same_rest_tables [OF one(2)])
  qed
  ultimately obtain orphans' s2 where two: "cleanup_strategies doc f sts
        (if orphans = [] then acc else dict_set st orphans acc) s1 = Inr (orphans', s2)"
      "same_rest s1 s2" "\<forall>st. (st \<in> set sts \<longrightarrow> purged doc f st s1 s2) \<and> (st \<notin> set sts \<longrightarrow> untouched st s1 s2)"
    using Cons.IH [of s1] Cons.prems(1) by fastforce
  have "(st' \<in> set (st # sts) \<longrightarrow> purged doc f st' s s2) \<and> (st' \<notin> set (st # sts) \<longrightarrow> untouched st' s s2)"
    for st'
    using one(3,4) two(3) \<open>st \<notin> set sts\<close> purged_untouched(1) [of st' s s1 doc f s2]
      purged_untouched(2) [of doc f st' s s1 s2] purged_untouched(3) [of st' s s1 s2]
    by (cases "st' = st") auto
  with one(1) two same_rest_trans [OF one(2)] show ?case by auto
qed

lemma has_tables_delete_document [simp]:
  "present_strategies (delete_source_document ns doc s) = present_strategies s"
  "has_holders st (delete_source_document ns doc s) = has_holders st s"
  "can_clean f (delete_source_document ns doc s) st = can_clean f s st"
  "purged doc' f st (delete_source_document ns doc s) s' = purged doc' f st s s'"
  "untouched st (delete_source_document ns doc s) s' = untouched st s s'"
  by (simp_all add: delete_source_document_def present_strategies_def has_holders_def can_clean_def
      has_content_def purged_def untouched_def holder_rows_def content_rows_def prov_rows_def)

lemma missing_rows: "\<not> has_holders st s \<Longrightarrow> holder_rows st s = []"
  by (simp add: has_holders_def holder_rows_def)

lemma holder_aware_cleanup_result:
  assumes "store_ok s" and "list_all (can_clean f s) (present_strategies s)"
  shows "\<exists>orphans s'. holder_aware_chunk_cleanup env f s = Inr (orphans, s')
    \<and> same_rest (delete_source_document ''filesystem'' (ev_resolve env f) s) s'
    \<and> (\<forall>st. (has_holders st s \<longrightarrow> purged (ev_resolve env f) f st s s')
          \<and> (\<not> has_holders st s \<longrightarrow> untouched st s s'))"
proof -
  let ?s1 = "delete_source_document ''filesystem'' (ev_resolve env f) s"
  have "list_all (\<lambda>st. has_holders st ?s1 \<and> can_clean f ?s1 st) (present_strategies ?s1)"
    using assms(2) by (simp add: list_all_iff present_strategies_iff)
  then show ?thesis
    using cleanup_strategies_result [of "present_strategies ?s1" ?s1 f "ev_resolve env f" "[]"]
      distinct_present_strategies [OF assms(1)]
    by (simp add: holder_aware_chunk_cleanup_def Let_def delete_source_document_for_file_def
        meta_entity_id_def present_strategies_iff)
qed

lemma purge_file_result:
  assumes "store_ok (pp_store p)" and "list_all (can_clean f (pp_store p)) (present_strategies (pp_store p))"
  shows "\<exists>s'. purge_file env f p = (Inr (), p\<lparr>pp_store := s',
        pp_chunk_fps := remove_fingerprint f (pp_chunk_fps p),
        pp_meta_fps := remove_fingerprint f (pp_meta_fps p)\<rparr>)
    \<and> same_rest (delete_source_document ''filesystem'' (ev_resolve env f) (pp_store p)) s'
    \<and> (\<forall>st. (has_holders st (pp_store p) \<longrightarrow> purged (ev_resolve env f) f st (pp_store p) s')
          \<and> (\<not> has_holders st (pp_store p) \<longrightarrow> untouched st (pp_store p) s'))"
proof -
  obtain orphans s' where s': "holder_aware_chunk_cleanup env f (pp_store p) = Inr (orphans, s')"
    and rest: "same_rest (delete_source_document ''filesystem'' (ev_resolve env f) (pp_store p)) s'"
    and st: "\<forall>st. (has_holders st (pp_store p) \<longrightarrow> purged (ev_resolve env f) f st (pp_store p) s')
          \<and> (\<not> has_holders st (pp_store p) \<longrightarrow> untouched st (pp_store p) s')"
    using holder_aware_cleanup_result [OF assms, of env] by auto
  have "purge_file env f p = (Inr (), p\<lparr>pp_store := s',
        pp_chunk_fps := remove_fingerprint f (pp_chunk_fps p),
        pp_meta_fps := remove_fingerprint f (pp_meta_fps p)\<rparr>)"
    by (simp add: purge_file_def transaction_def s')
  with rest st show ?thesis by (intro exI [of _ s']) blast
qed

lemma same_rest_fields:
  assumes "same_rest s s'"
  shows "st_documents s' = st_documents s" "st_bindings s' = st_bindings s"
    "st_checkpoints s' = st_checkpoints s" "st_unit_fps s' = st_unit_fps s" "st_fts s' = st_fts s"
  using assms by (auto simp: same_rest_def dest: arg_cong [where f = st_documents]
      arg_cong [where f = st_bindings] arg_cong [where f = st_checkpoints]
      arg_cong [where f = st_unit_fps] arg_cong [where f = st_fts])

lemma held_by_other_kept:
  assumes "m \<in> set ms" and "mm_file_path m \<noteq> f"
  shows "mm_chunk_id m \<notin> held_only_by f ms"
  using assms by (auto simp: held_only_by_def)

text \<open>
  C21: A purge removes a file from every strategy and nothing else.  Its document and its two
  fingerprints go; every strategy loses the file's holder rows, the chunks no other file
  holds, and the provenance of the document and of those chunks.  Chunks another file holds
  stay, other files keep their chunk references, and bindings (also the purged file's),
  checkpoints and unit fingerprints are not written.  A strategy that has a holder table naming
  chunks only this file holds, and no chunk table, is excluded (\<open>can_clean\<close>): there the purge raises.
\<close>

theorem purge_file_spec:
  assumes "store_ok (pp_store p)" and "list_all (can_clean f (pp_store p)) (present_strategies (pp_store p))"
  shows "\<exists>s'. purge_file env f p = (Inr (), p\<lparr>pp_store := s',
        pp_chunk_fps := filter (\<lambda>r. fp_file_path r \<noteq> f) (pp_chunk_fps p),
        pp_meta_fps := filter (\<lambda>r. fp_file_path r \<noteq> f) (pp_meta_fps p)\<rparr>)
    \<and> st_documents s' = filter (\<lambda>d. doc_key d \<noteq> (''filesystem'', ev_resolve env f)) (st_documents (pp_store p))
    \<and> (\<forall>st. holder_rows st s' = filter (\<lambda>m. mm_file_path m \<noteq> f) (holder_rows st (pp_store p))
        \<and> content_rows st s' = filter (\<lambda>c. cr_chunk_id c \<notin> held_only_by f (holder_rows st (pp_store p)))
            (content_rows st (pp_store p)))
    \<and> (\<forall>st. has_holders st (pp_store p) \<longrightarrow> prov_rows st s' = filter (\<lambda>r. \<not> (pr_namespace r = ''filesystem''
          \<and> pr_document_ref r = ev_resolve env f) \<and> pr_chunk_id r \<notin> held_only_by f (holder_rows st (pp_store p)))
          (prov_rows st (pp_store p)))
    \<and> (\<forall>st m c. m \<in> set (holder_rows st (pp_store p)) \<and> mm_file_path m \<noteq> f
        \<and> c \<in> set (content_rows st (pp_store p)) \<and> cr_chunk_id c = mm_chunk_id m \<longrightarrow> c \<in> set (content_rows st s'))
    \<and> st_bindings s' = st_bindings (pp_store p) \<and> st_checkpoints s' = st_checkpoints (pp_store p)
    \<and> st_unit_fps s' = st_unit_fps (pp_store p)"
proof -
  let ?s = "pp_store p"
  obtain s' where run: "purge_file env f p = (Inr (), p\<lparr>pp_store := s',
        pp_chunk_fps := remove_fingerprint f (pp_chunk_fps p),
        pp_meta_fps := remove_fingerprint f (pp_meta_fps p)\<rparr>)"
    and rest: "same_rest (delete_source_document ''filesystem'' (ev_resolve env f) ?s) s'"
    and st: "\<And>st. has_holders st ?s \<Longrightarrow> purged (ev_resolve env f) f st ?s s'"
      "\<And>st. \<not> has_holders st ?s \<Longrightarrow> untouched st ?s s'"
    using purge_file_result [OF assms, of env] by auto
  have "held_only_by f [] = {}" by (simp add: held_only_by_def)
  then have rows: "holder_rows st s' = filter (\<lambda>m. mm_file_path m \<noteq> f) (holder_rows st ?s)"
    "content_rows st s' = filter (\<lambda>c. cr_chunk_id c \<notin> held_only_by f (holder_rows st ?s)) (content_rows st ?s)"
    for st
    using st(1) [of st] st(2) [of st]
    by (cases "has_holders st ?s"; simp add: purged_def untouched_def delete_where_def missing_rows)+
  have prov: "prov_rows st s' = filter (\<lambda>r. \<not> (pr_namespace r = ''filesystem''
          \<and> pr_document_ref r = ev_resolve env f) \<and> pr_chunk_id r \<notin> held_only_by f (holder_rows st ?s))
          (prov_rows st ?s)" if "has_holders st ?s" for st
    using st(1) [OF that] by (simp add: purged_def delete_where_def)
  show ?thesis
    by (rule exI [of _ s'])
      (use run rows prov same_rest_fields [OF rest] held_by_other_kept in
        \<open>auto simp: remove_fingerprint_def delete_where_def delete_source_document_def\<close>)
qed

lemma cleanup_strategy_error:
  assumes "has_holders st s" and "\<not> can_clean f s st"
  shows "cleanup_strategy doc f st s = Inl (OperationalError (''no such table: '' @ chunk_table st))"
proof -
  let ?s1 = "delete_chunk_provenance_for_document st ''filesystem'' doc s"
  have ms: "table_of (st_m2m ?s1) (m2m_table st) = Inr (holder_rows st s)"
    using assms(1) by (auto simp: has_holders_def table_of_def holder_rows_def)
  obtain ids s2 where ids: "delete_m2m_for_file st f ?s1 = Inr (ids, s2)" "st_chunks s2 = st_chunks ?s1"
    and only: "set ids = held_only_by f (holder_rows st s)"
    using delete_m2m_for_file_result [OF ms, of f] by fastforce
  have "ids \<noteq> []" using only assms(2) by (auto simp: can_clean_def)
  moreover have "table_of (st_chunks s2) (chunk_table st) = Inl (OperationalError (''no such table: '' @ chunk_table st))"
    using assms(2) ids(2) by (simp add: can_clean_def has_content_def table_of_def)
  ultimately show ?thesis
    using ids by (simp add: cleanup_strategy_def delete_orphan_chunks_def)
qed

lemma cleanup_strategies_error:
  assumes "distinct sts" and "list_all (\<lambda>st. has_holders st s) sts" and "\<not> list_all (can_clean f s) sts"
  shows "\<exists>st \<in> set sts. \<not> has_content st s \<and>
     cleanup_strategies doc f sts acc s = Inl (OperationalError (''no such table: '' @ chunk_table st))"
  using assms
proof (induction sts arbitrary: acc s)
  case Nil
  then show ?case by simp
next
  case (Cons st sts)
  show ?case
  proof (cases "can_clean f s st")
    case False
    with Cons.prems cleanup_strategy_error [of st s f doc] show ?thesis by (auto simp: can_clean_def)
  next
    case True
    obtain orphans s1 where one: "cleanup_strategy doc f st s = Inr (orphans, s1)" "same_rest s s1"
        "\<forall>st'. st' \<noteq> st \<longrightarrow> untouched st' s s1"
      using cleanup_strategy_result [of st s f doc] Cons.prems(2) True by (auto simp: can_clean_def)
    have same: "has_holders st' s1 = has_holders st' s" "has_content st' s1 = has_content st' s" for st'
      by (simp_all add: same_rest_tables [OF one(2)])
    have "can_clean f s1 st' = can_clean f s st'" if "st' \<in> set sts" for st'
      using one(3) that Cons.prems(1) by (auto simp: can_clean_def same untouched_def)
    then have "\<not> list_all (can_clean f s1) sts" using Cons.prems(3) True by (simp add: list_all_iff)
    then show ?thesis
      using Cons.IH [of s1 "if orphans = [] then acc else dict_set st orphans acc"] Cons.prems one(1)
      by (simp add: same)
  qed
qed

text \<open>
  A purge happens completely or not at all.  It succeeds exactly when every strategy
  that would lose a chunk still has its content table; otherwise it raises
  \<open>OperationalError\<close> and leaves database and fingerprints as they were, so a file with
  chunks of a strategy whose content table was dropped can never be purged.
\<close>

theorem purge_file_atomic:
  assumes "store_ok (pp_store p)"
  shows "if list_all (can_clean f (pp_store p)) (present_strategies (pp_store p))
    then fst (purge_file env f p) = Inr ()
    else \<exists>st. has_holders st (pp_store p) \<and> \<not> has_content st (pp_store p) \<and>
      purge_file env f p = (Inl (OperationalError (''no such table: '' @ chunk_table st)), p)"
proof (cases "list_all (can_clean f (pp_store p)) (present_strategies (pp_store p))")
  case True
  then show ?thesis using purge_file_result [OF assms True, of env] by auto
next
  case False
  let ?s1 = "delete_source_document ''filesystem'' (ev_resolve env f) (pp_store p)"
  have "list_all (\<lambda>st. has_holders st ?s1) (present_strategies ?s1)"
    and "\<not> list_all (can_clean f ?s1) (present_strategies ?s1)"
    using False by (auto simp: list_all_iff present_strategies_iff)
  with distinct_present_strategies [OF assms] obtain st where
    st: "st \<in> set (present_strategies ?s1)" "\<not> has_content st ?s1"
      "cleanup_strategies (ev_resolve env f) f (present_strategies ?s1) [] ?s1 =
         Inl (OperationalError (''no such table: '' @ chunk_table st))"
    using cleanup_strategies_error [of "present_strategies ?s1" ?s1 f "ev_resolve env f" "[]"] by auto
  have "purge_file env f p = (Inl (OperationalError (''no such table: '' @ chunk_table st)), p)"
    using st(3) by (simp add: purge_file_def transaction_def holder_aware_chunk_cleanup_def Let_def
        delete_source_document_for_file_def meta_entity_id_def)
  moreover have "has_holders st (pp_store p)" using st(1) by (simp add: present_strategies_iff)
  moreover have "\<not> has_content st (pp_store p)"
    using st(2) by (simp add: has_content_def delete_source_document_def)
  ultimately show ?thesis using False by auto
qed

section \<open>Deactivation\<close>

definition sources_valid :: "environment \<Rightarrow> store \<Rightarrow> bool" where
  "sources_valid env s \<longleftrightarrow>
     list_all (\<lambda>d. validate_source_document (ev_resolve env) d = Inr d) (st_documents s)
     \<and> list_all (\<lambda>b. validate_resource_binding b = Inr b) (st_bindings s)"

lemma get_document_valid:
  "sources_valid env s \<Longrightarrow>
     get_source_document (ev_resolve env) s ns doc = Inr (fetch_key doc_key (st_documents s) (ns, doc))"
  by (auto simp: get_source_document_def sources_valid_def list_all_iff dest: fetch_key_in split: option.splits)

lemma get_binding_valid:
  "sources_valid env s \<Longrightarrow> get_resource_binding s ns ref = Inr (fetch_key binding_key (st_bindings s) (ns, ref))"
  by (auto simp: get_resource_binding_def sources_valid_def list_all_iff dest: fetch_key_in split: option.splits)

lemma set_upsert_excluded:
  assumes "pk_ok key t"
  shows "set (upsert key (\<lambda>_ e. e) r t) = insert r {x \<in> set t. key x \<noteq> key r}"
  by (auto simp: upsert_def update_where_def image_iff)

lemma valid_filesystem_key:
  assumes "sources_valid env s" and "b \<in> set (st_bindings s)" and "rb_namespace b = ''filesystem''"
  shows "binding_key b = (''filesystem'', rb_document_ref b)"
  using assms validate_resource_binding_ok [of b b] by (auto simp: sources_valid_def list_all_iff binding_key_def)

definition deactivated :: "environment \<Rightarrow> timestamp \<Rightarrow> string \<Rightarrow> string \<Rightarrow> store \<Rightarrow> resource_binding" where
  "deactivated env now reason f s = deactivated_binding now reason (ev_resolve env f)
     (fetch_key doc_key (st_documents s) (''filesystem'', ev_resolve env f))
     (fetch_key binding_key (st_bindings s) (''filesystem'', ev_resolve env f))"

lemma deactivated_fields:
  "binding_key (deactivated env now reason f s) = (''filesystem'', ev_resolve env f)"
  "rb_namespace (deactivated env now reason f s) = ''filesystem''"
  "rb_document_ref (deactivated env now reason f s) = ev_resolve env f"
  "\<not> rb_active (deactivated env now reason f s)"
  "rb_unbound_at (deactivated env now reason f s) = Some now"
  "dict_get (rb_metadata_json (deactivated env now reason f s)) ''deactivation_reason'' = Some (JStr reason)"
  by (simp_all add: deactivated_def deactivated_binding_def binding_key_def Let_def split: prod.splits)

lemma deactivated_valid:
  assumes "sources_valid env s"
  shows "validate_resource_binding (deactivated env now reason f s) = Inr (deactivated env now reason f s)"
proof -
  let ?doc = "ev_resolve env f"
  have "sd_ref d = make_ref ''filesystem'' ?doc"
    if "fetch_key doc_key (st_documents s) (''filesystem'', ?doc) = Some d" for d
    using that assms validate_source_document_ok [of "ev_resolve env" d d] fetch_key_key [OF that]
    by (auto simp: sources_valid_def list_all_iff doc_key_def dest!: fetch_key_in)
  moreover have "rb_ref b = make_ref ''filesystem'' ?doc"
    if "fetch_key binding_key (st_bindings s) (''filesystem'', ?doc) = Some b" for b
    using that assms validate_resource_binding_ok [of b b] fetch_key_key [OF that]
    by (auto simp: sources_valid_def list_all_iff binding_key_def dest!: fetch_key_in)
  ultimately show ?thesis
    by (auto simp: deactivated_def deactivated_binding_def validate_resource_binding_def split: option.splits)
qed

lemma deactivate_result:
  assumes "sources_valid env s"
  shows "deactivate_filesystem_binding env now reason f s =
    Inr (upsert_resource_binding (deactivated env now reason f s) s)"
  using deactivated_valid [OF assms, of now reason f]
  by (simp add: deactivate_filesystem_binding_def Let_def meta_entity_id_def get_document_valid [OF assms]
      get_binding_valid [OF assms] make_binding_def deactivated_def)

lemma sources_valid_upsert:
  "store_ok s \<Longrightarrow> sources_valid env s \<Longrightarrow> validate_resource_binding b = Inr b \<Longrightarrow>
     sources_valid env (upsert_resource_binding b s)"
  by (auto simp: sources_valid_def upsert_resource_binding_def list_all_iff store_ok_def set_upsert_excluded)

lemma active_row_upsert:
  assumes "store_ok s" and "sources_valid env s" and "rb_namespace b = ''filesystem''"
    and "validate_resource_binding b = Inr b"
  shows "active_row (upsert_resource_binding b s) r \<longleftrightarrow>
     (if pr_namespace r = ''filesystem'' \<and> pr_document_ref r = rb_document_ref b then rb_active b
      else active_row s r)"
proof -
  have key: "binding_key b = (''filesystem'', rb_document_ref b)"
    using assms(3,4) validate_resource_binding_ok [of b b] by (simp add: binding_key_def)
  have "set (st_bindings (upsert_resource_binding b s)) = insert b {x \<in> set (st_bindings s). binding_key x \<noteq> binding_key b}"
    using assms(1) by (simp add: upsert_resource_binding_def store_ok_def set_upsert_excluded)
  then have row: "active_row (upsert_resource_binding b s) r \<longleftrightarrow>
      (rb_namespace b = pr_namespace r \<and> rb_document_ref b = pr_document_ref r \<and> rb_active b)
      \<or> (\<exists>x \<in> set (st_bindings s). binding_key x \<noteq> binding_key b \<and> rb_namespace x = pr_namespace r
           \<and> rb_document_ref x = pr_document_ref r \<and> rb_active x)"
    by (auto simp: active_row_def)
  show ?thesis
  proof (cases "pr_namespace r = ''filesystem'' \<and> pr_document_ref r = rb_document_ref b")
    case True
    then have "\<not> (binding_key x \<noteq> binding_key b \<and> rb_namespace x = pr_namespace r
        \<and> rb_document_ref x = pr_document_ref r)" if "x \<in> set (st_bindings s)" for x
      using valid_filesystem_key [OF assms(2) that] key by auto
    then show ?thesis unfolding row using True assms(3) by auto
  next
    case False
    then have "binding_key x \<noteq> binding_key b"
      if "x \<in> set (st_bindings s)" "rb_namespace x = pr_namespace r" "rb_document_ref x = pr_document_ref r" for x
    proof (cases "pr_namespace r = ''filesystem''")
      case True
      with False show ?thesis using valid_filesystem_key [OF assms(2) that(1)] that key by simp
    next
      case ns: False
      with that key show ?thesis by (simp add: binding_key_def)
    qed
    then have "active_row (upsert_resource_binding b s) r \<longleftrightarrow> active_row s r"
      unfolding row active_row_def [of s] using False assms(3) by auto
    then show ?thesis unfolding if_not_P [OF False] .
  qed
qed

lemma prov_rows_upsert_binding [simp]: "prov_rows st (upsert_resource_binding b s) = prov_rows st s"
  by (simp add: upsert_resource_binding_def prov_rows_def)

text \<open>
  Deactivating a missing file hides it and loses nothing: it succeeds on a valid
  database, its binding becomes inactive with reason and time, all other bindings and all
  other tables are untouched, and a chunk remains visible exactly if an active document
  other than the file's still provides it.
\<close>

theorem deactivate_hides_and_retains:
  assumes "store_ok s" and "sources_valid env s"
  shows "\<exists>s'. deactivate_filesystem_binding env now reason f s = Inr s'
    \<and> s' = s\<lparr>st_bindings := st_bindings s'\<rparr>
    \<and> (\<exists>b. fetch_key binding_key (st_bindings s') (''filesystem'', ev_resolve env f) = Some b
        \<and> \<not> rb_active b \<and> rb_unbound_at b = Some now
        \<and> dict_get (rb_metadata_json b) ''deactivation_reason'' = Some (JStr reason))
    \<and> (\<forall>k. k \<noteq> (''filesystem'', ev_resolve env f) \<longrightarrow>
        fetch_key binding_key (st_bindings s') k = fetch_key binding_key (st_bindings s) k)
    \<and> (\<forall>st i. chunk_visible s' st i \<longleftrightarrow> (\<exists>r \<in> set (prov_rows st s). pr_chunk_id r = i \<and> active_row s r
        \<and> (pr_namespace r, pr_document_ref r) \<noteq> (''filesystem'', ev_resolve env f)))"
proof -
  let ?b = "deactivated env now reason f s"
  let ?s' = "upsert_resource_binding ?b s"
  have "chunk_visible ?s' st i \<longleftrightarrow> (\<exists>r \<in> set (prov_rows st s). pr_chunk_id r = i \<and> active_row s r
        \<and> (pr_namespace r, pr_document_ref r) \<noteq> (''filesystem'', ev_resolve env f))" for st i
    using active_row_upsert [OF assms deactivated_fields(2) deactivated_valid [OF assms(2)], of now reason f]
    by (auto simp: chunk_visible_def deactivated_fields)
  moreover have "?s' = s\<lparr>st_bindings := st_bindings ?s'\<rparr>" by (simp add: upsert_resource_binding_def)
  ultimately show ?thesis
    by (intro exI [of _ ?s']) (auto simp: deactivate_result [OF assms(2)] sql_simps deactivated_fields)
qed

lemma deactivate_paths_result:
  assumes "store_ok s" and "sources_valid env s"
  shows "\<exists>s'. deactivate_paths env now fs n s = (n + length fs, s') \<and> s' = s\<lparr>st_bindings := st_bindings s'\<rparr>
    \<and> store_ok s' \<and> sources_valid env s'
    \<and> (\<forall>k. if k \<in> (\<lambda>f. (''filesystem'', ev_resolve env f)) ` set fs
         then (\<exists>b. fetch_key binding_key (st_bindings s') k = Some b \<and> \<not> rb_active b)
         else fetch_key binding_key (st_bindings s') k = fetch_key binding_key (st_bindings s) k)
    \<and> (\<forall>r. active_row s' r \<longleftrightarrow> active_row s r
         \<and> (pr_namespace r, pr_document_ref r) \<notin> (\<lambda>f. (''filesystem'', ev_resolve env f)) ` set fs)"
  using assms
proof (induction fs arbitrary: n s)
  case Nil
  then show ?case by simp
next
  case (Cons f fs)
  let ?b = "deactivated env now ''file_missing'' f s"
  let ?s1 = "upsert_resource_binding ?b s"
  have ok1: "store_ok ?s1" "sources_valid env ?s1"
    using Cons.prems deactivated_valid sources_valid_upsert by auto
  have row1: "active_row ?s1 r \<longleftrightarrow> active_row s r \<and> (pr_namespace r, pr_document_ref r) \<noteq> (''filesystem'', ev_resolve env f)"
    for r
    using active_row_upsert [OF Cons.prems deactivated_fields(2) deactivated_valid [OF Cons.prems(2)],
        of now "''file_missing''" f r] by (auto simp: deactivated_fields)
  have run: "deactivate_paths env now (f # fs) n s = deactivate_paths env now fs (n + 1) ?s1"
    by (simp add: deactivate_result [OF Cons.prems(2)])
  obtain s' where s': "deactivate_paths env now fs (n + 1) ?s1 = (n + 1 + length fs, s')"
      "s' = ?s1\<lparr>st_bindings := st_bindings s'\<rparr>" "store_ok s'" "sources_valid env s'"
      "\<And>k. if k \<in> (\<lambda>f. (''filesystem'', ev_resolve env f)) ` set fs
         then (\<exists>b. fetch_key binding_key (st_bindings s') k = Some b \<and> \<not> rb_active b)
         else fetch_key binding_key (st_bindings s') k = fetch_key binding_key (st_bindings ?s1) k"
      "\<And>r. active_row s' r \<longleftrightarrow> active_row ?s1 r
         \<and> (pr_namespace r, pr_document_ref r) \<notin> (\<lambda>f. (''filesystem'', ev_resolve env f)) ` set fs"
    using Cons.IH [OF ok1, of "n + 1"] by auto
  have "s' = s\<lparr>st_bindings := st_bindings s'\<rparr>" using s'(2) by (simp add: upsert_resource_binding_def)
  moreover have "if k \<in> (\<lambda>f. (''filesystem'', ev_resolve env f)) ` set (f # fs)
         then (\<exists>b. fetch_key binding_key (st_bindings s') k = Some b \<and> \<not> rb_active b)
         else fetch_key binding_key (st_bindings s') k = fetch_key binding_key (st_bindings s) k" for k
    using s'(5) [of k] deactivated_fields [of env now "''file_missing''" f s]
    by (auto simp: sql_simps split: if_splits)
  ultimately show ?case
    using s'(1,3,4,6) row1 unfolding run by (intro exI [of _ s']) auto
qed

lemma set_stored_paths: "set (stored_paths s) = {f. \<exists>st. \<exists>m \<in> set (holder_rows st s). mm_file_path m = f}"
proof -
  have "set (stored_paths s) = (\<Union>st \<in> set (present_strategies s). mm_file_path ` set (holder_rows st s))"
    by (auto simp: stored_paths_def holder_rows_def split: option.splits)
  also have "\<dots> = {f. \<exists>st. \<exists>m \<in> set (holder_rows st s). mm_file_path m = f}"
    using missing_rows by (fastforce simp: present_strategies_iff)
  finally show ?thesis .
qed

definition missing_paths :: "environment \<Rightarrow> string list option \<Rightarrow> store \<Rightarrow> string set" where
  "missing_paths env discovered s =
     {f. (\<exists>st. \<exists>m \<in> set (holder_rows st s). mm_file_path m = f)
       \<and> (case discovered of Some ds \<Rightarrow> f \<notin> set ds | None \<Rightarrow> ev_chunk_files env f = None)}"

text \<open>
  The sweep deactivates exactly the files that hold chunks in some strategy and are
  missing (from the discovered paths, or from the disk when none are given), counts them,
  and writes only bindings; afterwards a chunk is visible exactly if an active document
  that is not one of the missing files provides it.
\<close>

theorem purge_orphaned_files_spec:
  assumes "store_ok (pp_store p)" and "sources_valid env (pp_store p)"
  shows "\<exists>s'. purge_orphaned_files env now discovered p =
      ((card (missing_paths env discovered (pp_store p)), 0, 0), p\<lparr>pp_store := s'\<rparr>)
    \<and> s' = (pp_store p)\<lparr>st_bindings := st_bindings s'\<rparr>
    \<and> (\<forall>f \<in> missing_paths env discovered (pp_store p).
         \<not> is_resource_binding_active s' ''filesystem'' (ev_resolve env f)
         \<and> (''filesystem'', ev_resolve env f) \<in> binding_key ` set (st_bindings s'))
    \<and> (\<forall>st i. chunk_visible s' st i \<longleftrightarrow> (\<exists>r \<in> set (prov_rows st (pp_store p)). pr_chunk_id r = i
         \<and> active_row (pp_store p) r \<and> \<not> (pr_namespace r = ''filesystem''
           \<and> pr_document_ref r \<in> ev_resolve env ` missing_paths env discovered (pp_store p))))"
proof -
  let ?s = "pp_store p"
  define orphans where "orphans = (case discovered of
        Some ds \<Rightarrow> filter (\<lambda>f. f \<notin> set ds) (stored_paths ?s)
      | None \<Rightarrow> filter (\<lambda>f. ev_chunk_files env f = None) (stored_paths ?s))"
  have set_o: "set orphans = missing_paths env discovered ?s"
    by (auto simp: orphans_def missing_paths_def set_stored_paths split: option.splits)
  have "distinct orphans" by (auto simp: orphans_def stored_paths_def split: option.splits)
  then have len: "length orphans = card (missing_paths env discovered ?s)"
    by (simp add: distinct_card flip: set_o)
  obtain s' where s': "deactivate_paths env now (sort orphans) 0 ?s = (length orphans, s')"
      "s' = ?s\<lparr>st_bindings := st_bindings s'\<rparr>"
      "\<And>k. if k \<in> (\<lambda>f. (''filesystem'', ev_resolve env f)) ` set orphans
         then (\<exists>b. fetch_key binding_key (st_bindings s') k = Some b \<and> \<not> rb_active b)
         else fetch_key binding_key (st_bindings s') k = fetch_key binding_key (st_bindings ?s) k"
      "\<And>r. active_row s' r \<longleftrightarrow> active_row ?s r
         \<and> (pr_namespace r, pr_document_ref r) \<notin> (\<lambda>f. (''filesystem'', ev_resolve env f)) ` set orphans"
    using deactivate_paths_result [OF assms, of now "sort orphans" 0] by auto
  have run: "purge_orphaned_files env now discovered p = ((length orphans, 0, 0), p\<lparr>pp_store := s'\<rparr>)"
  proof (cases "orphans = []")
    case True
    with s'(1) show ?thesis by (simp add: purge_orphaned_files_def flip: orphans_def)
  next
    case False
    with s'(1) show ?thesis by (simp add: purge_orphaned_files_def flip: orphans_def)
  qed
  have inactive: "\<not> is_resource_binding_active s' ''filesystem'' (ev_resolve env f)
      \<and> (''filesystem'', ev_resolve env f) \<in> binding_key ` set (st_bindings s')" if "f \<in> set orphans" for f
  proof -
    have "(''filesystem'', ev_resolve env f) \<in> (\<lambda>f. (''filesystem'', ev_resolve env f)) ` set orphans"
      using that by simp
    then obtain b where b: "fetch_key binding_key (st_bindings s') (''filesystem'', ev_resolve env f) = Some b" "\<not> rb_active b"
      using s'(3) [of "(''filesystem'', ev_resolve env f)"] by (simp only: if_True) blast
    then show ?thesis
      using fetch_key_in [OF b(1)] fetch_key_key [OF b(1)]
      by (auto simp: is_resource_binding_active_def intro: rev_image_eqI)
  qed
  have "prov_rows st s' = prov_rows st ?s" for st by (subst s'(2)) (simp add: prov_rows_def)
  then show ?thesis
    using run s'(2) inactive s'(4)
    by (intro exI [of _ s']) (auto simp: chunk_visible_def set_o len)
qed

section \<open>Rebinding what was retained\<close>

lemma dict_set_same: "dict_get d k = Some v \<Longrightarrow> dict_set k v d = d"
  by (induction d) (auto split: if_splits)

lemma active_get_cong:
  assumes "pk_ok prov_key (prov_rows st s)" and "pk_ok prov_key (prov_rows st s')"
    and rows: "set (prov_rows st s') = set (prov_rows st s)" and act: "active_row s' = active_row s"
  shows "dict_get (fst (get_active_chunk_provenance_for_chunk_ids st ids s')) i =
    dict_get (fst (get_active_chunk_provenance_for_chunk_ids st ids s)) i"
proof (cases "ids = []")
  case True
  then show ?thesis by (simp add: get_active_chunk_provenance_for_chunk_ids_def)
next
  case False
  define R where "R s = filter (\<lambda>r. pr_chunk_id r \<in> set ids)
      (join_bindings rb_active (prov_rows st s) (st_bindings s))" for s
  have get: "dict_get (fst (get_active_chunk_provenance_for_chunk_ids st ids s)) i =
      map_option provenance_of_row (find (\<lambda>r. pr_chunk_id r = i) (sort_key prov_key (R s)))" for s
    using False by (simp add: get_active_chunk_provenance_for_chunk_ids_def Let_def first_row_get R_def)
  have set_R: "set (R s') = set (R s)" "set (R s) \<subseteq> set (prov_rows st s)"
    by (auto simp: R_def join_active_rows rows act)
  have "find (\<lambda>r. pr_chunk_id r = i) (sort_key prov_key (R s')) =
      find (\<lambda>r. pr_chunk_id r = i) (sort_key prov_key (R s))"
  proof (cases "find (\<lambda>r. pr_chunk_id r = i) (sort_key prov_key (R s))")
    case None
    then show ?thesis using set_R(1) by (metis find_None_iff_set set_sort)
  next
    case (Some r)
    then have r: "r \<in> set (R s)" "pr_chunk_id r = i" and
      least: "\<forall>y \<in> set (R s). pr_chunk_id y = i \<longrightarrow> prov_key r \<le> prov_key y"
      using find_sort_key_least [OF Some] by auto
    have "find (\<lambda>r. pr_chunk_id r = i) (sort_key prov_key (R s')) \<noteq> None"
      using r set_R(1) by (auto simp: find_None_iff_set)
    then obtain r' where Some': "find (\<lambda>r. pr_chunk_id r = i) (sort_key prov_key (R s')) = Some r'" by blast
    have "r' \<in> set (R s)" "prov_key r' = prov_key r"
      using find_sort_key_least [OF Some'] least r set_R(1) by (auto intro: antisym)
    then have "r' = r"
      using assms(1) r(1) set_R(2) by (auto simp: pk_ok_def distinct_map dest: inj_onD)
    with Some Some' show ?thesis by simp
  qed
  then show ?thesis by (simp add: get)
qed

text \<open>A file as the pipeline indexed it: the document, stored and bound under the resolved path,
  the holder rows under the path it was found at, and for every chunk it holds the provenance row the
  pipeline writes.\<close>

definition written_row :: "environment \<Rightarrow> source_document \<Rightarrow> string \<Rightarrow> prov_row" where
  "written_row env d chunk_id =
     \<lparr>pr_chunk_id = chunk_id, pr_namespace = ''filesystem'', pr_document_ref = sd_document_ref d,
      pr_source_unit_refs = [], pr_chunk_strategy = ev_strategy env, pr_parser_name = Some ''markdown''\<rparr>"

definition file_indexed :: "environment \<Rightarrow> source_document \<Rightarrow> string \<Rightarrow> store \<Rightarrow> bool" where
  "file_indexed env d f s \<longleftrightarrow>
     sd_namespace d = ''filesystem'' \<and> sd_document_ref d = ev_resolve env f \<and> sd_file_path d = Some f
     \<and> fetch_key doc_key (st_documents s) (''filesystem'', ev_resolve env f) = Some d
     \<and> is_resource_binding_active s ''filesystem'' (ev_resolve env f)
     \<and> has_holders (ev_strategy env) s \<and> f \<in> mm_file_path ` set (holder_rows (ev_strategy env) s)
     \<and> dict_get (st_prov s) (prov_table (ev_strategy env)) \<noteq> None
     \<and> list_all (\<lambda>m. written_row env d (mm_chunk_id m) \<in> set (prov_rows (ev_strategy env) s))
         (filter (\<lambda>m. mm_file_path m = f) (holder_rows (ev_strategy env) s))"

lemma attach_chunks_present:
  assumes "store_ok s" and "has_holders (ev_strategy env) s"
    and "dict_get (st_prov s) (prov_table (ev_strategy env)) \<noteq> None"
    and "list_all (\<lambda>(c, i). \<lparr>mm_chunk_id = c, mm_file_path = f, mm_chunk_index = i\<rparr>
           \<in> set (holder_rows (ev_strategy env) s)
         \<and> written_row env d c \<in> set (prov_rows (ev_strategy env) s)) refs"
  shows "\<exists>s'. attach_chunks (ev_strategy env) (filesystem_chunk_provenance env d) f refs s = Inr s'
    \<and> s' = s\<lparr>st_prov := st_prov s'\<rparr> \<and> store_ok s' \<and> (\<forall>st. set (prov_rows st s') = set (prov_rows st s))"
  using assms
proof (induction refs arbitrary: s)
  case Nil
  then show ?case by simp
next
  case (Cons ref refs)
  obtain c i where ref: "ref = (c, i)" by (cases ref)
  let ?st = "ev_strategy env"
  let ?m = "\<lparr>mm_chunk_id = c, mm_file_path = f, mm_chunk_index = i\<rparr>"
  let ?r = "written_row env d c"
  have m: "?m \<in> set (holder_rows ?st s)" and r: "?r \<in> set (prov_rows ?st s)"
    using Cons.prems(4) by (auto simp: ref)
  have "table_of (st_m2m s) (m2m_table ?st) = Inr (holder_rows ?st s)"
    using Cons.prems(2) by (auto simp: has_holders_def table_of_def holder_rows_def)
  moreover have "insert_or_ignore m2m_key ?m (holder_rows ?st s) = holder_rows ?st s"
    using m by (auto simp: insert_or_ignore_def)
  moreover have "dict_set (m2m_table ?st) (holder_rows ?st s) (st_m2m s) = st_m2m s"
    using Cons.prems(2) by (auto simp: has_holders_def holder_rows_def dict_set_same)
  ultimately have path: "add_file_path ?st c f i s = Inr s" by (simp add: add_file_path_def)
  define t where "t = insert_or_replace prov_key ?r (prov_rows ?st s)"
  let ?s1 = "s\<lparr>st_prov := dict_set (prov_table ?st) t (st_prov s)\<rparr>"
  have "table_of (st_prov s) (prov_table ?st) = Inr (prov_rows ?st s)"
    using Cons.prems(3) by (auto simp: table_of_def prov_rows_def)
  then have prov: "add_chunk_provenance ?st (filesystem_chunk_provenance env d) c s = Inr ?s1"
    by (simp add: add_chunk_provenance_def filesystem_chunk_provenance_def written_row_def t_def)
  have pk: "pk_ok prov_key (prov_rows ?st s)" using Cons.prems(1) by (rule prov_rows_ok)
  have set_t: "set t = set (prov_rows ?st s)"
    using r pk by (auto simp: t_def set_insert_or_replace pk_ok_def distinct_map dest: inj_onD)
  then have rows: "set (prov_rows st ?s1) = set (prov_rows st s)" for st
    by (simp add: prov_rows_def)
  have "store_ok ?s1" using store_ok_add_chunk_provenance Cons.prems(1) prov by blast
  moreover have "has_holders ?st ?s1" "holder_rows ?st ?s1 = holder_rows ?st s"
    using Cons.prems(2) by (simp_all add: has_holders_def holder_rows_def)
  ultimately obtain s' where "attach_chunks ?st (filesystem_chunk_provenance env d) f refs ?s1 = Inr s'"
      "s' = ?s1\<lparr>st_prov := st_prov s'\<rparr>" "store_ok s'" "\<forall>st. set (prov_rows st s') = set (prov_rows st ?s1)"
    using Cons.IH [of ?s1] Cons.prems(4) rows by auto
  then show ?case
    using rows by (intro exI [of _ s']) (simp add: ref path prov)
qed

lemma upsert_same_document:
  assumes "store_ok s" and "fetch_key doc_key (st_documents s) (doc_key d) = Some d"
  shows "upsert_source_document d s = s"
proof -
  have d: "d \<in> set (st_documents s)" using assms(2) by (rule fetch_key_in)
  then have "update_where (\<lambda>x. doc_key x = doc_key d) (\<lambda>x. d) (st_documents s) = st_documents s"
    using assms(1) unfolding update_where_def store_ok_def pk_ok_def distinct_map
    by (intro map_idI) (auto dest: inj_onD)
  with d show ?thesis by (simp add: upsert_source_document_def upsert_def)
qed

lemma upsert_binding_fields [simp]:
  "st_documents (upsert_resource_binding b s) = st_documents s"
  "st_m2m (upsert_resource_binding b s) = st_m2m s"
  "st_prov (upsert_resource_binding b s) = st_prov s"
  by (simp_all add: upsert_resource_binding_def)

lemma holder_rows_upsert_binding [simp]:
  "holder_rows st (upsert_resource_binding b s) = holder_rows st s"
  "has_holders st (upsert_resource_binding b s) = has_holders st s"
  by (simp_all add: holder_rows_def has_holders_def)

lemma file_refs:
  assumes "has_holders st s"
  shows "\<exists>refs. get_chunk_refs_by_file s st f = Inr refs
    \<and> set refs = (\<lambda>m. (mm_chunk_id m, mm_chunk_index m)) ` {m \<in> set (holder_rows st s). mm_file_path m = f}
    \<and> length refs = length (filter (\<lambda>m. mm_file_path m = f) (holder_rows st s))"
proof -
  have "table_of (st_m2m s) (m2m_table st) = Inr (holder_rows st s)"
    using assms by (auto simp: has_holders_def table_of_def holder_rows_def)
  then show ?thesis by (simp add: get_chunk_refs_by_file_def)
qed

lemma rebind_transaction_result:
  assumes ok: "store_ok s1" and valid: "sources_valid env s1" and ix: "file_indexed env d f s"
    and own: "ev_resolve env f = f"
    and same: "st_documents s1 = st_documents s" "st_m2m s1 = st_m2m s" "st_prov s1 = st_prov s"
    and refs: "set refs = (\<lambda>m. (mm_chunk_id m, mm_chunk_index m)) `
      {m \<in> set (holder_rows (ev_strategy env) s). mm_file_path m = f}"
  shows "\<exists>s2 b2. rebind_transaction env now d b refs s1 = (Inr (), upsert_resource_binding b2 s2)
    \<and> s2 = s1\<lparr>st_prov := st_prov s2\<rparr> \<and> store_ok s2 \<and> (\<forall>st. set (prov_rows st s2) = set (prov_rows st s))
    \<and> b2 = active_binding d (rb_source_unit_refs b)
         (dict_set ''last_rebind'' (last_rebind_json now (length refs)) (rb_metadata_json b))
    \<and> validate_resource_binding b2 = Inr b2"
proof -
  have d: "sd_namespace d = ''filesystem''" "sd_document_ref d = f" "sd_file_path d = Some f"
    "fetch_key doc_key (st_documents s) (''filesystem'', f) = Some d"
    using ix by (simp_all add: file_indexed_def own)
  then have doc: "upsert_source_document d s1 = s1"
    using upsert_same_document [OF ok] by (simp add: same doc_key_def)
  have eq: "holder_rows st s1 = holder_rows st s" "prov_rows st s1 = prov_rows st s" for st
    using same by (simp_all add: holder_rows_def prov_rows_def)
  have rows: "list_all (\<lambda>(c, i). \<lparr>mm_chunk_id = c, mm_file_path = f, mm_chunk_index = i\<rparr>
           \<in> set (holder_rows (ev_strategy env) s1)
         \<and> written_row env d c \<in> set (prov_rows (ev_strategy env) s1)) refs"
    unfolding list_all_iff
  proof
    fix ref assume "ref \<in> set refs"
    then obtain m where m: "m \<in> set (holder_rows (ev_strategy env) s)" "mm_file_path m = f"
      "ref = (mm_chunk_id m, mm_chunk_index m)" using refs by auto
    moreover from m(2) have whole:
        "\<lparr>mm_chunk_id = mm_chunk_id m, mm_file_path = f, mm_chunk_index = mm_chunk_index m\<rparr> = m" by simp
    moreover from m(1) have "\<lparr>mm_chunk_id = mm_chunk_id m, mm_file_path = f, mm_chunk_index = mm_chunk_index m\<rparr>
        \<in> set (holder_rows (ev_strategy env) s)" unfolding whole .
    moreover have "written_row env d (mm_chunk_id m) \<in> set (prov_rows (ev_strategy env) s)"
      using ix m by (simp add: file_indexed_def list_all_iff)
    ultimately show "case ref of (c, i) \<Rightarrow> \<lparr>mm_chunk_id = c, mm_file_path = f, mm_chunk_index = i\<rparr>
           \<in> set (holder_rows (ev_strategy env) s1)
         \<and> written_row env d c \<in> set (prov_rows (ev_strategy env) s1)"
      by (simp add: eq)
  qed
  moreover have "has_holders (ev_strategy env) s1" "dict_get (st_prov s1) (prov_table (ev_strategy env)) \<noteq> None"
    using ix same by (simp_all add: file_indexed_def has_holders_def)
  ultimately obtain s2 where s2: "attach_chunks (ev_strategy env) (filesystem_chunk_provenance env d) f refs s1 = Inr s2"
      "s2 = s1\<lparr>st_prov := st_prov s2\<rparr>" "store_ok s2" "\<forall>st. set (prov_rows st s2) = set (prov_rows st s1)"
    using attach_chunks_present [OF ok, of env f d refs] by auto
  let ?b2 = "active_binding d (rb_source_unit_refs b)
         (dict_set ''last_rebind'' (last_rebind_json now (length refs)) (rb_metadata_json b))"
  have "sd_ref d = make_ref ''filesystem'' f"
    using fetch_key_in [OF d(4)] valid d same validate_source_document_ok [of "ev_resolve env" d d]
    by (auto simp: sources_valid_def list_all_iff)
  then have b2: "validate_resource_binding ?b2 = Inr ?b2"
    by (simp add: validate_resource_binding_def active_binding_def d)
  from s2 b2 eq show ?thesis
    by (intro exI [of _ s2] exI [of _ ?b2])
      (simp add: rebind_transaction_def transaction_def d(3) doc make_binding_def)
qed

lemma active_row_doc:
  assumes "file_indexed env d f s" and "store_ok s" and "sources_valid env s"
    and "pr_namespace r = ''filesystem''" "pr_document_ref r = ev_resolve env f"
  shows "active_row s r"
proof -
  obtain b where b: "fetch_key binding_key (st_bindings s) (''filesystem'', ev_resolve env f) = Some b" "rb_active b"
    using assms(1) by (auto simp: file_indexed_def is_resource_binding_active_def split: option.splits)
  then have "b \<in> set (st_bindings s)" "rb_namespace b = ''filesystem''" "rb_resource_ref b = ev_resolve env f"
    by (auto dest: fetch_key_in fetch_key_key simp: binding_key_def)
  moreover from this have "rb_document_ref b = ev_resolve env f"
    using valid_filesystem_key [OF assms(3), of b] by (simp add: binding_key_def)
  ultimately show ?thesis using assms(4,5) b(2) by (auto simp: active_row_def)
qed

lemma save_fingerprint_store [simp]:
  "pp_store (save_meta_fingerprint env now f p) = pp_store p"
  "pp_store (save_chunk_fingerprint env now f p) = pp_store p"
  by (simp_all add: save_meta_fingerprint_def save_chunk_fingerprint_def)

lemma deactivated_of_document:
  assumes "fetch_key doc_key (st_documents s) (''filesystem'', ev_resolve env f) = Some d"
  shows "rb_content_fingerprint (deactivated env now reason f s) = sd_content_fingerprint d"
    "rb_metadata_fingerprint (deactivated env now reason f s) = sd_metadata_fingerprint d"
    "rb_resource_ref (deactivated env now reason f s) = ev_resolve env f"
  using assms by (simp_all add: deactivated_def deactivated_binding_def)

lemma retained_binding_deactivated:
  assumes "sources_valid env s" and "store_ok s" and "sd_namespace d = ''filesystem''"
    and "fetch_key doc_key (st_documents s) (''filesystem'', ev_resolve env f) = Some d"
  shows "retained_binding d (upsert_resource_binding (deactivated env now reason f s) s) =
    Inr (Some (deactivated env now reason f s))"
proof -
  let ?b = "deactivated env now reason f s"
  have "sd_document_ref d = ev_resolve env f" using fetch_key_key [OF assms(4)] by (simp add: doc_key_def)
  moreover have "sources_valid env (upsert_resource_binding ?b s)"
    using sources_valid_upsert [OF assms(2,1) deactivated_valid [OF assms(1)]] .
  ultimately show ?thesis
    using assms(3) by (simp add: retained_binding_def get_binding_valid sql_simps deactivated_fields
        deactivated_of_document [OF assms(4)])
qed

lemma rebind_own_path:
  assumes ok: "store_ok (pp_store p)" and valid: "sources_valid env (pp_store p)"
    and ix: "file_indexed env d f (pp_store p)" and disk: "ev_resolve env f = f" "ev_chunk_files env f \<noteq> None"
  shows "\<exists>p2 n. rebind_retained_filesystem_document env now' d
      (p\<lparr>pp_store := upsert_resource_binding (deactivated env now reason f (pp_store p)) (pp_store p)\<rparr>) =
        (Inr \<lparr>rd_rebound = 1, rd_reused_chunks = n, rd_reused_embeddings = 0, rd_retained_hidden = n\<rparr>, p2)
    \<and> n = length (filter (\<lambda>m. mm_file_path m = f) (holder_rows (ev_strategy env) (pp_store p)))
    \<and> is_resource_binding_active (pp_store p2) ''filesystem'' f
    \<and> st_documents (pp_store p2) = st_documents (pp_store p) \<and> st_m2m (pp_store p2) = st_m2m (pp_store p)
    \<and> st_chunks (pp_store p2) = st_chunks (pp_store p)
    \<and> (\<forall>st ids i. dict_get (fst (get_active_chunk_provenance_for_chunk_ids st ids (pp_store p2))) i =
         dict_get (fst (get_active_chunk_provenance_for_chunk_ids st ids (pp_store p))) i)"
proof -
  let ?s = "pp_store p"
  let ?b = "deactivated env now reason f ?s"
  let ?s1 = "upsert_resource_binding ?b ?s"
  have d: "sd_namespace d = ''filesystem''" "sd_document_ref d = f" "sd_file_path d = Some f"
    "fetch_key doc_key (st_documents ?s) (''filesystem'', ev_resolve env f) = Some d"
    "has_holders (ev_strategy env) ?s" "f \<in> mm_file_path ` set (holder_rows (ev_strategy env) ?s)"
    using ix disk by (simp_all add: file_indexed_def)
  note bv = deactivated_valid [OF valid, of now reason f]
  have ok1: "store_ok ?s1" "sources_valid env ?s1" using ok valid bv sources_valid_upsert by auto
  obtain refs where refs: "get_chunk_refs_by_file ?s1 (ev_strategy env) f = Inr refs"
      "set refs = (\<lambda>m. (mm_chunk_id m, mm_chunk_index m)) `
         {m \<in> set (holder_rows (ev_strategy env) ?s). mm_file_path m = f}"
      "length refs = length (filter (\<lambda>m. mm_file_path m = f) (holder_rows (ev_strategy env) ?s))"
    using file_refs [of "ev_strategy env" ?s1 f] d(5) by auto
  have "refs \<noteq> []" using refs(2) d(6) by auto
  obtain s2 b2 where s2: "rebind_transaction env now' d ?b refs ?s1 = (Inr (), upsert_resource_binding b2 s2)"
      "s2 = ?s1\<lparr>st_prov := st_prov s2\<rparr>" "store_ok s2" "\<forall>st. set (prov_rows st s2) = set (prov_rows st ?s)"
      "b2 = active_binding d (rb_source_unit_refs ?b)
         (dict_set ''last_rebind'' (last_rebind_json now' (length refs)) (rb_metadata_json ?b))"
      "validate_resource_binding b2 = Inr b2"
    using rebind_transaction_result [OF ok1 ix disk(1) _ _ _ refs(2), of now' ?b] by (simp only: upsert_binding_fields simp_thms) blast
  let ?s' = "upsert_resource_binding b2 s2"
  define diag where "diag = \<lparr>rd_rebound = 1, rd_reused_chunks = length refs, rd_reused_embeddings = 0,
      rd_retained_hidden = length refs\<rparr>"
  have "source_document_to_file_info env d = Inr f"
    using d disk by (simp add: source_document_to_file_info_def)
  then have rebind: "rebind_retained_filesystem_document env now' d (p\<lparr>pp_store := ?s1\<rparr>) =
      (Inr diag, (save_meta_fingerprint env now' f (save_chunk_fingerprint env now' f
        (p\<lparr>pp_store := ?s'\<rparr>)))\<lparr>pp_last_rebind := Some diag\<rparr>)" (is "_ = (_, ?p2)")
    using d(1) refs(1) \<open>refs \<noteq> []\<close> s2(1) disk(1)
    by (cases refs) (simp_all add: rebind_retained_filesystem_document_def
        retained_binding_deactivated [OF valid ok d(1,4)] deactivated_of_document [OF d(4)] diag_def Let_def)
  have b2: "rb_namespace b2 = ''filesystem''" "rb_document_ref b2 = f" "rb_active b2"
      "binding_key b2 = (''filesystem'', f)"
    using s2(5) d by (simp_all add: active_binding_def binding_key_def)
  have bindings2: "st_bindings s2 = st_bindings ?s1" "st_documents s2 = st_documents ?s"
      "st_m2m s2 = st_m2m ?s" "st_chunks s2 = st_chunks ?s"
    by (subst s2(2), simp add: upsert_resource_binding_def)+
  have valid2: "sources_valid env s2" using ok1(2) by (simp add: sources_valid_def bindings2)
  have active2: "active_row s2 = active_row ?s1" by (simp add: active_row_def fun_eq_iff bindings2)
  have active: "active_row ?s' r = active_row ?s r" for r
    using active_row_upsert [OF s2(3) valid2 b2(1) s2(6)] active_row_doc [OF ix ok valid, of r]
      active_row_upsert [OF ok valid deactivated_fields(2) bv, of r] disk(1)
    by (simp add: active2 b2 deactivated_fields)
  have "store_ok ?s'" using s2(3) by (rule store_ok_upsert_resource_binding)
  then have same: "dict_get (fst (get_active_chunk_provenance_for_chunk_ids st ids ?s')) i =
      dict_get (fst (get_active_chunk_provenance_for_chunk_ids st ids ?s)) i" for st ids i
    by (intro active_get_cong prov_rows_ok ok ext active) (simp_all add: s2(4))
  have visible: "\<not> is_resource_binding_active ?s1 ''filesystem'' f" "is_resource_binding_active ?s' ''filesystem'' f"
    using deactivated_fields [of env now reason f ?s] disk(1) b2
    by (simp_all add: is_resource_binding_active_def sql_simps)
  have "st_documents ?s' = st_documents ?s" "st_m2m ?s' = st_m2m ?s" "st_chunks ?s' = st_chunks ?s"
    using bindings2 by (simp_all add: upsert_resource_binding_def)
  then show ?thesis
    using rebind visible same refs(3)
    by (intro exI [of _ ?s1] exI [of _ ?p2] exI [of _ "length refs"])
      (simp add: deactivate_result [OF valid] diag_def)
qed

text \<open>The holder rows are looked up under the resolved path, so those of another path are not found.\<close>

lemma rebind_other_path:
  assumes ok: "store_ok (pp_store p)" and valid: "sources_valid env (pp_store p)"
    and ix: "file_indexed env d f (pp_store p)"
    and other: "ev_resolve env f \<notin> mm_file_path ` set (holder_rows (ev_strategy env) (pp_store p))"
  shows "rebind_retained_filesystem_document env now' d
      (p\<lparr>pp_store := upsert_resource_binding (deactivated env now reason f (pp_store p)) (pp_store p)\<rparr>) =
    (Inr no_rebind, p\<lparr>pp_store := upsert_resource_binding (deactivated env now reason f (pp_store p)) (pp_store p)\<rparr>)"
proof -
  let ?s = "pp_store p"
  let ?s1 = "upsert_resource_binding (deactivated env now reason f ?s) ?s"
  have d: "sd_namespace d = ''filesystem''"
    "fetch_key doc_key (st_documents ?s) (''filesystem'', ev_resolve env f) = Some d" "has_holders (ev_strategy env) ?s"
    using ix by (simp_all add: file_indexed_def)
  obtain refs where refs: "get_chunk_refs_by_file ?s1 (ev_strategy env) (ev_resolve env f) = Inr refs"
      "set refs = (\<lambda>m. (mm_chunk_id m, mm_chunk_index m)) `
         {m \<in> set (holder_rows (ev_strategy env) ?s). mm_file_path m = ev_resolve env f}"
    using file_refs [of "ev_strategy env" ?s1 "ev_resolve env f"] d(3) by auto
  have "refs = []"
  proof (rule ccontr)
    assume "refs \<noteq> []"
    then have "set refs \<noteq> {}" by simp
    then obtain m where "m \<in> set (holder_rows (ev_strategy env) ?s)" "mm_file_path m = ev_resolve env f"
      using refs(2) by auto
    with other show False by (metis imageI)
  qed
  with refs(1) d show ?thesis
    by (simp add: rebind_retained_filesystem_document_def retained_binding_deactivated [OF valid ok d(1,2)]
        deactivated_of_document [OF d(2)])
qed

text \<open>
  C23: Deactivating an indexed file hides it, and what rebinding its unchanged document then does
  depends on the path.  For a file indexed under its own resolved path, rebinding reuses every chunk
  reference without recomputing, makes the binding active again, leaves documents, holder
  rows and chunk contents as they were, and for every strategy and set of chunk ids the
  active provenance reads the same as before.  For a file indexed under another path (a symbolic link, a
  relative directory), whose chunks have no holder row under the resolved path, rebinding finds
  nothing, changes nothing and the file stays hidden.
\<close>

theorem deactivate_rebind_roundtrip:
  assumes ok: "store_ok (pp_store p)" and valid: "sources_valid env (pp_store p)"
    and ix: "file_indexed env d f (pp_store p)" and disk: "ev_chunk_files env f \<noteq> None"
  shows "\<exists>s1. deactivate_filesystem_binding env now reason f (pp_store p) = Inr s1
    \<and> \<not> is_resource_binding_active s1 ''filesystem'' (ev_resolve env f)
    \<and> (ev_resolve env f = f \<longrightarrow> (\<exists>p2 n.
        rebind_retained_filesystem_document env now' d (p\<lparr>pp_store := s1\<rparr>) =
          (Inr \<lparr>rd_rebound = 1, rd_reused_chunks = n, rd_reused_embeddings = 0, rd_retained_hidden = n\<rparr>, p2)
        \<and> n = length (filter (\<lambda>m. mm_file_path m = f) (holder_rows (ev_strategy env) (pp_store p)))
        \<and> is_resource_binding_active (pp_store p2) ''filesystem'' f
        \<and> st_documents (pp_store p2) = st_documents (pp_store p) \<and> st_m2m (pp_store p2) = st_m2m (pp_store p)
        \<and> st_chunks (pp_store p2) = st_chunks (pp_store p)
        \<and> (\<forall>st ids i. dict_get (fst (get_active_chunk_provenance_for_chunk_ids st ids (pp_store p2))) i =
             dict_get (fst (get_active_chunk_provenance_for_chunk_ids st ids (pp_store p))) i)))
    \<and> (ev_resolve env f \<notin> mm_file_path ` set (holder_rows (ev_strategy env) (pp_store p)) \<longrightarrow>
        rebind_retained_filesystem_document env now' d (p\<lparr>pp_store := s1\<rparr>) = (Inr no_rebind, p\<lparr>pp_store := s1\<rparr>))"
proof -
  let ?s = "pp_store p"
  let ?s1 = "upsert_resource_binding (deactivated env now reason f ?s) ?s"
  have hidden: "\<not> is_resource_binding_active ?s1 ''filesystem'' (ev_resolve env f)"
    using deactivated_fields [of env now reason f ?s] by (simp add: is_resource_binding_active_def sql_simps)
  from rebind_own_path [OF ok valid ix _ disk, where now = now and reason = reason and now' = now']
    rebind_other_path [OF ok valid ix, where now = now and reason = reason and now' = now']
    hidden deactivate_result [OF valid, of now reason f]
  show ?thesis by (intro exI [of _ ?s1]) blast
qed

section \<open>A concrete pipeline\<close>

text \<open>Both files are indexed and share the chunk \<open>x\<close>; only \<open>f.md\<close> is on disk.\<close>

definition demo_env :: environment where
  "demo_env = \<lparr>ev_resolve = (\<lambda>f. f), ev_strategy = ''a'',
     ev_chunk_files = (\<lambda>f. if f = ''f.md'' then Some \<lparr>fs_mtime = 1, fs_size = 9, fs_checksum = ''c0''\<rparr> else None),
     ev_meta_files = (\<lambda>f. None)\<rparr>"

definition demo_file :: "string \<Rightarrow> source_document" where
  "demo_file f = sample_document\<lparr>sd_document_ref := f, sd_ref := ''filesystem:'' @ f, sd_file_path := Some f\<rparr>"

definition demo_store :: store where
  "demo_store = sample_store\<lparr>st_documents := [demo_file ''f.md'', demo_file ''g.md''],
     st_bindings := [active_binding (demo_file ''f.md'') [] [], active_binding (demo_file ''g.md'') [] []],
     st_prov := [(''chunk_source_provenance_a'',
       [written_row demo_env (demo_file ''f.md'') ''x'', written_row demo_env (demo_file ''f.md'') ''y'',
        written_row demo_env (demo_file ''g.md'') ''x''])]\<rparr>"

definition demo_pipeline :: pipeline where
  "demo_pipeline = \<lparr>pp_store = demo_store, pp_chunk_fps = [], pp_meta_fps = [], pp_last_rebind = None\<rparr>"

lemmas demo_pipeline_defs = demo_pipeline_def demo_store_def demo_file_def demo_env_def active_binding_def
  written_row_def sample_defs

lemma demo_store_ok: "store_ok (pp_store demo_pipeline)" "sources_valid demo_env (pp_store demo_pipeline)"
  by (simp_all add: store_ok_def pk_ok_def demo_pipeline_defs store_keys sources_valid_def
      validate_source_document_def validate_resource_binding_def make_ref_def)

lemma demo_rows:
  "holder_rows ''a'' (pp_store demo_pipeline) = sample_holders"
  "content_rows ''a'' (pp_store demo_pipeline) = sample_contents"
  "present_strategies (pp_store demo_pipeline) = [''a'']"
  by (simp_all add: holder_rows_def content_rows_def m2m_table_def chunk_table_def present_strategies_def
      removeprefix_def demo_pipeline_def demo_store_def sample_store_def)

lemma demo_held: "held_only_by ''f.md'' sample_holders = {''y''}"
  by (auto simp: held_only_by_def sample_holders_def)

lemma demo_can_clean: "list_all (can_clean f (pp_store demo_pipeline)) (present_strategies (pp_store demo_pipeline))"
  unfolding demo_rows
  by (simp add: can_clean_def has_content_def chunk_table_def demo_pipeline_def demo_store_def sample_store_def)

theorem purge_file_spec_witness:
  "\<exists>s'. purge_file demo_env ''f.md'' demo_pipeline = (Inr (), demo_pipeline\<lparr>pp_store := s'\<rparr>)
    \<and> map sd_document_ref (st_documents s') = [''g.md''] \<and> map mm_file_path (holder_rows ''a'' s') = [''g.md'']
    \<and> map cr_chunk_id (content_rows ''a'' s') = [''x''] \<and> map pr_chunk_id (prov_rows ''a'' s') = [''x'']"
proof -
  have "has_holders ''a'' (pp_store demo_pipeline)"
    using present_strategies_iff [of "''a''" "pp_store demo_pipeline"] by (simp add: demo_rows)
  moreover have "prov_rows ''a'' (pp_store demo_pipeline) = snd (hd (st_prov demo_store))"
    by (simp add: prov_rows_def prov_table_def demo_pipeline_def demo_store_def)
  ultimately obtain s' where s': "purge_file demo_env ''f.md'' demo_pipeline = (Inr (), demo_pipeline\<lparr>pp_store := s',
        pp_chunk_fps := filter (\<lambda>r. fp_file_path r \<noteq> ''f.md'') (pp_chunk_fps demo_pipeline),
        pp_meta_fps := filter (\<lambda>r. fp_file_path r \<noteq> ''f.md'') (pp_meta_fps demo_pipeline)\<rparr>)"
    "st_documents s' = filter (\<lambda>d. doc_key d \<noteq> (''filesystem'', ev_resolve demo_env ''f.md''))
       (st_documents (pp_store demo_pipeline))"
    "holder_rows ''a'' s' = filter (\<lambda>m. mm_file_path m \<noteq> ''f.md'') sample_holders"
    "content_rows ''a'' s' = filter (\<lambda>c. cr_chunk_id c \<notin> {''y''}) sample_contents"
    "prov_rows ''a'' s' = filter (\<lambda>r. \<not> (pr_namespace r = ''filesystem''
          \<and> pr_document_ref r = ev_resolve demo_env ''f.md'') \<and> pr_chunk_id r \<notin> {''y''}) (snd (hd (st_prov demo_store)))"
    using purge_file_spec [OF demo_store_ok(1) demo_can_clean, of demo_env "''f.md''"]
    by (elim exE conjE) (rule that, assumption, assumption, simp_all only: demo_rows demo_held)
  have "map sd_document_ref (st_documents s') = [''g.md'']" "map mm_file_path (holder_rows ''a'' s') = [''g.md'']"
    "map cr_chunk_id (content_rows ''a'' s') = [''x'']" "map pr_chunk_id (prov_rows ''a'' s') = [''x'']"
    unfolding s' by (simp_all add: demo_pipeline_defs doc_key_def)
  moreover have "demo_pipeline\<lparr>pp_store := s', pp_chunk_fps := filter P (pp_chunk_fps demo_pipeline),
      pp_meta_fps := filter P (pp_meta_fps demo_pipeline)\<rparr> = demo_pipeline\<lparr>pp_store := s'\<rparr>" for P
    by (simp add: demo_pipeline_def)
  ultimately show ?thesis using s'(1) by auto
qed

theorem purge_file_atomic_witness:
  "\<exists>st. \<not> has_content st (demo_store\<lparr>st_chunks := []\<rparr>)
    \<and> purge_file demo_env ''f.md'' (demo_pipeline\<lparr>pp_store := demo_store\<lparr>st_chunks := []\<rparr>\<rparr>) =
        (Inl (OperationalError (''no such table: '' @ chunk_table st)),
         demo_pipeline\<lparr>pp_store := demo_store\<lparr>st_chunks := []\<rparr>\<rparr>)"
proof -
  let ?s = "demo_store\<lparr>st_chunks := []\<rparr>"
  let ?p = "demo_pipeline\<lparr>pp_store := ?s\<rparr>"
  have "store_ok (pp_store ?p)"
    using demo_store_ok(1) by (simp add: store_ok_def demo_pipeline_def)
  moreover have "present_strategies ?s = [''a'']" "holder_rows ''a'' ?s = sample_holders"
    using demo_rows by (simp_all add: present_strategies_def holder_rows_def demo_pipeline_def)
  then have "\<not> list_all (can_clean ''f.md'' (pp_store ?p)) (present_strategies (pp_store ?p))"
    by (simp add: can_clean_def has_content_def demo_held)
  ultimately show ?thesis
    using purge_file_atomic [of ?p "''f.md''" demo_env] by (simp only: if_False) auto
qed

theorem deactivate_hides_and_retains_witness:
  "\<exists>s'. deactivate_filesystem_binding demo_env 8 ''file_missing'' ''f.md'' demo_store = Inr s'
    \<and> s' = demo_store\<lparr>st_bindings := st_bindings s'\<rparr>
    \<and> chunk_visible s' ''a'' ''x'' \<and> \<not> chunk_visible s' ''a'' ''y''"
proof -
  have s: "pp_store demo_pipeline = demo_store" by (simp add: demo_pipeline_def)
  have rows: "prov_rows ''a'' demo_store = snd (hd (st_prov demo_store))"
    by (simp add: prov_rows_def prov_table_def demo_store_def)
  have act: "active_row demo_store r" if "pr_namespace r = ''filesystem''" "pr_document_ref r = ''g.md''" for r
    using that by (simp add: active_row_def demo_pipeline_defs)
  have row: "written_row demo_env (demo_file ''g.md'') ''x'' \<in> set (prov_rows ''a'' demo_store)"
    unfolding rows by (simp add: demo_store_def)
  have all: "pr_chunk_id r = ''y'' \<Longrightarrow> (pr_namespace r, pr_document_ref r) = (''filesystem'', ''f.md'')"
    if "r \<in> set (prov_rows ''a'' demo_store)" for r
    using that unfolding rows by (auto simp: demo_store_def written_row_def demo_file_def sample_document_def)
  obtain s' where s': "deactivate_filesystem_binding demo_env 8 ''file_missing'' ''f.md'' demo_store = Inr s'"
      "s' = demo_store\<lparr>st_bindings := st_bindings s'\<rparr>"
      "\<And>st i. chunk_visible s' st i \<longleftrightarrow> (\<exists>r \<in> set (prov_rows st demo_store). pr_chunk_id r = i \<and> active_row demo_store r
        \<and> (pr_namespace r, pr_document_ref r) \<noteq> (''filesystem'', ev_resolve demo_env ''f.md''))"
    using deactivate_hides_and_retains [OF demo_store_ok, of 8 "''file_missing''" "''f.md''"]
    unfolding s by (elim exE conjE) (rule that, assumption, assumption, simp only:)
  have "chunk_visible s' ''a'' ''x''"
    unfolding s'(3) by (rule bexI [OF _ row])
      (auto simp: act written_row_def demo_file_def demo_env_def)
  moreover have "\<not> chunk_visible s' ''a'' ''y''"
    unfolding s'(3) using all by (auto simp: demo_env_def)
  ultimately show ?thesis using s'(1,2) by blast
qed

theorem purge_orphaned_files_spec_witness:
  "\<exists>s'. purge_orphaned_files demo_env 8 None demo_pipeline = ((1, 0, 0), demo_pipeline\<lparr>pp_store := s'\<rparr>)
    \<and> \<not> is_resource_binding_active s' ''filesystem'' ''g.md''"
proof -
  have rows: "holder_rows st (pp_store demo_pipeline) = (if st = ''a'' then sample_holders else [])" for st
    by (auto simp: holder_rows_def m2m_table_def demo_pipeline_def demo_store_def sample_store_def)
  have held: "(\<exists>st. \<exists>m \<in> set (holder_rows st (pp_store demo_pipeline)). mm_file_path m = f) \<longleftrightarrow>
      (\<exists>m \<in> set sample_holders. mm_file_path m = f)" for f
    unfolding rows by (rule iffI, force split: if_splits, rule exI [of _ "''a''"], simp)
  have missing: "missing_paths demo_env None (pp_store demo_pipeline) = {''g.md''}"
    unfolding missing_paths_def held by (auto simp: demo_env_def sample_holders_def)
  obtain s' where "purge_orphaned_files demo_env 8 None demo_pipeline =
      ((card {''g.md''}, 0, 0), demo_pipeline\<lparr>pp_store := s'\<rparr>)"
    and "\<forall>f \<in> {''g.md''}. \<not> is_resource_binding_active s' ''filesystem'' (ev_resolve demo_env f)
         \<and> (''filesystem'', ev_resolve demo_env f) \<in> binding_key ` set (st_bindings s')"
    using purge_orphaned_files_spec [OF demo_store_ok, of 8 None] unfolding missing
    by (elim exE conjE) (rule that)
  then show ?thesis by (intro exI [of _ s']) (simp add: demo_env_def)
qed

theorem deactivate_rebind_roundtrip_witness:
  "\<exists>s1 p2. deactivate_filesystem_binding demo_env 8 ''file_missing'' ''f.md'' demo_store = Inr s1
    \<and> \<not> is_resource_binding_active s1 ''filesystem'' ''f.md''
    \<and> fst (rebind_retained_filesystem_document demo_env 9 (demo_file ''f.md'') (demo_pipeline\<lparr>pp_store := s1\<rparr>)) =
        Inr \<lparr>rd_rebound = 1, rd_reused_chunks = 2, rd_reused_embeddings = 0, rd_retained_hidden = 2\<rparr>"
proof -
  have s: "pp_store demo_pipeline = demo_store" by (simp add: demo_pipeline_def)
  have indexed: "file_indexed demo_env (demo_file ''f.md'') ''f.md'' (pp_store demo_pipeline)"
    unfolding s file_indexed_def holder_rows_def prov_rows_def
    by (simp add: m2m_table_def prov_table_def has_holders_def is_resource_binding_active_def
        demo_pipeline_defs store_keys)
  have disk: "ev_resolve demo_env ''f.md'' = ''f.md''" "ev_chunk_files demo_env ''f.md'' \<noteq> None"
    and st: "ev_strategy demo_env = ''a''"
    by (simp_all add: demo_env_def)
  have two: "length (filter (\<lambda>m. mm_file_path m = ''f.md'') sample_holders) = 2"
    by (simp add: sample_holders_def)
  show ?thesis
    using deactivate_rebind_roundtrip [OF demo_store_ok indexed disk(2), where now = 8 and reason = "''file_missing''" and now' = 9]
    unfolding st disk(1) demo_rows(1) two unfolding s by fastforce
qed

end
