(* ===== verification/Reader_Laws.thy ===== *)
theory Reader_Laws
  imports Reader Chunking_Laws
begin

text \<open>
  Discovery: pruning excluded directories while walking loses nothing the filter on paths
  would keep, every indexable file is found exactly once, and one malformed file ends the
  discovery of all.
\<close>

section \<open>Paths and their components\<close>

lemma split_on_append_sep: "split_on c (xs @ c # ys) = split_on c xs @ split_on c ys"
proof (induction xs)
  case Nil
  then show ?case by simp
next
  case (Cons x xs)
  have "split_on c xs \<noteq> []" by (cases xs) (auto split: list.splits)
  with Cons show ?case by (auto split: list.splits)
qed

lemma split_on_none: "c \<notin> set xs \<Longrightarrow> split_on c xs = [xs]"
  by (induction xs) auto

definition name_ok :: "string \<Rightarrow> bool" where
  "name_ok n \<longleftrightarrow> n \<noteq> [] \<and> CHR ''/'' \<notin> set n"

lemma filter_split_trailing:
  "filter (\<lambda>s. s \<noteq> []) (split_on c (xs @ [c])) = filter (\<lambda>s. s \<noteq> []) (split_on c xs)"
  using split_on_append_sep [of c xs "[]"] by simp

lemma path_parts_join:
  assumes "name_ok n" and "dir \<noteq> []"
  shows "path_parts (join_path dir n) = path_parts dir @ [n]"
proof -
  have n: "split_on (CHR ''/'') n = [n]" "n \<noteq> []" using assms(1) by (simp_all add: name_ok_def split_on_none)
  have start: "py_startswith (dir @ x) ''/'' = py_startswith dir ''/''" for x
    using assms(2) by (cases dir) (simp_all add: py_startswith_def)
  show ?thesis
  proof (cases "last dir = CHR ''/''")
    case True
    then obtain d where d: "dir = d @ [CHR ''/'']" using assms(2) by (metis append_butlast_last_id)
    then show ?thesis
      using n start [of n] split_on_append_sep [of "CHR ''/''" d n] filter_split_trailing [of "CHR ''/''" d]
      by (simp add: path_parts_def join_path_def)
  next
    case False
    then show ?thesis
      using n start [of "CHR ''/'' # n"] split_on_append_sep [of "CHR ''/''" dir n]
      by (simp add: path_parts_def join_path_def)
  qed
qed

lemma join_path_nonempty: "name_ok n \<Longrightarrow> join_path dir n \<noteq> []"
  by (simp add: join_path_def name_ok_def)

section \<open>Pruning\<close>

fun wf_entries :: "(string \<times> entry) list \<Rightarrow> bool" where
  "wf_entries entries = list_all (\<lambda>(name, e). name_ok name \<and>
     (case e of FileEntry \<Rightarrow> True | DirEntry sub \<Rightarrow> wf_entries sub)) entries"

declare walk.simps [simp del] wf_entries.simps [simp del]

definition md_files :: "string \<Rightarrow> (string \<times> entry) list \<Rightarrow> string set" where
  "md_files dir entries = {p. \<exists>name. (name, FileEntry) \<in> set entries \<and> py_endswith name ''.md'' \<and> p = join_path dir name}"

lemma walk_cases:
  "p \<in> set (walk ex dir entries) \<longleftrightarrow> p \<in> md_files dir entries
     \<or> (\<exists>name sub. (name, DirEntry sub) \<in> set entries \<and> name \<notin> set ex \<and> p \<in> set (walk ex (join_path dir name) sub))"
proof -
  have is_file: "(case e of FileEntry \<Rightarrow> True | DirEntry _ \<Rightarrow> False) = (e = FileEntry)" for e
    by (cases e) auto
  have files: "set (map (\<lambda>(name, _). join_path dir name)
       (filter (\<lambda>(name, e). (case e of FileEntry \<Rightarrow> True | DirEntry _ \<Rightarrow> False) \<and> py_endswith name ''.md'') entries))
      = md_files dir entries"
    unfolding is_file by (auto simp: md_files_def)
  have sub: "p \<in> set (case x of (name, e) \<Rightarrow> (case e of FileEntry \<Rightarrow> []
        | DirEntry sub \<Rightarrow> if name \<in> set ex then [] else walk ex (join_path dir name) sub))
      \<longleftrightarrow> (\<exists>name sub. x = (name, DirEntry sub) \<and> name \<notin> set ex \<and> p \<in> set (walk ex (join_path dir name) sub))" for x
    by (cases x) (auto split: entry.splits)
  have "p \<in> set (walk ex dir entries) \<longleftrightarrow> p \<in> md_files dir entries \<or> (\<exists>x \<in> set entries.
      \<exists>name sub. x = (name, DirEntry sub) \<and> name \<notin> set ex \<and> p \<in> set (walk ex (join_path dir name) sub))"
    unfolding walk.simps [of ex dir entries] set_append Un_iff files set_concat
    unfolding set_map UN_iff bex_simps sub ..
  then show ?thesis by blast
qed

lemma walk_induct:
  assumes "\<And>dir entries. (\<And>name sub. (name, DirEntry sub) \<in> set entries \<Longrightarrow> P (join_path dir name) sub) \<Longrightarrow> P dir entries"
  shows "P dir entries"
proof -
  have "case e of FileEntry \<Rightarrow> True | DirEntry sub \<Rightarrow> (\<forall>dir. P dir sub)" for e
  proof (induction e)
    case FileEntry
    then show ?case by simp
  next
    case (DirEntry sub)
    have "P dir sub" for dir
    proof (rule assms)
      fix name sub'
      assume "(name, DirEntry sub') \<in> set sub"
      with DirEntry [of "(name, DirEntry sub')" "DirEntry sub'"] show "P (join_path dir name) sub'" by simp
    qed
    then show ?case by simp
  qed
  from this [of "DirEntry entries"] show ?thesis by simp
qed

lemma wf_entries_in:
  "wf_entries entries \<Longrightarrow> (name, e) \<in> set entries \<Longrightarrow> name_ok name"
  "wf_entries entries \<Longrightarrow> (name, DirEntry sub) \<in> set entries \<Longrightarrow> wf_entries sub"
  by (subst (asm) wf_entries.simps, force simp: list_all_iff)+

lemma md_file_parts:
  "p \<in> md_files dir entries \<Longrightarrow> wf_entries entries \<Longrightarrow> dir \<noteq> [] \<Longrightarrow> \<exists>rest. path_parts p = path_parts dir @ rest"
  using wf_entries_in(1) path_parts_join by (fastforce simp: md_files_def)

lemma walk_prefix:
  "wf_entries entries \<Longrightarrow> dir \<noteq> [] \<Longrightarrow> p \<in> set (walk ex dir entries) \<Longrightarrow>
     \<exists>rest. path_parts p = path_parts dir @ rest"
proof (induction dir entries rule: walk_induct)
  case (1 dir entries)
  from walk_cases [of p ex dir entries, THEN iffD1, OF 1(4)] show ?case
  proof
    assume "p \<in> md_files dir entries"
    with 1(2,3) show ?thesis by (rule md_file_parts [rotated])
  next
    assume "\<exists>name sub. (name, DirEntry sub) \<in> set entries \<and> name \<notin> set ex \<and> p \<in> set (walk ex (join_path dir name) sub)"
    then obtain name sub where sub: "(name, DirEntry sub) \<in> set entries" "p \<in> set (walk ex (join_path dir name) sub)"
      by blast
    then have ok: "name_ok name" "wf_entries sub" using wf_entries_in [OF 1(2) sub(1)] wf_entries_in(2) [OF 1(2)] by blast+
    obtain rest where "path_parts p = path_parts (join_path dir name) @ rest"
      using 1(1) [of name sub] sub ok join_path_nonempty [OF ok(1)] by blast
    with path_parts_join [OF ok(1) 1(3)] show ?thesis by simp
  qed
qed

lemma walk_pruned:
  "wf_entries entries \<Longrightarrow> dir \<noteq> [] \<Longrightarrow>
     {p \<in> set (walk ex dir entries). \<not> is_excluded p ex} = {p \<in> set (walk [] dir entries). \<not> is_excluded p ex}"
proof (induction dir entries rule: walk_induct)
  case (1 dir entries)
  have ok: "name_ok name" "wf_entries sub" if "(name, DirEntry sub) \<in> set entries" for name sub
    using wf_entries_in [OF 1(2) that] wf_entries_in(2) [OF 1(2)] that by blast+
  have sub: "p \<in> set (walk ex (join_path dir name) sub) \<longleftrightarrow> p \<in> set (walk [] (join_path dir name) sub)"
    if "(name, DirEntry sub) \<in> set entries" "\<not> is_excluded p ex" for p name sub
    using 1(1) [OF that(1) ok(2) [OF that(1)] join_path_nonempty [OF ok(1) [OF that(1)]]] that(2) by blast
  have cut: "is_excluded p ex"
    if h: "(name, DirEntry sub) \<in> set entries" "name \<in> set ex" "p \<in> set (walk [] (join_path dir name) sub)"
    for p name sub
  proof -
    note names = ok [OF h(1)]
    obtain rest where "path_parts p = path_parts (join_path dir name) @ rest"
      using walk_prefix [OF names(2) join_path_nonempty [OF names(1)] h(3)] by blast
    then have "name \<in> set (path_parts p)" using path_parts_join [OF names(1) 1(3)] by simp
    with h(2) show ?thesis by (auto simp: is_excluded_def)
  qed
  have "p \<in> set (walk ex dir entries) \<longleftrightarrow> p \<in> set (walk [] dir entries)" if "\<not> is_excluded p ex" for p
    using walk_cases [of p ex dir entries] walk_cases [of p "[]" dir entries] sub [OF _ that] cut that
    by (metis empty_iff list.set(1))
  then show ?case by blast
qed

section \<open>Collecting files\<close>

definition visited :: "string list \<Rightarrow> (string \<Rightarrow> (string \<times> entry) list option) \<Rightarrow> string list \<Rightarrow> string list" where
  "visited ex tree paths = concat (map (\<lambda>dir. case tree dir of None \<Rightarrow> [] | Some es \<Rightarrow> walk ex dir es) paths)"

lemma add_files_append:
  "add_files resolve yaml d ex (xs @ ys) seen results =
     try_bind (add_files resolve yaml d ex xs seen results)
       (\<lambda>(seen, results). add_files resolve yaml d ex ys seen results)"
proof (induction xs arbitrary: seen results)
  case Nil
  then show ?case by simp
next
  case (Cons x xs)
  then show ?case
    by (cases "file_info_from_path yaml d x") (auto split: option.splits)
qed

lemma collect_is_add:
  "collect_directories resolve yaml d tree ex paths seen results =
     add_files resolve yaml d ex (visited ex tree paths) seen results"
proof (induction paths arbitrary: seen results)
  case Nil
  then show ?case by (simp add: visited_def)
next
  case (Cons dir dirs)
  show ?case
  proof (cases "tree dir")
    case None
    with Cons show ?thesis by (simp add: visited_def)
  next
    case (Some es)
    have "visited ex tree (dir # dirs) = walk ex dir es @ visited ex tree dirs"
      using Some by (simp add: visited_def)
    moreover have "collect_directories resolve yaml d tree ex dirs =
        add_files resolve yaml d ex (visited ex tree dirs)"
      by (intro ext) (rule Cons.IH)
    ultimately show ?thesis using Some by (simp add: add_files_append)
  qed
qed

lemma file_info_path: "file_info_from_path yaml d p = Inr (Some fi) \<Longrightarrow> fi_path fi = p"
  by (auto simp: file_info_from_path_def make_file_info_def try_bind_Inr_iff
      split: option.splits if_splits sum.splits prod.splits json.splits)

abbreviation indexable :: "(string \<Rightarrow> yaml_result) \<Rightarrow> disk \<Rightarrow> string list \<Rightarrow> string \<Rightarrow> bool" where
  "indexable yaml d ex p \<equiv> \<not> is_excluded p ex \<and> (\<exists>fi. file_info_from_path yaml d p = Inr (Some fi))"

lemma add_files_result:
  assumes "add_files resolve yaml d ex ps seen results = Inr (seen', results')"
  shows "\<exists>new. results' = results @ new \<and> seen' = rev (map (\<lambda>fi. resolve (fi_path fi)) new) @ seen
    \<and> (distinct seen \<longrightarrow> distinct seen')
    \<and> (\<forall>fi \<in> set new. file_info_from_path yaml d (fi_path fi) = Inr (Some fi) \<and> fi_path fi \<in> set ps
         \<and> \<not> is_excluded (fi_path fi) ex)
    \<and> (\<forall>p \<in> set ps. indexable yaml d ex p \<longrightarrow> resolve p \<in> set seen')"
  using assms
proof (induction ps arbitrary: seen results)
  case Nil
  then show ?case by simp
next
  case (Cons p ps)
  show ?case
  proof (cases "resolve p \<in> set seen \<or> is_excluded p ex")
    case True
    then have "add_files resolve yaml d ex ps seen results = Inr (seen', results')" using Cons.prems by simp
    from Cons.IH [OF this] obtain new where "results' = results @ new"
      "seen' = rev (map (\<lambda>fi. resolve (fi_path fi)) new) @ seen" "distinct seen \<longrightarrow> distinct seen'"
      "\<forall>fi \<in> set new. file_info_from_path yaml d (fi_path fi) = Inr (Some fi) \<and> fi_path fi \<in> set ps
         \<and> \<not> is_excluded (fi_path fi) ex" "\<forall>p \<in> set ps. indexable yaml d ex p \<longrightarrow> resolve p \<in> set seen'"
      by blast
    with True show ?thesis by (intro exI [of _ new]) auto
  next
    case False
    then obtain info where info: "file_info_from_path yaml d p = Inr info"
      using Cons.prems by (cases "file_info_from_path yaml d p") auto
    show ?thesis
    proof (cases info)
      case None
      with False info have "add_files resolve yaml d ex ps seen results = Inr (seen', results')"
        using Cons.prems by simp
      from Cons.IH [OF this] obtain new where "results' = results @ new"
        "seen' = rev (map (\<lambda>fi. resolve (fi_path fi)) new) @ seen" "distinct seen \<longrightarrow> distinct seen'"
        "\<forall>fi \<in> set new. file_info_from_path yaml d (fi_path fi) = Inr (Some fi) \<and> fi_path fi \<in> set ps
           \<and> \<not> is_excluded (fi_path fi) ex" "\<forall>p \<in> set ps. indexable yaml d ex p \<longrightarrow> resolve p \<in> set seen'"
        by blast
      with info None show ?thesis by (intro exI [of _ new]) auto
    next
      case (Some fi)
      have path: "fi_path fi = p" using info Some file_info_path by simp
      from False info Some have "add_files resolve yaml d ex ps (resolve p # seen) (results @ [fi]) = Inr (seen', results')"
        using Cons.prems by simp
      from Cons.IH [OF this] obtain new where new: "results' = (results @ [fi]) @ new"
        "seen' = rev (map (\<lambda>fi. resolve (fi_path fi)) new) @ resolve p # seen"
        "distinct (resolve p # seen) \<longrightarrow> distinct seen'"
        "\<forall>fi \<in> set new. file_info_from_path yaml d (fi_path fi) = Inr (Some fi) \<and> fi_path fi \<in> set ps
           \<and> \<not> is_excluded (fi_path fi) ex" "\<forall>p \<in> set ps. indexable yaml d ex p \<longrightarrow> resolve p \<in> set seen'"
        by blast
      with False info Some path show ?thesis by (intro exI [of _ "fi # new"]) auto
    qed
  qed
qed

definition dirs_ok :: "(string \<Rightarrow> (string \<times> entry) list option) \<Rightarrow> string list \<Rightarrow> bool" where
  "dirs_ok tree paths =
     list_all (\<lambda>dir. dir \<noteq> [] \<and> (case tree dir of None \<Rightarrow> True | Some es \<Rightarrow> wf_entries es)) paths"

lemma visited_pruned:
  assumes "dirs_ok tree paths" and "\<not> is_excluded p ex"
  shows "p \<in> set (visited ex tree paths) \<longleftrightarrow> p \<in> set (visited [] tree paths)"
proof -
  have "p \<in> set (case tree dir of None \<Rightarrow> [] | Some es \<Rightarrow> walk ex dir es) \<longleftrightarrow>
      p \<in> set (case tree dir of None \<Rightarrow> [] | Some es \<Rightarrow> walk [] dir es)" if "dir \<in> set paths" for dir
  proof (cases "tree dir")
    case None
    then show ?thesis by simp
  next
    case (Some es)
    with assms(1) that have "wf_entries es" "dir \<noteq> []" by (auto simp: dirs_ok_def list_all_iff)
    from walk_pruned [OF this, of ex] assms(2) Some show ?thesis by auto
  qed
  then show ?thesis by (simp add: visited_def)
qed

text \<open>
  Discovery finds every markdown file under the given directories exactly once.  The
  result is sorted by path components, holds one file per resolved path, and consists of
  readable, non-empty files no component of whose path is excluded; and every such file of
  the trees is represented, although excluded directories are never entered.
\<close>

theorem discover_files_multi_spec:
  assumes "discover_files_multi resolve yaml d tree paths exclude = Inr fis" and "dirs_ok tree paths"
  shows "sorted (map (\<lambda>fi. path_parts (fi_path fi)) fis) \<and> distinct (map (\<lambda>fi. resolve (fi_path fi)) fis)
    \<and> (\<forall>fi \<in> set fis. file_info_from_path yaml d (fi_path fi) = Inr (Some fi)
        \<and> fi_path fi \<in> set (visited [] tree paths) \<and> \<not> is_excluded (fi_path fi) (extract_exclude_names exclude))
    \<and> (\<forall>p \<in> set (visited [] tree paths). indexable yaml d (extract_exclude_names exclude) p \<longrightarrow>
        (\<exists>fi \<in> set fis. resolve (fi_path fi) = resolve p))"
proof -
  let ?ex = "extract_exclude_names exclude"
  obtain seen new where run: "add_files resolve yaml d ?ex (visited ?ex tree paths) [] [] = Inr (seen, new)"
    and fis: "fis = sort_key (\<lambda>fi. path_parts (fi_path fi)) new"
    using assms(1) by (auto simp: discover_files_multi_def collect_is_add try_bind_Inr_iff)
  have new: "seen = rev (map (\<lambda>fi. resolve (fi_path fi)) new)" "distinct seen"
    "\<forall>fi \<in> set new. file_info_from_path yaml d (fi_path fi) = Inr (Some fi) \<and> fi_path fi \<in> set (visited ?ex tree paths)
         \<and> \<not> is_excluded (fi_path fi) ?ex"
    "\<forall>p \<in> set (visited ?ex tree paths). indexable yaml d ?ex p \<longrightarrow> resolve p \<in> set seen"
    using add_files_result [OF run] by auto
  have "mset (map (\<lambda>fi. resolve (fi_path fi)) fis) = mset (map (\<lambda>fi. resolve (fi_path fi)) new)"
    by (simp add: fis)
  then have "distinct (map (\<lambda>fi. resolve (fi_path fi)) fis)"
    using new(1,2) mset_eq_imp_distinct_iff by (metis distinct_rev)
  moreover have "set fis = set new" by (simp add: fis)
  moreover have "sorted (map (\<lambda>fi. path_parts (fi_path fi)) fis)" by (simp add: fis)
  moreover have "\<exists>fi \<in> set new. resolve (fi_path fi) = resolve p"
    if "p \<in> set (visited [] tree paths)" "indexable yaml d ?ex p" for p
  proof -
    have "p \<in> set (visited ?ex tree paths)" using that visited_pruned [OF assms(2)] by blast
    with new(4) that(2) have "resolve p \<in> set seen" by blast
    then show ?thesis by (auto simp: new(1))
  qed
  moreover have "fi_path fi \<in> set (visited [] tree paths)" if "fi \<in> set new" for fi
    using that new(3) visited_pruned [OF assms(2)] by blast
  ultimately show ?thesis using new(3) by blast
qed

lemma add_files_raises:
  assumes "p \<in> set ps" and "\<not> is_excluded p ex" and "file_info_from_path yaml d p = Inl e"
    and "inj_on resolve (set ps \<union> S)" and "p \<notin> S" and "set seen \<subseteq> resolve ` S"
  shows "\<exists>e'. add_files resolve yaml d ex ps seen results = Inl e'"
  using assms
proof (induction ps arbitrary: seen results S)
  case Nil
  then show ?case by simp
next
  case (Cons q ps)
  show ?case
  proof (cases "q = p")
    case True
    have "resolve p \<notin> set seen"
      using Cons.prems(4,5,6) True by (auto simp: inj_on_def)
    with True Cons.prems show ?thesis by simp
  next
    case False
    then have "p \<in> set ps" using Cons.prems(1) by simp
    have inj: "inj_on resolve (set ps \<union> insert q S)" using Cons.prems(4) by (simp add: insert_commute)
    have IH: "\<exists>e'. add_files resolve yaml d ex ps seen' results' = Inl e'" if "set seen' \<subseteq> resolve ` insert q S"
      for seen' results'
      using Cons.IH [OF \<open>p \<in> set ps\<close> Cons.prems(2,3) inj _ that] Cons.prems(5) False by blast
    show ?thesis
    proof (cases "file_info_from_path yaml d q")
      case (Inr info)
      have "set seen \<subseteq> resolve ` insert q S" "set (resolve q # seen) \<subseteq> resolve ` insert q S"
        using Cons.prems(6) by auto
      with IH Inr show ?thesis by (cases info) auto
    next
      case (Inl e')
      with IH [of seen results] Cons.prems(6) show ?thesis by auto
    qed
  qed
qed

text \<open>
  One malformed file ends the discovery of all: if some markdown file that is not
  excluded is not valid UTF-8, or declares a \<open>kind\<close> that is not a string, the whole
  discovery raises instead of skipping it.
\<close>

theorem discovery_aborts:
  assumes "dirs_ok tree paths" and "inj_on resolve (set (visited (extract_exclude_names exclude) tree paths))"
    and "p \<in> set (visited [] tree paths)" and "\<not> is_excluded p (extract_exclude_names exclude)"
    and "d p = Some f" and "path_suffix p = ''.md''" and "df_size f \<noteq> 0"
    and "case df_content f of None \<Rightarrow> True
      | Some content \<Rightarrow> case kind_of (fst (parse_frontmatter yaml content)) of JStr _ \<Rightarrow> False | _ \<Rightarrow> True"
  shows "\<exists>e. discover_files_multi resolve yaml d tree paths exclude = Inl e"
proof -
  let ?ex = "extract_exclude_names exclude"
  have "\<exists>e. file_info_from_path yaml d p = Inl e"
    using assms(5-8) by (auto simp: file_info_from_path_def read_file_def is_os_error_def make_file_info_def
        split: option.splits json.splits prod.splits)
  then obtain e where "file_info_from_path yaml d p = Inl e" by blast
  moreover have "p \<in> set (visited ?ex tree paths)" using assms(3) visited_pruned [OF assms(1,4)] by blast
  ultimately have "\<exists>e'. add_files resolve yaml d ?ex (visited ?ex tree paths) [] [] = Inl e'"
    using add_files_raises [of p "visited ?ex tree paths" ?ex yaml d e resolve "{}" "[]"] assms(2,4) by auto
  then show ?thesis by (auto simp: discover_files_multi_def collect_is_add)
qed

section \<open>A concrete tree\<close>

definition demo_tree :: "string \<Rightarrow> (string \<times> entry) list option" where
  "demo_tree dir = (if dir = ''/n'' then Some [(''b.md'', FileEntry), (''.git'', DirEntry [(''c.md'', FileEntry)]),
     (''a.txt'', FileEntry), (''d'', DirEntry [(''a.md'', FileEntry)])] else None)"

definition demo_disk :: "string option \<Rightarrow> disk" where
  "demo_disk content path = (if path \<in> {''/n/b.md'', ''/n/d/a.md'', ''/n/.git/c.md''}
     then Some \<lparr>df_mtime = 1, df_size = 5, df_content = (if path = ''/n/b.md'' then content else Some ''text'')\<rparr>
     else None)"

definition demo_discovery :: "string option \<Rightarrow> py_error + file_info list" where
  "demo_discovery content = discover_files_multi (\<lambda>p. p) (\<lambda>_. YamlOther) (demo_disk content) demo_tree
     [''/n'', ''/gone''] [''**/.git'']"

lemma demo_walk:
  "dirs_ok demo_tree [''/n'', ''/gone'']"
  "visited [] demo_tree [''/n'', ''/gone''] = [''/n/b.md'', ''/n/.git/c.md'', ''/n/d/a.md'']"
  "visited [''.git''] demo_tree [''/n'', ''/gone''] = [''/n/b.md'', ''/n/d/a.md'']"
  by (simp add: dirs_ok_def demo_tree_def, subst wf_entries.simps, simp add: name_ok_def,
      subst wf_entries.simps, simp add: name_ok_def, subst wf_entries.simps, simp add: name_ok_def)
    (simp add: visited_def demo_tree_def, subst walk.simps, simp add: join_path_def py_endswith_def,
      (subst walk.simps, simp add: join_path_def py_endswith_def)+)+

lemma demo_names:
  "extract_exclude_names [''**/.git''] = [''.git'']"
  by (simp add: extract_exclude_names_def bare_pattern_def)

lemma demo_paths:
  "path_suffix ''/n/b.md'' = ''.md''" "path_suffix ''/n/d/a.md'' = ''.md''"
  "\<not> is_excluded ''/n/b.md'' [''.git'']" "\<not> is_excluded ''/n/d/a.md'' [''.git'']"
  by code_simp+

lemma demo_info:
  assumes "p \<in> {''/n/b.md'', ''/n/d/a.md''}"
  shows "\<exists>fi. file_info_from_path (\<lambda>_. YamlOther) (demo_disk (Some ''# Title'')) p = Inr (Some fi) \<and> fi_path fi = p"
proof -
  obtain f c where f: "demo_disk (Some ''# Title'') p = Some f" "df_size f \<noteq> 0" "df_content f = Some c" "path_suffix p = ''.md''"
    using assms demo_paths by (auto simp: demo_disk_def split: if_splits)
  have "snd (parse_frontmatter (\<lambda>_. YamlOther) c) = c" "fst (parse_frontmatter (\<lambda>_. YamlOther) c) = []"
    by (auto simp: parse_frontmatter_def split: option.splits)
  with f show ?thesis
    by (auto simp: file_info_from_path_def read_file_def make_file_info_def kind_of_def dict_get_default_def
        split: prod.splits)
qed

theorem discover_files_multi_spec_witness:
  "\<exists>fis. demo_discovery (Some ''# Title'') = Inr fis \<and> fi_path ` set fis = {''/n/b.md'', ''/n/d/a.md''}
    \<and> distinct (map (\<lambda>fi. fi_path fi) fis)"
proof -
  obtain a b where ab: "file_info_from_path (\<lambda>_. YamlOther) (demo_disk (Some ''# Title'')) ''/n/b.md'' = Inr (Some a)"
    "file_info_from_path (\<lambda>_. YamlOther) (demo_disk (Some ''# Title'')) ''/n/d/a.md'' = Inr (Some b)"
    "fi_path a = ''/n/b.md''" "fi_path b = ''/n/d/a.md''"
    using demo_info [of "''/n/b.md''"] demo_info [of "''/n/d/a.md''"] by auto
  then have run: "demo_discovery (Some ''# Title'') = Inr (sort_key (\<lambda>fi. path_parts (fi_path fi)) [a, b])"
    by (simp add: demo_discovery_def discover_files_multi_def collect_is_add demo_names demo_walk demo_paths)
  have "distinct (map (\<lambda>fi. fi_path fi) (sort_key (\<lambda>fi. path_parts (fi_path fi)) [a, b]))"
    using discover_files_multi_spec [OF run [unfolded demo_discovery_def] demo_walk(1)] by simp
  with run ab show ?thesis by (intro exI conjI) auto
qed

theorem discovery_aborts_witness: "\<exists>e. demo_discovery None = Inl e"
  unfolding demo_discovery_def
  by (rule discovery_aborts [OF demo_walk(1), where p = "''/n/b.md''"])
    (auto simp: demo_walk demo_names demo_paths demo_disk_def)

end
