(* ===== verification/Embedding_Laws.thy ===== *)
theory Embedding_Laws
  imports Embedding
begin

text \<open>
  The encoder adapts its batch size to the service without changing any vector, the
  component store reads back what it stored, and the three-layer lookup of chunk vectors
  agrees with encoding every chunk.
\<close>

section \<open>The remote service\<close>

text \<open>A service of capacity \<open>cap\<close>: it encodes batches up to that size text by text and
  refuses larger ones with status 413, as the text-embeddings server documents.\<close>

definition serves :: "(string list \<Rightarrow> http_result) \<Rightarrow> int \<Rightarrow> (string \<Rightarrow> rat list) \<Rightarrow> bool" where
  "serves post cap vec \<longleftrightarrow>
     1 \<le> cap \<and> (\<forall>ts. post ts = (if int (length ts) \<le> cap then Embeddings (map vec ts) else HttpStatus 413))"

lemma probe_result:
  assumes "serves post cap vec"
  shows "\<exists>k. probe_tei_batch_size post s n = Inr (max 1 (n div 2 ^ k)) \<and> max 1 (n div 2 ^ k) \<le> cap
    \<and> (\<forall>j < k. cap < n div 2 ^ j)"
proof (induction "nat n" arbitrary: n rule: less_induct)
  case less
  have post: "post ts = (if int (length ts) \<le> cap then Embeddings (map vec ts) else HttpStatus 413)" "1 \<le> cap" for ts
    using assms by (simp_all add: serves_def)
  show ?case
  proof (cases "n \<le> 1")
    case True
    then show ?thesis
      using post(2) by (intro exI [of _ 0]) (simp add: probe_tei_batch_size.simps [of post s n])
  next
    case False
    then have once: "probe_once post s n = Inr (n \<le> cap)" by (simp add: probe_once_def post)
    show ?thesis
    proof (cases "n \<le> cap")
      case True
      with False once show ?thesis
        by (intro exI [of _ 0]) (simp add: probe_tei_batch_size.simps [of post s n])
    next
      case big: False
      have "nat (n div 2) < nat n" using False by simp
      from less [OF this] obtain k where k: "probe_tei_batch_size post s (n div 2) = Inr (max 1 (n div 2 div 2 ^ k))"
        "max 1 (n div 2 div 2 ^ k) \<le> cap" "\<forall>j < k. cap < n div 2 div 2 ^ j" by blast
      have half: "n div 2 div 2 ^ j = n div 2 ^ Suc j" for j
        by (simp add: zdiv_zmult2_eq)
      have "cap < n div 2 ^ j" if "j < Suc k" for j
        using that k(3) big half by (cases j) auto
      with k big False once show ?thesis
        by (intro exI [of _ "Suc k"]) (simp add: probe_tei_batch_size.simps [of post s n] half)
    qed
  qed
qed

lemma encode_batches_served:
  assumes "serves post cap vec" and "list_all (\<lambda>b. int (length b) \<le> cap) bs"
  shows "encode_batches post bs = Inr (map vec (concat bs))"
  using assms(2)
proof (induction bs)
  case Nil
  then show ?case by simp
next
  case (Cons b bs)
  then show ?case using assms(1) by (simp add: serves_def raise_for_status_def)
qed

lemma encode_remote_batches_served:
  assumes "serves post cap vec" and "1 \<le> n" and "n \<le> cap"
  shows "encode_remote_batches post inputs n = Inr (map vec inputs)"
proof -
  have "list_all (\<lambda>b. int (length b) \<le> cap) (batches (nat n) inputs)"
    using assms(2,3) by (auto simp: list_all_iff dest!: batches_bounded)
  then show ?thesis
    using encode_batches_served [OF assms(1)] assms(2) by (simp add: encode_remote_batches_def concat_batches)
qed

definition fits_service :: "int \<Rightarrow> encoder \<Rightarrow> bool" where
  "fits_service cap e \<longleftrightarrow> ec_embedding_url e \<noteq> None
     \<and> (ec_tei_bs_probed e \<longrightarrow> 1 \<le> ec_tei_batch_size e \<and> ec_tei_batch_size e \<le> cap)"

lemma encode_batch_served:
  assumes "serves post cap vec" and "fits_service cap e"
  shows "\<exists>e'. encode_batch post local_model texts e = (Inr (map vec (format_passages e texts)), e')
    \<and> fits_service cap e' \<and> format_passages e' = format_passages e
    \<and> (if texts = [] \<or> ec_tei_bs_probed e then e' = e
       else ec_tei_bs_probed e' \<and> (\<exists>k. ec_tei_batch_size e' = max 1 (ec_tei_batch_size e div 2 ^ k)
         \<and> (\<forall>j < k. cap < ec_tei_batch_size e div 2 ^ j)))"
proof (cases "texts = []")
  case True
  with assms(2) show ?thesis by (simp add: encode_batch_def format_passages_def)
next
  case False
  let ?in = "format_passages e texts"
  have url: "ec_embedding_url e \<noteq> None" using assms(2) by (simp add: fits_service_def)
  show ?thesis
  proof (cases "ec_tei_bs_probed e")
    case True
    then show ?thesis
      using False assms url encode_remote_batches_served [OF assms(1), of "ec_tei_batch_size e"]
      by (simp add: encode_batch_def Let_def encode_remote_def fits_service_def)
  next
    case unprobed: False
    obtain k where k: "probe_tei_batch_size post (hd ?in) (ec_tei_batch_size e) = Inr (max 1 (ec_tei_batch_size e div 2 ^ k))"
      "max 1 (ec_tei_batch_size e div 2 ^ k) \<le> cap" "\<forall>j < k. cap < ec_tei_batch_size e div 2 ^ j"
      using probe_result [OF assms(1)] by blast
    have "?in \<noteq> []" using False by (simp add: format_passages_def)
    then have "encode_remote post ?in e = (encode_remote_batches post ?in (max 1 (ec_tei_batch_size e div 2 ^ k)),
        e\<lparr>ec_tei_batch_size := max 1 (ec_tei_batch_size e div 2 ^ k), ec_tei_bs_probed := True\<rparr>)"
      using unprobed k(1) by (cases ?in) (simp_all add: encode_remote_def)
    then show ?thesis
      using False url unprobed k encode_remote_batches_served [OF assms(1) _ k(2), of ?in]
      by (simp add: encode_batch_def Let_def fits_service_def format_passages_def fun_eq_iff) blast
  qed
qed

text \<open>
  The adaptive batch size never shows in the vectors.  Against a service that refuses
  batches above its capacity, every call of the encoder succeeds and returns the vector of
  each text, in order, whatever batch size it was configured with (also zero or negative
  ones); once probed, the batch size is the first halving of the configured one that fits,
  and it is not probed again.
\<close>

theorem encode_batch_adaptive:
  assumes "serves post cap vec" and "fits_service cap e"
  shows "\<exists>e'. encode_batch post local_model texts e = (Inr (map vec (format_passages e texts)), e')
    \<and> fits_service cap e' \<and> format_passages e' = format_passages e
    \<and> (if texts = [] \<or> ec_tei_bs_probed e then e' = e
       else ec_tei_bs_probed e' \<and> (\<exists>k. ec_tei_batch_size e' = max 1 (ec_tei_batch_size e div 2 ^ k)
         \<and> (\<forall>j < k. cap < ec_tei_batch_size e div 2 ^ j)))"
  by (rule encode_batch_served [OF assms])

section \<open>Component rows\<close>

definition components_ok :: "component_row list \<Rightarrow> bool" where
  "components_ok t \<longleftrightarrow> pk_ok component_key t \<and> list_all (\<lambda>r. unpack_words (cw_embedding r) \<noteq> None) t"

abbreviation component_vector :: "(32 word \<Rightarrow> rat) \<Rightarrow> component_row \<Rightarrow> rat list" where
  "component_vector dec r \<equiv> map dec (the (unpack_words (cw_embedding r)))"

lemma add_components_spec:
  assumes "list_all (\<lambda>r. unpack_words (cw_embedding r) \<noteq> None) rs" and "distinct (map cw_entity_id rs)"
  shows "\<exists>d. add_components dec rs result = Inr d \<and> dict_get d =
     dict_get result ++ (\<lambda>i. map_option (component_vector dec) (fetch_key cw_entity_id rs i))"
  using assms
proof (induction rs arbitrary: result)
  case Nil
  then show ?case by (simp add: map_add_def)
next
  case (Cons r rs)
  then obtain ws where ws: "unpack_words (cw_embedding r) = Some ws" by auto
  obtain d where d: "add_components dec rs (dict_set (cw_entity_id r) (map dec ws) result) = Inr d"
    "dict_get d = dict_get (dict_set (cw_entity_id r) (map dec ws) result) ++
       (\<lambda>i. map_option (component_vector dec) (fetch_key cw_entity_id rs i))"
    using Cons by fastforce
  have "fetch_key cw_entity_id rs (cw_entity_id r) = None"
    using Cons.prems(2) by (simp add: fetch_key_None_iff)
  with d ws show ?case by (auto simp: unpack_blob_def unpack_floats_def map_add_def)
qed

lemma component_key_iff: "component_key r = (i, c) \<longleftrightarrow> cw_entity_id r = i \<and> cw_component r = c"
  by (simp add: component_key_def)

lemma fetch_component:
  "fetch_key cw_entity_id (filter (\<lambda>r. cw_component r = c \<and> cw_entity_id r \<in> B) t) i =
     (if i \<in> B then fetch_key component_key t (i, c) else None)"
  by (induction t) (auto simp: component_key_iff)

lemma distinct_component_ids:
  "pk_ok component_key t \<Longrightarrow>
     distinct (map cw_entity_id (filter (\<lambda>r. cw_component r = c \<and> cw_entity_id r \<in> B) t))"
  unfolding pk_ok_def by (induction t) (auto simp: component_key_def)

lemma get_component_batches_spec:
  assumes "components_ok t"
  shows "\<exists>d. get_component_batches dec c t bs result = Inr d \<and> dict_get d = dict_get result ++
     (\<lambda>i. if i \<in> set (concat bs) then map_option (component_vector dec) (fetch_key component_key t (i, c)) else None)"
proof (induction bs arbitrary: result)
  case Nil
  then show ?case by (simp add: map_add_def)
next
  case (Cons b bs)
  let ?rs = "filter (\<lambda>r. cw_component r = c \<and> cw_entity_id r \<in> set b) t"
  let ?v = "\<lambda>i. map_option (component_vector dec) (fetch_key component_key t (i, c))"
  have "list_all (\<lambda>r. unpack_words (cw_embedding r) \<noteq> None) ?rs" "distinct (map cw_entity_id ?rs)"
    using assms distinct_component_ids by (auto simp: components_ok_def list_all_iff)
  then obtain d where d: "add_components dec ?rs result = Inr d"
    "dict_get d = dict_get result ++ (\<lambda>i. if i \<in> set b then ?v i else None)"
    using add_components_spec [of ?rs dec result] by (auto simp: fetch_component if_distrib cong: if_cong)
  from Cons.IH [of d] obtain d' where d': "get_component_batches dec c t bs d = Inr d'"
    "dict_get d' = dict_get d ++ (\<lambda>i. if i \<in> set (concat bs) then ?v i else None)" by blast
  have "dict_get d' = dict_get result ++ (\<lambda>i. if i \<in> set (concat (b # bs)) then ?v i else None)"
    unfolding d'(2) d(2) by (rule ext) (simp add: map_add_def split: option.splits)
  with d(1) d'(1) show ?case by simp
qed

lemma component_get_batch_spec:
  assumes "components_ok t"
  shows "\<exists>d. component_get_batch dec ids c t = Inr d \<and> (\<forall>i. dict_get d i =
     (if i \<in> set ids then map_option (component_vector dec) (fetch_key component_key t (i, c)) else None))"
  using get_component_batches_spec [OF assms, of dec c "batches CACHE_BATCH ids" "[]"]
  by (auto simp: component_get_batch_def concat_batches CACHE_BATCH_def map_add_def)

lemma component_store_ok:
  assumes "components_ok t" and "component_store enc i c v t = Inr t'"
  shows "components_ok t' \<and> fetch_key component_key t' k =
    (if k = (i, c) then Some \<lparr>cw_entity_id = i, cw_component = c,
        cw_embedding = (case pack_floats enc v of Inr blob \<Rightarrow> blob | Inl _ \<Rightarrow> [])\<rparr>
     else fetch_key component_key t k)"
proof -
  obtain blob where blob: "pack_floats enc v = Inr blob"
    and t': "t' = insert_or_replace component_key \<lparr>cw_entity_id = i, cw_component = c, cw_embedding = blob\<rparr> t"
    using assms(2) by (auto simp: component_store_def try_bind_Inr_iff)
  have "pk_ok component_key t'" unfolding t' using assms(1) by (intro pk_ok_insert_or_replace) (simp add: components_ok_def)
  moreover have "list_all (\<lambda>r. unpack_words (cw_embedding r) \<noteq> None) t'"
    using assms(1) unpack_pack [OF blob] by (auto simp: t' components_ok_def list_all_iff insert_or_replace_def)
  ultimately show ?thesis using blob by (simp add: components_ok_def t' sql_simps component_key_def)
qed

lemma delete_component_batches_result:
  "delete_component_batches bs n t =
     (n + (length t - length (delete_where (\<lambda>r. cw_entity_id r \<in> set (concat bs)) t)),
      delete_where (\<lambda>r. cw_entity_id r \<in> set (concat bs)) t)"
proof (induction bs arbitrary: n t)
  case Nil
  then show ?case by (simp add: delete_where_def)
next
  case (Cons b bs)
  have twice: "delete_where (\<lambda>r. cw_entity_id r \<in> set (concat bs)) (delete_where (\<lambda>r. cw_entity_id r \<in> set b) t) =
      delete_where (\<lambda>r. cw_entity_id r \<in> set (concat (b # bs))) t"
    by (simp add: delete_where_def)
  have "length (delete_where P t) \<le> length t" for P and t :: "component_row list"
    by (simp add: delete_where_def)
  note shorter = this [of _ t] this [of _ "delete_where (\<lambda>r. cw_entity_id r \<in> set b) t"]
  show ?case
    using shorter(1) [of "\<lambda>r. cw_entity_id r \<in> set b"] shorter(2) [of "\<lambda>r. cw_entity_id r \<in> set (concat bs)"]
    by (simp only: delete_component_batches.simps Let_def Cons.IH twice prod.inject) simp
qed

text \<open>
  C24: The component store is a map from entity and component to vectors, kept as binary32:
  storing succeeds exactly when every number fits, a batch read then gives the rounded
  vector for that entity and component and the old ones for all others, however the ids are
  batched; deleting removes exactly the rows of the given entities and returns their number.
\<close>

theorem component_store_spec:
  assumes "components_ok t"
  shows "(\<exists>t'. component_store enc i c v t = Inr t') = (\<forall>x \<in> set v. enc x \<noteq> None)
    \<and> (\<forall>t'. component_store enc i c v t = Inr t' \<longrightarrow> components_ok t'
        \<and> (\<forall>ids c'. \<exists>d d'. component_get_batch dec ids c' t = Inr d \<and> component_get_batch dec ids c' t' = Inr d'
            \<and> (\<forall>k. dict_get d' k = (if k = i \<and> c' = c \<and> k \<in> set ids then Some (map (dec \<circ> the \<circ> enc) v)
                 else dict_get d k))))
    \<and> component_delete ids t = (length (filter (\<lambda>r. cw_entity_id r \<in> set ids) t),
        filter (\<lambda>r. cw_entity_id r \<notin> set ids) t)"
proof (intro conjI allI impI)
  show "(\<exists>t'. component_store enc i c v t = Inr t') = (\<forall>x \<in> set v. enc x \<noteq> None)"
    unfolding pack_floats_total [symmetric] by (auto simp: component_store_def try_bind_Inr_iff)
next
  fix t' assume "component_store enc i c v t = Inr t'"
  then show "components_ok t'" using component_store_ok [OF assms] by blast
next
  fix t' ids c' assume st: "component_store enc i c v t = Inr t'"
  then obtain blob where blob: "pack_floats enc v = Inr blob" by (auto simp: component_store_def try_bind_Inr_iff)
  have ok': "components_ok t'" using component_store_ok [OF assms st] by blast
  obtain d d' where dd: "component_get_batch dec ids c' t = Inr d" "component_get_batch dec ids c' t' = Inr d'"
    and get: "\<forall>k. dict_get d k = (if k \<in> set ids then map_option (component_vector dec) (fetch_key component_key t (k, c')) else None)"
      "\<forall>k. dict_get d' k = (if k \<in> set ids then map_option (component_vector dec) (fetch_key component_key t' (k, c')) else None)"
    using component_get_batch_spec [OF assms, of dec ids c'] component_get_batch_spec [OF ok', of dec ids c'] by blast
  have "dict_get d' k = (if k = i \<and> c' = c \<and> k \<in> set ids then Some (map (dec \<circ> the \<circ> enc) v) else dict_get d k)" for k
    using component_store_ok [OF assms st] unpack_pack [OF blob] by (simp add: get blob o_assoc)
  with dd show "\<exists>d d'. component_get_batch dec ids c' t = Inr d \<and> component_get_batch dec ids c' t' = Inr d'
            \<and> (\<forall>k. dict_get d' k = (if k = i \<and> c' = c \<and> k \<in> set ids then Some (map (dec \<circ> the \<circ> enc) v)
                 else dict_get d k))" by blast
next
  have "length t - length (filter (\<lambda>r. cw_entity_id r \<notin> set ids) t) = length (filter (\<lambda>r. cw_entity_id r \<in> set ids) t)"
    using sum_length_filter_compl [of "\<lambda>r. cw_entity_id r \<in> set ids" t] by linarith
  then show "component_delete ids t = (length (filter (\<lambda>r. cw_entity_id r \<in> set ids) t),
        filter (\<lambda>r. cw_entity_id r \<notin> set ids) t)"
    by (simp add: component_delete_def delete_component_batches_result concat_batches CACHE_BATCH_def delete_where_def)
qed

section \<open>The three layers\<close>

text \<open>The vector of a chunk's text, and what is left of it after packing as binary32.\<close>

definition chunk_vector :: "(string \<Rightarrow> rat list) \<Rightarrow> encoder \<Rightarrow> chunk \<Rightarrow> rat list" where
  "chunk_vector vec e c = vec (if ec_use_prefix e then ''passage: '' @ ch_text c else ch_text c)"

definition packed :: "embedding_env \<Rightarrow> rat list \<Rightarrow> rat list" where
  "packed env v = map (em_dec env \<circ> the \<circ> em_enc env) v"

definition cache_coherent :: "embedding_env \<Rightarrow> (chunk \<Rightarrow> rat list) \<Rightarrow> chunk list \<Rightarrow> embedding_cache \<Rightarrow> bool" where
  "cache_coherent env V chunks c \<longleftrightarrow> embedding_ok c \<and> list_all (\<lambda>k.
     case fetch_key embedding_key (ct_rows c) (chunk_text_hash env k, em_model env) of
       None \<Rightarrow> True | Some r \<Rightarrow> vector_of (em_dec env) r = packed env (V k)) chunks"

definition components_coherent :: "embedding_env \<Rightarrow> (chunk \<Rightarrow> rat list) \<Rightarrow> chunk list \<Rightarrow> component_row list \<Rightarrow> bool" where
  "components_coherent env V chunks t \<longleftrightarrow> components_ok t \<and> list_all (\<lambda>k.
     case fetch_key component_key t (ch_chunk_id k, ''text'') of
       None \<Rightarrow> True | Some r \<Rightarrow> component_vector (em_dec env) r = packed env (V k)) chunks"

definition ids_addressed :: "embedding_env \<Rightarrow> chunk list \<Rightarrow> bool" where
  "ids_addressed env chunks \<longleftrightarrow>
     list_all (\<lambda>a. list_all (\<lambda>b. (ch_chunk_id a = ch_chunk_id b \<or> chunk_text_hash env a = chunk_text_hash env b)
        \<longrightarrow> ch_text a = ch_text b) chunks) chunks"

lemma ids_addressedD:
  "ids_addressed env chunks \<Longrightarrow> a \<in> set chunks \<Longrightarrow> b \<in> set chunks \<Longrightarrow>
     ch_chunk_id a = ch_chunk_id b \<or> chunk_text_hash env a = chunk_text_hash env b \<Longrightarrow> ch_text a = ch_text b"
  unfolding ids_addressed_def list_all_iff by blast

lemma text_hashes_get:
  assumes "ids_addressed env chunks" and "c \<in> set chunks"
  shows "dict_get (text_hashes_of env chunks) (ch_chunk_id c) = Some (chunk_text_hash env c)"
proof -
  have "dict_get (fold (\<lambda>c d. dict_set (ch_chunk_id c) (chunk_text_hash env c) d) cs d) (ch_chunk_id c) =
      Some (chunk_text_hash env c)"
    if "set cs \<subseteq> set chunks" "c \<in> set cs \<or> dict_get d (ch_chunk_id c) = Some (chunk_text_hash env c)" for cs d
    using that
  proof (induction cs arbitrary: d)
    case Nil
    then show ?case by simp
  next
    case (Cons a cs)
    have same: "chunk_text_hash env a = chunk_text_hash env c" if "ch_chunk_id a = ch_chunk_id c"
      using ids_addressedD [OF assms(1), of a c] assms(2) Cons.prems(1) that by (simp add: chunk_text_hash_def)
    have sub: "set cs \<subseteq> set chunks" using Cons.prems(1) by simp
    have "c \<in> set cs \<or> dict_get (dict_set (ch_chunk_id a) (chunk_text_hash env a) d) (ch_chunk_id c)
        = Some (chunk_text_hash env c)"
    proof (cases "ch_chunk_id a = ch_chunk_id c")
      case True
      show ?thesis using same [OF True] True by simp
    next
      case False
      with Cons.prems(2) show ?thesis by auto
    qed
    from Cons.IH [OF sub this] show ?case by simp
  qed
  then show ?thesis using assms(2) by (simp add: text_hashes_of_def)
qed

lemma fill_vectors_all2:
  assumes "\<forall>c \<in> set cs. h c = None \<or> h c = Some (R c)"
  shows "list_all2 (\<lambda>c v. v = (if h c = None then V c else R c)) cs
    (fill_vectors (map h cs) (map V (filter (\<lambda>c. h c = None) cs)))"
  using assms
proof (induction cs)
  case Nil
  then show ?case by simp
next
  case (Cons c cs)
  then show ?case by (cases "h c") auto
qed

lemma store_vectors_result:
  assumes "cache_coherent env V chunks c" and "set cs \<subseteq> set chunks" and "ids_addressed env chunks"
    and "\<forall>k \<in> set chunks. \<forall>k' \<in> set chunks. ch_text k = ch_text k' \<longrightarrow> V k = V k'"
    and "\<forall>k \<in> set cs. \<forall>x \<in> set (V k). em_enc env x \<noteq> None"
  shows "\<exists>c'. store_vectors env now (map (\<lambda>k. (chunk_text_hash env k, V k)) cs) c = (Inr (), c')
    \<and> cache_coherent env V chunks c' \<and> ct_meta c' = ct_meta c
    \<and> (\<forall>k. k \<in> set cs \<or> fetch_key embedding_key (ct_rows c) (chunk_text_hash env k, em_model env) \<noteq> None \<longrightarrow>
         fetch_key embedding_key (ct_rows c') (chunk_text_hash env k, em_model env) \<noteq> None)"
  using assms
proof (induction cs arbitrary: c)
  case Nil
  then show ?case by simp
next
  case (Cons k cs)
  have ok: "embedding_ok c" using Cons.prems(1) by (simp add: cache_coherent_def)
  obtain blob where blob: "pack_floats (em_enc env) (V k) = Inr blob"
    using Cons.prems(5) pack_floats_total by fastforce
  define row where "row = \<lparr>er_text_hash = chunk_text_hash env k, er_model_name = em_model env,
      er_embedding = blob, er_created_at = now\<rparr>"
  define c1 where "c1 = c\<lparr>ct_rows := insert_or_ignore embedding_key row (ct_rows c)\<rparr>"
  have st: "embedding_store (em_enc env) (em_model env) now (chunk_text_hash env k) (V k) c = Inr c1"
    by (simp add: embedding_store_def blob c1_def row_def)
  have rk: "embedding_key row = (chunk_text_hash env k, em_model env)" by (simp add: row_def embedding_key_def)
  have fetch: "fetch_key embedding_key (ct_rows c1) key =
      (if key = (chunk_text_hash env k, em_model env) \<and> fetch_key embedding_key (ct_rows c) key = None
       then Some row else fetch_key embedding_key (ct_rows c) key)" for key
    using rk by (auto simp: c1_def fetch_insert_or_ignore)
  have vec: "vector_of (em_dec env) row = packed env (V k)"
    using unpack_pack [OF blob] by (simp add: row_def packed_def o_assoc)
  have Vk: "V a = V k" if "a \<in> set chunks" "chunk_text_hash env a = chunk_text_hash env k" for a
  proof -
    have "k \<in> set chunks" using Cons.prems(2) by simp
    with ids_addressedD [OF Cons.prems(3) that(1) this] that Cons.prems(4) show ?thesis by blast
  qed
  have "case fetch_key embedding_key (ct_rows c1) (chunk_text_hash env a, em_model env) of
       None \<Rightarrow> True | Some r \<Rightarrow> vector_of (em_dec env) r = packed env (V a)" if a: "a \<in> set chunks" for a
  proof -
    have old: "case fetch_key embedding_key (ct_rows c) (chunk_text_hash env a, em_model env) of
       None \<Rightarrow> True | Some r \<Rightarrow> vector_of (em_dec env) r = packed env (V a)"
      using Cons.prems(1) a by (simp add: cache_coherent_def list_all_iff)
    show ?thesis
    proof (cases "chunk_text_hash env a = chunk_text_hash env k")
      case True
      with old vec Vk [OF a True] show ?thesis by (auto simp: fetch split: option.splits)
    next
      case False
      with old show ?thesis by (simp add: fetch)
    qed
  qed
  then have coh: "cache_coherent env V chunks c1"
    using embedding_store_ok [OF ok st] by (simp add: cache_coherent_def list_all_iff)
  have sub: "set cs \<subseteq> set chunks" "\<forall>k \<in> set cs. \<forall>x \<in> set (V k). em_enc env x \<noteq> None"
    using Cons.prems(2,5) by simp_all
  have meta: "ct_meta c1 = ct_meta c" by (simp add: c1_def)
  obtain c' where
    "store_vectors env now (map (\<lambda>k. (chunk_text_hash env k, V k)) cs) c1 = (Inr (), c')"
    "cache_coherent env V chunks c'" "ct_meta c' = ct_meta c1"
    "\<forall>a. a \<in> set cs \<or> fetch_key embedding_key (ct_rows c1) (chunk_text_hash env a, em_model env) \<noteq> None \<longrightarrow>
         fetch_key embedding_key (ct_rows c') (chunk_text_hash env a, em_model env) \<noteq> None"
    using Cons.IH [OF coh sub(1) Cons.prems(3,4) sub(2)] by blast
  then show ?case
    using meta by (intro exI [of _ c']) (auto simp: st fetch)
qed

lemma cached_vector_coherent:
  assumes "cache_coherent env V chunks ch" and "components_coherent env V chunks t" and "ids_addressed env chunks"
    and "component_get_batch (em_dec env) (map ch_chunk_id chunks) ''text'' t = Inr hits"
    and "hashes = map (chunk_text_hash env) (filter (\<lambda>c. dict_get hits (ch_chunk_id c) = None) chunks)"
    and "c \<in> set chunks"
  shows "cached_vector hits (if remdups hashes = [] then []
        else embedding_lookup (em_dec env) (em_model env) (remdups hashes) ch) (text_hashes_of env chunks) c =
    (if fetch_key component_key t (ch_chunk_id c, ''text'') = None
        \<and> fetch_key embedding_key (ct_rows ch) (chunk_text_hash env c, em_model env) = None
     then None else Some (packed env (V c)))"
proof -
  have hit: "dict_get hits (ch_chunk_id c) =
      map_option (component_vector (em_dec env)) (fetch_key component_key t (ch_chunk_id c, ''text''))"
    using component_get_batch_spec [of t "em_dec env" "map ch_chunk_id chunks" "''text''"] assms(2,4,6)
    by (auto simp: components_coherent_def)
  have th: "dict_get (text_hashes_of env chunks) (ch_chunk_id c) = Some (chunk_text_hash env c)"
    by (rule text_hashes_get [OF assms(3,6)])
  show ?thesis
  proof (cases "fetch_key component_key t (ch_chunk_id c, ''text'')")
    case (Some r)
    with assms(2,6) hit show ?thesis
      by (auto simp: cached_vector_def components_coherent_def list_all_iff)
  next
    case None
    with hit have "dict_get hits (ch_chunk_id c) = None" by simp
    then have "chunk_text_hash env c \<in> set hashes" using assms(5,6) by simp
    moreover have "embedding_ok ch" using assms(1) by (simp add: cache_coherent_def)
    ultimately have "dict_get (if remdups hashes = [] then []
        else embedding_lookup (em_dec env) (em_model env) (remdups hashes) ch) (chunk_text_hash env c) =
        map_option (vector_of (em_dec env)) (fetch_key embedding_key (ct_rows ch) (chunk_text_hash env c, em_model env))"
      by (auto simp: embedding_lookup_get)
    then show ?thesis
      using None \<open>dict_get hits (ch_chunk_id c) = None\<close> assms(1,6) th
      by (auto simp: cached_vector_def cache_coherent_def list_all_iff split: option.splits)
  qed
qed

abbreviation in_cache :: "embedding_env \<Rightarrow> embedding_state \<Rightarrow> chunk \<Rightarrow> bool" where
  "in_cache env st c \<equiv> fetch_key component_key (es_components st) (ch_chunk_id c, ''text'') \<noteq> None
     \<or> fetch_key embedding_key (ct_rows (es_cache st)) (chunk_text_hash env c, em_model env) \<noteq> None"

lemma embed_chunks_cases:
  assumes "chunks \<noteq> []" and coh: "cache_coherent env V chunks (es_cache st)"
    and comp: "components_coherent env V chunks (es_components st)" and ids: "ids_addressed env chunks"
  shows "\<exists>hits. embed_chunks env now chunks st =
     (let to_encode = filter (\<lambda>c. \<not> in_cache env st c) chunks
      in if to_encode = [] then (Inr (fill_vectors (map hits chunks) [], text_hashes_of env chunks), st)
         else case encode_batch (em_post env) (em_local env) (map ch_text to_encode) (es_encoder st) of
             (Inl e, enc') \<Rightarrow> (Inl e, st\<lparr>es_encoder := enc'\<rparr>)
           | (Inr new, enc') \<Rightarrow>
               (if length new < length to_encode
                then (Inl (IndexError ''list index out of range''), st\<lparr>es_encoder := enc'\<rparr>)
                else case store_vectors env now (zip (map (chunk_text_hash env) to_encode) new) (es_cache st) of
                    (Inl e, c') \<Rightarrow> (Inl e, st\<lparr>es_encoder := enc', es_cache := c'\<rparr>)
                  | (Inr _, c') \<Rightarrow> (Inr (fill_vectors (map hits chunks) new, text_hashes_of env chunks),
                      st\<lparr>es_encoder := enc', es_cache := c'\<rparr>)))
     \<and> (\<forall>c \<in> set chunks. hits c = (if in_cache env st c then Some (packed env (V c)) else None))"
proof -
  obtain ch where ch: "component_get_batch (em_dec env) (map ch_chunk_id chunks) ''text'' (es_components st) = Inr ch"
    using component_get_batch_spec comp unfolding components_coherent_def by blast
  define gh where "gh = (let hashes = map (chunk_text_hash env) (filter (\<lambda>c. dict_get ch (ch_chunk_id c) = None) chunks)
      in if remdups hashes = [] then [] else embedding_lookup (em_dec env) (em_model env) (remdups hashes) (es_cache st))"
  define hits where "hits = cached_vector ch gh (text_hashes_of env chunks)"
  have th: "map (\<lambda>c. the (dict_get (text_hashes_of env chunks) (ch_chunk_id c))) (filter P chunks) =
      map (chunk_text_hash env) (filter P chunks)" for P
    by (simp add: text_hashes_get [OF ids])
  have hits: "hits c = (if in_cache env st c then Some (packed env (V c)) else None)" if "c \<in> set chunks" for c
    using cached_vector_coherent [OF coh comp ids ch refl that] by (simp add: hits_def gh_def Let_def)
  have enc: "filter (\<lambda>c. hits c = None) chunks = filter (\<lambda>c. \<not> in_cache env st c) chunks"
    by (rule filter_cong) (auto simp: hits)
  have "embed_chunks env now chunks st =
     (let to_encode = filter (\<lambda>c. hits c = None) chunks
      in if to_encode = [] then (Inr (fill_vectors (map hits chunks) [], text_hashes_of env chunks), st)
         else case encode_batch (em_post env) (em_local env) (map ch_text to_encode) (es_encoder st) of
             (Inl e, enc') \<Rightarrow> (Inl e, st\<lparr>es_encoder := enc'\<rparr>)
           | (Inr new, enc') \<Rightarrow>
               (if length new < length to_encode
                then (Inl (IndexError ''list index out of range''), st\<lparr>es_encoder := enc'\<rparr>)
                else case store_vectors env now (zip (map (chunk_text_hash env) to_encode) new) (es_cache st) of
                    (Inl e, c') \<Rightarrow> (Inl e, st\<lparr>es_encoder := enc', es_cache := c'\<rparr>)
                  | (Inr _, c') \<Rightarrow> (Inr (fill_vectors (map hits chunks) new, text_hashes_of env chunks),
                      st\<lparr>es_encoder := enc', es_cache := c'\<rparr>)))"
    using assms(1) unfolding embed_chunks_def Let_def ch sum.case th
    by (simp add: hits_def gh_def Let_def th cong: if_cong split: prod.splits sum.splits)
  with hits show ?thesis unfolding enc by blast
qed

lemma env_post_irrelevant [simp]:
  "chunk_text_hash (env\<lparr>em_post := post'\<rparr>) = chunk_text_hash env"
  "packed (env\<lparr>em_post := post'\<rparr>) = packed env"
  "text_hashes_of (env\<lparr>em_post := post'\<rparr>) = text_hashes_of env"
  by (simp_all add: fun_eq_iff chunk_text_hash_def packed_def text_hashes_of_def)

lemma env_post_coherent [simp]:
  "cache_coherent (env\<lparr>em_post := post'\<rparr>) V chunks c = cache_coherent env V chunks c"
  "components_coherent (env\<lparr>em_post := post'\<rparr>) V chunks t = components_coherent env V chunks t"
  "ids_addressed (env\<lparr>em_post := post'\<rparr>) chunks = ids_addressed env chunks"
  by (simp_all add: cache_coherent_def components_coherent_def ids_addressed_def cong: option.case_cong)

lemma embed_chunks_warm:
  assumes "cache_coherent env V chunks (es_cache st)" and "components_coherent env V chunks (es_components st)"
    and "ids_addressed env chunks" and "\<forall>c \<in> set chunks. in_cache env st c"
  shows "embed_chunks env now chunks st = (Inr (map (\<lambda>c. packed env (V c)) chunks, text_hashes_of env chunks), st)"
proof (cases "chunks = []")
  case True
  then show ?thesis by (simp add: embed_chunks_def text_hashes_of_def)
next
  case False
  obtain hits where run: "embed_chunks env now chunks st = (Inr (fill_vectors (map hits chunks) [], text_hashes_of env chunks), st)"
    and hits: "\<forall>c \<in> set chunks. hits c = Some (packed env (V c))"
    using embed_chunks_cases [OF False assms(1-3), of now] assms(4) by (auto simp: Let_def)
  have "fill_vectors (map hits cs) [] = map (\<lambda>c. packed env (V c)) cs" if "set cs \<subseteq> set chunks" for cs
    using that hits by (induction cs) auto
  with run show ?thesis by simp
qed

text \<open>
  C27: The three layers only save work.  Against a live service and coherent stores (what
  they hold for a chunk's id or text is the packed vector of that text), every chunk gets
  the vector of its own text, exactly for the chunks that had to be encoded and as its
  binary32 rounding for the cached ones.  The component store is not written, and afterwards
  the same chunks are embedded from the caches alone, whatever has become of the service.
\<close>

theorem embed_chunks_layers:
  assumes "serves (em_post env) cap vec" and "fits_service cap (es_encoder st)"
    and "cache_coherent env (chunk_vector vec (es_encoder st)) chunks (es_cache st)"
    and "components_coherent env (chunk_vector vec (es_encoder st)) chunks (es_components st)"
    and "ids_addressed env chunks"
    and "\<forall>c \<in> set chunks. \<forall>x \<in> set (chunk_vector vec (es_encoder st) c). em_enc env x \<noteq> None"
  shows "\<exists>vs st'. embed_chunks env now chunks st = (Inr (vs, text_hashes_of env chunks), st')
    \<and> list_all2 (\<lambda>c v. v = (if in_cache env st c then packed env (chunk_vector vec (es_encoder st) c)
          else chunk_vector vec (es_encoder st) c)) chunks vs
    \<and> es_components st' = es_components st
    \<and> (\<forall>post' now'. embed_chunks (env\<lparr>em_post := post'\<rparr>) now' chunks st' =
         (Inr (map (\<lambda>c. packed env (chunk_vector vec (es_encoder st) c)) chunks, text_hashes_of env chunks), st'))"
proof (cases "chunks = []")
  case True
  then show ?thesis by (intro exI [of _ "[]"] exI [of _ st]) (simp add: embed_chunks_def text_hashes_of_def)
next
  case False
  let ?V = "chunk_vector vec (es_encoder st)"
  let ?miss = "filter (\<lambda>c. \<not> in_cache env st c) chunks"
  obtain hits where run: "embed_chunks env now chunks st =
     (let to_encode = ?miss
      in if to_encode = [] then (Inr (fill_vectors (map hits chunks) [], text_hashes_of env chunks), st)
         else case encode_batch (em_post env) (em_local env) (map ch_text to_encode) (es_encoder st) of
             (Inl e, enc') \<Rightarrow> (Inl e, st\<lparr>es_encoder := enc'\<rparr>)
           | (Inr new, enc') \<Rightarrow>
               (if length new < length to_encode
                then (Inl (IndexError ''list index out of range''), st\<lparr>es_encoder := enc'\<rparr>)
                else case store_vectors env now (zip (map (chunk_text_hash env) to_encode) new) (es_cache st) of
                    (Inl e, c') \<Rightarrow> (Inl e, st\<lparr>es_encoder := enc', es_cache := c'\<rparr>)
                  | (Inr _, c') \<Rightarrow> (Inr (fill_vectors (map hits chunks) new, text_hashes_of env chunks),
                      st\<lparr>es_encoder := enc', es_cache := c'\<rparr>)))"
    and hits: "\<forall>c \<in> set chunks. hits c = (if in_cache env st c then Some (packed env (?V c)) else None)"
    using embed_chunks_cases [OF False assms(3,4,5), of now] by blast
  have fill: "list_all2 (\<lambda>c v. v = (if in_cache env st c then packed env (?V c) else ?V c)) chunks
      (fill_vectors (map hits chunks) (map ?V ?miss))"
  proof -
    have eq: "filter (\<lambda>c. hits c = None) chunks = ?miss" using hits by (intro filter_cong) auto
    have "\<forall>c \<in> set chunks. hits c = None \<or> hits c = Some (packed env (?V c))" using hits by auto
    from fill_vectors_all2 [OF this, of ?V] show ?thesis
      unfolding eq by (rule list.rel_mono_strong) (use hits in auto)
  qed
  show ?thesis
  proof (cases "?miss = []")
    case True
    then have all: "\<forall>c \<in> set chunks. in_cache env st c" by (simp add: filter_empty_conv)
    have "embed_chunks (env\<lparr>em_post := post'\<rparr>) now' chunks st =
         (Inr (map (\<lambda>c. packed env (?V c)) chunks, text_hashes_of env chunks), st)" for post' now'
      using embed_chunks_warm [of "env\<lparr>em_post := post'\<rparr>" ?V chunks st now'] assms(3-5) all by simp
    moreover have "embed_chunks env now chunks st = (Inr (fill_vectors (map hits chunks) (map ?V ?miss), text_hashes_of env chunks), st)"
      using run True by (simp add: Let_def)
    ultimately show ?thesis using fill by blast
  next
    case miss: False
    obtain enc' where enc': "encode_batch (em_post env) (em_local env) (map ch_text ?miss) (es_encoder st) =
        (Inr (map vec (format_passages (es_encoder st) (map ch_text ?miss))), enc')"
      using encode_batch_served [OF assms(1,2)] by blast
    have new: "map vec (format_passages (es_encoder st) (map ch_text ?miss)) = map ?V ?miss"
      by (simp add: format_passages_def chunk_vector_def)
    have same: "\<forall>k \<in> set chunks. \<forall>k' \<in> set chunks. ch_text k = ch_text k' \<longrightarrow> ?V k = ?V k'"
      by (simp add: chunk_vector_def)
    have sub: "set ?miss \<subseteq> set chunks" by auto
    have fits: "\<forall>k \<in> set ?miss. \<forall>x \<in> set (?V k). em_enc env x \<noteq> None" using assms(6) sub by blast
    obtain c' where c': "store_vectors env now (map (\<lambda>k. (chunk_text_hash env k, ?V k)) ?miss) (es_cache st) = (Inr (), c')"
      "cache_coherent env ?V chunks c'"
      "\<forall>k. k \<in> set ?miss \<or> fetch_key embedding_key (ct_rows (es_cache st)) (chunk_text_hash env k, em_model env) \<noteq> None \<longrightarrow>
         fetch_key embedding_key (ct_rows c') (chunk_text_hash env k, em_model env) \<noteq> None"
      using store_vectors_result [OF assms(3) sub assms(5) same fits, of now] by blast
    let ?st' = "st\<lparr>es_encoder := enc', es_cache := c'\<rparr>"
    have "zip (map (chunk_text_hash env) ?miss) (map ?V ?miss) = map (\<lambda>k. (chunk_text_hash env k, ?V k)) ?miss"
      by (simp add: zip_map_map zip_same_conv_map)
    then have res: "embed_chunks env now chunks st =
        (Inr (fill_vectors (map hits chunks) (map ?V ?miss), text_hashes_of env chunks), ?st')"
      using run miss enc' c'(1) unfolding new by (simp add: Let_def)
    have all: "\<forall>c \<in> set chunks. in_cache env ?st' c" using c'(3) by auto
    have "embed_chunks (env\<lparr>em_post := post'\<rparr>) now' chunks ?st' =
         (Inr (map (\<lambda>c. packed env (?V c)) chunks, text_hashes_of env chunks), ?st')" for post' now'
      using embed_chunks_warm [of "env\<lparr>em_post := post'\<rparr>" ?V chunks ?st' now'] assms(4,5) c'(2) all by simp
    with res fill show ?thesis by auto
  qed
qed

section \<open>Concrete runs\<close>

definition demo_post :: "string list \<Rightarrow> http_result" where
  "demo_post ts = (if int (length ts) \<le> 2 then Embeddings (map (\<lambda>t. [rat_of_nat (length t mod 2)]) ts) else HttpStatus 413)"

definition demo_encoder :: encoder where
  "demo_encoder = \<lparr>ec_embedding_url = Some ''http://tei'', ec_tei_batch_size = 9, ec_tei_bs_probed = False,
     ec_use_prefix = False, ec_query_instruction = []\<rparr>"

definition demo_embedding_env :: embedding_env where
  "demo_embedding_env = \<lparr>em_post = demo_post, em_local = map (\<lambda>_. []), em_blake3 = (\<lambda>s. s),
     em_enc = demo_enc, em_dec = demo_dec, em_model = ''new''\<rparr>"

definition demo_embedding_state :: embedding_state where
  "demo_embedding_state = \<lparr>es_encoder = demo_encoder, es_cache = demo_cache,
     es_components = [\<lparr>cw_entity_id = ''c1'', cw_component = ''text'', cw_embedding = [0, 0, 0x80, 0x3F]\<rparr>]\<rparr>"

definition demo_passage :: "string \<Rightarrow> string \<Rightarrow> chunk" where
  "demo_passage i t = \<lparr>ch_chunk_id = i, ch_file_paths = [], ch_heading_hierarchy = [], ch_level = 0,
     ch_text = t, ch_chunk_index = 0, ch_kind = ''document'', ch_provenance = None\<rparr>"

lemmas demo_embedding_defs = demo_post_def demo_encoder_def demo_embedding_env_def demo_embedding_state_def
  demo_passage_def

lemma demo_serves: "serves demo_post 2 (\<lambda>t. [rat_of_nat (length t mod 2)])" "fits_service 2 demo_encoder"
  by (simp_all add: serves_def demo_post_def fits_service_def demo_encoder_def)

theorem encode_batch_adaptive_witness:
  "fst (encode_batch demo_post (\<lambda>_. []) [''a'', ''bb'', ''ccc''] demo_encoder) = Inr [[1], [0], [1]]"
  using encode_batch_adaptive [OF demo_serves, of "\<lambda>_. []" "[''a'', ''bb'', ''ccc'']"]
  by (auto simp: format_passages_def demo_encoder_def)

theorem component_store_spec_witness:
  "(\<exists>t'. component_store demo_enc ''c1'' ''title'' [1, 0] (es_components demo_embedding_state) = Inr t')
    \<and> component_delete [''c1'', ''c9''] (es_components demo_embedding_state) = (1, [])"
proof -
  have "components_ok (es_components demo_embedding_state)"
    by (simp add: components_ok_def demo_embedding_state_def pk_ok_def)
  from component_store_spec [OF this, of demo_enc "''c1''" "''title''" "[1, 0]" demo_dec "[''c1'', ''c9'']"]
  show ?thesis by (simp add: demo_embedding_state_def demo_enc_def)
qed

theorem embed_chunks_layers_witness:
  "\<exists>vs st'. embed_chunks demo_embedding_env 5 [demo_passage ''c1'' ''a'', demo_passage ''c2'' ''bb''] demo_embedding_state
      = (Inr (vs, [(''c1'', ''a''), (''c2'', ''bb'')]), st') \<and> vs = [[1], [0]]"
proof -
  let ?cs = "[demo_passage ''c1'' ''a'', demo_passage ''c2'' ''bb'']"
  let ?vec = "\<lambda>t. [rat_of_nat (length t mod 2)]"
  let ?V = "chunk_vector ?vec (es_encoder demo_embedding_state)"
  have "serves (em_post demo_embedding_env) 2 ?vec" "fits_service 2 (es_encoder demo_embedding_state)"
    using demo_serves by (simp_all add: demo_embedding_env_def demo_embedding_state_def)
  moreover have "cache_coherent demo_embedding_env ?V ?cs (es_cache demo_embedding_state)"
    using demo_cache_ok by (simp add: cache_coherent_def demo_embedding_defs demo_cache_def embedding_key_def chunk_text_hash_def)
  moreover have "bytes_word 0 0 0x80 0x3F = 0x3F800000" by code_simp
  then have "components_coherent demo_embedding_env ?V ?cs (es_components demo_embedding_state)"
    by (simp add: components_coherent_def components_ok_def pk_ok_def demo_embedding_defs component_key_def
        chunk_vector_def packed_def demo_enc_def demo_dec_def)
  moreover have "ids_addressed demo_embedding_env ?cs"
    by (simp add: ids_addressed_def demo_embedding_defs chunk_text_hash_def)
  moreover have "\<forall>c \<in> set ?cs. \<forall>x \<in> set (?V c). em_enc demo_embedding_env x \<noteq> None"
    by (simp add: demo_embedding_defs chunk_vector_def demo_enc_def)
  ultimately obtain vs st' where "embed_chunks demo_embedding_env 5 ?cs demo_embedding_state =
      (Inr (vs, text_hashes_of demo_embedding_env ?cs), st')"
    "list_all2 (\<lambda>c v. v = (if in_cache demo_embedding_env demo_embedding_state c then packed demo_embedding_env (?V c)
          else ?V c)) ?cs vs"
    using embed_chunks_layers [of demo_embedding_env 2 ?vec demo_embedding_state ?cs 5] by blast
  then show ?thesis
    by (auto simp: list_all2_Cons1 text_hashes_of_def demo_embedding_defs chunk_vector_def chunk_text_hash_def
        packed_def component_key_def demo_enc_def demo_dec_def demo_cache_def embedding_key_def)
qed

end
