(* ===== verification/Indexing.thy ===== *)
theory Indexing
  imports Filesystem_Pipeline Reader Embedding
begin

text \<open>
  Indexing one file (\<open>IndexingPipeline.index_file\<close> in \<open>ingestion/pipeline.py\<close>): rebinding of
  retained content, change detection by the two trackers, the chunk phase with its cleanup
  and write transactions, and the embedding phase.  The disk does not change during a call,
  and the clock is read once.  The extractors run between the chunk transaction and the
  fingerprint; the keyword, vector and graph stores of this mode are no-op objects, so all
  that is left of the extractors is the error they raise, the parameter \<open>ie_extract\<close>.
  The rows built from the frontmatter are computed because building them can raise.
\<close>

section \<open>State\<close>

record indexing_env =
  ie_disk :: disk
  ie_resolve :: "string \<Rightarrow> string"
  ie_strategy :: string
  ie_yaml :: "string \<Rightarrow> yaml_result"
  ie_embedding :: embedding_env
  ie_max_tokens :: nat
  ie_overlap_tokens :: nat
  ie_w_text :: rat
  ie_w_meta :: rat
  ie_sqrt :: "rat \<Rightarrow> rat"
  ie_extract :: "chunk list \<Rightarrow> py_error option"

record indexer =
  ix_pipeline :: pipeline
  ix_embedding :: embedding_state

datatype index_target = GivenPath string | GivenInfo file_info

text \<open>The trackers read the disk through their checksum functions.  The checksums of the file
  being indexed have been computed before the trackers run, so here they return.\<close>

definition tracked_files :: "(disk \<Rightarrow> string \<Rightarrow> py_error + string) \<Rightarrow> disk \<Rightarrow> filesystem" where
  "tracked_files checksum d path =
     map_option (\<lambda>f. \<lparr>fs_mtime = df_mtime f, fs_size = df_size f,
        fs_checksum = (case checksum d path of Inr c \<Rightarrow> c | Inl _ \<Rightarrow> '''')\<rparr>) (d path)"

definition pipeline_env :: "indexing_env \<Rightarrow> environment" where
  "pipeline_env ie =
     \<lparr>ev_resolve = ie_resolve ie, ev_strategy = ie_strategy ie,
      ev_chunk_files = tracked_files (chunk_checksum (em_blake3 (ie_embedding ie)) (ie_yaml ie)) (ie_disk ie),
      ev_meta_files = tracked_files (meta_checksum (em_blake3 (ie_embedding ie)) (ie_yaml ie)) (ie_disk ie)\<rparr>"

section \<open>The source document of a file\<close>

definition source_document_for_file_info :: "indexing_env \<Rightarrow> file_info \<Rightarrow> py_error + source_document" where
  "source_document_for_file_info ie fi =
     try_bind (document_for_file_info (ie_resolve ie) (em_blake3 (ie_embedding ie)) (ie_yaml ie) (ie_disk ie) fi)
       (\<lambda>d. try_bind (source_document_to_file_info (pipeline_env ie) d) (\<lambda>path.
         if path \<noteq> fi_path fi \<or> sd_title d \<noteq> fi_title fi \<or> sd_document_type d \<noteq> fi_kind fi
            \<or> sd_metadata_json d \<noteq> JObj (fi_frontmatter fi) \<or> sd_updated_at d \<noteq> fi_last_modified fi
         then Inl (ValueError ''filesystem SourceDocument bridge changed FileInfo'')
         else if sd_document_ref d \<noteq> meta_entity_id (pipeline_env ie) (fi_path fi)
         then Inl (ValueError ''filesystem document_ref must match metadata entity id'')
         else Inr d))"

definition info_of_path :: "indexing_env \<Rightarrow> string \<Rightarrow> disk_file \<Rightarrow> py_error + file_info" where
  "info_of_path ie path f =
     (let build = (\<lambda>frontmatter. make_file_info path
            (py_str (dict_get_default frontmatter ''title'' (JStr (path_stem path)))) f
            (kind_of frontmatter) frontmatter)
      in case read_file (ie_disk ie) path of
           Inl e \<Rightarrow> if is_os_error e then build [] else Inl e
         | Inr raw \<Rightarrow> build (fst (parse_frontmatter (ie_yaml ie) raw)))"

definition file_info_and_source_document :: "indexing_env \<Rightarrow> index_target \<Rightarrow>
    py_error + (file_info \<times> source_document) option" where
  "file_info_and_source_document ie target =
     (let with_document = (\<lambda>fi. try_bind (source_document_for_file_info ie fi) (\<lambda>d. Inr (Some (fi, d))))
      in case target of
           GivenInfo fi \<Rightarrow> with_document fi
         | GivenPath path \<Rightarrow>
             (case ie_disk ie path of
                None \<Rightarrow> Inr None
              | Some f \<Rightarrow> try_bind (info_of_path ie path f) with_document))"

section \<open>Frontmatter\<close>

text \<open>\<open>", ".join(str(t) for t in tags) if tags else ""\<close>.\<close>

definition tags_csv :: "json \<Rightarrow> py_error + string" where
  "tags_csv tags =
     (if truthy tags then try_bind (py_iter tags) (\<lambda>ts. Inr (py_join '', '' (map py_str ts))) else Inr '''')"

definition file_meta :: "file_info \<Rightarrow> py_error + string \<times> string" where
  "file_meta fi =
     try_bind (tags_csv (dict_get_default (fi_frontmatter fi) ''tags'' (JList [])))
       (\<lambda>csv. Inr (fi_title fi, csv))"

text \<open>\<open>tag_str.split(":", 1)\<close>: type and name of a namespaced tag.\<close>

definition tag_entity :: "string \<Rightarrow> string \<times> string" where
  "tag_entity tag =
     (if CHR '':'' \<in> set tag \<and> py_strip (takeWhile (\<lambda>c. c \<noteq> CHR '':'') tag) \<noteq> []
      then (py_upper (py_strip (takeWhile (\<lambda>c. c \<noteq> CHR '':'') tag)),
            py_strip (tl (dropWhile (\<lambda>c. c \<noteq> CHR '':'') tag)))
      else (''TAG'', tag))"

text \<open>The entities and their relation to the file, as (type, name, relation).  Iterating the
  raw value raises when it is not a list, a string or a dict, null included.\<close>

definition frontmatter_rows :: "file_info \<Rightarrow> py_error + (string \<times> string \<times> string) list" where
  "frontmatter_rows fi =
     (if fi_frontmatter fi = [] then Inr []
      else try_bind (py_iter (dict_get_default (fi_frontmatter fi) ''tags'' (JList []))) (\<lambda>tags.
        let tag_rows = map (\<lambda>t. case tag_entity (py_str t) of (kind, name) \<Rightarrow> (kind, name, ''HAS_TAG'')) tags
        in if fi_kind fi \<noteq> doc_kind_value MEETING_TRANSCRIPT then Inr tag_rows
           else try_bind (py_iter (dict_get_default (fi_frontmatter fi) ''participants'' (JList []))) (\<lambda>ps.
             Inr (tag_rows @ map (\<lambda>name. (''PERSON'', name, ''HAS_PARTICIPANT''))
               (filter (\<lambda>name. name \<noteq> []) (map (\<lambda>p. py_strip (py_str p)) ps))))))"

section \<open>The chunk phase\<close>

definition chunk_params_of :: "indexing_env \<Rightarrow> file_info \<Rightarrow> source_document \<Rightarrow> chunk_params" where
  "chunk_params_of ie fi d =
     \<lparr>cp_file_path = fi_path fi, cp_max_tokens = ie_max_tokens ie, cp_overlap_tokens = ie_overlap_tokens ie,
      cp_kind = fi_kind fi, cp_strategy = ie_strategy ie,
      cp_given_provenance = Some (filesystem_chunk_provenance (pipeline_env ie) d)\<rparr>"

definition chunks_of_file :: "indexing_env \<Rightarrow> file_info \<Rightarrow> source_document \<Rightarrow> string \<Rightarrow> chunk list" where
  "chunks_of_file ie fi d content =
     chunk_file (em_blake3 (ie_embedding ie)) (ie_yaml ie) (chunk_params_of ie fi d) content"

definition persist_one_chunk_source_provenance :: "string \<Rightarrow> chunk \<Rightarrow> store \<Rightarrow> py_error + store" where
  "persist_one_chunk_source_provenance strategy c s =
     (case ch_provenance c of None \<Rightarrow> Inr s | Some p \<Rightarrow> add_chunk_provenance strategy p (ch_chunk_id c) s)"

text \<open>A stored payload that differs is only logged: the first writer's row stays.\<close>

fun write_chunks :: "string \<Rightarrow> string \<Rightarrow> chunk list \<Rightarrow> store \<Rightarrow> py_error + store" where
  "write_chunks strategy path [] s = Inr s"
| "write_chunks strategy path (c # cs) s =
     try_bind (get_stored_payload s strategy (ch_chunk_id c)) (\<lambda>_.
     try_bind (insert_chunk strategy (ch_chunk_id c) (ch_heading_hierarchy c) (ch_level c) (ch_text c) s) (\<lambda>s.
     try_bind (add_file_path strategy (ch_chunk_id c) path (ch_chunk_index c) s) (\<lambda>s.
     try_bind (persist_one_chunk_source_provenance strategy c s) (\<lambda>s.
       write_chunks strategy path cs s))))"

definition write_file_chunks :: "string \<Rightarrow> string \<Rightarrow> source_document \<Rightarrow> chunk list \<Rightarrow> store \<Rightarrow>
    (py_error + unit) \<times> store" where
  "write_file_chunks strategy path d chunks s =
     transaction (\<lambda>s. try_bind (write_chunks strategy path chunks (upsert_source_document d s)) (\<lambda>s. Inr ((), s)))
       (ensure_chunk_source_provenance_table strategy (ensure_m2m_table strategy s))"

definition set_store :: "store \<Rightarrow> indexer \<Rightarrow> indexer" where
  "set_store s x = x\<lparr>ix_pipeline := (ix_pipeline x)\<lparr>pp_store := s\<rparr>\<rparr>"

abbreviation ix_store :: "indexer \<Rightarrow> store" where
  "ix_store x \<equiv> pp_store (ix_pipeline x)"

text \<open>What follows the write transaction: the keyword engine's metadata, the extractors, the
  frontmatter rows of the graph; then the chunk fingerprint.\<close>

definition after_chunks :: "indexing_env \<Rightarrow> file_info \<Rightarrow> chunk list \<Rightarrow> py_error + unit" where
  "after_chunks ie fi chunks =
     try_bind (file_meta fi) (\<lambda>_.
     try_bind (case ie_extract ie chunks of None \<Rightarrow> Inr () | Some e \<Rightarrow> Inl e) (\<lambda>_.
     try_bind (frontmatter_rows fi) (\<lambda>_. Inr ())))"

definition fingerprint_chunks :: "indexing_env \<Rightarrow> timestamp \<Rightarrow> file_info \<Rightarrow> indexer \<Rightarrow> indexer" where
  "fingerprint_chunks ie now fi x =
     x\<lparr>ix_pipeline := save_chunk_fingerprint (pipeline_env ie) now (fi_path fi) (ix_pipeline x)\<rparr>"

definition rechunk_file :: "indexing_env \<Rightarrow> timestamp \<Rightarrow> file_info \<Rightarrow> source_document \<Rightarrow> indexer \<Rightarrow>
    (py_error + chunk list) \<times> indexer" where
  "rechunk_file ie now fi d x =
     (case transaction (holder_aware_chunk_cleanup (pipeline_env ie) (fi_path fi)) (ix_store x) of
        (Inl e, s) \<Rightarrow> (Inl e, set_store s x)
      | (Inr _, s) \<Rightarrow>
          (case read_file (ie_disk ie) (fi_path fi) of
             Inl e \<Rightarrow> (Inl e, set_store s x)
           | Inr content \<Rightarrow>
               (let chunks = chunks_of_file ie fi d content
                in if chunks = [] then (Inr [], fingerprint_chunks ie now fi (set_store s x))
                   else case write_file_chunks (ie_strategy ie) (fi_path fi) d chunks s of
                     (Inl e, s') \<Rightarrow> (Inl e, set_store s' x)
                   | (Inr _, s') \<Rightarrow>
                       (case after_chunks ie fi chunks of
                          Inl e \<Rightarrow> (Inl e, set_store s' x)
                        | Inr _ \<Rightarrow> (Inr chunks, fingerprint_chunks ie now fi (set_store s' x))))))"

section \<open>The embedding phase\<close>

definition normalize_vector :: "(rat \<Rightarrow> rat) \<Rightarrow> rat list \<Rightarrow> rat list" where
  "normalize_vector square_root v =
     (let mag = square_root (sum_list (map (\<lambda>x. x * x) v)) in if 0 < mag then map (\<lambda>x. x / mag) v else v)"

definition fuse_vectors :: "indexing_env \<Rightarrow> rat list \<Rightarrow> rat list \<Rightarrow> py_error + rat list" where
  "fuse_vectors ie e_text e_meta =
     (if length e_text \<noteq> length e_meta then Inl (ValueError ''_fuse_vectors: dimension mismatch'')
      else Inr (normalize_vector (ie_sqrt ie)
        (map2 (\<lambda>a b. ie_w_text ie * a + ie_w_meta ie * b)
          (normalize_vector (ie_sqrt ie) e_text) (normalize_vector (ie_sqrt ie) e_meta))))"

fun fuse_all :: "indexing_env \<Rightarrow> rat list \<Rightarrow> rat list list \<Rightarrow> py_error + rat list list" where
  "fuse_all ie e_meta [] = Inr []"
| "fuse_all ie e_meta (v # vs) =
     try_bind (fuse_vectors ie v e_meta) (\<lambda>f. try_bind (fuse_all ie e_meta vs) (\<lambda>fs. Inr (f # fs)))"

definition meta_text :: "file_info \<Rightarrow> py_error + string" where
  "meta_text fi =
     (let title = py_str (dict_get_default (fi_frontmatter fi) ''title'' (JStr ''''));
          tags = dict_get_default (fi_frontmatter fi) ''tags'' (JList [])
      in try_bind (tags_csv tags) (\<lambda>tags_str.
        let stripped = py_strip (title @ '' '' @ tags_str)
        in Inr (if stripped \<noteq> [] then stripped else title)))"

definition set_encoder :: "encoder \<Rightarrow> indexer \<Rightarrow> indexer" where
  "set_encoder enc x = x\<lparr>ix_embedding := (ix_embedding x)\<lparr>es_encoder := enc\<rparr>\<rparr>"

definition set_components :: "component_row list \<Rightarrow> indexer \<Rightarrow> indexer" where
  "set_components t x = x\<lparr>ix_embedding := (ix_embedding x)\<lparr>es_components := t\<rparr>\<rparr>"

abbreviation ix_components :: "indexer \<Rightarrow> component_row list" where
  "ix_components x \<equiv> es_components (ix_embedding x)"

text \<open>Statements outside a transaction commit one by one.\<close>

fun store_components :: "indexing_env \<Rightarrow> string \<Rightarrow> (string \<times> rat list) list \<Rightarrow> indexer \<Rightarrow>
    (py_error + unit) \<times> indexer" where
  "store_components ie component [] x = (Inr (), x)"
| "store_components ie component ((entity_id, v) # rest) x =
     (case component_store (em_enc (ie_embedding ie)) entity_id component v (ix_components x) of
        Inl e \<Rightarrow> (Inl e, x)
      | Inr t \<Rightarrow> store_components ie component rest (set_components t x))"

definition store_meta_component :: "indexing_env \<Rightarrow> file_info \<Rightarrow> rat list \<Rightarrow> indexer \<Rightarrow>
    (py_error + unit) \<times> indexer" where
  "store_meta_component ie fi e_meta x =
     store_components ie ''meta'' [(meta_entity_id (pipeline_env ie) (fi_path fi), e_meta)] x"

definition embed_meta_component :: "indexing_env \<Rightarrow> file_info \<Rightarrow> indexer \<Rightarrow> (py_error + rat list) \<times> indexer" where
  "embed_meta_component ie fi x =
     (case meta_text fi of
        Inl e \<Rightarrow> (Inl e, x)
      | Inr txt \<Rightarrow>
          (case encode_batch (em_post (ie_embedding ie)) (em_local (ie_embedding ie)) [txt] (es_encoder (ix_embedding x)) of
             (Inl e, enc) \<Rightarrow>
               (Inl (RuntimeError (''encode_batch failed for metadata of '' @ fi_path fi)), set_encoder enc x)
           | (Inr [], enc) \<Rightarrow> (Inl (IndexError ''list index out of range''), set_encoder enc x)
           | (Inr (e_meta # _), enc) \<Rightarrow>
               (case store_meta_component ie fi e_meta (set_encoder enc x) of
                  (Inl e, x) \<Rightarrow> (Inl e, x)
                | (Inr _, x) \<Rightarrow> (Inr e_meta, x))))"

definition set_embedding :: "embedding_state \<Rightarrow> indexer \<Rightarrow> indexer" where
  "set_embedding st x = x\<lparr>ix_embedding := st\<rparr>"

definition stored_file_chunks :: "indexing_env \<Rightarrow> string \<Rightarrow> store \<Rightarrow> py_error + chunk list" where
  "stored_file_chunks ie path s =
     try_bind (get_chunk_ids_by_file s (ie_strategy ie) path) (\<lambda>chunk_ids.
       if chunk_ids = [] then Inr [] else get_chunks s chunk_ids)"

text \<open>The text vectors of the full path, and the ones to be written as components.\<close>

definition text_vectors_full :: "indexing_env \<Rightarrow> timestamp \<Rightarrow> chunk list \<Rightarrow> indexer \<Rightarrow>
    (py_error + rat list list \<times> (string \<times> rat list) list) \<times> indexer" where
  "text_vectors_full ie now chunks x =
     (case embed_chunks (ie_embedding ie) now chunks (ix_embedding x) of
        (Inl e, st) \<Rightarrow> (Inl e, set_embedding st x)
      | (Inr (vs, _), st) \<Rightarrow> (Inr (vs, zip (map ch_chunk_id chunks) vs), set_embedding st x))"

fun lookup_all :: "(string, rat list) dict \<Rightarrow> string list \<Rightarrow> py_error + rat list list" where
  "lookup_all d [] = Inr []"
| "lookup_all d (i # is) =
     (case dict_get d i of
        None \<Rightarrow> Inl (KeyError i)
      | Some v \<Rightarrow> try_bind (lookup_all d is) (\<lambda>vs. Inr (v # vs)))"

text \<open>The metadata-only path: stored vectors, and encoding for the chunks that have none.\<close>

definition text_vectors_cached :: "indexing_env \<Rightarrow> timestamp \<Rightarrow> chunk list \<Rightarrow> indexer \<Rightarrow>
    (py_error + rat list list \<times> (string \<times> rat list) list) \<times> indexer" where
  "text_vectors_cached ie now chunks x =
     (case component_get_batch (em_dec (ie_embedding ie)) (map ch_chunk_id chunks) ''text'' (ix_components x) of
        Inl e \<Rightarrow> (Inl e, x)
      | Inr e_text_map \<Rightarrow>
          (let missing = filter (\<lambda>c. dict_get e_text_map (ch_chunk_id c) = None) chunks;
               finish = (\<lambda>found x. case lookup_all found (map ch_chunk_id chunks) of
                   Inl e \<Rightarrow> (Inl e, x)
                 | Inr vs \<Rightarrow> (Inr (vs, map (\<lambda>c. (ch_chunk_id c, the (dict_get found (ch_chunk_id c)))) missing), x))
           in if missing = [] then finish e_text_map x
              else case embed_chunks (ie_embedding ie) now missing (ix_embedding x) of
                (Inl e, st) \<Rightarrow> (Inl e, set_embedding st x)
              | (Inr (vs, _), st) \<Rightarrow>
                  finish (fold (\<lambda>(i, v). dict_set i v) (zip (map ch_chunk_id missing) vs) e_text_map)
                    (set_embedding st x)))"

text \<open>The write phase.  The vector store is a no-op object, so the fused vectors end here.\<close>

definition write_vectors :: "indexing_env \<Rightarrow> timestamp \<Rightarrow> file_info \<Rightarrow> source_document \<Rightarrow>
    (string \<times> rat list) list \<Rightarrow> rat list \<Rightarrow> indexer \<Rightarrow> (py_error + unit) \<times> indexer" where
  "write_vectors ie now fi d text_components e_meta x =
     (case store_components ie ''text'' text_components x of
        (Inl e, x) \<Rightarrow> (Inl e, x)
      | (Inr _, x) \<Rightarrow>
          (case store_meta_component ie fi e_meta x of
             (Inl e, x) \<Rightarrow> (Inl e, x)
           | (Inr _, x) \<Rightarrow>
               (let s = upsert_source_document d (ix_store x)
                in case upsert_active_filesystem_binding d s of
                     Inl e \<Rightarrow> (Inl e, set_store s x)
                   | Inr s' \<Rightarrow> (Inr (), (set_store s' x)
                       \<lparr>ix_pipeline := save_meta_fingerprint (pipeline_env ie) now (fi_path fi)
                          (ix_pipeline (set_store s' x))\<rparr>))))"

definition embed_loaded :: "indexing_env \<Rightarrow> timestamp \<Rightarrow> file_info \<Rightarrow> bool \<Rightarrow> chunk list \<Rightarrow> indexer \<Rightarrow>
    (py_error + unit) \<times> indexer" where
  "embed_loaded ie now fi body_changed chunks x =
     (case (if body_changed then text_vectors_full ie now chunks x else text_vectors_cached ie now chunks x) of
        (Inl e, x) \<Rightarrow> (Inl e, x)
      | (Inr (vectors, text_components), x) \<Rightarrow>
          (case embed_meta_component ie fi x of
             (Inl e, x) \<Rightarrow> (Inl e, x)
           | (Inr e_meta, x) \<Rightarrow>
               (case fuse_all ie e_meta vectors of
                  Inl e \<Rightarrow> (Inl e, x)
                | Inr _ \<Rightarrow>
                    (case source_document_for_file_info ie fi of
                       Inl e \<Rightarrow> (Inl e, x)
                     | Inr d \<Rightarrow> write_vectors ie now fi d text_components e_meta x))))"

definition index_file_embed :: "indexing_env \<Rightarrow> timestamp \<Rightarrow> file_info \<Rightarrow> chunk list \<Rightarrow> bool \<Rightarrow> bool \<Rightarrow> indexer \<Rightarrow>
    (py_error + unit) \<times> indexer" where
  "index_file_embed ie now fi chunks body_changed metadata_changed x =
     (if \<not> body_changed \<and> \<not> metadata_changed then (Inr (), x)
      else case (if chunks = [] then stored_file_chunks ie (meta_entity_id (pipeline_env ie) (fi_path fi)) (ix_store x)
                 else Inr chunks) of
        Inl e \<Rightarrow> (Inl e, x)
      | Inr loaded \<Rightarrow> if loaded = [] then (Inr (), x) else embed_loaded ie now fi body_changed loaded x)"

section \<open>Indexing a file\<close>

text \<open>A file is reported by a tracker when its fingerprint is missing or differs.\<close>

definition chunk_changed :: "indexing_env \<Rightarrow> string \<Rightarrow> indexer \<Rightarrow> (py_error + bool) \<times> indexer" where
  "chunk_changed ie path x =
     (case diff (ev_chunk_files (pipeline_env ie)) [path] (pp_chunk_fps (ix_pipeline x)) of
        (Inl (FileNotFound f), t) \<Rightarrow>
          (Inl (FileNotFoundError f), x\<lparr>ix_pipeline := (ix_pipeline x)\<lparr>pp_chunk_fps := t\<rparr>\<rparr>)
      | (Inr r, t) \<Rightarrow> (Inr (path \<in> set (fd_new r) \<or> path \<in> set (fd_modified r)),
          x\<lparr>ix_pipeline := (ix_pipeline x)\<lparr>pp_chunk_fps := t\<rparr>\<rparr>))"

definition meta_changed :: "indexing_env \<Rightarrow> string \<Rightarrow> indexer \<Rightarrow> (py_error + bool) \<times> indexer" where
  "meta_changed ie path x =
     (case diff (ev_meta_files (pipeline_env ie)) [path] (pp_meta_fps (ix_pipeline x)) of
        (Inl (FileNotFound f), t) \<Rightarrow>
          (Inl (FileNotFoundError f), x\<lparr>ix_pipeline := (ix_pipeline x)\<lparr>pp_meta_fps := t\<rparr>\<rparr>)
      | (Inr r, t) \<Rightarrow> (Inr (path \<in> set (fd_new r) \<or> path \<in> set (fd_modified r)),
          x\<lparr>ix_pipeline := (ix_pipeline x)\<lparr>pp_meta_fps := t\<rparr>\<rparr>))"

text \<open>After a metadata-only run the file's chunks are given to the keyword engine again and
  the graph metadata is rebuilt.\<close>

definition refresh_metadata :: "indexing_env \<Rightarrow> file_info \<Rightarrow> indexer \<Rightarrow> py_error + unit" where
  "refresh_metadata ie fi x =
     try_bind (stored_file_chunks ie (fi_path fi) (ix_store x)) (\<lambda>_.
     try_bind (file_meta fi) (\<lambda>_.
     try_bind (frontmatter_rows fi) (\<lambda>_. Inr ())))"

definition index_metadata :: "indexing_env \<Rightarrow> timestamp \<Rightarrow> file_info \<Rightarrow> indexer \<Rightarrow> (py_error + nat) \<times> indexer" where
  "index_metadata ie now fi x =
     (case meta_changed ie (fi_path fi) x of
        (Inl e, x) \<Rightarrow> (Inl e, x)
      | (Inr False, x) \<Rightarrow> (Inr 0, x)
      | (Inr True, x) \<Rightarrow>
          (case stored_file_chunks ie (fi_path fi) (ix_store x) of
             Inl e \<Rightarrow> (Inl e, x)
           | Inr chunks \<Rightarrow>
               (case index_file_embed ie now fi chunks False True x of
                  (Inl e, x) \<Rightarrow> (Inl e, x)
                | (Inr _, x) \<Rightarrow>
                    (case refresh_metadata ie fi x of Inl e \<Rightarrow> (Inl e, x) | Inr _ \<Rightarrow> (Inr 0, x)))))"

definition index_body :: "indexing_env \<Rightarrow> timestamp \<Rightarrow> file_info \<Rightarrow> source_document \<Rightarrow> indexer \<Rightarrow>
    (py_error + nat) \<times> indexer" where
  "index_body ie now fi d x =
     (case rechunk_file ie now fi d x of
        (Inl e, x) \<Rightarrow> (Inl e, x)
      | (Inr chunks, x) \<Rightarrow>
          if chunks = [] then (Inr 0, x)
          else (case index_file_embed ie now fi chunks True True x of
             (Inl e, x) \<Rightarrow> (Inl e, x)
           | (Inr _, x) \<Rightarrow> (Inr (length chunks), x)))"

definition index_file :: "indexing_env \<Rightarrow> timestamp \<Rightarrow> index_target \<Rightarrow> indexer \<Rightarrow> (py_error + nat) \<times> indexer" where
  "index_file ie now target x =
     (case file_info_and_source_document ie target of
        Inl e \<Rightarrow> (Inl e, x)
      | Inr None \<Rightarrow> (Inr 0, x)
      | Inr (Some (fi, d)) \<Rightarrow>
          (case rebind_retained_filesystem_document (pipeline_env ie) now d (ix_pipeline x) of
             (Inl e, p) \<Rightarrow> (Inl e, x\<lparr>ix_pipeline := p\<rparr>)
           | (Inr _, p) \<Rightarrow>
               (case chunk_changed ie (fi_path fi) (x\<lparr>ix_pipeline := p\<rparr>) of
                  (Inl e, x) \<Rightarrow> (Inl e, x)
                | (Inr True, x) \<Rightarrow> index_body ie now fi d x
                | (Inr False, x) \<Rightarrow> index_metadata ie now fi x)))"

end
