(* ===== verification/Indexing_Laws.thy ===== *)
theory Indexing_Laws
  imports Indexing Filesystem_Laws Chunking_Laws Embedding_Laws
begin

text \<open>
  What indexing a file guarantees: the state it settles in, what it stores, what survives a
  failure, and the consistency of the chunk tables under every operation of the pipeline.
\<close>

section \<open>Change detection\<close>

definition fingerprinted :: "filesystem \<Rightarrow> string \<Rightarrow> fingerprint_row list \<Rightarrow> bool" where
  "fingerprinted fs path t \<longleftrightarrow>
     (case (fs path, fetch_key fp_file_path t path) of
        (Some st, Some row) \<Rightarrow> fp_mtime row = fs_mtime st \<and> fp_size_bytes row = fs_size st
      | _ \<Rightarrow> False)"

lemma diff_one:
  "diff fs [path] t =
     (case class_of fs t path of
        New \<Rightarrow> (Inr (empty_diff\<lparr>fd_new := [path], fd_deleted := filter (\<lambda>p. p \<noteq> path) (map fp_file_path t)\<rparr>), t)
      | Modified \<Rightarrow> (case fs path of None \<Rightarrow> (Inl (FileNotFound path), t)
          | Some _ \<Rightarrow> (Inr (empty_diff\<lparr>fd_modified := [path], fd_deleted := filter (\<lambda>p. p \<noteq> path) (map fp_file_path t)\<rparr>), t))
      | Unchanged \<Rightarrow> (Inr (empty_diff\<lparr>fd_unchanged := [path], fd_deleted := filter (\<lambda>p. p \<noteq> path) (map fp_file_path t)\<rparr>),
          if fingerprinted fs path t then t else touch_fingerprint path (the (fs path)) t))"
  by (auto simp: diff_def class_of_def fingerprinted_def empty_diff_def split: option.splits)

lemma fingerprinted_unchanged: "fingerprinted fs path t \<Longrightarrow> class_of fs t path = Unchanged"
  by (auto simp: fingerprinted_def class_of_def split: option.splits)

lemma fingerprinted_save:
  "fs path = Some st \<Longrightarrow> fingerprinted fs path (save_file_fingerprint now fs path t)"
  by (simp add: fingerprinted_def save_file_fingerprint_def save_fingerprint_def sql_simps)

section \<open>The document of a file\<close>

lemma document_facts:
  assumes "source_document_for_file_info ie fi = Inr d"
  shows "sd_namespace d = ''filesystem''" "sd_document_ref d = ie_resolve ie (fi_path fi)"
    "sd_ref d = make_ref ''filesystem'' (sd_document_ref d)" "sd_file_path d = Some (fi_path fi)"
    "\<exists>content. read_file (ie_disk ie) (fi_path fi) = Inr content" "ie_disk ie (fi_path fi) \<noteq> None"
    "validate_source_document (ie_resolve ie) d = Inr d"
proof -
  obtain d' where d': "document_for_file_info (ie_resolve ie) (em_blake3 (ie_embedding ie)) (ie_yaml ie) (ie_disk ie) fi = Inr d'"
    and "d = d'"
    using assms by (auto simp: source_document_for_file_info_def try_bind_Inr_iff split: if_splits)
  then have doc: "document_for_file_info (ie_resolve ie) (em_blake3 (ie_embedding ie)) (ie_yaml ie) (ie_disk ie) fi = Inr d"
    by simp
  then obtain content where content: "read_file (ie_disk ie) (fi_path fi) = Inr content"
    by (auto simp: document_for_file_info_def try_bind_Inr_iff chunk_checksum_def)
  then show "\<exists>content. read_file (ie_disk ie) (fi_path fi) = Inr content" "ie_disk ie (fi_path fi) \<noteq> None"
    by (auto simp: read_file_def split: option.splits)
  obtain d0 where "validate_source_document (ie_resolve ie) d0 = Inr d"
    and d0: "sd_namespace d0 = ''filesystem''" "sd_document_ref d0 = ie_resolve ie (fi_path fi)"
      "sd_file_path d0 = Some (fi_path fi)"
    using doc by (auto simp: document_for_file_info_def try_bind_Inr_iff Let_def)
  with validate_source_document_ok [of "ie_resolve ie" d0 d] have "d = d0" "sd_ref d = make_ref (sd_namespace d) (sd_document_ref d)"
    by simp_all
  then show "sd_namespace d = ''filesystem''" "sd_document_ref d = ie_resolve ie (fi_path fi)"
    "sd_ref d = make_ref ''filesystem'' (sd_document_ref d)" "sd_file_path d = Some (fi_path fi)"
    "validate_source_document (ie_resolve ie) d = Inr d"
    using d0 \<open>validate_source_document (ie_resolve ie) d0 = Inr d\<close> by simp_all
qed

lemma target_document:
  "file_info_and_source_document ie target = Inr (Some (fi, d)) \<Longrightarrow> source_document_for_file_info ie fi = Inr d"
  by (auto simp: file_info_and_source_document_def try_bind_Inr_iff Let_def split: index_target.splits option.splits)

section \<open>Settled files\<close>

definition settled :: "indexing_env \<Rightarrow> file_info \<Rightarrow> source_document \<Rightarrow> indexer \<Rightarrow> bool" where
  "settled ie fi d x \<longleftrightarrow>
     (\<exists>b. get_resource_binding (ix_store x) ''filesystem'' (sd_document_ref d) = Inr (Some b) \<and> rb_active b)
     \<and> fingerprinted (ev_chunk_files (pipeline_env ie)) (fi_path fi) (pp_chunk_fps (ix_pipeline x))
     \<and> fingerprinted (ev_meta_files (pipeline_env ie)) (fi_path fi) (pp_meta_fps (ix_pipeline x))"

lemma chunk_changed_result:
  "chunk_changed ie path x =
     (case class_of (ev_chunk_files (pipeline_env ie)) (pp_chunk_fps (ix_pipeline x)) path of
        New \<Rightarrow> (Inr True, x)
      | Modified \<Rightarrow> (case ev_chunk_files (pipeline_env ie) path of
          None \<Rightarrow> (Inl (FileNotFoundError path), x) | Some _ \<Rightarrow> (Inr True, x))
      | Unchanged \<Rightarrow> (Inr False,
          if fingerprinted (ev_chunk_files (pipeline_env ie)) path (pp_chunk_fps (ix_pipeline x)) then x
          else x\<lparr>ix_pipeline := (ix_pipeline x)\<lparr>pp_chunk_fps := touch_fingerprint path
             (the (ev_chunk_files (pipeline_env ie) path)) (pp_chunk_fps (ix_pipeline x))\<rparr>\<rparr>))"
  by (auto simp: chunk_changed_def diff_one empty_diff_def split: file_class.splits option.splits)

lemma meta_changed_result:
  "meta_changed ie path x =
     (case class_of (ev_meta_files (pipeline_env ie)) (pp_meta_fps (ix_pipeline x)) path of
        New \<Rightarrow> (Inr True, x)
      | Modified \<Rightarrow> (case ev_meta_files (pipeline_env ie) path of
          None \<Rightarrow> (Inl (FileNotFoundError path), x) | Some _ \<Rightarrow> (Inr True, x))
      | Unchanged \<Rightarrow> (Inr False,
          if fingerprinted (ev_meta_files (pipeline_env ie)) path (pp_meta_fps (ix_pipeline x)) then x
          else x\<lparr>ix_pipeline := (ix_pipeline x)\<lparr>pp_meta_fps := touch_fingerprint path
             (the (ev_meta_files (pipeline_env ie) path)) (pp_meta_fps (ix_pipeline x))\<rparr>\<rparr>))"
  by (auto simp: meta_changed_def diff_one empty_diff_def split: file_class.splits option.splits)

lemma active_not_rebound:
  assumes "sd_namespace d = ''filesystem''" and "get_resource_binding (pp_store p) ''filesystem'' (sd_document_ref d) = Inr (Some b)"
    and "rb_active b"
  shows "rebind_retained_filesystem_document env now d p = (Inr no_rebind, p)"
  using assms by (simp add: rebind_retained_filesystem_document_def retained_binding_def)

lemma index_file_settled:
  assumes "file_info_and_source_document ie target = Inr (Some (fi, d))" and "settled ie fi d x"
  shows "index_file ie now target x = (Inr 0, x)"
proof -
  note doc = document_facts [OF target_document [OF assms(1)]]
  obtain b where "get_resource_binding (ix_store x) ''filesystem'' (sd_document_ref d) = Inr (Some b)" "rb_active b"
    using assms(2) by (auto simp: settled_def)
  then have "rebind_retained_filesystem_document (pipeline_env ie) now d (ix_pipeline x) = (Inr no_rebind, ix_pipeline x)"
    using active_not_rebound doc(1) by blast
  moreover have "chunk_changed ie (fi_path fi) x = (Inr False, x)" "meta_changed ie (fi_path fi) x = (Inr False, x)"
    using assms(2) by (simp_all add: settled_def chunk_changed_result meta_changed_result fingerprinted_unchanged)
  ultimately show ?thesis using assms(1) by (simp add: index_file_def index_metadata_def)
qed

section \<open>Frames of the steps\<close>

lemma set_fields [simp]:
  "ix_pipeline (set_components t x) = ix_pipeline x" "ix_pipeline (set_encoder e x) = ix_pipeline x"
  "ix_pipeline (set_embedding st x) = ix_pipeline x" "ix_embedding (set_store s x) = ix_embedding x"
  "ix_store (set_store s x) = s" "pp_chunk_fps (ix_pipeline (set_store s x)) = pp_chunk_fps (ix_pipeline x)"
  "pp_meta_fps (ix_pipeline (set_store s x)) = pp_meta_fps (ix_pipeline x)"
  "ix_embedding (fingerprint_chunks ie now fi x) = ix_embedding x"
  "ix_store (fingerprint_chunks ie now fi x) = ix_store x"
  "pp_meta_fps (ix_pipeline (fingerprint_chunks ie now fi x)) = pp_meta_fps (ix_pipeline x)"
  by (simp_all add: set_components_def set_encoder_def set_embedding_def set_store_def fingerprint_chunks_def
      save_chunk_fingerprint_def)

lemma set_embedding_pipeline [simp]:
  "set_embedding st x\<lparr>ix_pipeline := ix_pipeline x\<rparr> = set_embedding st x"
  by (simp add: set_embedding_def)

lemma store_components_pipeline:
  "store_components ie c vs x = (r, x') \<Longrightarrow> ix_pipeline x' = ix_pipeline x"
  by (induction vs arbitrary: x) (fastforce split: sum.splits)+

lemma embed_meta_pipeline:
  "embed_meta_component ie fi x = (r, x') \<Longrightarrow> ix_pipeline x' = ix_pipeline x"
  by (auto simp: embed_meta_component_def store_meta_component_def split: sum.splits prod.splits list.splits
      dest!: store_components_pipeline)

lemma text_vectors_pipeline:
  "text_vectors_full ie now cs x = (r, x') \<Longrightarrow> ix_pipeline x' = ix_pipeline x"
  "text_vectors_cached ie now cs x = (r, x') \<Longrightarrow> ix_pipeline x' = ix_pipeline x"
  by (auto simp: text_vectors_full_def text_vectors_cached_def Let_def split: sum.splits prod.splits if_splits)

lemma embed_loaded_success:
  assumes "embed_loaded ie now fi body chunks x = (Inr (), x')"
  shows "\<exists>d s. source_document_for_file_info ie fi = Inr d
    \<and> upsert_active_filesystem_binding d (upsert_source_document d (ix_store x)) = Inr s
    \<and> ix_pipeline x' = save_meta_fingerprint (pipeline_env ie) now (fi_path fi) ((ix_pipeline x)\<lparr>pp_store := s\<rparr>)"
  using assms
  by (auto simp: embed_loaded_def write_vectors_def store_meta_component_def Let_def set_store_def
      split: sum.splits prod.splits if_splits
      dest!: text_vectors_pipeline embed_meta_pipeline store_components_pipeline)

lemma active_binding_valid:
  assumes "source_document_for_file_info ie fi = Inr d"
  shows "validate_resource_binding (active_binding d us j) = Inr (active_binding d us j)"
  using document_facts [OF assms] by (simp add: validate_resource_binding_def active_binding_def)

text \<open>Another state of the embedding service.\<close>

abbreviation with_post :: "(string list \<Rightarrow> http_result) \<Rightarrow> indexing_env \<Rightarrow> indexing_env" where
  "with_post post ie \<equiv> ie\<lparr>ie_embedding := (ie_embedding ie)\<lparr>em_post := post\<rparr>\<rparr>"

lemma post_pipeline_env [simp]: "pipeline_env (with_post post ie) = pipeline_env ie"
  by (simp add: pipeline_env_def)

lemma post_source_document [simp]: "source_document_for_file_info (with_post post ie) = source_document_for_file_info ie"
  by (rule ext) (simp add: source_document_for_file_info_def cong: if_cong)

lemma post_target [simp]: "file_info_and_source_document (with_post post ie) = file_info_and_source_document ie"
  by (intro ext) (simp add: file_info_and_source_document_def info_of_path_def Let_def
      cong: index_target.case_cong option.case_cong sum.case_cong if_cong)

lemma indexed_is_settled:
  assumes "index_file ie now target x = (Inr n, x')" and "n \<noteq> 0"
  shows "\<exists>fi d. file_info_and_source_document ie target = Inr (Some (fi, d)) \<and> settled ie fi d x'"
proof -
  obtain fi d p x1 chunks x2 where fi: "file_info_and_source_document ie target = Inr (Some (fi, d))"
    and chunks: "rechunk_file ie now fi d x1 = (Inr chunks, x2)" "chunks \<noteq> []"
    and embed: "index_file_embed ie now fi chunks True True x2 = (Inr (), x')"
    using assms by (auto simp: index_file_def index_body_def index_metadata_def
        split: sum.splits option.splits prod.splits bool.splits if_splits)
  note doc = document_facts [OF target_document [OF fi]]
  then obtain f where f: "ie_disk ie (fi_path fi) = Some f" by blast
  have files: "\<exists>st. ev_chunk_files (pipeline_env ie) (fi_path fi) = Some st"
    "\<exists>st. ev_meta_files (pipeline_env ie) (fi_path fi) = Some st"
    by (simp_all add: pipeline_env_def tracked_files_def f)
  have cfp: "fingerprinted (ev_chunk_files (pipeline_env ie)) (fi_path fi) (pp_chunk_fps (ix_pipeline x2))"
    using chunks files(1) by (auto simp: rechunk_file_def Let_def fingerprint_chunks_def save_chunk_fingerprint_def
        fingerprinted_save split: sum.splits prod.splits if_splits)
  have "embed_loaded ie now fi True chunks x2 = (Inr (), x')"
    using embed chunks(2) by (simp add: index_file_embed_def)
  from embed_loaded_success [OF this] obtain s where
    s: "upsert_active_filesystem_binding d (upsert_source_document d (ix_store x2)) = Inr s"
    and x': "ix_pipeline x' = save_meta_fingerprint (pipeline_env ie) now (fi_path fi) ((ix_pipeline x2)\<lparr>pp_store := s\<rparr>)"
    using target_document [OF fi] by auto
  have binding: "get_resource_binding s ''filesystem'' (sd_document_ref d) = Inr (Some (active_binding d [] []))"
    using s active_binding_valid [OF target_document [OF fi]] doc(1)
    by (auto simp: upsert_active_filesystem_binding_def make_binding_def get_resource_binding_def
        upsert_resource_binding_def sql_simps active_binding_def binding_key_def)
  have "rb_active (active_binding d [] [])" by (simp add: active_binding_def)
  then have "settled ie fi d x'"
    using binding cfp files(2) unfolding settled_def x'
    by (auto simp: save_meta_fingerprint_def fingerprinted_save)
  with fi show ?thesis by blast
qed

text \<open>
  C10: Indexing settles.  After a run that returned chunks, further runs on the unchanged disk
  return 0 and leave the database, the embedding caches and the fingerprints exactly as they
  are, at any time and whatever has become of the embedding service.
\<close>

theorem index_file_settles:
  assumes "index_file ie now target x = (Inr n, x')" and "n \<noteq> 0"
  shows "index_file (ie\<lparr>ie_embedding := (ie_embedding ie)\<lparr>em_post := post'\<rparr>\<rparr>) now' target x' = (Inr 0, x')"
proof -
  obtain fi d where fi: "file_info_and_source_document ie target = Inr (Some (fi, d))" and "settled ie fi d x'"
    using indexed_is_settled [OF assms] by blast
  then have "settled (with_post post' ie) fi d x'" by (simp add: settled_def)
  with index_file_settled [of "with_post post' ie" target fi d x'] fi show ?thesis by simp
qed

section \<open>Failures\<close>

lemma delete_m2m_bindings:
  "delete_m2m_for_file st f s = Inr (o', s') \<Longrightarrow> st_bindings s' = st_bindings s"
  by (auto simp: delete_m2m_for_file_def try_bind_Inr_iff Let_def split: if_splits)

lemma cleanup_strategy_bindings:
  "cleanup_strategy doc f st s = Inr (o', s') \<Longrightarrow> st_bindings s' = st_bindings s"
  by (auto simp: cleanup_strategy_def delete_orphan_chunks_def try_bind_Inr_iff Let_def
      delete_chunk_provenance_def delete_chunk_provenance_for_document_def
      split: if_splits option.splits dest!: delete_m2m_bindings)

lemma cleanup_strategies_bindings:
  "cleanup_strategies doc f sts acc s = Inr (o', s') \<Longrightarrow> st_bindings s' = st_bindings s"
  by (induction sts arbitrary: acc s) (fastforce simp: try_bind_Inr_iff dest: cleanup_strategy_bindings)+

lemma cleanup_bindings:
  assumes "transaction (holder_aware_chunk_cleanup env f) s = (r, s')"
  shows "st_bindings s' = st_bindings s"
  using assms
  by (auto simp: transaction_def holder_aware_chunk_cleanup_def Let_def delete_source_document_for_file_def
      delete_source_document_def split: sum.splits dest!: cleanup_strategies_bindings)

lemma write_chunks_bindings:
  "write_chunks st f cs s = Inr s' \<Longrightarrow> st_bindings s' = st_bindings s"
proof (induction cs arbitrary: s)
  case Nil
  then show ?case by simp
next
  case (Cons c cs)
  then obtain s1 s2 s3 where steps:
    "insert_chunk st (ch_chunk_id c) (ch_heading_hierarchy c) (ch_level c) (ch_text c) s = Inr s1"
    "add_file_path st (ch_chunk_id c) f (ch_chunk_index c) s1 = Inr s2"
    "persist_one_chunk_source_provenance st c s2 = Inr s3"
    "write_chunks st f cs s3 = Inr s'"
    by (auto simp: try_bind_Inr_iff)
  have "st_bindings s3 = st_bindings s"
    using steps(1-3) by (auto simp: insert_chunk_def add_file_path_def try_bind_Inr_iff
        persist_one_chunk_source_provenance_def add_chunk_provenance_def split: option.splits if_splits)
  with Cons.IH [OF steps(4)] show ?case by simp
qed

lemma write_file_chunks_bindings:
  "write_file_chunks st f d cs s = (r, s') \<Longrightarrow> st_bindings s' = st_bindings s"
  by (auto simp: write_file_chunks_def transaction_def try_bind_Inr_iff ensure_m2m_table_def
      ensure_chunk_source_provenance_table_def upsert_source_document_def
      split: sum.splits dest!: write_chunks_bindings)

lemma rechunk_bindings:
  assumes "rechunk_file ie now fi d x = (r, x')"
  shows "st_bindings (ix_store x') = st_bindings (ix_store x)"
  using assms
  by (auto simp: rechunk_file_def Let_def split: sum.splits prod.splits if_splits
      dest!: cleanup_bindings write_file_chunks_bindings)

lemma rechunk_fingerprinted:
  assumes "rechunk_file ie now fi d x = (Inr chunks, x')" and "ie_disk ie (fi_path fi) \<noteq> None"
  shows "fingerprinted (ev_chunk_files (pipeline_env ie)) (fi_path fi) (pp_chunk_fps (ix_pipeline x'))
    \<and> pp_meta_fps (ix_pipeline x') = pp_meta_fps (ix_pipeline x) \<and> ix_embedding x' = ix_embedding x"
proof -
  obtain f where f: "ie_disk ie (fi_path fi) = Some f" using assms(2) by blast
  have "\<exists>st. ev_chunk_files (pipeline_env ie) (fi_path fi) = Some st"
    by (simp add: pipeline_env_def tracked_files_def f)
  with assms(1) show ?thesis
    by (auto simp: rechunk_file_def Let_def fingerprint_chunks_def save_chunk_fingerprint_def
        fingerprinted_save set_store_def split: sum.splits prod.splits if_splits)
qed

text \<open>
  C28: A body edit whose embedding fails is forgotten.  The chunk fingerprint is saved before
  the vectors are computed, so when only the body of an indexed file changed and the encoder
  then raises, the call raises but the file counts as processed: later calls return 0, with
  the new chunks stored and no text vector for them, also when the service is back.
\<close>

theorem embed_failure_not_retried:
  assumes "file_info_and_source_document ie target = Inr (Some (fi, d))"
    and "get_resource_binding (ix_store x) ''filesystem'' (sd_document_ref d) = Inr (Some b)" and "rb_active b"
    and "class_of (ev_chunk_files (pipeline_env ie)) (pp_chunk_fps (ix_pipeline x)) (fi_path fi) = Modified"
    and "class_of (ev_meta_files (pipeline_env ie)) (pp_meta_fps (ix_pipeline x)) (fi_path fi) = Unchanged"
    and "rechunk_file ie now fi d x = (Inr chunks, x1)" and "chunks \<noteq> []"
    and "embed_chunks (ie_embedding ie) now chunks (ix_embedding x1) = (Inl e, st)"
  shows "\<exists>x' x''. index_file ie now target x = (Inl e, x')
    \<and> index_file (ie\<lparr>ie_embedding := (ie_embedding ie)\<lparr>em_post := post'\<rparr>\<rparr>) now' target x' = (Inr 0, x'')
    \<and> ix_store x' = ix_store x1 \<and> ix_store x'' = ix_store x1 \<and> ix_embedding x'' = st"
proof -
  note doc = document_facts [OF target_document [OF assms(1)]]
  have exists: "ev_chunk_files (pipeline_env ie) (fi_path fi) \<noteq> None"
    using doc(6) by (simp add: pipeline_env_def tracked_files_def)
  have reb: "rebind_retained_filesystem_document (pipeline_env ie) now d (ix_pipeline x) = (Inr no_rebind, ix_pipeline x)"
    by (rule active_not_rebound [OF doc(1) assms(2,3)])
  have chg: "chunk_changed ie (fi_path fi) x = (Inr True, x)"
    using exists by (auto simp: chunk_changed_result assms(4))
  have "index_file_embed ie now fi chunks True True x1 = (Inl e, set_embedding st x1)"
    using assms(7,8) by (simp add: index_file_embed_def embed_loaded_def text_vectors_full_def)
  then have run: "index_file ie now target x = (Inl e, set_embedding st x1)"
    using assms(1,6,7) reb chg by (simp add: index_file_def index_body_def)
  let ?x' = "set_embedding st x1" and ?ie' = "with_post post' ie"
  have fp: "fingerprinted (ev_chunk_files (pipeline_env ie)) (fi_path fi) (pp_chunk_fps (ix_pipeline ?x'))"
    and meta: "pp_meta_fps (ix_pipeline x1) = pp_meta_fps (ix_pipeline x)"
    using rechunk_fingerprinted [OF assms(6) doc(6)] by simp_all
  have "get_resource_binding (ix_store ?x') ''filesystem'' (sd_document_ref d) = Inr (Some b)"
    using assms(2) rechunk_bindings [OF assms(6)] by (simp add: get_resource_binding_def)
  then have reb': "rebind_retained_filesystem_document (pipeline_env ?ie') now' d (ix_pipeline ?x') = (Inr no_rebind, ix_pipeline ?x')"
    using active_not_rebound [OF doc(1) _ assms(3)] by blast
  have chg': "chunk_changed ?ie' (fi_path fi) ?x' = (Inr False, ?x')"
    using fp by (simp add: chunk_changed_result fingerprinted_unchanged)
  obtain x'' where mc: "meta_changed ?ie' (fi_path fi) ?x' = (Inr False, x'')"
    and x'': "ix_store x'' = ix_store ?x'" "ix_embedding x'' = ix_embedding ?x'"
    using assms(5) by (auto simp: meta_changed_result meta)
  have "index_file ?ie' now' target ?x' = (Inr 0, x'')"
    using assms(1) reb' chg' mc by (simp add: index_file_def index_metadata_def)
  with run x'' show ?thesis by (auto simp: set_embedding_def)
qed

section \<open>What is stored\<close>

definition holder_row :: "string \<Rightarrow> chunk \<Rightarrow> m2m_row" where
  "holder_row f c = \<lparr>mm_chunk_id = ch_chunk_id c, mm_file_path = f, mm_chunk_index = ch_chunk_index c\<rparr>"

definition content_row :: "chunk \<Rightarrow> chunk_row" where
  "content_row c = \<lparr>cr_chunk_id = ch_chunk_id c, cr_heading_hierarchy = ch_heading_hierarchy c,
     cr_level = ch_level c, cr_text = ch_text c\<rparr>"

definition has_provenance :: "string \<Rightarrow> store \<Rightarrow> bool" where
  "has_provenance st s \<longleftrightarrow> dict_get (st_prov s) (prov_table st) \<noteq> None"

lemma write_chunks_result:
  assumes "has_holders st s" and "has_content st s" and "has_provenance st s" and "ev_strategy env = st"
    and "list_all (\<lambda>c. ch_provenance c = Some (filesystem_chunk_provenance env d)) cs"
  shows "\<exists>s'. write_chunks st f cs s = Inr s' \<and> same_rest s s' \<and> (\<forall>st'. st' \<noteq> st \<longrightarrow> untouched st' s s')
    \<and> holder_rows st s' = fold (insert_or_ignore m2m_key) (map (holder_row f) cs) (holder_rows st s)
    \<and> content_rows st s' = fold (insert_or_ignore cr_chunk_id) (map content_row cs) (content_rows st s)
    \<and> prov_rows st s' = fold (insert_or_replace prov_key) (map (\<lambda>c. written_row env d (ch_chunk_id c)) cs) (prov_rows st s)"
  using assms
proof (induction cs arbitrary: s)
  case Nil
  then show ?case by (simp add: untouched_def)
next
  case (Cons c cs)
  have hs: "table_of (st_m2m s) (m2m_table st) = Inr (holder_rows st s)"
    using Cons.prems(1) by (auto simp: has_holders_def table_of_def holder_rows_def)
  have cs': "table_of (st_chunks s) (chunk_table st) = Inr (content_rows st s)"
    using Cons.prems(2) by (auto simp: has_content_def table_of_def content_rows_def)
  have ps: "table_of (st_prov s) (prov_table st) = Inr (prov_rows st s)"
    using Cons.prems(3) by (auto simp: has_provenance_def table_of_def prov_rows_def)
  let ?s1 = "s\<lparr>st_chunks := dict_set (chunk_table st) (insert_or_ignore cr_chunk_id (content_row c) (content_rows st s)) (st_chunks s),
      st_m2m := dict_set (m2m_table st) (insert_or_ignore m2m_key (holder_row f c) (holder_rows st s)) (st_m2m s),
      st_prov := dict_set (prov_table st) (insert_or_replace prov_key (written_row env d (ch_chunk_id c)) (prov_rows st s)) (st_prov s)\<rparr>"
  have step: "write_chunks st f (c # cs) s = write_chunks st f cs ?s1"
    using Cons.prems(4,5) hs cs' ps
    by (simp add: get_stored_payload_def insert_chunk_def add_file_path_def persist_one_chunk_source_provenance_def
        add_chunk_provenance_def filesystem_chunk_provenance_def written_row_def holder_row_def content_row_def)
  have rest: "same_rest s ?s1"
    using Cons.prems(1-3) by (auto simp: same_rest_def keys_dict_set has_holders_def has_content_def has_provenance_def)
  have rows: "holder_rows st' ?s1 = (if st' = st then insert_or_ignore m2m_key (holder_row f c) (holder_rows st s) else holder_rows st' s)"
    "content_rows st' ?s1 = (if st' = st then insert_or_ignore cr_chunk_id (content_row c) (content_rows st s) else content_rows st' s)"
    "prov_rows st' ?s1 = (if st' = st then insert_or_replace prov_key (written_row env d (ch_chunk_id c)) (prov_rows st s) else prov_rows st' s)"
    for st' by (simp_all add: holder_rows_def content_rows_def prov_rows_def)
  have tables: "has_holders st ?s1" "has_content st ?s1" "has_provenance st ?s1"
    by (simp_all add: has_holders_def has_content_def has_provenance_def)
  have prov: "list_all (\<lambda>c. ch_provenance c = Some (filesystem_chunk_provenance env d)) cs"
    using Cons.prems(5) by simp
  obtain s' where s': "write_chunks st f cs ?s1 = Inr s'" "same_rest ?s1 s'" "\<forall>st'. st' \<noteq> st \<longrightarrow> untouched st' ?s1 s'"
    "holder_rows st s' = fold (insert_or_ignore m2m_key) (map (holder_row f) cs) (holder_rows st ?s1)"
    "content_rows st s' = fold (insert_or_ignore cr_chunk_id) (map content_row cs) (content_rows st ?s1)"
    "prov_rows st s' = fold (insert_or_replace prov_key) (map (\<lambda>c. written_row env d (ch_chunk_id c)) cs) (prov_rows st ?s1)"
    using Cons.IH [OF tables Cons.prems(4) prov] by blast
  have "untouched st' s s'" if "st' \<noteq> st" for st'
    using s'(3) that rows [of st'] by (simp add: untouched_def)
  moreover have "same_rest s s'" using same_rest_trans [OF rest s'(2)] .
  ultimately show ?case
    unfolding step using s'(1,4-6) rows [of st] by (intro exI [of _ s']) simp
qed

lemma fold_insert_new:
  "distinct (map key rs) \<Longrightarrow> key ` set rs \<inter> key ` set t = {} \<Longrightarrow> fold (insert_or_ignore key) rs t = t @ rs"
proof (induction rs arbitrary: t)
  case Nil
  then show ?case by simp
next
  case (Cons r rs)
  then have "insert_or_ignore key r t = t @ [r]" by (auto simp: insert_or_ignore_def)
  with Cons show ?case by auto
qed

lemma chunks_of_file_shape:
  "map ch_chunk_index (chunks_of_file ie fi d content) = [0 ..< length (chunks_of_file ie fi d content)]"
  "list_all (\<lambda>c. ch_provenance c = Some (filesystem_chunk_provenance (pipeline_env ie) d)) (chunks_of_file ie fi d content)"
proof -
  have "map ch_chunk_index (map2 (\<lambda>(level, path, t) j. new_chunk b p h level path t j) xs [i ..< i + length xs]) = [i ..< i + length xs]"
    for b p h and xs :: "(nat \<times> string list \<times> string) list" and i
    by (rule nth_equalityI) (auto simp: new_chunk_def case_prod_unfold)
  from this [of _ _ _ _ 0] show "map ch_chunk_index (chunks_of_file ie fi d content) = [0 ..< length (chunks_of_file ie fi d content)]"
    by (simp add: chunks_of_file_def chunk_file_items)
  show "list_all (\<lambda>c. ch_provenance c = Some (filesystem_chunk_provenance (pipeline_env ie) d)) (chunks_of_file ie fi d content)"
    by (auto simp: chunks_of_file_def chunk_file_items list_all_iff new_chunk_def chunk_params_of_def)
qed

lemma rows_ok:
  assumes "store_ok s"
  shows "pk_ok cr_chunk_id (content_rows st s)" "pk_ok m2m_key (holder_rows st s)"
  using assms by (auto simp: store_ok_def content_rows_def holder_rows_def split: option.splits dest!: map_of_SomeD)

lemma written_rows_kept:
  assumes "pk_ok prov_key t" and "i \<in> set is"
  shows "written_row env d i \<in> set (fold (insert_or_replace prov_key) (map (written_row env d) is) t)"
proof -
  let ?rs = "map (written_row env d) is" and ?k = "prov_key (written_row env d i)"
  have "fetch_key prov_key (fold (insert_or_replace prov_key) ?rs t) ?k = find (\<lambda>r. prov_key r = ?k) (rev ?rs)"
    using assms by (intro replace_table.fold_last) auto
  moreover obtain r where r: "find (\<lambda>r. prov_key r = ?k) (rev ?rs) = Some r"
    using assms(2) by (cases "find (\<lambda>r. prov_key r = ?k) (rev ?rs)") (auto simp: find_None_iff)
  moreover have "r = written_row env d i"
    using find_Some_iff_set [OF r] by (auto simp: prov_key_def written_row_def)
  ultimately show ?thesis by (auto dest: fetch_key_in)
qed

lemma cleanup_success:
  assumes "store_ok s" and "transaction (holder_aware_chunk_cleanup env f) s = (Inr o', s')"
  shows "same_rest (delete_source_document ''filesystem'' (ev_resolve env f) s) s'
    \<and> (\<forall>st. (has_holders st s \<longrightarrow> purged (ev_resolve env f) f st s s') \<and> (\<not> has_holders st s \<longrightarrow> untouched st s s'))"
proof (cases "list_all (can_clean f s) (present_strategies s)")
  case True
  then show ?thesis
    using holder_aware_cleanup_result [OF assms(1) True, of env] assms(2) by (auto simp: transaction_def)
next
  case False
  let ?s1 = "delete_source_document ''filesystem'' (ev_resolve env f) s"
  have "list_all (\<lambda>st. has_holders st ?s1) (present_strategies ?s1)"
    and "\<not> list_all (can_clean f ?s1) (present_strategies ?s1)"
    using False by (auto simp: list_all_iff present_strategies_iff)
  with distinct_present_strategies [OF assms(1)] obtain e where
    "cleanup_strategies (ev_resolve env f) f (present_strategies ?s1) [] ?s1 = Inl e"
    using cleanup_strategies_error [of "present_strategies ?s1" ?s1 f "ev_resolve env f" "[]"] by auto
  then show ?thesis
    using assms(2) by (simp add: transaction_def holder_aware_chunk_cleanup_def Let_def
        delete_source_document_for_file_def meta_entity_id_def)
qed

lemma cleanup_rows:
  assumes "store_ok s" and "transaction (holder_aware_chunk_cleanup env f) s = (Inr o', s')"
  shows "holder_rows st s' = filter (\<lambda>m. mm_file_path m \<noteq> f) (holder_rows st s)"
    "content_rows st s' = filter (\<lambda>c. cr_chunk_id c \<notin> held_only_by f (holder_rows st s)) (content_rows st s)"
    "pk_ok prov_key (prov_rows st s')"
proof -
  have rows: "(has_holders st s \<longrightarrow> purged (ev_resolve env f) f st s s') \<and> (\<not> has_holders st s \<longrightarrow> untouched st s s')"
    using cleanup_success [OF assms] by blast
  have "held_only_by f [] = {}" by (simp add: held_only_by_def)
  with rows show "holder_rows st s' = filter (\<lambda>m. mm_file_path m \<noteq> f) (holder_rows st s)"
    "content_rows st s' = filter (\<lambda>c. cr_chunk_id c \<notin> held_only_by f (holder_rows st s)) (content_rows st s)"
    by (cases "has_holders st s"; simp add: purged_def untouched_def delete_where_def missing_rows)+
  have "pk_ok prov_key (prov_rows st s)" using assms(1) by (rule prov_rows_ok)
  with rows show "pk_ok prov_key (prov_rows st s')"
    by (cases "has_holders st s") (auto simp: purged_def untouched_def)
qed

lemma ensure_rows [simp]:
  "holder_rows st (ensure_chunk_source_provenance_table n (ensure_m2m_table n s)) = holder_rows st s"
  "content_rows st (ensure_chunk_source_provenance_table n (ensure_m2m_table n s)) = content_rows st s"
  "prov_rows st (ensure_chunk_source_provenance_table n (ensure_m2m_table n s)) = prov_rows st s"
  "prov_rows st (ensure_m2m_table n s) = prov_rows st s"
  "has_holders n (ensure_chunk_source_provenance_table n (ensure_m2m_table n s))"
  "has_provenance n (ensure_chunk_source_provenance_table n (ensure_m2m_table n s))"
  by (auto simp: holder_rows_def content_rows_def prov_rows_def ensure_chunk_source_provenance_table_def
      ensure_m2m_table_def ensure_table_def has_holders_def has_provenance_def split: option.splits)

lemma document_rows [simp]:
  "holder_rows st (upsert_source_document d s) = holder_rows st s"
  "content_rows st (upsert_source_document d s) = content_rows st s"
  "prov_rows st (upsert_source_document d s) = prov_rows st s"
  "has_holders st (upsert_source_document d s) = has_holders st s"
  "has_provenance st (upsert_source_document d s) = has_provenance st s"
  "content_rows st (upsert_resource_binding b s) = content_rows st s"
  by (simp_all add: holder_rows_def content_rows_def prov_rows_def upsert_source_document_def has_holders_def
      has_provenance_def upsert_resource_binding_def)

text \<open>A successful write transaction on tables that hold nothing of the file.\<close>

lemma write_file_chunks_success:
  assumes "write_file_chunks st f d cs s = (Inr (), s')" and "cs \<noteq> []" and "ev_strategy env = st"
    and "list_all (\<lambda>c. ch_provenance c = Some (filesystem_chunk_provenance env d)) cs"
  shows "holder_rows st s' = fold (insert_or_ignore m2m_key) (map (holder_row f) cs) (holder_rows st s)
    \<and> content_rows st s' = fold (insert_or_ignore cr_chunk_id) (map content_row cs) (content_rows st s)
    \<and> prov_rows st s' = fold (insert_or_replace prov_key) (map (\<lambda>c. written_row env d (ch_chunk_id c)) cs) (prov_rows st s)
    \<and> (\<forall>st'. st' \<noteq> st \<longrightarrow> untouched st' s s')"
proof -
  let ?s1 = "upsert_source_document d (ensure_chunk_source_provenance_table st (ensure_m2m_table st s))"
  have run: "write_chunks st f cs ?s1 = Inr s'"
    using assms(1) by (auto simp: write_file_chunks_def transaction_def try_bind_Inr_iff split: sum.splits)
  obtain c cs' where "cs = c # cs'" using assms(2) by (cases cs) auto
  with run have "has_content st ?s1"
    by (auto simp: try_bind_Inr_iff get_stored_payload_def table_of_def has_content_def split: option.splits)
  with write_chunks_result [of st ?s1 env d cs f] assms(3,4) run show ?thesis
    by (auto simp: untouched_def)
qed

lemma rebind_cases:
  assumes "rebind_retained_filesystem_document env now d p = (Inr r, p')" and "sd_file_path d = Some f"
    and "ev_chunk_files env f \<noteq> None"
  shows "p' = p \<or> fingerprinted (ev_chunk_files env) f (pp_chunk_fps p')"
proof -
  obtain st where "ev_chunk_files env f = Some st" using assms(3) by blast
  then show ?thesis
    using assms(1,2)
    by (auto simp: rebind_retained_filesystem_document_def Let_def source_document_to_file_info_def
        save_meta_fingerprint_def save_chunk_fingerprint_def fingerprinted_save
        split: if_splits sum.splits option.splits list.splits prod.splits)
qed

lemma index_file_body:
  assumes "index_file ie now target x = (Inr n, x')" and "n \<noteq> 0"
  shows "\<exists>fi d chunks x1 s. file_info_and_source_document ie target = Inr (Some (fi, d))
    \<and> rechunk_file ie now fi d x = (Inr chunks, x1) \<and> chunks \<noteq> [] \<and> n = length chunks
    \<and> upsert_active_filesystem_binding d (upsert_source_document d (ix_store x1)) = Inr s \<and> ix_store x' = s"
proof -
  obtain fi d r p where fi: "file_info_and_source_document ie target = Inr (Some (fi, d))"
    and reb: "rebind_retained_filesystem_document (pipeline_env ie) now d (ix_pipeline x) = (Inr r, p)"
    and body: "(case chunk_changed ie (fi_path fi) (x\<lparr>ix_pipeline := p\<rparr>) of
          (Inl e, x) \<Rightarrow> (Inl e, x) | (Inr True, x) \<Rightarrow> index_body ie now fi d x
        | (Inr False, x) \<Rightarrow> index_metadata ie now fi x) = (Inr n, x')"
    using assms by (auto simp: index_file_def split: sum.splits option.splits prod.splits)
  note doc = document_facts [OF target_document [OF fi]]
  have exists: "ev_chunk_files (pipeline_env ie) (fi_path fi) \<noteq> None"
    using doc(6) by (simp add: pipeline_env_def tracked_files_def)
  have no_meta: "index_metadata ie now fi y \<noteq> (Inr n, x')" for y
    using assms(2) by (auto simp: index_metadata_def split: sum.splits prod.splits bool.splits)
  have "class_of (ev_chunk_files (pipeline_env ie)) (pp_chunk_fps p) (fi_path fi) \<noteq> Unchanged"
    using body no_meta by (auto simp: chunk_changed_result)
  then have "p = ix_pipeline x"
    using rebind_cases [OF reb doc(4) exists] fingerprinted_unchanged by blast
  then have "index_body ie now fi d x = (Inr n, x')"
    using body no_meta exists by (auto simp: chunk_changed_result split: file_class.splits)
  then obtain chunks x1 where chunks: "rechunk_file ie now fi d x = (Inr chunks, x1)" "chunks \<noteq> []" "n = length chunks"
    and embed: "index_file_embed ie now fi chunks True True x1 = (Inr (), x')"
    using assms(2) by (auto simp: index_body_def split: sum.splits prod.splits if_splits)
  then have "embed_loaded ie now fi True chunks x1 = (Inr (), x')" by (simp add: index_file_embed_def)
  from embed_loaded_success [OF this] show ?thesis
    using fi chunks target_document [OF fi] by (auto simp: save_meta_fingerprint_def)
qed

text \<open>
  C1: Indexing a changed file replaces exactly that file's chunks.  A run that returns n
  chunks leaves the file's references equal to the chunks of its content in order, in no
  other strategy; every one is visible to search, and its payload is the row another file
  still held, else the first chunk with that id.  The references of all other files are
  what they were, in every strategy.
\<close>

theorem index_file_stores:
  assumes "store_ok (ix_store x)" and "index_file ie now target x = (Inr n, x')" and "n \<noteq> 0"
  shows "\<exists>fi d content. file_info_and_source_document ie target = Inr (Some (fi, d))
    \<and> read_file (ie_disk ie) (fi_path fi) = Inr content
    \<and> (let chunks = chunks_of_file ie fi d content; st = ie_strategy ie; f = fi_path fi;
          kept = filter (\<lambda>c. cr_chunk_id c \<notin> held_only_by f (holder_rows st (ix_store x))) (content_rows st (ix_store x))
        in n = length chunks
         \<and> filter (\<lambda>m. mm_file_path m = f) (holder_rows st (ix_store x')) = map (holder_row f) chunks
         \<and> list_all (\<lambda>c. chunk_visible (ix_store x') st (ch_chunk_id c)
             \<and> fetch_key cr_chunk_id (content_rows st (ix_store x')) (ch_chunk_id c) =
                 (case fetch_key cr_chunk_id kept (ch_chunk_id c) of Some r \<Rightarrow> Some r
                  | None \<Rightarrow> find (\<lambda>r. cr_chunk_id r = ch_chunk_id c) (map content_row chunks))) chunks
         \<and> (\<forall>st' g. filter (\<lambda>m. mm_file_path m = g) (holder_rows st' (ix_store x')) =
             (if g = f then if st' = st then map (holder_row f) chunks else []
              else filter (\<lambda>m. mm_file_path m = g) (holder_rows st' (ix_store x)))))"
proof -
  obtain fi d chunks x1 s where fi: "file_info_and_source_document ie target = Inr (Some (fi, d))"
    and chunks: "rechunk_file ie now fi d x = (Inr chunks, x1)" "chunks \<noteq> []" "n = length chunks"
    and s: "upsert_active_filesystem_binding d (upsert_source_document d (ix_store x1)) = Inr s" "ix_store x' = s"
    using index_file_body [OF assms(2,3)] by blast
  note doc = document_facts [OF target_document [OF fi]]
  let ?st = "ie_strategy ie" and ?f = "fi_path fi" and ?s = "ix_store x"
  obtain o' s1 content where clean: "transaction (holder_aware_chunk_cleanup (pipeline_env ie) ?f) ?s = (Inr o', s1)"
    and content: "read_file (ie_disk ie) ?f = Inr content" "chunks = chunks_of_file ie fi d content"
    and written: "write_file_chunks ?st ?f d chunks s1 = (Inr (), ix_store x1)"
    using chunks(1,2) by (auto simp: rechunk_file_def Let_def split: sum.splits prod.splits if_splits)
  note rows1 = cleanup_rows [OF assms(1) clean]
  have st: "ev_strategy (pipeline_env ie) = ?st" by (simp add: pipeline_env_def)
  have prov: "list_all (\<lambda>c. ch_provenance c = Some (filesystem_chunk_provenance (pipeline_env ie) d)) chunks"
    unfolding content(2) by (rule chunks_of_file_shape)
  note rows2 = write_file_chunks_success [OF written chunks(2) st prov]
  have s': "s = upsert_resource_binding (active_binding d [] []) (upsert_source_document d (ix_store x1))"
    using s(1) active_binding_valid [OF target_document [OF fi]]
    by (simp add: upsert_active_filesystem_binding_def make_binding_def)
  have rows: "holder_rows t s = holder_rows t (ix_store x1)" "content_rows t s = content_rows t (ix_store x1)"
    "prov_rows t s = prov_rows t (ix_store x1)" for t
    by (simp_all add: s')
  have "distinct (map m2m_key (map (holder_row ?f) chunks))"
  proof -
    have "distinct (map ch_chunk_index chunks)" unfolding content(2) chunks_of_file_shape(1) by simp
    then show ?thesis by (auto simp: distinct_map inj_on_def m2m_key_def holder_row_def)
  qed
  moreover have "m2m_key ` set (map (holder_row ?f) chunks) \<inter> m2m_key ` set (holder_rows ?st s1) = {}"
    by (auto simp: rows1(1) m2m_key_def holder_row_def)
  ultimately have h: "holder_rows ?st s = filter (\<lambda>m. mm_file_path m \<noteq> ?f) (holder_rows ?st ?s) @ map (holder_row ?f) chunks"
    using rows2 rows1(1) [of ?st] by (simp add: rows fold_insert_new)
  have h': "holder_rows t s = filter (\<lambda>m. mm_file_path m \<noteq> ?f) (holder_rows t ?s)" if "t \<noteq> ?st" for t
    using rows2 that rows1(1) [of t] by (simp add: rows untouched_def)
  have refs: "filter (\<lambda>m. mm_file_path m = g) (holder_rows t s) =
      (if g = ?f then if t = ?st then map (holder_row ?f) chunks else []
       else filter (\<lambda>m. mm_file_path m = g) (holder_rows t ?s))" for t g
    by (cases "t = ?st") (auto simp: h h' filter_empty_conv holder_row_def intro!: filter_cong)
  have payload: "fetch_key cr_chunk_id (content_rows ?st s) (ch_chunk_id c) =
      (case fetch_key cr_chunk_id (filter (\<lambda>c. cr_chunk_id c \<notin> held_only_by ?f (holder_rows ?st ?s)) (content_rows ?st ?s)) (ch_chunk_id c) of
         Some r \<Rightarrow> Some r | None \<Rightarrow> find (\<lambda>r. cr_chunk_id r = ch_chunk_id c) (map content_row chunks))"
    if "c \<in> set chunks" for c
  proof -
    have "pk_ok cr_chunk_id (content_rows ?st s1)"
      using rows_ok(1) [OF assms(1), of ?st] by (simp add: rows1(2) pk_ok_def distinct_map_filter_key)
    moreover have "ch_chunk_id c \<in> cr_chunk_id ` set (map content_row chunks)" using that by (force simp: content_row_def)
    ultimately show ?thesis
      using ignore_table.fold_first [of cr_chunk_id "content_rows ?st s1" "ch_chunk_id c" "map content_row chunks"]
        ignore_table.fold_immutable [of cr_chunk_id "content_rows ?st s1" "ch_chunk_id c"] rows2
      by (auto simp: rows rows1(2) split: option.splits)
  qed
  have visible: "chunk_visible s ?st (ch_chunk_id c)" if "c \<in> set chunks" for c
  proof -
    have "written_row (pipeline_env ie) d (ch_chunk_id c) \<in> set (prov_rows ?st s)"
      using written_rows_kept [OF rows1(3) [of ?st], of "ch_chunk_id c" "map ch_chunk_id chunks" "pipeline_env ie" d] that rows2
      by (simp add: rows o_def)
    moreover have "active_binding d [] [] \<in> set (st_bindings s)"
      unfolding s' upsert_resource_binding_def by (auto simp: upsert_def update_where_def image_iff)
    ultimately show ?thesis
      using doc(1) unfolding chunk_visible_def active_row_def
      by (force simp: written_row_def active_binding_def)
  qed
  show ?thesis
    using fi content chunks(3) refs payload visible
    by (intro exI [of _ fi] exI [of _ d] exI [of _ content]) (auto simp: Let_def s(2) list_all_iff)
qed

text \<open>
  An empty \<open>tags:\<close> key stops a file from ever being indexed.  YAML gives null, which the
  graph step iterates; so every run on a new or edited file with such frontmatter and any
  content raises, after its chunks were written, and saves neither fingerprint nor vector,
  so that the next run starts from the same point.
\<close>

theorem null_tags_block_indexing:
  assumes "file_info_and_source_document ie target = Inr (Some (fi, d))"
    and "dict_get (fi_frontmatter fi) ''tags'' = Some JNull"
    and "read_file (ie_disk ie) (fi_path fi) = Inr content" and "chunks_of_file ie fi d content \<noteq> []"
    and "retained_binding d (ix_store x) = Inr None"
    and "class_of (ev_chunk_files (pipeline_env ie)) (pp_chunk_fps (ix_pipeline x)) (fi_path fi) \<noteq> Unchanged"
  shows "\<exists>e x'. index_file ie now target x = (Inl e, x') \<and> ix_embedding x' = ix_embedding x
    \<and> pp_chunk_fps (ix_pipeline x') = pp_chunk_fps (ix_pipeline x)
    \<and> pp_meta_fps (ix_pipeline x') = pp_meta_fps (ix_pipeline x)"
proof -
  note doc = document_facts [OF target_document [OF assms(1)]]
  have exists: "ev_chunk_files (pipeline_env ie) (fi_path fi) \<noteq> None"
    using doc(6) by (simp add: pipeline_env_def tracked_files_def)
  have reb: "rebind_retained_filesystem_document (pipeline_env ie) now d (ix_pipeline x) = (Inr no_rebind, ix_pipeline x)"
    using doc(1) assms(5) by (simp add: rebind_retained_filesystem_document_def)
  have chg: "chunk_changed ie (fi_path fi) x = (Inr True, x)"
    using assms(6) exists by (auto simp: chunk_changed_result split: file_class.splits)
  have "\<exists>e. after_chunks ie fi (chunks_of_file ie fi d content) = Inl e"
    using assms(2) by (cases "ie_extract ie (chunks_of_file ie fi d content)")
      (auto simp: after_chunks_def file_meta_def tags_csv_def frontmatter_rows_def dict_get_default_def)
  then obtain e where e: "after_chunks ie fi (chunks_of_file ie fi d content) = Inl e" by blast
  have "\<exists>e s. rechunk_file ie now fi d x = (Inl e, set_store s x)"
    using assms(3,4) e by (auto simp: rechunk_file_def Let_def split: sum.splits prod.splits)
  then obtain e s where "rechunk_file ie now fi d x = (Inl e, set_store s x)" by blast
  then have "index_file ie now target x = (Inl e, set_store s x)"
    using assms(1) reb chg by (simp add: index_file_def index_body_def)
  then show ?thesis by simp
qed

section \<open>Consistent chunk tables\<close>

text \<open>In every strategy, exactly the chunks some file holds are stored.\<close>

definition consistent :: "store \<Rightarrow> bool" where
  "consistent s \<longleftrightarrow> store_ok s
     \<and> (\<forall>st. mm_chunk_id ` set (holder_rows st s) = cr_chunk_id ` set (content_rows st s))"

lemma delete_provenance_ok:
  "store_ok s \<Longrightarrow> store_ok (delete_chunk_provenance st ids s)"
  "store_ok s \<Longrightarrow> store_ok (delete_chunk_provenance_for_document st ns doc s)"
  by auto

lemma cleanup_strategies_ok:
  "store_ok s \<Longrightarrow> cleanup_strategies doc f sts acc s = Inr (o', s') \<Longrightarrow> store_ok s'"
proof (induction sts arbitrary: acc s)
  case Nil
  then show ?case by simp
next
  case (Cons st sts)
  then obtain orphans s1 where one: "cleanup_strategy doc f st s = Inr (orphans, s1)"
    and rest: "cleanup_strategies doc f sts (if orphans = [] then acc else dict_set st orphans acc) s1 = Inr (o', s')"
    by (auto simp: try_bind_Inr_iff)
  obtain ids s2 where two: "delete_m2m_for_file st f (delete_chunk_provenance_for_document st ''filesystem'' doc s) = Inr (ids, s2)"
    and three: "s1 = s2 \<or> delete_orphan_chunks st ids (delete_chunk_provenance st ids s2) = Inr s1"
    using one by (auto simp: cleanup_strategy_def try_bind_Inr_iff split: if_splits)
  have "store_ok s2" using two delete_provenance_ok(2) [OF Cons.prems(1)] store_ok_delete_m2m_for_file by blast
  then have "store_ok s1" using three delete_provenance_ok(1) store_ok_delete_orphan_chunks by blast
  with Cons.IH rest show ?case by blast
qed

lemma ids_after_cleanup:
  assumes "mm_chunk_id ` set hs = cr_chunk_id ` set cs"
  shows "mm_chunk_id ` set (filter (\<lambda>m. mm_file_path m \<noteq> f) hs) =
    cr_chunk_id ` set (filter (\<lambda>c. cr_chunk_id c \<notin> held_only_by f hs) cs)"
proof -
  have "mm_chunk_id ` set (filter (\<lambda>m. mm_file_path m \<noteq> f) hs) = mm_chunk_id ` set hs - held_only_by f hs"
    by (auto simp: held_only_by_def) (metis (mono_tags, lifting) image_eqI mem_Collect_eq)
  moreover have "cr_chunk_id ` set (filter (\<lambda>c. cr_chunk_id c \<notin> H) cs) = cr_chunk_id ` set cs - H" for H
    by auto
  ultimately show ?thesis using assms by simp
qed

lemma cleanup_consistent:
  assumes "consistent s" and "transaction (holder_aware_chunk_cleanup env f) s = (r, s')"
  shows "consistent s'"
proof (cases r)
  case (Inl e)
  then show ?thesis using assms by (auto simp: transaction_def split: sum.splits)
next
  case (Inr o')
  have ok: "store_ok s" using assms(1) by (simp add: consistent_def)
  have clean: "transaction (holder_aware_chunk_cleanup env f) s = (Inr o', s')" using assms(2) Inr by simp
  then obtain o'' where "cleanup_strategies (meta_entity_id env f) f
      (present_strategies (delete_source_document_for_file (ev_resolve env) f s)) []
      (delete_source_document_for_file (ev_resolve env) f s) = Inr (o'', s')"
    by (auto simp: transaction_def holder_aware_chunk_cleanup_def Let_def split: sum.splits)
  then have "store_ok s'"
    using cleanup_strategies_ok store_ok_delete_source_document [OF ok] unfolding delete_source_document_for_file_def by blast
  moreover have "mm_chunk_id ` set (holder_rows st s') = cr_chunk_id ` set (content_rows st s')" for st
    unfolding cleanup_rows(1,2) [OF ok clean] using assms(1) by (intro ids_after_cleanup) (simp add: consistent_def)
  ultimately show ?thesis by (simp add: consistent_def)
qed

lemma ids_fold_ignore: "key ` set (fold (insert_or_ignore key) rs t) = key ` set rs \<union> key ` set t"
  by (induction rs arbitrary: t) (auto simp: set_insert_or_ignore)

lemma ids_fold_holders:
  "mm_chunk_id ` set (fold (insert_or_ignore m2m_key) rs t) = mm_chunk_id ` set rs \<union> mm_chunk_id ` set t"
proof -
  have "mm_chunk_id ` X = fst ` m2m_key ` X" for X by (simp add: image_image m2m_key_def)
  then show ?thesis by (simp only: ids_fold_ignore image_Un)
qed

lemma write_chunks_ok:
  "store_ok s \<Longrightarrow> write_chunks st f cs s = Inr s' \<Longrightarrow> store_ok s'"
proof (induction cs arbitrary: s)
  case Nil
  then show ?case by simp
next
  case (Cons c cs)
  from Cons.prems(2) obtain s1 s2 s3 where steps:
    "insert_chunk st (ch_chunk_id c) (ch_heading_hierarchy c) (ch_level c) (ch_text c) s = Inr s1"
    "add_file_path st (ch_chunk_id c) f (ch_chunk_index c) s1 = Inr s2"
    "persist_one_chunk_source_provenance st c s2 = Inr s3" "write_chunks st f cs s3 = Inr s'"
    unfolding write_chunks.simps try_bind_Inr_iff by blast
  have "store_ok s2" using steps(1,2) Cons.prems(1) store_ok_insert_chunk store_ok_add_file_path by blast
  then have "store_ok s3"
    using steps(3) store_ok_add_chunk_provenance by (auto simp: persist_one_chunk_source_provenance_def split: option.splits)
  with Cons.IH steps(4) show ?case by blast
qed

lemma write_file_chunks_consistent:
  assumes "consistent s" and "write_file_chunks st f d cs s = (r, s')" and "cs \<noteq> []" and "ev_strategy env = st"
    and "list_all (\<lambda>c. ch_provenance c = Some (filesystem_chunk_provenance env d)) cs"
  shows "consistent s'"
proof (cases r)
  case (Inl e)
  then have "s' = ensure_chunk_source_provenance_table st (ensure_m2m_table st s)"
    using assms(2) by (auto simp: write_file_chunks_def transaction_def split: sum.splits)
  moreover have "store_ok (ensure_chunk_source_provenance_table st (ensure_m2m_table st s))"
    using assms(1) unfolding consistent_def by blast
  ultimately show ?thesis using assms(1) by (simp add: consistent_def)
next
  case (Inr u)
  then have run: "write_file_chunks st f d cs s = (Inr (), s')" using assms(2) by simp
  then have "write_chunks st f cs (upsert_source_document d
      (ensure_chunk_source_provenance_table st (ensure_m2m_table st s))) = Inr s'"
    by (auto simp: write_file_chunks_def transaction_def try_bind_Inr_iff split: sum.splits)
  moreover have "store_ok (upsert_source_document d (ensure_chunk_source_provenance_table st (ensure_m2m_table st s)))"
    using assms(1) unfolding consistent_def by blast
  ultimately have "store_ok s'" using write_chunks_ok by blast
  moreover have "mm_chunk_id ` set (holder_rows st' s') = cr_chunk_id ` set (content_rows st' s')" for st'
  proof (cases "st' = st")
    case True
    have "mm_chunk_id ` set (map (holder_row f) cs) = cr_chunk_id ` set (map content_row cs)"
      by (force simp: holder_row_def content_row_def)
    then show ?thesis
      using True assms(1) write_file_chunks_success [OF run assms(3-5)]
      by (simp only: ids_fold_ignore ids_fold_holders consistent_def)
  next
    case False
    then show ?thesis
      using assms(1) write_file_chunks_success [OF run assms(3-5)] by (simp add: consistent_def untouched_def)
  qed
  ultimately show ?thesis by (simp add: consistent_def)
qed

lemma rechunk_consistent:
  assumes "consistent (ix_store x)" and "rechunk_file ie now fi d x = (r, x')"
  shows "consistent (ix_store x')"
proof -
  obtain r1 s1 where clean: "transaction (holder_aware_chunk_cleanup (pipeline_env ie) (fi_path fi)) (ix_store x) = (r1, s1)"
    by fastforce
  have s1: "consistent s1" using cleanup_consistent [OF assms(1) clean] .
  have "consistent s2" if "write_file_chunks (ie_strategy ie) (fi_path fi) d (chunks_of_file ie fi d content) s1 = (r2, s2)"
    and "chunks_of_file ie fi d content \<noteq> []" for r2 s2 content
    using write_file_chunks_consistent [OF s1 that(1,2), of "pipeline_env ie"] chunks_of_file_shape(2)
    by (simp add: pipeline_env_def)
  with assms(2) s1 show ?thesis
    by (auto simp: rechunk_file_def clean Let_def split: sum.splits prod.splits if_splits)
qed

lemma upsert_consistent:
  "consistent s \<Longrightarrow> consistent (upsert_source_document d s)"
  "consistent s \<Longrightarrow> consistent (upsert_resource_binding b s)"
  by (auto simp: consistent_def)

lemma write_vectors_consistent:
  assumes "consistent (ix_store x)" and "write_vectors ie now fi d tc em x = (r, x')"
  shows "consistent (ix_store x')"
proof -
  have "consistent s'" if "upsert_active_filesystem_binding d (upsert_source_document d (ix_store x)) = Inr s'" for s'
    using that upsert_consistent assms(1) by (auto simp: upsert_active_filesystem_binding_def try_bind_Inr_iff)
  with assms upsert_consistent(1) [OF assms(1), of d] show ?thesis
    by (auto simp: write_vectors_def store_meta_component_def Let_def save_meta_fingerprint_def
        split: sum.splits prod.splits if_splits dest!: store_components_pipeline)
qed

lemma embed_consistent:
  assumes "consistent (ix_store x)" and "index_file_embed ie now fi chunks body meta x = (r, x')"
  shows "consistent (ix_store x')"
proof -
  have "consistent (ix_store x')" if "embed_loaded ie now fi body cs x = (r, x')" for cs
  proof -
    obtain r1 x1 where v: "(if body then text_vectors_full ie now cs x else text_vectors_cached ie now cs x) = (r1, x1)"
      by fastforce
    then have p1: "ix_pipeline x1 = ix_pipeline x"
      using text_vectors_pipeline by (cases body) auto
    obtain r2 x2 where m: "embed_meta_component ie fi x1 = (r2, x2)" by fastforce
    then have p2: "ix_pipeline x2 = ix_pipeline x" using embed_meta_pipeline p1 by fastforce
    have c: "consistent (ix_store x1)" "consistent (ix_store x2)" using assms(1) p1 p2 by simp_all
    show ?thesis
      using that c write_vectors_consistent [OF c(2)] unfolding embed_loaded_def v
      by (auto simp: m split: sum.splits prod.splits)
  qed
  then show ?thesis
    using assms by (auto simp: index_file_embed_def split: if_splits sum.splits)
qed

lemma attach_chunks_consistent:
  assumes "consistent s" and "attach_chunks st prov f refs s = Inr s'"
    and "fst ` set refs \<subseteq> mm_chunk_id ` set (holder_rows st s)"
  shows "consistent s'"
  using assms
proof (induction refs arbitrary: s)
  case Nil
  then show ?case by simp
next
  case (Cons ref refs)
  obtain c i where ref: "ref = (c, i)" by (cases ref)
  obtain s1 s2 where one: "add_file_path st c f i s = Inr s1" and two: "add_chunk_provenance st prov c s1 = Inr s2"
    and rest: "attach_chunks st prov f refs s2 = Inr s'"
    using Cons.prems(2) unfolding ref attach_chunks.simps try_bind_Inr_iff by blast
  have ok: "store_ok s2"
  proof -
    have "store_ok s" using Cons.prems(1) by (simp add: consistent_def)
    from store_ok_add_chunk_provenance [OF store_ok_add_file_path [OF this one] two] show ?thesis .
  qed
  have "content_rows t s2 = content_rows t s" for t
    using one two by (auto simp: content_rows_def add_file_path_def add_chunk_provenance_def try_bind_Inr_iff split: if_splits)
  moreover have holders: "mm_chunk_id ` set (holder_rows t s2) = mm_chunk_id ` set (holder_rows t s)" for t
  proof (cases "t = st")
    case True
    have "holder_rows st s2 = insert_or_ignore m2m_key \<lparr>mm_chunk_id = c, mm_file_path = f, mm_chunk_index = i\<rparr> (holder_rows st s)"
      using one two by (auto simp: holder_rows_def add_file_path_def add_chunk_provenance_def try_bind_Inr_iff
          table_of_def split: if_splits option.splits)
    moreover have "c \<in> mm_chunk_id ` set (holder_rows st s)" using Cons.prems(3) by (simp add: ref)
    ultimately show ?thesis using True by (auto simp: set_insert_or_ignore)
  next
    case False
    then have "holder_rows t s2 = holder_rows t s"
      using one two by (auto simp: holder_rows_def add_file_path_def add_chunk_provenance_def try_bind_Inr_iff split: if_splits)
    then show ?thesis by simp
  qed
  ultimately have "consistent s2" using Cons.prems(1) ok by (simp add: consistent_def)
  with Cons.IH [OF _ rest] Cons.prems(3) holders show ?case by simp
qed

lemma rebind_transaction_consistent:
  assumes "consistent s" and "rebind_transaction env now d b refs s = (r, s')"
    and "fst ` set refs \<subseteq> mm_chunk_id ` set (holder_rows (ev_strategy env) s)"
  shows "consistent s'"
proof -
  have doc: "consistent (upsert_source_document d s)" by (rule upsert_consistent(1) [OF assms(1)])
  have "consistent s1" if "attach_chunks (ev_strategy env) (filesystem_chunk_provenance env d) g refs (upsert_source_document d s) = Inr s1"
    for s1 g using attach_chunks_consistent [OF doc that] assms(3) by simp
  then show ?thesis
    using assms(1,2) upsert_consistent(2)
    by (auto simp: rebind_transaction_def transaction_def try_bind_Inr_iff split: sum.splits)
qed

lemma rebind_store:
  assumes "rebind_retained_filesystem_document env now d p = (r, p')"
  shows "pp_store p' = pp_store p \<or> (\<exists>b refs r'. get_chunk_refs_by_file (pp_store p) (ev_strategy env) (rb_resource_ref b) = Inr refs
    \<and> rebind_transaction env now d b refs (pp_store p) = (r', pp_store p'))"
proof (cases "pp_store p' = pp_store p")
  case False
  then obtain b where b: "sd_namespace d = ''filesystem''" "retained_binding d (pp_store p) = Inr (Some b)"
    using assms by (cases "retained_binding d (pp_store p)")
      (auto simp: rebind_retained_filesystem_document_def split: if_splits option.splits)
  obtain refs where refs: "get_chunk_refs_by_file (pp_store p) (ev_strategy env) (rb_resource_ref b) = Inr refs"
    using assms b False by (cases "get_chunk_refs_by_file (pp_store p) (ev_strategy env) (rb_resource_ref b)")
      (auto simp: rebind_retained_filesystem_document_def)
  obtain r1 s1 where run: "rebind_transaction env now d b refs (pp_store p) = (r1, s1)" by fastforce
  have "pp_store p' = s1"
    using assms b refs run False
    by (cases refs; cases r1) (auto simp: rebind_retained_filesystem_document_def Let_def
        save_meta_fingerprint_def save_chunk_fingerprint_def split: sum.splits)
  with refs run show ?thesis by blast
qed blast

lemma rebind_consistent:
  assumes "consistent (pp_store p)" and "rebind_retained_filesystem_document env now d p = (r, p')"
  shows "consistent (pp_store p')"
proof -
  have "fst ` set refs \<subseteq> mm_chunk_id ` set (holder_rows (ev_strategy env) (pp_store p))"
    if "get_chunk_refs_by_file (pp_store p) (ev_strategy env) f = Inr refs" for refs f
    using that by (auto simp: get_chunk_refs_by_file_def try_bind_Inr_iff table_of_def holder_rows_def split: option.splits)
  then show ?thesis
    using rebind_store [OF assms(2)] rebind_transaction_consistent [OF assms(1)] assms(1) by metis
qed

lemma rebind_all_consistent:
  "consistent (pp_store p) \<Longrightarrow> rebind_retained_filesystem_documents env now ds acc p = (r, p') \<Longrightarrow> consistent (pp_store p')"
proof (induction ds arbitrary: acc p)
  case Nil
  then show ?case by auto
next
  case (Cons d ds)
  obtain r1 p1 where one: "rebind_retained_filesystem_document env now d p = (r1, p1)" by fastforce
  from rebind_consistent [OF Cons.prems(1) one] Cons.IH [of p1] Cons.prems(2) one show ?case
    by (auto split: sum.splits)
qed

lemma deactivate_paths_consistent:
  "consistent s \<Longrightarrow> deactivate_paths env now fs n s = (m, s') \<Longrightarrow> consistent s'"
proof (induction fs arbitrary: n s)
  case Nil
  then show ?case by simp
next
  case (Cons f fs)
  have "consistent s1" if "deactivate_filesystem_binding env now ''file_missing'' f s = Inr s1" for s1
    using that upsert_consistent(2) [OF Cons.prems(1)] by (auto simp: deactivate_filesystem_binding_def Let_def try_bind_Inr_iff)
  then show ?case using Cons.prems Cons.IH by (auto split: sum.splits)
qed

lemma purge_consistent:
  assumes "consistent (pp_store p)" and "purge_file env f p = (r, p')"
  shows "consistent (pp_store p')"
proof -
  obtain r1 s1 where clean: "transaction (holder_aware_chunk_cleanup env f) (pp_store p) = (r1, s1)" by fastforce
  from cleanup_consistent [OF assms(1) clean] assms(2) show ?thesis
    by (auto simp: purge_file_def clean split: sum.splits)
qed

lemma index_file_consistent:
  assumes "consistent (ix_store x)" and "index_file ie now target x = (r, x')"
  shows "consistent (ix_store x')"
proof -
  have changed: "ix_store x2 = ix_store x1" if "chunk_changed ie path x1 = (q, x2) \<or> meta_changed ie path x1 = (q, x2)" for q x1 x2 path
    using that by (auto simp: chunk_changed_def meta_changed_def split: sum.splits prod.splits file_error.splits)
  have meta: "consistent (ix_store x2)" if c: "consistent (ix_store x1)" and run: "index_metadata ie now fi x1 = (q, x2)" for fi x1 q x2
  proof -
    obtain q1 y where y: "meta_changed ie (fi_path fi) x1 = (q1, y)" by fastforce
    then have cy: "consistent (ix_store y)" using changed c by metis
    have "consistent (ix_store z)" if "index_file_embed ie now fi chunks False True y = (q2, z)" for chunks q2 z
      by (rule embed_consistent [OF cy that])
    with run cy y show ?thesis
      by (auto simp: index_metadata_def split: sum.splits prod.splits bool.splits)
  qed
  have body: "consistent (ix_store x2)" if c: "consistent (ix_store x1)" and run: "index_body ie now fi d x1 = (q, x2)" for fi d x1 q x2
  proof -
    obtain q1 y where y: "rechunk_file ie now fi d x1 = (q1, y)" by fastforce
    have cy: "consistent (ix_store y)" by (rule rechunk_consistent [OF c y])
    have "consistent (ix_store z)" if "index_file_embed ie now fi chunks True True y = (q2, z)" for chunks q2 z
      by (rule embed_consistent [OF cy that])
    with run cy y show ?thesis by (auto simp: index_body_def split: sum.splits prod.splits if_splits)
  qed
  show ?thesis
  proof (cases "file_info_and_source_document ie target")
    case (Inl e)
    with assms show ?thesis by (simp add: index_file_def)
  next
    case (Inr t)
    show ?thesis
    proof (cases t)
      case None
      with Inr assms show ?thesis by (simp add: index_file_def)
    next
      case (Some fd)
      obtain fi d where fd: "fd = (fi, d)" by (cases fd)
      obtain r1 p where reb: "rebind_retained_filesystem_document (pipeline_env ie) now d (ix_pipeline x) = (r1, p)" by fastforce
      obtain q x1 where chg: "chunk_changed ie (fi_path fi) (x\<lparr>ix_pipeline := p\<rparr>) = (q, x1)" by fastforce
      have c: "consistent (pp_store p)" by (rule rebind_consistent [OF assms(1) reb])
      then have "consistent (ix_store x1)" using changed [of "fi_path fi" "x\<lparr>ix_pipeline := p\<rparr>" q x1] chg by simp
      moreover have "index_file ie now target x = (case r1 of Inl e \<Rightarrow> (Inl e, x\<lparr>ix_pipeline := p\<rparr>)
          | Inr _ \<Rightarrow> (case q of Inl e \<Rightarrow> (Inl e, x1)
            | Inr changed \<Rightarrow> if changed then index_body ie now fi d x1 else index_metadata ie now fi x1))"
        by (simp add: index_file_def Inr Some fd reb chg split: sum.split bool.split)
      ultimately show ?thesis
        using c assms(2) meta [of x1 fi r x'] body [of x1 fi d r x'] by (cases r1; cases q) (auto split: if_splits)
    qed
  qed
qed

text \<open>The pipeline's operations in any order, for any environment, strategy and clock, whether
  they return or raise; a run starts from an opened empty database and any caches.\<close>

inductive pipeline_step :: "indexer \<Rightarrow> indexer \<Rightarrow> bool" where
  index: "index_file ie now target x = (r, x') \<Longrightarrow> pipeline_step x x'"
| purge: "purge_file env f (ix_pipeline x) = (r1, p) \<Longrightarrow> pipeline_step x (x\<lparr>ix_pipeline := p\<rparr>)"
| sweep: "purge_orphaned_files env now discovered (ix_pipeline x) = (r2, p) \<Longrightarrow> pipeline_step x (x\<lparr>ix_pipeline := p\<rparr>)"
| rebind: "rebind_retained_filesystem_documents env now ds acc (ix_pipeline x) = (r3, p) \<Longrightarrow>
    pipeline_step x (x\<lparr>ix_pipeline := p\<rparr>)"

inductive pipeline_reachable :: "indexer \<Rightarrow> bool" where
  start: "ix_store x = ensure_m2m_table strategy (open_store table_name fts_name empty_database) \<Longrightarrow> pipeline_reachable x"
| step: "pipeline_reachable x \<Longrightarrow> pipeline_step x x' \<Longrightarrow> pipeline_reachable x'"

lemma pipeline_step_consistent:
  "pipeline_step x x' \<Longrightarrow> consistent (ix_store x) \<Longrightarrow> consistent (ix_store x')"
proof (induction rule: pipeline_step.induct)
  case (sweep env now discovered x r2 p)
  obtain n s where "deactivate_paths env now (sort (case discovered of
      Some ds \<Rightarrow> filter (\<lambda>f. f \<notin> set ds) (stored_paths (ix_store x))
    | None \<Rightarrow> filter (\<lambda>f. ev_chunk_files env f = None) (stored_paths (ix_store x)))) 0 (ix_store x) = (n, s)" by fastforce
  from deactivate_paths_consistent [OF sweep.prems this] sweep this show ?case
    by (auto simp: purge_orphaned_files_def Let_def split: if_splits)
qed (auto intro: index_file_consistent purge_consistent rebind_all_consistent)

lemma consistent_empty: "consistent (ensure_m2m_table strategy (open_store n f empty_database))"
proof -
  have "store_ok (ensure_m2m_table strategy (open_store n f empty_database))"
    by (intro store_ok_ensure store_ok_open_store store_ok_empty)
  moreover have "holder_rows st (ensure_m2m_table strategy (open_store n f empty_database)) = []"
    "content_rows st (ensure_m2m_table strategy (open_store n f empty_database)) = []" for st
    by (simp_all add: holder_rows_def content_rows_def ensure_m2m_table_def open_store_def empty_database_def
        backfill_resource_bindings_from_source_documents_def ensure_table_def Let_def)
  ultimately show ?thesis by (simp add: consistent_def)
qed

text \<open>
  Whatever sequence of indexing runs, purges, sweeps and rebinds the pipeline executes,
  with errors and for any number of strategies, the database keeps its primary keys unique
  and stores, in every strategy, exactly the chunks that some file holds: no holder row
  points to a missing chunk, and no chunk is left behind by the file that owned it.
\<close>

theorem pipeline_reachable_consistent:
  assumes "pipeline_reachable x"
  shows "store_ok (ix_store x)
    \<and> mm_chunk_id ` set (holder_rows st (ix_store x)) = cr_chunk_id ` set (content_rows st (ix_store x))"
proof -
  have "consistent (ix_store x)"
    using assms by (induction rule: pipeline_reachable.induct) (auto simp: consistent_empty pipeline_step_consistent)
  then show ?thesis by (simp add: consistent_def)
qed

section \<open>Concrete runs\<close>

definition demo_files :: "rat \<Rightarrow> string \<Rightarrow> disk" where
  "demo_files mtime content path = (if path = ''/n/a.md''
     then Some \<lparr>df_mtime = mtime, df_size = 9, df_content = Some content\<rparr> else None)"

definition demo_yaml :: "string \<Rightarrow> yaml_result" where
  "demo_yaml s = YamlDict [(''tags'', JNull)]"

definition demo_indexing :: "rat \<Rightarrow> string \<Rightarrow> indexing_env" where
  "demo_indexing mtime content = \<lparr>ie_disk = demo_files mtime content, ie_resolve = (\<lambda>p. p), ie_strategy = ''a'',
     ie_yaml = demo_yaml, ie_embedding = demo_embedding_env, ie_max_tokens = 512, ie_overlap_tokens = 50,
     ie_w_text = 1, ie_w_meta = 0, ie_sqrt = (\<lambda>x. x), ie_extract = (\<lambda>_. None)\<rparr>"

definition demo_indexer :: indexer where
  "demo_indexer = \<lparr>ix_pipeline = \<lparr>pp_store = ensure_m2m_table ''a'' (open_store ''chunks_a'' ''fts_a'' empty_database),
     pp_chunk_fps = [], pp_meta_fps = [], pp_last_rebind = None\<rparr>, ix_embedding = demo_embedding_state\<rparr>"

definition demo_target :: index_target where
  "demo_target = GivenPath ''/n/a.md''"

definition demo_indexed :: indexer where
  "demo_indexed = snd (index_file (demo_indexing 1 ''text'') 5 demo_target demo_indexer)"

definition demo_down :: "indexing_env" where
  "demo_down = with_post (\<lambda>_. HttpFailure ''ConnectError'') (demo_indexing 2 ''edited'')"

lemma demo_run: "index_file (demo_indexing 1 ''text'') 5 demo_target demo_indexer = (Inr 1, demo_indexed)"
proof -
  have "fst (index_file (demo_indexing 1 ''text'') 5 demo_target demo_indexer) = Inr 1" by code_simp
  then show ?thesis by (simp add: demo_indexed_def prod_eq_iff)
qed

theorem index_file_settles_witness:
  "index_file ((demo_indexing 1 ''text'')\<lparr>ie_embedding := (ie_embedding (demo_indexing 1 ''text''))
      \<lparr>em_post := \<lambda>_. HttpStatus 500\<rparr>\<rparr>) 9 demo_target demo_indexed = (Inr 0, demo_indexed)"
  by (rule index_file_settles [OF demo_run]) simp

theorem index_file_stores_witness:
  "\<exists>f (c :: chunk). map mm_chunk_id (filter (\<lambda>m. mm_file_path m = f) (holder_rows ''a'' (ix_store demo_indexed))) = [ch_chunk_id c]
    \<and> chunk_visible (ix_store demo_indexed) ''a'' (ch_chunk_id c)"
proof -
  have "store_ok (ix_store demo_indexer)"
    using consistent_empty by (simp add: demo_indexer_def consistent_def)
  from index_file_stores [OF this demo_run] obtain fi d content where
    "1 = length (chunks_of_file (demo_indexing 1 ''text'') fi d content)"
    "filter (\<lambda>m. mm_file_path m = fi_path fi) (holder_rows ''a'' (ix_store demo_indexed)) =
       map (holder_row (fi_path fi)) (chunks_of_file (demo_indexing 1 ''text'') fi d content)"
    "list_all (\<lambda>c. chunk_visible (ix_store demo_indexed) ''a'' (ch_chunk_id c))
       (chunks_of_file (demo_indexing 1 ''text'') fi d content)"
    by (auto simp: Let_def demo_indexing_def list_all_iff)
  then obtain c where "chunks_of_file (demo_indexing 1 ''text'') fi d content = [c]"
    and "map mm_chunk_id (filter (\<lambda>m. mm_file_path m = fi_path fi) (holder_rows ''a'' (ix_store demo_indexed))) = [ch_chunk_id c]"
    and "chunk_visible (ix_store demo_indexed) ''a'' (ch_chunk_id c)"
    by (cases "chunks_of_file (demo_indexing 1 ''text'') fi d content") (auto simp: holder_row_def)
  then show ?thesis by (intro exI [of _ "fi_path fi"] exI [of _ c] conjI)
qed

theorem embed_failure_not_retried_witness:
  "\<exists>e x' x''. index_file demo_down 6 demo_target demo_indexed = (Inl e, x')
    \<and> index_file (demo_down\<lparr>ie_embedding := (ie_embedding demo_down)\<lparr>em_post := demo_post\<rparr>\<rparr>) 7 demo_target x' = (Inr 0, x'')"
proof -
  have run: "case file_info_and_source_document demo_down demo_target of Inr (Some (fi, d)) \<Rightarrow>
      (case rechunk_file demo_down 6 fi d demo_indexed of (Inr chunks, x1) \<Rightarrow>
        (case (embed_chunks (ie_embedding demo_down) 6 chunks (ix_embedding x1),
            get_resource_binding (ix_store demo_indexed) ''filesystem'' (sd_document_ref d)) of
          ((Inl e, st), Inr (Some b)) \<Rightarrow> rb_active b \<and> chunks \<noteq> []
            \<and> class_of (ev_chunk_files (pipeline_env demo_down)) (pp_chunk_fps (ix_pipeline demo_indexed)) (fi_path fi) = Modified
            \<and> class_of (ev_meta_files (pipeline_env demo_down)) (pp_meta_fps (ix_pipeline demo_indexed)) (fi_path fi) = Unchanged
        | _ \<Rightarrow> False) | _ \<Rightarrow> False) | _ \<Rightarrow> False" by code_simp
  obtain fi d where fi: "file_info_and_source_document demo_down demo_target = Inr (Some (fi, d))"
    using run by (cases "file_info_and_source_document demo_down demo_target") (auto split: option.split_asm prod.split_asm)
  obtain r x1 where r: "rechunk_file demo_down 6 fi d demo_indexed = (r, x1)" by fastforce
  from run obtain chunks where chunks: "r = Inr chunks"
    unfolding fi by (cases r) (simp_all add: r)
  obtain q st where q: "embed_chunks (ie_embedding demo_down) 6 chunks (ix_embedding x1) = (q, st)" by fastforce
  from run obtain e where e: "q = Inl e"
    unfolding fi by (cases q) (simp_all add: r chunks q)
  from run obtain b where b: "get_resource_binding (ix_store demo_indexed) ''filesystem'' (sd_document_ref d) = Inr (Some b)"
    unfolding fi by (auto simp: r chunks q e split: sum.split_asm option.split_asm)
  from run have h: "rb_active b" "chunks \<noteq> []"
    "class_of (ev_chunk_files (pipeline_env demo_down)) (pp_chunk_fps (ix_pipeline demo_indexed)) (fi_path fi) = Modified"
    "class_of (ev_meta_files (pipeline_env demo_down)) (pp_meta_fps (ix_pipeline demo_indexed)) (fi_path fi) = Unchanged"
    unfolding fi sum.case option.case prod.case r chunks q e b by blast+
  from embed_failure_not_retried [OF fi b h(1,3,4) r [unfolded chunks] h(2) q [unfolded e], of demo_post 7] show ?thesis by blast
qed

theorem null_tags_block_indexing_witness:
  "\<exists>e x'. index_file (demo_indexing 1 (''---'' @ [LF] @ ''tags:'' @ [LF] @ ''---'' @ [LF] @ ''text'')) 5 demo_target demo_indexer
      = (Inl e, x') \<and> pp_chunk_fps (ix_pipeline x') = []"
proof -
  let ?ie = "demo_indexing 1 (''---'' @ [LF] @ ''tags:'' @ [LF] @ ''---'' @ [LF] @ ''text'')"
  have run: "case file_info_and_source_document ?ie demo_target of Inr (Some (fi, d)) \<Rightarrow>
      (case read_file (ie_disk ?ie) (fi_path fi) of Inr content \<Rightarrow>
        dict_get (fi_frontmatter fi) ''tags'' = Some JNull \<and> chunks_of_file ?ie fi d content \<noteq> []
        \<and> retained_binding d (ix_store demo_indexer) = Inr None
        \<and> class_of (ev_chunk_files (pipeline_env ?ie)) (pp_chunk_fps (ix_pipeline demo_indexer)) (fi_path fi) \<noteq> Unchanged
      | _ \<Rightarrow> False) | _ \<Rightarrow> False" by code_simp
  obtain fi d where fi: "file_info_and_source_document ?ie demo_target = Inr (Some (fi, d))"
    using run by (cases "file_info_and_source_document ?ie demo_target") (auto split: option.split_asm prod.split_asm)
  from run obtain content where content: "read_file (ie_disk ?ie) (fi_path fi) = Inr content"
    unfolding fi by (cases "read_file (ie_disk ?ie) (fi_path fi)") simp_all
  from run have h: "dict_get (fi_frontmatter fi) ''tags'' = Some JNull" "chunks_of_file ?ie fi d content \<noteq> []"
    "retained_binding d (ix_store demo_indexer) = Inr None"
    "class_of (ev_chunk_files (pipeline_env ?ie)) (pp_chunk_fps (ix_pipeline demo_indexer)) (fi_path fi) \<noteq> Unchanged"
    unfolding fi sum.case option.case prod.case content by blast+
  from null_tags_block_indexing [OF fi h(1) content h(2-4), of 5] show ?thesis by (simp add: demo_indexer_def) blast
qed

theorem pipeline_reachable_consistent_witness:
  "mm_chunk_id ` set (holder_rows ''a'' (ix_store demo_indexed)) = cr_chunk_id ` set (content_rows ''a'' (ix_store demo_indexed))"
proof -
  have "pipeline_reachable demo_indexer" by (rule pipeline_reachable.start) (simp add: demo_indexer_def)
  then have "pipeline_reachable demo_indexed"
    using pipeline_step.index [OF demo_run] by (rule pipeline_reachable.step)
  from pipeline_reachable_consistent [OF this, of "''a''"] show ?thesis by blast
qed

end
