(* ===== verification/Application_Ingest.thy ===== *)
theory Application_Ingest
  imports Indexing
begin

text \<open>
  Ingesting a batch of an application source and purging one
  (\<open>IndexingPipeline._ingest_application_source\<close> and \<open>purge_application_source\<close> in
  \<open>ingestion/pipeline.py\<close>, the cursor store of \<open>ingestion/source_lifecycle.py\<close>).  The provider
  is a parameter.  The component rows live in the database of the metadata store, so a rollback
  restores both; the encoder and the embedding cache, which is written before the transaction
  begins, are not rolled back.  The environment is the one of \<open>Indexing\<close>.
\<close>

section \<open>Batches and results\<close>

record app_change =
  ac_document :: source_document
  ac_unit :: source_unit

record change_batch =
  cb_changes :: "app_change list"
  cb_next_cursor :: "string option"
  cb_checkpoint_cursor :: "string option"
  cb_updated_after :: "string option"
  cb_updated_after_cursor :: "string option"

text \<open>\<open>export_changes(cursor, limit, updated_after, updated_after_cursor)\<close>.\<close>

record provider =
  pv_namespace :: string
  pv_export :: "string option \<Rightarrow> int \<Rightarrow> json \<Rightarrow> json \<Rightarrow> py_error + change_batch"

record ingest_result =
  ir_discovered :: nat
  ir_new_units :: nat
  ir_changed_units :: nat
  ir_skipped_units :: nat
  ir_hidden_units :: nat
  ir_failed_units :: nat
  ir_reused_units :: nat
  ir_rebound_units :: nat
  ir_chunks_indexed :: nat

record purge_result =
  pg_namespace :: string
  pg_chunks_deleted :: nat
  pg_source_units_deleted :: nat
  pg_documents_deleted :: nat
  pg_bindings_deleted :: nat
  pg_checkpoints_deleted :: nat
  pg_vec_components_deleted :: nat

record index_item =
  ii_change :: app_change
  ii_chunk :: chunk
  ii_source_key :: "string \<times> string"

definition no_counts :: ingest_result where
  "no_counts = \<lparr>ir_discovered = 0, ir_new_units = 0, ir_changed_units = 0, ir_skipped_units = 0,
     ir_hidden_units = 0, ir_failed_units = 0, ir_reused_units = 0, ir_rebound_units = 0,
     ir_chunks_indexed = 0\<rparr>"

text \<open>\<open>result.__dict__\<close>, in the order of the fields.\<close>

definition result_dict :: "ingest_result \<Rightarrow> (string, json) dict" where
  "result_dict r =
     [(''discovered'', JInt (int (ir_discovered r))), (''new_units'', JInt (int (ir_new_units r))),
      (''changed_units'', JInt (int (ir_changed_units r))), (''skipped_units'', JInt (int (ir_skipped_units r))),
      (''hidden_units'', JInt (int (ir_hidden_units r))), (''failed_units'', JInt (int (ir_failed_units r))),
      (''reused_units'', JInt (int (ir_reused_units r))), (''rebound_units'', JInt (int (ir_rebound_units r))),
      (''chunks_indexed'', JInt (int (ir_chunks_indexed r)))]"

definition json_fields :: "json \<Rightarrow> (string, json) dict" where
  "json_fields v = (case v of JObj ps \<Rightarrow> ps | _ \<Rightarrow> [])"

definition json_get :: "(string, json) dict \<Rightarrow> string \<Rightarrow> json" where
  "json_get d k = dict_get_default d k JNull"

definition json_option :: "string option \<Rightarrow> json" where
  "json_option v = (case v of None \<Rightarrow> JNull | Some s \<Rightarrow> JStr s)"

text \<open>\<open>a or b\<close>.\<close>

definition json_or :: "json \<Rightarrow> json \<Rightarrow> json" where
  "json_or a b = (if truthy a then a else b)"

section \<open>Chunks of units\<close>

text \<open>\<open>str.title\<close>: a cased letter after an uncased character is capitalised, after a cased one it is
  lowered.  Within Latin-1 the cased characters are the letters.\<close>

definition title_char :: "char \<Rightarrow> string" where
  "title_char c = (if (of_char c :: nat) = 223 then ''Ss'' else upper_char c)"

fun title_from :: "bool \<Rightarrow> string \<Rightarrow> string" where
  "title_from after_cased [] = []"
| "title_from after_cased (c # cs) =
     (if after_cased then [lower_char c] else title_char c) @ title_from (py_isalpha c) cs"

definition py_title :: "string \<Rightarrow> string" where
  "py_title s = title_from False s"

definition context_lines :: "source_document \<Rightarrow> (string, json) dict \<Rightarrow> string list" where
  "context_lines d metadata =
     (let source_label = (if sd_namespace d = ''telegram'' then ''Dialog'' else py_title (sd_namespace d))
      in [source_label @ '': '' @ sd_title d,
          ''Sender: '' @ py_str (json_or (json_or (json_get metadata ''sender_name'')
              (json_get metadata ''sender_id'')) (JStr '''')),
          ''Sent: '' @ py_str (json_or (json_get metadata ''sent_at'') (JStr ''''))]
        @ (if truthy (json_get metadata ''topic_title'')
           then [''Topic: '' @ py_str (json_get metadata ''topic_title'')] else [])
        @ (if json_get metadata ''reply_to_msg_id'' \<noteq> JNull
           then [''Reply to: '' @ py_str (json_get metadata ''reply_to_msg_id'')] else []))"

definition unit_chunk_id :: "indexing_env \<Rightarrow> string \<Rightarrow> string \<Rightarrow> string \<Rightarrow> string" where
  "unit_chunk_id ie ns unit_ref fingerprint =
     em_blake3 (ie_embedding ie) (ns @ '':'' @ unit_ref @ '':'' @ fingerprint @ '':'' @ ie_strategy ie)"

definition application_chunk_for_unit :: "indexing_env \<Rightarrow> source_document \<Rightarrow> source_unit \<Rightarrow> chunk" where
  "application_chunk_for_unit ie d u =
     \<lparr>ch_chunk_id = unit_chunk_id ie (su_namespace u) (su_unit_ref u) (su_fingerprint u), ch_file_paths = [],
      ch_heading_hierarchy = [sd_title d], ch_level = 1,
      ch_text = py_join [CHR 0x0A] (context_lines d (json_fields (su_metadata_json u)) @ ['''', su_text u]),
      ch_chunk_index = 0, ch_kind = doc_kind_value DOCUMENT,
      ch_provenance = Some \<lparr>cp_namespace = su_namespace u, cp_document_ref = sd_document_ref d,
        cp_ref = make_ref (su_namespace u) (su_unit_ref u), cp_source_unit_refs = [su_unit_ref u],
        cp_chunk_strategy = ie_strategy ie, cp_parser_name = Some (sd_parser_name d)\<rparr>\<rparr>"

definition application_source_meta_text :: "source_document \<Rightarrow> string" where
  "application_source_meta_text d =
     (let metadata = json_fields (sd_metadata_json d)
      in py_strip (py_join '' '' (filter (\<lambda>part. part \<noteq> [])
        [sd_namespace d, sd_title d, sd_document_type d,
         py_str (json_or (json_get metadata ''dialog_name'') (JStr '''')),
         py_str (json_or (json_get metadata ''dialog_id'') (JStr ''''))])))"

section \<open>Preparing a batch\<close>

text \<open>Every unit is compared with the fingerprint stored before the batch.\<close>

fun prepare_changes :: "indexing_env \<Rightarrow> store \<Rightarrow> app_change list \<Rightarrow> ingest_result \<Rightarrow>
    index_item list \<times> ingest_result" where
  "prepare_changes ie s [] r = ([], r)"
| "prepare_changes ie s (change # rest) r =
     (let u = ac_unit change; d = ac_document change;
          existing = get_source_unit_fingerprint s (su_namespace u) (su_document_ref u) (su_unit_ref u);
          counted = (case existing of
              None \<Rightarrow> Some (r\<lparr>ir_new_units := ir_new_units r + 1\<rparr>)
            | Some row \<Rightarrow> if uf_fingerprint row \<noteq> su_fingerprint u
                then Some (r\<lparr>ir_changed_units := ir_changed_units r + 1\<rparr>) else None)
      in case counted of
           None \<Rightarrow> prepare_changes ie s rest (r\<lparr>ir_skipped_units := ir_skipped_units r + 1\<rparr>)
         | Some r' \<Rightarrow>
             if json_get (json_fields (su_metadata_json u)) ''standalone_search'' = JBool False
             then prepare_changes ie s rest (r'\<lparr>ir_hidden_units := ir_hidden_units r' + 1\<rparr>)
             else case prepare_changes ie s rest r' of (items, r'') \<Rightarrow>
               (\<lparr>ii_change = change, ii_chunk = application_chunk_for_unit ie d u,
                 ii_source_key = (sd_namespace d, sd_document_ref d)\<rparr> # items, r''))"

definition documents_by_key :: "index_item list \<Rightarrow> ((string \<times> string), source_document) dict" where
  "documents_by_key items =
     fold (\<lambda>i d. if ii_source_key i \<in> set (dict_keys d) then d
       else dict_set (ii_source_key i) (ac_document (ii_change i)) d) items []"

definition embed_source_meta_components :: "indexing_env \<Rightarrow> string list \<Rightarrow> indexer \<Rightarrow>
    (py_error + rat list list) \<times> indexer" where
  "embed_source_meta_components ie texts x =
     (if texts = [] then (Inr [], x)
      else case encode_batch (em_post (ie_embedding ie)) (em_local (ie_embedding ie)) texts
             (es_encoder (ix_embedding x)) of
        (Inl e, enc) \<Rightarrow> (Inl (RuntimeError ''encode_batch failed for source metadata''), set_encoder enc x)
      | (Inr vs, enc) \<Rightarrow> (Inr vs, set_encoder enc x))"

fun meta_vectors :: "((string \<times> string) \<times> rat list) list \<Rightarrow> index_item list \<Rightarrow> py_error + rat list list" where
  "meta_vectors by_key [] = Inr []"
| "meta_vectors by_key (i # is) =
     (case dict_get by_key (ii_source_key i) of
        None \<Rightarrow> Inl (KeyError (snd (ii_source_key i)))
      | Some v \<Rightarrow> try_bind (meta_vectors by_key is) (\<lambda>vs. Inr (v # vs)))"

fun fuse_pairs :: "indexing_env \<Rightarrow> (rat list \<times> rat list) list \<Rightarrow> py_error + rat list list" where
  "fuse_pairs ie [] = Inr []"
| "fuse_pairs ie ((t, m) # rest) =
     try_bind (fuse_vectors ie t m) (\<lambda>f. try_bind (fuse_pairs ie rest) (\<lambda>fs. Inr (f # fs)))"

text \<open>The vectors of a batch: text and metadata components of every chunk to index.\<close>

definition batch_vectors :: "indexing_env \<Rightarrow> timestamp \<Rightarrow> index_item list \<Rightarrow> indexer \<Rightarrow>
    (py_error + rat list list \<times> rat list list) \<times> indexer" where
  "batch_vectors ie now items x =
     (case embed_chunks (ie_embedding ie) now (map ii_chunk items) (ix_embedding x) of
        (Inl e, st) \<Rightarrow> (Inl e, set_embedding st x)
      | (Inr (e_text, _), st) \<Rightarrow>
          (let docs = documents_by_key items
           in case embed_source_meta_components ie (map (application_source_meta_text \<circ> snd) docs)
                (set_embedding st x) of
             (Inl e, x) \<Rightarrow> (Inl e, x)
           | (Inr vs, x) \<Rightarrow>
               (case meta_vectors (zip (dict_keys docs) vs) items of
                  Inl e \<Rightarrow> (Inl e, x)
                | Inr e_meta \<Rightarrow>
                    (case fuse_pairs ie (zip e_text e_meta) of
                       Inl e \<Rightarrow> (Inl e, x)
                     | Inr _ \<Rightarrow> (Inr (e_text, e_meta), x)))))"

section \<open>The transaction\<close>

definition application_binding :: "source_document \<Rightarrow> resource_binding" where
  "application_binding d =
     (let metadata = json_fields (sd_metadata_json d)
      in active_binding d [] (dict_set ''unit_count'' (json_get metadata ''unit_count'') metadata))"

definition fts_table_of :: "string \<Rightarrow> string" where
  "fts_table_of strategy = ''chunks_fts_'' @ strategy"

fun apply_changes :: "indexing_env \<Rightarrow> timestamp \<Rightarrow> app_change list \<Rightarrow> nat \<Rightarrow> string list \<Rightarrow> store \<Rightarrow>
    py_error + nat \<times> string list \<times> store" where
  "apply_changes ie now [] rebound deleted s = Inr (rebound, deleted, s)"
| "apply_changes ie now (change # rest) rebound deleted s =
     (let d = ac_document change; u = ac_unit change; s1 = upsert_source_document d s
      in try_bind (get_resource_binding s1 (sd_namespace d) (sd_document_ref d)) (\<lambda>existing.
         try_bind (make_binding (application_binding d)) (\<lambda>b.
           let rebound' = rebound + (case existing of Some old \<Rightarrow> if rb_active old then 0 else 1 | None \<Rightarrow> 0);
               (changed, s2) = upsert_source_unit_fingerprint now u None (upsert_resource_binding b s1)
           in if \<not> changed then apply_changes ie now rest rebound' deleted s2
              else try_bind (delete_chunks_for_source_unit (su_namespace u) (su_document_ref u)
                     (su_unit_ref u) (ie_strategy ie) (Some (fts_table_of (ie_strategy ie))) s2) (\<lambda>(ids, s3).
                apply_changes ie now rest rebound' (deleted @ ids) s3))))"

fun insert_unit_chunks :: "string \<Rightarrow> chunk list \<Rightarrow> store \<Rightarrow> py_error + store" where
  "insert_unit_chunks strategy [] s = Inr s"
| "insert_unit_chunks strategy (c # cs) s =
     try_bind (insert_chunk strategy (ch_chunk_id c) (ch_heading_hierarchy c) (ch_level c) (ch_text c) s) (\<lambda>s.
     try_bind (persist_one_chunk_source_provenance strategy c s) (\<lambda>s.
       insert_unit_chunks strategy cs s))"

text \<open>The documents are read back for the keyword engine, a no-op object; reading validates.\<close>

fun read_documents :: "indexing_env \<Rightarrow> chunk list \<Rightarrow> store \<Rightarrow> py_error + unit" where
  "read_documents ie [] s = Inr ()"
| "read_documents ie (c # cs) s =
     (case ch_provenance c of
        None \<Rightarrow> Inl (AssertionError '''')
      | Some p \<Rightarrow> try_bind (get_source_document (ie_resolve ie) s (cp_namespace p) (cp_document_ref p))
          (\<lambda>_. read_documents ie cs s))"

definition meta_component_id :: "string \<Rightarrow> string \<Rightarrow> string" where
  "meta_component_id ns document_ref = ns @ ''-meta:'' @ document_ref"

fun store_unit_components :: "(rat \<Rightarrow> 32 word option) \<Rightarrow> (chunk \<times> rat list \<times> rat list) list \<Rightarrow>
    component_row list \<Rightarrow> py_error + component_row list" where
  "store_unit_components enc [] t = Inr t"
| "store_unit_components enc ((c, e_text, e_meta) # rest) t =
     try_bind (component_store enc (ch_chunk_id c) ''text'' e_text t) (\<lambda>t.
       case ch_provenance c of
         None \<Rightarrow> Inl (AssertionError '''')
       | Some p \<Rightarrow>
           try_bind (component_store enc (meta_component_id (cp_namespace p) (cp_document_ref p)) ''meta'' e_meta t)
             (store_unit_components enc rest))"

definition checkpoint_metadata :: "ingest_result \<Rightarrow> json \<Rightarrow> json \<Rightarrow> (string, json) dict" where
  "checkpoint_metadata r updated_after updated_after_cursor =
     result_dict r @ [(''updated_after'', updated_after), (''updated_after_cursor'', updated_after_cursor),
       (''single_batch'', JBool True)]"

definition ingest_transaction :: "indexing_env \<Rightarrow> timestamp \<Rightarrow> string \<Rightarrow> change_batch \<Rightarrow>
    index_item list \<Rightarrow> rat list list \<Rightarrow> rat list list \<Rightarrow> ingest_result \<Rightarrow> store \<Rightarrow> component_row list \<Rightarrow>
    py_error + ingest_result \<times> store \<times> component_row list" where
  "ingest_transaction ie now ns batch items e_text e_meta r s t =
     (let chunks = map ii_chunk items in
      try_bind (apply_changes ie now (cb_changes batch) 0 [] s) (\<lambda>(rebound, deleted, s1).
      try_bind (insert_unit_chunks (ie_strategy ie) chunks s1) (\<lambda>s2.
      try_bind (read_documents ie chunks s2) (\<lambda>_.
      try_bind (store_unit_components (em_enc (ie_embedding ie)) (zip chunks (zip e_text e_meta))
          (if deleted = [] then t else snd (component_delete deleted t))) (\<lambda>t'.
        let r' = r\<lparr>ir_rebound_units := ir_rebound_units r + rebound, ir_chunks_indexed := length chunks\<rparr>
        in Inr (r', commit_source_checkpoint now ns (cb_checkpoint_cursor batch)
             (Some (checkpoint_metadata r' (json_option (cb_updated_after batch))
               (json_option (cb_updated_after_cursor batch)))) s2, t'))))))"

section \<open>Ingesting\<close>

text \<open>An empty batch keeps the cursor of the checkpoint.\<close>

definition commit_empty_batch :: "timestamp \<Rightarrow> string \<Rightarrow> change_batch \<Rightarrow> checkpoint_row option \<Rightarrow>
    store \<Rightarrow> store" where
  "commit_empty_batch now ns batch checkpoint s =
     (let checkpoint_cursor = (case checkpoint of Some c \<Rightarrow> ck_checkpoint_cursor c | None \<Rightarrow> None);
          checkpoint_meta = (case checkpoint of Some c \<Rightarrow> ck_metadata_json c | None \<Rightarrow> [])
      in commit_source_checkpoint now ns
       (case cb_checkpoint_cursor batch of Some c \<Rightarrow> Some c | None \<Rightarrow> checkpoint_cursor)
       (Some (checkpoint_metadata no_counts
         (json_or (json_option (cb_updated_after batch)) (json_get checkpoint_meta ''updated_after''))
         (json_or (json_option (cb_updated_after_cursor batch)) (json_get checkpoint_meta ''updated_after_cursor'')))) s)"

definition ingest_batch :: "indexing_env \<Rightarrow> timestamp \<Rightarrow> string \<Rightarrow> change_batch \<Rightarrow> indexer \<Rightarrow>
    (py_error + ingest_result) \<times> indexer" where
  "ingest_batch ie now ns batch x =
     (case prepare_changes ie (ix_store x) (cb_changes batch)
             (no_counts\<lparr>ir_discovered := length (cb_changes batch)\<rparr>) of
        (items, r) \<Rightarrow>
          (case batch_vectors ie now items x of
             (Inl e, x) \<Rightarrow> (Inl e, x)
           | (Inr (e_text, e_meta), x) \<Rightarrow>
               (let s = ensure_chunk_source_provenance_table (ie_strategy ie) (ix_store x)
                in case ingest_transaction ie now ns batch items e_text e_meta r s (ix_components x) of
                  Inl e \<Rightarrow> (Inl e, set_store (record_source_checkpoint_error ns (error_text e) s) x)
                | Inr (r', s', t') \<Rightarrow> (Inr r', set_components t' (set_store s' x)))))"

definition requested_batch :: "provider \<Rightarrow> int \<Rightarrow> store \<Rightarrow> py_error + change_batch" where
  "requested_batch pv limit s =
     (let checkpoint = get_source_checkpoint s (pv_namespace pv);
          checkpoint_meta = (case checkpoint of Some c \<Rightarrow> ck_metadata_json c | None \<Rightarrow> [])
      in pv_export pv (case checkpoint of Some c \<Rightarrow> ck_checkpoint_cursor c | None \<Rightarrow> None) limit
           (json_get checkpoint_meta ''updated_after'') (json_get checkpoint_meta ''updated_after_cursor''))"

definition ingest_application_source :: "indexing_env \<Rightarrow> timestamp \<Rightarrow> provider \<Rightarrow> int \<Rightarrow> indexer \<Rightarrow>
    (py_error + ingest_result) \<times> indexer" where
  "ingest_application_source ie now pv limit x =
     (case requested_batch pv limit (ix_store x) of
        Inl e \<Rightarrow> (Inl e, x)
      | Inr batch \<Rightarrow>
          if cb_changes batch = []
          then (Inr no_counts,
                set_store (commit_empty_batch now (pv_namespace pv) batch
                  (get_source_checkpoint (ix_store x) (pv_namespace pv)) (ix_store x)) x)
          else ingest_batch ie now (pv_namespace pv) batch x)"

section \<open>Purging\<close>

text \<open>\<open>re.match(r"^[a-zA-Z0-9_-]+$", namespace)\<close>: the dollar also matches before a final newline.\<close>

definition namespace_char :: "char \<Rightarrow> bool" where
  "namespace_char c =
     (let n = of_char c :: nat
      in (65 \<le> n \<and> n \<le> 90) \<or> (97 \<le> n \<and> n \<le> 122) \<or> (48 \<le> n \<and> n \<le> 57) \<or> n = 95 \<or> n = 45)"

definition valid_purge_namespace :: "string \<Rightarrow> bool" where
  "valid_purge_namespace ns =
     (let stem = (if ns \<noteq> [] \<and> last ns = CHR 0x0A then butlast ns else ns)
      in stem \<noteq> [] \<and> list_all namespace_char stem)"

definition sorted_set :: "'a::linorder list \<Rightarrow> 'a list" where
  "sorted_set xs = sort (remdups xs)"

text \<open>The statements on the chunk tables, skipped when the namespace has no chunk.\<close>

definition purge_chunk_rows :: "string \<Rightarrow> string list \<Rightarrow> store \<Rightarrow> py_error + store" where
  "purge_chunk_rows strategy chunk_ids s =
     try_bind (table_of (st_prov s) (prov_table strategy)) (\<lambda>ps.
     try_bind (table_of (st_m2m s) (m2m_table strategy)) (\<lambda>ms.
     try_bind (table_of (st_chunks s) (chunk_table strategy)) (\<lambda>cs.
       Inr ((delete_fts_rows (Some (fts_table_of strategy)) chunk_ids
           (s\<lparr>st_prov := dict_set (prov_table strategy) (delete_where (\<lambda>p. pr_chunk_id p \<in> set chunk_ids) ps) (st_prov s),
              st_m2m := dict_set (m2m_table strategy) (delete_where (\<lambda>m. mm_chunk_id m \<in> set chunk_ids) ms) (st_m2m s)\<rparr>))
         \<lparr>st_chunks := dict_set (chunk_table strategy) (delete_where (\<lambda>c. cr_chunk_id c \<in> set chunk_ids) cs) (st_chunks s)\<rparr>))))"

definition purge_source_rows :: "string \<Rightarrow> store \<Rightarrow> store" where
  "purge_source_rows ns s =
     s\<lparr>st_unit_fps := delete_where (\<lambda>u. uf_namespace u = ns) (st_unit_fps s),
       st_bindings := delete_where (\<lambda>b. rb_namespace b = ns) (st_bindings s),
       st_documents := delete_where (\<lambda>d. sd_namespace d = ns) (st_documents s),
       st_checkpoints := delete_where (\<lambda>c. ck_namespace c = ns) (st_checkpoints s)\<rparr>"

definition purge_transaction :: "string \<Rightarrow> string \<Rightarrow> prov_row list \<Rightarrow> store \<Rightarrow> component_row list \<Rightarrow>
    py_error + purge_result \<times> store \<times> component_row list" where
  "purge_transaction strategy ns rows s t =
     (let chunk_ids = sorted_set (map pr_chunk_id rows);
          document_refs = sorted_set (map pr_document_ref rows);
          unit_refs = sorted_set (concat (map pr_source_unit_refs rows));
          entity_ids = chunk_ids @ map (meta_component_id ns) document_refs @ map (meta_component_id ns) unit_refs;
          counts = \<lparr>pg_namespace = ns, pg_chunks_deleted = length chunk_ids,
            pg_source_units_deleted = length (filter (\<lambda>u. uf_namespace u = ns) (st_unit_fps s)),
            pg_documents_deleted = length (filter (\<lambda>d. sd_namespace d = ns) (st_documents s)),
            pg_bindings_deleted = length (filter (\<lambda>b. rb_namespace b = ns) (st_bindings s)),
            pg_checkpoints_deleted = length (filter (\<lambda>c. ck_namespace c = ns) (st_checkpoints s)),
            pg_vec_components_deleted = 0\<rparr>
      in if chunk_ids = [] then Inr (counts, purge_source_rows ns s, t)
         else try_bind (purge_chunk_rows strategy chunk_ids s) (\<lambda>s1.
           case component_delete entity_ids t of (n, t') \<Rightarrow>
             Inr (counts\<lparr>pg_vec_components_deleted := n\<rparr>, purge_source_rows ns s1, t')))"

definition purge_application_source :: "string \<Rightarrow> string \<Rightarrow> indexer \<Rightarrow> (py_error + purge_result) \<times> indexer" where
  "purge_application_source strategy ns x =
     (if \<not> valid_purge_namespace ns
      then (Inl (ValueError (''Invalid application source namespace: '' @ repr_str ns)), x)
      else
        let s = ensure_chunk_source_provenance_table strategy (ix_store x);
            rows = filter (\<lambda>p. pr_namespace p = ns) (prov_rows strategy s)
        in case purge_transaction strategy ns rows s (ix_components x) of
             Inl e \<Rightarrow> (Inl e, set_store s x)
           | Inr (r, s', t') \<Rightarrow> (Inr r, set_components t' (set_store s' x)))"

end
