(* ===== verification/Application_Laws.thy ===== *)
theory Application_Laws
  imports Application_Ingest Indexing_Laws
begin

text \<open>
  What an application source's ingest and purge do to the index: the exact tables after a batch,
  atomicity and restart, redelivery, the correspondence of chunks and unit fingerprints, and the
  extent of a purge.
\<close>

section \<open>Fingerprints of a batch\<close>

definition unit_key :: "source_unit \<Rightarrow> string \<times> string \<times> string" where
  "unit_key u = (su_namespace u, su_document_ref u, su_unit_ref u)"

definition unit_changed :: "unit_fingerprint_row list \<Rightarrow> source_unit \<Rightarrow> bool" where
  "unit_changed t u =
     (case fetch_key unit_fp_key t (unit_key u) of None \<Rightarrow> True | Some r \<Rightarrow> uf_fingerprint r \<noteq> su_fingerprint u)"

definition unit_row :: "timestamp \<Rightarrow> source_unit \<Rightarrow> unit_fingerprint_row" where
  "unit_row now u = \<lparr>uf_namespace = su_namespace u, uf_document_ref = su_document_ref u,
     uf_unit_ref = su_unit_ref u, uf_fingerprint = su_fingerprint u, uf_updated_at = su_updated_at u,
     uf_indexed_at = now, uf_metadata_json = su_metadata_json u\<rparr>"

definition put_unit :: "timestamp \<Rightarrow> source_unit \<Rightarrow> unit_fingerprint_row list \<Rightarrow> unit_fingerprint_row list" where
  "put_unit now u t = (if unit_changed t u then upsert unit_fp_key (\<lambda>_ e. e) (unit_row now u) t else t)"

lemma unit_row_key [simp]: "unit_fp_key (unit_row now u) = unit_key u" "uf_fingerprint (unit_row now u) = su_fingerprint u"
  by (simp_all add: unit_row_def unit_fp_key_def unit_key_def)

lemma upsert_unit_eq:
  "upsert_source_unit_fingerprint now u None s =
     (unit_changed (st_unit_fps s) u, s\<lparr>st_unit_fps := put_unit now u (st_unit_fps s)\<rparr>)"
  by (simp add: upsert_source_unit_fingerprint_def put_unit_def unit_changed_def unit_key_def unit_row_def
      split: option.splits)

lemma fetch_put_unit:
  "fetch_key unit_fp_key (put_unit now u t) k =
     (if k = unit_key u \<and> unit_changed t u then Some (unit_row now u) else fetch_key unit_fp_key t k)"
  by (simp add: put_unit_def fetch_upsert_excluded)

lemma put_unit_current:
  "map_option uf_fingerprint (fetch_key unit_fp_key (put_unit now u t) k) =
     (if k = unit_key u then Some (su_fingerprint u) else map_option uf_fingerprint (fetch_key unit_fp_key t k))"
  by (auto simp: fetch_put_unit unit_changed_def split: option.splits)

lemma unit_changed_cong:
  "fetch_key unit_fp_key t (unit_key u) = fetch_key unit_fp_key t' (unit_key u) \<Longrightarrow> unit_changed t u = unit_changed t' u"
  by (simp add: unit_changed_def)

section \<open>Applying the changes of a batch\<close>

definition units_of :: "app_change list \<Rightarrow> source_unit list" where
  "units_of changes = map ac_unit changes"

definition documents_of :: "app_change list \<Rightarrow> source_document list" where
  "documents_of changes = map ac_document changes"

definition unit_chunks :: "source_unit \<Rightarrow> prov_row list \<Rightarrow> string set" where
  "unit_chunks u ps = set (unit_chunk_ids (su_namespace u) (su_document_ref u) (su_unit_ref u) ps)"

text \<open>The chunks deleted for the units found changed on the way.\<close>

fun replaced :: "timestamp \<Rightarrow> source_unit list \<Rightarrow> unit_fingerprint_row list \<Rightarrow> prov_row list \<Rightarrow> string set" where
  "replaced now [] t ps = {}"
| "replaced now (u # us) t ps =
     (if unit_changed t u then unit_chunks u ps else {}) \<union> replaced now us (put_unit now u t) ps"

definition without_chunks :: "string \<Rightarrow> string set \<Rightarrow> store \<Rightarrow> store \<Rightarrow> bool" where
  "without_chunks st ids s s' \<longleftrightarrow>
     prov_rows st s' = delete_where (\<lambda>p. pr_chunk_id p \<in> ids) (prov_rows st s)
     \<and> holder_rows st s' = delete_where (\<lambda>m. mm_chunk_id m \<in> ids) (holder_rows st s)
     \<and> content_rows st s' = delete_where (\<lambda>c. cr_chunk_id c \<in> ids) (content_rows st s)
     \<and> (\<forall>st'. st' \<noteq> st \<longrightarrow> untouched st' s s')"

lemma delete_fts_fields:
  "st_prov (delete_fts_rows n ids s) = st_prov s" "st_m2m (delete_fts_rows n ids s) = st_m2m s"
  "st_documents (delete_fts_rows n ids s) = st_documents s" "st_bindings (delete_fts_rows n ids s) = st_bindings s"
  "st_unit_fps (delete_fts_rows n ids s) = st_unit_fps s" "st_checkpoints (delete_fts_rows n ids s) = st_checkpoints s"
  "st_table (delete_fts_rows n ids s) = st_table s"
  by (auto simp: delete_fts_rows_def split: option.splits)

lemma delete_unit_result:
  assumes "delete_chunks_for_source_unit ns doc u st fts s = Inr (ids, s')"
  shows "without_chunks st (set ids) s s' \<and> ids = unit_chunk_ids ns doc u (prov_rows st s)
    \<and> st_documents s' = st_documents s \<and> st_bindings s' = st_bindings s \<and> st_unit_fps s' = st_unit_fps s
    \<and> st_checkpoints s' = st_checkpoints s \<and> st_table s' = st_table s
    \<and> has_provenance st s' = has_provenance st s"
proof -
  obtain ps where ps: "table_of (st_prov s) (prov_table st) = Inr ps"
    using assms by (auto simp: delete_chunks_for_source_unit_def try_bind_Inr_iff)
  then have rows: "prov_rows st s = ps" by (auto simp: table_of_def prov_rows_def split: option.splits)
  show ?thesis
  proof (cases "unit_chunk_ids ns doc u ps = []")
    case True
    then show ?thesis
      using assms ps rows by (simp add: delete_chunks_for_source_unit_def without_chunks_def untouched_def)
  next
    case False
    then obtain ms cs where ms: "table_of (st_m2m s) (m2m_table st) = Inr ms"
      and cs: "table_of (st_chunks s) (chunk_table st) = Inr cs"
      using assms ps by (auto simp: delete_chunks_for_source_unit_def try_bind_Inr_iff Let_def)
    have ms': "holder_rows st s = ms" and cs': "content_rows st s = cs"
      using ms cs by (auto simp: table_of_def holder_rows_def content_rows_def split: option.splits)
    let ?ids = "unit_chunk_ids ns doc u ps"
    let ?s1 = "s\<lparr>st_prov := dict_set (prov_table st) (delete_where (\<lambda>p. pr_chunk_id p \<in> set ?ids) ps) (st_prov s),
       st_m2m := dict_set (m2m_table st) (delete_where (\<lambda>m. mm_chunk_id m \<in> set ?ids) ms) (st_m2m s)\<rparr>"
    have "ids = ?ids" and s': "s' = (delete_fts_rows fts ?ids ?s1)
        \<lparr>st_chunks := dict_set (chunk_table st) (delete_where (\<lambda>c. cr_chunk_id c \<in> set ?ids) cs) (st_chunks s)\<rparr>"
      using assms False ps ms cs by (auto simp: delete_chunks_for_source_unit_def Let_def)
    then show ?thesis
      using rows ms' cs' ps unfolding s' without_chunks_def untouched_def table_of_Inr
      by (simp add: prov_rows_def holder_rows_def content_rows_def has_provenance_def delete_fts_fields)
  qed
qed


lemma delete_where_union:
  "delete_where (\<lambda>x. f x \<in> B) (delete_where (\<lambda>x. f x \<in> A) t) = delete_where (\<lambda>x. f x \<in> A \<union> B) t"
  by (simp add: delete_where_twice)

lemma without_chunks_trans:
  "without_chunks st A s s' \<Longrightarrow> without_chunks st B s' s'' \<Longrightarrow> without_chunks st (A \<union> B) s s''"
  by (auto simp: without_chunks_def delete_where_union untouched_def)

lemma unit_chunks_delete: "unit_chunks u (delete_where (\<lambda>p. pr_chunk_id p \<in> ids) ps) = unit_chunks u ps - ids"
  by (auto simp: unit_chunks_def unit_chunk_ids_def)

lemma replaced_delete: "replaced now us t (delete_where (\<lambda>p. pr_chunk_id p \<in> ids) ps) = replaced now us t ps - ids"
  by (induction us arbitrary: t) (auto simp: unit_chunks_delete)

definition put_units :: "timestamp \<Rightarrow> source_unit list \<Rightarrow> unit_fingerprint_row list \<Rightarrow> unit_fingerprint_row list" where
  "put_units now us t = fold (put_unit now) us t"

definition source_rows_of :: "store \<Rightarrow> app_change list \<Rightarrow> timestamp \<Rightarrow> store \<Rightarrow> bool" where
  "source_rows_of s cs now s' \<longleftrightarrow>
     st_documents s' = fold (upsert doc_key (\<lambda>_ e. e)) (documents_of cs) (st_documents s)
     \<and> st_bindings s' = fold (upsert binding_key (\<lambda>_ e. e)) (map application_binding (documents_of cs)) (st_bindings s)
     \<and> st_unit_fps s' = put_units now (units_of cs) (st_unit_fps s)
     \<and> st_checkpoints s' = st_checkpoints s \<and> st_table s' = st_table s"

lemma rows_of_sources [simp]:
  "prov_rows st (upsert_resource_binding b s) = prov_rows st s"
  "prov_rows st (upsert_source_document d s) = prov_rows st s"
  "prov_rows st (s\<lparr>st_unit_fps := t\<rparr>) = prov_rows st s"
  "holder_rows st (s\<lparr>st_unit_fps := t\<rparr>) = holder_rows st s"
  "content_rows st (s\<lparr>st_unit_fps := t\<rparr>) = content_rows st s"
  by (simp_all add: prov_rows_def holder_rows_def content_rows_def upsert_resource_binding_def upsert_source_document_def)

text \<open>One change of the batch: the rows it upserts, then the chunks of the unit if it changed.\<close>

definition applied :: "timestamp \<Rightarrow> app_change \<Rightarrow> store \<Rightarrow> store" where
  "applied now c s = (upsert_resource_binding (application_binding (ac_document c))
      (upsert_source_document (ac_document c) s))\<lparr>st_unit_fps := put_unit now (ac_unit c) (st_unit_fps s)\<rparr>"

lemma applied_fields [simp]:
  "prov_rows st (applied now c s) = prov_rows st s" "holder_rows st (applied now c s) = holder_rows st s"
  "content_rows st (applied now c s) = content_rows st s"
  "st_documents (applied now c s) = upsert doc_key (\<lambda>_ e. e) (ac_document c) (st_documents s)"
  "st_bindings (applied now c s) = upsert binding_key (\<lambda>_ e. e) (application_binding (ac_document c)) (st_bindings s)"
  "st_unit_fps (applied now c s) = put_unit now (ac_unit c) (st_unit_fps s)"
  "st_checkpoints (applied now c s) = st_checkpoints s" "st_table (applied now c s) = st_table s"
  by (simp_all add: applied_def upsert_resource_binding_def upsert_source_document_def)
    (simp_all add: prov_rows_def holder_rows_def content_rows_def)

lemma applied_upsert:
  "upsert_source_unit_fingerprint now (ac_unit c) None
     (upsert_resource_binding (application_binding (ac_document c)) (upsert_source_document (ac_document c) s)) =
   (unit_changed (st_unit_fps s) (ac_unit c), applied now c s)"
proof -
  have "st_unit_fps (upsert_resource_binding (application_binding (ac_document c)) (upsert_source_document (ac_document c) s)) =
      st_unit_fps s"
    by (simp add: upsert_resource_binding_def upsert_source_document_def)
  then show ?thesis by (simp add: upsert_unit_eq applied_def)
qed

lemma apply_changes_step:
  assumes "apply_changes ie now (c # cs) n del s = Inr out"
  obtains n1 ids s3 where
    "sd_ref (ac_document c) = make_ref (sd_namespace (ac_document c)) (sd_document_ref (ac_document c))"
    and "if unit_changed (st_unit_fps s) (ac_unit c)
      then delete_chunks_for_source_unit (su_namespace (ac_unit c)) (su_document_ref (ac_unit c)) (su_unit_ref (ac_unit c))
        (ie_strategy ie) (Some (fts_table_of (ie_strategy ie))) (applied now c s) = Inr (ids, s3)
      else ids = [] \<and> s3 = applied now c s"
    and "apply_changes ie now cs n1 (del @ ids) s3 = Inr out"
proof -
  let ?d = "ac_document c" and ?b = "application_binding (ac_document c)"
  let ?s1 = "upsert_source_document ?d s"
  obtain existing where ex: "get_resource_binding ?s1 (sd_namespace ?d) (sd_document_ref ?d) = Inr existing"
    using assms by (cases "get_resource_binding ?s1 (sd_namespace ?d) (sd_document_ref ?d)") (simp_all add: Let_def)
  obtain b where b: "make_binding ?b = Inr b"
    using assms ex by (cases "make_binding ?b") (simp_all add: Let_def)
  then have b_eq: "b = ?b" and ref: "sd_ref ?d = make_ref (sd_namespace ?d) (sd_document_ref ?d)"
    using validate_resource_binding_ok [of ?b b]
    by (simp_all add: make_binding_def application_binding_def active_binding_def Let_def)
  let ?n = "n + (case existing of Some old \<Rightarrow> if rb_active old then 0 else 1 | None \<Rightarrow> 0)"
  have run: "(if \<not> unit_changed (st_unit_fps s) (ac_unit c) then apply_changes ie now cs ?n del (applied now c s)
      else try_bind (delete_chunks_for_source_unit (su_namespace (ac_unit c)) (su_document_ref (ac_unit c))
          (su_unit_ref (ac_unit c)) (ie_strategy ie) (Some (fts_table_of (ie_strategy ie))) (applied now c s))
        (\<lambda>(ids, s3). apply_changes ie now cs ?n (del @ ids) s3)) = Inr out"
    using assms ex b unfolding b_eq by (simp add: applied_upsert Let_def cong: if_cong)
  show ?thesis
  proof (cases "unit_changed (st_unit_fps s) (ac_unit c)")
    case True
    with run show ?thesis using that ref by (auto simp: try_bind_Inr_iff)
  next
    case False
    with run show ?thesis using that [of "[]" "applied now c s" ?n] ref by simp
  qed
qed

lemma apply_changes_result:
  assumes "apply_changes ie now cs n del s = Inr (n', del', s')"
  shows "(\<exists>ids. del' = del @ ids \<and> set ids = replaced now (units_of cs) (st_unit_fps s) (prov_rows (ie_strategy ie) s)
     \<and> without_chunks (ie_strategy ie) (set ids) s s')
   \<and> source_rows_of s cs now s'
   \<and> list_all (\<lambda>d. sd_ref d = make_ref (sd_namespace d) (sd_document_ref d)) (documents_of cs)"
  using assms
proof (induction cs arbitrary: n del s)
  case Nil
  then show ?case
    by (auto simp: units_of_def documents_of_def put_units_def source_rows_of_def without_chunks_def untouched_def)
next
  case (Cons c cs)
  let ?u = "ac_unit c" and ?st = "ie_strategy ie" and ?a = "applied now c s"
  from apply_changes_step [OF Cons.prems] obtain n1 ids1 s3 where
    ref: "sd_ref (ac_document c) = make_ref (sd_namespace (ac_document c)) (sd_document_ref (ac_document c))"
    and del: "if unit_changed (st_unit_fps s) ?u
      then delete_chunks_for_source_unit (su_namespace ?u) (su_document_ref ?u) (su_unit_ref ?u) ?st
        (Some (fts_table_of ?st)) ?a = Inr (ids1, s3)
      else ids1 = [] \<and> s3 = ?a"
    and go: "apply_changes ie now cs n1 (del @ ids1) s3 = Inr (n', del', s')" .
  have d: "without_chunks ?st (set ids1) ?a s3 \<and> st_documents s3 = st_documents ?a \<and> st_bindings s3 = st_bindings ?a
      \<and> st_unit_fps s3 = st_unit_fps ?a \<and> st_checkpoints s3 = st_checkpoints ?a \<and> st_table s3 = st_table ?a"
    and ids1: "set ids1 = (if unit_changed (st_unit_fps s) ?u then unit_chunks ?u (prov_rows ?st s) else {})"
    using del delete_unit_result
    by (fastforce simp: without_chunks_def untouched_def unit_chunks_def split: if_splits)+
  obtain ids where ids: "del' = (del @ ids1) @ ids"
    "set ids = replaced now (units_of cs) (st_unit_fps s3) (prov_rows ?st s3)" "without_chunks ?st (set ids) s3 s'"
    and rest: "source_rows_of s3 cs now s'"
      "list_all (\<lambda>d. sd_ref d = make_ref (sd_namespace d) (sd_document_ref d)) (documents_of cs)"
    using Cons.IH [OF go] by blast
  have "prov_rows ?st s3 = delete_where (\<lambda>p. pr_chunk_id p \<in> set ids1) (prov_rows ?st s)"
    using d by (simp add: without_chunks_def)
  then have "set (ids1 @ ids) = replaced now (units_of (c # cs)) (st_unit_fps s) (prov_rows ?st s)"
    using ids(2) d ids1 by (auto simp: units_of_def replaced_delete)
  moreover have "without_chunks ?st {} s ?a" by (simp add: without_chunks_def untouched_def)
  then have "without_chunks ?st (set (ids1 @ ids)) s s'"
    using without_chunks_trans [OF _ without_chunks_trans [OF conjunct1 [OF d] ids(3)]] by fastforce
  moreover have "source_rows_of s (c # cs) now s'"
    using rest(1) d by (simp add: source_rows_of_def documents_of_def units_of_def put_units_def)
  ultimately show ?case
    using ids(1) rest(2) ref by (auto simp: documents_of_def)
qed

section \<open>Inserting the chunks\<close>

definition unit_prov_row :: "chunk \<Rightarrow> prov_row" where
  "unit_prov_row c = (case ch_provenance c of
     Some p \<Rightarrow> \<lparr>pr_chunk_id = ch_chunk_id c, pr_namespace = cp_namespace p, pr_document_ref = cp_document_ref p,
       pr_source_unit_refs = cp_source_unit_refs p, pr_chunk_strategy = cp_chunk_strategy p,
       pr_parser_name = cp_parser_name p\<rparr>
   | None \<Rightarrow> \<lparr>pr_chunk_id = ch_chunk_id c, pr_namespace = [], pr_document_ref = [], pr_source_unit_refs = [],
       pr_chunk_strategy = [], pr_parser_name = None\<rparr>)"

lemma insert_unit_chunks_result:
  assumes "insert_unit_chunks st cs s = Inr s'" and "list_all (\<lambda>c. ch_provenance c \<noteq> None) cs"
  shows "content_rows st s' = fold (insert_or_ignore cr_chunk_id) (map content_row cs) (content_rows st s)
    \<and> prov_rows st s' = fold (insert_or_replace prov_key) (map unit_prov_row cs) (prov_rows st s)
    \<and> holder_rows st s' = holder_rows st s \<and> (\<forall>st'. st' \<noteq> st \<longrightarrow> untouched st' s s')
    \<and> st_documents s' = st_documents s \<and> st_bindings s' = st_bindings s \<and> st_unit_fps s' = st_unit_fps s
    \<and> st_checkpoints s' = st_checkpoints s \<and> st_table s' = st_table s"
  using assms
proof (induction cs arbitrary: s)
  case Nil
  then show ?case by (simp add: untouched_def)
next
  case (Cons c cs)
  obtain p where p: "ch_provenance c = Some p" using Cons.prems(2) by auto
  obtain s1 where s1: "insert_chunk st (ch_chunk_id c) (ch_heading_hierarchy c) (ch_level c) (ch_text c) s = Inr s1"
    using Cons.prems(1) by (auto simp: try_bind_Inr_iff)
  obtain s2 where s2: "persist_one_chunk_source_provenance st c s1 = Inr s2"
    and go: "insert_unit_chunks st cs s2 = Inr s'"
    using Cons.prems(1) s1 by (auto simp: try_bind_Inr_iff)
  obtain ts where ts: "dict_get (st_chunks s) (chunk_table st) = Some ts"
    and s1': "s1 = s\<lparr>st_chunks := dict_set (chunk_table st) (insert_or_ignore cr_chunk_id (content_row c) ts) (st_chunks s)\<rparr>"
    using s1 by (auto simp: insert_chunk_def try_bind_Inr_iff table_of_Inr content_row_def)
  obtain ps where ps: "dict_get (st_prov s1) (prov_table st) = Some ps"
    and s2': "s2 = s1\<lparr>st_prov := dict_set (prov_table st) (insert_or_replace prov_key (unit_prov_row c) ps) (st_prov s1)\<rparr>"
    using s2 p by (auto simp: persist_one_chunk_source_provenance_def add_chunk_provenance_def try_bind_Inr_iff
        table_of_Inr unit_prov_row_def split: if_splits)
  have rows: "content_rows st s2 = insert_or_ignore cr_chunk_id (content_row c) (content_rows st s)"
    "prov_rows st s2 = insert_or_replace prov_key (unit_prov_row c) (prov_rows st s)"
    "holder_rows st s2 = holder_rows st s" "st' \<noteq> st \<Longrightarrow> untouched st' s s2" for st'
    using ts ps unfolding s2' s1' by (simp_all add: content_rows_def prov_rows_def holder_rows_def untouched_def)
  have rest: "st_documents s2 = st_documents s" "st_bindings s2 = st_bindings s" "st_unit_fps s2 = st_unit_fps s"
    "st_checkpoints s2 = st_checkpoints s" "st_table s2 = st_table s"
    unfolding s2' s1' by simp_all
  have "list_all (\<lambda>c. ch_provenance c \<noteq> None) cs" using Cons.prems(2) by simp
  note IH = Cons.IH [OF go this]
  have "untouched st' s s'" if "st' \<noteq> st" for st'
    using IH rows(4) [OF that] that by (simp add: untouched_def)
  with IH rows(1-3) rest show ?case by simp
qed

section \<open>What is indexed\<close>

definition visible :: "source_unit \<Rightarrow> bool" where
  "visible u \<longleftrightarrow> json_get (json_fields (su_metadata_json u)) ''standalone_search'' \<noteq> JBool False"

definition indexed_changes :: "store \<Rightarrow> app_change list \<Rightarrow> app_change list" where
  "indexed_changes s cs = filter (\<lambda>c. unit_changed (st_unit_fps s) (ac_unit c) \<and> visible (ac_unit c)) cs"

definition item_of :: "indexing_env \<Rightarrow> app_change \<Rightarrow> index_item" where
  "item_of ie c = \<lparr>ii_change = c, ii_chunk = application_chunk_for_unit ie (ac_document c) (ac_unit c),
     ii_source_key = doc_key (ac_document c)\<rparr>"

definition chunk_of :: "indexing_env \<Rightarrow> app_change \<Rightarrow> chunk" where
  "chunk_of ie c = application_chunk_for_unit ie (ac_document c) (ac_unit c)"

lemma item_of_chunk [simp]: "ii_chunk (item_of ie c) = chunk_of ie c"
  by (simp add: item_of_def chunk_of_def)

lemma chunk_of_fields [simp]:
  "ch_chunk_id (chunk_of ie c) = unit_chunk_id ie (su_namespace (ac_unit c)) (su_unit_ref (ac_unit c)) (su_fingerprint (ac_unit c))"
  "ch_provenance (chunk_of ie c) \<noteq> None"
  by (simp_all add: chunk_of_def application_chunk_for_unit_def)

definition stored_unit :: "store \<Rightarrow> source_unit \<Rightarrow> unit_fingerprint_row option" where
  "stored_unit s u = fetch_key unit_fp_key (st_unit_fps s) (unit_key u)"

lemma prepare_changes_result:
  "prepare_changes ie s cs r =
     (map (item_of ie) (indexed_changes s cs),
      r\<lparr>ir_new_units := ir_new_units r + length (filter (\<lambda>c. stored_unit s (ac_unit c) = None) cs),
        ir_changed_units := ir_changed_units r + length (filter (\<lambda>c. stored_unit s (ac_unit c) \<noteq> None
          \<and> unit_changed (st_unit_fps s) (ac_unit c)) cs),
        ir_skipped_units := ir_skipped_units r + length (filter (\<lambda>c. \<not> unit_changed (st_unit_fps s) (ac_unit c)) cs),
        ir_hidden_units := ir_hidden_units r + length (filter (\<lambda>c. unit_changed (st_unit_fps s) (ac_unit c)
          \<and> \<not> visible (ac_unit c)) cs)\<rparr>)"
proof (induction cs arbitrary: r)
  case Nil
  then show ?case by (simp add: indexed_changes_def)
next
  case (Cons c cs)
  show ?case
    by (auto simp: Let_def Cons indexed_changes_def stored_unit_def unit_changed_def visible_def item_of_def doc_key_def
        get_source_unit_fingerprint_def unit_key_def split: option.splits)
qed


section \<open>A batch\<close>

lemma map_items: "map ii_chunk (map (item_of ie) cs) = map (chunk_of ie) cs"
  by simp

lemma embed_chunks_components: "embed_chunks env now cs st = (r, st') \<Longrightarrow> es_components st' = es_components st"
  by (auto simp: embed_chunks_def Let_def split: sum.splits prod.splits if_splits)

lemma batch_vectors_pipeline:
  "batch_vectors ie now items x = (r, x') \<Longrightarrow> ix_pipeline x' = ix_pipeline x \<and> ix_components x' = ix_components x"
  by (auto simp: batch_vectors_def embed_source_meta_components_def set_encoder_def set_embedding_def Let_def
      dest!: embed_chunks_components split: prod.splits sum.splits if_splits list.splits)

lemma ensure_prov_fields [simp]:
  "st_documents (ensure_chunk_source_provenance_table n s) = st_documents s"
  "st_bindings (ensure_chunk_source_provenance_table n s) = st_bindings s"
  "st_unit_fps (ensure_chunk_source_provenance_table n s) = st_unit_fps s"
  "st_checkpoints (ensure_chunk_source_provenance_table n s) = st_checkpoints s"
  "st_table (ensure_chunk_source_provenance_table n s) = st_table s"
  "prov_rows st (ensure_chunk_source_provenance_table n s) = prov_rows st s"
  "holder_rows st (ensure_chunk_source_provenance_table n s) = holder_rows st s"
  "content_rows st (ensure_chunk_source_provenance_table n s) = content_rows st s"
  by (auto simp: ensure_chunk_source_provenance_table_def prov_rows_def holder_rows_def content_rows_def
      ensure_table_def split: option.splits)

lemma ix_store_set [simp]:
  "ix_store (set_store s x) = s" "ix_store (set_components t x) = ix_store x"
  "ix_components (set_store s x) = ix_components x" "ix_components (set_components t x) = t"
  by (simp_all add: set_store_def set_components_def)

text \<open>The database after a batch that was ingested.\<close>

definition ingested :: "indexing_env \<Rightarrow> timestamp \<Rightarrow> string \<Rightarrow> change_batch \<Rightarrow> ingest_result \<Rightarrow> store \<Rightarrow> store \<Rightarrow> bool" where
  "ingested ie now ns batch r s s' \<longleftrightarrow>
     (let st = ie_strategy ie; cs = cb_changes batch;
          gone = replaced now (units_of cs) (st_unit_fps s) (prov_rows st s);
          chunks = map (chunk_of ie) (indexed_changes s cs)
      in st_documents s' = fold (upsert doc_key (\<lambda>_ e. e)) (documents_of cs) (st_documents s)
       \<and> st_bindings s' = fold (upsert binding_key (\<lambda>_ e. e)) (map application_binding (documents_of cs)) (st_bindings s)
       \<and> st_unit_fps s' = put_units now (units_of cs) (st_unit_fps s)
       \<and> content_rows st s' = fold (insert_or_ignore cr_chunk_id) (map content_row chunks)
           (delete_where (\<lambda>c. cr_chunk_id c \<in> gone) (content_rows st s))
       \<and> prov_rows st s' = fold (insert_or_replace prov_key) (map unit_prov_row chunks)
           (delete_where (\<lambda>p. pr_chunk_id p \<in> gone) (prov_rows st s))
       \<and> holder_rows st s' = delete_where (\<lambda>m. mm_chunk_id m \<in> gone) (holder_rows st s)
       \<and> (\<forall>st'. st' \<noteq> st \<longrightarrow> untouched st' s s')
       \<and> st_table s' = st_table s
       \<and> (\<exists>m. st_checkpoints s' = st_checkpoints (commit_source_checkpoint now ns (cb_checkpoint_cursor batch) m s))
       \<and> ir_discovered r = length cs
       \<and> ir_new_units r = length (filter (\<lambda>c. stored_unit s (ac_unit c) = None) cs)
       \<and> ir_changed_units r = length (filter (\<lambda>c. stored_unit s (ac_unit c) \<noteq> None \<and> unit_changed (st_unit_fps s) (ac_unit c)) cs)
       \<and> ir_skipped_units r = length (filter (\<lambda>c. \<not> unit_changed (st_unit_fps s) (ac_unit c)) cs)
       \<and> ir_hidden_units r = length (filter (\<lambda>c. unit_changed (st_unit_fps s) (ac_unit c) \<and> \<not> visible (ac_unit c)) cs)
       \<and> ir_chunks_indexed r = length chunks
       \<and> list_all (\<lambda>d. sd_ref d = make_ref (sd_namespace d) (sd_document_ref d)) (documents_of cs))"

lemma commit_checkpoint_rows [simp]:
  "prov_rows st (commit_source_checkpoint now ns c m s) = prov_rows st s"
  "holder_rows st (commit_source_checkpoint now ns c m s) = holder_rows st s"
  "content_rows st (commit_source_checkpoint now ns c m s) = content_rows st s"
  by (simp_all add: prov_rows_def holder_rows_def content_rows_def commit_source_checkpoint_def)

lemma ingest_batch_result:
  assumes "ingest_batch ie now ns batch x = (Inr r, x')"
  shows "ingested ie now ns batch r (ix_store x) (ix_store x')"
proof -
  let ?st = "ie_strategy ie" and ?cs = "cb_changes batch" and ?s = "ix_store x"
  obtain items r0 where prep: "prepare_changes ie ?s ?cs (no_counts\<lparr>ir_discovered := length ?cs\<rparr>) = (items, r0)"
    by fastforce
  have items: "items = map (item_of ie) (indexed_changes ?s ?cs)"
    using prep unfolding prepare_changes_result by simp
  obtain v x1 where vec: "batch_vectors ie now items x = (v, x1)" by fastforce
  obtain e_text e_meta where v: "v = Inr (e_text, e_meta)"
    using assms prep vec by (cases v) (auto simp: ingest_batch_def)
  have x1: "ix_store x1 = ?s" using batch_vectors_pipeline [OF vec] by simp
  let ?base = "ensure_chunk_source_provenance_table ?st ?s"
  let ?chunks = "map (chunk_of ie) (indexed_changes ?s ?cs)"
  obtain s' t' where tr: "ingest_transaction ie now ns batch items e_text e_meta r0 ?base (ix_components x1) = Inr (r, s', t')"
    and x': "ix_store x' = s'"
    using assms prep vec v x1 by (auto simp: ingest_batch_def Let_def split: sum.splits)
  obtain rebound deleted s1 where ap: "apply_changes ie now ?cs 0 [] ?base = Inr (rebound, deleted, s1)"
    using tr by (auto simp: ingest_transaction_def Let_def try_bind_Inr_iff)
  have chunks: "map ii_chunk items = ?chunks" unfolding items by simp
  have rest: "\<exists>s2 m. insert_unit_chunks ?st ?chunks s1 = Inr s2
      \<and> s' = commit_source_checkpoint now ns (cb_checkpoint_cursor batch) m s2
      \<and> r = r0\<lparr>ir_rebound_units := ir_rebound_units r0 + rebound, ir_chunks_indexed := length ?chunks\<rparr>"
    using tr ap by (auto simp: ingest_transaction_def Let_def chunks try_bind_Inr_iff)
  then obtain s2 m where ins: "insert_unit_chunks ?st ?chunks s1 = Inr s2"
    and s': "s' = commit_source_checkpoint now ns (cb_checkpoint_cursor batch) m s2"
    and fin: "r = r0\<lparr>ir_rebound_units := ir_rebound_units r0 + rebound, ir_chunks_indexed := length ?chunks\<rparr>"
    by blast
  have prov: "list_all (\<lambda>c. ch_provenance c \<noteq> None) ?chunks"
    by (simp add: list_all_iff chunk_of_def application_chunk_for_unit_def)
  note A = apply_changes_result [OF ap] and I = insert_unit_chunks_result [OF ins prov]
  have W: "without_chunks ?st (replaced now (units_of ?cs) (st_unit_fps ?s) (prov_rows ?st ?s)) ?base s1"
    using A by auto
  have refs: "list_all (\<lambda>d. sd_ref d = make_ref (sd_namespace d) (sd_document_ref d)) (documents_of ?cs)" using A by blast
  have S: "source_rows_of ?base ?cs now s1" using A by blast
  have counts: "ir_discovered r = length ?cs"
    "ir_new_units r = length (filter (\<lambda>c. stored_unit ?s (ac_unit c) = None) ?cs)"
    "ir_changed_units r = length (filter (\<lambda>c. stored_unit ?s (ac_unit c) \<noteq> None \<and> unit_changed (st_unit_fps ?s) (ac_unit c)) ?cs)"
    "ir_skipped_units r = length (filter (\<lambda>c. \<not> unit_changed (st_unit_fps ?s) (ac_unit c)) ?cs)"
    "ir_hidden_units r = length (filter (\<lambda>c. unit_changed (st_unit_fps ?s) (ac_unit c) \<and> \<not> visible (ac_unit c)) ?cs)"
    "ir_chunks_indexed r = length ?chunks"
    using prep fin by (auto simp: prepare_changes_result no_counts_def)
  have "\<exists>m. st_checkpoints s' = st_checkpoints (commit_source_checkpoint now ns (cb_checkpoint_cursor batch) m ?s)"
    using s' I S by (auto simp: commit_source_checkpoint_def source_rows_of_def)
  moreover have "st_documents s' = st_documents s1" "st_bindings s' = st_bindings s1" "st_unit_fps s' = st_unit_fps s1"
    "st_table s' = st_table s1"
    using s' I by (simp_all add: commit_source_checkpoint_def)
  moreover have "untouched st' ?s s'" if "st' \<noteq> ?st" for st'
    using that W I unfolding s' without_chunks_def by (simp add: untouched_def)
  ultimately show ?thesis
    using I W S refs counts unfolding ingested_def Let_def x' s'
    by (simp add: without_chunks_def source_rows_of_def)
qed

end
