(* ===== verification/Application_Contracts.thy ===== *)
theory Application_Contracts
  imports Application_Laws
begin

text \<open>
  The contracts of application-source ingest and purge, over the closed form of \<open>Application_Laws\<close>: a batch as an update of
  four maps, atomic failure, idempotent redelivery, the extent of a purge, and the invariant that
  ties the chunks of an application source to the stored versions of its units over every history.
\<close>

section \<open>The source tables as maps\<close>

lemma fetch_fold_upsert:
  "fetch_key key (fold (upsert key (\<lambda>_ e. e)) rs t) = fetch_key key t ++ fetch_key key (rev rs)"
proof (induction rs rule: rev_induct)
  case Nil
  then show ?case by (auto simp: map_add_def)
next
  case (snoc r rs)
  then show ?case by (auto simp: fetch_upsert_excluded map_add_def fun_eq_iff)
qed

lemma put_units_current:
  "(\<lambda>k. map_option uf_fingerprint (fetch_key unit_fp_key (put_units now us t) k)) =
     (\<lambda>k. map_option uf_fingerprint (fetch_key unit_fp_key t k)) ++ (\<lambda>k. map_option su_fingerprint (fetch_key unit_key (rev us) k))"
  unfolding put_units_def
proof (induction us rule: rev_induct)
  case Nil
  then show ?case by (auto simp: map_add_def)
next
  case (snoc u us)
  then have "map_option uf_fingerprint (fetch_key unit_fp_key (fold (put_unit now) us t) k) =
      ((\<lambda>k. map_option uf_fingerprint (fetch_key unit_fp_key t k)) ++
       (\<lambda>k. map_option su_fingerprint (fetch_key unit_key (rev us) k))) k" for k
    by (rule fun_cong)
  then show ?case by (auto simp: put_unit_current map_add_def fun_eq_iff)
qed

lemma application_binding_key [simp]: "binding_key (application_binding d) = doc_key d"
  by (simp add: application_binding_def active_binding_def binding_key_def doc_key_def Let_def)

definition resume_cursor :: "store \<Rightarrow> string \<Rightarrow> string option" where
  "resume_cursor s ns = (case get_source_checkpoint s ns of Some c \<Rightarrow> ck_checkpoint_cursor c | None \<Rightarrow> None)"

definition fingerprints :: "store \<Rightarrow> string \<times> string \<times> string \<Rightarrow> string option" where
  "fingerprints s k = map_option uf_fingerprint (fetch_key unit_fp_key (st_unit_fps s) k)"

text \<open>
  C25: Ingesting a batch is an update of four maps: the documents, the bindings (active, one per
  document), the unit fingerprints and the cursors.  The last change of the batch wins for every
  key, every other key, so every other source, is left alone, and the cursor becomes exactly what the provider
  sent, nothing included; only an empty batch without a cursor keeps the old one.  Beside the maps an
  ingest writes chunk and provenance rows, of its own strategy only: it removes the chunks of the
  units whose fingerprint changes and adds those of the changed units that are not hidden.  What it
  writes to the full-text table and the vectors is outside this statement.
\<close>

theorem ingest_refines_maps:
  assumes "ingest_application_source ie now pv limit x = (Inr r, x')"
    and "requested_batch pv limit (ix_store x) = Inr batch"
  shows "fetch_key doc_key (st_documents (ix_store x')) =
      fetch_key doc_key (st_documents (ix_store x)) ++ fetch_key doc_key (rev (documents_of (cb_changes batch)))
    \<and> fetch_key binding_key (st_bindings (ix_store x')) =
      fetch_key binding_key (st_bindings (ix_store x)) ++
        (\<lambda>k. map_option application_binding (fetch_key doc_key (rev (documents_of (cb_changes batch))) k))
    \<and> fingerprints (ix_store x') =
      fingerprints (ix_store x) ++ (\<lambda>k. map_option su_fingerprint (fetch_key unit_key (rev (units_of (cb_changes batch))) k))
    \<and> resume_cursor (ix_store x') = (resume_cursor (ix_store x)) (pv_namespace pv :=
        if cb_changes batch = [] \<and> cb_checkpoint_cursor batch = None
        then resume_cursor (ix_store x) (pv_namespace pv) else cb_checkpoint_cursor batch)
    \<and> (st' \<noteq> ie_strategy ie \<longrightarrow> untouched st' (ix_store x) (ix_store x'))
    \<and> cr_chunk_id ` set (content_rows (ie_strategy ie) (ix_store x')) =
      cr_chunk_id ` set (content_rows (ie_strategy ie) (ix_store x))
        - replaced now (units_of (cb_changes batch)) (st_unit_fps (ix_store x)) (prov_rows (ie_strategy ie) (ix_store x))
      \<union> (ch_chunk_id \<circ> chunk_of ie) ` set (indexed_changes (ix_store x) (cb_changes batch))"
proof (cases "cb_changes batch = []")
  case True
  then have "ix_store x' = commit_empty_batch now (pv_namespace pv) batch
      (get_source_checkpoint (ix_store x) (pv_namespace pv)) (ix_store x)"
    using assms by (auto simp: ingest_application_source_def)
  then show ?thesis
    using True
    by (auto simp: commit_empty_batch_def Let_def documents_of_def units_of_def fingerprints_def resume_cursor_def
        commit_source_checkpoint_def get_source_checkpoint_def fetch_upsert map_add_def fun_eq_iff indexed_changes_def
        untouched_def content_rows_def holder_rows_def prov_rows_def split: option.splits)
next
  case False
  then have run: "ingest_batch ie now (pv_namespace pv) batch x = (Inr r, x')"
    using assms by (simp add: ingest_application_source_def)
  have map_keys: "fetch_key binding_key (map application_binding ds) =
      (\<lambda>k. map_option application_binding (fetch_key doc_key ds k))"
    for ds by (induction ds) (auto simp: fun_eq_iff)
  obtain m where m: "st_checkpoints (ix_store x') = st_checkpoints (commit_source_checkpoint now (pv_namespace pv)
      (cb_checkpoint_cursor batch) m (ix_store x))"
    using ingest_batch_result [OF run] by (auto simp: ingested_def Let_def)
  have "resume_cursor (ix_store x') = (resume_cursor (ix_store x)) (pv_namespace pv := cb_checkpoint_cursor batch)"
    using m by (auto simp: resume_cursor_def get_source_checkpoint_def commit_source_checkpoint_def fetch_upsert fun_eq_iff
        split: option.splits)
  moreover have "fingerprints (ix_store x') =
      fingerprints (ix_store x) ++ (\<lambda>k. map_option su_fingerprint (fetch_key unit_key (rev (units_of (cb_changes batch))) k))"
    using ingest_batch_result [OF run] put_units_current [of now "units_of (cb_changes batch)"]
    by (simp add: ingested_def Let_def fingerprints_def [abs_def])
  moreover have "cr_chunk_id ` set (content_rows (ie_strategy ie) (ix_store x')) =
      cr_chunk_id ` set (content_rows (ie_strategy ie) (ix_store x))
        - replaced now (units_of (cb_changes batch)) (st_unit_fps (ix_store x)) (prov_rows (ie_strategy ie) (ix_store x))
      \<union> (ch_chunk_id \<circ> chunk_of ie) ` set (indexed_changes (ix_store x) (cb_changes batch))"
  proof -
    have rows: "content_rows (ie_strategy ie) (ix_store x') = fold (insert_or_ignore cr_chunk_id)
        (map (\<lambda>c. content_row (chunk_of ie c)) (indexed_changes (ix_store x) (cb_changes batch)))
        (delete_where (\<lambda>c. cr_chunk_id c \<in> replaced now (units_of (cb_changes batch)) (st_unit_fps (ix_store x))
          (prov_rows (ie_strategy ie) (ix_store x))) (content_rows (ie_strategy ie) (ix_store x)))"
      using ingest_batch_result [OF run] by (simp add: ingested_def Let_def comp_def)
    show ?thesis unfolding rows ids_fold_ignore by (auto simp: content_row_def image_image)
  qed
  ultimately show ?thesis
    using False ingest_batch_result [OF run]
    by (simp add: ingested_def Let_def fetch_fold_upsert rev_map map_keys)
qed


section \<open>Failure\<close>

lemma record_error_request:
  "requested_batch pv limit (record_source_checkpoint_error ns msg s) = requested_batch pv limit s"
  "resume_cursor (record_source_checkpoint_error ns msg s) = resume_cursor s"
  by (auto simp: requested_batch_def resume_cursor_def get_source_checkpoint_def record_source_checkpoint_error_def
      fetch_upsert Let_def fun_eq_iff split: option.splits)

lemma record_error_rows [simp]:
  "prov_rows st (record_source_checkpoint_error ns msg s) = prov_rows st s"
  "holder_rows st (record_source_checkpoint_error ns msg s) = holder_rows st s"
  "content_rows st (record_source_checkpoint_error ns msg s) = content_rows st s"
  "st_documents (record_source_checkpoint_error ns msg s) = st_documents s"
  "st_bindings (record_source_checkpoint_error ns msg s) = st_bindings s"
  "st_unit_fps (record_source_checkpoint_error ns msg s) = st_unit_fps s"
  by (simp_all add: prov_rows_def holder_rows_def content_rows_def record_source_checkpoint_error_def)

lemma ensure_prov_request:
  "requested_batch pv limit (ensure_chunk_source_provenance_table n s) = requested_batch pv limit s"
  "resume_cursor (ensure_chunk_source_provenance_table n s) = resume_cursor s"
  by (auto simp: requested_batch_def resume_cursor_def get_source_checkpoint_def Let_def fun_eq_iff)

text \<open>The checkpoint row with the text of an error, created when there is none.\<close>

definition failed_checkpoint :: "string \<Rightarrow> string \<Rightarrow> checkpoint_row option \<Rightarrow> checkpoint_row" where
  "failed_checkpoint ns msg old =
     (case old of Some c \<Rightarrow> c\<lparr>ck_last_error := Some msg\<rparr>
      | None \<Rightarrow> \<lparr>ck_namespace = ns, ck_checkpoint_cursor = None, ck_last_success_at = None, ck_last_error = Some msg,
          ck_metadata_json = []\<rparr>)"

lemma record_error_checkpoint:
  "get_source_checkpoint (record_source_checkpoint_error ns msg s) =
     (get_source_checkpoint s)(ns \<mapsto> failed_checkpoint ns msg (get_source_checkpoint s ns))"
  by (auto simp: get_source_checkpoint_def record_source_checkpoint_error_def fetch_upsert failed_checkpoint_def
      fun_eq_iff split: option.splits)

lemma ensure_prov_checkpoint:
  "get_source_checkpoint (ensure_chunk_source_provenance_table n s) = get_source_checkpoint s"
  by (simp add: get_source_checkpoint_def fun_eq_iff)

lemma ingest_error_rows:
  assumes "ingest_application_source ie now pv limit x = (Inl e, x')"
  obtains "ix_store x' = ix_store x" "ix_components x' = ix_components x"
  | msg where "ix_store x' = record_source_checkpoint_error (pv_namespace pv) msg
      (ensure_chunk_source_provenance_table (ie_strategy ie) (ix_store x))" "ix_components x' = ix_components x"
proof (cases "requested_batch pv limit (ix_store x)")
  case (Inl e')
  with assms that(1) show ?thesis by (simp add: ingest_application_source_def)
next
  case (Inr batch)
  let ?ns = "pv_namespace pv" and ?s = "ix_store x"
  have run: "ingest_batch ie now ?ns batch x = (Inl e, x')"
    using assms Inr by (auto simp: ingest_application_source_def split: if_splits)
  obtain items r0 where prep: "prepare_changes ie ?s (cb_changes batch)
      (no_counts\<lparr>ir_discovered := length (cb_changes batch)\<rparr>) = (items, r0)" by fastforce
  obtain v x1 where vec: "batch_vectors ie now items x = (v, x1)" by fastforce
  have x1: "ix_store x1 = ?s" "ix_components x1 = ix_components x"
    using batch_vectors_pipeline [OF vec] by simp_all
  show ?thesis
  proof (cases v)
    case (Inl e')
    then have "x' = x1" using run prep vec by (simp add: ingest_batch_def)
    with x1 that(1) show ?thesis by simp
  next
    case (Inr w)
    obtain msg where "ix_store x' = record_source_checkpoint_error ?ns msg
        (ensure_chunk_source_provenance_table (ie_strategy ie) ?s)" "ix_components x' = ix_components x1"
      using run prep vec Inr x1 by (cases w) (auto simp: ingest_batch_def Let_def split: sum.splits)
    with x1 that(2) show ?thesis by simp
  qed
qed

text \<open>
  C26: An ingest that fails leaves nothing of the batch in the index: whatever raised (the provider, the encoder, a
  conflicting reference, a missing table), documents, bindings, fingerprints, chunks, provenance and component
  vectors are as before, for every strategy, and the next call asks every provider for exactly the changes this one asked for.
  Of the checkpoints only that of the namespace can change, where the text of the error is
  recorded (in a new row without a cursor when there was none); its cursor stays.  Vectors that were
  computed before the failure may remain in the embedding cache, which is a store of its own.
\<close>

theorem ingest_error_atomic:
  assumes "ingest_application_source ie now pv limit x = (Inl e, x')"
  shows "st_documents (ix_store x') = st_documents (ix_store x) \<and> st_bindings (ix_store x') = st_bindings (ix_store x)
    \<and> st_unit_fps (ix_store x') = st_unit_fps (ix_store x) \<and> untouched st (ix_store x) (ix_store x')
    \<and> ix_components x' = ix_components x
    \<and> (get_source_checkpoint (ix_store x') = get_source_checkpoint (ix_store x)
       \<or> (\<exists>msg. get_source_checkpoint (ix_store x') = (get_source_checkpoint (ix_store x))
           (pv_namespace pv \<mapsto> failed_checkpoint (pv_namespace pv) msg (get_source_checkpoint (ix_store x) (pv_namespace pv)))))
    \<and> requested_batch pv' limit' (ix_store x') = requested_batch pv' limit' (ix_store x)"
  using assms
proof (cases rule: ingest_error_rows)
  case 1
  then show ?thesis by (simp add: untouched_def)
next
  case (2 msg)
  have "get_source_checkpoint (ix_store x') = (get_source_checkpoint (ix_store x))
      (pv_namespace pv \<mapsto> failed_checkpoint (pv_namespace pv) msg (get_source_checkpoint (ix_store x) (pv_namespace pv)))"
    unfolding 2(1) record_error_checkpoint ensure_prov_checkpoint ..
  then show ?thesis
    using 2 by (auto simp: untouched_def record_error_request ensure_prov_request)
qed


section \<open>Redelivery\<close>

lemma make_application_binding:
  "sd_ref d = make_ref (sd_namespace d) (sd_document_ref d) \<Longrightarrow>
     validate_resource_binding (application_binding d) = Inr (application_binding d)"
  by (simp add: application_binding_def active_binding_def validate_resource_binding_def Let_def)

lemma application_binding_active [simp]: "rb_active (application_binding d)"
  by (simp add: application_binding_def active_binding_def Let_def)

lemma set_same_fps: "st_unit_fps t = v \<Longrightarrow> t\<lparr>st_unit_fps := v\<rparr> = t"
  by auto

definition bound :: "store \<Rightarrow> source_document \<Rightarrow> bool" where
  "bound s d \<longleftrightarrow> (\<exists>b. fetch_key binding_key (st_bindings s) (doc_key d) = Some b \<and> rb_active b
     \<and> validate_resource_binding b = Inr b)"

lemma apply_changes_settled:
  assumes "list_all (\<lambda>c. bound s (ac_document c) \<and> \<not> unit_changed (st_unit_fps s) (ac_unit c)
      \<and> sd_ref (ac_document c) = make_ref (sd_namespace (ac_document c)) (sd_document_ref (ac_document c))) cs"
  shows "\<exists>s'. apply_changes ie now cs n del s = Inr (n, del, s') \<and> st_unit_fps s' = st_unit_fps s
    \<and> st_checkpoints s' = st_checkpoints s \<and> (\<forall>st. untouched st s s')"
  using assms
proof (induction cs arbitrary: s)
  case Nil
  then show ?case by (simp add: untouched_def)
next
  case (Cons c cs)
  let ?d = "ac_document c" and ?u = "ac_unit c"
  let ?b = "application_binding ?d"
  let ?t = "upsert_resource_binding ?b (upsert_source_document ?d s)"
  have fps: "st_unit_fps ?t = st_unit_fps s" "st_checkpoints ?t = st_checkpoints s"
    by (simp_all add: upsert_resource_binding_def upsert_source_document_def)
  have valid: "validate_resource_binding ?b = Inr ?b" using Cons.prems by (simp add: make_application_binding)
  have bindings: "fetch_key binding_key (st_bindings ?t) k =
      (if k = doc_key ?d then Some ?b else fetch_key binding_key (st_bindings s) k)" for k
    unfolding fetch_upsert_resource_binding by (simp add: upsert_source_document_def)
  have keep: "bound ?t d" if "bound s d" for d
    using that valid by (auto simp: bound_def bindings)
  have rest: "list_all (\<lambda>c. bound ?t (ac_document c) \<and> \<not> unit_changed (st_unit_fps ?t) (ac_unit c)
      \<and> sd_ref (ac_document c) = make_ref (sd_namespace (ac_document c)) (sd_document_ref (ac_document c))) cs"
    using Cons.prems keep unfolding fps by (auto simp: list_all_iff)
  obtain b where b: "fetch_key binding_key (st_bindings s) (doc_key ?d) = Some b" "rb_active b"
    "validate_resource_binding b = Inr b"
    using Cons.prems by (auto simp: bound_def)
  have get: "get_resource_binding (upsert_source_document ?d s) (sd_namespace ?d) (sd_document_ref ?d) = Inr (Some b)"
    using b by (simp add: get_resource_binding_def upsert_source_document_def doc_key_def)
  have same: "put_unit now ?u (st_unit_fps s) = st_unit_fps s" "\<not> unit_changed (st_unit_fps s) ?u"
    using Cons.prems by (simp_all add: put_unit_def)
  have step: "apply_changes ie now (c # cs) n del s = apply_changes ie now cs n del ?t"
    using get b(2) valid same fps
    by (simp add: Let_def make_binding_def upsert_unit_eq set_same_fps cong: if_cong)
  obtain s' where "apply_changes ie now cs n del ?t = Inr (n, del, s')" "st_unit_fps s' = st_unit_fps ?t"
    "st_checkpoints s' = st_checkpoints ?t" "\<forall>st. untouched st ?t s'"
    using Cons.IH [OF rest] by blast
  then show ?case unfolding step fps by (auto simp: untouched_def)
qed

lemma no_items: "list_all (\<lambda>c. \<not> unit_changed (st_unit_fps s) (ac_unit c)) cs \<Longrightarrow>
   prepare_changes ie s cs r = ([], r\<lparr>ir_skipped_units := ir_skipped_units r + length cs\<rparr>)"
proof -
  assume settled: "list_all (\<lambda>c. \<not> unit_changed (st_unit_fps s) (ac_unit c)) cs"
  then have "stored_unit s (ac_unit c) \<noteq> None" if "c \<in> set cs" for c
    using that by (fastforce simp: list_all_iff unit_changed_def stored_unit_def split: option.splits)
  with settled show ?thesis
    unfolding prepare_changes_result indexed_changes_def by (auto simp: list_all_iff filter_empty_conv intro!: filter_True)
qed

lemma batch_vectors_none: "batch_vectors ie now [] x = (Inr ([], []), x)"
  by (simp add: batch_vectors_def embed_chunks_def documents_by_key_def embed_source_meta_components_def
      set_embedding_def Let_def)

lemma ingest_settled_batch:
  assumes "list_all (\<lambda>c. bound (ix_store x) (ac_document c) \<and> \<not> unit_changed (st_unit_fps (ix_store x)) (ac_unit c)
      \<and> sd_ref (ac_document c) = make_ref (sd_namespace (ac_document c)) (sd_document_ref (ac_document c))) (cb_changes batch)"
  shows "\<exists>x'. ingest_batch ie now ns batch x = (Inr (no_counts\<lparr>ir_discovered := length (cb_changes batch),
        ir_skipped_units := length (cb_changes batch)\<rparr>), x')
    \<and> (\<forall>st. untouched st (ix_store x) (ix_store x')) \<and> st_unit_fps (ix_store x') = st_unit_fps (ix_store x)
    \<and> ix_embedding x' = ix_embedding x"
proof -
  let ?s = "ensure_chunk_source_provenance_table (ie_strategy ie) (ix_store x)" and ?cs = "cb_changes batch"
  have all: "list_all (\<lambda>c. bound ?s (ac_document c) \<and> \<not> unit_changed (st_unit_fps ?s) (ac_unit c)
      \<and> sd_ref (ac_document c) = make_ref (sd_namespace (ac_document c)) (sd_document_ref (ac_document c))) ?cs"
    using assms by (simp add: bound_def)
  obtain s' where s': "apply_changes ie now ?cs 0 [] ?s = Inr (0, [], s')" "st_unit_fps s' = st_unit_fps ?s"
    "\<forall>st. untouched st ?s s'"
    using apply_changes_settled [OF all] by blast
  have settled: "list_all (\<lambda>c. \<not> unit_changed (st_unit_fps (ix_store x)) (ac_unit c)) ?cs"
    using assms by (auto simp: list_all_iff)
  let ?r = "no_counts\<lparr>ir_discovered := length ?cs, ir_skipped_units := length ?cs\<rparr>"
  let ?s'' = "commit_source_checkpoint now ns (cb_checkpoint_cursor batch)
      (Some (checkpoint_metadata ?r (json_option (cb_updated_after batch)) (json_option (cb_updated_after_cursor batch)))) s'"
  have "ingest_batch ie now ns batch x = (Inr ?r, set_components (ix_components x) (set_store ?s'' x))"
    using s'(1) no_items [OF settled]
    by (simp add: ingest_batch_def batch_vectors_none Let_def ingest_transaction_def no_counts_def)
  moreover have "st_unit_fps ?s'' = st_unit_fps (ix_store x)"
    using s'(2) by (simp add: commit_source_checkpoint_def)
  moreover have "\<forall>st. untouched st (ix_store x) ?s''"
    using s'(3) by (simp add: untouched_def)
  moreover have "ix_embedding (set_components (ix_components x) (set_store ?s'' x)) = ix_embedding x"
    by (simp add: set_components_def set_store_def)
  ultimately show ?thesis by (intro exI [of _ "set_components (ix_components x) (set_store ?s'' x)"]) simp
qed

text \<open>Upserting the same rows again changes nothing.\<close>

lemma upsert_in_place:
  "key r \<in> key ` set t \<Longrightarrow> upsert key (\<lambda>_ e. e) r t = map (\<lambda>x. if key x = key r then r else x) t"
  by (auto simp: upsert_def update_where_def)

lemma set_upsert: "set (upsert key (\<lambda>_ e. e) r t) = insert r {x \<in> set t. key x \<noteq> key r}"
proof (cases "key r \<in> key ` set t")
  case True
  then show ?thesis by (auto simp: upsert_def update_where_def)
next
  case False
  then have "key x \<noteq> key r" if "x \<in> set t" for x using that by (metis imageI)
  with False show ?thesis by (auto simp: upsert_def)
qed

lemma fold_upsert_last:
  assumes "x \<in> set (fold (upsert key (\<lambda>_ e. e)) rs t)" "key x \<in> key ` set rs"
  shows "fetch_key key (rev rs) (key x) = Some x"
  using assms
proof (induction rs rule: rev_induct)
  case (snoc r rs)
  show ?case
  proof (cases "key x = key r")
    case True
    with snoc.prems(1) show ?thesis by (auto simp: set_upsert)
  next
    case False
    then have "x \<in> set (fold (upsert key (\<lambda>_ e. e)) rs t)" "key x \<in> key ` set rs"
      using snoc.prems by (auto simp: set_upsert)
    with snoc.IH False show ?thesis by simp
  qed
qed simp

lemma fold_upsert_keys: "key ` set (fold (upsert key (\<lambda>_ e. e)) rs t) = key ` set rs \<union> key ` set t"
  by (induction rs arbitrary: t) (auto simp: set_upsert image_iff)

lemma fold_upsert_present:
  "key ` set rs \<subseteq> key ` set t \<Longrightarrow> fold (upsert key (\<lambda>_ e. e)) rs t =
     map (\<lambda>x. case fetch_key key (rev rs) (key x) of Some r \<Rightarrow> r | None \<Rightarrow> x) t"
proof (induction rs rule: rev_induct)
  case (snoc r rs)
  then have "key r \<in> key ` set (fold (upsert key (\<lambda>_ e. e)) rs t)" unfolding fold_upsert_keys by simp
  from upsert_in_place [OF this] snoc have "fold (upsert key (\<lambda>_ e. e)) (rs @ [r]) t =
      map (\<lambda>x. if key x = key r then r else x) (map (\<lambda>x. case fetch_key key (rev rs) (key x) of Some r \<Rightarrow> r | None \<Rightarrow> x) t)"
    by simp
  also have "\<dots> = map (\<lambda>x. case fetch_key key (rev (rs @ [r])) (key x) of Some r \<Rightarrow> r | None \<Rightarrow> x) t"
    by (auto split: option.splits dest: fetch_key_key)
  finally show ?case .
qed simp

lemma fold_upsert_replay:
  "fold (upsert key (\<lambda>_ e. e)) rs (fold (upsert key (\<lambda>_ e. e)) rs t) = fold (upsert key (\<lambda>_ e. e)) rs t"
proof -
  let ?t = "fold (upsert key (\<lambda>_ e. e)) rs t"
  have "fold (upsert key (\<lambda>_ e. e)) rs ?t =
      map (\<lambda>x. case fetch_key key (rev rs) (key x) of Some r \<Rightarrow> r | None \<Rightarrow> x) ?t"
    by (rule fold_upsert_present) (simp add: fold_upsert_keys)
  also have "\<dots> = map (\<lambda>x. x) ?t"
  proof (rule map_cong)
    fix x
    assume "x \<in> set ?t"
    then show "(case fetch_key key (rev rs) (key x) of Some r \<Rightarrow> r | None \<Rightarrow> x) = x"
      using fold_upsert_last [of x key rs t] fetch_key_None_iff [of key "rev rs" "key x"]
      by (cases "key x \<in> key ` set rs") simp_all
  qed simp
  finally show ?thesis by simp
qed

lemma commit_checkpoint_row:
  "\<exists>c. get_source_checkpoint (commit_source_checkpoint now ns cursor m s) = (get_source_checkpoint s)(ns \<mapsto> c)
    \<and> ck_checkpoint_cursor c = cursor \<and> ck_last_success_at c = Some now \<and> ck_last_error c = None"
proof (cases "fetch_key ck_namespace (st_checkpoints s) ns")
  case None
  then show ?thesis
    by (auto simp: get_source_checkpoint_def commit_source_checkpoint_def fetch_upsert fun_eq_iff)
next
  case (Some old)
  then show ?thesis
    by (auto simp: get_source_checkpoint_def commit_source_checkpoint_def fetch_upsert fun_eq_iff)
qed

text \<open>
  C11: Ingesting is idempotent.  When a provider delivers a batch again (each unit once), the second
  ingest succeeds, reports every unit as skipped, and leaves every row as it is, documents, bindings and
  fingerprints, and the chunks, holders and provenance of every strategy, and every vector and the
  cache; the encoder is not called.  The one row it writes is the checkpoint of the namespace, which
  keeps its cursor and gets the time of the second ingest (and its counts).
\<close>

theorem ingest_redelivered:
  assumes "ingest_application_source ie now pv limit x = (Inr r, x')"
    and "requested_batch pv limit (ix_store x) = Inr batch" and "requested_batch pv limit (ix_store x') = Inr batch"
    and "cb_changes batch \<noteq> []" and "distinct (map unit_key (units_of (cb_changes batch)))"
  shows "\<exists>x''. ingest_application_source ie now' pv limit x' =
      (Inr (no_counts\<lparr>ir_discovered := length (cb_changes batch), ir_skipped_units := length (cb_changes batch)\<rparr>), x'')
    \<and> untouched st (ix_store x') (ix_store x'') \<and> st_unit_fps (ix_store x'') = st_unit_fps (ix_store x')
    \<and> ix_embedding x'' = ix_embedding x'
    \<and> st_documents (ix_store x'') = st_documents (ix_store x') \<and> st_bindings (ix_store x'') = st_bindings (ix_store x')
    \<and> (\<exists>c. get_source_checkpoint (ix_store x'') = (get_source_checkpoint (ix_store x'))(pv_namespace pv \<mapsto> c)
        \<and> ck_checkpoint_cursor c = resume_cursor (ix_store x') (pv_namespace pv)
        \<and> ck_last_success_at c = Some now' \<and> ck_last_error c = None)"
proof -
  let ?cs = "cb_changes batch" and ?ns = "pv_namespace pv"
  have run: "ingest_batch ie now ?ns batch x = (Inr r, x')"
    using assms(1,2,4) by (simp add: ingest_application_source_def)
  note I = ingest_batch_result [OF run]
  have refs: "list_all (\<lambda>d. sd_ref d = make_ref (sd_namespace d) (sd_document_ref d)) (documents_of ?cs)"
    using I by (simp add: ingested_def Let_def)
  have bindings: "st_bindings (ix_store x') = fold (upsert binding_key (\<lambda>_ e. e))
      (map application_binding (documents_of ?cs)) (st_bindings (ix_store x))"
    and fps: "st_unit_fps (ix_store x') = put_units now (units_of ?cs) (st_unit_fps (ix_store x))"
    using I by (simp_all add: ingested_def Let_def)
  have "bound (ix_store x') (ac_document c) \<and> \<not> unit_changed (st_unit_fps (ix_store x')) (ac_unit c)
      \<and> sd_ref (ac_document c) = make_ref (sd_namespace (ac_document c)) (sd_document_ref (ac_document c))"
    if c: "c \<in> set ?cs" for c
  proof (intro conjI)
    show "sd_ref (ac_document c) = make_ref (sd_namespace (ac_document c)) (sd_document_ref (ac_document c))"
      using c refs by (auto simp: list_all_iff documents_of_def)
    have "fetch_key binding_key (rev (map application_binding (documents_of ?cs))) (doc_key (ac_document c)) \<noteq> None"
      using c by (auto simp: fetch_key_None_iff documents_of_def image_iff)
    then obtain b where b: "fetch_key binding_key (rev (map application_binding (documents_of ?cs)))
        (doc_key (ac_document c)) = Some b" by blast
    then obtain d where d: "d \<in> set (documents_of ?cs)" "b = application_binding d"
      using fetch_key_in [OF b] by auto
    then have "validate_resource_binding b = Inr b"
      using refs by (simp add: list_all_iff make_application_binding)
    with b d(2) show "bound (ix_store x') (ac_document c)"
      unfolding bound_def bindings fetch_fold_upsert by (auto simp: map_add_def)
    have "unit_key (ac_unit c) = unit_key u \<Longrightarrow> u \<in> set (units_of ?cs) \<Longrightarrow> u = ac_unit c" for u
      using c assms(5) by (auto simp: units_of_def distinct_map inj_on_def)
    then have "fetch_key unit_key (rev (units_of ?cs)) (unit_key (ac_unit c)) = Some (ac_unit c)"
      using c assms(5) fetch_key_member [of unit_key "rev (units_of ?cs)" "ac_unit c"]
      by (auto simp: pk_ok_def units_of_def rev_map [symmetric])
    then have "map_option uf_fingerprint (fetch_key unit_fp_key (st_unit_fps (ix_store x')) (unit_key (ac_unit c)))
        = Some (su_fingerprint (ac_unit c))"
      using fun_cong [OF put_units_current [of now "units_of ?cs" "st_unit_fps (ix_store x)"], of "unit_key (ac_unit c)"]
      unfolding fps by (simp add: map_add_def)
    then show "\<not> unit_changed (st_unit_fps (ix_store x')) (ac_unit c)"
      by (auto simp: unit_changed_def)
  qed
  then have "list_all (\<lambda>c. bound (ix_store x') (ac_document c) \<and> \<not> unit_changed (st_unit_fps (ix_store x')) (ac_unit c)
      \<and> sd_ref (ac_document c) = make_ref (sd_namespace (ac_document c)) (sd_document_ref (ac_document c))) ?cs"
    by (simp add: list_all_iff)
  then obtain x'' where again: "ingest_batch ie now' ?ns batch x' =
      (Inr (no_counts\<lparr>ir_discovered := length ?cs, ir_skipped_units := length ?cs\<rparr>), x'')"
    and same: "untouched st (ix_store x') (ix_store x'')" "st_unit_fps (ix_store x'') = st_unit_fps (ix_store x')"
      "ix_embedding x'' = ix_embedding x'"
    using ingest_settled_batch by blast
  note I2 = ingest_batch_result [OF again]
  have docs: "st_documents (ix_store x'') = st_documents (ix_store x')" "st_bindings (ix_store x'') = st_bindings (ix_store x')"
    using I I2 by (simp_all add: ingested_def Let_def fold_upsert_replay)
  obtain m where "st_checkpoints (ix_store x'') = st_checkpoints (commit_source_checkpoint now' ?ns (cb_checkpoint_cursor batch) m (ix_store x'))"
    using I2 by (auto simp: ingested_def Let_def)
  then obtain c where c: "get_source_checkpoint (ix_store x'') = (get_source_checkpoint (ix_store x'))(?ns \<mapsto> c)"
    "ck_checkpoint_cursor c = cb_checkpoint_cursor batch" "ck_last_success_at c = Some now'" "ck_last_error c = None"
    using commit_checkpoint_row [of now' ?ns "cb_checkpoint_cursor batch" m "ix_store x'"]
    by (auto simp: get_source_checkpoint_def [abs_def])
  obtain m1 where "st_checkpoints (ix_store x') = st_checkpoints (commit_source_checkpoint now ?ns (cb_checkpoint_cursor batch) m1 (ix_store x))"
    using I by (auto simp: ingested_def Let_def)
  then have "resume_cursor (ix_store x') ?ns = cb_checkpoint_cursor batch"
    using commit_checkpoint_row [of now ?ns "cb_checkpoint_cursor batch" m1 "ix_store x"]
    by (auto simp: get_source_checkpoint_def [abs_def] resume_cursor_def fun_eq_iff)
  with c docs same again assms(3,4) show ?thesis by (auto simp: ingest_application_source_def)
qed


section \<open>Chunks and units\<close>

type_synonym unit_version = "(string \<times> string \<times> string) \<times> string"

definition version_chunk_id :: "indexing_env \<Rightarrow> unit_version \<Rightarrow> string" where
  "version_chunk_id ie v = (case v of ((ns, doc, u), fingerprint) \<Rightarrow> unit_chunk_id ie ns u fingerprint)"

definition version_of :: "source_unit \<Rightarrow> unit_version" where
  "version_of u = (unit_key u, su_fingerprint u)"

definition row_version :: "unit_fingerprint_row \<Rightarrow> unit_version" where
  "row_version r = (unit_fp_key r, uf_fingerprint r)"

definition row_visible :: "unit_fingerprint_row \<Rightarrow> bool" where
  "row_visible r \<longleftrightarrow> json_get (json_fields (uf_metadata_json r)) ''standalone_search'' \<noteq> JBool False"

text \<open>The ids of the versions of different units differ, and differ from the ids of the chunks of files.\<close>

definition ids_separate :: "indexing_env \<Rightarrow> unit_version set \<Rightarrow> string set \<Rightarrow> bool" where
  "ids_separate ie U F \<longleftrightarrow>
     (\<forall>v \<in> U. \<forall>w \<in> U. version_chunk_id ie v = version_chunk_id ie w \<longrightarrow> fst v = fst w)
     \<and> version_chunk_id ie ` U \<inter> F = {}"

text \<open>A batch with each unit once, under its own document.\<close>

definition batch_ok :: "unit_version set \<Rightarrow> change_batch \<Rightarrow> bool" where
  "batch_ok U batch \<longleftrightarrow> distinct (map unit_key (units_of (cb_changes batch)))
     \<and> list_all (\<lambda>c. su_namespace (ac_unit c) = sd_namespace (ac_document c)
        \<and> su_document_ref (ac_unit c) = sd_document_ref (ac_document c)
        \<and> version_of (ac_unit c) \<in> U) (cb_changes batch)"

definition mentions :: "prov_row \<Rightarrow> string \<times> string \<times> string \<Rightarrow> bool" where
  "mentions p k \<longleftrightarrow> pr_namespace p = fst k \<and> pr_document_ref p = fst (snd k) \<and> snd (snd k) \<in> set (pr_source_unit_refs p)"

abbreviation unit_at :: "store \<Rightarrow> string \<times> string \<times> string \<Rightarrow> unit_fingerprint_row option" where
  "unit_at s \<equiv> fetch_key unit_fp_key (st_unit_fps s)"

text \<open>Every attribution of a chunk to a unit is to the stored version of a visible unit.\<close>

definition attributions_current :: "indexing_env \<Rightarrow> store \<Rightarrow> bool" where
  "attributions_current ie s \<longleftrightarrow> (\<forall>p \<in> set (prov_rows (ie_strategy ie) s). \<forall>k. mentions p k \<longrightarrow>
     (\<exists>r. unit_at s k = Some r \<and> row_visible r \<and> pr_chunk_id p = version_chunk_id ie (row_version r)))"

text \<open>Every visible unit has its chunk, attributed to it.\<close>

definition units_searchable :: "indexing_env \<Rightarrow> store \<Rightarrow> bool" where
  "units_searchable ie s \<longleftrightarrow> (\<forall>k r. unit_at s k = Some r \<longrightarrow> row_visible r \<longrightarrow>
     version_chunk_id ie (row_version r) \<in> cr_chunk_id ` set (content_rows (ie_strategy ie) s)
     \<and> (\<exists>p \<in> set (prov_rows (ie_strategy ie) s). mentions p k))"

definition index_inv :: "indexing_env \<Rightarrow> unit_version set \<Rightarrow> string set \<Rightarrow> store \<Rightarrow> bool" where
  "index_inv ie U F s \<longleftrightarrow> store_ok s \<and> attributions_current ie s \<and> units_searchable ie s
     \<and> (\<forall>k r. unit_at s k = Some r \<longrightarrow> row_version r \<in> U)
     \<and> (\<forall>p \<in> set (prov_rows (ie_strategy ie) s). pr_source_unit_refs p = [] \<longrightarrow> pr_chunk_id p \<in> F)"

lemma unit_changed_put_other:
  "unit_key u' \<noteq> unit_key u \<Longrightarrow> unit_changed (put_unit now u t) u' = unit_changed t u'"
  by (rule unit_changed_cong) (simp add: fetch_put_unit)

lemma fetch_put_units:
  assumes "distinct (map unit_key us)"
  shows "fetch_key unit_fp_key (put_units now us t) k =
    (case fetch_key unit_key us k of
       Some u \<Rightarrow> if unit_changed t u then Some (unit_row now u) else fetch_key unit_fp_key t k
     | None \<Rightarrow> fetch_key unit_fp_key t k)"
  using assms
proof (induction us arbitrary: t)
  case Nil
  then show ?case by (simp add: put_units_def)
next
  case (Cons u us)
  have IH: "fetch_key unit_fp_key (put_units now us (put_unit now u t)) k =
    (case fetch_key unit_key us k of
       Some u' \<Rightarrow> if unit_changed (put_unit now u t) u' then Some (unit_row now u') else fetch_key unit_fp_key (put_unit now u t) k
     | None \<Rightarrow> fetch_key unit_fp_key (put_unit now u t) k)"
    using Cons by simp
  have head: "put_units now (u # us) t = put_units now us (put_unit now u t)" by (simp add: put_units_def)
  show ?case
  proof (cases "k = unit_key u")
    case True
    then have "fetch_key unit_key us k = None" using Cons.prems by (auto simp: fetch_key_None_iff)
    with True show ?thesis unfolding head IH by (simp add: fetch_put_unit)
  next
    case False
    then show ?thesis
      unfolding head IH
      by (auto simp: fetch_put_unit unit_changed_put_other dest: fetch_key_key split: option.splits)
  qed
qed

lemma replaced_iff:
  assumes "distinct (map unit_key us)"
  shows "i \<in> replaced now us t ps \<longleftrightarrow> (\<exists>u \<in> set us. unit_changed t u \<and> (\<exists>p \<in> set ps. mentions p (unit_key u) \<and> pr_chunk_id p = i))"
  using assms
proof (induction us arbitrary: t)
  case Nil
  then show ?case by simp
next
  case (Cons u us)
  have "unit_changed (put_unit now u t) u' = unit_changed t u'" if "u' \<in> set us" for u'
    by (rule unit_changed_put_other) (use Cons.prems that in \<open>auto simp: image_iff\<close>)
  moreover have "i \<in> unit_chunks u ps \<longleftrightarrow> (\<exists>p \<in> set ps. mentions p (unit_key u) \<and> pr_chunk_id p = i)"
    by (auto simp: unit_chunks_def unit_chunk_ids_def mentions_def unit_key_def)
  ultimately show ?case using Cons by simp
qed

lemma set_fold_replace: "set (fold (insert_or_replace key) rs t) \<subseteq> set rs \<union> set t"
  by (induction rs arbitrary: t) (force simp: insert_or_replace_def)+

lemma indexed_row:
  assumes "list_all (\<lambda>c. su_namespace (ac_unit c) = sd_namespace (ac_document c)
        \<and> su_document_ref (ac_unit c) = sd_document_ref (ac_document c)
        \<and> version_of (ac_unit c) \<in> U) cs" and "c \<in> set cs"
  shows "mentions (unit_prov_row (chunk_of ie c)) k \<longleftrightarrow> k = unit_key (ac_unit c)"
    "pr_chunk_id (unit_prov_row (chunk_of ie c)) = version_chunk_id ie (version_of (ac_unit c))"
    "pr_source_unit_refs (unit_prov_row (chunk_of ie c)) \<noteq> []"
    "version_of (ac_unit c) \<in> U"
  using assms
  by (cases k; auto simp: list_all_iff unit_prov_row_def chunk_of_def application_chunk_for_unit_def mentions_def
      unit_key_def version_chunk_id_def version_of_def)+


lemma index_inv_success:
  assumes inv: "index_inv ie U F s" and sep: "ids_separate ie U F" and ok: "batch_ok U batch"
    and I: "ingested ie now ns batch r s s'" and ok': "store_ok s'"
  shows "index_inv ie U F s'"
proof -
  let ?st = "ie_strategy ie" and ?cs = "cb_changes batch"
  let ?us = "units_of ?cs" and ?t = "st_unit_fps s"
  let ?gone = "replaced now ?us ?t (prov_rows ?st s)" and ?rows = "map (\<lambda>c. unit_prov_row (chunk_of ie c)) (indexed_changes s ?cs)"
  have dist: "distinct (map unit_key ?us)"
    and own: "list_all (\<lambda>c. su_namespace (ac_unit c) = sd_namespace (ac_document c)
        \<and> su_document_ref (ac_unit c) = sd_document_ref (ac_document c) \<and> version_of (ac_unit c) \<in> U) ?cs"
    using ok by (simp_all add: batch_ok_def)
  note row = indexed_row [OF own]
  have pv: "prov_rows ?st s' = fold (insert_or_replace prov_key) ?rows (delete_where (\<lambda>p. pr_chunk_id p \<in> ?gone) (prov_rows ?st s))"
    and ct: "content_rows ?st s' = fold (insert_or_ignore cr_chunk_id) (map (\<lambda>c. content_row (chunk_of ie c)) (indexed_changes s ?cs))
        (delete_where (\<lambda>c. cr_chunk_id c \<in> ?gone) (content_rows ?st s))"
    and fp: "st_unit_fps s' = put_units now ?us ?t"
    using I by (simp_all add: ingested_def Let_def comp_def)
  have cur: "attributions_current ie s" and sea: "units_searchable ie s"
    and inU: "\<And>k r. unit_at s k = Some r \<Longrightarrow> row_version r \<in> U"
    and files: "\<And>p. p \<in> set (prov_rows ?st s) \<Longrightarrow> pr_source_unit_refs p = [] \<Longrightarrow> pr_chunk_id p \<in> F"
    using inv unfolding index_inv_def by blast+
  have ix: "c \<in> set (indexed_changes s ?cs) \<longleftrightarrow> c \<in> set ?cs \<and> unit_changed ?t (ac_unit c) \<and> visible (ac_unit c)" for c
    by (auto simp: indexed_changes_def)
  have same_unit: "fst v = fst w" if "v \<in> U" "w \<in> U" "version_chunk_id ie v = version_chunk_id ie w" for v w
    using sep that unfolding ids_separate_def by blast
  have at_changed: "unit_at s' (unit_key u) = Some (unit_row now u)" if "u \<in> set ?us" "unit_changed ?t u" for u
  proof -
    have "fetch_key unit_key ?us (unit_key u) = Some u"
      using fetch_key_member [of unit_key ?us u] dist that(1) by (simp add: pk_ok_def)
    then show ?thesis using that(2) unfolding fp fetch_put_units [OF dist] by simp
  qed
  have at_same: "unit_at s' k = unit_at s k" if "\<And>u. u \<in> set ?us \<Longrightarrow> unit_changed ?t u \<Longrightarrow> unit_key u \<noteq> k" for k
    using that unfolding fp fetch_put_units [OF dist]
    by (auto split: option.splits dest: fetch_key_key fetch_key_in)
  have gone_key: "\<exists>u \<in> set ?us. unit_changed ?t u \<and> unit_key u = fst v"
    if g: "version_chunk_id ie v \<in> ?gone" and vU: "v \<in> U" for v
  proof -
    obtain u p where u: "u \<in> set ?us" "unit_changed ?t u" "p \<in> set (prov_rows ?st s)" "mentions p (unit_key u)"
      "pr_chunk_id p = version_chunk_id ie v"
      using g unfolding replaced_iff [OF dist] by blast
    then obtain r where "unit_at s (unit_key u) = Some r" "version_chunk_id ie v = version_chunk_id ie (row_version r)"
      using cur unfolding attributions_current_def by metis
    then have "fst v = unit_key u"
      using sep vU inU [of "unit_key u" r] fetch_key_key [of unit_fp_key ?t "unit_key u" r]
      unfolding ids_separate_def row_version_def by (metis fst_conv)
    with u show ?thesis by auto
  qed
  have current: "attributions_current ie s'"
    unfolding attributions_current_def
  proof (intro ballI allI impI)
    fix p k assume p: "p \<in> set (prov_rows ?st s')" and k: "mentions p k"
    consider (new) c where "c \<in> set (indexed_changes s ?cs)" "p = unit_prov_row (chunk_of ie c)"
      | (old) "p \<in> set (prov_rows ?st s)" "pr_chunk_id p \<notin> ?gone"
      using p set_fold_replace [of prov_key ?rows] unfolding pv by fastforce
    then show "\<exists>r. unit_at s' k = Some r \<and> row_visible r \<and> pr_chunk_id p = version_chunk_id ie (row_version r)"
    proof cases
      case new
      then have c: "c \<in> set ?cs" "unit_changed ?t (ac_unit c)" "visible (ac_unit c)" unfolding ix by auto
      have "k = unit_key (ac_unit c)" using k row(1) [OF c(1)] new(2) by simp
      moreover have "unit_at s' (unit_key (ac_unit c)) = Some (unit_row now (ac_unit c))"
        using at_changed c by (simp add: units_of_def)
      moreover have "row_visible (unit_row now (ac_unit c))"
        using c(3) by (simp add: row_visible_def visible_def unit_row_def)
      moreover have "pr_chunk_id p = version_chunk_id ie (row_version (unit_row now (ac_unit c)))"
        using new(2) row(2) [OF c(1)] by (simp add: row_version_def version_of_def)
      ultimately show ?thesis by blast
    next
      case old
      have "unit_key u \<noteq> k" if "u \<in> set ?us" "unit_changed ?t u" for u
        using old k that unfolding replaced_iff [OF dist] by blast
      then have "unit_at s' k = unit_at s k" by (rule at_same)
      then show ?thesis using cur old(1) k unfolding attributions_current_def by metis
    qed
  qed
  have searchable: "units_searchable ie s'"
    unfolding units_searchable_def
  proof (intro allI impI)
    fix k r assume r: "unit_at s' k = Some r" and vis: "row_visible r"
    show "version_chunk_id ie (row_version r) \<in> cr_chunk_id ` set (content_rows ?st s')
      \<and> (\<exists>p \<in> set (prov_rows ?st s'). mentions p k)"
    proof (cases "\<exists>u \<in> set ?us. unit_changed ?t u \<and> unit_key u = k")
      case True
      then obtain c where c: "c \<in> set ?cs" "unit_changed ?t (ac_unit c)" "unit_key (ac_unit c) = k"
        by (auto simp: units_of_def)
      then have r': "r = unit_row now (ac_unit c)" using r at_changed [of "ac_unit c"] by (auto simp: units_of_def)
      have "visible (ac_unit c)" using vis unfolding r' by (simp add: row_visible_def visible_def unit_row_def)
      then have c': "c \<in> set (indexed_changes s ?cs)" using c unfolding ix by auto
      let ?p = "unit_prov_row (chunk_of ie c)"
      have "pk_ok prov_key (delete_where (\<lambda>p. pr_chunk_id p \<in> ?gone) (prov_rows ?st s))"
        using inv prov_rows_ok by (auto simp: index_inv_def)
      then have "fetch_key prov_key (prov_rows ?st s') (prov_key ?p) = find (\<lambda>p. prov_key p = prov_key ?p) (rev ?rows)"
        unfolding pv using c' by (intro replace_table.fold_last) auto
      moreover obtain p' where p': "find (\<lambda>p. prov_key p = prov_key ?p) (rev ?rows) = Some p'"
        using c' by (cases "find (\<lambda>p. prov_key p = prov_key ?p) (rev ?rows)") (auto simp: find_None_iff_set)
      ultimately have in': "p' \<in> set (prov_rows ?st s')" using fetch_key_in by metis
      obtain c2 where c2: "c2 \<in> set (indexed_changes s ?cs)" "p' = unit_prov_row (chunk_of ie c2)"
        and eq: "prov_key p' = prov_key ?p"
        using find_Some_iff_set [OF p'] by auto
      have "c2 \<in> set ?cs" using c2(1) unfolding ix by simp
      then have "version_chunk_id ie (version_of (ac_unit c2)) = version_chunk_id ie (version_of (ac_unit c))"
        using eq row(2) c(1) unfolding c2(2) prov_key_def by simp
      then have "unit_key (ac_unit c2) = k"
        using same_unit [OF row(4) [OF \<open>c2 \<in> set ?cs\<close>] row(4) [OF c(1)]] c(3) by (simp add: version_of_def)
      then have "mentions p' k" using row(1) [OF \<open>c2 \<in> set ?cs\<close>] c2(2) by simp
      moreover have "version_chunk_id ie (row_version r) \<in> cr_chunk_id ` set (content_rows ?st s')"
      proof -
        have "cr_chunk_id (content_row (chunk_of ie c)) = version_chunk_id ie (row_version r)"
          by (simp add: r' content_row_def row_version_def version_chunk_id_def unit_key_def)
        with c' show ?thesis unfolding ct ids_fold_ignore by force
      qed
      ultimately show ?thesis using in' by blast
    next
      case False
      then have old: "unit_at s k = Some r" using r at_same [of k] by auto
      then have key: "fst (row_version r) = k" "row_version r \<in> U"
        using fetch_key_key [OF old] inU [OF old] by (simp_all add: row_version_def)
      have kept: "version_chunk_id ie (row_version r) \<notin> ?gone" using gone_key False key by blast
      obtain p where p: "p \<in> set (prov_rows ?st s)" "mentions p k"
        and content: "version_chunk_id ie (row_version r) \<in> cr_chunk_id ` set (content_rows ?st s)"
        using sea old vis unfolding units_searchable_def by blast
      have id: "pr_chunk_id p = version_chunk_id ie (row_version r)"
        using cur p old unfolding attributions_current_def by fastforce
      have other: "prov_key p \<notin> prov_key ` set ?rows"
      proof
        assume "prov_key p \<in> prov_key ` set ?rows"
        then obtain c where c: "c \<in> set (indexed_changes s ?cs)" "prov_key p = prov_key (unit_prov_row (chunk_of ie c))" by auto
        then have c': "c \<in> set ?cs" "unit_changed ?t (ac_unit c)" unfolding ix by auto
        have "version_chunk_id ie (version_of (ac_unit c)) = version_chunk_id ie (row_version r)"
          using c(2) id row(2) [OF c'(1)] by (simp add: prov_key_def)
        then have "unit_key (ac_unit c) = k"
          using same_unit [OF row(4) [OF c'(1)] key(2)] key(1) by (simp add: version_of_def)
        with False c' show False by (auto simp: units_of_def)
      qed
      have pk: "pk_ok prov_key (delete_where (\<lambda>p. pr_chunk_id p \<in> ?gone) (prov_rows ?st s))"
        using inv prov_rows_ok by (auto simp: index_inv_def)
      have "p \<in> set (delete_where (\<lambda>p. pr_chunk_id p \<in> ?gone) (prov_rows ?st s))" using p(1) kept id by simp
      then have "fetch_key prov_key (prov_rows ?st s') (prov_key p) = Some p"
        using replace_table.fold_put_other [OF pk other] fetch_key_member [OF pk] unfolding pv by simp
      then have "p \<in> set (prov_rows ?st s')" by (rule fetch_key_in)
      moreover have "version_chunk_id ie (row_version r) \<in> cr_chunk_id ` set (content_rows ?st s')"
        unfolding ct ids_fold_ignore using content kept by auto
      ultimately show ?thesis using p(2) by blast
    qed
  qed
  have "row_version r \<in> U" if r: "unit_at s' k = Some r" for k r
  proof (cases "\<exists>u \<in> set ?us. unit_changed ?t u \<and> unit_key u = k")
    case True
    then obtain c where "c \<in> set ?cs" "unit_changed ?t (ac_unit c)" "unit_key (ac_unit c) = k"
      by (auto simp: units_of_def)
    with r at_changed [of "ac_unit c"] row(4) show ?thesis by (auto simp: units_of_def row_version_def version_of_def)
  next
    case False
    then show ?thesis using r at_same [of k] inU by auto
  qed
  moreover have "pr_chunk_id p \<in> F" if "p \<in> set (prov_rows ?st s')" "pr_source_unit_refs p = []" for p
    using that set_fold_replace [of prov_key ?rows] row(3) files unfolding pv ix by (fastforce simp: ix)
  ultimately show ?thesis using current searchable ok' unfolding index_inv_def by blast
qed



section \<open>Keys stay unique\<close>

lemma store_ok_applied: "store_ok s \<Longrightarrow> store_ok (applied now c s)"
  using store_ok_upsert_source_unit_fingerprint [of "upsert_resource_binding (application_binding (ac_document c))
      (upsert_source_document (ac_document c) s)" now "ac_unit c" None]
  by (simp add: applied_upsert store_ok_upsert_resource_binding store_ok_upsert_source_document)

lemma apply_changes_ok: "store_ok s \<Longrightarrow> apply_changes ie now cs n del s = Inr (n', del', s') \<Longrightarrow> store_ok s'"
proof (induction cs arbitrary: n del s)
  case Nil
  then show ?case by simp
next
  case (Cons c cs)
  show ?case
  proof (rule apply_changes_step [OF Cons.prems(2)], goal_cases)
    case (1 n1 ids s3)
    then have "store_ok s3"
      using store_ok_applied [OF Cons.prems(1)] by (auto split: if_splits)
    with 1(3) Cons.IH show ?case by blast
  qed
qed

lemma insert_unit_chunks_ok: "store_ok s \<Longrightarrow> insert_unit_chunks st cs s = Inr s' \<Longrightarrow> store_ok s'"
proof (induction cs arbitrary: s)
  case Nil
  then show ?case by simp
next
  case (Cons c cs)
  obtain s1 s2 where "insert_chunk st (ch_chunk_id c) (ch_heading_hierarchy c) (ch_level c) (ch_text c) s = Inr s1"
    and "persist_one_chunk_source_provenance st c s1 = Inr s2" and go: "insert_unit_chunks st cs s2 = Inr s'"
    using Cons.prems(2) by (auto simp: try_bind_Inr_iff)
  then have "store_ok s2"
    using Cons.prems(1) by (auto simp: persist_one_chunk_source_provenance_def split: option.splits)
  with Cons.IH go show ?case by blast
qed

lemma ingest_batch_ok:
  assumes "store_ok (ix_store x)" and "ingest_batch ie now ns batch x = (r, x')"
  shows "store_ok (ix_store x')"
proof -
  obtain items r0 where prep: "prepare_changes ie (ix_store x) (cb_changes batch)
      (no_counts\<lparr>ir_discovered := length (cb_changes batch)\<rparr>) = (items, r0)" by fastforce
  obtain v x1 where vec: "batch_vectors ie now items x = (v, x1)" by fastforce
  have x1: "ix_store x1 = ix_store x" using batch_vectors_pipeline [OF vec] by simp
  let ?base = "ensure_chunk_source_provenance_table (ie_strategy ie) (ix_store x)"
  have base: "store_ok ?base" using assms(1) by blast
  have tr: "store_ok s'" if T: "ingest_transaction ie now ns batch items e_text e_meta r0 ?base t = Inr (r', s', t')"
    for e_text e_meta t r' s' t'
  proof -
    obtain rebound deleted s1 where ap: "apply_changes ie now (cb_changes batch) 0 [] ?base = Inr (rebound, deleted, s1)"
      using T by (auto simp: ingest_transaction_def Let_def try_bind_Inr_iff)
    have "\<exists>s2 m. insert_unit_chunks (ie_strategy ie) (map ii_chunk items) s1 = Inr s2
      \<and> s' = commit_source_checkpoint now ns (cb_checkpoint_cursor batch) m s2"
      using T ap by (auto simp: ingest_transaction_def Let_def try_bind_Inr_iff)
    then show ?thesis using insert_unit_chunks_ok apply_changes_ok [OF base ap] by blast
  qed
  show ?thesis
  proof (cases v)
    case (Inl e)
    then show ?thesis using assms prep vec x1 by (simp add: ingest_batch_def)
  next
    case (Inr w)
    obtain e_text e_meta where "v = Inr (e_text, e_meta)" using Inr by (cases w) simp
    then show ?thesis
      using assms(2) prep vec x1 tr base by (auto simp: ingest_batch_def Let_def split: sum.splits)
  qed
qed

section \<open>Purging\<close>

definition namespace_chunks :: "string \<Rightarrow> string \<Rightarrow> store \<Rightarrow> string set" where
  "namespace_chunks st ns s = {pr_chunk_id p | p. p \<in> set (prov_rows st s) \<and> pr_namespace p = ns}"

definition purged_source :: "string \<Rightarrow> string \<Rightarrow> store \<Rightarrow> store \<Rightarrow> bool" where
  "purged_source st ns s s' \<longleftrightarrow>
     without_chunks st (namespace_chunks st ns s) s s'
     \<and> st_documents s' = delete_where (\<lambda>d. sd_namespace d = ns) (st_documents s)
     \<and> st_bindings s' = delete_where (\<lambda>b. rb_namespace b = ns) (st_bindings s)
     \<and> st_unit_fps s' = delete_where (\<lambda>u. uf_namespace u = ns) (st_unit_fps s)
     \<and> st_checkpoints s' = delete_where (\<lambda>c. ck_namespace c = ns) (st_checkpoints s)"

lemma purge_source_rows_fields [simp]:
  "prov_rows st (purge_source_rows ns s) = prov_rows st s"
  "holder_rows st (purge_source_rows ns s) = holder_rows st s"
  "content_rows st (purge_source_rows ns s) = content_rows st s"
  by (simp_all add: purge_source_rows_def prov_rows_def holder_rows_def content_rows_def)

lemma purge_chunk_rows_result:
  assumes "purge_chunk_rows st ids s = Inr s'"
  shows "without_chunks st (set ids) s s' \<and> st_documents s' = st_documents s \<and> st_bindings s' = st_bindings s
    \<and> st_unit_fps s' = st_unit_fps s \<and> st_checkpoints s' = st_checkpoints s"
proof -
  obtain ps ms cs where t: "table_of (st_prov s) (prov_table st) = Inr ps" "table_of (st_m2m s) (m2m_table st) = Inr ms"
    "table_of (st_chunks s) (chunk_table st) = Inr cs"
    using assms by (auto simp: purge_chunk_rows_def try_bind_Inr_iff)
  then have rows: "prov_rows st s = ps" "holder_rows st s = ms" "content_rows st s = cs"
    by (auto simp: table_of_Inr prov_rows_def holder_rows_def content_rows_def)
  let ?s1 = "s\<lparr>st_prov := dict_set (prov_table st) (delete_where (\<lambda>p. pr_chunk_id p \<in> set ids) ps) (st_prov s),
       st_m2m := dict_set (m2m_table st) (delete_where (\<lambda>m. mm_chunk_id m \<in> set ids) ms) (st_m2m s)\<rparr>"
  have s': "s' = (delete_fts_rows (Some (fts_table_of st)) ids ?s1)
        \<lparr>st_chunks := dict_set (chunk_table st) (delete_where (\<lambda>c. cr_chunk_id c \<in> set ids) cs) (st_chunks s)\<rparr>"
    using assms t by (simp add: purge_chunk_rows_def)
  show ?thesis
    using rows unfolding s' without_chunks_def untouched_def
    by (simp add: prov_rows_def holder_rows_def content_rows_def delete_fts_fields)
qed

lemma purge_transaction_result:
  assumes "purge_transaction st ns (filter (\<lambda>p. pr_namespace p = ns) (prov_rows st s)) s t = Inr (r, s', t')"
  shows "purged_source st ns s s'"
proof -
  let ?ids = "sorted_set (map pr_chunk_id (filter (\<lambda>p. pr_namespace p = ns) (prov_rows st s)))"
  have ids: "set ?ids = namespace_chunks st ns s"
    by (auto simp: sorted_set_def namespace_chunks_def)
  show ?thesis
  proof (cases "?ids = []")
    case True
    then have "s' = purge_source_rows ns s" "namespace_chunks st ns s = {}"
      using assms ids by (auto simp: purge_transaction_def Let_def)
    then show ?thesis by (simp add: purged_source_def without_chunks_def untouched_def purge_source_rows_def)
        (simp add: prov_rows_def holder_rows_def content_rows_def)
  next
    case False
    then obtain s1 where s1: "purge_chunk_rows st ?ids s = Inr s1" and "s' = purge_source_rows ns s1"
      using assms by (cases "purge_chunk_rows st ?ids s") (auto simp: purge_transaction_def Let_def split: prod.splits)
    with purge_chunk_rows_result [OF s1] show ?thesis
      unfolding ids by (simp add: purged_source_def without_chunks_def untouched_def)
        (simp add: purge_source_rows_def)
  qed
qed



lemma store_ok_purge_source_rows: "store_ok s \<Longrightarrow> store_ok (purge_source_rows ns s)"
  by (simp add: store_ok_def purge_source_rows_def pk_ok_delete_where)

lemma purge_ok:
  assumes "store_ok (ix_store x)" and "purge_application_source st ns x = (r, x')"
  shows "store_ok (ix_store x')"
proof -
  have "store_ok (ensure_chunk_source_provenance_table st (ix_store x))" using assms(1) by blast
  moreover have "store_ok s'" if "store_ok s" "purge_chunk_rows st ids s = Inr s'" for ids s s'
    using that by (auto simp: purge_chunk_rows_def try_bind_Inr_iff intro: store_ok_delete_chunk_rows)
  ultimately show ?thesis
    using assms by (auto simp: purge_application_source_def purge_transaction_def Let_def try_bind_Inr_iff case_prod_beta
        store_ok_purge_source_rows split: if_split_asm sum.split_asm)
qed

lemma purge_result:
  assumes "purge_application_source st ns x = (Inr r, x')"
  shows "purged_source st ns (ix_store x) (ix_store x') \<and> ix_embedding x' = (ix_embedding x)\<lparr>es_components := ix_components x'\<rparr>"
proof -
  let ?s = "ensure_chunk_source_provenance_table st (ix_store x)"
  let ?rows = "filter (\<lambda>p. pr_namespace p = ns) (prov_rows st ?s)"
  obtain s' t' where tr: "purge_transaction st ns ?rows ?s (ix_components x) = Inr (r, s', t')"
    and x': "x' = set_components t' (set_store s' x)"
    using assms by (auto simp: purge_application_source_def Let_def split: if_splits sum.splits)
  from purge_transaction_result [OF tr] show ?thesis
    unfolding x' by (simp add: purged_source_def without_chunks_def untouched_def namespace_chunks_def)
      (simp add: set_components_def set_store_def)
qed

lemma purge_error:
  assumes "purge_application_source st ns x = (Inl e, x')"
  shows "ix_store x' = ix_store x \<or> ix_store x' = ensure_chunk_source_provenance_table st (ix_store x)"
  using assms by (auto simp: purge_application_source_def Let_def split: if_splits sum.splits)

lemma purge_counts:
  assumes "purge_application_source st ns x = (Inr r, x')"
  shows "valid_purge_namespace ns \<and> pg_chunks_deleted r = card (namespace_chunks st ns (ix_store x))
    \<and> pg_source_units_deleted r = length (filter (\<lambda>u. uf_namespace u = ns) (st_unit_fps (ix_store x)))
    \<and> pg_documents_deleted r = length (filter (\<lambda>d. sd_namespace d = ns) (st_documents (ix_store x)))
    \<and> pg_bindings_deleted r = length (filter (\<lambda>b. rb_namespace b = ns) (st_bindings (ix_store x)))
    \<and> pg_checkpoints_deleted r = length (filter (\<lambda>c. ck_namespace c = ns) (st_checkpoints (ix_store x)))"
proof -
  have "length (sorted_set (map pr_chunk_id (filter (\<lambda>p. pr_namespace p = ns) (prov_rows st (ix_store x))))) =
      card (namespace_chunks st ns (ix_store x))"
  proof -
    have "set (map pr_chunk_id (filter (\<lambda>p. pr_namespace p = ns) (prov_rows st (ix_store x)))) =
        namespace_chunks st ns (ix_store x)" by (auto simp: namespace_chunks_def)
    then show ?thesis unfolding sorted_set_def by (simp only: length_sort length_remdups_card_conv)
  qed
  then show ?thesis
    using assms by (auto simp: purge_application_source_def purge_transaction_def Let_def try_bind_Inr_iff
        case_prod_beta split: if_split_asm sum.split_asm)
qed

text \<open>
  A purge removes a source and nothing else.  It accepts exactly the names the pattern allows,
  reports the number of rows it removes, and afterwards no document, binding, unit fingerprint,
  checkpoint or provenance row of the namespace is left; rows of other namespaces survive, chunks and their holders survive unless
  attributed to the namespace, and other strategies are untouched.  So the next ingest starts without a
  cursor and finds every unit new.  The embedding cache is kept: texts encoded before are not encoded again.
\<close>

theorem purge_application_source_spec:
  assumes "purge_application_source st ns x = (Inr r, x')"
  shows "valid_purge_namespace ns
    \<and> pg_chunks_deleted r = card (namespace_chunks st ns (ix_store x))
    \<and> pg_documents_deleted r + length (st_documents (ix_store x')) = length (st_documents (ix_store x))
    \<and> pg_source_units_deleted r + length (st_unit_fps (ix_store x')) = length (st_unit_fps (ix_store x))
    \<and> st_documents (ix_store x') = delete_where (\<lambda>d. sd_namespace d = ns) (st_documents (ix_store x))
    \<and> st_bindings (ix_store x') = delete_where (\<lambda>b. rb_namespace b = ns) (st_bindings (ix_store x))
    \<and> st_unit_fps (ix_store x') = delete_where (\<lambda>u. uf_namespace u = ns) (st_unit_fps (ix_store x))
    \<and> without_chunks st (namespace_chunks st ns (ix_store x)) (ix_store x) (ix_store x')
    \<and> namespace_chunks st ns (ix_store x') = {}
    \<and> get_source_checkpoint (ix_store x') ns = None \<and> get_source_unit_fingerprint (ix_store x') ns doc u = None
    \<and> (ns' \<noteq> ns \<longrightarrow> get_source_checkpoint (ix_store x') ns' = get_source_checkpoint (ix_store x) ns')
    \<and> es_cache (ix_embedding x') = es_cache (ix_embedding x)"
proof -
  note P = purge_result [OF assms] and C = purge_counts [OF assms]
  have split: "length (filter P t) + length (delete_where P t) = length t" for P :: "'a \<Rightarrow> bool" and t
    by (simp add: delete_where_def sum_length_filter_compl)
  have fp: "st_unit_fps (ix_store x') = delete_where (\<lambda>u. uf_namespace u = ns) (st_unit_fps (ix_store x))"
    and doc: "st_documents (ix_store x') = delete_where (\<lambda>d. sd_namespace d = ns) (st_documents (ix_store x))"
    and ck: "st_checkpoints (ix_store x') = delete_where (\<lambda>c. ck_namespace c = ns) (st_checkpoints (ix_store x))"
    and W: "without_chunks st (namespace_chunks st ns (ix_store x)) (ix_store x) (ix_store x')"
    using P by (simp_all add: purged_source_def)
  have "namespace_chunks st ns (ix_store x') = {}"
    using W by (auto simp: without_chunks_def namespace_chunks_def)
  moreover have "get_source_checkpoint (ix_store x') ns = None" "get_source_unit_fingerprint (ix_store x') ns doc u = None"
    using fp ck by (auto simp: get_source_checkpoint_def get_source_unit_fingerprint_def fetch_key_None_iff unit_fp_key_def)
  moreover have "get_source_checkpoint (ix_store x') ns' = get_source_checkpoint (ix_store x) ns'" if "ns' \<noteq> ns"
    using that ck by (simp add: get_source_checkpoint_def fetch_delete_key)
  moreover have "pg_documents_deleted r + length (st_documents (ix_store x')) = length (st_documents (ix_store x))"
    "pg_source_units_deleted r + length (st_unit_fps (ix_store x')) = length (st_unit_fps (ix_store x))"
    using C split unfolding fp doc by metis+
  moreover have "es_cache (ix_embedding x') = es_cache (ix_embedding x)"
    using P by (metis embedding_state.select_convs(2) embedding_state.surjective embedding_state.update_convs(3))
  ultimately show ?thesis using C W fp doc P by (simp add: purged_source_def)
qed

section \<open>The index over a history of ingests and purges\<close>

lemma index_inv_fields:
  assumes "index_inv ie U F s" and "store_ok s'" and "st_unit_fps s' = st_unit_fps s"
    and "\<And>st. untouched st s s'"
  shows "index_inv ie U F s'"
  using assms by (auto simp: index_inv_def attributions_current_def units_searchable_def untouched_def)

lemma index_inv_ingest:
  assumes inv: "index_inv ie U F (ix_store x)" and sep: "ids_separate ie U F"
    and ok: "\<And>batch. requested_batch pv limit (ix_store x) = Inr batch \<Longrightarrow> batch_ok U batch"
    and run: "ingest_application_source ie now pv limit x = (r, x')"
  shows "index_inv ie U F (ix_store x')"
proof (cases r)
  case (Inl e)
  have "store_ok (ix_store x')"
    using run inv ingest_batch_ok [of x ie now "pv_namespace pv"]
    by (auto simp: ingest_application_source_def index_inv_def commit_empty_batch_def Let_def split: sum.splits if_splits)
  moreover have "st_unit_fps (ix_store x') = st_unit_fps (ix_store x) \<and> untouched st (ix_store x) (ix_store x')" for st
    using run [unfolded Inl] by (cases rule: ingest_error_rows) (simp_all add: untouched_def)
  then have "st_unit_fps (ix_store x') = st_unit_fps (ix_store x)" "untouched st (ix_store x) (ix_store x')" for st
    by simp_all
  ultimately show ?thesis by (rule index_inv_fields [OF inv])
next
  case (Inr v)
  then obtain batch where batch: "requested_batch pv limit (ix_store x) = Inr batch"
    using run by (auto simp: ingest_application_source_def split: sum.splits)
  show ?thesis
  proof (cases "cb_changes batch = []")
    case True
    then have x': "ix_store x' = commit_empty_batch now (pv_namespace pv) batch
        (get_source_checkpoint (ix_store x) (pv_namespace pv)) (ix_store x)"
      using run batch by (auto simp: ingest_application_source_def)
    have "store_ok (ix_store x')"
      using inv unfolding x' commit_empty_batch_def Let_def index_inv_def by blast
    then show ?thesis
      by (rule index_inv_fields [OF inv]) (simp_all add: x' commit_empty_batch_def Let_def untouched_def,
          simp add: commit_source_checkpoint_def)
  next
    case False
    then have "ingest_batch ie now (pv_namespace pv) batch x = (Inr v, x')"
      using run batch Inr by (simp add: ingest_application_source_def)
    then show ?thesis
      using index_inv_success [OF inv sep ok [OF batch] ingest_batch_result] ingest_batch_ok inv
      by (auto simp: index_inv_def)
  qed
qed


lemma index_inv_purge:
  assumes inv: "index_inv ie U F (ix_store x)" and sep: "ids_separate ie U F"
    and run: "purge_application_source (ie_strategy ie) ns x = (r, x')"
  shows "index_inv ie U F (ix_store x')"
proof (cases r)
  case (Inl e)
  have "store_ok (ix_store x')" "st_unit_fps (ix_store x') = st_unit_fps (ix_store x)" "untouched st (ix_store x) (ix_store x')" for st
    using purge_error [OF run [unfolded Inl]] inv by (auto simp: index_inv_def untouched_def)
  then show ?thesis by (rule index_inv_fields [OF inv])
next
  case (Inr v)
  let ?st = "ie_strategy ie" and ?s = "ix_store x" and ?t = "ix_store x'"
  let ?ids = "namespace_chunks ?st ns ?s"
  have P: "purged_source ?st ns ?s ?t" using purge_result run Inr by blast
  have ok: "store_ok ?s" and cur: "attributions_current ie ?s" and sea: "units_searchable ie ?s"
    and inU: "\<And>k r. unit_at ?s k = Some r \<Longrightarrow> row_version r \<in> U"
    and files: "\<And>p. p \<in> set (prov_rows ?st ?s) \<Longrightarrow> pr_source_unit_refs p = [] \<Longrightarrow> pr_chunk_id p \<in> F"
    using inv unfolding index_inv_def by blast+
  have pk: "pk_ok unit_fp_key (st_unit_fps ?s)" using ok by (simp add: store_ok_def)
  then have pk': "pk_ok unit_fp_key (st_unit_fps ?t)" using P by (auto simp: purged_source_def)
  have at: "unit_at ?t k = Some r \<longleftrightarrow> unit_at ?s k = Some r \<and> fst k \<noteq> ns" for k r
    using P fetch_key_Some_iff [OF pk] fetch_key_Some_iff [OF pk'] by (auto simp: purged_source_def unit_fp_key_def)
  have prov: "set (prov_rows ?st ?t) = {p \<in> set (prov_rows ?st ?s). pr_chunk_id p \<notin> ?ids}"
    and cont: "content_rows ?st ?t = delete_where (\<lambda>c. cr_chunk_id c \<in> ?ids) (content_rows ?st ?s)"
    using P by (simp_all add: purged_source_def without_chunks_def)
  have "attributions_current ie ?t"
    unfolding attributions_current_def
  proof (intro ballI allI impI)
    fix p k assume p: "p \<in> set (prov_rows ?st ?t)" and k: "mentions p k"
    then obtain r where r: "unit_at ?s k = Some r" "row_visible r" "pr_chunk_id p = version_chunk_id ie (row_version r)"
      using cur unfolding prov attributions_current_def by blast
    have "fst k \<noteq> ns" using p k unfolding prov namespace_chunks_def mentions_def by blast
    with r show "\<exists>r. unit_at ?t k = Some r \<and> row_visible r \<and> pr_chunk_id p = version_chunk_id ie (row_version r)"
      unfolding at by blast
  qed
  moreover have "units_searchable ie ?t"
    unfolding units_searchable_def
  proof (intro allI impI)
    fix k r assume r: "unit_at ?t k = Some r" and vis: "row_visible r"
    then have old: "unit_at ?s k = Some r" and ns: "fst k \<noteq> ns" unfolding at by simp_all
    obtain p where p: "p \<in> set (prov_rows ?st ?s)" "mentions p k"
      and content: "version_chunk_id ie (row_version r) \<in> cr_chunk_id ` set (content_rows ?st ?s)"
      using sea old vis unfolding units_searchable_def by blast
    have id: "pr_chunk_id p = version_chunk_id ie (row_version r)"
      using cur p old unfolding attributions_current_def by fastforce
    have key: "fst (row_version r) = k" "row_version r \<in> U"
      using fetch_key_key [OF old] inU [OF old] by (simp_all add: row_version_def)
    have kept: "version_chunk_id ie (row_version r) \<notin> ?ids"
    proof
      assume "version_chunk_id ie (row_version r) \<in> ?ids"
      then obtain q where q: "q \<in> set (prov_rows ?st ?s)" "pr_namespace q = ns"
        "pr_chunk_id q = version_chunk_id ie (row_version r)" unfolding namespace_chunks_def by auto
      show False
      proof (cases "pr_source_unit_refs q")
        case Nil
        then have "version_chunk_id ie (row_version r) \<in> F" using files [OF q(1)] q(3) by simp
        then show False using key(2) sep unfolding ids_separate_def by blast
      next
        case (Cons u us)
        then have m: "mentions q (ns, pr_document_ref q, u)" using q(2) by (simp add: mentions_def)
        then obtain r' where r': "unit_at ?s (ns, pr_document_ref q, u) = Some r'"
          "pr_chunk_id q = version_chunk_id ie (row_version r')"
          using cur q(1) unfolding attributions_current_def by blast
        then have "fst (row_version r') = k"
          using sep key inU [OF r'(1)] q(3) unfolding ids_separate_def by metis
        then show False using fetch_key_key [OF r'(1)] ns by (auto simp: row_version_def)
      qed
    qed
    have "p \<in> set (prov_rows ?st ?t)" using p(1) id kept unfolding prov by simp
    moreover have "version_chunk_id ie (row_version r) \<in> cr_chunk_id ` set (content_rows ?st ?t)"
      using content kept unfolding cont by auto
    ultimately show "version_chunk_id ie (row_version r) \<in> cr_chunk_id ` set (content_rows ?st ?t)
      \<and> (\<exists>p \<in> set (prov_rows ?st ?t). mentions p k)" using p(2) by blast
  qed
  moreover have "store_ok ?t" using purge_ok [OF ok run] .
  ultimately show ?thesis
    using inU files unfolding index_inv_def at prov by blast
qed

inductive application_reachable :: "indexing_env \<Rightarrow> unit_version set \<Rightarrow> string set \<Rightarrow> indexer \<Rightarrow> bool"
  for ie U F where
  start: "store_ok (ix_store x) \<Longrightarrow> st_unit_fps (ix_store x) = [] \<Longrightarrow>
    list_all (\<lambda>p. pr_source_unit_refs p = [] \<and> pr_chunk_id p \<in> F) (prov_rows (ie_strategy ie) (ix_store x)) \<Longrightarrow>
    application_reachable ie U F x"
| ingest: "application_reachable ie U F x \<Longrightarrow>
    (\<And>batch. requested_batch pv limit (ix_store x) = Inr batch \<Longrightarrow> batch_ok U batch) \<Longrightarrow>
    ingest_application_source ie now pv limit x = (r, x') \<Longrightarrow> application_reachable ie U F x'"
| purge: "application_reachable ie U F x \<Longrightarrow>
    purge_application_source (ie_strategy ie) ns x = (r, x') \<Longrightarrow> application_reachable ie U F x'"

text \<open>
  C8: The index of application sources stays in step with its units, for providers that keep to two
  conditions: a batch delivers each unit at most once and under its own document (\<open>batch_ok\<close>), and the
  chunk ids of different units differ from each other and from those of files (\<open>ids_separate\<close>).
  Then after any history of ingests, failed or successful, and purges, starting from an index of
  files: every chunk attributed to a unit is the chunk of the version stored for that unit, of a unit
  that is not hidden from search; and every unit that is not hidden has its chunk.  Without the first
  condition it fails: \<open>ingest_indexes_every_version\<close>.
\<close>

theorem application_index_in_step:
  assumes "application_reachable ie U F x" and "ids_separate ie U F"
  shows "attributions_current ie (ix_store x) \<and> units_searchable ie (ix_store x)"
proof -
  have "index_inv ie U F (ix_store x)"
    using assms(1)
  proof induction
    case (start x)
    then show ?case
      by (auto simp: index_inv_def attributions_current_def units_searchable_def list_all_iff mentions_def)
  next
    case (ingest x pv limit now r x')
    then show ?case using index_inv_ingest [OF _ assms(2)] by blast
  next
    case (purge x ns r x')
    then show ?case using index_inv_purge [OF _ assms(2)] by blast
  qed
  then show ?thesis by (simp add: index_inv_def)
qed

section \<open>Versions within one batch\<close>

text \<open>
  A batch is compared with the fingerprints stored before it, so every version of a unit it contains is
  indexed: when a provider delivers two versions of a unit in one batch, both chunks are in the index
  afterwards, attributed to the unit, although only the last version's fingerprint is stored.
\<close>

theorem ingest_indexes_every_version:
  assumes "ingest_application_source ie now pv limit x = (Inr r, x')"
    and "requested_batch pv limit (ix_store x) = Inr batch" and "store_ok (ix_store x)"
    and "c \<in> set (cb_changes batch)" and "unit_changed (st_unit_fps (ix_store x)) (ac_unit c)" and "visible (ac_unit c)"
  shows "ch_chunk_id (chunk_of ie c) \<in> cr_chunk_id ` set (content_rows (ie_strategy ie) (ix_store x'))
    \<and> (ch_chunk_id (chunk_of ie c), su_namespace (ac_unit c), sd_document_ref (ac_document c))
        \<in> prov_key ` set (prov_rows (ie_strategy ie) (ix_store x'))"
proof -
  let ?st = "ie_strategy ie" and ?cs = "cb_changes batch"
  have "?cs \<noteq> []" using assms(4) by auto
  then have I: "ingested ie now (pv_namespace pv) batch r (ix_store x) (ix_store x')"
    using assms(1,2) ingest_batch_result by (simp add: ingest_application_source_def)
  have c: "c \<in> set (indexed_changes (ix_store x) ?cs)" using assms(4-6) by (simp add: indexed_changes_def)
  let ?gone = "replaced now (units_of ?cs) (st_unit_fps (ix_store x)) (prov_rows ?st (ix_store x))"
  have pk: "pk_ok prov_key (delete_where (\<lambda>p. pr_chunk_id p \<in> ?gone) (prov_rows ?st (ix_store x)))"
    using assms(3) prov_rows_ok by blast
  have pv: "prov_rows ?st (ix_store x') = fold (insert_or_replace prov_key)
        (map (\<lambda>c. unit_prov_row (chunk_of ie c)) (indexed_changes (ix_store x) ?cs))
        (delete_where (\<lambda>p. pr_chunk_id p \<in> ?gone) (prov_rows ?st (ix_store x)))"
    and ct: "content_rows ?st (ix_store x') = fold (insert_or_ignore cr_chunk_id)
        (map (\<lambda>c. content_row (chunk_of ie c)) (indexed_changes (ix_store x) ?cs))
        (delete_where (\<lambda>c. cr_chunk_id c \<in> ?gone) (content_rows ?st (ix_store x)))"
    using I by (simp_all add: ingested_def Let_def comp_def)
  have key: "prov_key (unit_prov_row (chunk_of ie c)) =
      (ch_chunk_id (chunk_of ie c), su_namespace (ac_unit c), sd_document_ref (ac_document c))"
    by (simp add: prov_key_def unit_prov_row_def chunk_of_def application_chunk_for_unit_def)
  have "prov_key (unit_prov_row (chunk_of ie c)) \<in> prov_key `
      set (map (\<lambda>c. unit_prov_row (chunk_of ie c)) (indexed_changes (ix_store x) ?cs))"
    using c by (intro imageI) auto
  then have "fetch_key prov_key (prov_rows ?st (ix_store x')) (prov_key (unit_prov_row (chunk_of ie c))) \<noteq> None"
    unfolding pv by (intro replace_table.fold_put_present [OF pk] disjI1)
  moreover have "ch_chunk_id (chunk_of ie c) \<in> cr_chunk_id ` set (content_rows ?st (ix_store x'))"
    unfolding ct ids_fold_ignore using c by (force simp: content_row_def)
  ultimately show ?thesis unfolding key fetch_key_None_iff by simp
qed



section \<open>Concrete runs\<close>

definition demo_dialog :: source_document where
  "demo_dialog = \<lparr>sd_namespace = ''telegram'', sd_document_ref = ''d'', sd_ref = ''telegram:d'', sd_title = ''T'',
     sd_source_uri = ''u'', sd_media_type = ''m'', sd_parser_name = ''telegram'', sd_document_type = ''dialog'',
     sd_updated_at = 1, sd_content_fingerprint = ''c'', sd_metadata_fingerprint = ''m'', sd_metadata_json = JObj [],
     sd_file_path = None\<rparr>"

definition demo_message :: "string \<Rightarrow> string \<Rightarrow> source_unit" where
  "demo_message ref fingerprint = \<lparr>su_namespace = ''telegram'', su_document_ref = ''d'', su_unit_ref = ref,
     su_unit_type = ''message'', su_text = fingerprint, su_order_key = ref, su_fingerprint = fingerprint,
     su_updated_at = 1, su_metadata_json = JObj [], su_chunking_hints = JObj []\<rparr>"

definition demo_batch :: "(string \<times> string) list \<Rightarrow> change_batch" where
  "demo_batch us = \<lparr>cb_changes = map (\<lambda>(u, f). \<lparr>ac_document = demo_dialog, ac_unit = demo_message u f\<rparr>) us,
     cb_next_cursor = None, cb_checkpoint_cursor = Some ''1'', cb_updated_after = None, cb_updated_after_cursor = None\<rparr>"

definition demo_provider :: "(string \<times> string) list \<Rightarrow> provider" where
  "demo_provider us = \<lparr>pv_namespace = ''telegram'', pv_export = (\<lambda>_ _ _ _. Inr (demo_batch us))\<rparr>"

abbreviation demo_env_app :: indexing_env where
  "demo_env_app \<equiv> demo_indexing 1 ''text''"

abbreviation demo_ingest :: "(string \<times> string) list \<Rightarrow> (py_error + ingest_result) \<times> indexer" where
  "demo_ingest us \<equiv> ingest_application_source demo_env_app 5 (demo_provider us) 500 demo_indexer"

lemma demo_ingest_runs:
  "fst (demo_ingest [(''1'', ''a'')]) = Inr (no_counts\<lparr>ir_discovered := 1, ir_new_units := 1, ir_chunks_indexed := 1\<rparr>)"
  by code_simp

lemma demo_ingest_two:
  "fst (demo_ingest [(''1'', ''a''), (''1'', ''b'')]) = Inr (no_counts\<lparr>ir_discovered := 2, ir_new_units := 2, ir_chunks_indexed := 2\<rparr>)"
  by code_simp


definition demo_after :: indexer where
  "demo_after = snd (demo_ingest [(''1'', ''a'')])"

lemma demo_after_run:
  "demo_ingest [(''1'', ''a'')] = (Inr (no_counts\<lparr>ir_discovered := 1, ir_new_units := 1, ir_chunks_indexed := 1\<rparr>), demo_after)"
  using demo_ingest_runs by (simp add: demo_after_def prod_eq_iff)

lemma demo_after_unit: "unit_at (ix_store demo_after) (''telegram'', ''d'', ''1'') \<noteq> None"
  unfolding demo_after_def by code_simp

lemma demo_requested: "requested_batch (demo_provider us) limit s = Inr (demo_batch us)"
  by (simp add: requested_batch_def demo_provider_def Let_def)

lemma demo_indexer_ok: "store_ok (ix_store demo_indexer)"
  using consistent_empty by (simp add: demo_indexer_def consistent_def)

theorem ingest_refines_maps_witness:
  "resume_cursor (ix_store demo_after) ''telegram'' = Some ''1''
    \<and> fingerprints (ix_store demo_after) (''telegram'', ''d'', ''1'') = Some ''a''
    \<and> fingerprints (ix_store demo_after) (''telegram'', ''d'', ''2'') = None"
proof -
  have "resume_cursor (ix_store demo_after) ''telegram'' = Some ''1''"
    using ingest_refines_maps [OF demo_after_run demo_requested] by (simp add: demo_provider_def demo_batch_def)
  moreover have "fingerprints (ix_store demo_after) = fingerprints (ix_store demo_indexer) ++
      (\<lambda>k. map_option su_fingerprint (fetch_key unit_key [demo_message ''1'' ''a''] k))"
    using ingest_refines_maps [OF demo_after_run demo_requested] by (simp add: demo_batch_def units_of_def)
  moreover have "fingerprints (ix_store demo_indexer) k = None" for k
    by (simp add: fingerprints_def demo_indexer_def ensure_m2m_table_def open_store_def empty_database_def
        backfill_resource_bindings_from_source_documents_def)
  ultimately show ?thesis by (simp add: map_add_def unit_key_def demo_message_def)
qed

definition demo_conflict :: provider where
  "demo_conflict = (demo_provider [])\<lparr>pv_export := \<lambda>_ _ _ _. Inr ((demo_batch [])\<lparr>cb_changes :=
     [\<lparr>ac_document = demo_dialog\<lparr>sd_ref := ''x''\<rparr>, ac_unit = demo_message ''1'' ''b''\<rparr>]\<rparr>)\<rparr>"

theorem ingest_error_atomic_witness:
  "\<exists>e x'. ingest_application_source demo_env_app 6 demo_conflict 500 demo_after = (Inl e, x')
    \<and> untouched ''a'' (ix_store demo_after) (ix_store x') \<and> st_unit_fps (ix_store x') = st_unit_fps (ix_store demo_after)"
proof -
  have "isl (fst (ingest_application_source demo_env_app 6 demo_conflict 500 demo_after))" by code_simp
  then obtain e x' where run: "ingest_application_source demo_env_app 6 demo_conflict 500 demo_after = (Inl e, x')"
    by (cases "ingest_application_source demo_env_app 6 demo_conflict 500 demo_after") (auto simp: isl_def)
  from ingest_error_atomic [OF run, of "''a''"] run show ?thesis by blast
qed

lemma demo_batch_one: "units_of (cb_changes (demo_batch [(''1'', ''a'')])) = [demo_message ''1'' ''a'']"
  by (simp add: demo_batch_def units_of_def)

theorem ingest_redelivered_witness:
  "\<exists>x''. ingest_application_source demo_env_app 9 (demo_provider [(''1'', ''a'')]) 500 demo_after =
      (Inr (no_counts\<lparr>ir_discovered := 1, ir_skipped_units := 1\<rparr>), x'') \<and> ix_embedding x'' = ix_embedding demo_after
    \<and> st_documents (ix_store x'') = st_documents (ix_store demo_after)"
proof -
  have "cb_changes (demo_batch [(''1'', ''a'')]) \<noteq> []" "length (cb_changes (demo_batch [(''1'', ''a'')])) = 1"
    "distinct (map unit_key (units_of (cb_changes (demo_batch [(''1'', ''a'')]))))"
    unfolding demo_batch_one by (simp_all add: demo_batch_def)
  from ingest_redelivered [OF demo_after_run demo_requested demo_requested this(1,3), where now' = 9] this(2)
  show ?thesis by auto
qed

theorem purge_application_source_spec_witness:
  "\<exists>r x'. purge_application_source ''a'' ''telegram'' demo_after = (Inr r, x') \<and> pg_chunks_deleted r = 1
    \<and> st_documents (ix_store x') = [] \<and> get_source_checkpoint (ix_store x') ''telegram'' = None"
proof -
  have "map_sum (\<lambda>_. ()) (\<lambda>r. pg_chunks_deleted r) (fst (purge_application_source ''a'' ''telegram'' demo_after)) = Inr 1
    \<and> map sd_namespace (st_documents (ix_store demo_after)) = [''telegram'']" by code_simp
  then obtain r x' where run: "purge_application_source ''a'' ''telegram'' demo_after = (Inr r, x')"
    and one: "pg_chunks_deleted r = 1" and docs: "map sd_namespace (st_documents (ix_store demo_after)) = [''telegram'']"
    by (cases "purge_application_source ''a'' ''telegram'' demo_after"; cases "fst (purge_application_source ''a'' ''telegram'' demo_after)")
       auto
  from purge_application_source_spec [OF run] run one docs show ?thesis
    by (intro exI [of _ r] exI [of _ x']) (auto simp: delete_where_def)
qed

theorem application_index_in_step_witness:
  "attributions_current demo_env_app (ix_store demo_after) \<and> units_searchable demo_env_app (ix_store demo_after)
    \<and> unit_at (ix_store demo_after) (''telegram'', ''d'', ''1'') \<noteq> None"
proof -
  let ?U = "{version_of (demo_message ''1'' ''a'')}"
  have "st_unit_fps (ix_store demo_indexer) = []" "prov_rows ''a'' (ix_store demo_indexer) = []"
    by (simp_all add: demo_indexer_def prov_rows_def ensure_m2m_table_def open_store_def empty_database_def
        backfill_resource_bindings_from_source_documents_def)
  then have "application_reachable demo_env_app ?U {} demo_indexer"
    using demo_indexer_ok by (intro application_reachable.start) (simp_all add: demo_indexing_def)
  then have "application_reachable demo_env_app ?U {} demo_after"
    by (rule application_reachable.ingest [OF _ _ demo_after_run])
      (simp add: demo_requested batch_ok_def units_of_def demo_batch_def demo_dialog_def demo_message_def)
  from application_index_in_step [OF this] show ?thesis
    using demo_after_unit by (simp add: ids_separate_def)
qed

theorem ingest_indexes_every_version_witness:
  "\<exists>x'. demo_ingest [(''1'', ''a''), (''1'', ''b'')] =
      (Inr (no_counts\<lparr>ir_discovered := 2, ir_new_units := 2, ir_chunks_indexed := 2\<rparr>), x')
    \<and> {''telegram:1:a:a'', ''telegram:1:b:a''} \<subseteq> cr_chunk_id ` set (content_rows ''a'' (ix_store x'))"
proof -
  let ?us = "[(''1'', ''a''), (''1'', ''b'')]"
  obtain x' where run: "demo_ingest ?us =
      (Inr (no_counts\<lparr>ir_discovered := 2, ir_new_units := 2, ir_chunks_indexed := 2\<rparr>), x')"
    using demo_ingest_two by (cases "demo_ingest ?us") auto
  have fresh: "unit_changed (st_unit_fps (ix_store demo_indexer)) u" for u
    by (simp add: unit_changed_def demo_indexer_def ensure_m2m_table_def open_store_def empty_database_def
        backfill_resource_bindings_from_source_documents_def)
  have "ch_chunk_id (chunk_of demo_env_app c) \<in> cr_chunk_id ` set (content_rows ''a'' (ix_store x'))"
    if "c \<in> set (cb_changes (demo_batch ?us))" for c
  proof -
    have "visible (ac_unit c)"
      using that by (auto simp: demo_batch_def visible_def demo_message_def json_fields_def json_get_def dict_get_default_def)
    from ingest_indexes_every_version [OF run demo_requested demo_indexer_ok that fresh this] show ?thesis
      by (simp add: demo_indexing_def)
  qed
  then have "list_all (\<lambda>c. ch_chunk_id (chunk_of demo_env_app c) \<in> cr_chunk_id ` set (content_rows ''a'' (ix_store x')))
      (cb_changes (demo_batch ?us))" by (simp add: list_all_iff)
  then show ?thesis
    using run by (simp add: demo_batch_def unit_chunk_id_def demo_indexing_def demo_embedding_env_def demo_message_def)
qed

end
