(* ===== verification/Delta_Graph_Laws.thy ===== *)
theory Delta_Graph_Laws
  imports Delta_Laws
begin

text \<open>
  The graph section of a manifest.  Its nodes are point upserts like those of every other section;
  its relations are cleaned up once per batch and inserted together at the end of a batch, so what
  the table \<open>relations\<close> holds depends on how a manifest is cut into batches.  Everything outside that
  table does not: seen through \<open>no_relations\<close>, the store writer meets the contract of \<open>delta_writer\<close>
  with the graph section included.
\<close>

section \<open>The database without its relations\<close>

definition no_relations :: "database \<Rightarrow> database" where
  "no_relations db = filter (\<lambda>(rid, row). fst rid \<noteq> ''relations'') db"

text \<open>\<open>INSERT RELATION INTO relations\<close> writes rows of that table only.\<close>

definition relations_only :: "insert_relations \<Rightarrow> bool" where
  "relations_only ins \<longleftrightarrow> (\<forall>payloads db. no_relations (fst (ins payloads db)) = no_relations db)"

lemma get_no_relations [simp]: "fst rid \<noteq> ''relations'' \<Longrightarrow> dict_get (no_relations db) rid = dict_get db rid"
  by (induction db) (auto simp: no_relations_def)

lemma scan_no_relations [simp]: "tbl \<noteq> ''relations'' \<Longrightarrow> scan_table tbl (no_relations db) = scan_table tbl db"
  by (induction db) (auto simp: no_relations_def scan_table_def)

lemma no_relations_pop: "no_relations (dict_pop rid db) = dict_pop rid (no_relations db)"
  by (simp add: no_relations_def dict_pop_filter conj_commute)

lemma no_relations_pop_relation: "fst rid = ''relations'' \<Longrightarrow> no_relations (dict_pop rid db) = no_relations db"
  by (auto simp: no_relations_def dict_pop_filter intro: filter_cong)

lemma no_relations_set:
  "fst rid \<noteq> ''relations'' \<Longrightarrow> no_relations (dict_set rid row db) = dict_set rid row (no_relations db)"
  by (induction db) (auto simp: no_relations_def)

lemma no_relations_put:
  "fst rid \<noteq> ''relations'' \<Longrightarrow> no_relations (put_row rid row db) = put_row rid row (no_relations db)"
  by (simp add: put_row_def no_relations_set)

lemma dict_ok_no_relations: "dict_ok db \<Longrightarrow> dict_ok (no_relations db)"
  by (simp add: no_relations_def distinct_map_filter)

section \<open>What a change upserts\<close>

text \<open>The record a change of a section upserts, if any, and the payload it does it with.\<close>

definition change_target :: "delta_env \<Rightarrow> string \<Rightarrow> delta_change \<Rightarrow> (string \<times> string) option" where
  "change_target dn meth c =
     (case dict_get point_methods meth of
        Some (tbl, raw, payload) \<Rightarrow> Some (tbl, raw dn c)
      | None \<Rightarrow>
          (if meth = ''write_graph''
           then map_option (\<lambda>raw. (normalize_table_name (dc_table c), raw dn c))
             (dict_get graph_node_selectors (normalize_table_name (dc_table c)))
           else None))"

definition change_payload :: "delta_env \<Rightarrow> string \<Rightarrow> delta_change \<Rightarrow> delta_row" where
  "change_payload dn meth c =
     (case dict_get point_methods meth of
        Some (tbl, raw, payload) \<Rightarrow> payload dn c
      | None \<Rightarrow>
          (case change_target dn meth c of
             Some (tbl, raw) \<Rightarrow> graph_node_payload dn tbl raw (dc_row c)
           | None \<Rightarrow> dc_row c))"

definition change_row :: "delta_env \<Rightarrow> string \<Rightarrow> delta_change \<Rightarrow> string \<times> string \<Rightarrow> database \<Rightarrow> delta_row" where
  "change_row dn meth c rid db = stored_row dn (fst rid) (snd rid) (change_payload dn meth c) db"

definition sync_step :: "delta_env \<Rightarrow> string \<Rightarrow> delta_change \<Rightarrow> database \<Rightarrow> database" where
  "sync_step dn meth c db =
     (if meth = ''delete_tombstones'' then (case tombstone_target dn c of Inr rid \<Rightarrow> dict_pop rid db | Inl e \<Rightarrow> db)
      else case change_target dn meth c of
          Some rid \<Rightarrow> put_row rid (change_row dn meth c rid db) db
        | None \<Rightarrow> db)"

definition sync_covered :: "string \<Rightarrow> bool" where
  "sync_covered meth \<longleftrightarrow> store_covered meth \<or> meth = ''write_graph''"

lemma no_point_method_graph: "dict_get point_methods ''write_graph'' = None"
  by (simp add: point_methods_def)

lemma sync_step_covered: "store_covered meth \<Longrightarrow> sync_step dn meth = store_step dn meth"
proof (cases "dict_get point_methods meth")
  case None
  assume "store_covered meth"
  with None have "meth = ''delete_tombstones''" by (auto simp: store_covered_def dict_get_None_iff)
  with None show ?thesis by (simp add: fun_eq_iff sync_step_def store_step_def)
next
  case (Some m)
  then have "meth \<noteq> ''delete_tombstones''" using no_point_method_tombstones by auto
  with Some show ?thesis
    by (cases m) (simp add: fun_eq_iff sync_step_def store_step_def change_target_def change_payload_def change_row_def)
qed

lemma node_table:
  "dict_get graph_node_selectors tbl = Some f \<Longrightarrow>
     normalize_table_name tbl = tbl \<and> tbl \<noteq> ''relations'' \<and> tbl \<noteq> [] \<and> tbl \<noteq> ''checkpoints''
       \<and> tbl \<noteq> ''embeddings'' \<and> tbl \<noteq> ''vector_components''"
proof -
  assume "dict_get graph_node_selectors tbl = Some f"
  then have "tbl \<in> set (dict_keys graph_node_selectors)" by (metis dict_get_None_iff option.distinct(1))
  then have "tbl \<in> {''files'', ''sections'', ''entities'', ''tags''}" by (simp add: graph_node_selectors_def)
  then show ?thesis
    by (elim insertE emptyE) (simp_all add: normalize_table_name_def TABLE_ALIASES_def dict_get_default_def)
qed

lemma change_target_table:
  assumes "change_target dn meth c = Some rid"
  shows "fst rid \<noteq> ''relations''" "fst rid \<noteq> ''checkpoints''"
  using assms point_method_table [of meth] node_table [of "normalize_table_name (dc_table c)"]
  by (auto simp: change_target_def split: option.splits if_splits)

lemma change_row_cong:
  "fst rid = ''vector_components'' \<longrightarrow> scan_table ''embeddings'' db = scan_table ''embeddings'' db' \<Longrightarrow>
     change_row dn meth c rid db = change_row dn meth c rid db'"
  unfolding change_row_def by (rule stored_row_cong)

lemma no_relations_sync_step: "no_relations (sync_step dn meth c db) = sync_step dn meth c (no_relations db)"
proof (cases "meth = ''delete_tombstones''")
  case True
  then show ?thesis by (auto simp: sync_step_def no_relations_pop split: sum.split)
next
  case False
  show ?thesis
  proof (cases "change_target dn meth c")
    case (Some rid)
    have "change_row dn meth c rid (no_relations db) = change_row dn meth c rid db"
      by (rule change_row_cong) simp
    with Some False change_target_table(1) [OF Some] show ?thesis by (simp add: sync_step_def no_relations_put)
  qed (simp add: sync_step_def False)
qed

lemma no_relations_sync_steps:
  "no_relations (fold (sync_step dn meth) rows db) = fold (sync_step dn meth) rows (no_relations db)"
  by (induction rows arbitrary: db) (simp_all add: no_relations_sync_step)

lemma dict_ok_sync_step: "dict_ok db \<Longrightarrow> dict_ok (sync_step dn meth c db)"
  by (auto simp: sync_step_def dict_ok_put_row dict_ok_pop split: option.split sum.split)

section \<open>Writing the graph\<close>

text \<open>Outside the relations an operation has the effect \<open>F\<close>, or, when it fails, \<open>F\<close> or none.\<close>

definition outer_writes :: "'a remote \<Rightarrow> (database \<Rightarrow> database) \<Rightarrow> bool" where
  "outer_writes m F \<longleftrightarrow> (\<forall>c c' r. m c = (c', r) \<longrightarrow>
     no_relations (cn_db c') = F (no_relations (cn_db c))
     \<or> isl r \<and> no_relations (cn_db c') = no_relations (cn_db c))"

named_theorems outer_laws \<open>what the operations of the graph section do outside the relations\<close>

lemma outer_reads: "reads m g \<Longrightarrow> outer_writes m (\<lambda>v. v)"
  unfolding reads_def outer_writes_def by metis

lemma outer_of_writes:
  assumes "writes m F" "\<And>db. no_relations (F db) = G (no_relations db)"
  shows "outer_writes m G"
  unfolding outer_writes_def
proof (intro allI impI)
  fix c c' r
  assume "m c = (c', r)"
  with assms(1) have "if isl r then cn_db c' = cn_db c \<or> cn_db c' = F (cn_db c) else cn_db c' = F (cn_db c)"
    unfolding writes_def by blast
  then show "no_relations (cn_db c') = G (no_relations (cn_db c))
     \<or> isl r \<and> no_relations (cn_db c') = no_relations (cn_db c)"
    using assms(2) [of "cn_db c"] by (auto split: if_splits)
qed

lemma outer_lift [outer_laws]: "outer_writes (remote_lift r) (\<lambda>v. v)"
  by (auto simp: outer_writes_def remote_lift_def)

lemma outer_return [outer_laws]: "outer_writes (remote_return x) (\<lambda>v. v)"
  by (auto simp: outer_writes_def remote_return_def)

lemma outer_existing [outer_laws]: "outer_writes (existing_row rid) (\<lambda>v. v)"
  by (rule outer_reads [OF reads_existing])

lemma outer_scan [outer_laws]: "outer_writes (remote_scan tbl) (\<lambda>v. v)"
  by (rule outer_reads [OF reads_scan])

lemma outer_bind:
  assumes m: "outer_writes m (\<lambda>v. v)" and f: "\<And>x. outer_writes (f x) F"
  shows "outer_writes (remote_bind m f) F"
  unfolding outer_writes_def
proof (intro allI impI)
  fix c c' r
  assume run: "remote_bind m f c = (c', r)"
  obtain c1 r1 where m1: "m c = (c1, r1)" by (cases "m c")
  with m have same: "no_relations (cn_db c1) = no_relations (cn_db c)" unfolding outer_writes_def by metis
  show "no_relations (cn_db c') = F (no_relations (cn_db c)) \<or> isl r \<and> no_relations (cn_db c') = no_relations (cn_db c)"
  proof (cases r1)
    case (Inl e)
    with run m1 same show ?thesis by (auto simp: remote_bind_def)
  next
    case (Inr x)
    then have "f x c1 = (c', r)" using run m1 by (simp add: remote_bind_def)
    with f [of x] same show ?thesis unfolding outer_writes_def by metis
  qed
qed

lemma outer_then:
  assumes m: "outer_writes m F" and f: "\<And>x. outer_writes (f x) (\<lambda>v. v)"
  shows "outer_writes (remote_bind m f) F"
  unfolding outer_writes_def
proof (intro allI impI)
  fix c c' r
  assume run: "remote_bind m f c = (c', r)"
  obtain c1 r1 where m1: "m c = (c1, r1)" by (cases "m c")
  show "no_relations (cn_db c') = F (no_relations (cn_db c)) \<or> isl r \<and> no_relations (cn_db c') = no_relations (cn_db c)"
  proof (cases r1)
    case (Inl e)
    with run m1 m show ?thesis unfolding outer_writes_def by (auto simp: remote_bind_def)
  next
    case (Inr x)
    then have "f x c1 = (c', r)" using run m1 by (simp add: remote_bind_def)
    with f [of x] have "no_relations (cn_db c') = no_relations (cn_db c1)" unfolding outer_writes_def by metis
    moreover have "no_relations (cn_db c1) = F (no_relations (cn_db c))"
      using m m1 Inr unfolding outer_writes_def by fastforce
    ultimately show ?thesis by simp
  qed
qed

lemma outer_delete_each [outer_laws]:
  "list_all (\<lambda>x. fst (fst x) = ''relations'') xs \<Longrightarrow> outer_writes (delete_each xs) (\<lambda>v. v)"
proof (induction xs)
  case (Cons x xs)
  have "outer_writes (remote_delete (fst x)) (\<lambda>v. v)"
    by (rule outer_of_writes [OF writes_delete]) (use Cons.prems no_relations_pop_relation in simp)
  moreover have "outer_writes (delete_each xs) (\<lambda>v. v)" using Cons by simp
  ultimately show ?case by (auto intro!: outer_bind outer_return)
qed (simp add: outer_return)

lemma outer_stale [outer_laws]: "outer_writes (delete_stale_frontmatter_relations dn rows) (\<lambda>v. v)"
proof -
  let ?sources = "List.map_filter (frontmatter_source dn) rows"
  let ?k = "\<lambda>stored. delete_each (filter (stale_relation dn ?sources) stored)"
  have "outer_writes (remote_bind (remote_scan ''relations'') ?k) (\<lambda>v. v)"
    unfolding outer_writes_def
  proof (intro allI impI)
    fix c c' r
    assume run: "remote_bind (remote_scan ''relations'') ?k c = (c', r)"
    obtain c1 r1 where m1: "remote_scan ''relations'' c = (c1, r1)" by (cases "remote_scan ''relations'' c")
    have read: "cn_db c1 = cn_db c \<and> (\<forall>x. r1 = Inr x \<longrightarrow> x = scan_table ''relations'' (cn_db c))"
      using reads_scan [of "''relations''"] m1 unfolding reads_def by blast
    have "no_relations (cn_db c') = no_relations (cn_db c)"
    proof (cases r1)
      case (Inl e)
      with run m1 read show ?thesis by (auto simp: remote_bind_def)
    next
      case (Inr stored)
      then have "stored = scan_table ''relations'' (cn_db c)" using read by blast
      then have "list_all (\<lambda>x. fst (fst x) = ''relations'') (filter (stale_relation dn ?sources) stored)"
        by (auto simp: list_all_iff scan_table_def)
      moreover have "?k stored c1 = (c', r)" using run m1 Inr by (simp add: remote_bind_def)
      ultimately show ?thesis using outer_delete_each read unfolding outer_writes_def by metis
    qed
    then show "no_relations (cn_db c') = no_relations (cn_db c)
        \<or> isl r \<and> no_relations (cn_db c') = no_relations (cn_db c)" by blast
  qed
  then show ?thesis by (simp add: delete_stale_frontmatter_relations_def Let_def outer_return)
qed

lemma outer_prepare_relation [outer_laws]:
  "outer_writes (prepare_payload dn ''relations'' raw payload) (\<lambda>v. v)"
  by (auto simp: prepare_payload_def Let_def normalize_table_name_def TABLE_ALIASES_def dict_get_default_def
      intro!: outer_bind outer_laws)

lemma outer_graph_change: "outer_writes (write_graph_change dn c) (sync_step dn ''write_graph'' c)"
proof (cases "dict_get graph_node_selectors (normalize_table_name (dc_table c))")
  case (Some sel)
  let ?tbl = "normalize_table_name (dc_table c)"
  let ?rid = "(?tbl, sel dn c)" and ?p = "graph_node_payload dn ?tbl (sel dn c) (dc_row c)"
  have t: "normalize_table_name ?tbl = ?tbl" "?tbl \<noteq> ''relations''" "?tbl \<noteq> []" using node_table [OF Some] by simp_all
  have target: "change_target dn ''write_graph'' c = Some ?rid"
    by (simp add: change_target_def no_point_method_graph Some)
  have step: "sync_step dn ''write_graph'' c db = put_row ?rid (stored_row dn ?tbl (sel dn c) ?p db) db" for db
    by (simp add: sync_step_def target change_row_def change_payload_def no_point_method_graph)
  have "outer_writes (upsert_point dn ?tbl (sel dn c) ?p) (sync_step dn ''write_graph'' c)"
    by (rule outer_of_writes [OF writes_upsert_point [OF t]])
      (simp only: step [symmetric] no_relations_sync_step)
  then have "outer_writes (remote_bind (upsert_point dn ?tbl (sel dn c) ?p) (\<lambda>n. remote_return (n, [])))
      (sync_step dn ''write_graph'' c)" by (rule outer_then) (rule outer_return)
  with Some show ?thesis by (simp add: write_graph_change_def Let_def)
next
  case None
  have "change_target dn ''write_graph'' c = None" by (simp add: change_target_def no_point_method_graph None)
  then have step: "sync_step dn ''write_graph'' c = (\<lambda>v. v)" by (simp add: sync_step_def fun_eq_iff)
  have "outer_writes (write_graph_change dn c) (\<lambda>v. v)"
    unfolding write_graph_change_def Let_def None option.case
    by (cases "normalize_table_name (dc_table c) = ''relations''") (simp_all add: outer_laws outer_bind)
  with step show ?thesis by simp
qed

text \<open>A batch applies the steps of its changes, or of the first ones when it fails.\<close>

definition outer_batch :: "'a remote \<Rightarrow> (delta_change \<Rightarrow> database \<Rightarrow> database) \<Rightarrow> delta_change list \<Rightarrow> bool" where
  "outer_batch m F rows \<longleftrightarrow> (\<forall>c c' r. m c = (c', r) \<longrightarrow>
     no_relations (cn_db c') = fold F rows (no_relations (cn_db c))
     \<or> isl r \<and> (\<exists>j. no_relations (cn_db c') = fold F (take j rows) (no_relations (cn_db c))))"

lemma outer_batch_return: "outer_batch (remote_return x) F []"
  by (simp add: outer_batch_def remote_return_def)

lemma outer_batch_after:
  assumes m: "outer_writes m (\<lambda>v. v)" and f: "\<And>x. outer_batch (f x) F rows"
  shows "outer_batch (remote_bind m f) F rows"
  unfolding outer_batch_def
proof (intro allI impI)
  fix c c' r
  assume run: "remote_bind m f c = (c', r)"
  obtain c1 r1 where m1: "m c = (c1, r1)" by (cases "m c")
  with m have same: "no_relations (cn_db c1) = no_relations (cn_db c)" unfolding outer_writes_def by metis
  show "no_relations (cn_db c') = fold F rows (no_relations (cn_db c))
     \<or> isl r \<and> (\<exists>j. no_relations (cn_db c') = fold F (take j rows) (no_relations (cn_db c)))"
  proof (cases r1)
    case (Inl e)
    then have "isl r \<and> no_relations (cn_db c') = fold F (take 0 rows) (no_relations (cn_db c))"
      using run m1 same by (auto simp: remote_bind_def)
    then show ?thesis by blast
  next
    case (Inr x)
    then have "f x c1 = (c', r)" using run m1 by (simp add: remote_bind_def)
    with f [of x] same show ?thesis unfolding outer_batch_def by metis
  qed
qed

lemma outer_batch_then:
  assumes m: "outer_batch m F rows" and f: "\<And>x. outer_writes (f x) (\<lambda>v. v)"
  shows "outer_batch (remote_bind m f) F rows"
  unfolding outer_batch_def
proof (intro allI impI)
  fix c c' r
  assume run: "remote_bind m f c = (c', r)"
  obtain c1 r1 where m1: "m c = (c1, r1)" by (cases "m c")
  show "no_relations (cn_db c') = fold F rows (no_relations (cn_db c))
     \<or> isl r \<and> (\<exists>j. no_relations (cn_db c') = fold F (take j rows) (no_relations (cn_db c)))"
  proof (cases r1)
    case (Inl e)
    with run have "c' = c1" "isl r" using m1 by (auto simp: remote_bind_def)
    with m m1 show ?thesis unfolding outer_batch_def by blast
  next
    case (Inr x)
    then have "f x c1 = (c', r)" using run m1 by (simp add: remote_bind_def)
    with f [of x] have "no_relations (cn_db c') = no_relations (cn_db c1)" unfolding outer_writes_def by metis
    moreover have "no_relations (cn_db c1) = fold F rows (no_relations (cn_db c))"
      using m m1 Inr unfolding outer_batch_def by fastforce
    ultimately show ?thesis by simp
  qed
qed

lemma outer_batch_step:
  assumes m: "outer_writes m (F x)" and f: "\<And>y. outer_batch (f y) F xs"
  shows "outer_batch (remote_bind m f) F (x # xs)"
  unfolding outer_batch_def
proof (intro allI impI)
  fix c c' r
  assume run: "remote_bind m f c = (c', r)"
  obtain c1 r1 where m1: "m c = (c1, r1)" by (cases "m c")
  let ?v = "no_relations (cn_db c)" and ?v' = "no_relations (cn_db c')"
  show "?v' = fold F (x # xs) ?v \<or> isl r \<and> (\<exists>j. ?v' = fold F (take j (x # xs)) ?v)"
  proof (cases r1)
    case (Inl e)
    with run m1 have "c' = c1" "isl r" by (auto simp: remote_bind_def)
    moreover have "no_relations (cn_db c1) = fold F (take 1 (x # xs)) ?v \<or> no_relations (cn_db c1) = fold F (take 0 (x # xs)) ?v"
      using m m1 unfolding outer_writes_def by fastforce
    ultimately show ?thesis by blast
  next
    case (Inr y)
    then have rest: "f y c1 = (c', r)" using run m1 by (simp add: remote_bind_def)
    have one: "no_relations (cn_db c1) = F x ?v" using m m1 Inr unfolding outer_writes_def by fastforce
    from f [of y] rest consider "?v' = fold F xs (F x ?v)" | j where "isl r" "?v' = fold F (take j xs) (F x ?v)"
      unfolding outer_batch_def one [symmetric] by blast
    then show ?thesis
    proof cases
      case 2
      then have "?v' = fold F (take (Suc j) (x # xs)) ?v" by simp
      with 2(1) show ?thesis by blast
    qed simp
  qed
qed

lemma outer_graph_changes: "outer_batch (write_graph_changes dn rows) (sync_step dn ''write_graph'') rows"
proof (induction rows)
  case (Cons c cs)
  have "outer_batch (remote_bind (write_graph_changes dn cs) (\<lambda>(m, qs). remote_return (g m qs)))
      (sync_step dn ''write_graph'') cs" for g :: "int \<Rightarrow> (string \<times> delta_row) list \<Rightarrow> int \<times> (string \<times> delta_row) list"
    by (rule outer_batch_then [OF Cons.IH]) (auto intro: outer_return)
  then show ?case by (auto intro!: outer_batch_step outer_graph_change)
qed (simp add: outer_batch_return)

lemma outer_insert:
  assumes "relations_only ins"
  shows "outer_writes (remote_call (ins payloads)) (\<lambda>v. v)"
proof -
  have "no_relations (fst (ins payloads db)) = no_relations db" for db
    using assms by (simp add: relations_only_def)
  then show ?thesis
    by (auto simp: outer_writes_def remote_call_def Let_def split: fault.splits prod.splits) (metis fst_conv)+
qed

lemma outer_write_graph:
  assumes "relations_only ins"
  shows "outer_batch (write_graph dn ins rows) (sync_step dn ''write_graph'') rows"
  unfolding write_graph_def
  by (intro outer_batch_after [OF outer_stale] outer_batch_then [OF outer_graph_changes])
    (auto intro!: outer_bind outer_insert [OF assms] outer_return)

section \<open>The contract with the graph\<close>

text \<open>The upserts of the node rows of a batch do not depend on the database.\<close>

definition graph_puts :: "delta_env \<Rightarrow> delta_change list \<Rightarrow> ((string \<times> string) \<times> delta_row) list" where
  "graph_puts dn rows =
     List.map_filter (\<lambda>c. map_option (\<lambda>rid. (rid, change_row dn ''write_graph'' c rid []))
       (change_target dn ''write_graph'' c)) rows"

lemma graph_target_table:
  assumes "change_target dn ''write_graph'' c = Some rid"
  shows "fst rid \<noteq> ''vector_components''" "fst rid \<noteq> ''embeddings''"
  using assms node_table [of "normalize_table_name (dc_table c)"]
  by (auto simp: change_target_def no_point_method_graph)

lemma graph_steps:
  "fold (sync_step dn ''write_graph'') rows db = fold (\<lambda>p. put_row (fst p) (snd p)) (graph_puts dn rows) db"
proof (induction rows arbitrary: db)
  case (Cons c rows)
  show ?case
  proof (cases "change_target dn ''write_graph'' c")
    case (Some rid)
    have "change_row dn ''write_graph'' c rid db = change_row dn ''write_graph'' c rid []"
      by (rule change_row_cong) (use graph_target_table(1) [OF Some] in simp)
    with Some Cons show ?thesis by (simp add: sync_step_def graph_puts_def List.map_filter_def)
  qed (use Cons in \<open>simp add: sync_step_def graph_puts_def List.map_filter_def\<close>)
qed (simp add: graph_puts_def List.map_filter_def)

lemma sync_replay:
  assumes "sync_covered meth" "dict_ok db"
  shows "fold (sync_step dn meth) rows (fold (sync_step dn meth) rows db) = fold (sync_step dn meth) rows db"
proof (cases "meth = ''write_graph''")
  case True
  then show ?thesis by (simp add: graph_steps put_rows_replay [OF assms(2)])
next
  case False
  with assms(1) have "store_covered meth" by (simp add: sync_covered_def)
  then show ?thesis by (simp add: sync_step_covered store_replay [OF _ assms(2)])
qed

text \<open>Outside the relations, the store writer keeps the contract for every section.\<close>

lemma outer_writer:
  assumes "relations_only ins"
  shows "delta_writer (store_writer dn ins) (\<lambda>c. no_relations (cn_db c)) dict_ok sync_covered (sync_step dn) (store_mark dn)"
proof unfold_locales
  have graph: "sw_method (store_writer dn ins) ''write_graph'' = Some (write_graph dn ins)"
    by (simp add: store_writer_def store_writer_method_def no_point_method_graph)
  have batch: "outer_batch (f rows) (sync_step dn meth) rows"
    if "sync_covered meth" "sw_method (store_writer dn ins) meth = Some f" for meth f rows
  proof (cases "meth = ''write_graph''")
    case True
    with that(2) graph have "f = write_graph dn ins" by simp
    with True outer_write_graph [OF assms] show ?thesis by simp
  next
    case False
    with that(1) have cov: "store_covered meth" by (simp add: sync_covered_def)
    note steps = no_relations_sync_steps [of dn meth, unfolded sync_step_covered [OF cov]]
    show ?thesis
      unfolding outer_batch_def sync_step_covered [OF cov]
    proof (intro allI impI)
      fix c c' r
      assume run: "f rows c = (c', r)"
      show "no_relations (cn_db c') = fold (store_step dn meth) rows (no_relations (cn_db c))
        \<or> isl r \<and> (\<exists>j. no_relations (cn_db c') = fold (store_step dn meth) (take j rows) (no_relations (cn_db c)))"
      proof (cases r)
        case (Inl e)
        with store.method_error [OF cov that(2)] run show ?thesis by (metis steps isl_def)
      next
        case (Inr n)
        with store.method_ok [OF cov that(2)] run show ?thesis by (metis steps)
      qed
    qed
  qed
  show "\<exists>f. sw_method (store_writer dn ins) meth = Some f" if "sync_covered meth" for meth
    using that graph store.method_some [of meth dn ins] by (auto simp: sync_covered_def)
  show "no_relations (cn_db w') = fold (sync_step dn meth) rows (no_relations (cn_db w))"
    if "sync_covered meth" "sw_method (store_writer dn ins) meth = Some f" "f rows w = (w', Inr n)"
    for meth f rows w w' n
    using batch [OF that(1,2)] that(3) unfolding outer_batch_def by fastforce
  show "\<exists>j. no_relations (cn_db w') = fold (sync_step dn meth) (take j rows) (no_relations (cn_db w))"
    if "sync_covered meth" "sw_method (store_writer dn ins) meth = Some f" "f rows w = (w', Inl e)"
    for meth f rows w w' e
    using batch [OF that(1,2), of rows] that(3) unfolding outer_batch_def by (metis order_refl take_all)
  have mark: "no_relations (store_mark dn k v) = store_mark dn k (no_relations v)" for k v
  proof -
    have "stored_row dn ''checkpoints'' CHECKPOINT_NAMESPACE (checkpoint_payload k) (no_relations v)
        = stored_row dn ''checkpoints'' CHECKPOINT_NAMESPACE (checkpoint_payload k) v"
      by (rule stored_row_cong) simp
    then show ?thesis by (simp add: store_mark_def no_relations_put checkpoint_id_def)
  qed
  show "no_relations (cn_db w') = store_mark dn k (no_relations (cn_db w))"
    if "sw_checkpoint (store_writer dn ins) k w = (w', Inr n)" for k w w' n
    using store.mark_ok [OF that] mark by simp
  show "no_relations (cn_db w') = no_relations (cn_db w) \<or> no_relations (cn_db w') = store_mark dn k (no_relations (cn_db w))"
    if "sw_checkpoint (store_writer dn ins) k w = (w', Inl e)" for k w w' e
    using store.mark_error [OF that] mark by metis
  show "dict_ok (sync_step dn meth c v)" if "dict_ok v" for meth c v
    using that by (rule dict_ok_sync_step)
  show "fold (sync_step dn meth) rows (fold (sync_step dn meth) rows v) = fold (sync_step dn meth) rows v"
    if "sync_covered meth" "dict_ok v" for meth rows v
    using that by (rule sync_replay)
qed (rule store.valid_mark store.mark_twice, assumption)+

lemma all_writable:
  "list_all (\<lambda>p. phase_units p = 0 \<or> sp_name p = ''checkpoint_candidate'' \<or> sync_covered (sp_writer_method p))
    (manifest_units m)"
  by (simp add: manifest_units_def manifest_sections_def section_phase_def sync_covered_def store_covered_def
      point_methods_def)

section \<open>What a sync leaves in a record\<close>

text \<open>The changes a manifest upserts, with their methods, in the order of sections and of references.\<close>

definition manifest_changes :: "delta_manifest \<Rightarrow> (string \<times> delta_change) list" where
  "manifest_changes m =
     concat (map (\<lambda>x. map (Pair (fst (snd x))) (sp_rows (section_phase x))) (manifest_sections m))"

abbreviation apply_change :: "delta_env \<Rightarrow> string \<times> delta_change \<Rightarrow> database \<Rightarrow> database" where
  "apply_change dn x \<equiv> sync_step dn (fst x) (snd x)"

abbreviation targets :: "delta_env \<Rightarrow> string \<times> string \<Rightarrow> string \<times> delta_change \<Rightarrow> bool" where
  "targets dn rid x \<equiv> change_target dn (fst x) (snd x) = Some rid"

lemma fold_sections:
  "set xs \<subseteq> set (manifest_sections m) \<Longrightarrow>
   fold (phase_effect (sync_step dn) (store_mark dn) k) (map section_phase xs) db =
     fold (apply_change dn) (concat (map (\<lambda>x. map (Pair (fst (snd x))) (sp_rows (section_phase x))) xs)) db"
proof (induction xs arbitrary: db)
  case (Cons x xs)
  obtain name meth sect where x: "x = (name, meth, sect)" by (metis prod.collapse)
  have "name \<noteq> ''checkpoint_candidate''" using Cons.prems x by (auto simp: manifest_sections_def)
  then have "phase_effect (sync_step dn) (store_mark dn) k (section_phase x) db =
      fold (apply_change dn) (map (Pair meth) (sp_rows (section_phase x))) db"
    by (simp add: phase_effect_def x section_phase_def fold_map comp_def)
  with Cons x show ?case by simp
qed simp

lemma sync_effect:
  "manifest_effect (sync_step dn) (store_mark dn) m db =
     store_mark dn (dm_checkpoint_candidate m)
       (fold (apply_change dn) (manifest_changes m)
         (fold (sync_step dn ''delete_tombstones'') (manifest_tombstones m) db))"
proof -
  let ?e = "phase_effect (sync_step dn) (store_mark dn) (dm_checkpoint_candidate m)"
  have "fold ?e (map section_phase (manifest_sections m)) d = fold (apply_change dn) (manifest_changes m) d" for d
    unfolding manifest_changes_def by (rule fold_sections [of _ m]) simp
  then show ?thesis by (simp add: manifest_effect_def manifest_units_def) (simp add: phase_effect_def)
qed

lemma section_method: "x \<in> set (manifest_changes m) \<Longrightarrow> fst x \<noteq> ''delete_tombstones''"
  by (auto simp: manifest_changes_def manifest_sections_def)

lemma get_apply_change:
  assumes "fst x \<noteq> ''delete_tombstones''"
  shows "dict_get (apply_change dn x db) rid =
    (if targets dn rid x then put_one (change_row dn (fst x) (snd x) rid db) (dict_get db rid) else dict_get db rid)"
  using assms by (auto simp: sync_step_def get_put_row split: option.split)

lemma get_untouched:
  assumes "\<forall>x \<in> set xs. fst x \<noteq> ''delete_tombstones'' \<and> \<not> targets dn rid x"
  shows "dict_get (fold (apply_change dn) xs db) rid = dict_get db rid"
  using assms by (induction xs arbitrary: db) (simp_all add: get_apply_change)

lemma scan_untouched:
  assumes "\<forall>x \<in> set xs. fst x \<noteq> ''delete_tombstones'' \<and> (\<forall>r. \<not> targets dn (tbl, r) x)"
  shows "scan_table tbl (fold (apply_change dn) xs db) = scan_table tbl db"
  using assms
proof (induction xs arbitrary: db)
  case (Cons x xs)
  have "scan_table tbl (apply_change dn x db) = scan_table tbl db"
  proof (cases "change_target dn (fst x) (snd x)")
    case (Some rid)
    with Cons.prems have "fst rid \<noteq> tbl" by (metis list.set_intros(1) prod.collapse)
    with Some Cons.prems show ?thesis by (simp add: sync_step_def scan_put_row)
  qed (use Cons.prems in \<open>simp add: sync_step_def\<close>)
  with Cons show ?case by simp
qed simp

text \<open>The sections from \<open>vector_components\<close> on leave the embeddings alone, those before leave the components.\<close>

lemma changes_split:
  obtains xs ys where "manifest_changes m = xs @ ys"
    "\<forall>x \<in> set xs. \<forall>r. \<not> targets dn (''vector_components'', r) x"
    "\<forall>y \<in> set ys. \<forall>r. \<not> targets dn (''embeddings'', r) y"
proof -
  let ?f = "\<lambda>x. map (Pair (fst (snd x))) (sp_rows (section_phase x))"
  let ?xs = "concat (map ?f (take 8 (manifest_sections m)))" and ?ys = "concat (map ?f (drop 8 (manifest_sections m)))"
  have "manifest_changes m = ?xs @ ?ys"
    unfolding manifest_changes_def by (metis append_take_drop_id concat_append map_append)
  moreover have "\<forall>x \<in> set ?xs. \<forall>r. \<not> targets dn (''vector_components'', r) x"
    by (auto simp: manifest_sections_def change_target_def point_methods_def)
  moreover have "\<forall>y \<in> set ?ys. \<forall>r. \<not> targets dn (''embeddings'', r) y"
  proof (intro ballI allI)
    fix y r
    assume "y \<in> set ?ys"
    then have "fst y = ''write_vector_components'' \<or> fst y = ''write_graph'' \<or> fst y = ''write_feedback''"
      by (auto simp: manifest_sections_def)
    then show "\<not> targets dn (''embeddings'', r) y"
      using graph_target_table(2) [of dn "snd y" "(''embeddings'', r)"]
      by (auto simp: change_target_def point_methods_def)
  qed
  ultimately show ?thesis by (rule that)
qed

lemma filter_last:
  assumes "filter P xs \<noteq> []"
  obtains ys x zs where "last (filter P xs) = x" "xs = ys @ x # zs" "P x" "\<forall>z \<in> set zs. \<not> P z"
proof -
  have "\<exists>x \<in> set xs. P x" using assms by (auto simp: filter_empty_conv)
  from split_list_last_prop [OF this] obtain ys x zs where x: "xs = ys @ x # zs" "P x" "\<forall>z \<in> set zs. \<not> P z" by blast
  then have "filter P zs = []" by (simp add: filter_empty_conv)
  with x have "last (filter P xs) = x" by simp
  with x that show ?thesis by blast
qed

lemma suffix_beyond:
  assumes "ys @ y # zs = xs1 @ ys1" "y \<notin> set xs1"
  shows "set (y # zs) \<subseteq> set ys1"
proof -
  from assms(1) obtain us where "(ys = xs1 @ us \<and> us @ y # zs = ys1) \<or> (ys @ us = xs1 \<and> y # zs = us @ ys1)"
    unfolding append_eq_append_conv2 by blast
  then show ?thesis
  proof
    assume "ys = xs1 @ us \<and> us @ y # zs = ys1"
    then show ?thesis by auto
  next
    assume us: "ys @ us = xs1 \<and> y # zs = us @ ys1"
    then have "us = []" using assms(2) by (cases us) auto
    with us show ?thesis by simp
  qed
qed

lemma get_sync_effect:
  assumes "dict_ok db" "rid \<noteq> checkpoint_id"
  shows "let changes = filter (targets dn rid) (manifest_changes m);
             final = manifest_effect (sync_step dn) (store_mark dn) m db
    in if changes = []
       then dict_get final rid =
         (if Inr rid \<in> tombstone_target dn ` set (manifest_tombstones m) then None else dict_get db rid)
       else same_row (dict_get final rid) (change_row dn (fst (last changes)) (snd (last changes)) rid final)"
proof -
  let ?ch = "manifest_changes m"
  define d0 where "d0 = fold (sync_step dn ''delete_tombstones'') (manifest_tombstones m) db"
  define d1 where "d1 = fold (apply_change dn) ?ch d0"
  have final: "manifest_effect (sync_step dn) (store_mark dn) m db = store_mark dn (dm_checkpoint_candidate m) d1"
    by (simp add: sync_effect d0_def d1_def)
  have mark: "dict_get (store_mark dn k d) rid = dict_get d rid" for k d
    using assms(2) by (simp add: store_mark_def get_put_row)
  have scan: "scan_table ''embeddings'' (store_mark dn k d) = scan_table ''embeddings'' d" for k d
    by (simp add: store_mark_def scan_put_row checkpoint_id_def)
  have meth: "fst x \<noteq> ''delete_tombstones''" if "x \<in> set ?ch" for x using that by (rule section_method)
  have tomb: "dict_get d0 rid = (if Inr rid \<in> tombstone_target dn ` set (manifest_tombstones m) then None else dict_get db rid)"
    using dict_get_filter [OF assms(1), of "\<lambda>k v. Inr k \<notin> tombstone_target dn ` set (manifest_tombstones m)" rid,
        unfolded case_prod_unfold]
    by (simp add: d0_def sync_step_covered store_covered_def tombstone_steps split: option.split)
  show ?thesis
  proof (cases "filter (targets dn rid) ?ch = []")
    case True
    then have "dict_get d1 rid = dict_get d0 rid"
      unfolding d1_def by (intro get_untouched) (use meth in \<open>auto simp: filter_empty_conv\<close>)
    with True tomb show ?thesis by (simp add: Let_def final mark)
  next
    case False
    obtain ys y zs where last: "last (filter (targets dn rid) ?ch) = y"
      and x: "?ch = ys @ y # zs" "targets dn rid y" "\<forall>z \<in> set zs. \<not> targets dn rid z" by (rule filter_last [OF False])
    define e where "e = fold (apply_change dn) ys d0"
    have d1: "d1 = fold (apply_change dn) zs (apply_change dn y e)"
      unfolding d1_def e_def x(1) by simp
    have mem: "y \<in> set ?ch" "set zs \<subseteq> set ?ch" unfolding x(1) by auto
    have "dict_get d1 rid = dict_get (apply_change dn y e) rid"
      unfolding d1 by (rule get_untouched) (use meth mem(2) x(3) in blast)
    also have "\<dots> = put_one (change_row dn (fst y) (snd y) rid e) (dict_get e rid)"
      using get_apply_change [OF meth [OF mem(1)], of dn e rid] x(2) by simp
    finally have got: "same_row (dict_get d1 rid) (change_row dn (fst y) (snd y) rid e)"
      using put_one_view by (auto simp: same_row_iff)
    have "change_row dn (fst y) (snd y) rid e
        = change_row dn (fst y) (snd y) rid (store_mark dn (dm_checkpoint_candidate m) d1)"
    proof (rule change_row_cong, rule impI)
      assume tbl: "fst rid = ''vector_components''"
      obtain xs1 ys1 where sp: "?ch = xs1 @ ys1" "\<forall>x \<in> set xs1. \<forall>r. \<not> targets dn (''vector_components'', r) x"
        "\<forall>y \<in> set ys1. \<forall>r. \<not> targets dn (''embeddings'', r) y" by (rule changes_split)
      have rid: "rid = (''vector_components'', snd rid)" using tbl by (metis prod.collapse)
      have "y \<notin> set xs1" using sp(2) x(2) rid by metis
      then have "set (y # zs) \<subseteq> set ys1"
        using suffix_beyond [of ys y zs xs1 ys1] x(1) sp(1) by simp
      then have "scan_table ''embeddings'' (fold (apply_change dn) (y # zs) e) = scan_table ''embeddings'' e"
        by (intro scan_untouched) (use sp(3) meth mem in auto)
      with d1 show "scan_table ''embeddings'' e = scan_table ''embeddings'' (store_mark dn (dm_checkpoint_candidate m) d1)"
        by (simp add: scan)
    qed
    with got False last show ?thesis by (simp add: Let_def final mark)
  qed
qed

lemma get_checkpoint_effect:
  "same_row (dict_get (manifest_effect (sync_step dn) (store_mark dn) m db) checkpoint_id)
     (stored_row dn ''checkpoints'' CHECKPOINT_NAMESPACE (checkpoint_payload (dm_checkpoint_candidate m)) [])"
proof -
  let ?row = "stored_row dn ''checkpoints'' CHECKPOINT_NAMESPACE (checkpoint_payload (dm_checkpoint_candidate m))"
  have row: "?row d = ?row []" for d by (rule stored_row_cong) simp
  have "same_row (dict_get (store_mark dn (dm_checkpoint_candidate m) d) checkpoint_id) (?row [])" for d
    using put_one_view [of "?row []" "dict_get d checkpoint_id"]
    unfolding store_mark_def row [of d] by (auto simp: get_put_row same_row_iff)
  then show ?thesis by (simp add: sync_effect)
qed

end
