(* ===== verification/Delta_Typed_Laws.thy ===== *)
theory Delta_Typed_Laws
  imports Delta_Laws
begin

text \<open>
  Predicates on the database that every remote call keeps, also the one that fails: a small logic of
  pre- and postconditions over the operations of the writer, its lift to whole runs of the sync, and
  the predicate that every row belongs to a table of the schema and has only columns of that table.
\<close>

section \<open>Predicates the operations keep\<close>

text \<open>From a database with \<open>Q\<close>, \<open>m\<close> leaves one with \<open>Q\<close>, and a result, if any, with \<open>R\<close>.\<close>

definition keeps :: "(database \<Rightarrow> bool) \<Rightarrow> 'a remote \<Rightarrow> ('a \<Rightarrow> bool) \<Rightarrow> bool" where
  "keeps Q m R \<longleftrightarrow> (\<forall>c c' r. m c = (c', r) \<longrightarrow> Q (cn_db c) \<longrightarrow> Q (cn_db c') \<and> (\<forall>x. r = Inr x \<longrightarrow> R x))"

lemma keepsD: "keeps Q m R \<Longrightarrow> m c = (c', r) \<Longrightarrow> Q (cn_db c) \<Longrightarrow> Q (cn_db c')"
  by (auto simp: keeps_def)

lemma keeps_any: "keeps Q m R \<Longrightarrow> keeps Q m (\<lambda>_. True)"
  by (auto simp: keeps_def)

lemma keeps_bind:
  assumes m: "keeps Q m R" and f: "\<And>x. R x \<Longrightarrow> keeps Q (f x) S"
  shows "keeps Q (remote_bind m f) S"
  unfolding keeps_def
proof (intro allI impI)
  fix c c' r
  assume run: "remote_bind m f c = (c', r)" and Q: "Q (cn_db c)"
  obtain c1 r1 where m1: "m c = (c1, r1)" by (cases "m c")
  then have one: "Q (cn_db c1)" "\<forall>x. r1 = Inr x \<longrightarrow> R x" using m Q unfolding keeps_def by blast+
  show "Q (cn_db c') \<and> (\<forall>x. r = Inr x \<longrightarrow> S x)"
  proof (cases r1)
    case (Inl e)
    with run m1 one show ?thesis by (auto simp: remote_bind_def)
  next
    case (Inr x)
    then have "f x c1 = (c', r)" using run m1 by (simp add: remote_bind_def)
    then show ?thesis using f [of x] one Inr unfolding keeps_def by blast
  qed
qed

lemma keeps_return: "R x \<Longrightarrow> keeps Q (remote_return x) R"
  by (auto simp: keeps_def remote_return_def)

lemma keeps_lift: "(\<And>x. r = Inr x \<Longrightarrow> R x) \<Longrightarrow> keeps Q (remote_lift r) R"
  by (auto simp: keeps_def remote_lift_def)

lemma keeps_call:
  "(\<And>db. Q db \<Longrightarrow> Q (fst (f db))) \<Longrightarrow> keeps Q (remote_call f) (\<lambda>_. True)"
  by (auto simp: keeps_def remote_call_def Let_def split: prod.splits fault.splits list.splits) (metis fst_conv)+

lemma keeps_reads: "reads m g \<Longrightarrow> keeps Q m (\<lambda>_. True)"
  unfolding keeps_def reads_def by metis

lemma keeps_existing: "keeps Q (existing_row rid) (\<lambda>_. True)"
  by (rule keeps_reads [OF reads_existing])

lemma keeps_scan: "keeps Q (remote_scan tbl) (\<lambda>_. True)"
  by (rule keeps_reads [OF reads_scan])

lemma keeps_owner: "keeps Q (set_embedding_owner dn p) (\<lambda>_. True)"
  unfolding set_embedding_owner_def embedding_row_for_chunk_def Let_def
  by (cases "row_get p ''chunk_id'' \<noteq> none_cell
      \<and> (row_get p ''chunk_strategy'' = none_cell \<or> row_get p ''embedding_model'' = none_cell)")
    (auto intro!: keeps_bind [where R = "\<lambda>_. True"] keeps_scan keeps_return)

lemma keeps_write_each:
  "(\<And>c. keeps Q (f c) (\<lambda>_. True)) \<Longrightarrow> keeps Q (write_each f rows) (\<lambda>_. True)"
  by (induction rows) (auto intro!: keeps_bind [where R = "\<lambda>_. True"] keeps_return)

text \<open>The writer's methods and its checkpoint keep what all runs keep.\<close>

definition writer_keeps :: "('w \<Rightarrow> bool) \<Rightarrow> 'w sync_writer \<Rightarrow> bool" where
  "writer_keeps Q sw \<longleftrightarrow>
     (\<forall>meth f rows w w' r. sw_method sw meth = Some f \<longrightarrow> f rows w = (w', r) \<longrightarrow> Q w \<longrightarrow> Q w')
     \<and> (\<forall>k w w' r. sw_checkpoint sw k w = (w', r) \<longrightarrow> Q w \<longrightarrow> Q w')"

lemma run_batches_keeps:
  assumes "\<And>rows w w' r. f rows w = (w', r) \<Longrightarrow> Q w \<Longrightarrow> Q w'"
  shows "run_batches now tot name units f bs a (st, w) = ((st', w'), r) \<Longrightarrow> Q w \<Longrightarrow> Q w'"
proof (induction bs arbitrary: a st w)
  case (Cons b bs)
  obtain w1 r1 where one: "f b w = (w1, r1)" by (cases "f b w")
  with assms Cons.prems(2) have "Q w1" by blast
  then show ?case using one Cons.prems(1) Cons.IH by (cases r1) auto
qed simp

lemma write_phase_keeps:
  assumes "writer_keeps Q sw" "write_phase now tot bsz sw k p (st, w) = ((st', w'), r)" "Q w"
  shows "Q w'"
proof (cases "sp_name p = ''checkpoint_candidate''")
  case True
  with assms show ?thesis by (auto simp: write_phase_def writer_keeps_def split: prod.splits) blast
next
  case False
  show ?thesis
  proof (cases "sw_method sw (sp_writer_method p)")
    case None
    with False assms show ?thesis by (simp add: write_phase_def)
  next
    case (Some f)
    with assms(1) have f: "\<And>rows w w' r. f rows w = (w', r) \<Longrightarrow> Q w \<Longrightarrow> Q w'"
      unfolding writer_keeps_def by blast
    from False Some assms(2) have "run_batches now tot (sp_name p) (int (phase_units p)) f (chunk_rows bsz (sp_rows p)) 0 (st, w)
        = ((st', w'), r)" by (simp add: write_phase_def)
    from run_batches_keeps [of f Q, OF f this assms(3)] show ?thesis .
  qed
qed

lemma run_phases_keeps:
  assumes "writer_keeps Q sw"
  shows "run_phases now tot bsz sw k C ps counts skipped (st, w) = ((st', w'), r) \<Longrightarrow> Q w \<Longrightarrow> Q w'"
proof (induction ps arbitrary: counts skipped st w)
  case (Cons p ps)
  let ?st = "emit_progress now tot ''running'' (Some (sp_name p)) (int (phase_units p)) (ss_completed_units st) st"
  show ?case
  proof (cases "sp_name p \<in> set C \<or> phase_units p = 0")
    case True
    with Cons show ?thesis by (auto simp: Let_def)
  next
    case False
    obtain st1 w1 r1 where one: "write_phase now tot bsz sw k p (?st, w) = ((st1, w1), r1)"
      by (metis prod.collapse)
    have "Q w1" using write_phase_keeps [OF assms one Cons.prems(2)] .
    with one False Cons show ?thesis by (cases r1) (auto simp: Let_def)
  qed
qed simp

lemma run_sync_keeps:
  assumes "writer_keeps Q sw" "run_surreal_delta_sync now batch_size sw m (st, w) = ((st', w'), r)" "Q w"
  shows "Q w'"
proof (cases "batch_size \<le> 0")
  case True
  with assms show ?thesis by (simp add: run_surreal_delta_sync_def)
next
  case False
  let ?st = "emit_progress now (total_units m) ''running'' None 0 (ss_completed_units st) st"
  obtain st1 w1 r1 where run: "run_phases now (total_units m) (nat batch_size) sw (dm_checkpoint_candidate m)
      (ss_completed_phases st) (manifest_units m) [] [] (?st, w) = ((st1, w1), r1)" by (metis prod.collapse)
  then have "Q w1" using run_phases_keeps [OF assms(1)] assms(3) by blast
  moreover have "w' = w1"
    using assms(2) False run by (cases r1) (auto simp: run_surreal_delta_sync_def Let_def split: prod.splits)
  ultimately show ?thesis by simp
qed

lemma attempts_keep:
  assumes "writer_keeps Q sw" "sync_attempts sw m w0 x" "Q w0"
  shows "Q (snd x)"
  using assms(2)
proof (induction rule: sync_attempts.induct)
  case (failed x now batch_size x' e)
  then show ?case
    using run_sync_keeps [OF assms(1), of now batch_size m "fst x" "snd x" "fst x'" "snd x'" "Inl e"] by simp
qed (simp add: assms(3))

section \<open>Typed rows\<close>

text \<open>A stored row belongs to a table of the schema and has only columns that table allows.\<close>

definition typed_row :: "string \<Rightarrow> delta_row \<Rightarrow> bool" where
  "typed_row tbl row \<longleftrightarrow>
     (case allowed_fields tbl of None \<Rightarrow> False | Some fs \<Rightarrow> list_all (\<lambda>(k, v). k \<in> set fs) row)"

definition typed_db :: "database \<Rightarrow> bool" where
  "typed_db db \<longleftrightarrow> list_all (\<lambda>(rid, row). typed_row (fst rid) row) db"

text \<open>\<open>INSERT RELATION INTO relations\<close> stores rows it was given.\<close>

definition inserts_payloads :: "insert_relations \<Rightarrow> bool" where
  "inserts_payloads ins \<longleftrightarrow> (\<forall>payloads db. \<forall>(rid, row) \<in> set (fst (ins payloads db)).
     (rid, row) \<in> set db \<or> fst rid = ''relations'' \<and> row \<in> set (map snd payloads))"

lemma keep_allowed_typed: "allowed_fields tbl \<noteq> None \<Longrightarrow> typed_row tbl (keep_allowed tbl p)"
  by (auto simp: typed_row_def keep_allowed_def list_all_iff)

lemma typed_set: "typed_db db \<Longrightarrow> typed_row (fst rid) row \<Longrightarrow> typed_db (dict_set rid row db)"
  using set_dict_set_subset [of rid row db] by (force simp: typed_db_def list_all_iff)

lemma typed_pop: "typed_db db \<Longrightarrow> typed_db (dict_pop rid db)"
  by (auto simp: typed_db_def list_all_iff dict_pop_filter)

lemma typed_prepare:
  assumes "allowed_fields (normalize_table_name tbl) \<noteq> None"
  shows "keeps Q (prepare_payload dn tbl raw p) (typed_row (normalize_table_name tbl))"
proof -
  let ?t = "normalize_table_name tbl"
  have "keeps Q (if ?t = ''vector_components'' then set_embedding_owner dn (set_defaults dn ?t raw p)
      else if ?t = ''relations'' then remote_lift (set_endpoints dn (set_defaults dn ?t raw p))
      else remote_return (set_defaults dn ?t raw p)) (\<lambda>_. True)"
    by (simp add: keeps_owner keeps_lift keeps_return)
  then show ?thesis
    unfolding prepare_payload_def Let_def
    by (rule keeps_bind) (rule keeps_return, rule keep_allowed_typed [OF assms])
qed

lemma typed_upsert: "typed_row (fst rid) row \<Longrightarrow> keeps typed_db (remote_upsert rid row) (\<lambda>_. True)"
  unfolding remote_upsert_def by (rule keeps_call) (simp add: typed_set)

lemma typed_delete: "keeps typed_db (remote_delete rid) (\<lambda>_. True)"
  unfolding remote_delete_def by (rule keeps_call) (simp add: typed_pop)

lemma record_id_table: "record_id t raw = Inr rid \<Longrightarrow> fst rid = normalize_table_name t"
  by (auto simp: record_id_def Let_def split: if_splits)

lemma typed_upsert_point:
  assumes "normalize_table_name tbl = tbl" "allowed_fields tbl \<noteq> None"
  shows "keeps typed_db (upsert_point dn tbl raw p) (\<lambda>_. True)"
proof -
  have rid: "keeps typed_db (remote_lift (record_id tbl raw)) (\<lambda>rid. fst rid = tbl)"
    by (rule keeps_lift) (use assms(1) record_id_table in force)
  have prep: "keeps typed_db (prepare_payload dn tbl raw p) (typed_row tbl)"
    using typed_prepare [of tbl] assms by simp
  show ?thesis
    unfolding upsert_point_def assms(1)
    by (intro keeps_bind [OF rid] keeps_bind [OF keeps_existing] keeps_bind [OF prep])
      (auto intro!: keeps_return keeps_bind [OF typed_upsert])
qed

lemma point_tables_allowed:
  "dict_get point_methods meth = Some (tbl, raw, payload) \<Longrightarrow> allowed_fields tbl \<noteq> None"
proof -
  assume "dict_get point_methods meth = Some (tbl, raw, payload)"
  then have "tbl \<in> set (map (\<lambda>(meth, tbl, raw, payload). tbl) point_methods)" by (force dest: map_of_SomeD)
  moreover have "list_all (\<lambda>tbl. allowed_fields tbl \<noteq> None) (map (\<lambda>(meth, tbl, raw, payload). tbl) point_methods)"
    by code_simp
  ultimately show ?thesis by (simp only: list_all_iff) blast
qed

lemma node_tables_allowed:
  assumes "dict_get graph_node_selectors (normalize_table_name t) = Some sel"
  shows "normalize_table_name (normalize_table_name t) = normalize_table_name t"
    "allowed_fields (normalize_table_name t) \<noteq> None"
proof -
  have "normalize_table_name t \<in> set (dict_keys graph_node_selectors)"
    using assms by (metis dict_get_None_iff option.distinct(1))
  moreover have "list_all (\<lambda>t. normalize_table_name t = t \<and> allowed_fields t \<noteq> None) (dict_keys graph_node_selectors)"
    by code_simp
  ultimately show "normalize_table_name (normalize_table_name t) = normalize_table_name t"
    "allowed_fields (normalize_table_name t) \<noteq> None" by (simp_all only: list_all_iff) blast+
qed

lemma typed_tombstone: "keeps typed_db (delete_tombstone dn c) (\<lambda>_. True)"
  unfolding delete_tombstone_def Let_def
  by (rule keeps_bind [OF keeps_lift [where R = "\<lambda>_. True", OF TrueI]], rule keeps_bind [OF keeps_existing])
    (auto intro!: keeps_return keeps_bind [OF typed_delete])

section \<open>The writer keeps rows typed\<close>

abbreviation typed_payloads :: "(string \<times> delta_row) list \<Rightarrow> bool" where
  "typed_payloads ps \<equiv> list_all (\<lambda>p. typed_row ''relations'' (snd p)) ps"

lemma typed_delete_each: "keeps typed_db (delete_each xs) (\<lambda>_. True)"
  by (induction xs) (auto intro!: keeps_return keeps_bind [where R = "\<lambda>_. True"] typed_delete)

lemma typed_stale: "keeps typed_db (delete_stale_frontmatter_relations dn rows) (\<lambda>_. True)"
  unfolding delete_stale_frontmatter_relations_def Let_def
  by (simp add: keeps_return keeps_bind [OF keeps_scan typed_delete_each])

lemma typed_graph_change: "keeps typed_db (write_graph_change dn c) (\<lambda>x. typed_payloads (snd x))"
proof (cases "dict_get graph_node_selectors (normalize_table_name (dc_table c))")
  case (Some sel)
  note tbl = node_tables_allowed [OF Some]
  show ?thesis
    unfolding write_graph_change_def Let_def Some option.case
    by (rule keeps_bind [OF typed_upsert_point [OF tbl]]) (simp add: keeps_return)
next
  case None
  show ?thesis
  proof (cases "normalize_table_name (dc_table c) = ''relations''")
    case True
    let ?raw = "graph_relation_raw_identifier dn c"
    have rel: "normalize_table_name ''relations'' = ''relations''" "allowed_fields ''relations'' \<noteq> None" by code_simp+
    have prep: "keeps typed_db (prepare_payload dn ''relations'' ?raw row) (typed_row ''relations'')" for row
      using typed_prepare [of "''relations''"] rel by simp
    have any: "keeps typed_db (remote_lift r) (\<lambda>_. True)" for r :: "py_error + 'a" by (simp add: keeps_lift)
    show ?thesis
      unfolding write_graph_change_def Let_def None [unfolded True] True option.case if_True simp_thms
      by (rule keeps_bind [OF any], rule keeps_bind [OF prep], rule keeps_bind [OF any],
          rule keeps_bind [OF keeps_existing]) (simp add: keeps_return)
  next
    case False
    then show ?thesis
      unfolding write_graph_change_def Let_def None option.case by (simp, intro keeps_lift) simp
  qed
qed

lemma typed_graph_changes: "keeps typed_db (write_graph_changes dn rows) (\<lambda>x. typed_payloads (snd x))"
proof (induction rows)
  case (Cons c cs)
  show ?case
    unfolding write_graph_changes.simps
  proof (rule keeps_bind [OF typed_graph_change])
    fix x :: "int \<times> (string \<times> delta_row) list"
    assume x: "typed_payloads (snd x)"
    show "keeps typed_db (case x of (n, ps) \<Rightarrow> remote_bind (write_graph_changes dn cs)
        (\<lambda>(m, qs). remote_return (n + m, ps @ qs))) (\<lambda>x. typed_payloads (snd x))"
      unfolding case_prod_unfold by (rule keeps_bind [OF Cons.IH], rule keeps_return) (use x in simp)
  qed
qed (simp add: keeps_return)

lemma typed_insert:
  assumes "inserts_payloads ins" "typed_payloads ps"
  shows "keeps typed_db (remote_call (ins ps)) (\<lambda>_. True)"
proof (rule keeps_call)
  fix db :: database
  assume db: "typed_db db"
  have "typed_row (fst rid) row" if "(rid, row) \<in> set (fst (ins ps db))" for rid row
  proof -
    from assms(1) that consider "(rid, row) \<in> set db" | "fst rid = ''relations''" "row \<in> set (map snd ps)"
      unfolding inserts_payloads_def by blast
    then show ?thesis
    proof cases
      case 1
      with db show ?thesis by (auto simp: typed_db_def list_all_iff)
    next
      case 2
      with assms(2) show ?thesis by (auto simp: list_all_iff)
    qed
  qed
  then show "typed_db (fst (ins ps db))" by (auto simp: typed_db_def list_all_iff)
qed

lemma typed_write_graph:
  assumes "inserts_payloads ins"
  shows "keeps typed_db (write_graph dn ins rows) (\<lambda>_. True)"
  unfolding write_graph_def
proof (rule keeps_bind [OF typed_stale], rule keeps_bind [OF typed_graph_changes])
  fix n :: int and x :: "int \<times> (string \<times> delta_row) list"
  assume "typed_payloads (snd x)"
  from typed_insert [OF assms this]
  show "keeps typed_db (case x of (m, payloads) \<Rightarrow> if payloads = [] then remote_return (n + m)
      else remote_bind (remote_call (ins payloads)) (\<lambda>_. remote_return (n + m))) (\<lambda>_. True)"
    by (auto simp: case_prod_unfold intro!: keeps_return keeps_bind)
qed

lemma typed_writer:
  assumes "inserts_payloads ins"
  shows "writer_keeps (\<lambda>c. typed_db (cn_db c)) (store_writer dn ins)"
proof -
  have meth: "keeps typed_db (f rows) (\<lambda>_. True)" if "store_writer_method dn ins meth = Some f" for meth f rows
  proof (cases "dict_get point_methods meth")
    case (Some m)
    obtain tbl raw payload where m: "m = (tbl, raw, payload)" by (metis prod.collapse)
    have "normalize_table_name tbl = tbl" "allowed_fields tbl \<noteq> None"
      using point_method_table point_tables_allowed Some m by blast+
    then have "keeps typed_db (write_point dn m c) (\<lambda>_. True)" for c
      by (simp add: write_point_def m typed_upsert_point)
    with that Some show ?thesis by (auto simp: store_writer_method_def intro!: keeps_write_each)
  next
    case None
    with that show ?thesis
      by (auto simp: store_writer_method_def intro!: keeps_write_each typed_tombstone typed_write_graph [OF assms]
          split: if_splits)
  qed
  have mark: "keeps typed_db (write_checkpoint_candidate dn k) (\<lambda>_. True)" for k
  proof -
    have "normalize_table_name ''checkpoints'' = ''checkpoints''" "allowed_fields ''checkpoints'' \<noteq> None" by code_simp+
    then show ?thesis unfolding write_checkpoint_candidate_def by (rule typed_upsert_point)
  qed
  show ?thesis
    unfolding writer_keeps_def store_writer_def
    using meth mark keepsD by simp blast
qed

end
