(* ===== verification/Delta_Contracts.thy ===== *)
theory Delta_Contracts
  imports Delta_Graph_Laws Delta_Typed_Laws
begin

text \<open>
  The properties of the incremental sync over the store writer: what interrupted runs leave and the
  run that succeeds writes, when the checkpoint moves, which columns can be stored, and what a
  sync state that outlives its manifest does.
\<close>

section \<open>Manifests without graph rows\<close>

definition no_graph_rows :: "delta_manifest \<Rightarrow> bool" where
  "no_graph_rows m \<longleftrightarrow> filter (\<lambda>c. dc_change_type c = Upsert) (dx_rows (dm_graph m)) = []"

lemma sorted_changes_filter [simp]: "set (sorted_changes rows) = set rows"
  by (simp add: sorted_changes_def)

lemma no_graph_phase: "no_graph_rows m \<Longrightarrow> sp_rows (section_phase (''graph'', ''write_graph'', dm_graph m)) = []"
  by (auto simp: no_graph_rows_def section_phase_def filter_empty_conv)

lemma section_phase_simps [simp]:
  "sp_name (section_phase (name, meth, section)) = name"
  "sp_writer_method (section_phase (name, meth, section)) = meth"
  by (simp_all add: section_phase_def)

lemma store_writable:
  assumes "no_graph_rows m"
  shows "list_all (\<lambda>p. phase_units p = 0 \<or> sp_name p = ''checkpoint_candidate'' \<or> store_covered (sp_writer_method p))
    (manifest_units m)"
  using no_graph_phase [OF assms]
  by (simp add: manifest_units_def manifest_sections_def store_covered_def point_methods_def phase_units_def)

section \<open>A concrete sync\<close>

text \<open>
  A manifest with one document, one retired chunk and the graph nodes of a file and a tag, over a
  database that relates the file to an older tag.  The first run writes one row per batch and loses
  the answer of the upsert of the tag; the second run writes everything in one batch.
\<close>

definition demo_env :: delta_env where
  "demo_env = \<lparr>dn_repr = (\<lambda>c. ''?''), dn_digest = (\<lambda>s. 7)\<rparr>"

definition demo_insert :: insert_relations where
  "demo_insert payloads db = (fold (\<lambda>(raw, row). dict_set (''relations'', raw) row) payloads db, Inr ())"

definition demo_document :: delta_change where
  "demo_document = \<lparr>dc_ref = ''fs:a.md'', dc_table = ''source_documents'', dc_change_type = Upsert,
     dc_row = [(''title'', str_cell ''A''), (''extra'', str_cell ''dropped'')], dc_tombstone = None\<rparr>"

definition demo_retired :: delta_change where
  "demo_retired = \<lparr>dc_ref = ''c9'', dc_table = ''chunks'', dc_change_type = Tombstone, dc_row = [],
     dc_tombstone = Some \<lparr>dt_ref = ''c9'', dt_table = ''chunks'', dt_deleted_at = None, dt_reason = None,
       dt_previous_row = []\<rparr>\<rparr>"

definition demo_graph :: "delta_change list" where
  "demo_graph =
     [\<lparr>dc_ref = ''a.md'', dc_table = ''files'', dc_change_type = Upsert,
        dc_row = [(''original_id'', str_cell ''a.md''), (''title'', str_cell ''A'')], dc_tombstone = None\<rparr>,
      \<lparr>dc_ref = ''new'', dc_table = ''tags'', dc_change_type = Upsert, dc_row = [(''name'', str_cell ''new'')],
        dc_tombstone = None\<rparr>]"

definition demo_manifest :: delta_manifest where
  "demo_manifest = no_sections\<lparr>dm_documents := rows_section [demo_document],
     dm_chunks := rows_section [demo_retired], dm_graph := rows_section demo_graph,
     dm_checkpoint_candidate := \<lparr>kc_cursor = ''k1'', kc_watermark = None, kc_source_time = Some 3, kc_advanced = False\<rparr>\<rparr>"

definition demo_connection :: connection where
  "demo_connection = \<lparr>cn_db = [((''chunks'', ''c9''), [(''text'', str_cell ''old'')]),
       ((''relations'', ''r1''), [(''relation_id'', str_cell ''r1''), (''source_id'', str_cell ''a.md''),
          (''rel_type'', str_cell ''HAS_TAG'')])],
     cn_faults = replicate 9 NoFault @ [Late (RuntimeError ''timeout'')]\<rparr>"

definition demo_first :: "(sync_state \<times> connection) \<times> (py_error + sync_result)" where
  "demo_first = run_surreal_delta_sync 0 1 (store_writer demo_env demo_insert) demo_manifest (new_sync_state, demo_connection)"

definition demo_second :: "(sync_state \<times> connection) \<times> (py_error + sync_result)" where
  "demo_second = run_surreal_delta_sync 5 1000 (store_writer demo_env demo_insert) demo_manifest (fst demo_first)"

lemma demo_outcomes: "isl (snd demo_first)" "\<not> isl (snd demo_second)"
  by code_simp+

lemma demo_facts: "dict_ok (cn_db demo_connection)" by code_simp

lemma demo_insert_relations: "relations_only demo_insert" "inserts_payloads demo_insert"
proof -
  let ?put = "fold (\<lambda>(raw, row). dict_set (''relations'', raw) row)"
  have "no_relations (dict_set (''relations'', raw) row db) = no_relations db" for raw row db
    by (induction db) (auto simp: no_relations_def)
  then have "no_relations (?put ps db) = no_relations db" for ps db
    by (induction ps arbitrary: db) auto
  then show "relations_only demo_insert" by (simp add: relations_only_def demo_insert_def)
  have "set (?put ps db) \<subseteq> set db \<union> {(rid, row). fst rid = ''relations'' \<and> row \<in> set (map snd ps)}" for ps db
  proof (induction ps arbitrary: db)
    case (Cons p ps)
    obtain raw row where p: "p = (raw, row)" by (cases p)
    with Cons.IH [of "dict_set (''relations'', raw) row db"] set_dict_set_subset [of "(''relations'', raw)" row db]
    show ?case by (fastforce simp del: set_map)
  qed simp
  then show "inserts_payloads demo_insert" by (fastforce simp: inserts_payloads_def demo_insert_def)
qed

lemma demo_attempts:
  "sync_attempts (store_writer demo_env demo_insert) demo_manifest demo_connection (fst demo_first)"
proof -
  obtain e where "snd demo_first = Inl e" using demo_outcomes(1) by (auto simp: isl_def)
  then have "run_surreal_delta_sync 0 1 (store_writer demo_env demo_insert) demo_manifest
      (new_sync_state, demo_connection) = (fst demo_first, Inl e)"
    by (metis demo_first_def prod.collapse)
  then show ?thesis by (rule sync_attempts.failed [OF sync_attempts.fresh])
qed

lemma demo_success:
  obtains res where "run_surreal_delta_sync 5 1000 (store_writer demo_env demo_insert) demo_manifest (fst demo_first)
    = ((fst (fst demo_second), snd (fst demo_second)), Inr res)"
proof -
  obtain res where "snd demo_second = Inr res" using demo_outcomes(2) by (cases "snd demo_second") simp_all
  with that show ?thesis by (metis demo_second_def prod.collapse)
qed

section \<open>Resuming a sync\<close>

text \<open>
  C4: however many runs of a manifest have failed, wherever and at whatever batch size, the run that
  succeeds leaves in the database, outside the table of graph relations, exactly what one
  uninterrupted pass over the phases of the manifest puts there: the tombstones deleted, then the
  rows of every section upserted in sorted order, the nodes of the graph among them, then the
  checkpoint candidate.  When the graph section writes no row, as in the manifests of documents and
  chunks, the relations are included.  \<open>INSERT RELATION\<close> is assumed to write the table \<open>relations\<close>
  only.  What that table itself holds after graph rows is not claimed: its cleanup runs once per batch.
\<close>
theorem delta_sync_resumes:
  assumes "dict_ok (cn_db c0)" "relations_only ins" "sync_attempts (store_writer dn ins) m c0 x"
    "run_surreal_delta_sync now batch_size (store_writer dn ins) m x = ((st, c), Inr res)"
  shows "no_relations (cn_db c) = manifest_effect (sync_step dn) (store_mark dn) m (no_relations (cn_db c0))
    \<and> (no_graph_rows m \<longrightarrow> cn_db c = manifest_effect (store_step dn) (store_mark dn) m (cn_db c0))
    \<and> ss_checkpoint_applied st \<and> ss_completed_phases st = phase_names (manifest_units m)"
  using delta_writer.resumed_run [OF outer_writer [OF assms(2)] all_writable dict_ok_no_relations [OF assms(1)] assms(3,4)]
    store.resumed_run(1) [OF store_writable assms(1,3,4)] by blast

theorem delta_sync_resumes_witness:
  "no_relations (cn_db (snd (fst demo_second))) =
     manifest_effect (sync_step demo_env) (store_mark demo_env) demo_manifest (no_relations (cn_db demo_connection))
   \<and> map fst (cn_db (snd (fst demo_second))) =
     [(''documents'', ''fs:a.md''), (''files'', ''a.md''), (''tags'', ''new''), checkpoint_id]"
proof -
  obtain res where run: "run_surreal_delta_sync 5 1000 (store_writer demo_env demo_insert) demo_manifest (fst demo_first)
    = ((fst (fst demo_second), snd (fst demo_second)), Inr res)" by (rule demo_success)
  have "map fst (cn_db (snd (fst demo_second))) =
     [(''documents'', ''fs:a.md''), (''files'', ''a.md''), (''tags'', ''new''), checkpoint_id]"
    by code_simp
  with delta_sync_resumes [OF demo_facts demo_insert_relations(1) demo_attempts run] show ?thesis by blast
qed

section \<open>Typed rows\<close>

text \<open>
  C18: the rows of the database stay within the schema.  From a database within it and
  whatever a manifest holds, graph rows included, every run of the manifest, also one that fails in the
  middle, leaves only rows of tables the schema declares with columns the schema (or the writer's additions to it) allows.  \<open>INSERT RELATION\<close> is
  assumed to store only rows it was given.
\<close>
theorem delta_sync_typed:
  assumes "typed_db (cn_db c0)" "inserts_payloads ins" "sync_attempts (store_writer dn ins) m c0 x"
    "run_surreal_delta_sync now batch_size (store_writer dn ins) m x = ((st, c), r)"
  shows "typed_db (cn_db c)"
  using run_sync_keeps [OF typed_writer [OF assms(2)], of now batch_size dn m "fst x" "snd x"]
    attempts_keep [OF typed_writer [OF assms(2)] assms(3,1)] assms(4) by simp

theorem delta_sync_typed_witness:
  "typed_db (cn_db (snd (fst demo_second)))
   \<and> map_option (map fst) (dict_get (cn_db (snd (fst demo_second))) (''documents'', ''fs:a.md'')) =
     Some [''title'', ''ref'', ''namespace'', ''document_ref'', ''metadata'', ''schema_version'']"
proof -
  obtain res where run: "run_surreal_delta_sync 5 1000 (store_writer demo_env demo_insert) demo_manifest (fst demo_first)
    = ((fst (fst demo_second), snd (fst demo_second)), Inr res)" by (rule demo_success)
  have "typed_db (cn_db demo_connection)" by code_simp
  moreover have "map_option (map fst) (dict_get (cn_db (snd (fst demo_second))) (''documents'', ''fs:a.md'')) =
     Some [''title'', ''ref'', ''namespace'', ''document_ref'', ''metadata'', ''schema_version'']" by code_simp
  ultimately show ?thesis using delta_sync_typed [OF _ demo_insert_relations(2) demo_attempts run] by blast
qed

section \<open>The checkpoint\<close>

text \<open>The checkpoint row is the one from before, or gone because a tombstone names it.\<close>

definition checkpoint_held :: "delta_env \<Rightarrow> delta_manifest \<Rightarrow> database \<Rightarrow> database \<Rightarrow> bool" where
  "checkpoint_held dn m db0 db \<longleftrightarrow>
     dict_get db checkpoint_id = dict_get db0 checkpoint_id
     \<or> Inr checkpoint_id \<in> tombstone_target dn ` set (manifest_tombstones m) \<and> dict_get db checkpoint_id = None"

lemma phase_rows:
  "p \<in> set (manifest_units m) \<Longrightarrow> sp_writer_method p = ''delete_tombstones'' \<Longrightarrow> sp_rows p = manifest_tombstones m"
  by (auto simp: manifest_units_def manifest_sections_def section_phase_def)

lemma checkpoint_held_step:
  assumes "p \<in> set (manifest_units m)" "c \<in> set (sp_rows p)" "checkpoint_held dn m db0 db"
  shows "checkpoint_held dn m db0 (sync_step dn (sp_writer_method p) c db)"
proof (cases "sp_writer_method p = ''delete_tombstones''")
  case True
  then have mem: "c \<in> set (manifest_tombstones m)" using assms(2) phase_rows [OF assms(1)] by simp
  show ?thesis
  proof (cases "tombstone_target dn c")
    case (Inr rid)
    then have "Inr rid \<in> tombstone_target dn ` set (manifest_tombstones m)" using mem by (metis imageI)
    with True Inr assms(3) show ?thesis
      by (cases "rid = checkpoint_id") (auto simp: sync_step_def checkpoint_held_def)
  qed (use True assms(3) in \<open>simp add: sync_step_def\<close>)
next
  case False
  have "dict_get (sync_step dn (sp_writer_method p) c db) checkpoint_id = dict_get db checkpoint_id"
    using get_apply_change [of "(sp_writer_method p, c)" dn db checkpoint_id] False
      change_target_table(2) [of dn "sp_writer_method p" c checkpoint_id] by (auto simp: checkpoint_id_def)
  with assms(3) show ?thesis by (simp add: checkpoint_held_def)
qed

lemma checkpoint_held_outer: "checkpoint_held dn m (no_relations db0) (no_relations db) = checkpoint_held dn m db0 db"
  by (simp add: checkpoint_held_def checkpoint_id_def)

lemma written_covered:
  assumes "no_graph_rows m" "p \<in> set (manifest_units m)" "sp_name p \<noteq> ''checkpoint_candidate''" "c \<in> set (sp_rows p)"
  shows "store_covered (sp_writer_method p)"
  using store_writable [OF assms(1)] assms(2-4) by (force simp: list_all_iff phase_units_def)

text \<open>
  C5: the checkpoint never runs ahead.  As long as the runs of a manifest have failed, the checkpoint row
  of the database is the one from before (or is gone, when a tombstone of the manifest names it), or
  every other phase of the manifest has been completed and the database has, outside the graph
  relations, every row an uninterrupted run leaves; in the relations too when the graph section
  writes no row.
\<close>
theorem checkpoint_never_early:
  assumes "dict_ok (cn_db c0)" "relations_only ins" "sync_attempts (store_writer dn ins) m c0 (st, c)"
  shows "checkpoint_held dn m (cn_db c0) (cn_db c)
    \<or> no_relations (cn_db c) = manifest_effect (sync_step dn) (store_mark dn) m (no_relations (cn_db c0))
      \<and> (no_graph_rows m \<longrightarrow> cn_db c = manifest_effect (store_step dn) (store_mark dn) m (cn_db c0))
      \<and> phase_names (manifest_units m) = ss_completed_phases st @ [''checkpoint_candidate'']"
proof -
  have old: "checkpoint_held dn m db db" for db by (simp add: checkpoint_held_def)
  have outer: "checkpoint_held dn m (cn_db c0) (cn_db c)
    \<or> no_relations (cn_db c) = manifest_effect (sync_step dn) (store_mark dn) m (no_relations (cn_db c0))
      \<and> phase_names (manifest_units m) = ss_completed_phases st @ [''checkpoint_candidate'']"
    using delta_writer.attempts_mark [OF outer_writer [OF assms(2)] all_writable dict_ok_no_relations [OF assms(1)] assms(3),
        of "checkpoint_held dn m (no_relations (cn_db c0))"] checkpoint_held_step old
    unfolding checkpoint_held_outer by blast
  have "checkpoint_held dn m (cn_db c0) (cn_db c) \<or> cn_db c = manifest_effect (store_step dn) (store_mark dn) m (cn_db c0)"
    if "no_graph_rows m"
  proof -
    have "checkpoint_held dn m (cn_db c0) (store_step dn (sp_writer_method p) ch v)"
      if "p \<in> set (manifest_units m)" "sp_name p \<noteq> ''checkpoint_candidate''" "ch \<in> set (sp_rows p)"
        "checkpoint_held dn m (cn_db c0) v" for p ch v
      using checkpoint_held_step [OF that(1,3,4)] sync_step_covered [OF written_covered [OF \<open>no_graph_rows m\<close> that(1-3)]]
      by simp
    then show ?thesis
      using store.attempts_mark [OF store_writable [OF that] assms(1,3), of "checkpoint_held dn m (cn_db c0)"] old
      by blast
  qed
  with outer show ?thesis by blast
qed

theorem checkpoint_never_early_witness:
  "checkpoint_held demo_env demo_manifest (cn_db demo_connection) (cn_db (snd (fst demo_first)))
   \<or> no_relations (cn_db (snd (fst demo_first))) =
       manifest_effect (sync_step demo_env) (store_mark demo_env) demo_manifest (no_relations (cn_db demo_connection))"
  using checkpoint_never_early [OF demo_facts demo_insert_relations(1),
      of demo_env demo_manifest "fst (fst demo_first)" "snd (fst demo_first)"] demo_attempts by auto

section \<open>One section\<close>

lemma get_store_step:
  assumes "store_covered meth" "meth = ''delete_tombstones'' \<Longrightarrow> tombstone_target dn c \<noteq> Inr rid"
    "\<And>tbl raw payload. dict_get point_methods meth = Some (tbl, raw, payload) \<Longrightarrow> (tbl, raw dn c) \<noteq> rid"
  shows "dict_get (store_step dn meth c db) rid = dict_get db rid"
proof (cases "dict_get point_methods meth")
  case None
  then have "meth = ''delete_tombstones''" using assms(1) by (auto simp: store_covered_def dict_get_None_iff)
  then show ?thesis using assms(2) None by (auto simp: store_step_def split: sum.split)
next
  case (Some m)
  obtain tbl raw payload where "m = (tbl, raw, payload)" by (metis prod.collapse)
  with Some assms(3) show ?thesis by (auto simp: store_step_def get_put_row)
qed

lemma get_store_steps:
  assumes "store_covered meth"
    "\<And>c. c \<in> set rows \<Longrightarrow> meth = ''delete_tombstones'' \<Longrightarrow> tombstone_target dn c \<noteq> Inr rid"
    "\<And>c tbl raw payload. c \<in> set rows \<Longrightarrow> dict_get point_methods meth = Some (tbl, raw, payload) \<Longrightarrow>
      (tbl, raw dn c) \<noteq> rid"
  shows "dict_get (fold (store_step dn meth) rows db) rid = dict_get db rid"
  using assms(2,3)
proof (induction rows arbitrary: db)
  case (Cons c rows)
  have "dict_get (store_step dn meth c db) rid = dict_get db rid"
    by (rule get_store_step [OF assms(1)]) (use Cons.prems in auto)
  with Cons show ?case by simp
qed simp

lemma point_not_checkpoint: "dict_get point_methods meth = Some (tbl, raw, payload) \<Longrightarrow> (tbl, r) \<noteq> checkpoint_id"
  using point_method_table by (auto simp: checkpoint_id_def)

abbreviation section_table :: "string \<times> string \<times> delta_section \<Rightarrow> string option" where
  "section_table x \<equiv> map_option fst (dict_get point_methods (fst (snd x)))"

lemma section_tables:
  "map section_table (manifest_sections m) =
     [Some ''documents'', Some ''source_units'', Some ''chunks'', Some ''chunk_file_bindings'', Some ''provenance'',
      Some ''bindings'', Some ''fingerprints'', Some ''embeddings'', Some ''vector_components'', None, Some ''feedback'']"
  by (simp add: manifest_sections_def point_methods_def)

lemma split_sections:
  assumes "x \<in> set (manifest_sections m)"
  obtains A B where "manifest_sections m = A @ x # B" "section_table x \<notin> section_table ` set A"
    "section_table x \<notin> section_table ` set B"
proof -
  from split_list [OF assms] obtain A B where AB: "manifest_sections m = A @ x # B" by blast
  have "distinct (map section_table (manifest_sections m))" unfolding section_tables by simp
  with that [OF AB] AB show ?thesis by auto
qed

lemma get_other_sections:
  assumes "no_graph_rows m" "set A \<subseteq> set (manifest_sections m)" "Some tbl \<notin> section_table ` set A"
  shows "dict_get (fold (phase_effect (store_step dn) (store_mark dn) k) (map section_phase A) db) (tbl, r)
    = dict_get db (tbl, r)"
  using assms(2,3)
proof (induction A arbitrary: db)
  case (Cons x A)
  obtain name meth sect where x: "x = (name, meth, sect)" by (metis prod.collapse)
  have mem: "section_phase x \<in> set (manifest_units m)" using Cons.prems(1) by (auto simp: manifest_units_def)
  have name: "name \<noteq> ''checkpoint_candidate''" "meth \<noteq> ''delete_tombstones''"
    using Cons.prems(1) x by (auto simp: manifest_sections_def)
  with mem store_writable [OF assms(1)] x
  have "phase_units (section_phase x) = 0 \<or> store_covered meth" by (auto simp: list_all_iff)
  then have "dict_get (phase_effect (store_step dn) (store_mark dn) k (section_phase x) db) (tbl, r) = dict_get db (tbl, r)"
  proof
    assume cov: "store_covered meth"
    have "dict_get (fold (store_step dn meth) rows db) (tbl, r) = dict_get db (tbl, r)" for rows
      by (rule get_store_steps [OF cov]) (use Cons.prems(2) x name in auto)
    with x name show ?thesis by (simp add: phase_effect_def)
  qed (simp add: phase_effect_empty)
  with Cons show ?case by simp
qed simp

lemma put_ones_last:
  "xs \<noteq> [] \<Longrightarrow> same_row (fold put_one (map f xs) old) (f (last xs))"
  using put_ones_view [of "map f xs" old] by (auto simp: same_row_iff last_map)

lemma get_manifest_effect:
  assumes "dict_ok db" "no_graph_rows m" "(name, meth, section) \<in> set (manifest_sections m)"
    "dict_get point_methods meth = Some (tbl, raw, payload)" "tbl \<noteq> ''vector_components''"
  shows "dict_get (manifest_effect (store_step dn) (store_mark dn) m db) (tbl, r) =
    fold put_one (map (\<lambda>ch. stored_row dn tbl r (payload dn ch) [])
        (filter (\<lambda>ch. raw dn ch = r) (sp_rows (section_phase (name, meth, section)))))
      (if Inr (tbl, r) \<in> tombstone_target dn ` set (manifest_tombstones m) then None else dict_get db (tbl, r))"
proof -
  let ?k = "dm_checkpoint_candidate m" and ?e = "phase_effect (store_step dn) (store_mark dn) (dm_checkpoint_candidate m)"
  let ?rows = "sp_rows (section_phase (name, meth, section))"
  let ?tombs = "\<lparr>sp_name = ''tombstones'', sp_writer_method = ''delete_tombstones'', sp_rows = manifest_tombstones m\<rparr>"
  from split_sections [OF assms(3)] obtain A B where AB: "manifest_sections m = A @ (name, meth, section) # B"
    "section_table (name, meth, section) \<notin> section_table ` set A"
    "section_table (name, meth, section) \<notin> section_table ` set B" by metis
  then have other: "Some tbl \<notin> section_table ` set A" "Some tbl \<notin> section_table ` set B"
    using assms(4) by simp_all
  define d0 where "d0 = ?e ?tombs db"
  define d1 where "d1 = fold ?e (map section_phase A) d0"
  define d2 where "d2 = ?e (section_phase (name, meth, section)) d1"
  define d3 where "d3 = fold ?e (map section_phase B) d2"
  have "manifest_effect (store_step dn) (store_mark dn) m db = ?e \<lparr>sp_name = ''checkpoint_candidate'', sp_writer_method = ''write_checkpoint_candidate'', sp_rows = []\<rparr> d3"
    unfolding manifest_effect_def manifest_units_def AB(1) d3_def d2_def d1_def d0_def by simp
  then have "manifest_effect (store_step dn) (store_mark dn) m db = store_mark dn ?k d3" by (simp add: phase_effect_def)
  then have "dict_get (manifest_effect (store_step dn) (store_mark dn) m db) (tbl, r) = dict_get d3 (tbl, r)"
    using point_not_checkpoint [OF assms(4), of r] by (simp add: store_mark_def get_put_row)
  also have "\<dots> = dict_get d2 (tbl, r)"
    unfolding d3_def by (rule get_other_sections [OF assms(2) _ other(2)]) (auto simp: AB(1))
  also have "\<dots> = fold put_one (map (\<lambda>ch. stored_row dn tbl r (payload dn ch) []) (filter (\<lambda>ch. raw dn ch = r) ?rows))
      (dict_get d1 (tbl, r))"
  proof -
    have "name \<noteq> ''checkpoint_candidate''" using assms(3) by (auto simp: manifest_sections_def)
    then have "d2 = fold (\<lambda>p. put_row (fst p) (snd p))
        (map (\<lambda>c. ((tbl, raw dn c), stored_row dn tbl (raw dn c) (payload dn c) [])) ?rows) d1"
      unfolding d2_def using point_steps [OF assms(4), of d1 "[]"] assms(5) by (simp add: phase_effect_def)
    moreover have "map snd (filter (\<lambda>p. fst p = (tbl, r))
        (map (\<lambda>c. ((tbl, raw dn c), stored_row dn tbl (raw dn c) (payload dn c) [])) rows)) =
      map (\<lambda>ch. stored_row dn tbl r (payload dn ch) []) (filter (\<lambda>ch. raw dn ch = r) rows)" for rows
      by (induction rows) auto
    ultimately show ?thesis by (simp add: get_put_rows)
  qed
  also have "dict_get d1 (tbl, r) = dict_get d0 (tbl, r)"
    unfolding d1_def by (rule get_other_sections [OF assms(2) _ other(1)]) (auto simp: AB(1))
  also have "\<dots> = (if Inr (tbl, r) \<in> tombstone_target dn ` set (manifest_tombstones m) then None
      else dict_get db (tbl, r))"
    using dict_get_filter [OF assms(1), of "\<lambda>k v. Inr k \<notin> tombstone_target dn ` set (manifest_tombstones m)" "(tbl, r)",
        unfolded case_prod_unfold]
    by (simp add: d0_def phase_effect_def tombstone_steps split: option.split)
  finally show ?thesis .
qed

section \<open>What a sync stores\<close>

text \<open>
  C17: what is in a record after a sync, whatever runs failed before.  A record that no change of the
  manifest upserts is deleted when a tombstone targets it and kept otherwise; a record it upserts
  holds the columns of the last such change, in the order of sections and of references, with the
  defaults of the table (for a vector component, those of the stored embedding of its chunk); the
  checkpoint record holds the candidate.  This covers every section and the nodes of the graph; the
  table of graph relations is left out.  \<open>INSERT RELATION\<close> is assumed to write that table only.
\<close>
theorem delta_sync_contents:
  assumes "dict_ok (cn_db c0)" "relations_only ins" "sync_attempts (store_writer dn ins) m c0 x"
    "run_surreal_delta_sync now batch_size (store_writer dn ins) m x = ((st, c), Inr res)" "fst rid \<noteq> ''relations''"
  shows "if rid = checkpoint_id
    then same_row (dict_get (cn_db c) rid)
      (stored_row dn ''checkpoints'' CHECKPOINT_NAMESPACE (checkpoint_payload (dm_checkpoint_candidate m)) [])
    else let changes = filter (targets dn rid) (manifest_changes m)
      in if changes = []
         then dict_get (cn_db c) rid =
           (if Inr rid \<in> tombstone_target dn ` set (manifest_tombstones m) then None else dict_get (cn_db c0) rid)
         else same_row (dict_get (cn_db c) rid)
           (change_row dn (fst (last changes)) (snd (last changes)) rid (cn_db c))"
proof -
  have eff: "no_relations (cn_db c) = manifest_effect (sync_step dn) (store_mark dn) m (no_relations (cn_db c0))"
    using delta_writer.resumed_run(1)
      [OF outer_writer [OF assms(2)] all_writable dict_ok_no_relations [OF assms(1)] assms(3,4)] .
  have get: "dict_get (no_relations db) rid = dict_get db rid" for db using assms(5) by simp
  have row: "change_row dn meth ch rid (no_relations (cn_db c)) = change_row dn meth ch rid (cn_db c)" for meth ch
    by (rule change_row_cong) simp
  show ?thesis
  proof (cases "rid = checkpoint_id")
    case True
    with get_checkpoint_effect [of dn m "no_relations (cn_db c0)"] get show ?thesis by (simp add: eff [symmetric])
  next
    case False
    from get_sync_effect [OF dict_ok_no_relations [OF assms(1)] False, of dn m]
    show ?thesis using False unfolding eff [symmetric] get row Let_def by simp
  qed
qed

theorem delta_sync_contents_witness:
  "same_row (dict_get (cn_db (snd (fst demo_second))) (''files'', ''a.md''))
     (change_row demo_env ''write_graph'' (demo_graph ! 0) (''files'', ''a.md'') (cn_db (snd (fst demo_second))))
   \<and> dict_get (cn_db (snd (fst demo_second))) (''chunks'', ''c9'') = None"
proof -
  obtain res where run: "run_surreal_delta_sync 5 1000 (store_writer demo_env demo_insert) demo_manifest (fst demo_first)
    = ((fst (fst demo_second), snd (fst demo_second)), Inr res)" by (rule demo_success)
  have node: "filter (targets demo_env (''files'', ''a.md'')) (manifest_changes demo_manifest) = [(''write_graph'', demo_graph ! 0)]"
    by code_simp
  have chunk: "filter (targets demo_env (''chunks'', ''c9'')) (manifest_changes demo_manifest) = []"
    by code_simp
  have gone: "Inr (''chunks'', ''c9'') \<in> tombstone_target demo_env ` set (manifest_tombstones demo_manifest)"
    by code_simp
  note contents = delta_sync_contents [OF demo_facts demo_insert_relations(1) demo_attempts run]
  from contents [of "(''files'', ''a.md'')"] contents [of "(''chunks'', ''c9'')"] show ?thesis
    by (simp add: checkpoint_id_def node chunk gone Let_def)
qed

end
