(* ===== verification/Delta_Direct.thy ===== *)
theory Delta_Direct
  imports Delta_Laws Application_Ingest
begin

text \<open>
  The direct writes of the ingestion (\<open>ingestion/surreal_direct_sink.py\<close> and the Surreal part of
  \<open>ingestion/pipeline.py\<close>): the manifest of one indexed file, of a batch of an application
  source, of the graph of some files and of a purged file, and the call that applies a manifest
  with the sync state of the pipeline.
\<close>

section \<open>Rows from the indexing objects\<close>

record direct_file_write =
  fw_source_document :: source_document
  fw_chunks :: "chunk list"
  fw_embeddings :: "rat list list"
  fw_text_hashes :: "(string, string) dict"
  fw_chunk_strategy :: string
  fw_embedding_model :: string

record application_source_write =
  aw_changes :: "app_change list"
  aw_indexed_changes :: "app_change list"
  aw_chunks :: "chunk list"
  aw_e_text_vectors :: "rat list list"
  aw_e_meta_by_source_key :: "(string \<times> string, rat list) dict"
  aw_e_fused_vectors :: "rat list list"
  aw_text_hashes :: "(string, string) dict"
  aw_chunk_strategy :: string
  aw_embedding_model :: string

definition obj_items :: "json \<Rightarrow> (string, json) dict" where
  "obj_items j = (case j of JObj ps \<Rightarrow> ps | _ \<Rightarrow> [])"

definition str_list_cell :: "string list \<Rightarrow> cell" where
  "str_list_cell xs = Json (JList (map JStr xs))"

definition int_cell :: "int \<Rightarrow> cell" where
  "int_cell i = Json (JInt i)"

definition opt_str_cell :: "string option \<Rightarrow> cell" where
  "opt_str_cell x = (case x of None \<Rightarrow> none_cell | Some s \<Rightarrow> str_cell s)"

definition opt_time_cell :: "timestamp option \<Rightarrow> cell" where
  "opt_time_cell x = (case x of None \<Rightarrow> none_cell | Some t \<Rightarrow> Time t)"

definition chunk_title :: "chunk \<Rightarrow> source_document \<Rightarrow> string" where
  "chunk_title c d = (if chunk_heading c \<noteq> [] then chunk_heading c else sd_title d)"

definition chunk_tags_text :: "source_document \<Rightarrow> string" where
  "chunk_tags_text d =
     (let metadata = obj_items (sd_metadata_json d) in
      case dict_get metadata ''tags_text'' of
        Some (JStr s) \<Rightarrow> s
      | _ \<Rightarrow>
          (case dict_get metadata ''tags'' of
             Some (JList tags) \<Rightarrow> py_join '' '' (filter (\<lambda>s. s \<noteq> []) (map py_str tags))
           | _ \<Rightarrow> []))"

definition direct_file_paths :: "chunk \<Rightarrow> source_document \<Rightarrow> string list" where
  "direct_file_paths c d =
     (if ch_file_paths c \<noteq> [] then ch_file_paths c
      else case sd_file_path d of Some p \<Rightarrow> [p] | None \<Rightarrow> [])"

definition direct_document_change :: "source_document \<Rightarrow> py_error + delta_change" where
  "direct_document_change d =
     upsert_change (sd_ref d) ''source_documents''
       [(''namespace'', str_cell (sd_namespace d)), (''document_ref'', str_cell (sd_document_ref d)),
        (''ref'', str_cell (sd_ref d)), (''title'', str_cell (sd_title d)),
        (''media_type'', str_cell (sd_media_type d)), (''metadata'', Json (sd_metadata_json d))]"

definition direct_unit_change :: "source_unit \<Rightarrow> py_error + delta_change" where
  "direct_unit_change u =
     (let ref = stable_composite_ref [su_namespace u, su_document_ref u, su_unit_ref u]
      in upsert_change ref ''source_units''
       [(''namespace'', str_cell (su_namespace u)), (''document_ref'', str_cell (su_document_ref u)),
        (''unit_ref'', str_cell (su_unit_ref u)), (''ref'', str_cell ref), (''unit_type'', str_cell (su_unit_type u)),
        (''text'', str_cell (su_text u)), (''order_key'', str_cell (su_order_key u)),
        (''fingerprint'', str_cell (su_fingerprint u)), (''updated_at'', Time (su_updated_at u)),
        (''metadata'', Json (su_metadata_json u)), (''chunking_hints'', Json (su_chunking_hints u))])"

definition provenance_ref_of :: "chunk \<Rightarrow> string" where
  "provenance_ref_of c =
     (case ch_provenance c of Some p \<Rightarrow> if cp_ref p \<noteq> [] then cp_ref p else ch_chunk_id c | None \<Rightarrow> ch_chunk_id c)"

definition unit_refs_of :: "chunk \<Rightarrow> string list" where
  "unit_refs_of c = (case ch_provenance c of Some p \<Rightarrow> cp_source_unit_refs p | None \<Rightarrow> [])"

definition direct_chunk_row :: "source_document \<Rightarrow> chunk \<Rightarrow> string \<Rightarrow> delta_row" where
  "direct_chunk_row d c strategy =
     [(''chunk_id'', str_cell (ch_chunk_id c)), (''original_chunk_id'', str_cell (ch_chunk_id c)),
      (''chunk_strategy'', str_cell strategy), (''heading_hierarchy'', str_list_cell (ch_heading_hierarchy c)),
      (''level'', int_cell (ch_level c)), (''document_ref'', str_cell (sd_document_ref d)),
      (''ref'', str_cell (provenance_ref_of c)), (''title'', str_cell (chunk_title c d)),
      (''tags_text'', str_cell (chunk_tags_text d)), (''text'', str_cell (ch_text c)),
      (''file_paths'', str_list_cell (direct_file_paths c d)), (''file_bindings'', empty_list_cell),
      (''source_unit_refs'', str_list_cell (unit_refs_of c)), (''metadata'', empty_dict_cell)]"

definition direct_chunk_change :: "source_document \<Rightarrow> chunk \<Rightarrow> string \<Rightarrow> py_error + delta_change" where
  "direct_chunk_change d c strategy = upsert_change (ch_chunk_id c) ''chunks'' (direct_chunk_row d c strategy)"

definition application_chunk_change :: "source_document \<Rightarrow> chunk \<Rightarrow> string \<Rightarrow> py_error + delta_change" where
  "application_chunk_change d c strategy = upsert_change (provenance_ref_of c) ''chunks'' (direct_chunk_row d c strategy)"

definition direct_provenance_change :: "source_document \<Rightarrow> chunk \<Rightarrow> string \<Rightarrow> py_error + delta_change" where
  "direct_provenance_change d c strategy =
     (let p = ch_provenance c;
          namespace = (case p of Some p \<Rightarrow> cp_namespace p | None \<Rightarrow> sd_namespace d);
          provenance_id = stable_composite_ref [ch_chunk_id c, namespace, sd_document_ref d]
      in upsert_change provenance_id ''provenance''
       [(''chunk_id'', str_cell (ch_chunk_id c)), (''provenance_id'', str_cell provenance_id),
        (''namespace'', str_cell namespace), (''document_ref'', str_cell (sd_document_ref d)),
        (''chunk_strategy'', str_cell (case p of Some p \<Rightarrow> cp_chunk_strategy p | None \<Rightarrow> strategy)),
        (''source_unit_refs'', str_list_cell (unit_refs_of c)),
        (''parser_name'', case p of Some p \<Rightarrow> opt_str_cell (cp_parser_name p) | None \<Rightarrow> str_cell (sd_parser_name d)),
        (''metadata'', empty_dict_cell)])"

definition file_binding_paths :: "source_document \<Rightarrow> chunk \<Rightarrow> string list" where
  "file_binding_paths d c =
     (let file_paths = direct_file_paths c d
      in if file_paths = [] \<and> sd_namespace d = ''filesystem'' then [sd_document_ref d] else file_paths)"

definition file_binding_id :: "string \<Rightarrow> string \<Rightarrow> nat \<Rightarrow> string" where
  "file_binding_id chunk_id file_path i = stable_composite_ref [chunk_id, file_path, decimal_int (int i)]"

definition file_binding_change :: "chunk \<Rightarrow> string \<Rightarrow> py_error + delta_change" where
  "file_binding_change c file_path =
     (let binding_id = file_binding_id (ch_chunk_id c) file_path (ch_chunk_index c)
      in upsert_change binding_id ''chunk_file_bindings''
       [(''binding_id'', str_cell binding_id), (''chunk_id'', str_cell (ch_chunk_id c)),
        (''file_path'', str_cell file_path), (''chunk_index'', int_cell (int (ch_chunk_index c))),
        (''metadata'', empty_dict_cell)])"

definition file_binding_changes :: "source_document \<Rightarrow> chunk \<Rightarrow> py_error + delta_change list" where
  "file_binding_changes d c = try_list (file_binding_change c) (file_binding_paths d c)"

definition direct_binding_change :: "source_document \<Rightarrow> py_error + delta_change" where
  "direct_binding_change d =
     upsert_change (stable_composite_ref [sd_namespace d, sd_document_ref d]) ''bindings''
       [(''namespace'', str_cell (sd_namespace d)), (''resource_ref'', str_cell (sd_document_ref d)),
        (''document_ref'', str_cell (sd_document_ref d)), (''ref'', str_cell (sd_ref d)),
        (''active'', Json (JBool True)), (''bound_at'', Time (sd_updated_at d)), (''unbound_at'', none_cell),
        (''content_fingerprint'', str_cell (sd_content_fingerprint d)),
        (''metadata_fingerprint'', str_cell (sd_metadata_fingerprint d)),
        (''source_unit_refs'', empty_list_cell), (''metadata'', Json (sd_metadata_json d))]"

definition direct_component_change :: "string \<Rightarrow> string \<Rightarrow> rat list \<Rightarrow> string \<Rightarrow> string \<Rightarrow> (string, json) dict \<Rightarrow>
    py_error + delta_change" where
  "direct_component_change owner_id component embedding strategy model metadata =
     upsert_change (stable_composite_ref [strategy, model, owner_id, component]) ''vector_components''
       [(''chunk_strategy'', str_cell strategy), (''embedding_model'', str_cell model),
        (''chunk_id'', str_cell owner_id), (''component'', str_cell component),
        (''embedding'', Floats embedding), (''metadata'', Json (JObj metadata))]"

definition direct_embedding_change :: "delta_env \<Rightarrow> chunk \<Rightarrow> rat list \<Rightarrow> string \<Rightarrow> string \<Rightarrow> (string, string) dict \<Rightarrow>
    py_error + delta_change" where
  "direct_embedding_change dn c embedding strategy model text_hashes =
     (case dict_get text_hashes (ch_chunk_id c) of
        None \<Rightarrow> Inl (ValueError (''missing text hash for chunk_id='' @ repr_str (ch_chunk_id c)))
      | Some text_hash \<Rightarrow>
          upsert_change (stable_composite_ref [strategy, model, ch_chunk_id c]) ''embeddings''
            [(''chunk_strategy'', str_cell strategy), (''embedding_model'', str_cell model),
             (''chunk_id'', str_cell (ch_chunk_id c)), (''text_hash'', str_cell text_hash),
             (''vector_rowid'', int_cell (stable_vector_rowid dn [strategy, model, ch_chunk_id c])),
             (''vector'', Floats embedding), (''metadata'', empty_dict_cell)])"

section \<open>The manifest of an indexed file\<close>

record direct_changes =
  dg_chunks :: "delta_change list"
  dg_bindings :: "delta_change list"
  dg_provenance :: "delta_change list"
  dg_embeddings :: "delta_change list"

fun direct_chunk_changes :: "delta_env \<Rightarrow> direct_file_write \<Rightarrow> (chunk \<times> rat list) list \<Rightarrow> direct_changes \<Rightarrow>
    py_error + direct_changes" where
  "direct_chunk_changes dn w [] acc = Inr acc"
| "direct_chunk_changes dn w ((c, e) # rest) acc =
     try_bind (direct_chunk_change (fw_source_document w) c (fw_chunk_strategy w)) (\<lambda>chunk.
     try_bind (file_binding_changes (fw_source_document w) c) (\<lambda>bindings.
     try_bind (direct_provenance_change (fw_source_document w) c (fw_chunk_strategy w)) (\<lambda>provenance.
     try_bind (direct_embedding_change dn c e (fw_chunk_strategy w) (fw_embedding_model w) (fw_text_hashes w)) (\<lambda>embedding.
       direct_chunk_changes dn w rest
         \<lparr>dg_chunks = dg_chunks acc @ [chunk], dg_bindings = dg_bindings acc @ bindings,
          dg_provenance = dg_provenance acc @ [provenance], dg_embeddings = dg_embeddings acc @ [embedding]\<rparr>))))"

definition DIRECT_GRAPH_DEFERRED :: string where
  "DIRECT_GRAPH_DEFERRED = ''graph sync is deferred for the direct filesystem slice''"

definition DIRECT_FEEDBACK_DEFERRED :: string where
  "DIRECT_FEEDBACK_DEFERRED = ''feedback sync is deferred for the direct filesystem slice''"

definition build_direct_manifest :: "delta_env \<Rightarrow> direct_file_write \<Rightarrow> delta_selection \<Rightarrow> checkpoint_candidate \<Rightarrow>
    timestamp option \<Rightarrow> py_error + delta_manifest" where
  "build_direct_manifest dn w selection candidate created_at =
     (if length (fw_chunks w) \<noteq> length (fw_embeddings w)
      then Inl (ValueError ''chunks and embeddings must be aligned'')
      else try_bind (direct_document_change (fw_source_document w)) (\<lambda>document.
        try_bind (direct_chunk_changes dn w (zip (fw_chunks w) (fw_embeddings w))
          \<lparr>dg_chunks = [], dg_bindings = [], dg_provenance = [], dg_embeddings = []\<rparr>) (\<lambda>g.
        try_bind (direct_binding_change (fw_source_document w)) (\<lambda>binding.
        try_bind (deferred_section DIRECT_GRAPH_DEFERRED) (\<lambda>graph.
        try_bind (deferred_section DIRECT_FEEDBACK_DEFERRED) (\<lambda>feedback.
          build_manifest selection candidate (no_sections\<lparr>
            dm_documents := rows_section [document], dm_chunks := rows_section (dg_chunks g),
            dm_chunk_file_bindings := rows_section (dg_bindings g), dm_provenance := rows_section (dg_provenance g),
            dm_resource_bindings := rows_section [binding], dm_embeddings := rows_section (dg_embeddings g),
            dm_graph := graph, dm_feedback := feedback, dm_created_at := created_at\<rparr>)))))))"

text \<open>The selection and the candidate the pipeline gives the manifest of a document.\<close>

definition document_selection :: "source_document \<Rightarrow> delta_selection" where
  "document_selection d =
     \<lparr>dl_scope = ChangedRows, dl_source_name = Some (sd_namespace d), dl_table_name = Some ''source_documents'',
      dl_database_name = None, dl_changed_at = Some (sd_updated_at d), dl_cursor = Some (sd_ref d)\<rparr>"

definition document_candidate :: "source_document \<Rightarrow> checkpoint_candidate" where
  "document_candidate d =
     \<lparr>kc_cursor = sd_ref d, kc_watermark = Some (sd_content_fingerprint d),
      kc_source_time = Some (sd_updated_at d), kc_advanced = False\<rparr>"

definition file_manifest :: "delta_env \<Rightarrow> direct_file_write \<Rightarrow> py_error + delta_manifest" where
  "file_manifest dn w =
     (let d = fw_source_document w in
      try_bind (validate_selection (document_selection d)) (\<lambda>selection.
      try_bind (validate_candidate (document_candidate d)) (\<lambda>candidate.
        build_direct_manifest dn w selection candidate (Some (sd_updated_at d)))))"

section \<open>Applying a manifest\<close>

text \<open>\<open>_write_surreal_direct_manifest\<close>: the writer and the sync state are fields of the pipeline.\<close>

definition write_direct_manifest :: "rat \<Rightarrow> 'w sync_writer option \<Rightarrow> delta_manifest \<Rightarrow> sync_state \<times> 'w \<Rightarrow>
    (sync_state \<times> 'w) \<times> (py_error + unit)" where
  "write_direct_manifest now writer m x =
     (case writer of
        None \<Rightarrow> (x, Inl (RuntimeError ''Surreal direct writer is not configured''))
      | Some sw \<Rightarrow>
          (case run_surreal_delta_sync now 1000 sw m x of
             (x', Inl e) \<Rightarrow> (x', Inl e)
           | (x', Inr _) \<Rightarrow> (x', Inr ())))"

section \<open>The manifest of an application source\<close>

text \<open>\<open>documents_by_ref.setdefault\<close>: the first document of a reference.\<close>

fun first_documents :: "app_change list \<Rightarrow> (string, source_document) dict \<Rightarrow> (string, source_document) dict" where
  "first_documents [] acc = acc"
| "first_documents (ch # rest) acc =
     first_documents rest
       (if dict_get acc (sd_ref (ac_document ch)) = None
        then dict_set (sd_ref (ac_document ch)) (ac_document ch) acc else acc)"

definition sort_by_ref :: "delta_change list \<Rightarrow> delta_change list" where
  "sort_by_ref = sort_key dc_ref"

record application_changes =
  ag_chunks :: "delta_change list"
  ag_provenance :: "delta_change list"
  ag_embeddings :: "delta_change list"
  ag_components :: "delta_change list"

fun application_chunk_changes :: "delta_env \<Rightarrow> application_source_write \<Rightarrow>
    (app_change \<times> chunk \<times> rat list \<times> rat list) list \<Rightarrow> application_changes \<Rightarrow> py_error + application_changes" where
  "application_chunk_changes dn w [] acc = Inr acc"
| "application_chunk_changes dn w ((ch, c, e_text, e_fused) # rest) acc =
     (let d = ac_document ch; strategy = aw_chunk_strategy w; model = aw_embedding_model w in
      try_bind (application_chunk_change d c strategy) (\<lambda>chunk.
      try_bind (direct_provenance_change d c strategy) (\<lambda>provenance.
      try_bind (direct_embedding_change dn c e_fused strategy model (aw_text_hashes w)) (\<lambda>embedding.
      try_bind (direct_component_change (ch_chunk_id c) ''text'' e_text strategy model []) (\<lambda>component.
        application_chunk_changes dn w rest
          \<lparr>ag_chunks = ag_chunks acc @ [chunk], ag_provenance = ag_provenance acc @ [provenance],
           ag_embeddings = ag_embeddings acc @ [embedding], ag_components = ag_components acc @ [component]\<rparr>)))))"

definition meta_component_changes :: "application_source_write \<Rightarrow> source_document list \<Rightarrow> py_error + delta_change list" where
  "meta_component_changes w documents =
     try_list (\<lambda>(d, v). direct_component_change (sd_ref d) ''meta'' v (aw_chunk_strategy w) (aw_embedding_model w)
         [(''namespace'', JStr (sd_namespace d)), (''document_ref'', JStr (sd_document_ref d))])
       (List.map_filter (\<lambda>d. map_option (Pair d)
          (dict_get (aw_e_meta_by_source_key w) (sd_namespace d, sd_document_ref d))) documents)"

definition build_application_source_manifest :: "delta_env \<Rightarrow> application_source_write \<Rightarrow> delta_selection \<Rightarrow>
    checkpoint_candidate \<Rightarrow> timestamp option \<Rightarrow> py_error + delta_manifest" where
  "build_application_source_manifest dn w selection candidate created_at =
     (if length (aw_chunks w) \<noteq> length (aw_e_text_vectors w) \<or> length (aw_chunks w) \<noteq> length (aw_e_fused_vectors w)
      then Inl (ValueError ''chunks, e_text_vectors, and e_fused_vectors must be aligned'')
      else if length (aw_indexed_changes w) \<noteq> length (aw_chunks w)
      then Inl (ValueError ''indexed_changes and chunks must be aligned'')
      else let documents = map snd (sort_key fst (first_documents (aw_changes w) [])) in
        try_bind (try_list (\<lambda>ch. direct_unit_change (ac_unit ch)) (aw_changes w)) (\<lambda>units.
        try_bind (try_list direct_document_change documents) (\<lambda>document_changes.
        try_bind (try_list direct_binding_change documents) (\<lambda>binding_changes.
        try_bind (application_chunk_changes dn w
          (zip (aw_indexed_changes w) (zip (aw_chunks w) (zip (aw_e_text_vectors w) (aw_e_fused_vectors w))))
          \<lparr>ag_chunks = [], ag_provenance = [], ag_embeddings = [], ag_components = []\<rparr>) (\<lambda>g.
        try_bind (meta_component_changes w documents) (\<lambda>components.
          build_manifest selection candidate (no_sections\<lparr>
            dm_documents := rows_section document_changes, dm_source_units := rows_section (sort_by_ref units),
            dm_chunks := rows_section (sort_by_ref (ag_chunks g)),
            dm_provenance := rows_section (sort_by_ref (ag_provenance g)),
            dm_resource_bindings := rows_section binding_changes,
            dm_embeddings := rows_section (sort_by_ref (ag_embeddings g)),
            dm_vector_components := rows_section (sort_by_ref (ag_components g @ components)),
            dm_created_at := created_at\<rparr>)))))))"

section \<open>The graph\<close>

definition graph_file_change :: "file_info \<Rightarrow> py_error + delta_change" where
  "graph_file_change f =
     upsert_change (fi_path f) ''files''
       [(''path'', str_cell (fi_path f)), (''file_path'', str_cell (fi_path f)),
        (''title'', str_cell (fi_title f)), (''metadata'', empty_dict_cell)]"

definition graph_section_change :: "chunk \<Rightarrow> string \<Rightarrow> py_error + delta_change" where
  "graph_section_change c file_path =
     upsert_change (ch_chunk_id c) ''sections''
       [(''chunk_id'', str_cell (ch_chunk_id c)), (''document_ref'', str_cell file_path),
        (''file_path'', str_cell file_path), (''heading'', str_cell (chunk_heading c)),
        (''level'', int_cell (ch_level c)), (''text_preview'', str_cell (take 200 (ch_text c))),
        (''metadata'', empty_dict_cell)]"

definition graph_entity_change :: "string \<Rightarrow> string \<Rightarrow> string \<Rightarrow> py_error + delta_change" where
  "graph_entity_change name entity_type source =
     upsert_change name ''entities''
       [(''name'', str_cell name), (''entity_type'', str_cell entity_type), (''source'', str_cell source),
        (''metadata'', empty_dict_cell)]"

definition graph_tag_change :: "string \<Rightarrow> py_error + delta_change" where
  "graph_tag_change name = upsert_change name ''tags'' [(''name'', str_cell name), (''metadata'', empty_dict_cell)]"

definition graph_relation_change :: "string \<Rightarrow> string \<Rightarrow> string \<Rightarrow> string \<Rightarrow> string \<Rightarrow> rat \<Rightarrow> (string, string) dict \<Rightarrow>
    py_error + delta_change" where
  "graph_relation_change source_id source_table target_id target_table relation_type weight properties =
     (let relation_id = stable_composite_ref [source_id, target_id, relation_type]
      in upsert_change relation_id ''relations''
       [(''relation_id'', str_cell relation_id), (''rel_type'', str_cell relation_type),
        (''relation_type'', str_cell relation_type), (''weight'', Float weight),
        (''source_id'', str_cell source_id), (''target_id'', str_cell target_id),
        (''source_table'', str_cell source_table), (''target_table'', str_cell target_table),
        (''properties'', Json (JObj (map (\<lambda>(k, v). (k, JStr v)) properties))), (''metadata'', empty_dict_cell)])"

definition frontmatter_tag_targets :: "json \<Rightarrow> string \<times> string" where
  "frontmatter_tag_targets tag_value =
     (let tag_str = py_strip (py_str tag_value) in
      case split_namespace tag_str of
        Some (kind, name) \<Rightarrow> if py_strip kind \<noteq> [] then (py_strip name, py_upper (py_strip kind)) else (tag_str, [])
      | None \<Rightarrow> (tag_str, []))"

text \<open>
  The rows gathered so far, by table and reference (the first of a reference stays), with the
  names of the tags and the entities.
\<close>

record graph_state =
  gs_rows :: "(string \<times> string, delta_change) dict"
  gs_tag_names :: "string list"
  gs_entity_names :: "string list"

definition graph_add :: "(py_error + delta_change) \<Rightarrow> graph_state \<Rightarrow> py_error + graph_state" where
  "graph_add change g =
     try_bind change (\<lambda>c.
       let key = (dc_table c, dc_ref c)
       in Inr (if dict_get (gs_rows g) key = None then g\<lparr>gs_rows := dict_set key c (gs_rows g)\<rparr> else g))"

fun graph_each :: "('a \<Rightarrow> graph_state \<Rightarrow> py_error + graph_state) \<Rightarrow> 'a list \<Rightarrow> graph_state \<Rightarrow> py_error + graph_state" where
  "graph_each f [] g = Inr g"
| "graph_each f (x # xs) g = try_bind (f x g) (graph_each f xs)"

definition graph_chunk :: "string list \<Rightarrow> chunk \<Rightarrow> graph_state \<Rightarrow> py_error + graph_state" where
  "graph_chunk file_paths c g =
     (let file_path = (if ch_file_paths c \<noteq> [] then hd (ch_file_paths c)
                       else if file_paths \<noteq> [] then hd (sort file_paths) else [])
      in try_bind (graph_add (graph_section_change c file_path) g) (\<lambda>g.
           if file_path = [] then Inr g
           else graph_add (graph_relation_change file_path ''files'' (ch_chunk_id c) ''sections'' ''CONTAINS'' 1 []) g))"

definition graph_add_tag :: "string \<Rightarrow> graph_state \<Rightarrow> py_error + graph_state" where
  "graph_add_tag name g = graph_add (graph_tag_change name) (g\<lparr>gs_tag_names := name # gs_tag_names g\<rparr>)"

definition graph_add_entity :: "string \<Rightarrow> string \<Rightarrow> string \<Rightarrow> graph_state \<Rightarrow> py_error + graph_state" where
  "graph_add_entity name entity_type source g =
     graph_add (graph_entity_change name entity_type source) (g\<lparr>gs_entity_names := name # gs_entity_names g\<rparr>)"

definition graph_entity :: "entity \<Rightarrow> graph_state \<Rightarrow> py_error + graph_state" where
  "graph_entity e g =
     (if py_lower (en_type e) = ''tag'' then graph_add_tag (en_name e) g
      else graph_add_entity (en_name e) (en_type e) (en_source e) g)"

definition graph_frontmatter_tag :: "string \<Rightarrow> json \<Rightarrow> graph_state \<Rightarrow> py_error + graph_state" where
  "graph_frontmatter_tag file_path tag_value g =
     (case frontmatter_tag_targets tag_value of (name, entity_type) \<Rightarrow>
        if name = [] then Inr g
        else if entity_type \<noteq> [] then
          try_bind (graph_add_entity name entity_type ''frontmatter'' g)
            (graph_add (graph_relation_change file_path ''files'' name ''entities'' ''HAS_TAG'' 1 []))
        else try_bind (graph_add_tag name g)
            (graph_add (graph_relation_change file_path ''files'' name ''tags'' ''HAS_TAG'' 1 [])))"

definition graph_participant :: "string \<Rightarrow> json \<Rightarrow> graph_state \<Rightarrow> py_error + graph_state" where
  "graph_participant file_path participant g =
     (let name = py_strip (py_str participant)
      in if name = [] then Inr g
         else try_bind (graph_add_entity name ''PERSON'' ''frontmatter'' g)
           (graph_add (graph_relation_change file_path ''files'' name ''entities'' ''HAS_PARTICIPANT'' 1 [])))"

definition json_list :: "json option \<Rightarrow> json list" where
  "json_list j = (case j of Some (JList xs) \<Rightarrow> xs | _ \<Rightarrow> [])"

definition graph_frontmatter :: "file_info \<Rightarrow> graph_state \<Rightarrow> py_error + graph_state" where
  "graph_frontmatter f g =
     try_bind (graph_each (graph_frontmatter_tag (fi_path f)) (json_list (dict_get (fi_frontmatter f) ''tags'')) g) (\<lambda>g.
       if fi_kind f = ''meeting_transcript''
       then graph_each (graph_participant (fi_path f)) (json_list (dict_get (fi_frontmatter f) ''participants'')) g
       else Inr g)"

definition graph_end_table :: "string list \<Rightarrow> string list \<Rightarrow> graph_state \<Rightarrow> string \<Rightarrow> string" where
  "graph_end_table file_paths chunk_ids g ident =
     (if ident \<in> set file_paths then ''files'' else if ident \<in> set chunk_ids then ''sections''
      else if ident \<in> set (gs_tag_names g) then ''tags'' else ''entities'')"

definition graph_extracted_relation :: "string list \<Rightarrow> string list \<Rightarrow> relation \<Rightarrow> graph_state \<Rightarrow> py_error + graph_state" where
  "graph_extracted_relation file_paths chunk_ids r g =
     graph_add (graph_relation_change (rl_source_id r) (graph_end_table file_paths chunk_ids g (rl_source_id r))
       (rl_target_id r) (graph_end_table file_paths chunk_ids g (rl_target_id r))
       (rl_relation_type r) (rl_weight r) (rl_properties r)) g"

definition graph_row_sort_key :: "delta_change \<Rightarrow> int \<times> string" where
  "graph_row_sort_key c =
     (dict_get_default [(''files'', 0), (''sections'', 1), (''entities'', 2), (''tags'', 3), (''relations'', 4)]
        (dc_table c) 99, dc_ref c)"

definition build_graph_rows :: "file_info list \<Rightarrow> chunk list \<Rightarrow> extraction_result option \<Rightarrow> py_error + delta_change list" where
  "build_graph_rows files chunks extraction =
     (let file_paths = map fi_path files; chunk_ids = map ch_chunk_id chunks;
          entities = (case extraction of None \<Rightarrow> [] | Some x \<Rightarrow> ex_entities x);
          relations = (case extraction of None \<Rightarrow> [] | Some x \<Rightarrow> ex_relations x)
      in try_bind (graph_each (\<lambda>f. graph_add (graph_file_change f)) files
           \<lparr>gs_rows = [], gs_tag_names = [], gs_entity_names = []\<rparr>) (\<lambda>g.
         try_bind (graph_each (graph_chunk file_paths) chunks g) (\<lambda>g.
         try_bind (graph_each graph_entity entities g) (\<lambda>g.
         try_bind (graph_each graph_frontmatter files g) (\<lambda>g.
         try_bind (graph_each (graph_extracted_relation file_paths chunk_ids) relations g) (\<lambda>g.
           Inr (sort_key graph_row_sort_key (map snd (gs_rows g)))))))))"

definition build_graph_manifest :: "file_info list \<Rightarrow> chunk list \<Rightarrow> extraction_result option \<Rightarrow> delta_selection \<Rightarrow>
    checkpoint_candidate \<Rightarrow> timestamp option \<Rightarrow> py_error + delta_manifest" where
  "build_graph_manifest files chunks extraction selection candidate created_at =
     try_bind (build_graph_rows files chunks extraction) (\<lambda>rows.
       build_manifest selection candidate (no_sections\<lparr>dm_graph := rows_section rows, dm_created_at := created_at\<rparr>))"

section \<open>The manifest of a purged file\<close>

definition reason_tombstone :: "string \<Rightarrow> string \<Rightarrow> string \<Rightarrow> delta_row \<Rightarrow> py_error + delta_change" where
  "reason_tombstone reason ref tbl previous_row =
     validate_change \<lparr>dc_ref = ref, dc_table = tbl, dc_change_type = Tombstone, dc_row = [],
       dc_tombstone = Some \<lparr>dt_ref = ref, dt_table = tbl, dt_deleted_at = None, dt_reason = Some reason,
                             dt_previous_row = previous_row\<rparr>\<rparr>"

definition document_previous_row :: "source_document \<Rightarrow> delta_row" where
  "document_previous_row d =
     [(''namespace'', str_cell (sd_namespace d)), (''document_ref'', str_cell (sd_document_ref d)),
      (''ref'', str_cell (sd_ref d)), (''source_uri'', str_cell (sd_source_uri d)), (''title'', str_cell (sd_title d)),
      (''media_type'', str_cell (sd_media_type d)), (''parser_name'', str_cell (sd_parser_name d)),
      (''document_type'', str_cell (sd_document_type d)), (''updated_at'', Time (sd_updated_at d)),
      (''content_fingerprint'', str_cell (sd_content_fingerprint d)),
      (''metadata_fingerprint'', str_cell (sd_metadata_fingerprint d)), (''metadata'', Json (sd_metadata_json d))]"

text \<open>The reference and the previous row of the tombstone of the binding.\<close>

definition binding_previous_row :: "resource_binding option \<Rightarrow> source_document option \<Rightarrow>
    (string \<times> delta_row) option" where
  "binding_previous_row binding document =
     (case (binding, document) of
        (Some b, _) \<Rightarrow> Some (rb_ref b,
          [(''namespace'', str_cell (rb_namespace b)), (''resource_ref'', str_cell (rb_resource_ref b)),
           (''document_ref'', str_cell (rb_document_ref b)), (''ref'', str_cell (rb_ref b)),
           (''active'', Json (JBool (rb_active b))), (''bound_at'', Time (rb_bound_at b)),
           (''unbound_at'', opt_time_cell (rb_unbound_at b)),
           (''content_fingerprint'', str_cell (rb_content_fingerprint b)),
           (''metadata_fingerprint'', str_cell (rb_metadata_fingerprint b)),
           (''source_unit_refs'', str_list_cell (rb_source_unit_refs b)), (''metadata'', Json (JObj (rb_metadata_json b)))])
      | (None, Some d) \<Rightarrow> Some (sd_ref d,
          [(''namespace'', str_cell (sd_namespace d)), (''resource_ref'', str_cell (sd_document_ref d)),
           (''document_ref'', str_cell (sd_document_ref d)), (''ref'', str_cell (sd_ref d)),
           (''active'', Json (JBool True)), (''bound_at'', Time (sd_updated_at d)), (''unbound_at'', none_cell),
           (''content_fingerprint'', str_cell (sd_content_fingerprint d)),
           (''metadata_fingerprint'', str_cell (sd_metadata_fingerprint d)),
           (''source_unit_refs'', empty_list_cell), (''metadata'', Json (sd_metadata_json d))])
      | (None, None) \<Rightarrow> None)"

definition file_binding_tombstone :: "string \<Rightarrow> string \<Rightarrow> string \<times> nat \<Rightarrow> py_error + delta_change" where
  "file_binding_tombstone reason file_path r =
     (case r of (chunk_id, chunk_index) \<Rightarrow>
        (let binding_id = file_binding_id chunk_id file_path chunk_index
         in reason_tombstone reason binding_id ''chunk_file_bindings''
              [(''binding_id'', str_cell binding_id), (''chunk_id'', str_cell chunk_id),
               (''file_path'', str_cell file_path), (''chunk_index'', int_cell (int chunk_index))]))"

definition orphan_chunk_tombstones :: "string \<Rightarrow> string \<Rightarrow> string \<Rightarrow> string \<Rightarrow> source_document option \<Rightarrow>
    (string, chunk_provenance) dict \<Rightarrow> string \<Rightarrow> py_error + delta_change list" where
  "orphan_chunk_tombstones reason model strategy document_ref document provenance chunk_id =
     (let p = dict_get provenance chunk_id;
          parser_name = (case p of Some p \<Rightarrow> opt_str_cell (cp_parser_name p)
            | None \<Rightarrow> str_cell (case document of Some d \<Rightarrow> sd_parser_name d | None \<Rightarrow> ''markdown''));
          provenance_id = stable_composite_ref [chunk_id, ''filesystem'', document_ref];
          embedding_id = stable_composite_ref [strategy, model, chunk_id]
      in try_list (\<lambda>(ref, tbl, row). reason_tombstone reason ref tbl row)
        [(chunk_id, ''chunks'', [(''chunk_id'', str_cell chunk_id), (''original_chunk_id'', str_cell chunk_id)]),
         (provenance_id, ''provenance'',
          [(''chunk_id'', str_cell chunk_id), (''provenance_id'', str_cell provenance_id),
           (''namespace'', str_cell ''filesystem''), (''document_ref'', str_cell document_ref),
           (''chunk_strategy'', str_cell (case p of Some p \<Rightarrow> cp_chunk_strategy p | None \<Rightarrow> strategy)),
           (''parser_name'', parser_name),
           (''source_unit_refs'', str_list_cell (case p of Some p \<Rightarrow> cp_source_unit_refs p | None \<Rightarrow> []))]),
         (embedding_id, ''embeddings'',
          [(''chunk_strategy'', str_cell strategy), (''embedding_model'', str_cell model),
           (''chunk_id'', str_cell chunk_id)])])"

text \<open>\<open>len(get_file_paths_by_chunk_id(...)) <= 1\<close>.\<close>

fun orphan_chunk_ids :: "store \<Rightarrow> string \<Rightarrow> string list \<Rightarrow> py_error + string list" where
  "orphan_chunk_ids s strategy [] = Inr []"
| "orphan_chunk_ids s strategy (c # cs) =
     try_bind (get_file_paths_by_chunk_id s strategy c) (\<lambda>paths.
     try_bind (orphan_chunk_ids s strategy cs) (\<lambda>rest.
       Inr (if length paths \<le> 1 then c # rest else rest)))"

definition strategy_tombstones :: "string \<Rightarrow> string \<Rightarrow> string \<Rightarrow> source_document option \<Rightarrow> string \<Rightarrow> string \<Rightarrow>
    store \<Rightarrow> py_error + delta_change list \<times> store" where
  "strategy_tombstones reason model document_ref document file_path strategy s =
     try_bind (get_chunk_refs_by_file s strategy file_path) (\<lambda>refs.
       if refs = [] then Inr ([], s)
       else try_bind (orphan_chunk_ids s strategy (map fst refs)) (\<lambda>orphans.
         let (provenance, s) = (if orphans \<noteq> [] then get_chunk_provenance_for_chunk_ids strategy orphans s else ([], s))
         in try_bind (try_list (file_binding_tombstone reason file_path) refs) (\<lambda>bindings.
            try_bind (try_list (orphan_chunk_tombstones reason model strategy document_ref document provenance) orphans)
              (\<lambda>chunks. Inr (bindings @ concat chunks, s)))))"

fun strategies_tombstones :: "string \<Rightarrow> string \<Rightarrow> string \<Rightarrow> source_document option \<Rightarrow> string \<Rightarrow> string list \<Rightarrow>
    store \<Rightarrow> py_error + delta_change list \<times> store" where
  "strategies_tombstones reason model document_ref document file_path [] s = Inr ([], s)"
| "strategies_tombstones reason model document_ref document file_path (st # sts) s =
     try_bind (strategy_tombstones reason model document_ref document file_path st s) (\<lambda>(cs, s).
     try_bind (strategies_tombstones reason model document_ref document file_path sts s) (\<lambda>(ds, s).
       Inr (cs @ ds, s)))"

definition table_section :: "string \<Rightarrow> delta_change list \<Rightarrow> delta_section" where
  "table_section tbl changes = rows_section (sorted_changes (filter (\<lambda>c. dc_table c = tbl) changes))"

definition tombstone_manifest :: "timestamp \<Rightarrow> string \<Rightarrow> source_document option \<Rightarrow> delta_change list \<Rightarrow>
    py_error + delta_manifest" where
  "tombstone_manifest now document_ref document changes =
     (let source_time = (case document of Some d \<Rightarrow> sd_updated_at d | None \<Rightarrow> now);
          cursor = (case document of Some d \<Rightarrow> sd_ref d | None \<Rightarrow> document_ref);
          watermark = (case document of Some d \<Rightarrow> sd_content_fingerprint d | None \<Rightarrow> document_ref)
      in try_bind (validate_selection \<lparr>dl_scope = ChangedRows, dl_source_name = Some ''filesystem'',
           dl_table_name = Some ''source_documents'', dl_database_name = None,
           dl_changed_at = Some source_time, dl_cursor = Some cursor\<rparr>) (\<lambda>selection.
         try_bind (validate_candidate \<lparr>kc_cursor = cursor, kc_watermark = Some watermark,
           kc_source_time = Some source_time, kc_advanced = False\<rparr>) (\<lambda>candidate.
         try_bind (deferred_section DIRECT_GRAPH_DEFERRED) (\<lambda>graph.
         try_bind (deferred_section DIRECT_FEEDBACK_DEFERRED) (\<lambda>feedback.
           build_manifest selection candidate (no_sections\<lparr>
             dm_documents := table_section ''source_documents'' changes, dm_chunks := table_section ''chunks'' changes,
             dm_chunk_file_bindings := table_section ''chunk_file_bindings'' changes,
             dm_provenance := table_section ''provenance'' changes,
             dm_resource_bindings := table_section ''bindings'' changes,
             dm_embeddings := table_section ''embeddings'' changes, dm_graph := graph, dm_feedback := feedback\<rparr>))))))"

definition filesystem_tombstones :: "environment \<Rightarrow> string \<Rightarrow> string \<Rightarrow> string \<Rightarrow> bool \<Rightarrow> store \<Rightarrow>
    py_error + (source_document option \<times> delta_change list) \<times> store" where
  "filesystem_tombstones env model file_path reason include_chunks s =
     (let document_ref = meta_entity_id env file_path in
      try_bind (get_source_document (ev_resolve env) s ''filesystem'' document_ref) (\<lambda>document.
      try_bind (get_resource_binding s ''filesystem'' document_ref) (\<lambda>binding.
      try_bind (try_list (\<lambda>d. reason_tombstone reason (sd_ref d) ''source_documents'' (document_previous_row d))
        (case document of None \<Rightarrow> [] | Some d \<Rightarrow> [d])) (\<lambda>docs.
      try_bind (try_list (\<lambda>(ref, row). reason_tombstone reason ref ''bindings'' row)
        (case binding_previous_row binding document of None \<Rightarrow> [] | Some r \<Rightarrow> [r])) (\<lambda>binds.
      try_bind (if include_chunks
          then strategies_tombstones reason model document_ref document file_path (sort (present_strategies s)) s
          else Inr ([], s)) (\<lambda>(chunks, s).
        Inr ((document, docs @ binds @ chunks), s)))))))"

definition filesystem_tombstone_manifest :: "environment \<Rightarrow> timestamp \<Rightarrow> string \<Rightarrow> string \<Rightarrow> string \<Rightarrow> bool \<Rightarrow> store \<Rightarrow>
    py_error + delta_manifest option \<times> store" where
  "filesystem_tombstone_manifest env now model file_path reason include_chunks s =
     try_bind (filesystem_tombstones env model file_path reason include_chunks s) (\<lambda>((document, changes), s).
       if changes = [] then Inr (None, s)
       else try_bind (tombstone_manifest now (meta_entity_id env file_path) document changes) (\<lambda>m. Inr (Some m, s)))"

end
