(* ===== verification/Delta_Direct_Laws.thy ===== *)
theory Delta_Direct_Laws
  imports Delta_Contracts Delta_Direct
begin

text \<open>
  The properties of the direct writes of the ingestion: the shape of a file's manifest, and what the
  one sync state of the pipeline does to the manifests after the first.
\<close>

section \<open>Completed phases\<close>

text \<open>A run that succeeds adds every non-empty phase it had not completed, whatever the writer.\<close>

lemma run_phases_completed:
  "run_phases now tot bsz sw k C ps counts skipped (st, w) = ((st', w'), Inr r) \<Longrightarrow>
     ss_completed_phases st' = ss_completed_phases st @ filter (\<lambda>n. n \<notin> set C) (phase_names ps)"
proof (induction ps arbitrary: st w counts skipped)
  case (Cons p ps)
  let ?st = "emit_progress now tot ''running'' (Some (sp_name p)) (int (phase_units p)) (ss_completed_units st) st"
  show ?case
  proof (cases "sp_name p \<in> set C \<or> phase_units p = 0")
    case True
    then have "run_phases now tot bsz sw k C ps counts (skipped @ [sp_name p])
        (emit_progress now tot ''skipped'' (Some (sp_name p)) (int (phase_units p)) (ss_completed_units ?st) ?st, w)
      = ((st', w'), Inr r)" using Cons.prems by (simp add: Let_def)
    from Cons.IH [OF this] True show ?thesis by auto
  next
    case False
    obtain st1 w1 q where wp: "write_phase now tot bsz sw k p (?st, w) = ((st1, w1), q)" by (metis prod.collapse)
    with Cons.prems False obtain n where q: "q = Inr n" by (cases q) (auto simp: Let_def)
    have "run_phases now tot bsz sw k C ps (dict_set (sp_name p) n counts) skipped (complete_phase now tot p st1, w1)
      = ((st', w'), Inr r)" using Cons.prems False wp q by (simp add: Let_def)
    from Cons.IH [OF this] write_phase_state [OF wp] False show ?thesis by simp
  qed
qed simp

lemma fresh_run_completed:
  assumes "run_surreal_delta_sync now batch_size sw m (new_sync_state, w) = ((st, w'), Inr res)"
  shows "ss_completed_phases st = phase_names (manifest_units m)"
proof -
  have pos: "\<not> batch_size \<le> 0" using assms by (auto simp: run_surreal_delta_sync_def)
  let ?st = "emit_progress now (total_units m) ''running'' None 0 (ss_completed_units new_sync_state) new_sync_state"
  obtain st1 w1 q where run: "run_phases now (total_units m) (nat batch_size) sw (dm_checkpoint_candidate m) []
      (manifest_units m) [] [] (?st, w) = ((st1, w1), q)" by (metis prod.collapse)
  with assms pos obtain r where "q = Inr r"
    by (cases q) (auto simp: run_surreal_delta_sync_def Let_def new_sync_state_def)
  with run_phases_completed [of now "total_units m" "nat batch_size" sw "dm_checkpoint_candidate m" "[]"] run
  have "ss_completed_phases st1 = phase_names (manifest_units m)" by (fastforce simp: new_sync_state_def)
  moreover have "ss_completed_phases st = ss_completed_phases st1"
    using assms pos run \<open>q = Inr r\<close>
    by (auto simp: run_surreal_delta_sync_def Let_def new_sync_state_def split: prod.splits)
  ultimately show ?thesis by simp
qed

section \<open>The manifest of a file\<close>

definition is_upsert :: "delta_change \<Rightarrow> bool" where
  "is_upsert c \<longleftrightarrow> dc_change_type c = Upsert"

lemma upsert_change_Inr: "upsert_change ref tbl row = Inr c \<Longrightarrow> is_upsert c \<and> dc_table c = tbl \<and> dc_ref c = ref \<and> dc_row c = row"
  by (auto simp: upsert_change_def validate_change_def is_upsert_def split: if_splits)

lemma direct_upserts:
  "direct_document_change d = Inr x \<Longrightarrow> is_upsert x"
  "direct_chunk_change d c strategy = Inr x \<Longrightarrow> is_upsert x"
  "direct_provenance_change d c strategy = Inr x \<Longrightarrow> is_upsert x"
  "file_binding_change c p = Inr x \<Longrightarrow> is_upsert x"
  "direct_binding_change d = Inr x \<Longrightarrow> is_upsert x"
  "direct_embedding_change dn c e strategy model hashes = Inr x \<Longrightarrow> is_upsert x"
  using upsert_change_Inr
  by (fastforce simp: direct_document_change_def direct_chunk_change_def direct_provenance_change_def
      file_binding_change_def direct_binding_change_def direct_embedding_change_def Let_def split: option.splits)+

lemma try_list_Inr: "try_list f xs = Inr ys \<Longrightarrow> list_all2 (\<lambda>x y. f x = Inr y) xs ys"
  by (induction xs arbitrary: ys) (auto simp: try_bind_Inr_iff)

lemma file_binding_changes_upserts: "file_binding_changes d c = Inr cs \<Longrightarrow> list_all is_upsert cs \<and> length cs = length (file_binding_paths d c)"
  using direct_upserts(4) try_list_Inr
  by (fastforce simp: file_binding_changes_def list_all_iff list_all2_conv_all_nth in_set_conv_nth)

lemma direct_chunk_changes_upserts:
  assumes "direct_chunk_changes dn w ces acc = Inr g"
    "list_all is_upsert (dg_chunks acc @ dg_bindings acc @ dg_provenance acc @ dg_embeddings acc)"
  shows "list_all is_upsert (dg_chunks g @ dg_bindings g @ dg_provenance g @ dg_embeddings g)
    \<and> length (dg_chunks g) = length (dg_chunks acc) + length ces
    \<and> length (dg_provenance g) = length (dg_provenance acc) + length ces
    \<and> length (dg_embeddings g) = length (dg_embeddings acc) + length ces
    \<and> (ces \<noteq> [] \<and> sd_namespace (fw_source_document w) = ''filesystem'' \<longrightarrow> dg_bindings g \<noteq> [])
    \<and> (dg_bindings acc \<noteq> [] \<longrightarrow> dg_bindings g \<noteq> [])"
  using assms
proof (induction ces arbitrary: acc)
  case (Cons ce ces)
  obtain c e where ce: "ce = (c, e)" by (cases ce)
  from Cons.prems(1) obtain chunk bindings prov emb where
    d: "direct_chunk_change (fw_source_document w) c (fw_chunk_strategy w) = Inr chunk"
      "file_binding_changes (fw_source_document w) c = Inr bindings"
      "direct_provenance_change (fw_source_document w) c (fw_chunk_strategy w) = Inr prov"
      "direct_embedding_change dn c e (fw_chunk_strategy w) (fw_embedding_model w) (fw_text_hashes w) = Inr emb"
    and rest: "direct_chunk_changes dn w ces \<lparr>dg_chunks = dg_chunks acc @ [chunk], dg_bindings = dg_bindings acc @ bindings,
          dg_provenance = dg_provenance acc @ [prov], dg_embeddings = dg_embeddings acc @ [emb]\<rparr> = Inr g"
    by (auto simp: ce try_bind_Inr_iff)
  have "sd_namespace (fw_source_document w) = ''filesystem'' \<Longrightarrow> file_binding_paths (fw_source_document w) c \<noteq> []"
    by (simp add: file_binding_paths_def Let_def)
  with Cons.IH [OF rest] Cons.prems(2) direct_upserts(2) [OF d(1)] direct_upserts(3) [OF d(3)]
    direct_upserts(6) [OF d(4)] file_binding_changes_upserts [OF d(2)]
  show ?case by auto
qed simp

lemma direct_chunk_rows:
  assumes "direct_chunk_changes dn w ces acc = Inr g"
    "list_all2 (\<lambda>c x. dc_row x = direct_chunk_row (fw_source_document w) c (fw_chunk_strategy w)) cs (dg_chunks acc)"
  shows "list_all2 (\<lambda>c x. dc_row x = direct_chunk_row (fw_source_document w) c (fw_chunk_strategy w)) (cs @ map fst ces) (dg_chunks g)"
  using assms
proof (induction ces arbitrary: acc cs)
  case (Cons ce ces)
  obtain c e where ce: "ce = (c, e)" by (cases ce)
  from Cons.prems(1) obtain chunk acc1 where
    d: "direct_chunk_change (fw_source_document w) c (fw_chunk_strategy w) = Inr chunk"
    and rest: "direct_chunk_changes dn w ces acc1 = Inr g" and acc1: "dg_chunks acc1 = dg_chunks acc @ [chunk]"
    by (auto simp: ce try_bind_Inr_iff)
  have "dc_row chunk = direct_chunk_row (fw_source_document w) c (fw_chunk_strategy w)"
    using d upsert_change_Inr by (auto simp: direct_chunk_change_def)
  then have "list_all2 (\<lambda>c x. dc_row x = direct_chunk_row (fw_source_document w) c (fw_chunk_strategy w)) (cs @ [c]) (dg_chunks acc1)"
    using Cons.prems(2) by (simp add: acc1 list_all2_appendI)
  from Cons.IH [OF rest this] show ?case by (simp add: ce)
qed simp

definition file_phases :: "string list" where
  "file_phases = [''documents'', ''chunks'', ''chunk_file_bindings'', ''provenance'', ''resource_bindings'',
     ''embeddings'', ''checkpoint_candidate'']"

lemma upsert_section_units:
  "list_all is_upsert rows \<Longrightarrow> phase_units (section_phase (name, meth, rows_section rows)) = 
     (if name = ''checkpoint_candidate'' then 1 else length rows)"
proof -
  assume up: "list_all is_upsert rows"
  have "filter (\<lambda>c. dc_change_type c = Upsert) (sorted_changes rows) = sorted_changes rows"
    using up by (intro filter_True) (auto simp: list_all_iff is_upsert_def)
  then show ?thesis by (simp add: phase_units_def section_phase_def rows_section_def sorted_changes_def)
qed

text \<open>The sections of a file's manifest: upserts only, with rows for every chunk.\<close>

definition file_shape :: "direct_file_write \<Rightarrow> delta_manifest \<Rightarrow> delta_change \<Rightarrow> delta_change \<Rightarrow> direct_changes \<Rightarrow> bool" where
  "file_shape w m document binding g \<longleftrightarrow>
     list_all is_upsert ([document, binding] @ dg_chunks g @ dg_bindings g @ dg_provenance g @ dg_embeddings g)
     \<and> list_all2 (\<lambda>c x. dc_row x = direct_chunk_row (fw_source_document w) c (fw_chunk_strategy w)) (fw_chunks w) (dg_chunks g)
     \<and> length (dg_chunks g) = length (fw_chunks w) \<and> length (dg_provenance g) = length (fw_chunks w)
     \<and> length (dg_embeddings g) = length (fw_chunks w)
     \<and> (dg_bindings g \<noteq> [] \<or> fw_chunks w = [] \<or> sd_namespace (fw_source_document w) \<noteq> ''filesystem'')
     \<and> dm_documents m = rows_section [document] \<and> dm_chunks m = rows_section (dg_chunks g)
     \<and> dm_chunk_file_bindings m = rows_section (dg_bindings g) \<and> dm_provenance m = rows_section (dg_provenance g)
     \<and> dm_resource_bindings m = rows_section [binding] \<and> dm_embeddings m = rows_section (dg_embeddings g)
     \<and> dx_rows (dm_graph m) = [] \<and> dx_rows (dm_feedback m) = [] \<and> dm_source_units m = empty_section
     \<and> dm_fingerprints m = empty_section \<and> dm_vector_components m = empty_section"

lemma file_manifest_sections:
  assumes "file_manifest dn w = Inr m"
  shows "\<exists>document binding g. file_shape w m document binding g"
proof -
  let ?init = "\<lparr>dg_chunks = [], dg_bindings = [], dg_provenance = [], dg_embeddings = []\<rparr>"
  from assms obtain document g binding graph feedback where
    len: "length (fw_chunks w) = length (fw_embeddings w)"
    and doc: "direct_document_change (fw_source_document w) = Inr document"
    and ch: "direct_chunk_changes dn w (zip (fw_chunks w) (fw_embeddings w)) ?init = Inr g"
    and bind: "direct_binding_change (fw_source_document w) = Inr binding"
    and dfr: "deferred_section DIRECT_GRAPH_DEFERRED = Inr graph" "deferred_section DIRECT_FEEDBACK_DEFERRED = Inr feedback"
    and build: "build_manifest (document_selection (fw_source_document w)) (document_candidate (fw_source_document w))
        (no_sections\<lparr>dm_documents := rows_section [document], dm_chunks := rows_section (dg_chunks g),
            dm_chunk_file_bindings := rows_section (dg_bindings g), dm_provenance := rows_section (dg_provenance g),
            dm_resource_bindings := rows_section [binding], dm_embeddings := rows_section (dg_embeddings g),
            dm_graph := graph, dm_feedback := feedback,
            dm_created_at := Some (sd_updated_at (fw_source_document w))\<rparr>) = Inr m"
    by (auto simp: file_manifest_def build_direct_manifest_def Let_def try_bind_Inr_iff validate_selection_def
        validate_candidate_def split: if_splits)
  have m: "m = no_sections\<lparr>dm_documents := rows_section [document], dm_chunks := rows_section (dg_chunks g),
            dm_chunk_file_bindings := rows_section (dg_bindings g), dm_provenance := rows_section (dg_provenance g),
            dm_resource_bindings := rows_section [binding], dm_embeddings := rows_section (dg_embeddings g),
            dm_graph := graph, dm_feedback := feedback, dm_created_at := Some (sd_updated_at (fw_source_document w)),
            dm_schema_version := DELTA_MANIFEST_SCHEMA_VERSION,
            dm_source_selection := document_selection (fw_source_document w),
            dm_checkpoint_candidate := document_candidate (fw_source_document w)\<rparr>"
    using build by (auto simp: build_manifest_def validate_manifest_def split: if_splits option.splits)
  have deferred: "dx_rows graph = []" "dx_rows feedback = []"
    using dfr by (auto simp: deferred_section_def validate_section_def split: if_splits)
  have "length (zip (fw_chunks w) (fw_embeddings w)) = length (fw_chunks w)" using len by simp
  moreover have "list_all2 (\<lambda>c x. dc_row x = direct_chunk_row (fw_source_document w) c (fw_chunk_strategy w)) (fw_chunks w) (dg_chunks g)"
    using direct_chunk_rows [OF ch, of "[]"] len by simp
  ultimately have "file_shape w m document binding g"
    using direct_chunk_changes_upserts [OF ch] direct_upserts(1) [OF doc] direct_upserts(5) [OF bind]
    by (auto simp: file_shape_def m deferred no_sections_def simp del: length_zip)
  then show ?thesis by blast
qed

lemma no_tombstones: "list_all (\<lambda>x. list_all is_upsert (dx_rows (snd (snd x)))) (manifest_sections m) \<Longrightarrow> manifest_tombstones m = []"
proof -
  assume up: "list_all (\<lambda>x. list_all is_upsert (dx_rows (snd (snd x)))) (manifest_sections m)"
  have "concat (map (\<lambda>(name, w, sec). filter is_tombstone (dx_rows sec)) xs) = []"
    if "list_all (\<lambda>x. list_all is_upsert (dx_rows (snd (snd x)))) xs" for xs :: "(string \<times> string \<times> delta_section) list"
    using that by (induction xs) (auto simp: list_all_iff is_upsert_def filter_empty_conv)
  from this [OF up] show ?thesis unfolding manifest_tombstones_def by (simp only: sort_key_simps)
qed

lemma file_manifest_phases:
  assumes "file_manifest dn w = Inr m"
  shows "set (phase_names (manifest_units m)) \<subseteq> set file_phases"
    and "fw_chunks w \<noteq> [] \<Longrightarrow> sd_namespace (fw_source_document w) = ''filesystem'' \<Longrightarrow>
      phase_names (manifest_units m) = file_phases"
proof -
  obtain document binding and g :: direct_changes where "file_shape w m document binding g"
    using file_manifest_sections [OF assms] by blast
  note s = this [unfolded file_shape_def]
  have empty: "dg_chunks g = [] \<longleftrightarrow> fw_chunks w = []" "dg_provenance g = [] \<longleftrightarrow> fw_chunks w = []"
    "dg_embeddings g = [] \<longleftrightarrow> fw_chunks w = []" using s by (metis length_0_conv)+
  have none: "phase_units (section_phase (name, meth, sec)) = 0" if "dx_rows sec = []" "name \<noteq> ''checkpoint_candidate''" for name meth sec
    using that by (simp add: phase_units_def section_phase_def sorted_changes_def)
  have "manifest_tombstones m = []"
    by (rule no_tombstones) (use s in \<open>simp add: manifest_sections_def rows_section_def empty_section_def\<close>)
  then have names: "phase_names (manifest_units m) =
      [''documents''] @ (if fw_chunks w = [] then [] else [''chunks''])
      @ (if dg_bindings g = [] then [] else [''chunk_file_bindings''])
      @ (if fw_chunks w = [] then [] else [''provenance'']) @ [''resource_bindings'']
      @ (if fw_chunks w = [] then [] else [''embeddings'']) @ [''checkpoint_candidate'']"
    using s upsert_section_units none
    by (simp add: empty manifest_units_def manifest_sections_def empty_section_def phase_units_def [of "\<lparr>sp_name = n, sp_writer_method = mt, sp_rows = rs\<rparr>" for n mt rs])
  show "set (phase_names (manifest_units m)) \<subseteq> set file_phases"
    unfolding names file_phases_def by auto
  show "phase_names (manifest_units m) = file_phases"
    if "fw_chunks w \<noteq> []" "sd_namespace (fw_source_document w) = ''filesystem''"
    unfolding names file_phases_def using s that by auto
qed

section \<open>One sync state for every manifest\<close>

text \<open>
  C12: the sync state of the pipeline outlives its manifest.  After the manifest of one file with a chunk was
  written, writing the manifest of any further file through the same state does not touch the
  store, and reports success: every phase the second manifest has is already completed.
\<close>
theorem shared_state_drops_files:
  assumes "file_manifest dn w1 = Inr m1" "fw_chunks w1 \<noteq> []" "sd_namespace (fw_source_document w1) = ''filesystem''"
    "file_manifest dn w2 = Inr m2"
    "write_direct_manifest now1 (Some sw) m1 (new_sync_state, w) = ((st, w'), Inr ())"
  shows "\<exists>st'. write_direct_manifest now2 (Some sw) m2 (st, w') = ((st', w'), Inr ())"
proof -
  obtain res where "run_surreal_delta_sync now1 1000 sw m1 (new_sync_state, w) = ((st, w'), Inr res)"
    using assms(5) by (auto simp: write_direct_manifest_def split: prod.splits sum.splits)
  then have "ss_completed_phases st = file_phases"
    using fresh_run_completed file_manifest_phases(2) [OF assms(1-3)] by metis
  with file_manifest_phases(1) [OF assms(4)]
  have "set (phase_names (manifest_units m2)) \<subseteq> set (ss_completed_phases st)" by simp
  from run_completed [OF _ this, of 1000 now2 sw w'] show ?thesis
    by (auto simp: write_direct_manifest_def)
qed

definition demo_source :: "string \<Rightarrow> source_document" where
  "demo_source path =
     \<lparr>sd_namespace = ''filesystem'', sd_document_ref = path, sd_ref = ''filesystem:'' @ path, sd_title = ''T'',
      sd_source_uri = path, sd_media_type = ''text/markdown'', sd_parser_name = ''markdown'',
      sd_document_type = ''document'', sd_updated_at = 7, sd_content_fingerprint = ''f'',
      sd_metadata_fingerprint = ''g'', sd_metadata_json = JObj [], sd_file_path = Some path\<rparr>"

definition demo_file_write :: "string \<Rightarrow> string \<Rightarrow> direct_file_write" where
  "demo_file_write path chunk_id =
     \<lparr>fw_source_document = demo_source path,
      fw_chunks = [\<lparr>ch_chunk_id = chunk_id, ch_file_paths = [path], ch_heading_hierarchy = [], ch_level = 0,
        ch_text = ''x'', ch_chunk_index = 0, ch_kind = ''document'', ch_provenance = None\<rparr>],
      fw_embeddings = [[1, 2]], fw_text_hashes = [(chunk_id, ''h'')], fw_chunk_strategy = ''s'', fw_embedding_model = ''m''\<rparr>"

definition demo_file_manifest :: "string \<Rightarrow> string \<Rightarrow> delta_manifest" where
  "demo_file_manifest path chunk_id =
     (case file_manifest demo_env (demo_file_write path chunk_id) of Inr m \<Rightarrow> m | Inl e \<Rightarrow> no_sections)"

definition demo_written :: "(sync_state \<times> connection) \<times> (py_error + unit)" where
  "demo_written = write_direct_manifest 0 (Some (store_writer demo_env demo_insert)) (demo_file_manifest ''/a.md'' ''c1'')
     (new_sync_state, \<lparr>cn_db = [], cn_faults = []\<rparr>)"

lemma demo_file_manifests:
  "file_manifest demo_env (demo_file_write ''/a.md'' ''c1'') = Inr (demo_file_manifest ''/a.md'' ''c1'')"
  "file_manifest demo_env (demo_file_write ''/b.md'' ''c2'') = Inr (demo_file_manifest ''/b.md'' ''c2'')"
proof -
  have r: "\<not> isl (file_manifest demo_env (demo_file_write p c)) \<Longrightarrow>
      file_manifest demo_env (demo_file_write p c) = Inr (demo_file_manifest p c)" for p c
    by (cases "file_manifest demo_env (demo_file_write p c)") (simp_all add: demo_file_manifest_def)
  show "file_manifest demo_env (demo_file_write ''/a.md'' ''c1'') = Inr (demo_file_manifest ''/a.md'' ''c1'')"
    by (rule r) code_simp
  show "file_manifest demo_env (demo_file_write ''/b.md'' ''c2'') = Inr (demo_file_manifest ''/b.md'' ''c2'')"
    by (rule r) code_simp
qed

theorem shared_state_drops_files_witness:
  "dict_get (cn_db (snd (fst demo_written))) (''documents'', ''filesystem:/a.md'') \<noteq> None
   \<and> (\<exists>st'. write_direct_manifest 1 (Some (store_writer demo_env demo_insert)) (demo_file_manifest ''/b.md'' ''c2'')
        (fst demo_written) = ((st', snd (fst demo_written)), Inr ()))"
proof -
  have "\<not> isl (snd demo_written)" by code_simp
  then have run: "write_direct_manifest 0 (Some (store_writer demo_env demo_insert)) (demo_file_manifest ''/a.md'' ''c1'')
      (new_sync_state, \<lparr>cn_db = [], cn_faults = []\<rparr>) = ((fst (fst demo_written), snd (fst demo_written)), Inr ())"
    by (cases "snd demo_written") (simp_all add: demo_written_def prod_eq_iff)
  have "dict_get (cn_db (snd (fst demo_written))) (''documents'', ''filesystem:/a.md'') \<noteq> None" by code_simp
  with shared_state_drops_files [OF demo_file_manifests(1) _ _ demo_file_manifests(2) run, of 1] show ?thesis
    by (simp add: demo_file_write_def demo_source_def)
qed

end
