(* ===== verification/Trickle.thy ===== *)
theory Trickle
  imports Indexing Extraction_Cache
begin

text \<open>
  The background indexer (\<open>ingestion/trickle.py\<close>): the debounced queue of file events, the
  startup checks, the backlog pass over everything that changed, and the watch loop with its
  deferred maintenance and its polling fallback.  Exceptions are caught and logged exactly where
  the code does so.  The disk, the clock and the shutdown event are read anew for every file, so
  they are functions of the number of files processed; a watched path is in normal form.
  Logging and the rendering of durations are left out.
\<close>

section \<open>State\<close>

datatype trickle_status = IDLE | BACKLOG | WATCHING | STOPPING

record trickle_state =
  ts_status :: trickle_status
  ts_indexed_count :: nat
  ts_total_files :: nat
  ts_current_file :: "string option"
  ts_files_per_hour :: rat
  ts_chunks_per_hour :: rat
  ts_total_chunks_done :: nat
  ts_eta_minutes :: "rat option"
  ts_last_indexed_at :: "timestamp option"
  ts_start_time :: rat

text \<open>The indexer with what it shares: the pipeline and the extraction cache, None without NER.\<close>

record trickle =
  tk_state :: trickle_state
  tk_file_queue :: "string list"
  tk_needs_vacuum :: bool
  tk_indexer :: indexer
  tk_extraction_cache :: "extraction_cache option"

record trickle_env =
  te_indexing :: indexing_env
  te_tree :: "string \<Rightarrow> (string \<times> entry) list option"
  te_paths :: "string list"
  te_exclude :: "string list"
  te_cache_key :: "string \<Rightarrow> string"

definition on_ts :: "(trickle_state \<Rightarrow> trickle_state) \<Rightarrow> trickle \<Rightarrow> trickle" where
  "on_ts f tk = tk\<lparr>tk_state := f (tk_state tk)\<rparr>"

definition set_trickle_pipeline :: "pipeline \<Rightarrow> trickle \<Rightarrow> trickle" where
  "set_trickle_pipeline p tk = tk\<lparr>tk_indexer := (tk_indexer tk)\<lparr>ix_pipeline := p\<rparr>\<rparr>"

definition discover :: "trickle_env \<Rightarrow> py_error + file_info list" where
  "discover te =
     discover_files_multi (ie_resolve (te_indexing te)) (ie_yaml (te_indexing te)) (ie_disk (te_indexing te))
       (te_tree te) (te_paths te) (te_exclude te)"

section \<open>The event handler\<close>

record event_handler =
  eh_exclude :: "string list"
  eh_debounce :: "(string, rat) dict"
  eh_queue :: "string list"

text \<open>\<open>s.replace(old, "")\<close>: \<open>skip\<close> characters of a match are still to be dropped.\<close>

fun remove_from :: "string \<Rightarrow> nat \<Rightarrow> string \<Rightarrow> string" where
  "remove_from old skip [] = []"
| "remove_from old (Suc skip) (c # cs) = remove_from old skip cs"
| "remove_from old 0 (c # cs) =
     (if old \<noteq> [] \<and> take (length old) (c # cs) = old then remove_from old (length old - 1) cs
      else c # remove_from old 0 cs)"

definition remove_all :: "string \<Rightarrow> string \<Rightarrow> string" where
  "remove_all old s = remove_from old 0 s"

definition event_excluded :: "string list \<Rightarrow> string \<Rightarrow> bool" where
  "event_excluded exclude path =
     (\<exists>pattern \<in> set exclude. remove_all ''*/'' (remove_all ''**/'' pattern) \<in> set (path_parts path))"

definition debounced :: "rat \<Rightarrow> string \<Rightarrow> event_handler \<Rightarrow> bool" where
  "debounced now path h =
     (case dict_get (eh_debounce h) path of None \<Rightarrow> False | Some t \<Rightarrow> now - t < 2)"

definition enqueue_event :: "rat \<Rightarrow> string \<Rightarrow> event_handler \<Rightarrow> event_handler" where
  "enqueue_event now path h =
     (if debounced now path h then h
      else let h = h\<lparr>eh_debounce := dict_set path now (eh_debounce h)\<rparr>
           in if event_excluded (eh_exclude h) path then h else h\<lparr>eh_queue := eh_queue h @ [path]\<rparr>)"

definition is_markdown_path :: "string \<Rightarrow> bool" where
  "is_markdown_path path \<longleftrightarrow> py_lower (path_suffix path) = ''.md''"

datatype file_event = Created string | Changed string | Deleted string | Moved bool string string

text \<open>The clock is read for each of the two paths of a move.\<close>

definition on_moved :: "rat \<Rightarrow> rat \<Rightarrow> bool \<Rightarrow> string \<Rightarrow> string \<Rightarrow> event_handler \<Rightarrow> event_handler" where
  "on_moved now1 now2 is_directory src_path dest_path h =
     (if is_directory then h
      else let h = (if is_markdown_path src_path then enqueue_event now1 src_path h else h)
           in if is_markdown_path dest_path then enqueue_event now2 dest_path h else h)"

fun handle_event :: "rat \<Rightarrow> rat \<Rightarrow> file_event \<Rightarrow> event_handler \<Rightarrow> event_handler" where
  "handle_event now1 now2 (Created path) h = enqueue_event now1 path h"
| "handle_event now1 now2 (Changed path) h = enqueue_event now1 path h"
| "handle_event now1 now2 (Deleted path) h = enqueue_event now1 path h"
| "handle_event now1 now2 (Moved is_directory src_path dest_path) h =
     on_moved now1 now2 is_directory src_path dest_path h"

definition watched_directories :: "trickle_env \<Rightarrow> string list" where
  "watched_directories te =
     filter (\<lambda>spec. CHR ''*'' \<notin> set spec \<and> CHR ''?'' \<notin> set spec \<and> te_tree te spec \<noteq> None) (te_paths te)"

section \<open>Throughput\<close>

definition update_eta :: "rat \<Rightarrow> nat \<Rightarrow> nat \<Rightarrow> trickle_state \<Rightarrow> trickle_state" where
  "update_eta now files_done files_total ts =
     (let elapsed = now - ts_start_time ts
      in if elapsed > 0 \<and> files_done > 0 then
           let ts = ts\<lparr>ts_files_per_hour := of_nat files_done / (elapsed / 3600)\<rparr>;
               ts = (if ts_total_chunks_done ts > 0
                     then ts\<lparr>ts_chunks_per_hour := of_nat (ts_total_chunks_done ts) / (elapsed / 3600)\<rparr> else ts)
           in if 3 \<le> files_done \<and> 120 \<le> elapsed then
                if ts_files_per_hour ts > 0
                then ts\<lparr>ts_eta_minutes :=
                  Some ((of_nat files_total - of_nat files_done) / (ts_files_per_hour ts / 60))\<rparr>
                else ts
              else ts\<lparr>ts_eta_minutes := None\<rparr>
         else ts)"

section \<open>Startup checks\<close>

text \<open>The integrity check is only logged.  The sweep deactivates the files that are not
  discovered; a discovery that raises is logged and skips it.\<close>

definition startup_checks :: "trickle_env \<Rightarrow> timestamp \<Rightarrow> trickle \<Rightarrow> trickle" where
  "startup_checks te now tk =
     (case discover te of
        Inl e \<Rightarrow> tk
      | Inr all_files \<Rightarrow>
          (case purge_orphaned_files (pipeline_env (te_indexing te)) now (Some (map fi_path all_files))
              (ix_pipeline (tk_indexer tk)) of
             ((files_rm, chunks_rm, vecs_rm), p) \<Rightarrow>
               let tk = set_trickle_pipeline p tk
               in if files_rm \<noteq> 0 then tk\<lparr>tk_needs_vacuum := True\<rparr> else tk))"

section \<open>The backlog pass\<close>

record backlog_report =
  bp_purge_failed :: "string list"
  bp_succeeded :: nat
  bp_failed :: "string list"

text \<open>What is observed while file \<open>i\<close> of the backlog is processed.\<close>

record backlog_world =
  bw_indexing :: "nat \<Rightarrow> indexing_env"
  bw_now :: "nat \<Rightarrow> timestamp"
  bw_clock :: "nat \<Rightarrow> rat"
  bw_shutdown :: "nat \<Rightarrow> bool"

fun purge_deleted :: "environment \<Rightarrow> string list \<Rightarrow> string list \<Rightarrow> trickle \<Rightarrow> string list \<times> trickle" where
  "purge_deleted env [] failed tk = (failed, tk)"
| "purge_deleted env (path # rest) failed tk =
     (case purge_file env path (ix_pipeline (tk_indexer tk)) of
        (Inl e, p) \<Rightarrow> purge_deleted env rest (failed @ [path]) (set_trickle_pipeline p tk)
      | (Inr _, p) \<Rightarrow> purge_deleted env rest failed ((set_trickle_pipeline p tk)\<lparr>tk_needs_vacuum := True\<rparr>))"

definition process_one_file :: "indexing_env \<Rightarrow> timestamp \<Rightarrow> file_info \<Rightarrow> trickle \<Rightarrow> (py_error + nat) \<times> trickle" where
  "process_one_file ie now fi tk =
     (case index_file ie now (GivenInfo fi) (tk_indexer tk) of (r, x) \<Rightarrow> (r, tk\<lparr>tk_indexer := x\<rparr>))"

fun backlog_files :: "backlog_world \<Rightarrow> nat \<Rightarrow> nat \<Rightarrow> file_info list \<Rightarrow> backlog_report \<Rightarrow> trickle \<Rightarrow>
    backlog_report \<times> trickle" where
  "backlog_files bw file_count i [] rep tk = (rep, on_ts (\<lambda>ts. ts\<lparr>ts_current_file := None\<rparr>) tk)"
| "backlog_files bw file_count i (fi # rest) rep tk =
     (if bw_shutdown bw i then (rep, tk)
      else let tk = on_ts (\<lambda>ts. ts\<lparr>ts_current_file := Some (fi_path fi)\<rparr>) tk
      in case process_one_file (bw_indexing bw i) (bw_now bw i) fi tk of
           (Inl e, tk) \<Rightarrow> backlog_files bw file_count (i + 1) rest (rep\<lparr>bp_failed := bp_failed rep @ [fi_path fi]\<rparr>) tk
         | (Inr n_chunks, tk) \<Rightarrow>
             (let succeeded = bp_succeeded rep + 1
              in backlog_files bw file_count (i + 1) rest (rep\<lparr>bp_succeeded := succeeded\<rparr>)
                   (on_ts (\<lambda>ts. update_eta (bw_clock bw i) (i + 1) file_count
                      (ts\<lparr>ts_indexed_count := succeeded,
                         ts_total_chunks_done := ts_total_chunks_done ts + n_chunks,
                         ts_last_indexed_at := Some (bw_now bw i)\<rparr>)) tk)))"

definition reset_progress :: "rat \<Rightarrow> trickle_state \<Rightarrow> trickle_state" where
  "reset_progress now ts =
     ts\<lparr>ts_start_time := now, ts_indexed_count := 0, ts_total_chunks_done := 0, ts_files_per_hour := 0,
        ts_chunks_per_hour := 0, ts_eta_minutes := None\<rparr>"

definition empty_report :: backlog_report where
  "empty_report = \<lparr>bp_purge_failed = [], bp_succeeded = 0, bp_failed = []\<rparr>"

definition unindexed_files :: "file_diff \<Rightarrow> file_info list \<Rightarrow> file_info list" where
  "unindexed_files d all_files =
     sorted_desc fi_last_modified
       (filter (\<lambda>fi. fi_path fi \<in> set (fd_new d) \<union> set (fd_modified d)) all_files)"

definition set_chunk_fps :: "fingerprint_row list \<Rightarrow> trickle \<Rightarrow> trickle" where
  "set_chunk_fps t tk = set_trickle_pipeline ((ix_pipeline (tk_indexer tk))\<lparr>pp_chunk_fps := t\<rparr>) tk"

abbreviation tk_chunk_fps :: "trickle \<Rightarrow> fingerprint_row list" where
  "tk_chunk_fps tk \<equiv> pp_chunk_fps (ix_pipeline (tk_indexer tk))"

definition process_backlog :: "trickle_env \<Rightarrow> backlog_world \<Rightarrow> rat \<Rightarrow> trickle \<Rightarrow>
    (py_error + backlog_report) \<times> trickle" where
  "process_backlog te bw start tk =
     (let tk = on_ts (\<lambda>ts. ts\<lparr>ts_status := BACKLOG\<rparr>) tk;
          env = pipeline_env (te_indexing te)
      in case discover te of
           Inl e \<Rightarrow> (Inl e, tk)
         | Inr all_files \<Rightarrow>
             (case diff (ev_chunk_files env) (map fi_path all_files) (tk_chunk_fps tk) of
                (Inl (FileNotFound f), t) \<Rightarrow> (Inl (FileNotFoundError f), set_chunk_fps t tk)
              | (Inr d, t) \<Rightarrow>
                  (let unindexed = unindexed_files d all_files;
                       (purge_failed, tk) = purge_deleted env (fd_deleted d) [] (set_chunk_fps t tk);
                       tk = on_ts (\<lambda>ts. ts\<lparr>ts_total_files := length unindexed\<rparr>) tk;
                       rep = empty_report\<lparr>bp_purge_failed := purge_failed\<rparr>
                   in if unindexed = [] then (Inr rep, tk)
                      else (case backlog_files bw (length unindexed) 0 unindexed rep (on_ts (reset_progress start) tk) of
                         (rep, tk) \<Rightarrow> (Inr rep, tk)))))"

section \<open>Watch mode\<close>

text \<open>The \<open>FileInfo\<close> of a queued path: only what \<open>stat\<close> gives.\<close>

definition watched_info :: "string \<Rightarrow> disk_file \<Rightarrow> file_info" where
  "watched_info path f =
     \<lparr>fi_path = path, fi_title = path_stem path, fi_last_modified = from_timestamp (df_mtime f),
      fi_size_bytes = df_size f, fi_kind = doc_kind_value DOCUMENT, fi_frontmatter = []\<rparr>"

definition handle_queued :: "trickle_env \<Rightarrow> timestamp \<Rightarrow> string \<Rightarrow> trickle \<Rightarrow> trickle" where
  "handle_queued te now path tk =
     (case ie_disk (te_indexing te) path of
        None \<Rightarrow>
          if te_tree te path \<noteq> None then tk
          else (case purge_file (pipeline_env (te_indexing te)) path (ix_pipeline (tk_indexer tk)) of
             (Inl e, p) \<Rightarrow> set_trickle_pipeline p tk
           | (Inr _, p) \<Rightarrow> (set_trickle_pipeline p tk)\<lparr>tk_needs_vacuum := True\<rparr>)
      | Some f \<Rightarrow>
          on_ts (\<lambda>ts. ts\<lparr>ts_current_file := None\<rparr>)
            (case process_one_file (te_indexing te) now (watched_info path f)
                (on_ts (\<lambda>ts. ts\<lparr>ts_current_file := Some path\<rparr>) tk) of
               (Inl e, tk) \<Rightarrow> tk
             | (Inr n, tk) \<Rightarrow> on_ts (\<lambda>ts. ts\<lparr>ts_indexed_count := ts_indexed_count ts + 1,
                  ts_last_indexed_at := Some now\<rparr>) tk))"

text \<open>The queue is drained to its end; what arrives meanwhile is part of the list.\<close>

fun drain_queue :: "(nat \<Rightarrow> trickle_env) \<Rightarrow> (nat \<Rightarrow> timestamp) \<Rightarrow> nat \<Rightarrow> string list \<Rightarrow> trickle \<Rightarrow> trickle" where
  "drain_queue tes nows i [] tk = tk\<lparr>tk_file_queue := []\<rparr>"
| "drain_queue tes nows i (path # rest) tk =
     drain_queue tes nows (i + 1) rest (handle_queued (tes i) (nows i) path tk)"

text \<open>\<open>prune_extraction_cache\<close>: the texts of all chunks of the present strategies are live.\<close>

fun live_texts :: "store \<Rightarrow> string list \<Rightarrow> py_error + string list" where
  "live_texts s [] = Inr []"
| "live_texts s (strategy # rest) =
     try_bind (table_of (st_chunks s) (chunk_table strategy)) (\<lambda>t.
       try_bind (live_texts s rest) (\<lambda>texts. Inr (map cr_text t @ texts)))"

definition prune_extraction_cache :: "(string \<Rightarrow> string) \<Rightarrow> trickle \<Rightarrow> trickle" where
  "prune_extraction_cache key tk =
     (case tk_extraction_cache tk of
        None \<Rightarrow> tk
      | Some c \<Rightarrow>
          (case live_texts (ix_store (tk_indexer tk)) (present_strategies (ix_store (tk_indexer tk))) of
             Inl e \<Rightarrow> tk
           | Inr texts \<Rightarrow> if texts = [] then tk
               else tk\<lparr>tk_extraction_cache := Some (snd (prune_orphans key texts c))\<rparr>))"

text \<open>The graph store of this mode has no nodes to sweep.  A \<open>VACUUM\<close> changes no row; when it
  raises, the flag stays for the next idle moment.\<close>

definition deferred_maintenance :: "(string \<Rightarrow> string) \<Rightarrow> py_error option \<Rightarrow> trickle \<Rightarrow> trickle" where
  "deferred_maintenance key vacuum tk =
     (if \<not> tk_needs_vacuum tk then tk
      else let tk = prune_extraction_cache key tk
           in case vacuum of None \<Rightarrow> tk\<lparr>tk_needs_vacuum := False\<rparr> | Some e \<Rightarrow> tk)"

text \<open>What ends the wait of a round: the shutdown event, a first queued path with those that
  came with it, or the timeout.  The awaited path goes to the end of the queue.\<close>

datatype wake = WakeShutdown | WakeQueued string "string list" | WakeTimeout

record watch_round =
  wr_shutdown :: bool
  wr_arrived :: "string list"
  wr_env :: "nat \<Rightarrow> trickle_env"
  wr_now :: "nat \<Rightarrow> timestamp"
  wr_vacuum :: "py_error option"
  wr_wake :: wake
  wr_poll_env :: trickle_env
  wr_poll_world :: backlog_world
  wr_poll_start :: rat

definition serve_round :: "watch_round \<Rightarrow> trickle \<Rightarrow> trickle" where
  "serve_round wr tk =
     deferred_maintenance (te_cache_key (wr_poll_env wr)) (wr_vacuum wr)
       (drain_queue (wr_env wr) (wr_now wr) 0 (tk_file_queue tk @ wr_arrived wr) tk)"

fun watch_rounds :: "watch_round list \<Rightarrow> trickle \<Rightarrow> trickle" where
  "watch_rounds [] tk = tk"
| "watch_rounds (wr # rest) tk =
     (if wr_shutdown wr then tk
      else let tk = serve_round wr tk
           in case wr_wake wr of
                WakeShutdown \<Rightarrow> tk
              | WakeQueued path others \<Rightarrow> watch_rounds rest (tk\<lparr>tk_file_queue := others @ [path]\<rparr>)
              | WakeTimeout \<Rightarrow> watch_rounds rest
                  (snd (process_backlog (wr_poll_env wr) (wr_poll_world wr) (wr_poll_start wr) tk)))"

definition watch_mode :: "watch_round list \<Rightarrow> trickle \<Rightarrow> trickle" where
  "watch_mode rounds tk = watch_rounds rounds (on_ts (\<lambda>ts. ts\<lparr>ts_status := WATCHING\<rparr>) tk)"

section \<open>The main loop\<close>

record trickle_run =
  tr_lock_held :: bool
  tr_start_env :: trickle_env
  tr_now :: timestamp
  tr_clock :: rat
  tr_shutdown_checked :: bool
  tr_backlog_env :: trickle_env
  tr_backlog :: backlog_world
  tr_backlog_start :: rat
  tr_shutdown_backlog :: bool
  tr_rounds :: "watch_round list"

text \<open>A backlog pass that raises here ends the loop.\<close>

definition run_index_loop :: "trickle_run \<Rightarrow> trickle \<Rightarrow> (py_error + unit) \<times> trickle" where
  "run_index_loop tr tk =
     (let tk = startup_checks (tr_start_env tr) (tr_now tr) tk
      in if tr_shutdown_checked tr then (Inr (), tk)
         else case process_backlog (tr_backlog_env tr) (tr_backlog tr) (tr_backlog_start tr) tk of
           (Inl e, tk) \<Rightarrow> (Inl e, tk)
         | (Inr _, tk) \<Rightarrow>
             if tr_shutdown_backlog tr then (Inr (), tk) else (Inr (), watch_mode (tr_rounds tr) tk))"

definition run_locked :: "trickle_run \<Rightarrow> trickle \<Rightarrow> trickle" where
  "run_locked tr tk =
     (let tk = on_ts (\<lambda>ts. ts\<lparr>ts_start_time := tr_clock tr, ts_indexed_count := 0, ts_total_chunks_done := 0\<rparr>) tk
      in on_ts (\<lambda>ts. ts\<lparr>ts_status := STOPPING\<rparr>) (snd (run_index_loop tr tk)))"

datatype trickle_exit = LockHeld | Idle | Stopped

definition run_trickle :: "trickle_run \<Rightarrow> trickle \<Rightarrow> trickle_exit \<times> trickle" where
  "run_trickle tr tk =
     (if te_paths (tr_start_env tr) = [] then (Idle, on_ts (\<lambda>ts. ts\<lparr>ts_status := IDLE\<rparr>) tk)
      else if tr_lock_held tr then (LockHeld, tk)
      else (Stopped, run_locked tr tk))"

end
