(* ===== verification/Trickle_Laws.thy ===== *)
theory Trickle_Laws
  imports Trickle Indexing_Laws
begin

text \<open>
  What the background indexer guarantees: a clean backlog pass leaves nothing to do, the tables
  stay consistent through every run, and what an edit seen by the watcher does to a file.
\<close>

section \<open>The fingerprint of one file\<close>

text \<open>The table changed at one path at most.\<close>

definition only_row :: "string \<Rightarrow> fingerprint_row list \<Rightarrow> fingerprint_row list \<Rightarrow> bool" where
  "only_row p t t' \<longleftrightarrow>
     (\<forall>q. q \<noteq> p \<longrightarrow> fetch_key fp_file_path t' q = fetch_key fp_file_path t q)
     \<and> (pk_ok fp_file_path t \<longrightarrow> pk_ok fp_file_path t')"

named_theorems row_intros

lemma only_row_refl [row_intros]: "only_row p t t"
  by (simp add: only_row_def)

lemma only_row_trans: "only_row p t t1 \<Longrightarrow> only_row p t1 t2 \<Longrightarrow> only_row p t t2"
  by (simp add: only_row_def)

lemma only_row_save [row_intros]: "only_row p t (save_file_fingerprint now fs p t)"
  by (auto simp: only_row_def save_file_fingerprint_def save_fingerprint_def sql_simps split: option.split)

lemma only_row_touch [row_intros]: "only_row p t (touch_fingerprint p st t)"
proof -
  have "map_option (\<lambda>r. if fp_file_path r = p then r\<lparr>fp_mtime := fs_mtime st, fp_size_bytes := fs_size st\<rparr> else r)
      (fetch_key fp_file_path t q) = fetch_key fp_file_path t q" if "q \<noteq> p" for q
    using that by (cases "fetch_key fp_file_path t q") (auto dest: fetch_key_key)
  moreover have "map fp_file_path (touch_fingerprint p st t) = map fp_file_path t"
    by (simp add: touch_as_map)
  ultimately show ?thesis by (simp add: only_row_def fetch_touch pk_ok_def)
qed

lemma only_row_fingerprinted:
  "only_row p t t' \<Longrightarrow> q \<noteq> p \<Longrightarrow> fingerprinted fs q t' = fingerprinted fs q t"
  by (simp add: only_row_def fingerprinted_def)

lemma only_row_keys:
  "only_row p t t' \<Longrightarrow> fp_file_path ` set t' \<subseteq> insert p (fp_file_path ` set t)"
proof
  fix q assume "only_row p t t'" "q \<in> fp_file_path ` set t'"
  then have "q = p \<or> fetch_key fp_file_path t q \<noteq> None"
    using fetch_key_None_iff [of fp_file_path t' q] unfolding only_row_def by metis
  then show "q \<in> insert p (fp_file_path ` set t)"
    by (metis fetch_key_None_iff insertCI insertI1)
qed

lemma fingerprinted_touch:
  "class_of fs t p = Unchanged \<Longrightarrow> fs p = Some st \<Longrightarrow> fingerprinted fs p (touch_fingerprint p st t)"
  by (auto simp: class_of_def fingerprinted_def fetch_touch dest: fetch_key_key split: option.splits)

section \<open>Indexing one file\<close>

abbreviation chunk_rows :: "indexer \<Rightarrow> fingerprint_row list" where
  "chunk_rows x \<equiv> pp_chunk_fps (ix_pipeline x)"

lemma rebind_row:
  assumes "rebind_retained_filesystem_document env now d p = (r, p')" and "sd_file_path d = Some f"
  shows "only_row f (pp_chunk_fps p) (pp_chunk_fps p')"
  using assms
  by (auto simp: rebind_retained_filesystem_document_def Let_def source_document_to_file_info_def
      save_meta_fingerprint_def save_chunk_fingerprint_def intro: row_intros
      split: if_splits sum.splits option.splits list.splits prod.splits)

lemma embed_rows:
  assumes "index_file_embed ie now fi chunks body meta x = (r, x')"
  shows "chunk_rows x' = chunk_rows x"
proof -
  have "chunk_rows x' = chunk_rows x" if "embed_loaded ie now fi body cs x = (r, x')" for cs
    using that
    by (auto simp: embed_loaded_def write_vectors_def store_meta_component_def Let_def save_meta_fingerprint_def
        split: sum.splits prod.splits if_splits
        dest!: text_vectors_pipeline embed_meta_pipeline store_components_pipeline)
  with assms show ?thesis by (auto simp: index_file_embed_def split: if_splits sum.splits)
qed

lemma meta_changed_rows: "meta_changed ie path x = (r, x') \<Longrightarrow> chunk_rows x' = chunk_rows x"
  by (auto simp: meta_changed_def split: sum.splits prod.splits file_error.splits)

lemma index_metadata_rows: "index_metadata ie now fi x = (r, x') \<Longrightarrow> chunk_rows x' = chunk_rows x"
  by (auto simp: index_metadata_def split: sum.splits prod.splits bool.splits
      dest!: meta_changed_rows embed_rows)

lemma rechunk_row:
  assumes "rechunk_file ie now fi d x = (r, x')"
  shows "only_row (fi_path fi) (chunk_rows x) (chunk_rows x')"
  using assms
  by (auto simp: rechunk_file_def Let_def fingerprint_chunks_def save_chunk_fingerprint_def intro: row_intros
      split: sum.splits prod.splits if_splits)

lemma index_body_row:
  assumes "index_body ie now fi d x = (r, x')"
  shows "only_row (fi_path fi) (chunk_rows x) (chunk_rows x')"
  using assms
  by (auto simp: index_body_def split: sum.splits prod.splits if_splits dest: rechunk_row embed_rows
      dest!: embed_rows)

lemma chunk_changed_row:
  assumes "chunk_changed ie path x = (r, x')"
  shows "only_row path (chunk_rows x) (chunk_rows x')"
    and "r = Inr False \<Longrightarrow> ev_chunk_files (pipeline_env ie) path \<noteq> None \<Longrightarrow>
      fingerprinted (ev_chunk_files (pipeline_env ie)) path (chunk_rows x')"
  using assms
  by (auto simp: chunk_changed_result intro: row_intros fingerprinted_touch
      split: file_class.splits option.splits if_splits)

text \<open>A run changes the file's own fingerprint row only, and after a run that returns it is current.\<close>

lemma index_file_row:
  assumes "index_file ie now (GivenInfo fi) x = (r, x')"
  shows "only_row (fi_path fi) (chunk_rows x) (chunk_rows x')"
    and "r = Inr n \<Longrightarrow> fingerprinted (ev_chunk_files (pipeline_env ie)) (fi_path fi) (chunk_rows x')"
proof -
  let ?fs = "ev_chunk_files (pipeline_env ie)"
  have "only_row (fi_path fi) (chunk_rows x) (chunk_rows x')
    \<and> (\<forall>n. r = Inr n \<longrightarrow> fingerprinted ?fs (fi_path fi) (chunk_rows x'))"
  proof (cases "source_document_for_file_info ie fi")
    case (Inl e)
    with assms show ?thesis by (auto simp: index_file_def file_info_and_source_document_def only_row_refl)
  next
    case (Inr d)
    note doc = document_facts [OF Inr]
    have exists: "?fs (fi_path fi) \<noteq> None" using doc(6) by (simp add: pipeline_env_def tracked_files_def)
    obtain r1 p where reb: "rebind_retained_filesystem_document (pipeline_env ie) now d (ix_pipeline x) = (r1, p)" by fastforce
    have row1: "only_row (fi_path fi) (chunk_rows x) (pp_chunk_fps p)" by (rule rebind_row [OF reb doc(4)])
    obtain q x1 where chg: "chunk_changed ie (fi_path fi) (x\<lparr>ix_pipeline := p\<rparr>) = (q, x1)" by fastforce
    have row2: "only_row (fi_path fi) (pp_chunk_fps p) (chunk_rows x1)"
      using chunk_changed_row(1) [OF chg] by simp
    have run: "index_file ie now (GivenInfo fi) x = (case r1 of Inl e \<Rightarrow> (Inl e, x\<lparr>ix_pipeline := p\<rparr>)
        | Inr _ \<Rightarrow> (case q of Inl e \<Rightarrow> (Inl e, x1)
          | Inr changed \<Rightarrow> if changed then index_body ie now fi d x1 else index_metadata ie now fi x1))"
      by (simp add: index_file_def file_info_and_source_document_def Inr reb chg split: sum.split bool.split)
    have body: "fingerprinted ?fs (fi_path fi) (chunk_rows x')" if ran: "index_body ie now fi d x1 = (Inr n, x')" for n
    proof -
      obtain cs y where y: "rechunk_file ie now fi d x1 = (Inr cs, y)"
        using ran by (cases "rechunk_file ie now fi d x1") (auto simp: index_body_def split: sum.splits)
      have "chunk_rows x' = chunk_rows y"
        using ran y by (auto simp: index_body_def split: sum.splits prod.splits if_splits dest: embed_rows)
      with rechunk_fingerprinted [OF y doc(6)] show ?thesis by simp
    qed
    show ?thesis
      using assms run row1 only_row_trans [OF row1 row2] body chunk_changed_row(2) [OF chg _ exists]
        index_body_row [of ie now fi d x1 r x'] index_metadata_rows [of ie now fi x1 r x']
        only_row_trans [OF only_row_trans [OF row1 row2]]
      by (auto split: sum.splits if_splits)
  qed
  then show "only_row (fi_path fi) (chunk_rows x) (chunk_rows x')"
    "r = Inr n \<Longrightarrow> fingerprinted ?fs (fi_path fi) (chunk_rows x')" by simp_all
qed

section \<open>A clean backlog pass\<close>

lemma trickle_fields [simp]:
  "tk_indexer (on_ts f tk) = tk_indexer tk"
  "tk_indexer (set_trickle_pipeline p tk) = (tk_indexer tk)\<lparr>ix_pipeline := p\<rparr>"
  "tk_extraction_cache (on_ts f tk) = tk_extraction_cache tk"
  "tk_chunk_fps (set_chunk_fps t tk) = t"
  by (simp_all add: on_ts_def set_trickle_pipeline_def set_chunk_fps_def)

lemma on_ts_on_ts [simp]: "on_ts f (on_ts g tk) = on_ts (\<lambda>ts. f (g ts)) tk"
  by (simp add: on_ts_def)

lemma diff_exists:
  "fst (diff_files fs stored paths result t) = Inr d \<Longrightarrow>
     \<forall>p \<in> set paths. p \<in> fp_file_path ` set stored \<longrightarrow> fs p \<noteq> None"
proof (induction paths arbitrary: result t)
  case Nil
  then show ?case by simp
next
  case (Cons p paths)
  show ?case
  proof (cases "fetch_key fp_file_path stored p")
    case None
    then have "p \<notin> fp_file_path ` set stored" by (simp add: fetch_key_None_iff)
    with None Cons show ?thesis by simp
  next
    case (Some row)
    with Cons.prems obtain st where st: "fs p = Some st" by (cases "fs p") auto
    from Cons.prems Some st obtain result' t' where "fst (diff_files fs stored paths result' t') = Inr d"
      by (auto split: if_splits)
    from Cons.IH [OF this] st show ?thesis by simp
  qed
qed

lemma diff_result:
  assumes "diff fs discovered t = (Inr d, t')" and "pk_ok fp_file_path t"
  shows "d = report fs discovered t" "t' = map (refresh fs discovered) t" "tracked_exist fs discovered t"
proof -
  obtain r where "fst (diff_files fs t discovered empty_diff t) = Inr r"
    using assms(1) by (auto simp: diff_def split: prod.splits sum.splits)
  from diff_exists [OF this] show te: "tracked_exist fs discovered t" by (simp add: tracked_exist_def)
  from diff_report [OF te] diff_table [OF te assms(2)] assms(1)
  show "d = report fs discovered t" "t' = map (refresh fs discovered) t" by auto
qed

lemma refresh_fingerprinted:
  assumes "pk_ok fp_file_path t" and "tracked_exist fs ds t" and "p \<in> set ds" and "class_of fs t p = Unchanged"
  shows "fingerprinted fs p (map (refresh fs ds) t)"
proof -
  obtain row where row: "fetch_key fp_file_path t p = Some row"
    using assms(4) by (auto simp: class_of_def split: option.splits)
  then have p: "fp_file_path row = p" by (rule fetch_key_key)
  obtain st where st: "fs p = Some st" using assms(4) row by (auto simp: class_of_def split: option.splits)
  show ?thesis
    using assms(3,4) row p st
    by (auto simp: fingerprinted_def fetch_refresh class_of_def refresh_def split: if_splits)
qed

text \<open>A table in which every discovered file is current, and which tracks nothing else.\<close>

definition up_to_date :: "filesystem \<Rightarrow> string list \<Rightarrow> fingerprint_row list \<Rightarrow> bool" where
  "up_to_date fs ds t \<longleftrightarrow>
     pk_ok fp_file_path t \<and> list_all (\<lambda>p. fingerprinted fs p t) ds \<and> fp_file_path ` set t \<subseteq> set ds"

lemma diff_up_to_date:
  assumes "up_to_date fs ds t"
  shows "diff fs ds t = (Inr \<lparr>fd_new = [], fd_modified = [], fd_deleted = [], fd_unchanged = ds\<rparr>, t)"
proof -
  have fing: "fingerprinted fs p t" if "p \<in> set ds" for p
    using assms that by (auto simp: up_to_date_def list_all_iff)
  then have cls: "class_of fs t p = Unchanged" if "p \<in> set ds" for p
    using that by (simp add: fingerprinted_unchanged)
  have te: "tracked_exist fs ds t"
    using fing by (fastforce simp: tracked_exist_def fingerprinted_def split: option.splits)
  have "refresh fs ds r = r" if r: "r \<in> set t" for r
  proof -
    have "fp_file_path r \<in> set ds" using assms r by (auto simp: up_to_date_def)
    from fing [OF this] fetch_key_member [of fp_file_path t r] r assms show ?thesis
      by (auto simp: up_to_date_def fingerprinted_def refresh_def split: option.splits)
  qed
  then have same: "map (refresh fs ds) t = t" by (simp add: map_idI)
  have "report fs ds t = \<lparr>fd_new = [], fd_modified = [], fd_deleted = [], fd_unchanged = ds\<rparr>"
    using cls assms by (auto simp: report_def up_to_date_def filter_empty_conv filter_id_conv)
  with diff_report [OF te] diff_table [OF te] same assms show ?thesis
    by (simp add: prod_eq_iff up_to_date_def)
qed

lemma fetch_remove:
  "q \<noteq> p \<Longrightarrow> fetch_key fp_file_path (remove_fingerprint p t) q = fetch_key fp_file_path t q"
  by (induction t) (auto simp: remove_fingerprint_def delete_where_def)

lemma fetch_filter_paths:
  "Q p \<Longrightarrow> fetch_key fp_file_path (filter (\<lambda>r. Q (fp_file_path r)) t) p = fetch_key fp_file_path t p"
  by (induction t) auto

text \<open>The purges of a pass that all succeed.\<close>

lemma purge_deleted_result:
  assumes "purge_deleted env ps failed tk = (failed, tk')"
  shows "tk_chunk_fps tk' = filter (\<lambda>r. fp_file_path r \<notin> set ps) (tk_chunk_fps tk)"
proof -
  have grows: "length failed \<le> length (fst (purge_deleted env ps failed tk))" for ps failed tk
  proof (induction ps arbitrary: failed tk)
    case (Cons p ps)
    have "length failed \<le> length (failed @ [p])" by simp
    with Cons.IH [of "failed @ [p]"] Cons.IH [of failed] show ?case
      by (auto split: prod.split sum.split intro: Suc_leD)
  qed simp
  show ?thesis
    using assms
  proof (induction ps arbitrary: tk)
    case Nil
    then show ?case by simp
  next
    case (Cons p ps)
    obtain r pp where purge: "purge_file env p (ix_pipeline (tk_indexer tk)) = (r, pp)" by fastforce
    show ?case
    proof (cases r)
      case (Inl e)
      with Cons.prems purge grows [of "failed @ [p]" ps "set_trickle_pipeline pp tk"] show ?thesis by simp
    next
      case (Inr u)
      have "pp_chunk_fps pp = remove_fingerprint p (tk_chunk_fps tk)"
        using purge Inr by (auto simp: purge_file_def split: sum.splits prod.splits)
      moreover have "purge_deleted env ps failed ((set_trickle_pipeline pp tk)\<lparr>tk_needs_vacuum := True\<rparr>) = (failed, tk')"
        using Cons.prems purge Inr by simp
      note Cons.IH [OF this]
      ultimately show ?thesis
        by (simp add: set_trickle_pipeline_def remove_fingerprint_def delete_where_def conj_commute)
    qed
  qed
qed

lemma backlog_failures_grow:
  "length (bp_failed rep) \<le> length (bp_failed (fst (backlog_files bw n i fis rep tk)))"
proof (induction bw n i fis rep tk rule: backlog_files.induct)
  case (2 bw n i fi rest rep tk)
  then show ?case
    by (auto split: prod.split sum.split simp: Let_def intro: order_trans [OF le_SucI])
qed simp

text \<open>A pass over files in one unchanging environment, without a failure or a shutdown: every
  file of it is current afterwards, and no row of another file has changed.\<close>

definition steady :: "indexing_env \<Rightarrow> backlog_world \<Rightarrow> bool" where
  "steady ie bw \<longleftrightarrow> (\<forall>i. bw_indexing bw i = ie \<and> \<not> bw_shutdown bw i)"

lemma backlog_files_result:
  assumes "backlog_files bw n i fis rep tk = (rep', tk')" and "steady ie bw" and "bp_failed rep' = bp_failed rep"
  shows "(\<forall>p. p \<in> fi_path ` set fis \<or> fingerprinted (ev_chunk_files (pipeline_env ie)) p (tk_chunk_fps tk) \<longrightarrow>
      fingerprinted (ev_chunk_files (pipeline_env ie)) p (tk_chunk_fps tk'))
    \<and> (pk_ok fp_file_path (tk_chunk_fps tk) \<longrightarrow> pk_ok fp_file_path (tk_chunk_fps tk'))
    \<and> fp_file_path ` set (tk_chunk_fps tk') \<subseteq> fi_path ` set fis \<union> fp_file_path ` set (tk_chunk_fps tk)
    \<and> bp_purge_failed rep' = bp_purge_failed rep"
  using assms(1,3)
proof (induction fis arbitrary: i rep tk)
  case Nil
  then show ?case by (auto simp: on_ts_def)
next
  case (Cons fi rest)
  let ?fs = "ev_chunk_files (pipeline_env ie)" and ?p = "fi_path fi"
  obtain r x where run: "index_file ie (bw_now bw i) (GivenInfo fi) (tk_indexer tk) = (r, x)" by fastforce
  note row = index_file_row [OF run]
  have world: "bw_indexing bw i = ie" "\<not> bw_shutdown bw i" using assms(2) by (auto simp: steady_def)
  show ?case
  proof (cases r)
    case (Inl e)
    have "\<exists>tk1. backlog_files bw n (i + 1) rest (rep\<lparr>bp_failed := bp_failed rep @ [?p]\<rparr>) tk1 = (rep', tk')"
      using Cons.prems(1) run Inl world by (auto simp: process_one_file_def on_ts_def)
    then obtain tk1 where rest: "backlog_files bw n (i + 1) rest (rep\<lparr>bp_failed := bp_failed rep @ [?p]\<rparr>) tk1 = (rep', tk')" ..
    have "length (bp_failed rep @ [?p]) \<le> length (bp_failed rep')"
      using backlog_failures_grow [of "rep\<lparr>bp_failed := bp_failed rep @ [?p]\<rparr>" bw n "i + 1" rest tk1] rest by simp
    with Cons.prems(2) show ?thesis by simp
  next
    case (Inr m)
    let ?tk1 = "on_ts (\<lambda>ts. update_eta (bw_clock bw i) (i + 1) n
        (ts\<lparr>ts_indexed_count := bp_succeeded rep + 1, ts_total_chunks_done := ts_total_chunks_done ts + m,
           ts_last_indexed_at := Some (bw_now bw i)\<rparr>))
        ((on_ts (\<lambda>ts. ts\<lparr>ts_current_file := Some ?p\<rparr>) tk)\<lparr>tk_indexer := x\<rparr>)"
    have rest: "backlog_files bw n (i + 1) rest (rep\<lparr>bp_succeeded := bp_succeeded rep + 1\<rparr>) ?tk1 = (rep', tk')"
      using Cons.prems(1) run Inr world by (simp add: process_one_file_def Let_def)
    have fing: "fingerprinted ?fs q (chunk_rows x)" if "q = ?p \<or> fingerprinted ?fs q (tk_chunk_fps tk)" for q
      using row(2) [OF Inr] only_row_fingerprinted [OF row(1)] that by (cases "q = ?p") auto
    have "fp_file_path ` set (chunk_rows x) \<subseteq> insert ?p (fp_file_path ` set (tk_chunk_fps tk))"
      by (rule only_row_keys [OF row(1)])
    note keys = this
    have "bp_failed rep' = bp_failed (rep\<lparr>bp_succeeded := bp_succeeded rep + 1\<rparr>)" using Cons.prems(2) by simp
    note IH = Cons.IH [OF rest this]
    have i: "chunk_rows (tk_indexer ?tk1) = chunk_rows x" by simp
    show ?thesis
    proof (intro conjI allI impI)
      fix p assume "p \<in> fi_path ` set (fi # rest) \<or> fingerprinted ?fs p (tk_chunk_fps tk)"
      then have "p \<in> fi_path ` set rest \<or> fingerprinted ?fs p (chunk_rows x)" using fing by auto
      with IH show "fingerprinted ?fs p (tk_chunk_fps tk')" unfolding i by blast
    next
      assume "pk_ok fp_file_path (tk_chunk_fps tk)"
      then have "pk_ok fp_file_path (chunk_rows x)" using row(1) by (simp add: only_row_def)
      with IH show "pk_ok fp_file_path (tk_chunk_fps tk')" unfolding i by blast
    next
      from IH have "fp_file_path ` set (tk_chunk_fps tk') \<subseteq> fi_path ` set rest \<union> fp_file_path ` set (chunk_rows x)"
        unfolding i by blast
      moreover have "A \<subseteq> insert q R \<union> C" if "A \<subseteq> R \<union> B" "B \<subseteq> insert q C" for A B C R :: "string set" and q
        using that by blast
      ultimately show "fp_file_path ` set (tk_chunk_fps tk') \<subseteq> fi_path ` set (fi # rest) \<union> fp_file_path ` set (tk_chunk_fps tk)"
        using keys by (simp only: set_simps image_insert)
    next
      from IH show "bp_purge_failed rep' = bp_purge_failed rep" by simp
    qed
  qed
qed

lemma process_backlog_run:
  assumes "discover te = Inr fis"
    and "diff (ev_chunk_files (pipeline_env (te_indexing te))) (map fi_path fis) (tk_chunk_fps tk) = (Inr d, t)"
    and "purge_deleted (pipeline_env (te_indexing te)) (fd_deleted d) []
        (set_chunk_fps t (on_ts (\<lambda>ts. ts\<lparr>ts_status := BACKLOG\<rparr>) tk)) = (pf, tk1)"
  shows "process_backlog te bw start tk =
    (if unindexed_files d fis = [] then (Inr (empty_report\<lparr>bp_purge_failed := pf\<rparr>), on_ts (\<lambda>ts. ts\<lparr>ts_total_files := length (unindexed_files d fis)\<rparr>) tk1)
     else (case backlog_files bw (length (unindexed_files d fis)) 0 (unindexed_files d fis) (empty_report\<lparr>bp_purge_failed := pf\<rparr>)
         (on_ts (reset_progress start) (on_ts (\<lambda>ts. ts\<lparr>ts_total_files := length (unindexed_files d fis)\<rparr>) tk1)) of
       (rep, tk) \<Rightarrow> (Inr rep, tk)))"
  using assms by (simp add: process_backlog_def Let_def del: on_ts_on_ts)

text \<open>
  C3: A clean backlog pass leaves nothing to do.  When a pass of the background indexer ends
  without a failed file, a failed purge or a shutdown, and neither the disk nor the
  configuration changes, the next pass (whatever the time, the clock and the state of the
  services) finds every discovered file unchanged: it purges nothing, opens no file for
  indexing, and changes no row, no fingerprint, no vector and no cache.
\<close>

theorem backlog_pass_settles:
  assumes "process_backlog te bw start tk = (Inr rep, tk')"
    and "bp_failed rep = []" and "bp_purge_failed rep = []"
    and "steady (te_indexing te) bw" and "pk_ok fp_file_path (tk_chunk_fps tk)"
  shows "process_backlog te bw' start' tk' =
    (Inr empty_report, on_ts (\<lambda>ts. ts\<lparr>ts_status := BACKLOG, ts_total_files := 0\<rparr>) tk')"
proof -
  let ?env = "pipeline_env (te_indexing te)"
  let ?fs = "ev_chunk_files ?env"
  obtain fis d t where files: "discover te = Inr fis"
    and diff: "diff ?fs (map fi_path fis) (tk_chunk_fps tk) = (Inr d, t)"
    using assms(1) by (auto simp: process_backlog_def Let_def split: sum.splits prod.splits file_error.splits)
  let ?ds = "map fi_path fis" and ?un = "unindexed_files d fis"
  note d = diff_result [OF diff assms(5)]
  have t_ok: "pk_ok fp_file_path t" using assms(5) by (simp add: d(2) pk_ok_def o_def)
  have deleted: "fd_deleted d = filter (\<lambda>p. p \<notin> set ?ds) (map fp_file_path (tk_chunk_fps tk))"
    by (simp add: d(1) report_def)
  have old: "fingerprinted ?fs p t" if "p \<in> set ?ds" "p \<notin> fi_path ` set ?un" for p
  proof -
    have "class_of ?fs (tk_chunk_fps tk) p = Unchanged"
      using that by (cases "class_of ?fs (tk_chunk_fps tk) p") (auto simp: d(1) report_def unindexed_files_def)
    from refresh_fingerprinted [OF assms(5) d(3) that(1) this] show ?thesis by (simp add: d(2))
  qed
  obtain pf tk1 where purge: "purge_deleted ?env (fd_deleted d) [] (set_chunk_fps t (on_ts (\<lambda>ts. ts\<lparr>ts_status := BACKLOG\<rparr>) tk)) = (pf, tk1)"
    by fastforce
  let ?tk2 = "on_ts (\<lambda>ts. ts\<lparr>ts_total_files := length ?un\<rparr>) tk1"
  note run = assms(1) [unfolded process_backlog_run [OF files diff purge]]
  have pf: "pf = []"
  proof (cases "?un = []")
    case True
    with run assms(3) show ?thesis by auto
  next
    case False
    then have "backlog_files bw (length ?un) 0 ?un (empty_report\<lparr>bp_purge_failed := pf\<rparr>) (on_ts (reset_progress start) ?tk2) = (rep, tk')"
      using run by (auto split: prod.splits)
    from backlog_files_result [OF this assms(4)] assms(2,3) show ?thesis by (simp add: empty_report_def)
  qed
  have rows1: "tk_chunk_fps tk1 = filter (\<lambda>r. fp_file_path r \<notin> set (fd_deleted d)) t"
    using purge_deleted_result [OF purge [unfolded pf]] by simp
  then have ok1: "pk_ok fp_file_path (tk_chunk_fps tk1)"
    using t_ok by (simp add: pk_ok_def distinct_map_filter_key)
  have keys1: "fp_file_path ` set (tk_chunk_fps tk1) \<subseteq> set ?ds"
    by (auto simp: rows1 deleted d(2))
  have old1: "fingerprinted ?fs p (tk_chunk_fps tk1)" if "p \<in> set ?ds" "p \<notin> fi_path ` set ?un" for p
    using old [OF that] that(1) fetch_filter_paths [of "\<lambda>q. q \<notin> set (fd_deleted d)" p t]
    by (simp add: rows1 fingerprinted_def deleted)
  have "up_to_date ?fs ?ds (tk_chunk_fps tk')"
  proof (cases "?un = []")
    case True
    then have "tk_chunk_fps tk' = tk_chunk_fps tk1" using run by auto
    with ok1 keys1 old1 True show ?thesis by (simp add: up_to_date_def list_all_iff)
  next
    case False
    then have "backlog_files bw (length ?un) 0 ?un (empty_report\<lparr>bp_purge_failed := pf\<rparr>) (on_ts (reset_progress start) ?tk2) = (rep, tk')"
      using run by (auto split: prod.splits)
    note result = backlog_files_result [OF this assms(4)]
    have "fi_path ` set ?un \<subseteq> set ?ds" by (auto simp: unindexed_files_def)
    have failed: "bp_failed rep = bp_failed (empty_report\<lparr>bp_purge_failed := pf\<rparr>)" using assms(2) by (simp add: empty_report_def)
    note result = result [OF failed, simplified]
    have "fingerprinted ?fs p (tk_chunk_fps tk')" if "p \<in> set ?ds" for p
      using result old1 [OF that] by blast
    moreover have "fp_file_path ` set (tk_chunk_fps tk') \<subseteq> set ?ds"
      using result keys1 \<open>fi_path ` set ?un \<subseteq> set ?ds\<close> by blast
    ultimately show ?thesis
      using result ok1 by (simp add: up_to_date_def list_all_iff)
  qed
  from diff_up_to_date [OF this] show ?thesis
    by (simp add: process_backlog_def files set_chunk_fps_def unindexed_files_def Let_def
        sorted_desc_def empty_report_def set_trickle_pipeline_def on_ts_def)
qed

section \<open>Consistency of every run\<close>

abbreviation tk_store :: "trickle \<Rightarrow> store" where
  "tk_store tk \<equiv> ix_store (tk_indexer tk)"

lemma purge_deleted_consistent:
  "consistent (tk_store tk) \<Longrightarrow> consistent (tk_store (snd (purge_deleted env ps failed tk)))"
proof (induction ps arbitrary: failed tk)
  case (Cons p ps)
  obtain r pp where purge: "purge_file env p (ix_pipeline (tk_indexer tk)) = (r, pp)" by fastforce
  from purge_consistent [OF _ purge] Cons.prems have "consistent (pp_store pp)" by simp
  then show ?case
    using Cons.IH [of "set_trickle_pipeline pp tk"] Cons.IH [of "(set_trickle_pipeline pp tk)\<lparr>tk_needs_vacuum := True\<rparr>"]
    by (auto simp: purge split: sum.split)
qed simp

lemma process_one_consistent:
  "consistent (tk_store tk) \<Longrightarrow> process_one_file ie now fi tk = (r, tk') \<Longrightarrow> consistent (tk_store tk')"
  by (auto simp: process_one_file_def split: prod.splits dest: index_file_consistent)

lemma backlog_files_consistent:
  "consistent (tk_store tk) \<Longrightarrow> consistent (tk_store (snd (backlog_files bw n i fis rep tk)))"
proof (induction bw n i fis rep tk rule: backlog_files.induct)
  case (2 bw n i fi rest rep tk)
  obtain r tk1 where run: "process_one_file (bw_indexing bw i) (bw_now bw i) fi
      (on_ts (\<lambda>ts. ts\<lparr>ts_current_file := Some (fi_path fi)\<rparr>) tk) = (r, tk1)" by fastforce
  have "consistent (tk_store tk1)" using process_one_consistent [OF _ run] 2 by simp
  with 2 run show ?case by (cases r) auto
qed simp

lemma process_backlog_consistent:
  assumes "consistent (tk_store tk)"
  shows "consistent (tk_store (snd (process_backlog te bw start tk)))"
proof -
  have fps: "consistent (tk_store (set_chunk_fps t tk'))" if "consistent (tk_store tk')" for t tk'
    using that by (simp add: set_chunk_fps_def)
  have "consistent (tk_store (snd (backlog_files bw n i fis rep (on_ts f tk'))))" if "consistent (tk_store tk')" for n i fis rep f tk'
    using backlog_files_consistent [of "on_ts f tk'"] that by simp
  with assms purge_deleted_consistent fps show ?thesis
    by (auto simp: process_backlog_def Let_def split: sum.split prod.split file_error.split) (metis snd_conv trickle_fields(1) fps)+
qed

lemma startup_consistent:
  assumes "consistent (tk_store tk)"
  shows "consistent (tk_store (startup_checks te now tk))"
proof -
  have "consistent (pp_store p)" if "purge_orphaned_files (pipeline_env (te_indexing te)) now ds (ix_pipeline (tk_indexer tk)) = (c, p)" for c p ds
    using pipeline_step_consistent [OF pipeline_step.sweep [OF that]] assms by simp
  then show ?thesis using assms by (auto simp: startup_checks_def Let_def split: sum.split prod.split)
qed

lemma handle_queued_consistent:
  assumes "consistent (tk_store tk)"
  shows "consistent (tk_store (handle_queued te now path tk))"
proof -
  have "consistent (tk_store tk')" if "process_one_file ie now fi (on_ts f tk) = (r, tk')" for ie fi f r tk'
    using process_one_consistent [OF _ that] assms by simp
  with assms show ?thesis
    by (auto simp: handle_queued_def split: option.split sum.split prod.split dest: purge_consistent)
qed

lemma drain_consistent:
  "consistent (tk_store tk) \<Longrightarrow> consistent (tk_store (drain_queue tes nows i q tk))"
  by (induction tes nows i q tk rule: drain_queue.induct) (simp_all add: handle_queued_consistent)

lemma serve_round_consistent:
  assumes "consistent (tk_store tk)"
  shows "consistent (tk_store (serve_round wr tk))"
proof -
  have "tk_indexer (deferred_maintenance key vac tk') = tk_indexer tk'" for key vac tk'
    by (simp add: deferred_maintenance_def prune_extraction_cache_def Let_def split: option.split sum.split)
  with drain_consistent [OF assms] show ?thesis by (simp add: serve_round_def)
qed

lemma watch_rounds_consistent:
  "consistent (tk_store tk) \<Longrightarrow> consistent (tk_store (watch_rounds rounds tk))"
proof (induction rounds arbitrary: tk)
  case (Cons wr rest)
  have c: "consistent (tk_store (serve_round wr tk))" by (rule serve_round_consistent [OF Cons.prems])
  have "consistent (tk_store ((serve_round wr tk)\<lparr>tk_file_queue := q\<rparr>))" for q using c by simp
  with Cons c process_backlog_consistent [OF c] show ?case by (auto simp: Let_def split: wake.split)
qed simp

lemma run_locked_consistent:
  assumes "consistent (tk_store tk)"
  shows "consistent (tk_store (run_locked tr tk))"
proof -
  have "consistent (tk_store tk2)"
    if "process_backlog te bw s (startup_checks te' now (on_ts f tk)) = (r, tk2)" for te bw s te' now f r tk2
    using process_backlog_consistent [OF startup_consistent, of "on_ts f tk" te bw s te' now] assms that by simp
  moreover have "consistent (tk_store (startup_checks te' now (on_ts f tk)))" for te' now f
    using startup_consistent [of "on_ts f tk"] assms by simp
  ultimately show ?thesis
    using watch_rounds_consistent [of "on_ts (\<lambda>ts. ts\<lparr>ts_status := WATCHING\<rparr>) tk'" for tk']
    by (fastforce simp: run_locked_def run_index_loop_def watch_mode_def Let_def split: prod.split sum.split)
qed

text \<open>
  C2: The background indexer keeps the index consistent.  Whatever the events, clocks, disks,
  configurations and failures of a run, from its startup checks over the backlog to the last
  round of the watch loop, a store with unique keys in which every strategy stores exactly the
  chunks some file holds is such a store afterwards; when another process holds the lock, or no
  paths are configured, a run touches nothing but the status.
\<close>

theorem run_trickle_consistent:
  assumes "store_ok (tk_store tk)"
    and "\<forall>st. mm_chunk_id ` set (holder_rows st (tk_store tk)) = cr_chunk_id ` set (content_rows st (tk_store tk))"
    and "run_trickle tr tk = (exit, tk')"
  shows "store_ok (tk_store tk')
    \<and> mm_chunk_id ` set (holder_rows st (tk_store tk')) = cr_chunk_id ` set (content_rows st (tk_store tk'))
    \<and> (exit \<noteq> Stopped \<longrightarrow> tk_indexer tk' = tk_indexer tk \<and> tk_extraction_cache tk' = tk_extraction_cache tk)"
proof -
  have c: "consistent (tk_store tk)" using assms(1,2) by (simp add: consistent_def)
  have "consistent (tk_store tk') \<and> (exit \<noteq> Stopped \<longrightarrow> tk_indexer tk' = tk_indexer tk
      \<and> tk_extraction_cache tk' = tk_extraction_cache tk)"
    using assms(3) c run_locked_consistent [OF c] by (auto simp: run_trickle_def split: if_splits)
  then show ?thesis by (simp add: consistent_def)
qed

section \<open>Edits seen by the watcher\<close>

text \<open>
  C15: The watcher drops the frontmatter of a file it indexes.  When an edit taken from the queue
  is indexed into chunks, the stored document has empty metadata, the file name as its title and
  the plain document type, whatever the file's frontmatter says.  And nothing repairs it: both
  fingerprints are current, so any later run for that file, with the metadata read from disk as
  the backlog does it, returns 0 and leaves every row and vector as it is.
\<close>

theorem watched_edit_loses_frontmatter:
  assumes "ie_disk ie path = Some f" and "te_indexing te = ie"
    and "index_file ie now (GivenInfo (watched_info path f)) (tk_indexer tk) = (Inr n, x)" and "n \<noteq> 0"
  shows "tk_indexer (handle_queued te now path tk) = x
    \<and> (\<exists>d. get_source_document (ie_resolve ie) (ix_store x) ''filesystem'' (ie_resolve ie path) = Inr (Some d)
        \<and> sd_metadata_json d = JObj [] \<and> sd_title d = path_stem path \<and> sd_document_type d = ''document'')
    \<and> (\<forall>fi d' now'. fi_path fi = path \<and> source_document_for_file_info ie fi = Inr d' \<longrightarrow>
        index_file ie now' (GivenInfo fi) x = (Inr 0, x))"
proof -
  let ?wi = "watched_info path f"
  obtain d where doc: "source_document_for_file_info ie ?wi = Inr d" and settled: "settled ie ?wi d x"
    using indexed_is_settled [OF assms(3,4)] by (auto simp: file_info_and_source_document_def try_bind_Inr_iff)
  note facts = document_facts [OF doc]
  have path: "fi_path ?wi = path" by (simp add: watched_info_def)
  obtain x1 s where s: "upsert_active_filesystem_binding d (upsert_source_document d (ix_store x1)) = Inr s" "ix_store x = s"
    using index_file_body [OF assms(3,4)] doc
    by (auto simp: file_info_and_source_document_def try_bind_Inr_iff)
  have "st_documents (ix_store x) = st_documents (upsert_source_document d (ix_store x1))"
  proof -
    have "\<exists>b. ix_store x = upsert_resource_binding b (upsert_source_document d (ix_store x1))"
      using s unfolding upsert_active_filesystem_binding_def try_bind_Inr_iff by (metis sum.inject(2))
    then show ?thesis by (auto simp: upsert_resource_binding_def)
  qed
  then have "get_source_document (ie_resolve ie) (ix_store x) ''filesystem'' (ie_resolve ie path) = Inr (Some d)"
    using facts(1,2,7) path by (simp add: get_source_document_def fetch_upsert_source_document doc_key_def)
  moreover have "sd_metadata_json d = JObj [] \<and> sd_title d = path_stem path \<and> sd_document_type d = ''document''"
    using doc by (auto simp: source_document_for_file_info_def try_bind_Inr_iff watched_info_def split: if_splits)
  moreover have "tk_indexer (handle_queued te now path tk) = x"
    using assms(1-3) by (simp add: handle_queued_def process_one_file_def)
  moreover have "index_file ie now' (GivenInfo fi) x = (Inr 0, x)"
    if "fi_path fi = path" "source_document_for_file_info ie fi = Inr d'" for fi d' now'
  proof -
    have "sd_document_ref d' = sd_document_ref d"
      using document_facts(2) [OF that(2)] facts(2) that(1) path by simp
    then have "settled ie fi d' x" using settled that(1) path by (simp add: settled_def)
    from index_file_settled [OF _ this] that(2) show ?thesis
      by (simp add: file_info_and_source_document_def)
  qed
  ultimately show ?thesis by blast
qed

section \<open>Debouncing\<close>

text \<open>The events that pass the debounce check, with their times.\<close>

fun accepted_events :: "(rat \<times> string) list \<Rightarrow> event_handler \<Rightarrow> (rat \<times> string) list" where
  "accepted_events [] h = []"
| "accepted_events ((now, path) # evs) h =
     (if debounced now path h then accepted_events evs h
      else (now, path) # accepted_events evs (enqueue_event now path h))"

definition enqueue_all :: "(rat \<times> string) list \<Rightarrow> event_handler \<Rightarrow> event_handler" where
  "enqueue_all evs h = fold (\<lambda>(now, path). enqueue_event now path) evs h"

lemma enqueue_fields:
  "\<not> debounced now path h \<Longrightarrow> eh_debounce (enqueue_event now path h) = dict_set path now (eh_debounce h)"
  "eh_exclude (enqueue_event now path h) = eh_exclude h"
  "debounced now path h \<Longrightarrow> enqueue_event now path h = h"
  by (simp_all add: enqueue_event_def Let_def)

lemma enqueue_all_queue:
  "eh_queue (enqueue_all evs h) =
     eh_queue h @ map snd (filter (\<lambda>(t, p). \<not> event_excluded (eh_exclude h) p) (accepted_events evs h))"
proof (induction evs h rule: accepted_events.induct)
  case (2 now path evs h)
  then show ?case
    by (cases "debounced now path h") (auto simp: enqueue_all_def enqueue_fields(2,3) enqueue_event_def Let_def)
qed (simp add: enqueue_all_def)

lemma debounce_invariant:
  assumes "sorted (map fst evs)" and "\<forall>p t0. dict_get (eh_debounce h) p = Some t0 \<longrightarrow> (\<forall>t \<in> fst ` set evs. t0 \<le> t)"
  shows "sorted_wrt (\<lambda>(t, p) (t', p'). p = p' \<longrightarrow> t + 2 \<le> t') (accepted_events evs h)
    \<and> (\<forall>(t, p) \<in> set (accepted_events evs h). \<forall>t0. dict_get (eh_debounce h) p = Some t0 \<longrightarrow> t0 + 2 \<le> t)
    \<and> (\<forall>(t, p) \<in> set evs. (\<exists>t'. (t', p) \<in> set (accepted_events evs h) \<and> t' \<le> t \<and> t < t' + 2)
        \<or> (\<exists>t0. dict_get (eh_debounce h) p = Some t0 \<and> t < t0 + 2))"
  using assms
proof (induction evs h rule: accepted_events.induct)
  case (2 now path evs h)
  show ?case
  proof (cases "debounced now path h")
    case True
    then obtain t0 where t0: "dict_get (eh_debounce h) path = Some t0" "now < t0 + 2"
      by (auto simp: debounced_def split: option.splits)
    have "\<forall>p t0. dict_get (eh_debounce h) p = Some t0 \<longrightarrow> (\<forall>t \<in> fst ` set evs. t0 \<le> t)"
      using 2(4) by simp
    note IH = 2(1) [OF True _ this]
    with 2(3) True t0 show ?thesis by auto
  next
    case False
    let ?h = "enqueue_event now path h" and ?acc = "accepted_events evs (enqueue_event now path h)"
    have get: "dict_get (eh_debounce ?h) p = (if p = path then Some now else dict_get (eh_debounce h) p)" for p
      by (simp add: enqueue_fields(1) [OF False] dict_get_set)
    have later: "now \<le> t" if "t \<in> fst ` set evs" for t using 2(3) that by auto
    have inv: "\<forall>p t0. dict_get (eh_debounce ?h) p = Some t0 \<longrightarrow> (\<forall>t \<in> fst ` set evs. t0 \<le> t)"
      using 2(4) later by (auto simp: get split: if_splits)
    have IH: "sorted_wrt (\<lambda>(t, p) (t', p'). p = p' \<longrightarrow> t + 2 \<le> t') ?acc"
      "\<And>t p t0. (t, p) \<in> set ?acc \<Longrightarrow> dict_get (eh_debounce ?h) p = Some t0 \<Longrightarrow> t0 + 2 \<le> t"
      "\<And>t p. (t, p) \<in> set evs \<Longrightarrow> (\<exists>t'. (t', p) \<in> set ?acc \<and> t' \<le> t \<and> t < t' + 2)
        \<or> (\<exists>t0. dict_get (eh_debounce ?h) p = Some t0 \<and> t < t0 + 2)"
      using 2(2) [OF False _ inv] 2(3) by auto
    have acc: "accepted_events ((now, path) # evs) h = (now, path) # ?acc" using False by simp
    have first: "now + 2 \<le> t" if "(t, path) \<in> set ?acc" for t using IH(2) [OF that] by (simp add: get)
    have old: "t0 + 2 \<le> now" if "dict_get (eh_debounce h) path = Some t0" for t0
      using False that by (auto simp: debounced_def)
    show ?thesis
      unfolding acc
    proof (intro conjI)
      show "sorted_wrt (\<lambda>(t, p) (t', p'). p = p' \<longrightarrow> t + 2 \<le> t') ((now, path) # ?acc)"
        using IH(1) first by auto
      show "\<forall>(t, p) \<in> set ((now, path) # ?acc). \<forall>t0. dict_get (eh_debounce h) p = Some t0 \<longrightarrow> t0 + 2 \<le> t"
      proof (clarsimp, intro conjI allI impI ballI)
        fix t0 assume "dict_get (eh_debounce h) path = Some t0"
        then show "t0 + 2 \<le> now" by (rule old)
      next
        fix x assume x: "x \<in> set ?acc"
        obtain t p where tp: "x = (t, p)" by (cases x)
        have "t0 + 2 \<le> t" if "dict_get (eh_debounce h) p = Some t0" for t0
          using IH(2) [of t p t0] x tp first [of t] old [of t0] that by (cases "p = path") (auto simp: get)
        then show "case x of (t, p) \<Rightarrow> \<forall>t0. dict_get (eh_debounce h) p = Some t0 \<longrightarrow> t0 + 2 \<le> t" by (simp add: tp)
      qed
      have hit: "(\<exists>t'. (t', p) \<in> set ((now, path) # ?acc) \<and> t' \<le> t \<and> t < t' + 2)
          \<or> (\<exists>t0. dict_get (eh_debounce h) p = Some t0 \<and> t < t0 + 2)" if "(t, p) \<in> set ((now, path) # evs)" for t p
      proof (cases "(t, p) = (now, path)")
        case True
        then show ?thesis by (intro disjI1 exI [of _ now]) simp
      next
        case False
        with that have e: "(t, p) \<in> set evs" by auto
        have "now \<le> t" using e later by force
        with IH(3) [OF e] show ?thesis by (cases "p = path") (auto simp: get)
      qed
      then show "\<forall>(t, p) \<in> set ((now, path) # evs). (\<exists>t'. (t', p) \<in> set ((now, path) # ?acc) \<and> t' \<le> t \<and> t < t' + 2)
          \<or> (\<exists>t0. dict_get (eh_debounce h) p = Some t0 \<and> t < t0 + 2)" by fast
    qed
  qed
qed simp

text \<open>
  C40: The debounce bounds the queue and loses the end of a burst.  For file events with
  non-decreasing times, a fresh handler queues exactly the accepted events outside the excluded
  directories, in order; two accepted events of one path are at least two seconds apart; and an
  event is dropped only because one for the same path was accepted less than two seconds before,
  however long ago the queue was drained, so the last edit of a burst need not be indexed
  before the next poll.
\<close>

theorem debounce_spec:
  assumes "sorted (map fst evs)" and "eh_debounce h = []"
  shows "eh_queue (enqueue_all evs h) =
      eh_queue h @ map snd (filter (\<lambda>(t, p). \<not> event_excluded (eh_exclude h) p) (accepted_events evs h))
    \<and> sorted_wrt (\<lambda>(t, p) (t', p'). p = p' \<longrightarrow> t + 2 \<le> t') (accepted_events evs h)
    \<and> (\<forall>(t, p) \<in> set evs. \<exists>t'. (t', p) \<in> set (accepted_events evs h) \<and> t' \<le> t \<and> t < t' + 2)"
  using debounce_invariant [OF assms(1), of h] assms(2) enqueue_all_queue [of evs h] by auto

lemma demo_excluded:
  "event_excluded [''**/.git''] ''/n/.git/b.md''" "\<not> event_excluded [''**/.git''] ''/n/a.md''"
  by code_simp+

lemma demo_accepted:
  "accepted_events [(0, ''/n/a.md''), (1, ''/n/a.md''), (1, ''/n/.git/b.md''), (3, ''/n/a.md'')]
     \<lparr>eh_exclude = [''**/.git''], eh_debounce = [], eh_queue = []\<rparr> =
     [(0, ''/n/a.md''), (1, ''/n/.git/b.md''), (3, ''/n/a.md'')]"
  by (simp add: debounced_def enqueue_event_def Let_def demo_excluded)

theorem debounce_spec_witness:
  "eh_queue (enqueue_all [(0, ''/n/a.md''), (1, ''/n/a.md''), (1, ''/n/.git/b.md''), (3, ''/n/a.md'')]
     \<lparr>eh_exclude = [''**/.git''], eh_debounce = [], eh_queue = []\<rparr>) = [''/n/a.md'', ''/n/a.md'']"
proof -
  let ?h = "\<lparr>eh_exclude = [''**/.git''], eh_debounce = [], eh_queue = []\<rparr>"
  let ?evs = "[(0, ''/n/a.md''), (1, ''/n/a.md''), (1, ''/n/.git/b.md''), (3, ''/n/a.md'')] :: (rat \<times> string) list"
  have "eh_queue (enqueue_all ?evs ?h) = eh_queue ?h @ map snd (filter (\<lambda>(t, p). \<not> event_excluded (eh_exclude ?h) p) (accepted_events ?evs ?h))"
    by (rule debounce_spec [THEN conjunct1]) simp_all
  then show ?thesis unfolding demo_accepted by (simp add: demo_excluded)
qed

section \<open>Concrete runs\<close>

definition demo_yaml_titled :: "string \<Rightarrow> yaml_result" where
  "demo_yaml_titled s = YamlDict [(''title'', JStr ''A''), (''tags'', JList [JStr ''t''])]"

definition demo_trickle_env :: "rat \<Rightarrow> string \<Rightarrow> trickle_env" where
  "demo_trickle_env mtime content =
     \<lparr>te_indexing = (demo_indexing mtime content)\<lparr>ie_yaml := demo_yaml_titled\<rparr>,
      te_tree = (\<lambda>p. if p = ''/n'' then Some [(''a.md'', FileEntry)] else None), te_paths = [''/n''],
      te_exclude = [''**/.git''], te_cache_key = (\<lambda>s. s)\<rparr>"

definition demo_edit :: string where
  "demo_edit = ''---'' @ [LF] @ ''title: A'' @ [LF] @ ''---'' @ [LF] @ ''text''"

definition demo_trickle :: trickle where
  "demo_trickle = \<lparr>tk_state = \<lparr>ts_status = IDLE, ts_indexed_count = 0, ts_total_files = 0, ts_current_file = None,
       ts_files_per_hour = 0, ts_chunks_per_hour = 0, ts_total_chunks_done = 0, ts_eta_minutes = None,
       ts_last_indexed_at = None, ts_start_time = 0\<rparr>,
     tk_file_queue = [], tk_needs_vacuum = False, tk_indexer = demo_indexer, tk_extraction_cache = None\<rparr>"

definition demo_world :: "trickle_env \<Rightarrow> backlog_world" where
  "demo_world te = \<lparr>bw_indexing = (\<lambda>_. te_indexing te), bw_now = (\<lambda>_. 5), bw_clock = (\<lambda>_. 2), bw_shutdown = (\<lambda>_. False)\<rparr>"

definition demo_pass :: "(py_error + backlog_report) \<times> trickle" where
  "demo_pass = process_backlog (demo_trickle_env 1 demo_edit) (demo_world (demo_trickle_env 1 demo_edit)) 0 demo_trickle"

lemma demo_pass_runs: "fst demo_pass = Inr \<lparr>bp_purge_failed = [], bp_succeeded = 1, bp_failed = []\<rparr>"
  by code_simp

theorem backlog_pass_settles_witness:
  "process_backlog (demo_trickle_env 1 demo_edit) (demo_world (demo_trickle_env 1 demo_edit)) 9 (snd demo_pass) =
    (Inr empty_report, on_ts (\<lambda>ts. ts\<lparr>ts_status := BACKLOG, ts_total_files := 0\<rparr>) (snd demo_pass))"
proof -
  have run: "process_backlog (demo_trickle_env 1 demo_edit) (demo_world (demo_trickle_env 1 demo_edit)) 0 demo_trickle =
      (Inr \<lparr>bp_purge_failed = [], bp_succeeded = 1, bp_failed = []\<rparr>, snd demo_pass)"
    using demo_pass_runs by (simp add: demo_pass_def prod_eq_iff)
  show ?thesis
    by (rule backlog_pass_settles [OF run]) (simp_all add: steady_def demo_world_def demo_trickle_def demo_indexer_def pk_ok_def)
qed

definition demo_run_trickle :: trickle_run where
  "demo_run_trickle = \<lparr>tr_lock_held = False, tr_start_env = demo_trickle_env 1 demo_edit, tr_now = 5, tr_clock = 0,
     tr_shutdown_checked = False, tr_backlog_env = demo_trickle_env 1 demo_edit,
     tr_backlog = demo_world (demo_trickle_env 1 demo_edit), tr_backlog_start = 0, tr_shutdown_backlog = False,
     tr_rounds = []\<rparr>"

theorem run_trickle_consistent_witness:
  "store_ok (tk_store (snd (run_trickle demo_run_trickle demo_trickle)))"
proof -
  have start: "consistent (tk_store demo_trickle)"
    using consistent_empty by (simp add: demo_trickle_def demo_indexer_def)
  have "run_trickle demo_run_trickle demo_trickle = (Stopped, run_locked demo_run_trickle demo_trickle)"
    by (simp add: run_trickle_def demo_run_trickle_def demo_trickle_env_def)
  from run_trickle_consistent [OF _ _ this] start show ?thesis
    by (simp add: consistent_def run_trickle_def demo_run_trickle_def demo_trickle_env_def)
qed

definition demo_watched :: "(py_error + nat) \<times> indexer" where
  "demo_watched = index_file (te_indexing (demo_trickle_env 1 demo_edit)) 5
     (GivenInfo (watched_info ''/n/a.md'' \<lparr>df_mtime = 1, df_size = 9, df_content = Some demo_edit\<rparr>)) demo_indexer"

theorem watched_edit_loses_frontmatter_witness:
  "\<exists>d. get_source_document (\<lambda>p. p) (ix_store (snd demo_watched)) ''filesystem'' ''/n/a.md'' = Inr (Some d)
      \<and> sd_metadata_json d = JObj [] \<and> sd_title d = ''a''"
proof -
  let ?te = "demo_trickle_env 1 demo_edit"
  let ?f = "\<lparr>df_mtime = 1, df_size = 9, df_content = Some demo_edit\<rparr>"
  have "fst demo_watched = Inr 1" by code_simp
  then have run: "index_file (te_indexing ?te) 5 (GivenInfo (watched_info ''/n/a.md'' ?f)) (tk_indexer demo_trickle) =
      (Inr 1, snd demo_watched)"
    by (simp add: demo_watched_def demo_trickle_def prod_eq_iff)
  have disk: "ie_disk (te_indexing ?te) ''/n/a.md'' = Some ?f"
    by (simp add: demo_trickle_env_def demo_indexing_def demo_files_def)
  have "path_stem ''/n/a.md'' = ''a''" by code_simp
  with watched_edit_loses_frontmatter [OF disk refl run] show ?thesis
    by (auto simp: demo_trickle_env_def demo_indexing_def)
qed

end
