(* ===== verification/Surreal_Ids.thy ===== *)
theory Surreal_Ids
  imports Surreal_Schema
begin

text \<open>
  The record identifiers of \<open>storage/surreal.py\<close>: a caller's identifier is UTF-8 encoded, then
  base64 encoded over the URL-safe alphabet without padding, behind the prefix \<open>u8_\<close>.  A byte is
  a number below 256; text is Latin-1, so decoding bytes to anything else raises.  The decoder is
  that of \<open>binascii\<close>, which skips foreign characters.
\<close>

section \<open>UTF-8\<close>

fun utf8_encode :: "string \<Rightarrow> nat list" where
  "utf8_encode [] = []"
| "utf8_encode (c # cs) =
     (let n = of_char c :: nat
      in if n < 128 then n # utf8_encode cs else (192 + n div 64) # (128 + n mod 64) # utf8_encode cs)"

fun utf8_decode :: "nat list \<Rightarrow> py_error + string" where
  "utf8_decode [] = Inr []"
| "utf8_decode (b # bs) =
     (if b < 128 then try_bind (utf8_decode bs) (\<lambda>s. Inr (char_of b # s))
      else case bs of
        [] \<Rightarrow> Inl (UnicodeDecodeError ''utf-8'')
      | b' # rest \<Rightarrow>
          if (b = 194 \<or> b = 195) \<and> 128 \<le> b' \<and> b' < 192
          then try_bind (utf8_decode rest) (\<lambda>s. Inr (char_of ((b - 192) * 64 + (b' - 128)) # s))
          else Inl (UnicodeDecodeError ''utf-8''))"

section \<open>Base64\<close>

definition B64_ALPHABET :: string where
  "B64_ALPHABET = ''ABCDEFGHIJKLMNOPQRSTUVWXYZabcdefghijklmnopqrstuvwxyz0123456789-_''"

definition b64_digit :: "nat \<Rightarrow> char" where
  "b64_digit n = B64_ALPHABET ! n"

text \<open>The decoder maps \<open>-\<close> and \<open>_\<close> to \<open>+\<close> and \<open>/\<close> first, so it accepts both pairs.\<close>

definition b64_value :: "char \<Rightarrow> nat option" where
  "b64_value c =
     (if c = CHR ''+'' then Some 62 else if c = CHR ''/'' then Some 63
      else let i = length (takeWhile (\<lambda>x. x \<noteq> c) B64_ALPHABET) in if i < 64 then Some i else None)"

fun urlsafe_b64encode :: "nat list \<Rightarrow> string" where
  "urlsafe_b64encode [] = []"
| "urlsafe_b64encode [a] = [b64_digit (a div 4), b64_digit (a mod 4 * 16), CHR ''='', CHR ''='']"
| "urlsafe_b64encode [a, b] =
     [b64_digit (a div 4), b64_digit (a mod 4 * 16 + b div 16), b64_digit (b mod 16 * 4), CHR ''='']"
| "urlsafe_b64encode (a # b # c # rest) =
     b64_digit (a div 4) # b64_digit (a mod 4 * 16 + b div 16) # b64_digit (b mod 16 * 4 + c div 64)
     # b64_digit (c mod 64) # urlsafe_b64encode rest"

text \<open>The loop of the decoder: position in the group of four, the bits left over, the pads seen.\<close>

fun b64_loop :: "nat \<Rightarrow> nat \<Rightarrow> nat \<Rightarrow> string \<Rightarrow> py_error + nat list" where
  "b64_loop quad_pos leftchar pads [] =
     (if quad_pos = 0 then Inr []
      else if quad_pos = 1 then Inl (ValueError
        ''Invalid base64-encoded string: number of data characters cannot be 1 more than a multiple of 4'')
      else Inl (ValueError ''Incorrect padding''))"
| "b64_loop quad_pos leftchar pads (c # cs) =
     (if c = CHR ''='' then
        (if 2 \<le> quad_pos \<and> 4 \<le> quad_pos + pads + 1 then Inr []
         else b64_loop quad_pos leftchar (if 2 \<le> quad_pos then pads + 1 else pads) cs)
      else case b64_value c of
        None \<Rightarrow> b64_loop quad_pos leftchar pads cs
      | Some v \<Rightarrow>
          if quad_pos = 0 then b64_loop 1 v 0 cs
          else if quad_pos = 1 then try_bind (b64_loop 2 (v mod 16) 0 cs) (\<lambda>bs. Inr ((leftchar * 4 + v div 16) # bs))
          else if quad_pos = 2 then try_bind (b64_loop 3 (v mod 4) 0 cs) (\<lambda>bs. Inr ((leftchar * 16 + v div 4) # bs))
          else try_bind (b64_loop 0 0 0 cs) (\<lambda>bs. Inr ((leftchar * 64 + v) # bs)))"

definition urlsafe_b64decode :: "string \<Rightarrow> py_error + nat list" where
  "urlsafe_b64decode s = b64_loop 0 0 0 s"

section \<open>Record ids\<close>

text \<open>\<open>encoded.rstrip("=")\<close> and \<open>-len(payload) % 4\<close>.\<close>

definition urlsafe_encode :: "string \<Rightarrow> string" where
  "urlsafe_encode raw_identifier = ''u8_'' @ rstrip_char (CHR ''='') (urlsafe_b64encode (utf8_encode raw_identifier))"

definition urlsafe_decode :: "string \<Rightarrow> py_error + string" where
  "urlsafe_decode encoded_identifier =
     (if \<not> py_startswith encoded_identifier ''u8_''
      then Inl (ValueError ''unsupported Surreal record identifier encoding'')
      else let payload = drop 3 encoded_identifier;
               padding = replicate (nat ((- int (length payload)) mod 4)) (CHR ''='')
           in try_bind (urlsafe_b64decode (payload @ padding)) utf8_decode)"

record surreal_record =
  sr_table :: string
  sr_id :: string

definition encode_surreal_record_id :: "string \<Rightarrow> string \<Rightarrow> py_error + surreal_record" where
  "encode_surreal_record_id table_name raw_identifier =
     (if table_name = [] then Inl (ValueError ''table_name must not be empty'')
      else Inr \<lparr>sr_table = table_name, sr_id = urlsafe_encode raw_identifier\<rparr>)"

definition decode_surreal_record_id :: "surreal_record \<Rightarrow> py_error + string" where
  "decode_surreal_record_id record = urlsafe_decode (sr_id record)"

section \<open>The round trip\<close>

lemma byte_cases:
  fixes n :: nat
  assumes "n < 256"
  shows "n div 64 < 4" "128 \<le> n \<Longrightarrow> n div 64 = 2 \<or> n div 64 = 3" "n div 16 div 16 = 0"
  using assms by auto

lemma utf8_bytes: "list_all (\<lambda>b. b < 256) (utf8_encode s)"
proof (induction s rule: utf8_encode.induct)
  case (2 c cs)
  have "of_char c div 64 < (4 :: nat)" by (rule byte_cases(1) [OF nat_of_char_less_256])
  with 2 show ?case by (auto simp: Let_def)
qed simp

lemma utf8_round_trip: "utf8_decode (utf8_encode s) = Inr s"
proof (induction s rule: utf8_encode.induct)
  case (2 c cs)
  let ?n = "of_char c :: nat"
  have bound: "?n < 256" by (rule nat_of_char_less_256)
  show ?case
  proof (cases "?n < 128")
    case True
    with 2 show ?thesis by (simp add: Let_def)
  next
    case False
    have "?n div 64 = 2 \<or> ?n div 64 = 3" using byte_cases(2) [OF bound] False by linarith
    moreover have "?n div 64 * 64 + ?n mod 64 = ?n" by simp
    ultimately have joined: "(192 + ?n div 64 - 192) * 64 + (128 + ?n mod 64 - 128) = ?n"
      and range: "192 + ?n div 64 = 194 \<or> 192 + ?n div 64 = 195" by auto
    have "?n mod 64 < 64" by simp
    with 2 [OF refl] False joined range show ?thesis by (simp add: Let_def)
  qed
qed simp

lemma b64_value_digit: "n < 64 \<Longrightarrow> b64_value (b64_digit n) = Some n \<and> b64_digit n \<noteq> CHR ''=''"
proof -
  have "list_all (\<lambda>n. b64_value (b64_digit n) = Some n \<and> b64_digit n \<noteq> CHR ''='') [0..<64]" by code_simp
  then show "n < 64 \<Longrightarrow> ?thesis" by (simp add: list_all_iff)
qed

lemma sextets:
  fixes a b c :: nat
  assumes "a < 256" "b < 256" "c < 256"
  shows "a div 4 < 64" "a mod 4 * 16 + b div 16 < 64" "a mod 4 * 16 < 64" "b mod 16 * 4 + c div 64 < 64"
    "b mod 16 * 4 < 64" "c mod 64 < 64"
    "(a mod 4 * 16 + b div 16) mod 16 = b div 16" "(a mod 4 * 16 + b div 16) div 16 = a mod 4"
    "(b mod 16 * 4 + c div 64) mod 4 = c div 64" "(b mod 16 * 4 + c div 64) div 4 = b mod 16"
  using assms by auto

lemma b64_loop_encode:
  "list_all (\<lambda>b. b < 256) bs \<Longrightarrow> b64_loop 0 0 0 (urlsafe_b64encode bs) = Inr bs"
proof (induction bs rule: urlsafe_b64encode.induct)
  case (2 a)
  then show ?case using sextets [of a 0 0] by (simp add: b64_value_digit)
next
  case (3 a b)
  then show ?case using sextets [of a b 0] by (simp add: b64_value_digit)
next
  case (4 a b c rest)
  then show ?case using sextets [of a b c] byte_cases(3) [of b] by (simp add: b64_value_digit del: div_eq_0_iff)
qed simp

lemma digit_not_pad: "n < 64 \<Longrightarrow> b64_digit n \<noteq> CHR ''=''"
  using b64_value_digit by blast

text \<open>The digits of an encoding, and the pads that bring them to a multiple of four.\<close>

lemma b64_digits:
  assumes "list_all (\<lambda>b. b < 256) bs"
  shows "\<exists>ds k. urlsafe_b64encode bs = ds @ replicate k (CHR ''='') \<and> list_all (\<lambda>c. c \<in> set B64_ALPHABET) ds
    \<and> k < 4 \<and> (length ds + k) mod 4 = 0"
proof -
  have digit: "b64_digit n \<in> set B64_ALPHABET" if "n < 64" for n
  proof -
    have "length B64_ALPHABET = 64" by (simp add: B64_ALPHABET_def)
    with that show ?thesis by (simp add: b64_digit_def)
  qed
  show ?thesis
    using assms
  proof (induction bs rule: urlsafe_b64encode.induct)
    case (2 a)
    then show ?case using sextets [of a 0 0]
      by (intro exI [of _ "[b64_digit (a div 4), b64_digit (a mod 4 * 16)]"] exI [of _ 2])
        (simp add: digit numeral_2_eq_2)
  next
    case (3 a b)
    then show ?case using sextets [of a b 0]
      by (intro exI [of _ "[b64_digit (a div 4), b64_digit (a mod 4 * 16 + b div 16), b64_digit (b mod 16 * 4)]"] exI [of _ 1])
        (simp add: digit)
  next
    case (4 a b c rest)
    then obtain ds k where "urlsafe_b64encode rest = ds @ replicate k (CHR ''='')" "list_all (\<lambda>c. c \<in> set B64_ALPHABET) ds"
      "k < 4" "(length ds + k) mod 4 = 0" by auto
    then show ?case using sextets [of a b c] 4(2)
      by (intro exI [of _ "b64_digit (a div 4) # b64_digit (a mod 4 * 16 + b div 16) # b64_digit (b mod 16 * 4 + c div 64)
          # b64_digit (c mod 64) # ds"] exI [of _ k]) (simp add: digit mod_Suc)
  qed simp
qed

lemma pad_count:
  assumes "k < 4" and "(n + k) mod 4 = 0"
  shows "nat ((- int n) mod 4) = k"
proof -
  have "(int n + int k) mod 4 = int ((n + k) mod 4)" by (simp add: zmod_int)
  then have sum: "(int n + int k) mod 4 = 0" using assms(2) by simp
  have "(- x) mod 4 = y" if "(x + y) mod 4 = 0" "0 \<le> y" "y < 4" for x y :: int
    using that by presburger
  from this [OF sum] assms(1) show ?thesis by simp
qed

lemma rstrip_pads:
  assumes "CHR ''='' \<notin> set ds"
  shows "rstrip_char (CHR ''='') (ds @ replicate k (CHR ''='')) = ds"
proof -
  have "dropWhile (\<lambda>x. x = c) (replicate k c @ xs) = dropWhile (\<lambda>x. x = c) xs" for c and xs :: string
    by (induction k) simp_all
  moreover have "dropWhile (\<lambda>x. x = CHR ''='') (rev ds) = rev ds"
    using assms by (cases "rev ds") auto
  ultimately show ?thesis by (simp add: rstrip_char_def)
qed

text \<open>
  C37: Record identifiers are safe and lossless.  For every table and every text, the encoded
  identifier consists of letters, digits, minus and underscore only, and decoding the record
  gives back the text; so two records are the same only for the same table and the same text.
\<close>

theorem surreal_record_id_round_trip:
  assumes "table_name \<noteq> []"
  shows "\<exists>r :: surreal_record. encode_surreal_record_id table_name raw = Inr r \<and> decode_surreal_record_id r = Inr raw
    \<and> set (sr_id r) \<subseteq> set B64_ALPHABET
    \<and> (\<forall>table_name' raw'. encode_surreal_record_id table_name' raw' = Inr r \<longrightarrow> table_name' = table_name \<and> raw' = raw)"
proof -
  have decode: "urlsafe_decode (urlsafe_encode s) = Inr s \<and> set (urlsafe_encode s) \<subseteq> set B64_ALPHABET" for s
  proof -
    obtain ds k where enc: "urlsafe_b64encode (utf8_encode s) = ds @ replicate k (CHR ''='')"
      and digits: "list_all (\<lambda>c. c \<in> set B64_ALPHABET) ds" and k: "k < 4" "(length ds + k) mod 4 = 0"
      using b64_digits [OF utf8_bytes, of s] by (elim exE conjE)
    have pad: "CHR ''='' \<notin> set B64_ALPHABET" by (simp add: B64_ALPHABET_def)
    then have strip: "urlsafe_encode s = ''u8_'' @ ds"
      using digits rstrip_pads [of ds k] by (auto simp: urlsafe_encode_def enc list_all_iff)
    have "nat ((- int (length ds)) mod 4) = k" by (rule pad_count [OF k])
    moreover have "py_startswith (''u8_'' @ ds) ''u8_''" by (simp add: py_startswith_def)
    ultimately have "urlsafe_decode (''u8_'' @ ds) = try_bind (urlsafe_b64decode (ds @ replicate k (CHR ''=''))) utf8_decode"
      by (simp add: urlsafe_decode_def)
    also have "\<dots> = Inr s"
      unfolding urlsafe_b64decode_def enc [symmetric] b64_loop_encode [OF utf8_bytes] by (simp add: utf8_round_trip)
    finally have "urlsafe_decode (''u8_'' @ ds) = Inr s" .
    moreover have "set ''u8_'' \<subseteq> set B64_ALPHABET" by (simp add: B64_ALPHABET_def)
    then have "set (''u8_'' @ ds) \<subseteq> set B64_ALPHABET"
      using digits unfolding set_append list_all_iff by blast
    ultimately show ?thesis by (simp only: strip simp_thms)
  qed
  have inj: "s' = s" if "urlsafe_encode s' = urlsafe_encode s" for s s'
    using decode [of s] decode [of s'] that by (metis sum.inject(2))
  show ?thesis
    using assms decode [of raw] inj
    by (auto simp: encode_surreal_record_id_def decode_surreal_record_id_def split: if_splits)
qed

theorem surreal_record_id_round_trip_witness:
  "\<exists>r :: surreal_record. encode_surreal_record_id ''chunks'' ''a/b'' = Inr r \<and> decode_surreal_record_id r = Inr ''a/b''"
  using surreal_record_id_round_trip [of "''chunks''" "''a/b''"] by blast

lemma surreal_id_examples:
  "urlsafe_encode ''a/b'' = ''u8_YS9i''" "urlsafe_decode ''u8_YS9iYw'' = Inr ''a/bc''"
  "urlsafe_decode ''YS9i'' = Inl (ValueError ''unsupported Surreal record identifier encoding'')"
  by code_simp+

end
