(* ===== verification/Surreal_Store_Laws.thy ===== *)
theory Surreal_Store_Laws
  imports Surreal_Stores Delta_Contracts Delta_Direct_Laws
begin

text \<open>
  What the search side reads of what the writers stored: a chunk row is converted back to the chunk
  it was made of, and so the chunks of a direct file write come back through the schema.
\<close>

section \<open>Reading a chunk row\<close>

text \<open>The chunk as the store reads it back, for the reference and the document it was stored with.\<close>

definition read_back :: "chunk \<Rightarrow> string \<Rightarrow> string \<Rightarrow> chunk" where
  "read_back c ref document_ref =
     (let refs = (case ch_provenance c of Some p \<Rightarrow> cp_source_unit_refs p | None \<Rightarrow> [])
      in c\<lparr>ch_kind := ''document'',
           ch_provenance := Some \<lparr>cp_namespace = fst (partition_colon ref), cp_document_ref = document_ref, cp_ref = ref,
             cp_source_unit_refs = (if refs = [] \<and> py_startswith ref ''telegram:'' then [document_ref] else refs),
             cp_chunk_strategy = ''contextual_512_50'', cp_parser_name = Some ''markdown''\<rparr>\<rparr>)"

text \<open>Columns equal in the sense of \<open>same_row\<close> are converted alike.\<close>

lemma json_norm_str: "json_norm j = JStr s \<longleftrightarrow> j = JStr s"
  by (cases j) auto

lemma norm_str: "cell_norm x = Json (JStr s) \<Longrightarrow> x = Json (JStr s)"
  by (cases x) (auto simp: json_norm_str split: if_splits)

lemma norm_int: "cell_norm x = Json (JInt i) \<Longrightarrow> cell_int x = Inr i"
proof -
  assume norm: "cell_norm x = Json (JInt i)"
  show ?thesis
  proof (cases x)
    case (Json j)
    with norm show ?thesis by (cases j) (auto simp: cell_int_def)
  next
    case (Float r)
    with norm have "of_int (floor r) = r" "floor r = i" by (auto simp: is_integral_def split: if_splits)
    then have "r = of_int i" by simp
    then show ?thesis by (simp add: Float cell_int_def)
  qed (use norm in \<open>auto split: if_splits\<close>)
qed

lemma norm_items: "cell_norm x = Json (JList (map JStr xs)) \<Longrightarrow> cell_items x = Inr (map (Json \<circ> JStr) xs)"
proof -
  assume norm: "cell_norm x = Json (JList (map JStr xs))"
  show ?thesis
  proof (cases x)
    case (Json j)
    with norm obtain js where js: "j = JList js" "map json_norm js = map JStr xs" by (cases j) auto
    from js(2) have "js = map JStr xs"
    proof (induction js arbitrary: xs)
      case (Cons a js)
      then obtain s xs' where "xs = s # xs'" "json_norm a = JStr s" "map json_norm js = map JStr xs'" by (cases xs) auto
      with Cons.IH [of xs'] show ?case by (simp add: json_norm_str)
    qed simp
    then show ?thesis by (simp add: Json js(1) cell_items_def)
  next
    case (Floats v)
    with norm have "map (\<lambda>x. JInt (floor x)) v = map JStr xs" by (auto split: if_splits)
    then have "v = []" "xs = []" by (cases v; cases xs; auto)+
    with Floats show ?thesis by (simp add: cell_items_def)
  qed (use norm in \<open>auto split: if_splits\<close>)
qed

lemma norm_lists:
  assumes "cell_norm x = Json (JList (map JStr xs))"
  shows "cell_strings dn x = Inr xs" "cell_texts e x = Inr xs"
proof -
  have "map (cell_str dn \<circ> (Json \<circ> JStr)) xs = xs" by (simp add: map_idI cell_str_def py_str_def)
  then show "cell_strings dn x = Inr xs" by (simp add: norm_items [OF assms] cell_strings_def)
  have "try_list (\<lambda>x. case cell_text x of Some s \<Rightarrow> Inr s | None \<Rightarrow> Inl e) (map (Json \<circ> JStr) xs) = Inr xs"
    by (induction xs) (simp_all add: cell_text_def)
  then show "cell_texts e x = Inr xs" by (simp add: norm_items [OF assms] cell_texts_def)
qed

text \<open>A row whose columns are equal to those of a chunk is read back as that chunk.\<close>

definition chunk_columns :: "chunk \<Rightarrow> string \<Rightarrow> string \<Rightarrow> (string \<Rightarrow> cell option) \<Rightarrow> bool" where
  "chunk_columns c ref document_ref get \<longleftrightarrow>
     get ''chunk_id'' = Some (str_cell (ch_chunk_id c))
     \<and> get ''file_paths'' = Some (Json (JList (map JStr (ch_file_paths c))))
     \<and> get ''heading_hierarchy'' = Some (Json (JList (map JStr (ch_heading_hierarchy c))))
     \<and> get ''level'' = Some (Json (JInt (ch_level c))) \<and> get ''text'' = Some (str_cell (ch_text c))
     \<and> get ''ref'' = Some (str_cell ref) \<and> get ''document_ref'' = Some (str_cell document_ref)
     \<and> get ''source_unit_refs'' = Some (Json (JList (map JStr
         (case ch_provenance c of Some p \<Rightarrow> cp_source_unit_refs p | None \<Rightarrow> []))))
     \<and> (get ''chunk_index'' = Some (Json (JInt (int (ch_chunk_index c)))) \<or> get ''chunk_index'' = None \<and> ch_chunk_index c = 0)"

lemma view_get: "k \<noteq> ''id'' \<Longrightarrow> row_view row k = map_option cell_norm (dict_get row k)"
  by (simp add: row_view_def dict_get_pop)

lemma chunk_of_columns:
  assumes "chunk_columns c ref document_ref (row_view row)"
  shows "chunk_of_row dn row = Inr (read_back c ref document_ref)" "row \<noteq> []"
proof -
  note a = assms [unfolded chunk_columns_def]
  have str: "dict_get row k = Some (str_cell s)" if "row_view row k = Some (str_cell s)" "k \<noteq> ''id''" for k s
    using that norm_str by (auto simp: view_get)
  have strs: "cell_strings dn (row_default row k d) = Inr xs" "cell_texts e (row_default row k d) = Inr xs"
    if "row_view row k = Some (Json (JList (map JStr xs)))" "k \<noteq> ''id''" for k xs d e
    using that norm_lists by (auto simp: view_get row_default_def dict_get_default_def)
  have int: "cell_int (row_default row k d) = Inr i" if "row_view row k = Some (Json (JInt i))" "k \<noteq> ''id''" for k i d
    using that norm_int by (auto simp: view_get row_default_def dict_get_default_def)
  have ix: "cell_int (row_default row ''chunk_index'' (Json (JInt 0))) = Inr (int (ch_chunk_index c))"
    using a int [of "''chunk_index''"]
    by (auto simp: view_get row_default_def dict_get_default_def cell_int_def)
  have gets: "dict_get row ''chunk_id'' = Some (str_cell (ch_chunk_id c))" "dict_get row ''text'' = Some (str_cell (ch_text c))"
    "dict_get row ''ref'' = Some (str_cell ref)" "dict_get row ''document_ref'' = Some (str_cell document_ref)"
    using a by (auto intro!: str)
  have lists: "cell_texts e (row_default row ''file_paths'' d) = Inr (ch_file_paths c)"
    "cell_strings dn (row_default row ''heading_hierarchy'' d) = Inr (ch_heading_hierarchy c)"
    "cell_texts e (row_default row ''source_unit_refs'' d) = Inr (case ch_provenance c of Some p \<Rightarrow> cp_source_unit_refs p | None \<Rightarrow> [])"
    "cell_int (row_default row ''level'' d) = Inr (ch_level c)" for d e
    using a by (auto intro!: strs int)
  show "chunk_of_row dn row = Inr (read_back c ref document_ref)"
    using gets lists ix
    by (simp add: chunk_of_row_def stored_provenance_def row_get_def row_item_def dict_get_default_def cell_text_def
        row_default_def read_back_def Let_def cell_str_def py_str_def)
  show "row \<noteq> []" using gets(1) by auto
qed

lemma get_chunk_row:
  assumes "dict_get (cn_db c) (''chunks'', chunk_id) = Some row" "cn_faults c = []"
    "chunk_columns ch ref document_ref (row_view row)"
  shows "surreal_get_chunk dn chunk_id c = (c, Inr (Some (read_back ch ref document_ref)))"
  using assms chunk_of_columns(1) [OF assms(3), of dn] chunk_of_columns(2) [OF assms(3)]
  by (simp add: surreal_get_chunk_def remote_bind_def remote_select_def remote_call_def remote_lift_def Let_def)

section \<open>The chunks of a direct file write\<close>

lemma chunk_fields:
  "allowed_fields ''chunks'' = Some [''schema_version'', ''original_chunk_id'', ''chunk_id'', ''chunk_strategy'',
     ''heading_hierarchy'', ''level'', ''document_ref'', ''ref'', ''title'', ''tags_text'', ''text'', ''file_paths'',
     ''file_bindings'', ''source_unit_refs'', ''metadata'']"
  by code_simp

lemma direct_chunk_id: "dc_row x = direct_chunk_row d ch strategy \<Longrightarrow> chunk_raw_identifier dn x = ch_chunk_id ch"
  by (simp add: chunk_raw_identifier_def first_column_def direct_chunk_row_def row_get_def dict_get_default_def cell_str_def py_str_def)

text \<open>The chunk as a direct write stores it: with the paths it is bound to, without its index.\<close>

definition direct_view :: "chunk \<Rightarrow> source_document \<Rightarrow> chunk" where
  "direct_view ch d = ch\<lparr>ch_chunk_index := 0, ch_file_paths := direct_file_paths ch d\<rparr>"

lemma direct_chunk_columns:
  assumes "dc_row x = direct_chunk_row d ch strategy"
  shows "chunk_columns (direct_view ch d) (provenance_ref_of ch) (sd_document_ref d)
    (row_view (stored_row dn ''chunks'' raw (chunk_payload dn x) []))"
proof -
  have norm: "map (json_norm \<circ> JStr) xs = map JStr xs" for xs by simp
  show ?thesis
    by (simp add: assms chunk_columns_def row_view_def stored_row_def keep_allowed_def chunk_fields owned_defaults_def
        set_defaults_def METADATA_TABLES_def chunk_payload_def Let_def direct_chunk_row_def str_list_cell_def
        direct_view_def unit_refs_of_def setdefault_def int_cell_def norm split: option.split)
qed

lemma related: "list_all2 P xs ys \<Longrightarrow> x \<in> set xs \<Longrightarrow> \<exists>y \<in> set ys. P x y"
  by (induction rule: list_all2_induct) auto

lemma related_back: "list_all2 P xs ys \<Longrightarrow> y \<in> set ys \<Longrightarrow> \<exists>x \<in> set xs. P x y"
  by (induction rule: list_all2_induct) auto

text \<open>The changes of the chunk section that go to the record of a chunk are those of the chunk.\<close>

lemma file_chunk_changes:
  fixes dn :: delta_env
  assumes "file_shape w m document binding g" "distinct (map ch_chunk_id (fw_chunks w))" "ch \<in> set (fw_chunks w)"
  defines "ups \<equiv> filter (\<lambda>x. chunk_raw_identifier dn x = ch_chunk_id ch)
    (sp_rows (section_phase (''chunks'', ''write_chunks'', dm_chunks m)))"
  shows "ups \<noteq> []" "x \<in> set ups \<Longrightarrow> dc_row x = direct_chunk_row (fw_source_document w) ch (fw_chunk_strategy w)"
proof -
  let ?row = "\<lambda>c. direct_chunk_row (fw_source_document w) c (fw_chunk_strategy w)"
  note s = assms(1) [unfolded file_shape_def]
  have all: "list_all2 (\<lambda>c x. dc_row x = ?row c) (fw_chunks w) (dg_chunks g)" using s by blast
  have "dm_chunks m = rows_section (dg_chunks g)" "list_all is_upsert (dg_chunks g)" using s by simp_all
  then have rows: "set (sp_rows (section_phase (''chunks'', ''write_chunks'', dm_chunks m))) = set (dg_chunks g)"
    by (auto simp: section_phase_def rows_section_def list_all_iff is_upsert_def)
  have from_chunk: "\<exists>c \<in> set (fw_chunks w). dc_row x = ?row c" if "x \<in> set (dg_chunks g)" for x
    by (rule related_back [OF all that])
  obtain y where "y \<in> set (dg_chunks g)" "dc_row y = ?row ch"
    using related [OF all assms(3)] by blast
  then show "ups \<noteq> []" using rows direct_chunk_id by (fastforce simp: ups_def filter_empty_conv)
  show "dc_row x = ?row ch" if "x \<in> set ups"
  proof -
    from that rows have x: "x \<in> set (dg_chunks g)" "chunk_raw_identifier dn x = ch_chunk_id ch" by (auto simp: ups_def)
    then obtain c where c: "c \<in> set (fw_chunks w)" "dc_row x = ?row c" using from_chunk by blast
    with x direct_chunk_id [of x _ c] have "ch_chunk_id c = ch_chunk_id ch" by simp
    with assms(2,3) c(1) have "c = ch" by (metis distinct_map inj_onD)
    with c(2) show ?thesis by simp
  qed
qed

text \<open>
  C7: what a direct write stores the search side can read.  After the manifest of a file is written, also
  when earlier attempts at it failed halfway, reading any of the chunks of the file gives the chunk
  back: its text, headings, level and paths, under the reference it is cited by.  Its index is not
  among the columns of the schema, and comes back as 0.
\<close>
theorem direct_chunks_readable:
  assumes "file_manifest dn w = Inr m" "distinct (map ch_chunk_id (fw_chunks w))" "ch \<in> set (fw_chunks w)"
    "dict_ok (cn_db c0)" "sync_attempts (store_writer dn ins) m c0 x"
    "run_surreal_delta_sync now batch_size (store_writer dn ins) m x = ((st, c), Inr res)" "cn_faults c = []"
  shows "surreal_get_chunk dn (ch_chunk_id ch) c =
    (c, Inr (Some (read_back (direct_view ch (fw_source_document w)) (provenance_ref_of ch)
      (sd_document_ref (fw_source_document w)))))"
proof -
  obtain document binding and g :: direct_changes where shape: "file_shape w m document binding g"
    using file_manifest_sections [OF assms(1)] by blast
  then have graph: "no_graph_rows m" by (simp add: file_shape_def no_graph_rows_def)
  let ?ups = "filter (\<lambda>x. chunk_raw_identifier dn x = ch_chunk_id ch)
    (sp_rows (section_phase (''chunks'', ''write_chunks'', dm_chunks m)))"
  let ?stored = "\<lambda>x. stored_row dn ''chunks'' (ch_chunk_id ch) (chunk_payload dn x) []"
  note ups = file_chunk_changes [OF shape assms(2,3)]
  have "cn_db c = manifest_effect (store_step dn) (store_mark dn) m (cn_db c0)"
    using store.resumed_run [OF store_writable [OF graph] assms(4-6)] by simp
  then obtain old where got: "dict_get (cn_db c) (''chunks'', ch_chunk_id ch) = fold put_one (map ?stored ?ups) old"
    using get_manifest_effect [OF assms(4) graph, of "''chunks''" "''write_chunks''" "dm_chunks m" "''chunks''"
        chunk_raw_identifier chunk_payload dn "ch_chunk_id ch"]
    by (simp add: manifest_sections_def point_methods_def)
  have "same_row (fold put_one (map ?stored ?ups) old) (?stored (last ?ups))" by (rule put_ones_last) (rule ups(1))
  then obtain row where row:
    "dict_get (cn_db c) (''chunks'', ch_chunk_id ch) = Some row" "row_view row = row_view (?stored (last ?ups))"
    unfolding got [symmetric] same_row_iff by blast
  have "last ?ups \<in> set ?ups" by (rule last_in_set) (rule ups(1))
  from direct_chunk_columns [OF ups(2) [OF this]] row(2)
  have "chunk_columns (direct_view ch (fw_source_document w)) (provenance_ref_of ch)
    (sd_document_ref (fw_source_document w)) (row_view row)" by simp
  from get_chunk_row [OF row(1) assms(7) this] show ?thesis .
qed

definition demo_direct :: "(sync_state \<times> connection) \<times> (py_error + sync_result)" where
  "demo_direct = run_surreal_delta_sync 0 1000 (store_writer demo_env demo_insert) (demo_file_manifest ''/a.md'' ''c1'')
     (new_sync_state, \<lparr>cn_db = [], cn_faults = []\<rparr>)"

theorem direct_chunks_readable_witness:
  "map_sum (\<lambda>_. ()) (map_option (\<lambda>ch. (ch_text ch, ch_file_paths ch, map_option cp_ref (ch_provenance ch))))
     (snd (surreal_get_chunk demo_env ''c1'' (snd (fst demo_direct)))) = Inr (Some (''x'', [''/a.md''], Some ''c1''))"
proof -
  have "\<not> isl (snd demo_direct)" by code_simp
  then obtain res where run: "run_surreal_delta_sync 0 1000 (store_writer demo_env demo_insert)
      (demo_file_manifest ''/a.md'' ''c1'') (new_sync_state, \<lparr>cn_db = [], cn_faults = []\<rparr>)
    = ((fst (fst demo_direct), snd (fst demo_direct)), Inr res)"
    by (cases "snd demo_direct") (simp_all add: demo_direct_def prod_eq_iff)
  have "cn_faults (snd (fst demo_direct)) = []" by code_simp
  from direct_chunks_readable [OF demo_file_manifests(1) _ _ _ sync_attempts.fresh run this]
  show ?thesis
    by (simp add: demo_file_write_def demo_source_def read_back_def direct_view_def direct_file_paths_def
        provenance_ref_of_def)
qed

end
