(* ===== verification/Search_Engines.thy ===== *)
theory Search_Engines
  imports Search_Pool Surreal_Stores
begin

text \<open>
  The search engines: entity lookup in the graph (\<open>search/graph_direct.py\<close>,
  \<open>search/surreal_graph.py\<close>), enrichment along the graph (\<open>search/graph_search.py\<close>), the full-text and
  the vector engine of SurrealDB (\<open>search/surreal_fts.py\<close>, \<open>search/surreal_vector.py\<close>), the dense
  engine (\<open>search/semantic.py\<close>) and the reranker (\<open>search/reranker.py\<close>).  What a store or a
  SurrealQL statement answers is a parameter, an error of the driver counts as a \<open>RuntimeError\<close>
  (both are caught alike), \<open>rnd\<close> rounds the result of a float operation, and the progress files and
  the log are left out.
\<close>

section \<open>Entities in a query\<close>

text \<open>\<open>{name.lower(): name for name in entities}\<close>.\<close>

definition entity_catalog :: "string list \<Rightarrow> (string, string) dict" where
  "entity_catalog names = fold (\<lambda>n d. dict_set (py_lower n) n d) names []"

text \<open>The phrase of \<open>n\<close> words from position \<open>i\<close>, and one step of the two loops over lengths and
  positions: entities matched so far, positions used.\<close>

definition phrase_at :: "string list \<Rightarrow> nat \<Rightarrow> nat \<Rightarrow> string" where
  "phrase_at words n i = py_join '' '' (Py_Strings.slice i (i + n) words)"

definition match_at :: "(string, string) dict \<Rightarrow> string list \<Rightarrow> nat \<Rightarrow> nat \<Rightarrow> string list \<times> nat list \<Rightarrow>
    string list \<times> nat list" where
  "match_at catalog words n i st =
     (case st of (matched, used) \<Rightarrow>
        if list_ex (\<lambda>pos. pos \<in> set used) [i..<i + n] then st
        else case dict_get catalog (phrase_at words n i) of
          None \<Rightarrow> st
        | Some e \<Rightarrow> (matched @ [e], used @ [i..<i + n]))"

definition match_length :: "(string, string) dict \<Rightarrow> string list \<Rightarrow> nat \<Rightarrow> string list \<times> nat list \<Rightarrow>
    string list \<times> nat list" where
  "match_length catalog words n st = fold (match_at catalog words n) [0..<length words - n + 1] st"

definition match_entities :: "(string, string) dict \<Rightarrow> string \<Rightarrow> string list" where
  "match_entities catalog query =
     (let words = findall_words (py_lower query)
      in fst (fold (match_length catalog words) (rev [1..<min 4 (length words) + 1]) ([], [])))"

section \<open>Graph-direct search\<close>

record graph_store =
  gs_get_all_entity_names :: "py_error + string list"
  gs_get_chunks_by_entity :: "string \<Rightarrow> py_error + string list"
  gs_get_related_sections :: "string \<Rightarrow> py_error + (string \<times> string \<times> rat) list"
  gs_related_for_seeds :: "(string list \<Rightarrow> py_error + (string \<times> string \<times> rat) list) option"

record graph_engine =
  ge_entity_catalog :: "(string, string) dict"
  ge_loaded :: bool

definition new_graph_engine :: graph_engine where
  "new_graph_engine = \<lparr>ge_entity_catalog = [], ge_loaded = False\<rparr>"

text \<open>\<open>except (RuntimeError, ValueError)\<close>; a \<open>UnicodeDecodeError\<close> is a \<open>ValueError\<close>.\<close>

definition runtime_or_value :: "py_error \<Rightarrow> bool" where
  "runtime_or_value e = (case e of RuntimeError _ \<Rightarrow> True | ValueError _ \<Rightarrow> True | UnicodeDecodeError _ \<Rightarrow> True | _ \<Rightarrow> False)"

definition is_runtime_error :: "py_error \<Rightarrow> bool" where
  "is_runtime_error e = (case e of RuntimeError _ \<Rightarrow> True | _ \<Rightarrow> False)"

definition load_catalog :: "graph_store \<Rightarrow> graph_engine \<Rightarrow> graph_engine \<times> (py_error + unit)" where
  "load_catalog gs e =
     (case gs_get_all_entity_names gs of
        Inr entities \<Rightarrow> (e\<lparr>ge_entity_catalog := entity_catalog entities, ge_loaded := True\<rparr>, Inr ())
      | Inl err \<Rightarrow>
          if runtime_or_value err then (e\<lparr>ge_entity_catalog := [], ge_loaded := True\<rparr>, Inr ())
          else (e, Inl err))"

text \<open>\<open>d[cid] = d.get(cid, 0.0) + x\<close>.\<close>

definition add_score :: "(rat \<Rightarrow> rat) \<Rightarrow> string \<Rightarrow> rat \<Rightarrow> hits \<Rightarrow> hits" where
  "add_score rnd cid x d = dict_set cid (rnd (dict_get_default d cid 0 + x)) d"

fun count_entities :: "(rat \<Rightarrow> rat) \<Rightarrow> graph_store \<Rightarrow> string list \<Rightarrow> hits \<Rightarrow> py_error + hits" where
  "count_entities rnd gs [] d = Inr d"
| "count_entities rnd gs (name # names) d =
     try_bind (gs_get_chunks_by_entity gs name) (\<lambda>ids.
       count_entities rnd gs names (fold (\<lambda>cid. add_score rnd cid 1) ids d))"

definition normalize_scores :: "(rat \<Rightarrow> rat) \<Rightarrow> hits \<Rightarrow> hits" where
  "normalize_scores rnd d =
     (if d \<noteq> [] \<and> 0 < Max (set (map snd d)) then map (\<lambda>(cid, s). (cid, rnd (s / Max (set (map snd d))))) d else d)"

definition graph_direct_search :: "(rat \<Rightarrow> rat) \<Rightarrow> graph_store \<Rightarrow> string \<Rightarrow> int \<Rightarrow> graph_engine \<Rightarrow>
    graph_engine \<times> (py_error + hits)" where
  "graph_direct_search rnd gs query top_k e =
     (case (if ge_loaded e then (e, Inr ()) else load_catalog gs e) of
        (e, Inl err) \<Rightarrow> (e, Inl err)
      | (e, Inr _) \<Rightarrow>
          if ge_entity_catalog e = [] then (e, Inr [])
          else let matched = match_entities (ge_entity_catalog e) query
               in if matched = [] then (e, Inr [])
                  else (e, try_bind (count_entities rnd gs matched []) (\<lambda>d.
                    Inr (py_take top_k (sorted_desc snd (normalize_scores rnd d))))))"

section \<open>Enrichment along the graph\<close>

definition MAX_SEED_CHUNK_IDS :: int where
  "MAX_SEED_CHUNK_IDS = 8"

fun bounded_seeds :: "nat \<Rightarrow> string list \<Rightarrow> string list \<Rightarrow> string list" where
  "bounded_seeds limit bounded [] = bounded"
| "bounded_seeds limit bounded (s # ss) =
     (if s \<in> set bounded then bounded_seeds limit bounded ss
      else if limit \<le> length bounded + 1 then bounded @ [s]
      else bounded_seeds limit (bounded @ [s]) ss)"

definition bounded_seed_chunk_ids :: "string list \<Rightarrow> int \<Rightarrow> string list" where
  "bounded_seed_chunk_ids seeds top_k =
     (let seed_limit = min (max top_k 0) MAX_SEED_CHUNK_IDS
      in if seed_limit \<le> 0 then [] else bounded_seeds (nat seed_limit) [] seeds)"

text \<open>Every exception of the store is swallowed.\<close>

definition collect_related_sections :: "graph_store \<Rightarrow> string list \<Rightarrow> (string \<times> string \<times> rat) list" where
  "collect_related_sections gs seeds =
     (if seeds = [] then []
      else case gs_related_for_seeds gs of
        Some batch \<Rightarrow> (case batch seeds of Inr ns \<Rightarrow> ns | Inl _ \<Rightarrow> [])
      | None \<Rightarrow> concat (map (\<lambda>s. case gs_get_related_sections gs s of Inr ns \<Rightarrow> ns | Inl _ \<Rightarrow> []) seeds))"

definition aggregate_scores :: "(rat \<Rightarrow> rat) \<Rightarrow> string list \<Rightarrow> (string \<times> string \<times> rat) list \<Rightarrow> hits" where
  "aggregate_scores rnd seeds neighbors =
     fold (\<lambda>(node, _, weight) d. if node \<in> set seeds then d else add_score rnd node weight d) neighbors []"

text \<open>\<open>lookup\<close> is \<open>get_chunks\<close> of the metadata store; the scores of the seeds are popped, which changes
  nothing.\<close>

definition graph_search :: "(rat \<Rightarrow> rat) \<Rightarrow> graph_store \<Rightarrow> (string list \<Rightarrow> py_error + chunk list) \<Rightarrow> int \<Rightarrow>
    string list \<Rightarrow> py_error + hits" where
  "graph_search rnd gs lookup top_k seed_chunk_ids =
     (if seed_chunk_ids = [] then Inr []
      else let seeds = bounded_seed_chunk_ids seed_chunk_ids top_k;
               scores = aggregate_scores rnd seeds (collect_related_sections gs seeds);
               scores = fold dict_pop seeds scores
           in try_bind (if scores = [] then Inr [] else lookup (dict_keys scores)) (\<lambda>chunks.
                Inr (py_take top_k (sorted_desc snd
                  (filter (\<lambda>(cid, _). cid \<in> set (map ch_chunk_id chunks)) scores)))))"

section \<open>Graph-direct search in SurrealDB\<close>

record surreal_graph_config =
  sg_chunk_strategy :: string
  sg_allowed_rel_types :: "string list"
  sg_catalog_limit :: int

text \<open>The three statements: the catalog, the relations of the entities, the chunks of a strategy.\<close>

record surreal_graph_queries =
  sq_catalog :: "int \<Rightarrow> py_error + delta_row list"
  sq_relations :: "string list \<Rightarrow> string list \<Rightarrow> int \<Rightarrow> py_error + delta_row list"
  sq_valid_chunks :: "string \<Rightarrow> string list \<Rightarrow> int \<Rightarrow> py_error + delta_row list"

text \<open>\<open>x in (None, "")\<close>.\<close>

definition missing :: "cell \<Rightarrow> bool" where
  "missing c \<longleftrightarrow> c = none_cell \<or> c = str_cell ''''"

definition surreal_catalog :: "delta_env \<Rightarrow> delta_row list \<Rightarrow> (string, string) dict" where
  "surreal_catalog dn rows =
     fold (\<lambda>row d. let name = row_get row ''name'' in if missing name then d
        else dict_set (py_lower (cell_str dn name)) (cell_str dn name) d) rows []"

definition load_surreal_catalog :: "delta_env \<Rightarrow> surreal_graph_queries \<Rightarrow> surreal_graph_config \<Rightarrow> graph_engine \<Rightarrow>
    graph_engine \<times> (py_error + unit)" where
  "load_surreal_catalog dn q cfg e =
     (case sq_catalog q (sg_catalog_limit cfg) of
        Inr rows \<Rightarrow> (e\<lparr>ge_entity_catalog := surreal_catalog dn rows, ge_loaded := True\<rparr>, Inr ())
      | Inl err \<Rightarrow>
          if is_runtime_error err then (e\<lparr>ge_entity_catalog := [], ge_loaded := True\<rparr>, Inr ())
          else (e, Inl err))"

definition RELATION_CANDIDATE_MULTIPLIER :: int where
  "RELATION_CANDIDATE_MULTIPLIER = 25"

definition relation_candidate_limit :: "int \<Rightarrow> int" where
  "relation_candidate_limit top_k = max top_k (top_k * RELATION_CANDIDATE_MULTIPLIER)"

definition load_valid_source_ids :: "delta_env \<Rightarrow> surreal_graph_queries \<Rightarrow> surreal_graph_config \<Rightarrow> delta_row list \<Rightarrow>
    py_error + string list" where
  "load_valid_source_ids dn q cfg rows =
     (let source_ids = rev (remdups (rev (map (cell_str dn) (filter (\<lambda>c. \<not> missing c) (map (\<lambda>row. row_get row ''source_id'') rows)))))
      in if source_ids = [] then Inr []
         else case sq_valid_chunks q (sg_chunk_strategy cfg) source_ids (int (length source_ids)) of
             Inl err \<Rightarrow> if is_runtime_error err then Inr [] else Inl err
           | Inr found \<Rightarrow> Inr (map (cell_str dn) (filter (\<lambda>c. \<not> missing c) (map (\<lambda>row. row_get row ''chunk_id'') found))))"

text \<open>\<open>row.get("total_weight", row.get("weight"))\<close>, then \<open>float\<close> with its errors caught; a text is
  taken as no number, and no float is infinite.\<close>

definition relation_weight :: "delta_row \<Rightarrow> rat option" where
  "relation_weight row =
     (case cell_float (row_default row ''total_weight'' (row_get row ''weight'')) of Inr w \<Rightarrow> Some w | Inl _ \<Rightarrow> None)"

definition score_relation :: "(rat \<Rightarrow> rat) \<Rightarrow> delta_env \<Rightarrow> surreal_graph_config \<Rightarrow> string list \<Rightarrow> delta_row \<Rightarrow> hits \<Rightarrow> hits" where
  "score_relation rnd dn cfg valid row d =
     (let chunk_id = row_get row ''source_id''; rel_type = row_get row ''rel_type''
      in if missing chunk_id \<or> cell_str dn chunk_id \<notin> set valid
            \<or> rel_type \<noteq> none_cell \<and> \<not> text_in rel_type (sg_allowed_rel_types cfg) then d
         else case relation_weight row of None \<Rightarrow> d | Some w \<Rightarrow> add_score rnd (cell_str dn chunk_id) w d)"

text \<open>\<open>sort(key=lambda item: (-item[1], item[0]))\<close>.\<close>

definition ranked :: "hits \<Rightarrow> hits" where
  "ranked d = sort_key (\<lambda>(cid, s). (- s, cid)) d"

definition rank_relations :: "(rat \<Rightarrow> rat) \<Rightarrow> int \<Rightarrow> hits \<Rightarrow> hits" where
  "rank_relations rnd top_k d =
     (if d = [] then []
      else let max_score = Max (set (map snd d))
           in if max_score \<le> 0 then [] else py_take top_k (ranked (map (\<lambda>(cid, s). (cid, rnd (s / max_score))) d)))"

definition surreal_graph_search :: "(rat \<Rightarrow> rat) \<Rightarrow> delta_env \<Rightarrow> surreal_graph_queries \<Rightarrow> surreal_graph_config \<Rightarrow>
    string \<Rightarrow> int \<Rightarrow> graph_engine \<Rightarrow> graph_engine \<times> (py_error + hits)" where
  "surreal_graph_search rnd dn q cfg query top_k e =
     (if top_k \<le> 0 then (e, Inr [])
      else case (if ge_loaded e then (e, Inr ()) else load_surreal_catalog dn q cfg e) of
        (e, Inl err) \<Rightarrow> (e, Inl err)
      | (e, Inr _) \<Rightarrow>
          if ge_entity_catalog e = [] then (e, Inr [])
          else let matched = match_entities (ge_entity_catalog e) query
               in if matched = [] then (e, Inr [])
                  else case sq_relations q matched (sg_allowed_rel_types cfg) (relation_candidate_limit top_k) of
                      Inl err \<Rightarrow> (e, if is_runtime_error err then Inr [] else Inl err)
                    | Inr rows \<Rightarrow> (e, try_bind (load_valid_source_ids dn q cfg rows) (\<lambda>valid.
                        if valid = [] then Inr []
                        else Inr (rank_relations rnd top_k (fold (score_relation rnd dn cfg valid) rows [])))))"

end
