(* ===== verification/Ranking_Engines.thy ===== *)
theory Ranking_Engines
  imports Search_Engines
begin

text \<open>
  The full-text engine, the two dense engines and the reranker (\<open>search/surreal_fts.py\<close>,
  \<open>search/surreal_vector.py\<close>, \<open>search/semantic.py\<close>, \<open>search/reranker.py\<close>), with the retrieval contract of
  \<open>storage/surreal_schema.py\<close>.  The answers of the statements, of the encoder's service and of the
  cross-encoder are parameters, as is the NFKC normalisation; \<open>rnd\<close> rounds the result of a float
  operation.
\<close>

section \<open>The keyword query\<close>

text \<open>\<open>re.sub("[...]+", " ", s)\<close>: every run of the class becomes one blank.\<close>

fun blank_runs :: "(char \<Rightarrow> bool) \<Rightarrow> string \<Rightarrow> string" where
  "blank_runs P [] = []"
| "blank_runs P (c # cs) = (if P c then CHR '' '' # blank_runs P (dropWhile P cs) else c # blank_runs P cs)"

definition is_control :: "char \<Rightarrow> bool" where
  "is_control c \<longleftrightarrow> (of_char c :: nat) < 32 \<or> (of_char c :: nat) = 127"

definition query_clean :: "char \<Rightarrow> bool" where
  "query_clean c \<longleftrightarrow> \<not> py_isword c \<and> \<not> py_isspace c \<and> c \<noteq> CHR 0x27 \<and> c \<noteq> CHR ''-''"

definition sanitize_keyword_query :: "(string \<Rightarrow> string) \<Rightarrow> string \<Rightarrow> string" where
  "sanitize_keyword_query nfkc query =
     py_strip (blank_runs py_isspace (blank_runs query_clean (blank_runs is_control (nfkc query))))"

record fts_config =
  ft_query_timeout_seconds :: int
  ft_max_query_timeout_seconds :: int
  ft_title_boost :: rat
  ft_text_boost :: rat
  ft_explain :: bool

definition validate_fts_config :: "fts_config \<Rightarrow> py_error + fts_config" where
  "validate_fts_config c =
     (if ft_query_timeout_seconds c \<le> 0 then Inl (ValueError ''query_timeout_seconds must be positive'')
      else if ft_max_query_timeout_seconds c \<le> 0 then Inl (ValueError ''max_query_timeout_seconds must be positive'')
      else if ft_title_boost c \<le> 0 then Inl (ValueError ''title_boost must be positive'')
      else if ft_text_boost c \<le> 0 then Inl (ValueError ''text_boost must be positive'')
      else Inr c)"

definition bounded_timeout_seconds :: "fts_config \<Rightarrow> int" where
  "bounded_timeout_seconds c = max 1 (min (ft_query_timeout_seconds c) (ft_max_query_timeout_seconds c))"

text \<open>What \<open>query_raw\<close> answers; a bool counts as its number.\<close>

datatype fts_value = FDict "(string \<times> fts_value) list" | FList "fts_value list" | FText string
  | FNumber rat | FNone

definition has_result :: "fts_value \<Rightarrow> bool" where
  "has_result v = (case v of FDict d \<Rightarrow> dict_get d ''result'' \<noteq> None | _ \<Rightarrow> False)"

definition result_set :: "fts_value \<Rightarrow> fts_value list list" where
  "result_set row =
     (case row of
        FDict d \<Rightarrow> (case dict_get d ''result'' of
            Some (FList rows) \<Rightarrow> [rows] | Some FNone \<Rightarrow> [[]] | Some v \<Rightarrow> [[v]] | None \<Rightarrow> [])
      | FList rows \<Rightarrow> [rows]
      | _ \<Rightarrow> [])"

lemma dict_get_fts_size:
  "dict_get d k = Some (v :: fts_value) \<Longrightarrow> size v < Suc (size_list (size_prod (\<lambda>_. 0) size) d)"
  by (induction d) (auto split: if_splits)

function iter_result_sets :: "fts_value \<Rightarrow> fts_value list list" where
  "iter_result_sets rows =
     (case rows of
        FDict d \<Rightarrow> (case dict_get d ''result'' of Some v \<Rightarrow> iter_result_sets v | None \<Rightarrow> [[rows]])
      | FList [] \<Rightarrow> []
      | FList (r # rs) \<Rightarrow>
          (if list_all (\<lambda>row. \<not> has_result row) (r # rs) then [r # rs] else concat (map result_set (r # rs)))
      | _ \<Rightarrow> [])"
  by pat_completeness auto
termination
  by (relation "measure size") (auto dest!: dict_get_fts_size)

declare iter_result_sets.simps [simp del]

definition fts_hit :: "fts_value \<Rightarrow> (string \<times> rat) option" where
  "fts_hit row =
     (case row of
        FDict d \<Rightarrow>
          (case (dict_get d ''chunk_id'', case dict_get d ''score'' of Some s \<Rightarrow> Some s | None \<Rightarrow> dict_get d ''ft_score'') of
             (Some (FText cid), Some (FNumber score)) \<Rightarrow> Some (cid, score)
           | _ \<Rightarrow> None)
      | _ \<Rightarrow> None)"

fun boosts_from :: "rat list \<Rightarrow> fts_value list list \<Rightarrow> (rat \<times> fts_value list) list" where
  "boosts_from bs [] = []"
| "boosts_from [] (rows # sets) = (1, rows) # boosts_from [] sets"
| "boosts_from (b # bs) (rows # sets) = (b, rows) # boosts_from bs sets"

definition rows_to_ranked_pairs :: "(rat \<Rightarrow> rat) \<Rightarrow> rat \<Rightarrow> rat \<Rightarrow> fts_value \<Rightarrow> hits" where
  "rows_to_ranked_pairs rnd title_boost text_boost rows =
     ranked (fold (\<lambda>(boost, set_rows) d.
         fold (\<lambda>row d. case fts_hit row of None \<Rightarrow> d | Some (cid, score) \<Rightarrow> add_score rnd cid (rnd (score * boost)) d) set_rows d)
       (boosts_from [title_boost, text_boost] (iter_result_sets rows)) [])"

text \<open>The statements: with the query, the limit, the strategy and the timeout, and the \<open>EXPLAIN\<close>
  before it.\<close>

type_synonym fts_query = "string \<Rightarrow> int \<Rightarrow> string \<Rightarrow> int \<Rightarrow> py_error + fts_value"

definition fts_caught :: "py_error \<Rightarrow> bool" where
  "fts_caught e \<longleftrightarrow> runtime_or_value e \<or> (case e of TypeError _ \<Rightarrow> True | _ \<Rightarrow> False)"

definition run_fts_query :: "fts_query \<Rightarrow> fts_query \<Rightarrow> string \<Rightarrow> fts_config \<Rightarrow> string \<Rightarrow> int \<Rightarrow> py_error + fts_value" where
  "run_fts_query explain run strategy cfg query top_k =
     try_bind (if ft_explain cfg then explain query top_k strategy (bounded_timeout_seconds cfg) else Inr FNone)
       (\<lambda>_. run query top_k strategy (bounded_timeout_seconds cfg))"

definition fts_search :: "(rat \<Rightarrow> rat) \<Rightarrow> (string \<Rightarrow> string) \<Rightarrow> fts_query \<Rightarrow> fts_query \<Rightarrow> string \<Rightarrow> fts_config \<Rightarrow>
    string \<Rightarrow> int \<Rightarrow> py_error + hits" where
  "fts_search rnd nfkc explain run strategy cfg query top_k =
     (if top_k \<le> 0 then Inr []
      else let sanitized = sanitize_keyword_query nfkc query
           in if sanitized = [] then Inr []
              else case run_fts_query explain run strategy cfg sanitized top_k of
                  Inl e \<Rightarrow> if fts_caught e then Inr [] else Inl e
                | Inr rows \<Rightarrow> Inr (py_take top_k (rows_to_ranked_pairs rnd (ft_title_boost cfg) (ft_text_boost cfg) rows)))"

section \<open>The retrieval contract\<close>

definition MIN_TOP_K :: int where "MIN_TOP_K = 1"
definition MAX_TOP_K :: int where "MAX_TOP_K = 100"
definition MIN_HNSW_EF :: int where "MIN_HNSW_EF = 10"
definition MAX_HNSW_EF :: int where "MAX_HNSW_EF = 400"

definition surreal_embedding_table_name :: "int option \<Rightarrow> py_error + string" where
  "surreal_embedding_table_name shard_index =
     (case shard_index of
        None \<Rightarrow> Inr ''embeddings''
      | Some i \<Rightarrow> if i < 0 then Inl (ValueError ''shard_index must be non-negative'')
          else Inr (''embeddings_'' @ decimal_int i))"

definition surreal_embedding_shard_tables :: "int \<Rightarrow> py_error + string list" where
  "surreal_embedding_shard_tables shard_count =
     (if shard_count \<le> 0 then Inl (ValueError ''shard_count must be positive'')
      else if shard_count = 1 then Inr [''embeddings'']
      else try_list (\<lambda>i. surreal_embedding_table_name (Some i)) (map int [0..<nat shard_count]))"

definition vector_length :: "cell \<Rightarrow> nat option" where
  "vector_length c = (case c of Floats v \<Rightarrow> Some (length v) | Json (JList xs) \<Rightarrow> Some (length xs) | _ \<Rightarrow> None)"

definition dimension_fits :: "int \<Rightarrow> delta_row \<Rightarrow> bool" where
  "dimension_fits dimension row =
     (case vector_length (row_get row ''vector'') of None \<Rightarrow> True | Some n \<Rightarrow> n = 0 \<or> int n = dimension)"

definition validate_retrieval_contract :: "delta_env \<Rightarrow> int \<Rightarrow> delta_row list \<Rightarrow> int \<Rightarrow> int \<Rightarrow> py_error + unit" where
  "validate_retrieval_contract dn dimension rows top_k hnsw_ef =
     (if dimension \<le> 0 then Inl (ValueError ''embedding_dimension must be a positive integer'')
      else if top_k < MIN_TOP_K \<or> MAX_TOP_K < top_k then Inl (ValueError ''top_k must be between 1 and 100, inclusive'')
      else if hnsw_ef < MIN_HNSW_EF \<or> MAX_HNSW_EF < hnsw_ef
      then Inl (ValueError ''hnsw_ef must be between 10 and 400, inclusive'')
      else if hnsw_ef < top_k then Inl (ValueError ''hnsw_ef must be greater than or equal to top_k'')
      else if card (set (map (cell_str dn) (filter (\<lambda>c. \<not> missing c) (map (\<lambda>row. row_get row ''embedding_model'') rows)))) \<noteq> 1
      then Inl (ValueError ''target must contain a single active embedding_model'')
      else if list_all (dimension_fits dimension) rows then Inr ()
      else Inl (ValueError ''embedding_dimension mismatch''))"

section \<open>The dense engines\<close>

text \<open>\<open>EmbeddingEncoder.encode\<close>.\<close>

definition encode_text :: "(string list \<Rightarrow> http_result) \<Rightarrow> (string \<Rightarrow> rat list) \<Rightarrow> string \<Rightarrow> encoder \<Rightarrow>
    (py_error + rat list) \<times> encoder" where
  "encode_text post local_model text e =
     (if ec_embedding_url e \<noteq> None
      then (case encode_remote post [text] e of
          (Inl err, e) \<Rightarrow> (Inl err, e)
        | (Inr [], e) \<Rightarrow> (Inl (IndexError ''list index out of range''), e)
        | (Inr (v # vs), e) \<Rightarrow> (Inr v, e))
      else (Inr (local_model text), e))"

text \<open>Hits within a ratio of the best one, which comes first.\<close>

definition apply_score_floor :: "(rat \<Rightarrow> rat) \<Rightarrow> rat \<Rightarrow> hits \<Rightarrow> hits" where
  "apply_score_floor rnd score_floor results =
     (case results of
        [] \<Rightarrow> []
      | (_, top_score) # _ \<Rightarrow>
          if 0 < score_floor then filter (\<lambda>(cid, s). rnd (top_score * score_floor) \<le> s) results else results)"

definition semantic_search :: "(rat \<Rightarrow> rat) \<Rightarrow> (string list \<Rightarrow> http_result) \<Rightarrow> (string \<Rightarrow> rat list) \<Rightarrow>
    (rat list \<Rightarrow> int \<Rightarrow> py_error + hits) \<Rightarrow> rat \<Rightarrow> string \<Rightarrow> int \<Rightarrow> encoder \<Rightarrow> (py_error + hits) \<times> encoder" where
  "semantic_search rnd post local_model store_search score_floor query top_k e =
     (case encode_text post local_model (format_query e query) e of
        (Inl err, e) \<Rightarrow> (Inl err, e)
      | (Inr v, e) \<Rightarrow> (try_bind (store_search v top_k) (\<lambda>hs. Inr (apply_score_floor rnd score_floor hs)), e))"

record vector_engine =
  ve_encoder :: encoder
  ve_model_name :: string
  ve_chunk_strategy :: string
  ve_score_floor :: rat
  ve_embedding_dimension :: int
  ve_hnsw_ef :: int
  ve_embedding_tables :: "string list"
  ve_preconditions_valid :: "bool option"

text \<open>The statements, for a table: the models and dimensions of a strategy; the nearest rows.\<close>

record vector_queries =
  vq_preconditions :: "string \<Rightarrow> string \<Rightarrow> string \<Rightarrow> py_error + delta_row list"
  vq_nearest :: "string \<Rightarrow> int \<Rightarrow> int \<Rightarrow> string \<Rightarrow> string \<Rightarrow> rat list \<Rightarrow> int \<Rightarrow> py_error + delta_row list"

definition new_vector_engine :: "encoder \<Rightarrow> string \<Rightarrow> string \<Rightarrow> rat \<Rightarrow> int \<Rightarrow> int \<Rightarrow> int \<Rightarrow> py_error + vector_engine" where
  "new_vector_engine e model_name strategy score_floor dimension hnsw_ef shard_count =
     try_bind (surreal_embedding_shard_tables shard_count) (\<lambda>tables.
       Inr \<lparr>ve_encoder = e, ve_model_name = model_name, ve_chunk_strategy = strategy, ve_score_floor = score_floor,
            ve_embedding_dimension = dimension, ve_hnsw_ef = hnsw_ef, ve_embedding_tables = tables,
            ve_preconditions_valid = None\<rparr>)"

definition MAX_HNSW_RESULTS_PER_SHARD :: int where
  "MAX_HNSW_RESULTS_PER_SHARD = 20"

definition placeholder_rows :: "vector_engine \<Rightarrow> delta_row list" where
  "placeholder_rows ve =
     [[(''embedding_model'', str_cell (ve_model_name ve)), (''vector'', Floats (replicate (nat (ve_embedding_dimension ve)) 0))]]"

definition validate_request_bounds :: "delta_env \<Rightarrow> vector_engine \<Rightarrow> int \<Rightarrow> py_error + unit" where
  "validate_request_bounds dn ve top_k =
     (if top_k < MIN_TOP_K \<or> MAX_TOP_K < top_k then Inl (ValueError ''top_k must be between 1 and 100, inclusive'')
      else validate_retrieval_contract dn (ve_embedding_dimension ve) (placeholder_rows ve)
        (min top_k MAX_HNSW_RESULTS_PER_SHARD) (ve_hnsw_ef ve))"

text \<open>A row without a model is skipped; \<open>int\<close> of the dimension may raise.\<close>

definition precondition_row :: "delta_env \<Rightarrow> delta_row \<Rightarrow> py_error + delta_row list" where
  "precondition_row dn row =
     (let model = row_get row ''embedding_model''; raw = row_get row ''embedding_dimension''
      in if missing model then Inr []
         else try_bind (if raw = none_cell \<or> cell_float raw = Inr 0 then Inr 0 else cell_int raw) (\<lambda>n.
           Inr [[(''embedding_model'', str_cell (cell_str dn model)), (''vector'', Floats (replicate (nat n) 0))]]))"

definition load_precondition_rows :: "delta_env \<Rightarrow> vector_queries \<Rightarrow> vector_engine \<Rightarrow> py_error + delta_row list" where
  "load_precondition_rows dn vq ve =
     try_bind (try_list (\<lambda>tbl. vq_preconditions vq tbl (ve_chunk_strategy ve) (ve_model_name ve)) (ve_embedding_tables ve))
       (\<lambda>tables. try_bind (try_list (precondition_row dn) (concat tables)) (\<lambda>rs. Inr (concat rs)))"

definition ensure_retrieval_preconditions :: "delta_env \<Rightarrow> vector_queries \<Rightarrow> vector_engine \<Rightarrow>
    vector_engine \<times> (py_error + bool)" where
  "ensure_retrieval_preconditions dn vq ve =
     (case ve_preconditions_valid ve of
        Some b \<Rightarrow> (ve, Inr b)
      | None \<Rightarrow>
          (case try_bind (load_precondition_rows dn vq ve)
              (\<lambda>rows. validate_retrieval_contract dn (ve_embedding_dimension ve) rows 1 (ve_hnsw_ef ve)) of
             Inl e \<Rightarrow> if runtime_or_value e then (ve\<lparr>ve_preconditions_valid := Some False\<rparr>, Inr False) else (ve, Inl e)
           | Inr _ \<Rightarrow> (ve\<lparr>ve_preconditions_valid := Some True\<rparr>, Inr True)))"

definition nearest_rows :: "vector_queries \<Rightarrow> vector_engine \<Rightarrow> rat list \<Rightarrow> int \<Rightarrow> py_error + delta_row list" where
  "nearest_rows vq ve qvec top_k =
     try_bind (try_list (\<lambda>tbl. vq_nearest vq tbl (min top_k MAX_HNSW_RESULTS_PER_SHARD) (ve_hnsw_ef ve) (ve_model_name ve)
         (ve_chunk_strategy ve) qvec top_k) (ve_embedding_tables ve)) (\<lambda>tables. Inr (concat tables))"

definition normalize_result :: "delta_env \<Rightarrow> delta_row \<Rightarrow> (string \<times> rat) option" where
  "normalize_result dn row =
     (let chunk_id = row_get row ''chunk_id''; score = row_get row ''score''
      in if missing chunk_id \<or> score = none_cell then None
         else case cell_float score of Inr x \<Rightarrow> Some (cell_str dn chunk_id, x) | Inl _ \<Rightarrow> None)"

definition vector_hits :: "(rat \<Rightarrow> rat) \<Rightarrow> delta_env \<Rightarrow> vector_engine \<Rightarrow> int \<Rightarrow> delta_row list \<Rightarrow> hits" where
  "vector_hits rnd dn ve top_k rows =
     apply_score_floor rnd (ve_score_floor ve) (py_take top_k (ranked (List.map_filter (normalize_result dn) rows)))"

definition vector_search :: "(rat \<Rightarrow> rat) \<Rightarrow> delta_env \<Rightarrow> (string list \<Rightarrow> http_result) \<Rightarrow> (string \<Rightarrow> rat list) \<Rightarrow>
    vector_queries \<Rightarrow> string \<Rightarrow> int \<Rightarrow> vector_engine \<Rightarrow> vector_engine \<times> (py_error + hits)" where
  "vector_search rnd dn post local_model vq query top_k ve =
     (if py_strip query = [] then (ve, Inr [])
      else case validate_request_bounds dn ve top_k of
        Inl e \<Rightarrow> (ve, Inl e)
      | Inr _ \<Rightarrow>
          (case ensure_retrieval_preconditions dn vq ve of
             (ve, Inl e) \<Rightarrow> (ve, Inl e)
           | (ve, Inr False) \<Rightarrow> (ve, Inr [])
           | (ve, Inr True) \<Rightarrow>
               (case encode_text post local_model (format_query (ve_encoder ve) query) (ve_encoder ve) of
                  (Inl e, enc) \<Rightarrow> (ve\<lparr>ve_encoder := enc\<rparr>, Inl e)
                | (Inr qvec, enc) \<Rightarrow>
                    (ve\<lparr>ve_encoder := enc\<rparr>,
                     case nearest_rows vq ve qvec top_k of
                       Inl e \<Rightarrow> if is_runtime_error e then Inr [] else Inl e
                     | Inr rows \<Rightarrow> Inr (vector_hits rnd dn ve top_k rows)))))"

section \<open>The reranker\<close>

record reranker =
  rr_name :: string
  rr_model_name :: string
  rr_length_penalty :: bool
  rr_min_length :: int
  rr_relevance_floor :: "rat option"

definition id_text_pairs :: "chunk list \<Rightarrow> string list \<Rightarrow> (string \<times> string) list" where
  "id_text_pairs chunks chunk_ids =
     (let chunks_by_id = fold (\<lambda>c. dict_set (ch_chunk_id c) (ch_text c)) chunks []
      in List.map_filter (\<lambda>cid. map_option (\<lambda>text. (cid, text)) (dict_get chunks_by_id cid)) chunk_ids)"

definition penalized_score :: "(rat \<Rightarrow> rat) \<Rightarrow> int \<Rightarrow> string \<Rightarrow> rat \<Rightarrow> rat" where
  "penalized_score rnd min_length text score =
     (if int (length text) < min_length
      then rnd (score - rnd (rnd (1/5) * rnd (1 - rnd (of_int (int (length text)) / of_int min_length))))
      else score)"

definition adjusted_scores :: "(rat \<Rightarrow> rat) \<Rightarrow> reranker \<Rightarrow> (string \<times> string) list \<Rightarrow> rat list \<Rightarrow> rat list" where
  "adjusted_scores rnd rr pairs scores =
     (if rr_length_penalty rr
      then map (\<lambda>(score, (_, text)). penalized_score rnd (rr_min_length rr) text score) (zip scores pairs)
      else scores)"

definition passes_floor :: "reranker \<Rightarrow> rat \<Rightarrow> bool" where
  "passes_floor rr score = (case rr_relevance_floor rr of None \<Rightarrow> True | Some f \<Rightarrow> f \<le> score)"

text \<open>\<open>predict\<close> loads the model and scores the pairs; \<open>lookup\<close> is \<open>get_chunks\<close> of the store.\<close>

definition rerank :: "(rat \<Rightarrow> rat) \<Rightarrow> ((string \<times> string) list \<Rightarrow> py_error + rat list) \<Rightarrow>
    (string list \<Rightarrow> py_error + chunk list) \<Rightarrow> reranker \<Rightarrow> string \<Rightarrow> string list \<Rightarrow> int \<Rightarrow> bool \<Rightarrow> py_error + hits" where
  "rerank rnd predict lookup rr query chunk_ids top_k raise_on_provider_error =
     (if chunk_ids = [] then Inr []
      else try_bind (lookup chunk_ids) (\<lambda>chunks.
        if chunks = [] then Inr []
        else let pairs = id_text_pairs chunks chunk_ids
             in if pairs = [] then Inr []
                else case predict (map (\<lambda>(_, text). (query, text)) pairs) of
                    Inl e \<Rightarrow> if raise_on_provider_error then Inl e else Inr []
                  | Inr scores \<Rightarrow>
                      Inr (py_take top_k (sorted_desc snd (filter (\<lambda>(_, s). passes_floor rr s)
                        (zip (map fst pairs) (adjusted_scores rnd rr pairs scores)))))))"

record reranker_settings =
  rs_reranker_name :: string
  rs_length_penalty :: bool
  rs_min_length :: int
  rs_relevance_floor :: "rat option"

text \<open>The registry: name, model, backend.\<close>

definition BUILTIN_RERANKERS :: "(string, string \<times> string) dict" where
  "BUILTIN_RERANKERS = [(''mmarco-minilm'', (''cross-encoder/mmarco-mMiniLMv2-L12-H384-v1'', ''cross_encoder''))]"

definition create_reranker :: "string \<Rightarrow> reranker_settings \<Rightarrow> py_error + reranker" where
  "create_reranker name settings =
     (case dict_get BUILTIN_RERANKERS name of
        None \<Rightarrow> Inl (ValueError (''Unknown reranker '' @ repr_str name))
      | Some (model_name, backend) \<Rightarrow>
          if backend \<noteq> ''cross_encoder'' then Inl (ValueError (''Unsupported reranker backend '' @ repr_str backend))
          else Inr \<lparr>rr_name = name, rr_model_name = model_name, rr_length_penalty = rs_length_penalty settings,
                    rr_min_length = rs_min_length settings, rr_relevance_floor = rs_relevance_floor settings\<rparr>)"

definition factory_get :: "reranker_settings \<Rightarrow> string option \<Rightarrow> (string, reranker) dict \<Rightarrow>
    (py_error + reranker) \<times> (string, reranker) dict" where
  "factory_get settings name instances =
     (let resolved = (case name of Some (c # cs) \<Rightarrow> c # cs | _ \<Rightarrow> rs_reranker_name settings)
      in case dict_get instances resolved of
        Some r \<Rightarrow> (Inr r, instances)
      | None \<Rightarrow> (case create_reranker resolved settings of
          Inl e \<Rightarrow> (Inl e, instances) | Inr r \<Rightarrow> (Inr r, dict_set resolved r instances)))"

end
