(* ===== verification/Engine_Laws.thy ===== *)
theory Engine_Laws
  imports Ranking_Engines
begin

text \<open>
  What the engines promise: the entities of a query are found greedily, longest phrase first; the
  graph-direct engine ranks chunks by the number of entities they share with the query; and the
  vector engine's limit on the number of results against the pools the search asks for.
\<close>

section \<open>Matching entities\<close>

text \<open>A span is a number of words and a position.\<close>

definition span_ok :: "(string, string) dict \<Rightarrow> string list \<Rightarrow> nat \<times> nat \<Rightarrow> bool" where
  "span_ok catalog words sp \<longleftrightarrow>
     (case sp of (n, i) \<Rightarrow> 1 \<le> n \<and> n \<le> 4 \<and> i + n \<le> length words \<and> dict_get catalog (phrase_at words n i) \<noteq> None)"

definition span_words :: "nat \<times> nat \<Rightarrow> nat list" where
  "span_words sp = (case sp of (n, i) \<Rightarrow> [i..<i + n])"

definition span_entity :: "(string, string) dict \<Rightarrow> string list \<Rightarrow> nat \<times> nat \<Rightarrow> string" where
  "span_entity catalog words sp = (case sp of (n, i) \<Rightarrow> the (dict_get catalog (phrase_at words n i)))"

text \<open>A span is overlapped by one of at least its length.\<close>

definition covered :: "(nat \<times> nat) list \<Rightarrow> nat \<times> nat \<Rightarrow> bool" where
  "covered spans sp \<longleftrightarrow>
     (\<exists>m j. (m, j) \<in> set spans \<and> fst sp \<le> m \<and> set (span_words (m, j)) \<inter> set (span_words sp) \<noteq> {})"

definition matched_spans :: "(string, string) dict \<Rightarrow> string list \<Rightarrow> nat \<Rightarrow> (nat \<times> nat) list \<Rightarrow> string list \<times> nat list \<Rightarrow> bool" where
  "matched_spans catalog words n spans st \<longleftrightarrow>
     st = (map (span_entity catalog words) spans, concat (map span_words spans))
     \<and> list_all (\<lambda>sp. span_ok catalog words sp \<and> n \<le> fst sp) spans \<and> distinct (concat (map span_words spans))"

lemma covered_mono: "set spans \<subseteq> set spans' \<Longrightarrow> covered spans sp \<Longrightarrow> covered spans' sp"
  by (auto simp: covered_def)

lemma match_at_spans:
  assumes "matched_spans catalog words n spans st" "1 \<le> n" "n \<le> 4" "i + n \<le> length words"
  shows "\<exists>spans'. matched_spans catalog words n spans' (match_at catalog words n i st) \<and> set spans \<subseteq> set spans'
    \<and> (span_ok catalog words (n, i) \<longrightarrow> covered spans' (n, i))"
proof (cases "list_ex (\<lambda>pos. pos \<in> set (snd st)) [i..<i + n]")
  case True
  then obtain pos where pos: "pos \<in> set [i..<i + n]" "pos \<in> set (snd st)" by (auto simp: list_ex_iff)
  with assms(1) obtain sp where "sp \<in> set spans" "pos \<in> set (span_words sp)" by (auto simp: matched_spans_def)
  with assms(1) pos have "covered spans (n, i)"
    by (cases sp) (fastforce simp: covered_def matched_spans_def list_all_iff span_words_def)
  moreover have "match_at catalog words n i st = st" using True by (cases st) (simp add: match_at_def)
  ultimately show ?thesis using assms(1) by auto
next
  case False
  then have free: "set [i..<i + n] \<inter> set (concat (map span_words spans)) = {}"
    using assms(1) by (auto simp: matched_spans_def list_ex_iff)
  show ?thesis
  proof (cases "dict_get catalog (phrase_at words n i)")
    case None
    then have "match_at catalog words n i st = st" by (cases st) (simp add: match_at_def)
    with None assms(1) show ?thesis by (auto simp: span_ok_def)
  next
    case (Some e)
    have "matched_spans catalog words n (spans @ [(n, i)]) (match_at catalog words n i st)"
      using assms False Some free
      by (auto simp: matched_spans_def match_at_def span_ok_def span_words_def span_entity_def split: prod.split)
    moreover have "covered (spans @ [(n, i)]) (n, i)" unfolding covered_def
      by (rule exI [of _ n], rule exI [of _ i]) (use assms(2) in \<open>auto simp: span_words_def\<close>)
    ultimately show ?thesis by (metis Un_upper1 set_append)
  qed
qed

lemma match_positions_spans:
  assumes "matched_spans catalog words n spans st" "1 \<le> n" "n \<le> 4" "\<And>i. i \<in> set ps \<Longrightarrow> i + n \<le> length words"
  shows "\<exists>spans'. matched_spans catalog words n spans' (fold (match_at catalog words n) ps st) \<and> set spans \<subseteq> set spans'
    \<and> (\<forall>i \<in> set ps. span_ok catalog words (n, i) \<longrightarrow> covered spans' (n, i))"
  using assms(1,4)
proof (induction ps arbitrary: spans st)
  case (Cons i ps)
  from match_at_spans [OF Cons.prems(1) assms(2,3), of i] Cons.prems(2) obtain spans1 where
    s1: "matched_spans catalog words n spans1 (match_at catalog words n i st)" "set spans \<subseteq> set spans1"
      "span_ok catalog words (n, i) \<longrightarrow> covered spans1 (n, i)" by auto
  from Cons.IH [OF s1(1)] Cons.prems(2) obtain spans2 where
    s2: "matched_spans catalog words n spans2 (fold (match_at catalog words n) ps (match_at catalog words n i st))"
      "set spans1 \<subseteq> set spans2" "\<forall>i \<in> set ps. span_ok catalog words (n, i) \<longrightarrow> covered spans2 (n, i)" by auto
  then show ?case using s1 covered_mono by (intro exI [of _ spans2]) fastforce
qed auto

lemma match_lengths_spans:
  assumes "matched_spans catalog words k spans st" "k \<le> 4" "k \<le> length words"
  shows "\<exists>spans'. matched_spans catalog words 0 spans' (fold (match_length catalog words) (rev [1..<k + 1]) st)
    \<and> set spans \<subseteq> set spans' \<and> (\<forall>n i. n \<le> k \<longrightarrow> span_ok catalog words (n, i) \<longrightarrow> covered spans' (n, i))"
  using assms
proof (induction k arbitrary: spans st)
  case 0
  then show ?case by (auto simp: span_ok_def)
next
  case (Suc k)
  have pos: "\<And>i. i \<in> set [0..<length words - Suc k + 1] \<Longrightarrow> i + Suc k \<le> length words" using Suc.prems(3) by auto
  have one: "1 \<le> Suc k" by simp
  obtain spans1 where s1: "matched_spans catalog words (Suc k) spans1 (match_length catalog words (Suc k) st)"
    "set spans \<subseteq> set spans1"
    "\<forall>i \<in> set [0..<length words - Suc k + 1]. span_ok catalog words (Suc k, i) \<longrightarrow> covered spans1 (Suc k, i)"
    using match_positions_spans [OF Suc.prems(1) one Suc.prems(2) pos] unfolding match_length_def by blast
  have weaker: "matched_spans catalog words k spans1 (match_length catalog words (Suc k) st)"
    using s1(1) by (auto simp: matched_spans_def list_all_iff)
  from Suc.IH [OF weaker] Suc.prems(2,3) obtain spans2 where
    s2: "matched_spans catalog words 0 spans2 (fold (match_length catalog words) (rev [1..<k + 1]) (match_length catalog words (Suc k) st))"
      "set spans1 \<subseteq> set spans2" "\<forall>n i. n \<le> k \<longrightarrow> span_ok catalog words (n, i) \<longrightarrow> covered spans2 (n, i)" by auto
  have "covered spans2 (Suc k, i)" if "span_ok catalog words (Suc k, i)" for i
  proof -
    have "i \<in> set [0..<length words - Suc k + 1]" using that by (auto simp: span_ok_def)
    with s1(3) that s2(2) covered_mono show ?thesis by blast
  qed
  then have all: "\<forall>n i. n \<le> Suc k \<longrightarrow> span_ok catalog words (n, i) \<longrightarrow> covered spans2 (n, i)"
    using s2(3) le_Suc_eq by metis
  have "rev [1..<Suc k + 1] = Suc k # rev [1..<k + 1]" by simp
  with s2(1,2) s1(2) all show ?case by (intro exI [of _ spans2]) (auto simp del: upt_Suc)
qed

text \<open>
  C34: the entities of a query.  The matched entities are those of disjoint phrases of at most four words
  of the query, each of which is the lower-case name of the entity; and every phrase of the query
  that is a name overlaps a matched phrase of at least its length, so a longer name always wins
  over a shorter one inside it.
\<close>
theorem match_entities_greedy:
  "let words = findall_words (py_lower query)
   in \<exists>spans. match_entities catalog query = map (span_entity catalog words) spans
     \<and> list_all (span_ok catalog words) spans \<and> distinct (concat (map span_words spans))
     \<and> (\<forall>sp. span_ok catalog words sp \<longrightarrow> covered spans sp)"
proof -
  define words where "words = findall_words (py_lower query)"
  let ?k = "min 4 (length words)"
  have "matched_spans catalog words ?k [] ([], [])" by (simp add: matched_spans_def)
  from match_lengths_spans [OF this] obtain spans where
    s: "matched_spans catalog words 0 spans (fold (match_length catalog words) (rev [1..<?k + 1]) ([], []))"
      "\<forall>n i. n \<le> ?k \<longrightarrow> span_ok catalog words (n, i) \<longrightarrow> covered spans (n, i)" by auto
  have "match_entities catalog query = map (span_entity catalog words) spans"
    using s(1) unfolding match_entities_def Let_def words_def [symmetric] matched_spans_def by simp
  moreover have "covered spans sp" if "span_ok catalog words sp" for sp
    using s(2) that by (cases sp) (simp add: span_ok_def)
  moreover have "list_all (span_ok catalog words) spans" "distinct (concat (map span_words spans))"
    using s(1) by (auto simp: matched_spans_def list_all_iff)
  ultimately show ?thesis unfolding Let_def words_def [symmetric] by blast
qed

theorem match_entities_greedy_witness:
  "match_entities (entity_catalog [''Ada'', ''Ada Lovelace'']) ''see Ada Lovelace'' =
     [''Ada Lovelace'']
   \<and> (\<exists>spans. map (span_entity (entity_catalog [''Ada'', ''Ada Lovelace'']) [''see'', ''ada'', ''lovelace'']) spans = [''Ada Lovelace'']
     \<and> covered spans (1, 1))"
proof -
  let ?c = "entity_catalog [''Ada'', ''Ada Lovelace'']" and ?q = "''see Ada Lovelace''"
  obtain spans where s: "match_entities ?c ?q = map (span_entity ?c (findall_words (py_lower ?q))) spans"
    "\<forall>sp. span_ok ?c (findall_words (py_lower ?q)) sp \<longrightarrow> covered spans sp"
    using match_entities_greedy [of ?q ?c] unfolding Let_def by blast
  have "match_entities ?c ?q = [''Ada Lovelace'']" "findall_words (py_lower ?q) = [''see'', ''ada'', ''lovelace'']"
    "span_ok ?c [''see'', ''ada'', ''lovelace''] (1, 1)" by code_simp+
  with s show ?thesis by (intro conjI exI [of _ spans]) simp_all
qed

section \<open>Graph-direct search\<close>

lemma match_entities_nil: "match_entities [] query = []"
proof -
  have at: "match_at [] words n i st = st" for words n i st by (cases st) (simp add: match_at_def)
  have "fold (match_at [] words n) ps st = st" for words n st ps by (induction ps) (simp_all add: at)
  then have len: "match_length [] words n st = st" for words n st by (simp add: match_length_def del: upt_Suc)
  have "fold (match_length [] words) ns st = st" for words ns st by (induction ns) (simp_all add: len)
  then show ?thesis by (simp add: match_entities_def Let_def)
qed

text \<open>Counting by repeated addition of one, as long as the rounding keeps the counts.\<close>

definition exact_to :: "(rat \<Rightarrow> rat) \<Rightarrow> nat \<Rightarrow> bool" where
  "exact_to rnd n \<longleftrightarrow> list_all (\<lambda>k. rnd (of_nat k) = of_nat k) [0..<n + 1]"

lemma exact_toD: "exact_to rnd n \<Longrightarrow> k \<le> n \<Longrightarrow> rnd (of_nat k) = of_nat k"
  by (simp add: exact_to_def list_all_iff del: upt_Suc)

lemma exact_to_mono: "exact_to rnd n \<Longrightarrow> m \<le> n \<Longrightarrow> exact_to rnd m"
  by (auto simp: exact_to_def list_all_iff simp del: upt_Suc)

lemma add_ones:
  assumes "exact_to rnd (length xs)"
  shows "dict_ok (fold (\<lambda>cid. add_score rnd cid 1) xs [])
    \<and> dict_get (fold (\<lambda>cid. add_score rnd cid 1) xs []) c = (if c \<in> set xs then Some (of_nat (count_list xs c)) else None)"
  using assms
proof (induction xs arbitrary: c rule: rev_induct)
  case (snoc x xs)
  let ?d = "fold (\<lambda>cid. add_score rnd cid 1) xs []"
  have ih: "dict_ok ?d" "\<And>c. dict_get ?d c = (if c \<in> set xs then Some (of_nat (count_list xs c)) else None)"
    using snoc.IH exact_to_mono [OF snoc.prems, of "length xs"] by simp_all
  have "count_list xs x \<le> length xs" by (rule count_le_length)
  then have "rnd (of_nat (count_list xs x + 1)) = of_nat (count_list xs x + 1)"
    by (intro exact_toD [OF snoc.prems]) simp
  then have "rnd (dict_get_default ?d x 0 + 1) = of_nat (count_list (xs @ [x]) x)"
    by (cases "x \<in> set xs") (simp_all add: dict_get_default_def ih(2) add.commute)
  then have "add_score rnd x 1 ?d = dict_set x (of_nat (count_list (xs @ [x]) x)) ?d"
    by (simp only: add_score_def [of rnd x 1 ?d])
  then have step: "fold (\<lambda>cid. add_score rnd cid 1) (xs @ [x]) [] = dict_set x (of_nat (count_list (xs @ [x]) x)) ?d"
    by simp
  show ?case unfolding step using ih by auto
qed simp

lemma count_entities_sum:
  assumes "\<And>name. name \<in> set names \<Longrightarrow> gs_get_chunks_by_entity gs name = Inr (chunks name)"
  shows "count_entities rnd gs names d = Inr (fold (\<lambda>cid. add_score rnd cid 1) (concat (map chunks names)) d)"
  using assms by (induction names arbitrary: d) simp_all

text \<open>
  C33: the ranking of the graph-direct engine.  When the store answers, the results are the chunks that
  mention a matched entity, every one once, scored by how often it is listed for the matched
  entities, relative to the chunk that is listed most; they come in descending order, cut to the
  requested number.
\<close>
theorem graph_direct_ranking:
  assumes "ge_loaded e" "\<And>name. name \<in> set (match_entities (ge_entity_catalog e) query) \<Longrightarrow>
      gs_get_chunks_by_entity gs name = Inr (chunks name)"
    "exact_to rnd (length (concat (map chunks (match_entities (ge_entity_catalog e) query))))"
  shows "let listed = concat (map chunks (match_entities (ge_entity_catalog e) query));
      top = Max (count_list listed ` set listed)
    in \<exists>full. graph_direct_search rnd gs query top_k e = (e, Inr (py_take top_k full))
      \<and> distinct (map fst full) \<and> set (map fst full) = set listed
      \<and> (\<forall>(cid, s) \<in> set full. s = rnd (of_nat (count_list listed cid) / of_nat top))
      \<and> sorted_wrt (\<lambda>x y. snd y \<le> snd x) full"
proof -
  define ms where "ms = match_entities (ge_entity_catalog e) query"
  define listed where "listed = concat (map chunks ms)"
  define d where "d = fold (\<lambda>cid. add_score rnd cid 1) listed []"
  note ones = add_ones [of rnd listed, folded d_def]
  have exact: "exact_to rnd (length listed)" using assms(3) by (simp add: listed_def ms_def)
  have ok: "dict_ok d" and get: "\<And>c. dict_get d c = (if c \<in> set listed then Some (of_nat (count_list listed c)) else None)"
    using ones [OF exact] by simp_all
  have keys: "set (map fst d) = set listed"
  proof -
    have "c \<in> set (map fst d) \<longleftrightarrow> c \<in> set listed" for c
      using get [of c] dict_get_None_iff [of d c] by (cases "c \<in> set listed") simp_all
    then show ?thesis by blast
  qed
  have val: "s = of_nat (count_list listed cid)" if "(cid, s) \<in> set d" for cid s
    using that get [of cid] ok by (auto split: if_splits dest: map_of_is_SomeI)
  have count: "count_entities rnd gs ms [] = Inr d"
    unfolding d_def listed_def by (rule count_entities_sum) (use assms(2) in \<open>simp add: ms_def\<close>)
  have run: "graph_direct_search rnd gs query top_k e = (e, Inr (py_take top_k (sorted_desc snd (normalize_scores rnd d))))"
  proof (cases "ge_entity_catalog e = [] \<or> ms = []")
    case True
    then have none: "ms = []" by (auto simp: ms_def match_entities_nil)
    then have "d = []" by (simp add: d_def listed_def)
    with True none assms(1) show ?thesis
      by (auto simp: graph_direct_search_def ms_def [symmetric] normalize_scores_def sorted_desc_def py_take_def Let_def)
  next
    case False
    with assms(1) count show ?thesis by (simp add: graph_direct_search_def ms_def [symmetric] Let_def)
  qed
  let ?top = "Max (count_list listed ` set listed)"
  have norm: "normalize_scores rnd d = map (\<lambda>(cid, s). (cid, rnd (s / of_nat ?top))) d"
  proof (cases "d = []")
    case False
    have "set (map snd d) = of_nat ` count_list listed ` set listed"
    proof -
      have "snd ` set d = (\<lambda>c. of_nat (count_list listed c)) ` fst ` set d" using val by force
      also have "\<dots> = of_nat ` count_list listed ` (fst ` set d)" by (simp add: image_image)
      finally show ?thesis using keys by simp
    qed
    moreover have "set listed \<noteq> {}" using False keys by auto
    then have "of_nat ?top = (Max (of_nat ` (count_list listed ` set listed)) :: rat)"
      by (intro mono_Max_commute) (auto simp: mono_def)
    ultimately have "Max (set (map snd d)) = (of_nat ?top :: rat)" by simp
    moreover have "0 < ?top"
    proof -
      from False keys obtain c where c: "c \<in> set listed" by (cases d) auto
      then have "0 < count_list listed c" by (metis count_list_0_iff gr0I)
      also have "\<dots> \<le> ?top" using c by (intro Max_ge) auto
      finally show ?thesis .
    qed
    ultimately show ?thesis using False by (simp add: normalize_scores_def)
  qed (simp add: normalize_scores_def)
  have fsts: "map fst (normalize_scores rnd d) = map fst d" unfolding norm by (induction d) auto
  have "distinct (map fst (sorted_desc snd (normalize_scores rnd d)))" using ok fsts by simp
  moreover have "set (map fst (sorted_desc snd (normalize_scores rnd d))) = set listed" using keys fsts by (metis set_map set_sorted_desc)
  moreover have "\<forall>(cid, s) \<in> set (sorted_desc snd (normalize_scores rnd d)). s = rnd (of_nat (count_list listed cid) / of_nat ?top)"
    unfolding set_sorted_desc norm using val by auto
  ultimately show ?thesis
    using run sorted_desc_sorted [of snd "normalize_scores rnd d"]
    unfolding Let_def ms_def [symmetric] listed_def [symmetric] by blast
qed

definition demo_graph_store :: graph_store where
  "demo_graph_store = \<lparr>gs_get_all_entity_names = Inr [''Ada'', ''Engine''],
     gs_get_chunks_by_entity = (\<lambda>n. Inr (if n = ''Ada'' then [''c1'', ''c2''] else [''c2''])),
     gs_get_related_sections = (\<lambda>_. Inr []), gs_related_for_seeds = None\<rparr>"

definition demo_graph_engine :: graph_engine where
  "demo_graph_engine = fst (load_catalog demo_graph_store new_graph_engine)"

theorem graph_direct_ranking_witness:
  "\<exists>full. graph_direct_search (\<lambda>x. x) demo_graph_store ''ada engine'' 1 demo_graph_engine = (demo_graph_engine, Inr (py_take 1 full))
   \<and> set (map fst full) = {''c1'', ''c2''} \<and> (''c2'', 1) \<in> set full"
proof -
  let ?chunks = "\<lambda>n. if n = ''Ada'' then [''c1'', ''c2''] else [''c2'']"
  have ms: "match_entities (ge_entity_catalog demo_graph_engine) ''ada engine'' = [''Ada'', ''Engine'']" by code_simp
  have loaded: "ge_loaded demo_graph_engine" by code_simp
  have store: "gs_get_chunks_by_entity demo_graph_store name = Inr (?chunks name)" for name
    by (simp add: demo_graph_store_def)
  have exact: "exact_to (\<lambda>x. x) n" for n by (simp add: exact_to_def list_all_iff)
  have spec: "\<exists>full. graph_direct_search (\<lambda>x. x) demo_graph_store ''ada engine'' 1 demo_graph_engine = (demo_graph_engine, Inr (py_take 1 full))
    \<and> distinct (map fst full) \<and> set (map fst full) = {''c1'', ''c2''}
    \<and> (\<forall>(cid, s) \<in> set full. s = of_nat (count_list [''c1'', ''c2'', ''c2''] cid) / of_nat 2)
    \<and> sorted_wrt (\<lambda>x y. snd y \<le> snd x) full"
    using graph_direct_ranking [of demo_graph_engine "''ada engine''" demo_graph_store ?chunks "\<lambda>x. x" 1, OF loaded store exact]
    by (simp add: ms Let_def)
  then obtain full where full: "graph_direct_search (\<lambda>x. x) demo_graph_store ''ada engine'' 1 demo_graph_engine = (demo_graph_engine, Inr (py_take 1 full))"
    "set (map fst full) = {''c1'', ''c2''}" "\<forall>(cid, s) \<in> set full. s = of_nat (count_list [''c1'', ''c2'', ''c2''] cid) / of_nat 2" by blast
  from full(2) have "''c2'' \<in> fst ` set full" by simp
  then obtain s where s: "(''c2'', s) \<in> set full" by (elim imageE) (metis prod.collapse)
  have "case (''c2'', s) of (cid, s) \<Rightarrow> s = of_nat (count_list [''c1'', ''c2'', ''c2''] cid) / of_nat 2"
    by (rule bspec [OF full(3) s])
  then have "s = 1" by simp
  with s full(1,2) show ?thesis by blast
qed

section \<open>Pools and the vector engine\<close>

text \<open>
  C16: the pools of a search against the limit of the vector engine.  With the SurrealDB vector engine as
  semantic engine, a search for more than twenty results fails in every mode that asks it: the
  pool the search starts with has more than a hundred candidates, which the engine rejects before
  it runs.
\<close>
theorem surreal_vector_rejects_pool:
  assumes "en_semantic en = (\<lambda>q n. snd (vector_search rnd dn post local_model vq q n ve))" "py_strip query \<noteq> []"
    "mode \<in> {SEMANTIC, HYBRID, GRAPH}" "20 < top_k \<or> 100 < pool_size"
  shows "collect_active_candidate_pool (\<lambda>n. collect_candidate_pool rnd fusion_k en query original_query mode n)
      filt top_k pool_size s
    = Some (Inl (ValueError ''top_k must be between 1 and 100, inclusive''))"
proof -
  let ?e = "ValueError ''top_k must be between 1 and 100, inclusive''"
  have size: "100 < active_filter_pool_size top_k pool_size"
    using assms(4) by (auto simp: active_filter_pool_size_def ACTIVE_FILTER_OVERFETCH_FACTOR_def)
  have "snd (vector_search rnd dn post local_model vq query n ve) = Inl ?e" if "100 < n" for n
    using that assms(2) by (simp add: vector_search_def validate_request_bounds_def MAX_TOP_K_def)
  then have "collect_candidate_pool rnd fusion_k en query original_query mode (active_filter_pool_size top_k pool_size) = Inl ?e"
    using size assms(3) by (simp add: collect_candidate_pool_def assms(1))
  then show ?thesis unfolding collect_active_candidate_pool_def by (subst collect_active_loop.simps) simp
qed

definition demo_vector_engine :: vector_engine where
  "demo_vector_engine =
     \<lparr>ve_encoder = \<lparr>ec_embedding_url = None, ec_tei_batch_size = 32, ec_tei_bs_probed = False, ec_use_prefix = True,
        ec_query_instruction = ''''\<rparr>,
      ve_model_name = ''m'', ve_chunk_strategy = ''s'', ve_score_floor = 0, ve_embedding_dimension = 3, ve_hnsw_ef = 40,
      ve_embedding_tables = [''embeddings''], ve_preconditions_valid = Some True\<rparr>"

theorem surreal_vector_rejects_pool_witness:
  "collect_active_candidate_pool
     (\<lambda>n. collect_candidate_pool (\<lambda>x. x) 60
       \<lparr>en_semantic = (\<lambda>q n. snd (vector_search (\<lambda>x. x) \<lparr>dn_repr = (\<lambda>_. []), dn_digest = (\<lambda>_. 0)\<rparr> (\<lambda>_. HttpFailure ''down'') (\<lambda>_. [1, 2, 3])
          \<lparr>vq_preconditions = (\<lambda>_ _ _. Inr []), vq_nearest = (\<lambda>_ _ _ _ _ _ _. Inr [])\<rparr> q n demo_vector_engine)),
        en_keyword = (\<lambda>_ _. Inr []), en_graph_direct = (\<lambda>_ _. Inr []), en_graph = (\<lambda>_ _ _. Inr [])\<rparr>
       ''notes'' ''notes'' HYBRID n)
     (\<lambda>fused s. Inr ((fused, [], 0), s)) 21 20 ()
   = Some (Inl (ValueError ''top_k must be between 1 and 100, inclusive''))"
proof -
  have "py_strip ''notes'' \<noteq> []" by code_simp
  then show ?thesis by (intro surreal_vector_rejects_pool) simp_all
qed

end
