(* ===== verification/Bulk_Index.thy ===== *)
theory Bulk_Index
  imports Indexing
begin

text \<open>
  Indexing a whole directory (\<open>IndexingPipeline.index\<close> in \<open>ingestion/pipeline.py\<close>) in the SQLite mode:
  the incremental and the forced run, the shared ingest with its embedding pass, the dropping of
  vectors and the reset of an outdated state at the start.  The discovered documents are an
  argument; the graph, keyword and vector stores of this mode are no-op objects; of the extractors
  the error they raise (\<open>ie_extract\<close>) and their totals are left, and the acronym file is left out.
\<close>

section \<open>State\<close>

record bulk_env =
  be_indexing :: indexing_env
  be_totals :: "chunk list \<Rightarrow> int \<times> int"

text \<open>The indexer with the table \<open>pipeline_state\<close>.\<close>

record bulk =
  bk_indexer :: indexer
  bk_state :: "(string, string) dict"

abbreviation bk_store :: "bulk \<Rightarrow> store" where
  "bk_store b \<equiv> ix_store (bk_indexer b)"

abbreviation bk_pipeline :: "bulk \<Rightarrow> pipeline" where
  "bk_pipeline b \<equiv> ix_pipeline (bk_indexer b)"

definition on_indexer :: "(indexer \<Rightarrow> indexer) \<Rightarrow> bulk \<Rightarrow> bulk" where
  "on_indexer f b = b\<lparr>bk_indexer := f (bk_indexer b)\<rparr>"

definition set_pipeline :: "pipeline \<Rightarrow> indexer \<Rightarrow> indexer" where
  "set_pipeline p x = x\<lparr>ix_pipeline := p\<rparr>"

text \<open>Running an operation of the indexer.\<close>

definition run_indexer :: "(indexer \<Rightarrow> (py_error + 'a) \<times> indexer) \<Rightarrow> bulk \<Rightarrow> (py_error + 'a) \<times> bulk" where
  "run_indexer f b = (case f (bk_indexer b) of (r, x) \<Rightarrow> (r, b\<lparr>bk_indexer := x\<rparr>))"

section \<open>Discovered documents\<close>

definition file_info_of_document :: "indexing_env \<Rightarrow> source_document \<Rightarrow> py_error + file_info" where
  "file_info_of_document ie d =
     try_bind (source_document_to_file_info (pipeline_env ie) d) (\<lambda>path.
       case ie_disk ie path of
         None \<Rightarrow> Inl (FileNotFoundError path)
       | Some f \<Rightarrow> Inr \<lparr>fi_path = path, fi_title = sd_title d, fi_last_modified = sd_updated_at d,
           fi_size_bytes = df_size f, fi_kind = sd_document_type d, fi_frontmatter = (case sd_metadata_json d of JObj ps \<Rightarrow> ps | _ \<Rightarrow> [])\<rparr>)"

definition assert_filesystem_document_ref :: "indexing_env \<Rightarrow> file_info \<Rightarrow> source_document \<Rightarrow> py_error + unit" where
  "assert_filesystem_document_ref ie fi d =
     (if sd_document_ref d \<noteq> meta_entity_id (pipeline_env ie) (fi_path fi)
      then Inl (ValueError ''filesystem document_ref must match metadata entity id'') else Inr ())"

text \<open>In the order of the documents; of two documents with one path the mapping has the later.\<close>

fun file_infos_by_source_document :: "indexing_env \<Rightarrow> source_document list \<Rightarrow>
    file_info list \<Rightarrow> (string, source_document) dict \<Rightarrow> py_error + file_info list \<times> (string, source_document) dict" where
  "file_infos_by_source_document ie [] fis by_path = Inr (fis, by_path)"
| "file_infos_by_source_document ie (d # ds) fis by_path =
     try_bind (file_info_of_document ie d) (\<lambda>fi.
     try_bind (assert_filesystem_document_ref ie fi d) (\<lambda>_.
       file_infos_by_source_document ie ds (fis @ [fi]) (dict_set (fi_path fi) d by_path)))"

section \<open>Chunking and saving\<close>

fun chunk_files :: "indexing_env \<Rightarrow> (string, source_document) dict \<Rightarrow> file_info list \<Rightarrow> py_error + chunk list" where
  "chunk_files ie by_path [] = Inr []"
| "chunk_files ie by_path (fi # fis) =
     try_bind (read_file (ie_disk ie) (fi_path fi)) (\<lambda>content.
     try_bind (case dict_get by_path (fi_path fi) of None \<Rightarrow> Inl (KeyError (fi_path fi)) | Some d \<Rightarrow> Inr d) (\<lambda>d.
     try_bind (chunk_files ie by_path fis) (\<lambda>cs. Inr (chunks_of_file ie fi d content @ cs))))"

fun persist_chunks :: "string \<Rightarrow> chunk list \<Rightarrow> store \<Rightarrow> py_error + store" where
  "persist_chunks strategy [] s = Inr s"
| "persist_chunks strategy (c # cs) s =
     try_bind (persist_one_chunk_source_provenance strategy c s) (persist_chunks strategy cs)"

definition persist_chunk_source_provenance :: "string \<Rightarrow> chunk list \<Rightarrow> source_document list \<Rightarrow> store \<Rightarrow>
    (py_error + unit) \<times> store" where
  "persist_chunk_source_provenance strategy chunks ds s =
     (if chunks = [] \<and> ds = [] then (Inr (), s)
      else transaction (\<lambda>s. try_bind (persist_chunks strategy chunks (fold upsert_source_document ds s)) (\<lambda>s. Inr ((), s)))
        (ensure_chunk_source_provenance_table strategy s))"

text \<open>The chunks by their first path, or by the first file when they have none, in order of
  appearance.\<close>

fun group_chunks :: "string \<Rightarrow> chunk list \<Rightarrow> (string, chunk list) dict \<Rightarrow> (string, chunk list) dict" where
  "group_chunks fallback [] acc = acc"
| "group_chunks fallback (c # cs) acc =
     (let fp = (case ch_file_paths c of p # _ \<Rightarrow> p | [] \<Rightarrow> fallback)
      in group_chunks fallback cs (dict_set fp (dict_get_default acc fp [] @ [c]) acc))"

text \<open>The file of a group, by its path; the later of two files with one path.\<close>

definition group_file :: "file_info list \<Rightarrow> string \<Rightarrow> file_info option" where
  "group_file fis fp =
     (case find (\<lambda>fi. fi_path fi = fp) (rev fis) of
        Some fi \<Rightarrow> Some fi | None \<Rightarrow> (case fis of fi # _ \<Rightarrow> Some fi | [] \<Rightarrow> None))"

text \<open>One group: text vectors and their components, the metadata vector, the fused vectors.\<close>

definition embed_group :: "indexing_env \<Rightarrow> timestamp \<Rightarrow> file_info \<Rightarrow> chunk list \<Rightarrow> indexer \<Rightarrow> (py_error + unit) \<times> indexer" where
  "embed_group ie now fi chunks x =
     (case embed_chunks (ie_embedding ie) now chunks (ix_embedding x) of
        (Inl e, st) \<Rightarrow> (Inl e, set_embedding st x)
      | (Inr (vs, _), st) \<Rightarrow>
          (case store_components ie ''text'' (zip (map ch_chunk_id chunks) vs) (set_embedding st x) of
             (Inl e, x) \<Rightarrow> (Inl e, x)
           | (Inr _, x) \<Rightarrow>
               (case embed_meta_component ie fi x of
                  (Inl e, x) \<Rightarrow> (Inl e, x)
                | (Inr e_meta, x) \<Rightarrow>
                    (case fuse_all ie e_meta vs of Inl e \<Rightarrow> (Inl e, x) | Inr _ \<Rightarrow> (Inr (), x)))))"

fun embed_groups :: "indexing_env \<Rightarrow> timestamp \<Rightarrow> file_info list \<Rightarrow> (string, chunk list) dict \<Rightarrow> indexer \<Rightarrow>
    (py_error + unit) \<times> indexer" where
  "embed_groups ie now fis [] x = (Inr (), x)"
| "embed_groups ie now fis ((fp, chunks) # groups) x =
     (case group_file fis fp of
        None \<Rightarrow> embed_groups ie now fis groups x
      | Some fi \<Rightarrow>
          (case embed_group ie now fi chunks x of
             (Inl e, x) \<Rightarrow> (Inl e, x)
           | (Inr _, x) \<Rightarrow> embed_groups ie now fis groups x))"

text \<open>Each binding commits on its own.\<close>

fun upsert_bindings :: "source_document list \<Rightarrow> store \<Rightarrow> (py_error + unit) \<times> store" where
  "upsert_bindings [] s = (Inr (), s)"
| "upsert_bindings (d # ds) s =
     (case upsert_active_filesystem_binding d s of
        Inl e \<Rightarrow> (Inl e, s) | Inr s' \<Rightarrow> upsert_bindings ds s')"

fun check_file_metas :: "file_info list \<Rightarrow> py_error + unit" where
  "check_file_metas [] = Inr ()"
| "check_file_metas (fi # fis) = try_bind (file_meta fi) (\<lambda>_. check_file_metas fis)"

fun source_documents_of :: "indexing_env \<Rightarrow> file_info list \<Rightarrow> py_error + source_document list" where
  "source_documents_of ie [] = Inr []"
| "source_documents_of ie (fi # fis) =
     try_bind (source_document_for_file_info ie fi) (\<lambda>d.
     try_bind (source_documents_of ie fis) (\<lambda>ds. Inr (d # ds)))"

definition save_and_embed_chunks :: "indexing_env \<Rightarrow> timestamp \<Rightarrow> chunk list \<Rightarrow> file_info list \<Rightarrow> indexer \<Rightarrow>
    (py_error + unit) \<times> indexer" where
  "save_and_embed_chunks ie now chunks fis x =
     (case save_chunks chunks (ix_store x) of
        Inl e \<Rightarrow> (Inl e, x)
      | Inr s \<Rightarrow>
          (case source_documents_of ie fis of
             Inl e \<Rightarrow> (Inl e, set_store s x)
           | Inr ds \<Rightarrow>
               (case persist_chunk_source_provenance (ie_strategy ie) chunks ds s of
                  (Inl e, s) \<Rightarrow> (Inl e, set_store s x)
                | (Inr _, s) \<Rightarrow>
                    (case embed_groups ie now fis
                        (group_chunks (case fis of fi # _ \<Rightarrow> fi_path fi | [] \<Rightarrow> '''') chunks []) (set_store s x) of
                       (Inl e, x) \<Rightarrow> (Inl e, x)
                     | (Inr _, x) \<Rightarrow>
                         (case check_file_metas fis of
                            Inl e \<Rightarrow> (Inl e, x)
                          | Inr _ \<Rightarrow> (case upsert_bindings ds (ix_store x) of (r, s) \<Rightarrow> (r, set_store s x)))))))"

section \<open>Embedding existing chunks\<close>

text \<open>The text vectors of a file: encoded anew after a model switch, else stored ones with those
  that are missing encoded.\<close>

definition existing_vectors :: "indexing_env \<Rightarrow> timestamp \<Rightarrow> bool \<Rightarrow> chunk list \<Rightarrow> indexer \<Rightarrow>
    (py_error + rat list list \<times> (string \<times> rat list) list) \<times> indexer" where
  "existing_vectors ie now model_switch chunks x =
     (if model_switch
      then (case encode_batch (em_post (ie_embedding ie)) (em_local (ie_embedding ie)) (map ch_text chunks) (es_encoder (ix_embedding x)) of
          (Inl e, enc) \<Rightarrow> (Inl e, set_encoder enc x)
        | (Inr vs, enc) \<Rightarrow> (Inr (vs, zip (map ch_chunk_id chunks) vs), set_encoder enc x))
      else text_vectors_cached ie now chunks x)"

text \<open>After the vectors: document and binding, each in its own commit, then what is rebuilt for the
  keyword engine and the graph, and the metadata fingerprint.\<close>

definition finish_existing :: "indexing_env \<Rightarrow> timestamp \<Rightarrow> file_info \<Rightarrow> indexer \<Rightarrow> (py_error + unit) \<times> indexer" where
  "finish_existing ie now fi x =
     (case source_document_for_file_info ie fi of
        Inl e \<Rightarrow> (Inl e, x)
      | Inr d \<Rightarrow>
          (let s = upsert_source_document d (ix_store x)
           in case upsert_active_filesystem_binding d s of
                Inl e \<Rightarrow> (Inl e, set_store s x)
              | Inr s \<Rightarrow>
                  (case refresh_metadata ie fi (set_store s x) of
                     Inl e \<Rightarrow> (Inl e, set_store s x)
                   | Inr _ \<Rightarrow> (Inr (), set_pipeline (save_meta_fingerprint (pipeline_env ie) now (fi_path fi)
                       (ix_pipeline (set_store s x))) x))))"

definition embed_existing_file :: "indexing_env \<Rightarrow> timestamp \<Rightarrow> bool \<Rightarrow> file_info \<Rightarrow> indexer \<Rightarrow>
    (py_error + unit) \<times> indexer" where
  "embed_existing_file ie now model_switch fi x =
     (case stored_file_chunks ie (fi_path fi) (ix_store x) of
        Inl e \<Rightarrow> (Inl e, x)
      | Inr chunks \<Rightarrow>
          if chunks = [] then (Inr (), x)
          else (case existing_vectors ie now model_switch chunks x of
            (Inl e, x) \<Rightarrow> (Inl e, x)
          | (Inr (vs, text_components), x) \<Rightarrow>
              (case embed_meta_component ie fi x of
                 (Inl e, x) \<Rightarrow> (Inl e, x)
               | (Inr e_meta, x) \<Rightarrow>
                   (case fuse_all ie e_meta vs of
                      Inl e \<Rightarrow> (Inl e, x)
                    | Inr _ \<Rightarrow>
                        (case store_components ie ''text'' text_components x of
                           (Inl e, x) \<Rightarrow> (Inl e, x)
                         | (Inr _, x) \<Rightarrow>
                             (case store_meta_component ie fi e_meta x of
                                (Inl e, x) \<Rightarrow> (Inl e, x)
                              | (Inr _, x) \<Rightarrow> finish_existing ie now fi x))))))"

fun embed_existing_files :: "indexing_env \<Rightarrow> timestamp \<Rightarrow> bool \<Rightarrow> file_info list \<Rightarrow> indexer \<Rightarrow> (py_error + unit) \<times> indexer" where
  "embed_existing_files ie now model_switch [] x = (Inr (), x)"
| "embed_existing_files ie now model_switch (fi # fis) x =
     (case embed_existing_file ie now model_switch fi x of
        (Inl e, x) \<Rightarrow> (Inl e, x)
      | (Inr _, x) \<Rightarrow> embed_existing_files ie now model_switch fis x)"

definition embed_existing_chunks :: "indexing_env \<Rightarrow> timestamp \<Rightarrow> bool \<Rightarrow> file_info list \<Rightarrow> indexer \<Rightarrow>
    (py_error + unit) \<times> indexer" where
  "embed_existing_chunks ie now model_switch fis x =
     embed_existing_files ie now model_switch fis (if model_switch then set_components [] x else x)"

section \<open>Ingesting\<close>

record diff_counts =
  dn_new :: int
  dn_modified :: int
  dn_deleted :: int
  dn_unchanged :: int

text \<open>The extractors, the graph rows of the frontmatter, and the fingerprints.\<close>

fun check_frontmatter_rows :: "file_info list \<Rightarrow> py_error + unit" where
  "check_frontmatter_rows [] = Inr ()"
| "check_frontmatter_rows (fi # fis) = try_bind (frontmatter_rows fi) (\<lambda>_. check_frontmatter_rows fis)"

definition extract_and_populate_graph :: "bulk_env \<Rightarrow> file_info list \<Rightarrow> chunk list \<Rightarrow> py_error + int \<times> int" where
  "extract_and_populate_graph be fis chunks =
     (case ie_extract (be_indexing be) chunks of
        Some e \<Rightarrow> Inl e
      | None \<Rightarrow> try_bind (check_frontmatter_rows fis) (\<lambda>_. Inr (be_totals be chunks)))"

definition save_all_fingerprints :: "indexing_env \<Rightarrow> timestamp \<Rightarrow> file_info list \<Rightarrow> pipeline \<Rightarrow> pipeline" where
  "save_all_fingerprints ie now fis p =
     fold (\<lambda>fi. save_meta_fingerprint (pipeline_env ie) now (fi_path fi)) fis
       (fold (\<lambda>fi. save_chunk_fingerprint (pipeline_env ie) now (fi_path fi)) fis p)"

text \<open>The counts of the graph are those of the no-op store.\<close>

definition compute_stats :: "timestamp \<Rightarrow> file_info list \<Rightarrow> chunk list \<Rightarrow> int \<times> int \<Rightarrow> bool \<Rightarrow> diff_counts \<Rightarrow>
    string option \<Rightarrow> index_stats" where
  "compute_stats now all_files all_chunks totals overwrite_vectors dc data_dir =
     \<lparr>is_total_files = int (length all_files), is_total_chunks = int (length all_chunks),
      is_total_entities = (if overwrite_vectors then fst totals else 0),
      is_total_edges = (if overwrite_vectors then snd totals else 0), is_last_indexed = Some now,
      is_new_files = dn_new dc, is_modified_files = dn_modified dc, is_deleted_files = dn_deleted dc,
      is_unchanged_files = dn_unchanged dc, is_data_dir = data_dir\<rparr>"

definition finalize :: "timestamp \<Rightarrow> file_info list \<Rightarrow> int \<times> int \<Rightarrow> bool \<Rightarrow> diff_counts \<Rightarrow> string option \<Rightarrow> indexer \<Rightarrow>
    (py_error + index_stats) \<times> indexer" where
  "finalize now all_files totals overwrite_vectors dc data_dir x =
     (case get_all_chunks (ix_store x) of
        Inl e \<Rightarrow> (Inl e, x)
      | Inr all_chunks \<Rightarrow>
          (let stats = compute_stats now all_files all_chunks totals overwrite_vectors dc data_dir
           in (Inr stats, set_store (save_stats stats (ix_store x)) x)))"

definition ingest_and_finalize :: "bulk_env \<Rightarrow> timestamp \<Rightarrow> (string, source_document) dict \<Rightarrow> file_info list \<Rightarrow>
    file_info list \<Rightarrow> file_info list \<Rightarrow> bool \<Rightarrow> diff_counts \<Rightarrow> string option \<Rightarrow> indexer \<Rightarrow>
    (py_error + index_stats) \<times> indexer" where
  "ingest_and_finalize be now by_path all_files to_ingest embed_only overwrite_vectors dc data_dir x =
     (let ie = be_indexing be in
      case chunk_files ie by_path to_ingest of
        Inl e \<Rightarrow> (Inl e, x)
      | Inr new_chunks \<Rightarrow>
          (case (if new_chunks = [] then (Inr (), x) else save_and_embed_chunks ie now new_chunks to_ingest x) of
             (Inl e, x) \<Rightarrow> (Inl e, x)
           | (Inr _, x) \<Rightarrow>
               (case extract_and_populate_graph be to_ingest new_chunks of
                  Inl e \<Rightarrow> (Inl e, x)
                | Inr totals \<Rightarrow>
                    (case embed_existing_chunks ie now False embed_only
                        (set_pipeline (save_all_fingerprints ie now to_ingest (ix_pipeline x)) x) of
                       (Inl e, x) \<Rightarrow> (Inl e, x)
                     | (Inr _, x) \<Rightarrow> finalize now all_files totals overwrite_vectors dc data_dir x))))"

section \<open>The runs\<close>

text \<open>The deletions before an incremental ingest.\<close>

fun deactivate_deleted :: "environment \<Rightarrow> timestamp \<Rightarrow> string list \<Rightarrow> store \<Rightarrow> (py_error + unit) \<times> store" where
  "deactivate_deleted env now [] s = (Inr (), s)"
| "deactivate_deleted env now (path # paths) s =
     (case deactivate_filesystem_binding env now ''file_missing'' path s of
        Inl e \<Rightarrow> (Inl e, s) | Inr s' \<Rightarrow> deactivate_deleted env now paths s')"

fun purge_files :: "environment \<Rightarrow> string list \<Rightarrow> pipeline \<Rightarrow> (py_error + unit) \<times> pipeline" where
  "purge_files env [] p = (Inr (), p)"
| "purge_files env (path # paths) p =
     (case purge_file env path p of (Inl e, p) \<Rightarrow> (Inl e, p) | (Inr _, p) \<Rightarrow> purge_files env paths p)"

text \<open>The new files whose retained content is rebound.\<close>

fun rebind_new :: "environment \<Rightarrow> timestamp \<Rightarrow> (string, source_document) dict \<Rightarrow> string list \<Rightarrow> file_info list \<Rightarrow>
    string list \<Rightarrow> pipeline \<Rightarrow> (py_error + string list) \<times> pipeline" where
  "rebind_new env now by_path new [] rebound p = (Inr rebound, p)"
| "rebind_new env now by_path new (fi # fis) rebound p =
     (if fi_path fi \<notin> set new then rebind_new env now by_path new fis rebound p
      else case dict_get by_path (fi_path fi) of
        None \<Rightarrow> (Inl (KeyError (fi_path fi)), p)
      | Some d \<Rightarrow>
          (case rebind_retained_filesystem_document env now d p of
             (Inl e, p) \<Rightarrow> (Inl e, p)
           | (Inr diagnostic, p) \<Rightarrow>
               rebind_new env now by_path new fis
                 (if rd_rebound diagnostic \<noteq> 0 then rebound @ [fi_path fi] else rebound) p))"

definition track_meta :: "indexing_env \<Rightarrow> file_info list \<Rightarrow> indexer \<Rightarrow> (py_error + file_diff) \<times> indexer" where
  "track_meta ie fis x =
     (case diff (ev_meta_files (pipeline_env ie)) (map fi_path fis) (pp_meta_fps (ix_pipeline x)) of
        (Inl (FileNotFound f), t) \<Rightarrow> (Inl (FileNotFoundError f), x\<lparr>ix_pipeline := (ix_pipeline x)\<lparr>pp_meta_fps := t\<rparr>\<rparr>)
      | (Inr d, t) \<Rightarrow> (Inr d, x\<lparr>ix_pipeline := (ix_pipeline x)\<lparr>pp_meta_fps := t\<rparr>\<rparr>))"

text \<open>The unchanged files whose metadata fingerprint is new or modified.\<close>

definition embed_only_files :: "indexing_env \<Rightarrow> file_info list \<Rightarrow> indexer \<Rightarrow> (py_error + file_info list) \<times> indexer" where
  "embed_only_files ie unchanged x =
     (if unchanged = [] then (Inr [], x)
      else case track_meta ie unchanged x of
        (Inl e, x) \<Rightarrow> (Inl e, x)
      | (Inr d, x) \<Rightarrow> (Inr (filter (\<lambda>fi. fi_path fi \<in> set (fd_new d) \<union> set (fd_modified d)) unchanged), x))"

definition counts_of :: "file_diff \<Rightarrow> diff_counts" where
  "counts_of d = \<lparr>dn_new = int (length (fd_new d)), dn_modified = int (length (fd_modified d)),
     dn_deleted = int (length (fd_deleted d)), dn_unchanged = int (length (fd_unchanged d))\<rparr>"

definition incremental_index :: "bulk_env \<Rightarrow> timestamp \<Rightarrow> (string, source_document) dict \<Rightarrow> file_info list \<Rightarrow>
    file_diff \<Rightarrow> string option \<Rightarrow> indexer \<Rightarrow> (py_error + index_stats) \<times> indexer" where
  "incremental_index be now by_path all_files d data_dir x =
     (let ie = be_indexing be; env = pipeline_env ie in
      case deactivate_deleted env now (fd_deleted d) (ix_store x) of
        (Inl e, s) \<Rightarrow> (Inl e, set_store s x)
      | (Inr _, s) \<Rightarrow>
          (case purge_files env (fd_modified d) (ix_pipeline (set_store s x)) of
             (Inl e, p) \<Rightarrow> (Inl e, set_pipeline p x)
           | (Inr _, p) \<Rightarrow>
               (let changed = fd_new d @ fd_modified d;
                    to_ingest = filter (\<lambda>fi. fi_path fi \<in> set changed) all_files
                in case rebind_new env now by_path (fd_new d) to_ingest [] p of
                     (Inl e, p) \<Rightarrow> (Inl e, set_pipeline p x)
                   | (Inr rebound, p) \<Rightarrow>
                       (let to_ingest = filter (\<lambda>fi. fi_path fi \<notin> set rebound) to_ingest;
                            unchanged = filter (\<lambda>fi. fi_path fi \<notin> set changed \<and> fi_path fi \<notin> set (fd_deleted d)) all_files
                        in case embed_only_files ie unchanged (set_pipeline p x) of
                             (Inl e, x) \<Rightarrow> (Inl e, x)
                           | (Inr embed_only, x) \<Rightarrow>
                               ingest_and_finalize be now by_path all_files to_ingest embed_only False (counts_of d) data_dir x))))"

text \<open>\<open>drop_vectors\<close>: the metadata fingerprints, the components and the sentinels.\<close>

definition drop_vectors :: "bulk \<Rightarrow> bulk" where
  "drop_vectors b =
     (on_indexer (\<lambda>x. set_components [] (x\<lparr>ix_pipeline := (ix_pipeline x)\<lparr>pp_meta_fps := []\<rparr>\<rparr>)) b)
       \<lparr>bk_state := filter (\<lambda>(k, _). k \<notin> {''schema_version'', ''weights_used''}) (bk_state b)\<rparr>"

definition clear_trackers :: "indexer \<Rightarrow> indexer" where
  "clear_trackers x = x\<lparr>ix_pipeline := (ix_pipeline x)\<lparr>pp_chunk_fps := [], pp_meta_fps := []\<rparr>\<rparr>"

text \<open>The rows of the full-text table, if it exists.\<close>

definition clear_fts :: "store \<Rightarrow> store" where
  "clear_fts s =
     (case dict_get (st_fts s) (st_fts_table s) of
        None \<Rightarrow> s | Some _ \<Rightarrow> s\<lparr>st_fts := dict_set (st_fts_table s) [] (st_fts s)\<rparr>)"

definition full_index :: "bulk_env \<Rightarrow> timestamp \<Rightarrow> (string, source_document) dict \<Rightarrow> file_info list \<Rightarrow> string option \<Rightarrow>
    bulk \<Rightarrow> (py_error + index_stats) \<times> bulk" where
  "full_index be now by_path fis data_dir b =
     run_indexer (\<lambda>x. ingest_and_finalize be now by_path fis fis [] True
         \<lparr>dn_new = int (length fis), dn_modified = 0, dn_deleted = 0, dn_unchanged = 0\<rparr> data_dir
         (set_store (clear_fts (ix_store (clear_trackers x))) (clear_trackers x)))
       (drop_vectors b)"

text \<open>The statistics of a run without changes are those stored, with the counts of the run.\<close>

definition empty_stats :: index_stats where
  "empty_stats = \<lparr>is_total_files = 0, is_total_chunks = 0, is_total_entities = 0, is_total_edges = 0,
     is_last_indexed = None, is_new_files = 0, is_modified_files = 0, is_deleted_files = 0,
     is_unchanged_files = 0, is_data_dir = None\<rparr>"

definition quiet_stats :: "store \<Rightarrow> file_diff \<Rightarrow> string option \<Rightarrow> index_stats" where
  "quiet_stats s d data_dir =
     (case get_stats s of Some st \<Rightarrow> st | None \<Rightarrow> empty_stats)
       \<lparr>is_new_files := 0, is_modified_files := 0, is_deleted_files := 0,
        is_unchanged_files := int (length (fd_unchanged d)), is_data_dir := data_dir\<rparr>"

definition unchanged_index :: "indexing_env \<Rightarrow> timestamp \<Rightarrow> source_document list \<Rightarrow> file_info list \<Rightarrow> file_diff \<Rightarrow>
    string option \<Rightarrow> indexer \<Rightarrow> (py_error + index_stats) \<times> indexer" where
  "unchanged_index ie now documents fis d data_dir x =
     (case track_meta ie fis x of
        (Inl e, x) \<Rightarrow> (Inl e, x)
      | (Inr m, x) \<Rightarrow>
          (let meta_changed = set (fd_new m) \<union> set (fd_modified m)
           in if meta_changed = {}
              then (case rebind_retained_filesystem_documents (pipeline_env ie) now documents no_rebind (ix_pipeline x) of
                 (Inl e, p) \<Rightarrow> (Inl e, set_pipeline p x)
               | (Inr _, p) \<Rightarrow> (Inr (quiet_stats (pp_store p) d data_dir), set_pipeline p x))
              else (case embed_existing_chunks ie now False (filter (\<lambda>fi. fi_path fi \<in> meta_changed) fis) x of
                 (Inl e, x) \<Rightarrow> (Inl e, x)
               | (Inr _, x) \<Rightarrow> (Inr (quiet_stats (ix_store x) d data_dir), x))))"

definition changed_index :: "bulk_env \<Rightarrow> timestamp \<Rightarrow> source_document list \<Rightarrow> (string, source_document) dict \<Rightarrow>
    file_info list \<Rightarrow> string option \<Rightarrow> indexer \<Rightarrow> (py_error + index_stats) \<times> indexer" where
  "changed_index be now documents by_path fis data_dir x =
     (case diff (ev_chunk_files (pipeline_env (be_indexing be))) (map fi_path fis) (pp_chunk_fps (ix_pipeline x)) of
        (Inl (FileNotFound f), t) \<Rightarrow>
          (Inl (FileNotFoundError f), x\<lparr>ix_pipeline := (ix_pipeline x)\<lparr>pp_chunk_fps := t\<rparr>\<rparr>)
      | (Inr d, t) \<Rightarrow>
          (let x = x\<lparr>ix_pipeline := (ix_pipeline x)\<lparr>pp_chunk_fps := t\<rparr>\<rparr>
           in if fd_new d = [] \<and> fd_modified d = [] \<and> fd_deleted d = []
              then unchanged_index (be_indexing be) now documents fis d data_dir x
              else incremental_index be now by_path fis d data_dir x))"

definition index_directory :: "bulk_env \<Rightarrow> timestamp \<Rightarrow> bool \<Rightarrow> source_document list \<Rightarrow> string \<Rightarrow> bulk \<Rightarrow>
    (py_error + index_stats) \<times> bulk" where
  "index_directory be now force documents data_dir b =
     (case file_infos_by_source_document (be_indexing be) documents [] [] of
        Inl e \<Rightarrow> (Inl e, b)
      | Inr (fis, by_path) \<Rightarrow>
          if force then full_index be now by_path fis (Some data_dir) b
          else run_indexer (changed_index be now documents by_path fis (Some data_dir)) b)"

section \<open>Startup checks\<close>

definition SCHEMA_VERSION :: string where
  "SCHEMA_VERSION = ''2''"

definition pipeline_state_set :: "string \<Rightarrow> string \<Rightarrow> bulk \<Rightarrow> bulk" where
  "pipeline_state_set k v b = b\<lparr>bk_state := dict_set k v (bk_state b)\<rparr>"

definition clear_cache :: "bulk_env \<Rightarrow> indexer \<Rightarrow> indexer" where
  "clear_cache be x = x\<lparr>ix_embedding := (ix_embedding x)
     \<lparr>es_cache := embedding_clear (em_model (ie_embedding (be_indexing be))) (es_cache (ix_embedding x))\<rparr>\<rparr>"

text \<open>The statements of the wipe, each of which commits; the graph store of this mode is a no-op
  object.\<close>

definition wipe_steps :: "bulk_env \<Rightarrow> (bulk \<Rightarrow> bulk) list" where
  "wipe_steps be =
     [pipeline_state_set ''schema_version'' ''WIPE_IN_PROGRESS'',
      on_indexer (clear_cache be),
      on_indexer (\<lambda>x. set_components (component_delete_all (ix_components x)) x),
      on_indexer (\<lambda>x. x\<lparr>ix_pipeline := (ix_pipeline x)\<lparr>pp_chunk_fps := clear (pp_chunk_fps (ix_pipeline x))\<rparr>\<rparr>),
      on_indexer (\<lambda>x. x\<lparr>ix_pipeline := (ix_pipeline x)\<lparr>pp_meta_fps := clear (pp_meta_fps (ix_pipeline x))\<rparr>\<rparr>),
      (\<lambda>b. b\<lparr>bk_state := filter (\<lambda>(k, _). k \<noteq> ''weights_used'') (bk_state b)\<rparr>),
      pipeline_state_set ''schema_version'' SCHEMA_VERSION]"

text \<open>The statements a start executes: none when the version is current, only the sentinel for an
  empty database without one.\<close>

definition schema_check_steps :: "bulk_env \<Rightarrow> bulk \<Rightarrow> (bulk \<Rightarrow> bulk) list" where
  "schema_check_steps be b =
     (let stored = dict_get (bk_state b) ''schema_version''
      in if stored = Some SCHEMA_VERSION then []
         else if stored = None \<and> pp_chunk_fps (bk_pipeline b) = [] \<and> ix_components (bk_indexer b) = []
         then [pipeline_state_set ''schema_version'' SCHEMA_VERSION]
         else wipe_steps be)"

definition check_schema_version :: "bulk_env \<Rightarrow> bulk \<Rightarrow> bulk" where
  "check_schema_version be b = fold (\<lambda>f b. f b) (schema_check_steps be b) b"

text \<open>A start that ends after \<open>n\<close> of its statements.\<close>

definition interrupted_check :: "bulk_env \<Rightarrow> nat \<Rightarrow> bulk \<Rightarrow> bulk" where
  "interrupted_check be n b = fold (\<lambda>f b. f b) (take n (schema_check_steps be b)) b"

text \<open>The weights as the JSON text that is stored.\<close>

definition check_weights_changed :: "string \<Rightarrow> bulk \<Rightarrow> bulk" where
  "check_weights_changed current b =
     (if dict_get (bk_state b) ''weights_used'' = Some current then b
      else pipeline_state_set ''weights_used'' current b)"

end
