(* ===== verification/Bulk_Laws.thy ===== *)
theory Bulk_Laws
  imports Bulk_Index Indexing_Laws
begin

text \<open>
  What indexing a directory guarantees: a forced run settles every file and keeps what it does not
  find, a path on record is reported deleted by every run that misses it, and an interrupted reset
  is completed by the next start.
\<close>

section \<open>Rows and bindings an operation keeps\<close>

definition rows_kept :: "store \<Rightarrow> store \<Rightarrow> bool" where
  "rows_kept s s' \<longleftrightarrow>
     (\<forall>st. set (holder_rows st s) \<subseteq> set (holder_rows st s') \<and> set (content_rows st s) \<subseteq> set (content_rows st s'))"

definition file_binding :: "store \<Rightarrow> string \<Rightarrow> resource_binding option" where
  "file_binding s ref = fetch_key binding_key (st_bindings s) (''filesystem'', ref)"

definition bindings_kept :: "string set \<Rightarrow> store \<Rightarrow> store \<Rightarrow> bool" where
  "bindings_kept refs s s' \<longleftrightarrow> (\<forall>ref. ref \<notin> refs \<longrightarrow> file_binding s' ref = file_binding s ref)"

lemma kept_refl [simp]: "rows_kept s s" "bindings_kept refs s s"
  by (simp_all add: rows_kept_def bindings_kept_def)

lemma rows_kept_trans: "rows_kept s s' \<Longrightarrow> rows_kept s' s'' \<Longrightarrow> rows_kept s s''"
  by (fastforce simp: rows_kept_def)

lemma bindings_kept_trans:
  "bindings_kept refs s s' \<Longrightarrow> bindings_kept refs s' s'' \<Longrightarrow> bindings_kept refs s s''"
  by (simp add: bindings_kept_def)

lemma bindings_kept_mono: "bindings_kept refs s s' \<Longrightarrow> refs \<subseteq> refs' \<Longrightarrow> bindings_kept refs' s s'"
  by (auto simp: bindings_kept_def)

lemma same_bindings_kept: "st_bindings s' = st_bindings s \<Longrightarrow> bindings_kept refs s s'"
  by (simp add: bindings_kept_def file_binding_def)

lemma same_rows_kept:
  "st_m2m s' = st_m2m s \<Longrightarrow> st_chunks s' = st_chunks s \<Longrightarrow> rows_kept s s'"
  by (simp add: rows_kept_def holder_rows_def content_rows_def)

lemma get_binding_file_binding:
  "file_binding s' ref = file_binding s ref \<Longrightarrow>
    get_resource_binding s' ''filesystem'' ref = get_resource_binding s ''filesystem'' ref"
  by (simp add: get_resource_binding_def file_binding_def)

lemma insert_chunk_kept:
  "insert_chunk st i h l b s = Inr s' \<Longrightarrow> rows_kept s s' \<and> st_bindings s' = st_bindings s"
  by (auto simp: insert_chunk_def try_bind_Inr_iff table_of_def rows_kept_def holder_rows_def content_rows_def
      set_insert_or_ignore split: option.splits)

lemma add_file_path_kept:
  "add_file_path st i f k s = Inr s' \<Longrightarrow> rows_kept s s' \<and> st_bindings s' = st_bindings s"
  by (auto simp: add_file_path_def try_bind_Inr_iff table_of_def rows_kept_def holder_rows_def content_rows_def
      set_insert_or_ignore split: option.splits)

lemma add_file_paths_kept:
  "add_file_paths st c fps s = Inr s' \<Longrightarrow> rows_kept s s' \<and> st_bindings s' = st_bindings s"
  by (induction fps arbitrary: s) (fastforce simp: try_bind_Inr_iff dest: add_file_path_kept intro: rows_kept_trans)+

lemma ensure_table_kept:
  "rows_kept s (ensure_m2m_table st s)" "st_bindings (ensure_m2m_table st s) = st_bindings s"
  by (auto simp: rows_kept_def holder_rows_def content_rows_def ensure_m2m_table_def ensure_table_def
      split: option.splits)

lemma save_chunks_from_kept:
  "save_chunks_from st cs s = Inr s' \<Longrightarrow> rows_kept s s' \<and> st_bindings s' = st_bindings s"
proof (induction cs arbitrary: s)
  case Nil
  then show ?case by simp
next
  case (Cons c cs)
  then obtain s1 s2 where
    "insert_chunk st (ch_chunk_id c) (ch_heading_hierarchy c) (ch_level c) (ch_text c) s = Inr s1"
    "add_file_paths st c (ch_file_paths c) (ensure_m2m_table st s1) = Inr s2" "save_chunks_from st cs s2 = Inr s'"
    by (auto simp: try_bind_Inr_iff)
  from insert_chunk_kept [OF this(1)] ensure_table_kept [where s = s1 and st = st] add_file_paths_kept [OF this(2)] Cons.IH [OF this(3)]
  show ?case by (metis rows_kept_trans)
qed

lemma persist_chunks_kept:
  "persist_chunks st cs s = Inr s' \<Longrightarrow> rows_kept s s' \<and> st_bindings s' = st_bindings s"
proof (induction cs arbitrary: s)
  case Nil
  then show ?case by simp
next
  case (Cons c cs)
  then obtain s1 where s1: "persist_one_chunk_source_provenance st c s = Inr s1" "persist_chunks st cs s1 = Inr s'"
    by (auto simp: try_bind_Inr_iff)
  then have "st_m2m s1 = st_m2m s" "st_chunks s1 = st_chunks s" "st_bindings s1 = st_bindings s"
    by (auto simp: persist_one_chunk_source_provenance_def add_chunk_provenance_def try_bind_Inr_iff
        split: option.splits if_splits)
  with Cons.IH [OF s1(2)] show ?case by (metis same_rows_kept rows_kept_trans)
qed

lemma fold_upsert_document [simp]:
  "st_m2m (fold upsert_source_document ds s) = st_m2m s" "st_chunks (fold upsert_source_document ds s) = st_chunks s"
  "st_bindings (fold upsert_source_document ds s) = st_bindings s"
  by (induction ds arbitrary: s) (simp_all add: upsert_source_document_def)

lemma persist_chunk_source_provenance_kept:
  assumes "persist_chunk_source_provenance st cs ds s = (r, s')"
  shows "rows_kept s s' \<and> st_bindings s' = st_bindings s"
proof -
  let ?s = "ensure_chunk_source_provenance_table st s"
  have "rows_kept s s1 \<and> st_bindings s1 = st_bindings s"
    if "persist_chunks st cs (fold upsert_source_document ds ?s) = Inr s1" for s1
    using persist_chunks_kept [OF that] same_rows_kept [of "fold upsert_source_document ds ?s" s]
    by (auto simp: ensure_chunk_source_provenance_table_def intro: rows_kept_trans)
  moreover have "rows_kept s ?s \<and> st_bindings ?s = st_bindings s"
    by (simp add: same_rows_kept ensure_chunk_source_provenance_table_def)
  ultimately show ?thesis
    using assms by (auto simp: persist_chunk_source_provenance_def transaction_def try_bind_Inr_iff
        split: if_splits sum.splits)
qed

lemma upsert_binding_kept:
  assumes "upsert_active_filesystem_binding d s = Inr s'"
  shows "rows_kept s s' \<and> bindings_kept {sd_document_ref d} s s'"
  using assms by (auto simp: upsert_active_filesystem_binding_def try_bind_Inr_iff make_binding_def same_rows_kept
      bindings_kept_def file_binding_def upsert_resource_binding_def sql_simps binding_key_def active_binding_def
      dest!: validate_resource_binding_ok)

lemma upsert_bindings_kept:
  "upsert_bindings ds s = (r, s') \<Longrightarrow> rows_kept s s' \<and> bindings_kept (sd_document_ref ` set ds) s s'"
proof (induction ds arbitrary: s)
  case Nil
  then show ?case by simp
next
  case (Cons d ds)
  show ?case
  proof (cases "upsert_active_filesystem_binding d s")
    case (Inl e)
    with Cons.prems show ?thesis by simp
  next
    case (Inr s1)
    with Cons.prems have "upsert_bindings ds s1 = (r, s')" by simp
    from Cons.IH [OF this] upsert_binding_kept [OF Inr] show ?thesis
      by (auto intro: rows_kept_trans bindings_kept_trans bindings_kept_mono)
  qed
qed

section \<open>What a run keeps\<close>

definition run_kept :: "string set \<Rightarrow> indexer \<Rightarrow> indexer \<Rightarrow> bool" where
  "run_kept refs x x' \<longleftrightarrow> rows_kept (ix_store x) (ix_store x') \<and> bindings_kept refs (ix_store x) (ix_store x')"

definition refs_of :: "indexing_env \<Rightarrow> file_info list \<Rightarrow> string set" where
  "refs_of ie fis = (\<lambda>fi. ie_resolve ie (fi_path fi)) ` set fis"

lemma run_kept_trans: "run_kept refs x x' \<Longrightarrow> run_kept refs x' x'' \<Longrightarrow> run_kept refs x x''"
  by (auto simp: run_kept_def intro: rows_kept_trans bindings_kept_trans)

lemma run_kept_refl [simp]: "run_kept refs x x"
  by (simp add: run_kept_def)

lemma same_store_kept: "ix_store x' = ix_store x \<Longrightarrow> run_kept refs x x'"
  by (simp add: run_kept_def)

lemma source_documents_of_refs:
  "source_documents_of ie fis = Inr ds \<Longrightarrow> sd_document_ref ` set ds \<subseteq> refs_of ie fis"
proof (induction fis arbitrary: ds)
  case Nil
  then show ?case by simp
next
  case (Cons fi fis)
  then obtain d ds' where "source_document_for_file_info ie fi = Inr d" "source_documents_of ie fis = Inr ds'"
    "ds = d # ds'" by (auto simp: try_bind_Inr_iff)
  with Cons.IH document_facts(2) [of ie fi d] show ?case by (auto simp: refs_of_def)
qed

lemma embed_group_pipeline: "embed_group ie now fi cs x = (r, x') \<Longrightarrow> ix_pipeline x' = ix_pipeline x"
  by (auto simp: embed_group_def split: sum.splits prod.splits
      dest!: store_components_pipeline embed_meta_pipeline)

lemma embed_groups_pipeline: "embed_groups ie now fis gs x = (r, x') \<Longrightarrow> ix_pipeline x' = ix_pipeline x"
proof (induction gs arbitrary: x)
  case Nil
  then show ?case by simp
next
  case (Cons g gs)
  obtain fp cs where g: "g = (fp, cs)" by (cases g)
  show ?case
  proof (cases "group_file fis fp")
    case None
    with Cons g show ?thesis by simp
  next
    case (Some fi)
    obtain r1 x1 where 1: "embed_group ie now fi cs x = (r1, x1)" by fastforce
    with Some Cons g embed_group_pipeline [OF 1] show ?thesis by (auto split: sum.splits)
  qed
qed

lemma save_and_embed_kept:
  assumes "save_and_embed_chunks ie now cs fis x = (r, x')"
  shows "run_kept (refs_of ie fis) x x' \<and> pp_chunk_fps (ix_pipeline x') = pp_chunk_fps (ix_pipeline x)
    \<and> pp_meta_fps (ix_pipeline x') = pp_meta_fps (ix_pipeline x)"
proof (cases "save_chunks cs (ix_store x)")
  case (Inl e)
  with assms show ?thesis by (simp add: save_and_embed_chunks_def)
next
  case (Inr s)
  then have s: "rows_kept (ix_store x) s" "st_bindings s = st_bindings (ix_store x)"
    using save_chunks_from_kept by (auto simp: save_chunks_def)
  show ?thesis
  proof (cases "source_documents_of ie fis")
    case (Inl e)
    with assms Inr s show ?thesis
      by (auto simp: save_and_embed_chunks_def run_kept_def same_bindings_kept)
  next
    case ds: (Inr ds)
    obtain r1 s1 where 1: "persist_chunk_source_provenance (ie_strategy ie) cs ds s = (r1, s1)" by fastforce
    have s1: "rows_kept (ix_store x) s1" "st_bindings s1 = st_bindings (ix_store x)"
      using persist_chunk_source_provenance_kept [OF 1] s by (auto intro: rows_kept_trans)
    obtain r2 x2 where 2: "embed_groups ie now fis
        (group_chunks (case fis of fi # _ \<Rightarrow> fi_path fi | [] \<Rightarrow> '''') cs []) (set_store s1 x) = (r2, x2)" by fastforce
    note x2 = embed_groups_pipeline [OF 2]
    obtain r3 s3 where 3: "upsert_bindings ds (ix_store x2) = (r3, s3)" by fastforce
    have "rows_kept s1 s3 \<and> bindings_kept (refs_of ie fis) s1 s3"
      using upsert_bindings_kept [OF 3] source_documents_of_refs [OF ds] x2
      by (auto intro: bindings_kept_mono)
    with s1 have "rows_kept (ix_store x) s3" "bindings_kept (refs_of ie fis) (ix_store x) s3"
      by (auto intro: rows_kept_trans bindings_kept_trans same_bindings_kept)
    with assms Inr ds 1 2 3 s1 x2 show ?thesis
      by (auto simp: save_and_embed_chunks_def run_kept_def same_bindings_kept split: sum.splits)
  qed
qed

lemma save_fingerprints_store [simp]:
  "pp_store (save_all_fingerprints ie now fis p) = pp_store p"
proof -
  have "pp_store (fold (\<lambda>fi. save_chunk_fingerprint env now (fi_path fi)) fis p) = pp_store p"
    "pp_store (fold (\<lambda>fi. save_meta_fingerprint env now (fi_path fi)) fis p) = pp_store p" for env p
    by (induction fis arbitrary: p) (simp_all add: save_chunk_fingerprint_def save_meta_fingerprint_def)
  then show ?thesis by (simp add: save_all_fingerprints_def)
qed

lemma finalize_kept:
  "finalize now fis totals ov dc dir x = (r, x') \<Longrightarrow> run_kept refs x x'
    \<and> pp_chunk_fps (ix_pipeline x') = pp_chunk_fps (ix_pipeline x) \<and> pp_meta_fps (ix_pipeline x') = pp_meta_fps (ix_pipeline x)"
  by (auto simp: finalize_def Let_def run_kept_def save_stats_def same_rows_kept same_bindings_kept split: sum.splits)

lemma set_pipeline_fields [simp]:
  "ix_pipeline (set_pipeline p x) = p" "ix_embedding (set_pipeline p x) = ix_embedding x"
  by (simp_all add: set_pipeline_def)

text \<open>The ingest of new files, without files to embed again.\<close>

lemma ingest_kept:
  assumes "ingest_and_finalize be now by_path all fis [] ov dc dir x = (r, x')"
  shows "run_kept (refs_of (be_indexing be) fis) x x'"
proof (cases "chunk_files (be_indexing be) by_path fis")
  case (Inl e)
  with assms show ?thesis by (simp add: ingest_and_finalize_def)
next
  case cs: (Inr cs)
  obtain r1 x1 where 1: "(if cs = [] then (Inr (), x) else save_and_embed_chunks (be_indexing be) now cs fis x) = (r1, x1)"
    by fastforce
  then have x1: "run_kept (refs_of (be_indexing be) fis) x x1"
    using save_and_embed_kept by (auto split: if_splits)
  let ?x2 = "set_pipeline (save_all_fingerprints (be_indexing be) now fis (ix_pipeline x1)) x1"
  have x2: "run_kept (refs_of (be_indexing be) fis) x ?x2"
    using x1 by (rule run_kept_trans) (simp add: same_store_kept)
  show ?thesis
    using assms cs 1 x1 x2 unfolding ingest_and_finalize_def Let_def embed_existing_chunks_def
    by (auto split: sum.splits prod.splits dest!: finalize_kept intro: run_kept_trans)
qed

text \<open>
  C14: A forced run keeps what it does not find.  Every holder row and every chunk row is still there
  after it, so chunks of files that have gone stay attached to their paths, and no binding is
  touched but those of the discovered files: a file that has gone keeps an active binding.
\<close>

theorem forced_run_keeps_missing:
  "set (holder_rows strategy (bk_store b)) \<subseteq> set (holder_rows strategy (bk_store (snd (full_index be now by_path fis dir b))))
    \<and> set (content_rows strategy (bk_store b)) \<subseteq> set (content_rows strategy (bk_store (snd (full_index be now by_path fis dir b))))
    \<and> {ref. get_resource_binding (bk_store (snd (full_index be now by_path fis dir b))) ''filesystem'' ref
          \<noteq> get_resource_binding (bk_store b) ''filesystem'' ref}
        \<subseteq> (\<lambda>fi. ie_resolve (be_indexing be) (fi_path fi)) ` set fis"
proof -
  let ?x = "set_store (clear_fts (ix_store (clear_trackers (bk_indexer (drop_vectors b)))))
    (clear_trackers (bk_indexer (drop_vectors b)))"
  obtain r x' where run: "ingest_and_finalize be now by_path fis fis [] True
      \<lparr>dn_new = int (length fis), dn_modified = 0, dn_deleted = 0, dn_unchanged = 0\<rparr> dir ?x = (r, x')" by fastforce
  then have x': "bk_store (snd (full_index be now by_path fis dir b)) = ix_store x'"
    by (simp add: full_index_def run_indexer_def)
  have "rows_kept (bk_store b) (ix_store ?x)" "st_bindings (ix_store ?x) = st_bindings (bk_store b)"
    by (auto simp: drop_vectors_def on_indexer_def clear_trackers_def clear_fts_def intro!: same_rows_kept
        split: option.splits)
  with ingest_kept [OF run] have "rows_kept (bk_store b) (ix_store x')"
    "bindings_kept (refs_of (be_indexing be) fis) (bk_store b) (ix_store x')"
    by (auto simp: run_kept_def intro: rows_kept_trans bindings_kept_trans same_bindings_kept)
  then show ?thesis
    unfolding x' using get_binding_file_binding [of "ix_store x'" _ "bk_store b"]
    by (auto simp: rows_kept_def bindings_kept_def refs_of_def)
qed

section \<open>Settled files\<close>

lemma fingerprinted_save_other:
  "fingerprinted fs path t \<Longrightarrow> fingerprinted fs path (save_file_fingerprint now fs q t)"
  by (auto simp: fingerprinted_def save_file_fingerprint_def save_fingerprint_def sql_simps split: option.splits)

lemma save_fingerprint_paths:
  "fs q \<noteq> None \<Longrightarrow> fp_file_path ` set (save_file_fingerprint now fs q t) = insert q (fp_file_path ` set t)"
  by (auto simp: save_file_fingerprint_def save_fingerprint_def sql_simps)

lemma save_fingerprint_kept_paths:
  "fp_file_path ` set t \<subseteq> fp_file_path ` set (save_file_fingerprint now fs q t)"
  by (auto simp: save_file_fingerprint_def save_fingerprint_def sql_simps split: option.splits)

lemma save_all_tables:
  "pp_chunk_fps (save_all_fingerprints ie now fis p) =
     fold (\<lambda>fi. save_file_fingerprint now (ev_chunk_files (pipeline_env ie)) (fi_path fi)) fis (pp_chunk_fps p)"
  "pp_meta_fps (save_all_fingerprints ie now fis p) =
     fold (\<lambda>fi. save_file_fingerprint now (ev_meta_files (pipeline_env ie)) (fi_path fi)) fis (pp_meta_fps p)"
proof -
  have "pp_chunk_fps (fold (\<lambda>fi. save_chunk_fingerprint env now (fi_path fi)) fis p)
      = fold (\<lambda>fi. save_file_fingerprint now (ev_chunk_files env) (fi_path fi)) fis (pp_chunk_fps p)"
    "pp_meta_fps (fold (\<lambda>fi. save_chunk_fingerprint env now (fi_path fi)) fis p) = pp_meta_fps p"
    "pp_chunk_fps (fold (\<lambda>fi. save_meta_fingerprint env now (fi_path fi)) fis p) = pp_chunk_fps p"
    "pp_meta_fps (fold (\<lambda>fi. save_meta_fingerprint env now (fi_path fi)) fis p)
      = fold (\<lambda>fi. save_file_fingerprint now (ev_meta_files env) (fi_path fi)) fis (pp_meta_fps p)" for env p
    by (induction fis arbitrary: p) (simp_all add: save_chunk_fingerprint_def save_meta_fingerprint_def)
  then show "pp_chunk_fps (save_all_fingerprints ie now fis p) =
      fold (\<lambda>fi. save_file_fingerprint now (ev_chunk_files (pipeline_env ie)) (fi_path fi)) fis (pp_chunk_fps p)"
    "pp_meta_fps (save_all_fingerprints ie now fis p) =
      fold (\<lambda>fi. save_file_fingerprint now (ev_meta_files (pipeline_env ie)) (fi_path fi)) fis (pp_meta_fps p)"
    by (simp_all add: save_all_fingerprints_def)
qed

lemma fold_keeps_fingerprinted:
  "fingerprinted fs p t \<Longrightarrow> fingerprinted fs p (fold (\<lambda>fi. save_file_fingerprint now fs (fi_path fi)) fis t)"
  by (induction fis arbitrary: t) (simp_all add: fingerprinted_save_other)

lemma fold_fingerprinted:
  assumes "\<forall>fi \<in> set fis. fs (fi_path fi) \<noteq> None"
  shows "\<forall>fi \<in> set fis. fingerprinted fs (fi_path fi) (fold (\<lambda>fi. save_file_fingerprint now fs (fi_path fi)) fis t)"
    and "fp_file_path ` set (fold (\<lambda>fi. save_file_fingerprint now fs (fi_path fi)) fis t)
      = fi_path ` set fis \<union> fp_file_path ` set t"
proof -
  show "\<forall>fi \<in> set fis. fingerprinted fs (fi_path fi) (fold (\<lambda>fi. save_file_fingerprint now fs (fi_path fi)) fis t)"
    using assms
  proof (induction fis arbitrary: t)
    case Nil
    then show ?case by simp
  next
    case (Cons fi fis)
    from Cons.prems obtain st where "fs (fi_path fi) = Some st" by auto
    from fold_keeps_fingerprinted [OF fingerprinted_save [of fs "fi_path fi" st now t]] this
    show ?case using Cons by simp
  qed
  show "fp_file_path ` set (fold (\<lambda>fi. save_file_fingerprint now fs (fi_path fi)) fis t)
      = fi_path ` set fis \<union> fp_file_path ` set t"
    using assms by (induction fis arbitrary: t) (auto simp: save_fingerprint_paths)
qed

lemma diff_fingerprinted:
  assumes "\<forall>p \<in> set ps. fingerprinted fs p t"
  shows "diff fs ps t = (Inr \<lparr>fd_new = [], fd_modified = [], fd_deleted = filter (\<lambda>p. p \<notin> set ps) (map fp_file_path t),
    fd_unchanged = ps\<rparr>, t)"
proof -
  have "diff_files fs t ps r t = (Inr (r\<lparr>fd_unchanged := fd_unchanged r @ ps\<rparr>), t)" for r
    using assms by (induction ps arbitrary: r) (auto simp: fingerprinted_def split: option.splits)
  then show ?thesis by (simp add: diff_def empty_diff_def)
qed

definition file_bound :: "store \<Rightarrow> string \<Rightarrow> bool" where
  "file_bound s ref \<longleftrightarrow> (\<exists>b. get_resource_binding s ''filesystem'' ref = Inr (Some b) \<and> rb_active b)"

lemma file_bound_cong: "st_bindings s' = st_bindings s \<Longrightarrow> file_bound s' ref = file_bound s ref"
  by (simp add: file_bound_def get_resource_binding_def)

lemma upsert_binds:
  assumes "upsert_active_filesystem_binding d s = Inr s'" and "sd_namespace d = ''filesystem''"
  shows "file_bound s' (sd_document_ref d)" "file_bound s ref \<Longrightarrow> file_bound s' ref"
proof -
  have v: "validate_resource_binding (active_binding d [] []) = Inr (active_binding d [] [])"
    and s': "s' = upsert_resource_binding (active_binding d [] []) s"
    using assms(1) by (auto simp: upsert_active_filesystem_binding_def try_bind_Inr_iff make_binding_def
        dest: validate_resource_binding_ok)
  show *: "file_bound s' (sd_document_ref d)"
    using v assms(2) by (auto simp: s' file_bound_def get_resource_binding_def upsert_resource_binding_def sql_simps
        binding_key_def active_binding_def)
  show "file_bound s' ref" if "file_bound s ref"
  proof (cases "ref = sd_document_ref d")
    case True
    with * show ?thesis by simp
  next
    case False
    with that show ?thesis
      by (simp add: s' file_bound_def get_resource_binding_def upsert_resource_binding_def sql_simps
          binding_key_def active_binding_def)
  qed
qed

lemma upsert_bindings_bind:
  assumes "upsert_bindings ds s = (Inr (), s')" and "\<forall>d \<in> set ds. sd_namespace d = ''filesystem''"
  shows "\<forall>d \<in> set ds. file_bound s' (sd_document_ref d)" "file_bound s ref \<Longrightarrow> file_bound s' ref"
proof -
  have "(\<forall>d \<in> set ds. file_bound s' (sd_document_ref d)) \<and> (\<forall>ref. file_bound s ref \<longrightarrow> file_bound s' ref)"
    using assms
  proof (induction ds arbitrary: s)
    case Nil
    then show ?case by simp
  next
    case (Cons d ds)
    then obtain s1 where s1: "upsert_active_filesystem_binding d s = Inr s1" "upsert_bindings ds s1 = (Inr (), s')"
      by (auto split: sum.splits)
    from Cons.IH [OF s1(2)] Cons.prems(2) upsert_binds [OF s1(1)] show ?case by auto
  qed
  then show "\<forall>d \<in> set ds. file_bound s' (sd_document_ref d)" "file_bound s ref \<Longrightarrow> file_bound s' ref" by auto
qed

lemma source_documents_of_all:
  "source_documents_of ie fis = Inr ds \<Longrightarrow>
    (\<forall>d \<in> set ds. sd_namespace d = ''filesystem'') \<and> sd_document_ref ` set ds = refs_of ie fis"
proof (induction fis arbitrary: ds)
  case Nil
  then show ?case by (simp add: refs_of_def)
next
  case (Cons fi fis)
  then obtain d ds' where d: "source_document_for_file_info ie fi = Inr d" "source_documents_of ie fis = Inr ds'"
    "ds = d # ds'" by (auto simp: try_bind_Inr_iff)
  with Cons.IH [OF d(2)] document_facts(1,2) [OF d(1)] show ?case by (auto simp: refs_of_def)
qed

lemma save_and_embed_binds:
  assumes "save_and_embed_chunks ie now cs fis x = (Inr (), x')" and "ref \<in> refs_of ie fis"
  shows "file_bound (ix_store x') ref"
proof -
  obtain ds x2 s3 where ds: "source_documents_of ie fis = Inr ds"
    and s3: "upsert_bindings ds (ix_store x2) = (Inr (), s3)" "x' = set_store s3 x2"
    using assms(1) by (auto simp: save_and_embed_chunks_def split: sum.splits prod.splits)
  note all = source_documents_of_all [OF ds]
  then obtain d where "d \<in> set ds" "ref = sd_document_ref d" using assms(2) by auto
  with upsert_bindings_bind(1) [OF s3(1)] all s3(2) show ?thesis by simp
qed

lemma file_infos_facts:
  assumes "file_infos_by_source_document ie ds fis0 m0 = Inr (fis, m)"
  shows "\<exists>fis'. fis = fis0 @ fis' \<and> (\<forall>fi \<in> set fis'. ie_disk ie (fi_path fi) \<noteq> None)
    \<and> (\<forall>d \<in> set ds. sd_namespace d = ''filesystem'' \<and> sd_document_ref d \<in> refs_of ie fis')"
  using assms
proof (induction ds arbitrary: fis0 m0)
  case Nil
  then show ?case by (simp add: refs_of_def)
next
  case (Cons d ds)
  then obtain fi where fi: "file_info_of_document ie d = Inr fi"
    "assert_filesystem_document_ref ie fi d = Inr ()"
    and rest: "file_infos_by_source_document ie ds (fis0 @ [fi]) (dict_set (fi_path fi) d m0) = Inr (fis, m)"
    by (auto simp: try_bind_Inr_iff)
  from fi have "ie_disk ie (fi_path fi) \<noteq> None" "sd_namespace d = ''filesystem''"
    "sd_document_ref d = ie_resolve ie (fi_path fi)"
    by (auto simp: file_info_of_document_def assert_filesystem_document_ref_def try_bind_Inr_iff
        source_document_to_file_info_def meta_entity_id_def pipeline_env_def split: option.splits if_splits)
  moreover obtain fis' where "fis = (fis0 @ [fi]) @ fis'" "\<forall>fi \<in> set fis'. ie_disk ie (fi_path fi) \<noteq> None"
    "\<forall>d \<in> set ds. sd_namespace d = ''filesystem'' \<and> sd_document_ref d \<in> refs_of ie fis'"
    using Cons.IH [OF rest] by blast
  ultimately show ?case by (intro exI [of _ "fi # fis'"]) (auto simp: refs_of_def)
qed

lemma rebind_all_bound:
  assumes "\<forall>d \<in> set ds. sd_namespace d = ''filesystem'' \<and> file_bound (pp_store p) (sd_document_ref d)"
  shows "rebind_retained_filesystem_documents env now ds acc p = (Inr acc, p\<lparr>pp_last_rebind := Some acc\<rparr>)"
  using assms
proof (induction ds)
  case Nil
  then show ?case by simp
next
  case (Cons d ds)
  then obtain b where "get_resource_binding (pp_store p) ''filesystem'' (sd_document_ref d) = Inr (Some b)" "rb_active b"
    by (auto simp: file_bound_def)
  moreover have "add_diagnostics acc no_rebind = acc" by (simp add: add_diagnostics_def no_rebind_def)
  ultimately show ?case using active_not_rebound [of d p b env now] Cons by simp
qed

text \<open>A state in which the next run finds nothing to do.\<close>

definition all_settled :: "indexing_env \<Rightarrow> file_info list \<Rightarrow> indexer \<Rightarrow> bool" where
  "all_settled ie fis x \<longleftrightarrow>
     (\<forall>fi \<in> set fis. file_bound (ix_store x) (ie_resolve ie (fi_path fi))
        \<and> fingerprinted (ev_chunk_files (pipeline_env ie)) (fi_path fi) (pp_chunk_fps (ix_pipeline x))
        \<and> fingerprinted (ev_meta_files (pipeline_env ie)) (fi_path fi) (pp_meta_fps (ix_pipeline x)))
     \<and> fp_file_path ` set (pp_chunk_fps (ix_pipeline x)) = fi_path ` set fis"

lemma settled_run:
  assumes "file_infos_by_source_document (be_indexing be) documents [] [] = Inr (fis, by_path)"
    and "all_settled (be_indexing be) fis x"
  shows "changed_index be now documents by_path fis dir x =
    (Inr ((case get_stats (ix_store x) of Some st \<Rightarrow> st | None \<Rightarrow> empty_stats)
        \<lparr>is_new_files := 0, is_modified_files := 0, is_deleted_files := 0,
         is_unchanged_files := int (length fis), is_data_dir := dir\<rparr>),
     set_pipeline ((ix_pipeline x)\<lparr>pp_last_rebind := Some no_rebind\<rparr>) x)"
proof -
  let ?env = "pipeline_env (be_indexing be)" and ?ps = "map fi_path fis"
  have deleted: "filter (\<lambda>p. p \<notin> set ?ps) (map fp_file_path (pp_chunk_fps (ix_pipeline x))) = []"
    using assms(2) by (auto simp: all_settled_def filter_empty_conv)
  have chunk: "diff (ev_chunk_files ?env) ?ps (pp_chunk_fps (ix_pipeline x)) =
      (Inr \<lparr>fd_new = [], fd_modified = [], fd_deleted = [], fd_unchanged = ?ps\<rparr>, pp_chunk_fps (ix_pipeline x))"
    using assms(2) by (subst diff_fingerprinted) (auto simp: all_settled_def filter_empty_conv)
  have meta: "\<exists>del. diff (ev_meta_files ?env) ?ps (pp_meta_fps (ix_pipeline x)) =
      (Inr \<lparr>fd_new = [], fd_modified = [], fd_deleted = del, fd_unchanged = ?ps\<rparr>, pp_meta_fps (ix_pipeline x))"
    using assms(2) by (subst diff_fingerprinted) (auto simp: all_settled_def)
  have "\<forall>d \<in> set documents. sd_namespace d = ''filesystem'' \<and> file_bound (ix_store x) (sd_document_ref d)"
    using file_infos_facts [OF assms(1)] assms(2) by (fastforce simp: all_settled_def refs_of_def)
  note rebind = rebind_all_bound [OF this, of ?env now no_rebind]
  show ?thesis
    using meta rebind by (auto simp: changed_index_def chunk unchanged_index_def track_meta_def quiet_stats_def
        set_pipeline_def)
qed

lemma forced_run_settled:
  assumes "full_index be now by_path fis dir b = (Inr stats, b')"
    and "chunk_files (be_indexing be) by_path fis = Inr (c # cs)"
    and "\<forall>fi \<in> set fis. ie_disk (be_indexing be) (fi_path fi) \<noteq> None"
  shows "all_settled (be_indexing be) fis (bk_indexer b') \<and> get_stats (bk_store b') = Some stats"
proof -
  let ?ie = "be_indexing be"
  let ?x = "set_store (clear_fts (ix_store (clear_trackers (bk_indexer (drop_vectors b)))))
    (clear_trackers (bk_indexer (drop_vectors b)))"
  obtain dc x' where run: "ingest_and_finalize be now by_path fis fis [] True dc dir ?x = (Inr stats, x')"
    and b': "bk_indexer b' = x'"
    using assms(1) by (auto simp: full_index_def run_indexer_def split: prod.splits)
  obtain x1 totals where x1: "save_and_embed_chunks ?ie now (c # cs) fis ?x = (Inr (), x1)"
    and fin: "finalize now fis totals True dc dir
      (set_pipeline (save_all_fingerprints ?ie now fis (ix_pipeline x1)) x1) = (Inr stats, x')"
    using run assms(2) by (auto simp: ingest_and_finalize_def Let_def embed_existing_chunks_def
        split: sum.splits prod.splits)
  let ?p2 = "save_all_fingerprints ?ie now fis (ix_pipeline x1)"
  have x': "get_stats (ix_store x') = Some stats" "st_bindings (ix_store x') = st_bindings (ix_store x1)"
    "pp_chunk_fps (ix_pipeline x') = pp_chunk_fps ?p2" "pp_meta_fps (ix_pipeline x') = pp_meta_fps ?p2"
    using fin by (auto simp: finalize_def Let_def get_stats_def save_stats_def split: sum.splits)
  have empty: "pp_chunk_fps (ix_pipeline x1) = []"
    using save_and_embed_kept [OF x1] by (simp add: clear_trackers_def)
  have files: "\<forall>fi \<in> set fis. ev_chunk_files (pipeline_env ?ie) (fi_path fi) \<noteq> None"
    "\<forall>fi \<in> set fis. ev_meta_files (pipeline_env ?ie) (fi_path fi) \<noteq> None"
    using assms(3) by (auto simp: pipeline_env_def tracked_files_def)
  have "file_bound (ix_store x') (ie_resolve ?ie (fi_path fi))" if "fi \<in> set fis" for fi
    using save_and_embed_binds [OF x1, of "ie_resolve ?ie (fi_path fi)"] that
    by (simp add: file_bound_cong [OF x'(2)] refs_of_def)
  then show ?thesis
    using fold_fingerprinted [OF files(1)] fold_fingerprinted(1) [OF files(2)] x'
    by (simp add: all_settled_def b' save_all_tables empty)
qed

text \<open>
  C6: A forced run settles.  When it returns and there was something to index, the next run over the
  same documents on the unchanged disk reports nothing new, modified or deleted and every file
  unchanged, returns the statistics on record, and changes nothing in the store, the embedding
  state, the fingerprints or the sentinels.
\<close>

theorem forced_run_settles:
  assumes "index_directory be now True documents dir b = (Inr stats, b')"
    and "file_infos_by_source_document (be_indexing be) documents [] [] = Inr (fis, by_path)"
    and "chunk_files (be_indexing be) by_path fis = Inr (c # cs)"
  shows "index_directory be now' False documents dir' b' =
    (Inr (stats\<lparr>is_new_files := 0, is_modified_files := 0, is_deleted_files := 0,
        is_unchanged_files := int (length fis), is_data_dir := Some dir'\<rparr>),
     b'\<lparr>bk_indexer := set_pipeline ((bk_pipeline b')\<lparr>pp_last_rebind := Some no_rebind\<rparr>) (bk_indexer b')\<rparr>)"
proof -
  have run: "full_index be now by_path fis (Some dir) b = (Inr stats, b')"
    using assms(1,2) by (simp add: index_directory_def)
  have "\<forall>fi \<in> set fis. ie_disk (be_indexing be) (fi_path fi) \<noteq> None"
    using file_infos_facts [OF assms(2)] by auto
  from settled_run [OF assms(2) conjunct1 [OF forced_run_settled [OF run assms(3) this]]]
    forced_run_settled [OF run assms(3) this] assms(2)
  show ?thesis by (simp add: index_directory_def run_indexer_def)
qed

section \<open>Deleted files\<close>

definition tracked :: "string \<Rightarrow> pipeline \<Rightarrow> bool" where
  "tracked path p \<longleftrightarrow> path \<in> fp_file_path ` set (pp_chunk_fps p)"

lemma tracked_save [simp]:
  "tracked path p \<Longrightarrow> tracked path (save_chunk_fingerprint env now q p)"
  "tracked path (save_meta_fingerprint env now q p) = tracked path p"
  "tracked path (p\<lparr>pp_store := s\<rparr>) = tracked path p" "tracked path (p\<lparr>pp_last_rebind := d\<rparr>) = tracked path p"
proof -
  show "tracked path p \<Longrightarrow> tracked path (save_chunk_fingerprint env now q p)"
    using save_fingerprint_kept_paths [of "pp_chunk_fps p" now "ev_chunk_files env" q]
    by (auto simp: tracked_def save_chunk_fingerprint_def)
qed (simp_all add: tracked_def save_meta_fingerprint_def)

lemma tracked_save_all:
  "tracked path p \<Longrightarrow> tracked path (save_all_fingerprints ie now fis p)"
proof -
  have "tracked path p \<Longrightarrow> tracked path (fold (\<lambda>fi. save_chunk_fingerprint env now (fi_path fi)) fis p)"
    "tracked path p \<Longrightarrow> tracked path (fold (\<lambda>fi. save_meta_fingerprint env now (fi_path fi)) fis p)" for env p
    by (induction fis arbitrary: p) simp_all
  then show "tracked path p \<Longrightarrow> tracked path (save_all_fingerprints ie now fis p)"
    by (simp add: save_all_fingerprints_def)
qed

lemma tracked_rebind:
  "rebind_retained_filesystem_document env now d p = (r, p') \<Longrightarrow> tracked path p \<Longrightarrow> tracked path p'"
  by (auto simp: rebind_retained_filesystem_document_def Let_def split: if_splits sum.splits option.splits
      list.splits prod.splits)

lemma tracked_rebind_new:
  "rebind_new env now by_path new fis acc p = (r, p') \<Longrightarrow> tracked path p \<Longrightarrow> tracked path p'"
proof (induction fis arbitrary: acc p)
  case Nil
  then show ?case by simp
next
  case (Cons fi fis)
  show ?case
  proof (cases "fi_path fi \<in> set new \<and> dict_get by_path (fi_path fi) \<noteq> None")
    case False
    with Cons show ?thesis by (auto split: if_splits option.splits)
  next
    case True
    then obtain d where d: "dict_get by_path (fi_path fi) = Some d" by blast
    obtain r1 p1 where 1: "rebind_retained_filesystem_document env now d p = (r1, p1)" by fastforce
    with Cons True d tracked_rebind [OF 1] show ?thesis by (auto split: sum.splits)
  qed
qed

lemma tracked_diff:
  "diff_files fs stored ps res t = (r, t') \<Longrightarrow> fp_file_path ` set t' = fp_file_path ` set t"
proof (induction ps arbitrary: res t)
  case Nil
  then show ?case by simp
next
  case (Cons p ps)
  have "fp_file_path ` set (touch_fingerprint p st t) = fp_file_path ` set t" for st
  proof -
    have "map fp_file_path (touch_fingerprint p st t) = map fp_file_path t"
      by (auto simp: touch_as_map)
    then show ?thesis by (metis set_map)
  qed
  with Cons show ?case by (fastforce split: option.splits if_splits)
qed

lemma tracked_purge_files:
  "purge_files env ps p = (r, p') \<Longrightarrow> path \<notin> set ps \<Longrightarrow> tracked path p \<Longrightarrow> tracked path p'"
proof (induction ps arbitrary: p)
  case Nil
  then show ?case by simp
next
  case (Cons q ps)
  obtain r1 p1 where 1: "purge_file env q p = (r1, p1)" by fastforce
  then have "tracked path p1" using Cons.prems
    by (auto simp: purge_file_def tracked_def remove_fingerprint_def split: prod.splits sum.splits)
  with Cons 1 show ?case by (auto split: sum.splits)
qed

lemma existing_vectors_pipeline: "existing_vectors ie now sw cs x = (r, x') \<Longrightarrow> ix_pipeline x' = ix_pipeline x"
  by (auto simp: existing_vectors_def split: if_splits sum.splits prod.splits dest: text_vectors_pipeline)

lemma bindings_kept_document [simp]:
  "bindings_kept refs (upsert_source_document d s) s' = bindings_kept refs s s'"
  "bindings_kept refs s (upsert_source_document d s') = bindings_kept refs s s'"
  by (simp_all add: bindings_kept_def file_binding_def upsert_source_document_def)

lemma finish_existing_frame:
  "finish_existing ie now fi x = (r, x') \<Longrightarrow> pp_chunk_fps (ix_pipeline x') = pp_chunk_fps (ix_pipeline x)
    \<and> bindings_kept {ie_resolve ie (fi_path fi)} (ix_store x) (ix_store x')"
  by (auto simp: finish_existing_def Let_def save_meta_fingerprint_def
      split: sum.splits dest!: upsert_binding_kept document_facts(2))

lemma embed_existing_file_frame:
  assumes "embed_existing_file ie now sw fi x = (r, x')"
  shows "pp_chunk_fps (ix_pipeline x') = pp_chunk_fps (ix_pipeline x)
    \<and> bindings_kept {ie_resolve ie (fi_path fi)} (ix_store x) (ix_store x')"
proof -
  have "ix_pipeline x' = ix_pipeline x \<or> (\<exists>y. ix_pipeline y = ix_pipeline x \<and> finish_existing ie now fi y = (r, x'))"
  proof (cases "\<exists>cs. stored_file_chunks ie (fi_path fi) (ix_store x) = Inr cs \<and> cs \<noteq> []")
    case False
    with assms show ?thesis by (auto simp: embed_existing_file_def split: sum.splits if_splits)
  next
    case True
    then obtain cs where cs: "stored_file_chunks ie (fi_path fi) (ix_store x) = Inr cs" "cs \<noteq> []" by blast
    obtain r1 x1 where 1: "existing_vectors ie now sw cs x = (r1, x1)" by fastforce
    obtain r2 x2 where 2: "embed_meta_component ie fi x1 = (r2, x2)" by fastforce
    have x2: "ix_pipeline x1 = ix_pipeline x" "ix_pipeline x2 = ix_pipeline x"
      using existing_vectors_pipeline [OF 1] embed_meta_pipeline [OF 2] by simp_all
    have x4: "ix_pipeline x3 = ix_pipeline x" "ix_pipeline x4 = ix_pipeline x"
      if "store_components ie ''text'' tc x2 = (r3, x3)" "store_meta_component ie fi em x3 = (r4, x4)" for tc r3 x3 em r4 x4
      using store_components_pipeline [OF that(1)] store_components_pipeline [OF that(2) [unfolded store_meta_component_def]] x2
      by simp_all
    show ?thesis
      using assms cs 1 2 x2 x4 by (fastforce simp: embed_existing_file_def split: sum.splits prod.splits)
  qed
  then show ?thesis using finish_existing_frame by fastforce
qed

lemma embed_existing_files_frame:
  "embed_existing_files ie now sw fis x = (r, x') \<Longrightarrow> pp_chunk_fps (ix_pipeline x') = pp_chunk_fps (ix_pipeline x)
    \<and> bindings_kept (refs_of ie fis) (ix_store x) (ix_store x')"
proof (induction fis arbitrary: x)
  case Nil
  then show ?case by simp
next
  case (Cons fi fis)
  obtain r1 x1 where 1: "embed_existing_file ie now sw fi x = (r1, x1)" by fastforce
  note f = embed_existing_file_frame [OF 1]
  show ?case
  proof (cases r1)
    case (Inl e)
    with Cons.prems 1 f show ?thesis by (auto simp: refs_of_def intro: bindings_kept_mono)
  next
    case (Inr u)
    with Cons.prems 1 have "embed_existing_files ie now sw fis x1 = (r, x')" by simp
    from Cons.IH [OF this] f show ?thesis
      by (auto simp: refs_of_def intro: bindings_kept_trans bindings_kept_mono)
  qed
qed

lemma embed_existing_frame:
  assumes "embed_existing_chunks ie now False fis x = (r, x')"
  shows "pp_chunk_fps (ix_pipeline x') = pp_chunk_fps (ix_pipeline x)"
    "bindings_kept (refs_of ie fis) (ix_store x) (ix_store x')"
  using assms embed_existing_files_frame [of ie now False fis x r x'] by (simp_all add: embed_existing_chunks_def)

lemma ingest_frame:
  assumes "ingest_and_finalize be now by_path all fis embed_only ov dc dir x = (r, x')"
  shows "tracked path (ix_pipeline x) \<Longrightarrow> tracked path (ix_pipeline x')"
    "bindings_kept (refs_of (be_indexing be) fis \<union> refs_of (be_indexing be) embed_only) (ix_store x) (ix_store x')"
proof -
  let ?ie = "be_indexing be" and ?R = "refs_of (be_indexing be) fis \<union> refs_of (be_indexing be) embed_only"
  obtain cs where cs: "chunk_files ?ie by_path fis = Inr cs \<or> x' = x"
    using assms by (cases "chunk_files ?ie by_path fis") (auto simp: ingest_and_finalize_def Let_def)
  obtain r1 x1 where 1: "(if cs = [] then (Inr (), x) else save_and_embed_chunks ?ie now cs fis x) = (r1, x1)"
    by fastforce
  have x1: "pp_chunk_fps (ix_pipeline x1) = pp_chunk_fps (ix_pipeline x)" "bindings_kept ?R (ix_store x) (ix_store x1)"
    using 1 save_and_embed_kept [of ?ie now cs fis x r1 x1]
    by (auto simp: run_kept_def split: if_splits intro: bindings_kept_mono)
  let ?x2 = "set_pipeline (save_all_fingerprints ?ie now fis (ix_pipeline x1)) x1"
  obtain r3 x3 where 3: "embed_existing_chunks ?ie now False embed_only ?x2 = (r3, x3)" by fastforce
  have x3: "pp_chunk_fps (ix_pipeline x3) = pp_chunk_fps (ix_pipeline ?x2)" "bindings_kept ?R (ix_store x1) (ix_store x3)"
    using embed_existing_frame [OF 3] by (auto intro: bindings_kept_mono)
  have cases: "x' = x \<or> x' = x1 \<or> x' = x3 \<or> (\<exists>totals. finalize now all totals ov dc dir x3 = (r, x'))"
    using assms cs 1 3 by (auto simp: ingest_and_finalize_def Let_def split: sum.splits prod.splits)
  then show "bindings_kept ?R (ix_store x) (ix_store x')"
  proof (elim disjE exE)
    fix totals
    assume "finalize now all totals ov dc dir x3 = (r, x')"
    from finalize_kept [OF this, of ?R] x1(2) x3(2) show ?thesis
      by (auto simp: run_kept_def intro: bindings_kept_trans)
  qed (use x1(2) x3(2) in \<open>auto intro: bindings_kept_trans\<close>)
  assume "tracked path (ix_pipeline x)"
  then have "tracked path (ix_pipeline x1)" "tracked path (ix_pipeline x3)"
    using x1(1) x3(1) tracked_save_all [of path "ix_pipeline x1" ?ie now fis] by (simp_all add: tracked_def)
  moreover have "pp_chunk_fps (ix_pipeline x') = pp_chunk_fps (ix_pipeline x3)"
    if "finalize now all totals ov dc dir x3 = (r, x')" for totals
    using finalize_kept [OF that] by blast
  ultimately show "tracked path (ix_pipeline x')"
    using cases \<open>tracked path (ix_pipeline x)\<close> by (auto simp: tracked_def)
qed

section \<open>Incremental runs\<close>

lemma diff_deleted:
  "diff fs ps t = (Inr d, t') \<Longrightarrow> fd_deleted d = filter (\<lambda>p. p \<notin> set ps) (map fp_file_path t)
    \<and> fp_file_path ` set t' = fp_file_path ` set t"
  by (auto simp: diff_def dest: tracked_diff split: prod.splits sum.splits)

lemma diff_files_reported:
  assumes "diff_files fs stored ps r t = (Inr d, t')"
  shows "set (fd_new d) \<union> set (fd_modified d) \<subseteq> set (fd_new r) \<union> set (fd_modified r)
      \<union> {p \<in> set ps. class_of fs stored p \<noteq> Unchanged}"
  using assms
proof (induction ps arbitrary: r t)
  case Nil
  then show ?case by simp
next
  case (Cons p ps)
  show ?case
  proof (cases "fetch_key fp_file_path stored p")
    case None
    with Cons.prems Cons.IH [of "r\<lparr>fd_new := fd_new r @ [p]\<rparr>" t] show ?thesis by (auto simp: class_of_def)
  next
    case (Some row)
    with Cons.prems obtain st where st: "fs p = Some st" by (auto split: option.splits)
    show ?thesis
    proof (cases "(fs_mtime st = fp_mtime row \<and> fs_size st = fp_size_bytes row) \<or> fs_checksum st = fp_checksum row")
      case True
      with Some st Cons.prems Cons.IH [of "r\<lparr>fd_unchanged := fd_unchanged r @ [p]\<rparr>"] show ?thesis
        by (auto split: if_splits)
    next
      case False
      with Some st Cons.prems Cons.IH [of "r\<lparr>fd_modified := fd_modified r @ [p]\<rparr>" t] show ?thesis
        by (auto simp: class_of_def split: if_splits)
    qed
  qed
qed

lemma diff_reported:
  "diff fs ps t = (Inr d, t') \<Longrightarrow> set (fd_new d) \<union> set (fd_modified d) \<subseteq> {p \<in> set ps. class_of fs t p \<noteq> Unchanged}"
  by (auto simp: diff_def empty_diff_def split: prod.splits sum.splits dest!: diff_files_reported)

lemma track_meta_frame:
  assumes "track_meta ie fis x = (r, x')"
  shows "ix_store x' = ix_store x" "pp_chunk_fps (ix_pipeline x') = pp_chunk_fps (ix_pipeline x)"
    and "r = Inr d \<Longrightarrow> set (fd_new d) \<union> set (fd_modified d)
      \<subseteq> {p \<in> fi_path ` set fis. class_of (ev_meta_files (pipeline_env ie)) (pp_meta_fps (ix_pipeline x)) p \<noteq> Unchanged}"
  using assms by (auto simp: track_meta_def split: prod.splits sum.splits file_error.splits dest!: diff_reported)

lemma embed_only_frame:
  assumes "embed_only_files ie fis x = (r, x')"
  shows "ix_store x' = ix_store x" "pp_chunk_fps (ix_pipeline x') = pp_chunk_fps (ix_pipeline x)"
    and "r = Inr eo \<Longrightarrow> set eo \<subseteq> {fi \<in> set fis.
      class_of (ev_meta_files (pipeline_env ie)) (pp_meta_fps (ix_pipeline x)) (fi_path fi) \<noteq> Unchanged}"
proof -
  obtain r1 x1 where 1: "track_meta ie fis x = (r1, x1)" by fastforce
  show "ix_store x' = ix_store x" "pp_chunk_fps (ix_pipeline x') = pp_chunk_fps (ix_pipeline x)"
    using assms track_meta_frame(1,2) [OF 1] by (auto simp: embed_only_files_def 1 split: if_splits sum.splits)
  show "set eo \<subseteq> {fi \<in> set fis.
      class_of (ev_meta_files (pipeline_env ie)) (pp_meta_fps (ix_pipeline x)) (fi_path fi) \<noteq> Unchanged}"
    if "r = Inr eo"
  proof (cases r1)
    case (Inl e)
    with assms 1 that show ?thesis by (auto simp: embed_only_files_def split: if_splits)
  next
    case (Inr d)
    with track_meta_frame(3) [OF 1, of d] assms 1 that show ?thesis
      by (auto simp: embed_only_files_def split: if_splits)
  qed
qed

lemma deactivate_deleted_kept:
  "deactivate_deleted env now ps s = (r, s') \<Longrightarrow> bindings_kept (ev_resolve env ` set ps) s s'"
proof (induction ps arbitrary: s)
  case Nil
  then show ?case by simp
next
  case (Cons p ps)
  show ?case
  proof (cases "deactivate_filesystem_binding env now ''file_missing'' p s")
    case (Inl e)
    with Cons.prems show ?thesis by simp
  next
    case (Inr s1)
    then have "bindings_kept {ev_resolve env p} s s1"
      by (auto simp: deactivate_filesystem_binding_def Let_def try_bind_Inr_iff make_binding_def meta_entity_id_def
          bindings_kept_def file_binding_def upsert_resource_binding_def sql_simps binding_key_def
          deactivated_binding_def split: option.splits dest!: validate_resource_binding_ok)
    with Inr Cons.prems Cons.IH [of s1] show ?thesis
      by (auto intro: bindings_kept_trans bindings_kept_mono)
  qed
qed

lemma purge_files_bindings:
  "purge_files env ps p = (r, p') \<Longrightarrow> st_bindings (pp_store p') = st_bindings (pp_store p)"
proof (induction ps arbitrary: p)
  case Nil
  then show ?case by simp
next
  case (Cons q ps)
  obtain r1 p1 where 1: "purge_file env q p = (r1, p1)" by fastforce
  then have "st_bindings (pp_store p1) = st_bindings (pp_store p)"
    by (auto simp: purge_file_def split: prod.splits sum.splits dest!: cleanup_bindings)
  with Cons 1 show ?case by (auto split: sum.splits)
qed

lemma attach_chunks_bindings: "attach_chunks st pr f refs s = Inr s' \<Longrightarrow> st_bindings s' = st_bindings s"
proof (induction refs arbitrary: s)
  case Nil
  then show ?case by simp
next
  case (Cons ref refs)
  then obtain s1 s2 where "add_file_path st (fst ref) f (snd ref) s = Inr s1"
    "add_chunk_provenance st pr (fst ref) s1 = Inr s2" "attach_chunks st pr f refs s2 = Inr s'"
    by (cases ref) (auto simp: try_bind_Inr_iff)
  then show ?case using Cons.IH [of s2]
    by (auto simp: add_chunk_provenance_def try_bind_Inr_iff dest: add_file_path_kept split: if_splits)
qed

lemma rebind_kept:
  assumes "rebind_retained_filesystem_document env now d p = (r, p')"
  shows "bindings_kept {sd_document_ref d} (pp_store p) (pp_store p')"
proof -
  have "bindings_kept {sd_document_ref d} s s'" if "rebind_transaction env now d b refs s = (r', s')" for b refs s r' s'
    using that
    by (auto simp: rebind_transaction_def transaction_def try_bind_Inr_iff make_binding_def bindings_kept_def
        file_binding_def upsert_resource_binding_def upsert_source_document_def sql_simps binding_key_def
        active_binding_def split: sum.splits dest!: attach_chunks_bindings validate_resource_binding_ok)
  with rebind_store [OF assms] show ?thesis by auto
qed

lemma rebind_new_kept:
  assumes "rebind_new env now by_path new fis acc p = (r, p')"
    and "\<forall>q d. dict_get by_path q = Some d \<longrightarrow> sd_document_ref d = ev_resolve env q"
  shows "bindings_kept (ev_resolve env ` set new) (pp_store p) (pp_store p')"
  using assms(1)
proof (induction fis arbitrary: acc p)
  case Nil
  then show ?case by simp
next
  case (Cons fi fis)
  show ?case
  proof (cases "fi_path fi \<in> set new \<and> dict_get by_path (fi_path fi) \<noteq> None")
    case False
    with Cons show ?thesis by (auto split: if_splits option.splits)
  next
    case True
    then obtain d where d: "dict_get by_path (fi_path fi) = Some d" by blast
    obtain r1 p1 where 1: "rebind_retained_filesystem_document env now d p = (r1, p1)" by fastforce
    have p1: "bindings_kept (ev_resolve env ` set new) (pp_store p) (pp_store p1)"
      using rebind_kept [OF 1] assms(2) d True by (auto intro: bindings_kept_mono)
    show ?thesis
    proof (cases r1)
      case (Inl e)
      with Cons.prems True d 1 p1 show ?thesis by simp
    next
      case (Inr dg)
      with Cons.prems True d 1 have "\<exists>acc'. rebind_new env now by_path new fis acc' p1 = (r, p')" by auto
      with Cons.IH p1 show ?thesis by (blast intro: bindings_kept_trans)
    qed
  qed
qed

definition documents_at :: "indexing_env \<Rightarrow> (string, source_document) dict \<Rightarrow> bool" where
  "documents_at ie by_path \<longleftrightarrow> (\<forall>q d. dict_get by_path q = Some d \<longrightarrow>
     sd_document_ref d = ie_resolve ie q \<and> sd_file_path d = Some q)"

lemma by_path_documents:
  assumes "file_infos_by_source_document ie ds fis0 m0 = Inr (fis, m)" and "documents_at ie m0"
  shows "documents_at ie m"
  using assms
proof (induction ds arbitrary: fis0 m0)
  case Nil
  then show ?case by simp
next
  case (Cons d ds)
  then obtain fi where "assert_filesystem_document_ref ie fi d = Inr ()" "file_info_of_document ie d = Inr fi"
    and rest: "file_infos_by_source_document ie ds (fis0 @ [fi]) (dict_set (fi_path fi) d m0) = Inr (fis, m)"
    by (auto simp: try_bind_Inr_iff)
  then have "sd_document_ref d = ie_resolve ie (fi_path fi)" "sd_file_path d = Some (fi_path fi)"
    by (auto simp: assert_filesystem_document_ref_def meta_entity_id_def pipeline_env_def file_info_of_document_def
        source_document_to_file_info_def try_bind_Inr_iff split: if_splits option.splits)
  with Cons.prems(2) have "documents_at ie (dict_set (fi_path fi) d m0)"
    by (simp add: documents_at_def)
  with Cons.IH rest show ?case by blast
qed

definition meta_row :: "string \<Rightarrow> pipeline \<Rightarrow> fingerprint_row option" where
  "meta_row path p = fetch_key fp_file_path (pp_meta_fps p) path"

lemma class_of_row: "meta_row path p' = meta_row path p \<Longrightarrow> class_of fs (pp_meta_fps p') path = class_of fs (pp_meta_fps p) path"
  by (simp add: class_of_def meta_row_def)

lemma purge_files_meta:
  "purge_files env ps p = (r, p') \<Longrightarrow> path \<notin> set ps \<Longrightarrow> meta_row path p' = meta_row path p"
proof (induction ps arbitrary: p)
  case Nil
  then show ?case by simp
next
  case (Cons q ps)
  obtain r1 p1 where 1: "purge_file env q p = (r1, p1)" by fastforce
  then have "meta_row path p1 = meta_row path p" using Cons.prems
    by (auto simp: purge_file_def meta_row_def remove_fingerprint_def delete_where_def fetch_filter_neq
        split: prod.splits sum.splits)
  with Cons 1 show ?case by (auto split: sum.splits)
qed

lemma rebind_meta:
  assumes "rebind_retained_filesystem_document env now d p = (r, p')" and "sd_file_path d = Some q" and "q \<noteq> path"
  shows "meta_row path p' = meta_row path p"
  using assms
  by (auto simp: rebind_retained_filesystem_document_def Let_def source_document_to_file_info_def meta_row_def
      save_meta_fingerprint_def save_chunk_fingerprint_def save_file_fingerprint_def save_fingerprint_def sql_simps
      split: if_splits sum.splits option.splits list.splits prod.splits)

lemma rebind_new_meta:
  assumes "rebind_new env now by_path new fis acc p = (r, p')" and "path \<notin> set new" and "documents_at ie by_path"
  shows "meta_row path p' = meta_row path p"
  using assms(1)
proof (induction fis arbitrary: acc p)
  case Nil
  then show ?case by simp
next
  case (Cons fi fis)
  show ?case
  proof (cases "fi_path fi \<in> set new \<and> dict_get by_path (fi_path fi) \<noteq> None")
    case False
    with Cons show ?thesis by (auto split: if_splits option.splits)
  next
    case True
    then obtain d where d: "dict_get by_path (fi_path fi) = Some d" by blast
    obtain r1 p1 where 1: "rebind_retained_filesystem_document env now d p = (r1, p1)" by fastforce
    have "sd_file_path d = Some (fi_path fi)" using assms(3) d by (simp add: documents_at_def)
    moreover have "fi_path fi \<noteq> path" using True assms(2) by blast
    ultimately have "meta_row path p1 = meta_row path p" using rebind_meta [OF 1] by blast
    with Cons True d 1 show ?thesis by (auto split: sum.splits)
  qed
qed

lemma incremental_frame:
  assumes "incremental_index be now by_path fis d dir x = (r, x')" and "documents_at (be_indexing be) by_path"
  shows "path \<notin> set (fd_modified d) \<Longrightarrow> tracked path (ix_pipeline x) \<Longrightarrow> tracked path (ix_pipeline x')"
    and "path \<notin> set (fd_deleted d) \<union> set (fd_new d) \<union> set (fd_modified d)
      \<Longrightarrow> class_of (ev_meta_files (pipeline_env (be_indexing be))) (pp_meta_fps (ix_pipeline x)) path = Unchanged
      \<Longrightarrow> path \<in> S \<Longrightarrow> set (fd_deleted d) \<union> set (fd_new d) \<union> set (fd_modified d) \<union> fi_path ` set fis \<subseteq> S
      \<Longrightarrow> inj_on (ie_resolve (be_indexing be)) S
      \<Longrightarrow> file_binding (ix_store x') (ie_resolve (be_indexing be) path)
        = file_binding (ix_store x) (ie_resolve (be_indexing be) path)"
proof -
  let ?ie = "be_indexing be" and ?env = "pipeline_env (be_indexing be)"
  let ?changed = "set (fd_new d) \<union> set (fd_modified d)"
  obtain r1 s1 where 1: "deactivate_deleted ?env now (fd_deleted d) (ix_store x) = (r1, s1)" by fastforce
  obtain r2 p2 where 2: "purge_files ?env (fd_modified d) (ix_pipeline (set_store s1 x)) = (r2, p2)" by fastforce
  let ?in = "filter (\<lambda>fi. fi_path fi \<in> ?changed) fis"
  obtain r3 p3 where 3: "rebind_new ?env now by_path (fd_new d) ?in [] p2 = (r3, p3)" by fastforce
  let ?un = "filter (\<lambda>fi. fi_path fi \<notin> ?changed \<and> fi_path fi \<notin> set (fd_deleted d)) fis"
  obtain r4 x4 where 4: "embed_only_files ?ie ?un (set_pipeline p3 x) = (r4, x4)" by fastforce
  have steps: "x' = set_store s1 x \<or> x' = set_pipeline p2 x \<or> x' = set_pipeline p3 x \<or> x' = x4
    \<or> (\<exists>rebound eo. r4 = Inr eo \<and> ingest_and_finalize be now by_path fis
        (filter (\<lambda>fi. fi_path fi \<notin> set rebound) ?in) eo False (counts_of d) dir x4 = (r, x'))"
    using assms(1) 1 2 3 4 unfolding incremental_index_def Let_def
    by (auto split: sum.splits)
  show "tracked path (ix_pipeline x')" if "path \<notin> set (fd_modified d)" "tracked path (ix_pipeline x)"
  proof -
    have t: "tracked path (ix_pipeline (set_store s1 x))" using that(2) by (simp add: set_store_def)
    then have "tracked path p2" "tracked path p3"
      using tracked_purge_files [OF 2 that(1)] tracked_rebind_new [OF 3] by blast+
    moreover from this have "tracked path (ix_pipeline x4)"
      using embed_only_frame(2) [OF 4] by (simp add: tracked_def)
    ultimately show ?thesis using steps t by (auto dest: ingest_frame(1))
  qed
  assume path: "path \<notin> set (fd_deleted d) \<union> set (fd_new d) \<union> set (fd_modified d)"
    and meta: "class_of (ev_meta_files ?env) (pp_meta_fps (ix_pipeline x)) path = Unchanged"
    and S: "path \<in> S" "set (fd_deleted d) \<union> set (fd_new d) \<union> set (fd_modified d) \<union> fi_path ` set fis \<subseteq> S"
      "inj_on (ie_resolve ?ie) S"
  let ?ref = "ie_resolve ?ie path"
  have other: "?ref \<notin> ie_resolve ?ie ` A" if "A \<subseteq> S" "path \<notin> A" for A
    using that S by (auto dest: inj_onD)
  have env [simp]: "ev_resolve ?env = ie_resolve ?ie" by (simp add: pipeline_env_def)
  have s1: "file_binding s1 ?ref = file_binding (ix_store x) ?ref"
    using deactivate_deleted_kept [OF 1] other [of "set (fd_deleted d)"] path S(2) by (auto simp: bindings_kept_def)
  have p2: "file_binding (pp_store p2) ?ref = file_binding (ix_store x) ?ref"
    using purge_files_bindings [OF 2] s1 by (simp add: file_binding_def)
  have p3: "file_binding (pp_store p3) ?ref = file_binding (ix_store x) ?ref"
    using rebind_new_kept [OF 3] assms(2) p2 other [of "set (fd_new d)"] path S(2)
    by (auto simp: bindings_kept_def documents_at_def)
  then have x4: "file_binding (ix_store x4) ?ref = file_binding (ix_store x) ?ref"
    using embed_only_frame(1) [OF 4] by simp
  have "meta_row path p3 = meta_row path (ix_pipeline x)"
    using rebind_new_meta [OF 3 _ assms(2)] purge_files_meta [OF 2] path
    by (simp add: meta_row_def)
  then have unch: "class_of (ev_meta_files ?env) (pp_meta_fps p3) path = Unchanged"
    using meta class_of_row by metis
  have last: "file_binding (ix_store x') ?ref = file_binding (ix_store x) ?ref"
    if eo: "r4 = Inr eo" and run: "ingest_and_finalize be now by_path fis
        (filter (\<lambda>fi. fi_path fi \<notin> set rebound) ?in) eo False (counts_of d) dir x4 = (r, x')" for rebound eo
  proof -
    let ?A = "fi_path ` (set (filter (\<lambda>fi. fi_path fi \<notin> set rebound) ?in) \<union> set eo)"
    have "set eo \<subseteq> {fi \<in> set fis. fi_path fi \<noteq> path}"
      using embed_only_frame(3) [OF 4 eo] unch by auto
    then have "path \<notin> ?A" "?A \<subseteq> fi_path ` set fis" using path by auto
    moreover have "fi_path ` set fis \<subseteq> S" using S(2) by blast
    ultimately have "path \<notin> ?A \<and> ?A \<subseteq> S" by blast
    with other have "?ref \<notin> ie_resolve ?ie ` ?A" by blast
    with ingest_frame(2) [OF run] x4 show ?thesis
      by (auto simp: bindings_kept_def refs_of_def image_Un image_image)
  qed
  show "file_binding (ix_store x') ?ref = file_binding (ix_store x) ?ref"
    using steps s1 p2 p3 x4 last by auto
qed

lemma changed_run_cases:
  assumes "changed_index be now documents by_path fis dir x = (r, x')" and "tracked path (ix_pipeline x)"
    and "path \<notin> fi_path ` set fis"
  shows "(\<exists>e. r = Inl e) \<and> ix_store x' = ix_store x \<or> (\<exists>d t.
    diff (ev_chunk_files (pipeline_env (be_indexing be))) (map fi_path fis) (pp_chunk_fps (ix_pipeline x)) = (Inr d, t)
    \<and> path \<in> set (fd_deleted d)
    \<and> incremental_index be now by_path fis d dir (set_pipeline ((ix_pipeline x)\<lparr>pp_chunk_fps := t\<rparr>) x) = (r, x'))"
proof -
  obtain rd t where d: "diff (ev_chunk_files (pipeline_env (be_indexing be))) (map fi_path fis) (pp_chunk_fps (ix_pipeline x)) = (rd, t)"
    by fastforce
  show ?thesis
  proof (cases rd)
    case (Inl e)
    with assms(1) d show ?thesis by (cases e) (auto simp: changed_index_def)
  next
    case (Inr df)
    then have "path \<in> set (fd_deleted df)"
      using d assms(2,3) by (auto simp: tracked_def dest!: diff_deleted)
    moreover from this have "fd_deleted df \<noteq> []" by auto
    ultimately show ?thesis
      using assms(1) d Inr by (simp add: changed_index_def set_pipeline_def Let_def)
  qed
qed

lemma documents_at_empty [simp]: "documents_at ie []"
  by (simp add: documents_at_def)

text \<open>
  A path on record that a run does not discover is reported deleted by that run and is still on
  record after it, so every later run reports it again: a returned run counts as deleted the paths
  on record that are not among its files, and none of them is taken off the record.
\<close>

theorem deleted_reported_every_run:
  assumes "index_directory be now False documents dir b = (Inr stats, b')"
    and "file_infos_by_source_document (be_indexing be) documents [] [] = Inr (fis, by_path)"
    and "path \<in> fp_file_path ` set (pp_chunk_fps (bk_pipeline b))" and "path \<notin> fi_path ` set fis"
  shows "is_deleted_files stats =
      int (length (filter (\<lambda>p. p \<notin> fi_path ` set fis) (map fp_file_path (pp_chunk_fps (bk_pipeline b)))))
    \<and> path \<in> fp_file_path ` set (pp_chunk_fps (bk_pipeline b'))"
proof -
  have track: "tracked path (bk_pipeline b)" using assms(3) by (simp add: tracked_def)
  have run: "changed_index be now documents by_path fis (Some dir) (bk_indexer b) = (Inr stats, bk_indexer b')"
    using assms(1,2) by (auto simp: index_directory_def run_indexer_def split: prod.splits)
  obtain d t where d: "diff (ev_chunk_files (pipeline_env (be_indexing be))) (map fi_path fis)
        (pp_chunk_fps (bk_pipeline b)) = (Inr d, t)"
    and inc: "incremental_index be now by_path fis d (Some dir)
      (set_pipeline ((bk_pipeline b)\<lparr>pp_chunk_fps := t\<rparr>) (bk_indexer b)) = (Inr stats, bk_indexer b')"
    using changed_run_cases [OF run track assms(4)] by auto
  have "path \<notin> set (fd_modified d)" using diff_reported [OF d] assms(4) by auto
  moreover have "tracked path ((bk_pipeline b)\<lparr>pp_chunk_fps := t\<rparr>)"
    using diff_deleted [OF d] track by (simp add: tracked_def)
  ultimately have "tracked path (bk_pipeline b')"
    using incremental_frame(1) [OF inc by_path_documents [OF assms(2)]] by simp
  moreover have "is_deleted_files stats = int (length (fd_deleted d))"
    using inc by (auto simp: incremental_index_def Let_def ingest_and_finalize_def finalize_def compute_stats_def
        counts_of_def split: sum.splits prod.splits)
  ultimately show ?thesis using diff_deleted [OF d] by (simp add: tracked_def)
qed

text \<open>
  C13: In an ordinary (not forced) directory run, a file that comes back unchanged stays hidden while
  another one is missing.  Its fingerprints are still on record, so it is not new and is not rebound,
  and with a missing path on record no such run takes the branch that rebinds every document:
  whatever the run returns, the binding of the file is the one from before, inactive if it was.  A
  forced run and a direct call of index_file for the file are outside the statement.
\<close>

theorem restored_file_stays_hidden:
  assumes "index_directory be now False documents dir b = (r, b')"
    and "file_infos_by_source_document (be_indexing be) documents [] [] = Inr (fis, by_path)"
    and "path \<in> fp_file_path ` set (pp_chunk_fps (bk_pipeline b))" and "path \<notin> fi_path ` set fis"
    and "f \<in> fi_path ` set fis"
    and "class_of (ev_chunk_files (pipeline_env (be_indexing be))) (pp_chunk_fps (bk_pipeline b)) f = Unchanged"
    and "class_of (ev_meta_files (pipeline_env (be_indexing be))) (pp_meta_fps (bk_pipeline b)) f = Unchanged"
    and "inj_on (ie_resolve (be_indexing be)) (fi_path ` set fis \<union> fp_file_path ` set (pp_chunk_fps (bk_pipeline b)))"
  shows "get_resource_binding (bk_store b') ''filesystem'' (ie_resolve (be_indexing be) f)
    = get_resource_binding (bk_store b) ''filesystem'' (ie_resolve (be_indexing be) f)"
proof -
  let ?S = "fi_path ` set fis \<union> fp_file_path ` set (pp_chunk_fps (bk_pipeline b))"
  have track: "tracked path (bk_pipeline b)" using assms(3) by (simp add: tracked_def)
  have run: "changed_index be now documents by_path fis (Some dir) (bk_indexer b) = (r, bk_indexer b')"
    using assms(1,2) by (auto simp: index_directory_def run_indexer_def split: prod.splits)
  have "file_binding (bk_store b') (ie_resolve (be_indexing be) f) = file_binding (bk_store b) (ie_resolve (be_indexing be) f)"
    using changed_run_cases [OF run track assms(4)]
  proof (elim disjE exE conjE)
    fix d t
    assume d: "diff (ev_chunk_files (pipeline_env (be_indexing be))) (map fi_path fis)
        (pp_chunk_fps (bk_pipeline b)) = (Inr d, t)"
      and inc: "incremental_index be now by_path fis d (Some dir)
      (set_pipeline ((bk_pipeline b)\<lparr>pp_chunk_fps := t\<rparr>) (bk_indexer b)) = (r, bk_indexer b')"
    have "f \<notin> set (fd_deleted d) \<union> set (fd_new d) \<union> set (fd_modified d)"
      "set (fd_deleted d) \<union> set (fd_new d) \<union> set (fd_modified d) \<union> fi_path ` set fis \<subseteq> ?S"
      using diff_reported [OF d] diff_deleted [OF d] assms(5,6) by auto
    with incremental_frame(2) [OF inc by_path_documents [OF assms(2)], of f ?S] assms(5,7,8) show ?thesis by simp
  qed simp
  then show ?thesis by (rule get_binding_file_binding)
qed

section \<open>Interrupted resets\<close>

lemma set_set [simp]: "dict_set k v (dict_set k w d) = dict_set k v d"
  by (induction d) auto

lemma set_filter:
  "k \<noteq> j \<Longrightarrow> filter (\<lambda>(i, _). i \<noteq> j) (dict_set k v d) = dict_set k v (filter (\<lambda>(i, _). i \<noteq> j) d)"
  by (induction d) auto

lemma dict_get_filter_key: "k \<noteq> j \<Longrightarrow> dict_get (filter (\<lambda>(i, _). i \<noteq> j) d) k = dict_get d k"
  by (induction d) auto

lemma wipe_resumes:
  "fold (\<lambda>f b. f b) (wipe_steps be) (fold (\<lambda>f b. f b) (take n (wipe_steps be)) b) = fold (\<lambda>f b. f b) (wipe_steps be) b"
proof -
  consider "n = 0" | "n = 1" | "n = 2" | "n = 3" | "n = 4" | "n = 5" | "n = 6" | "n \<ge> 7" by linarith
  then show ?thesis
    by cases (simp_all add: wipe_steps_def on_indexer_def pipeline_state_set_def clear_cache_def set_components_def
        component_delete_all_def embedding_clear_def wipe_def write_sentinel_def File_Tracker.clear_def set_filter take_Cons')
qed

lemma wipe_version:
  "1 \<le> n \<Longrightarrow> dict_get (bk_state (fold (\<lambda>f b. f b) (take n (wipe_steps be)) b)) ''schema_version''
    = Some (if n \<le> 6 then ''WIPE_IN_PROGRESS'' else SCHEMA_VERSION)"
proof -
  assume "1 \<le> n"
  then consider "n = 1" | "n = 2" | "n = 3" | "n = 4" | "n = 5" | "n = 6" | "n \<ge> 7" by linarith
  then show ?thesis
    by cases (simp_all add: wipe_steps_def on_indexer_def pipeline_state_set_def dict_get_filter_key take_Cons')
qed

lemma check_version: "dict_get (bk_state (check_schema_version be b)) ''schema_version'' = Some SCHEMA_VERSION"
  using wipe_version [of 7 be b]
  by (auto simp: check_schema_version_def schema_check_steps_def pipeline_state_set_def Let_def wipe_steps_def)

lemma check_current:
  "dict_get (bk_state b) ''schema_version'' = Some SCHEMA_VERSION \<Longrightarrow> check_schema_version be b = b"
  by (simp add: check_schema_version_def schema_check_steps_def)

lemma check_cleared:
  "dict_get (bk_state b) ''schema_version'' = Some SCHEMA_VERSION
    \<or> ix_components (bk_indexer (check_schema_version be b)) = []
      \<and> pp_chunk_fps (bk_pipeline (check_schema_version be b)) = []"
  by (simp add: check_schema_version_def schema_check_steps_def Let_def wipe_steps_def on_indexer_def
      pipeline_state_set_def component_delete_all_def File_Tracker.clear_def set_components_def clear_cache_def)

lemma check_after_interruption: "check_schema_version be (interrupted_check be n b) = check_schema_version be b"
proof (cases "schema_check_steps be b = wipe_steps be")
  case True
  note wipe = this
  show ?thesis
  proof (cases "1 \<le> n \<and> n \<le> 6")
    case True
    have "schema_check_steps be (interrupted_check be n b) = wipe_steps be"
      using wipe_version [of n be b] True wipe
      by (simp add: interrupted_check_def schema_check_steps_def [of be "fold _ _ _"] SCHEMA_VERSION_def)
    then show ?thesis
      using wipe wipe_resumes by (simp add: check_schema_version_def interrupted_check_def)
  next
    case False
    then have "n = 0 \<or> interrupted_check be n b = check_schema_version be b"
      by (auto simp: interrupted_check_def check_schema_version_def wipe wipe_steps_def not_le)
    then show ?thesis
      using check_current [OF check_version, of be be b] by (auto simp: interrupted_check_def)
  qed
next
  case False
  then have "interrupted_check be n b = b \<or> interrupted_check be n b = check_schema_version be b"
    by (cases n) (auto simp: schema_check_steps_def interrupted_check_def check_schema_version_def Let_def split: if_splits)
  then show ?thesis using check_current [OF check_version, of be be b] by auto
qed

text \<open>
  C19: The reset of an outdated state survives interruptions.  Whatever number of starts end at any
  of their statements, the next start that completes leaves what one undisturbed start would have
  left: the sentinel of the current version, with which further starts change nothing, and, unless
  the version was current, no vector component and no chunk fingerprint.
\<close>

theorem interrupted_reset_completes:
  "check_schema_version be (fold (interrupted_check be) ns b) = check_schema_version be b
    \<and> dict_get (bk_state (check_schema_version be b)) ''schema_version'' = Some SCHEMA_VERSION
    \<and> fold (interrupted_check be) ns (check_schema_version be b) = check_schema_version be b
    \<and> (dict_get (bk_state b) ''schema_version'' = Some SCHEMA_VERSION
       \<or> ix_components (bk_indexer (check_schema_version be b)) = []
         \<and> pp_chunk_fps (bk_pipeline (check_schema_version be b)) = [])"
proof -
  have "interrupted_check be n (check_schema_version be b) = check_schema_version be b" for n
    by (simp add: interrupted_check_def schema_check_steps_def check_version)
  then have "fold (interrupted_check be) ns (check_schema_version be b) = check_schema_version be b"
    by (induction ns) simp_all
  moreover have "check_schema_version be (fold (interrupted_check be) ns b) = check_schema_version be b"
    by (induction ns arbitrary: b) (simp_all add: check_after_interruption)
  ultimately show ?thesis using check_cleared [of b be] by (simp add: check_version)
qed

section \<open>Concrete directories\<close>

definition demo_bulk_env :: bulk_env where
  "demo_bulk_env = \<lparr>be_indexing = demo_indexing 1 ''text'', be_totals = (\<lambda>_. (0, 0))\<rparr>"

definition demo_documents :: "source_document list" where
  "demo_documents = (case file_info_and_source_document (demo_indexing 1 ''text'') demo_target of
     Inr (Some (_, d)) \<Rightarrow> [d] | _ \<Rightarrow> [])"

definition demo_bulk :: bulk where
  "demo_bulk = \<lparr>bk_indexer = demo_indexer, bk_state = []\<rparr>"

text \<open>A path on record whose file is gone.\<close>

definition gone_row :: fingerprint_row where
  "gone_row = \<lparr>fp_file_path = ''/n/gone.md'', fp_mtime = 1, fp_size_bytes = 1, fp_checksum = ''c'', fp_indexed_at = 1\<rparr>"

definition with_gone :: "indexer \<Rightarrow> bulk" where
  "with_gone x = \<lparr>bk_indexer = x\<lparr>ix_pipeline := (ix_pipeline x)\<lparr>pp_chunk_fps := gone_row # pp_chunk_fps (ix_pipeline x)\<rparr>\<rparr>,
     bk_state = []\<rparr>"

text \<open>The indexed file, deactivated.\<close>

definition demo_hidden :: bulk where
  "demo_hidden = with_gone (case deactivate_filesystem_binding (pipeline_env (demo_indexing 1 ''text'')) 7 ''file_missing''
     ''/n/a.md'' (ix_store demo_indexed) of Inr s \<Rightarrow> set_store s demo_indexed | Inl _ \<Rightarrow> demo_indexed)"

lemma demo_files_found:
  obtains fis by_path where
    "file_infos_by_source_document (be_indexing demo_bulk_env) demo_documents [] [] = Inr (fis, by_path)"
    "map fi_path fis = [''/n/a.md'']" "\<exists>c cs. chunk_files (be_indexing demo_bulk_env) by_path fis = Inr (c # cs)"
proof -
  have run: "case file_infos_by_source_document (be_indexing demo_bulk_env) demo_documents [] [] of
      Inr (fis, by_path) \<Rightarrow> map fi_path fis = [''/n/a.md'']
        \<and> (case chunk_files (be_indexing demo_bulk_env) by_path fis of Inr (_ # _) \<Rightarrow> True | _ \<Rightarrow> False)
    | _ \<Rightarrow> False" by code_simp
  then obtain fis by_path where fis: "file_infos_by_source_document (be_indexing demo_bulk_env) demo_documents [] [] = Inr (fis, by_path)"
      "map fi_path fis = [''/n/a.md'']"
    and chunks: "case chunk_files (be_indexing demo_bulk_env) by_path fis of Inr (_ # _) \<Rightarrow> True | _ \<Rightarrow> False"
    by (cases "file_infos_by_source_document (be_indexing demo_bulk_env) demo_documents [] []")
      (auto simp del: file_infos_by_source_document.simps split: prod.split_asm)
  from chunks have "\<exists>c cs. chunk_files (be_indexing demo_bulk_env) by_path fis = Inr (c # cs)"
    by (auto split: sum.split_asm list.split_asm)
  with fis show thesis by (rule that)
qed

theorem forced_run_settles_witness:
  "\<exists>stats b'. index_directory demo_bulk_env 5 True demo_documents ''/n'' demo_bulk = (Inr stats, b')
    \<and> (\<exists>stats2 b2. index_directory demo_bulk_env 9 False demo_documents ''/n'' b' = (Inr stats2, b2)
         \<and> is_unchanged_files stats2 = 1 \<and> is_new_files stats2 = 0 \<and> bk_store b2 = bk_store b')"
proof -
  obtain fis by_path where fis: "file_infos_by_source_document (be_indexing demo_bulk_env) demo_documents [] [] = Inr (fis, by_path)"
    "map fi_path fis = [''/n/a.md'']" "\<exists>c cs. chunk_files (be_indexing demo_bulk_env) by_path fis = Inr (c # cs)"
    by (rule demo_files_found)
  obtain c cs where cs: "chunk_files (be_indexing demo_bulk_env) by_path fis = Inr (c # cs)" using fis(3) by blast
  have "\<not> isl (fst (index_directory demo_bulk_env 5 True demo_documents ''/n'' demo_bulk))" by code_simp
  then obtain stats b' where run: "index_directory demo_bulk_env 5 True demo_documents ''/n'' demo_bulk = (Inr stats, b')"
    by (cases "index_directory demo_bulk_env 5 True demo_documents ''/n'' demo_bulk") (metis fst_conv isl_def sum.exhaust)
  have "length fis = 1" using arg_cong [OF fis(2), of length] by simp
  with forced_run_settles [OF run fis(1) cs, of 9 "''/n''"] run show ?thesis by simp
qed

theorem deleted_reported_every_run_witness:
  "\<exists>stats b'. index_directory demo_bulk_env 5 False demo_documents ''/n'' (with_gone demo_indexer) = (Inr stats, b')
    \<and> is_deleted_files stats = 1 \<and> ''/n/gone.md'' \<in> fp_file_path ` set (pp_chunk_fps (bk_pipeline b'))"
proof -
  obtain fis by_path where fis: "file_infos_by_source_document (be_indexing demo_bulk_env) demo_documents [] [] = Inr (fis, by_path)"
    "map fi_path fis = [''/n/a.md'']" by (rule demo_files_found)
  have paths: "fi_path ` set fis = {''/n/a.md''}" using arg_cong [OF fis(2), of set] by simp
  have "\<not> isl (fst (index_directory demo_bulk_env 5 False demo_documents ''/n'' (with_gone demo_indexer)))" by code_simp
  then obtain stats b' where run: "index_directory demo_bulk_env 5 False demo_documents ''/n'' (with_gone demo_indexer) = (Inr stats, b')"
    by (cases "index_directory demo_bulk_env 5 False demo_documents ''/n'' (with_gone demo_indexer)")
      (metis fst_conv isl_def sum.exhaust)
  have "pp_chunk_fps (bk_pipeline (with_gone demo_indexer)) = [gone_row]"
    by (simp add: with_gone_def demo_indexer_def)
  with deleted_reported_every_run [OF run fis(1), of "''/n/gone.md''"] run paths show ?thesis
    by (simp add: gone_row_def)
qed

theorem restored_file_stays_hidden_witness:
  "\<exists>b. get_resource_binding (bk_store (snd (index_directory demo_bulk_env 9 False demo_documents ''/n'' demo_hidden)))
      ''filesystem'' ''/n/a.md'' = Inr (Some b) \<and> \<not> rb_active b"
proof -
  obtain fis by_path where fis: "file_infos_by_source_document (be_indexing demo_bulk_env) demo_documents [] [] = Inr (fis, by_path)"
    "map fi_path fis = [''/n/a.md'']" by (rule demo_files_found)
  have paths: "fi_path ` set fis = {''/n/a.md''}" using arg_cong [OF fis(2), of set] by simp
  obtain r b' where run: "index_directory demo_bulk_env 9 False demo_documents ''/n'' demo_hidden = (r, b')" by fastforce
  have tracked: "map fp_file_path (pp_chunk_fps (bk_pipeline demo_hidden)) = [''/n/gone.md'', ''/n/a.md'']" by code_simp
  then have rows: "fp_file_path ` set (pp_chunk_fps (bk_pipeline demo_hidden)) = {''/n/gone.md'', ''/n/a.md''}"
    by (metis list.set_map list.simps(15) set_empty empty_set)
  have classes: "class_of (ev_chunk_files (pipeline_env (be_indexing demo_bulk_env))) (pp_chunk_fps (bk_pipeline demo_hidden)) ''/n/a.md'' = Unchanged"
    "class_of (ev_meta_files (pipeline_env (be_indexing demo_bulk_env))) (pp_meta_fps (bk_pipeline demo_hidden)) ''/n/a.md'' = Unchanged"
    by code_simp+
  have res: "ie_resolve (be_indexing demo_bulk_env) p = p" for p by (simp add: demo_bulk_env_def demo_indexing_def)
  have hidden: "case get_resource_binding (bk_store demo_hidden) ''filesystem'' ''/n/a.md'' of Inr (Some b) \<Rightarrow> \<not> rb_active b | _ \<Rightarrow> False"
    by code_simp
  have "get_resource_binding (bk_store b') ''filesystem'' ''/n/a.md'' = get_resource_binding (bk_store demo_hidden) ''filesystem'' ''/n/a.md''"
    using restored_file_stays_hidden [OF run fis(1), of "''/n/gone.md''" "''/n/a.md''"] rows paths classes
    by (simp add: res inj_on_def)
  with hidden run show ?thesis by (auto split: sum.split_asm option.split_asm)
qed

end
