(* ===== verification/Spec2Isabelle.thy ===== *)
theory Spec2Isabelle
  imports Search_Laws Active_Filter_Laws Rebind_Counts OAuth_Laws Federated File_Tracker Ner_Laws Query_Expansion Chunking_Laws
    Filesystem_Laws Reader_Laws Embedding_Laws Indexing_Laws Application_Contracts Delta_Contracts Delta_Direct_Laws
    Trickle_Laws Surreal_Ids Surreal_Store_Laws Engine_Laws Bulk_Laws
begin

text \<open>
  dotMD is a personal search engine over markdown notes and application messages.  A background
  process walks the data directories, cuts files into chunks, embeds them and keeps the result in
  SQLite tables and, incrementally, in SurrealDB; a service answers queries by running several
  engines, fusing their rankings and turning chunk hits into references to documents; an OAuth
  server guards the remote connector.  All paths below are relative to
  \<open>src/backend/src/dotmd/\<close>.

  How the parts work together.  \<open>ingestion/trickle.py\<close> drives \<open>IndexingPipeline\<close>
  (\<open>ingestion/pipeline.py\<close>), which calls the reader, the chunker, the extractors and the encoder and
  keeps four kinds of state: the metadata tables (\<open>storage/metadata.py\<close>), the fingerprints of files
  and chunks, the caches, and the vectors.  The direct writer turns what was indexed into a manifest
  that \<open>run_surreal_delta_sync\<close> applies to SurrealDB, whose stores the search side reads.  Search
  (\<open>api/service.py\<close>, \<open>search/\<close>) reads the chunks and the provenance of active bindings.

  The theories, from the bottom up.
  \<^item> \<open>Dotmd_Prelude\<close>: dicts as association lists in insertion order, errors as the left side of a sum,
    the collection of rewrite rules the components share.  \<open>Sql_Tables\<close>: a table as the list of its
    rows in rowid order, \<open>INSERT OR IGNORE\<close> and \<open>INSERT OR REPLACE\<close>, ordering and cursors.
    \<open>Py_Strings\<close>: the string methods and the two regular expressions the code uses.
  \<^item> \<open>Core_Models\<close> (\<open>core/models.py\<close>): enumerations, records, validators.
  \<^item> \<open>Metadata_Sources\<close>, \<open>Metadata_Chunks\<close>, \<open>Metadata_Provenance\<close> (\<open>storage/metadata.py\<close>): one function
    per method over a record of tables; \<open>Metadata_Laws\<close> has one step rule per operation and the
    invariants every step keeps, \<open>Metadata_Contracts\<close> what the clients rely on.  \<open>Rebind_Counts\<close> is the
    count over what rebinding records in the bindings.
  \<^item> \<open>File_Tracker\<close>, \<open>Caches\<close>, \<open>Extraction_Cache\<close> (\<open>ingestion/file_tracker.py\<close>, \<open>storage/cache.py\<close>): change
    detection in two stages equals a comparison of contents; the two caches with their keys, BLOB
    format and model switch.
  \<^item> \<open>Reader\<close>, \<open>Chunking\<close> (\<open>ingestion/reader.py\<close>, \<open>source.py\<close>, \<open>chunker.py\<close>, \<open>content_handlers.py\<close>) with
    \<open>Reader_Laws\<close> and \<open>Chunking_Laws\<close>: the sections reconstruct the text, a chunk carries the headings
    of its outline, splitting keeps the order of words and bounds its pieces, pruning while walking
    loses no file.
  \<^item> \<open>Ner_Extraction\<close>, \<open>Query_Expansion\<close> (\<open>extraction/ner.py\<close>, \<open>acronyms.py\<close>, \<open>search/query.py\<close>) with
    \<open>Ner_Laws\<close>: the cached run against the uncached one; the edit distance is the least number of
    edits.
  \<^item> \<open>Embedding\<close> (\<open>search/semantic.py\<close>, \<open>storage/vec_components.py\<close>, the vector part of the pipeline) with
    \<open>Embedding_Laws\<close>: adaptive batches do not change a vector, the component store refines a map, the
    three layers of lookup agree with encoding everything.
  \<^item> \<open>Filesystem_Pipeline\<close>, \<open>Indexing\<close>, \<open>Application_Ingest\<close> (\<open>ingestion/pipeline.py\<close>) with
    \<open>Filesystem_Laws\<close>, \<open>Indexing_Laws\<close>, \<open>Application_Laws\<close> and \<open>Application_Contracts\<close>: the purge in
    closed form, deactivation and rebind as a round trip, what indexing a file stores and where it
    settles, batches of an application source as updates of maps, atomicity, redelivery, purge.
  \<^item> \<open>Bulk_Index\<close> (\<open>index\<close> of the pipeline, its startup checks) with \<open>Bulk_Laws\<close>: what the incremental and
    the forced run over a directory keep, where a forced run settles, which runs leave a restored
    file hidden, and the reset that survives interruptions (a start is the list of its statements,
    an interrupted one a prefix of it).
  \<^item> \<open>Trickle\<close> (\<open>ingestion/trickle.py\<close>, \<open>lock.py\<close>) with \<open>Trickle_Laws\<close>: the event handler with its
    debounce, the startup checks, the backlog pass, the queue, the watch rounds and the whole run; a
    clean pass leaves nothing to do, every run keeps the tables consistent.
  \<^item> \<open>Surreal_Schema\<close>, \<open>Surreal_Ids\<close>, \<open>Surreal_Stores\<close> (\<open>storage/surreal_schema.py\<close>, \<open>storage/surreal.py\<close>):
    the catalogue of tables with its self-check and the apply decision, the record identifiers, the
    metadata, vector, graph and feedback stores.
  \<^item> \<open>Delta_Manifest\<close>, \<open>Delta_Writer\<close>, \<open>Delta_Sync\<close>, \<open>Delta_Direct\<close>
    (\<open>ingestion/surreal_delta_sync.py\<close>, \<open>surreal_direct_sink.py\<close>, the Surreal part of the pipeline): the
    manifest and its phases, the writer over a connection, the runner, the manifests the ingestion
    builds.  \<open>Delta_Laws\<close>, \<open>Delta_Contracts\<close>, \<open>Delta_Direct_Laws\<close> and \<open>Surreal_Store_Laws\<close>: a sync can fail
    anywhere and be resumed, the checkpoint comes last, rows stay within the schema, and what a
    direct write stores the store reads back.  \<open>Delta_Graph_Laws\<close> brings the graph section in: a manifest
    with graph rows keeps the contract of the writer outside the table \<open>relations\<close> (the stale
    relations of a file are removed once per batch, so that table depends on where batches end), a
    manifest without them in every table.  \<open>Delta_Typed_Laws\<close>: the operations of the writer, the graph
    ones too, keep the rows within the schema.  \<open>INSERT RELATION\<close> is a parameter; the laws name what
    they assume of it: it writes only \<open>relations\<close> (\<open>relations_only\<close>), or stores only rows it was
    given (\<open>inserts_payloads\<close>).
  \<^item> \<open>Fusion\<close>, \<open>Snippet\<close>, \<open>Search_Pool\<close>, \<open>Federated\<close> (\<open>search/fusion.py\<close>, \<open>federated.py\<close>, the search part of
    \<open>api/service.py\<close>) with \<open>Fusion_Laws\<close> and \<open>Search_Laws\<close>: rank fusion in closed form, hydration to
    public references, the active filter, the over-fetching loop, the federated fan-out.
    \<open>Active_Filter_Laws\<close>: the filter of the service over either metadata store; the SurrealDB reader the
    service uses does not look at the bindings, so it hides nothing.
  \<^item> \<open>Search_Engines\<close>, \<open>Ranking_Engines\<close> (\<open>search/graph_direct.py\<close>, \<open>graph_search.py\<close>, \<open>surreal_graph.py\<close>,
    \<open>surreal_fts.py\<close>, \<open>surreal_vector.py\<close>, \<open>semantic.py\<close>, \<open>reranker.py\<close>) with \<open>Engine_Laws\<close>: which entities of
    a query are matched, the ranking of the graph-direct engine, the limit of the vector engine
    against the pools of the service.
  \<^item> \<open>OAuth\<close> (\<open>auth.py\<close>) with \<open>OAuth_Laws\<close>: the provider as a state machine over memory and state file.

  Interfaces.  The locales state what one part promises another and are interpreted on the model
  itself: \<open>first_wins\<close> and \<open>last_wins\<close> on the two kinds of insert (and on documents and bindings),
  \<open>cursor_store\<close> on the checkpoints, \<open>provenance_reader\<close> and \<open>chunk_reader\<close> on the metadata store,
  \<open>delta_writer\<close> (what an operation does when its call fails before or after its effect, and that a
  partial phase can be repeated) on the store writer.  The runner of \<open>Delta_Sync\<close> is proved correct
  inside the last one.

  Abstractions.
  \<^item> A float is a rational; where rounding matters it is a parameter applied to every result.  A
    timestamp is an integer, and an operation reads the clock once.
  \<^item> Text is Latin-1: a string is a list of characters below 256, and UTF-8 has one or two bytes per
    character.
  \<^item> Code that is not in the repository is a parameter: the path resolution of the operating system,
    the answers of SurrealQL statements, the cross-encoder and the embedding service, random secrets, blake3, the
    YAML parser, the entity model, source providers, the driver's text of a value, \<open>INSERT\<close> and
    \<open>INSERT RELATION\<close> of SurrealDB, the square root.
  \<^item> A SurrealDB database is a dict from table and raw identifier to a row, scanned in insertion
    order.  A connection carries a list of faults, one per call: the call works, is lost before its
    effect, or raises after its effect.  Identifiers are kept unencoded there, which the round trip
    of \<open>Surreal_Ids\<close> justifies.
  \<^item> Operations of one process run one after the other; concurrency appears where the code has it, in
    the events between polls, the restarts and the federated fan-out, as explicit sequences.

  Loops and termination.  Loops over lists are structural recursion.  Batching, the scan for
  headings, the batch-size probe and the recursion over the answer of a schema query are \<open>function\<close>s
  with a measure.  The over-fetching loop of the search ends only when an engine runs dry or enough
  candidates are visible; it is a partial function into \<open>option\<close>, and that it returns is proved.  No
  definition has fuel.  The operations of the metadata store, the pipeline, an application source,
  the attempts of a sync and the OAuth provider form inductive relations, so their invariants hold
  for runs of every length; the event loop of the background indexer runs over the list of its polls.

  What is not modelled: the command line, the HTTP and MCP servers and the configuration, which parse
  arguments and call the modelled operations; logging; the observer thread and the connection setup;
  the offline migration tools (\<open>storage/surreal_ops.py\<close>, \<open>surreal_inventory.py\<close>,
  \<open>ingestion/surreal_sqlite_snapshot.py\<close>) and everything under \<open>devtools/\<close> and \<open>benchmarks/\<close>; the vendored
  Airweave code and the Gmail and Telegram providers over it, which are the parameter of the
  application-source ingest; \<open>clear\<close>, \<open>drop_chunks\<close> and \<open>reindex_graph\<close> of the pipeline, which drop
  tables or refill the graph; the regular expressions of the structural extractor, key terms and
  acronym search; the service's handlers for reading documents and its status reports.
\<close>

end
